(* ===== verification/Prelude.thy ===== *)
theory Prelude
  imports Complex_Main "HOL-Library.Word"
begin

text \<open>
  Shared vocabulary of the development: the named theorem collections the component
  theories extend, Python's \<open>str\<close> of an integer with its reader, the
  integer and decimal conversions the code relies on (\<open>int(Decimal)\<close>,
  \<open>max\<close>/\<open>min\<close> clamps), and the generic lemmas on lists and maps that more than one
  component uses. A Python \<open>str\<close> is modelled as a \<open>string\<close> whose characters are
  code points below 256.
\<close>

named_theorems gw_defs \<open>definitions a component unfolds when its steps are evaluated\<close>
named_theorems redis_simps \<open>what a Redis command returns and changes\<close>

section \<open>Decimal text of an integer\<close>

definition digit_char :: "nat \<Rightarrow> char" where
  "digit_char d = char_of (48 + d)"

definition char_digit :: "char \<Rightarrow> nat" where
  "char_digit c = of_char c - 48"

definition is_digit :: "char \<Rightarrow> bool" where
  "is_digit c \<longleftrightarrow> 48 \<le> (of_char c :: nat) \<and> (of_char c :: nat) \<le> 57"

fun show_nat :: "nat \<Rightarrow> string" where
  "show_nat n = (if n < 10 then [digit_char n] else show_nat (n div 10) @ [digit_char (n mod 10)])"

declare show_nat.simps [simp del]

definition show_int :: "int \<Rightarrow> string" where
  "show_int i = (if i < 0 then CHR ''-'' # show_nat (nat (- i)) else show_nat (nat i))"

definition read_digits :: "string \<Rightarrow> nat" where
  "read_digits s = foldl (\<lambda>a c. a * 10 + char_digit c) 0 s"

text \<open>Python's \<open>int(s)\<close> on an optionally signed run of digits; anything else is a \<open>ValueError\<close>.\<close>

definition read_int :: "string \<Rightarrow> int option" where
  "read_int s =
     (case s of
        [] \<Rightarrow> None
      | c # cs \<Rightarrow>
          (if c = CHR ''-'' then
             (if cs \<noteq> [] \<and> list_all is_digit cs then Some (- int (read_digits cs)) else None)
           else (if list_all is_digit s then Some (int (read_digits s)) else None)))"

lemma of_char_digit: "d < 10 \<Longrightarrow> (of_char (digit_char d) :: nat) = 48 + d"
  by (simp add: digit_char_def)

lemma is_digit_digit_char [simp]: "d < 10 \<Longrightarrow> is_digit (digit_char d)"
  by (simp add: is_digit_def of_char_digit)

lemma char_digit_digit_char [simp]: "d < 10 \<Longrightarrow> char_digit (digit_char d) = d"
  by (simp add: char_digit_def of_char_digit)

lemma show_nat_nonempty [simp]: "show_nat n \<noteq> []"
  by (subst show_nat.simps) simp

lemma show_nat_digits: "list_all is_digit (show_nat n)"
proof (induction n rule: show_nat.induct)
  case (1 n)
  then show ?case by (subst show_nat.simps) simp
qed

lemma read_digits_snoc [simp]: "read_digits (s @ [c]) = read_digits s * 10 + char_digit c"
  by (simp add: read_digits_def)

lemma read_digits_show_nat [simp]: "read_digits (show_nat n) = n"
proof (induction n rule: show_nat.induct)
  case (1 n)
  show ?case
  proof (cases "n < 10")
    case True
    then show ?thesis by (subst show_nat.simps) (simp add: read_digits_def)
  next
    case False
    with "1.IH" show ?thesis by (subst show_nat.simps) simp
  qed
qed

lemma minus_not_digit [simp]: "\<not> is_digit (CHR ''-'')"
  by (simp add: is_digit_def)

lemma colon_not_digit [simp]: "\<not> is_digit (CHR '':'')"
  by (simp add: is_digit_def)

lemma show_nat_hd_not_minus: "show_nat n = c # cs \<Longrightarrow> c \<noteq> CHR ''-''"
  using show_nat_digits [of n] by auto

lemma read_int_show_int [simp]: "read_int (show_int i) = Some i"
proof (cases "i < 0")
  case True
  then show ?thesis by (simp add: show_int_def read_int_def show_nat_digits)
next
  case False
  obtain c cs where c: "show_nat (nat i) = c # cs" by (cases "show_nat (nat i)") auto
  then have "read_digits (c # cs) = nat i" using read_digits_show_nat [of "nat i"] by simp
  moreover have "list_all is_digit (c # cs)" using show_nat_digits [of "nat i"] c by simp
  ultimately show ?thesis
    using False c show_nat_hd_not_minus [OF c] by (simp add: show_int_def read_int_def)
qed

lemma show_int_inj [simp]: "show_int i = show_int j \<longleftrightarrow> i = j"
  by (metis read_int_show_int option.inject)

lemma show_int_nonempty [simp]: "show_int i \<noteq> []"
  by (simp add: show_int_def)

lemma colon_notin_show_int [simp]: "CHR '':'' \<notin> set (show_int i)"
  using show_nat_digits [of "nat i"] show_nat_digits [of "nat (- i)"]
  by (auto simp: show_int_def list_all_iff)

section \<open>Fields separated by a character\<close>

lemma sep_split:
  "c \<notin> set a \<Longrightarrow> c \<notin> set a' \<Longrightarrow> a @ c # b = a' @ c # b' \<longleftrightarrow> a = a' \<and> b = b'"
proof (induction a arbitrary: a')
  case Nil
  then show ?case by (cases a') auto
next
  case (Cons x xs)
  then show ?case by (cases a') auto
qed

text \<open>Python's \<open>s.split(c, 1)\<close>: the parts before and after the first \<open>c\<close>.\<close>

fun split_first :: "char \<Rightarrow> string \<Rightarrow> (string \<times> string) option" where
  "split_first c [] = None"
| "split_first c (x # xs) =
     (if x = c then Some ([], xs)
      else (case split_first c xs of None \<Rightarrow> None | Some (a, b) \<Rightarrow> Some (x # a, b)))"

lemma split_first_None_iff: "split_first c s = None \<longleftrightarrow> c \<notin> set s"
  by (induction s) (auto split: option.splits)

lemma split_first_append: "c \<notin> set a \<Longrightarrow> split_first c (a @ c # b) = Some (a, b)"
  by (induction a) auto

lemma split_first_Some: "split_first c s = Some (a, b) \<Longrightarrow> s = a @ c # b \<and> c \<notin> set a"
  by (induction s arbitrary: a) (auto split: if_splits option.splits)

definition starts_with :: "string \<Rightarrow> string \<Rightarrow> bool" where
  "starts_with p s \<longleftrightarrow> take (length p) s = p"

lemma starts_with_append [simp]: "starts_with p (p @ s)"
  by (simp add: starts_with_def)

section \<open>Numbers\<close>

text \<open>Python's \<open>int(x)\<close> on a decimal: truncation towards zero.\<close>

definition py_trunc :: "rat \<Rightarrow> int" where
  "py_trunc x = (if 0 \<le> x then \<lfloor>x\<rfloor> else \<lceil>x\<rceil>)"

lemma py_trunc_of_int [simp]: "py_trunc (of_int i) = i"
  by (simp add: py_trunc_def)

lemma py_trunc_nonneg: "0 \<le> x \<Longrightarrow> 0 \<le> py_trunc x"
  by (simp add: py_trunc_def)

lemma py_trunc_le: "0 \<le> x \<Longrightarrow> of_int (py_trunc x) \<le> x"
  by (simp add: py_trunc_def)

text \<open>Python's \<open>value or default\<close> on an optional integer: \<open>None\<close> and 0 are falsy.\<close>

definition or_int :: "int option \<Rightarrow> int \<Rightarrow> int" where
  "or_int v d = (case v of None \<Rightarrow> d | Some x \<Rightarrow> if x = 0 then d else x)"

definition or_str :: "string option \<Rightarrow> string option \<Rightarrow> string option" where
  "or_str v d = (case v of None \<Rightarrow> d | Some x \<Rightarrow> if x = [] then d else v)"

definition or_opt_int :: "int option \<Rightarrow> int option \<Rightarrow> int option" where
  "or_opt_int v d = (case v of None \<Rightarrow> d | Some x \<Rightarrow> if x = 0 then d else v)"

definition truthy_int :: "int option \<Rightarrow> bool" where
  "truthy_int v \<longleftrightarrow> (case v of None \<Rightarrow> False | Some x \<Rightarrow> x \<noteq> 0)"

definition truthy_str :: "string option \<Rightarrow> bool" where
  "truthy_str v \<longleftrightarrow> (case v of None \<Rightarrow> False | Some x \<Rightarrow> x \<noteq> [])"

section \<open>Association lists and dictionaries\<close>

text \<open>A Python \<open>dict\<close> with its insertion order: assignment keeps the position of a known key.\<close>

fun dict_set :: "'k \<Rightarrow> 'v \<Rightarrow> ('k \<times> 'v) list \<Rightarrow> ('k \<times> 'v) list" where
  "dict_set k v [] = [(k, v)]"
| "dict_set k v ((k', v') # xs) = (if k = k' then (k, v) # xs else (k', v') # dict_set k v xs)"

lemma map_of_dict_set [simp]: "map_of (dict_set k v xs) = (map_of xs)(k \<mapsto> v)"
  by (induction k v xs rule: dict_set.induct) auto

lemma fst_set_dict_set [simp]: "fst ` set (dict_set k v xs) = insert k (fst ` set xs)"
  by (induction k v xs rule: dict_set.induct) auto

lemma distinct_dict_set [intro]:
  "distinct (map fst xs) \<Longrightarrow> distinct (map fst (dict_set k v xs))"
proof (induction k v xs rule: dict_set.induct)
  case (2 k v k' v' xs)
  have "k' \<in> fst ` set (dict_set k v xs) \<longleftrightarrow> k' = k \<or> k' \<in> fst ` set xs" by simp
  with 2 show ?case by (auto simp: image_iff)
qed simp

lemma dict_set_absent: "k \<notin> fst ` set xs \<Longrightarrow> dict_set k v xs = xs @ [(k, v)]"
  by (induction k v xs rule: dict_set.induct) auto

lemma length_dict_set:
  "length (dict_set k v xs) = (if k \<in> fst ` set xs then length xs else Suc (length xs))"
  by (induction k v xs rule: dict_set.induct) auto

text \<open>Sum of a list after one entry was removed or appended, for counting arguments.\<close>

lemma sum_list_remove1:
  "x \<in> set xs \<Longrightarrow> sum_list (map f (remove1 x xs)) = sum_list (map f xs) - (f x :: int)"
  by (induction xs) auto

lemma map_upd_same_None [simp]: "m k = None \<Longrightarrow> m(k := None) = m"
  by auto

end
