(* ===== verification/Redis.thy ===== *)
theory Redis
  imports Prelude
begin

text \<open>
  The Redis server as the gateway sees it. The commands follow the repository's own
  in-memory double (\<open>tests/_async_redis_double.py\<close>): one map per value kind, a deadline per
  key, and a key whose deadline has passed reads as absent. Times are milliseconds; every
  command takes the time at which it runs. Counters hold integers directly (Redis keeps
  their decimal text).

  \<open>r_wire\<close> is the behaviour of the connection, one entry per call the client makes:
  the call succeeds, it is lost before the server runs it, or the server runs it and the
  reply is lost. The last two raise \<open>RedisError\<close> in the client, which \<open>rcall\<close> returns
  as \<open>None\<close>; an exhausted script means a healthy connection.

  The locales are the interfaces the components rely on: a counter store (quota,
  generations), a sorted-set store (RPM window and concurrency semaphore) and a hash store
  (the TPM bucket). The Lua scripts of the components are written over the commands of these
  interfaces, their lemmas are proved from the laws alone, and each locale is
  interpreted here on the store.
\<close>

datatype wire = WOk | WLost | WUnacked

record redis =
  r_ints :: "string \<Rightarrow> int option"
  r_strs :: "string \<Rightarrow> string option"
  r_lists :: "string \<Rightarrow> string list"
  r_hashes :: "string \<Rightarrow> (string \<times> int) list"
  r_zsets :: "string \<Rightarrow> (string \<times> int) list"
  r_sets :: "string \<Rightarrow> string list"
  r_texts :: "string \<Rightarrow> (string \<times> string) list"
  r_expiry :: "string \<Rightarrow> int option"
  r_published :: "(string \<times> string) list"
  r_wire :: "wire list"

definition empty_redis :: redis where
  "empty_redis =
     \<lparr>r_ints = (\<lambda>_. None), r_strs = (\<lambda>_. None), r_lists = (\<lambda>_. []), r_hashes = (\<lambda>_. []),
      r_zsets = (\<lambda>_. []), r_sets = (\<lambda>_. []), r_texts = (\<lambda>_. []), r_expiry = (\<lambda>_. None), r_published = [], r_wire = []\<rparr>"

section \<open>Expiry\<close>

definition expired :: "int \<Rightarrow> string \<Rightarrow> redis \<Rightarrow> bool" where
  "expired now k s \<longleftrightarrow> (case r_expiry s k of None \<Rightarrow> False | Some d \<Rightarrow> d \<le> now)"

definition evict_if_expired :: "int \<Rightarrow> string \<Rightarrow> redis \<Rightarrow> redis" where
  "evict_if_expired now k s =
     (if expired now k s
      then s\<lparr>r_ints := (r_ints s)(k := None), r_strs := (r_strs s)(k := None),
             r_lists := (r_lists s)(k := []), r_hashes := (r_hashes s)(k := []),
             r_zsets := (r_zsets s)(k := []), r_sets := (r_sets s)(k := []),
             r_texts := (r_texts s)(k := []), r_expiry := (r_expiry s)(k := None)\<rparr>
      else s)"

definition key_exists :: "string \<Rightarrow> redis \<Rightarrow> bool" where
  "key_exists k s \<longleftrightarrow> r_ints s k \<noteq> None \<or> r_strs s k \<noteq> None \<or> r_lists s k \<noteq> []
     \<or> r_hashes s k \<noteq> [] \<or> r_zsets s k \<noteq> [] \<or> r_sets s k \<noteq> [] \<or> r_texts s k \<noteq> []"

definition redis_pexpire :: "int \<Rightarrow> string \<Rightarrow> int \<Rightarrow> redis \<Rightarrow> redis" where
  "redis_pexpire now k ms s0 =
     (let s = evict_if_expired now k s0
      in if key_exists k s then s\<lparr>r_expiry := (r_expiry s)(k \<mapsto> now + ms)\<rparr> else s)"

definition redis_expire :: "int \<Rightarrow> string \<Rightarrow> int \<Rightarrow> redis \<Rightarrow> redis" where
  "redis_expire now k secs s = redis_pexpire now k (secs * 1000) s"

definition redis_exists :: "int \<Rightarrow> string \<Rightarrow> redis \<Rightarrow> bool" where
  "redis_exists now k s \<longleftrightarrow> \<not> expired now k s \<and> key_exists k s"

section \<open>Strings and counters\<close>

definition redis_get :: "int \<Rightarrow> string \<Rightarrow> redis \<Rightarrow> string option" where
  "redis_get now k s = (if expired now k s then None else r_strs s k)"

definition redis_set :: "int \<Rightarrow> string \<Rightarrow> string \<Rightarrow> int option \<Rightarrow> redis \<Rightarrow> redis" where
  "redis_set now k v ex s =
     s\<lparr>r_strs := (r_strs s)(k \<mapsto> v),
       r_expiry := (r_expiry s)(k := (case ex of None \<Rightarrow> None | Some secs \<Rightarrow> Some (now + secs * 1000)))\<rparr>"

definition redis_get_int :: "int \<Rightarrow> string \<Rightarrow> redis \<Rightarrow> int option" where
  "redis_get_int now k s = (if expired now k s then None else r_ints s k)"

definition redis_count :: "int \<Rightarrow> string \<Rightarrow> redis \<Rightarrow> int" where
  "redis_count now k s = (case redis_get_int now k s of None \<Rightarrow> 0 | Some c \<Rightarrow> c)"

definition redis_incrby :: "int \<Rightarrow> string \<Rightarrow> int \<Rightarrow> redis \<Rightarrow> int \<times> redis" where
  "redis_incrby now k d s0 =
     (let s = evict_if_expired now k s0;
          c = (case r_ints s k of None \<Rightarrow> 0 | Some c \<Rightarrow> c) + d
      in (c, s\<lparr>r_ints := (r_ints s)(k \<mapsto> c)\<rparr>))"

section \<open>Lists\<close>

definition redis_lrange :: "int \<Rightarrow> string \<Rightarrow> redis \<Rightarrow> string list" where
  "redis_lrange now k s = (if expired now k s then [] else r_lists s k)"

definition redis_rpush :: "int \<Rightarrow> string \<Rightarrow> string \<Rightarrow> redis \<Rightarrow> redis" where
  "redis_rpush now k v s0 =
     (let s = evict_if_expired now k s0 in s\<lparr>r_lists := (r_lists s)(k := r_lists s k @ [v])\<rparr>)"

definition redis_lpop :: "int \<Rightarrow> string \<Rightarrow> redis \<Rightarrow> string option \<times> redis" where
  "redis_lpop now k s0 =
     (let s = evict_if_expired now k s0
      in case r_lists s k of [] \<Rightarrow> (None, s) | x # xs \<Rightarrow> (Some x, s\<lparr>r_lists := (r_lists s)(k := xs)\<rparr>))"

text \<open>\<open>LREM key 1 value\<close>: the first equal element goes; the reply is how many went.\<close>

definition redis_lrem1 :: "int \<Rightarrow> string \<Rightarrow> string \<Rightarrow> redis \<Rightarrow> int \<times> redis" where
  "redis_lrem1 now k v s0 =
     (let s = evict_if_expired now k s0
      in (if v \<in> set (r_lists s k) then 1 else 0,
          s\<lparr>r_lists := (r_lists s)(k := remove1 v (r_lists s k))\<rparr>))"

definition redis_delete :: "string \<Rightarrow> redis \<Rightarrow> redis" where
  "redis_delete k s =
     s\<lparr>r_ints := (r_ints s)(k := None), r_strs := (r_strs s)(k := None),
       r_lists := (r_lists s)(k := []), r_hashes := (r_hashes s)(k := []),
       r_zsets := (r_zsets s)(k := []), r_sets := (r_sets s)(k := []),
             r_texts := (r_texts s)(k := []), r_expiry := (r_expiry s)(k := None)\<rparr>"

section \<open>Hashes\<close>

definition redis_hget :: "int \<Rightarrow> string \<Rightarrow> string \<Rightarrow> redis \<Rightarrow> int option" where
  "redis_hget now k f s = (if expired now k s then None else map_of (r_hashes s k) f)"

definition redis_hset :: "int \<Rightarrow> string \<Rightarrow> string \<Rightarrow> int \<Rightarrow> redis \<Rightarrow> redis" where
  "redis_hset now k f v s0 =
     (let s = evict_if_expired now k s0
      in s\<lparr>r_hashes := (r_hashes s)(k := dict_set f v (r_hashes s k))\<rparr>)"

definition redis_hincrby :: "int \<Rightarrow> string \<Rightarrow> string \<Rightarrow> int \<Rightarrow> redis \<Rightarrow> redis" where
  "redis_hincrby now k f d s =
     redis_hset now k f ((case redis_hget now k f s of None \<Rightarrow> 0 | Some v \<Rightarrow> v) + d) s"

text \<open>Hashes of text fields, as the channel state uses them.\<close>

definition redis_hgetall :: "int \<Rightarrow> string \<Rightarrow> redis \<Rightarrow> (string \<times> string) list" where
  "redis_hgetall now k s = (if expired now k s then [] else r_texts s k)"

definition redis_hset_text :: "int \<Rightarrow> string \<Rightarrow> (string \<times> string) list \<Rightarrow> redis \<Rightarrow> redis" where
  "redis_hset_text now k fvs s0 =
     (let s = evict_if_expired now k s0
      in s\<lparr>r_texts := (r_texts s)(k := fold (\<lambda>(f, v) h. dict_set f v h) fvs (r_texts s k))\<rparr>)"

section \<open>Sets\<close>

definition redis_smembers :: "int \<Rightarrow> string \<Rightarrow> redis \<Rightarrow> string list" where
  "redis_smembers now k s = (if expired now k s then [] else r_sets s k)"

text \<open>\<open>SADD\<close> with one member: the reply is how many were new.\<close>

definition redis_sadd :: "int \<Rightarrow> string \<Rightarrow> string \<Rightarrow> redis \<Rightarrow> int \<times> redis" where
  "redis_sadd now k m s0 =
     (let s = evict_if_expired now k s0
      in if m \<in> set (r_sets s k) then (0, s)
         else (1, s\<lparr>r_sets := (r_sets s)(k := r_sets s k @ [m])\<rparr>))"

text \<open>A set that lost its last member is gone, and its deadline with it.\<close>

definition set_store :: "string \<Rightarrow> string list \<Rightarrow> redis \<Rightarrow> redis" where
  "set_store k xs s =
     (let s' = s\<lparr>r_sets := (r_sets s)(k := xs)\<rparr>
      in if xs = [] \<and> \<not> key_exists k s' then s'\<lparr>r_expiry := (r_expiry s')(k := None)\<rparr> else s')"

definition redis_srem :: "int \<Rightarrow> string \<Rightarrow> string \<Rightarrow> redis \<Rightarrow> redis" where
  "redis_srem now k m s0 =
     (let s = evict_if_expired now k s0 in set_store k (filter (\<lambda>x. x \<noteq> m) (r_sets s k)) s)"

text \<open>\<open>SET key value EX secs NX\<close>: whether the key was free.\<close>

definition redis_set_nx :: "int \<Rightarrow> string \<Rightarrow> string \<Rightarrow> int \<Rightarrow> redis \<Rightarrow> bool \<times> redis" where
  "redis_set_nx now k v secs s0 =
     (let s = evict_if_expired now k s0
      in if key_exists k s then (False, s) else (True, redis_set now k v (Some secs) s))"

section \<open>Publishing\<close>

definition redis_publish :: "string \<Rightarrow> string \<Rightarrow> redis \<Rightarrow> redis" where
  "redis_publish channel message s = s\<lparr>r_published := r_published s @ [(channel, message)]\<rparr>"

section \<open>Sorted sets\<close>

definition redis_zset :: "int \<Rightarrow> string \<Rightarrow> redis \<Rightarrow> (string \<times> int) list" where
  "redis_zset now k s = (if expired now k s then [] else r_zsets s k)"

definition redis_zcard :: "int \<Rightarrow> string \<Rightarrow> redis \<Rightarrow> int" where
  "redis_zcard now k s = int (length (redis_zset now k s))"

text \<open>The score of the first element of \<open>ZRANGE key 0 0 WITHSCORES\<close>: the least score.\<close>

definition zset_min :: "(string \<times> int) list \<Rightarrow> int option" where
  "zset_min z = (case map snd z of [] \<Rightarrow> None | x # xs \<Rightarrow> Some (fold min xs x))"

definition redis_zmin :: "int \<Rightarrow> string \<Rightarrow> redis \<Rightarrow> int option" where
  "redis_zmin now k s = zset_min (redis_zset now k s)"

definition redis_zadd :: "int \<Rightarrow> string \<Rightarrow> int \<Rightarrow> string \<Rightarrow> redis \<Rightarrow> redis" where
  "redis_zadd now k sc m s0 =
     (let s = evict_if_expired now k s0
      in s\<lparr>r_zsets := (r_zsets s)(k := dict_set m sc (r_zsets s k))\<rparr>)"

text \<open>A sorted set that lost its last member is gone, and its deadline with it.\<close>

definition zset_store :: "string \<Rightarrow> (string \<times> int) list \<Rightarrow> redis \<Rightarrow> redis" where
  "zset_store k z s =
     (let s' = s\<lparr>r_zsets := (r_zsets s)(k := z)\<rparr>
      in if z = [] \<and> \<not> key_exists k s' then s'\<lparr>r_expiry := (r_expiry s')(k := None)\<rparr> else s')"

definition redis_zrem :: "int \<Rightarrow> string \<Rightarrow> string \<Rightarrow> redis \<Rightarrow> redis" where
  "redis_zrem now k m s0 =
     (let s = evict_if_expired now k s0 in zset_store k (filter (\<lambda>(m', _). m' \<noteq> m) (r_zsets s k)) s)"

text \<open>\<open>ZREMRANGEBYSCORE key -inf cutoff\<close>.\<close>

definition redis_zremrangebyscore :: "int \<Rightarrow> string \<Rightarrow> int \<Rightarrow> redis \<Rightarrow> redis" where
  "redis_zremrangebyscore now k cutoff s0 =
     (let s = evict_if_expired now k s0
      in zset_store k (filter (\<lambda>(_, sc). cutoff < sc) (r_zsets s k)) s)"

section \<open>The connection\<close>

definition rcall :: "(redis \<Rightarrow> 'a \<times> redis) \<Rightarrow> redis \<Rightarrow> 'a option \<times> redis" where
  "rcall f s =
     (case r_wire s of
        [] \<Rightarrow> (let (x, t) = f s in (Some x, t))
      | w # ws \<Rightarrow>
          (let s1 = s\<lparr>r_wire := ws\<rparr>
           in case w of
                WOk \<Rightarrow> (let (x, t) = f s1 in (Some x, t))
              | WLost \<Rightarrow> (None, s1)
              | WUnacked \<Rightarrow> (let (x, t) = f s1 in (None, t))))"

definition ruse :: "(redis \<Rightarrow> redis) \<Rightarrow> redis \<Rightarrow> unit \<times> redis" where
  "ruse f s = ((), f s)"

definition rread :: "(redis \<Rightarrow> 'a) \<Rightarrow> redis \<Rightarrow> 'a \<times> redis" where
  "rread f s = (f s, s)"

lemma rcall_healthy [simp]: "r_wire s = [] \<Longrightarrow> rcall f s = (let (x, t) = f s in (Some x, t))"
  by (simp add: rcall_def)


lemma r_wire_evict [simp]: "r_wire (evict_if_expired now k s) = r_wire s"
  by (simp add: evict_if_expired_def)

lemma r_wire_zset_store [simp]: "r_wire (zset_store k z s) = r_wire s"
  by (simp add: zset_store_def Let_def)

lemma r_wire_set_store [simp]: "r_wire (set_store k xs s) = r_wire s"
  by (simp add: set_store_def Let_def)

lemma r_wire_cmds [simp]:
  "r_wire (redis_pexpire now k ms s) = r_wire s"
  "r_wire (redis_expire now k secs s) = r_wire s"
  "r_wire (redis_set now k v ex s) = r_wire s"
  "r_wire (snd (redis_incrby now k d s)) = r_wire s"
  "r_wire (redis_rpush now k v s) = r_wire s"
  "r_wire (snd (redis_lpop now k s)) = r_wire s"
  "r_wire (snd (redis_lrem1 now k v s)) = r_wire s"
  "r_wire (redis_delete k s) = r_wire s"
  "r_wire (redis_hset now k f n s) = r_wire s"
  "r_wire (redis_zadd now k sc m s) = r_wire s"
  "r_wire (redis_zrem now k m s) = r_wire s"
  "r_wire (redis_zremrangebyscore now k c s) = r_wire s"
  "r_wire (redis_hincrby now k f n s) = r_wire s"
  "r_wire (redis_hset_text now k fvs s) = r_wire s"
  "r_wire (snd (redis_sadd now k m s)) = r_wire s"
  "r_wire (redis_srem now k m s) = r_wire s"
  "r_wire (redis_publish ch msg s) = r_wire s"
  "r_wire (snd (redis_set_nx now k v secs s)) = r_wire s"
  by (simp_all add: redis_pexpire_def redis_expire_def redis_set_def redis_incrby_def redis_rpush_def
      redis_lpop_def redis_lrem1_def redis_delete_def redis_hset_def redis_zadd_def redis_zrem_def
      redis_zremrangebyscore_def redis_hincrby_def redis_hset_text_def redis_sadd_def redis_srem_def redis_publish_def
      redis_set_nx_def Let_def split: list.splits)

section \<open>Interfaces\<close>

text \<open>A store of integer counters: what the quota script and the generation counters need.\<close>

locale counter_spec =
  fixes incr :: "int \<Rightarrow> string \<Rightarrow> int \<Rightarrow> 's \<Rightarrow> int \<times> 's"
    and cnt :: "int \<Rightarrow> string \<Rightarrow> 's \<Rightarrow> int"
    and expire :: "int \<Rightarrow> string \<Rightarrow> int \<Rightarrow> 's \<Rightarrow> 's"
  assumes incr_reply: "fst (incr now k d s) = cnt now k s + d"
    and cnt_incr: "cnt now k' (snd (incr now k d s)) = cnt now k' s + (if k = k' then d else 0)"
    and cnt_expire: "0 < secs \<Longrightarrow> cnt now k' (expire now k secs s) = cnt now k' s"

text \<open>A store of sorted sets, as the contents that can be read at a time.\<close>

locale zset_spec =
  fixes zset :: "int \<Rightarrow> string \<Rightarrow> 's \<Rightarrow> (string \<times> int) list"
    and zremr :: "int \<Rightarrow> string \<Rightarrow> int \<Rightarrow> 's \<Rightarrow> 's"
    and zcard :: "int \<Rightarrow> string \<Rightarrow> 's \<Rightarrow> int"
    and zmin :: "int \<Rightarrow> string \<Rightarrow> 's \<Rightarrow> int option"
    and zadd :: "int \<Rightarrow> string \<Rightarrow> int \<Rightarrow> string \<Rightarrow> 's \<Rightarrow> 's"
    and zrem :: "int \<Rightarrow> string \<Rightarrow> string \<Rightarrow> 's \<Rightarrow> 's"
    and pexpire :: "int \<Rightarrow> string \<Rightarrow> int \<Rightarrow> 's \<Rightarrow> 's"
  assumes zset_zremr: "now \<le> now' \<Longrightarrow>
      zset now' k (zremr now k c s) = filter (\<lambda>(_, sc). c < sc) (zset now' k s)"
    and zcard_eq: "zcard now k s = int (length (zset now k s))"
    and zmin_eq: "zmin now k s = zset_min (zset now k s)"
    and zset_zadd: "zset now k (zadd now k sc m s) = dict_set m sc (zset now k s)"
    and zset_zrem: "now \<le> now' \<Longrightarrow>
      zset now' k (zrem now k m s) = filter (\<lambda>(m', _). m' \<noteq> m) (zset now' k s)"
    and zset_pexpire: "zset now' k (pexpire now k ms s) = (if now' < now + ms then zset now k s else [])"
    and zset_other: "k \<noteq> k' \<Longrightarrow> zset now' k' (zremr now k c s) = zset now' k' s"
      "k \<noteq> k' \<Longrightarrow> zset now' k' (zadd now k sc m s) = zset now' k' s"
      "k \<noteq> k' \<Longrightarrow> zset now' k' (zrem now k m s) = zset now' k' s"
      "k \<noteq> k' \<Longrightarrow> zset now' k' (pexpire now k ms s) = zset now' k' s"

text \<open>A store of hashes with integer fields.\<close>

locale hash_spec =
  fixes hget :: "int \<Rightarrow> string \<Rightarrow> string \<Rightarrow> 's \<Rightarrow> int option"
    and hset :: "int \<Rightarrow> string \<Rightarrow> string \<Rightarrow> int \<Rightarrow> 's \<Rightarrow> 's"
    and hexists :: "int \<Rightarrow> string \<Rightarrow> 's \<Rightarrow> bool"
    and pexpire :: "int \<Rightarrow> string \<Rightarrow> int \<Rightarrow> 's \<Rightarrow> 's"
  assumes hget_hset: "hget now k f' (hset now k f v s) = (if f = f' then Some v else hget now k f' s)"
    and hexists_hset: "hexists now k (hset now k f v s)"
    and hget_exists: "hget now k f s \<noteq> None \<Longrightarrow> hexists now k s"
    and hget_pexpire: "hget now' k f (pexpire now k ms s) = (if now' < now + ms then hget now k f s else None)"
    and hget_other: "k \<noteq> k' \<Longrightarrow> hget now' k' f' (hset now k f v s) = hget now' k' f' s"
      "k \<noteq> k' \<Longrightarrow> hget now' k' f' (pexpire now k ms s) = hget now' k' f' s"

text \<open>The three interfaces, on the store of this theory.\<close>

interpretation rc: counter_spec redis_incrby redis_count redis_expire
proof (unfold_locales, goal_cases)
  case (1 now k d s)
  then show ?case
    by (simp add: redis_incrby_def redis_count_def redis_get_int_def evict_if_expired_def Let_def)
next
  case (2 now k' k d s)
  then show ?case
    by (auto simp: redis_incrby_def redis_count_def redis_get_int_def evict_if_expired_def
        expired_def Let_def split: option.splits)
next
  case (3 secs now k' k s)
  then show ?case
    by (auto simp: redis_expire_def redis_pexpire_def redis_count_def redis_get_int_def
        evict_if_expired_def expired_def key_exists_def Let_def split: option.splits)
qed

interpretation rz: zset_spec redis_zset redis_zremrangebyscore redis_zcard redis_zmin redis_zadd
  redis_zrem redis_pexpire
proof (unfold_locales, goal_cases)
  case (1 now now' k c s)
  then show ?case
    by (auto simp: redis_zset_def redis_zremrangebyscore_def zset_store_def evict_if_expired_def
        expired_def Let_def split: option.splits)
next
  case (5 now now' k m s)
  then show ?case
    by (auto simp: redis_zset_def redis_zrem_def zset_store_def evict_if_expired_def
        expired_def Let_def split: option.splits)
next
  case (6 now' k now ms s)
  then show ?case
    by (auto simp: redis_zset_def redis_pexpire_def evict_if_expired_def key_exists_def
        expired_def Let_def split: option.splits)
qed (auto simp: redis_zset_def redis_zcard_def redis_zmin_def redis_zadd_def redis_zrem_def
    redis_zremrangebyscore_def redis_pexpire_def zset_store_def evict_if_expired_def
    expired_def Let_def split: option.splits)

interpretation rh: hash_spec redis_hget redis_hset redis_exists redis_pexpire
proof (unfold_locales, goal_cases)
  case (1 now k f' f v s)
  then show ?case
    by (auto simp: redis_hget_def redis_hset_def evict_if_expired_def expired_def Let_def
        split: option.splits)
next
  case (2 now k f v s)
  have "dict_set f v xs \<noteq> []" for xs by (cases xs) (auto split: if_splits)
  then show ?case
    by (auto simp: redis_exists_def redis_hset_def evict_if_expired_def expired_def key_exists_def
        Let_def split: option.splits)
next
  case (3 now k f s)
  then show ?case
    by (auto simp: redis_exists_def redis_hget_def key_exists_def split: if_splits)
next
  case (4 now' k f now ms s)
  then show ?case
    by (auto simp: redis_hget_def redis_pexpire_def evict_if_expired_def key_exists_def
        expired_def Let_def split: option.splits)
qed (auto simp: redis_hget_def redis_hset_def redis_pexpire_def evict_if_expired_def
    expired_def Let_def split: option.splits)

section \<open>Frame: a command touches its own kind of value only\<close>

lemma hash_of_zset_cmds [simp]:
  "k \<noteq> k' \<Longrightarrow> redis_hget now k' f (redis_zadd now' k sc m s) = redis_hget now k' f s"
  "k \<noteq> k' \<Longrightarrow> redis_hget now k' f (redis_zrem now' k m s) = redis_hget now k' f s"
  "k \<noteq> k' \<Longrightarrow> redis_hget now k' f (redis_zremrangebyscore now' k c s) = redis_hget now k' f s"
  by (auto simp: redis_hget_def redis_zadd_def redis_zrem_def redis_zremrangebyscore_def
      zset_store_def evict_if_expired_def expired_def Let_def split: option.splits)

lemma zset_of_hash_cmds [simp]:
  "k \<noteq> k' \<Longrightarrow> redis_zset now k' (redis_hset now' k f v s) = redis_zset now k' s"
  by (auto simp: redis_zset_def redis_hset_def evict_if_expired_def expired_def Let_def
      split: option.splits)

end
