(* ===== verification/Json.thy ===== *)
theory Json
  imports Prelude
begin

text \<open>
  Python values that come from JSON, and the part of the standard library's \<open>json\<close> the
  code uses: \<open>dumps\<close> (default separators, ASCII output, escapes) and \<open>loads\<close>, a
  recursive-descent reader. A float is a mantissa and a power of ten; keys of an object keep
  their order, and reading a repeated key overwrites, as a \<open>dict\<close> does. The reader takes fuel
  that \<open>loads\<close> sets from the length of the text; \<open>loads_dumps\<close> shows that it suffices on
  everything \<open>dumps\<close> writes. (The reader is more liberal than Python on leading zeros.)
\<close>

datatype json =
    JNull
  | JBool bool
  | JInt int
  | JFloat int int
  | JStr string
  | JArr "json list"
  | JObj "(string \<times> json) list"

section \<open>Dictionary access\<close>

text \<open>\<open>data.get(key)\<close>: \<open>None\<close> and an absent key are both \<open>JNull\<close>.\<close>

definition dget :: "string \<Rightarrow> (string \<times> json) list \<Rightarrow> json" where
  "dget k d = (case map_of d k of None \<Rightarrow> JNull | Some v \<Rightarrow> v)"

definition dget_default :: "string \<Rightarrow> json \<Rightarrow> (string \<times> json) list \<Rightarrow> json" where
  "dget_default k v d = (case map_of d k of None \<Rightarrow> v | Some x \<Rightarrow> x)"

text \<open>An optional value: \<open>None\<close> is null.\<close>

definition opt_json :: "('a \<Rightarrow> json) \<Rightarrow> 'a option \<Rightarrow> json" where
  "opt_json f v = (case v of None \<Rightarrow> JNull | Some x \<Rightarrow> f x)"

text \<open>Python truth of a value.\<close>

fun truthy :: "json \<Rightarrow> bool" where
  "truthy JNull = False"
| "truthy (JBool b) = b"
| "truthy (JInt i) = (i \<noteq> 0)"
| "truthy (JFloat m e) = (m \<noteq> 0)"
| "truthy (JStr s) = (s \<noteq> [])"
| "truthy (JArr xs) = (xs \<noteq> [])"
| "truthy (JObj d) = (d \<noteq> [])"

section \<open>Writing\<close>

definition hex_char :: "nat \<Rightarrow> char" where
  "hex_char d = (if d < 10 then char_of (48 + d) else char_of (87 + d))"

definition unhex_char :: "char \<Rightarrow> nat option" where
  "unhex_char c =
     (let n = (of_char c :: nat)
      in if 48 \<le> n \<and> n \<le> 57 then Some (n - 48)
         else if 97 \<le> n \<and> n \<le> 102 then Some (n - 87)
         else if 65 \<le> n \<and> n \<le> 70 then Some (n - 55)
         else None)"

definition esc_char :: "char \<Rightarrow> string" where
  "esc_char c =
     (let n = (of_char c :: nat)
      in if n = 34 \<or> n = 92 then [CHR 0x5C, c]
         else if n = 10 then [CHR 0x5C, CHR ''n'']
         else if n = 13 then [CHR 0x5C, CHR ''r'']
         else if n = 9 then [CHR 0x5C, CHR ''t'']
         else if n = 8 then [CHR 0x5C, CHR ''b'']
         else if n = 12 then [CHR 0x5C, CHR ''f'']
         else if 32 \<le> n \<and> n \<le> 126 then [c]
         else [CHR 0x5C, CHR ''u'', CHR ''0'', CHR ''0'', hex_char (n div 16), hex_char (n mod 16)])"

definition quote_str :: "string \<Rightarrow> string" where
  "quote_str s = CHR 0x22 # concat (map esc_char s) @ [CHR 0x22]"

fun join_with :: "string \<Rightarrow> string list \<Rightarrow> string" where
  "join_with sep [] = []"
| "join_with sep [x] = x"
| "join_with sep (x # y # xs) = x @ sep @ join_with sep (y # xs)"

fun dumps :: "json \<Rightarrow> string" where
  "dumps JNull = ''null''"
| "dumps (JBool b) = (if b then ''true'' else ''false'')"
| "dumps (JInt i) = show_int i"
| "dumps (JFloat m e) = show_int m @ ''e'' @ show_int e"
| "dumps (JStr s) = quote_str s"
| "dumps (JArr xs) = ''['' @ join_with '', '' (map dumps xs) @ '']''"
| "dumps (JObj d) = ''{'' @ join_with '', '' (map (\<lambda>(k, v). quote_str k @ '': '' @ dumps v) d) @ ''}''"

section \<open>Reading\<close>

definition is_ws :: "char \<Rightarrow> bool" where
  "is_ws c \<longleftrightarrow> c = CHR '' '' \<or> (of_char c :: nat) = 10 \<or> (of_char c :: nat) = 13 \<or> (of_char c :: nat) = 9"

definition skip_ws :: "string \<Rightarrow> string" where
  "skip_ws s = dropWhile is_ws s"

definition unescape :: "char \<Rightarrow> char option" where
  "unescape d =
     (let n = (of_char d :: nat)
      in if n = 34 \<or> n = 92 \<or> n = 47 then Some d
         else if d = CHR ''n'' then Some (char_of (10::nat))
         else if d = CHR ''r'' then Some (char_of (13::nat))
         else if d = CHR ''t'' then Some (char_of (9::nat))
         else if d = CHR ''b'' then Some (char_of (8::nat))
         else if d = CHR ''f'' then Some (char_of (12::nat))
         else None)"

definition hex4 :: "char \<Rightarrow> char \<Rightarrow> char \<Rightarrow> char \<Rightarrow> char option" where
  "hex4 a b x y =
     (case (unhex_char a, unhex_char b, unhex_char x, unhex_char y) of
        (Some p, Some q, Some r, Some t) \<Rightarrow>
          (let n = ((p * 16 + q) * 16 + r) * 16 + t in if n < 256 then Some (char_of n) else None)
      | _ \<Rightarrow> None)"

text \<open>The body of a string literal, up to its closing quote.\<close>

fun read_str :: "string \<Rightarrow> (string \<times> string) option" where
  "read_str [] = None"
| "read_str (c # r) =
     (if of_char c = (34::nat) then Some ([], r)
      else if of_char c = (92::nat) then
        (case r of
           [] \<Rightarrow> None
         | d # r1 \<Rightarrow>
             (if d = CHR ''u'' then
                (case r1 of
                   a # b # x # y # r2 \<Rightarrow>
                     (case hex4 a b x y of
                        None \<Rightarrow> None
                      | Some ch \<Rightarrow> map_option (\<lambda>(t, z). (ch # t, z)) (read_str r2))
                 | _ \<Rightarrow> None)
              else
                (case unescape d of
                   None \<Rightarrow> None
                 | Some ch \<Rightarrow> map_option (\<lambda>(t, z). (ch # t, z)) (read_str r1))))
      else if of_char c < (32::nat) then None
      else map_option (\<lambda>(t, z). (c # t, z)) (read_str r))"

text \<open>A sign and a run of digits.\<close>

definition read_signed :: "string \<Rightarrow> (int \<times> string) option" where
  "read_signed s =
     (let neg = (s \<noteq> [] \<and> hd s = CHR ''-'');
          r = (if neg then tl s else s);
          ds = takeWhile is_digit r
      in if ds = [] then None
         else Some (if neg then - int (read_digits ds) else int (read_digits ds), dropWhile is_digit r))"

definition read_frac :: "int \<Rightarrow> string \<Rightarrow> string \<Rightarrow> (int \<times> nat \<times> string) option" where
  "read_frac i sg s =
     (case s of
        c # r \<Rightarrow>
          (if c = CHR ''.'' then
             (let ds = takeWhile is_digit r
              in if ds = [] then None
                 else Some ((if sg = ''-'' then - int (read_digits ds) else int (read_digits ds)) + i * 10 ^ length ds,
                            length ds, dropWhile is_digit r))
           else Some (i, 0, s))
      | [] \<Rightarrow> Some (i, 0, s))"

definition read_num :: "string \<Rightarrow> (json \<times> string) option" where
  "read_num s =
     (case read_signed s of
        None \<Rightarrow> None
      | Some (i, r) \<Rightarrow>
          (case read_frac i (take 1 s) r of
             None \<Rightarrow> None
           | Some (m, k, r1) \<Rightarrow>
               (case r1 of
                  c # r2 \<Rightarrow>
                    (if c = CHR ''e'' \<or> c = CHR ''E'' then
                       (case read_signed (if r2 \<noteq> [] \<and> hd r2 = CHR ''+'' then tl r2 else r2) of
                          None \<Rightarrow> None
                        | Some (e, r3) \<Rightarrow> Some (JFloat m (e - int k), r3))
                     else if k = 0 then Some (JInt i, r1) else Some (JFloat m (- int k), r1))
                | [] \<Rightarrow> if k = 0 then Some (JInt i, r1) else Some (JFloat m (- int k), r1))))"

definition read_word :: "string \<Rightarrow> json \<Rightarrow> string \<Rightarrow> (json \<times> string) option" where
  "read_word w v s = (if starts_with w s then Some (v, drop (length w) s) else None)"

fun read_val :: "nat \<Rightarrow> string \<Rightarrow> (json \<times> string) option"
and read_arr :: "nat \<Rightarrow> string \<Rightarrow> json list \<Rightarrow> (json \<times> string) option"
and read_obj :: "nat \<Rightarrow> string \<Rightarrow> (string \<times> json) list \<Rightarrow> (json \<times> string) option" where
  "read_val 0 s = None"
| "read_val (Suc n) s =
     (case skip_ws s of
        [] \<Rightarrow> None
      | c # r \<Rightarrow>
          (if of_char c = (34::nat) then map_option (\<lambda>(t, z). (JStr t, z)) (read_str r)
           else if c = CHR ''['' then
             (case skip_ws r of
                [] \<Rightarrow> None
              | d # r1 \<Rightarrow> if d = CHR '']'' then Some (JArr [], r1) else read_arr n r [])
           else if c = CHR ''{'' then
             (case skip_ws r of
                [] \<Rightarrow> None
              | d # r1 \<Rightarrow> if d = CHR ''}'' then Some (JObj [], r1) else read_obj n r [])
           else if c = CHR ''n'' then read_word ''null'' JNull (c # r)
           else if c = CHR ''t'' then read_word ''true'' (JBool True) (c # r)
           else if c = CHR ''f'' then read_word ''false'' (JBool False) (c # r)
           else read_num (c # r)))"
| "read_arr 0 s acc = None"
| "read_arr (Suc n) s acc =
     (case read_val n s of
        None \<Rightarrow> None
      | Some (v, r) \<Rightarrow>
          (case skip_ws r of
             [] \<Rightarrow> None
           | c # r1 \<Rightarrow>
               (if c = CHR '','' then read_arr n r1 (acc @ [v])
                else if c = CHR '']'' then Some (JArr (acc @ [v]), r1)
                else None)))"
| "read_obj 0 s acc = None"
| "read_obj (Suc n) s acc =
     (case skip_ws s of
        [] \<Rightarrow> None
      | q # r \<Rightarrow>
          (if of_char q = (34::nat) then
             (case read_str r of
                None \<Rightarrow> None
              | Some (k, r1) \<Rightarrow>
                  (case skip_ws r1 of
                     [] \<Rightarrow> None
                   | c # r2 \<Rightarrow>
                       (if c = CHR '':'' then
                          (case read_val n r2 of
                             None \<Rightarrow> None
                           | Some (v, r3) \<Rightarrow>
                               (case skip_ws r3 of
                                  [] \<Rightarrow> None
                                | e # r4 \<Rightarrow>
                                    (if e = CHR '','' then read_obj n r4 (dict_set k v acc)
                                     else if e = CHR ''}'' then Some (JObj (dict_set k v acc), r4)
                                     else None)))
                        else None)))
           else None))"

text \<open>\<open>json.loads\<close>: \<open>None\<close> is \<open>JSONDecodeError\<close>.\<close>

definition loads :: "string \<Rightarrow> json option" where
  "loads s =
     (case read_val (2 * length s + 2) s of
        None \<Rightarrow> None
      | Some (v, r) \<Rightarrow> if skip_ws r = [] then Some v else None)"

section \<open>What is written can be read back\<close>

lemma unhex_hex [simp]: "d < 16 \<Longrightarrow> unhex_char (hex_char d) = Some d"
  by (simp add: unhex_char_def hex_char_def Let_def)

lemma hex4_byte: "hex4 (CHR ''0'') (CHR ''0'') (hex_char (of_char c div 16)) (hex_char (of_char c mod 16)) = Some c"
proof -
  have "of_char c < (256::nat)" by simp
  then have "of_char c div 16 < (16::nat)" by (simp add: div_less_iff_less_mult)
  moreover have "unhex_char (CHR ''0'') = Some 0" by (simp add: unhex_char_def)
  moreover have "(of_char c div 16) * 16 + of_char c mod 16 = (of_char c :: nat)" by simp
  ultimately show ?thesis by (simp add: hex4_def)
qed

lemma read_str_esc: "read_str (esc_char c @ s) = map_option (\<lambda>(t, z). (c # t, z)) (read_str s)"
proof -
  let ?n = "of_char c :: nat"
  have eq: "c = char_of ?n" by simp
  have plain: "?n \<noteq> 34 \<Longrightarrow> ?n \<noteq> 92 \<Longrightarrow> 32 \<le> ?n \<Longrightarrow>
      read_str (c # s) = map_option (\<lambda>(t, z). (c # t, z)) (read_str s)" by simp
  have escd: "unescape d = Some c \<Longrightarrow> d \<noteq> CHR ''u'' \<Longrightarrow>
      read_str (CHR 0x5C # d # s) = map_option (\<lambda>(t, z). (c # t, z)) (read_str s)" for d
    by simp
  consider "?n = 34 \<or> ?n = 92" | "?n = 10" | "?n = 13" | "?n = 9" | "?n = 8" | "?n = 12"
    | "32 \<le> ?n" "?n \<le> 126" "?n \<noteq> 34" "?n \<noteq> 92"
    | "?n \<notin> {34, 92, 10, 13, 9, 8, 12}" "\<not> (32 \<le> ?n \<and> ?n \<le> 126)" by auto
  then show ?thesis
  proof cases
    case 1
    then have "unescape c = Some c" and "c \<noteq> CHR ''u''" by (auto simp: unescape_def)
    with 1 show ?thesis using escd by (simp add: esc_char_def Let_def)
  next
    case 2 with eq show ?thesis by (simp add: esc_char_def escd unescape_def Let_def)
  next
    case 3 with eq show ?thesis by (simp add: esc_char_def escd unescape_def Let_def)
  next
    case 4 with eq show ?thesis by (simp add: esc_char_def escd unescape_def Let_def)
  next
    case 5 with eq show ?thesis by (simp add: esc_char_def escd unescape_def Let_def)
  next
    case 6 with eq show ?thesis by (simp add: esc_char_def escd unescape_def Let_def)
  next
    case 7 then show ?thesis using plain by (simp add: esc_char_def Let_def)
  next
    case 8 then show ?thesis by (auto simp add: esc_char_def Let_def hex4_byte)
  qed
qed

lemma read_str_quote: "read_str (concat (map esc_char s) @ CHR 0x22 # rest) = Some (s, rest)"
  by (induction s) (simp_all add: read_str_esc del: read_str.simps(2), simp)

text \<open>What may follow a value inside a document: the end, a comma or a closing bracket.\<close>

definition ends_val :: "string \<Rightarrow> bool" where
  "ends_val r \<longleftrightarrow> r = [] \<or> hd r = CHR '','' \<or> hd r = CHR '']'' \<or> hd r = CHR ''}''"

lemma read_signed_show:
  "r = [] \<or> \<not> is_digit (hd r) \<Longrightarrow> read_signed (show_int i @ r) = Some (i, r)"
proof -
  assume r: "r = [] \<or> \<not> is_digit (hd r)"
  have tw: "takeWhile is_digit (show_nat n @ r) = show_nat n"
    and dw: "dropWhile is_digit (show_nat n @ r) = r" for n
    using r show_nat_digits [of n]
    by (cases r; auto simp: list_all_iff takeWhile_append dropWhile_append)+
  show ?thesis
  proof (cases "i < 0")
    case True
    then show ?thesis by (simp add: show_int_def read_signed_def tw dw)
  next
    case False
    then have "hd (show_nat (nat i) @ r) \<noteq> CHR ''-''"
      using show_nat_hd_not_minus by (cases "show_nat (nat i)") auto
    with False show ?thesis by (simp add: show_int_def read_signed_def tw dw)
  qed
qed

lemma read_num_int: "ends_val r \<Longrightarrow> read_num (show_int i @ r) = Some (JInt i, r)"
proof -
  assume r: "ends_val r"
  then have "r = [] \<or> \<not> is_digit (hd r)" by (auto simp: ends_val_def is_digit_def)
  then have "read_signed (show_int i @ r) = Some (i, r)" by (rule read_signed_show)
  with r show ?thesis
    by (cases r) (auto simp: read_num_def read_frac_def ends_val_def)
qed

lemma read_num_float: "ends_val r \<Longrightarrow> read_num (show_int m @ CHR ''e'' # show_int e @ r) = Some (JFloat m e, r)"
proof -
  assume r: "ends_val r"
  then have nd: "r = [] \<or> \<not> is_digit (hd r)" by (auto simp: ends_val_def is_digit_def)
  have m: "read_signed (show_int m @ CHR ''e'' # show_int e @ r) = Some (m, CHR ''e'' # show_int e @ r)"
    by (rule read_signed_show) (simp add: is_digit_def)
  obtain c cs where c: "show_int e = c # cs" by (cases "show_int e") auto
  have "c \<noteq> CHR ''+''"
    using c show_nat_digits [of "nat e"]
    by (cases "e < 0") (auto simp: show_int_def is_digit_def)
  with c have "(if show_int e @ r \<noteq> [] \<and> hd (show_int e @ r) = CHR ''+'' then tl (show_int e @ r) else show_int e @ r)
      = show_int e @ r" by simp
  then show ?thesis
    by (simp add: read_num_def m read_frac_def read_signed_show [OF nd])
qed

fun json_wf :: "json \<Rightarrow> bool" where
  "json_wf (JArr xs) = list_all json_wf xs"
| "json_wf (JObj d) = (distinct (map fst d) \<and> list_all (\<lambda>(k, v). json_wf v) d)"
| "json_wf _ = True"

fun json_need :: "json \<Rightarrow> nat" where
  "json_need (JArr xs) = 1 + sum_list (map (\<lambda>x. 1 + json_need x) xs)"
| "json_need (JObj d) = 1 + sum_list (map (\<lambda>(k, v). 1 + json_need v) d)"
| "json_need _ = 1"

lemma first_char_show_int:
  "\<exists>c cs. show_int i = c # cs \<and> (c = CHR ''-'' \<or> is_digit c)"
proof -
  obtain c cs where "show_nat (nat i) = c # cs" by (cases "show_nat (nat i)") auto
  then show ?thesis using show_nat_digits [of "nat i"] by (auto simp: show_int_def)
qed

lemma read_val_number:
  assumes "read_num (show_int i @ s) = Some res"
  shows "read_val (Suc n) (show_int i @ s) = Some res"
proof -
  obtain c cs where c: "show_int i = c # cs" and k: "c = CHR ''-'' \<or> is_digit c"
    using first_char_show_int by blast
  from k have "\<not> is_ws c" "of_char c \<noteq> (34::nat)" "c \<noteq> CHR ''[''" "c \<noteq> CHR ''{''"
    "c \<noteq> CHR ''n''" "c \<noteq> CHR ''t''" "c \<noteq> CHR ''f''"
    by (auto simp: is_digit_def is_ws_def)
  with assms c show ?thesis by (simp add: skip_ws_def)
qed

definition reads_back :: "json \<Rightarrow> bool" where
  "reads_back x \<longleftrightarrow> (\<forall>n r. json_need x \<le> n \<longrightarrow> ends_val r \<longrightarrow> read_val n (dumps x @ r) = Some (x, r))"

lemma read_val_space: "read_val (Suc n) (CHR '' '' # s) = read_val (Suc n) s"
  by (simp add: skip_ws_def is_ws_def)

lemma skip_ws_close: "skip_ws (c # r) = c # r" if "\<not> is_ws c"
  using that by (simp add: skip_ws_def)

lemma not_ws_brackets [simp]:
  "\<not> is_ws (CHR '','')" "\<not> is_ws (CHR '']'')" "\<not> is_ws (CHR ''}'')" "\<not> is_ws (CHR '':'')"
  "\<not> is_ws (CHR ''['')" "\<not> is_ws (CHR ''{'')" "\<not> is_ws (CHR 0x22)"
  by (simp_all add: is_ws_def)

lemma read_arr_join:
  "xs \<noteq> [] \<Longrightarrow> \<forall>x\<in>set xs. reads_back x \<Longrightarrow> sum_list (map (\<lambda>x. 1 + json_need x) xs) \<le> n \<Longrightarrow>
   read_arr n (join_with '', '' (map dumps xs) @ CHR '']'' # r) acc = Some (JArr (acc @ xs), r)"
proof (induction xs arbitrary: n acc)
  case (Cons x xs)
  then obtain k where n: "n = Suc k" by (cases n) auto
  from Cons.prems n have x: "json_need x \<le> k" "reads_back x" by auto
  show ?case
  proof (cases xs)
    case Nil
    with x n show ?thesis
      by (simp add: reads_back_def ends_val_def skip_ws_close)
  next
    case (Cons y ys)
    let ?t = "join_with '', '' (map dumps xs) @ CHR '']'' # r"
    from x have "read_val k (dumps x @ CHR '','' # CHR '' '' # ?t) = Some (x, CHR '','' # CHR '' '' # ?t)"
      by (simp add: reads_back_def ends_val_def)
    moreover have "read_arr k (CHR '' '' # ?t) (acc @ [x]) = Some (JArr (acc @ x # xs), r)"
    proof -
      have le: "sum_list (map (\<lambda>x. 1 + json_need x) xs) \<le> k" using Cons.prems n by simp
      with Cons obtain k' where k: "k = Suc k'" by (cases k) auto
      have "k' \<noteq> 0" using le k Cons by (cases y; cases k') auto
      then obtain k'' where k': "k' = Suc k''" by (cases k') auto
      have "read_arr k ?t (acc @ [x]) = Some (JArr ((acc @ [x]) @ xs), r)"
        using Cons.IH [OF _ _ le] Cons Cons.prems by simp
      then show ?thesis by (simp add: k k' read_val_space del: read_val.simps)
    qed
    ultimately show ?thesis using n Cons
      by (simp add: skip_ws_close del: read_val.simps)
  qed
qed simp

lemma read_val_need_pos: "0 < json_need x"
  by (cases x) auto

lemma read_obj_join:
  "d \<noteq> [] \<Longrightarrow> \<forall>(k, v)\<in>set d. reads_back v \<Longrightarrow> distinct (map fst (acc @ d)) \<Longrightarrow>
   sum_list (map (\<lambda>(k, v). 1 + json_need v) d) \<le> n \<Longrightarrow>
   read_obj n (join_with '', '' (map (\<lambda>(k, v). quote_str k @ '': '' @ dumps v) d) @ CHR ''}'' # r) acc
     = Some (JObj (acc @ d), r)"
proof (induction d arbitrary: n acc)
  case (Cons kv d)
  obtain k v where kv: "kv = (k, v)" by (cases kv)
  from Cons.prems obtain m where n: "n = Suc m" by (cases n) (auto simp: kv)
  from Cons.prems n kv have x: "json_need v \<le> m" "reads_back v" by auto
  with read_val_need_pos [of v] obtain m' where m: "m = Suc m'" by (cases m) auto
  have snoc: "dict_set k v acc = acc @ [(k, v)]"
    using Cons.prems kv by (intro dict_set_absent) auto
  have val: "read_val m (CHR '' '' # dumps v @ t) = Some (v, t)" if "ends_val t" for t
    using x that by (simp add: m read_val_space reads_back_def del: read_val.simps)
  show ?case
  proof (cases d)
    case Nil
    have "read_val m (CHR '' '' # dumps v @ CHR ''}'' # r) = Some (v, CHR ''}'' # r)"
      by (rule val) (simp add: ends_val_def)
    with Nil show ?thesis
      by (simp add: n kv quote_str_def skip_ws_close read_str_quote snoc del: read_val.simps)
  next
    case (Cons y ys)
    let ?t = "join_with '', '' (map (\<lambda>(k, v). quote_str k @ '': '' @ dumps v) d) @ CHR ''}'' # r"
    have v: "read_val m (CHR '' '' # dumps v @ CHR '','' # CHR '' '' # ?t) = Some (v, CHR '','' # CHR '' '' # ?t)"
      by (rule val) (simp add: ends_val_def)
    have le: "sum_list (map (\<lambda>(k, v). 1 + json_need v) d) \<le> m" using Cons.prems n kv by simp
    have "read_obj m ?t (acc @ [(k, v)]) = Some (JObj ((acc @ [(k, v)]) @ d), r)"
      using Cons.IH [OF _ _ _ le, of "acc @ [(k, v)]"] Cons Cons.prems by (simp add: kv)
    then have "read_obj m (CHR '' '' # ?t) (acc @ [(k, v)]) = Some (JObj (acc @ (k, v) # d), r)"
      by (simp add: m skip_ws_def is_ws_def del: read_val.simps)
    with v Cons show ?thesis
      by (simp add: n kv quote_str_def skip_ws_close read_str_quote snoc del: read_val.simps)
  qed
qed simp

lemma reads_back_wf: "json_wf x \<Longrightarrow> reads_back x"
proof (induction x)
  case (JInt i)
  then show ?case
    by (auto simp: reads_back_def Suc_le_eq gr0_conv_Suc read_num_int intro!: read_val_number)
next
  case (JFloat m e)
  have "read_num (show_int m @ CHR ''e'' # show_int e @ r) = Some (JFloat m e, r)" if "ends_val r" for r
    using that by (rule read_num_float)
  then show ?case
    by (auto simp: reads_back_def Suc_le_eq gr0_conv_Suc intro!: read_val_number)
next
  case (JStr s)
  then show ?case
    by (auto simp: reads_back_def Suc_le_eq gr0_conv_Suc quote_str_def skip_ws_close read_str_quote)
next
  case (JArr xs)
  then have all: "\<forall>x\<in>set xs. reads_back x" by (auto simp: list_all_iff)
  show ?case unfolding reads_back_def
  proof (intro allI impI)
    fix n r assume need: "json_need (JArr xs) \<le> n" and "ends_val r"
    then obtain k where n: "n = Suc k" by (cases n) auto
    show "read_val n (dumps (JArr xs) @ r) = Some (JArr xs, r)"
    proof (cases "xs = []")
      case False
      have sum: "sum_list (map (\<lambda>x. 1 + json_need x) xs) \<le> k" using need n by simp
      obtain y ys where xs: "xs = y # ys" using False by (cases xs) auto
      obtain f where k: "k = Suc f" using sum xs by (cases k) auto
      let ?t = "join_with '', '' (map dumps xs) @ CHR '']'' # r"
      have arr: "read_arr k ?t [] = Some (JArr xs, r)"
        using read_arr_join [OF False all sum] by simp
      have "\<exists>c cs. skip_ws ?t = c # cs \<and> c \<noteq> CHR '']''"
      proof (rule ccontr)
        assume neg: "\<not> ?thesis"
        then have "skip_ws ?t = [] \<or> (\<exists>cs. skip_ws ?t = CHR '']'' # cs)" by (cases "skip_ws ?t") auto
        then have "read_val f ?t = None"
          by (cases f) (auto simp: read_num_def read_signed_def is_digit_def)
        with arr show False by (simp add: k)
      qed
      then show ?thesis using arr n by (auto simp: skip_ws_close)
    qed (simp add: n skip_ws_close)
  qed
next
  case (JObj d)
  then have all: "\<forall>(k, v)\<in>set d. reads_back v" by (fastforce simp: list_all_iff)
  show ?case unfolding reads_back_def
  proof (intro allI impI)
    fix n r assume need: "json_need (JObj d) \<le> n" and "ends_val r"
    then obtain k where n: "n = Suc k" by (cases n) auto
    show "read_val n (dumps (JObj d) @ r) = Some (JObj d, r)"
    proof (cases "d = []")
      case False
      have sum: "sum_list (map (\<lambda>(k, v). 1 + json_need v) d) \<le> k" using need n by simp
      let ?t = "join_with '', '' (map (\<lambda>(k, v). quote_str k @ '': '' @ dumps v) d) @ CHR ''}'' # r"
      have obj: "read_obj k ?t [] = Some (JObj d, r)"
        using read_obj_join [OF False all, of "[]" k r] JObj.prems sum by simp
      have "\<exists>cs. ?t = CHR 0x22 # cs" using False
        by (cases d rule: remdups_adj.cases) (auto simp: quote_str_def)
      then show ?thesis using obj n by (auto simp: skip_ws_close)
    qed (simp add: n skip_ws_close)
  qed
qed (auto simp: reads_back_def Suc_le_eq gr0_conv_Suc skip_ws_def is_ws_def read_word_def starts_with_def)

lemma length_join_with:
  "xs \<noteq> [] \<Longrightarrow> length (join_with s xs) = sum_list (map length xs) + (length xs - 1) * length s"
  by (induction s xs rule: join_with.induct) auto

lemma json_need_bound: "json_need x \<le> 2 * length (dumps x) + 2"
proof (induction x)
  case (JArr xs)
  have "sum_list (map (\<lambda>x. 1 + json_need x) xs) \<le> sum_list (map (\<lambda>x. 3 + 2 * length (dumps x)) xs)"
    using JArr by (intro sum_list_mono) fastforce
  also have "\<dots> = 3 * length xs + 2 * sum_list (map length (map dumps xs))"
    by (induction xs) auto
  finally show ?case by (cases "xs = []") (auto simp: length_join_with)
next
  case (JObj d)
  let ?f = "\<lambda>(k, v). quote_str k @ '': '' @ dumps v"
  have "sum_list (map (\<lambda>(k, v). 1 + json_need v) d) \<le> sum_list (map (\<lambda>(k, v). 3 + 2 * length (dumps v)) d)"
    using JObj by (intro sum_list_mono) fastforce
  also have "\<dots> \<le> 3 * length d + 2 * sum_list (map length (map ?f d))"
    by (induction d) auto
  finally show ?case by (cases "d = []") (auto simp: length_join_with)
qed auto

lemma loads_dumps [simp]: "json_wf x \<Longrightarrow> loads (dumps x) = Some x"
proof -
  assume "json_wf x"
  then have "read_val (2 * length (dumps x) + 2) (dumps x @ []) = Some (x, [])"
    using reads_back_wf [of x] json_need_bound [of x] unfolding reads_back_def ends_val_def by blast
  then show ?thesis by (simp add: loads_def skip_ws_def)
qed

lemma dumps_inj: "json_wf x \<Longrightarrow> json_wf y \<Longrightarrow> dumps x = dumps y \<longleftrightarrow> x = y"
  by (metis loads_dumps option.inject)
section \<open>What is read is well formed\<close>

lemma read_num_wf: "read_num s = Some (v, r) \<Longrightarrow> json_wf v"
  by (auto simp: read_num_def split: option.splits prod.splits list.splits if_splits)

lemma read_word_wf: "read_word w v s = Some (x, r) \<Longrightarrow> x = v"
  by (auto simp: read_word_def split: if_splits)

lemma list_all_dict_set:
  "list_all (\<lambda>(k, v). P v) acc \<Longrightarrow> P v \<Longrightarrow> list_all (\<lambda>(k, v). P v) (dict_set k v acc)"
  by (induction k v acc rule: dict_set.induct) auto

lemma read_wf:
  "(\<forall>s v r. read_val n s = Some (v, r) \<longrightarrow> json_wf v)
   \<and> (\<forall>s acc v r. read_arr n s acc = Some (v, r) \<longrightarrow> list_all json_wf acc \<longrightarrow> json_wf v)
   \<and> (\<forall>s acc v r. read_obj n s acc = Some (v, r) \<longrightarrow> json_wf (JObj acc) \<longrightarrow> json_wf v)"
proof (induction n)
  case (Suc n)
  have v: "\<And>s v r. read_val n s = Some (v, r) \<Longrightarrow> json_wf v"
    and a: "\<And>s acc v r. read_arr n s acc = Some (v, r) \<Longrightarrow> list_all json_wf acc \<Longrightarrow> json_wf v"
    and o: "\<And>s acc v r. read_obj n s acc = Some (v, r) \<Longrightarrow> json_wf (JObj acc) \<Longrightarrow> json_wf v"
    using Suc.IH by blast+
  have 1: "json_wf x" if "read_val (Suc n) s = Some (x, r)" for s x r
    using that by (auto split: list.splits option.splits prod.splits if_splits dest: read_num_wf read_word_wf a o)
  have 2: "json_wf x" if "read_arr (Suc n) s acc = Some (x, r)" "list_all json_wf acc" for s acc x r
    using that by (auto split: list.splits option.splits prod.splits if_splits dest!: v dest: a)
  have 3: "json_wf x" if "read_obj (Suc n) s acc = Some (x, r)" "json_wf (JObj acc)" for s acc x r
  proof -
    have up: "json_wf (JObj (dict_set k y acc))" if "json_wf y" for k y
      using that \<open>json_wf (JObj acc)\<close> by (auto intro: list_all_dict_set)
    show ?thesis using that(1)
      by (auto split: list.splits option.splits prod.splits if_splits simp del: json_wf.simps
          dest!: v dest: o intro: up)
  qed
  from 1 2 3 show ?case by blast
qed simp

lemma loads_wf:
  assumes "loads s = Some v"
  shows "json_wf v"
proof -
  obtain r where "read_val (2 * length s + 2) s = Some (v, r)"
    using assms unfolding loads_def by (auto simp del: read_val.simps split: option.splits if_splits)
  with read_wf [of "2 * length s + 2"] show ?thesis by blast
qed

end
