(* ===== verification/RateLimit.thy ===== *)
theory RateLimit
  imports Redis Json
begin

text \<open>
  \<open>src/gateway/rate_limit.py\<close>: the token estimate, the three Lua admission scripts over
  the store interfaces, and the Python protocol around them (\<open>check_rate_limits\<close> with its
  rollback and its emergency path, the releases and the TPM settlement).
  Lua numbers are doubles; the products and quotients here stay exact below \<open>2^53\<close>, so integer
  division is their floor. One admission uses the time it read at its start for every call.
\<close>

section \<open>Constants\<close>

definition ESTIMATED_TOKENS_PER_REQUEST :: int where "ESTIMATED_TOKENS_PER_REQUEST = 100"
definition CHARS_PER_TOKEN :: int where "CHARS_PER_TOKEN = 4"
definition MAX_UPFRONT_ESTIMATE :: int where "MAX_UPFRONT_ESTIMATE = 4000"
definition MAX_COMPLETION_CEILING :: int where "MAX_COMPLETION_CEILING = 200000"
definition TPM_BUCKET_TTL_MS :: int where "TPM_BUCKET_TTL_MS = 1860000"
definition CONCURRENT_STALE_TIMEOUT_SECONDS :: int where "CONCURRENT_STALE_TIMEOUT_SECONDS = 2100"
definition EMERGENCY_WINDOW_SECONDS :: int where "EMERGENCY_WINDOW_SECONDS = 60"
definition EMERGENCY_DEFAULT_MAX_PER_WINDOW :: int where "EMERGENCY_DEFAULT_MAX_PER_WINDOW = 60"

lemmas rl_consts = ESTIMATED_TOKENS_PER_REQUEST_def CHARS_PER_TOKEN_def MAX_UPFRONT_ESTIMATE_def
  MAX_COMPLETION_CEILING_def TPM_BUCKET_TTL_MS_def CONCURRENT_STALE_TIMEOUT_SECONDS_def
  EMERGENCY_WINDOW_SECONDS_def EMERGENCY_DEFAULT_MAX_PER_WINDOW_def

section \<open>Estimating a request\<close>

definition str_len :: "json \<Rightarrow> int" where
  "str_len v = (case v of JStr s \<Rightarrow> int (length s) | _ \<Rightarrow> 0)"

definition count_parts_chars :: "json list \<Rightarrow> int" where
  "count_parts_chars parts =
     sum_list (map (\<lambda>p. case p of JObj d \<Rightarrow> str_len (dget ''text'' d) | _ \<Rightarrow> 0) parts)"

definition count_item_chars :: "(string \<times> json) list \<Rightarrow> int" where
  "count_item_chars item =
     (case dget ''parts'' item of
        JArr parts \<Rightarrow> count_parts_chars parts
      | _ \<Rightarrow>
          (case dget ''content'' item of
             JNull \<Rightarrow> str_len (dget ''text'' item)
           | JStr s \<Rightarrow> int (length s)
           | JArr parts \<Rightarrow> count_parts_chars parts
           | _ \<Rightarrow> 0))"

definition count_input_chars :: "json \<Rightarrow> int" where
  "count_input_chars value =
     (case value of
        JStr s \<Rightarrow> int (length s)
      | JArr items \<Rightarrow>
          sum_list (map (\<lambda>i. case i of JStr s \<Rightarrow> int (length s) | JObj d \<Rightarrow> count_item_chars d | _ \<Rightarrow> 0) items)
      | _ \<Rightarrow> 0)"

definition clamp_completion :: "int \<Rightarrow> int" where
  "clamp_completion v = max 0 (min v MAX_COMPLETION_CEILING)"

definition is_py_space :: "char \<Rightarrow> bool" where
  "is_py_space c \<longleftrightarrow>
     (let n = (of_char c :: nat) in (9 \<le> n \<and> n \<le> 13) \<or> (28 \<le> n \<and> n \<le> 32) \<or> n = 133 \<or> n = 160)"

definition py_strip :: "string \<Rightarrow> string" where
  "py_strip s = rev (dropWhile is_py_space (rev (dropWhile is_py_space s)))"

text \<open>The digits of an integer literal, single underscores between them dropped.\<close>

fun literal_digits :: "bool \<Rightarrow> string \<Rightarrow> string option" where
  "literal_digits after_digit [] = (if after_digit then Some [] else None)"
| "literal_digits after_digit (c # r) =
     (if c = CHR ''_'' then (if after_digit then literal_digits False r else None)
      else if is_digit c then map_option (\<lambda>ds. c # ds) (literal_digits True r)
      else None)"

text \<open>Python's \<open>int(text)\<close>; \<open>None\<close> is \<open>ValueError\<close>.\<close>

definition py_int_of_str :: "string \<Rightarrow> int option" where
  "py_int_of_str s =
     (case py_strip s of
        [] \<Rightarrow> None
      | c # r \<Rightarrow>
          (if c = CHR ''-'' then map_option (\<lambda>ds. - int (read_digits ds)) (literal_digits False r)
           else if c = CHR ''+'' then map_option (\<lambda>ds. int (read_digits ds)) (literal_digits False r)
           else map_option (\<lambda>ds. int (read_digits ds)) (literal_digits False (c # r))))"

definition coerce_max_completion :: "json \<Rightarrow> int" where
  "coerce_max_completion value =
     (case value of
        JBool b \<Rightarrow> 0
      | JInt i \<Rightarrow> clamp_completion i
      | JStr s \<Rightarrow> (case py_int_of_str s of None \<Rightarrow> 0 | Some i \<Rightarrow> clamp_completion i)
      | _ \<Rightarrow> 0)"

definition estimate_request_tokens :: "json \<Rightarrow> int \<Rightarrow> int" where
  "estimate_request_tokens messages max_completion =
     (let total_chars = count_input_chars messages;
          prompt_estimate =
            (if total_chars \<le> 0 then ESTIMATED_TOKENS_PER_REQUEST
             else min (max ESTIMATED_TOKENS_PER_REQUEST (total_chars div CHARS_PER_TOKEN)) MAX_UPFRONT_ESTIMATE)
      in prompt_estimate + clamp_completion max_completion)"

section \<open>The Lua scripts\<close>

text \<open>RPM: reply \<open>(allowed, count, limit, oldest score or -1)\<close>.\<close>

definition lua_rpm_check ::
  "(int \<Rightarrow> string \<Rightarrow> int \<Rightarrow> 's \<Rightarrow> 's) \<Rightarrow> (int \<Rightarrow> string \<Rightarrow> 's \<Rightarrow> int) \<Rightarrow> (int \<Rightarrow> string \<Rightarrow> 's \<Rightarrow> int option)
   \<Rightarrow> (int \<Rightarrow> string \<Rightarrow> int \<Rightarrow> string \<Rightarrow> 's \<Rightarrow> 's) \<Rightarrow> (int \<Rightarrow> string \<Rightarrow> int \<Rightarrow> 's \<Rightarrow> 's)
   \<Rightarrow> string \<Rightarrow> int \<Rightarrow> int \<Rightarrow> int \<Rightarrow> string \<Rightarrow> 's \<Rightarrow> (bool \<times> int \<times> int \<times> int) \<times> 's" where
  "lua_rpm_check zremr zcard zmin zadd pexpire key now_ms window_ms limit member s =
     (let s1 = zremr now_ms key (now_ms - window_ms) s;
          count = zcard now_ms key s1
      in if limit \<le> count
         then ((False, count, limit, (case zmin now_ms key s1 of None \<Rightarrow> -1 | Some sc \<Rightarrow> sc)), s1)
         else ((True, count + 1, limit, -1),
               pexpire now_ms key (window_ms + 1000) (zadd now_ms key now_ms member s1)))"

text \<open>The refilled level of a token bucket.\<close>

definition tpm_level :: "int option \<Rightarrow> int option \<Rightarrow> int \<Rightarrow> int \<Rightarrow> int \<Rightarrow> int" where
  "tpm_level tokens ts now_ms limit refill_rate =
     (let tk = (case tokens of None \<Rightarrow> limit | Some v \<Rightarrow> v);
          last_ts = (case ts of None \<Rightarrow> now_ms | Some v \<Rightarrow> v);
          refill = ((now_ms - last_ts) * refill_rate) div 60000
      in min limit (tk + refill))"

definition lua_tpm_check ::
  "(int \<Rightarrow> string \<Rightarrow> string \<Rightarrow> 's \<Rightarrow> int option) \<Rightarrow> (int \<Rightarrow> string \<Rightarrow> string \<Rightarrow> int \<Rightarrow> 's \<Rightarrow> 's)
   \<Rightarrow> (int \<Rightarrow> string \<Rightarrow> int \<Rightarrow> 's \<Rightarrow> 's)
   \<Rightarrow> string \<Rightarrow> int \<Rightarrow> int \<Rightarrow> int \<Rightarrow> int \<Rightarrow> int \<Rightarrow> 's \<Rightarrow> (bool \<times> int \<times> int) \<times> 's" where
  "lua_tpm_check hget hset pexpire key now_ms limit request_tokens refill_rate ttl_ms s =
     (let tokens = tpm_level (hget now_ms key ''tokens'' s) (hget now_ms key ''ts'' s) now_ms limit refill_rate
      in if tokens < request_tokens then ((False, tokens, limit), s)
         else ((True, tokens - request_tokens, limit),
               pexpire now_ms key ttl_ms
                 (hset now_ms key ''ts'' now_ms (hset now_ms key ''tokens'' (tokens - request_tokens) s))))"

definition ceil_div :: "int \<Rightarrow> int \<Rightarrow> int" where
  "ceil_div a b = - ((- a) div b)"

text \<open>The deadline a settled bucket gets: a bucket in debt lives until refill has repaid it.\<close>

definition settle_ttl :: "int \<Rightarrow> int \<Rightarrow> int \<Rightarrow> int" where
  "settle_ttl tokens ttl_ms refill_rate =
     (if tokens < 0 \<and> 0 < refill_rate
      then (let debt_ttl = ceil_div ((- tokens) * 60000) refill_rate + ttl_ms
            in if ttl_ms < debt_ttl then debt_ttl else ttl_ms)
      else ttl_ms)"

definition lua_tpm_settle ::
  "(int \<Rightarrow> string \<Rightarrow> string \<Rightarrow> 's \<Rightarrow> int option) \<Rightarrow> (int \<Rightarrow> string \<Rightarrow> string \<Rightarrow> int \<Rightarrow> 's \<Rightarrow> 's)
   \<Rightarrow> (int \<Rightarrow> string \<Rightarrow> 's \<Rightarrow> bool) \<Rightarrow> (int \<Rightarrow> string \<Rightarrow> int \<Rightarrow> 's \<Rightarrow> 's)
   \<Rightarrow> string \<Rightarrow> int \<Rightarrow> int \<Rightarrow> int \<Rightarrow> int \<Rightarrow> int \<Rightarrow> 's \<Rightarrow> int \<times> 's" where
  "lua_tpm_settle hget hset hexists pexpire key now_ms delta limit ttl_ms refill_rate s =
     (if \<not> hexists now_ms key s then (0, s)
      else
        (let t0 = (case hget now_ms key ''tokens'' s of None \<Rightarrow> 0 | Some v \<Rightarrow> v);
             tokens = (if limit < t0 + delta then limit else t0 + delta)
         in (1, pexpire now_ms key (settle_ttl tokens ttl_ms refill_rate)
                  (hset now_ms key ''tokens'' tokens s))))"

text \<open>The streaming semaphore.\<close>

definition lua_concurrent_check ::
  "(int \<Rightarrow> string \<Rightarrow> int \<Rightarrow> 's \<Rightarrow> 's) \<Rightarrow> (int \<Rightarrow> string \<Rightarrow> 's \<Rightarrow> int)
   \<Rightarrow> (int \<Rightarrow> string \<Rightarrow> int \<Rightarrow> string \<Rightarrow> 's \<Rightarrow> 's) \<Rightarrow> (int \<Rightarrow> string \<Rightarrow> int \<Rightarrow> 's \<Rightarrow> 's)
   \<Rightarrow> string \<Rightarrow> int \<Rightarrow> int \<Rightarrow> string \<Rightarrow> int \<Rightarrow> 's \<Rightarrow> (bool \<times> int \<times> int) \<times> 's" where
  "lua_concurrent_check zremr zcard zadd pexpire key now_ms limit member timeout_ms s =
     (let s1 = zremr now_ms key (now_ms - timeout_ms) s;
          count = zcard now_ms key s1
      in if limit \<le> count then ((False, count, limit), s1)
         else ((True, count + 1, limit),
               pexpire now_ms key (timeout_ms + 10000) (zadd now_ms key now_ms member s1)))"

abbreviation rpm_script where
  "rpm_script \<equiv> lua_rpm_check redis_zremrangebyscore redis_zcard redis_zmin redis_zadd redis_pexpire"

abbreviation tpm_script where
  "tpm_script \<equiv> lua_tpm_check redis_hget redis_hset redis_pexpire"

abbreviation settle_script where
  "settle_script \<equiv> lua_tpm_settle redis_hget redis_hset redis_exists redis_pexpire"

abbreviation conc_script where
  "conc_script \<equiv> lua_concurrent_check redis_zremrangebyscore redis_zcard redis_zadd redis_pexpire"

section \<open>Rules and keys\<close>

text \<open>A rule as \<open>get_rate_limit_rules\<close> hands it over.\<close>

record rl_rule =
  rl_id :: int
  rl_subject_type :: string
  rl_subject_id :: "int option"
  rl_model_id :: "int option"
  rl_rpm_limit :: "int option"
  rl_tpm_limit :: "int option"
  rl_tpm_burst :: "int option"
  rl_max_concurrent :: "int option"

definition subject_key :: "rl_rule \<Rightarrow> string" where
  "subject_key rule =
     rl_subject_type rule @ '':'' @ show_int (or_int (rl_subject_id rule) 0) @ '':m:''
       @ show_int (or_int (rl_model_id rule) 0)"

definition rpm_key :: "rl_rule \<Rightarrow> string" where
  "rpm_key rule = ''rl:rpm:'' @ show_int (rl_id rule) @ '':'' @ subject_key rule"

definition tpm_key :: "rl_rule \<Rightarrow> string" where
  "tpm_key rule = ''rl:tpm:'' @ show_int (rl_id rule) @ '':'' @ subject_key rule"

definition conc_key :: "rl_rule \<Rightarrow> string" where
  "conc_key rule = ''rl:conc:'' @ show_int (rl_id rule) @ '':'' @ subject_key rule"

definition tpm_burst_of :: "rl_rule \<Rightarrow> int \<Rightarrow> int" where
  "tpm_burst_of rule tpm_limit = or_int (rl_tpm_burst rule) tpm_limit"

section \<open>Releases and settlement\<close>

text \<open>\<open>release_rpm\<close>: a \<open>RedisError\<close> ends the loop and is suppressed.\<close>

fun release_rpm :: "int \<Rightarrow> string \<Rightarrow> rl_rule list \<Rightarrow> redis \<Rightarrow> redis" where
  "release_rpm now member [] s = s"
| "release_rpm now member (rule # rules) s =
     (if rl_rpm_limit rule \<noteq> None
      then (case rcall (ruse (redis_zrem now (rpm_key rule) member)) s of
              (None, s') \<Rightarrow> s'
            | (Some _, s') \<Rightarrow> release_rpm now member rules s')
      else release_rpm now member rules s)"

fun release_concurrent :: "int \<Rightarrow> string \<Rightarrow> rl_rule list \<Rightarrow> redis \<Rightarrow> redis" where
  "release_concurrent now member [] s = s"
| "release_concurrent now member (rule # rules) s =
     (if rl_max_concurrent rule \<noteq> None
      then (case rcall (ruse (redis_zrem now (conc_key rule) member)) s of
              (None, s') \<Rightarrow> s'
            | (Some _, s') \<Rightarrow> release_concurrent now member rules s')
      else release_concurrent now member rules s)"

text \<open>\<open>settle_tpm\<close>: a \<open>RedisError\<close> is raised to the caller, the result is then \<open>False\<close>.\<close>

fun settle_tpm_loop :: "int \<Rightarrow> int \<Rightarrow> rl_rule list \<Rightarrow> redis \<Rightarrow> bool \<times> redis" where
  "settle_tpm_loop now delta [] s = (True, s)"
| "settle_tpm_loop now delta (rule # rules) s =
     (case rl_tpm_limit rule of
        None \<Rightarrow> settle_tpm_loop now delta rules s
      | Some tpm_limit \<Rightarrow>
          (case rcall (settle_script (tpm_key rule) now delta (tpm_burst_of rule tpm_limit)
                        TPM_BUCKET_TTL_MS tpm_limit) s of
             (None, s') \<Rightarrow> (False, s')
           | (Some _, s') \<Rightarrow> settle_tpm_loop now delta rules s'))"

definition settle_tpm :: "int \<Rightarrow> rl_rule list \<Rightarrow> int \<Rightarrow> redis \<Rightarrow> bool \<times> redis" where
  "settle_tpm now rules delta s = (if delta = 0 then (True, s) else settle_tpm_loop now delta rules s)"

section \<open>The emergency limiter\<close>

type_synonym emergency = "string \<Rightarrow> (int \<times> int) option"

definition emergency_count :: "int \<Rightarrow> emergency \<Rightarrow> string \<Rightarrow> int" where
  "emergency_count window_index w subject =
     (case w subject of None \<Rightarrow> 0 | Some (win, count) \<Rightarrow> if win = window_index then count else 0)"

definition emergency_cap :: "rl_rule \<Rightarrow> int" where
  "emergency_cap rule =
     (case rl_rpm_limit rule of None \<Rightarrow> EMERGENCY_DEFAULT_MAX_PER_WINDOW | Some l \<Rightarrow> l)"

fun emergency_commit :: "int \<Rightarrow> string list \<Rightarrow> emergency \<Rightarrow> emergency" where
  "emergency_commit window_index [] w = w"
| "emergency_commit window_index (subject # subjects) w =
     emergency_commit window_index subjects
       (w(subject \<mapsto> (window_index, emergency_count window_index w subject + 1)))"

definition emergency_window :: "int \<Rightarrow> int" where
  "emergency_window now_ms = (now_ms div 1000) div EMERGENCY_WINDOW_SECONDS"

definition emergency_admit :: "rl_rule list \<Rightarrow> int \<Rightarrow> emergency \<Rightarrow> bool \<times> emergency" where
  "emergency_admit rules now_ms w =
     (if rules = [] then (True, w)
      else
        (let window_index = emergency_window now_ms;
             subjects = map (\<lambda>rule. (subject_key rule, emergency_cap rule)) rules
         in if list_ex (\<lambda>(subject, cap). cap \<le> emergency_count window_index w subject) subjects
            then (False, w)
            else (True, emergency_commit window_index (map fst subjects) w)))"


section \<open>Admission\<close>

record rl_result =
  rr_allowed :: bool
  rr_rpm_remaining :: "int option"
  rr_tpm_remaining :: "int option"
  rr_concurrent_remaining :: "int option"
  rr_retry_after :: "int option"
  rr_denied_reason :: "string option"

definition rl_result_default :: "bool \<Rightarrow> rl_result" where
  "rl_result_default ok =
     \<lparr>rr_allowed = ok, rr_rpm_remaining = None, rr_tpm_remaining = None,
      rr_concurrent_remaining = None, rr_retry_after = None, rr_denied_reason = None\<rparr>"

text \<open>The local variables of \<open>check_rate_limits\<close>.\<close>

record rl_acc =
  la_rpm_remaining :: "int option"
  la_tpm_remaining :: "int option"
  la_conc_remaining :: "int option"
  la_rpm_acquired :: "rl_rule list"
  la_tpm_acquired :: "rl_rule list"
  la_conc_acquired :: bool

definition rl_acc0 :: rl_acc where
  "rl_acc0 = \<lparr>la_rpm_remaining = None, la_tpm_remaining = None, la_conc_remaining = None,
     la_rpm_acquired = [], la_tpm_acquired = [], la_conc_acquired = False\<rparr>"

text \<open>A gate lets the request on, denies it (after its rollback), or raises \<open>RedisError\<close>.\<close>

datatype gate = GPass rl_acc | GDeny rl_result | GRaise

text \<open>The arguments that stay fixed during one check.\<close>

record rl_req =
  rq_now :: int
  rq_member :: string
  rq_rules :: "rl_rule list"
  rq_estimate :: int
  rq_stream :: bool

definition rollback :: "rl_req \<Rightarrow> rl_acc \<Rightarrow> redis \<Rightarrow> redis" where
  "rollback q acc s =
     (let s1 = (if la_rpm_acquired acc \<noteq> [] then release_rpm (rq_now q) (rq_member q) (la_rpm_acquired acc) s else s);
          s2 = (if la_tpm_acquired acc \<noteq> []
                then snd (settle_tpm (rq_now q) (la_tpm_acquired acc) (rq_estimate q) s1) else s1)
      in if la_conc_acquired acc then release_concurrent (rq_now q) (rq_member q) (rq_rules q) s2 else s2)"

definition rpm_retry_after :: "int \<Rightarrow> int \<Rightarrow> int" where
  "rpm_retry_after oldest now_ms =
     (if 0 \<le> oldest then max 1 ((oldest + 60000 - now_ms + 999) div 1000) else 60)"

definition rpm_gate :: "rl_req \<Rightarrow> rl_rule \<Rightarrow> rl_acc \<Rightarrow> redis \<Rightarrow> gate \<times> redis" where
  "rpm_gate q rule acc s =
     (case rl_rpm_limit rule of
        None \<Rightarrow> (GPass acc, s)
      | Some rpm_limit \<Rightarrow>
          (case rcall (rpm_script (rpm_key rule) (rq_now q) 60000 rpm_limit (rq_member q)) s of
             (None, s') \<Rightarrow> (GRaise, s')
           | (Some (allowed, current, limit, oldest), s') \<Rightarrow>
               (if allowed
                then (GPass (acc\<lparr>la_rpm_remaining := Some (max 0 (limit - current)),
                                 la_rpm_acquired := la_rpm_acquired acc @ [rule]\<rparr>), s')
                else (GDeny ((rl_result_default False)
                        \<lparr>rr_rpm_remaining := Some 0,
                         rr_retry_after := Some (rpm_retry_after oldest (rq_now q)),
                         rr_denied_reason := Some ''rpm_exceeded''\<rparr>),
                      rollback q acc s'))))"

definition tpm_gate :: "rl_req \<Rightarrow> rl_rule \<Rightarrow> rl_acc \<Rightarrow> redis \<Rightarrow> gate \<times> redis" where
  "tpm_gate q rule acc s =
     (case rl_tpm_limit rule of
        None \<Rightarrow> (GPass acc, s)
      | Some tpm_limit \<Rightarrow>
          (if 0 < rq_estimate q
           then (case rcall (tpm_script (tpm_key rule) (rq_now q) (tpm_burst_of rule tpm_limit)
                              (rq_estimate q) tpm_limit TPM_BUCKET_TTL_MS) s of
                   (None, s') \<Rightarrow> (GRaise, s')
                 | (Some (allowed, current, limit), s') \<Rightarrow>
                     (if allowed
                      then (GPass (acc\<lparr>la_tpm_remaining := Some current,
                                       la_tpm_acquired := la_tpm_acquired acc @ [rule]\<rparr>), s')
                      else (GDeny ((rl_result_default False)
                              \<lparr>rr_tpm_remaining := Some 0, rr_retry_after := Some 10,
                               rr_denied_reason := Some ''tpm_exceeded''\<rparr>),
                            rollback q acc s')))
           else (GPass acc, s)))"

definition conc_gate :: "rl_req \<Rightarrow> rl_rule \<Rightarrow> rl_acc \<Rightarrow> redis \<Rightarrow> gate \<times> redis" where
  "conc_gate q rule acc s =
     (case rl_max_concurrent rule of
        None \<Rightarrow> (GPass acc, s)
      | Some max_concurrent \<Rightarrow>
          (if rq_stream q
           then (case rcall (conc_script (conc_key rule) (rq_now q) max_concurrent (rq_member q)
                              (CONCURRENT_STALE_TIMEOUT_SECONDS * 1000)) s of
                   (None, s') \<Rightarrow> (GRaise, s')
                 | (Some (allowed, current, limit), s') \<Rightarrow>
                     (if allowed
                      then (GPass (acc\<lparr>la_conc_remaining := Some (max 0 (limit - current)),
                                       la_conc_acquired := True\<rparr>), s')
                      else (GDeny ((rl_result_default False)
                              \<lparr>rr_concurrent_remaining := Some 0, rr_retry_after := Some 5,
                               rr_denied_reason := Some ''concurrent_exceeded''\<rparr>),
                            rollback q acc s')))
           else (GPass acc, s)))"

definition gate_then :: "gate \<times> redis \<Rightarrow> (rl_acc \<Rightarrow> redis \<Rightarrow> gate \<times> redis) \<Rightarrow> gate \<times> redis" where
  "gate_then r f = (case r of (GPass acc, s) \<Rightarrow> f acc s | (GDeny d, s) \<Rightarrow> (GDeny d, s) | (GRaise, s) \<Rightarrow> (GRaise, s))"

definition check_rule :: "rl_req \<Rightarrow> rl_rule \<Rightarrow> rl_acc \<Rightarrow> redis \<Rightarrow> gate \<times> redis" where
  "check_rule q rule acc s =
     gate_then (gate_then (rpm_gate q rule acc s) (tpm_gate q rule)) (conc_gate q rule)"

fun check_rules :: "rl_req \<Rightarrow> rl_rule list \<Rightarrow> rl_acc \<Rightarrow> redis \<Rightarrow> gate \<times> redis" where
  "check_rules q [] acc s = (GPass acc, s)"
| "check_rules q (rule # rules) acc s = gate_then (check_rule q rule acc s) (check_rules q rules)"

definition check_rate_limits :: "rl_req \<Rightarrow> redis \<times> emergency \<Rightarrow> rl_result \<times> redis \<times> emergency" where
  "check_rate_limits q st =
     (case st of (s, w) \<Rightarrow>
        (case check_rules q (rq_rules q) rl_acc0 s of
           (GPass acc, s') \<Rightarrow>
             ((rl_result_default True)
                \<lparr>rr_rpm_remaining := la_rpm_remaining acc, rr_tpm_remaining := la_tpm_remaining acc,
                 rr_concurrent_remaining := la_conc_remaining acc\<rparr>, s', w)
         | (GDeny d, s') \<Rightarrow> (d, s', w)
         | (GRaise, s') \<Rightarrow>
             (case emergency_admit (rq_rules q) (rq_now q) w of
                (True, w') \<Rightarrow> (rl_result_default True, s', w')
              | (False, w') \<Rightarrow>
                  ((rl_result_default False)
                     \<lparr>rr_retry_after := Some EMERGENCY_WINDOW_SECONDS,
                      rr_denied_reason := Some ''degraded_rate_limited''\<rparr>, s', w'))))"

section \<open>Integers as text\<close>

lemma py_strip_no_space: "\<forall>c\<in>set t. \<not> is_py_space c \<Longrightarrow> py_strip t = t"
proof -
  assume t: "\<forall>c\<in>set t. \<not> is_py_space c"
  have d: "dropWhile is_py_space u = u" if "set u \<subseteq> set t" for u using t that by (cases u) auto
  show ?thesis using d [of t] d [of "rev t"] by (simp add: py_strip_def)
qed

lemma digit_no_space: "is_digit c \<Longrightarrow> \<not> is_py_space c"
  by (auto simp: is_digit_def is_py_space_def Let_def)

lemma literal_of_digits: "list_all is_digit ds \<Longrightarrow> ds \<noteq> [] \<Longrightarrow> literal_digits b ds = Some ds"
proof (induction ds arbitrary: b)
  case (Cons c r)
  have "c \<noteq> CHR ''_''" using Cons.prems(1) by (auto simp: is_digit_def)
  then show ?case using Cons by (cases r) auto
qed simp

lemma py_int_of_str_show_int [simp]: "py_int_of_str (show_int n) = Some n"
proof -
  let ?ds = "show_nat (nat \<bar>n\<bar>)"
  have dg: "list_all is_digit ?ds" using show_nat_digits [of "nat \<bar>n\<bar>"] by simp
  obtain c r where cr: "?ds = c # r" by (cases ?ds) auto
  have s: "show_int n = (if n < 0 then CHR ''-'' # ?ds else ?ds)" by (simp add: show_int_def)
  have "py_strip (show_int n) = show_int n"
    using dg digit_no_space by (intro py_strip_no_space) (auto simp: s list_all_iff is_py_space_def split: if_splits)
  moreover have "c \<noteq> CHR ''-''" "c \<noteq> CHR ''+''" using dg cr by (auto simp: is_digit_def)
  moreover have "literal_digits False ?ds = Some ?ds" using dg cr by (intro literal_of_digits) auto
  moreover have "int (read_digits ?ds) = \<bar>n\<bar>" using read_digits_show_nat [of "nat \<bar>n\<bar>"] by simp
  ultimately show ?thesis
    by (cases "n < 0") (simp_all only: py_int_of_str_def s if_True if_False list.case option.map cr char.inject, simp_all)
qed

end
