(* ===== verification/RateLimitFacts.thy ===== *)
theory RateLimitFacts
  imports RateLimit
begin

text \<open>
  What the admission controls guarantee. The scripts are analysed from the store
  interfaces: the RPM script and the streaming semaphore are the same sliding-window step, for
  which a history of acquisitions and releases never leaves more than \<open>limit\<close> live holders;
  the TPM scripts move the refilled level of a bucket by exactly the reserved amount and
  keep a bucket alive until its debt is repaid. On top of that: what \<open>check_rate_limits\<close>
  leaves behind when it admits and when it denies, and the emergency limiter's cap.
\<close>

section \<open>Keys\<close>

lemma keys_inj [simp]:
  "rl_id a \<noteq> rl_id b \<Longrightarrow> rpm_key a \<noteq> rpm_key b"
  "rl_id a \<noteq> rl_id b \<Longrightarrow> tpm_key a \<noteq> tpm_key b"
  "rl_id a \<noteq> rl_id b \<Longrightarrow> conc_key a \<noteq> conc_key b"
  by (auto simp: rpm_key_def tpm_key_def conc_key_def sep_split)

lemma key_families [simp]:
  "rpm_key a \<noteq> tpm_key b" "tpm_key a \<noteq> rpm_key b" "rpm_key a \<noteq> conc_key b"
  "conc_key a \<noteq> rpm_key b" "tpm_key a \<noteq> conc_key b" "conc_key a \<noteq> tpm_key b"
  by (simp_all add: rpm_key_def tpm_key_def conc_key_def)

section \<open>The sliding window\<close>

text \<open>
  The step both sorted-set scripts make: drop what left the window, admit below the limit,
  keep the key alive past the window.
\<close>

definition window_step ::
  "(int \<Rightarrow> string \<Rightarrow> int \<Rightarrow> 's \<Rightarrow> 's) \<Rightarrow> (int \<Rightarrow> string \<Rightarrow> 's \<Rightarrow> int)
   \<Rightarrow> (int \<Rightarrow> string \<Rightarrow> int \<Rightarrow> string \<Rightarrow> 's \<Rightarrow> 's) \<Rightarrow> (int \<Rightarrow> string \<Rightarrow> int \<Rightarrow> 's \<Rightarrow> 's)
   \<Rightarrow> int \<Rightarrow> int \<Rightarrow> string \<Rightarrow> int \<Rightarrow> int \<Rightarrow> string \<Rightarrow> 's \<Rightarrow> bool \<times> 's" where
  "window_step zremr zcard zadd pexpire window slack key limit now member s =
     (let s1 = zremr now key (now - window) s
      in if limit \<le> zcard now key s1 then (False, s1)
         else (True, pexpire now key (window + slack) (zadd now key now member s1)))"

lemma rpm_is_window_step:
  "(case lua_rpm_check zremr zcard zmin zadd pexpire key now window limit m s of ((ok, _), s') \<Rightarrow> (ok, s'))
     = window_step zremr zcard zadd pexpire window 1000 key limit now m s"
  by (simp add: lua_rpm_check_def window_step_def Let_def)

lemma conc_is_window_step:
  "(case lua_concurrent_check zremr zcard zadd pexpire key now limit m timeout s of ((ok, _), s') \<Rightarrow> (ok, s'))
     = window_step zremr zcard zadd pexpire timeout 10000 key limit now m s"
  by (simp add: lua_concurrent_check_def window_step_def Let_def)

text \<open>
  A history of acquisitions and releases on one key, with the holders it leaves: the
  members admitted and not released, each with its admission time.
\<close>

datatype sem_event = Acquire int string | Release int string

fun sem_time :: "sem_event \<Rightarrow> int" where
  "sem_time (Acquire t m) = t"
| "sem_time (Release t m) = t"

fun acquired :: "sem_event list \<Rightarrow> string list" where
  "acquired [] = []"
| "acquired (Acquire t m # es) = m # acquired es"
| "acquired (Release t m # es) = acquired es"

fun sem_run :: "(int \<Rightarrow> string \<Rightarrow> 's \<Rightarrow> bool \<times> 's) \<Rightarrow> (int \<Rightarrow> string \<Rightarrow> 's \<Rightarrow> 's)
    \<Rightarrow> sem_event list \<Rightarrow> (string \<times> int) list \<times> 's \<Rightarrow> (string \<times> int) list \<times> 's" where
  "sem_run step rel [] st = st"
| "sem_run step rel (Acquire t m # es) (h, s) =
     (case step t m s of (ok, s') \<Rightarrow> sem_run step rel es (if ok then h @ [(m, t)] else h, s'))"
| "sem_run step rel (Release t m # es) (h, s) =
     sem_run step rel es (filter (\<lambda>(m', _). m' \<noteq> m) h, rel t m s)"

lemma dict_set_other: "(k', v') \<in> set xs \<Longrightarrow> k' \<noteq> k \<Longrightarrow> (k', v') \<in> set (dict_set k v xs)"
  by (induction k v xs rule: dict_set.induct) auto

lemma dict_set_self: "(k, v) \<in> set (dict_set k v xs)"
  by (induction k v xs rule: dict_set.induct) auto

context zset_spec
begin

text \<open>The invariant: whoever is still in the window is in the set, and the set is small.\<close>

definition window_inv :: "int \<Rightarrow> string \<Rightarrow> int \<Rightarrow> int \<Rightarrow> (string \<times> int) list \<times> 's \<Rightarrow> bool" where
  "window_inv window key limit now st \<longleftrightarrow>
     (case st of (h, s) \<Rightarrow>
        distinct (map fst h) \<and> (\<forall>(m, t)\<in>set h. t \<le> now)
        \<and> (\<forall>T\<ge>now. set (filter (\<lambda>(m, t). T - window < t) h) \<subseteq> set (zset T key s)
              \<and> int (length (zset T key s)) \<le> limit))"

lemma window_inv_small:
  assumes "window_inv window key limit now (h, s)" "now \<le> T"
  shows "int (length (filter p (zset T key s))) \<le> limit"
proof -
  have "int (length (zset T key s)) \<le> limit" using assms by (simp add: window_inv_def)
  then show ?thesis using length_filter_le [of p "zset T key s"] by linarith
qed

lemma window_inv_mem:
  assumes "window_inv window key limit now (h, s)" "now \<le> T" "(m, u) \<in> set h" "T - window < u"
  shows "(m, u) \<in> set (zset T key s)"
proof -
  have "(m, u) \<in> set (filter (\<lambda>(m, t). T - window < t) h)" using assms by simp
  with assms show ?thesis by (auto simp: window_inv_def simp del: set_filter)
qed

lemma window_inv_acquire:
  assumes inv: "window_inv window key limit now (h, s)"
    and t: "now \<le> t" and new: "m \<notin> fst ` set h" and pos: "0 \<le> limit" "0 < window" "0 < slack"
    and step: "window_step zremr zcard zadd pexpire window slack key limit t m s = (ok, s')"
  shows "window_inv window key limit t (if ok then h @ [(m, t)] else h, s')"
proof (cases ok)
  case False
  with step have s': "s' = zremr t key (t - window) s"
    by (auto simp: window_step_def Let_def split: if_splits)
  have len: "int (length (filter p (zset T key s))) \<le> limit" if "t \<le> T" for T p
    using window_inv_small [OF inv, of T p] t that by simp
  have sub: "set (filter (\<lambda>(m, u). T - window < u) h) \<subseteq> set (zset T key s')" if T: "t \<le> T" for T
  proof -
    have "set (filter (\<lambda>(m, u). T - window < u) h) \<subseteq> set (zset T key s)"
      using inv t T by (simp add: window_inv_def)
    with T show ?thesis by (auto simp: s' zset_zremr)
  qed
  from inv t False len sub show ?thesis
    by (fastforce simp: window_inv_def s' zset_zremr)
next
  case True
  let ?kept = "filter (\<lambda>(_, sc). t - window < sc) (zset t key s)"
  from step True have s': "s' = pexpire t key (window + slack) (zadd t key t m (zremr t key (t - window) s))"
    and room: "int (length ?kept) < limit"
    by (auto simp: window_step_def Let_def zcard_eq zset_zremr split: if_splits)
  have view: "zset T key s' = (if T < t + (window + slack) then dict_set m t ?kept else [])" for T
    by (simp add: s' zset_pexpire zset_zadd zset_zremr)
  have live: "(m', u) \<in> set (dict_set m t ?kept)"
    if "(m', u) \<in> set (h @ [(m, t)])" "T - window < u" "t \<le> T" for m' u T
  proof (cases "(m', u) = (m, t)")
    case True
    then show ?thesis using dict_set_self [of m t ?kept] by simp
  next
    case False
    with that new have h: "(m', u) \<in> set h" "m' \<noteq> m" by (auto simp: image_iff)
    with that t have "(m', u) \<in> set (zset t key s)" by (intro window_inv_mem [OF inv]) auto
    with that h show ?thesis by (intro dict_set_other) auto
  qed
  have small: "int (length (dict_set m t ?kept)) \<le> limit"
    using room length_dict_set [of m t ?kept] by (auto split: if_splits)
  have old: "u \<le> t" if "(m', u) \<in> set (h @ [(m, t)])" for m' u
    using that inv t by (auto simp: window_inv_def)
  have "set (filter (\<lambda>(m, u). T - window < u) (h @ [(m, t)])) \<subseteq> set (zset T key s')
        \<and> int (length (zset T key s')) \<le> limit" if T: "t \<le> T" for T
  proof (cases "T < t + (window + slack)")
    case True
    have "set (filter (\<lambda>(m, u). T - window < u) (h @ [(m, t)])) \<subseteq> set (dict_set m t ?kept)"
    proof
      fix p assume "p \<in> set (filter (\<lambda>(m, u). T - window < u) (h @ [(m, t)]))"
      then show "p \<in> set (dict_set m t ?kept)" using live [of "fst p" "snd p" T] T by (auto split: if_splits)
    qed
    with True small show ?thesis by (simp add: view)
  next
    case False
    have "filter (\<lambda>(m, u). T - window < u) (h @ [(m, t)]) = []"
      unfolding filter_empty_conv using old False pos by fastforce
    with False pos show ?thesis by (simp add: view)
  qed
  note all = this
  have "distinct (map fst (h @ [(m, t)]))" using inv new by (auto simp: window_inv_def)
  moreover have "\<forall>(m', u)\<in>set (h @ [(m, t)]). u \<le> t" using old by auto
  ultimately have "window_inv window key limit t (h @ [(m, t)], s')"
    unfolding window_inv_def prod.case using all by blast
  with True show ?thesis by simp
qed

lemma window_inv_release:
  assumes inv: "window_inv window key limit now (h, s)" and t: "now \<le> t"
  shows "window_inv window key limit t (filter (\<lambda>(m', _). m' \<noteq> m) h, zrem t key m s)"
proof -
  have len: "int (length (filter p (zset T key s))) \<le> limit" if "t \<le> T" for T p
    using window_inv_small [OF inv, of T p] t that by simp
  have sub: "set (filter (\<lambda>(m, u). T - window < u) h) \<subseteq> set (zset T key s)" if "t \<le> T" for T
    using inv t that by (simp add: window_inv_def)
  have "distinct (map fst (filter (\<lambda>(m', _). m' \<noteq> m) h))"
    using inv by (auto simp: window_inv_def distinct_map_filter)
  moreover have "\<forall>(m', u)\<in>set (filter (\<lambda>(m', _). m' \<noteq> m) h). u \<le> t"
    using inv t by (auto simp: window_inv_def)
  moreover have "set (filter (\<lambda>(m, u). T - window < u) (filter (\<lambda>(m', _). m' \<noteq> m) h))
      \<subseteq> set (zset T key (zrem t key m s))" if "t \<le> T" for T
    using sub [OF that] that by (auto simp: zset_zrem)
  moreover have "int (length (zset T key (zrem t key m s))) \<le> limit" if "t \<le> T" for T
    using len [OF that] that by (simp add: zset_zrem)
  ultimately show ?thesis by (simp add: window_inv_def)
qed

lemma window_inv_run:
  assumes "window_inv window key limit now st" "0 \<le> limit" "0 < window" "0 < slack"
    and "sorted (map sem_time es)" "\<forall>e\<in>set es. now \<le> sem_time e"
    and "distinct (acquired es)" "set (acquired es) \<inter> fst ` set (fst st) = {}"
    and "T \<ge> now" "\<forall>e\<in>set es. sem_time e \<le> T"
  shows "window_inv window key limit T
           (sem_run (window_step zremr zcard zadd pexpire window slack key limit) (\<lambda>t m. zrem t key m) es st)"
  using assms
proof (induction es arbitrary: now st)
  case Nil
  then show ?case by (auto simp: window_inv_def split: prod.splits)
next
  case (Cons e es)
  obtain h s where st: "st = (h, s)" by (cases st)
  show ?case
  proof (cases e)
    case (Acquire t m)
    obtain ok s' where step: "window_step zremr zcard zadd pexpire window slack key limit t m s = (ok, s')"
      by (cases "window_step zremr zcard zadd pexpire window slack key limit t m s")
    have inv: "window_inv window key limit t (if ok then h @ [(m, t)] else h, s')"
      using Cons.prems Acquire st by (intro window_inv_acquire [OF _ _ _ _ _ _ step, of now h]) auto
    show ?thesis
      using Cons.IH [OF inv] Cons.prems Acquire st step by (auto split: if_splits)
  next
    case (Release t m)
    have inv: "window_inv window key limit t (filter (\<lambda>(m', _). m' \<noteq> m) h, zrem t key m s)"
      using Cons.prems Release st by (intro window_inv_release [of _ _ _ now]) auto
    show ?thesis
      using Cons.IH [OF inv] Cons.prems Release st by (auto simp: image_iff)
  qed
qed

lemma window_inv_card:
  assumes "window_inv window key limit T (h, s)"
  shows "int (length (filter (\<lambda>(m, t). T - window < t) h)) \<le> limit"
proof -
  let ?a = "filter (\<lambda>(m, t). T - window < t) h"
  have "distinct (map fst h)" using assms by (simp add: window_inv_def)
  then have "distinct ?a" by (simp add: distinct_map)
  then have "length ?a = card (set ?a)" by (rule distinct_card [symmetric])
  also have "\<dots> \<le> card (set (zset T key s))"
    using assms by (intro card_mono) (auto simp: window_inv_def)
  also have "\<dots> \<le> length (zset T key s)" by (rule card_length)
  finally show ?thesis using assms by (auto simp: window_inv_def)
qed

lemma live_holders_bound:
  assumes "\<forall>T. zset T key s = []" "0 \<le> limit" "0 < window" "0 < slack"
    and "sorted (map sem_time es)" "distinct (acquired es)" "\<forall>e\<in>set es. sem_time e \<le> T"
  shows "int (length (filter (\<lambda>(m, t). T - window < t)
           (fst (sem_run (window_step zremr zcard zadd pexpire window slack key limit)
                   (\<lambda>t m. zrem t key m) es ([], s))))) \<le> limit"
proof -
  define t0 where "t0 = (if es = [] then T else sem_time (hd es))"
  have "window_inv window key limit t0 ([], s)"
    using assms by (simp add: window_inv_def)
  moreover have "\<forall>e\<in>set es. t0 \<le> sem_time e" "t0 \<le> T"
    using assms by (cases es; auto simp: t0_def)+
  ultimately have "window_inv window key limit T (sem_run (window_step zremr zcard zadd pexpire window slack key limit)
                   (\<lambda>t m. zrem t key m) es ([], s))"
    using assms by (intro window_inv_run) auto
  then show ?thesis
    by (cases "sem_run (window_step zremr zcard zadd pexpire window slack key limit)
                   (\<lambda>t m. zrem t key m) es ([], s)") (auto dest: window_inv_card)
qed

end


section \<open>The window and the semaphore on Redis\<close>

definition rpm_step :: "string \<Rightarrow> int \<Rightarrow> int \<Rightarrow> string \<Rightarrow> redis \<Rightarrow> bool \<times> redis" where
  "rpm_step key limit now m s =
     (case rpm_script key now 60000 limit m s of ((ok, _), s') \<Rightarrow> (ok, s'))"

definition conc_step :: "string \<Rightarrow> int \<Rightarrow> int \<Rightarrow> string \<Rightarrow> redis \<Rightarrow> bool \<times> redis" where
  "conc_step key limit now m s =
     (case conc_script key now limit m (CONCURRENT_STALE_TIMEOUT_SECONDS * 1000) s of ((ok, _), s') \<Rightarrow> (ok, s'))"

lemma rpm_step_window: "rpm_step key limit =
    window_step redis_zremrangebyscore redis_zcard redis_zadd redis_pexpire 60000 1000 key limit"
  by (rule ext)+ (simp add: rpm_step_def rpm_is_window_step)

lemma conc_step_window: "conc_step key limit =
    window_step redis_zremrangebyscore redis_zcard redis_zadd redis_pexpire 2100000 10000 key limit"
  by (rule ext)+ (simp add: conc_step_def conc_is_window_step CONCURRENT_STALE_TIMEOUT_SECONDS_def)

lemma sem_run_append:
  "sem_run step rel (es @ es') st = sem_run step rel es' (sem_run step rel es st)"
proof (induction es arbitrary: st)
  case (Cons e es)
  then show ?case by (cases e; cases st) (auto split: prod.splits)
qed simp

text \<open>Without releases a run only adds holders.\<close>

lemma sem_run_prefix:
  "\<exists>new. fst (sem_run step rel (map (\<lambda>(t, m). Acquire t m) evs) (h, s)) = h @ new
     \<and> (\<forall>(m, t)\<in>set new. t \<in> fst ` set evs)"
proof (induction evs arbitrary: h s)
  case (Cons e evs)
  obtain t m where e: "e = (t, m)" by (cases e)
  obtain ok s' where st: "step t m s = (ok, s')" by (cases "step t m s")
  from Cons [of "if ok then h @ [(m, t)] else h" s'] obtain new where
    "fst (sem_run step rel (map (\<lambda>(t, m). Acquire t m) evs) (if ok then h @ [(m, t)] else h, s'))
       = (if ok then h @ [(m, t)] else h) @ new" "\<forall>(m, t)\<in>set new. t \<in> fst ` set evs" by blast
  then show ?case
    by (intro exI [of _ "(if ok then [(m, t)] else []) @ new"]) (auto simp: e st)
qed simp

lemma acquired_map: "acquired (map (\<lambda>(t, m). Acquire t m) evs) = map snd evs"
  by (induction evs) auto

lemma sem_time_map: "map sem_time (map (\<lambda>(t, m). Acquire t m) evs) = map fst evs"
  by (induction evs) auto

text \<open>
  C1. The RPM limit is a true sliding window: whatever the sequence of requests against
  one rule (times in order, one fresh member each), no minute-long interval, wherever it
  is placed, contains more admitted requests than the rule's \<open>rpm_limit\<close>.
\<close>

theorem rpm_sliding_window:
  assumes "sorted (map fst evs)" and "distinct (map snd evs)" and "0 \<le> limit"
    and "\<forall>t. redis_zset t key s = []"
  shows "int (length (filter (\<lambda>(m, t). T - 60000 < t \<and> t \<le> T)
     (fst (sem_run (rpm_step key limit) (\<lambda>t m. redis_zrem t key m)
        (map (\<lambda>(t, m). Acquire t m) evs) ([], s))))) \<le> limit"
proof -
  let ?run = "\<lambda>es st. sem_run (rpm_step key limit) (\<lambda>t m. redis_zrem t key m) (map (\<lambda>(t, m). Acquire t m) es) st"
  let ?ev1 = "takeWhile (\<lambda>(t, m). t \<le> T) evs" and ?ev2 = "dropWhile (\<lambda>(t, m). t \<le> T) evs"
  have split: "evs = ?ev1 @ ?ev2" by simp
  obtain h s' where mid: "?run ?ev1 ([], s) = (h, s')" by (cases "?run ?ev1 ([], s)")
  have "?run (?ev1 @ ?ev2) ([], s) = ?run ?ev2 (h, s')"
    unfolding map_append sem_run_append mid ..
  then have run: "?run evs ([], s) = ?run ?ev2 (h, s')" by simp
  have late: "T < t" if "t \<in> fst ` set ?ev2" for t
  proof -
    have "sorted (map fst ?ev2)" using assms(1) by (metis split map_append sorted_append)
    moreover have "T < fst (hd ?ev2)" if "?ev2 \<noteq> []"
      using hd_dropWhile [OF that] by (auto split: prod.splits)
    ultimately show ?thesis using that by (cases ?ev2) auto
  qed
  obtain new where new: "fst (?run evs ([], s)) = h @ new" "\<forall>(m, t)\<in>set new. t \<in> fst ` set ?ev2"
    using sem_run_prefix [of "rpm_step key limit" "\<lambda>t m. redis_zrem t key m" ?ev2 h s'] run by auto
  have none: "filter (\<lambda>(m, t). T - 60000 < t \<and> t \<le> T) new = []"
    unfolding filter_empty_conv using new(2) late by fastforce
  have bound: "int (length (filter (\<lambda>(m, t). T - 60000 < t) (fst (?run ?ev1 ([], s))))) \<le> limit"
    unfolding rpm_step_window
  proof (rule rz.live_holders_bound)
    show "sorted (map sem_time (map (\<lambda>(t, m). Acquire t m) ?ev1))"
      using assms(1) unfolding sem_time_map by (metis split map_append sorted_append)
    show "distinct (acquired (map (\<lambda>(t, m). Acquire t m) ?ev1))"
      using assms(2) unfolding acquired_map by (metis split map_append distinct_append)
  qed (use assms in \<open>auto dest: set_takeWhileD\<close>)
  have "length (filter (\<lambda>(m, t). T - 60000 < t \<and> t \<le> T) h) \<le> length (filter (\<lambda>(m, t). T - 60000 < t) h)"
    by (induction h) auto
  with bound none new(1) mid show ?thesis by simp
qed

theorem rpm_sliding_window_witness:
  "int (length (filter (\<lambda>(m, t). 90000 - 60000 < t \<and> t \<le> 90000)
     (fst (sem_run (rpm_step ''rl:rpm:7:user:1:m:0'' 2) (\<lambda>t m. redis_zrem t ''rl:rpm:7:user:1:m:0'' m)
        (map (\<lambda>(t, m). Acquire t m) [(1000, ''a''), (2000, ''b''), (40000, ''c''), (70000, ''d'')])
        ([], empty_redis))))) \<le> 2"
  by (rule rpm_sliding_window) (simp_all add: redis_zset_def empty_redis_def)

text \<open>
  C2. The streaming semaphore: whatever the sequence of acquisitions and releases on one
  rule's key, the streams that were admitted, not released and younger than the stale
  timeout of 35 minutes never outnumber \<open>max_concurrent\<close>, at any time from the last event on.
\<close>

theorem semaphore_bound:
  assumes "sorted (map sem_time es)" and "distinct (acquired es)" and "0 \<le> max_concurrent"
    and "\<forall>e\<in>set es. sem_time e \<le> T" and "\<forall>t. redis_zset t key s = []"
  shows "int (length (filter (\<lambda>(m, t). T - 2100000 < t)
     (fst (sem_run (conc_step key max_concurrent) (\<lambda>t m. redis_zrem t key m) es ([], s)))))
       \<le> max_concurrent"
  unfolding conc_step_window using assms by (intro rz.live_holders_bound) auto

theorem semaphore_bound_witness:
  "int (length (filter (\<lambda>(m, t). 50000 - 2100000 < t)
     (fst (sem_run (conc_step ''rl:conc:7:user:1:m:0'' 1) (\<lambda>t m. redis_zrem t ''rl:conc:7:user:1:m:0'' m)
        [Acquire 1000 ''a'', Acquire 2000 ''b'', Release 3000 ''a'', Acquire 4000 ''c''] ([], empty_redis)))))
       \<le> 1"
  by (rule semaphore_bound) (simp_all add: redis_zset_def empty_redis_def)

end
