(* ===== verification/Admission.thy ===== *)
theory Admission
  imports RateLimitFacts
begin

text \<open>
  The protocol around the scripts, on a healthy connection and on a failing one: an
  admitted request holds exactly what its rules ask for and every rule is within its limit; a
  denied request leaves no trace; the emergency limiter keeps its cap while Redis is down.
\<close>

section \<open>Views of the store\<close>

definition holds :: "int \<Rightarrow> string \<Rightarrow> string \<Rightarrow> redis \<Rightarrow> bool" where
  "holds now k m s \<longleftrightarrow> m \<in> fst ` set (redis_zset now k s)"

text \<open>The refilled level of a rule's token bucket; 0 for a rule without a TPM limit.\<close>

definition bucket_level :: "int \<Rightarrow> rl_rule \<Rightarrow> redis \<Rightarrow> int" where
  "bucket_level now rule s =
     (case rl_tpm_limit rule of
        None \<Rightarrow> 0
      | Some l \<Rightarrow> tpm_level (redis_hget now (tpm_key rule) ''tokens'' s) (redis_hget now (tpm_key rule) ''ts'' s)
                   now (tpm_burst_of rule l) l)"

text \<open>The other keys and values of the store, as one command on \<open>k\<close> leaves them.\<close>

definition same_at :: "int \<Rightarrow> string \<Rightarrow> redis \<Rightarrow> redis \<Rightarrow> bool" where
  "same_at now k s s' \<longleftrightarrow> redis_zset now k s' = redis_zset now k s
     \<and> (\<forall>f. redis_hget now k f s' = redis_hget now k f s)"

lemma same_at_refl [simp]: "same_at now k s s" by (simp add: same_at_def)

lemma same_at_trans: "same_at now k s t \<Longrightarrow> same_at now k t u \<Longrightarrow> same_at now k s u"
  by (simp add: same_at_def)

lemma hash_of_pexpire [simp]:
  "k \<noteq> k' \<Longrightarrow> redis_hget now k' f (redis_pexpire now' k ms s) = redis_hget now k' f s"
  by (rule rh.hget_other)

lemma same_at_cmds [simp]:
  "k \<noteq> k' \<Longrightarrow> same_at now k' s (redis_zadd now k sc m s)"
  "k \<noteq> k' \<Longrightarrow> same_at now k' s (redis_zrem now k m s)"
  "k \<noteq> k' \<Longrightarrow> same_at now k' s (redis_zremrangebyscore now k c s)"
  "k \<noteq> k' \<Longrightarrow> same_at now k' s (redis_pexpire now k ms s)"
  "k \<noteq> k' \<Longrightarrow> same_at now k' s (redis_hset now k f v s)"
  by (simp_all add: same_at_def rz.zset_other rh.hget_other)

section \<open>The scripts, one call\<close>

lemma window_call:
  assumes "window_step redis_zremrangebyscore redis_zcard redis_zadd redis_pexpire w sl k limit now m s = (ok, s')"
    and "0 < w" "0 < sl"
  shows "r_wire s' = r_wire s"
    and "k' \<noteq> k \<Longrightarrow> same_at now k' s s'"
    and "ok \<Longrightarrow> holds now k m s' \<and> int (length (redis_zset now k s')) \<le> limit"
    and "\<not> ok \<Longrightarrow> holds now k m' s' \<Longrightarrow> holds now k m' s"
proof -
  let ?s1 = "redis_zremrangebyscore now k (now - w) s"
  from assms(1) have *: "(\<not> ok \<and> s' = ?s1 \<and> limit \<le> redis_zcard now k ?s1)
    \<or> (ok \<and> s' = redis_pexpire now k (w + sl) (redis_zadd now k now m ?s1) \<and> redis_zcard now k ?s1 < limit)"
    by (auto simp: window_step_def Let_def split: if_splits)
  then show "r_wire s' = r_wire s" by auto
  show "k' \<noteq> k \<Longrightarrow> same_at now k' s s'"
    using * by (auto simp: same_at_def rz.zset_other rh.hget_other)
  show "holds now k m s' \<and> int (length (redis_zset now k s')) \<le> limit" if ok
  proof -
    from that * have s': "s' = redis_pexpire now k (w + sl) (redis_zadd now k now m ?s1)"
      and room: "redis_zcard now k ?s1 < limit" by auto
    have "redis_zset now k s' = dict_set m now (redis_zset now k ?s1)"
      using assms(2,3) by (simp add: s' rz.zset_pexpire rz.zset_zadd)
    with room show ?thesis
      by (simp add: holds_def rz.zcard_eq length_dict_set)
  qed
  show "holds now k m' s" if "\<not> ok" "holds now k m' s'"
    using that * by (auto simp: holds_def rz.zset_zremr)
qed

lemma tpm_level_le: "tpm_level tk ts now limit rate \<le> limit"
  by (simp add: tpm_level_def Let_def)

lemma tpm_call:
  assumes "tpm_script k now limit req rate TPM_BUCKET_TTL_MS s = ((ok, cur, l), s')" "0 \<le> req"
  shows "r_wire s' = r_wire s"
    and "k' \<noteq> k \<Longrightarrow> same_at now k' s s'"
    and "\<not> ok \<Longrightarrow> s' = s \<and> tpm_level (redis_hget now k ''tokens'' s) (redis_hget now k ''ts'' s) now limit rate < req"
    and "ok \<Longrightarrow> redis_hget now k ''ts'' s' = Some now
        \<and> redis_hget now k ''tokens'' s' =
           Some (tpm_level (redis_hget now k ''tokens'' s) (redis_hget now k ''ts'' s) now limit rate - req)
        \<and> req \<le> tpm_level (redis_hget now k ''tokens'' s) (redis_hget now k ''ts'' s) now limit rate"
  using assms
  by (auto simp: lua_tpm_check_def Let_def same_at_def rz.zset_other rh.hget_other rh.hget_pexpire
      rh.hget_hset TPM_BUCKET_TTL_MS_def split: if_splits)

lemma settle_ttl_ge: "ttl \<le> settle_ttl tokens ttl rate"
  by (simp add: settle_ttl_def Let_def)

lemma settle_call:
  assumes "settle_script k now delta limit TPM_BUCKET_TTL_MS rate s = (x, s')"
  shows "r_wire s' = r_wire s"
    and "k' \<noteq> k \<Longrightarrow> same_at now k' s s'"
    and "redis_hget now k ''tokens'' s = Some t \<Longrightarrow>
      redis_hget now k ''tokens'' s' = Some (min limit (t + delta))
      \<and> redis_hget now k ''ts'' s' = redis_hget now k ''ts'' s"
proof -
  have pos: "0 < settle_ttl v TPM_BUCKET_TTL_MS rate" for v
    using settle_ttl_ge [of TPM_BUCKET_TTL_MS v rate] by (simp add: TPM_BUCKET_TTL_MS_def)
  show "r_wire s' = r_wire s" and "k' \<noteq> k \<Longrightarrow> same_at now k' s s'"
    using assms by (auto simp: lua_tpm_settle_def Let_def same_at_def rz.zset_other rh.hget_other split: if_splits)
  assume t: "redis_hget now k ''tokens'' s = Some t"
  then have "redis_exists now k s" using rh.hget_exists [of now k "''tokens''" s] by simp
  with assms t pos show "redis_hget now k ''tokens'' s' = Some (min limit (t + delta))
      \<and> redis_hget now k ''ts'' s' = redis_hget now k ''ts'' s"
    by (auto simp: lua_tpm_settle_def Let_def rh.hget_pexpire rh.hget_hset min_def)
qed

section \<open>Releases on a healthy connection\<close>

lemma release_rpm_healthy:
  assumes "r_wire s = []"
  shows "r_wire (release_rpm now m rs s) = []
    \<and> (\<forall>k. \<not> (\<exists>r\<in>set rs. rpm_key r = k) \<longrightarrow> same_at now k s (release_rpm now m rs s))
    \<and> (\<forall>r\<in>set rs. rl_rpm_limit r \<noteq> None \<longrightarrow> \<not> holds now (rpm_key r) m (release_rpm now m rs s))
    \<and> (\<forall>k m'. holds now k m' (release_rpm now m rs s) \<longrightarrow> holds now k m' s)"
  using assms
proof (induction rs arbitrary: s)
  case (Cons r rs)
  let ?s1 = "redis_zrem now (rpm_key r) m s"
  have z: "redis_zset now k ?s1 = (if k = rpm_key r then filter (\<lambda>(m', _). m' \<noteq> m) (redis_zset now k s) else redis_zset now k s)" for k
    by (simp add: rz.zset_zrem rz.zset_other)
  then have one: "\<not> holds now (rpm_key r) m ?s1" "\<And>k m'. holds now k m' ?s1 \<Longrightarrow> holds now k m' s"
    by (auto simp: holds_def split: if_splits)
  show ?case
  proof (cases "rl_rpm_limit r = None")
    case True
    with Cons show ?thesis by auto
  next
    case False
    from Cons.prems have w: "r_wire ?s1 = []" by simp
    have eq: "release_rpm now m (r # rs) s = release_rpm now m rs ?s1"
      using False Cons.prems by (simp add: ruse_def Let_def)
    show ?thesis unfolding eq using Cons.IH [OF w] one
      by (auto intro: same_at_trans [OF same_at_cmds(2)])
  qed
qed simp

lemma release_concurrent_healthy:
  assumes "r_wire s = []"
  shows "r_wire (release_concurrent now m rs s) = []
    \<and> (\<forall>k. \<not> (\<exists>r\<in>set rs. conc_key r = k) \<longrightarrow> same_at now k s (release_concurrent now m rs s))
    \<and> (\<forall>r\<in>set rs. rl_max_concurrent r \<noteq> None \<longrightarrow> \<not> holds now (conc_key r) m (release_concurrent now m rs s))
    \<and> (\<forall>k m'. holds now k m' (release_concurrent now m rs s) \<longrightarrow> holds now k m' s)"
  using assms
proof (induction rs arbitrary: s)
  case (Cons r rs)
  let ?s1 = "redis_zrem now (conc_key r) m s"
  have z: "redis_zset now k ?s1 = (if k = conc_key r then filter (\<lambda>(m', _). m' \<noteq> m) (redis_zset now k s) else redis_zset now k s)" for k
    by (simp add: rz.zset_zrem rz.zset_other)
  then have one: "\<not> holds now (conc_key r) m ?s1" "\<And>k m'. holds now k m' ?s1 \<Longrightarrow> holds now k m' s"
    by (auto simp: holds_def split: if_splits)
  show ?case
  proof (cases "rl_max_concurrent r = None")
    case True
    with Cons show ?thesis by auto
  next
    case False
    from Cons.prems have w: "r_wire ?s1 = []" by simp
    have eq: "release_concurrent now m (r # rs) s = release_concurrent now m rs ?s1"
      using False Cons.prems by (simp add: ruse_def Let_def)
    show ?thesis unfolding eq using Cons.IH [OF w] one
      by (auto intro: same_at_trans [OF same_at_cmds(2)])
  qed
qed simp

lemma settle_loop_healthy:
  assumes "r_wire s = []" "distinct (map rl_id rs)"
  shows "fst (settle_tpm_loop now delta rs s) \<and> r_wire (snd (settle_tpm_loop now delta rs s)) = []
    \<and> (\<forall>k. \<not> (\<exists>r\<in>set rs. tpm_key r = k) \<longrightarrow> same_at now k s (snd (settle_tpm_loop now delta rs s)))
    \<and> (\<forall>r\<in>set rs. \<forall>l t. rl_tpm_limit r = Some l \<longrightarrow> redis_hget now (tpm_key r) ''tokens'' s = Some t \<longrightarrow>
         redis_hget now (tpm_key r) ''tokens'' (snd (settle_tpm_loop now delta rs s)) = Some (min (tpm_burst_of r l) (t + delta))
         \<and> redis_hget now (tpm_key r) ''ts'' (snd (settle_tpm_loop now delta rs s)) = redis_hget now (tpm_key r) ''ts'' s)"
  using assms
proof (induction rs arbitrary: s)
  case (Cons r rs)
  show ?case
  proof (cases "rl_tpm_limit r")
    case None
    with Cons show ?thesis by auto
  next
    case (Some l)
    obtain x s1 where st: "settle_script (tpm_key r) now delta (tpm_burst_of r l) TPM_BUCKET_TTL_MS l s = (x, s1)"
      by (cases "settle_script (tpm_key r) now delta (tpm_burst_of r l) TPM_BUCKET_TTL_MS l s")
    note c = settle_call [OF st]
    have w: "r_wire s1 = []" using c(1) Cons.prems by simp
    have eq: "settle_tpm_loop now delta (r # rs) s = settle_tpm_loop now delta rs s1"
      using Some Cons.prems st by (simp add: Let_def)
    note IH = Cons.IH [OF w]
    have frame: "same_at now k s s1" if "tpm_key r \<noteq> k" for k by (rule c(2) [OF not_sym [OF that]])
    have other: "tpm_key r' \<noteq> tpm_key r" if "r' \<in> set rs" for r'
    proof (rule keys_inj(2))
      from Cons.prems have "rl_id r \<notin> rl_id ` set rs" by simp
      with that show "rl_id r' \<noteq> rl_id r" by (metis imageI)
    qed
    have "same_at now (tpm_key r) s1 (snd (settle_tpm_loop now delta rs s1))"
      using IH Cons.prems other by auto
    moreover have "same_at now (tpm_key r') s s1" if "r' \<in> set rs" for r'
      by (rule c(2) [OF other [OF that]])
    ultimately show ?thesis unfolding eq using IH Cons.prems c(3) Some
      by (auto simp: same_at_def frame [unfolded same_at_def])
  qed
qed simp


section \<open>The invariant of a check\<close>

definition rpm_held :: "rl_req \<Rightarrow> bool \<Rightarrow> rl_rule \<Rightarrow> redis \<Rightarrow> bool" where
  "rpm_held q acq r s \<longleftrightarrow>
     (if acq then holds (rq_now q) (rpm_key r) (rq_member q) s
        \<and> (\<forall>l. rl_rpm_limit r = Some l \<longrightarrow> int (length (redis_zset (rq_now q) (rpm_key r) s)) \<le> l)
      else \<not> holds (rq_now q) (rpm_key r) (rq_member q) s)"

definition conc_held :: "rl_req \<Rightarrow> bool \<Rightarrow> rl_rule \<Rightarrow> redis \<Rightarrow> bool" where
  "conc_held q acq r s \<longleftrightarrow>
     (if acq then holds (rq_now q) (conc_key r) (rq_member q) s
        \<and> (\<forall>l. rl_max_concurrent r = Some l \<longrightarrow> int (length (redis_zset (rq_now q) (conc_key r) s)) \<le> l)
      else \<not> holds (rq_now q) (conc_key r) (rq_member q) s)"

definition tpm_held :: "rl_req \<Rightarrow> redis \<Rightarrow> bool \<Rightarrow> rl_rule \<Rightarrow> redis \<Rightarrow> bool" where
  "tpm_held q s0 acq r s \<longleftrightarrow>
     (let k = tpm_key r; now = rq_now q
      in if acq then redis_hget now k ''tokens'' s = Some (bucket_level now r s0 - rq_estimate q)
           \<and> redis_hget now k ''ts'' s = Some now \<and> rq_estimate q \<le> bucket_level now r s0
         else redis_hget now k ''tokens'' s = redis_hget now k ''tokens'' s0
           \<and> redis_hget now k ''ts'' s = redis_hget now k ''ts'' s0)"

lemma held_same_at:
  "same_at (rq_now q) (rpm_key r) s s' \<Longrightarrow> rpm_held q a r s' = rpm_held q a r s"
  "same_at (rq_now q) (conc_key r) s s' \<Longrightarrow> conc_held q a r s' = conc_held q a r s"
  "same_at (rq_now q) (tpm_key r) s s' \<Longrightarrow> tpm_held q s0 a r s' = tpm_held q s0 a r s"
  by (simp_all add: rpm_held_def conc_held_def tpm_held_def holds_def same_at_def)

definition gate_inv :: "rl_req \<Rightarrow> redis \<Rightarrow> rl_rule set \<Rightarrow> rl_acc \<Rightarrow> redis \<Rightarrow> bool" where
  "gate_inv q s0 C acc s \<longleftrightarrow>
     r_wire s = [] \<and> distinct (map rl_id (la_tpm_acquired acc))
     \<and> set (la_rpm_acquired acc) \<subseteq> {r \<in> set (rq_rules q). rl_rpm_limit r \<noteq> None}
     \<and> set (la_tpm_acquired acc) \<subseteq> {r \<in> set (rq_rules q). rl_tpm_limit r \<noteq> None}
     \<and> C \<subseteq> {r \<in> set (rq_rules q). rl_max_concurrent r \<noteq> None}
     \<and> (C \<noteq> {} \<longrightarrow> la_conc_acquired acc) \<and> (la_tpm_acquired acc \<noteq> [] \<longrightarrow> 0 < rq_estimate q)
     \<and> (\<forall>r\<in>set (rq_rules q). rpm_held q (r \<in> set (la_rpm_acquired acc)) r s
          \<and> tpm_held q s0 (r \<in> set (la_tpm_acquired acc)) r s \<and> conc_held q (r \<in> C) r s)"

text \<open>A request whose rules have distinct ids and whose member token is fresh.\<close>

definition fresh_req :: "rl_req \<Rightarrow> redis \<Rightarrow> bool" where
  "fresh_req q s \<longleftrightarrow> r_wire s = [] \<and> distinct (map rl_id (rq_rules q))
     \<and> (\<forall>r\<in>set (rq_rules q). \<not> holds (rq_now q) (rpm_key r) (rq_member q) s
          \<and> \<not> holds (rq_now q) (conc_key r) (rq_member q) s)"

lemma gate_inv_start: "fresh_req q s \<Longrightarrow> gate_inv q s {} rl_acc0 s"
  by (auto simp: gate_inv_def fresh_req_def rl_acc0_def rpm_held_def conc_held_def tpm_held_def Let_def)

lemma rule_ids_inj:
  "distinct (map rl_id rules) \<Longrightarrow> r \<in> set rules \<Longrightarrow> r' \<in> set rules \<Longrightarrow> r \<noteq> r' \<Longrightarrow> rl_id r \<noteq> rl_id r'"
  by (auto simp: distinct_map inj_on_def)

definition gate_post :: "rl_req \<Rightarrow> redis \<Rightarrow> rl_rule set \<Rightarrow> rl_rule set \<Rightarrow> rl_acc \<Rightarrow> rl_acc \<Rightarrow> rl_rule set \<Rightarrow> rl_rule set
     \<Rightarrow> gate \<Rightarrow> redis \<Rightarrow> bool" where
  "gate_post q s0 C C' acc _ R T g s' \<longleftrightarrow>
     (case g of
        GPass acc' \<Rightarrow> gate_inv q s0 C' acc' s'
          \<and> set (la_rpm_acquired acc') = set (la_rpm_acquired acc) \<union> R
          \<and> set (la_tpm_acquired acc') = set (la_tpm_acquired acc) \<union> T
      | GDeny d \<Rightarrow> \<not> rr_allowed d \<and> (\<exists>s1. gate_inv q s0 C acc s1 \<and> s' = rollback q acc s1)
      | GRaise \<Rightarrow> False)"

lemma rpm_gate_inv:
  assumes inv: "gate_inv q s0 C acc s" and rule: "rule \<in> set (rq_rules q)"
    and ids: "distinct (map rl_id (rq_rules q))" and new: "rule \<notin> set (la_rpm_acquired acc)"
    and res: "rpm_gate q rule acc s = (g, s')"
  shows "gate_post q s0 C C acc acc (if rl_rpm_limit rule = None then {} else {rule}) {} g s'"
proof (cases "rl_rpm_limit rule")
  case None
  with res inv show ?thesis by (auto simp: rpm_gate_def gate_post_def)
next
  case (Some l)
  obtain ok cur lim old s1 where sc: "rpm_script (rpm_key rule) (rq_now q) 60000 l (rq_member q) s = ((ok, cur, lim, old), s1)"
    by (cases "rpm_script (rpm_key rule) (rq_now q) 60000 l (rq_member q) s") auto
  have "window_step redis_zremrangebyscore redis_zcard redis_zadd redis_pexpire 60000 1000 (rpm_key rule) l (rq_now q) (rq_member q) s = (ok, s1)"
    using rpm_is_window_step [of redis_zremrangebyscore redis_zcard redis_zmin redis_zadd redis_pexpire "rpm_key rule" "rq_now q" 60000 l "rq_member q" s]
    by (simp add: sc)
  note c = window_call [OF this, simplified]
  have w: "r_wire s = []" using inv by (simp add: gate_inv_def)
  have other: "rpm_held q a r s1 = rpm_held q a r s" if "r \<in> set (rq_rules q)" "r \<noteq> rule" for a r
    using rule_ids_inj [OF ids that(1) rule that(2)] by (intro held_same_at c(2)) (rule keys_inj)
  have others: "tpm_held q s0 a r s1 = tpm_held q s0 a r s" "conc_held q a r s1 = conc_held q a r s" for a r
    by (intro held_same_at c(2), simp)+
  show ?thesis
  proof (cases ok)
    case True
    then have g: "g = GPass (acc\<lparr>la_rpm_remaining := Some (max 0 (lim - cur)), la_rpm_acquired := la_rpm_acquired acc @ [rule]\<rparr>)"
      "s' = s1" using res Some w sc by (auto simp: rpm_gate_def)
    have "rpm_held q True rule s1" using c(3) True Some by (simp add: rpm_held_def)
    then have "rpm_held q (r = rule \<or> r \<in> set (la_rpm_acquired acc)) r s1" if "r \<in> set (rq_rules q)" for r
      using that other inv by (cases "r = rule") (simp_all add: gate_inv_def)
    then show ?thesis using g inv rule Some c(1) others
      by (auto simp: gate_post_def gate_inv_def)
  next
    case False
    then have g: "\<exists>d. g = GDeny d \<and> \<not> rr_allowed d" "s' = rollback q acc s1"
      using res Some w sc by (auto simp: rpm_gate_def rl_result_default_def)
    have "rpm_held q False rule s1" using c(4) [OF False] inv rule new by (auto simp: rpm_held_def gate_inv_def)
    then have "rpm_held q (r \<in> set (la_rpm_acquired acc)) r s1" if "r \<in> set (rq_rules q)" for r
      using that other inv new by (cases "r = rule") (simp_all add: gate_inv_def)
    then have "gate_inv q s0 C acc s1" using inv c(1) others
      by (simp add: gate_inv_def)
    with g show ?thesis by (auto simp: gate_post_def)
  qed
qed

lemma conc_gate_inv:
  assumes inv: "gate_inv q s0 C acc s" and rule: "rule \<in> set (rq_rules q)"
    and ids: "distinct (map rl_id (rq_rules q))" and new: "rule \<notin> C"
    and res: "conc_gate q rule acc s = (g, s')"
  shows "gate_post q s0 C (C \<union> (if rl_max_concurrent rule = None \<or> \<not> rq_stream q then {} else {rule})) acc acc {} {} g s'"
proof (cases "rl_max_concurrent rule = None \<or> \<not> rq_stream q")
  case True
  with res inv show ?thesis by (auto simp: conc_gate_def gate_post_def split: option.splits)
next
  case False
  then obtain l where Some: "rl_max_concurrent rule = Some l" "rq_stream q" by auto
  obtain ok cur lim s1 where sc: "conc_script (conc_key rule) (rq_now q) l (rq_member q) (CONCURRENT_STALE_TIMEOUT_SECONDS * 1000) s = ((ok, cur, lim), s1)"
    by (cases "conc_script (conc_key rule) (rq_now q) l (rq_member q) (CONCURRENT_STALE_TIMEOUT_SECONDS * 1000) s") auto
  have "window_step redis_zremrangebyscore redis_zcard redis_zadd redis_pexpire (CONCURRENT_STALE_TIMEOUT_SECONDS * 1000) 10000 (conc_key rule) l (rq_now q) (rq_member q) s = (ok, s1)"
    using conc_is_window_step [of redis_zremrangebyscore redis_zcard redis_zadd redis_pexpire "conc_key rule" "rq_now q" l "rq_member q" "CONCURRENT_STALE_TIMEOUT_SECONDS * 1000" s]
    by (simp add: sc)
  note c = window_call [OF this, simplified CONCURRENT_STALE_TIMEOUT_SECONDS_def, simplified]
  have w: "r_wire s = []" using inv by (simp add: gate_inv_def)
  have other: "conc_held q a r s1 = conc_held q a r s" if "r \<in> set (rq_rules q)" "r \<noteq> rule" for a r
    using rule_ids_inj [OF ids that(1) rule that(2)] by (intro held_same_at c(2)) (rule keys_inj)
  have others: "tpm_held q s0 a r s1 = tpm_held q s0 a r s" "rpm_held q a r s1 = rpm_held q a r s" for a r
    by (intro held_same_at c(2), simp)+
  show ?thesis
  proof (cases ok)
    case True
    then have g: "g = GPass (acc\<lparr>la_conc_remaining := Some (max 0 (lim - cur)), la_conc_acquired := True\<rparr>)"
      "s' = s1" using res Some w sc by (auto simp: conc_gate_def)
    have "conc_held q True rule s1" using c(3) True Some by (simp add: conc_held_def)
    then have "conc_held q (r = rule \<or> r \<in> C) r s1" if "r \<in> set (rq_rules q)" for r
      using that other inv by (cases "r = rule") (simp_all add: gate_inv_def)
    then show ?thesis using g inv rule Some c(1) others
      by (auto simp: gate_post_def gate_inv_def)
  next
    case False
    then have g: "\<exists>d. g = GDeny d \<and> \<not> rr_allowed d" "s' = rollback q acc s1"
      using res Some w sc by (auto simp: conc_gate_def rl_result_default_def)
    have "conc_held q False rule s1" using c(4) [OF False] inv rule new by (auto simp: conc_held_def gate_inv_def)
    then have "conc_held q (r \<in> C) r s1" if "r \<in> set (rq_rules q)" for r
      using that other inv new by (cases "r = rule") (simp_all add: gate_inv_def)
    then have "gate_inv q s0 C acc s1" using inv c(1) others
      by (simp add: gate_inv_def)
    with g show ?thesis by (auto simp: gate_post_def)
  qed
qed


lemma bucket_level_same:
  "tpm_held q s0 False r s \<Longrightarrow> bucket_level (rq_now q) r s = bucket_level (rq_now q) r s0"
  by (simp add: tpm_held_def bucket_level_def Let_def split: option.splits)

lemma tpm_gate_inv:
  assumes inv: "gate_inv q s0 C acc s" and rule: "rule \<in> set (rq_rules q)"
    and ids: "distinct (map rl_id (rq_rules q))" and new: "rule \<notin> set (la_tpm_acquired acc)"
    and res: "tpm_gate q rule acc s = (g, s')"
  shows "gate_post q s0 C C acc acc {}
           (if rl_tpm_limit rule = None \<or> rq_estimate q \<le> 0 then {} else {rule}) g s'"
proof (cases "rl_tpm_limit rule = None \<or> rq_estimate q \<le> 0")
  case True
  with res inv show ?thesis by (auto simp: tpm_gate_def gate_post_def split: option.splits)
next
  case False
  then obtain l where Some: "rl_tpm_limit rule = Some l" "0 < rq_estimate q" by auto
  obtain ok cur lim s1 where sc: "tpm_script (tpm_key rule) (rq_now q) (tpm_burst_of rule l) (rq_estimate q) l TPM_BUCKET_TTL_MS s = ((ok, cur, lim), s1)"
    by (cases "tpm_script (tpm_key rule) (rq_now q) (tpm_burst_of rule l) (rq_estimate q) l TPM_BUCKET_TTL_MS s") auto
  note c = tpm_call [OF sc less_imp_le [OF Some(2)]]
  have w: "r_wire s = []" using inv by (simp add: gate_inv_def)
  have level: "tpm_level (redis_hget (rq_now q) (tpm_key rule) ''tokens'' s) (redis_hget (rq_now q) (tpm_key rule) ''ts'' s)
      (rq_now q) (tpm_burst_of rule l) l = bucket_level (rq_now q) rule s0"
  proof -
    have "tpm_held q s0 (rule \<in> set (la_tpm_acquired acc)) rule s" using inv rule by (simp add: gate_inv_def)
    with new have "tpm_held q s0 False rule s" by simp
    then show ?thesis using Some bucket_level_same [of q s0 rule s] by (simp add: bucket_level_def)
  qed
  have other: "tpm_held q s0 a r s1 = tpm_held q s0 a r s" if "r \<in> set (rq_rules q)" "r \<noteq> rule" for a r
    using rule_ids_inj [OF ids that(1) rule that(2)] by (intro held_same_at c(2)) (rule keys_inj)
  have others: "rpm_held q a r s1 = rpm_held q a r s" "conc_held q a r s1 = conc_held q a r s" for a r
    by (intro held_same_at c(2), simp)+
  show ?thesis
  proof (cases ok)
    case True
    then have g: "g = GPass (acc\<lparr>la_tpm_remaining := Some cur, la_tpm_acquired := la_tpm_acquired acc @ [rule]\<rparr>)"
      "s' = s1" using res Some w sc by (auto simp: tpm_gate_def)
    have "tpm_held q s0 True rule s1" using c(4) True Some level by (simp add: tpm_held_def Let_def)
    then have "tpm_held q s0 (r = rule \<or> r \<in> set (la_tpm_acquired acc)) r s1" if "r \<in> set (rq_rules q)" for r
      using that other inv by (cases "r = rule") (simp_all add: gate_inv_def)
    moreover have "rl_id rule \<notin> rl_id ` set (la_tpm_acquired acc)"
      using rule_ids_inj [OF ids] rule new inv by (auto simp: gate_inv_def)
    ultimately show ?thesis using g inv rule Some c(1) others
      by (auto simp: gate_post_def gate_inv_def)
  next
    case False
    then have g: "\<exists>d. g = GDeny d \<and> \<not> rr_allowed d" "s' = rollback q acc s"
      using res Some w sc c(3) by (auto simp: tpm_gate_def rl_result_default_def)
    with inv show ?thesis by (auto simp: gate_post_def)
  qed
qed

text \<open>The state a denied request leaves: no member, and every bucket at its old level.\<close>

definition no_trace :: "rl_req \<Rightarrow> redis \<Rightarrow> redis \<Rightarrow> bool" where
  "no_trace q s0 s \<longleftrightarrow> (\<forall>r\<in>set (rq_rules q).
     \<not> holds (rq_now q) (rpm_key r) (rq_member q) s \<and> \<not> holds (rq_now q) (conc_key r) (rq_member q) s
     \<and> bucket_level (rq_now q) r s = bucket_level (rq_now q) r s0)"

lemma rollback_no_trace:
  assumes inv: "gate_inv q s0 C acc s" and ids: "distinct (map rl_id (rq_rules q))"
  shows "no_trace q s0 (rollback q acc s)"
proof -
  let ?n = "rq_now q" and ?m = "rq_member q"
  define s1 where "s1 = (if la_rpm_acquired acc \<noteq> [] then release_rpm ?n ?m (la_rpm_acquired acc) s else s)"
  define s2 where "s2 = (if la_tpm_acquired acc \<noteq> [] then snd (settle_tpm ?n (la_tpm_acquired acc) (rq_estimate q) s1) else s1)"
  define s3 where "s3 = (if la_conc_acquired acc then release_concurrent ?n ?m (rq_rules q) s2 else s2)"
  have w: "r_wire s = []" using inv by (simp add: gate_inv_def)
  have "s1 = release_rpm ?n ?m (la_rpm_acquired acc) s" by (simp add: s1_def)
  with release_rpm_healthy [OF w, of ?n ?m "la_rpm_acquired acc"] inv
  have s1: "r_wire s1 = []" "\<And>k. (\<And>r. rpm_key r \<noteq> k) \<Longrightarrow> same_at ?n k s s1"
    "\<And>k m'. holds ?n k m' s1 \<Longrightarrow> holds ?n k m' s"
    "\<And>r. r \<in> set (la_rpm_acquired acc) \<Longrightarrow> \<not> holds ?n (rpm_key r) ?m s1"
    by (auto simp: gate_inv_def)
  have est: "la_tpm_acquired acc \<noteq> [] \<Longrightarrow> rq_estimate q \<noteq> 0" using inv by (auto simp: gate_inv_def)
  have ids': "distinct (map rl_id (la_tpm_acquired acc))" using inv by (simp add: gate_inv_def)
  note set2 = settle_loop_healthy [OF s1(1) ids', of ?n "rq_estimate q"]
  have s2eq: "s2 = snd (settle_tpm_loop ?n (rq_estimate q) (la_tpm_acquired acc) s1)"
    using est by (simp add: s2_def settle_tpm_def)
  from set2 have s2: "r_wire s2 = []" "\<And>k. (\<And>r. tpm_key r \<noteq> k) \<Longrightarrow> same_at ?n k s1 s2"
    unfolding s2eq by auto
  note rel = release_concurrent_healthy [OF s2(1), of ?n ?m "rq_rules q"]
  have s3: "\<And>k. (\<And>r. conc_key r \<noteq> k) \<Longrightarrow> same_at ?n k s2 s3"
    "\<And>r. la_conc_acquired acc \<Longrightarrow> r \<in> set (rq_rules q) \<Longrightarrow> rl_max_concurrent r \<noteq> None \<Longrightarrow> \<not> holds ?n (conc_key r) ?m s3"
    "\<And>k m'. holds ?n k m' s3 \<Longrightarrow> holds ?n k m' s2"
    using rel by (cases "la_conc_acquired acc"; auto simp: s3_def)+
  have rb: "rollback q acc s = s3" by (simp add: rollback_def s1_def s2_def s3_def Let_def)
  show ?thesis unfolding no_trace_def rb
  proof (intro ballI conjI)
    fix r assume r: "r \<in> set (rq_rules q)"
    have "holds ?n (rpm_key r) ?m s3 \<longleftrightarrow> holds ?n (rpm_key r) ?m s1"
      using s2(2) [of "rpm_key r"] s3(1) [of "rpm_key r"] by (simp add: holds_def same_at_def)
    then show "\<not> holds ?n (rpm_key r) ?m s3"
      using s1(3,4) inv r by (cases "r \<in> set (la_rpm_acquired acc)") (auto simp: gate_inv_def rpm_held_def)
    show "\<not> holds ?n (conc_key r) ?m s3"
    proof (cases "r \<in> C")
      case True
      with inv r s3(2) show ?thesis by (auto simp: gate_inv_def)
    next
      case False
      then have "\<not> holds ?n (conc_key r) ?m s" using inv r by (simp add: gate_inv_def conc_held_def)
      then have "\<not> holds ?n (conc_key r) ?m s2"
        using s1(2) [of "conc_key r"] s2(2) [of "conc_key r"] by (simp add: holds_def same_at_def)
      with s3(3) show ?thesis by blast
    qed
    have "tpm_held q s0 (r \<in> set (la_tpm_acquired acc)) r s" using inv r by (simp add: gate_inv_def)
    then have t1: "tpm_held q s0 (r \<in> set (la_tpm_acquired acc)) r s1"
      by (subst held_same_at(3) [OF s1(2)]) auto
    have same3: "bucket_level ?n r s3 = bucket_level ?n r s2"
      using s3(1) [of "tpm_key r"] by (simp add: bucket_level_def same_at_def split: option.splits)
    show "bucket_level ?n r s3 = bucket_level ?n r s0"
    proof (cases "r \<in> set (la_tpm_acquired acc)")
      case True
      then obtain l where l: "rl_tpm_limit r = Some l"
        using inv by (force simp: gate_inv_def)
      have "bucket_level ?n r s0 \<le> tpm_burst_of r l"
        using tpm_level_le l by (simp add: bucket_level_def)
      then show ?thesis using set2 True l t1 unfolding same3 s2eq
        by (simp add: bucket_level_def tpm_held_def Let_def tpm_level_def)
    next
      case False
      have "tpm_key r' \<noteq> tpm_key r" if "r' \<in> set (la_tpm_acquired acc)" for r'
        using False that inv r
        by (intro keys_inj(2) rule_ids_inj [OF ids]) (auto simp: gate_inv_def)
      with set2 have "same_at ?n (tpm_key r) s1 s2" unfolding s2eq by blast
      then have "tpm_held q s0 False r s2" using t1 False held_same_at(3) by simp
      then show ?thesis unfolding same3 by (rule bucket_level_same)
    qed
  qed
qed


text \<open>The loop over the rules.\<close>

definition loop_post :: "rl_req \<Rightarrow> redis \<Rightarrow> rl_rule set \<Rightarrow> gate \<Rightarrow> redis \<Rightarrow> bool" where
  "loop_post q s0 done g s' \<longleftrightarrow>
     (case g of
        GPass acc \<Rightarrow> \<exists>C. gate_inv q s0 C acc s'
          \<and> (\<forall>r\<in>done. (rl_rpm_limit r \<noteq> None \<longrightarrow> r \<in> set (la_rpm_acquired acc))
               \<and> (rl_tpm_limit r \<noteq> None \<longrightarrow> 0 < rq_estimate q \<longrightarrow> r \<in> set (la_tpm_acquired acc))
               \<and> (rl_max_concurrent r \<noteq> None \<longrightarrow> rq_stream q \<longrightarrow> r \<in> C))
      | GDeny d \<Rightarrow> \<not> rr_allowed d \<and> no_trace q s0 s'
      | GRaise \<Rightarrow> False)"

lemma check_rules_inv:
  assumes ids: "distinct (map rl_id (rq_rules q))" and "gate_inv q s0 C acc s"
    and "rq_rules q = before @ rules"
    and "set (la_rpm_acquired acc) \<subseteq> set before" "set (la_tpm_acquired acc) \<subseteq> set before" "C \<subseteq> set before"
    and "loop_post q s0 (set before) (GPass acc) s"
    and "\<forall>r\<in>set before. (rl_rpm_limit r \<noteq> None \<longrightarrow> r \<in> set (la_rpm_acquired acc))
               \<and> (rl_tpm_limit r \<noteq> None \<longrightarrow> 0 < rq_estimate q \<longrightarrow> r \<in> set (la_tpm_acquired acc))
               \<and> (rl_max_concurrent r \<noteq> None \<longrightarrow> rq_stream q \<longrightarrow> r \<in> C)"
    and "check_rules q rules acc s = (g, s')"
  shows "loop_post q s0 (set (rq_rules q)) g s'"
  using assms(2-)
proof (induction rules arbitrary: before C acc s)
  case Nil
  then show ?case by (auto simp: loop_post_def)
next
  case (Cons rule rules)
  have mem: "rule \<in> set (rq_rules q)" and notin: "rule \<notin> set before"
    using Cons.prems(2) ids by (auto simp: distinct_map)
  obtain g1 s1 where r1: "rpm_gate q rule acc s = (g1, s1)" by (cases "rpm_gate q rule acc s")
  have p1: "gate_post q s0 C C acc acc (if rl_rpm_limit rule = None then {} else {rule}) {} g1 s1"
    using Cons.prems notin by (intro rpm_gate_inv [OF _ mem ids _ r1]) auto
  show ?case
  proof (cases g1)
    case (GDeny d)
    with p1 Cons.prems r1 rollback_no_trace [OF _ ids] show ?thesis
      by (auto simp: gate_post_def loop_post_def check_rule_def gate_then_def)
  next
    case GRaise
    with p1 show ?thesis by (simp add: gate_post_def)
  next
    case (GPass acc1)
    obtain g2 s2 where r2: "tpm_gate q rule acc1 s1 = (g2, s2)" by (cases "tpm_gate q rule acc1 s1")
    have i1: "gate_inv q s0 C acc1 s1" and t1: "set (la_tpm_acquired acc1) = set (la_tpm_acquired acc)"
      and m1: "set (la_rpm_acquired acc1) = set (la_rpm_acquired acc) \<union> (if rl_rpm_limit rule = None then {} else {rule})"
      using p1 GPass by (auto simp: gate_post_def)
    have p2: "gate_post q s0 C C acc1 acc1 {} (if rl_tpm_limit rule = None \<or> rq_estimate q \<le> 0 then {} else {rule}) g2 s2"
      using Cons.prems notin t1 by (intro tpm_gate_inv [OF i1 mem ids _ r2]) auto
    show ?thesis
    proof (cases g2)
      case (GDeny d)
      with p2 Cons.prems r1 r2 GPass rollback_no_trace [OF _ ids] show ?thesis
        by (auto simp: gate_post_def loop_post_def check_rule_def gate_then_def)
    next
      case GRaise
      with p2 show ?thesis by (simp add: gate_post_def)
    next
      case (GPass acc2)
      obtain g3 s3 where r3: "conc_gate q rule acc2 s2 = (g3, s3)" by (cases "conc_gate q rule acc2 s2")
      let ?D = "if rl_max_concurrent rule = None \<or> \<not> rq_stream q then {} else {rule}"
      have i2: "gate_inv q s0 C acc2 s2"
        and m2: "set (la_rpm_acquired acc2) = set (la_rpm_acquired acc1)"
        and t2: "set (la_tpm_acquired acc2) = set (la_tpm_acquired acc1) \<union> (if rl_tpm_limit rule = None \<or> rq_estimate q \<le> 0 then {} else {rule})"
        using p2 GPass by (auto simp: gate_post_def)
      have p3: "gate_post q s0 C (C \<union> ?D) acc2 acc2 {} {} g3 s3"
        using Cons.prems notin by (intro conc_gate_inv [OF i2 mem ids _ r3]) auto
      show ?thesis
      proof (cases g3)
        case (GDeny d)
        with p3 Cons.prems r1 r2 r3 GPass \<open>g1 = GPass acc1\<close> rollback_no_trace [OF _ ids] show ?thesis
          by (auto simp: gate_post_def loop_post_def check_rule_def gate_then_def)
      next
        case GRaise
        with p3 show ?thesis by (simp add: gate_post_def)
      next
        case (GPass acc3)
        have i3: "gate_inv q s0 (C \<union> ?D) acc3 s3"
          and m3: "set (la_rpm_acquired acc3) = set (la_rpm_acquired acc2)"
          and t3: "set (la_tpm_acquired acc3) = set (la_tpm_acquired acc2)"
          using p3 GPass by (auto simp: gate_post_def)
        have done': "\<forall>r\<in>set (before @ [rule]). (rl_rpm_limit r \<noteq> None \<longrightarrow> r \<in> set (la_rpm_acquired acc3))
               \<and> (rl_tpm_limit r \<noteq> None \<longrightarrow> 0 < rq_estimate q \<longrightarrow> r \<in> set (la_tpm_acquired acc3))
               \<and> (rl_max_concurrent r \<noteq> None \<longrightarrow> rq_stream q \<longrightarrow> r \<in> C \<union> ?D)"
          using Cons.prems(7) unfolding m3 m2 m1 t3 t2 t1 by auto
        have run: "check_rules q rules acc3 s3 = (g, s')"
          using Cons.prems(8) r1 r2 r3 GPass \<open>g1 = GPass acc1\<close> \<open>g2 = GPass acc2\<close>
          by (simp add: check_rule_def gate_then_def)
        have lp: "loop_post q s0 (set (before @ [rule])) (GPass acc3) s3"
          unfolding loop_post_def gate.case
          by (rule exI [of _ "C \<union> ?D"], rule conjI [OF i3 done'])
        show ?thesis
          by (rule Cons.IH [OF i3 _ _ _ _ lp done' run])
            (use Cons.prems m3 m2 m1 t3 t2 t1 in \<open>auto split: if_splits\<close>)
      qed
    qed
  qed
qed

lemma check_rules_healthy:
  assumes "fresh_req q s" "check_rules q (rq_rules q) rl_acc0 s = (g, s')"
  shows "loop_post q s (set (rq_rules q)) g s'"
proof (rule check_rules_inv)
  show "distinct (map rl_id (rq_rules q))" using assms(1) by (simp add: fresh_req_def)
  show "gate_inv q s {} rl_acc0 s" using assms(1) by (rule gate_inv_start)
  then show "loop_post q s (set []) (GPass rl_acc0) s" by (auto simp: loop_post_def)
qed (use assms in \<open>simp_all add: rl_acc0_def\<close>)

section \<open>What a check leaves behind\<close>

lemma denied_no_trace:
  assumes "fresh_req q s" and "check_rate_limits q (s, w) = (res, s', w')" and "\<not> rr_allowed res"
  shows "no_trace q s s' \<and> w' = w"
proof -
  obtain g t where run: "check_rules q (rq_rules q) rl_acc0 s = (g, t)"
    by (cases "check_rules q (rq_rules q) rl_acc0 s")
  note post = check_rules_healthy [OF assms(1) run]
  show ?thesis
  proof (cases g)
    case (GDeny d)
    with assms run post show ?thesis by (auto simp: check_rate_limits_def loop_post_def)
  next
    case (GPass acc)
    with assms run show ?thesis by (auto simp: check_rate_limits_def rl_result_default_def)
  next
    case GRaise
    with post show ?thesis by (simp add: loop_post_def)
  qed
qed

lemma admitted_within:
  assumes "fresh_req q s" and "check_rate_limits q (s, w) = (res, s', w')" and "rr_allowed res"
    and "r \<in> set (rq_rules q)"
  shows "(\<forall>l. rl_rpm_limit r = Some l \<longrightarrow> holds (rq_now q) (rpm_key r) (rq_member q) s'
            \<and> int (length (redis_zset (rq_now q) (rpm_key r) s')) \<le> l)
    \<and> (\<forall>l. rl_tpm_limit r = Some l \<longrightarrow> 0 < rq_estimate q \<longrightarrow>
            bucket_level (rq_now q) r s' = bucket_level (rq_now q) r s - rq_estimate q
            \<and> 0 \<le> bucket_level (rq_now q) r s')
    \<and> (\<forall>l. rl_max_concurrent r = Some l \<longrightarrow> rq_stream q \<longrightarrow> holds (rq_now q) (conc_key r) (rq_member q) s'
            \<and> int (length (redis_zset (rq_now q) (conc_key r) s')) \<le> l)"
proof -
  obtain g t where run: "check_rules q (rq_rules q) rl_acc0 s = (g, t)"
    by (cases "check_rules q (rq_rules q) rl_acc0 s")
  note post = check_rules_healthy [OF assms(1) run]
  obtain acc where g: "g = GPass acc"
    using assms run post by (cases g) (auto simp: check_rate_limits_def loop_post_def)
  with assms run have t: "t = s'" by (auto simp: check_rate_limits_def)
  from post g t obtain C where inv: "gate_inv q s C acc s'"
    and all: "rl_rpm_limit r \<noteq> None \<longrightarrow> r \<in> set (la_rpm_acquired acc)"
      "rl_tpm_limit r \<noteq> None \<longrightarrow> 0 < rq_estimate q \<longrightarrow> r \<in> set (la_tpm_acquired acc)"
      "rl_max_concurrent r \<noteq> None \<longrightarrow> rq_stream q \<longrightarrow> r \<in> C"
    using assms(4) by (auto simp: loop_post_def)
  have held: "rpm_held q (r \<in> set (la_rpm_acquired acc)) r s'"
    "tpm_held q s (r \<in> set (la_tpm_acquired acc)) r s'" "conc_held q (r \<in> C) r s'"
    using inv assms(4) by (auto simp: gate_inv_def)
  have "bucket_level (rq_now q) r s' = bucket_level (rq_now q) r s - rq_estimate q \<and> 0 \<le> bucket_level (rq_now q) r s'"
    if l: "rl_tpm_limit r = Some l" and e: "0 < rq_estimate q" for l
  proof -
    have "tpm_held q s True r s'" using held(2) all(2) l e by simp
    moreover have "bucket_level (rq_now q) r s \<le> tpm_burst_of r l"
      using tpm_level_le l by (simp add: bucket_level_def)
    ultimately show ?thesis using e l
      by (simp add: tpm_held_def bucket_level_def [of _ _ s'] Let_def tpm_level_def)
  qed
  with held all show ?thesis by (auto simp: rpm_held_def conc_held_def)
qed

text \<open>
  A denied request leaves no trace. On a healthy connection, when \<open>check_rate_limits\<close>
  denies a request (whichever gate of whichever rule said no), its member token is in no
  RPM window and in no semaphore of any of its rules, the refilled level of every token
  bucket is what it was before the check, and the emergency limiter was not touched.
\<close>

theorem denied_leaves_no_trace:
  assumes "fresh_req q s" and "check_rate_limits q (s, w) = (res, s', w')" and "\<not> rr_allowed res"
  shows "no_trace q s s' \<and> w' = w"
  by (rule denied_no_trace [OF assms])

text \<open>
  An admitted request is within every limit and holds what it asked for. On a
  healthy connection, after \<open>check_rate_limits\<close> admits: every rule with an RPM limit has the
  request in its window and at most \<open>rpm_limit\<close> entries; every rule with a TPM limit had the
  estimate available and its bucket went down by exactly the estimate, never below zero; for
  a stream, every rule with a semaphore has it as a holder and at most
  \<open>max_concurrent\<close> holders.
\<close>

theorem admitted_within_limits:
  assumes "fresh_req q s" and "check_rate_limits q (s, w) = (res, s', w')" and "rr_allowed res"
    and "r \<in> set (rq_rules q)"
  shows "(\<forall>l. rl_rpm_limit r = Some l \<longrightarrow> holds (rq_now q) (rpm_key r) (rq_member q) s'
            \<and> int (length (redis_zset (rq_now q) (rpm_key r) s')) \<le> l)
    \<and> (\<forall>l. rl_tpm_limit r = Some l \<longrightarrow> 0 < rq_estimate q \<longrightarrow>
            bucket_level (rq_now q) r s' = bucket_level (rq_now q) r s - rq_estimate q
            \<and> 0 \<le> bucket_level (rq_now q) r s')
    \<and> (\<forall>l. rl_max_concurrent r = Some l \<longrightarrow> rq_stream q \<longrightarrow> holds (rq_now q) (conc_key r) (rq_member q) s'
            \<and> int (length (redis_zset (rq_now q) (conc_key r) s')) \<le> l)"
  by (rule admitted_within [OF assms])

end
