(* ===== verification/RateFaults.thy ===== *)
theory RateFaults
  imports Admission
begin

text \<open>
  The rate limiter at its edges: the emergency limiter while Redis is unreachable, the
  deadline of a token bucket that settlement drove into debt, the bounds of the token estimate,
  and what a \<open>RedisError\<close> in the middle of a check leaves behind. The concrete
  requests that exercise the admission theorems are here as well.
\<close>

section \<open>Concrete requests\<close>

definition sample_rule :: "int \<Rightarrow> int option \<Rightarrow> int option \<Rightarrow> int option \<Rightarrow> rl_rule" where
  "sample_rule i rpm tpm conc =
     \<lparr>rl_id = i, rl_subject_type = ''user'', rl_subject_id = Some 7, rl_model_id = None, rl_rpm_limit = rpm,
      rl_tpm_limit = tpm, rl_tpm_burst = None, rl_max_concurrent = conc\<rparr>"

definition sample_req :: "int \<Rightarrow> rl_req" where
  "sample_req est = \<lparr>rq_now = 5000, rq_member = ''m1'',
     rq_rules = [sample_rule 1 (Some 5) (Some 1000) None, sample_rule 2 (Some 3) (Some 500) (Some 2)],
     rq_estimate = est, rq_stream = True\<rparr>"

lemma sample_fresh: "fresh_req (sample_req est) empty_redis"
  by (simp add: fresh_req_def sample_req_def sample_rule_def empty_redis_def holds_def redis_zset_def)

lemma sample_denied: "\<not> rr_allowed (fst (check_rate_limits (sample_req 600) (empty_redis, \<lambda>_. None)))"
  by code_simp

lemma sample_admitted: "rr_allowed (fst (check_rate_limits (sample_req 400) (empty_redis, \<lambda>_. None)))"
  by code_simp

text \<open>The second rule's TPM gate denies after the first rule's gates had passed.\<close>

theorem denied_leaves_no_trace_witness:
  "\<not> rr_allowed (fst (check_rate_limits (sample_req 600) (empty_redis, \<lambda>_. None)))
   \<and> no_trace (sample_req 600) empty_redis (fst (snd (check_rate_limits (sample_req 600) (empty_redis, \<lambda>_. None))))"
proof -
  obtain res s' w' where run: "check_rate_limits (sample_req 600) (empty_redis, \<lambda>_. None) = (res, s', w')"
    by (metis prod_cases3)
  have no: "\<not> rr_allowed res" using sample_denied run by simp
  show ?thesis using denied_leaves_no_trace [OF sample_fresh run no] no run by simp
qed

theorem admitted_within_limits_witness:
  "rr_allowed (fst (check_rate_limits (sample_req 400) (empty_redis, \<lambda>_. None)))
   \<and> holds 5000 (conc_key (sample_rule 2 (Some 3) (Some 500) (Some 2))) ''m1''
       (fst (snd (check_rate_limits (sample_req 400) (empty_redis, \<lambda>_. None))))"
proof -
  obtain res s' w' where run: "check_rate_limits (sample_req 400) (empty_redis, \<lambda>_. None) = (res, s', w')"
    by (metis prod_cases3)
  have yes: "rr_allowed res" using sample_admitted run by simp
  have mem: "sample_rule 2 (Some 3) (Some 500) (Some 2) \<in> set (rq_rules (sample_req 400))"
    by (simp add: sample_req_def)
  show ?thesis using admitted_within_limits [OF sample_fresh run yes mem] yes run
    by (simp add: sample_req_def sample_rule_def)
qed

section \<open>The emergency limiter\<close>

text \<open>A run of requests (time, rules) against the limiter: the requests it admitted.\<close>

fun emergency_run :: "(int \<times> rl_rule list) list \<Rightarrow> emergency \<Rightarrow> (int \<times> rl_rule list) list" where
  "emergency_run [] w = []"
| "emergency_run ((now, rules) # reqs) w =
     (case emergency_admit rules now w of
        (True, w') \<Rightarrow> (now, rules) # emergency_run reqs w'
      | (False, w') \<Rightarrow> emergency_run reqs w')"

text \<open>The request names the subject with a cap of at most \<open>c\<close>, in window \<open>W\<close>.\<close>

definition names_subject :: "int \<Rightarrow> string \<Rightarrow> int \<Rightarrow> int \<times> rl_rule list \<Rightarrow> bool" where
  "names_subject W sk c req \<longleftrightarrow> emergency_window (fst req) = W
     \<and> (\<exists>rule\<in>set (snd req). subject_key rule = sk \<and> emergency_cap rule \<le> c)"

lemma emergency_commit_count:
  "emergency_count W (emergency_commit W subjects w) sk
     = emergency_count W w sk + int (length (filter (\<lambda>x. x = sk) subjects))"
  by (induction subjects arbitrary: w) (auto simp: emergency_count_def)

lemma emergency_commit_nonneg:
  assumes "\<forall>W' sk. 0 \<le> emergency_count W' w sk"
  shows "\<forall>W' sk. 0 \<le> emergency_count W' (emergency_commit W subjects w) sk"
  using assms
proof (induction subjects arbitrary: w)
  case (Cons x xs)
  have "0 \<le> emergency_count W' (w(x \<mapsto> (W, emergency_count W w x + 1))) sk" for W' sk
    using Cons.prems [rule_format, of W' sk] Cons.prems [rule_format, of W x]
    by (auto simp: emergency_count_def split: option.splits)
  then have "\<forall>W' sk. 0 \<le> emergency_count W' (w(x \<mapsto> (W, emergency_count W w x + 1))) sk" by blast
  from Cons.IH [OF this] show ?case unfolding emergency_commit.simps .
qed simp

lemma emergency_admit_step:
  assumes "emergency_admit rules now w = (ok, w')" and "\<forall>W' sk. 0 \<le> emergency_count W' w sk"
  shows "\<forall>W' sk. 0 \<le> emergency_count W' w' sk"
    and "emergency_count (emergency_window now) w sk \<le> emergency_count (emergency_window now) w' sk"
    and "ok \<Longrightarrow> names_subject (emergency_window now) sk c (now, rules) \<Longrightarrow>
      emergency_count (emergency_window now) w sk < c
      \<and> emergency_count (emergency_window now) w sk + 1 \<le> emergency_count (emergency_window now) w' sk"
proof -
  let ?W = "emergency_window now"
  let ?keys = "map fst (map (\<lambda>rule. (subject_key rule, emergency_cap rule)) rules)"
  have w': "w' = w \<or> w' = emergency_commit ?W ?keys w"
    using assms(1) by (auto simp: emergency_admit_def Let_def split: if_splits)
  with assms(2) emergency_commit_nonneg show "\<forall>W' sk. 0 \<le> emergency_count W' w' sk" by blast
  show "emergency_count ?W w sk \<le> emergency_count ?W w' sk"
    using w' by (auto simp: emergency_commit_count)
  assume ok and "names_subject ?W sk c (now, rules)"
  then obtain rule where r: "rule \<in> set rules" "subject_key rule = sk" "emergency_cap rule \<le> c"
    by (auto simp: names_subject_def)
  with assms(1) \<open>ok\<close> have lt: "emergency_count ?W w sk < emergency_cap rule"
    and "w' = emergency_commit ?W ?keys w"
    by (auto simp: emergency_admit_def Let_def list_ex_iff split: if_splits)
  moreover have "sk \<in> set ?keys" using r by force
  then have "1 \<le> length (filter (\<lambda>x. x = sk) ?keys)"
    by (metis (mono_tags, lifting) One_nat_def Suc_leI filter_empty_conv length_greater_0_conv)
  ultimately show "emergency_count ?W w sk < c \<and> emergency_count ?W w sk + 1 \<le> emergency_count ?W w' sk"
    using r(3) by (simp add: emergency_commit_count)
qed

lemma emergency_run_other_window:
  assumes "\<forall>req\<in>set reqs. emergency_window (fst req) \<noteq> W"
  shows "filter (names_subject W sk c) (emergency_run reqs w) = []"
  using assms
  by (induction reqs w rule: emergency_run.induct) (auto simp: names_subject_def split: prod.splits bool.splits)

lemma emergency_run_bound:
  assumes "sorted (map fst reqs)" and "\<forall>W' sk. 0 \<le> emergency_count W' w sk"
  shows "int (length (filter (names_subject W sk c) (emergency_run reqs w)))
     \<le> max 0 (c - emergency_count W w sk) \<or> (\<exists>req\<in>set reqs. emergency_window (fst req) < W)"
  using assms
proof (induction reqs w rule: emergency_run.induct)
  case (2 now rules reqs w)
  obtain ok w' where run: "emergency_admit rules now w = (ok, w')" by (cases "emergency_admit rules now w")
  note step = emergency_admit_step [OF run "2.prems"(2)]
  have ih: "int (length (filter (names_subject W sk c) (emergency_run reqs w')))
     \<le> max 0 (c - emergency_count W w' sk) \<or> (\<exists>req\<in>set reqs. emergency_window (fst req) < W)"
    using "2.IH" run "2.prems"(1) step(1) by (cases ok) auto
  have mono: "emergency_window now \<le> emergency_window (fst req)" if "req \<in> set reqs" for req
  proof -
    have "now \<le> fst req" using "2.prems"(1) that by auto
    then show ?thesis by (auto simp: emergency_window_def EMERGENCY_WINDOW_SECONDS_def intro!: zdiv_mono1)
  qed
  consider "emergency_window now < W" | "emergency_window now = W" | "W < emergency_window now" by linarith
  then show ?case
  proof cases
    case 1
    then show ?thesis by auto
  next
    case 2
    then have "\<not> (\<exists>req\<in>set reqs. emergency_window (fst req) < W)" using mono by force
    with ih have ih': "int (length (filter (names_subject W sk c) (emergency_run reqs w')))
      \<le> max 0 (c - emergency_count W w' sk)" by blast
    have grow: "emergency_count W w sk \<le> emergency_count W w' sk" using step(2) 2 by simp
    show ?thesis
    proof (cases "ok \<and> names_subject W sk c (now, rules)")
      case True
      then have "emergency_count W w sk < c \<and> emergency_count W w sk + 1 \<le> emergency_count W w' sk"
        using step(3) 2 by blast
      with True ih' run show ?thesis by (auto simp: max_def split: if_splits)
    next
      case False
      with ih' run grow show ?thesis by (cases ok) (auto simp: max_def split: if_splits)
    qed
  next
    case 3
    then have none: "filter (names_subject W sk c) (emergency_run reqs w') = []"
      using mono by (intro emergency_run_other_window) force
    have "\<not> names_subject W sk c (now, rules)" using 3 by (simp add: names_subject_def)
    with none run show ?thesis by (cases ok) simp_all
  qed
qed simp

text \<open>
  While Redis is down, the process-local limiter holds its cap: over any sequence of requests
  in time order, the requests it admits within one 60-second window that name a subject with an
  emergency cap of at most \<open>c\<close> (the rule's \<open>rpm_limit\<close>, or 60) are at most \<open>c\<close>.
\<close>

theorem emergency_cap_holds:
  assumes "sorted (map fst reqs)" and "0 \<le> c"
  shows "int (length (filter (names_subject W sk c) (emergency_run reqs (\<lambda>_. None)))) \<le> c"
proof -
  have "int (length (filter (names_subject W sk c) (emergency_run reqs w))) \<le> c"
    if "sorted (map fst reqs)" "\<forall>W' sk. 0 \<le> emergency_count W' w sk" for w reqs
    using that
  proof (induction reqs w rule: emergency_run.induct)
    case (2 now rules reqs w)
    obtain ok w' where run: "emergency_admit rules now w = (ok, w')" by (cases "emergency_admit rules now w")
    note step = emergency_admit_step [OF run "2.prems"(2)]
    show ?case
    proof (cases "emergency_window now < W")
      case True
      then show ?thesis using "2.IH" run "2.prems"(1) step(1)
        by (cases ok) (auto simp: names_subject_def)
    next
      case False
      then have "\<not> (\<exists>req\<in>set ((now, rules) # reqs). emergency_window (fst req) < W)"
        using "2.prems"(1)
        by (force simp: emergency_window_def EMERGENCY_WINDOW_SECONDS_def
            dest: zdiv_mono1 [of _ _ 1000] zdiv_mono1 [of "_ div 1000" "_ div 1000" 60])
      then have "int (length (filter (names_subject W sk c) (emergency_run ((now, rules) # reqs) w)))
        \<le> max 0 (c - emergency_count W w sk)"
        using emergency_run_bound [OF "2.prems"] by blast
      also have "\<dots> \<le> c" using assms(2) "2.prems"(2) by simp
      finally show ?thesis .
    qed
  qed (use assms in simp)
  then show ?thesis using assms(1) by (simp add: emergency_count_def)
qed

theorem emergency_cap_holds_witness:
  "int (length (filter (names_subject 0 ''user:7:m:0'' 2)
     (emergency_run [(1000, [sample_rule 1 (Some 2) None None]), (2000, [sample_rule 1 (Some 2) None None]),
        (3000, [sample_rule 1 (Some 2) None None])] (\<lambda>_. None)))) \<le> 2"
  by (rule emergency_cap_holds) simp_all

section \<open>The deadline of a token bucket\<close>

lemma ceil_div_mult:
  assumes "0 < b"
  shows "a \<le> ceil_div a b * b"
proof -
  have "((- a) div b) * b + (- a) mod b = - a" by (rule div_mult_mod_eq)
  moreover have "0 \<le> (- a) mod b" using assms by simp
  ultimately show ?thesis unfolding ceil_div_def mult_minus_left by linarith
qed

lemma settle_ttl_repays:
  assumes "0 \<le> rate" "0 \<le> ttl" "tokens < 0 \<longrightarrow> 0 < rate"
  shows "- (min tokens 0) * 60000 + ttl * rate \<le> settle_ttl tokens ttl rate * rate"
proof (cases "tokens < 0")
  case True
  with assms have "(- tokens) * 60000 \<le> ceil_div ((- tokens) * 60000) rate * rate" by (intro ceil_div_mult) simp
  moreover have "ceil_div ((- tokens) * 60000) rate + ttl \<le> settle_ttl tokens ttl rate"
    using True assms by (auto simp: settle_ttl_def Let_def)
  then have "(ceil_div ((- tokens) * 60000) rate + ttl) * rate \<le> settle_ttl tokens ttl rate * rate"
    using assms(1) by (rule mult_right_mono)
  ultimately show ?thesis using True by (simp add: algebra_simps)
next
  case False
  then show ?thesis by (simp add: settle_ttl_def)
qed

text \<open>
  Letting a token bucket expire forgives no debt. Settlement may push a bucket below zero, and it
  stretches the key's deadline to match: from the deadline it sets on, the bucket would have
  refilled to its full burst (for a burst of at most 31 minutes of the rate), which is exactly the level
  an absent key stands for.
\<close>

theorem settled_bucket_expiry_invisible:
  assumes "settle_script key now delta burst TPM_BUCKET_TTL_MS rate s = (1, s')"
    and "redis_hget now key ''ts'' s = Some ts" and "ts \<le> now"
    and "redis_hget now key ''tokens'' s' = Some tokens"
    and "r_expiry s' key = Some deadline" and "deadline \<le> now'"
    and "0 < rate" and "burst \<le> 31 * rate"
  shows "tpm_level (Some tokens) (Some ts) now' burst rate = tpm_level None None now' burst rate"
proof -
  let ?t = "min burst ((case redis_hget now key ''tokens'' s of None \<Rightarrow> 0 | Some v \<Rightarrow> v) + delta)"
  let ?ttl = "settle_ttl ?t TPM_BUCKET_TTL_MS rate"
  have pos: "0 < ?ttl" using settle_ttl_ge [of TPM_BUCKET_TTL_MS ?t rate] by (simp add: TPM_BUCKET_TTL_MS_def)
  have ex: "redis_exists now key s" using assms(2) rh.hget_exists [of now key "''ts''" s] by simp
  have s': "s' = redis_pexpire now key ?ttl (redis_hset now key ''tokens'' ?t s)"
    using assms(1) ex by (auto simp: lua_tpm_settle_def Let_def min_def)
  have tok: "tokens = ?t" using assms(4) pos by (simp add: s' rh.hget_pexpire rh.hget_hset)
  have dl: "deadline = now + ?ttl"
    using assms(5) rh.hexists_hset [of now key "''tokens''" ?t s]
    by (auto simp: s' redis_pexpire_def redis_exists_def evict_if_expired_def Let_def split: if_splits)
  have "- (min tokens 0) * 60000 + TPM_BUCKET_TTL_MS * rate \<le> ?ttl * rate"
    unfolding tok by (rule settle_ttl_repays) (use assms(7) in \<open>simp_all add: TPM_BUCKET_TTL_MS_def\<close>)
  also have "\<dots> \<le> (now' - ts) * rate" using assms(3,6,7) dl by (intro mult_right_mono) auto
  finally have "(31 * rate - min tokens 0) * 60000 \<le> (now' - ts) * rate"
    by (simp add: TPM_BUCKET_TTL_MS_def algebra_simps)
  then have "31 * rate - min tokens 0 \<le> ((now' - ts) * rate) div 60000"
    by (metis div_mult_self_is_m zdiv_mono1 zero_less_numeral mult.commute nonzero_mult_div_cancel_right zero_neq_numeral)
  with assms(8) show ?thesis by (simp add: tpm_level_def Let_def min_def split: if_splits)
qed

theorem settled_bucket_expiry_invisible_witness:
  "(let s = redis_hset 0 ''k'' ''tokens'' 100 (redis_hset 0 ''k'' ''ts'' 0 empty_redis);
        s' = snd (settle_script ''k'' 10 (-500) 100 TPM_BUCKET_TTL_MS 60 s)
    in redis_hget 10 ''k'' ''tokens'' s' = Some (-400) \<and> r_expiry s' ''k'' = Some 2260010
       \<and> tpm_level (Some (-400)) (Some 0) 2260010 100 60 = tpm_level None None 2260010 100 60)"
proof -
  let ?s = "redis_hset 0 ''k'' ''tokens'' 100 (redis_hset 0 ''k'' ''ts'' 0 empty_redis)"
  let ?r = "settle_script ''k'' 10 (-500) 100 TPM_BUCKET_TTL_MS 60 ?s"
  have run: "?r = (1, snd ?r)"
    and ts: "redis_hget 10 ''k'' ''ts'' ?s = Some 0"
    and tok: "redis_hget 10 ''k'' ''tokens'' (snd ?r) = Some (-400)"
    and dl: "r_expiry (snd ?r) ''k'' = Some 2260010"
    by (simp_all add: lua_tpm_settle_def redis_hget_def redis_hset_def redis_exists_def redis_pexpire_def
        empty_redis_def expired_def evict_if_expired_def key_exists_def settle_ttl_def ceil_div_def
        TPM_BUCKET_TTL_MS_def Let_def)
  show ?thesis using tok dl settled_bucket_expiry_invisible [OF run ts _ tok dl, of 2260010] by (simp add: Let_def)
qed

section \<open>The token estimate\<close>

text \<open>
  The estimate that quota and rate limiting reserve is bounded whatever the client sends: at least
  the flat 100 tokens, and at most 4000 for the prompt plus 200000 for the requested
  completion, however large, negative or malformed the \<open>max_tokens\<close> field is.
\<close>

theorem estimate_bounds:
  "100 \<le> estimate_request_tokens messages (coerce_max_completion v)
   \<and> estimate_request_tokens messages (coerce_max_completion v) \<le> 204000
   \<and> coerce_max_completion v \<in> {0..200000}"
  by (auto simp: estimate_request_tokens_def coerce_max_completion_def clamp_completion_def rl_consts Let_def
      split: json.splits option.splits)

section \<open>A \<open>RedisError\<close> in the middle of a check\<close>

definition broken_req :: rl_req where
  "broken_req = \<lparr>rq_now = 5000, rq_member = ''m1'',
     rq_rules = [sample_rule 1 (Some 5) None None, sample_rule 2 (Some 1) None None],
     rq_estimate = 100, rq_stream = False\<rparr>"

text \<open>
  The except path has no rollback: the first rule's slot was taken, the second call failed, the emergency
  limiter denied the request, and the request still sits in the first rule's window.
\<close>

lemma redis_error_leaks_reservation:
  "(case check_rate_limits broken_req
           (empty_redis\<lparr>r_wire := [WOk, WLost]\<rparr>, [subject_key (sample_rule 1 None None None) \<mapsto> (0, 1)]) of
      (res, s', _) \<Rightarrow> \<not> rr_allowed res \<and> rr_denied_reason res = Some ''degraded_rate_limited''
        \<and> holds 5000 (rpm_key (sample_rule 1 (Some 5) None None)) ''m1'' s')"
  by code_simp

section \<open>Whatever the connection does\<close>

definition denial_ok :: "rl_result \<Rightarrow> bool" where
  "denial_ok d \<longleftrightarrow> \<not> rr_allowed d \<and> (\<exists>n\<ge>1. rr_retry_after d = Some n) \<and> rr_denied_reason d \<noteq> None"

lemma gates_deny_ok:
  "rpm_gate q rule acc s = (GDeny d, s') \<Longrightarrow> denial_ok d"
  "tpm_gate q rule acc s = (GDeny d, s') \<Longrightarrow> denial_ok d"
  "conc_gate q rule acc s = (GDeny d, s') \<Longrightarrow> denial_ok d"
  by (auto simp: rpm_gate_def tpm_gate_def conc_gate_def denial_ok_def rpm_retry_after_def rl_result_default_def
      split: option.splits prod.splits if_splits)

lemma gate_then_deny:
  assumes "gate_then r f = (GDeny d, s')" and "\<And>t. r = (GDeny d, t) \<Longrightarrow> P"
    and "\<And>acc t. f acc t = (GDeny d, s') \<Longrightarrow> P"
  shows P
  using assms by (auto simp: gate_then_def split: prod.splits gate.splits)

lemma check_rules_deny_ok: "check_rules q rules acc s = (GDeny d, s') \<Longrightarrow> denial_ok d"
proof (induction rules arbitrary: acc s)
  case (Cons rule rules)
  from Cons.prems have "gate_then (check_rule q rule acc s) (check_rules q rules) = (GDeny d, s')" by simp
  then show ?case
  proof (rule gate_then_deny)
    fix t assume "check_rule q rule acc s = (GDeny d, t)"
    then have "gate_then (gate_then (rpm_gate q rule acc s) (tpm_gate q rule)) (conc_gate q rule) = (GDeny d, t)"
      by (simp add: check_rule_def)
    then show ?thesis
      by (elim gate_then_deny) (auto elim: gates_deny_ok)
  qed (rule Cons.IH)
qed simp

text \<open>
  A denial is final. Whatever the connection does, also when it fails in the middle of a
  rollback: once a gate has denied the request, that denial (with a reason and a retry-after of at least a
  second) is the answer, and the emergency limiter is neither asked nor charged.
\<close>

theorem denial_is_final:
  assumes "check_rules q (rq_rules q) rl_acc0 s = (GDeny d, s')"
  shows "check_rate_limits q (s, w) = (d, s', w) \<and> denial_ok d"
  using assms check_rules_deny_ok [OF assms] by (simp add: check_rate_limits_def)

lemma sample_lost_rollback:
  "(case check_rules (sample_req 600) (rq_rules (sample_req 600)) rl_acc0
       (empty_redis\<lparr>r_wire := [WOk, WOk, WOk, WOk, WLost, WLost]\<rparr>) of (g, s') \<Rightarrow>
      (case g of GDeny d \<Rightarrow> rr_denied_reason d = Some ''tpm_exceeded'' | _ \<Rightarrow> False))"
  by code_simp

theorem denial_is_final_witness:
  "\<exists>d s'. check_rate_limits (sample_req 600) (empty_redis\<lparr>r_wire := [WOk, WOk, WOk, WOk, WLost, WLost]\<rparr>, \<lambda>_. None)
       = (d, s', \<lambda>_. None) \<and> rr_denied_reason d = Some ''tpm_exceeded'' \<and> denial_ok d"
proof -
  obtain d s' where run: "check_rules (sample_req 600) (rq_rules (sample_req 600)) rl_acc0
      (empty_redis\<lparr>r_wire := [WOk, WOk, WOk, WOk, WLost, WLost]\<rparr>) = (GDeny d, s')"
    and why: "rr_denied_reason d = Some ''tpm_exceeded''"
    using sample_lost_rollback by (auto split: prod.splits gate.splits)
  from denial_is_final [OF run] why show ?thesis by blast
qed

end
