(* ===== verification/Calendar.thy ===== *)
theory Calendar
  imports Prelude
begin

text \<open>
  What the quota keys use of Python's \<open>datetime\<close>: a UTC time split into its fields, the
  proleptic Gregorian day number, the next day's date, the fields' decimal text and the
  difference of two times. A time has millisecond resolution.
\<close>

record datetime =
  dt_year :: int
  dt_month :: int
  dt_day :: int
  dt_ms :: int

definition is_leap :: "int \<Rightarrow> bool" where
  "is_leap y \<longleftrightarrow> y mod 4 = 0 \<and> (y mod 100 \<noteq> 0 \<or> y mod 400 = 0)"

definition days_in_month :: "int \<Rightarrow> int \<Rightarrow> int" where
  "days_in_month y m =
     (if m = 2 then (if is_leap y then 29 else 28)
      else if m = 4 \<or> m = 6 \<or> m = 9 \<or> m = 11 then 30 else 31)"

text \<open>Days before the first of the month, in a common year.\<close>

definition month_offset :: "int \<Rightarrow> int" where
  "month_offset m = [0, 31, 59, 90, 120, 151, 181, 212, 243, 273, 304, 334] ! nat (m - 1)"

definition day_number :: "int \<Rightarrow> int \<Rightarrow> int \<Rightarrow> int" where
  "day_number y m d =
     (let p = y - 1
      in p * 365 + p div 4 - p div 100 + p div 400 + month_offset m
           + (if 2 < m \<and> is_leap y then 1 else 0) + d)"

definition ms_per_day :: int where "ms_per_day = 86400000"

text \<open>Milliseconds since the Unix epoch, whose day number is 719163.\<close>

definition epoch_ms :: "datetime \<Rightarrow> int" where
  "epoch_ms t = (day_number (dt_year t) (dt_month t) (dt_day t) - 719163) * ms_per_day + dt_ms t"

definition valid_datetime :: "datetime \<Rightarrow> bool" where
  "valid_datetime t \<longleftrightarrow> 1 \<le> dt_year t \<and> 1 \<le> dt_month t \<and> dt_month t \<le> 12 \<and> 1 \<le> dt_day t
     \<and> dt_day t \<le> days_in_month (dt_year t) (dt_month t) \<and> 0 \<le> dt_ms t \<and> dt_ms t < ms_per_day"

definition midnight :: "int \<Rightarrow> int \<Rightarrow> int \<Rightarrow> datetime" where
  "midnight y m d = \<lparr>dt_year = y, dt_month = m, dt_day = d, dt_ms = 0\<rparr>"

text \<open>\<open>(now + timedelta(days=1)).date()\<close>.\<close>

definition next_day :: "datetime \<Rightarrow> int \<times> int \<times> int" where
  "next_day t =
     (if dt_day t < days_in_month (dt_year t) (dt_month t) then (dt_year t, dt_month t, dt_day t + 1)
      else if dt_month t < 12 then (dt_year t, dt_month t + 1, 1)
      else (dt_year t + 1, 1, 1))"

definition pad2 :: "int \<Rightarrow> string" where
  "pad2 i = (if i < 10 then CHR ''0'' # show_int i else show_int i)"

definition month_text :: "datetime \<Rightarrow> string" where
  "month_text t = show_int (dt_year t) @ ''-'' @ pad2 (dt_month t)"

definition day_text :: "datetime \<Rightarrow> string" where
  "day_text t = show_int (dt_year t) @ ''-'' @ pad2 (dt_month t) @ ''-'' @ pad2 (dt_day t)"

section \<open>The calendar\<close>

lemma div_pred:
  assumes "0 < (n :: int)"
  shows "y div n = (y - 1) div n + (if y mod n = 0 then 1 else 0)"
proof (cases "y mod n = 0")
  case True
  have "(y - 1) div n = y div n - 1"
    by (rule int_div_pos_eq [of _ _ _ "n - 1"]) (use assms True in \<open>auto simp: algebra_simps\<close>)
  with True show ?thesis by simp
next
  case False
  have "0 \<le> y mod n" "y mod n < n" using assms by simp_all
  with False have r: "0 \<le> y mod n - 1" "y mod n - 1 < n" by linarith+
  have "(y - 1) div n = y div n"
    by (rule int_div_pos_eq [OF _ r]) (simp add: algebra_simps)
  with False show ?thesis by simp
qed

lemma leap_step: "(y :: int) div 4 - y div 100 + y div 400
    = (y - 1) div 4 - (y - 1) div 100 + (y - 1) div 400 + (if is_leap y then 1 else 0)"
proof -
  have m: "y mod 400 = 0 \<Longrightarrow> y mod 100 = 0" "y mod 100 = 0 \<Longrightarrow> y mod 4 = 0"
    unfolding mod_eq_0_iff_dvd
    by (rule dvd_trans [of 100 400 y], simp, assumption, rule dvd_trans [of 4 100 y], simp, assumption)
  show ?thesis
    unfolding is_leap_def div_pred [of 4 y, simplified] div_pred [of 100 y, simplified] div_pred [of 400 y, simplified]
    by (cases "y mod 4 = 0"; cases "y mod 100 = 0"; cases "y mod 400 = 0") (use m in simp_all)
qed

lemma day_number_next_month:
  assumes "1 \<le> m" "m < 12"
  shows "day_number y (m + 1) 1 = day_number y m d + (days_in_month y m - d + 1)"
proof -
  have "m \<in> {1, 2, 3, 4, 5, 6, 7, 8, 9, 10, 11}"
    using assms unfolding insert_iff empty_iff by presburger
  then show ?thesis by (auto simp: day_number_def month_offset_def days_in_month_def Let_def)
qed

lemma day_number_next_year:
  "day_number (y + 1) 1 1 = day_number y 12 d + (days_in_month y 12 - d + 1)"
  using leap_step [of y] by (auto simp: day_number_def month_offset_def days_in_month_def Let_def)

lemma day_number_next_day:
  assumes "1 \<le> dt_month t" "dt_month t \<le> 12" "dt_day t \<le> days_in_month (dt_year t) (dt_month t)"
    and "next_day t = (y, m, d)"
  shows "day_number y m d = day_number (dt_year t) (dt_month t) (dt_day t) + 1"
proof -
  consider "dt_day t < days_in_month (dt_year t) (dt_month t)"
    | "dt_day t = days_in_month (dt_year t) (dt_month t)" "dt_month t < 12"
    | "dt_day t = days_in_month (dt_year t) (dt_month t)" "dt_month t = 12"
    using assms by linarith
  then show ?thesis
  proof cases
    case 1
    then show ?thesis using assms(4) by (simp add: next_day_def day_number_def Let_def)
  next
    case 2
    then show ?thesis using assms day_number_next_month [of "dt_month t" "dt_year t" "dt_day t"]
      by (simp add: next_day_def)
  next
    case 3
    then show ?thesis using assms day_number_next_year [of "dt_year t" "dt_day t"]
      by (simp add: next_day_def)
  qed
qed

lemma dash_notin_show_int: "0 \<le> i \<Longrightarrow> CHR ''-'' \<notin> set (show_int i)"
  using show_nat_digits [of "nat i"] by (auto simp: show_int_def list_all_iff)

lemma pad2_inj: "0 \<le> i \<Longrightarrow> 0 \<le> j \<Longrightarrow> i < 100 \<Longrightarrow> j < 100 \<Longrightarrow> pad2 i = pad2 j \<longleftrightarrow> i = j"
proof -
  assume "0 \<le> i" "0 \<le> j" "i < 100" "j < 100"
  have read: "read_int (pad2 k) = Some k" if "0 \<le> k" for k
  proof (cases "k < 10")
    case True
    have "read_digits (CHR ''0'' # s) = read_digits s" for s by (simp add: read_digits_def char_digit_def)
    with True that show ?thesis
      by (simp add: pad2_def read_int_def show_int_def show_nat_digits is_digit_def [of "CHR ''0''"])
  qed (simp add: pad2_def)
  show ?thesis using read \<open>0 \<le> i\<close> \<open>0 \<le> j\<close> by (metis option.inject)
qed

lemma dash_notin_pad2: "0 \<le> i \<Longrightarrow> CHR ''-'' \<notin> set (pad2 i)"
  by (simp add: pad2_def dash_notin_show_int)

lemma colon_notin_date_text [simp]:
  "CHR '':'' \<notin> set (month_text t)" "CHR '':'' \<notin> set (day_text t)"
  by (simp_all add: month_text_def day_text_def pad2_def)

end
