(* ===== verification/Decimal.thy ===== *)
theory Decimal
  imports Prelude
begin

text \<open>
  Python's \<open>decimal.Decimal\<close>, as far as the gateway uses it: a coefficient with a power
  of ten, sum, product, the quotient by a million, \<open>str\<close> and the constructor from text.
  Results are exact: amounts and prices stay below the 28 digits of the default context. The sign of
  a zero is not kept.
\<close>

type_synonym dec = "int \<times> int"

definition dec_value :: "dec \<Rightarrow> rat" where
  "dec_value d = (case d of (m, e) \<Rightarrow> of_int m * 10 powi e)"

definition dec_of_int :: "int \<Rightarrow> dec" where
  "dec_of_int i = (i, 0)"

definition dec_mul :: "dec \<Rightarrow> dec \<Rightarrow> dec" where
  "dec_mul a b = (case a of (m, e) \<Rightarrow> case b of (n, f) \<Rightarrow> (m * n, e + f))"

definition dec_add :: "dec \<Rightarrow> dec \<Rightarrow> dec" where
  "dec_add a b = (case a of (m, e) \<Rightarrow> case b of (n, f) \<Rightarrow>
     (let g = min e f in (m * 10 ^ nat (e - g) + n * 10 ^ nat (f - g), g)))"

text \<open>The exact quotient drops trailing zeros while its exponent is below the ideal one.\<close>

fun strip_zeros :: "nat \<Rightarrow> dec \<Rightarrow> dec" where
  "strip_zeros 0 d = d"
| "strip_zeros (Suc n) (m, e) = (if m mod 10 = 0 then strip_zeros n (m div 10, e + 1) else (m, e))"

definition dec_div_million :: "dec \<Rightarrow> dec" where
  "dec_div_million d = (case d of (m, e) \<Rightarrow> strip_zeros 6 (m, e - 6))"

lemma dec_value_mul: "dec_value (dec_mul a b) = dec_value a * dec_value b"
  by (simp add: dec_value_def dec_mul_def power_int_add split: prod.splits)

lemma dec_value_of_int: "dec_value (dec_of_int i) = of_int i"
  by (simp add: dec_value_def dec_of_int_def)

lemma dec_shift: "g \<le> e \<Longrightarrow> dec_value (m * 10 ^ nat (e - g), g) = dec_value (m, e)"
proof -
  assume "g \<le> e"
  then have "(10 :: rat) powi e = 10 powi (e - g) * 10 powi g" by (simp flip: power_int_add)
  also have "(10 :: rat) powi (e - g) = 10 ^ nat (e - g)" using \<open>g \<le> e\<close> by (simp add: power_int_def)
  finally show ?thesis by (simp add: dec_value_def)
qed

lemma dec_value_add: "dec_value (dec_add a b) = dec_value a + dec_value b"
proof -
  obtain m e n f where ab: "a = (m, e)" "b = (n, f)" by force
  let ?g = "min e f"
  have "dec_value (dec_add a b) = dec_value (m * 10 ^ nat (e - ?g), ?g) + dec_value (n * 10 ^ nat (f - ?g), ?g)"
    by (simp add: ab dec_add_def Let_def dec_value_def algebra_simps)
  then show ?thesis by (simp add: ab dec_shift)
qed

lemma strip_zeros_value: "dec_value (strip_zeros n d) = dec_value d"
proof (induction n d rule: strip_zeros.induct)
  case (2 n m e)
  show ?case
  proof (cases "m mod 10 = 0")
    case True
    then have m: "m = (m div 10) * 10" by presburger
    have "dec_value (m div 10, e + 1) = dec_value ((m div 10) * 10, e)"
      by (simp add: dec_value_def power_int_add)
    then have "dec_value (m div 10, e + 1) = dec_value (m, e)" using m by simp
    with "2.IH" True show ?thesis by simp
  qed simp
qed simp

lemma dec_value_div_million: "dec_value (dec_div_million d) = dec_value d / 1000000"
proof -
  obtain m e where d: "d = (m, e)" by force
  have "(10 :: rat) powi (e - 6) = 10 powi e / 10 powi 6" by (rule power_int_diff) simp
  then show ?thesis by (simp add: d dec_div_million_def strip_zeros_value) (simp add: dec_value_def)
qed

section \<open>Text\<close>

definition show_signed :: "int \<Rightarrow> string" where
  "show_signed i = (if i < 0 then show_int i else CHR ''+'' # show_int i)"

definition show_dec :: "dec \<Rightarrow> string" where
  "show_dec d = (case d of (m, e) \<Rightarrow>
     (let digits = show_nat (nat \<bar>m\<bar>);
          n = int (length digits);
          left = e + n;
          dotplace = (if e \<le> 0 \<and> -6 < left then left else 1);
          body = (if dotplace \<le> 0 then ''0.'' @ replicate (nat (- dotplace)) CHR ''0'' @ digits
                  else if n \<le> dotplace then digits @ replicate (nat (dotplace - n)) CHR ''0''
                  else take (nat dotplace) digits @ ''.'' @ drop (nat dotplace) digits);
          expo = (if left = dotplace then [] else CHR ''E'' # show_signed (left - dotplace))
      in (if m < 0 then ''-'' else []) @ body @ expo))"

definition split_opt :: "(char \<Rightarrow> bool) \<Rightarrow> string \<Rightarrow> string \<times> string option" where
  "split_opt p s = (takeWhile (\<lambda>c. \<not> p c) s,
     case dropWhile (\<lambda>c. \<not> p c) s of [] \<Rightarrow> None | c # r \<Rightarrow> Some r)"

definition read_expo :: "string option \<Rightarrow> int option" where
  "read_expo x = (case x of None \<Rightarrow> Some 0
     | Some (c # r) \<Rightarrow> if c = CHR ''+'' then (if r \<noteq> [] \<and> list_all is_digit r then Some (int (read_digits r)) else None)
                      else read_int (c # r)
     | Some [] \<Rightarrow> None)"

text \<open>\<open>Decimal(text)\<close> on a finite numeral; \<open>None\<close> is \<open>InvalidOperation\<close>.\<close>

definition read_unsigned_dec :: "string \<Rightarrow> dec option" where
  "read_unsigned_dec s =
     (case split_opt (\<lambda>c. c = CHR ''E'' \<or> c = CHR ''e'') s of (mant, ex) \<Rightarrow>
        (case split_opt (\<lambda>c. c = CHR ''.'') mant of (ip, fp) \<Rightarrow>
           (let fpart = (case fp of None \<Rightarrow> [] | Some f \<Rightarrow> f); ds = ip @ fpart
            in if ds = [] \<or> \<not> list_all is_digit ds then None
               else map_option (\<lambda>x. (int (read_digits ds), x - int (length fpart))) (read_expo ex))))"

definition read_dec :: "string \<Rightarrow> dec option" where
  "read_dec s =
     (case s of
        [] \<Rightarrow> None
      | c # r \<Rightarrow>
          (if c = CHR ''-'' then map_option (\<lambda>(m, e). (- m, e)) (read_unsigned_dec r)
           else if c = CHR ''+'' then read_unsigned_dec r
           else read_unsigned_dec s))"

section \<open>Text is read back exactly\<close>

lemma digit_not_mark:
  "is_digit c \<Longrightarrow> c \<noteq> CHR ''.'' \<and> c \<noteq> CHR ''E'' \<and> c \<noteq> CHR ''e'' \<and> c \<noteq> CHR ''+'' \<and> c \<noteq> CHR ''-''"
  by (auto simp: is_digit_def)

lemma split_opt_none: "list_all (\<lambda>c. \<not> p c) s \<Longrightarrow> split_opt p s = (s, None)"
proof -
  assume "list_all (\<lambda>c. \<not> p c) s"
  then have "\<forall>c\<in>set s. \<not> p c" by (simp add: list_all_iff)
  then have "takeWhile (\<lambda>c. \<not> p c) s = s" "dropWhile (\<lambda>c. \<not> p c) s = []"
    by (simp_all add: takeWhile_eq_all_conv dropWhile_eq_Nil_conv)
  then show ?thesis unfolding split_opt_def by (simp only: list.case)
qed

lemma split_opt_some: "list_all (\<lambda>c. \<not> p c) s \<Longrightarrow> p c \<Longrightarrow> split_opt p (s @ c # r) = (s, Some r)"
  by (induction s) (auto simp: split_opt_def)

lemma read_digits_zeros: "read_digits (replicate n CHR ''0'' @ s) = read_digits s"
proof (induction n)
  case (Suc n)
  have "read_digits (CHR ''0'' # t) = read_digits t" for t by (simp add: read_digits_def char_digit_def)
  with Suc show ?case by simp
qed simp

lemma is_digit_zero [simp]: "is_digit (CHR ''0'')" by (simp add: is_digit_def)

lemma read_expo_signed: "read_expo (Some (show_signed i)) = Some i"
proof (cases "i < 0")
  case True
  obtain r where "show_int i = CHR ''-'' # r" using True by (simp add: show_int_def)
  with True read_int_show_int [of i] show ?thesis by (simp add: read_expo_def show_signed_def)
next
  case False
  then show ?thesis by (simp add: read_expo_def show_signed_def show_int_def show_nat_digits)
qed

text \<open>The three shapes of a numeral: no point, a point, and either with an exponent.\<close>

lemma read_unsigned_shape:
  assumes "list_all is_digit ip" "list_all is_digit fpart" "ip \<noteq> []"
    and "fp = (if point then CHR ''.'' # fpart else [])" and "\<not> point \<Longrightarrow> fpart = []"
    and "x = (if ex = 0 then [] else CHR ''E'' # show_signed ex)"
  shows "read_unsigned_dec (ip @ fp @ x) = Some (int (read_digits (ip @ fpart)), ex - int (length fpart))"
proof -
  let ?E = "\<lambda>c. c = CHR ''E'' \<or> c = CHR ''e''" and ?P = "\<lambda>c. c = CHR ''.''"
  have noE: "list_all (\<lambda>c. \<not> ?E c) (ip @ fp)"
    using assms(1,2,4) digit_not_mark by (auto simp: list_all_iff)
  have s1: "split_opt ?E (ip @ fp @ x) = (ip @ fp, if ex = 0 then None else Some (show_signed ex))"
    using split_opt_none [OF noE] split_opt_some [where p = ?E, OF noE, of "CHR ''E''" "show_signed ex"] assms(6) by auto
  have noP: "list_all (\<lambda>c. \<not> ?P c) ip" using assms(1) digit_not_mark by (auto simp: list_all_iff)
  have s2: "split_opt ?P (ip @ fp) = (ip, if point then Some fpart else None)"
    using split_opt_none [OF noP] split_opt_some [where p = ?P, OF noP, of "CHR ''.''" fpart] assms(4) by auto
  have fpart: "(case if point then Some fpart else None of None \<Rightarrow> [] | Some f \<Rightarrow> f) = fpart"
    using assms(5) by simp
  have rx: "read_expo (if ex = 0 then None else Some (show_signed ex)) = Some ex"
  proof (cases "ex = 0")
    case False
    then show ?thesis by (simp add: read_expo_signed)
  qed (simp add: read_expo_def)
  show ?thesis
    unfolding read_unsigned_dec_def s1 prod.case s2 fpart rx Let_def using assms(1-3) by simp
qed

lemma read_unsigned_show:
  assumes "digits = show_nat k" "n = int (length digits)" "left = e + n"
    and "dotplace = (if e \<le> 0 \<and> -6 < left then left else 1)"
    and "body = (if dotplace \<le> 0 then ''0.'' @ replicate (nat (- dotplace)) CHR ''0'' @ digits
                  else if n \<le> dotplace then digits @ replicate (nat (dotplace - n)) CHR ''0''
                  else take (nat dotplace) digits @ ''.'' @ drop (nat dotplace) digits)"
  shows "read_unsigned_dec (body @ (if left = dotplace then [] else CHR ''E'' # show_signed (left - dotplace)))
    = Some (int k, e)"
proof -
  let ?x = "if left - dotplace = 0 then [] else CHR ''E'' # show_signed (left - dotplace)"
  have dg: "list_all is_digit digits" and ne: "digits \<noteq> []" "1 \<le> n"
    using assms(1,2) show_nat_nonempty [of k] by (auto simp: show_nat_digits Suc_le_eq)
  consider (small) "dotplace \<le> 0" | (whole) "0 < dotplace" "n \<le> dotplace" | (cut) "0 < dotplace" "dotplace < n" by linarith
  then have "read_unsigned_dec (body @ ?x) = Some (int k, e)"
  proof cases
    case small
    let ?fr = "replicate (nat (- dotplace)) CHR ''0'' @ digits"
    have "read_unsigned_dec (''0'' @ (CHR ''.'' # ?fr) @ ?x)
        = Some (int (read_digits (''0'' @ ?fr)), (left - dotplace) - int (length ?fr))"
      by (rule read_unsigned_shape [where point = True]) (use dg in \<open>auto simp: list_all_iff\<close>)
    moreover have "read_digits (''0'' @ ?fr) = k"
      using read_digits_zeros [of "Suc (nat (- dotplace))" digits] assms(1) by simp
    moreover have "(left - dotplace) - int (length ?fr) = e" using small assms(2,3) by simp
    ultimately show ?thesis using small assms(5) by simp
  next
    case whole
    then have eq: "dotplace = n" using ne assms(3,4) by (auto split: if_splits)
    have "read_unsigned_dec (digits @ [] @ ?x) = Some (int (read_digits (digits @ [])), (left - dotplace) - int (length ([] :: string)))"
      by (rule read_unsigned_shape [where point = False]) (use dg ne in simp_all)
    then show ?thesis using whole eq assms(1,3,5) by simp
  next
    case cut
    let ?ip = "take (nat dotplace) digits" and ?fr = "drop (nat dotplace) digits"
    have "list_all is_digit ?ip" "list_all is_digit ?fr"
      using dg by (auto simp: list_all_iff dest: in_set_takeD in_set_dropD)
    then have "read_unsigned_dec (?ip @ (CHR ''.'' # ?fr) @ ?x)
        = Some (int (read_digits (?ip @ ?fr)), (left - dotplace) - int (length ?fr))"
      by (intro read_unsigned_shape [where point = True]) (use cut ne in simp_all)
    moreover have "(left - dotplace) - int (length ?fr) = e" using cut assms(2,3) by simp
    ultimately show ?thesis using cut assms(1,5) by simp
  qed
  then show ?thesis by simp
qed

lemma show_dec_body_hd:
  assumes "list_all is_digit digits" "digits \<noteq> []" "n = int (length digits)"
    and "body = (if dotplace \<le> 0 then ''0.'' @ replicate (nat (- dotplace)) CHR ''0'' @ digits
                  else if n \<le> dotplace then digits @ replicate (nat (dotplace - n)) CHR ''0''
                  else take (nat dotplace) digits @ ''.'' @ drop (nat dotplace) digits)"
  shows "\<exists>c r. body = c # r \<and> c \<noteq> CHR ''-'' \<and> c \<noteq> CHR ''+''"
proof -
  obtain c r where d: "digits = c # r" using assms(2) by (cases digits) auto
  have "c \<noteq> CHR ''-'' \<and> c \<noteq> CHR ''+''" using assms(1) d digit_not_mark by auto
  then show ?thesis using assms(4) d by (auto simp: take_Cons')
qed

lemma read_dec_show_dec [simp]: "read_dec (show_dec d) = Some d"
proof -
  obtain m e where d: "d = (m, e)" by force
  define digits where "digits = show_nat (nat \<bar>m\<bar>)"
  define n where "n = int (length digits)"
  define left where "left = e + n"
  define dotplace where "dotplace = (if e \<le> 0 \<and> -6 < left then left else 1)"
  define body where "body = (if dotplace \<le> 0 then ''0.'' @ replicate (nat (- dotplace)) CHR ''0'' @ digits
                  else if n \<le> dotplace then digits @ replicate (nat (dotplace - n)) CHR ''0''
                  else take (nat dotplace) digits @ ''.'' @ drop (nat dotplace) digits)"
  let ?s = "body @ (if left = dotplace then [] else CHR ''E'' # show_signed (left - dotplace))"
  have read: "read_unsigned_dec ?s = Some (int (nat \<bar>m\<bar>), e)"
    by (rule read_unsigned_show [OF digits_def n_def left_def dotplace_def body_def])
  obtain c r where hd: "body = c # r" "c \<noteq> CHR ''-''" "c \<noteq> CHR ''+''"
    using show_dec_body_hd [OF _ _ n_def body_def] by (auto simp: digits_def show_nat_digits)
  have "show_dec d = (if m < 0 then ''-'' else []) @ ?s"
    by (simp add: d show_dec_def Let_def digits_def n_def left_def dotplace_def body_def)
  then show ?thesis using read hd by (cases "m < 0") (simp_all add: read_dec_def d)
qed

end
