(* ===== verification/Enums.thy ===== *)
theory Enums
  imports Prelude
begin

text \<open>
  The enumerations of \<open>src/enums.py\<close> the modelled parts work with, each with the string the
  code stores and compares (\<open>.value\<close>), and the application error of
  \<open>src/exceptions.py\<close>: an \<open>ErrorCode\<close> with its HTTP status.
\<close>

datatype active_status = AS_active | AS_disabled

fun active_status_value :: "active_status \<Rightarrow> string" where
  "active_status_value AS_active = ''active''"
| "active_status_value AS_disabled = ''disabled''"

datatype usage_status = US_success | US_error | US_timeout

fun usage_status_value :: "usage_status \<Rightarrow> string" where
  "usage_status_value US_success = ''success''"
| "usage_status_value US_error = ''error''"
| "usage_status_value US_timeout = ''timeout''"

datatype grant_scope = GS_user | GS_department

fun grant_scope_value :: "grant_scope \<Rightarrow> string" where
  "grant_scope_value GS_user = ''user''"
| "grant_scope_value GS_department = ''department''"

datatype quota_scope = QS_user | QS_department | QS_global

fun quota_scope_value :: "quota_scope \<Rightarrow> string" where
  "quota_scope_value QS_user = ''user''"
| "quota_scope_value QS_department = ''department''"
| "quota_scope_value QS_global = ''global''"

datatype quota_period = QP_daily | QP_monthly | QP_total

fun quota_period_value :: "quota_period \<Rightarrow> string" where
  "quota_period_value QP_daily = ''daily''"
| "quota_period_value QP_monthly = ''monthly''"
| "quota_period_value QP_total = ''total''"

datatype quota_metric = QM_tokens | QM_requests | QM_cost

fun quota_metric_value :: "quota_metric \<Rightarrow> string" where
  "quota_metric_value QM_tokens = ''tokens''"
| "quota_metric_value QM_requests = ''requests''"
| "quota_metric_value QM_cost = ''cost''"

datatype rate_limit_scope = RS_user | RS_department | RS_global | RS_api_key

fun rate_limit_scope_value :: "rate_limit_scope \<Rightarrow> string" where
  "rate_limit_scope_value RS_user = ''user''"
| "rate_limit_scope_value RS_department = ''department''"
| "rate_limit_scope_value RS_global = ''global''"
| "rate_limit_scope_value RS_api_key = ''api_key''"

datatype user_status = Usr_active | Usr_disabled

fun user_status_value :: "user_status \<Rightarrow> string" where
  "user_status_value Usr_active = ''active''"
| "user_status_value Usr_disabled = ''disabled''"

datatype api_key_status = AK_active | AK_disabled

fun api_key_status_value :: "api_key_status \<Rightarrow> string" where
  "api_key_status_value AK_active = ''active''"
| "api_key_status_value AK_disabled = ''disabled''"

datatype menu_type = MT_catalog | MT_menu | MT_button

fun menu_type_value :: "menu_type \<Rightarrow> string" where
  "menu_type_value MT_catalog = ''catalog''"
| "menu_type_value MT_menu = ''menu''"
| "menu_type_value MT_button = ''button''"

definition menu_type_of_value :: "string \<Rightarrow> menu_type option" where
  "menu_type_of_value s =
     (if s = ''catalog'' then Some MT_catalog else if s = ''menu'' then Some MT_menu
      else if s = ''button'' then Some MT_button else None)"

datatype audit_outcome = AO_success | AO_failure

fun audit_outcome_value :: "audit_outcome \<Rightarrow> string" where
  "audit_outcome_value AO_success = ''success''"
| "audit_outcome_value AO_failure = ''failure''"

datatype login_failure_reason = LF_bad_credentials | LF_user_disabled | LF_user_not_found | LF_account_locked

fun login_failure_reason_value :: "login_failure_reason \<Rightarrow> string" where
  "login_failure_reason_value LF_bad_credentials = ''bad_credentials''"
| "login_failure_reason_value LF_user_disabled = ''user_disabled''"
| "login_failure_reason_value LF_user_not_found = ''user_not_found''"
| "login_failure_reason_value LF_account_locked = ''account_locked''"

datatype attach_biz_type = AB_avatar | AB_attachment

fun attach_biz_type_value :: "attach_biz_type \<Rightarrow> string" where
  "attach_biz_type_value AB_avatar = ''avatar''"
| "attach_biz_type_value AB_attachment = ''attachment''"

datatype error_code =
    EC_auth_invalid_token | EC_auth_token_revoked | EC_auth_refresh_invalid
  | EC_auth_account_locked | EC_auth_password_too_weak | EC_auth_user_disabled
  | EC_auth_forbidden | EC_attach_not_found | EC_attach_invalid_image | EC_attach_too_large
  | EC_model_not_granted | EC_model_not_found | EC_model_unavailable | EC_model_no_channel
  | EC_quota_exceeded | EC_rate_limit_exceeded | EC_upstream_error | EC_upstream_timeout
  | EC_upstream_rate_limited | EC_request_invalid | EC_request_conflict
  | EC_service_unavailable | EC_internal_error

fun error_code_value :: "error_code \<Rightarrow> string" where
  "error_code_value EC_auth_invalid_token = ''auth.invalid_token''"
| "error_code_value EC_auth_token_revoked = ''auth.token_revoked''"
| "error_code_value EC_auth_refresh_invalid = ''auth.refresh_invalid''"
| "error_code_value EC_auth_account_locked = ''auth.account_locked''"
| "error_code_value EC_auth_password_too_weak = ''auth.password_too_weak''"
| "error_code_value EC_auth_user_disabled = ''auth.user_disabled''"
| "error_code_value EC_auth_forbidden = ''auth.forbidden''"
| "error_code_value EC_attach_not_found = ''attach.not_found''"
| "error_code_value EC_attach_invalid_image = ''attach.invalid_image''"
| "error_code_value EC_attach_too_large = ''attach.too_large''"
| "error_code_value EC_model_not_granted = ''model.not_granted''"
| "error_code_value EC_model_not_found = ''model.not_found''"
| "error_code_value EC_model_unavailable = ''model.unavailable''"
| "error_code_value EC_model_no_channel = ''model.no_available_channel''"
| "error_code_value EC_quota_exceeded = ''quota.exceeded''"
| "error_code_value EC_rate_limit_exceeded = ''rate_limit.exceeded''"
| "error_code_value EC_upstream_error = ''upstream.error''"
| "error_code_value EC_upstream_timeout = ''upstream.timeout''"
| "error_code_value EC_upstream_rate_limited = ''upstream.rate_limited''"
| "error_code_value EC_request_invalid = ''request.invalid''"
| "error_code_value EC_request_conflict = ''request.conflict''"
| "error_code_value EC_service_unavailable = ''service.unavailable''"
| "error_code_value EC_internal_error = ''internal.error''"

text \<open>\<open>AppError(code, status_code, params)\<close>; \<open>params\<close> as an association list of printed values.\<close>

record app_error =
  ae_code :: error_code
  ae_status :: int
  ae_params :: "(string \<times> string) list"

definition app_err :: "error_code \<Rightarrow> int \<Rightarrow> app_error" where
  "app_err c st = \<lparr>ae_code = c, ae_status = st, ae_params = []\<rparr>"

text \<open>The status table of the framework's own HTTP errors and the handler that applies it.\<close>

definition status_to_code :: "int \<Rightarrow> error_code option" where
  "status_to_code st =
     (if st = 401 then Some EC_auth_invalid_token
      else if st = 403 then Some EC_auth_forbidden
      else if st = 404 then Some EC_request_invalid
      else if st = 405 then Some EC_request_invalid
      else None)"

definition http_exception_code :: "int \<Rightarrow> error_code" where
  "http_exception_code st =
     (let code = (case status_to_code st of None \<Rightarrow> EC_request_invalid | Some c \<Rightarrow> c)
      in if st \<ge> 500 then EC_internal_error else code)"

lemma menu_type_value_inverse [simp]: "menu_type_of_value (menu_type_value m) = Some m"
  by (cases m) (simp_all add: menu_type_of_value_def)

lemma error_code_value_inj: "error_code_value a = error_code_value b \<Longrightarrow> a = b"
  by (cases a; cases b; simp)

lemma quota_metric_value_inj [simp]: "quota_metric_value a = quota_metric_value b \<longleftrightarrow> a = b"
  by (cases a; cases b; simp)

lemma quota_period_value_inj [simp]: "quota_period_value a = quota_period_value b \<longleftrightarrow> a = b"
  by (cases a; cases b; simp)

lemma quota_scope_value_inj [simp]: "quota_scope_value a = quota_scope_value b \<longleftrightarrow> a = b"
  by (cases a; cases b; simp)

end
