(* ===== verification/Quota.thy ===== *)
theory Quota
  imports Calendar Decimal Enums Redis
begin

text \<open>
  \<open>src/gateway/quota.py\<close>: quota rules, the all-or-nothing Lua check over the counter
  interface, and the enforcer's three operations (reserve, settle, compensate). Amounts are
  exact: a \<open>Decimal\<close> compared by its value, a Redis counter an integer (cost in micro-units).
\<close>

definition QUOTA_TTL_GRACE_SECONDS :: int where "QUOTA_TTL_GRACE_SECONDS = 1800 + 300"

record quota =
  q_id :: int
  q_scope :: string
  q_scope_id :: "int option"
  q_logical_model_id :: "int option"
  q_period :: string
  q_metric :: string
  q_limit_value :: dec
  q_enforce :: bool

record quota_warning =
  qw_quota_id :: int
  qw_metric :: string
  qw_period :: string
  qw_current :: dec
  qw_limit :: dec

record quota_reservation =
  qr_key :: string
  qr_quota_id :: int
  qr_metric :: string
  qr_scope :: string
  qr_enforce :: bool
  qr_limit_value :: dec
  qr_reserved :: int

section \<open>The Lua check\<close>

text \<open>One entry of \<open>KEYS\<close> with its four entries of \<open>ARGV\<close>.\<close>

record quota_arg =
  qa_key :: string
  qa_ttl :: int
  qa_limit :: int
  qa_enforce :: int
  qa_reserve :: int

text \<open>\<open>DECRBY\<close> of every pair of \<open>incremented\<close>, in order.\<close>

fun quota_undo :: "(int \<Rightarrow> string \<Rightarrow> int \<Rightarrow> 's \<Rightarrow> int \<times> 's) \<Rightarrow> int \<Rightarrow> (string \<times> int) list \<Rightarrow> 's \<Rightarrow> 's" where
  "quota_undo incr now [] s = s"
| "quota_undo incr now ((key, amount) # pairs) s = quota_undo incr now pairs (snd (incr now key (- amount) s))"

fun quota_lua_loop ::
  "(int \<Rightarrow> string \<Rightarrow> int \<Rightarrow> 's \<Rightarrow> int \<times> 's) \<Rightarrow> (int \<Rightarrow> string \<Rightarrow> int \<Rightarrow> 's \<Rightarrow> 's) \<Rightarrow> int
   \<Rightarrow> nat \<Rightarrow> (string \<times> int) list \<Rightarrow> quota_arg list \<Rightarrow> 's \<Rightarrow> (int \<times> int \<times> int) \<times> 's" where
  "quota_lua_loop incr expire now i incremented [] s = ((0, -1, -1), s)"
| "quota_lua_loop incr expire now i incremented (a # args) s =
     (let (count, s1) = incr now (qa_key a) (qa_reserve a) s;
          s2 = (if count = qa_reserve a \<and> 0 < qa_ttl a then expire now (qa_key a) (qa_ttl a) s1 else s1);
          incremented' = incremented @ [(qa_key a, qa_reserve a)]
      in if qa_enforce a = 1 \<and> qa_limit a < count
         then ((1, int i, count), quota_undo incr now incremented' s2)
         else quota_lua_loop incr expire now (Suc i) incremented' args s2)"

definition quota_check_lua where
  "quota_check_lua incr expire now args s = quota_lua_loop incr expire now 0 [] args s"

abbreviation quota_script where
  "quota_script \<equiv> quota_check_lua redis_incrby redis_expire"

text \<open>
  \<open>_run_check_fallback\<close>: the same protocol as separate calls, each of which may raise.
\<close>

fun fallback_undo :: "int \<Rightarrow> (string \<times> int) list \<Rightarrow> redis \<Rightarrow> unit option \<times> redis" where
  "fallback_undo now [] s = (Some (), s)"
| "fallback_undo now ((key, amount) # pairs) s =
     (case rcall (redis_incrby now key (- amount)) s of
        (None, s') \<Rightarrow> (None, s')
      | (Some _, s') \<Rightarrow> fallback_undo now pairs s')"

fun fallback_loop :: "int \<Rightarrow> nat \<Rightarrow> (string \<times> int) list \<Rightarrow> quota_arg list \<Rightarrow> redis
    \<Rightarrow> (int \<times> int \<times> int) option \<times> redis" where
  "fallback_loop now index incremented [] s = (Some (0, -1, -1), s)"
| "fallback_loop now index incremented (a # args) s =
     (case rcall (redis_incrby now (qa_key a) (qa_reserve a)) s of
        (None, s1) \<Rightarrow> (None, s1)
      | (Some count, s1) \<Rightarrow>
          (case (if count = qa_reserve a \<and> 0 < qa_ttl a
                 then rcall (ruse (redis_expire now (qa_key a) (qa_ttl a))) s1 else (Some (), s1)) of
             (None, s2) \<Rightarrow> (None, s2)
           | (Some _, s2) \<Rightarrow>
               (let incremented' = incremented @ [(qa_key a, qa_reserve a)]
                in if qa_enforce a = 1 \<and> qa_limit a < count
                   then (case fallback_undo now incremented' s2 of
                           (None, s3) \<Rightarrow> (None, s3)
                         | (Some _, s3) \<Rightarrow> (Some (1, int index, count), s3))
                   else fallback_loop now (Suc index) incremented' args s2)))"

definition run_check_fallback :: "int \<Rightarrow> quota_arg list \<Rightarrow> redis \<Rightarrow> (int \<times> int \<times> int) option \<times> redis" where
  "run_check_fallback now args s = fallback_loop now 0 [] args s"

text \<open>\<open>_run_check\<close>: the script where the client can register one, the fallback otherwise.\<close>

definition run_check :: "bool \<Rightarrow> int \<Rightarrow> quota_arg list \<Rightarrow> redis \<Rightarrow> (int \<times> int \<times> int) option \<times> redis" where
  "run_check has_scripts now args s =
     (if has_scripts then rcall (quota_script now args) s else run_check_fallback now args s)"

section \<open>Amounts\<close>

definition or_zero :: "dec option \<Rightarrow> dec" where
  "or_zero c = (case c of None \<Rightarrow> dec_of_int 0 | Some v \<Rightarrow> v)"

definition reserve_for_metric :: "string \<Rightarrow> int \<Rightarrow> dec option \<Rightarrow> int" where
  "reserve_for_metric metric estimated_tokens estimated_cost =
     (if metric = quota_metric_value QM_requests then 1
      else if metric = quota_metric_value QM_tokens then max 1 estimated_tokens
      else if metric = quota_metric_value QM_cost then max 1 (py_trunc (dec_value (or_zero estimated_cost) * 1000000))
      else 1)"

definition settlement_adjustment_for_metric :: "string \<Rightarrow> int \<Rightarrow> int \<Rightarrow> dec option \<Rightarrow> int" where
  "settlement_adjustment_for_metric metric reserved actual_tokens actual_cost =
     (if metric = quota_metric_value QM_requests then 0
      else if metric = quota_metric_value QM_tokens then actual_tokens - reserved
      else if metric = quota_metric_value QM_cost then py_trunc (dec_value (or_zero actual_cost) * 1000000) - reserved
      else 0)"

definition redis_limit_for :: "string \<Rightarrow> dec \<Rightarrow> dec" where
  "redis_limit_for metric limit_value =
     (if metric = quota_metric_value QM_cost then dec_mul limit_value (dec_of_int 1000000) else limit_value)"

text \<open>The limit as \<open>check_and_increment\<close> hands it to the script.\<close>

definition script_limit :: "quota \<Rightarrow> int" where
  "script_limit q =
     (if q_metric q = quota_metric_value QM_cost then py_trunc (dec_value (q_limit_value q) * 1000000)
      else py_trunc (dec_value (q_limit_value q)))"

definition points_from_redis :: "string \<Rightarrow> dec \<Rightarrow> dec" where
  "points_from_redis metric raw = (if metric = quota_metric_value QM_cost then dec_div_million raw else raw)"

section \<open>Keys and deadlines\<close>

definition period_key :: "datetime \<Rightarrow> string \<Rightarrow> string" where
  "period_key now period =
     (if period = quota_period_value QP_daily then day_text now
      else if period = quota_period_value QP_monthly then month_text now
      else quota_period_value QP_total)"

text \<open>The first instant after a quota period, \<open>None\<close> for a period without end.\<close>

definition period_end :: "datetime \<Rightarrow> string \<Rightarrow> datetime option" where
  "period_end now period =
     (if period = quota_period_value QP_daily
      then (let (y, m, d) = next_day now in Some (midnight y m d))
      else if period = quota_period_value QP_monthly
      then (let year = dt_year now + (if dt_month now = 12 then 1 else 0);
                month = (if dt_month now = 12 then 1 else dt_month now + 1)
            in Some (midnight year month 1))
      else None)"

definition ttl_seconds :: "datetime \<Rightarrow> string \<Rightarrow> int option" where
  "ttl_seconds now period =
     map_option (\<lambda>end. max 1 ((epoch_ms end - epoch_ms now) div 1000) + QUOTA_TTL_GRACE_SECONDS)
       (period_end now period)"

definition show_opt_int :: "int option \<Rightarrow> string" where
  "show_opt_int v = (case v of None \<Rightarrow> ''None'' | Some i \<Rightarrow> show_int i)"

definition key_for_quota :: "datetime \<Rightarrow> int \<Rightarrow> int option \<Rightarrow> quota \<Rightarrow> string" where
  "key_for_quota now user_id department_id q =
     (let model_id = (case q_logical_model_id q of None \<Rightarrow> 0 | Some m \<Rightarrow> m);
          tail = show_int model_id @ '':'' @ period_key now (q_period q) @ '':'' @ q_metric q
      in if q_scope q = quota_scope_value QS_user then ''quota:u:'' @ show_int user_id @ '':'' @ tail
         else if q_scope q = quota_scope_value QS_department
         then ''quota:d:'' @ show_opt_int (case q_scope_id q of None \<Rightarrow> department_id | Some d \<Rightarrow> Some d) @ '':'' @ tail
         else ''quota:g:'' @ tail)"

section \<open>The enforcer\<close>

text \<open>\<open>_count\<close> through the client.\<close>

definition quota_count :: "int \<Rightarrow> string \<Rightarrow> redis \<Rightarrow> int option \<times> redis" where
  "quota_count now key s = rcall (rread (redis_count now key)) s"

datatype quota_outcome =
    QPassed "quota_warning list" "quota_reservation list"
  | QExceeded quota dec
  | QRedisError

fun quota_warnings :: "int \<Rightarrow> (string \<times> quota) list \<Rightarrow> redis \<Rightarrow> quota_warning list option \<times> redis" where
  "quota_warnings now [] s = (Some [], s)"
| "quota_warnings now ((key, q) # rest) s =
     (case quota_count now key s of
        (None, s1) \<Rightarrow> (None, s1)
      | (Some count, s1) \<Rightarrow>
          (let current = points_from_redis (q_metric q) (dec_of_int count);
               here = (if \<not> q_enforce q \<and> dec_value (q_limit_value q) < dec_value current
                       then [\<lparr>qw_quota_id = q_id q, qw_metric = q_metric q, qw_period = q_period q,
                              qw_current = current, qw_limit = q_limit_value q\<rparr>]
                       else [])
           in case quota_warnings now rest s1 of
                (None, s2) \<Rightarrow> (None, s2)
              | (Some ws, s2) \<Rightarrow> (Some (here @ ws), s2)))"

definition quota_args :: "datetime \<Rightarrow> int \<Rightarrow> int option \<Rightarrow> int \<Rightarrow> dec option \<Rightarrow> quota list \<Rightarrow> quota_arg list" where
  "quota_args now user_id department_id estimated_tokens estimated_cost quotas =
     map (\<lambda>q. \<lparr>qa_key = key_for_quota now user_id department_id q,
               qa_ttl = or_int (ttl_seconds now (q_period q)) 0,
               qa_limit = script_limit q,
               qa_enforce = (if q_enforce q then 1 else 0),
               qa_reserve = reserve_for_metric (q_metric q) estimated_tokens estimated_cost\<rparr>) quotas"

definition quota_reservations_of :: "quota list \<Rightarrow> quota_arg list \<Rightarrow> quota_reservation list" where
  "quota_reservations_of quotas args =
     map (\<lambda>(q, a). \<lparr>qr_key = qa_key a, qr_quota_id = q_id q, qr_metric = q_metric q, qr_scope = q_scope q,
                    qr_enforce = q_enforce q, qr_limit_value = q_limit_value q, qr_reserved = qa_reserve a\<rparr>)
       (zip quotas args)"

definition check_and_increment ::
  "bool \<Rightarrow> datetime \<Rightarrow> int \<Rightarrow> int option \<Rightarrow> quota list \<Rightarrow> int \<Rightarrow> dec option \<Rightarrow> redis
   \<Rightarrow> quota_outcome \<times> redis" where
  "check_and_increment has_scripts now user_id department_id quotas estimated_tokens estimated_cost s =
     (if quotas = [] then (QPassed [] [], s)
      else
        (let args = quota_args now user_id department_id estimated_tokens estimated_cost quotas
         in case run_check has_scripts (epoch_ms now) args s of
              (None, s1) \<Rightarrow> (QRedisError, s1)
            | (Some (code, index, count), s1) \<Rightarrow>
                (if code = 1
                 then (let q = quotas ! nat index
                       in (QExceeded q (points_from_redis (q_metric q) (dec_of_int count)), s1))
                 else
                   (case quota_warnings (epoch_ms now) (zip (map qa_key args) quotas) s1 of
                      (None, s2) \<Rightarrow> (QRedisError, s2)
                    | (Some ws, s2) \<Rightarrow> (QPassed ws (quota_reservations_of quotas args), s2)))))"

text \<open>
  \<open>settle_reservations\<close>: \<open>True\<close> when every adjustment was made, \<open>False\<close> on
  \<open>RedisError\<close>; the count read after each adjustment only feeds a log line.
\<close>

fun settle_reservations :: "int \<Rightarrow> quota_reservation list \<Rightarrow> int \<Rightarrow> dec option \<Rightarrow> redis \<Rightarrow> bool \<times> redis" where
  "settle_reservations now [] actual_tokens actual_cost s = (True, s)"
| "settle_reservations now (r # rs) actual_tokens actual_cost s =
     (let adjustment = settlement_adjustment_for_metric (qr_metric r) (qr_reserved r) actual_tokens actual_cost
      in if adjustment = 0 then settle_reservations now rs actual_tokens actual_cost s
         else
           (case rcall (redis_incrby now (qr_key r) adjustment) s of
              (None, s1) \<Rightarrow> (False, s1)
            | (Some _, s1) \<Rightarrow>
                (case quota_count now (qr_key r) s1 of
                   (None, s2) \<Rightarrow> (False, s2)
                 | (Some _, s2) \<Rightarrow> settle_reservations now rs actual_tokens actual_cost s2)))"

fun compensate_reservations :: "int \<Rightarrow> quota_reservation list \<Rightarrow> redis \<Rightarrow> bool \<times> redis" where
  "compensate_reservations now [] s = (True, s)"
| "compensate_reservations now (r # rs) s =
     (if qr_reserved r \<noteq> 0
      then (case rcall (redis_incrby now (qr_key r) (- qr_reserved r)) s of
              (None, s1) \<Rightarrow> (False, s1)
            | (Some _, s1) \<Rightarrow> compensate_reservations now rs s1)
      else compensate_reservations now rs s)"

end
