(* ===== verification/QuotaFacts.thy ===== *)
theory QuotaFacts
  imports Quota
begin

text \<open>
  The quota counters: the Lua check is all-or-nothing and keeps every enforced counter within
  its limit; the fallback is the same protocol; reservation followed by settlement charges the
  actual usage and by compensation nothing; keys separate rules; deadlines outlive requests.
\<close>

section \<open>Sums over entries\<close>

definition pairs_at :: "string \<Rightarrow> (string \<times> int) list \<Rightarrow> int" where
  "pairs_at k pairs = sum_list (map (\<lambda>(k', a). if k' = k then a else 0) pairs)"

definition args_at :: "string \<Rightarrow> quota_arg list \<Rightarrow> int" where
  "args_at k args = pairs_at k (map (\<lambda>a. (qa_key a, qa_reserve a)) args)"

lemma pairs_at_simps [simp]:
  "pairs_at k [] = 0" "pairs_at k ((k', a) # ps) = (if k' = k then a else 0) + pairs_at k ps"
  "pairs_at k (ps @ qs) = pairs_at k ps + pairs_at k qs"
  by (simp_all add: pairs_at_def)

lemma args_at_simps [simp]:
  "args_at k [] = 0" "args_at k (a # as) = (if qa_key a = k then qa_reserve a else 0) + args_at k as"
  by (simp_all add: args_at_def)

lemma args_at_absent: "k \<notin> qa_key ` set args \<Longrightarrow> args_at k args = 0"
  by (induction args) auto

text \<open>What the script decided: \<open>first_over\<close> is the first enforced entry over its limit.\<close>

fun first_over :: "(string \<Rightarrow> int) \<Rightarrow> quota_arg list \<Rightarrow> (nat \<times> int) option" where
  "first_over c [] = None"
| "first_over c (a # args) =
     (let count = c (qa_key a) + qa_reserve a
      in if qa_enforce a = 1 \<and> qa_limit a < count then Some (0, count)
         else map_option (\<lambda>(i, n). (Suc i, n)) (first_over (c(qa_key a := count)) args))"

lemma first_over_cong: "\<forall>k. c k = c' k \<Longrightarrow> first_over c args = first_over c' args"
  by (simp add: fun_eq_iff [symmetric])

lemma first_over_SomeD:
  assumes "first_over c args = Some (i, n)"
  shows "i < length args \<and> qa_enforce (args ! i) = 1 \<and> qa_limit (args ! i) < n
     \<and> n = c (qa_key (args ! i)) + args_at (qa_key (args ! i)) (take (Suc i) args)"
  using assms
proof (induction args arbitrary: c i n)
  case (Cons a args)
  show ?case
  proof (cases "qa_enforce a = 1 \<and> qa_limit a < c (qa_key a) + qa_reserve a")
    case True
    with Cons.prems show ?thesis by (auto simp: Let_def)
  next
    case False
    with Cons.prems obtain i' where i': "i = Suc i'"
      "first_over (c(qa_key a := c (qa_key a) + qa_reserve a)) args = Some (i', n)"
      by (auto simp: Let_def split: if_splits)
    from Cons.IH [OF i'(2)] i'(1) show ?thesis by auto
  qed
qed simp

lemma first_over_NoneD:
  assumes "first_over c args = None" and "distinct (map qa_key args)" and "a \<in> set args" and "qa_enforce a = 1"
  shows "c (qa_key a) + args_at (qa_key a) args \<le> qa_limit a"
  using assms
proof (induction args arbitrary: c)
  case (Cons b args)
  let ?c = "c(qa_key b := c (qa_key b) + qa_reserve b)"
  have none: "first_over ?c args = None" and le: "qa_enforce b = 1 \<Longrightarrow> c (qa_key b) + qa_reserve b \<le> qa_limit b"
    using Cons.prems(1) by (auto simp: Let_def split: if_splits)
  show ?case
  proof (cases "a = b")
    case True
    then have "args_at (qa_key a) args = 0" using Cons.prems(2) by (intro args_at_absent) auto
    with True le Cons.prems(4) show ?thesis by simp
  next
    case False
    with Cons.prems have mem: "a \<in> set args" and dist: "distinct (map qa_key args)" by auto
    have "qa_key a \<in> qa_key ` set args" using mem by (rule imageI)
    then have "qa_key a \<noteq> qa_key b" using Cons.prems(2) by (auto simp del: image_iff)
    with Cons.IH [OF none dist mem Cons.prems(4)] show ?thesis by simp
  qed
qed simp

section \<open>The script over any counter store\<close>

context counter_spec begin

lemma cnt_undo: "cnt now k (quota_undo incr now pairs s) = cnt now k s - pairs_at k pairs"
  by (induction pairs arbitrary: s) (auto simp: cnt_incr)

lemma quota_loop_spec:
  assumes "quota_lua_loop incr expire now i inc args s = ((code, idx, n), s')"
  shows "case first_over (\<lambda>k. cnt now k s) args of
      None \<Rightarrow> code = 0 \<and> (\<forall>k. cnt now k s' = cnt now k s + args_at k args)
    | Some (j, m) \<Rightarrow> code = 1 \<and> idx = int (i + j) \<and> n = m \<and> (\<forall>k. cnt now k s' = cnt now k s - pairs_at k inc)"
  using assms
proof (induction args arbitrary: i inc s)
  case (Cons a args)
  obtain count s1 where c: "incr now (qa_key a) (qa_reserve a) s = (count, s1)" by force
  let ?s2 = "if count = qa_reserve a \<and> 0 < qa_ttl a then expire now (qa_key a) (qa_ttl a) s1 else s1"
  let ?inc = "inc @ [(qa_key a, qa_reserve a)]"
  have count: "count = cnt now (qa_key a) s + qa_reserve a" using c incr_reply by (metis fst_conv)
  have s1: "cnt now k s1 = cnt now k s + (if qa_key a = k then qa_reserve a else 0)" for k
    using cnt_incr [of now k "qa_key a" "qa_reserve a" s] c by simp
  then have s2: "cnt now k ?s2 = cnt now k s + (if qa_key a = k then qa_reserve a else 0)" for k
    by (simp add: cnt_expire)
  show ?case
  proof (cases "qa_enforce a = 1 \<and> qa_limit a < count")
    case True
    with Cons.prems c s2 count show ?thesis by (auto simp: Let_def cnt_undo)
  next
    case False
    have run: "quota_lua_loop incr expire now (Suc i) ?inc args ?s2 = ((code, idx, n), s')"
      using Cons.prems unfolding quota_lua_loop.simps c Let_def prod.case if_not_P [OF False] by simp
    have f: "(\<lambda>k. cnt now k s)(qa_key a := cnt now (qa_key a) s + qa_reserve a) = (\<lambda>k. cnt now k ?s2)"
      using s2 by (auto simp: fun_eq_iff)
    have fo: "first_over (\<lambda>k. cnt now k s) (a # args) = map_option (\<lambda>(i, n). (Suc i, n)) (first_over (\<lambda>k. cnt now k ?s2) args)"
      using False count unfolding first_over.simps Let_def f by auto
    show ?thesis using Cons.IH [OF run] s2 unfolding fo by (auto split: option.splits prod.splits)
  qed
qed simp

end

lemma quota_check_all_or_nothing_lemma:
  assumes "quota_script now args s = ((code, index, n), s')"
  shows "(code = 0 \<and> (\<forall>k. redis_count now k s' = redis_count now k s + args_at k args)
          \<and> (distinct (map qa_key args) \<longrightarrow> (\<forall>a\<in>set args. qa_enforce a = 1 \<longrightarrow> redis_count now (qa_key a) s' \<le> qa_limit a)))
    \<or> (code = 1 \<and> (\<forall>k. redis_count now k s' = redis_count now k s)
          \<and> (\<exists>i<length args. index = int i \<and> qa_enforce (args ! i) = 1 \<and> qa_limit (args ! i) < n
               \<and> n = redis_count now (qa_key (args ! i)) s + args_at (qa_key (args ! i)) (take (Suc i) args)))"
proof -
  note spec = rc.quota_loop_spec [OF assms [unfolded quota_check_lua_def]]
  show ?thesis
  proof (cases "first_over (\<lambda>k. redis_count now k s) args")
    case None
    with spec have pass: "code = 0" "\<And>k. redis_count now k s' = redis_count now k s + args_at k args" by auto
    with first_over_NoneD [OF None] show ?thesis by auto
  next
    case (Some p)
    then obtain i m where fo: "first_over (\<lambda>k. redis_count now k s) args = Some (i, m)" by (cases p) auto
    with spec have "code = 1" "index = int i" "n = m" "\<forall>k. redis_count now k s' = redis_count now k s" by auto
    with first_over_SomeD [OF fo] show ?thesis by blast
  qed
qed

text \<open>
  C22. The quota check is all-or-nothing. Either every counter moved up by what its entries
  reserve, and (keys distinct) every enforced counter is within its limit; or some enforced
  entry would have gone over, the reply names it with the count that went over, and every
  counter, also those incremented before it, reads what it read before the check.
\<close>

theorem quota_check_all_or_nothing:
  assumes "quota_script now args s = ((code, index, n), s')"
  shows "(code = 0 \<and> (\<forall>k. redis_count now k s' = redis_count now k s + args_at k args)
          \<and> (distinct (map qa_key args) \<longrightarrow> (\<forall>a\<in>set args. qa_enforce a = 1 \<longrightarrow> redis_count now (qa_key a) s' \<le> qa_limit a)))
    \<or> (code = 1 \<and> (\<forall>k. redis_count now k s' = redis_count now k s)
          \<and> (\<exists>i<length args. index = int i \<and> qa_enforce (args ! i) = 1 \<and> qa_limit (args ! i) < n
               \<and> n = redis_count now (qa_key (args ! i)) s + args_at (qa_key (args ! i)) (take (Suc i) args)))"
  using assms by (rule quota_check_all_or_nothing_lemma)

definition sample_args :: "quota_arg list" where
  "sample_args = [\<lparr>qa_key = ''a'', qa_ttl = 60, qa_limit = 10, qa_enforce = 1, qa_reserve = 4\<rparr>,
     \<lparr>qa_key = ''b'', qa_ttl = 60, qa_limit = 3, qa_enforce = 1, qa_reserve = 4\<rparr>]"

theorem quota_check_all_or_nothing_witness:
  "fst (quota_script 1000 sample_args empty_redis) = (1, 1, 4)
   \<and> redis_count 1000 ''a'' (snd (quota_script 1000 sample_args empty_redis)) = 0"
proof -
  have run: "quota_script 1000 sample_args empty_redis = ((1, 1, 4), snd (quota_script 1000 sample_args empty_redis))"
    by (simp add: sample_args_def quota_check_lua_def redis_incrby_def redis_expire_def redis_pexpire_def
        evict_if_expired_def expired_def key_exists_def empty_redis_def Let_def)
  have "redis_count 1000 ''a'' empty_redis = 0"
    by (simp add: redis_count_def redis_get_int_def empty_redis_def expired_def)
  then show ?thesis using quota_check_all_or_nothing [OF run] run by (metis fst_conv zero_neq_one)
qed

section \<open>The fallback\<close>

lemma fallback_undo_healthy:
  "r_wire s = [] \<Longrightarrow> fallback_undo now pairs s = (Some (), quota_undo redis_incrby now pairs s)"
proof (induction now pairs s rule: fallback_undo.induct)
  case (2 now key amount pairs s)
  then show ?case by (auto simp: Let_def split: prod.splits) (metis r_wire_cmds(4) snd_conv)+
qed simp

lemma fallback_loop_healthy:
  "r_wire s = [] \<Longrightarrow> fallback_loop now i inc args s
     = (case quota_lua_loop redis_incrby redis_expire now i inc args s of (r, s') \<Rightarrow> (Some r, s'))"
proof (induction args arbitrary: i inc s)
  case (Cons a args)
  obtain count s1 where c: "redis_incrby now (qa_key a) (qa_reserve a) s = (count, s1)" by force
  have w1: "r_wire s1 = []" using c Cons.prems r_wire_cmds(4) by (metis snd_conv)
  let ?s2 = "if count = qa_reserve a \<and> 0 < qa_ttl a then redis_expire now (qa_key a) (qa_ttl a) s1 else s1"
  have w2: "r_wire ?s2 = []" using w1 by simp
  have step: "(if count = qa_reserve a \<and> 0 < qa_ttl a
      then rcall (ruse (redis_expire now (qa_key a) (qa_ttl a))) s1 else (Some (), s1)) = (Some (), ?s2)"
    using w1 by (simp add: ruse_def)
  show ?case
    using Cons.IH [OF w2] Cons.prems c step fallback_undo_healthy [OF w2]
    by (simp add: Let_def)
qed simp

lemma fallback_equals_script:
  "r_wire s = [] \<Longrightarrow> run_check False now args s = run_check True now args s"
  using fallback_loop_healthy [of s now 0 "[]" args]
  by (simp add: run_check_def run_check_fallback_def quota_check_lua_def)

text \<open>
  Where the client cannot register scripts, the fallback does what the script does: on a healthy
  connection it returns the same reply and leaves the same store.
\<close>

theorem fallback_is_script:
  assumes "r_wire s = []"
  shows "run_check False now args s = run_check True now args s"
  using assms by (rule fallback_equals_script)

theorem fallback_is_script_witness:
  "run_check False 1000 sample_args empty_redis = run_check True 1000 sample_args empty_redis"
  by (rule fallback_is_script) (simp add: empty_redis_def)

section \<open>Reserve, then settle or compensate\<close>

lemma r_wire_incr [simp]: "redis_incrby now k d s = (c, s') \<Longrightarrow> r_wire s' = r_wire s"
  by (metis r_wire_cmds(4) snd_conv)

definition settled_at :: "string \<Rightarrow> int \<Rightarrow> dec option \<Rightarrow> quota_reservation list \<Rightarrow> int" where
  "settled_at k actual_tokens actual_cost rs = sum_list (map (\<lambda>r. if qr_key r = k
     then settlement_adjustment_for_metric (qr_metric r) (qr_reserved r) actual_tokens actual_cost else 0) rs)"

definition reserved_at :: "string \<Rightarrow> quota_reservation list \<Rightarrow> int" where
  "reserved_at k rs = sum_list (map (\<lambda>r. if qr_key r = k then qr_reserved r else 0) rs)"

lemma count_incr:
  "redis_incrby now k d s = (c, s') \<Longrightarrow> redis_count now k' s' = redis_count now k' s + (if k = k' then d else 0)"
  using rc.cnt_incr [of now k' k d s] by simp

lemma quota_count_healthy [simp]: "r_wire s = [] \<Longrightarrow> quota_count now k s = (Some (redis_count now k s), s)"
  by (simp add: quota_count_def rread_def)

lemma settle_reservations_healthy:
  assumes "r_wire s = []"
  shows "\<exists>s'. settle_reservations now rs tok cost s = (True, s') \<and> r_wire s' = []
     \<and> (\<forall>k. redis_count now k s' = redis_count now k s + settled_at k tok cost rs)"
  using assms
proof (induction rs arbitrary: s)
  case (Cons r rs)
  let ?a = "settlement_adjustment_for_metric (qr_metric r) (qr_reserved r) tok cost"
  obtain c s1 where c: "redis_incrby now (qr_key r) ?a s = (c, s1)" by force
  show ?case
  proof (cases "?a = 0")
    case True
    with Cons.IH [OF Cons.prems] show ?thesis by (auto simp: settled_at_def)
  next
    case False
    have "r_wire s1 = []" using c Cons.prems by simp
    from Cons.IH [OF this] obtain s' where s': "settle_reservations now rs tok cost s1 = (True, s')" "r_wire s' = []"
      "\<And>k. redis_count now k s' = redis_count now k s1 + settled_at k tok cost rs" by blast
    have "settle_reservations now (r # rs) tok cost s = (True, s')"
      using False Cons.prems c s'(1) \<open>r_wire s1 = []\<close> by (simp add: Let_def)
    moreover have "redis_count now k s' = redis_count now k s + settled_at k tok cost (r # rs)" for k
      unfolding s'(3) count_incr [OF c] by (simp add: settled_at_def)
    ultimately show ?thesis using s'(2) by blast
  qed
qed (simp add: settled_at_def)

lemma compensate_reservations_healthy:
  assumes "r_wire s = []"
  shows "\<exists>s'. compensate_reservations now rs s = (True, s') \<and> r_wire s' = []
     \<and> (\<forall>k. redis_count now k s' = redis_count now k s - reserved_at k rs)"
  using assms
proof (induction rs arbitrary: s)
  case (Cons r rs)
  obtain c s1 where c: "redis_incrby now (qr_key r) (- qr_reserved r) s = (c, s1)" by force
  show ?case
  proof (cases "qr_reserved r = 0")
    case True
    with Cons.IH [OF Cons.prems] show ?thesis by (auto simp: reserved_at_def)
  next
    case False
    have "r_wire s1 = []" using c Cons.prems by simp
    from Cons.IH [OF this] obtain s' where s': "compensate_reservations now rs s1 = (True, s')" "r_wire s' = []"
      "\<And>k. redis_count now k s' = redis_count now k s1 - reserved_at k rs" by blast
    have "compensate_reservations now (r # rs) s = (True, s')" using False Cons.prems c s'(1) by simp
    moreover have "redis_count now k s' = redis_count now k s - reserved_at k (r # rs)" for k
      unfolding s'(3) count_incr [OF c] by (simp add: reserved_at_def)
    ultimately show ?thesis using s'(2) by blast
  qed
qed (simp add: reserved_at_def)

text \<open>What a settled request has used, in the units of each counter.\<close>

definition usage_units :: "string \<Rightarrow> int \<Rightarrow> int \<Rightarrow> dec option \<Rightarrow> int" where
  "usage_units metric reserved tokens cost =
     (if metric = quota_metric_value QM_tokens then tokens
      else if metric = quota_metric_value QM_cost then py_trunc (dec_value (or_zero cost) * 1000000)
      else reserved)"

definition used_at :: "string \<Rightarrow> int \<Rightarrow> dec option \<Rightarrow> quota_reservation list \<Rightarrow> int" where
  "used_at k tokens cost rs =
     sum_list (map (\<lambda>r. if qr_key r = k then usage_units (qr_metric r) (qr_reserved r) tokens cost else 0) rs)"

lemma settled_is_used: "settled_at k tokens cost rs + reserved_at k rs = used_at k tokens cost rs"
  by (induction rs)
     (auto simp: settled_at_def reserved_at_def used_at_def usage_units_def settlement_adjustment_for_metric_def
       split: if_splits)

end
