(* ===== verification/QuotaLedger.thy ===== *)
theory QuotaLedger
  imports QuotaFacts
begin

text \<open>
  The enforcer over time: what one check decides, the ledger of many requests interleaving on the
  same counters, the deadlines of the counters' keys and the separation of the keys.
\<close>

section \<open>One check\<close>

lemma quota_undo_wire: "r_wire (quota_undo redis_incrby now pairs s) = r_wire s"
  by (induction pairs arbitrary: s) auto

lemma quota_loop_wire:
  "quota_lua_loop redis_incrby redis_expire now i inc args s = (r, s') \<Longrightarrow> r_wire s' = r_wire s"
proof (induction args arbitrary: i inc s)
  case (Cons a args)
  obtain c s1 where c: "redis_incrby now (qa_key a) (qa_reserve a) s = (c, s1)" by force
  let ?s2 = "if c = qa_reserve a \<and> 0 < qa_ttl a then redis_expire now (qa_key a) (qa_ttl a) s1 else s1"
  have w: "r_wire ?s2 = r_wire s" using c by simp
  show ?case
  proof (cases "qa_enforce a = 1 \<and> qa_limit a < c")
    case True
    then have "s' = quota_undo redis_incrby now (inc @ [(qa_key a, qa_reserve a)]) ?s2"
      using Cons.prems c by (simp add: Let_def)
    with w show ?thesis by (simp add: quota_undo_wire)
  next
    case False
    have "quota_lua_loop redis_incrby redis_expire now (Suc i) (inc @ [(qa_key a, qa_reserve a)]) args ?s2 = (r, s')"
      using Cons.prems unfolding quota_lua_loop.simps c Let_def prod.case if_not_P [OF False] by simp
    from Cons.IH [OF this] w show ?thesis by simp
  qed
qed simp

lemma run_check_healthy:
  "r_wire s = [] \<Longrightarrow> run_check hs now args s = (case quota_script now args s of (r, s') \<Rightarrow> (Some r, s'))"
proof -
  assume w: "r_wire s = []"
  then have "run_check hs now args s = run_check True now args s"
    using fallback_equals_script [OF w, of now args] by (cases hs) simp_all
  with w show ?thesis by (simp add: run_check_def)
qed

lemma quota_warnings_healthy:
  "r_wire s = [] \<Longrightarrow> \<exists>ws. quota_warnings now kqs s = (Some ws, s)"
proof (induction kqs)
  case (Cons p kqs)
  then show ?case by (cases p) (auto simp: Let_def)
qed simp

lemma reserve_pos: "1 \<le> reserve_for_metric metric tok cost"
  by (simp add: reserve_for_metric_def)

lemma reserved_at_of:
  "reserved_at k (quota_reservations_of quotas (quota_args now u d tok cost quotas))
     = args_at k (quota_args now u d tok cost quotas)"
  by (induction quotas) (auto simp: reserved_at_def quota_reservations_of_def quota_args_def)

lemma script_limit_exceeded:
  assumes "script_limit q < n" and "0 \<le> dec_value (q_limit_value q)"
  shows "dec_value (q_limit_value q) < dec_value (points_from_redis (q_metric q) (dec_of_int n))"
proof -
  have up: "x < of_int n" if "py_trunc x < n" "0 \<le> x" for x :: rat
    using that by (simp add: py_trunc_def floor_less_iff)
  show ?thesis
  proof (cases "q_metric q = quota_metric_value QM_cost")
    case True
    then have "dec_value (q_limit_value q) * 1000000 < of_int n" using assms up by (simp add: script_limit_def)
    with True show ?thesis by (simp add: points_from_redis_def dec_value_div_million dec_value_of_int pos_less_divide_eq)
  next
    case False
    with assms up show ?thesis by (simp add: script_limit_def points_from_redis_def dec_value_of_int)
  qed
qed

definition quota_spec :: "datetime \<Rightarrow> int \<Rightarrow> int option \<Rightarrow> quota list \<Rightarrow> redis \<Rightarrow> quota_outcome \<Rightarrow> redis \<Rightarrow> bool" where
  "quota_spec now user_id department_id quotas s out s' =
     (let ms = epoch_ms now; key = key_for_quota now user_id department_id
      in case out of
        QPassed ws rs \<Rightarrow> (\<forall>k. redis_count ms k s' = redis_count ms k s + reserved_at k rs)
          \<and> map qr_key rs = map key quotas \<and> (\<forall>r\<in>set rs. 1 \<le> qr_reserved r)
          \<and> (distinct (map key quotas) \<longrightarrow>
               (\<forall>q\<in>set quotas. q_enforce q \<longrightarrow> redis_count ms (key q) s' \<le> script_limit q))
      | QExceeded q current \<Rightarrow> q \<in> set quotas \<and> q_enforce q \<and> (0 \<le> dec_value (q_limit_value q) \<longrightarrow> dec_value (q_limit_value q) < dec_value current)
          \<and> (\<forall>k. redis_count ms k s' = redis_count ms k s)
      | QRedisError \<Rightarrow> False)"

lemma check_and_increment_healthy:
  assumes "r_wire s = []" and "check_and_increment hs now u d quotas tok cost s = (out, s')"
  shows "r_wire s' = [] \<and> quota_spec now u d quotas s out s'"
proof (cases "quotas = []")
  case True
  with assms show ?thesis by (auto simp: check_and_increment_def quota_spec_def reserved_at_def)
next
  case False
  let ?ms = "epoch_ms now" and ?args = "quota_args now u d tok cost quotas"
  obtain code index n t where run: "quota_script ?ms ?args s = ((code, index, n), t)"
    by (metis prod_cases3 surj_pair)
  have w: "r_wire t = []" using quota_loop_wire [OF run [unfolded quota_check_lua_def]] assms(1) by simp
  have rc: "run_check hs ?ms ?args s = (Some (code, index, n), t)"
    using run_check_healthy [OF assms(1)] run by simp
  have len: "length ?args = length quotas" by (simp add: quota_args_def)
  have keys: "map qa_key ?args = map (key_for_quota now u d) quotas" by (simp add: quota_args_def)
  from quota_check_all_or_nothing_lemma [OF run] show ?thesis
  proof (elim disjE conjE exE)
    assume code: "code = 0" and cnt: "\<forall>k. redis_count ?ms k t = redis_count ?ms k s + args_at k ?args"
      and lim: "distinct (map qa_key ?args) \<longrightarrow>
        (\<forall>a\<in>set ?args. qa_enforce a = 1 \<longrightarrow> redis_count ?ms (qa_key a) t \<le> qa_limit a)"
    obtain ws where "quota_warnings ?ms (zip (map qa_key ?args) quotas) t = (Some ws, t)"
      using quota_warnings_healthy [OF w] by blast
    with assms(2) False rc code have out: "out = QPassed ws (quota_reservations_of quotas ?args)" "s' = t"
      by (auto simp: check_and_increment_def)
    have "map qr_key (quota_reservations_of quotas ?args) = map (key_for_quota now u d) quotas"
      "\<forall>r\<in>set (quota_reservations_of quotas ?args). 1 \<le> qr_reserved r"
      by (auto simp: quota_reservations_of_def quota_args_def reserve_pos zip_map2 zip_same_conv_map)
    moreover have "redis_count ?ms (key_for_quota now u d q) t \<le> script_limit q"
      if "distinct (map (key_for_quota now u d) quotas)" "q \<in> set quotas" "q_enforce q" for q
      using lim that unfolding keys by (auto simp: quota_args_def)
    ultimately show ?thesis using w cnt out by (simp add: quota_spec_def reserved_at_of)
  next
    fix i assume code: "code = 1" and cnt: "\<forall>k. redis_count ?ms k t = redis_count ?ms k s"
      and i: "i < length ?args" "index = int i" "qa_enforce (?args ! i) = 1" "qa_limit (?args ! i) < n"
    let ?q = "quotas ! i"
    have q: "?q \<in> set quotas" "q_enforce ?q" "script_limit ?q < n"
      using i len by (auto simp: quota_args_def split: if_splits)
    have out: "out = QExceeded ?q (points_from_redis (q_metric ?q) (dec_of_int n))" "s' = t"
      using assms(2) False rc code i(2) by (auto simp: check_and_increment_def Let_def)
    show ?thesis using w cnt out q script_limit_exceeded [OF q(3)] by (simp add: quota_spec_def)
  qed
qed

text \<open>
  What the enforcer decides on a healthy connection. A pass has moved every counter up by
  exactly the reservations it returns (one per rule, each at least 1) and every enforced
  rule's counter is within the rule's limit. A refusal names an enforced rule whose reported
  current value, in the units of the rule, exceeds its limit, and it has moved no counter.
\<close>

theorem check_and_increment_decides:
  assumes "r_wire s = []" and "check_and_increment hs now u d quotas tok cost s = (out, s')"
  shows "quota_spec now u d quotas s out s'"
  using check_and_increment_healthy [OF assms] by simp

definition sample_quota :: "string \<Rightarrow> dec \<Rightarrow> quota" where
  "sample_quota metric limit = \<lparr>q_id = 1, q_scope = ''user'', q_scope_id = Some 7, q_logical_model_id = None,
     q_period = ''daily'', q_metric = metric, q_limit_value = limit, q_enforce = True\<rparr>"

definition sample_now :: datetime where
  "sample_now = \<lparr>dt_year = 2026, dt_month = 1, dt_day = 31, dt_ms = 3600000\<rparr>"

definition sample_check where
  "sample_check metric limit = check_and_increment True sample_now 7 None
     [sample_quota ''requests'' (5, 0), sample_quota metric limit] 10 (Some (75, -2)) empty_redis"

lemma sample_check_refused: "case fst (sample_check ''cost'' (5, -1)) of QExceeded q current \<Rightarrow> dec_value current = 3/4 | _ \<Rightarrow> False"
  by code_simp

theorem check_and_increment_decides_witness:
  "(case fst (sample_check ''cost'' (5, -1)) of QExceeded q current \<Rightarrow> dec_value current = 3/4 | _ \<Rightarrow> False)
   \<and> quota_spec sample_now 7 None [sample_quota ''requests'' (5, 0), sample_quota ''cost'' (5, -1)] empty_redis
        (fst (sample_check ''cost'' (5, -1))) (snd (sample_check ''cost'' (5, -1)))"
proof -
  have "r_wire empty_redis = []" by (simp add: empty_redis_def)
  from check_and_increment_decides [OF this] have "quota_spec sample_now 7 None
      [sample_quota ''requests'' (5, 0), sample_quota ''cost'' (5, -1)] empty_redis
      (fst (sample_check ''cost'' (5, -1))) (snd (sample_check ''cost'' (5, -1)))"
    unfolding sample_check_def using surjective_pairing by blast
  with sample_check_refused show ?thesis by blast
qed

section \<open>Keys live through a check\<close>

lemma alive_incr:
  "redis_incrby now k' d s = (c, s') \<Longrightarrow> \<not> expired now k s \<Longrightarrow> \<not> expired now k s'"
  by (auto simp: redis_incrby_def evict_if_expired_def expired_def Let_def split: if_splits option.splits)

lemma alive_expire:
  "0 < secs \<Longrightarrow> \<not> expired now k s \<Longrightarrow> \<not> expired now k (redis_expire now k' secs s)"
  by (auto simp: redis_expire_def redis_pexpire_def evict_if_expired_def expired_def Let_def split: option.splits)

lemma alive_undo:
  "\<not> expired now k s \<Longrightarrow> \<not> expired now k (quota_undo redis_incrby now pairs s)"
proof (induction pairs arbitrary: s)
  case (Cons p pairs)
  obtain k' a where p: "p = (k', a)" by force
  obtain c s1 where "redis_incrby now k' (- a) s = (c, s1)" by force
  with alive_incr [OF this] Cons p show ?case by simp
qed simp

lemma alive_loop:
  "quota_lua_loop redis_incrby redis_expire now i inc args s = (r, s') \<Longrightarrow> \<not> expired now k s \<Longrightarrow> \<not> expired now k s'"
proof (induction args arbitrary: i inc s)
  case (Cons a args)
  obtain c s1 where c: "redis_incrby now (qa_key a) (qa_reserve a) s = (c, s1)" by force
  let ?s2 = "if c = qa_reserve a \<and> 0 < qa_ttl a then redis_expire now (qa_key a) (qa_ttl a) s1 else s1"
  have alive: "\<not> expired now k ?s2"
    using alive_expire [of "qa_ttl a" now k s1] alive_incr [OF c Cons.prems(2)] by simp
  show ?case
  proof (cases "qa_enforce a = 1 \<and> qa_limit a < c")
    case True
    then have "s' = quota_undo redis_incrby now (inc @ [(qa_key a, qa_reserve a)]) ?s2"
      using Cons.prems(1) c by (simp add: Let_def)
    then show ?thesis using alive_undo [OF alive] by simp
  next
    case False
    have "quota_lua_loop redis_incrby redis_expire now (Suc i) (inc @ [(qa_key a, qa_reserve a)]) args ?s2 = (r, s')"
      using Cons.prems(1) unfolding quota_lua_loop.simps c Let_def prod.case if_not_P [OF False] by simp
    from Cons.IH [OF this alive] show ?thesis .
  qed
qed simp

lemma alive_check:
  assumes "r_wire s = []" "check_and_increment hs now u d quotas tok cost s = (out, s')" "\<not> expired (epoch_ms now) k s"
  shows "\<not> expired (epoch_ms now) k s'"
proof (cases "quotas = []")
  case True
  with assms show ?thesis by (auto simp: check_and_increment_def)
next
  case False
  let ?ms = "epoch_ms now" and ?args = "quota_args now u d tok cost quotas"
  obtain code index n t where run: "quota_script ?ms ?args s = ((code, index, n), t)"
    by (metis prod_cases3 surj_pair)
  have w: "r_wire t = []" using quota_loop_wire [OF run [unfolded quota_check_lua_def]] assms(1) by simp
  obtain ws where "quota_warnings ?ms (zip (map qa_key ?args) quotas) t = (Some ws, t)"
    using quota_warnings_healthy [OF w] by blast
  with assms(2) False run_check_healthy [OF assms(1), of hs ?ms ?args] run have "s' = t"
    by (auto simp: check_and_increment_def Let_def split: if_splits)
  then show ?thesis using alive_loop [OF run [unfolded quota_check_lua_def] assms(3)] by simp
qed

lemma alive_settle:
  "r_wire s = [] \<Longrightarrow> settle_reservations now rs tok cost s = (ok, s') \<Longrightarrow> \<not> expired now k s \<Longrightarrow> \<not> expired now k s'"
proof (induction rs arbitrary: s)
  case (Cons r rs)
  obtain c s1 where c: "redis_incrby now (qr_key r)
      (settlement_adjustment_for_metric (qr_metric r) (qr_reserved r) tok cost) s = (c, s1)" by force
  have w: "r_wire s1 = []" using c Cons.prems(1) by simp
  have alive: "\<not> expired now k s1" by (rule alive_incr [OF c Cons.prems(3)])
  show ?case
    using Cons.IH [OF w _ alive] Cons.IH [OF Cons.prems(1) _ Cons.prems(3)] Cons.prems(1,2) c w
    by (auto simp: Let_def split: if_splits)
qed simp

lemma alive_compensate:
  "r_wire s = [] \<Longrightarrow> compensate_reservations now rs s = (ok, s') \<Longrightarrow> \<not> expired now k s \<Longrightarrow> \<not> expired now k s'"
proof (induction rs arbitrary: s)
  case (Cons r rs)
  obtain c s1 where c: "redis_incrby now (qr_key r) (- qr_reserved r) s = (c, s1)" by force
  have w: "r_wire s1 = []" using c Cons.prems(1) by simp
  have alive: "\<not> expired now k s1" by (rule alive_incr [OF c Cons.prems(3)])
  show ?case
    using Cons.IH [OF w _ alive] Cons.IH [OF Cons.prems(1) _ Cons.prems(3)] Cons.prems(1,2) c w
    by (auto split: if_splits)
qed simp

section \<open>The ledger\<close>

text \<open>
  Requests that interleave on the counters, seen from one key: the store, the reservations of the
  requests in flight, what the finished ones were charged on the key, and by how much
  they overran what they had reserved on it.
\<close>

record ledger =
  lg_store :: redis
  lg_open :: "quota_reservation list list"
  lg_charged :: int
  lg_overrun :: int

definition raw_count :: "string \<Rightarrow> redis \<Rightarrow> int" where
  "raw_count k s = (case r_ints s k of None \<Rightarrow> 0 | Some c \<Rightarrow> c)"

lemma raw_count_alive: "\<not> expired now k s \<Longrightarrow> redis_count now k s = raw_count k s"
  by (simp add: redis_count_def redis_get_int_def raw_count_def)

text \<open>The rules of a check that use the key are enforced with limit \<open>L\<close>, and keys are distinct.\<close>

definition enforced_on :: "string \<Rightarrow> int \<Rightarrow> datetime \<Rightarrow> int \<Rightarrow> int option \<Rightarrow> quota list \<Rightarrow> bool" where
  "enforced_on k L now u d quotas \<longleftrightarrow> distinct (map (key_for_quota now u d) quotas)
     \<and> (\<forall>q\<in>set quotas. key_for_quota now u d q = k \<longrightarrow> q_enforce q \<and> script_limit q = L)"

inductive ledger_step :: "string \<Rightarrow> int \<Rightarrow> ledger \<Rightarrow> ledger \<Rightarrow> bool" for k L where
  reserve: "\<not> expired (epoch_ms now) k (lg_store l) \<Longrightarrow> enforced_on k L now u d quotas \<Longrightarrow>
    check_and_increment hs now u d quotas tok cost (lg_store l) = (QPassed ws rs, s') \<Longrightarrow>
    ledger_step k L l (l\<lparr>lg_store := s', lg_open := rs # lg_open l\<rparr>)"
| refuse: "\<not> expired (epoch_ms now) k (lg_store l) \<Longrightarrow>
    check_and_increment hs now u d quotas tok cost (lg_store l) = (QExceeded q current, s') \<Longrightarrow>
    ledger_step k L l (l\<lparr>lg_store := s'\<rparr>)"
| settle: "\<not> expired now k (lg_store l) \<Longrightarrow> rs \<in> set (lg_open l) \<Longrightarrow>
    settle_reservations now rs tok cost (lg_store l) = (ok, s') \<Longrightarrow>
    ledger_step k L l (l\<lparr>lg_store := s', lg_open := remove1 rs (lg_open l),
       lg_charged := lg_charged l + used_at k tok cost rs,
       lg_overrun := lg_overrun l + max 0 (used_at k tok cost rs - reserved_at k rs)\<rparr>)"
| compensate: "\<not> expired now k (lg_store l) \<Longrightarrow> rs \<in> set (lg_open l) \<Longrightarrow>
    compensate_reservations now rs (lg_store l) = (ok, s') \<Longrightarrow>
    ledger_step k L l (l\<lparr>lg_store := s', lg_open := remove1 rs (lg_open l)\<rparr>)"

inductive_cases ledger_stepE: "ledger_step k L l l'"

definition ledger_start :: "redis \<Rightarrow> ledger" where
  "ledger_start s = \<lparr>lg_store = s, lg_open = [], lg_charged = 0, lg_overrun = 0\<rparr>"

definition ledger_inv :: "string \<Rightarrow> int \<Rightarrow> redis \<Rightarrow> ledger \<Rightarrow> bool" where
  "ledger_inv k L s0 l \<longleftrightarrow> r_wire (lg_store l) = []
     \<and> raw_count k (lg_store l) = raw_count k s0 + lg_charged l + sum_list (map (reserved_at k) (lg_open l))
     \<and> raw_count k (lg_store l) \<le> max L (raw_count k s0) + lg_overrun l
     \<and> 0 \<le> lg_overrun l \<and> (\<forall>rs\<in>set (lg_open l). \<forall>r\<in>set rs. 1 \<le> qr_reserved r)"

lemma reserved_at_nonneg: "\<forall>r\<in>set rs. 1 \<le> qr_reserved r \<Longrightarrow> 0 \<le> reserved_at k rs"
  by (induction rs) (auto simp: reserved_at_def)

lemma ledger_step_inv:
  assumes "ledger_step k L l l'" and "ledger_inv k L s0 l"
  shows "ledger_inv k L s0 l'"
  using assms
proof (cases rule: ledger_step.cases)
  case (reserve now u d quotas hs tok cost ws rs s')
  let ?ms = "epoch_ms now"
  have w: "r_wire (lg_store l) = []" using assms(2) by (simp add: ledger_inv_def)
  note spec = check_and_increment_healthy [OF w reserve(4)]
  have alive: "\<not> expired ?ms k s'" by (rule alive_check [OF w reserve(4) reserve(2)])
  have cnt: "raw_count k s' = raw_count k (lg_store l) + reserved_at k rs"
    using spec raw_count_alive [OF alive] raw_count_alive [OF reserve(2)] by (simp add: quota_spec_def Let_def)
  have pos: "\<forall>r\<in>set rs. 1 \<le> qr_reserved r" using spec by (simp add: quota_spec_def Let_def)
  have "raw_count k s' \<le> max L (raw_count k (lg_store l))"
  proof (cases "k \<in> key_for_quota now u d ` set quotas")
    case True
    then obtain q where q: "q \<in> set quotas" "key_for_quota now u d q = k" by auto
    with reserve(3) spec have "redis_count ?ms k s' \<le> L"
      by (auto simp: quota_spec_def Let_def enforced_on_def)
    then show ?thesis using raw_count_alive [OF alive] by simp
  next
    case False
    have "map qr_key rs = map (key_for_quota now u d) quotas" using spec by (simp add: quota_spec_def Let_def)
    then have "qr_key ` set rs = key_for_quota now u d ` set quotas" by (metis list.set_map)
    with False have "\<forall>r\<in>set rs. qr_key r \<noteq> k" by auto
    then have "reserved_at k rs = 0" by (induction rs) (auto simp: reserved_at_def)
    with cnt show ?thesis by simp
  qed
  then show ?thesis using assms(2) spec cnt pos reserve(1) by (auto simp: ledger_inv_def)
next
  case (refuse now hs u d quotas tok cost q current s')
  have w: "r_wire (lg_store l) = []" using assms(2) by (simp add: ledger_inv_def)
  note spec = check_and_increment_healthy [OF w refuse(3)]
  have "raw_count k s' = raw_count k (lg_store l)"
    using spec raw_count_alive [OF refuse(2)] raw_count_alive [OF alive_check [OF w refuse(3) refuse(2)]]
    by (simp add: quota_spec_def Let_def)
  then show ?thesis using assms(2) spec refuse(1) by (simp add: ledger_inv_def)
next
  case (settle now rs tok cost ok s')
  have w: "r_wire (lg_store l) = []" using assms(2) by (simp add: ledger_inv_def)
  from settle_reservations_healthy [OF w, of now rs tok cost] settle(4)
  have spec: "r_wire s' = []" "redis_count now k s' = redis_count now k (lg_store l) + settled_at k tok cost rs" by auto
  have "raw_count k s' = raw_count k (lg_store l) + used_at k tok cost rs - reserved_at k rs"
    using spec(2) raw_count_alive [OF settle(2)] raw_count_alive [OF alive_settle [OF w settle(4) settle(2)]]
      settled_is_used [of k tok cost rs] by simp
  with assms(2) spec(1) settle show ?thesis
    by (auto simp: ledger_inv_def sum_list_remove1 dest: set_remove1_subset [THEN subsetD])
next
  case (compensate now rs ok s')
  have w: "r_wire (lg_store l) = []" using assms(2) by (simp add: ledger_inv_def)
  from compensate_reservations_healthy [OF w, of now rs] compensate(4)
  have spec: "r_wire s' = []" "redis_count now k s' = redis_count now k (lg_store l) - reserved_at k rs" by auto
  have "raw_count k s' = raw_count k (lg_store l) - reserved_at k rs"
    using spec(2) raw_count_alive [OF compensate(2)]
      raw_count_alive [OF alive_compensate [OF w compensate(4) compensate(2)]] by simp
  moreover have "0 \<le> reserved_at k rs"
    using assms(2) compensate(3) by (intro reserved_at_nonneg) (auto simp: ledger_inv_def)
  ultimately show ?thesis using assms(2) spec(1) compensate
    by (auto simp: ledger_inv_def sum_list_remove1 dest: set_remove1_subset [THEN subsetD])
qed

lemma ledger_reach_inv:
  "(ledger_step k L)\<^sup>*\<^sup>* l l' \<Longrightarrow> ledger_inv k L s0 l \<Longrightarrow> ledger_inv k L s0 l'"
  by (induction rule: rtranclp_induct) (auto intro: ledger_step_inv)

text \<open>
  C23. The quota ledger. However requests interleave their checks, settlements and compensations
  while the key is alive, the counter is what it was, plus what the settled requests were charged,
  plus what the requests in flight have reserved; and it never exceeds the enforced limit by
  more than the settled requests overran their own estimates.
\<close>

theorem quota_ledger_balances:
  assumes "(ledger_step k L)\<^sup>*\<^sup>* (ledger_start s0) l" and "r_wire s0 = []"
  shows "raw_count k (lg_store l) = raw_count k s0 + lg_charged l + sum_list (map (reserved_at k) (lg_open l))
    \<and> raw_count k (lg_store l) \<le> max L (raw_count k s0) + lg_overrun l"
proof -
  have "ledger_inv k L s0 (ledger_start s0)"
    using assms(2) by (simp add: ledger_inv_def ledger_start_def)
  with assms(1) have "ledger_inv k L s0 l" by (rule ledger_reach_inv)
  then show ?thesis by (simp add: ledger_inv_def)
qed

definition sample_key :: string where "sample_key = ''quota:u:7:0:2026-01-31:tokens''"

lemma sample_reserved: "case check_and_increment True sample_now 7 None [sample_quota ''tokens'' (50, 0)] 10 None empty_redis of
    (out, s') \<Rightarrow> (case out of QPassed ws rs \<Rightarrow> map qr_reserved rs = [10] | _ \<Rightarrow> False)"
  by code_simp

lemma sample_enforced: "enforced_on sample_key 50 sample_now 7 None [sample_quota ''tokens'' (50, 0)]"
  by (simp add: enforced_on_def sample_quota_def script_limit_def py_trunc_def dec_value_def)

theorem quota_ledger_balances_witness:
  "\<exists>l. (ledger_step sample_key 50)\<^sup>*\<^sup>* (ledger_start empty_redis) l \<and> length (lg_open l) = 1
     \<and> raw_count sample_key (lg_store l) = raw_count sample_key empty_redis + lg_charged l
          + sum_list (map (reserved_at sample_key) (lg_open l))"
proof -
  obtain ws rs s' where run: "check_and_increment True sample_now 7 None [sample_quota ''tokens'' (50, 0)] 10 None empty_redis
      = (QPassed ws rs, s')"
    using sample_reserved by (auto split: prod.splits quota_outcome.splits)
  let ?l = "(ledger_start empty_redis)\<lparr>lg_store := s', lg_open := rs # lg_open (ledger_start empty_redis)\<rparr>"
  have "ledger_step sample_key 50 (ledger_start empty_redis) ?l"
    by (rule ledger_step.reserve [OF _ sample_enforced]) (use run in \<open>simp_all add: ledger_start_def expired_def empty_redis_def\<close>)
  then have "(ledger_step sample_key 50)\<^sup>*\<^sup>* (ledger_start empty_redis) ?l" by blast
  from quota_ledger_balances [OF this] this show ?thesis
    by (intro exI [of _ ?l]) (simp add: empty_redis_def ledger_start_def)
qed

section \<open>Keys\<close>

text \<open>The period a rule's text stands for: anything but daily and monthly is total.\<close>

definition period_of :: "string \<Rightarrow> quota_period" where
  "period_of p = (if p = ''daily'' then QP_daily else if p = ''monthly'' then QP_monthly else QP_total)"

lemma period_key_of: "period_key now p =
    (case period_of p of QP_daily \<Rightarrow> day_text now | QP_monthly \<Rightarrow> month_text now | QP_total \<Rightarrow> ''total'')"
  by (simp add: period_key_def period_of_def)

lemma digit_t: "\<not> is_digit (CHR ''t'')" "\<not> is_digit (CHR ''N'')"
  by (simp_all add: is_digit_def)

lemma show_int_not_starting: "\<not> is_digit c \<Longrightarrow> c \<noteq> CHR ''-'' \<Longrightarrow> show_int i @ r \<noteq> c # s"
  using show_nat_digits [of "nat i"] show_nat_nonempty [of "nat i"]
  by (cases "show_nat (nat i)") (auto simp: show_int_def)

lemma period_key_inj:
  assumes "valid_datetime now"
  shows "period_key now p = period_key now p' \<longleftrightarrow> period_of p = period_of p'"
proof -
  have y: "0 \<le> dt_year now" "0 \<le> dt_month now" using assms by (simp_all add: valid_datetime_def)
  have "day_text now \<noteq> month_text now" by (simp add: day_text_def month_text_def)
  moreover have "day_text now \<noteq> ''total''" "month_text now \<noteq> ''total''"
    using show_int_not_starting [OF digit_t(1)] by (simp_all add: day_text_def month_text_def)
  ultimately show ?thesis
    by (cases "period_of p"; cases "period_of p'") (auto simp: period_key_of)
qed

lemma show_opt_int_inj: "show_opt_int v = show_opt_int w \<longleftrightarrow> v = w"
  using show_int_not_starting [OF digit_t(2), of _ "[]"]
  by (auto simp: show_opt_int_def split: option.splits) metis+

lemma colon_notin_show_opt: "CHR '':'' \<notin> set (show_opt_int v)"
  by (auto simp: show_opt_int_def split: option.splits)

lemma colon_notin_period_key: "CHR '':'' \<notin> set (period_key now p)"
  by (auto simp: period_key_of split: quota_period.splits)

definition scope_target :: "int option \<Rightarrow> quota \<Rightarrow> quota_scope \<times> int option" where
  "scope_target department_id q =
     (if q_scope q = ''user'' then (QS_user, None)
      else if q_scope q = ''department''
      then (QS_department, case q_scope_id q of None \<Rightarrow> department_id | Some d \<Rightarrow> Some d)
      else (QS_global, None))"

definition model_or_0 :: "quota \<Rightarrow> int" where
  "model_or_0 q = (case q_logical_model_id q of None \<Rightarrow> 0 | Some m \<Rightarrow> m)"

lemma key_tail_inj:
  assumes "valid_datetime now"
  shows "show_int m @ '':'' @ period_key now p @ '':'' @ t = show_int m' @ '':'' @ period_key now p' @ '':'' @ t'
    \<longleftrightarrow> m = m' \<and> period_of p = period_of p' \<and> t = t'"
  using sep_split [OF colon_notin_show_int colon_notin_show_int, of m _ m']
    sep_split [OF colon_notin_period_key colon_notin_period_key, of now p t now p' t'] period_key_inj [OF assms, of p p']
  by simp

text \<open>
  Quota counters do not collide. For one request, two rules share a Redis key exactly when they
  agree on scope (and, for department rules, on the department), on the model, on the period and on
  the metric: a rule is never counted on another rule's counter.
\<close>

theorem quota_keys_separate:
  assumes "valid_datetime now"
  shows "key_for_quota now u d q = key_for_quota now u d q' \<longleftrightarrow>
     scope_target d q = scope_target d q' \<and> model_or_0 q = model_or_0 q'
     \<and> period_of (q_period q) = period_of (q_period q') \<and> q_metric q = q_metric q'"
proof -
  have dept: "show_opt_int v @ CHR '':'' # t = show_opt_int w @ CHR '':'' # t' \<longleftrightarrow> v = w \<and> t = t'" for v w t t'
    using sep_split [OF colon_notin_show_opt colon_notin_show_opt, of v t w t'] show_opt_int_inj by simp
  have user: "show_int i @ CHR '':'' # t = show_int i @ CHR '':'' # t' \<longleftrightarrow> t = t'" for i t t' by simp
  note tail = key_tail_inj [OF assms, simplified]
  show ?thesis
    by (simp add: key_for_quota_def scope_target_def model_or_0_def Let_def dept tail)
qed

theorem quota_keys_separate_witness:
  "key_for_quota sample_now 7 (Some 3) (sample_quota ''tokens'' (50, 0))
     \<noteq> key_for_quota sample_now 7 (Some 3) (sample_quota ''requests'' (50, 0))"
  using quota_keys_separate [of sample_now 7 "Some 3" "sample_quota ''tokens'' (50, 0)" "sample_quota ''requests'' (50, 0)"]
  by (simp add: sample_now_def valid_datetime_def days_in_month_def ms_per_day_def sample_quota_def)

section \<open>Deadlines\<close>

lemma day_text_inj:
  assumes "valid_datetime t" "valid_datetime t'" "day_text t = day_text t'"
  shows "dt_year t = dt_year t' \<and> dt_month t = dt_month t' \<and> dt_day t = dt_day t'"
proof -
  have r: "0 \<le> dt_year t" "0 \<le> dt_year t'" "0 \<le> dt_month t" "0 \<le> dt_month t'" "dt_month t < 100" "dt_month t' < 100"
    "0 \<le> dt_day t" "0 \<le> dt_day t'" "dt_day t < 100" "dt_day t' < 100"
    using assms(1,2) by (auto simp: valid_datetime_def days_in_month_def split: if_splits)
  have "show_int (dt_year t) @ CHR ''-'' # (pad2 (dt_month t) @ CHR ''-'' # pad2 (dt_day t))
      = show_int (dt_year t') @ CHR ''-'' # (pad2 (dt_month t') @ CHR ''-'' # pad2 (dt_day t'))"
    using assms(3) by (simp add: day_text_def)
  then have "show_int (dt_year t) = show_int (dt_year t')"
    "pad2 (dt_month t) @ CHR ''-'' # pad2 (dt_day t) = pad2 (dt_month t') @ CHR ''-'' # pad2 (dt_day t')"
    using sep_split [OF dash_notin_show_int [OF r(1)] dash_notin_show_int [OF r(2)]] by blast+
  then show ?thesis
    using sep_split [OF dash_notin_pad2 [OF r(3)] dash_notin_pad2 [OF r(4)]] r pad2_inj by auto
qed

lemma month_text_inj:
  assumes "valid_datetime t" "valid_datetime t'" "month_text t = month_text t'"
  shows "dt_year t = dt_year t' \<and> dt_month t = dt_month t'"
proof -
  have r: "0 \<le> dt_year t" "0 \<le> dt_year t'" "0 \<le> dt_month t" "0 \<le> dt_month t'" "dt_month t < 100" "dt_month t' < 100"
    using assms(1,2) by (auto simp: valid_datetime_def)
  have "show_int (dt_year t) @ CHR ''-'' # pad2 (dt_month t) = show_int (dt_year t') @ CHR ''-'' # pad2 (dt_month t')"
    using assms(3) by (simp add: month_text_def)
  then have "show_int (dt_year t) = show_int (dt_year t')" "pad2 (dt_month t) = pad2 (dt_month t')"
    using sep_split [OF dash_notin_show_int [OF r(1)] dash_notin_show_int [OF r(2)]] by blast+
  with r pad2_inj show ?thesis by auto
qed

lemma days_less:
  assumes "a < b" "m < M" "0 < (M :: int)"
  shows "(a - c) * M + m < (b - c) * M"
proof -
  have "(a + 1 - c) * M \<le> (b - c) * M" using assms by (intro mult_right_mono) auto
  then show ?thesis using assms(2) by (simp add: algebra_simps)
qed

lemma period_end_after:
  assumes "valid_datetime now" and "period_end now p = Some e"
  shows "epoch_ms now < epoch_ms e"
proof -
  have ms: "dt_ms now < ms_per_day" and m: "1 \<le> dt_month now" "dt_month now \<le> 12"
    and d: "dt_day now \<le> days_in_month (dt_year now) (dt_month now)"
    using assms(1) by (simp_all add: valid_datetime_def)
  have "day_number (dt_year now) (dt_month now) (dt_day now) < day_number (dt_year e) (dt_month e) (dt_day e) \<and> dt_ms e = 0"
  proof (cases "period_of p")
    case QP_daily
    obtain y mo da where n: "next_day now = (y, mo, da)" by (cases "next_day now")
    with day_number_next_day [OF m d n] QP_daily assms(2) show ?thesis
      by (auto simp: period_end_def period_of_def midnight_def split: if_splits)
  next
    case QP_monthly
    show ?thesis
    proof (cases "dt_month now = 12")
      case True
      with QP_monthly assms(2) day_number_next_year [of "dt_year now" "dt_day now"] d show ?thesis
        by (auto simp: period_end_def period_of_def midnight_def split: if_splits)
    next
      case False
      with m QP_monthly assms(2) day_number_next_month [of "dt_month now" "dt_year now" "dt_day now"] d show ?thesis
        by (auto simp: period_end_def period_of_def midnight_def split: if_splits)
    qed
  next
    case QP_total
    with assms(2) show ?thesis by (auto simp: period_end_def period_of_def split: if_splits)
  qed
  then have lt: "day_number (dt_year now) (dt_month now) (dt_day now) < day_number (dt_year e) (dt_month e) (dt_day e)"
    and z: "dt_ms e = 0" by blast+
  have "0 < ms_per_day" by (simp add: ms_per_day_def)
  from days_less [OF lt ms this, of 719163] show ?thesis unfolding epoch_ms_def z add_0_right .
qed

lemma period_end_same:
  assumes "valid_datetime t" "valid_datetime t'" "period_key t p = period_key t' p"
  shows "period_end t p = period_end t' p"
proof (cases "period_of p")
  case QP_daily
  then have "day_text t = day_text t'" using assms(3) by (simp add: period_key_of)
  from day_text_inj [OF assms(1,2) this] show ?thesis
    unfolding period_end_def next_day_def by (elim conjE) (simp only:)
next
  case QP_monthly
  then have "month_text t = month_text t'" and p: "p = ''monthly''"
    using assms(3) by (simp_all add: period_key_of period_of_def split: if_splits)
  from month_text_inj [OF assms(1,2) this(1)] show ?thesis by (simp add: period_end_def p Let_def)
next
  case QP_total
  then show ?thesis by (auto simp: period_of_def period_end_def split: if_splits)
qed

text \<open>
  A counter outlives the requests reserved on it. When the first request of a period sets the
  key's deadline, any later request that falls into the same period can still be settled on the live
  key up to 2099 seconds after its own check, which covers the longest stream (1800 s): settlement never
  recreates an expired counter without a deadline.
\<close>

theorem quota_key_outlives_requests:
  assumes "valid_datetime first" and "valid_datetime later"
    and "period_key later p = period_key first p" and "ttl_seconds first p = Some ttl"
    and "settled \<le> epoch_ms later + 2099 * 1000"
  shows "settled < epoch_ms first + ttl * 1000"
proof -
  obtain e where e: "period_end first p = Some e"
    and ttl: "ttl = max 1 ((epoch_ms e - epoch_ms first) div 1000) + 2100"
    using assms(4) by (auto simp: ttl_seconds_def QUOTA_TTL_GRACE_SECONDS_def)
  have "period_end later p = Some e" using e period_end_same [OF assms(2,1,3)] by simp
  then have "epoch_ms later < epoch_ms e" by (rule period_end_after [OF assms(2)])
  moreover have "epoch_ms e - epoch_ms first < ((epoch_ms e - epoch_ms first) div 1000) * 1000 + 1000"
    using pos_mod_bound [of 1000 "epoch_ms e - epoch_ms first"] div_mult_mod_eq [of "epoch_ms e - epoch_ms first" 1000]
    by linarith
  ultimately show ?thesis using assms(5) ttl by linarith
qed

theorem quota_key_outlives_requests_witness:
  "epoch_ms sample_now + 2099 * 1000 < epoch_ms sample_now + 84900 * 1000"
proof (rule quota_key_outlives_requests [of sample_now sample_now "''monthly''"])
  show "ttl_seconds sample_now ''monthly'' = Some 84900" by code_simp
qed (simp_all add: sample_now_def valid_datetime_def days_in_month_def ms_per_day_def)

end
