(* ===== verification/Events.thy ===== *)
theory Events
  imports Redis Json RateLimit
begin

text \<open>
  \<open>src/gateway/events.py\<close>: the durable event queue. Enqueue with the process-local outbox,
  claiming into the inflight list, acknowledgement, bounded retry, recovery of stale claims and the
  dead-letter lists. An event is the text \<open>json.dumps\<close> gave it; an envelope is the
  JSON object the claim script wraps around it.
\<close>

definition USAGE_QUEUE_KEY :: string where "USAGE_QUEUE_KEY = ''gw:event:usage:pending''"
definition LOG_QUEUE_KEY :: string where "LOG_QUEUE_KEY = ''gw:event:log:pending''"
definition USAGE_INFLIGHT_KEY :: string where "USAGE_INFLIGHT_KEY = ''gw:event:usage:inflight''"
definition LOG_INFLIGHT_KEY :: string where "LOG_INFLIGHT_KEY = ''gw:event:log:inflight''"
definition USAGE_DLQ_KEY :: string where "USAGE_DLQ_KEY = ''gw:event:usage:dlq''"
definition LOG_DLQ_KEY :: string where "LOG_DLQ_KEY = ''gw:event:log:dlq''"
definition BILLING_DLQ_KEY :: string where "BILLING_DLQ_KEY = ''gw:event:billing:dlq''"

lemmas event_keys = USAGE_QUEUE_KEY_def LOG_QUEUE_KEY_def USAGE_INFLIGHT_KEY_def LOG_INFLIGHT_KEY_def
  USAGE_DLQ_KEY_def LOG_DLQ_KEY_def BILLING_DLQ_KEY_def

definition DEFAULT_BATCH_SIZE :: nat where "DEFAULT_BATCH_SIZE = 100"
definition MAX_RETRY_ATTEMPTS :: int where "MAX_RETRY_ATTEMPTS = 3"
definition DEFAULT_INFLIGHT_STALE_SECONDS :: int where "DEFAULT_INFLIGHT_STALE_SECONDS = 300"
definition OUTBOX_MAX_PER_QUEUE :: nat where "OUTBOX_MAX_PER_QUEUE = 10000"

section \<open>The outbox\<close>

type_synonym outboxes = "string \<Rightarrow> string list"

text \<open>\<open>deque(maxlen=...).append\<close>: a full deque drops its oldest entry.\<close>

definition outbox_append :: "string list \<Rightarrow> string \<Rightarrow> string list" where
  "outbox_append box x = drop (Suc (length box) - OUTBOX_MAX_PER_QUEUE) (box @ [x])"

definition outbox_size :: "string \<Rightarrow> outboxes \<Rightarrow> nat" where
  "outbox_size queue_key boxes = length (boxes queue_key)"

definition reset_outbox :: "outboxes \<Rightarrow> outboxes" where
  "reset_outbox boxes = (\<lambda>_. [])"

text \<open>
  \<open>_flush_outbox\<close>: \<open>False\<close> when a push raised; that entry is back at the front of what
  is left.
\<close>

fun flush_outbox :: "int \<Rightarrow> string \<Rightarrow> string list \<Rightarrow> redis \<Rightarrow> bool \<times> string list \<times> redis" where
  "flush_outbox now queue_key [] s = (True, [], s)"
| "flush_outbox now queue_key (item # box) s =
     (case rcall (ruse (redis_rpush now queue_key item)) s of
        (None, s1) \<Rightarrow> (False, item # box, s1)
      | (Some _, s1) \<Rightarrow> flush_outbox now queue_key box s1)"

type_synonym estate = "redis \<times> outboxes"

definition enqueue_event :: "int \<Rightarrow> string \<Rightarrow> (string \<times> json) list \<Rightarrow> estate \<Rightarrow> bool \<times> estate" where
  "enqueue_event now queue_key payload st =
     (case st of (s, boxes) \<Rightarrow>
       (let serialized = dumps (JObj payload)
        in case flush_outbox now queue_key (boxes queue_key) s of
             (False, box, s1) \<Rightarrow> (False, s1, boxes(queue_key := outbox_append box serialized))
           | (True, box, s1) \<Rightarrow>
               (case rcall (ruse (redis_rpush now queue_key serialized)) s1 of
                  (None, s2) \<Rightarrow> (False, s2, boxes(queue_key := outbox_append box serialized))
                | (Some _, s2) \<Rightarrow> (True, s2, boxes(queue_key := box)))))"

definition enqueue_usage_event :: "int \<Rightarrow> (string \<times> json) list \<Rightarrow> estate \<Rightarrow> bool \<times> estate" where
  "enqueue_usage_event now payload st = enqueue_event now USAGE_QUEUE_KEY payload st"

definition enqueue_log_event :: "int \<Rightarrow> (string \<times> json) list \<Rightarrow> estate \<Rightarrow> bool \<times> estate" where
  "enqueue_log_event now payload st = enqueue_event now LOG_QUEUE_KEY payload st"

definition record_billing_failure ::
  "int \<Rightarrow> string \<Rightarrow> string \<Rightarrow> string \<Rightarrow> (string \<times> json) list \<Rightarrow> estate \<Rightarrow> estate" where
  "record_billing_failure now kind request_id err detail st =
     snd (enqueue_event now BILLING_DLQ_KEY
       [(''kind'', JStr kind), (''request_id'', JStr request_id), (''error'', JStr err),
        (''detail'', JObj detail), (''recorded_at_ms'', JInt now)] st)"

section \<open>Claims\<close>

record claimed_event =
  ce_raw :: string
  ce_envelope :: string

definition make_envelope :: "string \<Rightarrow> int \<Rightarrow> string" where
  "make_envelope payload claimed_at =
     dumps (JObj [(''payload'', JStr payload), (''claimed_at_ms'', JStr (show_int claimed_at))])"

definition lua_claim_event :: "int \<Rightarrow> string \<Rightarrow> string \<Rightarrow> int \<Rightarrow> redis \<Rightarrow> string option \<times> redis" where
  "lua_claim_event now queue_key inflight_key at_ms s =
     (case redis_lpop now queue_key s of
        (None, s1) \<Rightarrow> (None, s1)
      | (Some payload, s1) \<Rightarrow>
          (let envelope = make_envelope payload at_ms
           in (Some envelope, redis_rpush now inflight_key envelope s1)))"

definition decode_claimed :: "string \<Rightarrow> claimed_event option" where
  "decode_claimed envelope =
     (case loads envelope of
        Some (JObj data) \<Rightarrow>
          (case dget ''payload'' data of
             JStr payload \<Rightarrow> Some \<lparr>ce_raw = payload, ce_envelope = envelope\<rparr>
           | _ \<Rightarrow> None)
      | _ \<Rightarrow> None)"

text \<open>
  \<open>claim_batch\<close>: up to \<open>n\<close> claims; a call that raises makes the whole result empty, what it
  had claimed stays inflight. \<open>clock i\<close> is the wall clock at the \<open>i\<close>-th claim.
\<close>

fun claim_loop :: "int \<Rightarrow> (nat \<Rightarrow> int) \<Rightarrow> string \<Rightarrow> string \<Rightarrow> nat \<Rightarrow> claimed_event list \<Rightarrow> redis
    \<Rightarrow> claimed_event list option \<times> redis" where
  "claim_loop now clock queue_key inflight_key 0 claimed s = (Some claimed, s)"
| "claim_loop now clock queue_key inflight_key (Suc n) claimed s =
     (case rcall (lua_claim_event now queue_key inflight_key (clock n)) s of
        (None, s1) \<Rightarrow> (None, s1)
      | (Some None, s1) \<Rightarrow> (Some claimed, s1)
      | (Some (Some envelope), s1) \<Rightarrow>
          claim_loop now clock queue_key inflight_key n
            (case decode_claimed envelope of None \<Rightarrow> claimed | Some c \<Rightarrow> claimed @ [c]) s1)"

definition claim_batch :: "int \<Rightarrow> (nat \<Rightarrow> int) \<Rightarrow> string \<Rightarrow> string \<Rightarrow> nat \<Rightarrow> redis \<Rightarrow> claimed_event list \<times> redis" where
  "claim_batch now clock queue_key inflight_key batch_size s =
     (case claim_loop now clock queue_key inflight_key batch_size [] s of
        (None, s1) \<Rightarrow> ([], s1)
      | (Some claimed, s1) \<Rightarrow> (claimed, s1))"

fun ack_claimed :: "int \<Rightarrow> string \<Rightarrow> claimed_event list \<Rightarrow> redis \<Rightarrow> int \<times> redis" where
  "ack_claimed now inflight_key [] s = (0, s)"
| "ack_claimed now inflight_key (item # items) s =
     (case rcall (redis_lrem1 now inflight_key (ce_envelope item)) s of
        (None, s1) \<Rightarrow> (0, s1)
      | (Some n, s1) \<Rightarrow> (case ack_claimed now inflight_key items s1 of (m, s2) \<Rightarrow> (n + m, s2)))"

section \<open>Retry\<close>

text \<open>
  \<open>int(payload.get("_attempt", 0) or 0)\<close>; \<open>None\<close> is the exception a value of another
  kind raises.
\<close>

definition attempts_of :: "json \<Rightarrow> int option" where
  "attempts_of v =
     (if \<not> truthy v then Some 0
      else (case v of
              JInt i \<Rightarrow> Some i
            | JBool b \<Rightarrow> Some 1
            | JFloat m e \<Rightarrow> Some (py_trunc (of_int m * 10 powi e))
            | JStr t \<Rightarrow> py_int_of_str t
            | _ \<Rightarrow> None))"

definition payload_of :: "string \<Rightarrow> (string \<times> json) list" where
  "payload_of raw =
     (case loads raw of
        None \<Rightarrow> [(''raw'', JStr raw)]
      | Some (JObj d) \<Rightarrow> d
      | Some v \<Rightarrow> [(''raw'', v)])"

definition increment_attempt :: "string \<Rightarrow> (string \<times> int) option" where
  "increment_attempt raw =
     (let payload = payload_of raw
      in case attempts_of (dget_default ''_attempt'' (JInt 0) payload) of
           None \<Rightarrow> None
         | Some n \<Rightarrow> Some (dumps (JObj (dict_set ''_attempt'' (JInt (n + 1)) payload)), n + 1))"

text \<open>An exception anywhere ends the loop; the items not reached stay inflight.\<close>

fun retry_or_dlq_claimed ::
  "int \<Rightarrow> string \<Rightarrow> string \<Rightarrow> string \<Rightarrow> int \<Rightarrow> claimed_event list \<Rightarrow> redis \<Rightarrow> redis" where
  "retry_or_dlq_claimed now queue_key inflight_key dlq_key max_attempts [] s = s"
| "retry_or_dlq_claimed now queue_key inflight_key dlq_key max_attempts (item # items) s =
     (case increment_attempt (ce_raw item) of
        None \<Rightarrow> s
      | Some (payload, attempts) \<Rightarrow>
          (case rcall (ruse (redis_rpush now (if max_attempts \<le> attempts then dlq_key else queue_key) payload)) s of
             (None, s1) \<Rightarrow> s1
           | (Some _, s1) \<Rightarrow>
               (case rcall (redis_lrem1 now inflight_key (ce_envelope item)) s1 of
                  (None, s2) \<Rightarrow> s2
                | (Some _, s2) \<Rightarrow> retry_or_dlq_claimed now queue_key inflight_key dlq_key max_attempts items s2)))"

fun dlq_claimed :: "int \<Rightarrow> string \<Rightarrow> string \<Rightarrow> claimed_event list \<Rightarrow> redis \<Rightarrow> redis" where
  "dlq_claimed now inflight_key dlq_key [] s = s"
| "dlq_claimed now inflight_key dlq_key (item # items) s =
     (case rcall (ruse (redis_rpush now dlq_key (ce_raw item))) s of
        (None, s1) \<Rightarrow> s1
      | (Some _, s1) \<Rightarrow>
          (case rcall (redis_lrem1 now inflight_key (ce_envelope item)) s1 of
             (None, s2) \<Rightarrow> s2
           | (Some _, s2) \<Rightarrow> dlq_claimed now inflight_key dlq_key items s2))"

section \<open>Recovery of stale claims\<close>

text \<open>Lua's \<open>tonumber\<close> of a decoded value.\<close>

definition lua_tonumber :: "json \<Rightarrow> rat option" where
  "lua_tonumber v =
     (case v of
        JInt i \<Rightarrow> Some (of_int i)
      | JFloat m e \<Rightarrow> Some (of_int m * 10 powi e)
      | JStr t \<Rightarrow> map_option of_int (read_int t)
      | _ \<Rightarrow> None)"

text \<open>
  What the script does with one envelope: dead-letter it, requeue its payload, leave it, or stop with an
  error (a payload that is no string or number cannot be an argument of a command).
\<close>

datatype recovery = RecDlq | RecRequeue string | RecKeep | RecError

definition recovery_of :: "int \<Rightarrow> string \<Rightarrow> recovery" where
  "recovery_of cutoff_ms envelope =
     (case loads envelope of
        Some (JObj d) \<Rightarrow>
          (if ''payload'' \<notin> fst ` set d then RecDlq
           else (case lua_tonumber (dget ''claimed_at_ms'' d) of
                   None \<Rightarrow> RecDlq
                 | Some claimed_at \<Rightarrow>
                     (if claimed_at \<le> of_int cutoff_ms
                      then (case dget ''payload'' d of
                              JStr p \<Rightarrow> RecRequeue p
                            | JInt i \<Rightarrow> RecRequeue (show_int i)
                            | _ \<Rightarrow> RecError)
                      else RecKeep)))
      | _ \<Rightarrow> RecDlq)"

fun recover_loop :: "int \<Rightarrow> string \<Rightarrow> string \<Rightarrow> string \<Rightarrow> int \<Rightarrow> string list \<Rightarrow> int \<times> int \<Rightarrow> redis
    \<Rightarrow> (int \<times> int) option \<times> redis" where
  "recover_loop now inflight_key queue_key dlq_key cutoff_ms [] (recovered, dlqd) s = (Some (recovered, dlqd), s)"
| "recover_loop now inflight_key queue_key dlq_key cutoff_ms (envelope # envelopes) (recovered, dlqd) s =
     (case recovery_of cutoff_ms envelope of
        RecDlq \<Rightarrow>
          recover_loop now inflight_key queue_key dlq_key cutoff_ms envelopes (recovered, dlqd + 1)
            (snd (redis_lrem1 now inflight_key envelope (redis_rpush now dlq_key envelope s)))
      | RecRequeue payload \<Rightarrow>
          recover_loop now inflight_key queue_key dlq_key cutoff_ms envelopes (recovered + 1, dlqd)
            (snd (redis_lrem1 now inflight_key envelope (redis_rpush now queue_key payload s)))
      | RecKeep \<Rightarrow> recover_loop now inflight_key queue_key dlq_key cutoff_ms envelopes (recovered, dlqd) s
      | RecError \<Rightarrow> (None, s))"

definition lua_recover_stale :: "int \<Rightarrow> string \<Rightarrow> string \<Rightarrow> string \<Rightarrow> int \<Rightarrow> redis \<Rightarrow> (int \<times> int) option \<times> redis" where
  "lua_recover_stale now inflight_key queue_key dlq_key cutoff_ms s =
     recover_loop now inflight_key queue_key dlq_key cutoff_ms (redis_lrange now inflight_key s) (0, 0) s"

definition recover_stale_claims :: "int \<Rightarrow> string \<Rightarrow> string \<Rightarrow> string \<Rightarrow> int \<Rightarrow> redis \<Rightarrow> int \<times> redis" where
  "recover_stale_claims now queue_key inflight_key dlq_key stale_after_seconds s =
     (case rcall (lua_recover_stale now inflight_key queue_key dlq_key (now - stale_after_seconds * 1000)) s of
        (Some (Some (recovered, dlqd)), s1) \<Rightarrow> (recovered, s1)
      | (_, s1) \<Rightarrow> (0, s1))"

section \<open>Dead letters\<close>

fun rpush_all :: "int \<Rightarrow> string \<Rightarrow> string list \<Rightarrow> redis \<Rightarrow> redis" where
  "rpush_all now key [] s = s"
| "rpush_all now key (x # xs) s = rpush_all now key xs (redis_rpush now key x s)"

definition send_to_dlq :: "int \<Rightarrow> string \<Rightarrow> string list \<Rightarrow> redis \<Rightarrow> redis" where
  "send_to_dlq now dlq_key items s =
     (if items \<noteq> [] then snd (rcall (ruse (rpush_all now dlq_key items)) s) else s)"

definition get_queue_length :: "int \<Rightarrow> string \<Rightarrow> redis \<Rightarrow> int \<times> redis" where
  "get_queue_length now queue_key s =
     (case rcall (rread (\<lambda>s. int (length (redis_lrange now queue_key s)))) s of
        (None, s1) \<Rightarrow> (0, s1)
      | (Some n, s1) \<Rightarrow> (n, s1))"

text \<open>\<open>LRANGE key 0 (count - 1)\<close>: a negative end counts from the tail.\<close>

definition range_to :: "int \<Rightarrow> 'a list \<Rightarrow> 'a list" where
  "range_to last_index xs = take (nat (if last_index < 0 then int (length xs) + last_index + 1 else last_index + 1)) xs"

definition peek_dlq :: "int \<Rightarrow> string \<Rightarrow> int \<Rightarrow> redis \<Rightarrow> json list \<times> redis" where
  "peek_dlq now dlq_key count s =
     (case rcall (rread (\<lambda>s. range_to (count - 1) (redis_lrange now dlq_key s))) s of
        (None, s1) \<Rightarrow> ([], s1)
      | (Some raws, s1) \<Rightarrow> (List.map_filter loads raws, s1))"

definition flush_dlq :: "int \<Rightarrow> string \<Rightarrow> redis \<Rightarrow> int \<times> redis" where
  "flush_dlq now dlq_key s =
     (case rcall (rread (\<lambda>s. int (length (redis_lrange now dlq_key s)))) s of
        (None, s1) \<Rightarrow> (0, s1)
      | (Some n, s1) \<Rightarrow>
          (case rcall (ruse (redis_delete dlq_key)) s1 of
             (None, s2) \<Rightarrow> (0, s2)
           | (Some _, s2) \<Rightarrow> (n, s2)))"

end
