(* ===== verification/Catalog.thy ===== *)
theory Catalog
  imports Enums Json Decimal Quota RateLimit "HOL-Library.Product_Lexorder" "HOL-Library.List_Lexorder"
    "HOL-Library.Char_ord"
begin

text \<open>
  The rows the gateway reads (\<open>src/db/models\<close>), the queries of
  \<open>src/gateway/repository.py\<close> over tables given as lists of rows, and the cost of a call
  (\<open>src/gateway/usage.py\<close>). A query without \<open>ORDER BY\<close> returns rows in table order;
  text is ordered by code point.
\<close>

section \<open>Rows\<close>

text \<open>The columns of a logical model the hot path reads, and the row with its status.\<close>

record model_core =
  lm_id :: int
  lm_name :: string
  lm_price_input :: "dec option"
  lm_price_output :: "dec option"

record logical_model = model_core +
  lm_status :: string
  lm_is_deleted :: bool

record upstream_channel =
  uc_id :: int
  uc_provider :: string
  uc_protocol :: string
  uc_api_base :: "string option"
  uc_extra_config :: "(string \<times> json) list option"
  uc_status :: string
  uc_is_deleted :: bool

record channel_key =
  ck_id :: int
  ck_channel_id :: int
  ck_api_key_encrypted :: string
  ck_status :: string
  ck_rpm_limit :: "int option"
  ck_tpm_limit :: "int option"
  ck_weight :: int
  ck_priority :: int
  ck_is_deleted :: bool

record model_deployment =
  md_logical_model_id :: int
  md_channel_id :: int
  md_upstream_model :: string
  md_weight :: int
  md_priority :: int
  md_status :: string
  md_is_deleted :: bool

record user_model_grant =
  ug_scope :: string
  ug_scope_id :: int
  ug_logical_model_id :: int
  ug_is_default :: bool
  ug_is_deleted :: bool

text \<open>A quota row: the rule the enforcer uses, with its status columns.\<close>

record quota_row =
  qt_rule :: quota
  qt_status :: string
  qt_is_deleted :: bool

record rate_limit_row =
  rr_rule :: rl_rule
  rr_enforce :: bool
  rr_status :: string
  rr_is_deleted :: bool

record catalog_db =
  db_models :: "logical_model list"
  db_channels :: "upstream_channel list"
  db_keys :: "channel_key list"
  db_deployments :: "model_deployment list"
  db_grants :: "user_model_grant list"
  db_quotas :: "quota_row list"
  db_rate_limits :: "rate_limit_row list"

record router_deployment_row =
  rd_logical_model_name :: string
  rd_logical_model_id :: int
  rd_upstream_model :: string
  rd_provider :: string
  rd_protocol :: string
  rd_api_base :: "string option"
  rd_extra_config :: "(string \<times> json) list option"
  rd_api_key_encrypted :: string
  rd_channel_id :: int
  rd_channel_key_id :: int
  rd_deployment_weight :: int
  rd_deployment_priority :: int
  rd_key_weight :: int
  rd_key_rpm_limit :: "int option"
  rd_key_tpm_limit :: "int option"

section \<open>Queries\<close>

definition ACTIVE :: string where "ACTIVE = active_status_value AS_active"

definition router_join :: "catalog_db \<Rightarrow> (logical_model \<times> model_deployment \<times> upstream_channel \<times> channel_key) list" where
  "router_join db =
     [(m, d, c, k). m \<leftarrow> db_models db, d \<leftarrow> db_deployments db, c \<leftarrow> db_channels db, k \<leftarrow> db_keys db,
        md_logical_model_id d = lm_id m, uc_id c = md_channel_id d, ck_channel_id k = uc_id c,
        \<not> lm_is_deleted m, \<not> md_is_deleted d, \<not> uc_is_deleted c, \<not> ck_is_deleted k,
        lm_status m = ACTIVE, md_status d = ACTIVE, uc_status c = ACTIVE, ck_status k = ACTIVE]"

definition router_order :: "logical_model \<times> model_deployment \<times> upstream_channel \<times> channel_key
    \<Rightarrow> string \<times> int \<times> int \<times> int \<times> int" where
  "router_order row = (case row of (m, d, c, k) \<Rightarrow> (lm_name m, md_priority d, ck_priority k, uc_id c, ck_id k))"

definition get_router_config :: "catalog_db \<Rightarrow> router_deployment_row list" where
  "get_router_config db =
     map (\<lambda>(m, d, c, k).
            \<lparr>rd_logical_model_name = lm_name m, rd_logical_model_id = lm_id m,
             rd_upstream_model = md_upstream_model d, rd_provider = uc_provider c, rd_protocol = uc_protocol c,
             rd_api_base = uc_api_base c, rd_extra_config = uc_extra_config c,
             rd_api_key_encrypted = ck_api_key_encrypted k, rd_channel_id = uc_id c, rd_channel_key_id = ck_id k,
             rd_deployment_weight = md_weight d, rd_deployment_priority = md_priority d,
             rd_key_weight = ck_weight k, rd_key_rpm_limit = ck_rpm_limit k, rd_key_tpm_limit = ck_tpm_limit k\<rparr>)
       (sort_key router_order (router_join db))"

definition grant_applies :: "int \<Rightarrow> int option \<Rightarrow> user_model_grant \<Rightarrow> bool" where
  "grant_applies user_id dept_id g \<longleftrightarrow>
     (ug_scope g = grant_scope_value GS_user \<and> ug_scope_id g = user_id)
     \<or> (dept_id \<noteq> None \<and> ug_scope g = grant_scope_value GS_department \<and> Some (ug_scope_id g) = dept_id)"

definition get_user_granted_models :: "int \<Rightarrow> int option \<Rightarrow> catalog_db \<Rightarrow> int set" where
  "get_user_granted_models user_id dept_id db =
     set (map ug_logical_model_id (filter (\<lambda>g. \<not> ug_is_deleted g \<and> grant_applies user_id dept_id g) (db_grants db)))"

definition scope_rank :: "user_model_grant \<Rightarrow> nat" where
  "scope_rank g = (if ug_scope g = grant_scope_value GS_user then 0 else 1)"

definition get_default_model_id :: "int \<Rightarrow> int option \<Rightarrow> catalog_db \<Rightarrow> int option" where
  "get_default_model_id user_id dept_id db =
     (case sort_key scope_rank
             (filter (\<lambda>g. \<not> ug_is_deleted g \<and> ug_is_default g \<and> grant_applies user_id dept_id g) (db_grants db)) of
        [] \<Rightarrow> None
      | g # _ \<Rightarrow> Some (ug_logical_model_id g))"

definition live_model :: "logical_model \<Rightarrow> bool" where
  "live_model m \<longleftrightarrow> \<not> lm_is_deleted m \<and> lm_status m = ACTIVE"

definition get_logical_model_by_name :: "string \<Rightarrow> catalog_db \<Rightarrow> logical_model option" where
  "get_logical_model_by_name nm db = find (\<lambda>m. live_model m \<and> lm_name m = nm) (db_models db)"

definition get_logical_model_by_id :: "int \<Rightarrow> catalog_db \<Rightarrow> logical_model option" where
  "get_logical_model_by_id i db = find (\<lambda>m. live_model m \<and> lm_id m = i) (db_models db)"

definition get_logical_models_by_ids :: "int list \<Rightarrow> catalog_db \<Rightarrow> logical_model list" where
  "get_logical_models_by_ids ids db =
     (if ids = [] then [] else sort_key lm_name (filter (\<lambda>m. live_model m \<and> lm_id m \<in> set ids) (db_models db)))"

definition quota_applies :: "int \<Rightarrow> int option \<Rightarrow> int \<Rightarrow> quota \<Rightarrow> bool" where
  "quota_applies user_id department_id model_id q \<longleftrightarrow>
     ((q_scope q = quota_scope_value QS_user \<and> q_scope_id q = Some user_id)
      \<or> (q_scope q = quota_scope_value QS_global \<and> q_scope_id q = None)
      \<or> (department_id \<noteq> None \<and> q_scope q = quota_scope_value QS_department \<and> q_scope_id q = department_id))
     \<and> (q_logical_model_id q = Some model_id \<or> q_logical_model_id q = None)"

definition get_active_quotas :: "int \<Rightarrow> int option \<Rightarrow> int \<Rightarrow> catalog_db \<Rightarrow> quota list" where
  "get_active_quotas user_id department_id model_id db =
     map qt_rule (filter (\<lambda>t. \<not> qt_is_deleted t \<and> qt_status t = ACTIVE
       \<and> quota_applies user_id department_id model_id (qt_rule t)) (db_quotas db))"

text \<open>
  The statement of \<open>get_rate_limit_rules\<close>. SQL's equality with \<open>NULL\<close> is not true: a
  rule of a subject kind the request has no id for does not match.
\<close>

definition sql_eq :: "int option \<Rightarrow> int option \<Rightarrow> bool" where
  "sql_eq a b \<longleftrightarrow> a \<noteq> None \<and> a = b"

definition rate_limit_applies :: "int \<Rightarrow> int option \<Rightarrow> int \<Rightarrow> int option \<Rightarrow> rl_rule \<Rightarrow> bool" where
  "rate_limit_applies user_id department_id model_id api_key_id r \<longleftrightarrow>
     (rl_model_id r = Some model_id \<or> rl_model_id r = None)
     \<and> ((rl_subject_type r = rate_limit_scope_value RS_user \<and> sql_eq (rl_subject_id r) (Some user_id))
        \<or> (rl_subject_type r = rate_limit_scope_value RS_department \<and> sql_eq (rl_subject_id r) department_id)
        \<or> (rl_subject_type r = rate_limit_scope_value RS_api_key \<and> sql_eq (rl_subject_id r) api_key_id)
        \<or> rl_subject_type r = rate_limit_scope_value RS_global)"

definition select_rate_limit_rules :: "int \<Rightarrow> int option \<Rightarrow> int \<Rightarrow> int option \<Rightarrow> catalog_db \<Rightarrow> rl_rule list" where
  "select_rate_limit_rules user_id department_id model_id api_key_id db =
     map rr_rule (filter (\<lambda>t. \<not> rr_is_deleted t \<and> rr_status t = ACTIVE \<and> rr_enforce t
       \<and> rate_limit_applies user_id department_id model_id api_key_id (rr_rule t)) (db_rate_limits db))"

section \<open>Cost\<close>

definition compute_cost :: "'a model_core_scheme \<Rightarrow> int \<Rightarrow> int \<Rightarrow> dec option" where
  "compute_cost m prompt_tokens completion_tokens =
     (case (lm_price_input m, lm_price_output m) of
        (Some price_input, Some price_output) \<Rightarrow>
          Some (dec_div_million (dec_add (dec_mul (dec_of_int prompt_tokens) price_input)
                                         (dec_mul (dec_of_int completion_tokens) price_output)))
      | _ \<Rightarrow> None)"

lemma compute_cost_value:
  "lm_price_input m = Some pin \<Longrightarrow> lm_price_output m = Some pout \<Longrightarrow>
   map_option dec_value (compute_cost m p c)
     = Some ((of_int p * dec_value pin + of_int c * dec_value pout) / 1000000)"
  by (simp add: compute_cost_def dec_value_div_million dec_value_add dec_value_mul dec_value_of_int)

lemma compute_cost_None: "compute_cost m p c = None \<longleftrightarrow> lm_price_input m = None \<or> lm_price_output m = None"
  by (auto simp: compute_cost_def split: option.splits)

lemma compute_cost_mono:
  assumes "lm_price_input m = Some pin" "lm_price_output m = Some pout" "0 \<le> dec_value pin" "0 \<le> dec_value pout"
    and "p \<le> p'" "c \<le> c'" "compute_cost m p c = Some x" "compute_cost m p' c' = Some y"
  shows "dec_value x \<le> dec_value y"
proof -
  have "dec_value x = (of_int p * dec_value pin + of_int c * dec_value pout) / 1000000"
    "dec_value y = (of_int p' * dec_value pin + of_int c' * dec_value pout) / 1000000"
    using compute_cost_value [OF assms(1,2), of p c] compute_cost_value [OF assms(1,2), of p' c'] assms(7,8) by simp_all
  moreover have "of_int p * dec_value pin \<le> of_int p' * dec_value pin" "of_int c * dec_value pout \<le> of_int c' * dec_value pout"
    using assms(3-6) by (simp_all add: mult_right_mono)
  ultimately show ?thesis by (simp add: divide_right_mono)
qed

end
