(* ===== verification/UsageBatch.thy ===== *)
theory UsageBatch
  imports Events Catalog
begin

text \<open>
  \<open>src/gateway/usage_batch.py\<close> and the conflict-ignoring insert of
  \<open>src/db/bulk.py\<close>: claimed usage events become rows of \<open>usage_record\<close>, whose
  \<open>request_id\<close> is unique; and its twin \<open>src/gateway/observability.py\<close>, which does the same for request logs. Row values are kept as JSON values; a value the database would not accept
  is one of the ways the write can fail (\<open>db_ok\<close>).
\<close>

record usage_row =
  ur_id :: int
  ur_user_id :: json
  ur_api_key_id :: json
  ur_logical_model_id :: json
  ur_channel_id :: json
  ur_upstream_model :: json
  ur_prompt_tokens :: json
  ur_completion_tokens :: json
  ur_total_tokens :: json
  ur_cost :: "dec option"
  ur_status :: json
  ur_latency_ms :: json
  ur_request_id :: json
  ur_downgraded_features :: json

text \<open>\<open>Decimal(cost_raw)\<close> with its exceptions suppressed.\<close>

definition decimal_of_json :: "json \<Rightarrow> dec option" where
  "decimal_of_json v =
     (case v of
        JStr t \<Rightarrow> read_dec (py_strip t)
      | JInt i \<Rightarrow> Some (dec_of_int i)
      | JBool b \<Rightarrow> Some (dec_of_int (if b then 1 else 0))
      | JFloat m e \<Rightarrow> Some (m, e)
      | _ \<Rightarrow> None)"

text \<open>\<open>None\<close> is the \<open>KeyError\<close> of a missing \<open>user_id\<close> or \<open>logical_model_id\<close>.\<close>

definition to_usage_row :: "int \<Rightarrow> (string \<times> json) list \<Rightarrow> usage_row option" where
  "to_usage_row next_id data =
     (case (map_of data ''user_id'', map_of data ''logical_model_id'') of
        (Some user_id, Some model_id) \<Rightarrow>
          Some \<lparr>ur_id = next_id, ur_user_id = user_id, ur_api_key_id = dget ''api_key_id'' data,
                ur_logical_model_id = model_id, ur_channel_id = dget ''channel_id'' data,
                ur_upstream_model = dget ''upstream_model'' data,
                ur_prompt_tokens = dget_default ''prompt_tokens'' (JInt 0) data,
                ur_completion_tokens = dget_default ''completion_tokens'' (JInt 0) data,
                ur_total_tokens = dget_default ''total_tokens'' (JInt 0) data,
                ur_cost = decimal_of_json (dget ''cost'' data),
                ur_status = dget_default ''status'' (JStr ''error'') data,
                ur_latency_ms = dget ''latency_ms'' data, ur_request_id = dget ''request_id'' data,
                ur_downgraded_features = dget ''downgraded_features'' data\<rparr>
      | _ \<Rightarrow> None)"

text \<open>\<open>str(request_id)\<close>, the text duplicates within a batch are found by.\<close>

definition request_id_text :: "json \<Rightarrow> string" where
  "request_id_text v =
     (case v of JStr t \<Rightarrow> t | JInt i \<Rightarrow> show_int i | JBool b \<Rightarrow> ''True'' | _ \<Rightarrow> dumps v)"

text \<open>The rows of a batch, without duplicates; both writers have this loop. \<open>to_row\<close> converts one record.\<close>

fun batch_rows :: "(int \<Rightarrow> (string \<times> json) list \<Rightarrow> 'row option) \<Rightarrow> (nat \<Rightarrow> int) \<Rightarrow> nat \<Rightarrow> string list \<Rightarrow> (string \<times> json) list list
    \<Rightarrow> 'row list option" where
  "batch_rows to_row ids i seen [] = Some []"
| "batch_rows to_row ids i seen (record # records) =
     (let request_id = dget ''request_id'' record
      in if truthy request_id \<and> request_id_text request_id \<in> set seen
         then batch_rows to_row ids i seen records
         else
           (let seen' = (if truthy request_id then request_id_text request_id # seen else seen)
            in case to_row (ids i) record of
                 None \<Rightarrow> None
               | Some row \<Rightarrow> map_option (\<lambda>rows. row # rows) (batch_rows to_row ids (Suc i) seen' records)))"

text \<open>\<open>INSERT ... ON CONFLICT (request_id) DO NOTHING\<close>; a NULL never conflicts.\<close>

definition conflicts :: "('row \<Rightarrow> json) \<Rightarrow> 'row list \<Rightarrow> 'row \<Rightarrow> bool" where
  "conflicts rid_of table row \<longleftrightarrow> rid_of row \<noteq> JNull \<and> rid_of row \<in> rid_of ` set table"

fun insert_ignore_conflicts :: "('row \<Rightarrow> json) \<Rightarrow> 'row list \<Rightarrow> 'row list \<Rightarrow> int \<times> 'row list" where
  "insert_ignore_conflicts rid_of [] table = (0, table)"
| "insert_ignore_conflicts rid_of (row # rows) table =
     (if conflicts rid_of table row then insert_ignore_conflicts rid_of rows table
      else (case insert_ignore_conflicts rid_of rows (table @ [row]) of (n, t) \<Rightarrow> (n + 1, t)))"

text \<open>The column is a text of at most 64 characters: the database refuses a longer \<open>request_id\<close>, the driver one of another type.\<close>

definition request_id_typed :: "('row \<Rightarrow> json) \<Rightarrow> 'row \<Rightarrow> bool" where
  "request_id_typed rid_of row \<longleftrightarrow> (case rid_of row of JNull \<Rightarrow> True | JStr t \<Rightarrow> length t \<le> 64 | _ \<Rightarrow> False)"

text \<open>\<open>_bulk_insert_usage\<close>; \<open>None\<close> is any exception, the transaction then leaves the table.\<close>

definition bulk_insert_usage :: "bool \<Rightarrow> (nat \<Rightarrow> int) \<Rightarrow> (string \<times> json) list list \<Rightarrow> usage_row list
    \<Rightarrow> (int \<times> usage_row list) option" where
  "bulk_insert_usage db_ok ids records table =
     (case batch_rows to_usage_row ids 0 [] records of
        None \<Rightarrow> None
      | Some rows \<Rightarrow> if db_ok \<and> list_all (request_id_typed ur_request_id) rows then Some (insert_ignore_conflicts ur_request_id rows table) else None)"

definition parse_record :: "claimed_event \<Rightarrow> (string \<times> json) list option" where
  "parse_record item = (case loads (ce_raw item) of Some (JObj d) \<Rightarrow> Some d | _ \<Rightarrow> None)"

definition flush_usage_records ::
  "int \<Rightarrow> (nat \<Rightarrow> int) \<Rightarrow> bool \<Rightarrow> (nat \<Rightarrow> int) \<Rightarrow> redis \<times> usage_row list \<Rightarrow> int \<times> redis \<times> usage_row list" where
  "flush_usage_records now clock db_ok ids st =
     (case st of (s0, table) \<Rightarrow>
       (let s1 = snd (recover_stale_claims now USAGE_QUEUE_KEY USAGE_INFLIGHT_KEY USAGE_DLQ_KEY
                        DEFAULT_INFLIGHT_STALE_SECONDS s0);
            (claimed, s2) = claim_batch now clock USAGE_QUEUE_KEY USAGE_INFLIGHT_KEY DEFAULT_BATCH_SIZE s1
        in if claimed = [] then (0, s2, table)
           else
             (let records = List.map_filter parse_record claimed;
                  valid_claims = filter (\<lambda>c. parse_record c \<noteq> None) claimed;
                  unparseable = filter (\<lambda>c. parse_record c = None) claimed;
                  s3 = (if unparseable \<noteq> []
                        then dlq_claimed now USAGE_INFLIGHT_KEY USAGE_DLQ_KEY unparseable s2 else s2)
              in if records = [] then (0, s3, table)
                 else (case bulk_insert_usage db_ok ids records table of
                         None \<Rightarrow>
                           (0, retry_or_dlq_claimed now USAGE_QUEUE_KEY USAGE_INFLIGHT_KEY USAGE_DLQ_KEY
                                 MAX_RETRY_ATTEMPTS valid_claims s3, table)
                       | Some (written, table') \<Rightarrow>
                           (written, snd (ack_claimed now USAGE_INFLIGHT_KEY valid_claims s3), table')))))"

section \<open>Request logs\<close>

record log_row =
  lr_id :: int
  lr_request_id :: json
  lr_user_id :: json
  lr_api_key_id :: json
  lr_logical_model_id :: json
  lr_model :: json
  lr_channel_id :: json
  lr_upstream_model :: json
  lr_provider :: json
  lr_status_code :: json
  lr_error_code :: json
  lr_error_body :: json
  lr_latency_ms :: json
  lr_ttft_ms :: json
  lr_tokens_in :: json
  lr_tokens_out :: json
  lr_stream :: json
  lr_cache_hit :: json
  lr_retry_count :: json
  lr_fallback_used :: json

definition to_log_row :: "int \<Rightarrow> (string \<times> json) list \<Rightarrow> log_row" where
  "to_log_row next_id data =
     \<lparr>lr_id = next_id, lr_request_id = dget ''request_id'' data,
      lr_user_id = dget ''user_id'' data,
      lr_api_key_id = dget ''api_key_id'' data,
      lr_logical_model_id = dget ''logical_model_id'' data,
      lr_model = dget ''model'' data,
      lr_channel_id = dget ''channel_id'' data,
      lr_upstream_model = dget ''upstream_model'' data,
      lr_provider = dget ''provider'' data,
      lr_status_code = dget_default ''status_code'' (JInt 200) data,
      lr_error_code = dget ''error_code'' data,
      lr_error_body = dget ''error_body'' data,
      lr_latency_ms = dget ''latency_ms'' data,
      lr_ttft_ms = dget ''ttft_ms'' data,
      lr_tokens_in = dget_default ''tokens_in'' (JInt 0) data,
      lr_tokens_out = dget_default ''tokens_out'' (JInt 0) data,
      lr_stream = dget_default ''stream'' (JBool False) data,
      lr_cache_hit = dget_default ''cache_hit'' (JBool False) data,
      lr_retry_count = dget_default ''retry_count'' (JInt 0) data,
      lr_fallback_used = dget_default ''fallback_used'' (JBool False) data\<rparr>"

text \<open>\<open>_bulk_insert_logs\<close>; here the column \<open>request_id\<close> is not nullable.\<close>

definition bulk_insert_logs :: "bool \<Rightarrow> (nat \<Rightarrow> int) \<Rightarrow> (string \<times> json) list list \<Rightarrow> log_row list \<Rightarrow> (int \<times> log_row list) option" where
  "bulk_insert_logs db_ok ids records table =
     (case batch_rows (\<lambda>i d. Some (to_log_row i d)) ids 0 [] records of
        None \<Rightarrow> None
      | Some rows \<Rightarrow>
          if db_ok \<and> list_all (\<lambda>row. request_id_typed lr_request_id row \<and> lr_request_id row \<noteq> JNull) rows
          then Some (insert_ignore_conflicts lr_request_id rows table) else None)"

definition flush_gateway_logs ::
  "int \<Rightarrow> (nat \<Rightarrow> int) \<Rightarrow> bool \<Rightarrow> (nat \<Rightarrow> int) \<Rightarrow> redis \<times> log_row list \<Rightarrow> int \<times> redis \<times> log_row list" where
  "flush_gateway_logs now clock db_ok ids st =
     (case st of (s0, table) \<Rightarrow>
       (let s1 = snd (recover_stale_claims now LOG_QUEUE_KEY LOG_INFLIGHT_KEY LOG_DLQ_KEY
                        DEFAULT_INFLIGHT_STALE_SECONDS s0);
            (claimed, s2) = claim_batch now clock LOG_QUEUE_KEY LOG_INFLIGHT_KEY DEFAULT_BATCH_SIZE s1
        in if claimed = [] then (0, s2, table)
           else
             (let records = List.map_filter parse_record claimed;
                  valid_claims = filter (\<lambda>c. parse_record c \<noteq> None) claimed;
                  unparseable = filter (\<lambda>c. parse_record c = None) claimed;
                  s3 = (if unparseable \<noteq> []
                        then dlq_claimed now LOG_INFLIGHT_KEY LOG_DLQ_KEY unparseable s2 else s2)
              in if records = [] then (0, s3, table)
                 else (case bulk_insert_logs db_ok ids records table of
                         None \<Rightarrow>
                           (0, retry_or_dlq_claimed now LOG_QUEUE_KEY LOG_INFLIGHT_KEY LOG_DLQ_KEY
                                 MAX_RETRY_ATTEMPTS valid_claims s3, table)
                       | Some (written, table') \<Rightarrow>
                           (written, snd (ack_claimed now LOG_INFLIGHT_KEY valid_claims s3), table')))))"

end
