(* ===== verification/EventLists.thy ===== *)
theory EventLists
  imports EventFacts
begin

text \<open>
  What the two batch workers, of usage and of request logs, have in common: a pending list, an inflight list and a dead-letter list,
  and a table the events end up in. An event is followed by its request id from one to the other; the lemmas hold for any three
  keys (locale \<open>event_lists\<close>) and any bulk insert that writes what it is given (locale \<open>batch_worker\<close>).
\<close>

section \<open>Where an event can be\<close>

record event_keys =
  ek_queue :: string
  ek_inflight :: string
  ek_dlq :: string

definition event_id :: "string \<Rightarrow> string option" where
  "event_id raw =
     (case loads raw of
        Some (JObj d) \<Rightarrow> (case dget ''request_id'' d of JStr r \<Rightarrow> Some r | _ \<Rightarrow> None)
      | _ \<Rightarrow> None)"

definition envelope_id :: "string \<Rightarrow> string option" where
  "envelope_id e = (case decode_claimed e of None \<Rightarrow> None | Some c \<Rightarrow> event_id (ce_raw c))"

text \<open>Outside the inflight list: pending, dead-lettered (as payload or as envelope), or written.\<close>

definition outside :: "event_keys \<Rightarrow> ('row \<Rightarrow> json) \<Rightarrow> string \<Rightarrow> redis \<times> 'row list \<Rightarrow> bool" where
  "outside ks rid_of rid st \<longleftrightarrow>
     (\<exists>x\<in>set (r_lists (fst st) (ek_queue ks)). event_id x = Some rid)
     \<or> (\<exists>x\<in>set (r_lists (fst st) (ek_dlq ks)). event_id x = Some rid \<or> envelope_id x = Some rid)
     \<or> (\<exists>row\<in>set (snd st). rid_of row = JStr rid)"

definition accounted :: "event_keys \<Rightarrow> ('row \<Rightarrow> json) \<Rightarrow> string \<Rightarrow> redis \<times> 'row list \<Rightarrow> bool" where
  "accounted ks rid_of rid st \<longleftrightarrow> outside ks rid_of rid st
     \<or> (\<exists>x\<in>set (r_lists (fst st) (ek_inflight ks)). envelope_id x = Some rid)"

text \<open>The event lists have no deadline: nothing in this component sets one.\<close>

definition no_deadline :: "event_keys \<Rightarrow> redis \<Rightarrow> bool" where
  "no_deadline ks s \<longleftrightarrow> (\<forall>k\<in>{(ek_queue ks), (ek_inflight ks), (ek_dlq ks)}. r_expiry s k = None)"

text \<open>What every step of the worker keeps.\<close>

definition keeps :: "event_keys \<Rightarrow> ('row \<Rightarrow> json) \<Rightarrow> string \<Rightarrow> redis \<times> 'row list \<Rightarrow> redis \<times> 'row list \<Rightarrow> bool" where
  "keeps ks rid_of rid st st' \<longleftrightarrow> no_deadline ks (fst st') \<and> (outside ks rid_of rid st \<longrightarrow> outside ks rid_of rid st') \<and> (accounted ks rid_of rid st \<longrightarrow> accounted ks rid_of rid st')"

text \<open>Claiming moves an event inside; it keeps it accounted for.\<close>

definition keeps_event :: "event_keys \<Rightarrow> ('row \<Rightarrow> json) \<Rightarrow> string \<Rightarrow> redis \<times> 'row list \<Rightarrow> redis \<times> 'row list \<Rightarrow> bool" where
  "keeps_event ks rid_of rid st st' \<longleftrightarrow> no_deadline ks (fst st') \<and> (accounted ks rid_of rid st \<longrightarrow> accounted ks rid_of rid st')"

section \<open>Calls and envelopes\<close>

lemma rpush_alive:
  "\<not> expired now k s \<Longrightarrow> redis_rpush now k v s = s\<lparr>r_lists := (r_lists s)(k := r_lists s k @ [v])\<rparr>"
  by (simp add: redis_rpush_def evict_if_expired_def)

lemma lrem_alive:
  "\<not> expired now k s \<Longrightarrow> snd (redis_lrem1 now k v s) = s\<lparr>r_lists := (r_lists s)(k := remove1 v (r_lists s k))\<rparr>"
  by (simp add: redis_lrem1_def evict_if_expired_def Let_def)

text \<open>A call on the wire runs the command on the store (one wire entry shorter), or not at all.\<close>

lemma rcall_runs:
  assumes "rcall f s = (r, s')"
  obtains u where "u = s \<or> (\<exists>ws. u = s\<lparr>r_wire := ws\<rparr>)" "s' = u \<and> r = None \<or> s' = snd (f u) \<and> (r = None \<or> r = Some (fst (f u)))"
proof (cases "r_wire s")
  case Nil
  have "s' = snd (f s)" "r = Some (fst (f s))" using assms Nil by (simp_all add: rcall_def Let_def split_def)
  then show ?thesis using that [of s] by simp
next
  case (Cons w ws)
  let ?u = "s\<lparr>r_wire := ws\<rparr>"
  have "s' = ?u \<and> r = None \<or> s' = snd (f ?u) \<and> (r = None \<or> r = Some (fst (f ?u)))"
    using assms Cons by (cases w) (simp_all add: rcall_def Let_def split_def)
  then show ?thesis using that [of ?u] by blast
qed

lemma decode_claimed_envelope:
  "decode_claimed e = Some c \<Longrightarrow> ce_envelope c = e \<and> envelope_id e = event_id (ce_raw c)"
  by (auto simp: envelope_id_def decode_claimed_def split: option.splits json.splits)

lemma decode_make_envelope: "decode_claimed (make_envelope p n) = Some \<lparr>ce_raw = p, ce_envelope = make_envelope p n\<rparr>"
proof -
  have "json_wf (JObj [(''payload'', JStr p), (''claimed_at_ms'', JStr (show_int n))])" by simp
  from loads_dumps [OF this] show ?thesis
    by (simp add: decode_claimed_def make_envelope_def dget_def)
qed

definition sound_claim :: "claimed_event \<Rightarrow> bool" where
  "sound_claim c \<longleftrightarrow> envelope_id (ce_envelope c) = event_id (ce_raw c)"

lemma dget_dict_set_other: "k \<noteq> k' \<Longrightarrow> dget k (dict_set k' v d) = dget k d"
  by (simp add: dget_def)

lemma increment_attempt_id:
  assumes "increment_attempt raw = Some (payload, n)" and "event_id raw = Some rid"
  shows "event_id payload = Some rid"
proof -
  obtain d where d: "loads raw = Some (JObj d)" and rid: "dget ''request_id'' d = JStr rid"
    using assms(2) by (auto simp: event_id_def split: option.splits json.splits)
  obtain k where p: "payload = dumps (JObj (dict_set ''_attempt'' (JInt k) d))"
    using assms(1) d by (auto simp: increment_attempt_def payload_of_def Let_def split: option.splits)
  have "json_wf (JObj d)" using loads_wf [OF d] .
  then have "json_wf (JObj (dict_set ''_attempt'' (JInt k) d))"
    by (auto intro: list_all_dict_set)
  from loads_dumps [OF this] rid show ?thesis by (simp add: p event_id_def dget_dict_set_other)
qed

lemma recovery_of_id:
  "recovery_of cutoff e = RecRequeue p \<Longrightarrow> envelope_id e = Some rid \<Longrightarrow> event_id p = Some rid"
  by (auto simp: recovery_of_def envelope_id_def decode_claimed_def
      split: option.splits json.splits if_splits)

section \<open>The lists\<close>

locale event_lists =
  fixes ks :: event_keys and rid_of :: "'row \<Rightarrow> json"
  assumes differ: "ek_queue ks \<noteq> ek_inflight ks" "ek_queue ks \<noteq> ek_dlq ks" "ek_inflight ks \<noteq> ek_dlq ks"
begin

lemma lists_apart [simp]:
  "ek_queue ks \<noteq> ek_inflight ks" "ek_queue ks \<noteq> ek_dlq ks" "ek_inflight ks \<noteq> ek_dlq ks"
  "ek_inflight ks \<noteq> ek_queue ks" "ek_dlq ks \<noteq> ek_queue ks" "ek_dlq ks \<noteq> ek_inflight ks"
  using differ by auto

lemma no_deadline_alive:
  "no_deadline ks s \<Longrightarrow> k \<in> {(ek_queue ks), (ek_inflight ks), (ek_dlq ks)} \<Longrightarrow> \<not> expired now k s"
  by (auto simp: no_deadline_def expired_def)

lemma keeps_refl: "no_deadline ks (fst st) \<Longrightarrow> keeps ks rid_of rid st st"
  by (simp add: keeps_def)

lemma keeps_trans [trans]: "keeps ks rid_of rid a b \<Longrightarrow> keeps ks rid_of rid b c \<Longrightarrow> keeps ks rid_of rid a c"
  by (auto simp: keeps_def)

lemma keeps_wire: "no_deadline ks s \<Longrightarrow> keeps ks rid_of rid (s, t) (s\<lparr>r_wire := ws\<rparr>, t)"
  by (simp add: keeps_def no_deadline_def outside_def accounted_def)

lemma keeps_rpush:
  assumes "no_deadline ks s" and "k \<in> {(ek_queue ks), (ek_dlq ks)}"
  shows "keeps ks rid_of rid (s, t) (redis_rpush now k v s, t)"
    and "event_id v = Some rid \<or> (k = (ek_dlq ks) \<and> envelope_id v = Some rid) \<Longrightarrow> outside ks rid_of rid (redis_rpush now k v s, t)"
proof -
  have alive: "\<not> expired now k s" using assms by (intro no_deadline_alive) auto
  show "keeps ks rid_of rid (s, t) (redis_rpush now k v s, t)"
    using assms unfolding rpush_alive [OF alive] by (auto simp: keeps_def no_deadline_def outside_def accounted_def)
  show "outside ks rid_of rid (redis_rpush now k v s, t)"
    if "event_id v = Some rid \<or> (k = (ek_dlq ks) \<and> envelope_id v = Some rid)"
    using that assms(2) unfolding rpush_alive [OF alive] by (auto simp: outside_def)
qed

text \<open>An envelope may leave the inflight list once its event is outside.\<close>

lemma keeps_lrem:
  assumes "no_deadline ks s" and "envelope_id e = Some rid \<Longrightarrow> outside ks rid_of rid (s, t)"
  shows "keeps ks rid_of rid (s, t) (snd (redis_lrem1 now (ek_inflight ks) e s), t)"
proof -
  have alive: "\<not> expired now (ek_inflight ks) s" using assms by (intro no_deadline_alive) auto
  have out: "outside ks rid_of rid (snd (redis_lrem1 now (ek_inflight ks) e s), t) \<longleftrightarrow> outside ks rid_of rid (s, t)"
    unfolding lrem_alive [OF alive] by (simp add: outside_def)
  have "accounted ks rid_of rid (snd (redis_lrem1 now (ek_inflight ks) e s), t)" if acc: "accounted ks rid_of rid (s, t)"
  proof (cases "outside ks rid_of rid (s, t)")
    case True
    with out show ?thesis by (simp add: accounted_def)
  next
    case False
    with acc obtain x where x: "x \<in> set (r_lists s (ek_inflight ks))" "envelope_id x = Some rid"
      by (auto simp: accounted_def)
    with False assms(2) have "x \<noteq> e" by auto
    with x show ?thesis unfolding lrem_alive [OF alive] by (auto simp: accounted_def)
  qed
  with out assms(1) show ?thesis
    unfolding keeps_def lrem_alive [OF alive] by (simp add: no_deadline_def)
qed

lemma keeps_before:
  assumes "u = s \<or> (\<exists>ws. u = s\<lparr>r_wire := ws\<rparr>)" and "no_deadline ks s"
  shows "keeps ks rid_of rid (s, t) (u, t)" and "no_deadline ks u"
  using assms keeps_wire keeps_refl [of "(s, t)"] by (auto simp: no_deadline_def)

lemma keeps_rcall:
  assumes "rcall f s = (r, s')" and "no_deadline ks s"
    and "\<And>u. no_deadline ks u \<Longrightarrow> keeps ks rid_of rid (s, t) (u, t) \<Longrightarrow> keeps ks rid_of rid (u, t) (snd (f u), t)"
  shows "keeps ks rid_of rid (s, t) (s', t)"
proof -
  obtain u where u: "u = s \<or> (\<exists>ws. u = s\<lparr>r_wire := ws\<rparr>)"
    and s': "s' = u \<and> r = None \<or> s' = snd (f u) \<and> (r = None \<or> r = Some (fst (f u)))"
    by (rule rcall_runs [OF assms(1)])
  note k = keeps_before [OF u assms(2)]
  from s' show ?thesis using k(1) keeps_trans [OF k(1) assms(3) [OF k(2,1)]] by auto
qed

lemma keeps_lrem_call:
  assumes "rcall (redis_lrem1 now (ek_inflight ks) e) s = (r, s')" and "no_deadline ks s"
    and "envelope_id e = Some rid \<Longrightarrow> outside ks rid_of rid (s, t)"
  shows "keeps ks rid_of rid (s, t) (s', t)"
proof (rule keeps_rcall [OF assms(1,2)])
  fix u assume u: "no_deadline ks u" and k: "keeps ks rid_of rid (s, t) (u, t)"
  show "keeps ks rid_of rid (u, t) (snd (redis_lrem1 now (ek_inflight ks) e u), t)"
    by (rule keeps_lrem [OF u]) (use k assms(3) in \<open>simp add: keeps_def\<close>)
qed

lemma keeps_keeps_event: "keeps ks rid_of rid a b \<Longrightarrow> keeps_event ks rid_of rid a b"
  by (simp add: keeps_def keeps_event_def)

lemma keeps_event_trans [trans]: "keeps_event ks rid_of rid a b \<Longrightarrow> keeps_event ks rid_of rid b c \<Longrightarrow> keeps_event ks rid_of rid a c"
  by (auto simp: keeps_event_def)

section \<open>The worker's steps\<close>

lemma keeps_claim:
  assumes "no_deadline ks s"
  shows "keeps_event ks rid_of rid (s, t) (snd (lua_claim_event now (ek_queue ks) (ek_inflight ks) n s), t)"
proof -
  let ?q = "ek_queue ks" and ?i = "ek_inflight ks"
  have alive: "\<not> expired now ?q s" "\<not> expired now ?i s" using no_deadline_alive [OF assms] by auto
  show ?thesis
  proof (cases "r_lists s ?q")
    case Nil
    then have "snd (lua_claim_event now ?q ?i n s) = s"
      using alive by (simp add: lua_claim_event_def redis_lpop_def evict_if_expired_def)
    then show ?thesis using keeps_keeps_event [OF keeps_refl] assms by simp
  next
    case (Cons x xs)
    let ?u = "s\<lparr>r_lists := (r_lists s)(?q := xs)\<rparr>"
    have "\<not> expired now ?i ?u" using alive(2) by (simp add: expired_def)
    then have eq: "snd (lua_claim_event now ?q ?i n s) = ?u\<lparr>r_lists := (r_lists ?u)(?i := r_lists ?u ?i @ [make_envelope x n])\<rparr>"
      using alive Cons by (simp add: lua_claim_event_def redis_lpop_def evict_if_expired_def Let_def rpush_alive)
    have "envelope_id (make_envelope x n) = event_id x"
      using decode_make_envelope [of x n] by (simp add: envelope_id_def)
    with Cons assms show ?thesis unfolding eq
      by (auto simp: keeps_event_def no_deadline_def outside_def accounted_def)
  qed
qed

lemma claim_loop_keeps:
  assumes "claim_loop now clock (ek_queue ks) (ek_inflight ks) n claimed s = (r, s')"
    and "no_deadline ks s" and "\<forall>c\<in>set claimed. sound_claim c"
  shows "keeps_event ks rid_of rid (s, t) (s', t) \<and> (\<forall>cs. r = Some cs \<longrightarrow> (\<forall>c\<in>set cs. sound_claim c))"
  using assms
proof (induction n arbitrary: claimed s)
  case 0
  then show ?case using keeps_keeps_event [OF keeps_refl] by auto
next
  case (Suc n)
  let ?f = "lua_claim_event now (ek_queue ks) (ek_inflight ks) (clock n)"
  obtain res s1 where call: "rcall ?f s = (res, s1)" by (cases "rcall ?f s")
  obtain u where u: "u = s \<or> (\<exists>ws. u = s\<lparr>r_wire := ws\<rparr>)"
    and s1: "s1 = u \<and> res = None \<or> s1 = snd (?f u) \<and> (res = None \<or> res = Some (fst (?f u)))"
    by (rule rcall_runs [OF call])
  note ku = keeps_before [OF u Suc.prems(2)]
  have k1: "keeps_event ks rid_of rid (s, t) (s1, t)"
    using s1 keeps_keeps_event [OF ku(1)] keeps_event_trans [OF keeps_keeps_event [OF ku(1)] keeps_claim [OF ku(2)]] by auto
  then have nd: "no_deadline ks s1" by (simp add: keeps_event_def)
  show ?case
  proof (cases res)
    case None
    with Suc.prems(1) call k1 show ?thesis by auto
  next
    case (Some e)
    show ?thesis
    proof (cases e)
      case None
      with Some Suc.prems call k1 show ?thesis by auto
    next
      case Some2: (Some envelope)
      let ?claimed = "case decode_claimed envelope of None \<Rightarrow> claimed | Some c \<Rightarrow> claimed @ [c]"
      have run: "claim_loop now clock (ek_queue ks) (ek_inflight ks) n ?claimed s1 = (r, s')"
        using Suc.prems(1) call Some Some2 by simp
      have "\<forall>c\<in>set ?claimed. sound_claim c"
        using Suc.prems(3) decode_claimed_envelope by (auto simp: sound_claim_def split: option.splits)
      from Suc.IH [OF run nd this] k1 show ?thesis using keeps_event_trans by blast
    qed
  qed
qed

lemma claim_batch_keeps:
  assumes "claim_batch now clock (ek_queue ks) (ek_inflight ks) n s = (claimed, s')" and "no_deadline ks s"
  shows "keeps_event ks rid_of rid (s, t) (s', t) \<and> (\<forall>c\<in>set claimed. sound_claim c)"
  using assms claim_loop_keeps [of now clock n "[]" s _ s' rid t]
  by (auto simp: claim_batch_def split: prod.splits option.splits)

lemma ack_keeps:
  assumes "no_deadline ks s" and "\<forall>c\<in>set items. envelope_id (ce_envelope c) = Some rid \<longrightarrow> outside ks rid_of rid (s, t)"
  shows "keeps ks rid_of rid (s, t) (snd (ack_claimed now (ek_inflight ks) items s), t)"
  using assms
proof (induction items arbitrary: s)
  case Nil
  then show ?case by (simp add: keeps_refl)
next
  case (Cons c items)
  let ?f = "redis_lrem1 now (ek_inflight ks) (ce_envelope c)"
  obtain res s1 where call: "rcall ?f s = (res, s1)" by (cases "rcall ?f s")
  have k: "keeps ks rid_of rid (s, t) (s1, t)"
    by (rule keeps_lrem_call [OF call Cons.prems(1)]) (use Cons.prems(2) in simp)
  then have nd: "no_deadline ks s1" and out: "\<forall>c\<in>set items. envelope_id (ce_envelope c) = Some rid \<longrightarrow> outside ks rid_of rid (s1, t)"
    using Cons.prems(2) by (auto simp: keeps_def)
  show ?case
  proof (cases res)
    case None
    with call k show ?thesis by simp
  next
    case (Some n)
    then have "snd (ack_claimed now (ek_inflight ks) (c # items) s) = snd (ack_claimed now (ek_inflight ks) items s1)"
      using call by (simp split: prod.splits)
    with keeps_trans [OF k Cons.IH [OF nd out]] show ?thesis by simp
  qed
qed

text \<open>Push the event somewhere outside, then drop its envelope: retry and dead-lettering.\<close>

lemma push_drop_keeps:
  assumes "rcall (ruse (redis_rpush now k v)) s = (r1, s1)" and "no_deadline ks s"
    and "k \<in> {(ek_queue ks), (ek_dlq ks)}"
    and "envelope_id e = Some rid \<Longrightarrow> event_id v = Some rid"
  shows "keeps ks rid_of rid (s, t) (s1, t)"
    and "r1 \<noteq> None \<Longrightarrow> rcall (redis_lrem1 now (ek_inflight ks) e) s1 = (r2, s2) \<Longrightarrow> keeps ks rid_of rid (s, t) (s2, t)"
proof -
  obtain u where u: "u = s \<or> (\<exists>ws. u = s\<lparr>r_wire := ws\<rparr>)"
    and s1: "s1 = u \<and> r1 = None \<or> s1 = snd (ruse (redis_rpush now k v) u) \<and> (r1 = None \<or> r1 = Some (fst (ruse (redis_rpush now k v) u)))"
    by (rule rcall_runs [OF assms(1)])
  note ku = keeps_before [OF u assms(2)]
  have push: "keeps ks rid_of rid (s, t) (redis_rpush now k v u, t)"
    using keeps_trans [OF ku(1) keeps_rpush(1) [OF ku(2) assms(3)]] .
  then show k1: "keeps ks rid_of rid (s, t) (s1, t)" using s1 ku(1) by (auto simp: ruse_def)
  show "keeps ks rid_of rid (s, t) (s2, t)" if ok: "r1 \<noteq> None" and call2: "rcall (redis_lrem1 now (ek_inflight ks) e) s1 = (r2, s2)"
  proof -
    have eq: "s1 = redis_rpush now k v u" using s1 ok by (auto simp: ruse_def)
    have out: "envelope_id e = Some rid \<Longrightarrow> outside ks rid_of rid (s1, t)"
      unfolding eq using keeps_rpush(2) [OF ku(2) assms(3)] assms(4) by blast
    have nd: "no_deadline ks s1" using k1 by (simp add: keeps_def)
    have "keeps ks rid_of rid (s1, t) (s2, t)"
      by (rule keeps_lrem_call [OF call2 nd out])
    with k1 show ?thesis by (rule keeps_trans)
  qed
qed

lemma dlq_claimed_keeps:
  assumes "no_deadline ks s" and "\<forall>c\<in>set items. sound_claim c"
  shows "keeps ks rid_of rid (s, t) (dlq_claimed now (ek_inflight ks) (ek_dlq ks) items s, t)"
  using assms
proof (induction items arbitrary: s)
  case Nil
  then show ?case by (simp add: keeps_refl)
next
  case (Cons c items)
  obtain r1 s1 where c1: "rcall (ruse (redis_rpush now (ek_dlq ks) (ce_raw c))) s = (r1, s1)" by force
  have ev: "envelope_id (ce_envelope c) = Some rid \<Longrightarrow> event_id (ce_raw c) = Some rid"
    using Cons.prems(2) by (simp add: sound_claim_def)
  note pd = push_drop_keeps [where e = "ce_envelope c", OF c1 Cons.prems(1) _ ev]
  show ?case
  proof (cases r1)
    case None
    with c1 pd(1) show ?thesis by simp
  next
    case (Some x)
    obtain r2 s2 where c2: "rcall (redis_lrem1 now (ek_inflight ks) (ce_envelope c)) s1 = (r2, s2)" by force
    have k: "keeps ks rid_of rid (s, t) (s2, t)" using pd(2) [OF _ _ _ c2] Some by simp
    then have nd: "no_deadline ks s2" by (simp add: keeps_def)
    show ?thesis
    proof (cases r2)
      case None
      with c1 c2 Some k show ?thesis by simp
    next
      case (Some y)
      with c1 c2 \<open>r1 = Some x\<close> keeps_trans [OF k Cons.IH [OF nd]] Cons.prems(2) show ?thesis by simp
    qed
  qed
qed

lemma retry_keeps:
  assumes "no_deadline ks s" and "\<forall>c\<in>set items. sound_claim c"
  shows "keeps ks rid_of rid (s, t) (retry_or_dlq_claimed now (ek_queue ks) (ek_inflight ks) (ek_dlq ks) mx items s, t)"
  using assms
proof (induction items arbitrary: s)
  case Nil
  then show ?case by (simp add: keeps_refl)
next
  case (Cons c items)
  show ?case
  proof (cases "increment_attempt (ce_raw c)")
    case None
    then show ?thesis using Cons.prems(1) by (simp add: keeps_refl)
  next
    case (Some p)
    then obtain payload n where inc: "increment_attempt (ce_raw c) = Some (payload, n)" by (cases p) auto
    let ?k = "if mx \<le> n then (ek_dlq ks) else (ek_queue ks)"
    obtain r1 s1 where c1: "rcall (ruse (redis_rpush now ?k payload)) s = (r1, s1)" by force
    have ev: "envelope_id (ce_envelope c) = Some rid \<Longrightarrow> event_id payload = Some rid"
      using Cons.prems(2) increment_attempt_id [OF inc, of rid] by (auto simp: sound_claim_def)
    note pd = push_drop_keeps [where e = "ce_envelope c", OF c1 Cons.prems(1) _ ev]
    show ?thesis
    proof (cases r1)
      case None
      with c1 inc pd(1) show ?thesis by simp
    next
      case (Some x)
      obtain r2 s2 where c2: "rcall (redis_lrem1 now (ek_inflight ks) (ce_envelope c)) s1 = (r2, s2)" by force
      have k: "keeps ks rid_of rid (s, t) (s2, t)" using pd(2) [OF _ _ _ c2] Some by simp
      then have nd: "no_deadline ks s2" by (simp add: keeps_def)
      show ?thesis
      proof (cases r2)
        case None
        with c1 c2 Some inc k show ?thesis by simp
      next
        case (Some y)
        with c1 c2 inc \<open>r1 = Some x\<close> keeps_trans [OF k Cons.IH [OF nd]] Cons.prems(2) show ?thesis by simp
      qed
    qed
  qed
qed

section \<open>Recovery\<close>

lemma move_out_keeps:
  assumes "no_deadline ks s" and "k \<in> {(ek_queue ks), (ek_dlq ks)}"
    and "envelope_id e = Some rid \<Longrightarrow> event_id v = Some rid \<or> (k = (ek_dlq ks) \<and> envelope_id v = Some rid)"
  shows "keeps ks rid_of rid (s, t) (snd (redis_lrem1 now (ek_inflight ks) e (redis_rpush now k v s)), t)"
proof -
  have k: "keeps ks rid_of rid (s, t) (redis_rpush now k v s, t)" by (rule keeps_rpush(1) [OF assms(1,2)])
  then have nd: "no_deadline ks (redis_rpush now k v s)" by (simp add: keeps_def)
  have "keeps ks rid_of rid (redis_rpush now k v s, t) (snd (redis_lrem1 now (ek_inflight ks) e (redis_rpush now k v s)), t)"
    by (rule keeps_lrem [OF nd]) (use assms(3) keeps_rpush(2) [OF assms(1,2)] in blast)
  with k show ?thesis by (rule keeps_trans)
qed

lemma recover_loop_keeps:
  assumes "no_deadline ks s"
  shows "keeps ks rid_of rid (s, t)
    (snd (recover_loop now (ek_inflight ks) (ek_queue ks) (ek_dlq ks) cutoff es n s), t)"
  using assms
proof (induction es arbitrary: n s)
  case Nil
  then show ?case by (cases n) (simp add: keeps_refl)
next
  case (Cons e es)
  obtain a b where n: "n = (a, b)" by force
  let ?go = "\<lambda>n s. snd (recover_loop now (ek_inflight ks) (ek_queue ks) (ek_dlq ks) cutoff es n s)"
  have step: "keeps ks rid_of rid (s, t) (?go m s1, t)" if "keeps ks rid_of rid (s, t) (s1, t)" for m s1
  proof -
    have "no_deadline ks s1" using that by (simp add: keeps_def)
    from keeps_trans [OF that Cons.IH [OF this]] show ?thesis .
  qed
  show ?case
  proof (cases "recovery_of cutoff e")
    case RecDlq
    have "keeps ks rid_of rid (s, t) (snd (redis_lrem1 now (ek_inflight ks) e (redis_rpush now (ek_dlq ks) e s)), t)"
      by (rule move_out_keeps [OF Cons.prems]) auto
    from step [OF this] RecDlq n show ?thesis by simp
  next
    case (RecRequeue p)
    have "keeps ks rid_of rid (s, t) (snd (redis_lrem1 now (ek_inflight ks) e (redis_rpush now (ek_queue ks) p s)), t)"
      by (rule move_out_keeps [OF Cons.prems]) (use recovery_of_id [OF RecRequeue] in auto)
    from step [OF this] RecRequeue n show ?thesis by simp
  next
    case RecKeep
    from step [OF keeps_refl] Cons.prems RecKeep n show ?thesis by simp
  next
    case RecError
    with n Cons.prems show ?thesis by (simp add: keeps_refl)
  qed
qed

lemma recover_stale_keeps:
  assumes "no_deadline ks s"
  shows "keeps ks rid_of rid (s, t)
    (snd (recover_stale_claims now (ek_queue ks) (ek_inflight ks) (ek_dlq ks) secs s), t)"
proof -
  let ?f = "lua_recover_stale now (ek_inflight ks) (ek_queue ks) (ek_dlq ks) (now - secs * 1000)"
  obtain r s1 where call: "rcall ?f s = (r, s1)" by (cases "rcall ?f s")
  have "keeps ks rid_of rid (s, t) (s1, t)"
    by (rule keeps_rcall [OF call assms]) (simp add: lua_recover_stale_def recover_loop_keeps)
  moreover have "snd (recover_stale_claims now (ek_queue ks) (ek_inflight ks) (ek_dlq ks) secs s) = s1"
    using call by (simp add: recover_stale_claims_def split: option.splits prod.splits)
  ultimately show ?thesis by simp
qed


lemma outside_more_rows: "outside ks rid_of rid (s, t) \<Longrightarrow> set t \<subseteq> set t' \<Longrightarrow> outside ks rid_of rid (s, t')"
  by (auto simp: outside_def)

lemma accounted_more_rows: "accounted ks rid_of rid (s, t) \<Longrightarrow> set t \<subseteq> set t' \<Longrightarrow> accounted ks rid_of rid (s, t')"
  using outside_more_rows by (auto simp: accounted_def)

end

lemma parsed_event_id:
  "event_id (ce_raw c) = Some rid \<Longrightarrow> \<exists>d. parse_record c = Some d \<and> dget ''request_id'' d = JStr rid"
  by (auto simp: event_id_def parse_record_def split: option.splits json.splits)

section \<open>Writing the rows\<close>

lemma insert_keeps_rows:
  "insert_ignore_conflicts rid_of rows table = (n, table') \<Longrightarrow> set table \<subseteq> set table'
     \<and> (\<forall>row\<in>set rows. rid_of row \<noteq> JNull \<longrightarrow> rid_of row \<in> rid_of ` set table')"
proof (induction rid_of rows table arbitrary: n rule: insert_ignore_conflicts.induct)
  case (2 rid_of row rows table)
  show ?case
  proof (cases "conflicts rid_of table row")
    case True
    with 2 show ?thesis by (auto simp: conflicts_def)
  next
    case False
    obtain m where m: "insert_ignore_conflicts rid_of rows (table @ [row]) = (m, table')"
      using False "2.prems" by (auto split: prod.splits)
    from "2.IH"(2) [OF False m] show ?thesis by auto
  qed
qed simp

lemma batch_rows_cover:
  assumes id: "\<And>i d row. to_row i d = Some row \<Longrightarrow> rid_of row = dget ''request_id'' d" and "batch_rows to_row ids i seen records = Some rows" and "d \<in> set records" and "dget ''request_id'' d = JStr r"
  shows "(r \<noteq> [] \<and> r \<in> set seen) \<or> (\<exists>row\<in>set rows. request_id_text (rid_of row) = r \<and> rid_of row \<noteq> JNull)"
  using assms(2-)
proof (induction records arbitrary: i seen rows)
  case (Cons d' records)
  let ?rid = "dget ''request_id'' d'"
  show ?case
  proof (cases "truthy ?rid \<and> request_id_text ?rid \<in> set seen")
    case True
    then have "batch_rows to_row ids i seen records = Some rows" using Cons.prems(1) by (simp add: Let_def)
    from Cons.IH [OF this] Cons.prems(2,3) True show ?thesis by (auto simp: request_id_text_def)
  next
    case False
    let ?seen = "if truthy ?rid then request_id_text ?rid # seen else seen"
    obtain row rest where row: "to_row (ids i) d' = Some row"
      and rest: "batch_rows to_row ids (Suc i) ?seen records = Some rest" and rows: "rows = row # rest"
      using Cons.prems(1) False by (auto simp: Let_def split: option.splits)
    have rid: "rid_of row = ?rid" by (rule id [OF row])
    show ?thesis
    proof (cases "d = d'")
      case True
      with rid rows Cons.prems(3) show ?thesis by (auto simp: request_id_text_def)
    next
      case False2: False
      with Cons.prems(2) have "d \<in> set records" by simp
      from Cons.IH [OF rest this Cons.prems(3)] rid rows show ?thesis
        by (auto split: if_splits)
    qed
  qed
qed simp

text \<open>What both writers do with a batch: every record is in the table afterwards, and no row is lost.\<close>

lemma batch_covered:
  assumes "\<And>i d row. to_row i d = Some row \<Longrightarrow> rid_of row = dget ''request_id'' d" and "batch_rows to_row ids 0 [] records = Some rows"
    and "list_all (request_id_typed rid_of) rows" and "insert_ignore_conflicts rid_of rows table = (n, table')"
  shows "set table \<subseteq> set table'"
    and "d \<in> set records \<Longrightarrow> dget ''request_id'' d = JStr r \<Longrightarrow> \<exists>row\<in>set table'. rid_of row = JStr r"
proof -
  note keep = insert_keeps_rows [OF assms(4)]
  then show "set table \<subseteq> set table'" by blast
  assume d: "d \<in> set records" "dget ''request_id'' d = JStr r"
  have "(r \<noteq> [] \<and> r \<in> set []) \<or> (\<exists>row\<in>set rows. request_id_text (rid_of row) = r \<and> rid_of row \<noteq> JNull)"
    by (rule batch_rows_cover [OF _ assms(2) d]) (rule assms(1))
  then obtain row where row: "row \<in> set rows" "request_id_text (rid_of row) = r" "rid_of row \<noteq> JNull" by auto
  then have "request_id_typed rid_of row" using assms(3) by (simp add: list_all_iff)
  with row have "rid_of row = JStr r"
    by (auto simp: request_id_typed_def request_id_text_def split: json.splits)
  with keep row show "\<exists>row\<in>set table'. rid_of row = JStr r" by fastforce
qed

text \<open>A request id the column does not take is in the rows of every batch its event is in, which the database then refuses.\<close>

lemma long_request_id_refused:
  assumes "\<And>i d row. to_row i d = Some row \<Longrightarrow> rid_of row = dget ''request_id'' d" and "batch_rows to_row ids 0 [] records = Some rows"
    and "d \<in> set records" and "dget ''request_id'' d = JStr r" and "64 < length r"
  shows "\<not> list_all (request_id_typed rid_of) rows"
proof -
  have "(r \<noteq> [] \<and> r \<in> set []) \<or> (\<exists>row\<in>set rows. request_id_text (rid_of row) = r \<and> rid_of row \<noteq> JNull)"
    by (rule batch_rows_cover [OF _ assms(2-4)]) (rule assms(1))
  then obtain row where row: "row \<in> set rows" "request_id_text (rid_of row) = r" "rid_of row \<noteq> JNull" by auto
  with assms(5) have "\<not> request_id_typed rid_of row"
    by (auto simp: request_id_typed_def request_id_text_def split: json.splits)
  with row(1) show ?thesis by (auto simp: list_all_iff)
qed

definition unique_requests :: "('row \<Rightarrow> json) \<Rightarrow> 'row list \<Rightarrow> bool" where
  "unique_requests rid_of table \<longleftrightarrow> distinct (filter (\<lambda>r. r \<noteq> JNull) (map rid_of table))"

lemma insert_unique:
  assumes "insert_ignore_conflicts rid_of rows table = (n, table')" and "unique_requests rid_of table"
  shows "unique_requests rid_of table' \<and> n = int (length table') - int (length table) \<and> (\<exists>new. table' = table @ new)"
  using assms
proof (induction rid_of rows table arbitrary: n rule: insert_ignore_conflicts.induct)
  case (2 rid_of row rows table)
  show ?case
  proof (cases "conflicts rid_of table row")
    case True
    with 2 show ?thesis by simp
  next
    case False
    obtain m where m: "insert_ignore_conflicts rid_of rows (table @ [row]) = (m, table')" and n: "n = m + 1"
      using False "2.prems"(1) by (auto split: prod.splits)
    have "unique_requests rid_of (table @ [row])"
      using False "2.prems"(2) by (auto simp: unique_requests_def conflicts_def)
    from "2.IH"(2) [OF False m this] n show ?thesis by auto
  qed
qed simp

lemma insert_again:
  assumes "\<forall>row\<in>set rows. rid_of row \<noteq> JNull \<and> rid_of row \<in> rid_of ` set table"
  shows "insert_ignore_conflicts rid_of rows table = (0, table)"
  using assms by (induction rows) (auto simp: conflicts_def)

section \<open>The worker\<close>

text \<open>A run of a batch worker: recovery, claims, dead letters for what is no object, one insert, acknowledgement or retry.\<close>

definition flush_batch ::
  "event_keys \<Rightarrow> ((string \<times> json) list list \<Rightarrow> 'row list \<Rightarrow> (int \<times> 'row list) option) \<Rightarrow> int \<Rightarrow> (nat \<Rightarrow> int) \<Rightarrow> redis \<times> 'row list
     \<Rightarrow> int \<times> redis \<times> 'row list" where
  "flush_batch ks bulk now clock st =
     (case st of (s0, table) \<Rightarrow>
       (let s1 = snd (recover_stale_claims now (ek_queue ks) (ek_inflight ks) (ek_dlq ks) DEFAULT_INFLIGHT_STALE_SECONDS s0);
            (claimed, s2) = claim_batch now clock (ek_queue ks) (ek_inflight ks) DEFAULT_BATCH_SIZE s1
        in if claimed = [] then (0, s2, table)
           else
             (let records = List.map_filter parse_record claimed;
                  valid_claims = filter (\<lambda>c. parse_record c \<noteq> None) claimed;
                  unparseable = filter (\<lambda>c. parse_record c = None) claimed;
                  s3 = (if unparseable \<noteq> [] then dlq_claimed now (ek_inflight ks) (ek_dlq ks) unparseable s2 else s2)
              in if records = [] then (0, s3, table)
                 else (case bulk records table of
                         None \<Rightarrow>
                           (0, retry_or_dlq_claimed now (ek_queue ks) (ek_inflight ks) (ek_dlq ks) MAX_RETRY_ATTEMPTS valid_claims s3, table)
                       | Some (written, table') \<Rightarrow> (written, snd (ack_claimed now (ek_inflight ks) valid_claims s3), table')))))"

locale batch_worker = event_lists ks rid_of for ks :: event_keys and rid_of :: "'row \<Rightarrow> json" +
  fixes bulk :: "(string \<times> json) list list \<Rightarrow> 'row list \<Rightarrow> (int \<times> 'row list) option"
  assumes bulk_more: "bulk records table = Some (n, table') \<Longrightarrow> set table \<subseteq> set table'"
    and bulk_covers: "bulk records table = Some (n, table') \<Longrightarrow> d \<in> set records \<Longrightarrow> dget ''request_id'' d = JStr r
      \<Longrightarrow> \<exists>row\<in>set table'. rid_of row = JStr r"
begin

lemma flush_keeps_event:
  assumes "no_deadline ks s" and "flush_batch ks bulk now clock (s, t) = (n, s', t')"
  shows "keeps_event ks rid_of rid (s, t) (s', t')"
proof -
  let ?s1 = "snd (recover_stale_claims now (ek_queue ks) (ek_inflight ks) (ek_dlq ks) DEFAULT_INFLIGHT_STALE_SECONDS s)"
  have k1: "keeps_event ks rid_of rid (s, t) (?s1, t)"
    using recover_stale_keeps [OF assms(1)] by (intro keeps_keeps_event)
  then have nd1: "no_deadline ks ?s1" by (simp add: keeps_event_def)
  obtain claimed s2 where cl: "claim_batch now clock (ek_queue ks) (ek_inflight ks) DEFAULT_BATCH_SIZE ?s1 = (claimed, s2)"
    by (cases "claim_batch now clock (ek_queue ks) (ek_inflight ks) DEFAULT_BATCH_SIZE ?s1")
  have k2: "keeps_event ks rid_of rid (s, t) (s2, t)" and sound: "\<forall>c\<in>set claimed. sound_claim c"
    using claim_batch_keeps [OF cl nd1] k1 keeps_event_trans by blast+
  then have nd2: "no_deadline ks s2" by (simp add: keeps_event_def)
  let ?valid = "filter (\<lambda>c. parse_record c \<noteq> None) claimed" and ?bad = "filter (\<lambda>c. parse_record c = None) claimed"
  let ?records = "List.map_filter parse_record claimed"
  define s3 where "s3 = (if ?bad \<noteq> [] then dlq_claimed now (ek_inflight ks) (ek_dlq ks) ?bad s2 else s2)"
  have k3: "keeps_event ks rid_of rid (s, t) (s3, t)"
  proof (cases "?bad = []")
    case True
    then have "s3 = s2" by (simp add: s3_def)
    with k2 show ?thesis by simp
  next
    case False
    then have eq: "s3 = dlq_claimed now (ek_inflight ks) (ek_dlq ks) ?bad s2" by (simp add: s3_def)
    have "\<forall>c\<in>set ?bad. sound_claim c" using sound by auto
    from keeps_event_trans [OF k2 keeps_keeps_event [OF dlq_claimed_keeps [OF nd2 this]]] show ?thesis by (simp add: eq)
  qed
  then have nd3: "no_deadline ks s3" by (simp add: keeps_event_def)
  show ?thesis
  proof (cases "claimed = [] \<or> ?records = []")
    case True
    then have "t' = t \<and> (s' = s2 \<or> s' = s3)"
      using assms(2) cl s3_def by (auto simp: flush_batch_def Let_def split: if_splits)
    with k2 k3 show ?thesis by auto
  next
    case False
    show ?thesis
    proof (cases "bulk ?records t")
      case None
      then have eq: "s' = retry_or_dlq_claimed now (ek_queue ks) (ek_inflight ks) (ek_dlq ks) MAX_RETRY_ATTEMPTS ?valid s3" "t' = t"
        using assms(2) cl False s3_def by (auto simp: flush_batch_def Let_def)
      have "\<forall>c\<in>set ?valid. sound_claim c" using sound by auto
      from keeps_event_trans [OF k3 keeps_keeps_event [OF retry_keeps [OF nd3 this]]] show ?thesis by (simp add: eq)
    next
      case (Some r)
      then obtain w table' where ins: "bulk ?records t = Some (w, table')" by (cases r) auto
      then have eq: "s' = snd (ack_claimed now (ek_inflight ks) ?valid s3)" "t' = table'"
        using assms(2) cl False s3_def by (auto simp: flush_batch_def Let_def)
      note more = bulk_more [OF ins]
      have k4: "keeps_event ks rid_of rid (s3, t) (s3, table')"
        using nd3 accounted_more_rows more by (auto simp: keeps_event_def)
      have "\<forall>c\<in>set ?valid. envelope_id (ce_envelope c) = Some rid \<longrightarrow> outside ks rid_of rid (s3, table')"
      proof (intro ballI impI)
        fix c assume c: "c \<in> set ?valid" "envelope_id (ce_envelope c) = Some rid"
        then have "event_id (ce_raw c) = Some rid" using sound by (auto simp: sound_claim_def)
        then obtain d where d: "parse_record c = Some d" "dget ''request_id'' d = JStr rid"
          using parsed_event_id by blast
        with c have "d \<in> set ?records" by (force simp: List.map_filter_def)
        with bulk_covers [OF ins] d(2) show "outside ks rid_of rid (s3, table')" by (auto simp: outside_def)
      qed
      from keeps_keeps_event [OF ack_keeps [OF nd3 this]] show ?thesis
        unfolding eq using keeps_event_trans [OF keeps_event_trans [OF k3 k4]] by blast
    qed
  qed
qed

end

end
