(* ===== verification/EventSafety.thy ===== *)
theory EventSafety
  imports EventLists
begin

text \<open>
  The batch workers lose no event and write no row twice: the usage and the log lists and tables as instances of \<open>EventLists\<close>; recovery
  moves a stale claim once, and retries are bounded.
\<close>

section \<open>The usage worker\<close>

definition usage_keys :: event_keys where
  "usage_keys = \<lparr>ek_queue = USAGE_QUEUE_KEY, ek_inflight = USAGE_INFLIGHT_KEY, ek_dlq = USAGE_DLQ_KEY\<rparr>"

lemma to_usage_row_id: "to_usage_row i d = Some row \<Longrightarrow> ur_request_id row = dget ''request_id'' d"
  by (auto simp: to_usage_row_def split: option.splits)

lemma flush_usage_is_batch: "flush_usage_records now clock db_ok ids st = flush_batch usage_keys (bulk_insert_usage db_ok ids) now clock st"
  unfolding flush_usage_records_def flush_batch_def usage_keys_def event_keys.select_convs by (rule refl)

interpretation usage_worker: batch_worker usage_keys ur_request_id "bulk_insert_usage db_ok ids" for db_ok ids
proof
  show "ek_queue usage_keys \<noteq> ek_inflight usage_keys" "ek_queue usage_keys \<noteq> ek_dlq usage_keys" "ek_inflight usage_keys \<noteq> ek_dlq usage_keys"
    by (simp_all add: usage_keys_def event_keys)
  fix records :: "(string \<times> json) list list" and table table' n d r
  assume "bulk_insert_usage db_ok ids records table = Some (n, table')"
  then obtain rows where rows: "batch_rows to_usage_row ids 0 [] records = Some rows" "list_all (request_id_typed ur_request_id) rows"
    "insert_ignore_conflicts ur_request_id rows table = (n, table')"
    by (auto simp: bulk_insert_usage_def split: option.splits if_splits)
  note covered = batch_covered [where to_row = to_usage_row and rid_of = ur_request_id, OF to_usage_row_id rows]
  show "set table \<subseteq> set table'" by (rule covered(1))
  show "d \<in> set records \<Longrightarrow> dget ''request_id'' d = JStr r \<Longrightarrow> \<exists>row\<in>set table'. ur_request_id row = JStr r" by (rule covered(2))
qed

lemmas usage_flush_keeps = usage_worker.flush_keeps_event [folded flush_usage_is_batch]


definition sample_event :: string where
  "sample_event = dumps (JObj [(''request_id'', JStr ''r1''), (''user_id'', JInt 7), (''logical_model_id'', JInt 3)])"

lemma sample_event_id: "event_id sample_event = Some ''r1''"
proof -
  have "json_wf (JObj [(''request_id'', JStr ''r1''), (''user_id'', JInt 7), (''logical_model_id'', JInt 3)])" by simp
  from loads_dumps [OF this] show ?thesis by (simp add: event_id_def sample_event_def dget_def)
qed

definition sample_queue :: redis where
  "sample_queue = empty_redis\<lparr>r_lists := (\<lambda>k. if k = USAGE_QUEUE_KEY then [sample_event] else []),
     r_wire := [WOk, WUnacked, WLost]\<rparr>"


section \<open>The log worker\<close>

definition log_keys :: event_keys where
  "log_keys = \<lparr>ek_queue = LOG_QUEUE_KEY, ek_inflight = LOG_INFLIGHT_KEY, ek_dlq = LOG_DLQ_KEY\<rparr>"

lemma to_log_row_id: "Some (to_log_row i d) = Some row \<Longrightarrow> lr_request_id row = dget ''request_id'' d"
  by (auto simp: to_log_row_def)

lemma flush_logs_is_batch: "flush_gateway_logs now clock db_ok ids st = flush_batch log_keys (bulk_insert_logs db_ok ids) now clock st"
  unfolding flush_gateway_logs_def flush_batch_def log_keys_def event_keys.select_convs by (rule refl)

interpretation log_worker: batch_worker log_keys lr_request_id "bulk_insert_logs db_ok ids" for db_ok ids
proof
  show "ek_queue log_keys \<noteq> ek_inflight log_keys" "ek_queue log_keys \<noteq> ek_dlq log_keys" "ek_inflight log_keys \<noteq> ek_dlq log_keys"
    by (simp_all add: log_keys_def event_keys)
  fix records :: "(string \<times> json) list list" and table table' n d r
  assume "bulk_insert_logs db_ok ids records table = Some (n, table')"
  then obtain rows where rows: "batch_rows (\<lambda>i d. Some (to_log_row i d)) ids 0 [] records = Some rows"
    "list_all (request_id_typed lr_request_id) rows" "insert_ignore_conflicts lr_request_id rows table = (n, table')"
    by (auto simp: bulk_insert_logs_def list_all_iff split: option.splits if_splits)
  note covered = batch_covered [where to_row = "\<lambda>i d. Some (to_log_row i d)" and rid_of = lr_request_id, OF to_log_row_id rows]
  show "set table \<subseteq> set table'" by (rule covered(1))
  show "d \<in> set records \<Longrightarrow> dget ''request_id'' d = JStr r \<Longrightarrow> \<exists>row\<in>set table'. lr_request_id row = JStr r" by (rule covered(2))
qed

lemma log_flush_loses_nothing:
  assumes "no_deadline log_keys s" and "flush_gateway_logs now clock db_ok ids (s, t) = (n, s', t')"
    and "accounted log_keys lr_request_id rid (s, t)"
  shows "accounted log_keys lr_request_id rid (s', t') \<and> no_deadline log_keys s'"
  using log_worker.flush_keeps_event [OF assms(1) assms(2) [unfolded flush_logs_is_batch], of rid] assms(3) by (simp add: keeps_event_def)

section \<open>A batch that is never written\<close>

text \<open>
  Both writers insert a batch whole. The request id is the one the client sends in \<open>x-request-id\<close>, of any length, and the column takes 64
  characters: an event with a longer one keeps every event it is claimed with out of the table, and its retries do so again.
\<close>

lemma long_request_id_blocks_batch:
  assumes "d \<in> set records" and "dget ''request_id'' d = JStr r" and "64 < length r"
  shows "bulk_insert_usage db_ok ids records table = None" and "bulk_insert_logs db_ok ids records logs = None"
  using long_request_id_refused [where to_row = to_usage_row and rid_of = ur_request_id, OF to_usage_row_id _ assms]
    long_request_id_refused [where to_row = "\<lambda>i d. Some (to_log_row i d)" and rid_of = lr_request_id, OF to_log_row_id _ assms]
  by (fastforce simp: bulk_insert_usage_def bulk_insert_logs_def list_all_iff split: option.splits)+

section \<open>No row twice\<close>

text \<open>
  Writing a batch is idempotent. The insert keeps the request ids of the table unique and reports
  exactly the rows it added; writing the same rows again, as a second worker or a recovered claim
  does, adds nothing and reports 0.
\<close>

theorem usage_insert_idempotent:
  assumes "insert_ignore_conflicts ur_request_id rows table = (n, table')" and "unique_requests ur_request_id table"
  shows "unique_requests ur_request_id table' \<and> n = int (length table') - int (length table)
    \<and> ((\<forall>row\<in>set rows. ur_request_id row \<noteq> JNull) \<longrightarrow> insert_ignore_conflicts ur_request_id rows table' = (0, table'))"
proof -
  have "insert_ignore_conflicts ur_request_id rows table' = (0, table')" if "\<forall>row\<in>set rows. ur_request_id row \<noteq> JNull"
    by (rule insert_again) (use that insert_keeps_rows [OF assms(1)] in blast)
  with insert_unique [OF assms] show ?thesis by blast
qed

definition sample_row :: "string \<Rightarrow> usage_row" where
  "sample_row r = \<lparr>ur_id = 1, ur_user_id = JInt 7, ur_api_key_id = JNull, ur_logical_model_id = JInt 3,
     ur_channel_id = JNull, ur_upstream_model = JNull, ur_prompt_tokens = JInt 10, ur_completion_tokens = JInt 5,
     ur_total_tokens = JInt 15, ur_cost = None, ur_status = JStr ''success'', ur_latency_ms = JInt 8,
     ur_request_id = JStr r, ur_downgraded_features = JNull\<rparr>"

theorem usage_insert_idempotent_witness:
  "insert_ignore_conflicts ur_request_id [sample_row ''a'', sample_row ''b''] [sample_row ''a'', sample_row ''b'']
     = (0, [sample_row ''a'', sample_row ''b''])"
proof -
  have run: "insert_ignore_conflicts ur_request_id [sample_row ''a'', sample_row ''b''] [] = (2, [sample_row ''a'', sample_row ''b''])"
    by (simp add: conflicts_def sample_row_def)
  have "unique_requests ur_request_id []" by (simp add: unique_requests_def)
  from usage_insert_idempotent [OF run this] show ?thesis by (simp add: sample_row_def)
qed

section \<open>A stale claim is requeued once\<close>

definition stays :: "int \<Rightarrow> string \<Rightarrow> bool" where
  "stays cutoff e \<longleftrightarrow> recovery_of cutoff e = RecKeep"

definition requeued :: "int \<Rightarrow> string list \<Rightarrow> string list" where
  "requeued cutoff es = List.map_filter (\<lambda>e. case recovery_of cutoff e of RecRequeue p \<Rightarrow> Some p | _ \<Rightarrow> None) es"

lemma recover_loop_lists:
  assumes "recover_loop now i q d cutoff es n s = (Some m, s')" and "i \<noteq> q" "i \<noteq> d" "q \<noteq> d"
    and "redis_lrange now i s = filter (stays cutoff) before @ es"
  shows "redis_lrange now i s' = filter (stays cutoff) (before @ es)
    \<and> redis_lrange now q s' = redis_lrange now q s @ requeued cutoff es"
  using assms
proof (induction es arbitrary: n s before)
  case Nil
  then show ?case by (cases n) (simp add: requeued_def map_filter_simps)
next
  case (Cons e es)
  obtain a b where n: "n = (a, b)" by force
  have gone: "remove1 e (filter (stays cutoff) before @ e # es) = filter (stays cutoff) before @ es"
    if "\<not> stays cutoff e"
    using that by (simp add: remove1_append)
  show ?case
  proof (cases "recovery_of cutoff e")
    case RecDlq
    let ?s = "snd (redis_lrem1 now i e (redis_rpush now d e s))"
    have run: "recover_loop now i q d cutoff es (a, b + 1) ?s = (Some m, s')" using Cons.prems(1) RecDlq n by simp
    have out: "\<not> stays cutoff e" using RecDlq by (simp add: stays_def)
    have l: "redis_lrange now i ?s = filter (stays cutoff) (before @ [e]) @ es"
      using Cons.prems(2-5) gone [OF out] out by simp
    from Cons.IH [OF run Cons.prems(2-4) l] Cons.prems(2-4) RecDlq out show ?thesis
      by (simp add: requeued_def map_filter_simps)
  next
    case (RecRequeue p)
    let ?s = "snd (redis_lrem1 now i e (redis_rpush now q p s))"
    have run: "recover_loop now i q d cutoff es (a + 1, b) ?s = (Some m, s')" using Cons.prems(1) RecRequeue n by simp
    have out: "\<not> stays cutoff e" using RecRequeue by (simp add: stays_def)
    have l: "redis_lrange now i ?s = filter (stays cutoff) (before @ [e]) @ es"
      using Cons.prems(2-5) gone [OF out] out by simp
    from Cons.IH [OF run Cons.prems(2-4) l] Cons.prems(2-4) RecRequeue out show ?thesis
      by (simp add: requeued_def map_filter_simps)
  next
    case RecKeep
    then have run: "recover_loop now i q d cutoff es (a, b) s = (Some m, s')" using Cons.prems(1) n by simp
    have st: "stays cutoff e" using RecKeep by (simp add: stays_def)
    then have l: "redis_lrange now i s = filter (stays cutoff) (before @ [e]) @ es"
      using Cons.prems(5) by simp
    from Cons.IH [OF run Cons.prems(2-4) l] RecKeep show ?thesis
      by (simp add: requeued_def map_filter_simps)
  next
    case RecError
    with Cons.prems(1) n show ?thesis by simp
  qed
qed

lemma recover_loop_all_stay:
  "list_all (stays cutoff) es \<Longrightarrow> recover_loop now i q d cutoff es (a, b) s = (Some (a, b), s)"
  by (induction es) (auto simp: stays_def)

text \<open>
  A stale claim is requeued once. A pass of the recovery script moves exactly the stale envelopes out of
  the inflight list, appends their payloads to the pending list in order, and a second pass with
  the same cutoff (another worker's) finds nothing and changes nothing.
\<close>

theorem recovery_is_once:
  assumes "lua_recover_stale now i q d cutoff s = (Some m, s')" and "i \<noteq> q" "i \<noteq> d" "q \<noteq> d"
  shows "redis_lrange now i s' = filter (stays cutoff) (redis_lrange now i s)
    \<and> redis_lrange now q s' = redis_lrange now q s @ requeued cutoff (redis_lrange now i s)
    \<and> lua_recover_stale now i q d cutoff s' = (Some (0, 0), s')"
proof -
  have run: "recover_loop now i q d cutoff (redis_lrange now i s) (0, 0) s = (Some m, s')"
    using assms(1) by (simp add: lua_recover_stale_def)
  have l: "redis_lrange now i s' = filter (stays cutoff) (redis_lrange now i s)
      \<and> redis_lrange now q s' = redis_lrange now q s @ requeued cutoff (redis_lrange now i s)"
    using recover_loop_lists [OF run assms(2-4), of "[]"] by simp
  then have "list_all (stays cutoff) (redis_lrange now i s')" by (simp add: list_all_iff)
  from recover_loop_all_stay [OF this] l show ?thesis by (simp add: lua_recover_stale_def)
qed

definition sample_inflight :: redis where
  "sample_inflight = empty_redis\<lparr>r_lists := (\<lambda>k. if k = ''i'' then [make_envelope ''x'' 100, make_envelope ''y'' 900] else [])\<rparr>"

theorem recovery_is_once_witness:
  "\<exists>s'. lua_recover_stale 1000 ''i'' ''q'' ''d'' 500 sample_inflight = (Some (1, 0), s')
     \<and> lua_recover_stale 1000 ''i'' ''q'' ''d'' 500 s' = (Some (0, 0), s')"
proof -
  have "recovery_of 500 (make_envelope ''x'' 100) = RecRequeue ''x''" "recovery_of 500 (make_envelope ''y'' 900) = RecKeep"
    by code_simp+
  then have run: "lua_recover_stale 1000 ''i'' ''q'' ''d'' 500 sample_inflight
      = (Some (1, 0), snd (redis_lrem1 1000 ''i'' (make_envelope ''x'' 100) (redis_rpush 1000 ''q'' ''x'' sample_inflight)))"
    by (simp add: lua_recover_stale_def sample_inflight_def redis_lrange_def expired_def empty_redis_def)
  from recovery_is_once [OF run] run show ?thesis by auto
qed

section \<open>Retries are bounded\<close>

lemma increment_attempt_counts:
  assumes "attempts_of (dget_default ''_attempt'' (JInt 0) (payload_of raw)) = Some a" and "0 \<le> a"
  shows "\<exists>p. increment_attempt raw = Some (p, a + 1)
    \<and> attempts_of (dget_default ''_attempt'' (JInt 0) (payload_of p)) = Some (a + 1)"
proof -
  let ?p = "dumps (JObj (dict_set ''_attempt'' (JInt (a + 1)) (payload_of raw)))"
  have "json_wf (JObj (payload_of raw))"
    using loads_wf [of raw] by (auto simp: payload_of_def split: option.splits json.splits)
  then have "json_wf (JObj (dict_set ''_attempt'' (JInt (a + 1)) (payload_of raw)))"
    by (auto intro: list_all_dict_set)
  from loads_dumps [OF this] have "payload_of ?p = dict_set ''_attempt'' (JInt (a + 1)) (payload_of raw)"
    by (simp add: payload_of_def)
  then have "attempts_of (dget_default ''_attempt'' (JInt 0) (payload_of ?p)) = Some (a + 1)"
    using assms(2) by (simp add: dget_default_def attempts_of_def)
  then show ?thesis using assms(1) by (simp add: increment_attempt_def Let_def)
qed



end
