(* ===== verification/Cache.thy ===== *)
theory Cache
  imports Redis Json
begin

text \<open>
  \<open>src/gateway/cache.py\<close>: the hot-path cache whose keys embed generation counters. A write by
  an administrator increments a generation, which makes the entries under the old one
  unreachable. A generation counter is an integer key, an entry a text key.
\<close>

definition CATALOG_GEN_KEY :: string where "CATALOG_GEN_KEY = ''janus:gw:v1:catalog:gen''"
definition GRANT_GEN_USER_PREFIX :: string where "GRANT_GEN_USER_PREFIX = ''janus:gw:v1:grant:gen:u:''"
definition GRANT_GEN_DEPT_PREFIX :: string where "GRANT_GEN_DEPT_PREFIX = ''janus:gw:v1:grant:gen:d:''"
definition QUOTA_GEN_GLOBAL_KEY :: string where "QUOTA_GEN_GLOBAL_KEY = ''janus:gw:v1:quota:gen:global''"
definition QUOTA_GEN_USER_PREFIX :: string where "QUOTA_GEN_USER_PREFIX = ''janus:gw:v1:quota:gen:u:''"
definition QUOTA_GEN_DEPT_PREFIX :: string where "QUOTA_GEN_DEPT_PREFIX = ''janus:gw:v1:quota:gen:d:''"

lemmas gen_keys = CATALOG_GEN_KEY_def GRANT_GEN_USER_PREFIX_def GRANT_GEN_DEPT_PREFIX_def
  QUOTA_GEN_GLOBAL_KEY_def QUOTA_GEN_USER_PREFIX_def QUOTA_GEN_DEPT_PREFIX_def

definition BASE_TTL_SECONDS :: int where "BASE_TTL_SECONDS = 30"
definition TTL_JITTER_SECONDS :: int where "TTL_JITTER_SECONDS = 5"

text \<open>\<open>_ttl\<close>; \<open>draw\<close> is what the random generator returned.\<close>

definition cache_ttl :: "int \<Rightarrow> int" where
  "cache_ttl draw = BASE_TTL_SECONDS + max 0 (min draw TTL_JITTER_SECONDS)"

section \<open>Generations\<close>

definition get_generation :: "int \<Rightarrow> string \<Rightarrow> redis \<Rightarrow> int \<times> redis" where
  "get_generation now key s =
     (case rcall (rread (redis_get_int now key)) s of
        (Some (Some n), s1) \<Rightarrow> (n, s1)
      | (_, s1) \<Rightarrow> (0, s1))"

definition bump_generation :: "int \<Rightarrow> string \<Rightarrow> redis \<Rightarrow> int \<times> redis" where
  "bump_generation now key s =
     (case rcall (redis_incrby now key 1) s of
        (Some n, s1) \<Rightarrow> (n, s1)
      | (None, s1) \<Rightarrow> (0, s1))"

definition bump_catalog_generation :: "int \<Rightarrow> redis \<Rightarrow> int \<times> redis" where
  "bump_catalog_generation now s = bump_generation now CATALOG_GEN_KEY s"

definition user_grant_gen_key :: "int \<Rightarrow> string" where
  "user_grant_gen_key user_id = GRANT_GEN_USER_PREFIX @ show_int user_id"

definition dept_grant_gen_key :: "int \<Rightarrow> string" where
  "dept_grant_gen_key dept_id = GRANT_GEN_DEPT_PREFIX @ show_int dept_id"

definition user_quota_gen_key :: "int \<Rightarrow> string" where
  "user_quota_gen_key user_id = QUOTA_GEN_USER_PREFIX @ show_int user_id"

definition dept_quota_gen_key :: "int \<Rightarrow> string" where
  "dept_quota_gen_key dept_id = QUOTA_GEN_DEPT_PREFIX @ show_int dept_id"

definition bump_if :: "int \<Rightarrow> (int \<Rightarrow> string) \<Rightarrow> int option \<Rightarrow> redis \<Rightarrow> redis" where
  "bump_if now key v s = (case v of None \<Rightarrow> s | Some i \<Rightarrow> snd (bump_generation now (key i) s))"

definition bump_grant_generation :: "int \<Rightarrow> int option \<Rightarrow> int option \<Rightarrow> redis \<Rightarrow> redis" where
  "bump_grant_generation now user_id dept_id s =
     bump_if now dept_grant_gen_key dept_id (bump_if now user_grant_gen_key user_id s)"

definition bump_quota_generation :: "int \<Rightarrow> int option \<Rightarrow> int option \<Rightarrow> bool \<Rightarrow> redis \<Rightarrow> redis" where
  "bump_quota_generation now user_id dept_id is_global s =
     (let s1 = (if is_global then snd (bump_generation now QUOTA_GEN_GLOBAL_KEY s) else s)
      in bump_if now dept_quota_gen_key dept_id (bump_if now user_quota_gen_key user_id s1))"

section \<open>Entries\<close>

definition versioned_key :: "string \<Rightarrow> int \<times> int \<times> int \<Rightarrow> int \<Rightarrow> int \<Rightarrow> string \<Rightarrow> string" where
  "versioned_key family gens user_id dept_id tail =
     (case gens of (g1, g2, g3) \<Rightarrow>
        family @ show_int g1 @ '':'' @ show_int g2 @ '':'' @ show_int g3 @ '':u:'' @ show_int user_id
          @ '':d:'' @ show_int dept_id @ '':m:'' @ tail)"

definition resolve_cache_key :: "int \<times> int \<times> int \<Rightarrow> int \<Rightarrow> int \<Rightarrow> string \<Rightarrow> string" where
  "resolve_cache_key gens user_id dept_id model =
     versioned_key ''janus:gw:v1:resolve:'' gens user_id dept_id model"

definition quota_cache_key :: "int \<times> int \<times> int \<Rightarrow> int \<Rightarrow> int \<Rightarrow> int \<Rightarrow> string" where
  "quota_cache_key gens user_id dept_id model_id =
     versioned_key ''janus:gw:v1:quota_cfg:'' gens user_id dept_id (show_int model_id)"

text \<open>The three generations a key embeds, read one after the other.\<close>

definition read_generations :: "int \<Rightarrow> string \<Rightarrow> string \<Rightarrow> string \<Rightarrow> redis \<Rightarrow> (int \<times> int \<times> int) \<times> redis" where
  "read_generations now k1 k2 k3 s =
     (case get_generation now k1 s of (g1, s1) \<Rightarrow>
        (case get_generation now k2 s1 of (g2, s2) \<Rightarrow>
           (case get_generation now k3 s2 of (g3, s3) \<Rightarrow> ((g1, g2, g3), s3))))"

text \<open>\<open>None\<close>: a miss, a failed call or text that is no JSON.\<close>

definition read_entry :: "int \<Rightarrow> string \<Rightarrow> redis \<Rightarrow> json option \<times> redis" where
  "read_entry now key s =
     (case rcall (rread (redis_get now key)) s of
        (Some (Some raw), s1) \<Rightarrow> (loads raw, s1)
      | (_, s1) \<Rightarrow> (None, s1))"

definition write_entry :: "int \<Rightarrow> string \<Rightarrow> json \<Rightarrow> int \<Rightarrow> redis \<Rightarrow> redis" where
  "write_entry now key v ttl s = snd (rcall (ruse (redis_set now key (dumps v) (Some ttl))) s)"

definition resolve_generations :: "int \<Rightarrow> int \<Rightarrow> int option \<Rightarrow> redis \<Rightarrow> (int \<times> int \<times> int) \<times> redis" where
  "resolve_generations now user_id dept_id s =
     read_generations now CATALOG_GEN_KEY (user_grant_gen_key user_id) (dept_grant_gen_key (or_int dept_id 0)) s"

definition get_cached_resolution :: "int \<Rightarrow> int \<Rightarrow> int option \<Rightarrow> string \<Rightarrow> redis \<Rightarrow> json option \<times> redis" where
  "get_cached_resolution now user_id dept_id requested_model s =
     (case resolve_generations now user_id dept_id s of (gens, s1) \<Rightarrow>
        read_entry now (resolve_cache_key gens user_id (or_int dept_id 0) requested_model) s1)"

definition set_cached_resolution :: "int \<Rightarrow> int \<Rightarrow> int \<Rightarrow> int option \<Rightarrow> string \<Rightarrow> json \<Rightarrow> redis \<Rightarrow> redis" where
  "set_cached_resolution now draw user_id dept_id requested_model data s =
     (case resolve_generations now user_id dept_id s of (gens, s1) \<Rightarrow>
        write_entry now (resolve_cache_key gens user_id (or_int dept_id 0) requested_model) data (cache_ttl draw) s1)"

definition quota_generations :: "int \<Rightarrow> int \<Rightarrow> int option \<Rightarrow> redis \<Rightarrow> (int \<times> int \<times> int) \<times> redis" where
  "quota_generations now user_id dept_id s =
     read_generations now QUOTA_GEN_GLOBAL_KEY (user_quota_gen_key user_id) (dept_quota_gen_key (or_int dept_id 0)) s"

definition get_cached_quota_config :: "int \<Rightarrow> int \<Rightarrow> int option \<Rightarrow> int \<Rightarrow> redis \<Rightarrow> json option \<times> redis" where
  "get_cached_quota_config now user_id dept_id model_id s =
     (case quota_generations now user_id dept_id s of (gens, s1) \<Rightarrow>
        read_entry now (quota_cache_key gens user_id (or_int dept_id 0) model_id) s1)"

definition set_cached_quota_config :: "int \<Rightarrow> int \<Rightarrow> int \<Rightarrow> int option \<Rightarrow> int \<Rightarrow> json \<Rightarrow> redis \<Rightarrow> redis" where
  "set_cached_quota_config now draw user_id dept_id model_id data s =
     (case quota_generations now user_id dept_id s of (gens, s1) \<Rightarrow>
        write_entry now (quota_cache_key gens user_id (or_int dept_id 0) model_id) data (cache_ttl draw) s1)"

section \<open>Keys determine what they were built from\<close>

lemma field_split:
  "show_int a @ CHR '':'' # x = show_int b @ CHR '':'' # y \<longleftrightarrow> a = b \<and> x = y"
  using sep_split [OF colon_notin_show_int colon_notin_show_int, of a x b y] by simp

lemma versioned_key_inj:
  "versioned_key f gens u d t = versioned_key f gens' u' d' t'
     \<longleftrightarrow> gens = gens' \<and> u = u' \<and> d = d' \<and> t = t'"
  by (cases gens; cases gens') (simp add: versioned_key_def field_split)

lemma cache_keys_inj [simp]:
  "resolve_cache_key gens u d m = resolve_cache_key gens' u' d' m' \<longleftrightarrow> gens = gens' \<and> u = u' \<and> d = d' \<and> m = m'"
  "quota_cache_key gens u d n = quota_cache_key gens' u' d' n' \<longleftrightarrow> gens = gens' \<and> u = u' \<and> d = d' \<and> n = n'"
  by (simp_all add: resolve_cache_key_def quota_cache_key_def versioned_key_inj)

lemma gen_keys_inj [simp]:
  "user_grant_gen_key i = user_grant_gen_key j \<longleftrightarrow> i = j" "dept_grant_gen_key i = dept_grant_gen_key j \<longleftrightarrow> i = j"
  "user_quota_gen_key i = user_quota_gen_key j \<longleftrightarrow> i = j" "dept_quota_gen_key i = dept_quota_gen_key j \<longleftrightarrow> i = j"
  by (simp_all add: user_grant_gen_key_def dept_grant_gen_key_def user_quota_gen_key_def dept_quota_gen_key_def)

lemma gen_keys_differ [simp]:
  "CATALOG_GEN_KEY \<noteq> user_grant_gen_key i" "CATALOG_GEN_KEY \<noteq> dept_grant_gen_key i"
  "user_grant_gen_key i \<noteq> CATALOG_GEN_KEY" "dept_grant_gen_key i \<noteq> CATALOG_GEN_KEY"
  "user_grant_gen_key i \<noteq> dept_grant_gen_key j" "dept_grant_gen_key j \<noteq> user_grant_gen_key i"
  "QUOTA_GEN_GLOBAL_KEY \<noteq> user_quota_gen_key i" "QUOTA_GEN_GLOBAL_KEY \<noteq> dept_quota_gen_key i"
  "user_quota_gen_key i \<noteq> QUOTA_GEN_GLOBAL_KEY" "dept_quota_gen_key i \<noteq> QUOTA_GEN_GLOBAL_KEY"
  "user_quota_gen_key i \<noteq> dept_quota_gen_key j" "dept_quota_gen_key j \<noteq> user_quota_gen_key i"
  by (simp_all add: gen_keys user_grant_gen_key_def dept_grant_gen_key_def user_quota_gen_key_def dept_quota_gen_key_def)

end
