(* ===== verification/Service.thy ===== *)
theory Service
  imports Cache Catalog
begin

text \<open>
  \<open>src/gateway/service.py\<close>: model resolution and quota rules through the cache, the quota check
  with its error mapping, and the rate-limit rules of a request. A call ends with a value, with an
  \<open>AppError\<close>, or with another exception (which the handlers turn into a 500).
\<close>

datatype 'a res = ROk 'a | RErr app_error | RCrash

record auth_user =
  au_user_id :: int
  au_department_id :: "int option"

section \<open>Cached forms\<close>

definition opt_dec_json :: "dec option \<Rightarrow> json" where
  "opt_dec_json p = (case p of None \<Rightarrow> JNull | Some d \<Rightarrow> JStr (show_dec d))"

definition logical_model_to_cache :: "'a model_core_scheme \<Rightarrow> (string \<times> json) list" where
  "logical_model_to_cache m =
     [(''id'', JInt (lm_id m)), (''name'', JStr (lm_name m)),
      (''price_input'', opt_dec_json (lm_price_input m)), (''price_output'', opt_dec_json (lm_price_output m))]"

text \<open>\<open>Decimal(price) if price is not None else None\<close>; the outer \<open>None\<close> is an exception.\<close>

definition price_from_cache :: "json \<Rightarrow> dec option option" where
  "price_from_cache v =
     (case v of
        JNull \<Rightarrow> Some None
      | JStr t \<Rightarrow> map_option Some (read_dec t)
      | JInt i \<Rightarrow> Some (Some (dec_of_int i))
      | _ \<Rightarrow> None)"

definition logical_model_from_cache :: "json \<Rightarrow> model_core res" where
  "logical_model_from_cache v =
     (case v of
        JObj data \<Rightarrow>
          (case (map_of data ''id'', map_of data ''name'', price_from_cache (dget ''price_input'' data),
                 price_from_cache (dget ''price_output'' data)) of
             (Some (JInt i), Some (JStr nm), Some pin, Some pout) \<Rightarrow>
               ROk \<lparr>lm_id = i, lm_name = nm, lm_price_input = pin, lm_price_output = pout\<rparr>
           | _ \<Rightarrow> RCrash)
      | _ \<Rightarrow> RCrash)"

definition opt_int_json :: "int option \<Rightarrow> json" where
  "opt_int_json v = (case v of None \<Rightarrow> JNull | Some i \<Rightarrow> JInt i)"

definition quota_to_cache :: "quota \<Rightarrow> json" where
  "quota_to_cache q = JObj
     [(''id'', JInt (q_id q)), (''scope'', JStr (q_scope q)), (''scope_id'', opt_int_json (q_scope_id q)),
      (''logical_model_id'', opt_int_json (q_logical_model_id q)), (''period'', JStr (q_period q)),
      (''metric'', JStr (q_metric q)), (''limit_value'', JStr (show_dec (q_limit_value q))),
      (''enforce'', JBool (q_enforce q))]"

definition opt_int_of_json :: "json \<Rightarrow> int option option" where
  "opt_int_of_json v = (case v of JNull \<Rightarrow> Some None | JInt i \<Rightarrow> Some (Some i) | _ \<Rightarrow> None)"

text \<open>\<open>None\<close> is the exception of a missing or malformed field.\<close>

definition quota_from_cache :: "json \<Rightarrow> quota option" where
  "quota_from_cache v =
     (case v of
        JObj d \<Rightarrow>
          (case (map_of d ''id'', map_of d ''scope'', map_option opt_int_of_json (map_of d ''scope_id''),
                 map_option opt_int_of_json (map_of d ''logical_model_id'')) of
             (Some (JInt i), Some (JStr sc), Some (Some sid), Some (Some mid)) \<Rightarrow>
               (case (map_of d ''period'', map_of d ''metric'', map_of d ''limit_value'', map_of d ''enforce'') of
                  (Some (JStr per), Some (JStr met), Some (JStr lv), Some (JBool enf)) \<Rightarrow>
                    map_option (\<lambda>l. \<lparr>q_id = i, q_scope = sc, q_scope_id = sid, q_logical_model_id = mid,
                      q_period = per, q_metric = met, q_limit_value = l, q_enforce = enf\<rparr>) (read_dec lv)
                | _ \<Rightarrow> None)
           | _ \<Rightarrow> None)
      | _ \<Rightarrow> None)"

fun quotas_from_cache :: "json list \<Rightarrow> quota list option" where
  "quotas_from_cache [] = Some []"
| "quotas_from_cache (v # vs) =
     (case quota_from_cache v of
        None \<Rightarrow> None
      | Some q \<Rightarrow> map_option (\<lambda>qs. q # qs) (quotas_from_cache vs))"

section \<open>Resolving a model\<close>

definition DEFAULT_MODEL_SENTINEL :: string where
  "DEFAULT_MODEL_SENTINEL = char_of (0 :: nat) # ''__janus_default__''"

definition cache_model_key :: "string option \<Rightarrow> string" where
  "cache_model_key requested = (case requested of None \<Rightarrow> DEFAULT_MODEL_SENTINEL | Some nm \<Rightarrow> nm)"

text \<open>The database part: find the model, then check that it is granted.\<close>

definition resolve_from_db :: "auth_user \<Rightarrow> string option \<Rightarrow> catalog_db \<Rightarrow> logical_model res" where
  "resolve_from_db user requested db =
     (let found = (case requested of
                     None \<Rightarrow> (case get_default_model_id (au_user_id user) (au_department_id user) db of
                                None \<Rightarrow> None
                              | Some i \<Rightarrow> get_logical_model_by_id i db)
                   | Some nm \<Rightarrow> get_logical_model_by_name nm db)
      in case found of
           None \<Rightarrow> RErr (app_err EC_model_not_found 404)
         | Some m \<Rightarrow>
             (if lm_id m \<in> get_user_granted_models (au_user_id user) (au_department_id user) db then ROk m
              else RErr ((app_err EC_model_not_granted 403)\<lparr>ae_params := [(''model'', lm_name m)]\<rparr>)))"

definition resolve_model :: "int \<Rightarrow> int \<Rightarrow> auth_user \<Rightarrow> string option \<Rightarrow> catalog_db \<Rightarrow> redis \<Rightarrow> model_core res \<times> redis" where
  "resolve_model now draw user requested db s =
     (case get_cached_resolution now (au_user_id user) (au_department_id user) (cache_model_key requested) s of
        (cached, s1) \<Rightarrow>
          (if cached \<noteq> None \<and> cached \<noteq> Some JNull then (logical_model_from_cache (the cached), s1)
           else (case resolve_from_db user requested db of
                   ROk m \<Rightarrow>
                     (ROk (model_core.truncate m),
                      set_cached_resolution now draw (au_user_id user) (au_department_id user) (cache_model_key requested)
                        (JObj (logical_model_to_cache m)) s1)
                 | RErr e \<Rightarrow> (RErr e, s1)
                 | RCrash \<Rightarrow> (RCrash, s1))))"

section \<open>Quota\<close>

definition get_active_quotas_cached ::
  "int \<Rightarrow> int \<Rightarrow> int \<Rightarrow> int option \<Rightarrow> int \<Rightarrow> catalog_db \<Rightarrow> redis \<Rightarrow> quota list res \<times> redis" where
  "get_active_quotas_cached now draw user_id department_id model_id db s =
     (case get_cached_quota_config now user_id department_id model_id s of
        (cached, s1) \<Rightarrow>
          (if cached \<noteq> None \<and> cached \<noteq> Some JNull
           then (case the cached of
                   JArr items \<Rightarrow> (case quotas_from_cache items of None \<Rightarrow> RCrash | Some qs \<Rightarrow> ROk qs, s1)
                 | _ \<Rightarrow> (RCrash, s1))
           else
             (let quotas = get_active_quotas user_id department_id model_id db
              in (ROk quotas,
                  set_cached_quota_config now draw user_id department_id model_id (JArr (map quota_to_cache quotas)) s1))))"

text \<open>\<open>check_quota\<close>: over limit is a 429 with the rule, a Redis failure a 503 (fail closed).\<close>

definition quota_exceeded_error :: "quota \<Rightarrow> dec \<Rightarrow> app_error" where
  "quota_exceeded_error q current =
     (app_err EC_quota_exceeded 429)
       \<lparr>ae_params := [(''quota_id'', show_int (q_id q)), (''metric'', q_metric q), (''period'', q_period q),
                      (''limit'', show_dec (q_limit_value q)), (''current'', show_dec current)]\<rparr>"

definition check_quota ::
  "bool \<Rightarrow> datetime \<Rightarrow> int \<Rightarrow> int \<Rightarrow> int option \<Rightarrow> int \<Rightarrow> int \<Rightarrow> dec option \<Rightarrow> catalog_db \<Rightarrow> redis
   \<Rightarrow> (quota_warning list \<times> quota_reservation list) res \<times> redis" where
  "check_quota has_scripts now draw user_id department_id model_id estimated_tokens estimated_cost db s =
     (case get_active_quotas_cached (epoch_ms now) draw user_id department_id model_id db s of
        (RErr e, s1) \<Rightarrow> (RErr e, s1)
      | (RCrash, s1) \<Rightarrow> (RCrash, s1)
      | (ROk quotas, s1) \<Rightarrow>
          (case check_and_increment has_scripts now user_id department_id quotas estimated_tokens estimated_cost s1 of
             (QPassed ws rs, s2) \<Rightarrow> (ROk (ws, rs), s2)
           | (QExceeded q current, s2) \<Rightarrow> (RErr (quota_exceeded_error q current), s2)
           | (QRedisError, s2) \<Rightarrow> (RErr (app_err EC_service_unavailable 503), s2)))"

text \<open>\<open>get_rate_limit_rules\<close>: a failing lookup yields no rules (fail open).\<close>

definition get_rate_limit_rules :: "bool \<Rightarrow> int \<Rightarrow> int option \<Rightarrow> int \<Rightarrow> int option \<Rightarrow> catalog_db \<Rightarrow> rl_rule list" where
  "get_rate_limit_rules db_ok user_id department_id model_id api_key_id db =
     (if db_ok then select_rate_limit_rules user_id department_id model_id api_key_id db else [])"

section \<open>Cached forms are read back\<close>

lemma price_round [simp]: "price_from_cache (opt_dec_json p) = Some p"
  by (cases p) (simp_all add: opt_dec_json_def price_from_cache_def)

lemma model_round [simp]:
  "logical_model_from_cache (JObj (logical_model_to_cache m)) = ROk (model_core.truncate m)"
  by (simp add: logical_model_from_cache_def logical_model_to_cache_def dget_def model_core.truncate_def)

lemma opt_int_round [simp]: "opt_int_of_json (opt_int_json v) = Some v"
  by (cases v) (simp_all add: opt_int_json_def opt_int_of_json_def)

lemma quota_round [simp]: "quota_from_cache (quota_to_cache q) = Some q"
  by (simp add: quota_from_cache_def quota_to_cache_def)

lemma quotas_round [simp]: "quotas_from_cache (map quota_to_cache qs) = Some qs"
  by (induction qs) auto

lemma opt_json_wf [simp]: "json_wf (opt_dec_json p)" "json_wf (opt_int_json v)"
  by (cases p; cases v; simp add: opt_dec_json_def opt_int_json_def)+

lemma cached_wf [simp]:
  "json_wf (JObj (logical_model_to_cache m))" "json_wf (quota_to_cache q)" "json_wf (JArr (map quota_to_cache qs))"
  by (simp_all add: logical_model_to_cache_def quota_to_cache_def list_all_iff)

text \<open>
  Caching changes no rule and no price. What is read back from the cached text of a resolved model
  or of a list of quota rules is exactly what was stored, down to the digits of every price and limit.
\<close>

theorem cached_forms_roundtrip:
  "map_option logical_model_from_cache (loads (dumps (JObj (logical_model_to_cache m)))) = Some (ROk (model_core.truncate m))
   \<and> (\<exists>items. loads (dumps (JArr (map quota_to_cache qs))) = Some (JArr items) \<and> quotas_from_cache items = Some qs)"
  by (simp only: loads_dumps cached_wf option.map model_round) simp

end
