(* ===== verification/ResolutionCache.thy ===== *)
theory ResolutionCache
  imports Service
begin

text \<open>
  The generation protocol: while every write to the catalog or to grants is followed by the bump of the
  generation it concerns, a resolution served from the cache is the one the database gives now.
  The interleaving the protocol does not cover is at the end.
\<close>

section \<open>Generations on a healthy connection\<close>

definition gen_of :: "redis \<Rightarrow> string \<Rightarrow> int" where
  "gen_of s k = (case r_ints s k of None \<Rightarrow> 0 | Some n \<Rightarrow> n)"

definition is_gen_key :: "string \<Rightarrow> bool" where
  "is_gen_key k \<longleftrightarrow> k = CATALOG_GEN_KEY \<or> (\<exists>i. k = user_grant_gen_key i) \<or> (\<exists>i. k = dept_grant_gen_key i)"

definition steady :: "redis \<Rightarrow> bool" where
  "steady s \<longleftrightarrow> r_wire s = [] \<and> (\<forall>k. is_gen_key k \<longrightarrow> r_expiry s k = None)"

definition gens :: "redis \<Rightarrow> int \<Rightarrow> int option \<Rightarrow> int \<times> int \<times> int" where
  "gens s u d = (gen_of s CATALOG_GEN_KEY, gen_of s (user_grant_gen_key u), gen_of s (dept_grant_gen_key (or_int d 0)))"

lemma is_gen_key_simps [simp]:
  "is_gen_key CATALOG_GEN_KEY" "is_gen_key (user_grant_gen_key i)" "is_gen_key (dept_grant_gen_key i)"
  by (auto simp: is_gen_key_def)

lemma get_generation_steady: "steady s \<Longrightarrow> is_gen_key k \<Longrightarrow> get_generation now k s = (gen_of s k, s)"
  by (auto simp: steady_def get_generation_def rread_def redis_get_int_def expired_def gen_of_def split: option.splits)

lemma resolve_generations_steady: "steady s \<Longrightarrow> resolve_generations now u d s = (gens s u d, s)"
  by (simp add: resolve_generations_def read_generations_def get_generation_steady gens_def)

lemma resolve_key_not_gen: "\<not> is_gen_key (resolve_cache_key g u d m)"
  by (cases g) (auto simp: is_gen_key_def gen_keys resolve_cache_key_def versioned_key_def
      user_grant_gen_key_def dept_grant_gen_key_def)

lemma bump_steady:
  assumes "steady s" "is_gen_key k"
  shows "steady (snd (bump_generation now k s))"
    and "gen_of (snd (bump_generation now k s)) k' = gen_of s k' + (if k' = k then 1 else 0)"
    and "r_strs (snd (bump_generation now k s)) = r_strs s"
  using assms by (auto simp: steady_def bump_generation_def redis_incrby_def evict_if_expired_def expired_def
      gen_of_def Let_def)

section \<open>Which writes concern whom\<close>

definition user_grant :: "int \<Rightarrow> user_model_grant \<Rightarrow> bool" where
  "user_grant u g \<longleftrightarrow> ug_scope g = ''user'' \<and> ug_scope_id g = u"

definition dept_grant :: "int \<Rightarrow> user_model_grant \<Rightarrow> bool" where
  "dept_grant d g \<longleftrightarrow> ug_scope g = ''department'' \<and> ug_scope_id g = d"

definition same_except :: "(user_model_grant \<Rightarrow> bool) \<Rightarrow> catalog_db \<Rightarrow> catalog_db \<Rightarrow> bool" where
  "same_except p db db' \<longleftrightarrow> db_models db' = db_models db
     \<and> filter (\<lambda>g. \<not> p g) (db_grants db') = filter (\<lambda>g. \<not> p g) (db_grants db)"

lemma filter_mono_eq:
  assumes "filter (\<lambda>g. \<not> p g) xs = filter (\<lambda>g. \<not> p g) ys" and "\<And>g. q g \<Longrightarrow> \<not> p g"
  shows "filter q xs = filter q ys"
proof -
  have "filter q zs = filter q (filter (\<lambda>g. \<not> p g) zs)" for zs
    using assms(2) by (induction zs) auto
  with assms(1) show ?thesis by metis
qed

lemma resolve_unaffected:
  assumes "same_except p db db'" and "\<And>g. grant_applies (au_user_id user) (au_department_id user) g \<Longrightarrow> \<not> p g"
  shows "resolve_from_db user requested db' = resolve_from_db user requested db"
proof -
  note f = filter_mono_eq [OF assms(1) [unfolded same_except_def, THEN conjunct2]]
  have "get_user_granted_models (au_user_id user) (au_department_id user) db'
      = get_user_granted_models (au_user_id user) (au_department_id user) db"
    unfolding get_user_granted_models_def by (subst f) (use assms(2) in auto)
  moreover have "get_default_model_id (au_user_id user) (au_department_id user) db'
      = get_default_model_id (au_user_id user) (au_department_id user) db"
    unfolding get_default_model_id_def by (subst f) (use assms(2) in auto)
  ultimately show ?thesis
    using assms(1) by (simp add: resolve_from_db_def get_logical_model_by_id_def get_logical_model_by_name_def
        same_except_def cong: option.case_cong)
qed

lemma not_my_grant:
  "u \<noteq> u' \<Longrightarrow> grant_applies u d g \<Longrightarrow> \<not> user_grant u' g"
  "d \<noteq> Some d' \<Longrightarrow> grant_applies u d g \<Longrightarrow> \<not> dept_grant d' g"
  by (auto simp: grant_applies_def user_grant_def dept_grant_def)

section \<open>The protocol\<close>

text \<open>
  Requests resolve models; administrators write the catalog, a user's grants or a department's
  grants and bump the generation the write concerns.
\<close>

definition no_sentinel :: "catalog_db \<Rightarrow> bool" where
  "no_sentinel db \<longleftrightarrow> (\<forall>m\<in>set (db_models db). lm_name m \<noteq> DEFAULT_MODEL_SENTINEL)"

inductive cache_step :: "catalog_db \<times> redis \<Rightarrow> catalog_db \<times> redis \<Rightarrow> bool" where
  resolve: "au_department_id user \<noteq> Some 0 \<Longrightarrow> resolve_model now draw user requested db s = (r, s') \<Longrightarrow>
    cache_step (db, s) (db, s')"
| write_catalog: "no_sentinel db' \<Longrightarrow> cache_step (db, s) (db', snd (bump_catalog_generation now s))"
| write_user_grants: "same_except (user_grant u) db db' \<Longrightarrow>
    cache_step (db, s) (db', bump_grant_generation now (Some u) None s)"
| write_dept_grants: "same_except (dept_grant d) db db' \<Longrightarrow> d \<noteq> 0 \<Longrightarrow>
    cache_step (db, s) (db', bump_grant_generation now None (Some d) s)"

definition coherent_entry :: "catalog_db \<Rightarrow> redis \<Rightarrow> int \<Rightarrow> int option \<Rightarrow> string \<Rightarrow> string \<Rightarrow> bool" where
  "coherent_entry db s u d k raw \<longleftrightarrow> (\<exists>requested m. k = cache_model_key requested
     \<and> resolve_from_db \<lparr>au_user_id = u, au_department_id = d\<rparr> requested db = ROk m
     \<and> raw = dumps (JObj (logical_model_to_cache m)))"

text \<open>
  Every entry a present or later request can reach is what the database gives, and no entry carries a
  generation that has not been reached.
\<close>

definition cache_inv :: "catalog_db \<times> redis \<Rightarrow> bool" where
  "cache_inv st \<longleftrightarrow> (case st of (db, s) \<Rightarrow> steady s \<and> no_sentinel db
     \<and> (\<forall>u d k raw. d \<noteq> Some 0 \<longrightarrow> r_strs s (resolve_cache_key (gens s u d) u (or_int d 0) k) = Some raw
          \<longrightarrow> coherent_entry db s u d k raw)
     \<and> (\<forall>g1 g2 g3 u d k. r_strs s (resolve_cache_key (g1, g2, g3) u d k) \<noteq> None
          \<longrightarrow> g1 \<le> gen_of s CATALOG_GEN_KEY \<and> g2 \<le> gen_of s (user_grant_gen_key u) \<and> g3 \<le> gen_of s (dept_grant_gen_key d)))"

lemma cache_invD:
  assumes "cache_inv (db, s)"
  shows "steady s" and "no_sentinel db"
    and "d \<noteq> Some 0 \<Longrightarrow> r_strs s (resolve_cache_key (gens s u d) u (or_int d 0) k) = Some raw \<Longrightarrow> coherent_entry db s u d k raw"
    and "r_strs s (resolve_cache_key (g1, g2, g3) u e k) \<noteq> None \<Longrightarrow>
      g1 \<le> gen_of s CATALOG_GEN_KEY \<and> g2 \<le> gen_of s (user_grant_gen_key u) \<and> g3 \<le> gen_of s (dept_grant_gen_key e)"
  using assms unfolding cache_inv_def prod.case by blast+

lemma cache_invI:
  assumes "steady s" and "no_sentinel db"
    and "\<And>u d k raw. d \<noteq> Some 0 \<Longrightarrow> r_strs s (resolve_cache_key (gens s u d) u (or_int d 0) k) = Some raw \<Longrightarrow>
      coherent_entry db s u d k raw"
    and "\<And>g1 g2 g3 u e k. r_strs s (resolve_cache_key (g1, g2, g3) u e k) \<noteq> None \<Longrightarrow>
      g1 \<le> gen_of s CATALOG_GEN_KEY \<and> g2 \<le> gen_of s (user_grant_gen_key u) \<and> g3 \<le> gen_of s (dept_grant_gen_key e)"
  shows "cache_inv (db, s)"
  unfolding cache_inv_def prod.case by (intro conjI allI impI assms)

lemma read_entry_steady:
  assumes "steady s"
  shows "read_entry now k s = (case redis_get now k s of None \<Rightarrow> None | Some raw \<Rightarrow> loads raw, s)"
  using assms by (auto simp: read_entry_def rread_def steady_def split: option.splits)

lemma get_resolution_steady:
  "steady s \<Longrightarrow> get_cached_resolution now u d k s
     = (case redis_get now (resolve_cache_key (gens s u d) u (or_int d 0) k) s of None \<Rightarrow> None | Some raw \<Rightarrow> loads raw, s)"
  by (simp add: get_cached_resolution_def resolve_generations_steady read_entry_steady)

lemma set_resolution_steady:
  "steady s \<Longrightarrow> set_cached_resolution now draw u d k v s
     = redis_set now (resolve_cache_key (gens s u d) u (or_int d 0) k) (dumps v) (Some (cache_ttl draw)) s"
  by (simp add: set_cached_resolution_def resolve_generations_steady write_entry_def) (simp add: steady_def ruse_def)

lemma set_steady:
  assumes "steady s"
  shows "steady (redis_set now (resolve_cache_key g u d k) v ex s)"
    and "gen_of (redis_set now (resolve_cache_key g u d k) v ex s) k' = gen_of s k'"
  using assms resolve_key_not_gen by (auto simp: steady_def redis_set_def gen_of_def)

text \<open>What a request sees, and what it stores.\<close>

lemma sentinel_unresolved:
  "no_sentinel db \<Longrightarrow> resolve_from_db user (Some DEFAULT_MODEL_SENTINEL) db \<noteq> ROk m"
proof -
  assume "no_sentinel db"
  then have "get_logical_model_by_name DEFAULT_MODEL_SENTINEL db = None"
    by (auto simp: get_logical_model_by_name_def find_None_iff no_sentinel_def)
  then show ?thesis by (simp add: resolve_from_db_def)
qed

lemma coherent_hit:
  assumes "coherent_entry db s u d (cache_model_key requested) raw" and "no_sentinel db"
    and "requested \<noteq> Some DEFAULT_MODEL_SENTINEL"
  shows "\<exists>m. resolve_from_db \<lparr>au_user_id = u, au_department_id = d\<rparr> requested db = ROk m
    \<and> loads raw = Some (JObj (logical_model_to_cache m))"
proof -
  obtain r m where r: "cache_model_key requested = cache_model_key r"
    "resolve_from_db \<lparr>au_user_id = u, au_department_id = d\<rparr> r db = ROk m"
    "raw = dumps (JObj (logical_model_to_cache m))"
    using assms(1) by (auto simp: coherent_entry_def)
  have "r = requested"
    using r(1,2) assms(2,3) sentinel_unresolved [OF assms(2)]
    by (cases r; cases requested) (auto simp: cache_model_key_def)
  with r(2,3) show ?thesis by (intro exI [of _ m]) (simp only: loads_dumps cached_wf)
qed

lemma resolve_model_current:
  assumes "cache_inv (db, s)" and "au_department_id user \<noteq> Some 0" and "requested \<noteq> Some DEFAULT_MODEL_SENTINEL"
    and "resolve_model now draw user requested db s = (r, s')"
  shows "r = (case resolve_from_db user requested db of ROk m \<Rightarrow> ROk (model_core.truncate m) | RErr e \<Rightarrow> RErr e | RCrash \<Rightarrow> RCrash)"
proof -
  note st = cache_invD(1) [OF assms(1)] and ns = cache_invD(2) [OF assms(1)]
  let ?u = "au_user_id user" and ?d = "au_department_id user"
  let ?key = "resolve_cache_key (gens s ?u ?d) ?u (or_int ?d 0) (cache_model_key requested)"
  have u: "\<lparr>au_user_id = ?u, au_department_id = ?d\<rparr> = user" by simp
  show ?thesis
  proof (cases "redis_get now ?key s")
    case None
    with assms(4) st show ?thesis
      by (auto simp: resolve_model_def get_resolution_steady split: res.splits)
  next
    case (Some raw)
    then have "r_strs s ?key = Some raw" by (simp add: redis_get_def split: if_splits)
    then have "coherent_entry db s ?u ?d (cache_model_key requested) raw" by (rule cache_invD(3) [OF assms(1,2)])
    from coherent_hit [OF this ns assms(3)] u obtain m where
      m: "resolve_from_db user requested db = ROk m" "loads raw = Some (JObj (logical_model_to_cache m))" by auto
    with Some assms(4) st show ?thesis
      by (simp add: resolve_model_def get_resolution_steady)
  qed
qed

lemma or_dept_inj: "d \<noteq> Some 0 \<Longrightarrow> d' \<noteq> Some 0 \<Longrightarrow> or_int d 0 = or_int d' 0 \<Longrightarrow> d = d'"
  by (auto simp: or_int_def split: option.splits if_splits)

lemma cache_inv_set:
  assumes inv: "cache_inv (db, s)" and d: "au_department_id user \<noteq> Some 0"
    and m: "resolve_from_db user requested db = ROk m"
  shows "cache_inv (db, set_cached_resolution now draw (au_user_id user) (au_department_id user) (cache_model_key requested)
      (JObj (logical_model_to_cache m)) s)"
proof -
  let ?u = "au_user_id user" and ?d = "au_department_id user"
  let ?key = "resolve_cache_key (gens s ?u ?d) ?u (or_int ?d 0) (cache_model_key requested)"
  note st = cache_invD(1) [OF inv]
  let ?s = "redis_set now ?key (dumps (JObj (logical_model_to_cache m))) (Some (cache_ttl draw)) s"
  have eq: "set_cached_resolution now draw ?u ?d (cache_model_key requested) (JObj (logical_model_to_cache m)) s = ?s"
    by (rule set_resolution_steady [OF st])
  have g: "gen_of ?s k = gen_of s k" for k by (rule set_steady(2) [OF st])
  then have gs: "gens ?s u d' = gens s u d'" for u d' by (simp add: gens_def)
  have strs: "r_strs ?s = (r_strs s)(?key \<mapsto> dumps (JObj (logical_model_to_cache m)))" by (simp add: redis_set_def)
  have u: "\<lparr>au_user_id = ?u, au_department_id = ?d\<rparr> = user" by simp
  show ?thesis unfolding eq
  proof (rule cache_invI)
    show "steady ?s" by (rule set_steady(1) [OF st])
    show "no_sentinel db" by (rule cache_invD(2) [OF inv])
  next
    fix u d' k raw
    assume d': "d' \<noteq> Some 0" and e: "r_strs ?s (resolve_cache_key (gens ?s u d') u (or_int d' 0) k) = Some raw"
    show "coherent_entry db ?s u d' k raw"
    proof (cases "resolve_cache_key (gens s u d') u (or_int d' 0) k = ?key")
      case True
      then have at: "u = ?u" "d' = ?d" "k = cache_model_key requested" using or_dept_inj [OF d' d] by auto
      have "raw = dumps (JObj (logical_model_to_cache m))" using e True by (simp only: gs strs fun_upd_same option.inject)
      with m show ?thesis unfolding coherent_entry_def at u by blast
    next
      case False
      then have "r_strs s (resolve_cache_key (gens s u d') u (or_int d' 0) k) = Some raw"
        using e unfolding gs strs by (metis fun_upd_other)
      from cache_invD(3) [OF inv d' this] show ?thesis unfolding coherent_entry_def .
    qed
  next
    fix g1 g2 g3 u d' k
    assume e: "r_strs ?s (resolve_cache_key (g1, g2, g3) u d' k) \<noteq> None"
    show "g1 \<le> gen_of ?s CATALOG_GEN_KEY \<and> g2 \<le> gen_of ?s (user_grant_gen_key u) \<and> g3 \<le> gen_of ?s (dept_grant_gen_key d')"
    proof (cases "resolve_cache_key (g1, g2, g3) u d' k = ?key")
      case True
      then have "g1 = gen_of s CATALOG_GEN_KEY" "g2 = gen_of s (user_grant_gen_key u)" "g3 = gen_of s (dept_grant_gen_key d')"
        by (auto simp: gens_def)
      then show ?thesis unfolding g by simp
    next
      case False
      then have "r_strs s (resolve_cache_key (g1, g2, g3) u d' k) \<noteq> None"
        using e by (simp only: strs fun_upd_other not_False_eq_True)
      from cache_invD(4) [OF inv this] show ?thesis unfolding g .
    qed
  qed
qed

lemma resolve_model_inv:
  assumes inv: "cache_inv (db, s)" and "au_department_id user \<noteq> Some 0"
    and "resolve_model now draw user requested db s = (r, s')"
  shows "cache_inv (db, s')"
proof -
  note st = cache_invD(1) [OF inv]
  have "s' = s \<or> (\<exists>m. resolve_from_db user requested db = ROk m
      \<and> s' = set_cached_resolution now draw (au_user_id user) (au_department_id user) (cache_model_key requested)
          (JObj (logical_model_to_cache m)) s)"
    using assms(3) st by (auto simp: resolve_model_def get_resolution_steady split: res.splits if_splits)
  with inv cache_inv_set [OF inv assms(2)] show ?thesis by auto
qed

text \<open>A write keeps the invariant when it bumps a generation of everyone it concerns.\<close>

lemma cache_inv_bump:
  assumes inv: "cache_inv (db, s)" and k: "is_gen_key k" and ns: "no_sentinel db'"
    and concern: "\<And>u d requested. d \<noteq> Some 0 \<Longrightarrow>
        k \<notin> {CATALOG_GEN_KEY, user_grant_gen_key u, dept_grant_gen_key (or_int d 0)} \<Longrightarrow>
        resolve_from_db \<lparr>au_user_id = u, au_department_id = d\<rparr> requested db'
          = resolve_from_db \<lparr>au_user_id = u, au_department_id = d\<rparr> requested db"
  shows "cache_inv (db', snd (bump_generation now k s))"
proof -
  let ?s = "snd (bump_generation now k s)"
  note st = cache_invD(1) [OF inv]
  note b = bump_steady [OF st k, of now]
  note future = cache_invD(4) [OF inv]
  show ?thesis
  proof (rule cache_invI)
    show "steady ?s" by (rule b(1))
    show "no_sentinel db'" by (rule ns)
  next
    fix u d m raw
    assume d: "d \<noteq> Some 0" and e: "r_strs ?s (resolve_cache_key (gens ?s u d) u (or_int d 0) m) = Some raw"
    have e': "r_strs s (resolve_cache_key (gens ?s u d) u (or_int d 0) m) = Some raw" using e unfolding b(3) .
    then have "r_strs s (resolve_cache_key (gens ?s u d) u (or_int d 0) m) \<noteq> None" by simp
    from future [OF this [unfolded gens_def]]
    have le: "gen_of ?s CATALOG_GEN_KEY \<le> gen_of s CATALOG_GEN_KEY
        \<and> gen_of ?s (user_grant_gen_key u) \<le> gen_of s (user_grant_gen_key u)
        \<and> gen_of ?s (dept_grant_gen_key (or_int d 0)) \<le> gen_of s (dept_grant_gen_key (or_int d 0))" .
    have out: "k \<noteq> CATALOG_GEN_KEY" "k \<noteq> user_grant_gen_key u" "k \<noteq> dept_grant_gen_key (or_int d 0)"
      using le by (auto simp: b(2) split: if_splits)
    then have "gens ?s u d = gens s u d" by (simp add: gens_def b(2))
    with e' have "coherent_entry db s u d m raw" by (intro cache_invD(3) [OF inv d]) simp
    then show "coherent_entry db' ?s u d m raw"
      unfolding coherent_entry_def using concern [OF d] out by simp
  next
    fix g1 g2 g3 u d m
    assume "r_strs ?s (resolve_cache_key (g1, g2, g3) u d m) \<noteq> None"
    then have "g1 \<le> gen_of s CATALOG_GEN_KEY \<and> g2 \<le> gen_of s (user_grant_gen_key u) \<and> g3 \<le> gen_of s (dept_grant_gen_key d)"
      unfolding b(3) by (rule future)
    then show "g1 \<le> gen_of ?s CATALOG_GEN_KEY \<and> g2 \<le> gen_of ?s (user_grant_gen_key u) \<and> g3 \<le> gen_of ?s (dept_grant_gen_key d)"
      unfolding b(2) by auto
  qed
qed

lemma same_except_sentinel: "same_except p db db' \<Longrightarrow> no_sentinel db \<Longrightarrow> no_sentinel db'"
  by (simp add: same_except_def no_sentinel_def)

lemma cache_step_inv: "cache_step st st' \<Longrightarrow> cache_inv st \<Longrightarrow> cache_inv st'"
proof (induction rule: cache_step.induct)
  case (resolve user now draw requested db s r s')
  from resolve_model_inv [OF resolve(3,1,2)] show ?case .
next
  case (write_catalog db' db s now)
  show ?case unfolding bump_catalog_generation_def
    by (rule cache_inv_bump [OF write_catalog(2) is_gen_key_simps(1) write_catalog(1)]) simp
next
  case (write_user_grants u db db' s now)
  have eq: "bump_grant_generation now (Some u) None s = snd (bump_generation now (user_grant_gen_key u) s)"
    by (simp add: bump_grant_generation_def bump_if_def)
  have ns: "no_sentinel db'" by (rule same_except_sentinel [OF write_user_grants(1) cache_invD(2) [OF write_user_grants(2)]])
  show ?case unfolding eq
  proof (rule cache_inv_bump [OF write_user_grants(2) is_gen_key_simps(2) ns])
    fix u' d requested
    assume "user_grant_gen_key u \<notin> {CATALOG_GEN_KEY, user_grant_gen_key u', dept_grant_gen_key (or_int d 0)}"
    then have "u' \<noteq> u" by auto
    then show "resolve_from_db \<lparr>au_user_id = u', au_department_id = d\<rparr> requested db'
        = resolve_from_db \<lparr>au_user_id = u', au_department_id = d\<rparr> requested db"
      by (intro resolve_unaffected [OF write_user_grants(1)]) (simp add: not_my_grant(1))
  qed
next
  case (write_dept_grants d db db' s now)
  have eq: "bump_grant_generation now None (Some d) s = snd (bump_generation now (dept_grant_gen_key d) s)"
    by (simp add: bump_grant_generation_def bump_if_def)
  have ns: "no_sentinel db'" by (rule same_except_sentinel [OF write_dept_grants(1) cache_invD(2) [OF write_dept_grants(3)]])
  have mine: "d' \<noteq> Some d" if "dept_grant_gen_key d \<noteq> dept_grant_gen_key (or_int d' 0)" for d'
    using that write_dept_grants(2) by (auto simp: or_int_def)
  show ?case unfolding eq
  proof (rule cache_inv_bump [OF write_dept_grants(3) is_gen_key_simps(3) ns])
    fix u d' requested
    assume "dept_grant_gen_key d \<notin> {CATALOG_GEN_KEY, user_grant_gen_key u, dept_grant_gen_key (or_int d' 0)}"
    then have "d' \<noteq> Some d" using mine by blast
    then show "resolve_from_db \<lparr>au_user_id = u, au_department_id = d'\<rparr> requested db'
        = resolve_from_db \<lparr>au_user_id = u, au_department_id = d'\<rparr> requested db"
      by (intro resolve_unaffected [OF write_dept_grants(1)]) (simp add: not_my_grant(2))
  qed
qed

lemma cache_reach_inv: "cache_step\<^sup>*\<^sup>* st st' \<Longrightarrow> cache_inv st \<Longrightarrow> cache_inv st'"
  by (induction rule: rtranclp_induct) (auto intro: cache_step_inv)

text \<open>
  The cache never outlives a change. After any sequence of resolutions and of writes that bump
  their generation, a model is resolved exactly as the database resolves it now: a revoked grant, a renamed
  or disabled model or a new price takes effect on the next request, cached or not.
\<close>

theorem resolution_is_current:
  assumes "cache_step\<^sup>*\<^sup>* (db0, empty_redis) (db, s)" and "no_sentinel db0"
    and "au_department_id user \<noteq> Some 0" and "requested \<noteq> Some DEFAULT_MODEL_SENTINEL"
    and "resolve_model now draw user requested db s = (r, s')"
  shows "r = (case resolve_from_db user requested db of ROk m \<Rightarrow> ROk (model_core.truncate m) | RErr e \<Rightarrow> RErr e | RCrash \<Rightarrow> RCrash)"
proof -
  have "cache_inv (db0, empty_redis)"
    using assms(2) by (simp add: cache_inv_def steady_def empty_redis_def)
  from cache_reach_inv [OF assms(1) this] show ?thesis by (rule resolve_model_current [OF _ assms(3-5)])
qed

section \<open>A concrete run, and the interleaving the protocol does not cover\<close>

definition sample_model :: logical_model where
  "sample_model = \<lparr>lm_id = 3, lm_name = ''gpt'', lm_price_input = Some (2500000, -6), lm_price_output = None,
     lm_status = ''active'', lm_is_deleted = False\<rparr>"

definition sample_db :: "user_model_grant list \<Rightarrow> catalog_db" where
  "sample_db grants = \<lparr>db_models = [sample_model], db_channels = [], db_keys = [], db_deployments = [],
     db_grants = grants, db_quotas = [], db_rate_limits = []\<rparr>"

definition sample_grant :: user_model_grant where
  "sample_grant = \<lparr>ug_scope = ''user'', ug_scope_id = 7, ug_logical_model_id = 3, ug_is_default = False, ug_is_deleted = False\<rparr>"

definition sample_user :: auth_user where
  "sample_user = \<lparr>au_user_id = 7, au_department_id = None\<rparr>"

lemma sample_granted: "resolve_from_db sample_user (Some ''gpt'') (sample_db [sample_grant]) = ROk sample_model"
  by code_simp

lemma sample_revoked: "resolve_from_db sample_user (Some ''gpt'') (sample_db [])
    = RErr ((app_err EC_model_not_granted 403)\<lparr>ae_params := [(''model'', ''gpt'')]\<rparr>)"
  by code_simp

text \<open>A model is resolved (and cached), its grant is revoked, and the next request is refused.\<close>

theorem resolution_is_current_witness:
  "\<exists>s1 s2 s3. resolve_model 1000 0 sample_user (Some ''gpt'') (sample_db [sample_grant]) empty_redis
        = (ROk (model_core.truncate sample_model), s1)
     \<and> s2 = bump_grant_generation 2000 (Some 7) None s1
     \<and> resolve_model 3000 0 sample_user (Some ''gpt'') (sample_db []) s2
        = (RErr ((app_err EC_model_not_granted 403)\<lparr>ae_params := [(''model'', ''gpt'')]\<rparr>), s3)"
proof -
  let ?db = "sample_db [sample_grant]" and ?db' = "sample_db []"
  obtain r1 s1 where run1: "resolve_model 1000 0 sample_user (Some ''gpt'') ?db empty_redis = (r1, s1)" by force
  obtain r3 s3 where run3: "resolve_model 3000 0 sample_user (Some ''gpt'') ?db' (bump_grant_generation 2000 (Some 7) None s1) = (r3, s3)"
    by force
  have ns: "no_sentinel ?db" by (simp add: no_sentinel_def sample_db_def sample_model_def DEFAULT_MODEL_SENTINEL_def)
  have d: "au_department_id sample_user \<noteq> Some 0" by (simp add: sample_user_def)
  have q: "Some ''gpt'' \<noteq> Some DEFAULT_MODEL_SENTINEL" by (simp add: DEFAULT_MODEL_SENTINEL_def)
  have "cache_step (?db, empty_redis) (?db, s1)" by (rule cache_step.resolve [OF d run1])
  moreover have "cache_step (?db, s1) (?db', bump_grant_generation 2000 (Some 7) None s1)"
    by (rule cache_step.write_user_grants)
      (simp add: same_except_def sample_db_def user_grant_def sample_grant_def)
  ultimately have steps: "cache_step\<^sup>*\<^sup>* (?db, empty_redis) (?db', bump_grant_generation 2000 (Some 7) None s1)"
    by auto
  have "r1 = ROk (model_core.truncate sample_model)"
    using resolution_is_current [OF rtranclp.rtrancl_refl ns d q run1] by (simp add: sample_granted)
  moreover have "r3 = RErr ((app_err EC_model_not_granted 403)\<lparr>ae_params := [(''model'', ''gpt'')]\<rparr>)"
    using resolution_is_current [OF steps ns d q run3] by (simp add: sample_revoked)
  ultimately show ?thesis using run1 run3 by blast
qed

text \<open>
  A resolution reads the database before the revocation commits and writes its entry after the bump: the
  generations are read again when the entry is written, so the stale entry is stored under the new
  generation and the revoked model stays resolvable until the entry expires.
\<close>

lemma late_write_caches_stale_entry:
  "fst (resolve_model 4000 0 sample_user (Some ''gpt'') (sample_db [])
      (set_cached_resolution 3000 0 7 None ''gpt'' (JObj (logical_model_to_cache sample_model))
         (bump_grant_generation 2000 (Some 7) None empty_redis)))
   = ROk (model_core.truncate sample_model)"
proof -
  let ?s = "snd (bump_generation 2000 (user_grant_gen_key 7) empty_redis)"
  let ?raw = "dumps (JObj (logical_model_to_cache sample_model))"
  let ?key = "resolve_cache_key (gens ?s 7 None) 7 (or_int None 0) ''gpt''"
  let ?t = "redis_set 3000 ?key ?raw (Some (cache_ttl 0)) ?s"
  have eq: "bump_grant_generation 2000 (Some 7) None empty_redis = ?s"
    by (simp add: bump_grant_generation_def bump_if_def)
  have "steady empty_redis" by (simp add: steady_def empty_redis_def)
  then have st: "steady ?s" by (rule bump_steady(1)) simp
  have set: "set_cached_resolution 3000 0 7 None ''gpt'' (JObj (logical_model_to_cache sample_model)) ?s = ?t"
    using set_resolution_steady [OF st, of 3000 0 7 None "''gpt''"] by simp
  have "gens ?t 7 None = gens ?s 7 None" unfolding gens_def using set_steady(2) [OF st] by simp
  moreover have "redis_get 4000 ?key ?t = Some ?raw"
    by (simp add: redis_get_def redis_set_def expired_def cache_ttl_def BASE_TTL_SECONDS_def TTL_JITTER_SECONDS_def)
  moreover have "loads ?raw = Some (JObj (logical_model_to_cache sample_model))"
    by (rule loads_dumps) (rule cached_wf)
  ultimately have "get_cached_resolution 4000 7 None ''gpt'' ?t = (Some (JObj (logical_model_to_cache sample_model)), ?t)"
    by (simp only: get_resolution_steady [OF set_steady(1) [OF st]] option.case)
  then show ?thesis
    unfolding eq set by (simp add: resolve_model_def sample_user_def cache_model_key_def)
qed

end
