(* ===== verification/ChannelHealth.thy ===== *)
theory ChannelHealth
  imports Redis Decimal RateLimit Catalog
begin

text \<open>
  \<open>src/channel_health\<close>: outcome counters per channel and minute, the degraded set, the channel state
  and the probe that recovers or disables a degraded channel. What the upstream answers to a
  probe is a parameter; so is whether a stored key can be decrypted.
\<close>

definition BUCKET_PREFIX :: string where "BUCKET_PREFIX = ''ch:health:''"
definition DEGRADED_SET_KEY :: string where "DEGRADED_SET_KEY = ''ch:health:degraded''"
definition STATE_PREFIX :: string where "STATE_PREFIX = ''ch:health:state:''"
definition PROBE_LOCK_PREFIX :: string where "PROBE_LOCK_PREFIX = ''ch:health:probe:lock:''"

definition bucket_key :: "int \<Rightarrow> int \<Rightarrow> string" where
  "bucket_key channel_id minute = BUCKET_PREFIX @ show_int channel_id @ '':'' @ show_int minute"

definition state_key :: "int \<Rightarrow> string" where
  "state_key channel_id = STATE_PREFIX @ show_int channel_id"

definition probe_lock_key :: "int \<Rightarrow> string" where
  "probe_lock_key channel_id = PROBE_LOCK_PREFIX @ show_int channel_id"

definition minute_bucket :: "int \<Rightarrow> int" where
  "minute_bucket now = now div 60000"

record health_settings =
  hs_window_seconds :: int
  hs_min_requests :: int
  hs_error_threshold :: rat
  hs_max_probe_failures :: int
  hs_probe_interval_seconds :: int

definition default_health :: health_settings where
  "default_health = \<lparr>hs_window_seconds = 300, hs_min_requests = 10, hs_error_threshold = 1/2,
     hs_max_probe_failures = 5, hs_probe_interval_seconds = 60\<rparr>"

section \<open>Counters\<close>

text \<open>One pipeline: the counters of an outcome and the bucket's deadline.\<close>

definition outcome_pipeline :: "int \<Rightarrow> string \<Rightarrow> bool \<Rightarrow> string option \<Rightarrow> int \<Rightarrow> redis \<Rightarrow> redis" where
  "outcome_pipeline now key success error_class ttl s =
     (let s1 = redis_hincrby now key ''total'' 1 s;
          s2 = (if success then s1
                else (let e = redis_hincrby now key ''error'' 1 s1
                      in if truthy_str error_class then redis_hincrby now key (the error_class) 1 e else e))
      in redis_expire now key ttl s2)"

definition record_request_outcome :: "int \<Rightarrow> int \<Rightarrow> bool \<Rightarrow> string option \<Rightarrow> int \<Rightarrow> redis \<Rightarrow> redis" where
  "record_request_outcome now channel_id success error_class window_seconds s =
     snd (rcall (ruse (outcome_pipeline now (bucket_key channel_id (minute_bucket now)) success error_class
                         (window_seconds + 120))) s)"

definition bucket_count :: "int \<Rightarrow> string \<Rightarrow> string \<Rightarrow> redis \<Rightarrow> int" where
  "bucket_count now key field s = (case redis_hget now key field s of None \<Rightarrow> 0 | Some v \<Rightarrow> v)"

definition window_buckets :: "int \<Rightarrow> int \<Rightarrow> int \<Rightarrow> string list" where
  "window_buckets now channel_id window_seconds =
     map (\<lambda>i. bucket_key channel_id (minute_bucket now - int i)) [0 ..< nat (window_seconds div 60 + 1)]"

definition window_sum :: "int \<Rightarrow> int \<Rightarrow> int \<Rightarrow> string \<Rightarrow> redis \<Rightarrow> int" where
  "window_sum now channel_id window_seconds field s =
     sum_list (map (\<lambda>key. bucket_count now key field s) (window_buckets now channel_id window_seconds))"

definition error_rate :: "int \<Rightarrow> int \<Rightarrow> rat" where
  "error_rate total_n errors = (if 0 < total_n then of_int errors / of_int total_n else 0)"

definition get_error_rate :: "int \<Rightarrow> int \<Rightarrow> int \<Rightarrow> redis \<Rightarrow> (int \<times> int \<times> rat) \<times> redis" where
  "get_error_rate now channel_id window_seconds s =
     (case rcall (rread (\<lambda>s. (window_sum now channel_id window_seconds ''total'' s,
                              window_sum now channel_id window_seconds ''error'' s))) s of
        (None, s1) \<Rightarrow> ((0, 0, 0), s1)
      | (Some (total_n, errors), s1) \<Rightarrow> ((total_n, errors, error_rate total_n errors), s1))"

section \<open>The degraded set, the state hash and the probe lock\<close>

definition add_to_degraded :: "int \<Rightarrow> int \<Rightarrow> redis \<Rightarrow> bool \<times> redis" where
  "add_to_degraded now channel_id s =
     (case rcall (redis_sadd now DEGRADED_SET_KEY (show_int channel_id)) s of
        (None, s1) \<Rightarrow> (False, s1)
      | (Some n, s1) \<Rightarrow> (n \<noteq> 0, s1))"

definition remove_from_degraded :: "int \<Rightarrow> int \<Rightarrow> redis \<Rightarrow> redis" where
  "remove_from_degraded now channel_id s =
     snd (rcall (ruse (redis_srem now DEGRADED_SET_KEY (show_int channel_id))) s)"

definition is_degraded :: "int \<Rightarrow> int \<Rightarrow> redis \<Rightarrow> bool \<times> redis" where
  "is_degraded now channel_id s =
     (case rcall (rread (\<lambda>s. show_int channel_id \<in> set (redis_smembers now DEGRADED_SET_KEY s))) s of
        (None, s1) \<Rightarrow> (False, s1)
      | (Some b, s1) \<Rightarrow> (b, s1))"

fun ints_of :: "string list \<Rightarrow> int list option" where
  "ints_of [] = Some []"
| "ints_of (m # ms) =
     (case py_int_of_str m of None \<Rightarrow> None | Some i \<Rightarrow> map_option (\<lambda>is. i # is) (ints_of ms))"

text \<open>A failed call or a member that is no integer gives the empty set.\<close>

definition get_degraded_channel_ids :: "int \<Rightarrow> redis \<Rightarrow> int list \<times> redis" where
  "get_degraded_channel_ids now s =
     (case rcall (rread (redis_smembers now DEGRADED_SET_KEY)) s of
        (None, s1) \<Rightarrow> ([], s1)
      | (Some ms, s1) \<Rightarrow> (case ints_of ms of None \<Rightarrow> [] | Some is \<Rightarrow> is, s1))"

definition get_channel_state :: "int \<Rightarrow> int \<Rightarrow> redis \<Rightarrow> (string \<times> string) list \<times> redis" where
  "get_channel_state now channel_id s =
     (case rcall (rread (redis_hgetall now (state_key channel_id))) s of
        (None, s1) \<Rightarrow> ([], s1)
      | (Some d, s1) \<Rightarrow> (d, s1))"

definition update_channel_state :: "int \<Rightarrow> int \<Rightarrow> (string \<times> string) list \<Rightarrow> redis \<Rightarrow> redis" where
  "update_channel_state now channel_id fvs s =
     snd (rcall (ruse (redis_hset_text now (state_key channel_id) fvs)) s)"

fun delete_all :: "string list \<Rightarrow> redis \<Rightarrow> redis" where
  "delete_all [] s = s"
| "delete_all (k # ks) s = delete_all ks (redis_delete k s)"

definition clear_channel_state :: "int \<Rightarrow> int \<Rightarrow> redis \<Rightarrow> redis" where
  "clear_channel_state now channel_id s =
     (case rcall (ruse (redis_delete (state_key channel_id))) s of
        (None, s1) \<Rightarrow> s1
      | (Some _, s1) \<Rightarrow>
          snd (rcall (ruse (delete_all
                 (map (\<lambda>i. bucket_key channel_id (minute_bucket now - int i)) [0 ..< 10]))) s1))"

definition acquire_probe_lock :: "int \<Rightarrow> int \<Rightarrow> int \<Rightarrow> redis \<Rightarrow> bool \<times> redis" where
  "acquire_probe_lock now channel_id lock_secs s =
     (case rcall (redis_set_nx now (probe_lock_key channel_id) ''1'' lock_secs) s of
        (None, s1) \<Rightarrow> (False, s1)
      | (Some b, s1) \<Rightarrow> (b, s1))"

definition release_probe_lock :: "int \<Rightarrow> redis \<Rightarrow> redis" where
  "release_probe_lock channel_id s = snd (rcall (ruse (redis_delete (probe_lock_key channel_id))) s)"

section \<open>The service\<close>

definition ROUTER_INVALIDATE :: string where "ROUTER_INVALIDATE = ''gateway:router:invalidate''"

definition publish_invalidation :: "redis \<Rightarrow> redis" where
  "publish_invalidation s = snd (rcall (ruse (redis_publish ROUTER_INVALIDATE ''1'')) s)"

text \<open>\<open>str(round(rate, 3))\<close>, to the nearest thousandth.\<close>

definition rate_text :: "rat \<Rightarrow> string" where
  "rate_text r = show_dec (strip_zeros 2 (\<lfloor>r * 1000 + 1/2\<rfloor>, -3))"

definition record_and_evaluate :: "health_settings \<Rightarrow> int \<Rightarrow> int \<Rightarrow> bool \<Rightarrow> string option \<Rightarrow> redis \<Rightarrow> redis" where
  "record_and_evaluate hs now channel_id success error_class s =
     (let s1 = record_request_outcome now channel_id success error_class (hs_window_seconds hs) s
      in if success then s1
         else (case get_error_rate now channel_id (hs_window_seconds hs) s1 of
                 ((total_n, errors, rate), s2) \<Rightarrow>
                   (if total_n < hs_min_requests hs then s2
                    else if rate \<le> hs_error_threshold hs then s2
                    else (case add_to_degraded now channel_id s2 of
                            (False, s3) \<Rightarrow> s3
                          | (True, s3) \<Rightarrow>
                              publish_invalidation
                                (update_channel_state now channel_id
                                   [(''status'', ''degraded''), (''degraded_since'', show_int (now div 1000)),
                                    (''error_rate'', rate_text rate), (''probe_failures'', ''0'')] s3)))))"

definition record_probe_success :: "int \<Rightarrow> int \<Rightarrow> redis \<Rightarrow> redis" where
  "record_probe_success now channel_id s =
     publish_invalidation (clear_channel_state now channel_id (remove_from_degraded now channel_id s))"

definition record_probe_failure :: "health_settings \<Rightarrow> int \<Rightarrow> int \<Rightarrow> int \<Rightarrow> redis \<Rightarrow> bool \<times> redis" where
  "record_probe_failure hs now channel_id current_failures s =
     (let new_count = current_failures + 1
      in (hs_max_probe_failures hs \<le> new_count,
          update_channel_state now channel_id
            [(''probe_failures'', show_int new_count), (''last_probe_at'', show_int (now div 1000))] s))"

section \<open>The probe task\<close>

record probe_info =
  pi_provider :: string
  pi_upstream_model :: string
  pi_api_key :: string
  pi_api_base :: "string option"

text \<open>\<open>_get_probe_info\<close>; any exception (also of the decryption) gives \<open>None\<close>.\<close>

definition get_probe_info :: "(string \<Rightarrow> string option) \<Rightarrow> int \<Rightarrow> catalog_db \<Rightarrow> probe_info option" where
  "get_probe_info decrypt channel_id db =
     (case (find (\<lambda>c. uc_id c = channel_id) (db_channels db),
            find (\<lambda>k. ck_channel_id k = channel_id \<and> ck_status k = ''active'') (db_keys db),
            find (\<lambda>d. md_channel_id d = channel_id \<and> \<not> md_is_deleted d) (db_deployments db)) of
        (Some c, Some k, Some d) \<Rightarrow>
          map_option (\<lambda>key. \<lparr>pi_provider = uc_provider c, pi_upstream_model = md_upstream_model d,
                             pi_api_key = key, pi_api_base = uc_api_base c\<rparr>) (decrypt (ck_api_key_encrypted k))
      | _ \<Rightarrow> None)"

definition hard_disable_channel :: "bool \<Rightarrow> int \<Rightarrow> catalog_db \<times> redis \<Rightarrow> catalog_db \<times> redis" where
  "hard_disable_channel db_ok channel_id st =
     (case st of (db, s) \<Rightarrow>
       (if db_ok
        then (db\<lparr>db_channels := map (\<lambda>c. if uc_id c = channel_id then c\<lparr>uc_status := ''disabled''\<rparr> else c) (db_channels db)\<rparr>,
              publish_invalidation s)
        else st))"

text \<open>
  \<open>_probe_single_channel\<close>; \<open>False\<close> is the \<open>ValueError\<close> of a malformed failure count.
\<close>

definition probe_single_channel ::
  "(string \<Rightarrow> string option) \<Rightarrow> (probe_info \<Rightarrow> bool) \<Rightarrow> bool \<Rightarrow> health_settings \<Rightarrow> int \<Rightarrow> int
   \<Rightarrow> catalog_db \<times> redis \<Rightarrow> bool \<times> catalog_db \<times> redis" where
  "probe_single_channel decrypt probe db_ok hs now channel_id st =
     (case st of (db, s) \<Rightarrow>
       (case get_probe_info decrypt channel_id db of
          None \<Rightarrow> (True, st)
        | Some info \<Rightarrow>
            (if probe info then (True, db, record_probe_success now channel_id s)
             else (case get_channel_state now channel_id s of (state, s1) \<Rightarrow>
                     (case py_int_of_str (case map_of state ''probe_failures'' of None \<Rightarrow> ''0'' | Some t \<Rightarrow> t) of
                        None \<Rightarrow> (False, db, s1)
                      | Some current \<Rightarrow>
                          (case record_probe_failure hs now channel_id current s1 of
                             (should_disable, s2) \<Rightarrow>
                               (if should_disable then (True, hard_disable_channel db_ok channel_id (db, s2))
                                else (True, db, s2))))))))"

text \<open>The loop over the degraded channels: the number probed, \<open>None\<close> when an exception ended it.\<close>

fun probe_loop ::
  "(string \<Rightarrow> string option) \<Rightarrow> (probe_info \<Rightarrow> bool) \<Rightarrow> bool \<Rightarrow> health_settings \<Rightarrow> int \<Rightarrow> int list \<Rightarrow> int
   \<Rightarrow> catalog_db \<times> redis \<Rightarrow> int option \<times> catalog_db \<times> redis" where
  "probe_loop decrypt probe db_ok hs now [] probed st = (Some probed, st)"
| "probe_loop decrypt probe db_ok hs now (channel_id # ids) probed (db, s) =
     (case acquire_probe_lock now channel_id (hs_probe_interval_seconds hs) s of
        (False, s1) \<Rightarrow> probe_loop decrypt probe db_ok hs now ids probed (db, s1)
      | (True, s1) \<Rightarrow>
          (case probe_single_channel decrypt probe db_ok hs now channel_id (db, s1) of
             (ok, db2, s2) \<Rightarrow>
               (let s3 = release_probe_lock channel_id s2
                in if ok then probe_loop decrypt probe db_ok hs now ids (probed + 1) (db2, s3)
                   else (None, db2, s3))))"

definition probe_degraded_channels ::
  "(string \<Rightarrow> string option) \<Rightarrow> (probe_info \<Rightarrow> bool) \<Rightarrow> bool \<Rightarrow> health_settings \<Rightarrow> int
   \<Rightarrow> catalog_db \<times> redis \<Rightarrow> int option \<times> catalog_db \<times> redis" where
  "probe_degraded_channels decrypt probe db_ok hs now st =
     (case st of (db, s) \<Rightarrow>
       (case get_degraded_channel_ids now s of (ids, s1) \<Rightarrow>
          (if ids = [] then (Some 0, db, s1) else probe_loop decrypt probe db_ok hs now ids 0 (db, s1))))"

end
