(* ===== verification/HealthFacts.thy ===== *)
theory HealthFacts
  imports ChannelHealth
begin

text \<open>
  A channel is degraded exactly on the evidence the settings ask for, the transition is announced once,
  repeated probe failures disable the channel after a bounded number of probes, and an
  outcome without an error code is counted as two errors.
\<close>

lemma keys_apart [simp]:
  "bucket_key c m \<noteq> DEGRADED_SET_KEY" "DEGRADED_SET_KEY \<noteq> bucket_key c m"
  "state_key c \<noteq> DEGRADED_SET_KEY" "DEGRADED_SET_KEY \<noteq> state_key c"
proof -
  have "CHR ''d'' # x \<noteq> show_int c @ y" for x y
    using show_nat_digits [of "nat c"] show_nat_nonempty [of "nat c"]
    by (cases "show_nat (nat c)") (auto simp: show_int_def is_digit_def)
  then show "bucket_key c m \<noteq> DEGRADED_SET_KEY" "DEGRADED_SET_KEY \<noteq> bucket_key c m"
    by (auto simp: bucket_key_def BUCKET_PREFIX_def DEGRADED_SET_KEY_def) metis+
  show "state_key c \<noteq> DEGRADED_SET_KEY" "DEGRADED_SET_KEY \<noteq> state_key c"
    by (auto simp: state_key_def STATE_PREFIX_def DEGRADED_SET_KEY_def)
qed

section \<open>What the commands leave alone\<close>

lemma smembers_frame [simp]:
  "k \<noteq> k' \<Longrightarrow> redis_smembers now k' (redis_hset now k f v s) = redis_smembers now k' s"
  "k \<noteq> k' \<Longrightarrow> redis_smembers now k' (redis_hset_text now k fvs s) = redis_smembers now k' s"
  "k \<noteq> k' \<Longrightarrow> redis_smembers now k' (redis_pexpire now k ms s) = redis_smembers now k' s"
  "redis_smembers now k' (redis_publish ch msg s) = redis_smembers now k' s"
  by (auto simp: redis_smembers_def redis_hset_def redis_hset_text_def redis_pexpire_def redis_publish_def
      evict_if_expired_def expired_def Let_def split: option.splits)

lemma smembers_outcome [simp]:
  "redis_smembers now DEGRADED_SET_KEY (outcome_pipeline now (bucket_key c m) ok ec ttl s) = redis_smembers now DEGRADED_SET_KEY s"
  by (simp add: outcome_pipeline_def redis_hincrby_def redis_expire_def Let_def)

lemma sadd_smembers:
  "redis_sadd now k m s = (n, s') \<Longrightarrow> set (redis_smembers now k s') = insert m (set (redis_smembers now k s))
     \<and> (n = 1 \<longleftrightarrow> m \<notin> set (redis_smembers now k s)) \<and> n \<in> {0, 1}"
  by (auto simp: redis_sadd_def redis_smembers_def evict_if_expired_def expired_def Let_def
      split: option.splits if_splits)

lemma sadd_wire: "redis_sadd now k m s = (n, s') \<Longrightarrow> r_wire s' = r_wire s"
  by (auto simp: redis_sadd_def Let_def split: if_splits)

lemma sadd_published [simp]: "r_published (snd (redis_sadd now k m s)) = r_published s"
  by (simp add: redis_sadd_def evict_if_expired_def Let_def)

lemma published_frame [simp]:
  "r_published (redis_hset now k f v s) = r_published s"
  "r_published (redis_hset_text now k fvs s) = r_published s"
  "r_published (redis_pexpire now k ms s) = r_published s"
  by (simp_all add: redis_hset_def redis_hset_text_def redis_pexpire_def evict_if_expired_def Let_def)

lemma published_outcome [simp]: "r_published (outcome_pipeline now key ok ec ttl s) = r_published s"
  by (simp add: outcome_pipeline_def redis_hincrby_def redis_expire_def Let_def)

lemma outcome_wire [simp]: "r_wire (outcome_pipeline now key ok ec ttl s) = r_wire s"
  by (simp add: outcome_pipeline_def redis_expire_def Let_def)

section \<open>Degrading\<close>

text \<open>The evidence: enough requests in the window and an error rate above the threshold.\<close>

definition evidence :: "health_settings \<Rightarrow> int \<Rightarrow> int \<Rightarrow> redis \<Rightarrow> bool" where
  "evidence hs now channel_id s \<longleftrightarrow>
     (let n = window_sum now channel_id (hs_window_seconds hs) ''total'' s;
          e = window_sum now channel_id (hs_window_seconds hs) ''error'' s
      in hs_min_requests hs \<le> n \<and> hs_error_threshold hs < error_rate n e)"

text \<open>
  A channel is degraded on evidence only, and the routers are told once. Recording an outcome on a
  healthy connection changes the degraded set by at most the channel itself; it adds it exactly when
  the request failed and the counters (this outcome included) show enough requests and an error rate above
  the threshold; and one invalidation is published exactly when the channel was not degraded before.
\<close>

theorem degraded_on_evidence:
  assumes "r_wire s = []" and "s' = record_and_evaluate hs now c success ec s"
    and "t = record_request_outcome now c success ec (hs_window_seconds hs) s"
  shows "set (redis_smembers now DEGRADED_SET_KEY s')
      = set (redis_smembers now DEGRADED_SET_KEY s) \<union> (if \<not> success \<and> evidence hs now c t then {show_int c} else {})
    \<and> r_published s' = r_published s @
        (if \<not> success \<and> evidence hs now c t \<and> show_int c \<notin> set (redis_smembers now DEGRADED_SET_KEY s)
         then [(ROUTER_INVALIDATE, ''1'')] else [])"
proof -
  let ?t = "outcome_pipeline now (bucket_key c (minute_bucket now)) success ec (hs_window_seconds hs + 120) s"
  let ?n = "window_sum now c (hs_window_seconds hs) ''total'' ?t"
  let ?e = "window_sum now c (hs_window_seconds hs) ''error'' ?t"
  have t: "t = ?t" using assms(1,3) by (simp add: record_request_outcome_def ruse_def)
  have w: "r_wire ?t = []" using assms(1) by simp
  obtain n u where add: "redis_sadd now DEGRADED_SET_KEY (show_int c) ?t = (n, u)" by force
  have wu: "r_wire u = []" using sadd_wire [OF add] w by simp
  have pu: "r_published u = r_published s" using add sadd_published [of now DEGRADED_SET_KEY "show_int c" ?t] by simp
  note sa = sadd_smembers [OF add, simplified]
  have ev: "evidence hs now c t \<longleftrightarrow> hs_min_requests hs \<le> ?n \<and> hs_error_threshold hs < error_rate ?n ?e"
    by (simp add: evidence_def Let_def t)
  have gr: "get_error_rate now c (hs_window_seconds hs) ?t = ((?n, ?e, error_rate ?n ?e), ?t)"
    using w by (simp add: get_error_rate_def rread_def)
  have rr: "record_request_outcome now c success ec (hs_window_seconds hs) s = ?t" using t assms(3) by simp
  show ?thesis
  proof (cases "\<not> success \<and> evidence hs now c t")
    case False
    have "s' = ?t" using False gr ev unfolding assms(2) record_and_evaluate_def rr Let_def by auto
    moreover have "set (redis_smembers now DEGRADED_SET_KEY ?t) = set (redis_smembers now DEGRADED_SET_KEY s)" by simp
    ultimately show ?thesis using False by (cases success) simp_all
  next
    case True
    let ?fvs = "[(''status'', ''degraded''), (''degraded_since'', show_int (now div 1000)),
                 (''error_rate'', rate_text (error_rate ?n ?e)), (''probe_failures'', ''0'')]"
    have at: "add_to_degraded now c ?t = (n \<noteq> 0, u)" using add w by (simp add: add_to_degraded_def)
    show ?thesis
    proof (cases "n = 0")
      case True2: True
      have "s' = u" using True gr ev at True2 unfolding assms(2) record_and_evaluate_def rr Let_def by auto
      with True True2 sa pu show ?thesis by auto
    next
      case False
      have "s' = publish_invalidation (update_channel_state now c ?fvs u)"
        using True gr ev at False unfolding assms(2) record_and_evaluate_def rr Let_def by auto
      also have "\<dots> = redis_publish ROUTER_INVALIDATE ''1'' (redis_hset_text now (state_key c) ?fvs u)"
        using wu by (simp add: publish_invalidation_def update_channel_state_def ruse_def)
      finally have s': "s' = redis_publish ROUTER_INVALIDATE ''1'' (redis_hset_text now (state_key c) ?fvs u)" .
      have "r_published s' = r_published s @ [(ROUTER_INVALIDATE, ''1'')]"
        unfolding s' using pu by (simp add: redis_publish_def)
      moreover have "set (redis_smembers now DEGRADED_SET_KEY s') = insert (show_int c) (set (redis_smembers now DEGRADED_SET_KEY s))"
        unfolding s' using sa by simp
      ultimately show ?thesis using True False sa by auto
    qed
  qed
qed

definition failing_bucket :: redis where
  "failing_bucket = redis_hset 600000 (bucket_key 5 10) ''total'' 11 (redis_hset 600000 (bucket_key 5 10) ''error'' 8 empty_redis)"

lemma sample_evidence: "evidence default_health 600000 5
    (record_request_outcome 600000 5 False (Some ''timeout'') 300 failing_bucket)"
  by code_simp

theorem degraded_on_evidence_witness:
  "set (redis_smembers 600000 DEGRADED_SET_KEY (record_and_evaluate default_health 600000 5 False (Some ''timeout'') failing_bucket)) = {''5''}
   \<and> r_published (record_and_evaluate default_health 600000 5 False (Some ''timeout'') failing_bucket) = [(ROUTER_INVALIDATE, ''1'')]"
proof -
  have w: "r_wire failing_bucket = []" by (simp add: failing_bucket_def empty_redis_def)
  have hs: "hs_window_seconds default_health = 300" by (simp add: default_health_def)
  have none: "redis_smembers 600000 DEGRADED_SET_KEY failing_bucket = []" "r_published failing_bucket = []"
    by (simp_all add: failing_bucket_def) (simp_all add: empty_redis_def redis_smembers_def)
  have five: "show_int 5 = ''5''" by code_simp
  show ?thesis
    using degraded_on_evidence [OF w refl refl, where hs = default_health and now = 600000 and c = 5 and success = False and ec = "Some ''timeout''"]
    by (simp add: hs none five sample_evidence)
qed

section \<open>An outcome without an error code\<close>

text \<open>
  The finalizer passes the status text when there is no error code; for the status \<open>error\<close> the
  class has the name of the error counter itself, and one failed request counts as two errors.
\<close>

lemma bare_error_counts_twice:
  "(let s = record_request_outcome 600000 5 False (Some (usage_status_value US_error)) 300 empty_redis
    in window_sum 600000 5 300 ''total'' s = 1 \<and> window_sum 600000 5 300 ''error'' s = 2)"
  by code_simp

section \<open>Probes\<close>

lemma map_of_fold_dict_set: "map_of (fold (\<lambda>(f, v) h. dict_set f v h) fvs h) f
    = (case map_of (rev fvs) f of None \<Rightarrow> map_of h f | Some v \<Rightarrow> Some v)"
  by (induction fvs arbitrary: h) (auto simp: map_add_def split: option.splits)

lemma hgetall_hset:
  "map_of (redis_hgetall now k (redis_hset_text now k fvs s)) f
     = (case map_of (rev fvs) f of None \<Rightarrow> map_of (redis_hgetall now k s) f | Some v \<Rightarrow> Some v)"
  by (auto simp: redis_hgetall_def redis_hset_text_def evict_if_expired_def expired_def Let_def
      map_of_fold_dict_set split: option.splits)

text \<open>The failure count a channel's state holds.\<close>

definition probe_failures :: "int \<Rightarrow> int \<Rightarrow> redis \<Rightarrow> int option" where
  "probe_failures now channel_id s =
     py_int_of_str (case map_of (redis_hgetall now (state_key channel_id) s) ''probe_failures'' of None \<Rightarrow> ''0'' | Some t \<Rightarrow> t)"

text \<open>Failed probes one after the other, at the given times, on a channel that can be probed.\<close>

fun failed_probes :: "(string \<Rightarrow> string option) \<Rightarrow> health_settings \<Rightarrow> int list \<Rightarrow> int \<Rightarrow> catalog_db \<times> redis \<Rightarrow> catalog_db \<times> redis" where
  "failed_probes decrypt hs [] c st = st"
| "failed_probes decrypt hs (now # nows) c st =
     failed_probes decrypt hs nows c (snd (probe_single_channel decrypt (\<lambda>_. False) True hs now c st))"

lemma publish_hgetall [simp]: "redis_hgetall now k (redis_publish ch msg s) = redis_hgetall now k s"
  by (simp add: redis_hgetall_def redis_publish_def expired_def)

lemma hset_text_expiry: "r_expiry s k = None \<Longrightarrow> r_expiry (redis_hset_text now k fvs s) k = None"
  by (simp add: redis_hset_text_def evict_if_expired_def Let_def)

lemma probe_failures_any_time:
  "r_expiry s (state_key c) = None \<Longrightarrow> probe_failures now c s = probe_failures now' c s"
  by (simp add: probe_failures_def redis_hgetall_def expired_def)

definition disabled_row :: "int \<Rightarrow> upstream_channel \<Rightarrow> upstream_channel" where
  "disabled_row c ch = (if uc_id ch = c then ch\<lparr>uc_status := ''disabled''\<rparr> else ch)"

definition disabled_db :: "int \<Rightarrow> catalog_db \<Rightarrow> catalog_db" where
  "disabled_db c db = db\<lparr>db_channels := map (disabled_row c) (db_channels db)\<rparr>"

lemma disabled_row_simps [simp]: "uc_id (disabled_row c ch) = uc_id ch"
  "uc_id ch = c \<Longrightarrow> uc_status (disabled_row c ch) = ''disabled''"
  by (simp_all add: disabled_row_def)

lemma disabled_db_simps [simp]: "db_channels (disabled_db c db) = map (disabled_row c) (db_channels db)"
  "db_keys (disabled_db c db) = db_keys db" "db_deployments (disabled_db c db) = db_deployments db"
  by (simp_all add: disabled_db_def)

lemma hard_disable_healthy:
  "r_wire s = [] \<Longrightarrow> hard_disable_channel True c (db, s) = (disabled_db c db, redis_publish ROUTER_INVALIDATE ''1'' s)"
proof -
  assume "r_wire s = []"
  then have "publish_invalidation s = redis_publish ROUTER_INVALIDATE ''1'' s"
    by (simp add: publish_invalidation_def ruse_def)
  then show ?thesis unfolding hard_disable_channel_def disabled_db_def disabled_row_def prod.case if_True by (rule arg_cong)
qed

lemma disabled_db_disabled: "\<forall>ch\<in>set (db_channels (disabled_db c db)). uc_id ch = c \<longrightarrow> uc_status ch = ''disabled''"
  by simp

lemma find_map: "find P (map f xs) = map_option f (find (P \<circ> f) xs)"
  by (induction xs) auto

lemma disabled_db_probe_info: "get_probe_info decrypt c (disabled_db c db) \<noteq> None \<longleftrightarrow> get_probe_info decrypt c db \<noteq> None"
proof -
  have "find (\<lambda>ch. uc_id ch = c) (db_channels (disabled_db c db))
      = map_option (disabled_row c) (find (\<lambda>ch. uc_id ch = c) (db_channels db))"
    by (simp add: find_map comp_def)
  then show ?thesis by (auto simp: get_probe_info_def simp del: disabled_db_simps(1) split: option.splits)
qed

lemma failed_probe_step:
  assumes "r_wire s = []" and "get_probe_info decrypt c db \<noteq> None" and "r_expiry s (state_key c) = None"
    and "probe_failures now c s = Some n" and "0 \<le> n"
  shows "\<exists>s'. probe_single_channel decrypt (\<lambda>_. False) True hs now c (db, s)
        = (True, if hs_max_probe_failures hs \<le> n + 1 then disabled_db c db else db, s')
    \<and> r_wire s' = [] \<and> r_expiry s' (state_key c) = None \<and> probe_failures now c s' = Some (n + 1)"
proof -
  obtain info where info: "get_probe_info decrypt c db = Some info" using assms(2) by auto
  let ?fvs = "[(''probe_failures'', show_int (n + 1)), (''last_probe_at'', show_int (now div 1000))]"
  define u where "u = redis_hset_text now (state_key c) ?fvs s"
  have count: "py_int_of_str (case map_of (redis_hgetall now (state_key c) s) ''probe_failures'' of None \<Rightarrow> ''0'' | Some t \<Rightarrow> t) = Some n"
    using assms(4) by (simp add: probe_failures_def)
  have cs: "get_channel_state now c s = (redis_hgetall now (state_key c) s, s)"
    using assms(1) by (simp add: get_channel_state_def rread_def)
  have up: "update_channel_state now c ?fvs s = u"
    using assms(1) by (simp add: update_channel_state_def ruse_def u_def)
  have pf: "probe_failures now c u = Some (n + 1)"
    using py_int_of_str_show_int [of "n + 1"] assms(5) by (simp add: probe_failures_def hgetall_hset u_def)
  have w: "r_wire u = []" "r_expiry u (state_key c) = None"
    using assms(1,3) by (simp_all add: u_def hset_text_expiry)
  have rpf: "record_probe_failure hs now c n s = (hs_max_probe_failures hs \<le> n + 1, u)"
    unfolding record_probe_failure_def Let_def up ..
  note run = probe_single_channel_def prod.case info option.case if_False cs count rpf
  show ?thesis
  proof (cases "hs_max_probe_failures hs \<le> n + 1")
    case False
    then have "probe_single_channel decrypt (\<lambda>_. False) True hs now c (db, s) = (True, db, u)"
      unfolding run by simp
    with False w pf show ?thesis by auto
  next
    case True
    have "probe_single_channel decrypt (\<lambda>_. False) True hs now c (db, s)
        = (True, disabled_db c db, redis_publish ROUTER_INVALIDATE ''1'' u)"
      unfolding run using True hard_disable_healthy [OF w(1)] by simp
    moreover have "probe_failures now c (redis_publish ROUTER_INVALIDATE ''1'' u) = Some (n + 1)"
      using pf by (simp add: probe_failures_def)
    ultimately show ?thesis using True w by (simp add: redis_publish_def)
  qed
qed

lemma failed_probes_run:
  assumes "r_wire s = []" and "get_probe_info decrypt c db \<noteq> None" and "r_expiry s (state_key c) = None"
    and "\<And>now. probe_failures now c s = Some n" and "0 \<le> n" and "nows \<noteq> []"
  shows "fst (failed_probes decrypt hs nows c (db, s)) = db \<or> hs_max_probe_failures hs \<le> n + int (length nows)"
    and "hs_max_probe_failures hs \<le> n + int (length nows) \<Longrightarrow>
      \<forall>ch\<in>set (db_channels (fst (failed_probes decrypt hs nows c (db, s)))). uc_id ch = c \<longrightarrow> uc_status ch = ''disabled''"
  using assms
proof (induction nows arbitrary: db s n)
  case (Cons now nows)
  {
    case 1
    obtain s' where s': "probe_single_channel decrypt (\<lambda>_. False) True hs now c (db, s)
        = (True, if hs_max_probe_failures hs \<le> n + 1 then disabled_db c db else db, s')"
      "r_wire s' = []" "r_expiry s' (state_key c) = None" "probe_failures now c s' = Some (n + 1)"
      using failed_probe_step [OF 1(1-4,5), where now = now and hs = hs] by blast
    have pf: "probe_failures now' c s' = Some (n + 1)" for now' using s'(3,4) probe_failures_any_time by metis
    show ?case
    proof (cases "hs_max_probe_failures hs \<le> n + 1 \<or> nows = []")
      case True
      with s'(1) show ?thesis by auto
    next
      case False
      then show ?thesis using Cons.IH(1) [OF s'(2) 1(2) s'(3) pf] s'(1) 1(5) by auto
    qed
  next
    case 2
    obtain s' where s': "probe_single_channel decrypt (\<lambda>_. False) True hs now c (db, s)
        = (True, if hs_max_probe_failures hs \<le> n + 1 then disabled_db c db else db, s')"
      "r_wire s' = []" "r_expiry s' (state_key c) = None" "probe_failures now c s' = Some (n + 1)"
      using failed_probe_step [OF 2(2-5,6), where now = now and hs = hs] by blast
    have pf: "probe_failures now' c s' = Some (n + 1)" for now' using s'(3,4) probe_failures_any_time by metis
    let ?db = "if hs_max_probe_failures hs \<le> n + 1 then disabled_db c db else db"
    have gi: "get_probe_info decrypt c ?db \<noteq> None" using 2(3) disabled_db_probe_info by simp
    show ?case
    proof (cases "nows = []")
      case True
      then show ?thesis using s'(1) 2(1) disabled_db_disabled by simp
    next
      case False
      then show ?thesis using Cons.IH(2) [OF _ s'(2) gi s'(3) pf] s'(1) 2(1,6) by simp
    qed
  }
qed simp_all

text \<open>
  A dead channel is given up after a bounded number of probes. A channel that can be probed, with no
  recorded failure, whose probes keep failing is untouched in the database for fewer than
  \<open>max_probe_failures\<close> probes and is disabled after that many, whatever the times of the probes.
\<close>

theorem probes_give_up:
  assumes "r_wire s = []" and "get_probe_info decrypt c db \<noteq> None" and "r_expiry s (state_key c) = None"
    and "probe_failures now c s = Some 0" and "0 < hs_max_probe_failures hs"
    and "(db', s') = failed_probes decrypt hs nows c (db, s)"
  shows "if int (length nows) < hs_max_probe_failures hs then db' = db
    else \<forall>ch\<in>set (db_channels db'). uc_id ch = c \<longrightarrow> uc_status ch = ''disabled''"
proof -
  have pf: "probe_failures now' c s = Some 0" for now' using assms(3,4) probe_failures_any_time by metis
  note run = failed_probes_run [OF assms(1-3) pf, of nows hs]
  have db': "db' = fst (failed_probes decrypt hs nows c (db, s))" using assms(6) by (metis fst_conv)
  show ?thesis
  proof (cases "nows = []")
    case True
    then show ?thesis using db' assms(5) by simp
  next
    case False
    then show ?thesis using run db' by auto
  qed
qed

definition probe_db :: catalog_db where
  "probe_db =
     \<lparr>db_models = [],
      db_channels = [\<lparr>uc_id = 5, uc_provider = ''openai'', uc_protocol = ''openai'', uc_api_base = None,
                      uc_extra_config = None, uc_status = ''active'', uc_is_deleted = False\<rparr>],
      db_keys = [\<lparr>ck_id = 1, ck_channel_id = 5, ck_api_key_encrypted = ''k'', ck_status = ''active'', ck_rpm_limit = None,
                  ck_tpm_limit = None, ck_weight = 1, ck_priority = 0, ck_is_deleted = False\<rparr>],
      db_deployments = [\<lparr>md_logical_model_id = 1, md_channel_id = 5, md_upstream_model = ''gpt-4o'', md_weight = 1,
                         md_priority = 0, md_status = ''active'', md_is_deleted = False\<rparr>],
      db_grants = [], db_quotas = [], db_rate_limits = []\<rparr>"

abbreviation "probed_db \<equiv> fst (failed_probes Some default_health [0, 60000, 120000, 180000, 240000] 5 (probe_db, empty_redis))"

theorem probes_give_up_witness:
  "get_probe_info Some 5 probe_db \<noteq> None \<and> uc_status (hd (db_channels probe_db)) = ''active''
   \<and> uc_status (hd (db_channels probed_db)) = ''disabled''"
proof -
  have i: "get_probe_info Some 5 probe_db \<noteq> None" by code_simp
  have p: "probe_failures 0 5 empty_redis = Some 0" by code_simp
  have a: "uc_status (hd (db_channels probe_db)) = ''active''" by code_simp
  have ids: "map uc_id (db_channels probed_db) = [5]" by code_simp
  have "\<forall>ch\<in>set (db_channels probed_db). uc_id ch = 5 \<longrightarrow> uc_status ch = ''disabled''"
    using probes_give_up [OF _ i _ p, of default_health "fst (failed_probes Some default_health [0, 60000, 120000, 180000, 240000] 5 (probe_db, empty_redis))"
        "snd (failed_probes Some default_health [0, 60000, 120000, 180000, 240000] 5 (probe_db, empty_redis))" "[0, 60000, 120000, 180000, 240000]"]
    by (simp add: default_health_def empty_redis_def)
  moreover have "hd (db_channels probed_db) \<in> set (db_channels probed_db)" "uc_id (hd (db_channels probed_db)) = 5"
    using ids by (cases "db_channels probed_db"; simp)+
  ultimately show ?thesis using i a by blast
qed

end
