(* ===== verification/Upstream.thy ===== *)
theory Upstream
  imports Service
begin

text \<open>
  What the handlers read from upstream answers (\<open>src/gateway/router.py\<close>,
  \<open>src/gateway/endpoints_v1.py\<close>): token usage in its four shapes, the channel that answered,
  and the usage reported inside raw server-sent events. An answer is a plain JSON value, an object with
  attributes or a list of such. The bytes of an event stream are characters below 256, decoded one to one (what
  the code reads from it is ASCII).
\<close>

datatype pyobj = PV json | PO "(string \<times> pyobj) list" | PL "pyobj list"

definition py_none :: pyobj where "py_none = PV JNull"

text \<open>\<open>getattr(x, name, None)\<close> and \<open>hasattr\<close>; plain values have none of the attributes read here.\<close>

fun py_getattr :: "string \<Rightarrow> pyobj \<Rightarrow> pyobj" where
  "py_getattr k (PO fs) = (case map_of fs k of None \<Rightarrow> py_none | Some v \<Rightarrow> v)"
| "py_getattr k _ = py_none"

fun py_hasattr :: "string \<Rightarrow> pyobj \<Rightarrow> bool" where
  "py_hasattr k (PO fs) = (map_of fs k \<noteq> None)"
| "py_hasattr k _ = False"

fun py_mapping :: "pyobj \<Rightarrow> (string \<times> json) list option" where
  "py_mapping (PV (JObj d)) = Some d"
| "py_mapping _ = None"

text \<open>\<open>getattr(x, k, None)\<close>, then \<open>x.get(k)\<close> when that is \<open>None\<close> and \<open>x\<close> a mapping.\<close>

definition attr_or_item :: "string \<Rightarrow> pyobj \<Rightarrow> pyobj" where
  "attr_or_item k x =
     (if py_getattr k x = py_none
      then (case py_mapping x of None \<Rightarrow> py_none | Some d \<Rightarrow> PV (dget k d))
      else py_getattr k x)"

text \<open>Python's \<open>int(v)\<close>; \<open>None\<close> is \<open>TypeError\<close> or \<open>ValueError\<close>.\<close>

definition py_int :: "json \<Rightarrow> int option" where
  "py_int v =
     (case v of
        JInt i \<Rightarrow> Some i
      | JBool b \<Rightarrow> Some (if b then 1 else 0)
      | JFloat m e \<Rightarrow> Some (py_trunc (of_int m * 10 powi e))
      | JStr t \<Rightarrow> py_int_of_str t
      | _ \<Rightarrow> None)"

fun int_or_zero :: "pyobj \<Rightarrow> int option" where
  "int_or_zero (PV v) = (if truthy v then py_int v else Some 0)"
| "int_or_zero (PO fs) = None"
| "int_or_zero (PL xs) = (if xs = [] then Some 0 else None)"

section \<open>Usage\<close>

record usage =
  us_prompt :: int
  us_completion :: int
  us_total :: int

definition empty_usage :: usage where
  "empty_usage = \<lparr>us_prompt = 0, us_completion = 0, us_total = 0\<rparr>"

definition usage_of :: "int option \<Rightarrow> int option \<Rightarrow> int option \<Rightarrow> usage option" where
  "usage_of p c t =
     (case (p, c, t) of
        (Some p', Some c', Some t') \<Rightarrow> Some \<lparr>us_prompt = p', us_completion = c', us_total = t'\<rparr>
      | _ \<Rightarrow> None)"

definition usage_value :: "pyobj \<Rightarrow> string \<Rightarrow> int option" where
  "usage_value u key =
     (case py_mapping u of
        Some d \<Rightarrow> int_or_zero (PV (dget_default key (JInt 0) d))
      | None \<Rightarrow> if py_hasattr key u then int_or_zero (py_getattr key u) else Some 0)"

text \<open>\<open>None\<close> is an exception.\<close>

definition extract_usage :: "pyobj \<Rightarrow> usage option" where
  "extract_usage response =
     (let u = attr_or_item ''usage'' response
      in if u = py_none then Some empty_usage
         else usage_of (usage_value u ''prompt_tokens'') (usage_value u ''completion_tokens'') (usage_value u ''total_tokens''))"

definition or_else_int :: "int option \<Rightarrow> int option \<Rightarrow> int option" where
  "or_else_int a b = (case a of None \<Rightarrow> None | Some n \<Rightarrow> if n \<noteq> 0 then Some n else b)"

definition plus_opt :: "int option \<Rightarrow> int option \<Rightarrow> int option" where
  "plus_opt a b = (case (a, b) of (Some x, Some y) \<Rightarrow> Some (x + y) | _ \<Rightarrow> None)"

definition extract_embedding_usage :: "pyobj \<Rightarrow> usage option" where
  "extract_embedding_usage response =
     (let u = attr_or_item ''usage'' response;
          p = (if u = py_none then Some 0 else usage_value u ''prompt_tokens'');
          t = (if u = py_none then Some 0 else usage_value u ''total_tokens'')
      in usage_of p (Some 0) (or_else_int t p))"

text \<open>A terminal event of a stream wraps the response that carries the usage.\<close>

definition extract_responses_usage :: "pyobj \<Rightarrow> usage option" where
  "extract_responses_usage response =
     (let u0 = attr_or_item ''usage'' response;
          inner = attr_or_item ''response'' response;
          u = (if u0 = py_none \<and> inner \<noteq> py_none then attr_or_item ''usage'' inner else u0)
      in if u = py_none then Some empty_usage
         else (let p = usage_value u ''input_tokens''; c = usage_value u ''output_tokens''
               in usage_of p c (or_else_int (usage_value u ''total_tokens'') (plus_opt p c))))"

text \<open>\<open>(x or {}).get(key, 0)\<close> through \<open>int\<close>: something truthy that is no mapping raises.\<close>

definition or_empty :: "json \<Rightarrow> (string \<times> json) list option" where
  "or_empty v = (if \<not> truthy v then Some [] else (case v of JObj d \<Rightarrow> Some d | _ \<Rightarrow> None))"

definition int_item :: "string \<Rightarrow> (string \<times> json) list \<Rightarrow> int option" where
  "int_item k d = py_int (dget_default k (JInt 0) d)"

definition extract_anthropic_usage :: "pyobj \<Rightarrow> usage option" where
  "extract_anthropic_usage response =
     (case py_mapping response of
        Some d \<Rightarrow>
          (case or_empty (dget ''usage'' d) of
             None \<Rightarrow> None
           | Some u \<Rightarrow> usage_of (int_item ''input_tokens'' u) (int_item ''output_tokens'' u)
                        (plus_opt (int_item ''input_tokens'' u) (int_item ''output_tokens'' u)))
      | None \<Rightarrow>
          (let u = py_getattr ''usage'' response
           in if py_hasattr ''usage'' response \<and> py_hasattr ''input_tokens'' u
              then (let i = int_or_zero (py_getattr ''input_tokens'' u); c = int_or_zero (py_getattr ''output_tokens'' u)
                    in usage_of i c (plus_opt i c))
              else Some empty_usage))"

definition extract_gemini_usage_from_response :: "pyobj \<Rightarrow> usage option" where
  "extract_gemini_usage_from_response response =
     (case py_mapping response of
        Some d \<Rightarrow>
          (case or_empty (dget ''usageMetadata'' d) of
             None \<Rightarrow> None
           | Some u \<Rightarrow>
               (let p = int_item ''promptTokenCount'' u; c = int_item ''candidatesTokenCount'' u
                in usage_of p c (or_else_int (int_item ''totalTokenCount'' u) (plus_opt p c))))
      | None \<Rightarrow>
          (let u = py_getattr ''usage_metadata'' response
           in if u \<noteq> py_none
              then usage_of (int_or_zero (py_getattr ''prompt_token_count'' u))
                     (int_or_zero (py_getattr ''candidates_token_count'' u)) (int_or_zero (py_getattr ''total_token_count'' u))
              else Some empty_usage))"

section \<open>The channel that answered\<close>

definition str_of :: "json \<Rightarrow> string option" where
  "str_of v = (case v of JStr t \<Rightarrow> Some t | _ \<Rightarrow> None)"

definition obj_str :: "pyobj \<Rightarrow> string option" where
  "obj_str x = (case x of PV v \<Rightarrow> str_of v | _ \<Rightarrow> None)"

text \<open>\<open>int(raw)\<close> with its errors suppressed; an absent id has none.\<close>

definition suppressed_int :: "json \<Rightarrow> int option" where
  "suppressed_int v = (if v = JNull then None else py_int v)"

definition dict_item :: "string \<Rightarrow> (string \<times> json) list \<Rightarrow> (string \<times> json) list" where
  "dict_item k d = (case dget k d of JObj m \<Rightarrow> m | _ \<Rightarrow> [])"

definition channel_id_from_metadata :: "(string \<times> json) list \<Rightarrow> int option" where
  "channel_id_from_metadata meta = suppressed_int (dget ''id'' (dict_item ''model_info'' meta))"

definition hidden_model_info :: "pyobj \<Rightarrow> (string \<times> json) list" where
  "hidden_model_info response =
     (case py_mapping (attr_or_item ''_hidden_params'' response) of None \<Rightarrow> [] | Some d \<Rightarrow> dict_item ''model_info'' d)"

definition response_model :: "pyobj \<Rightarrow> string option" where
  "response_model response =
     (if py_hasattr ''model'' response then obj_str (py_getattr ''model'' response)
      else (case py_mapping response of None \<Rightarrow> None | Some d \<Rightarrow> str_of (dget ''model'' d)))"

definition qualified_model :: "(string \<times> json) list \<Rightarrow> string \<Rightarrow> string" where
  "qualified_model info m =
     (case dget ''provider'' info of
        JStr p \<Rightarrow> if starts_with (p @ ''/'') m then m else p @ ''/'' @ m
      | _ \<Rightarrow> m)"

definition extract_routing_info :: "pyobj \<Rightarrow> int option \<times> string option" where
  "extract_routing_info response =
     (let info = hidden_model_info response
      in (suppressed_int (dget ''id'' info),
          case dget ''upstream_model'' info of JStr m \<Rightarrow> Some (qualified_model info m) | _ \<Rightarrow> response_model response))"

definition provider_from_response :: "pyobj \<Rightarrow> string option" where
  "provider_from_response response =
     (case dget ''provider'' (hidden_model_info response) of
        JStr p \<Rightarrow> Some p
      | _ \<Rightarrow> (case snd (extract_routing_info response) of
                None \<Rightarrow> None
              | Some m \<Rightarrow> map_option fst (split_first CHR ''/'' m)))"

definition provider_from_metadata :: "(string \<times> json) list \<Rightarrow> string option" where
  "provider_from_metadata meta =
     (case dget ''provider'' (dict_item ''model_info'' meta) of
        JStr p \<Rightarrow> Some p
      | _ \<Rightarrow> (case dget ''deployment'' meta of JStr d \<Rightarrow> map_option fst (split_first CHR ''/'' d) | _ \<Rightarrow> None))"

section \<open>Failures of the upstream call\<close>

text \<open>The classes of exception the handlers tell apart; an \<open>AppError\<close> can only come from a missing router.\<close>

datatype upstream_exc = XRateLimit | XTimeout | XOther

definition upstream_error :: "upstream_exc \<Rightarrow> app_error" where
  "upstream_error x =
     (case x of
        XRateLimit \<Rightarrow> app_err EC_upstream_rate_limited 429
      | XTimeout \<Rightarrow> app_err EC_upstream_timeout 504
      | XOther \<Rightarrow> app_err EC_upstream_error 502)"

definition usage_status_for_exception :: "upstream_exc \<Rightarrow> string" where
  "usage_status_for_exception x = (case x of XTimeout \<Rightarrow> usage_status_value US_timeout | _ \<Rightarrow> usage_status_value US_error)"

section \<open>Usage inside event streams\<close>

text \<open>\<open>text.split(newline)\<close>: never empty.\<close>

fun split_lines :: "string \<Rightarrow> string list" where
  "split_lines [] = [[]]"
| "split_lines (c # cs) =
     (if c = CHR 0x0A then [] # split_lines cs
      else (case split_lines cs of l # ls \<Rightarrow> (c # l) # ls | [] \<Rightarrow> [[c]]))"

text \<open>What one complete line does to the usage; \<open>None\<close> is an exception that leaves the accumulator.\<close>

definition anthropic_event :: "(string \<times> json) list \<Rightarrow> usage \<Rightarrow> usage option" where
  "anthropic_event data u =
     (let event_type = dget_default ''type'' (JStr []) data
      in if event_type = JStr ''message_start''
         then (case or_empty (dget ''message'' data) of
                 None \<Rightarrow> None
               | Some msg \<Rightarrow>
                   (case or_empty (dget ''usage'' msg) of
                      None \<Rightarrow> None
                    | Some mu \<Rightarrow>
                        map_option (\<lambda>n. if n \<noteq> 0 then u\<lparr>us_prompt := n, us_total := n + us_completion u\<rparr> else u)
                          (int_item ''input_tokens'' mu)))
         else if event_type = JStr ''message_delta''
         then (case or_empty (dget ''usage'' data) of
                 None \<Rightarrow> None
               | Some du \<Rightarrow>
                   map_option (\<lambda>n. if n \<noteq> 0 then u\<lparr>us_completion := n, us_total := us_prompt u + n\<rparr> else u)
                     (int_item ''output_tokens'' du))
         else Some u)"

definition gemini_event :: "(string \<times> json) list \<Rightarrow> usage \<Rightarrow> usage option" where
  "gemini_event data u =
     (let meta = dget ''usageMetadata'' data
      in if \<not> truthy meta then Some u
         else (case meta of
                 JObj m \<Rightarrow>
                   map_option (\<lambda>v. if us_total v \<noteq> 0 then v else u)
                     (usage_of (int_item ''promptTokenCount'' m) (int_item ''candidatesTokenCount'' m)
                        (int_item ''totalTokenCount'' m))
               | _ \<Rightarrow> None))"

definition sse_line :: "((string \<times> json) list \<Rightarrow> usage \<Rightarrow> usage option) \<Rightarrow> string \<Rightarrow> usage \<Rightarrow> usage option" where
  "sse_line event line u =
     (if \<not> starts_with ''data: '' line then Some u
      else (case loads (drop 6 line) of
              None \<Rightarrow> Some u
            | Some (JObj data) \<Rightarrow> event data u
            | Some _ \<Rightarrow> None))"

fun sse_lines :: "((string \<times> json) list \<Rightarrow> usage \<Rightarrow> usage option) \<Rightarrow> string list \<Rightarrow> usage \<Rightarrow> bool \<times> usage" where
  "sse_lines event [] u = (True, u)"
| "sse_lines event (line # rest) u =
     (case sse_line event line u of
        None \<Rightarrow> (False, u)
      | Some u' \<Rightarrow> sse_lines event rest u')"

text \<open>
  One chunk: its text after what the buffer held, all complete lines handled, the unfinished last line kept.
  The usage is what had been counted when an exception left it.
\<close>

definition accumulate_usage ::
  "((string \<times> json) list \<Rightarrow> usage \<Rightarrow> usage option) \<Rightarrow> string \<Rightarrow> usage \<times> string \<Rightarrow> bool \<times> usage \<times> string" where
  "accumulate_usage event chunk st =
     (case st of (u, buffer) \<Rightarrow>
       (let ls = split_lines (buffer @ chunk)
        in case sse_lines event (butlast ls) u of (ok, u') \<Rightarrow> (ok, u', last ls)))"

definition accumulate_anthropic_usage :: "string \<Rightarrow> usage \<times> string \<Rightarrow> bool \<times> usage \<times> string" where
  "accumulate_anthropic_usage chunk st = accumulate_usage anthropic_event chunk st"

definition accumulate_gemini_usage :: "string \<Rightarrow> usage \<times> string \<Rightarrow> bool \<times> usage \<times> string" where
  "accumulate_gemini_usage chunk st = accumulate_usage gemini_event chunk st"

end
