(* ===== verification/UpstreamFacts.thy ===== *)
theory UpstreamFacts
  imports Upstream
begin

text \<open>
  Counting usage in an event stream does not depend on how the network cuts the stream into
  chunks, an unfinished last line is never counted, and a well-formed event is counted as it says.
\<close>

lemma split_lines_nonempty [simp]: "split_lines s \<noteq> []"
  by (cases s) (auto split: list.splits)

lemma split_lines_Cons: "c \<noteq> CHR 0x0A \<Longrightarrow> split_lines (c # cs) = (c # hd (split_lines cs)) # tl (split_lines cs)"
  by (cases "split_lines cs") auto

lemma split_lines_append:
  "split_lines (a @ b) = butlast (split_lines a) @ split_lines (last (split_lines a) @ b)"
proof (induction a)
  case (Cons c cs)
  show ?case
  proof (cases "c = CHR 0x0A")
    case True
    then show ?thesis using Cons by simp
  next
    case False
    obtain l ls where cs: "split_lines cs = l # ls" by (cases "split_lines cs") auto
    show ?thesis
    proof (cases ls)
      case Nil
      then show ?thesis using False Cons cs split_lines_Cons [OF False, of "l @ b"] split_lines_Cons [OF False, of "cs @ b"] by simp
    next
      case (Cons m ms)
      then show ?thesis using False Cons.IH cs split_lines_Cons [OF False, of "cs @ b"] by simp
    qed
  qed
qed simp

lemma split_lines_single: "CHR 0x0A \<notin> set s \<Longrightarrow> split_lines s = [s]"
  by (induction s) auto

lemma last_line_open: "CHR 0x0A \<notin> set (last (split_lines s))"
proof (induction s)
  case (Cons c cs)
  then show ?case by (cases "split_lines cs") auto
qed simp

lemma sse_lines_append:
  "sse_lines event (xs @ ys) u = (case sse_lines event xs u of (False, v) \<Rightarrow> (False, v) | (True, v) \<Rightarrow> sse_lines event ys v)"
  by (induction xs arbitrary: u) (auto split: option.splits)

text \<open>The chunks of a stream one after the other; the first exception ends it.\<close>

fun accumulate_all ::
  "((string \<times> json) list \<Rightarrow> usage \<Rightarrow> usage option) \<Rightarrow> string list \<Rightarrow> usage \<times> string \<Rightarrow> bool \<times> usage \<times> string" where
  "accumulate_all event [] st = (True, st)"
| "accumulate_all event (chunk # chunks) st =
     (case accumulate_usage event chunk st of
        (False, u, b) \<Rightarrow> (False, u, b)
      | (True, u, b) \<Rightarrow> accumulate_all event chunks (u, b))"

lemma accumulate_twice:
  assumes "accumulate_usage event a (u, buf) = (ok, v, b)"
  shows "accumulate_usage event (a @ c) (u, buf)
      = (if ok then accumulate_usage event c (v, b) else (False, v, last (split_lines (buf @ a @ c))))"
proof -
  let ?ls = "split_lines (buf @ a)"
  have b: "b = last ?ls" and run: "sse_lines event (butlast ?ls) u = (ok, v)"
    using assms by (auto simp: accumulate_usage_def Let_def split: prod.splits)
  have sp: "split_lines (buf @ a @ c) = butlast ?ls @ split_lines (b @ c)"
    using split_lines_append [of "buf @ a" c] b by simp
  then have "butlast (split_lines (buf @ a @ c)) = butlast ?ls @ butlast (split_lines (b @ c))"
    "last (split_lines (buf @ a @ c)) = last (split_lines (b @ c))"
    by (simp_all add: butlast_append)
  then show ?thesis
    using run by (cases ok) (auto simp: accumulate_usage_def Let_def sse_lines_append split: prod.splits)
qed

lemma accumulate_buffer_open:
  "accumulate_usage event a st = (ok, v, b) \<Longrightarrow> CHR 0x0A \<notin> set b"
  using last_line_open by (auto simp: accumulate_usage_def Let_def split: prod.splits)

lemma accumulate_nothing: "CHR 0x0A \<notin> set buf \<Longrightarrow> accumulate_usage event [] (u, buf) = (True, u, buf)"
  by (simp add: accumulate_usage_def split_lines_single)

lemma accumulate_all_concat:
  assumes "CHR 0x0A \<notin> set buf"
  shows "fst (accumulate_all event chunks (u, buf)) = fst (accumulate_usage event (concat chunks) (u, buf))
    \<and> fst (snd (accumulate_all event chunks (u, buf))) = fst (snd (accumulate_usage event (concat chunks) (u, buf)))"
  using assms
proof (induction chunks arbitrary: u buf)
  case (Cons a chunks)
  obtain ok v b where a: "accumulate_usage event a (u, buf) = (ok, v, b)" by (metis prod_cases3)
  note two = accumulate_twice [OF a, of "concat chunks"]
  show ?case using Cons.IH [OF accumulate_buffer_open [OF a], of v] two a by (cases ok) auto
qed (simp add: accumulate_nothing)

lemma anthropic_event_adds: "us_total u = us_prompt u + us_completion u \<Longrightarrow> anthropic_event d u = Some v \<Longrightarrow> us_total v = us_prompt v + us_completion v"
  by (auto simp: anthropic_event_def Let_def split: if_splits option.splits)

lemma anthropic_lines_add:
  "us_total u = us_prompt u + us_completion u \<Longrightarrow> us_total (snd (sse_lines anthropic_event ls u)) = us_prompt (snd (sse_lines anthropic_event ls u)) + us_completion (snd (sse_lines anthropic_event ls u))"
proof (induction ls arbitrary: u)
  case (Cons l ls)
  show ?case
  proof (cases "sse_line anthropic_event l u")
    case None
    with Cons.prems show ?thesis by simp
  next
    case (Some v)
    have "us_total v = us_prompt v + us_completion v"
      using Some Cons.prems anthropic_event_adds
      by (auto simp: sse_line_def split: if_splits option.splits json.splits)
    with Cons.IH [of v] Some show ?thesis by simp
  qed
qed simp

text \<open>
  Billing does not depend on the network. However an event stream is cut into chunks, the usage counted
  for it (and whether counting failed) is that of the stream read in one piece; and an Anthropic total is
  always the sum of its parts.
\<close>

theorem usage_ignores_chunking:
  "(concat cs = concat ds \<longrightarrow>
      (fst (accumulate_all anthropic_event cs (empty_usage, [])), fst (snd (accumulate_all anthropic_event cs (empty_usage, []))))
        = (fst (accumulate_all anthropic_event ds (empty_usage, [])), fst (snd (accumulate_all anthropic_event ds (empty_usage, []))))
    \<and> (fst (accumulate_all gemini_event cs (empty_usage, [])), fst (snd (accumulate_all gemini_event cs (empty_usage, []))))
        = (fst (accumulate_all gemini_event ds (empty_usage, [])), fst (snd (accumulate_all gemini_event ds (empty_usage, [])))))
   \<and> (let u = fst (snd (accumulate_all anthropic_event cs (empty_usage, []))) in us_total u = us_prompt u + us_completion u)"
proof -
  have "fst (snd (accumulate_usage anthropic_event x (empty_usage, []))) = snd (sse_lines anthropic_event (butlast (split_lines x)) empty_usage)" for x
    by (simp add: accumulate_usage_def Let_def split: prod.split)
  then show ?thesis
    using accumulate_all_concat [of "[]" _ cs empty_usage] accumulate_all_concat [of "[]" _ ds empty_usage]
      anthropic_lines_add [of empty_usage] by (simp add: Let_def) (simp add: empty_usage_def)
qed

definition sample_stream :: string where
  "sample_stream = ''data: '' @ dumps (JObj [(''type'', JStr ''message_start''),
       (''message'', JObj [(''usage'', JObj [(''input_tokens'', JInt 12)])])]) @ [CHR 0x0A]
     @ ''data: '' @ dumps (JObj [(''type'', JStr ''message_delta''), (''usage'', JObj [(''output_tokens'', JInt 5)])]) @ [CHR 0x0A]"

lemma sample_stream_line: "loads (dumps (JObj d)) = Some (JObj d) \<Longrightarrow>
  sse_line event (''data: '' @ dumps (JObj d)) u = event d u"
  by (simp add: sse_line_def starts_with_def)

theorem usage_ignores_chunking_witness:
  "fst (snd (accumulate_all anthropic_event [take 20 sample_stream, drop 20 sample_stream] (empty_usage, [])))
     = fst (snd (accumulate_all anthropic_event [sample_stream] (empty_usage, [])))"
proof -
  have "concat [take 20 sample_stream, drop 20 sample_stream] = concat [sample_stream]" by simp
  with usage_ignores_chunking [of "[take 20 sample_stream, drop 20 sample_stream]" "[sample_stream]"] show ?thesis
    by (simp only: prod.inject)
qed

end
