(* ===== verification/Finalize.thy ===== *)
theory Finalize
  imports ChannelHealth Events Service
begin

text \<open>
  \<open>src/gateway/context.py\<close> and \<open>src/gateway/finalize.py\<close>: the request context that
  collects what happened to one call, and the six steps that run once after it: quota settlement,
  the usage event, the log event, the metrics (\<open>src/core/metrics.py\<close>), channel health and the
  settlement of the reserved tokens. \<open>exc\<close> is the text of the exception a failed step records.
\<close>

section \<open>The request context\<close>

record gctx =
  cx_request_id :: string
  cx_user_id :: int
  cx_department_id :: "int option"
  cx_api_key_id :: "int option"
  cx_requested_model :: "string option"
  cx_logical_model_id :: "int option"
  cx_logical_model_name :: "string option"
  cx_channel_id :: "int option"
  cx_upstream_model :: "string option"
  cx_provider :: "string option"
  cx_started_at :: rat
  cx_ttft_ms :: "int option"
  cx_latency_ms :: "int option"
  cx_prompt_tokens :: int
  cx_completion_tokens :: int
  cx_total_tokens :: int
  cx_cost :: "dec option"
  cx_status :: string
  cx_error_code :: "string option"
  cx_error_body :: "string option"
  cx_http_status_code :: int
  cx_stream :: bool
  cx_cache_hit :: bool
  cx_retry_count :: int
  cx_fallback_used :: bool
  cx_downgraded_features :: "string list option"
  cx_quota_reserved :: bool
  cx_quota_settled :: bool
  cx_quota_reservations :: "quota_reservation list"
  cx_tpm_estimated_tokens :: int

definition new_ctx :: "string \<Rightarrow> rat \<Rightarrow> gctx" where
  "new_ctx request_id started_at =
     \<lparr>cx_request_id = request_id, cx_user_id = 0, cx_department_id = None, cx_api_key_id = None,
      cx_requested_model = None, cx_logical_model_id = None, cx_logical_model_name = None, cx_channel_id = None,
      cx_upstream_model = None, cx_provider = None, cx_started_at = started_at, cx_ttft_ms = None,
      cx_latency_ms = None, cx_prompt_tokens = 0, cx_completion_tokens = 0, cx_total_tokens = 0, cx_cost = None,
      cx_status = usage_status_value US_success, cx_error_code = None, cx_error_body = None,
      cx_http_status_code = 200, cx_stream = False, cx_cache_hit = False, cx_retry_count = 0,
      cx_fallback_used = False, cx_downgraded_features = None, cx_quota_reserved = False,
      cx_quota_settled = False, cx_quota_reservations = [], cx_tpm_estimated_tokens = 0\<rparr>"

text \<open>The monotonic clock in seconds.\<close>

definition record_latency :: "rat \<Rightarrow> gctx \<Rightarrow> gctx" where
  "record_latency mclock c = c\<lparr>cx_latency_ms := Some (py_trunc ((mclock - cx_started_at c) * 1000))\<rparr>"

definition record_ttft :: "rat \<Rightarrow> gctx \<Rightarrow> gctx" where
  "record_ttft mclock c =
     (if cx_ttft_ms c = None then c\<lparr>cx_ttft_ms := Some (py_trunc ((mclock - cx_started_at c) * 1000))\<rparr> else c)"

definition set_usage :: "int \<Rightarrow> int \<Rightarrow> int \<Rightarrow> gctx \<Rightarrow> gctx" where
  "set_usage prompt_tokens completion_tokens total_tokens c =
     c\<lparr>cx_prompt_tokens := prompt_tokens, cx_completion_tokens := completion_tokens, cx_total_tokens := total_tokens\<rparr>"

definition mark_error :: "string \<Rightarrow> int \<Rightarrow> string option \<Rightarrow> string option \<Rightarrow> gctx \<Rightarrow> gctx" where
  "mark_error status http_status_code code body c =
     (let c1 = c\<lparr>cx_status := status, cx_http_status_code := http_status_code, cx_error_code := code\<rparr>
      in case body of None \<Rightarrow> c1 | Some b \<Rightarrow> c1\<lparr>cx_error_body := Some (take 2048 b)\<rparr>)"

section \<open>Metrics\<close>

datatype metric =
    MRequest string string string string
  | MLatency string string string rat
  | MTtft string string rat
  | MTokens string string string int
  | MError string string string
  | MCacheHit string

definition emit_request_metrics ::
  "string \<Rightarrow> string \<Rightarrow> int \<Rightarrow> string \<Rightarrow> rat \<Rightarrow> rat option \<Rightarrow> int \<Rightarrow> int \<Rightarrow> bool \<Rightarrow> metric list" where
  "emit_request_metrics model provider status_code code latency_seconds ttft_seconds prompt_tokens completion_tokens cache_hit =
     (let sc = show_int status_code
      in [MRequest model provider sc code, MLatency model provider sc latency_seconds]
         @ (case ttft_seconds of None \<Rightarrow> [] | Some t \<Rightarrow> [MTtft model provider t])
         @ (if 0 < prompt_tokens then [MTokens model provider ''prompt'' prompt_tokens] else [])
         @ (if 0 < completion_tokens then [MTokens model provider ''completion'' completion_tokens] else [])
         @ (if code \<noteq> [] then [MError provider code sc] else [])
         @ (if cache_hit then [MCacheHit model] else []))"

definition text_or :: "string option \<Rightarrow> string \<Rightarrow> string" where
  "text_or v d = (case v of None \<Rightarrow> d | Some t \<Rightarrow> if t = [] then d else t)"

definition emit_metrics :: "gctx \<Rightarrow> metric list" where
  "emit_metrics c =
     emit_request_metrics (text_or (or_str (cx_logical_model_name c) (cx_requested_model c)) ''unknown'')
       (text_or (cx_provider c) ''unknown'') (cx_http_status_code c) (text_or (cx_error_code c) [])
       (case cx_latency_ms c of None \<Rightarrow> 0 | Some ms \<Rightarrow> of_int ms / 1000)
       (map_option (\<lambda>ms. of_int ms / 1000) (cx_ttft_ms c))
       (cx_prompt_tokens c) (cx_completion_tokens c) (cx_cache_hit c)"

section \<open>Settlement of the quota\<close>

definition billing_detail :: "gctx \<Rightarrow> (string \<times> json) list" where
  "billing_detail c =
     [(''user_id'', JInt (cx_user_id c)), (''logical_model_id'', opt_int_json (cx_logical_model_id c)),
      (''total_tokens'', JInt (cx_total_tokens c))]"

text \<open>
  \<open>_settle_quota\<close>; \<open>model\<close> and \<open>has_service\<close> are the optional arguments of the
  finalizer. A raised settlement goes to the billing dead letters.
\<close>

definition settle_quota :: "int \<Rightarrow> string \<Rightarrow> model_core option \<Rightarrow> bool \<Rightarrow> gctx \<Rightarrow> estate \<Rightarrow> gctx \<times> estate" where
  "settle_quota now exc model has_service c st =
     (if cx_quota_settled c \<or> \<not> cx_quota_reserved c then (c, st)
      else case (st, model) of
        ((s, boxes), Some m) \<Rightarrow>
          (if \<not> has_service then (c, st)
           else if cx_quota_reservations c = [] then (c, st)
           else
             (case (if cx_prompt_tokens c = 0 \<and> cx_completion_tokens c = 0
                    then compensate_reservations now (cx_quota_reservations c) s
                    else settle_reservations now (cx_quota_reservations c) (cx_total_tokens c)
                           (compute_cost m (cx_prompt_tokens c) (cx_completion_tokens c)) s) of
                (True, s1) \<Rightarrow> (c\<lparr>cx_quota_settled := True\<rparr>, (s1, boxes))
              | (False, s1) \<Rightarrow>
                  (c, record_billing_failure now ''quota_settle'' (cx_request_id c) exc (billing_detail c) (s1, boxes))))
      | (_, None) \<Rightarrow> (c, st))"

section \<open>The events\<close>

definition opt_str_json :: "string option \<Rightarrow> json" where
  "opt_str_json v = (case v of None \<Rightarrow> JNull | Some t \<Rightarrow> JStr t)"

definition usage_payload :: "dec option \<Rightarrow> gctx \<Rightarrow> (string \<times> json) list" where
  "usage_payload cost c =
     [(''request_id'', JStr (cx_request_id c)), (''user_id'', JInt (cx_user_id c)),
      (''api_key_id'', opt_int_json (cx_api_key_id c)), (''logical_model_id'', opt_int_json (cx_logical_model_id c)),
      (''logical_model_name'', opt_str_json (cx_logical_model_name c)), (''channel_id'', opt_int_json (cx_channel_id c)),
      (''upstream_model'', opt_str_json (cx_upstream_model c)), (''prompt_tokens'', JInt (cx_prompt_tokens c)),
      (''completion_tokens'', JInt (cx_completion_tokens c)), (''total_tokens'', JInt (cx_total_tokens c)),
      (''cost'', opt_dec_json cost), (''status'', JStr (cx_status c)), (''latency_ms'', opt_int_json (cx_latency_ms c)),
      (''cache_hit'', JBool (cx_cache_hit c)),
      (''downgraded_features'', case cx_downgraded_features c of None \<Rightarrow> JNull | Some fs \<Rightarrow> JArr (map JStr fs))]"

definition model_cost :: "model_core option \<Rightarrow> gctx \<Rightarrow> dec option" where
  "model_cost model c =
     (case model of None \<Rightarrow> None | Some m \<Rightarrow> compute_cost m (cx_prompt_tokens c) (cx_completion_tokens c))"

text \<open>Enqueueing answers with a truth value and does not raise on a lost call.\<close>

definition enqueue_usage :: "int \<Rightarrow> model_core option \<Rightarrow> gctx \<Rightarrow> estate \<Rightarrow> estate" where
  "enqueue_usage now model c st = snd (enqueue_usage_event now (usage_payload (model_cost model c) c) st)"

definition log_payload :: "gctx \<Rightarrow> (string \<times> json) list" where
  "log_payload c =
     [(''request_id'', JStr (cx_request_id c)), (''user_id'', JInt (cx_user_id c)),
      (''api_key_id'', opt_int_json (cx_api_key_id c)), (''logical_model_id'', opt_int_json (cx_logical_model_id c)),
      (''model'', opt_str_json (or_str (cx_logical_model_name c) (cx_requested_model c))),
      (''channel_id'', opt_int_json (cx_channel_id c)), (''upstream_model'', opt_str_json (cx_upstream_model c)),
      (''provider'', opt_str_json (cx_provider c)), (''status_code'', JInt (cx_http_status_code c)),
      (''error_code'', opt_str_json (cx_error_code c)), (''error_body'', opt_str_json (cx_error_body c)),
      (''retry_count'', JInt (cx_retry_count c)), (''fallback_used'', JBool (cx_fallback_used c)),
      (''latency_ms'', opt_int_json (cx_latency_ms c)), (''ttft_ms'', opt_int_json (cx_ttft_ms c)),
      (''tokens_in'', JInt (cx_prompt_tokens c)), (''tokens_out'', JInt (cx_completion_tokens c)),
      (''cache_hit'', JBool (cx_cache_hit c)), (''stream'', JBool (cx_stream c))]"

definition enqueue_log :: "int \<Rightarrow> gctx \<Rightarrow> estate \<Rightarrow> estate" where
  "enqueue_log now c st = snd (enqueue_log_event now (log_payload c) st)"

section \<open>Channel health and the reserved tokens\<close>

definition record_channel_health :: "health_settings \<Rightarrow> int \<Rightarrow> gctx \<Rightarrow> estate \<Rightarrow> estate" where
  "record_channel_health hs now c st =
     (case cx_channel_id c of
        None \<Rightarrow> st
      | Some ch \<Rightarrow>
          (let success = (cx_status c = usage_status_value US_success);
               error_class = (if success then None else or_str (cx_error_code c) (Some (cx_status c)))
           in (record_and_evaluate hs now ch success error_class (fst st), snd st)))"

definition rule_identity :: "rl_rule \<Rightarrow> json" where
  "rule_identity r = JObj
     [(''id'', JInt (rl_id r)), (''subject_type'', JStr (rl_subject_type r)),
      (''subject_id'', opt_int_json (rl_subject_id r)), (''logical_model_id'', opt_int_json (rl_model_id r))]"

definition reserved_tokens :: "gctx \<Rightarrow> int" where
  "reserved_tokens c = (if cx_tpm_estimated_tokens c \<noteq> 0 then cx_tpm_estimated_tokens c else ESTIMATED_TOKENS_PER_REQUEST)"

definition settle_reserved_tpm :: "int \<Rightarrow> string \<Rightarrow> rl_rule list \<Rightarrow> gctx \<Rightarrow> estate \<Rightarrow> estate" where
  "settle_reserved_tpm now exc rules c st =
     (if rules = [] then st
      else
        (let delta = reserved_tokens c - cx_total_tokens c
         in case settle_tpm now rules delta (fst st) of
              (True, s1) \<Rightarrow> (s1, snd st)
            | (False, s1) \<Rightarrow>
                record_billing_failure now ''tpm_settle'' (cx_request_id c) exc
                  [(''delta_tokens'', JInt delta), (''reserved_tokens'', JInt (reserved_tokens c)),
                   (''total_tokens'', JInt (cx_total_tokens c)), (''rules'', JArr (map rule_identity rules))]
                  (s1, snd st)))"

section \<open>The finalizer\<close>

definition finalize_gateway_request ::
  "health_settings \<Rightarrow> int \<Rightarrow> rat \<Rightarrow> string \<Rightarrow> model_core option \<Rightarrow> bool \<Rightarrow> rl_rule list \<Rightarrow> quota_reservation list
   \<Rightarrow> gctx \<Rightarrow> estate \<Rightarrow> gctx \<times> estate \<times> metric list" where
  "finalize_gateway_request hs now mclock exc model has_service rules reservations c st =
     (let c1 = (if reservations \<noteq> [] then c\<lparr>cx_quota_reservations := reservations\<rparr> else c);
          c2 = (if cx_latency_ms c1 = None then record_latency mclock c1 else c1)
      in case settle_quota now exc model has_service c2 st of
           (c3, st1) \<Rightarrow>
             (let st2 = enqueue_usage now model c3 st1;
                  st3 = enqueue_log now c3 st2;
                  st4 = record_channel_health hs now c3 st3;
                  st5 = settle_reserved_tpm now exc rules c3 st4
              in (c3, st5, emit_metrics c3)))"

end
