(* ===== verification/Capabilities.thy ===== *)
theory Capabilities
  imports Catalog
begin

text \<open>
  \<open>src/gateway/capabilities.py\<close>: which features a request asks for, which of them the chosen
  upstream model lacks, and the preference for deployments that support them all. What the model
  library knows about a model is a parameter; a lookup that raises is \<open>None\<close>.
\<close>

record model_library =
  ml_info :: "string \<Rightarrow> string option \<Rightarrow> (string \<times> json) list option"
  ml_supports :: "string \<Rightarrow> string \<Rightarrow> string option \<Rightarrow> bool option"

text \<open>Features with the name of the flag (and of the library function) that tells about them.\<close>

definition SUPPORT_FUNCTIONS :: "(string \<times> string) list" where
  "SUPPORT_FUNCTIONS =
     [(''parallel_tool_calls'', ''supports_parallel_function_calling''), (''prompt_caching'', ''supports_prompt_caching''),
      (''reasoning'', ''supports_reasoning''), (''response_schema'', ''supports_response_schema''),
      (''tool_choice'', ''supports_tool_choice''), (''tools'', ''supports_function_calling''), (''vision'', ''supports_vision'')]"

section \<open>What a request asks for\<close>

fun contains_key :: "string \<Rightarrow> json \<Rightarrow> bool" where
  "contains_key k (JObj d) = (list_ex (\<lambda>(f, v). f = k \<or> contains_key k v) d)"
| "contains_key k (JArr xs) = list_ex (contains_key k) xs"
| "contains_key k _ = False"

definition json_list :: "json \<Rightarrow> json list" where
  "json_list v = (case v of JArr xs \<Rightarrow> xs | _ \<Rightarrow> [])"

definition is_set :: "string \<Rightarrow> (string \<times> json) list \<Rightarrow> bool" where
  "is_set k d \<longleftrightarrow> dget k d \<noteq> JNull"

definition messages_include_cache_control :: "json \<Rightarrow> bool" where
  "messages_include_cache_control messages = list_ex (contains_key ''cache_control'') (json_list messages)"

definition message_has_tools :: "json \<Rightarrow> bool" where
  "message_has_tools m = (case m of
     JObj d \<Rightarrow> dget ''role'' d = JStr ''tool'' \<or> is_set ''tool_calls'' d \<or> is_set ''function_call'' d
   | _ \<Rightarrow> False)"

definition messages_include_tools :: "json \<Rightarrow> bool" where
  "messages_include_tools messages = list_ex message_has_tools (json_list messages)"

definition part_has_image :: "json \<Rightarrow> bool" where
  "part_has_image p = (case p of
     JObj d \<Rightarrow> dget ''type'' d \<in> {JStr ''image_url'', JStr ''input_image''} \<or> is_set ''image_url'' d \<or> is_set ''source'' d
   | _ \<Rightarrow> False)"

definition messages_include_vision :: "json \<Rightarrow> bool" where
  "messages_include_vision messages =
     list_ex (\<lambda>m. case m of JObj d \<Rightarrow> list_ex part_has_image (json_list (dget ''content'' d)) | _ \<Rightarrow> False) (json_list messages)"

text \<open>The set of features, as a list without repetitions.\<close>

definition add_feature :: "bool \<Rightarrow> string \<Rightarrow> string list \<Rightarrow> string list" where
  "add_feature b f fs = (if b then List.insert f fs else fs)"

definition requested_features_from_params :: "json \<Rightarrow> (string \<times> json) list \<Rightarrow> string list" where
  "requested_features_from_params messages params =
     add_feature (messages_include_vision messages) ''vision''
     (add_feature (is_set ''parallel_tool_calls'' params) ''parallel_tool_calls''
     (add_feature (is_set ''tool_choice'' params \<or> is_set ''function_call'' params) ''tool_choice''
     (add_feature (messages_include_tools messages) ''tools''
     (add_feature (is_set ''tools'' params \<or> is_set ''functions'' params) ''tools''
     (add_feature (is_set ''response_format'' params) ''response_schema''
     (add_feature (is_set ''thinking'' params \<or> is_set ''reasoning_effort'' params) ''reasoning''
     (add_feature (is_set ''cachedContent'' params \<or> is_set ''cached_content'' params) ''prompt_caching''
     (add_feature (messages_include_cache_control messages) ''prompt_caching'' []))))))))"

section \<open>What a model supports\<close>

definition feature_supported :: "model_library \<Rightarrow> string \<Rightarrow> string \<Rightarrow> string option \<Rightarrow> bool option" where
  "feature_supported lib feature model provider =
     (case map_of SUPPORT_FUNCTIONS feature of
        None \<Rightarrow> None
      | Some flag \<Rightarrow>
          (case ml_info lib model provider of
             None \<Rightarrow> None
           | Some info \<Rightarrow>
               (case dget flag info of
                  JBool b \<Rightarrow> Some b
                | _ \<Rightarrow> (case ml_supports lib flag model provider of Some True \<Rightarrow> Some True | _ \<Rightarrow> None))))"

definition provider_from_model :: "string \<Rightarrow> string option" where
  "provider_from_model model =
     (case split_first CHR ''/'' model of None \<Rightarrow> None | Some (p, _) \<Rightarrow> if p = [] then None else Some p)"

definition strip_provider_prefix :: "string \<Rightarrow> string option \<Rightarrow> string" where
  "strip_provider_prefix model provider =
     (case provider of
        Some p \<Rightarrow>
          (if p \<noteq> [] \<and> starts_with (p @ ''/'') model then drop (length p + 1) model
           else (case split_first CHR ''/'' model of None \<Rightarrow> model | Some (_, m) \<Rightarrow> m))
      | None \<Rightarrow> (case split_first CHR ''/'' model of None \<Rightarrow> model | Some (_, m) \<Rightarrow> m))"

definition detect_downgraded_features ::
  "model_library \<Rightarrow> string list \<Rightarrow> string option \<Rightarrow> string option \<Rightarrow> string list option" where
  "detect_downgraded_features lib requested upstream_model provider =
     (case upstream_model of
        None \<Rightarrow> None
      | Some um \<Rightarrow>
          (if requested = [] \<or> um = [] then None
           else
             (let p = or_str provider (provider_from_model um);
                  model = strip_provider_prefix um p;
                  downgraded = filter (\<lambda>f. feature_supported lib f model p = Some False) (sort requested)
              in if downgraded = [] then None else Some downgraded)))"

definition deployment_provider_and_model :: "(string \<times> json) list \<Rightarrow> string option \<times> string option" where
  "deployment_provider_and_model deployment =
     (let info = (case dget ''model_info'' deployment of JObj d \<Rightarrow> d | _ \<Rightarrow> []);
          params = (case dget ''litellm_params'' deployment of JObj d \<Rightarrow> d | _ \<Rightarrow> []);
          provider = (case dget ''provider'' info of JStr p \<Rightarrow> Some p | _ \<Rightarrow> None);
          upstream = (case dget ''upstream_model'' info of JStr m \<Rightarrow> Some m
                      | _ \<Rightarrow> (case dget ''model'' params of JStr m \<Rightarrow> Some m | _ \<Rightarrow> None))
      in case upstream of
           None \<Rightarrow> (provider, None)
         | Some m \<Rightarrow> (let p = or_str provider (provider_from_model m) in (p, Some (strip_provider_prefix m p))))"

definition deployment_supports_all_features :: "model_library \<Rightarrow> string list \<Rightarrow> (string \<times> json) list \<Rightarrow> bool" where
  "deployment_supports_all_features lib requested deployment =
     (case deployment_provider_and_model deployment of
        (_, None) \<Rightarrow> False
      | (p, Some m) \<Rightarrow> list_all (\<lambda>f. feature_supported lib f m p = Some True) requested)"

definition filter_deployments_by_requested_features ::
  "model_library \<Rightarrow> (string \<times> json) list list \<Rightarrow> string list \<Rightarrow> (string \<times> json) list list" where
  "filter_deployments_by_requested_features lib deployments requested =
     (if requested = [] \<or> length deployments \<le> 1 then deployments
      else (let supported = filter (deployment_supports_all_features lib requested) deployments
            in if supported = [] then deployments else supported))"

text \<open>The callback the router runs over its healthy deployments.\<close>

definition async_filter_deployments ::
  "model_library \<Rightarrow> (string \<times> json) list list \<Rightarrow> json \<Rightarrow> (string \<times> json) list \<Rightarrow> (string \<times> json) list list" where
  "async_filter_deployments lib deployments messages kwargs =
     filter_deployments_by_requested_features lib deployments (requested_features_from_params messages kwargs)"

definition downgraded_header :: "string list option \<Rightarrow> (string \<times> string) list" where
  "downgraded_header features =
     (case features of None \<Rightarrow> [] | Some fs \<Rightarrow> if fs = [] then [] else [(''X-Gateway-Downgraded'', join_with '','' fs)])"

definition merge_headers :: "(string \<times> string) list list \<Rightarrow> (string \<times> string) list" where
  "merge_headers hs = fold (\<lambda>item merged. fold (\<lambda>(k, v) m. dict_set k v m) item merged) hs []"

section \<open>Soft routing\<close>

lemma add_feature_in: "f \<in> A \<Longrightarrow> set fs \<subseteq> A \<Longrightarrow> set (add_feature b f fs) \<subseteq> A"
  by (simp add: add_feature_def)

lemma add_feature_distinct: "distinct fs \<Longrightarrow> distinct (add_feature b f fs)"
  by (simp add: add_feature_def)

lemma requested_known: "set (requested_features_from_params messages params) \<subseteq> fst ` set SUPPORT_FUNCTIONS"
  unfolding requested_features_from_params_def by (intro add_feature_in) (simp_all add: SUPPORT_FUNCTIONS_def)

lemma requested_distinct: "distinct (requested_features_from_params messages params)"
  unfolding requested_features_from_params_def by (intro add_feature_distinct) simp

lemma filter_keeps:
  "set (filter_deployments_by_requested_features lib ds asked) \<subseteq> set ds
   \<and> (ds \<noteq> [] \<longrightarrow> filter_deployments_by_requested_features lib ds asked \<noteq> [])
   \<and> (asked \<noteq> [] \<and> 1 < length ds \<and> (\<exists>d\<in>set ds. deployment_supports_all_features lib asked d)
      \<longrightarrow> set (filter_deployments_by_requested_features lib ds asked) = {d \<in> set ds. deployment_supports_all_features lib asked d})"
proof (cases "asked = [] \<or> length ds \<le> 1")
  case False
  then show ?thesis by (simp add: filter_deployments_by_requested_features_def filter_empty_conv Let_def)
qed (auto simp: filter_deployments_by_requested_features_def)

lemma detected_sound:
  assumes "detect_downgraded_features lib asked um p = Some fs" and "distinct asked"
  shows "fs \<noteq> [] \<and> sorted fs \<and> distinct fs \<and> set fs \<subseteq> set asked"
proof -
  obtain P where fs: "fs = filter P (sort asked)" and ne: "fs \<noteq> []"
    using assms(1) by (auto simp: detect_downgraded_features_def Let_def split: option.splits if_splits)
  have "sorted (map (\<lambda>x. x) (sort asked))" by simp
  then have "sorted fs" unfolding fs using sorted_filter [of "\<lambda>x. x" "sort asked" P] by simp
  then show ?thesis using assms(2) fs ne by (auto simp: distinct_filter)
qed

text \<open>
  Capabilities steer, they never block. The router's deployment filter only drops deployments, keeps at
  least one when there was one, and when some deployment supports everything that was asked for
  (and there is a choice) keeps exactly those; what is reported as downgraded was asked for, is known to be
  unsupported, and is reported in order and without repetition.
\<close>

theorem soft_routing:
  "(let kept = async_filter_deployments lib ds messages params; asked = requested_features_from_params messages params
    in set kept \<subseteq> set ds \<and> (ds \<noteq> [] \<longrightarrow> kept \<noteq> [])
     \<and> (asked \<noteq> [] \<and> 1 < length ds \<and> (\<exists>d\<in>set ds. deployment_supports_all_features lib asked d)
         \<longrightarrow> set kept = {d \<in> set ds. deployment_supports_all_features lib asked d}))
   \<and> (case detect_downgraded_features lib (requested_features_from_params messages params) um p of
        None \<Rightarrow> True
      | Some fs \<Rightarrow> fs \<noteq> [] \<and> sorted fs \<and> distinct fs \<and> set fs \<subseteq> set (requested_features_from_params messages params)
          \<and> set fs \<subseteq> fst ` set SUPPORT_FUNCTIONS)"
  using filter_keeps [of lib ds "requested_features_from_params messages params"] requested_known [of messages params]
    detected_sound [OF _ requested_distinct, of lib messages params um p]
  by (auto simp: async_filter_deployments_def Let_def split: option.split)

definition sample_library :: model_library where
  "sample_library = \<lparr>ml_info = (\<lambda>m p. Some [(''supports_vision'', JBool (m = ''gpt-4o''))]), ml_supports = (\<lambda>f m p. Some False)\<rparr>"

definition sample_deployment :: "string \<Rightarrow> (string \<times> json) list" where
  "sample_deployment m = [(''model_info'', JObj [(''provider'', JStr ''openai''), (''upstream_model'', JStr m)])]"

definition image_message :: json where
  "image_message = JArr [JObj [(''role'', JStr ''user''),
     (''content'', JArr [JObj [(''type'', JStr ''image_url''), (''image_url'', JStr ''x'')]])]]"

theorem soft_routing_witness:
  "set (async_filter_deployments sample_library [sample_deployment ''gpt-3'', sample_deployment ''gpt-4o''] image_message [])
     = {sample_deployment ''gpt-4o''}"
proof -
  have a: "requested_features_from_params image_message [] = [''vision'']" by code_simp
  have s: "deployment_supports_all_features sample_library [''vision''] (sample_deployment ''gpt-4o'')"
    "\<not> deployment_supports_all_features sample_library [''vision''] (sample_deployment ''gpt-3'')" by code_simp+
  have "set (async_filter_deployments sample_library [sample_deployment ''gpt-3'', sample_deployment ''gpt-4o''] image_message [])
     = {d \<in> {sample_deployment ''gpt-3'', sample_deployment ''gpt-4o''}. deployment_supports_all_features sample_library [''vision''] d}"
    using soft_routing [of sample_library "[sample_deployment ''gpt-3'', sample_deployment ''gpt-4o'']" image_message "[]" None None] a s
    by (simp add: Let_def)
  with s show ?thesis by auto
qed

end
