(* ===== verification/Streams.thy ===== *)
theory Streams
  imports Finalize Upstream Capabilities
begin

text \<open>
  The streaming generators of \<open>src/gateway/router.py\<close> and \<open>src/gateway/endpoints_v1.py\<close> and the
  cleanup after them. A stream is a finite list of pulls: the time since the start when the loop looks at it,
  the monotonic clock when the pull returns, and what it returns. A cancellation arrives at an
  \<open>await\<close> or \<open>yield\<close>; the final event of a stream is taken as delivered. The text of a chunk
  (\<open>model_dump_json\<close>) is a parameter.
\<close>

definition STREAM_MAX_DURATION_SECONDS :: rat where "STREAM_MAX_DURATION_SECONDS = 1800"
definition STREAM_IDLE_TIMEOUT_SECONDS :: rat where "STREAM_IDLE_TIMEOUT_SECONDS = 60"

record caller = auth_user +
  ca_api_key_id :: "int option"

definition base_context ::
  "string \<Rightarrow> caller \<Rightarrow> model_core \<Rightarrow> rat \<Rightarrow> bool \<Rightarrow> int option \<Rightarrow> string option \<Rightarrow> string option \<Rightarrow> string list option \<Rightarrow> int \<Rightarrow> gctx" where
  "base_context request_id user m started_at stream channel_id upstream_model provider downgraded estimated_tokens =
     (new_ctx request_id started_at)
       \<lparr>cx_user_id := au_user_id user, cx_department_id := au_department_id user, cx_api_key_id := ca_api_key_id user,
        cx_requested_model := Some (lm_name m), cx_logical_model_id := Some (lm_id m), cx_logical_model_name := Some (lm_name m),
        cx_channel_id := channel_id, cx_upstream_model := upstream_model, cx_provider := provider,
        cx_downgraded_features := downgraded, cx_stream := stream, cx_quota_reserved := True,
        cx_tpm_estimated_tokens := estimated_tokens\<rparr>"

section \<open>The pull loop\<close>

datatype 'c upstep = UChunk 'c | UIdle | UEnd | URaise upstream_exc | UCancel

type_synonym 'c pull = "rat \<times> rat \<times> 'c upstep"

datatype pump_end = PEnd | PTimeout | PRaise upstream_exc | PCancel

text \<open>
  \<open>body\<close> handles a chunk: the new state and the text to yield, or \<open>None\<close> for an exception (the
  state is what it had become by then).
\<close>

fun pump :: "(rat \<Rightarrow> 'c \<Rightarrow> 'st \<Rightarrow> 'st \<times> string option) \<Rightarrow> 'c pull list \<Rightarrow> 'st \<Rightarrow> string list \<Rightarrow> pump_end \<times> 'st \<times> string list" where
  "pump body [] st out = (PEnd, st, out)"
| "pump body ((elapsed, returned, ev) # pulls) st out =
     (case ev of
        UCancel \<Rightarrow> (PCancel, st, out)
      | UIdle \<Rightarrow> (PTimeout, st, out)
      | UEnd \<Rightarrow> (if STREAM_MAX_DURATION_SECONDS < elapsed then PTimeout else PEnd, st, out)
      | URaise x \<Rightarrow> (if STREAM_MAX_DURATION_SECONDS < elapsed then PTimeout else PRaise x, st, out)
      | UChunk c \<Rightarrow>
          (if STREAM_MAX_DURATION_SECONDS < elapsed then (PTimeout, st, out)
           else (case body returned c st of
                   (st', None) \<Rightarrow> (PRaise XOther, st', out)
                 | (st', Some d) \<Rightarrow> pump body pulls st' (out @ [d]))))"

definition end_status :: "pump_end \<Rightarrow> string" where
  "end_status e =
     (case e of
        PEnd \<Rightarrow> usage_status_value US_success
      | PTimeout \<Rightarrow> usage_status_value US_timeout
      | PRaise x \<Rightarrow> usage_status_for_exception x
      | PCancel \<Rightarrow> usage_status_value US_error)"

text \<open>How the generator ends for its consumer: \<open>SReraised\<close> passes the upstream exception on as it is.\<close>

datatype stream_end = SDone | SRaised app_error | SReraised | SCancelled

definition end_for_client :: "pump_end \<Rightarrow> stream_end" where
  "end_for_client e = (case e of PRaise x \<Rightarrow> SRaised (upstream_error x) | PCancel \<Rightarrow> SCancelled | _ \<Rightarrow> SDone)"

definition blank_line :: string where
  "blank_line = [CHR 0x0A, CHR 0x0A]"

definition with_usage :: "usage \<Rightarrow> gctx \<Rightarrow> gctx" where
  "with_usage u c = set_usage (us_prompt u) (us_completion u) (us_total u) c"

section \<open>Chat completions\<close>

record chat_stream =
  cs_usage :: usage
  cs_channel :: "int option"
  cs_upstream :: "string option"
  cs_provider :: "string option"
  cs_bytes :: bool
  cs_ctx :: gctx

definition chat_chunk :: "(pyobj \<Rightarrow> string) \<Rightarrow> rat \<Rightarrow> pyobj \<Rightarrow> chat_stream \<Rightarrow> chat_stream \<times> string option" where
  "chat_chunk dump_json returned chunk st =
     (let (ch, um) = extract_routing_info chunk;
          st1 = st\<lparr>cs_channel := or_opt_int (cs_channel st) ch, cs_upstream := or_str (cs_upstream st) um,
                   cs_provider := or_str (cs_provider st) (provider_from_response chunk)\<rparr>
      in case extract_usage chunk of
           None \<Rightarrow> (st1, None)
         | Some u \<Rightarrow>
             (let st2 = (if us_total u \<noteq> 0 then st1\<lparr>cs_usage := u\<rparr> else st1);
                  st3 = (if cs_bytes st2 then st2 else st2\<lparr>cs_ctx := record_ttft returned (cs_ctx st2), cs_bytes := True\<rparr>)
              in (st3, Some (''data: '' @ dump_json chunk @ blank_line))))"

definition chat_timeout_event :: string where
  "chat_timeout_event = ''data: '' @ dumps (JObj [(''error'', JObj [(''message'', JStr ''stream timed out''),
     (''type'', JStr ''timeout''), (''code'', JStr ''stream_timeout'')])]) @ blank_line"

definition chat_done_event :: string where
  "chat_done_event = ''data: [DONE]'' @ blank_line"

definition stream_openai ::
  "model_library \<Rightarrow> (pyobj \<Rightarrow> string) \<Rightarrow> pyobj \<Rightarrow> pyobj pull list \<Rightarrow> caller \<Rightarrow> model_core \<Rightarrow> rat \<Rightarrow> string
   \<Rightarrow> string list \<Rightarrow> int \<Rightarrow> string list \<times> stream_end \<times> gctx" where
  "stream_openai lib dump_json response pulls user m started_at request_id requested estimated_tokens =
     (let ctx = base_context request_id user m started_at True None None None None estimated_tokens;
          (e, st, out) = pump (chat_chunk dump_json) pulls
             \<lparr>cs_usage = empty_usage, cs_channel = None, cs_upstream = None, cs_provider = None, cs_bytes = False, cs_ctx = ctx\<rparr> [];
          out' = (case e of PTimeout \<Rightarrow> out @ [chat_timeout_event] | PEnd \<Rightarrow> out @ [chat_done_event] | _ \<Rightarrow> out);
          (rch, rum) = extract_routing_info response;
          ch = or_opt_int (cs_channel st) rch;
          um = or_str (cs_upstream st) rum;
          pv = or_str (cs_provider st) (provider_from_response response)
      in (out', end_for_client e,
          with_usage (cs_usage st)
            ((cs_ctx st)\<lparr>cx_channel_id := ch, cx_upstream_model := um, cx_provider := pv, cx_status := end_status e,
               cx_downgraded_features := detect_downgraded_features lib requested um pv\<rparr>)))"

section \<open>Native streams\<close>

text \<open>Usage, unfinished line, whether anything was yielded, and the context.\<close>

type_synonym native_stream = "usage \<times> string \<times> bool \<times> gctx"

definition native_chunk ::
  "(string \<Rightarrow> usage \<times> string \<Rightarrow> bool \<times> usage \<times> string) \<Rightarrow> rat \<Rightarrow> string \<Rightarrow> native_stream \<Rightarrow> native_stream \<times> string option" where
  "native_chunk accumulate returned raw st =
     (case st of (u, buffer, sent, ctx) \<Rightarrow>
       (case accumulate raw (u, buffer) of
          (False, u', b') \<Rightarrow> ((u', b', sent, ctx), None)
        | (True, u', b') \<Rightarrow> ((u', b', sent \<or> raw \<noteq> [], if sent then ctx else record_ttft returned ctx), Some raw)))"

definition stream_native ::
  "(string \<Rightarrow> usage \<times> string \<Rightarrow> bool \<times> usage \<times> string) \<Rightarrow> string \<Rightarrow> string pull list \<Rightarrow> gctx \<Rightarrow> string list \<times> stream_end \<times> gctx" where
  "stream_native accumulate timeout_event pulls ctx =
     (let (e, (u, b, sent, c), out) = pump (native_chunk accumulate) pulls (empty_usage, [], False, ctx) []
      in (if e = PTimeout then out @ [timeout_event] else out, end_for_client e,
          with_usage u (c\<lparr>cx_status := end_status e\<rparr>)))"

definition anthropic_timeout_event :: string where
  "anthropic_timeout_event = ''event: error'' @ [CHR 0x0A] @ ''data: '' @ dumps (JObj [(''type'', JStr ''error''), (''error'',
     JObj [(''type'', JStr ''timeout_error''), (''message'', JStr ''stream timed out'')])]) @ blank_line"

definition gemini_timeout_event :: string where
  "gemini_timeout_event = ''data: '' @ dumps (JObj [(''error'', JObj [(''code'', JInt 504), (''status'', JStr ''DEADLINE_EXCEEDED''),
     (''message'', JStr ''stream timed out'')])]) @ blank_line"

definition stream_anthropic_native ::
  "model_library \<Rightarrow> string pull list \<Rightarrow> caller \<Rightarrow> model_core \<Rightarrow> rat \<Rightarrow> string \<Rightarrow> int option \<Rightarrow> string option
   \<Rightarrow> string list \<Rightarrow> int \<Rightarrow> string list \<times> stream_end \<times> gctx" where
  "stream_anthropic_native lib pulls user m started_at request_id channel_id upstream_model requested estimated_tokens =
     stream_native accumulate_anthropic_usage anthropic_timeout_event pulls
       (base_context request_id user m started_at True channel_id upstream_model (Some ''anthropic'')
          (detect_downgraded_features lib requested upstream_model (Some ''anthropic'')) estimated_tokens)"

definition stream_gemini_native ::
  "model_library \<Rightarrow> string pull list \<Rightarrow> caller \<Rightarrow> model_core \<Rightarrow> rat \<Rightarrow> string \<Rightarrow> int option \<Rightarrow> string option
   \<Rightarrow> string list \<Rightarrow> int \<Rightarrow> string list \<times> stream_end \<times> gctx" where
  "stream_gemini_native lib pulls user m started_at request_id channel_id upstream_model requested estimated_tokens =
     stream_native accumulate_gemini_usage gemini_timeout_event pulls
       (base_context request_id user m started_at True channel_id upstream_model (Some ''gemini'')
          (detect_downgraded_features lib requested upstream_model (Some ''gemini'')) estimated_tokens)"

section \<open>The Responses API\<close>

text \<open>Prompt and completion tokens, whether anything was yielded, and the context.\<close>

definition responses_event :: "(pyobj \<Rightarrow> string) \<Rightarrow> rat \<Rightarrow> pyobj \<Rightarrow> int \<times> int \<times> bool \<times> gctx \<Rightarrow> (int \<times> int \<times> bool \<times> gctx) \<times> string option" where
  "responses_event dump_json returned event st =
     (case st of (p, c, sent, ctx) \<Rightarrow>
       (case extract_responses_usage event of
          None \<Rightarrow> (st, None)
        | Some u \<Rightarrow>
            ((if us_total u \<noteq> 0 then us_prompt u else p, if us_total u \<noteq> 0 then us_completion u else c, True,
              if sent then ctx else record_ttft returned ctx),
             Some (''data: '' @ dump_json event @ blank_line))))"

definition stream_responses ::
  "(pyobj \<Rightarrow> string) \<Rightarrow> pyobj pull list \<Rightarrow> gctx \<Rightarrow> string list \<times> stream_end \<times> gctx" where
  "stream_responses dump_json pulls ctx =
     (let (e, (p, c, sent, ctx1), out) = pump (responses_event dump_json) pulls (0, 0, False, ctx) []
      in (if e = PTimeout then out @ [chat_timeout_event] else out,
          case e of PRaise x \<Rightarrow> SReraised | PCancel \<Rightarrow> SCancelled | _ \<Rightarrow> SDone,
          set_usage p c (p + c)
            (ctx1\<lparr>cx_status := (case e of PEnd \<Rightarrow> usage_status_value US_success
                                | PTimeout \<Rightarrow> usage_status_value US_timeout | _ \<Rightarrow> usage_status_value US_error)\<rparr>)))"

section \<open>After the stream\<close>

definition finalize_stream ::
  "health_settings \<Rightarrow> int \<Rightarrow> rat \<Rightarrow> string \<Rightarrow> gctx \<Rightarrow> model_core \<Rightarrow> string \<Rightarrow> rl_rule list \<Rightarrow> quota_reservation list
   \<Rightarrow> estate \<Rightarrow> gctx \<times> estate \<times> metric list" where
  "finalize_stream hs now mclock exc ctx m member rules reservations st =
     (let st1 = (if rules \<noteq> [] then (release_concurrent now member rules (fst st), snd st) else st)
      in finalize_gateway_request hs now mclock exc (Some m) True rules reservations ctx st1)"

end
