(* ===== verification/ResponseCache.thy ===== *)
theory ResponseCache
  imports Cache Upstream "HOL-Library.Multiset"
begin

text \<open>
  \<open>src/gateway/response_cache.py\<close>: which requests and answers may be cached, the fingerprint of a
  request and the cache itself. The hash function is a parameter.
\<close>

definition DEFAULT_RESPONSE_CACHE_TTL :: int where "DEFAULT_RESPONSE_CACHE_TTL = 300"

section \<open>The canonical text of a request\<close>

text \<open>\<open>json.dumps\<close> with \<open>ensure_ascii=False\<close>: only quotes, backslashes and controls are escaped.\<close>

definition esc_raw :: "char \<Rightarrow> string" where
  "esc_raw c = (if 127 \<le> (of_char c :: nat) then [c] else esc_char c)"

definition quote_raw :: "string \<Rightarrow> string" where
  "quote_raw s = CHR 0x22 # concat (map esc_raw s) @ [CHR 0x22]"

fun dumps_raw :: "json \<Rightarrow> string" where
  "dumps_raw (JStr s) = quote_raw s"
| "dumps_raw (JArr xs) = ''['' @ join_with '', '' (map dumps_raw xs) @ '']''"
| "dumps_raw (JObj d) = ''{'' @ join_with '', '' (map (\<lambda>(k, v). quote_raw k @ '': '' @ dumps_raw v) d) @ ''}''"
| "dumps_raw v = dumps v"

text \<open>\<open>sort_keys=True\<close>, at every depth.\<close>

fun sort_keys :: "json \<Rightarrow> json" where
  "sort_keys (JArr xs) = JArr (map sort_keys xs)"
| "sort_keys (JObj d) = JObj (sort_key fst (map (\<lambda>(k, v). (k, sort_keys v)) d))"
| "sort_keys v = v"

definition canonical_request :: "string \<Rightarrow> json \<Rightarrow> (string \<times> json) list \<Rightarrow> json" where
  "canonical_request model messages params =
     sort_keys (JObj [(''model'', JStr model), (''messages'', messages), (''params'', JObj params)])"

definition compute_fingerprint :: "(string \<Rightarrow> string) \<Rightarrow> string \<Rightarrow> json \<Rightarrow> (string \<times> json) list \<Rightarrow> string" where
  "compute_fingerprint hash model messages params = take 32 (hash (dumps_raw (canonical_request model messages params)))"

section \<open>Eligibility\<close>

text \<open>Comparison with 1: \<open>None\<close> is the \<open>TypeError\<close> of a value that is no number.\<close>

definition above_one :: "json \<Rightarrow> bool option" where
  "above_one v =
     (case v of
        JInt i \<Rightarrow> Some (1 < i)
      | JBool b \<Rightarrow> Some False
      | JFloat m e \<Rightarrow> Some ((1::rat) < of_int m * 10 powi e)
      | _ \<Rightarrow> None)"

definition is_zero_number :: "json \<Rightarrow> bool" where
  "is_zero_number v = (case v of JInt i \<Rightarrow> i = 0 | JFloat m e \<Rightarrow> m = 0 | _ \<Rightarrow> False)"

definition is_cacheable_request :: "bool \<Rightarrow> bool \<Rightarrow> (string \<times> json) list \<Rightarrow> bool option" where
  "is_cacheable_request stream enabled params =
     (if stream then Some False
      else if \<not> enabled then Some False
      else (case above_one (dget_default ''n'' (JInt 1) params) of
              None \<Rightarrow> None
            | Some True \<Rightarrow> Some False
            | Some False \<Rightarrow>
                (if \<not> is_zero_number (dget ''temperature'' params) then Some False
                 else Some (\<not> (truthy (dget ''tools'' params) \<or> truthy (dget ''tool_choice'' params))))))"

fun py_truthy :: "pyobj \<Rightarrow> bool" where
  "py_truthy (PV v) = truthy v"
| "py_truthy (PO fs) = True"
| "py_truthy (PL xs) = (xs \<noteq> [])"

text \<open>\<open>xs[0]\<close> on something truthy; \<open>None\<close> is an exception.\<close>

fun first_item :: "pyobj \<Rightarrow> pyobj option" where
  "first_item (PL (x # xs)) = Some x"
| "first_item (PV (JArr (x # xs))) = Some (PV x)"
| "first_item (PV (JStr (c # cs))) = Some (PV (JStr [c]))"
| "first_item _ = None"

text \<open>\<open>getattr(x, k, None) or (x.get(k) if x is a dict else None)\<close>.\<close>

definition attr_or_get :: "string \<Rightarrow> pyobj \<Rightarrow> pyobj" where
  "attr_or_get k x =
     (if py_truthy (py_getattr k x) then py_getattr k x
      else (case py_mapping x of None \<Rightarrow> py_none | Some d \<Rightarrow> PV (dget k d)))"

definition is_cacheable_response :: "pyobj \<Rightarrow> bool option" where
  "is_cacheable_response response =
     (let choices = attr_or_get ''choices'' response
      in if \<not> py_truthy choices then Some False
         else (case first_item choices of
                 None \<Rightarrow> None
               | Some c \<Rightarrow>
                   (if c = py_none then Some False
                    else (let message = attr_or_get ''message'' c
                          in Some (message = py_none \<or> \<not> py_truthy (attr_or_get ''tool_calls'' message))))))"

section \<open>The cache\<close>

definition response_cache_key :: "int \<Rightarrow> int \<Rightarrow> string \<Rightarrow> string" where
  "response_cache_key catalog_gen model_id fingerprint =
     ''janus:gw:v1:resp:'' @ show_int catalog_gen @ '':m:'' @ show_int model_id @ '':h:'' @ fingerprint"

definition get_cached_response :: "int \<Rightarrow> int \<Rightarrow> string \<Rightarrow> redis \<Rightarrow> (string \<times> json) list option \<times> redis" where
  "get_cached_response now model_id fingerprint s =
     (case get_generation now CATALOG_GEN_KEY s of (g, s1) \<Rightarrow>
        (case read_entry now (response_cache_key g model_id fingerprint) s1 of
           (Some (JObj d), s2) \<Rightarrow> (Some d, s2)
         | (_, s2) \<Rightarrow> (None, s2)))"

definition set_cached_response :: "int \<Rightarrow> int \<Rightarrow> string \<Rightarrow> (string \<times> json) list \<Rightarrow> int option \<Rightarrow> redis \<Rightarrow> redis" where
  "set_cached_response now model_id fingerprint response_data ttl s =
     (case get_generation now CATALOG_GEN_KEY s of (g, s1) \<Rightarrow>
        write_entry now (response_cache_key g model_id fingerprint) (JObj response_data)
          (or_int ttl DEFAULT_RESPONSE_CACHE_TTL) s1)"

section \<open>Fingerprints tell requests apart\<close>

definition esc_ascii :: "char \<Rightarrow> string" where
  "esc_ascii c = (if 127 \<le> (of_char c :: nat) then esc_char c else [c])"

definition ascii_text :: "string \<Rightarrow> string" where
  "ascii_text s = concat (map esc_ascii s)"

lemma ascii_append [simp]: "ascii_text (a @ b) = ascii_text a @ ascii_text b" "ascii_text [] = []"
  by (simp_all add: ascii_text_def)

lemma ascii_Cons [simp]: "(of_char c :: nat) < 127 \<Longrightarrow> ascii_text (c # s) = c # ascii_text s"
  by (simp add: ascii_text_def esc_ascii_def)

lemma ascii_plain: "\<forall>c\<in>set s. (of_char c :: nat) < 127 \<Longrightarrow> ascii_text s = s"
  by (induction s) (auto simp: ascii_text_def esc_ascii_def)

lemma hex_char_ascii: "d < 16 \<Longrightarrow> (of_char (hex_char d) :: nat) < 127"
  by (auto simp: hex_char_def)

lemma esc_char_ascii: "\<forall>d\<in>set (esc_char c). (of_char d :: nat) < 127"
proof -
  have "(of_char c :: nat) < 256" by simp
  then have "(of_char c :: nat) div 16 < 16" using less_mult_imp_div_less [of "of_char c" 16 16] by simp
  then show ?thesis using hex_char_ascii by (auto simp: esc_char_def Let_def)
qed

lemma ascii_esc_raw: "ascii_text (esc_raw c) = esc_char c"
  using ascii_plain [OF esc_char_ascii, of c] by (auto simp: esc_raw_def) (simp add: ascii_text_def esc_ascii_def)

lemma ascii_quote: "ascii_text (quote_raw s) = quote_str s"
proof -
  have q: "ascii_text [CHR 0x22] = [CHR 0x22]" by (simp add: ascii_text_def esc_ascii_def)
  have "ascii_text (concat (map esc_raw s)) = concat (map esc_char s)"
    by (induction s) (simp_all add: ascii_esc_raw)
  then show ?thesis
    using ascii_append(1) [of "[CHR 0x22]"] by (simp add: quote_raw_def quote_str_def q)
qed

lemma show_int_ascii: "ascii_text (show_int i) = show_int i"
proof (rule ascii_plain)
  have d: "(of_char c :: nat) < 127" if "c \<in> set (show_nat n)" for c n
    using that show_nat_digits [of n] by (auto simp: list_all_iff is_digit_def)
  show "\<forall>c\<in>set (show_int i). (of_char c :: nat) < 127" using d by (auto simp: show_int_def)
qed

lemma ascii_join: "ascii_text sep = sep \<Longrightarrow> ascii_text (join_with sep xs) = join_with sep (map ascii_text xs)"
  by (induction sep xs rule: join_with.induct) simp_all

lemma ascii_dumps: "ascii_text (dumps_raw v) = dumps v"
proof (induction v)
  case (JArr xs)
  have m: "map (ascii_text \<circ> dumps_raw) xs = map dumps xs" using JArr by simp
  have sep: "ascii_text '', '' = '', ''" and br: "ascii_text ''['' = ''[''" "ascii_text '']'' = '']''"
    by (simp_all add: ascii_plain)
  have "ascii_text (join_with '', '' (map dumps_raw xs)) = join_with '', '' (map dumps xs)"
    using ascii_join [OF sep, of "map dumps_raw xs"] m by (simp only: map_map)
  then show ?case using br by (simp del: append.simps)
next
  case (JObj d)
  have m: "map (ascii_text \<circ> (\<lambda>(k, v). quote_raw k @ '': '' @ dumps_raw v)) d = map (\<lambda>(k, v). quote_str k @ '': '' @ dumps v) d"
  proof (rule map_cong [OF refl])
    fix kv assume kv: "kv \<in> set d"
    obtain k v where "kv = (k, v)" by force
    moreover have "ascii_text (dumps_raw v) = dumps v" using JObj kv calculation by (metis snds.intros snd_conv)
    moreover have "ascii_text '': '' = '': ''" by (simp add: ascii_plain)
    ultimately show "(ascii_text \<circ> (\<lambda>(k, v). quote_raw k @ '': '' @ dumps_raw v)) kv = (case kv of (k, v) \<Rightarrow> quote_str k @ '': '' @ dumps v)"
      by (simp add: ascii_quote del: append.simps)
  qed
  have sep: "ascii_text '', '' = '', ''" and br: "ascii_text ''{'' = ''{''" "ascii_text ''}'' = ''}''"
    by (simp_all add: ascii_plain)
  have "ascii_text (join_with '', '' (map (\<lambda>(k, v). quote_raw k @ '': '' @ dumps_raw v) d))
      = join_with '', '' (map (\<lambda>(k, v). quote_str k @ '': '' @ dumps v) d)"
    using ascii_join [OF sep, of "map (\<lambda>(k, v). quote_raw k @ '': '' @ dumps_raw v) d"] m by (simp only: map_map)
  then show ?case using br by (simp del: append.simps)
qed (simp_all add: ascii_quote show_int_ascii ascii_plain)

lemma dumps_raw_inj: "json_wf x \<Longrightarrow> json_wf y \<Longrightarrow> dumps_raw x = dumps_raw y \<Longrightarrow> x = y"
  using ascii_dumps loads_dumps by (metis option.inject)

lemma sort_keys_wf: "json_wf x \<Longrightarrow> json_wf (sort_keys x)"
proof (induction x)
  case (JArr xs)
  then show ?case by (auto simp: list_all_iff)
next
  case (JObj d)
  let ?d = "map (\<lambda>(k, v). (k, sort_keys v)) d"
  have "map fst ?d = map fst d" by (simp add: case_prod_beta comp_def)
  moreover have "mset (map fst (sort_key fst ?d)) = mset (map fst ?d)"
    unfolding mset_map mset_sort ..
  ultimately have same: "mset (map fst (sort_key fst ?d)) = mset (map fst d)" by (simp only:)
  have "distinct (map fst d)" using JObj.prems by simp
  then have "distinct (map fst (sort_key fst ?d))" by (rule mset_eq_imp_distinct_iff [OF same, THEN iffD2])
  moreover have "\<forall>(k, v)\<in>set ?d. json_wf v" using JObj by (auto simp: list_all_iff)
  ultimately show ?case by (simp add: list_all_iff)
qed simp_all

text \<open>
  A cached answer belongs to the request. Two requests (with keys of parameters unique at every
  depth) whose hashes do not collide have the same fingerprint exactly when their models are equal and their
  messages and parameters are equal up to the order of keys.
\<close>

theorem fingerprint_identifies_request:
  assumes "json_wf msgs" and "json_wf msgs'" and "json_wf (JObj ps)" and "json_wf (JObj ps')"
    and "let t = dumps_raw (canonical_request m msgs ps); t' = dumps_raw (canonical_request m' msgs' ps')
         in take 32 (hash t) = take 32 (hash t') \<longrightarrow> t = t'"
  shows "compute_fingerprint hash m msgs ps = compute_fingerprint hash m' msgs' ps'
    \<longleftrightarrow> m = m' \<and> sort_keys msgs = sort_keys msgs' \<and> sort_keys (JObj ps) = sort_keys (JObj ps')"
proof -
  let ?r = "JObj [(''model'', JStr m), (''messages'', msgs), (''params'', JObj ps)]"
  let ?r' = "JObj [(''model'', JStr m'), (''messages'', msgs'), (''params'', JObj ps')]"
  have sorted: "canonical_request n x y = JObj [(''messages'', sort_keys x), (''model'', JStr n), (''params'', sort_keys (JObj y))]" for n x y
    by (simp add: canonical_request_def less_le)
  have wf: "json_wf (canonical_request m msgs ps)" "json_wf (canonical_request m' msgs' ps')"
    unfolding canonical_request_def by (rule sort_keys_wf, use assms(1-4) in simp)+
  have "compute_fingerprint hash m msgs ps = compute_fingerprint hash m' msgs' ps'
      \<longleftrightarrow> canonical_request m msgs ps = canonical_request m' msgs' ps'"
    using assms(5) dumps_raw_inj [OF wf] by (auto simp: compute_fingerprint_def Let_def)
  then show ?thesis unfolding sorted by auto
qed

theorem fingerprint_identifies_request_witness:
  "compute_fingerprint rev ''m'' (JArr []) [(''seed'', JInt 1), (''n'', JInt 1)]
     = compute_fingerprint rev ''m'' (JArr []) [(''n'', JInt 1), (''seed'', JInt 1)]
   \<and> compute_fingerprint rev ''m'' (JArr []) [(''n'', JInt 1)] \<noteq> compute_fingerprint rev ''m'' (JArr []) [(''n'', JInt 2)]"
proof -
  have same: "sort_keys (JObj [(''seed'', JInt 1), (''n'', JInt 1)]) = sort_keys (JObj [(''n'', JInt 1), (''seed'', JInt 1)])"
    by code_simp
  have other: "sort_keys (JObj [(''n'', JInt 1)]) \<noteq> sort_keys (JObj [(''n'', JInt 2)])" by code_simp
  have hash: "(let t = dumps_raw (canonical_request ''m'' (JArr []) [(''n'', JInt 1)]);
         t' = dumps_raw (canonical_request ''m'' (JArr []) [(''n'', JInt 2)])
       in take 32 (rev t) = take 32 (rev t') \<longrightarrow> t = t')"
    "(let t = dumps_raw (canonical_request ''m'' (JArr []) [(''seed'', JInt 1), (''n'', JInt 1)]);
         t' = dumps_raw (canonical_request ''m'' (JArr []) [(''n'', JInt 1), (''seed'', JInt 1)])
       in take 32 (rev t) = take 32 (rev t') \<longrightarrow> t = t')"
    by code_simp+
  show ?thesis
    using fingerprint_identifies_request [OF _ _ _ _ hash(1)] fingerprint_identifies_request [OF _ _ _ _ hash(2)] same other by simp
qed

section \<open>What the cache returns\<close>

lemma response_key_inj:
  "response_cache_key g m f = response_cache_key g' m' f' \<longleftrightarrow> g = g' \<and> m = m' \<and> f = f'"
  by (simp add: response_cache_key_def field_split)

lemma response_key_not_gen [simp]: "response_cache_key g m f \<noteq> CATALOG_GEN_KEY" "CATALOG_GEN_KEY \<noteq> response_cache_key g m f"
  by (simp_all add: response_cache_key_def CATALOG_GEN_KEY_def)

lemma get_cached_response_healthy:
  "r_wire s = [] \<Longrightarrow> get_cached_response now m f s =
     (case redis_get now (response_cache_key (redis_count now CATALOG_GEN_KEY s) m f) s of
        None \<Rightarrow> None | Some raw \<Rightarrow> (case loads raw of Some (JObj d) \<Rightarrow> Some d | _ \<Rightarrow> None), s)"
  by (auto simp: get_cached_response_def get_generation_def read_entry_def rread_def redis_count_def
      split: option.splits json.splits)

lemma set_cached_response_healthy:
  "r_wire s = [] \<Longrightarrow> set_cached_response now m f d ttl s =
     redis_set now (response_cache_key (redis_count now CATALOG_GEN_KEY s) m f) (dumps (JObj d))
       (Some (or_int ttl DEFAULT_RESPONSE_CACHE_TTL)) s"
  by (auto simp: set_cached_response_def get_generation_def write_entry_def rread_def ruse_def redis_count_def
      split: option.splits)

lemma redis_get_set:
  "redis_get now' k' (redis_set now k v (Some ttl) s) =
     (if k = k' then if now' < now + ttl * 1000 then Some v else None else redis_get now' k' s)"
  by (auto simp: redis_get_def redis_set_def expired_def)

lemma count_after_set: "k \<noteq> k' \<Longrightarrow> redis_count now' k' (redis_set now k v ex s) = redis_count now' k' s"
  by (simp add: redis_count_def redis_get_int_def redis_set_def expired_def)

lemma bump_catalog_healthy:
  assumes "r_wire s = []" and "(n, s') = bump_catalog_generation now s"
  shows "r_wire s' = [] \<and> redis_count now CATALOG_GEN_KEY s' = redis_count now CATALOG_GEN_KEY s + 1
    \<and> (k \<noteq> CATALOG_GEN_KEY \<longrightarrow> redis_get now k s' = redis_get now k s)"
proof -
  obtain c t where c: "redis_incrby now CATALOG_GEN_KEY 1 s = (c, t)" by (metis prod.collapse)
  have s': "s' = t" using assms c by (simp add: bump_catalog_generation_def bump_generation_def)
  have "r_wire t = []" using assms(1) c by (metis r_wire_cmds(4) snd_conv)
  moreover have "redis_count now CATALOG_GEN_KEY t = redis_count now CATALOG_GEN_KEY s + 1"
    using rc.cnt_incr [of now CATALOG_GEN_KEY CATALOG_GEN_KEY 1 s] c by simp
  moreover have "k \<noteq> CATALOG_GEN_KEY \<longrightarrow> redis_get now k t = redis_get now k s"
    using c by (auto simp: redis_get_def redis_incrby_def evict_if_expired_def expired_def Let_def split: option.splits if_splits)
  ultimately show ?thesis using s' by blast
qed

text \<open>
  The response cache returns what was stored, for that request only, and forgets on a catalog change.
  On a healthy connection a stored answer is returned unchanged until its lifetime is over and not after, to
  the same model and fingerprint and no other, and is unreachable once the catalog generation has moved
  (unless something was already stored under the new generation).
\<close>

theorem response_cache_exact:
  assumes "r_wire s = []" and "json_wf (JObj d)" and "t = set_cached_response now m f d ttl s"
    and "now \<le> now'" and "redis_count now' CATALOG_GEN_KEY s = redis_count now CATALOG_GEN_KEY s"
    and "(n, u) = bump_catalog_generation now' t"
  shows "fst (get_cached_response now' m f t)
      = (if now' < now + or_int ttl DEFAULT_RESPONSE_CACHE_TTL * 1000 then Some d else None)
    \<and> ((m', f') \<noteq> (m, f) \<longrightarrow> fst (get_cached_response now' m' f' t) = fst (get_cached_response now' m' f' s))
    \<and> (redis_get now' (response_cache_key (redis_count now CATALOG_GEN_KEY s + 1) m f) s = None
        \<longrightarrow> fst (get_cached_response now' m f u) = None)"
proof -
  let ?g = "redis_count now CATALOG_GEN_KEY s"
  have t: "t = redis_set now (response_cache_key ?g m f) (dumps (JObj d)) (Some (or_int ttl DEFAULT_RESPONSE_CACHE_TTL)) s"
    using assms(3) set_cached_response_healthy [OF assms(1)] by simp
  have wt: "r_wire t = []" using t assms(1) by simp
  have gt: "redis_count now' CATALOG_GEN_KEY t = ?g" using assms(5) by (simp add: t count_after_set)
  have l: "loads (dumps (JObj d)) = Some (JObj d)" using loads_dumps [OF assms(2)] .
  have one: "fst (get_cached_response now' m f t)
      = (if now' < now + or_int ttl DEFAULT_RESPONSE_CACHE_TTL * 1000 then Some d else None)"
    unfolding get_cached_response_healthy [OF wt] gt using l by (simp add: t redis_get_set)
  have two: "fst (get_cached_response now' m' f' t) = fst (get_cached_response now' m' f' s)" if "(m', f') \<noteq> (m, f)"
    unfolding get_cached_response_healthy [OF wt] get_cached_response_healthy [OF assms(1)] gt
  proof -
    have "response_cache_key ?g m f \<noteq> response_cache_key ?g m' f'" using that by (auto simp: response_key_inj)
    then show "fst (case redis_get now' (response_cache_key ?g m' f') t of
          None \<Rightarrow> None | Some raw \<Rightarrow> (case loads raw of Some (JObj d) \<Rightarrow> Some d | _ \<Rightarrow> None), t)
      = fst (case redis_get now' (response_cache_key (redis_count now' CATALOG_GEN_KEY s) m' f') s of
          None \<Rightarrow> None | Some raw \<Rightarrow> (case loads raw of Some (JObj d) \<Rightarrow> Some d | _ \<Rightarrow> None), s)"
      using assms(5) by (simp add: t redis_get_set)
  qed
  note b = bump_catalog_healthy [OF wt assms(6)]
  have three: "fst (get_cached_response now' m f u) = None" if "redis_get now' (response_cache_key (?g + 1) m f) s = None"
  proof -
    have "redis_get now' (response_cache_key (?g + 1) m f) u = redis_get now' (response_cache_key (?g + 1) m f) t"
      using b by simp
    also have "\<dots> = None" using that by (simp add: t redis_get_set response_key_inj)
    finally show ?thesis using b gt by (simp add: get_cached_response_healthy)
  qed
  show ?thesis using one two three by blast
qed

theorem response_cache_exact_witness:
  "fst (get_cached_response 1000 3 ''h'' (set_cached_response 0 3 ''h'' [(''id'', JStr ''x'')] None empty_redis)) = Some [(''id'', JStr ''x'')]"
proof -
  obtain n u where u: "(n, u) = bump_catalog_generation 1000 (set_cached_response 0 3 ''h'' [(''id'', JStr ''x'')] None empty_redis)"
    by (metis prod.collapse)
  have w: "r_wire empty_redis = []" "json_wf (JObj [(''id'', JStr ''x'')])"
    "redis_count 1000 CATALOG_GEN_KEY empty_redis = redis_count 0 CATALOG_GEN_KEY empty_redis"
    by (simp_all add: empty_redis_def redis_count_def redis_get_int_def)
  show ?thesis
    using response_cache_exact [OF w(1,2) refl _ w(3) u] by (simp add: DEFAULT_RESPONSE_CACHE_TTL_def or_int_def)
qed

end
