(* ===== verification/Requests.thy ===== *)
theory Requests
  imports Service Json
begin

text \<open>
  What the gateway accepts from a client and what it hands to the upstream library
  (\<open>src/gateway/schemas.py\<close>, the request classes of \<open>src/gateway/endpoints_v1.py\<close>, \<open>_parse_body\<close> and the
  keyword arguments the endpoints build). The validation library is not part of the repository: how it reads a
  JSON text and how it coerces a field to a type are the components of \<open>pydantic\<close>; which fields a request
  has, their defaults, their aliases and the rejection of reserved keys are the repository's.
\<close>

record pydantic =
  py_json :: "string \<Rightarrow> json option"
  py_str :: "json \<Rightarrow> string option"
  py_bool :: "json \<Rightarrow> bool option"
  py_int :: "json \<Rightarrow> int option"
  py_float :: "json \<Rightarrow> json option"

section \<open>Reserved keys\<close>

definition FORBIDDEN_KEYS :: "string list" where
  "FORBIDDEN_KEYS = [''api_base'', ''base_url'', ''api_key'', ''api_version'', ''azure_ad_token'',
     ''azure_ad_token_provider'', ''headers'', ''extra_headers'', ''default_headers'', ''litellm_metadata'',
     ''litellm_params'', ''metadata'', ''model_list'', ''deployment_id'', ''custom_llm_provider'', ''mock_response'',
     ''preset_cache_key'', ''no-log'', ''no_log'', ''cache'', ''caching'', ''callbacks'', ''success_callback'',
     ''failure_callback'', ''logger_fn'', ''client'', ''aclient'', ''api_type'', ''aws_access_key_id'',
     ''aws_region_name'', ''aws_secret_access_key'', ''aws_session_token'', ''region_name'', ''vertex_credentials'',
     ''vertex_location'', ''vertex_project'', ''vertex_project_id'', ''organization'', ''drop_params'',
     ''allowed_openai_params'', ''proxy_server_request'', ''specific_deployment'', ''timeout'']"

definition reject_reserved_litellm_params :: "json \<Rightarrow> json option" where
  "reject_reserved_litellm_params v =
     (case v of
        JObj d \<Rightarrow> if \<exists>k \<in> set (map fst d). k \<in> set FORBIDDEN_KEYS then None else Some v
      | _ \<Rightarrow> Some v)"

section \<open>Fields\<close>

definition required :: "string \<Rightarrow> (json \<Rightarrow> 'a option) \<Rightarrow> (string \<times> json) list \<Rightarrow> 'a option" where
  "required k coerce d = (case map_of d k of None \<Rightarrow> None | Some v \<Rightarrow> coerce v)"

definition defaulted :: "string \<Rightarrow> 'a \<Rightarrow> (json \<Rightarrow> 'a option) \<Rightarrow> (string \<times> json) list \<Rightarrow> 'a option" where
  "defaulted k v coerce d = (case map_of d k of None \<Rightarrow> Some v | Some x \<Rightarrow> coerce x)"

text \<open>\<open>T | None\<close>, \<open>list[Any]\<close>, \<open>dict[str, Any]\<close> and \<open>str | list[...]\<close>.\<close>

definition nullable :: "(json \<Rightarrow> 'a option) \<Rightarrow> json \<Rightarrow> 'a option option" where
  "nullable coerce v = (if v = JNull then Some None else map_option Some (coerce v))"

definition any_list :: "json \<Rightarrow> json option" where
  "any_list v = (case v of JArr xs \<Rightarrow> Some v | _ \<Rightarrow> None)"

definition any_dict :: "json \<Rightarrow> json option" where
  "any_dict v = (case v of JObj d \<Rightarrow> Some v | _ \<Rightarrow> None)"

definition str_or_list :: "pydantic \<Rightarrow> (json \<Rightarrow> bool) \<Rightarrow> json \<Rightarrow> json option" where
  "str_or_list P item v =
     (case v of JArr xs \<Rightarrow> if list_all item xs then Some v else None | _ \<Rightarrow> map_option JStr (py_str P v))"

text \<open>\<open>extra="allow"\<close>: the keys that are no field are kept after the fields.\<close>

definition extra_keys :: "string list \<Rightarrow> (string \<times> json) list \<Rightarrow> (string \<times> json) list" where
  "extra_keys names d = filter (\<lambda>kv. fst kv \<notin> set names) d"

section \<open>Request classes\<close>

record openai_request =
  oq_model :: "string option"
  oq_stream :: bool
  oq_messages :: json
  oq_extra :: "(string \<times> json) list"

record anthropic_request =
  aq_model :: "string option"
  aq_max_tokens :: int
  aq_stream :: bool
  aq_system :: json
  aq_messages :: json
  aq_extra :: "(string \<times> json) list"

record gemini_request =
  gq_contents :: json
  gq_system_instruction :: json
  gq_generationConfig :: "json option"
  gq_tools :: json
  gq_tool_config :: json
  gq_safety_settings :: json
  gq_cached_content :: json
  gq_extra :: "(string \<times> json) list"

record embeddings_request =
  eq_model :: string
  eq_input :: json
  eq_encoding_format :: "string option"
  eq_dimensions :: "int option"
  eq_extra :: "(string \<times> json) list"

record responses_request =
  rq_model :: string
  rq_input :: json
  rq_streamed :: bool
  rq_max_output_tokens :: "int option"
  rq_temperature :: "json option"
  rq_instructions :: "string option"
  rq_extra :: "(string \<times> json) list"

definition validate_openai :: "pydantic \<Rightarrow> (string \<times> json) list \<Rightarrow> openai_request option" where
  "validate_openai P d =
     (case (defaulted ''model'' None (nullable (py_str P)) d, defaulted ''stream'' False (py_bool P) d, required ''messages'' any_list d) of
        (Some m, Some s, Some ms) \<Rightarrow>
          Some \<lparr>oq_model = m, oq_stream = s, oq_messages = ms, oq_extra = extra_keys [''model'', ''stream'', ''messages''] d\<rparr>
      | _ \<Rightarrow> None)"

definition validate_anthropic :: "pydantic \<Rightarrow> (string \<times> json) list \<Rightarrow> anthropic_request option" where
  "validate_anthropic P d =
     (case (defaulted ''model'' None (nullable (py_str P)) d, defaulted ''max_tokens'' 4096 (py_int P) d,
            defaulted ''stream'' False (py_bool P) d, required ''messages'' any_list d) of
        (Some m, Some n, Some s, Some ms) \<Rightarrow>
          Some \<lparr>aq_model = m, aq_max_tokens = n, aq_stream = s, aq_system = dget ''system'' d, aq_messages = ms,
                aq_extra = extra_keys [''model'', ''max_tokens'', ''stream'', ''system'', ''messages''] d\<rparr>
      | _ \<Rightarrow> None)"

definition validate_gemini :: "(string \<times> json) list \<Rightarrow> gemini_request option" where
  "validate_gemini d =
     (case (required ''contents'' any_list d, defaulted ''generationConfig'' None (nullable any_dict) d) of
        (Some cs, Some g) \<Rightarrow>
          Some \<lparr>gq_contents = cs, gq_system_instruction = dget ''system_instruction'' d, gq_generationConfig = g,
                gq_tools = dget ''tools'' d, gq_tool_config = dget ''toolConfig'' d, gq_safety_settings = dget ''safetySettings'' d,
                gq_cached_content = dget ''cachedContent'' d,
                gq_extra = extra_keys [''contents'', ''system_instruction'', ''generationConfig'', ''tools'', ''toolConfig'',
                  ''safetySettings'', ''cachedContent''] d\<rparr>
      | _ \<Rightarrow> None)"

definition validate_embeddings :: "pydantic \<Rightarrow> (string \<times> json) list \<Rightarrow> embeddings_request option" where
  "validate_embeddings P d =
     (case (required ''model'' (py_str P) d, required ''input'' (str_or_list P (\<lambda>v. py_str P v \<noteq> None)) d,
            defaulted ''encoding_format'' None (nullable (py_str P)) d, defaulted ''dimensions'' None (nullable (py_int P)) d) of
        (Some m, Some i, Some f, Some n) \<Rightarrow>
          Some \<lparr>eq_model = m, eq_input = i, eq_encoding_format = f, eq_dimensions = n,
                eq_extra = extra_keys [''model'', ''input'', ''encoding_format'', ''dimensions''] d\<rparr>
      | _ \<Rightarrow> None)"

definition validate_responses :: "pydantic \<Rightarrow> (string \<times> json) list \<Rightarrow> responses_request option" where
  "validate_responses P d =
     (case (required ''model'' (py_str P) d, required ''input'' (str_or_list P (\<lambda>v. True)) d, defaulted ''stream'' False (py_bool P) d,
            defaulted ''max_output_tokens'' None (nullable (py_int P)) d, defaulted ''temperature'' None (nullable (py_float P)) d,
            defaulted ''instructions'' None (nullable (py_str P)) d) of
        (Some m, Some i, Some s, Some n, Some t, Some ins) \<Rightarrow>
          Some \<lparr>rq_model = m, rq_input = i, rq_streamed = s, rq_max_output_tokens = n, rq_temperature = t, rq_instructions = ins,
                rq_extra = extra_keys [''model'', ''input'', ''stream'', ''max_output_tokens'', ''temperature'', ''instructions''] d\<rparr>
      | _ \<Rightarrow> None)"

section \<open>Reading the body\<close>

text \<open>\<open>model_validate_json\<close>: parse, the validator that runs before, the fields.\<close>

definition model_validate_json :: "pydantic \<Rightarrow> ((string \<times> json) list \<Rightarrow> 'r option) \<Rightarrow> string \<Rightarrow> 'r option" where
  "model_validate_json P validate body =
     (case py_json P body of
        None \<Rightarrow> None
      | Some v \<Rightarrow> (case reject_reserved_litellm_params v of Some (JObj d) \<Rightarrow> validate d | _ \<Rightarrow> None))"

fun read_body :: "int \<Rightarrow> int \<Rightarrow> string list \<Rightarrow> string list \<Rightarrow> string list res" where
  "read_body max_body_bytes so_far chunks [] = ROk chunks"
| "read_body max_body_bytes so_far chunks (c # cs) =
     (if so_far + int (length c) > max_body_bytes then RErr (app_err EC_request_invalid 413)
      else read_body max_body_bytes (so_far + int (length c)) (chunks @ [c]) cs)"

definition parse_body :: "int \<Rightarrow> pydantic \<Rightarrow> ((string \<times> json) list \<Rightarrow> 'r option) \<Rightarrow> string list \<Rightarrow> 'r res" where
  "parse_body max_body_bytes P validate stream =
     (case read_body max_body_bytes 0 [] stream of
        RErr e \<Rightarrow> RErr e
      | RCrash \<Rightarrow> RCrash
      | ROk chunks \<Rightarrow>
          (case model_validate_json P validate (concat chunks) of
             None \<Rightarrow> RErr (app_err EC_request_invalid 422)
           | Some r \<Rightarrow> ROk r))"

section \<open>What the upstream library is called with\<close>

text \<open>\<open>d[k] = v\<close> and \<open>d.update(e)\<close>.\<close>

definition dset :: "string \<Rightarrow> json \<Rightarrow> (string \<times> json) list \<Rightarrow> (string \<times> json) list" where
  "dset k v d = (if k \<in> fst ` set d then map (\<lambda>kv. if fst kv = k then (k, v) else kv) d else d @ [(k, v)])"

definition dupdate :: "(string \<times> json) list \<Rightarrow> (string \<times> json) list \<Rightarrow> (string \<times> json) list" where
  "dupdate d e = fold (\<lambda>kv. dset (fst kv) (snd kv)) e d"

definition set_given :: "string \<Rightarrow> json \<Rightarrow> (string \<times> json) list \<Rightarrow> (string \<times> json) list" where
  "set_given k v d = (if v = JNull then d else dset k v d)"

definition openai_params :: "openai_request \<Rightarrow> (string \<times> json) list" where
  "openai_params q = oq_extra q"

definition chat_kwargs :: "string \<Rightarrow> openai_request \<Rightarrow> (string \<times> json) list" where
  "chat_kwargs model_name q =
     [(''model'', JStr model_name), (''messages'', oq_messages q), (''stream'', JBool (oq_stream q))]
     @ (if oq_stream q then dset ''stream_options'' (JObj [(''include_usage'', JBool True)]) (openai_params q) else openai_params q)"

definition anthropic_native_params :: "string \<Rightarrow> anthropic_request \<Rightarrow> (string \<times> json) list" where
  "anthropic_native_params model_name q =
     dset ''litellm_metadata'' (JObj [])
       (dupdate (set_given ''system'' (aq_system q)
          [(''model'', JStr model_name), (''messages'', aq_messages q), (''max_tokens'', JInt (aq_max_tokens q)), (''stream'', JBool (aq_stream q))])
        (aq_extra q))"

definition gemini_native_params :: "string \<Rightarrow> gemini_request \<Rightarrow> (string \<times> json) list" where
  "gemini_native_params model_name q =
     set_given ''cachedContent'' (gq_cached_content q)
     (set_given ''safetySettings'' (gq_safety_settings q)
     (set_given ''toolConfig'' (gq_tool_config q)
     (set_given ''tools'' (gq_tools q)
     (set_given ''generationConfig'' (opt_json id (gq_generationConfig q))
     (set_given ''systemInstruction'' (gq_system_instruction q)
        [(''model'', JStr model_name), (''contents'', gq_contents q), (''litellm_metadata'', JObj [])])))))"

definition embeddings_kwargs :: "string \<Rightarrow> embeddings_request \<Rightarrow> (string \<times> json) list" where
  "embeddings_kwargs model_name q =
     set_given ''dimensions'' (opt_json JInt (eq_dimensions q))
     (set_given ''encoding_format'' (opt_json JStr (eq_encoding_format q))
        [(''model'', JStr model_name), (''input'', eq_input q), (''litellm_metadata'', JObj [])])"

definition responses_payload_data :: "responses_request \<Rightarrow> (string \<times> json) list" where
  "responses_payload_data q =
     [(''max_output_tokens'', opt_json JInt (rq_max_output_tokens q)), (''temperature'', opt_json id (rq_temperature q)),
      (''instructions'', opt_json JStr (rq_instructions q))] @ rq_extra q"

definition responses_kwargs :: "string \<Rightarrow> responses_request \<Rightarrow> (string \<times> json) list" where
  "responses_kwargs model_name q =
     (let kwargs = dupdate [(''model'', JStr model_name), (''input'', rq_input q), (''litellm_metadata'', JObj [])]
                     (filter (\<lambda>kv. snd kv \<noteq> JNull) (responses_payload_data q))
      in if rq_streamed q then dset ''stream'' (JBool True) kwargs else kwargs)"

section \<open>Properties\<close>

lemma read_body_total:
  "read_body mx n acc cs =
     (if n + int (length (concat cs)) > mx \<and> cs \<noteq> [] then RErr (app_err EC_request_invalid 413) else ROk (acc @ cs))"
  by (induction cs arbitrary: n acc) (auto simp: algebra_simps)

text \<open>How the client cuts the body into chunks does not matter: a body is refused with 413 exactly when it
  is longer than the cap, with 422 when it is no JSON object, uses a reserved key or does not fit the request
  class, and is otherwise the request read from the whole text.\<close>

theorem body_read_whole:
  assumes "0 \<le> max_body_bytes"
  shows "parse_body max_body_bytes P validate chunks =
    (if int (length (concat chunks)) > max_body_bytes then RErr (app_err EC_request_invalid 413)
     else case py_json P (concat chunks) of
       Some (JObj d) \<Rightarrow>
         (if set (map fst d) \<inter> set FORBIDDEN_KEYS \<noteq> {} then RErr (app_err EC_request_invalid 422)
          else case validate d of None \<Rightarrow> RErr (app_err EC_request_invalid 422) | Some r \<Rightarrow> ROk r)
     | _ \<Rightarrow> RErr (app_err EC_request_invalid 422))"
proof -
  have "read_body max_body_bytes 0 [] chunks =
      (if int (length (concat chunks)) > max_body_bytes then RErr (app_err EC_request_invalid 413) else ROk chunks)"
    using assms by (cases "chunks = []") (simp_all only: read_body_total, simp_all)
  moreover have "(\<exists>k \<in> set (map fst d). k \<in> set FORBIDDEN_KEYS) \<longleftrightarrow> set (map fst d) \<inter> set FORBIDDEN_KEYS \<noteq> {}" for d :: "(string \<times> json) list"
    by blast
  ultimately show ?thesis
    by (simp add: parse_body_def model_validate_json_def reject_reserved_litellm_params_def split: option.split json.split)
qed

text \<open>A dictionary without reserved keys but the gateway's own.\<close>

definition ok_key :: "string \<Rightarrow> bool" where
  "ok_key k \<longleftrightarrow> k \<notin> set FORBIDDEN_KEYS \<or> k = ''litellm_metadata''"

definition ok_keys :: "(string \<times> json) list \<Rightarrow> bool" where
  "ok_keys d = list_all ok_key (map fst d)"

lemma map_of_replace:
  "map_of (map (\<lambda>kv. if fst kv = k then (k, v) else kv) d) x = (if x = k \<and> k \<in> fst ` set d then Some v else map_of d x)"
  by (induction d) (auto split: if_splits)

lemma map_of_dset: "map_of (dset k v d) = (map_of d)(k \<mapsto> v)"
proof (rule ext)
  fix x
  show "map_of (dset k v d) x = ((map_of d)(k \<mapsto> v)) x"
  proof (cases "k \<in> fst ` set d")
    case True then show ?thesis by (simp add: dset_def map_of_replace)
  next
    case False
    then have "map_of d k = None" by (simp add: map_of_eq_None_iff)
    then show ?thesis using False by (simp add: dset_def map_add_def split: option.split)
  qed
qed

lemma map_of_dupdate: "k \<notin> fst ` set e \<Longrightarrow> map_of (dupdate d e) k = map_of d k"
  unfolding dupdate_def by (induction e arbitrary: d) (simp_all add: map_of_dset)

lemma map_of_set_given: "map_of (set_given k v d) = (if v = JNull then map_of d else (map_of d)(k \<mapsto> v))"
  by (simp add: set_given_def map_of_dset)

lemma ok_keys_simps [simp]:
  "ok_keys []" "ok_keys ((k, v) # d) \<longleftrightarrow> ok_key k \<and> ok_keys d" "ok_keys (d @ e) \<longleftrightarrow> ok_keys d \<and> ok_keys e"
  by (simp_all add: ok_keys_def)

lemma ok_keys_dset [intro]: "ok_key k \<Longrightarrow> ok_keys d \<Longrightarrow> ok_keys (dset k v d)"
  by (auto simp: dset_def ok_keys_def list_all_iff)

lemma ok_keys_dupdate [intro]: "ok_keys d \<Longrightarrow> ok_keys e \<Longrightarrow> ok_keys (dupdate d e)"
  unfolding dupdate_def by (induction e arbitrary: d) (auto simp: ok_keys_dset)

lemma ok_keys_set_given [intro]: "ok_key k \<Longrightarrow> ok_keys d \<Longrightarrow> ok_keys (set_given k v d)"
  by (simp add: set_given_def ok_keys_dset)

lemma ok_keys_filter [intro]: "ok_keys d \<Longrightarrow> ok_keys (filter p d)"
  by (auto simp: ok_keys_def list_all_iff)

lemma ok_keys_extra [intro]: "ok_keys d \<Longrightarrow> ok_keys (extra_keys names d)"
  by (simp add: extra_keys_def ok_keys_filter)

lemma gateway_keys [simp]:
  "ok_key ''model''" "ok_key ''messages''" "ok_key ''stream''" "ok_key ''stream_options''" "ok_key ''max_tokens''" "ok_key ''system''"
  "ok_key ''contents''" "ok_key ''systemInstruction''" "ok_key ''generationConfig''" "ok_key ''tools''" "ok_key ''toolConfig''"
  "ok_key ''safetySettings''" "ok_key ''cachedContent''" "ok_key ''input''" "ok_key ''encoding_format''" "ok_key ''dimensions''"
  "ok_key ''max_output_tokens''" "ok_key ''temperature''" "ok_key ''instructions''" "ok_key ''litellm_metadata''"
  by code_simp+

lemma not_extra: "k \<in> set names \<Longrightarrow> k \<notin> fst ` set (extra_keys names d)"
  by (auto simp: extra_keys_def)

text \<open>The calls of the five endpoints, from the text of the body to the keyword arguments.\<close>

datatype api = Chat | Messages | Generate | Embeddings | Responses

definition forwarded :: "pydantic \<Rightarrow> api \<Rightarrow> string \<Rightarrow> string \<Rightarrow> (string \<times> json) list option" where
  "forwarded P api model_name body =
     (case api of
        Chat \<Rightarrow> map_option (chat_kwargs model_name) (model_validate_json P (validate_openai P) body)
      | Messages \<Rightarrow> map_option (anthropic_native_params model_name) (model_validate_json P (validate_anthropic P) body)
      | Generate \<Rightarrow> map_option (gemini_native_params model_name) (model_validate_json P validate_gemini body)
      | Embeddings \<Rightarrow> map_option (embeddings_kwargs model_name) (model_validate_json P (validate_embeddings P) body)
      | Responses \<Rightarrow> map_option (responses_kwargs model_name) (model_validate_json P (validate_responses P) body))"

lemma validated_dict:
  assumes "model_validate_json P validate body = Some q"
  obtains d where "validate d = Some q" "fst ` set d \<inter> set FORBIDDEN_KEYS = {}"
  using assms
  by (fastforce simp: model_validate_json_def reject_reserved_litellm_params_def split: option.splits json.splits if_splits)

text \<open>What the proofs need of an accepted request: its extra keys come from the body and are no fields.\<close>

lemma openai_extra: "validate_openai P d = Some q \<Longrightarrow> oq_extra q = extra_keys [''model'', ''stream'', ''messages''] d"
  by (auto simp: validate_openai_def split: option.splits)

lemma anthropic_extra:
  "validate_anthropic P d = Some q \<Longrightarrow> aq_extra q = extra_keys [''model'', ''max_tokens'', ''stream'', ''system'', ''messages''] d"
  by (auto simp: validate_anthropic_def split: option.splits)

lemma responses_extra:
  "validate_responses P d = Some q
   \<Longrightarrow> rq_extra q = extra_keys [''model'', ''input'', ''stream'', ''max_output_tokens'', ''temperature'', ''instructions''] d"
  by (auto simp: validate_responses_def split: option.splits)

definition own_model_and_metadata :: "string \<Rightarrow> (string \<times> json) list \<Rightarrow> bool" where
  "own_model_and_metadata m kw \<longleftrightarrow> map_of kw ''model'' = Some (JStr m) \<and> map_of kw ''litellm_metadata'' \<in> {None, Some (JObj [])}"

lemma chat_forwarded:
  assumes "validate_openai P d = Some q" and "ok_keys d" and "''litellm_metadata'' \<notin> fst ` set d"
  shows "ok_keys (chat_kwargs m q)" and "own_model_and_metadata m (chat_kwargs m q)"
proof -
  let ?x = "extra_keys [''model'', ''stream'', ''messages''] d"
  have "''litellm_metadata'' \<notin> fst ` set ?x"
    using assms(3) by (auto simp: extra_keys_def)
  then have "map_of ?x ''litellm_metadata'' = None" by (simp add: map_of_eq_None_iff)
  moreover from this have "map_of (dset ''stream_options'' v ?x) ''litellm_metadata'' = None" for v
    by (simp add: map_of_dset)
  ultimately show "own_model_and_metadata m (chat_kwargs m q)"
    by (simp add: own_model_and_metadata_def chat_kwargs_def openai_params_def openai_extra [OF assms(1)])
  show "ok_keys (chat_kwargs m q)"
    using assms(2) by (simp add: chat_kwargs_def openai_params_def openai_extra [OF assms(1)] ok_keys_dset ok_keys_extra)
qed

lemma anthropic_forwarded:
  assumes "validate_anthropic P d = Some q" and "ok_keys d"
  shows "ok_keys (anthropic_native_params m q)" and "own_model_and_metadata m (anthropic_native_params m q)"
  using assms(2)
  by (simp_all add: own_model_and_metadata_def anthropic_native_params_def anthropic_extra [OF assms(1)] ok_keys_dset ok_keys_dupdate
      ok_keys_set_given ok_keys_extra map_of_dset map_of_dupdate not_extra map_of_set_given)

lemma gemini_forwarded: "ok_keys (gemini_native_params m q)" "own_model_and_metadata m (gemini_native_params m q)"
  by (simp_all add: own_model_and_metadata_def gemini_native_params_def ok_keys_set_given map_of_set_given)

lemma embeddings_forwarded: "ok_keys (embeddings_kwargs m q)" "own_model_and_metadata m (embeddings_kwargs m q)"
  by (simp_all add: own_model_and_metadata_def embeddings_kwargs_def ok_keys_set_given map_of_set_given)

lemma responses_forwarded:
  assumes "validate_responses P d = Some q" and "ok_keys d" and "''litellm_metadata'' \<notin> fst ` set d"
  shows "ok_keys (responses_kwargs m q)" and "own_model_and_metadata m (responses_kwargs m q)"
proof -
  let ?given = "filter (\<lambda>kv. snd kv \<noteq> JNull) (responses_payload_data q)"
  let ?x = "extra_keys [''model'', ''input'', ''stream'', ''max_output_tokens'', ''temperature'', ''instructions''] d"
  have "''model'' \<notin> fst ` set ?x" "''litellm_metadata'' \<notin> fst ` set ?x"
    using assms(3) by (auto simp: extra_keys_def)
  then have "''model'' \<notin> fst ` set ?given" "''litellm_metadata'' \<notin> fst ` set ?given"
    by (auto simp: responses_payload_data_def responses_extra [OF assms(1)])
  then show "own_model_and_metadata m (responses_kwargs m q)"
    by (simp add: own_model_and_metadata_def responses_kwargs_def Let_def map_of_dset map_of_dupdate)
  have "ok_keys ?given"
    using assms(2) by (intro ok_keys_filter) (simp add: responses_payload_data_def responses_extra [OF assms(1)] ok_keys_extra)
  then show "ok_keys (responses_kwargs m q)"
    by (simp add: responses_kwargs_def Let_def ok_keys_dset ok_keys_dupdate)
qed

lemma unreserved_ok:
  assumes "fst ` set d \<inter> set FORBIDDEN_KEYS = {}"
  shows "ok_keys d" and "''litellm_metadata'' \<notin> fst ` set d"
proof -
  show "ok_keys d" using assms by (auto simp: ok_keys_def ok_key_def list_all_iff)
  have "''litellm_metadata'' \<in> set FORBIDDEN_KEYS" by (simp add: FORBIDDEN_KEYS_def)
  then show "''litellm_metadata'' \<notin> fst ` set d" using assms by blast
qed

lemma forwarded_call:
  assumes "map_option call (model_validate_json P validate body) = Some kw"
    and "\<And>d q. validate d = Some q \<Longrightarrow> ok_keys d \<Longrightarrow> ''litellm_metadata'' \<notin> fst ` set d
          \<Longrightarrow> ok_keys (call q) \<and> own_model_and_metadata m (call q)"
  shows "ok_keys kw \<and> own_model_and_metadata m kw"
proof -
  obtain q where q: "model_validate_json P validate body = Some q" "kw = call q" using assms(1) by blast
  from q(1) obtain d where d: "validate d = Some q" "fst ` set d \<inter> set FORBIDDEN_KEYS = {}" by (rule validated_dict)
  show ?thesis unfolding q(2) by (rule assms(2) [OF d(1) unreserved_ok [OF d(2)]])
qed

lemma forwarded_safe:
  assumes "forwarded P api m body = Some kw"
  shows "ok_keys kw \<and> own_model_and_metadata m kw"
proof (cases api)
  case Chat
  show ?thesis
    by (rule forwarded_call [OF assms [unfolded forwarded_def Chat api.case]]) (blast intro: chat_forwarded)
next
  case Messages
  show ?thesis
    by (rule forwarded_call [OF assms [unfolded forwarded_def Messages api.case]]) (blast intro: anthropic_forwarded)
next
  case Generate
  show ?thesis
    by (rule forwarded_call [OF assms [unfolded forwarded_def Generate api.case]]) (blast intro: gemini_forwarded)
next
  case Embeddings
  show ?thesis
    by (rule forwarded_call [OF assms [unfolded forwarded_def Embeddings api.case]]) (blast intro: embeddings_forwarded)
next
  case Responses
  show ?thesis
    by (rule forwarded_call [OF assms [unfolded forwarded_def Responses api.case]]) (blast intro: responses_forwarded)
qed

text \<open>C40. Whatever body a client sends to whichever endpoint, the upstream library is called with the resolved
  model's name, and with no reserved key except the empty metadata dictionary the gateway itself adds: a client
  cannot choose the upstream's address, credentials, deployment or metadata.\<close>

theorem reserved_never_forwarded:
  assumes "forwarded P api model_name body = Some kwargs"
  shows "map_of kwargs ''model'' = Some (JStr model_name)
    \<and> fst ` set kwargs \<inter> set FORBIDDEN_KEYS \<subseteq> {''litellm_metadata''}
    \<and> map_of kwargs ''litellm_metadata'' \<in> {None, Some (JObj [])}"
proof -
  have "fst ` set kwargs \<inter> set FORBIDDEN_KEYS \<subseteq> {''litellm_metadata''}"
    using forwarded_safe [OF assms] by (auto simp: ok_keys_def ok_key_def list_all_iff)
  then show ?thesis using forwarded_safe [OF assms] by (simp add: own_model_and_metadata_def)
qed

text \<open>A validation library that coerces nothing, and a body that asks for a stream.\<close>

definition plain_pydantic :: "(string \<Rightarrow> json option) \<Rightarrow> pydantic" where
  "plain_pydantic parse = \<lparr>py_json = parse, py_str = (\<lambda>v. case v of JStr s \<Rightarrow> Some s | _ \<Rightarrow> None),
     py_bool = (\<lambda>v. case v of JBool b \<Rightarrow> Some b | _ \<Rightarrow> None), py_int = (\<lambda>v. case v of JInt i \<Rightarrow> Some i | _ \<Rightarrow> None),
     py_float = (\<lambda>v. case v of JFloat m e \<Rightarrow> Some v | JInt i \<Rightarrow> Some v | _ \<Rightarrow> None)\<rparr>"

definition sample_body :: "(string \<times> json) list" where
  "sample_body = [(''model'', JStr ''fast''), (''messages'', JArr []), (''stream'', JBool True), (''temperature'', JInt 1)]"

theorem reserved_never_forwarded_witness:
  "map_of (chat_kwargs ''gpt-4o'' \<lparr>oq_model = Some ''fast'', oq_stream = True, oq_messages = JArr [], oq_extra = [(''temperature'', JInt 1)]\<rparr>)
     ''model'' = Some (JStr ''gpt-4o'')"
proof -
  have "forwarded (plain_pydantic (\<lambda>t. Some (JObj sample_body))) Chat ''gpt-4o'' ''body''
      = Some (chat_kwargs ''gpt-4o'' \<lparr>oq_model = Some ''fast'', oq_stream = True, oq_messages = JArr [], oq_extra = [(''temperature'', JInt 1)]\<rparr>)"
    by code_simp
  from reserved_never_forwarded [OF this] show ?thesis by simp
qed

theorem body_read_whole_witness:
  "parse_body 4 (plain_pydantic loads) validate_gemini [''{}'', '' '', ''  ''] = RErr (app_err EC_request_invalid 413)
   \<and> parse_body 5 (plain_pydantic loads) validate_gemini [''{}'', '' '', ''  ''] = RErr (app_err EC_request_invalid 422)"
proof
  show "parse_body 4 (plain_pydantic loads) validate_gemini [''{}'', '' '', ''  ''] = RErr (app_err EC_request_invalid 413)"
    by (subst body_read_whole) simp_all
  have "loads ''{}   '' = Some (JObj [])" by code_simp
  then show "parse_body 5 (plain_pydantic loads) validate_gemini [''{}'', '' '', ''  ''] = RErr (app_err EC_request_invalid 422)"
    by (subst body_read_whole) (simp_all add: plain_pydantic_def validate_gemini_def required_def)
qed

text \<open>
  The generate-content endpoint reads the system instruction under \<open>system_instruction\<close> only: the native
  spelling \<open>systemInstruction\<close> is accepted as an extra key and never reaches the upstream.
\<close>

lemma system_instruction_dropped:
  "map_option (\<lambda>q. map_of (gemini_native_params ''m'' q) ''systemInstruction'')
     (validate_gemini [(''contents'', JArr []), (''systemInstruction'', JStr ''be brief'')]) = Some None"
  by code_simp

end
