(* ===== verification/Handlers.thy ===== *)
theory Handlers
  imports Streams ResponseCache Requests
begin

text \<open>
  The gateway's endpoints (\<open>src/gateway/router.py\<close>, \<open>src/gateway/endpoints_v1.py\<close>): resolve the
  model, pass the rate limits, reserve the quota, call the upstream, settle. The upstream's answer is an
  argument; so is whether a live router exists. Everything until the answer happens at \<open>ev_now\<close>,
  the settlement at \<open>ev_end\<close>. A reply is a value, an \<open>AppError\<close>, or a crash (an exception no
  handler expects, answered with a 500).
\<close>

record gw =
  gw_es :: estate
  gw_em :: emergency
  gw_metrics :: "metric list"

record env =
  ev_now :: datetime
  ev_end :: int
  ev_started :: rat
  ev_finished :: rat
  ev_draw :: "int \<times> int"
  ev_exc :: string
  ev_db_ok :: bool
  ev_scripts :: bool
  ev_health :: health_settings
  ev_lib :: model_library
  ev_hash :: "string \<Rightarrow> string"
  ev_router :: bool
  ev_cache_enabled :: bool
  ev_cache_ttl :: "int option"
  ev_pydantic :: pydantic
  ev_max_body :: int
  ev_request_id :: string
  ev_member :: string

abbreviation ev_ms :: "env \<Rightarrow> int" where "ev_ms ev \<equiv> epoch_ms (ev_now ev)"

text \<open>The answer of the upstream call: an exception or a response with the metadata the router wrote.\<close>

type_synonym answer = "upstream_exc + pyobj \<times> (string \<times> json) list"

text \<open>A stream's generator takes over with what was reserved and the channel known so far.\<close>

datatype reply =
    JsonReply pyobj "(string \<times> string) list"
  | StreamReply model_core "rl_rule list" "quota_reservation list" int "string list" "int option" "string option" "string option"
      "string list option" "(string \<times> string) list"

section \<open>The gates\<close>

definition rate_gate :: "env \<Rightarrow> caller \<Rightarrow> int \<Rightarrow> bool \<Rightarrow> int \<Rightarrow> catalog_db \<Rightarrow> gw \<Rightarrow> rl_rule list res \<times> gw" where
  "rate_gate ev user model_id stream estimated_tokens db g =
     (let rules = get_rate_limit_rules (ev_db_ok ev) (au_user_id user) (au_department_id user) model_id (ca_api_key_id user) db
      in if rules = [] then (ROk rules, g)
         else (case check_rate_limits \<lparr>rq_now = ev_ms ev, rq_member = ev_member ev, rq_rules = rules,
                      rq_estimate = estimated_tokens, rq_stream = stream\<rparr> (fst (gw_es g), gw_em g) of
                 (result, s', w') \<Rightarrow>
                   (if rr_allowed result then ROk rules else RErr (app_err EC_rate_limit_exceeded 429),
                    g\<lparr>gw_es := (s', snd (gw_es g)), gw_em := w'\<rparr>)))"

text \<open>\<open>_rollback_rate_limit_reservations\<close>: three steps, each with its exceptions suppressed.\<close>

definition rollback_rate_limit_reservations :: "int \<Rightarrow> string \<Rightarrow> rl_rule list \<Rightarrow> int \<Rightarrow> redis \<Rightarrow> redis" where
  "rollback_rate_limit_reservations now member rules estimated_tokens s =
     (if rules = [] then s
      else release_concurrent now member rules
             (release_rpm now member rules (snd (settle_tpm now rules estimated_tokens s))))"

definition quota_gate ::
  "env \<Rightarrow> caller \<Rightarrow> model_core \<Rightarrow> int \<Rightarrow> rl_rule list \<Rightarrow> catalog_db \<Rightarrow> gw \<Rightarrow> (quota_warning list \<times> quota_reservation list) res \<times> gw" where
  "quota_gate ev user m estimated_tokens rules db g =
     (case check_quota (ev_scripts ev) (ev_now ev) (snd (ev_draw ev)) (au_user_id user) (au_department_id user) (lm_id m)
             estimated_tokens (compute_cost m estimated_tokens 0) db (fst (gw_es g)) of
        (ROk r, s') \<Rightarrow> (ROk r, g\<lparr>gw_es := (s', snd (gw_es g))\<rparr>)
      | (r, s') \<Rightarrow>
          (r, g\<lparr>gw_es := (rollback_rate_limit_reservations (ev_ms ev) (ev_member ev) rules estimated_tokens s', snd (gw_es g))\<rparr>))"

definition resolve_gate :: "env \<Rightarrow> caller \<Rightarrow> string option \<Rightarrow> catalog_db \<Rightarrow> gw \<Rightarrow> model_core res \<times> gw" where
  "resolve_gate ev user requested db g =
     (case resolve_model (ev_ms ev) (fst (ev_draw ev)) (auth_user.truncate user) requested db (fst (gw_es g)) of
        (r, s') \<Rightarrow> (r, g\<lparr>gw_es := (s', snd (gw_es g))\<rparr>))"

text \<open>Rate limits, then quota: what every endpoint does before the upstream call.\<close>

definition pass_gates ::
  "env \<Rightarrow> caller \<Rightarrow> model_core \<Rightarrow> bool \<Rightarrow> int \<Rightarrow> catalog_db \<Rightarrow> gw
   \<Rightarrow> (rl_rule list \<times> quota_warning list \<times> quota_reservation list) res \<times> gw" where
  "pass_gates ev user m stream estimated_tokens db g =
     (case rate_gate ev user (lm_id m) stream estimated_tokens db g of
        (RErr e, g1) \<Rightarrow> (RErr e, g1)
      | (RCrash, g1) \<Rightarrow> (RCrash, g1)
      | (ROk rules, g1) \<Rightarrow>
          (case quota_gate ev user m estimated_tokens rules db g1 of
             (RErr e, g2) \<Rightarrow> (RErr e, g2)
           | (RCrash, g2) \<Rightarrow> (RCrash, g2)
           | (ROk (ws, rs), g2) \<Rightarrow> (ROk (rules, ws, rs), g2)))"

definition quota_headers :: "quota_warning list \<Rightarrow> (string \<times> string) list" where
  "quota_headers ws = (if ws = [] then [] else [(''X-Gateway-Quota-Warnings'', show_int (int (length ws)))])"

section \<open>The end of a request\<close>

definition finish :: "env \<Rightarrow> gctx \<Rightarrow> model_core \<Rightarrow> rl_rule list \<Rightarrow> quota_reservation list \<Rightarrow> gw \<Rightarrow> gw" where
  "finish ev ctx m rules rs g =
     (case finalize_gateway_request (ev_health ev) (ev_end ev) (ev_finished ev) (ev_exc ev) (Some m) True rules rs ctx (gw_es g) of
        (_, st, ms) \<Rightarrow> g\<lparr>gw_es := st, gw_metrics := gw_metrics g @ ms\<rparr>)"

definition fail_upstream ::
  "env \<Rightarrow> caller \<Rightarrow> model_core \<Rightarrow> bool \<Rightarrow> int \<Rightarrow> rl_rule list \<Rightarrow> quota_reservation list \<Rightarrow> upstream_exc \<Rightarrow> gw \<Rightarrow> reply res \<times> gw" where
  "fail_upstream ev user m stream estimated_tokens rules rs x g =
     (RErr (upstream_error x),
      finish ev (mark_error (usage_status_for_exception x) 502 None None
                   (base_context (ev_request_id ev) user m (ev_started ev) stream None None None None estimated_tokens))
        m rules rs g)"

definition router_missing :: app_error where
  "router_missing = app_err EC_model_unavailable 503"

section \<open>Chat completions\<close>

text \<open>The part after the cache lookup.\<close>

definition call_chat ::
  "env \<Rightarrow> caller \<Rightarrow> model_core \<Rightarrow> bool \<Rightarrow> int \<Rightarrow> string list \<Rightarrow> rl_rule list \<Rightarrow> quota_warning list \<Rightarrow> quota_reservation list
   \<Rightarrow> string option \<Rightarrow> (pyobj \<Rightarrow> json) \<Rightarrow> answer \<Rightarrow> gw \<Rightarrow> reply res \<times> gw" where
  "call_chat ev user m stream estimated_tokens asked rules ws rs fingerprint encode answer g =
     (if \<not> ev_router ev then (RErr router_missing, g)
      else case answer of
        Inl x \<Rightarrow> fail_upstream ev user m stream estimated_tokens rules rs x g
      | Inr (response, meta) \<Rightarrow>
          (if stream
           then (ROk (StreamReply m rules rs estimated_tokens asked None None None None (quota_headers ws)), g)
           else (case extract_usage response of
                   None \<Rightarrow> (RCrash, g)
                 | Some u \<Rightarrow>
                     (let (channel, upstream) = extract_routing_info response;
                          provider = provider_from_response response;
                          downgraded = detect_downgraded_features (ev_lib ev) asked upstream provider;
                          g1 = finish ev (with_usage u (base_context (ev_request_id ev) user m (ev_started ev) False channel upstream
                                 provider downgraded estimated_tokens)) m rules rs g
                      in case (case fingerprint of None \<Rightarrow> Some False | Some _ \<Rightarrow> is_cacheable_response response) of
                           None \<Rightarrow> (RCrash, g1)
                         | Some store \<Rightarrow>
                             (ROk (JsonReply response (merge_headers [quota_headers ws, downgraded_header downgraded])),
                              case (store, fingerprint, encode response) of
                                (True, Some f, JObj d) \<Rightarrow>
                                  g1\<lparr>gw_es := (set_cached_response (ev_end ev) (lm_id m) f d (ev_cache_ttl ev) (fst (gw_es g1)), snd (gw_es g1))\<rparr>
                              | _ \<Rightarrow> g1)))))"

definition after_gates_chat ::
  "env \<Rightarrow> caller \<Rightarrow> model_core \<Rightarrow> json \<Rightarrow> bool \<Rightarrow> (string \<times> json) list \<Rightarrow> int \<Rightarrow> string list \<Rightarrow> rl_rule list
   \<Rightarrow> quota_warning list \<Rightarrow> quota_reservation list \<Rightarrow> (pyobj \<Rightarrow> json) \<Rightarrow> answer \<Rightarrow> gw \<Rightarrow> reply res \<times> gw" where
  "after_gates_chat ev user m messages stream params estimated_tokens asked rules ws rs encode answer g =
     (case is_cacheable_request stream (ev_cache_enabled ev) params of
        None \<Rightarrow> (RCrash, g)
      | Some False \<Rightarrow> call_chat ev user m stream estimated_tokens asked rules ws rs None encode answer g
      | Some True \<Rightarrow>
          (let f = compute_fingerprint (ev_hash ev) (lm_name m) messages params
           in case get_cached_response (ev_ms ev) (lm_id m) f (fst (gw_es g)) of
                (None, s') \<Rightarrow>
                  call_chat ev user m stream estimated_tokens asked rules ws rs (Some f) encode answer (g\<lparr>gw_es := (s', snd (gw_es g))\<rparr>)
              | (Some cached, s') \<Rightarrow>
                  (let g1 = g\<lparr>gw_es := (s', snd (gw_es g))\<rparr>
                   in case extract_usage (PV (JObj cached)) of
                        None \<Rightarrow> (RCrash, g1)
                      | Some u \<Rightarrow>
                          (ROk (JsonReply (PV (JObj cached)) (quota_headers ws)),
                           finish ev (with_usage u ((base_context (ev_request_id ev) user m (ev_started ev) False None None None None estimated_tokens)
                             \<lparr>cx_cache_hit := True\<rparr>)) m rules rs g1))))"

definition chat_estimate :: "json \<Rightarrow> (string \<times> json) list \<Rightarrow> int" where
  "chat_estimate messages params =
     estimate_request_tokens messages
       (coerce_max_completion (dget_default ''max_completion_tokens'' (dget ''max_tokens'' params) params))"

definition execute_completion ::
  "env \<Rightarrow> caller \<Rightarrow> string option \<Rightarrow> json \<Rightarrow> bool \<Rightarrow> (string \<times> json) list \<Rightarrow> (pyobj \<Rightarrow> json) \<Rightarrow> answer \<Rightarrow> catalog_db \<Rightarrow> gw
   \<Rightarrow> reply res \<times> gw" where
  "execute_completion ev user requested messages stream params encode answer db g =
     (case resolve_gate ev user requested db g of
        (RErr e, g1) \<Rightarrow> (RErr e, g1)
      | (RCrash, g1) \<Rightarrow> (RCrash, g1)
      | (ROk m, g1) \<Rightarrow>
          (case pass_gates ev user m stream (chat_estimate messages params) db g1 of
             (RErr e, g2) \<Rightarrow> (RErr e, g2)
           | (RCrash, g2) \<Rightarrow> (RCrash, g2)
           | (ROk (rules, ws, rs), g2) \<Rightarrow>
               after_gates_chat ev user m messages stream params (chat_estimate messages params)
                 (requested_features_from_params messages params) rules ws rs encode answer g2))"

text \<open>An endpoint begins by reading the body as its request class.\<close>

definition with_body ::
  "env \<Rightarrow> ((string \<times> json) list \<Rightarrow> 'r option) \<Rightarrow> string list \<Rightarrow> ('r \<Rightarrow> reply res \<times> gw) \<Rightarrow> gw \<Rightarrow> reply res \<times> gw" where
  "with_body ev validate body k g =
     (case parse_body (ev_max_body ev) (ev_pydantic ev) validate body of
        RErr e \<Rightarrow> (RErr e, g)
      | RCrash \<Rightarrow> (RCrash, g)
      | ROk q \<Rightarrow> k q)"

definition openai_chat_completions ::
  "env \<Rightarrow> caller \<Rightarrow> string list \<Rightarrow> (pyobj \<Rightarrow> json) \<Rightarrow> answer \<Rightarrow> catalog_db \<Rightarrow> gw \<Rightarrow> reply res \<times> gw" where
  "openai_chat_completions ev user body encode answer db g =
     with_body ev (validate_openai (ev_pydantic ev)) body
       (\<lambda>q. execute_completion ev user (oq_model q) (oq_messages q) (oq_stream q) (openai_params q) encode answer db g) g"

section \<open>Native endpoints\<close>

text \<open>
  Anthropic messages and Gemini content share their course: \<open>usage_of_response\<close>, the provider's name and,
  for Gemini, the fallback to what the response says about its channel tell them apart.
\<close>

definition call_native ::
  "string \<Rightarrow> (pyobj \<Rightarrow> usage option) \<Rightarrow> bool \<Rightarrow> env \<Rightarrow> caller \<Rightarrow> model_core \<Rightarrow> bool \<Rightarrow> int \<Rightarrow> string list \<Rightarrow> rl_rule list
   \<Rightarrow> quota_warning list \<Rightarrow> quota_reservation list \<Rightarrow> answer \<Rightarrow> gw \<Rightarrow> reply res \<times> gw" where
  "call_native provider usage_of_response fallback ev user m stream estimated_tokens asked rules ws rs answer g =
     (if \<not> ev_router ev then (RErr router_missing, g)
      else case answer of
        Inl x \<Rightarrow> fail_upstream ev user m stream estimated_tokens rules rs x g
      | Inr (response, meta) \<Rightarrow>
          (let channel = channel_id_from_metadata meta;
               upstream = str_of (dget ''deployment'' meta)
           in if stream
              then (let downgraded = detect_downgraded_features (ev_lib ev) asked upstream (Some provider)
                    in (ROk (StreamReply m rules rs estimated_tokens asked channel upstream (Some provider) downgraded
                               (merge_headers [quota_headers ws, downgraded_header downgraded])), g))
              else (case usage_of_response response of
                      None \<Rightarrow> (RCrash, g)
                    | Some u \<Rightarrow>
                        (let (fch, fum) = (if fallback \<and> (channel = None \<or> upstream = None) then extract_routing_info response else (None, None));
                             ch = (case channel of None \<Rightarrow> fch | Some _ \<Rightarrow> channel);
                             um = (case upstream of None \<Rightarrow> fum | Some _ \<Rightarrow> upstream);
                             downgraded = detect_downgraded_features (ev_lib ev) asked um (Some provider)
                         in (ROk (JsonReply response (merge_headers [quota_headers ws, downgraded_header downgraded])),
                             finish ev (with_usage u (base_context (ev_request_id ev) user m (ev_started ev) False ch um None downgraded
                               estimated_tokens)) m rules rs g)))))"

definition serve_anthropic ::
  "env \<Rightarrow> caller \<Rightarrow> anthropic_request \<Rightarrow> answer \<Rightarrow> catalog_db \<Rightarrow> gw \<Rightarrow> reply res \<times> gw" where
  "serve_anthropic ev user q answer db g =
     (case resolve_gate ev user (aq_model q) db g of
        (RErr e, g1) \<Rightarrow> (RErr e, g1)
      | (RCrash, g1) \<Rightarrow> (RCrash, g1)
      | (ROk m, g1) \<Rightarrow>
          (let estimated_tokens = estimate_request_tokens (aq_messages q) (aq_max_tokens q)
           in case pass_gates ev user m (aq_stream q) estimated_tokens db g1 of
                (RErr e, g2) \<Rightarrow> (RErr e, g2)
              | (RCrash, g2) \<Rightarrow> (RCrash, g2)
              | (ROk (rules, ws, rs), g2) \<Rightarrow>
                  call_native ''anthropic'' extract_anthropic_usage False ev user m (aq_stream q) estimated_tokens
                    (requested_features_from_params (aq_messages q) (anthropic_native_params (lm_name m) q)) rules ws rs answer g2))"

definition anthropic_messages ::
  "env \<Rightarrow> caller \<Rightarrow> string list \<Rightarrow> answer \<Rightarrow> catalog_db \<Rightarrow> gw \<Rightarrow> reply res \<times> gw" where
  "anthropic_messages ev user body answer db g =
     with_body ev (validate_anthropic (ev_pydantic ev)) body (\<lambda>q. serve_anthropic ev user q answer db g) g"

definition serve_gemini ::
  "env \<Rightarrow> caller \<Rightarrow> string \<Rightarrow> bool \<Rightarrow> gemini_request \<Rightarrow> answer \<Rightarrow> catalog_db \<Rightarrow> gw \<Rightarrow> reply res \<times> gw" where
  "serve_gemini ev user model_name stream q answer db g =
     (case resolve_gate ev user (Some model_name) db g of
        (RErr e, g1) \<Rightarrow> (RErr e, g1)
      | (RCrash, g1) \<Rightarrow> (RCrash, g1)
      | (ROk m, g1) \<Rightarrow>
          (let gen_config = (case gq_generationConfig q of Some (JObj d) \<Rightarrow> d | _ \<Rightarrow> []);
               estimated_tokens = estimate_request_tokens (gq_contents q) (coerce_max_completion (dget ''maxOutputTokens'' gen_config))
           in case pass_gates ev user m stream estimated_tokens db g1 of
                (RErr e, g2) \<Rightarrow> (RErr e, g2)
              | (RCrash, g2) \<Rightarrow> (RCrash, g2)
              | (ROk (rules, ws, rs), g2) \<Rightarrow>
                  call_native ''gemini'' extract_gemini_usage_from_response True ev user m stream estimated_tokens
                    (requested_features_from_params (gq_contents q) (gemini_native_params (lm_name m) q)) rules ws rs answer g2))"

text \<open>The path tells whether to stream.\<close>

definition gemini_generate_content ::
  "env \<Rightarrow> caller \<Rightarrow> string \<Rightarrow> bool \<Rightarrow> string list \<Rightarrow> answer \<Rightarrow> catalog_db \<Rightarrow> gw \<Rightarrow> reply res \<times> gw" where
  "gemini_generate_content ev user model_name stream body answer db g =
     with_body ev validate_gemini body (\<lambda>q. serve_gemini ev user model_name stream q answer db g) g"

section \<open>Embeddings, responses, models\<close>

definition embeddings_impl ::
  "env \<Rightarrow> caller \<Rightarrow> embeddings_request \<Rightarrow> answer \<Rightarrow> catalog_db \<Rightarrow> gw \<Rightarrow> reply res \<times> gw" where
  "embeddings_impl ev user q answer db g =
     (case resolve_gate ev user (Some (eq_model q)) db g of
        (RErr e, g1) \<Rightarrow> (RErr e, g1)
      | (RCrash, g1) \<Rightarrow> (RCrash, g1)
      | (ROk m, g1) \<Rightarrow>
          (let estimated_tokens = estimate_request_tokens (eq_input q) 0
           in case pass_gates ev user m False estimated_tokens db g1 of
                (RErr e, g2) \<Rightarrow> (RErr e, g2)
              | (RCrash, g2) \<Rightarrow> (RCrash, g2)
              | (ROk (rules, ws, rs), g2) \<Rightarrow>
                  (if \<not> ev_router ev then (RErr router_missing, g2)
                   else case answer of
                     Inl x \<Rightarrow> fail_upstream ev user m False estimated_tokens rules rs x g2
                   | Inr (response, meta) \<Rightarrow>
                       (case extract_embedding_usage response of
                          None \<Rightarrow> (RCrash, g2)
                        | Some u \<Rightarrow>
                            (ROk (JsonReply response (quota_headers ws)),
                             finish ev (with_usage u (base_context (ev_request_id ev) user m (ev_started ev) False (channel_id_from_metadata meta)
                               (or_str (str_of (dget ''deployment'' meta)) (response_model response)) None None estimated_tokens))
                               m rules rs g2)))))"

definition embeddings :: "env \<Rightarrow> caller \<Rightarrow> string list \<Rightarrow> answer \<Rightarrow> catalog_db \<Rightarrow> gw \<Rightarrow> reply res \<times> gw" where
  "embeddings ev user body answer db g =
     with_body ev (validate_embeddings (ev_pydantic ev)) body (\<lambda>q. embeddings_impl ev user q answer db g) g"

text \<open>Here the lookup of the router is inside the guarded call: without one the reservation is settled as a failure.\<close>

definition responses_impl ::
  "env \<Rightarrow> caller \<Rightarrow> responses_request \<Rightarrow> answer \<Rightarrow> catalog_db \<Rightarrow> gw \<Rightarrow> reply res \<times> gw" where
  "responses_impl ev user q answer db g =
     (case resolve_gate ev user (Some (rq_model q)) db g of
        (RErr e, g1) \<Rightarrow> (RErr e, g1)
      | (RCrash, g1) \<Rightarrow> (RCrash, g1)
      | (ROk m, g1) \<Rightarrow>
          (let estimated_tokens = estimate_request_tokens (rq_input q) (coerce_max_completion (opt_json JInt (rq_max_output_tokens q)));
               asked = requested_features_from_params
                 (JArr [JObj [(''role'', JStr ''user''), (''content'', rq_input q)]]) (responses_payload_data q)
           in case pass_gates ev user m (rq_streamed q) estimated_tokens db g1 of
                (RErr e, g2) \<Rightarrow> (RErr e, g2)
              | (RCrash, g2) \<Rightarrow> (RCrash, g2)
              | (ROk (rules, ws, rs), g2) \<Rightarrow>
                  (case (if ev_router ev then answer else Inl XOther) of
                     Inl x \<Rightarrow> fail_upstream ev user m (rq_streamed q) estimated_tokens rules rs x g2
                   | Inr (response, meta) \<Rightarrow>
                       (let channel = channel_id_from_metadata meta;
                            provider = provider_from_metadata meta;
                            deployment = str_of (dget ''deployment'' meta)
                        in if rq_streamed q
                           then (let downgraded = detect_downgraded_features (ev_lib ev) asked deployment provider
                                 in (ROk (StreamReply m rules rs estimated_tokens asked channel deployment provider downgraded
                                            (merge_headers [quota_headers ws, downgraded_header downgraded])), g2))
                           else (case extract_responses_usage response of
                                   None \<Rightarrow> (RCrash, g2)
                                 | Some u \<Rightarrow>
                                     (let upstream = or_str deployment (response_model response);
                                          downgraded = detect_downgraded_features (ev_lib ev) asked upstream provider
                                      in (ROk (JsonReply response (merge_headers [quota_headers ws, downgraded_header downgraded])),
                                          finish ev (with_usage u (base_context (ev_request_id ev) user m (ev_started ev) False channel upstream
                                            provider downgraded estimated_tokens)) m rules rs g2)))))))"

definition responses :: "env \<Rightarrow> caller \<Rightarrow> string list \<Rightarrow> answer \<Rightarrow> catalog_db \<Rightarrow> gw \<Rightarrow> reply res \<times> gw" where
  "responses ev user body answer db g =
     with_body ev (validate_responses (ev_pydantic ev)) body (\<lambda>q. responses_impl ev user q answer db g) g"

text \<open>The grants are a set; in which order they are handed to the query does not matter.\<close>

definition model_entry :: "string \<Rightarrow> json" where
  "model_entry name = JObj [(''id'', JStr name), (''object'', JStr ''model''), (''created'', JInt 0), (''owned_by'', JStr ''janus'')]"

definition list_models :: "caller \<Rightarrow> catalog_db \<Rightarrow> json" where
  "list_models user db =
     (let grants = sorted_list_of_set (get_user_granted_models (au_user_id user) (au_department_id user) db)
      in JObj [(''object'', JStr ''list''),
               (''data'', JArr (map (\<lambda>m. model_entry (lm_name m)) (get_logical_models_by_ids grants db)))])"

section \<open>Streams, from reply to cleanup\<close>

definition finish_stream :: "env \<Rightarrow> gctx \<Rightarrow> model_core \<Rightarrow> rl_rule list \<Rightarrow> quota_reservation list \<Rightarrow> gw \<Rightarrow> gw" where
  "finish_stream ev ctx m rules rs g =
     (case finalize_stream (ev_health ev) (ev_end ev) (ev_finished ev) (ev_exc ev) ctx m (ev_member ev) rules rs (gw_es g) of
        (_, st, ms) \<Rightarrow> g\<lparr>gw_es := st, gw_metrics := gw_metrics g @ ms\<rparr>)"

definition run_chat_stream ::
  "env \<Rightarrow> caller \<Rightarrow> reply \<Rightarrow> (pyobj \<Rightarrow> string) \<Rightarrow> pyobj \<Rightarrow> pyobj pull list \<Rightarrow> gw \<Rightarrow> (string list \<times> stream_end) option \<times> gw" where
  "run_chat_stream ev user r dump_json response pulls g =
     (case r of
        StreamReply m rules rs est asked ch um pv dg hdr \<Rightarrow>
          (case stream_openai (ev_lib ev) dump_json response pulls user m (ev_started ev) (ev_request_id ev) asked est of
             (out, e, ctx) \<Rightarrow> (Some (out, e), finish_stream ev ctx m rules rs g))
      | _ \<Rightarrow> (None, g))"

definition run_native_stream ::
  "env \<Rightarrow> caller \<Rightarrow> reply \<Rightarrow> string pull list \<Rightarrow> gw \<Rightarrow> (string list \<times> stream_end) option \<times> gw" where
  "run_native_stream ev user r pulls g =
     (case r of
        StreamReply m rules rs est asked ch um pv dg hdr \<Rightarrow>
          (case (if pv = Some ''anthropic''
                 then stream_anthropic_native (ev_lib ev) pulls user m (ev_started ev) (ev_request_id ev) ch um asked est
                 else stream_gemini_native (ev_lib ev) pulls user m (ev_started ev) (ev_request_id ev) ch um asked est) of
             (out, e, ctx) \<Rightarrow> (Some (out, e), finish_stream ev ctx m rules rs g))
      | _ \<Rightarrow> (None, g))"

definition run_responses_stream ::
  "env \<Rightarrow> caller \<Rightarrow> reply \<Rightarrow> (pyobj \<Rightarrow> string) \<Rightarrow> pyobj pull list \<Rightarrow> gw \<Rightarrow> (string list \<times> stream_end) option \<times> gw" where
  "run_responses_stream ev user r dump_json pulls g =
     (case r of
        StreamReply m rules rs est asked ch um pv dg hdr \<Rightarrow>
          (case stream_responses dump_json pulls
                  (base_context (ev_request_id ev) user m (ev_started ev) True ch um pv dg est) of
             (out, e, ctx) \<Rightarrow> (Some (out, e), finish_stream ev ctx m rules rs g))
      | _ \<Rightarrow> (None, g))"

end
