(* ===== verification/FinalizeFacts.thy ===== *)
theory FinalizeFacts
  imports Finalize EventFacts QuotaLedger
begin

text \<open>
  The finalizer: whatever calls fail, the usage event is kept and a settlement is made or goes to the
  billing dead letters; a settled request has its reservations replaced by its usage, once; and the
  usage event gives back the numbers of the request.
\<close>

section \<open>What the steps leave alone\<close>

text \<open>The keys of channel health and of the rate limiter; every other key keeps its list and its count.\<close>

definition foreign :: "string \<Rightarrow> bool" where
  "foreign k \<longleftrightarrow> \<not> starts_with ''ch:'' k \<and> \<not> starts_with ''rl:'' k"

definition untouched :: "int \<Rightarrow> redis \<Rightarrow> redis \<Rightarrow> bool" where
  "untouched now s s' \<longleftrightarrow> (\<forall>k. foreign k \<longrightarrow>
     redis_lrange now k s' = redis_lrange now k s \<and> redis_count now k s' = redis_count now k s)"

lemma untouched_refl [simp, intro]: "untouched now s s"
  by (simp add: untouched_def)

lemma untouched_trans: "untouched now s t \<Longrightarrow> untouched now t u \<Longrightarrow> untouched now s u"
  by (simp add: untouched_def)

lemma untouched_wire [simp]: "untouched now s (s\<lparr>r_wire := ws\<rparr>)"
  by (simp add: untouched_def redis_lrange_def redis_count_def redis_get_int_def expired_def)

lemma untouched_rcall:
  assumes "\<And>t. untouched now t (snd (f t))" and "rcall f s = (r, s')"
  shows "untouched now s s'"
proof (cases "r_wire s")
  case Nil
  with assms show ?thesis by (cases "f s") (auto simp: rcall_def, metis snd_conv)
next
  case (Cons w ws)
  have "untouched now s (snd (f (s\<lparr>r_wire := ws\<rparr>)))" using untouched_trans [OF untouched_wire assms(1)] .
  with Cons assms(2) show ?thesis
    by (cases w; cases "f (s\<lparr>r_wire := ws\<rparr>)") (auto simp: rcall_def Let_def)
qed

lemma untouched_ruse:
  "(\<And>t. untouched now t (f t)) \<Longrightarrow> untouched now s (snd (rcall (ruse f) s))"
  by (rule untouched_rcall [of now "ruse f" _ "fst (rcall (ruse f) s)"]) (simp_all add: ruse_def)

lemma untouched_rread: "untouched now s (snd (rcall (rread f) s))"
  by (rule untouched_rcall [of now "rread f" _ "fst (rcall (rread f) s)"]) (simp_all add: rread_def)

lemma untouched_cmds [simp]:
  "untouched now s (redis_hset now k f v s)" "untouched now s (redis_hincrby now k f v s)"
  "untouched now s (redis_hset_text now k fvs s)" "untouched now s (redis_publish ch msg s)"
  "untouched now s (snd (redis_sadd now k m s))"
  "\<not> foreign k \<Longrightarrow> untouched now s (redis_pexpire now k ms s)"
  "\<not> foreign k \<Longrightarrow> untouched now s (redis_expire now k ms s)"
  by (auto simp: untouched_def redis_lrange_def redis_count_def redis_get_int_def redis_hset_def redis_hincrby_def
      redis_hset_text_def redis_publish_def redis_sadd_def redis_pexpire_def redis_expire_def evict_if_expired_def
      expired_def Let_def split: option.splits if_splits)

lemma own_keys [simp]: "\<not> foreign (bucket_key c m)" "\<not> foreign (state_key c)" "\<not> foreign DEGRADED_SET_KEY"
  "\<not> foreign (tpm_key r)"
  by (simp_all add: foreign_def starts_with_def bucket_key_def BUCKET_PREFIX_def state_key_def STATE_PREFIX_def
      DEGRADED_SET_KEY_def tpm_key_def)

lemma untouched_outcome: "untouched now s (outcome_pipeline now (bucket_key c m) ok ec ttl s)"
proof -
  let ?a = "redis_hincrby now (bucket_key c m) ''total'' 1 s"
  let ?b = "redis_hincrby now (bucket_key c m) ''error'' 1 ?a"
  have a: "untouched now s ?a" by simp
  have b: "untouched now s ?b" by (rule untouched_trans [OF a]) simp
  have c: "untouched now s (redis_hincrby now (bucket_key c m) x 1 ?b)" for x by (rule untouched_trans [OF b]) simp
  have e: "untouched now s t \<Longrightarrow> untouched now s (redis_expire now (bucket_key c m) ttl t)" for t
    by (erule untouched_trans) (rule untouched_cmds(7) [OF own_keys(1)])
  show ?thesis using e [OF a] e [OF b] e [OF c] by (simp add: outcome_pipeline_def Let_def)
qed

lemma snd_case_reply:
  "snd (case p of (None, s1) \<Rightarrow> (a, s1) | (Some (x, y), s1) \<Rightarrow> (h x y, s1)) = snd p"
  "snd (case q of (None, s1) \<Rightarrow> (a, s1) | (Some n, s1) \<Rightarrow> (g n, s1)) = snd q"
  by (simp_all split: prod.split option.split)

lemma untouched_error_rate: "untouched now s (snd (get_error_rate now c w s))"
  unfolding get_error_rate_def snd_case_reply(1) by (rule untouched_rread)

lemma untouched_add: "untouched now s (snd (add_to_degraded now c s))"
  unfolding add_to_degraded_def snd_case_reply(2)
  by (rule untouched_rcall [OF untouched_cmds(5)]) (rule prod.collapse [symmetric])

lemma untouched_health: "untouched now s (record_and_evaluate hs now c ok ec s)"
proof -
  define s1 where "s1 = record_request_outcome now c ok ec (hs_window_seconds hs) s"
  have 1: "untouched now s s1"
    unfolding s1_def record_request_outcome_def by (rule untouched_ruse) (rule untouched_outcome)
  obtain n e r s2 where g: "get_error_rate now c (hs_window_seconds hs) s1 = ((n, e, r), s2)"
    by (metis prod.collapse)
  have 2: "untouched now s s2" using untouched_trans [OF 1 untouched_error_rate] g by (metis snd_conv)
  obtain b s3 where a: "add_to_degraded now c s2 = (b, s3)" by (metis prod.collapse)
  have 3: "untouched now s s3" using untouched_trans [OF 2 untouched_add] a by (metis snd_conv)
  have 4: "untouched now s (publish_invalidation (update_channel_state now c fvs s3))" for fvs
  proof -
    have "untouched now s (update_channel_state now c fvs s3)"
      unfolding update_channel_state_def by (rule untouched_trans [OF 3 untouched_ruse]) simp
    then show ?thesis unfolding publish_invalidation_def by (rule untouched_trans [OF _ untouched_ruse]) simp
  qed
  show ?thesis
    using 1 2 3 4 unfolding record_and_evaluate_def Let_def s1_def [symmetric] g prod.case a
    by (simp split: bool.split)
qed

lemma untouched_settle_script: "untouched now s (snd (settle_script (tpm_key r) now d l ttl rate s))"
proof (cases "redis_exists now (tpm_key r) s")
  case True
  have "untouched now s (redis_pexpire now (tpm_key r) x (redis_hset now (tpm_key r) f v s))" for x f v
    by (rule untouched_trans [OF untouched_cmds(1) untouched_cmds(6) [OF own_keys(4)]])
  then show ?thesis using True by (simp add: lua_tpm_settle_def Let_def)
qed (simp add: lua_tpm_settle_def)

lemma untouched_settle_tpm: "untouched now s (snd (settle_tpm now rules d s))"
proof -
  have "untouched now s (snd (settle_tpm_loop now d rules s))"
  proof (induction rules arbitrary: s)
    case (Cons r rules)
    show ?case
    proof (cases "rl_tpm_limit r")
      case None
      with Cons show ?thesis by simp
    next
      case (Some l)
      let ?f = "settle_script (tpm_key r) now d (tpm_burst_of r l) TPM_BUCKET_TTL_MS l"
      obtain x s1 where x: "rcall ?f s = (x, s1)" by force
      have "untouched now s s1" using untouched_rcall [OF untouched_settle_script x] .
      with Cons.IH [of s1] Some x show ?thesis by (auto split: option.splits intro: untouched_trans)
    qed
  qed simp
  then show ?thesis by (simp add: settle_tpm_def)
qed

section \<open>Queues\<close>

lemma lrange_incrby: "redis_lrange now k' (snd (redis_incrby now k d s)) = redis_lrange now k' s"
  by (auto simp: redis_lrange_def redis_incrby_def evict_if_expired_def expired_def Let_def split: option.splits)

definition same_lists :: "int \<Rightarrow> redis \<Rightarrow> redis \<Rightarrow> bool" where
  "same_lists now s s' \<longleftrightarrow> (\<forall>k. redis_lrange now k s' = redis_lrange now k s)"

lemma same_lists_trans: "same_lists now s t \<Longrightarrow> same_lists now t u \<Longrightarrow> same_lists now s u"
  by (simp add: same_lists_def)

lemma same_lists_rcall:
  assumes "\<And>t. same_lists now t (snd (f t))" and "rcall f s = (r, s')"
  shows "same_lists now s s'"
  using rcall_cases [OF assms(2)] assms(1) by (metis same_lists_def)

lemma same_lists_incr: "rcall (redis_incrby now k d) s = (r, s') \<Longrightarrow> same_lists now s s'"
  by (rule same_lists_rcall) (simp_all add: same_lists_def lrange_incrby)

lemma same_lists_count: "quota_count now k s = (r, s') \<Longrightarrow> same_lists now s s'"
  unfolding quota_count_def by (rule same_lists_rcall) (simp_all add: same_lists_def rread_def)

lemma settle_same_lists: "settle_reservations now rs tok cost s = (b, s') \<Longrightarrow> same_lists now s s'"
proof (induction rs arbitrary: s)
  case (Cons r rs)
  let ?a = "settlement_adjustment_for_metric (qr_metric r) (qr_reserved r) tok cost"
  obtain x s1 where x: "rcall (redis_incrby now (qr_key r) ?a) s = (x, s1)" by (metis prod.collapse)
  obtain y s2 where y: "quota_count now (qr_key r) s1 = (y, s2)" by (metis prod.collapse)
  note steps = same_lists_incr [OF x] same_lists_count [OF y]
  have s2: "same_lists now s s2" using same_lists_trans [OF steps] .
  consider "settle_reservations now rs tok cost s = (b, s')" | "s' = s1" | "s' = s2"
    | "settle_reservations now rs tok cost s2 = (b, s')"
    using Cons.prems x y by (cases "?a = 0"; cases x; cases y) (simp_all add: Let_def)
  then show ?case
    using Cons.IH same_lists_trans [OF s2] steps(1) s2 by cases blast+
qed (simp add: same_lists_def)

lemma compensate_same_lists: "compensate_reservations now rs s = (b, s') \<Longrightarrow> same_lists now s s'"
proof (induction rs arbitrary: s)
  case (Cons r rs)
  obtain x s1 where x: "rcall (redis_incrby now (qr_key r) (- qr_reserved r)) s = (x, s1)" by (metis prod.collapse)
  consider "compensate_reservations now rs s = (b, s')" | "s' = s1" | "compensate_reservations now rs s1 = (b, s')"
    using Cons.prems x by (cases "qr_reserved r = 0"; cases x) simp_all
  then show ?case
    using Cons.IH same_lists_trans [OF same_lists_incr [OF x]] same_lists_incr [OF x] by cases blast+
qed (simp add: same_lists_def)

lemma push_other:
  assumes "rcall (ruse (redis_rpush now q x)) s = (r, s')"
  shows "q \<noteq> q' \<Longrightarrow> redis_lrange now q' s' = redis_lrange now q' s"
    and "redis_count now k s' = redis_count now k s"
proof -
  have c: "redis_count now k (redis_rpush now q x t) = redis_count now k t" for t
    by (auto simp: redis_count_def redis_get_int_def redis_rpush_def evict_if_expired_def expired_def Let_def split: option.splits)
  have w: "redis_count now k (s\<lparr>r_wire := ws\<rparr>) = redis_count now k s" for ws
    by (simp add: redis_count_def redis_get_int_def expired_def)
  show "redis_count now k s' = redis_count now k s"
    using assms c w by (auto simp: rcall_def ruse_def Let_def split: list.splits wire.splits)
  assume "q \<noteq> q'"
  then show "redis_lrange now q' s' = redis_lrange now q' s"
    by (metis rcall_cases [OF assms] lrange_rpush ruse_def snd_conv)
qed

lemma flush_outbox_other:
  "flush_outbox now q box s = (ok, box', s') \<Longrightarrow>
     (q \<noteq> q' \<longrightarrow> redis_lrange now q' s' = redis_lrange now q' s) \<and> redis_count now k s' = redis_count now k s"
proof (induction box arbitrary: s)
  case (Cons x box)
  obtain r s1 where r: "rcall (ruse (redis_rpush now q x)) s = (r, s1)" by (metis prod.collapse)
  show ?case using Cons.prems Cons.IH [of s1] r push_other [OF r] by (auto split: option.splits)
qed simp

lemma enqueue_event_other:
  assumes "enqueue_event now q payload st = (ok, st')"
  shows "q \<noteq> q' \<Longrightarrow> backlog now q' st' = backlog now q' st \<and> snd st' q' = snd st q'"
    and "redis_count now k (fst st') = redis_count now k (fst st)"
proof -
  obtain s boxes where st: "st = (s, boxes)" by (cases st)
  obtain f box s1 where f: "flush_outbox now q (boxes q) s = (f, box, s1)" by (metis prod_cases3)
  obtain r s2 where r: "rcall (ruse (redis_rpush now q (dumps (JObj payload)))) s1 = (r, s2)" by (metis prod.collapse)
  note facts = flush_outbox_other [OF f] push_other [OF r]
  show "q \<noteq> q' \<Longrightarrow> backlog now q' st' = backlog now q' st \<and> snd st' q' = snd st q'"
    and "redis_count now k (fst st') = redis_count now k (fst st)"
    using assms st f r facts
    by (auto simp: enqueue_event_def backlog_def Let_def split: bool.splits option.splits)
qed

section \<open>Nothing billable is dropped\<close>

definition held :: "int \<Rightarrow> string \<Rightarrow> (string \<times> json) list \<Rightarrow> estate \<Rightarrow> bool" where
  "held now q payload st \<longleftrightarrow> dumps (JObj payload) \<in> set (backlog now q st)"

definition billing_record :: "int \<Rightarrow> string \<Rightarrow> string \<Rightarrow> gctx \<Rightarrow> (string \<times> json) list \<Rightarrow> (string \<times> json) list" where
  "billing_record now kind exc c detail =
     [(''kind'', JStr kind), (''request_id'', JStr (cx_request_id c)), (''error'', JStr exc),
      (''detail'', JObj detail), (''recorded_at_ms'', JInt now)]"

definition tpm_detail :: "rl_rule list \<Rightarrow> gctx \<Rightarrow> (string \<times> json) list" where
  "tpm_detail rules c =
     [(''delta_tokens'', JInt (reserved_tokens c - cx_total_tokens c)), (''reserved_tokens'', JInt (reserved_tokens c)),
      (''total_tokens'', JInt (cx_total_tokens c)), (''rules'', JArr (map rule_identity rules))]"

lemma record_billing_record:
  "record_billing_failure now kind (cx_request_id c) exc detail st = snd (enqueue_event now BILLING_DLQ_KEY (billing_record now kind exc c detail) st)"
  by (simp add: record_billing_failure_def billing_record_def)

text \<open>A step that keeps every queued event and lengthens an outbox by at most \<open>n\<close>.\<close>

definition grows :: "int \<Rightarrow> nat \<Rightarrow> estate \<Rightarrow> estate \<Rightarrow> bool" where
  "grows now n st st' \<longleftrightarrow> (\<forall>q. (foreign q \<longrightarrow> set (backlog now q st) \<subseteq> set (backlog now q st'))
     \<and> length (snd st' q) \<le> length (snd st q) + n)"

definition room :: "nat \<Rightarrow> estate \<Rightarrow> bool" where
  "room n st \<longleftrightarrow> (\<forall>q. length (snd st q) + n \<le> OUTBOX_MAX_PER_QUEUE)"

lemma grows_trans:
  assumes "grows now m st st'" and "grows now n st' st''"
  shows "grows now (m + n) st st''"
proof -
  have "length (snd st'' q) \<le> length (snd st q) + (m + n)" for q
    using assms [unfolded grows_def, rule_format, of q] by simp
  then show ?thesis using assms unfolding grows_def by (meson subset_trans)
qed

lemma room_grows: "room (m + n) st \<Longrightarrow> grows now m st st' \<Longrightarrow> room n st'"
  unfolding room_def grows_def
proof
  fix q
  assume "\<forall>q. length (snd st q) + (m + n) \<le> OUTBOX_MAX_PER_QUEUE"
    and "\<forall>q. (foreign q \<longrightarrow> set (backlog now q st) \<subseteq> set (backlog now q st')) \<and> length (snd st' q) \<le> length (snd st q) + m"
  from this [THEN spec, of q] show "length (snd st' q) + n \<le> OUTBOX_MAX_PER_QUEUE" by simp
qed

lemma grows_held: "grows now n st st' \<Longrightarrow> foreign q \<Longrightarrow> held now q p st \<Longrightarrow> held now q p st'"
  by (auto simp: grows_def held_def)

lemma queue_keys_foreign [simp]: "foreign USAGE_QUEUE_KEY" "foreign LOG_QUEUE_KEY" "foreign BILLING_DLQ_KEY"
  by (simp_all add: foreign_def starts_with_def event_keys)

lemma enqueue_grows:
  assumes "room (Suc n) st"
  shows "grows now 1 st (snd (enqueue_event now q p st)) \<and> held now q p (snd (enqueue_event now q p st))"
proof -
  obtain ok st' where e: "enqueue_event now q p st = (ok, st')" by (metis prod.collapse)
  have r: "length (snd st q) < OUTBOX_MAX_PER_QUEUE" using assms [unfolded room_def, rule_format, of q] by simp
  note own = enqueue_event_keeps [OF e] and other = enqueue_event_other(1) [OF e]
  have "set (backlog now q' st) \<subseteq> set (backlog now q' st') \<and> length (snd st' q') \<le> length (snd st q') + 1" for q'
    using own [OF r] other [of q'] by (cases "q = q'") auto
  then show ?thesis using own [OF r] e by (simp add: grows_def held_def)
qed

lemma untouched_grows: "untouched now s s' \<Longrightarrow> grows now 0 (s, boxes) (s', boxes)"
  by (simp add: untouched_def grows_def backlog_def)

lemma same_lists_grows: "same_lists now s s' \<Longrightarrow> grows now 0 (s, boxes) (s', boxes)"
  by (simp add: same_lists_def grows_def backlog_def)

lemma settle_quota_accounts:
  assumes "room (Suc n) st" and "settle_quota now exc model sv c st = (c', st')"
  shows "grows now 1 st st'
    \<and> (c' = c \<or> c' = c\<lparr>cx_quota_settled := True\<rparr>)
    \<and> (cx_quota_reserved c \<and> \<not> cx_quota_settled c \<and> cx_quota_reservations c \<noteq> [] \<and> model \<noteq> None \<and> sv
        \<longrightarrow> cx_quota_settled c' \<or> held now BILLING_DLQ_KEY (billing_record now ''quota_settle'' exc c (billing_detail c)) st')"
proof -
  obtain s boxes where st: "st = (s, boxes)" by (cases st)
  have refl: "grows now 1 st st" by (simp add: grows_def)
  show ?thesis
  proof (cases "cx_quota_settled c \<or> \<not> cx_quota_reserved c \<or> model = None \<or> \<not> sv \<or> cx_quota_reservations c = []")
    case True
    then have "c' = c" "st' = st" using assms(2) st by (auto simp: settle_quota_def split: option.splits if_splits)
    with True refl show ?thesis by auto
  next
    case False
    then obtain m where m: "model = Some m" by auto
    let ?run = "if cx_prompt_tokens c = 0 \<and> cx_completion_tokens c = 0
                then compensate_reservations now (cx_quota_reservations c) s
                else settle_reservations now (cx_quota_reservations c) (cx_total_tokens c)
                       (compute_cost m (cx_prompt_tokens c) (cx_completion_tokens c)) s"
    obtain ok s1 where run: "?run = (ok, s1)" by (metis prod.collapse)
    have "same_lists now s s1" using run compensate_same_lists settle_same_lists by (metis (full_types))
    then have g0: "grows now 0 st (s1, boxes)" using same_lists_grows st by simp
    have sq: "settle_quota now exc model sv c st = (case (ok, s1) of
        (True, s1) \<Rightarrow> (c\<lparr>cx_quota_settled := True\<rparr>, (s1, boxes))
      | (False, s1) \<Rightarrow> (c, record_billing_failure now ''quota_settle'' (cx_request_id c) exc (billing_detail c) (s1, boxes)))"
      using False unfolding run [symmetric] st m settle_quota_def by simp
    show ?thesis
    proof (cases ok)
      case True
      then have "c' = c\<lparr>cx_quota_settled := True\<rparr>" "st' = (s1, boxes)" using sq assms(2) by simp_all
      with grows_trans [OF g0, of 1] g0 show ?thesis by (simp add: grows_def le_SucI)
    next
      case no: False
      then have c': "c' = c" and st': "st' = snd (enqueue_event now BILLING_DLQ_KEY (billing_record now ''quota_settle'' exc c (billing_detail c)) (s1, boxes))"
        using sq assms(2) by (simp_all add: record_billing_record)
      have "room (Suc n) (s1, boxes)" using room_grows [of 0 "Suc n"] assms(1) g0 by simp
      note e = enqueue_grows [OF this, of now BILLING_DLQ_KEY "billing_record now ''quota_settle'' exc c (billing_detail c)"]
      from e grows_trans [OF g0, of 1] c' st' show ?thesis by simp
    qed
  qed
qed

lemma settle_reserved_tpm_accounts:
  assumes "room (Suc n) st"
  shows "grows now 1 st (settle_reserved_tpm now exc rules c st)
    \<and> (rules = [] \<or> fst (settle_tpm now rules (reserved_tokens c - cx_total_tokens c) (fst st))
       \<or> held now BILLING_DLQ_KEY (billing_record now ''tpm_settle'' exc c (tpm_detail rules c)) (settle_reserved_tpm now exc rules c st))
    \<and> (fst (settle_tpm now rules (reserved_tokens c - cx_total_tokens c) (fst st)) \<longrightarrow>
         fst (settle_reserved_tpm now exc rules c st) = (if rules = [] then fst st else snd (settle_tpm now rules (reserved_tokens c - cx_total_tokens c) (fst st))))"
proof (cases "rules = []")
  case False
  obtain s boxes where st: "st = (s, boxes)" by (cases st)
  let ?d = "reserved_tokens c - cx_total_tokens c"
  obtain ok s1 where run: "settle_tpm now rules ?d s = (ok, s1)" by (metis prod.collapse)
  have g0: "grows now 0 st (s1, boxes)" using untouched_settle_tpm [of now s rules ?d] run st untouched_grows by (metis snd_conv)
  show ?thesis
  proof (cases ok)
    case True
    then show ?thesis using False run st g0 by (simp add: settle_reserved_tpm_def Let_def grows_def le_SucI)
  next
    case no: False
    have "room (Suc n) (s1, boxes)" using room_grows [of 0 "Suc n"] assms g0 by simp
    note e = enqueue_grows [OF this, of now BILLING_DLQ_KEY "billing_record now ''tpm_settle'' exc c (tpm_detail rules c)"]
    have "settle_reserved_tpm now exc rules c st = snd (enqueue_event now BILLING_DLQ_KEY (billing_record now ''tpm_settle'' exc c (tpm_detail rules c)) (s1, boxes))"
      using no False run st by (simp add: settle_reserved_tpm_def Let_def record_billing_record tpm_detail_def)
    with e grows_trans [OF g0, of 1] show ?thesis using run st no by simp
  qed
qed (simp add: settle_reserved_tpm_def grows_def)

lemma enqueue_step:
  assumes "room (Suc n) st"
  shows "grows now 1 st (snd (enqueue_event now q p st))" "held now q p (snd (enqueue_event now q p st))"
    "room n (snd (enqueue_event now q p st))"
  using enqueue_grows [OF assms, of now q p] room_grows [of 1 n st now "snd (enqueue_event now q p st)"] assms by simp_all


definition sample_model :: model_core where
  "sample_model = \<lparr>lm_id = 3, lm_name = ''m'', lm_price_input = Some (25, -1), lm_price_output = Some (10, 0)\<rparr>"

definition sample_ctx :: gctx where
  "sample_ctx = (new_ctx ''r1'' 0)\<lparr>cx_user_id := 7, cx_logical_model_id := Some 3, cx_quota_reserved := True,
     cx_prompt_tokens := 40, cx_completion_tokens := 20, cx_total_tokens := 60\<rparr>"

definition sample_reservation :: quota_reservation where
  "sample_reservation = \<lparr>qr_key = ''quota:u:7:3:2026-01-31:tokens'', qr_quota_id = 1, qr_metric = ''tokens'', qr_scope = ''user'',
     qr_enforce = True, qr_limit_value = (1000, 0), qr_reserved = 100\<rparr>"

definition sample_outage where
  "sample_outage = finalize_gateway_request default_health 600000 1 ''TimeoutError()'' (Some sample_model) True [] [sample_reservation]
     sample_ctx (empty_redis\<lparr>r_wire := replicate 8 WLost\<rparr>, \<lambda>_. [])"


section \<open>Usage replaces the reservation\<close>

lemma settle_quota_healthy:
  assumes "r_wire s = []" and "settle_quota now exc model sv c (s, boxes) = (c', st')"
  shows "r_wire (fst st') = [] \<and> snd st' = boxes \<and>
    (if cx_quota_reserved c \<and> \<not> cx_quota_settled c \<and> sv \<and> cx_quota_reservations c \<noteq> [] \<and> model \<noteq> None
     then c' = c\<lparr>cx_quota_settled := True\<rparr> \<and> (\<forall>k. redis_count now k (fst st') = redis_count now k s
         - reserved_at k (cx_quota_reservations c)
         + (if cx_prompt_tokens c = 0 \<and> cx_completion_tokens c = 0 then 0
            else used_at k (cx_total_tokens c) (model_cost model c) (cx_quota_reservations c)))
     else c' = c \<and> fst st' = s)"
proof (cases "cx_quota_reserved c \<and> \<not> cx_quota_settled c \<and> sv \<and> cx_quota_reservations c \<noteq> [] \<and> model \<noteq> None")
  case False
  then show ?thesis using assms by (auto simp: settle_quota_def split: option.splits if_splits)
next
  case True
  then obtain m where m: "model = Some m" by auto
  let ?rs = "cx_quota_reservations c"
  note split = settled_is_used [symmetric]
  show ?thesis
  proof (cases "cx_prompt_tokens c = 0 \<and> cx_completion_tokens c = 0")
    case zero: True
    obtain s' where "compensate_reservations now ?rs s = (True, s')" "r_wire s' = []"
      "\<forall>k. redis_count now k s' = redis_count now k s - reserved_at k ?rs"
      using compensate_reservations_healthy [OF assms(1)] by blast
    with True zero m assms(2) show ?thesis by (auto simp: settle_quota_def)
  next
    case used: False
    obtain s' where s': "settle_reservations now ?rs (cx_total_tokens c) (model_cost model c) s = (True, s')" "r_wire s' = []"
      "\<forall>k. redis_count now k s' = redis_count now k s + settled_at k (cx_total_tokens c) (model_cost model c) ?rs"
      using settle_reservations_healthy [OF assms(1)] by blast
    have "settle_quota now exc model sv c (s, boxes) = (c\<lparr>cx_quota_settled := True\<rparr>, (s', boxes))"
      using True used m s'(1) by (auto simp: settle_quota_def model_cost_def)
    then show ?thesis using True used s'(2,3) assms(2) by (auto simp: split)
  qed
qed

lemma later_steps_count:
  assumes "finalize_gateway_request hs now mclock exc model sv rules rs c (s, boxes) = (c', st', ms)"
  shows "\<exists>c2 st1. settle_quota now exc model sv c2 (s, boxes) = (c', st1)
    \<and> cx_quota_reserved c2 = cx_quota_reserved c \<and> cx_quota_settled c2 = cx_quota_settled c
    \<and> cx_quota_reservations c2 = (if rs \<noteq> [] then rs else cx_quota_reservations c)
    \<and> cx_prompt_tokens c2 = cx_prompt_tokens c \<and> cx_completion_tokens c2 = cx_completion_tokens c \<and> cx_total_tokens c2 = cx_total_tokens c
    \<and> (\<forall>k. foreign k \<longrightarrow> redis_count now k (fst st') = redis_count now k (fst st1))"
proof -
  define c1 where "c1 = (if rs \<noteq> [] then c\<lparr>cx_quota_reservations := rs\<rparr> else c)"
  define c2 where "c2 = (if cx_latency_ms c1 = None then record_latency mclock c1 else c1)"
  obtain c3 st1 where q: "settle_quota now exc model sv c2 (s, boxes) = (c3, st1)" by (metis prod.collapse)
  define st2 where "st2 = enqueue_usage now model c3 st1"
  define st3 where "st3 = enqueue_log now c3 st2"
  define st4 where "st4 = record_channel_health hs now c3 st3"
  have fin: "c' = c3" "st' = settle_reserved_tpm now exc rules c3 st4"
    using assms q unfolding finalize_gateway_request_def Let_def c1_def [symmetric] c2_def [symmetric]
    by (auto simp: st2_def st3_def st4_def)
  have enq: "redis_count now k (fst (snd (enqueue_event now qk p st))) = redis_count now k (fst st)" for k qk p st
    using enqueue_event_other(2) by (metis prod.collapse)
  have st3: "redis_count now k (fst st3) = redis_count now k (fst st1)" for k
    by (simp add: st3_def st2_def enqueue_log_def enqueue_usage_def enqueue_log_event_def enqueue_usage_event_def enq)
  have st4: "untouched now (fst st3) (fst st4)"
    unfolding st4_def record_channel_health_def Let_def using untouched_health by (cases "cx_channel_id c3") simp_all
  obtain ok s5 where t: "settle_tpm now rules (reserved_tokens c3 - cx_total_tokens c3) (fst st4) = (ok, s5)" by (metis prod.collapse)
  have "untouched now (fst st4) s5" using untouched_settle_tpm t by (metis snd_conv)
  moreover have "redis_count now k (fst st') = redis_count now k (if rules = [] then fst st4 else s5)" for k
    unfolding fin(2) settle_reserved_tpm_def Let_def t
    by (cases ok) (simp_all add: record_billing_failure_def enq)
  ultimately have st': "foreign k \<Longrightarrow> redis_count now k (fst st') = redis_count now k (fst st1)" for k
    using st3 st4 by (simp add: untouched_def)
  have "cx_quota_reserved c2 = cx_quota_reserved c \<and> cx_quota_settled c2 = cx_quota_settled c
    \<and> cx_quota_reservations c2 = (if rs \<noteq> [] then rs else cx_quota_reservations c)
    \<and> cx_prompt_tokens c2 = cx_prompt_tokens c \<and> cx_completion_tokens c2 = cx_completion_tokens c \<and> cx_total_tokens c2 = cx_total_tokens c"
    by (simp add: c1_def c2_def record_latency_def)
  with q st' fin(1) show ?thesis by blast
qed

text \<open>One run of the finalizer: the charge, and the one usage event.\<close>

lemma finalized_charge:
  assumes "r_wire s = []" and "foreign k" and "cx_quota_reserved c" and "\<not> cx_quota_settled c" and "rs \<noteq> [] \<or> cx_quota_reservations c = []"
    and "finalize_gateway_request hs now mclock exc (Some m) True rules rs c (s, boxes) = (c', st', ms)"
  shows "(rs \<noteq> [] \<longrightarrow> cx_quota_settled c')
    \<and> redis_count now k (fst st') = redis_count now k s - reserved_at k rs
        + (if cx_prompt_tokens c = 0 \<and> cx_completion_tokens c = 0 then 0
           else used_at k (cx_total_tokens c) (compute_cost m (cx_prompt_tokens c) (cx_completion_tokens c)) rs)"
proof -
  obtain c2 st1 where q: "settle_quota now exc (Some m) True c2 (s, boxes) = (c', st1)"
    and c2: "cx_quota_reserved c2" "\<not> cx_quota_settled c2" "cx_quota_reservations c2 = rs"
      "cx_prompt_tokens c2 = cx_prompt_tokens c" "cx_completion_tokens c2 = cx_completion_tokens c" "cx_total_tokens c2 = cx_total_tokens c"
    and k: "redis_count now k (fst st') = redis_count now k (fst st1)"
    using later_steps_count [OF assms(6)] assms(2-5) by (cases "rs = []") auto
  show ?thesis
  proof (cases "rs = []")
    case True
    then show ?thesis using settle_quota_healthy [OF assms(1) q] c2 k by (simp add: reserved_at_def used_at_def)
  next
    case False
    then show ?thesis using settle_quota_healthy [OF assms(1) q] c2 k by (simp add: model_cost_def)
  qed
qed

lemma settle_quota_backlog:
  assumes "r_wire s = []" and "settle_quota now exc model sv c (s, boxes) = (c', st')"
  shows "backlog now q st' = backlog now q (s, boxes)"
proof -
  have "same_lists now s (fst st')"
  proof (cases "cx_quota_reserved c \<and> \<not> cx_quota_settled c \<and> sv \<and> cx_quota_reservations c \<noteq> [] \<and> model \<noteq> None")
    case False
    then show ?thesis using settle_quota_healthy [OF assms] by (auto simp: same_lists_def)
  next
    case True
    then obtain m where m: "model = Some m" by auto
    obtain s1 where s1: "compensate_reservations now (cx_quota_reservations c) s = (True, s1)"
      using compensate_reservations_healthy [OF assms(1)] by blast
    obtain s2 where s2: "settle_reservations now (cx_quota_reservations c) (cx_total_tokens c)
        (compute_cost m (cx_prompt_tokens c) (cx_completion_tokens c)) s = (True, s2)"
      using settle_reservations_healthy [OF assms(1)] by blast
    have "fst st' = s1 \<or> fst st' = s2" using assms(2) True m s1 s2 by (auto simp: settle_quota_def split: if_splits)
    then show ?thesis using compensate_same_lists [OF s1] settle_same_lists [OF s2] by blast
  qed
  then show ?thesis using settle_quota_healthy [OF assms] by (simp add: backlog_def same_lists_def)
qed

lemma later_backlog:
  "backlog now USAGE_QUEUE_KEY (settle_reserved_tpm now exc rules c (record_channel_health hs now c (enqueue_log now c st)))
     = backlog now USAGE_QUEUE_KEY st"
proof -
  have other: "backlog now USAGE_QUEUE_KEY (snd (enqueue_event now q p t)) = backlog now USAGE_QUEUE_KEY t"
    if "q \<noteq> USAGE_QUEUE_KEY" for q p t
    using enqueue_event_other(1) that by (metis prod.collapse)
  have ne: "LOG_QUEUE_KEY \<noteq> USAGE_QUEUE_KEY" "BILLING_DLQ_KEY \<noteq> USAGE_QUEUE_KEY" by (simp_all add: event_keys)
  have log: "backlog now USAGE_QUEUE_KEY (enqueue_log now c st) = backlog now USAGE_QUEUE_KEY st"
    by (simp add: enqueue_log_def enqueue_log_event_def other ne)
  have same: "untouched now (fst t) s' \<Longrightarrow> backlog now USAGE_QUEUE_KEY (s', snd t) = backlog now USAGE_QUEUE_KEY t" for t s'
    by (simp add: backlog_def untouched_def)
  have health: "backlog now USAGE_QUEUE_KEY (record_channel_health hs now c t) = backlog now USAGE_QUEUE_KEY t" for t
    using same [OF untouched_health] by (simp add: record_channel_health_def Let_def split: option.split)
  have tpm: "backlog now USAGE_QUEUE_KEY (settle_reserved_tpm now exc rules c t) = backlog now USAGE_QUEUE_KEY t" for t
  proof -
    obtain ok s5 where r: "settle_tpm now rules (reserved_tokens c - cx_total_tokens c) (fst t) = (ok, s5)" by (metis prod.collapse)
    have "backlog now USAGE_QUEUE_KEY (s5, snd t) = backlog now USAGE_QUEUE_KEY t"
      using same untouched_settle_tpm r by (metis snd_conv)
    then show ?thesis using r
      by (cases t; cases ok) (simp_all add: settle_reserved_tpm_def Let_def record_billing_failure_def other ne)
  qed
  show ?thesis by (simp add: tpm health log)
qed

lemma finalized_event:
  assumes "r_wire s = []" and "length (boxes USAGE_QUEUE_KEY) < OUTBOX_MAX_PER_QUEUE"
    and "finalize_gateway_request hs now mclock exc model sv rules rs c (s, boxes) = (c', st', ms)"
  shows "backlog now USAGE_QUEUE_KEY st' = backlog now USAGE_QUEUE_KEY (s, boxes) @ [dumps (JObj (usage_payload (model_cost model c') c'))]
    \<and> cx_request_id c' = cx_request_id c \<and> cx_user_id c' = cx_user_id c \<and> cx_status c' = cx_status c
    \<and> cx_prompt_tokens c' = cx_prompt_tokens c \<and> cx_completion_tokens c' = cx_completion_tokens c \<and> cx_total_tokens c' = cx_total_tokens c"
proof -
  define c1 where "c1 = (if rs \<noteq> [] then c\<lparr>cx_quota_reservations := rs\<rparr> else c)"
  define c2 where "c2 = (if cx_latency_ms c1 = None then record_latency mclock c1 else c1)"
  obtain c3 st1 where q: "settle_quota now exc model sv c2 (s, boxes) = (c3, st1)" by (metis prod.collapse)
  define st2 where "st2 = enqueue_usage now model c3 st1"
  have fin: "c' = c3" "st' = settle_reserved_tpm now exc rules c3 (record_channel_health hs now c3 (enqueue_log now c3 st2))"
    using assms(3) q unfolding finalize_gateway_request_def Let_def c1_def [symmetric] c2_def [symmetric]
    by (auto simp: st2_def)
  note one = settle_quota_healthy [OF assms(1) q]
  have box: "length (snd st1 USAGE_QUEUE_KEY) < OUTBOX_MAX_PER_QUEUE" using one assms(2) by simp
  have w: "WUnacked \<notin> set (r_wire (fst st1))" using one by simp
  have "backlog now USAGE_QUEUE_KEY st2 = backlog now USAGE_QUEUE_KEY st1 @ [dumps (JObj (usage_payload (model_cost model c3) c3))]"
    unfolding st2_def enqueue_usage_def enqueue_usage_event_def
    using enqueue_event_keeps [OF _ box] w by (metis prod.collapse)
  then have b: "backlog now USAGE_QUEUE_KEY st' = backlog now USAGE_QUEUE_KEY (s, boxes) @ [dumps (JObj (usage_payload (model_cost model c') c'))]"
    unfolding fin later_backlog settle_quota_backlog [OF assms(1) q] .
  have "c3 = c2 \<or> c3 = c2\<lparr>cx_quota_settled := True\<rparr>" using one by (auto split: if_splits)
  then show ?thesis using b unfolding fin(1) by (auto simp: c1_def c2_def record_latency_def)
qed

text \<open>
  A request is charged what it used, once. On a healthy connection the finalizer replaces, in every
  quota counter, what was reserved by what the request used (nothing, when the upstream produced no
  token); finalizing the same request again moves no counter.
\<close>

theorem usage_replaces_reservation:
  assumes "r_wire s = []" and "foreign k" and "rs \<noteq> []" and "cx_quota_reserved c" and "\<not> cx_quota_settled c"
    and "finalize_gateway_request hs now mclock exc (Some m) True rules rs c (s, boxes) = (c', st', ms)"
    and "finalize_gateway_request hs now mclock' exc' (Some m) True rules rs c' st' = (c'', st'', ms')"
  shows "cx_quota_settled c'
    \<and> redis_count now k (fst st') = redis_count now k s - reserved_at k rs
        + (if cx_prompt_tokens c = 0 \<and> cx_completion_tokens c = 0 then 0
           else used_at k (cx_total_tokens c) (compute_cost m (cx_prompt_tokens c) (cx_completion_tokens c)) rs)
    \<and> redis_count now k (fst st'') = redis_count now k (fst st')"
proof -
  have c': "cx_quota_settled c'" using finalized_charge [OF assms(1,2,4,5) _ assms(6)] assms(3) by simp
  obtain c4 st5 where q2: "settle_quota now exc' (Some m) True c4 st' = (c'', st5)"
    and c4: "cx_quota_settled c4" and k2: "redis_count now k (fst st'') = redis_count now k (fst st5)"
    using later_steps_count [of hs now mclock' exc' "Some m" True rules rs c' "fst st'" "snd st'" c'' st'' ms'] assms(2,7) c' by auto
  have "st5 = st'" using q2 c4 by (simp add: settle_quota_def)
  then show ?thesis using finalized_charge [OF assms(1,2,4,5) _ assms(6)] assms(3) k2 by simp
qed

definition sample_final where
  "sample_final = finalize_gateway_request default_health 600000 1 ''e'' (Some sample_model) True [] [sample_reservation]
     sample_ctx (snd (redis_incrby 600000 ''quota:u:7:3:2026-01-31:tokens'' 100 empty_redis), \<lambda>_. [])"

theorem usage_replaces_reservation_witness:
  "redis_count 600000 ''quota:u:7:3:2026-01-31:tokens'' (fst (fst (snd sample_final))) = 60"
proof -
  let ?k = "''quota:u:7:3:2026-01-31:tokens''"
  obtain c' st' ms where run: "sample_final = (c', st', ms)" by (metis prod_cases3)
  obtain c'' st'' ms' where run2: "finalize_gateway_request default_health 600000 1 ''e'' (Some sample_model) True []
      [sample_reservation] c' st' = (c'', st'', ms')" by (metis prod_cases3)
  have w: "r_wire (snd (redis_incrby 600000 ?k 100 empty_redis)) = []" by (simp add: empty_redis_def)
  have f: "foreign ?k" by (simp add: foreign_def starts_with_def)
  have c: "cx_quota_reserved sample_ctx" "\<not> cx_quota_settled sample_ctx"
    "cx_prompt_tokens sample_ctx = 40" "cx_completion_tokens sample_ctx = 20" "cx_total_tokens sample_ctx = 60"
    by (simp_all add: sample_ctx_def new_ctx_def)
  have n: "redis_count 600000 ?k (snd (redis_incrby 600000 ?k 100 empty_redis)) = 100" by code_simp
  have "reserved_at ?k [sample_reservation] = 100" "used_at ?k 60 cost [sample_reservation] = 60" for cost
    by (simp_all add: reserved_at_def used_at_def usage_units_def sample_reservation_def)
  with usage_replaces_reservation [OF w f _ c(1,2) run [unfolded sample_final_def] run2] c n
  show ?thesis unfolding run by simp
qed

section \<open>The usage event gives the request back\<close>

lemma digits_no_space: "c \<in> set (show_nat n) \<Longrightarrow> \<not> is_py_space c"
proof -
  assume "c \<in> set (show_nat n)"
  then have "is_digit c" using show_nat_digits [of n] by (auto simp: list_all_iff)
  then show ?thesis by (auto simp: is_digit_def is_py_space_def Let_def)
qed

lemma show_dec_no_space: "c \<in> set (show_dec d) \<Longrightarrow> \<not> is_py_space c"
proof -
  have lit: "\<not> is_py_space (CHR ''0'')" "\<not> is_py_space (CHR ''-'')" "\<not> is_py_space (CHR ''.'')"
    "\<not> is_py_space (CHR ''E'')" "\<not> is_py_space (CHR ''+'')"
    by (simp_all add: is_py_space_def)
  assume "c \<in> set (show_dec d)"
  then show ?thesis
    by (cases d)
       (auto simp: show_dec_def Let_def show_int_def show_signed_def lit split: if_splits dest!: in_set_takeD in_set_dropD digits_no_space)
qed

lemma decimal_of_cost: "decimal_of_json (opt_dec_json p) = p"
proof (cases p)
  case (Some d)
  have "py_strip (show_dec d) = show_dec d" using py_strip_no_space show_dec_no_space by blast
  with Some show ?thesis by (simp add: opt_dec_json_def decimal_of_json_def)
qed (simp add: opt_dec_json_def decimal_of_json_def)

lemma opt_str_wf [simp]: "json_wf (opt_str_json v)"
  by (cases v) (simp_all add: opt_str_json_def)

lemma usage_payload_wf: "json_wf (JObj (usage_payload cost c))"
  by (simp add: usage_payload_def list_all_iff split: option.split)

text \<open>
  Billing rows are what the finalizer saw. The text the finalizer queues is parsed by the batch
  worker, is never refused for a missing field, and gives a row with the user, the model, the
  token counts and the request id of the request and exactly the cost computed from the model's
  prices.
\<close>

theorem usage_event_roundtrip:
  "\<exists>row. parse_record \<lparr>ce_raw = dumps (JObj (usage_payload (model_cost model c) c)), ce_envelope = e\<rparr>
        = Some (usage_payload (model_cost model c) c)
     \<and> to_usage_row i (usage_payload (model_cost model c) c) = Some row
     \<and> ur_id row = i \<and> ur_request_id row = JStr (cx_request_id c)
     \<and> ur_user_id row = JInt (cx_user_id c) \<and> ur_logical_model_id row = opt_int_json (cx_logical_model_id c)
     \<and> ur_prompt_tokens row = JInt (cx_prompt_tokens c) \<and> ur_completion_tokens row = JInt (cx_completion_tokens c)
     \<and> ur_total_tokens row = JInt (cx_total_tokens c) \<and> ur_status row = JStr (cx_status c)
     \<and> ur_cost row = model_cost model c"
proof -
  have "parse_record \<lparr>ce_raw = dumps (JObj (usage_payload (model_cost model c) c)), ce_envelope = e\<rparr>
        = Some (usage_payload (model_cost model c) c)"
    using loads_dumps [OF usage_payload_wf] by (simp add: parse_record_def)
  then show ?thesis
    by (simp add: to_usage_row_def usage_payload_def dget_def dget_default_def decimal_of_cost)
qed

end
