(* ===== verification/GateFrames.thy ===== *)
theory GateFrames
  imports Handlers FinalizeFacts Admission
begin

text \<open>
  What the gates of a request leave alone. The locale is the contract of a relation between stores that
  survives every Redis command a component issues on the keys it owns; two extensions say which
  keys those are. Rate limiting is shown not to touch quota counters and queues, quota checking and
  model resolution not to touch windows, buckets and semaphores.
\<close>

locale own_frame =
  fixes R :: "int \<Rightarrow> redis \<Rightarrow> redis \<Rightarrow> bool" and own :: "string \<Rightarrow> bool"
  assumes R_refl: "R now s s"
    and R_trans: "R now s t \<Longrightarrow> R now t u \<Longrightarrow> R now s u"
    and R_wire: "R now s (s\<lparr>r_wire := ws\<rparr>)"
    and R_incr: "own k \<Longrightarrow> R now s (snd (redis_incrby now k d s))"
    and R_set: "own k \<Longrightarrow> R now s (redis_set now k tx ex s)"
    and R_pexpire: "own k \<Longrightarrow> R now s (redis_pexpire now k ms s)"
    and R_zadd: "own k \<Longrightarrow> R now s (redis_zadd now k sc m s)"
    and R_zrem: "own k \<Longrightarrow> R now s (redis_zrem now k m s)"
    and R_zremr: "own k \<Longrightarrow> R now s (redis_zremrangebyscore now k c s)"
    and R_hset: "own k \<Longrightarrow> R now s (redis_hset now k f v s)"
begin

lemma R_rcall:
  assumes "\<And>t. R now t (snd (f t))"
  shows "R now s (snd (rcall f s))"
proof (cases "r_wire s")
  case Nil
  have "snd (rcall f s) = snd (f s)" using Nil by (simp add: rcall_def split: prod.split)
  then show ?thesis using assms by simp
next
  case (Cons w ws)
  have "R now s (snd (f (s\<lparr>r_wire := ws\<rparr>)))" using R_trans [OF R_wire assms] .
  moreover have "snd (rcall f s) \<in> {s\<lparr>r_wire := ws\<rparr>, snd (f (s\<lparr>r_wire := ws\<rparr>))}"
    using Cons by (cases w) (auto simp: rcall_def Let_def split: prod.split)
  ultimately show ?thesis using R_wire by auto
qed

lemma R_call: "(\<And>t. R now t (snd (f t))) \<Longrightarrow> rcall f s = (r, s') \<Longrightarrow> R now s s'"
  using R_rcall by (metis snd_conv)

lemma R_use: "(\<And>t. R now t (f t)) \<Longrightarrow> rcall (ruse f) s = (r, s') \<Longrightarrow> R now s s'"
  by (erule R_call [rotated]) (simp add: ruse_def)

lemma R_read: "rcall (rread f) s = (r, s') \<Longrightarrow> R now s s'"
  by (erule R_call [rotated]) (simp add: rread_def R_refl)

lemma R_rpm: "own k \<Longrightarrow> R now s (snd (rpm_script k now w l m s))"
proof -
  assume k: "own k"
  let ?a = "redis_zremrangebyscore now k (now - w) s"
  have a: "R now s ?a" by (rule R_zremr [OF k])
  have "R now s (redis_pexpire now k (w + 1000) (redis_zadd now k now m ?a))"
    by (rule R_trans [OF R_trans [OF a R_zadd [OF k]] R_pexpire [OF k]])
  with a show ?thesis by (simp add: lua_rpm_check_def Let_def)
qed

lemma R_conc: "own k \<Longrightarrow> R now s (snd (conc_script k now l m w s))"
proof -
  assume k: "own k"
  let ?a = "redis_zremrangebyscore now k (now - w) s"
  have a: "R now s ?a" by (rule R_zremr [OF k])
  have "R now s (redis_pexpire now k (w + 10000) (redis_zadd now k now m ?a))"
    by (rule R_trans [OF R_trans [OF a R_zadd [OF k]] R_pexpire [OF k]])
  with a show ?thesis by (simp add: lua_concurrent_check_def Let_def)
qed

lemma R_two_hsets: "own k \<Longrightarrow> R now s (redis_pexpire now k x (redis_hset now k f v (redis_hset now k f' v' s)))"
  by (rule R_trans [OF R_trans [OF R_hset R_hset] R_pexpire])

lemma R_tpm: "own k \<Longrightarrow> R now s (snd (tpm_script k now l req rate ttl s))"
  by (simp add: lua_tpm_check_def Let_def R_refl R_two_hsets)

lemma R_settle_script: "own k \<Longrightarrow> R now s (snd (settle_script k now d l ttl rate s))"
  by (simp add: lua_tpm_settle_def Let_def R_refl R_trans [OF R_hset R_pexpire])

lemma R_undo: "\<forall>p\<in>set pairs. own (fst p) \<Longrightarrow> R now s (quota_undo redis_incrby now pairs s)"
proof (induction pairs arbitrary: s)
  case (Cons p pairs)
  then show ?case by (cases p) (auto intro: R_trans [OF R_incr])
qed (simp add: R_refl)

lemma R_counted:
  assumes "own k" and "redis_incrby now k d s = (c, s1)"
  shows "R now s s1" and "R now s (if b then redis_expire now k ttl s1 else s1)"
proof -
  show s1: "R now s s1" using R_incr [OF assms(1)] assms(2) by (metis snd_conv)
  then show "R now s (if b then redis_expire now k ttl s1 else s1)"
    by (simp add: redis_expire_def R_trans [OF s1 R_pexpire [OF assms(1)]])
qed

lemma R_quota_loop:
  assumes "\<forall>a\<in>set args. own (qa_key a)" and "\<forall>p\<in>set inc. own (fst p)"
  shows "R now s (snd (quota_lua_loop redis_incrby redis_expire now i inc args s))"
  using assms
proof (induction args arbitrary: i inc s)
  case (Cons a args)
  obtain c s1 where c: "redis_incrby now (qa_key a) (qa_reserve a) s = (c, s1)" by force
  define s2 where "s2 = (if c = qa_reserve a \<and> 0 < qa_ttl a then redis_expire now (qa_key a) (qa_ttl a) s1 else s1)"
  have s2: "R now s s2" unfolding s2_def using R_counted(2) [OF _ c] Cons.prems(1) by simp
  let ?inc = "inc @ [(qa_key a, qa_reserve a)]"
  have inc: "\<forall>p\<in>set ?inc. own (fst p)" using Cons.prems by auto
  have "R now s (quota_undo redis_incrby now ?inc s2)" using R_trans [OF s2 R_undo [OF inc]] .
  moreover have "R now s (snd (quota_lua_loop redis_incrby redis_expire now (Suc i) ?inc args s2))"
    using R_trans [OF s2 Cons.IH [OF _ inc]] Cons.prems(1) by simp
  ultimately show ?case by (simp add: c Let_def s2_def)
qed (simp add: R_refl)

lemma R_fallback_undo: "\<forall>p\<in>set pairs. own (fst p) \<Longrightarrow> fallback_undo now pairs s = (r, s') \<Longrightarrow> R now s s'"
proof (induction pairs arbitrary: s)
  case (Cons p pairs)
  obtain k a where p: "p = (k, a)" by force
  obtain x s1 where x: "rcall (redis_incrby now k (- a)) s = (x, s1)" by force
  have "R now s s1" using R_call [OF R_incr x] Cons.prems p by simp
  then show ?case using Cons p x by (cases x) (auto intro: R_trans)
qed (simp add: R_refl)

lemma R_fallback_loop:
  assumes "\<forall>a\<in>set args. own (qa_key a)" and "\<forall>p\<in>set inc. own (fst p)" and "fallback_loop now i inc args s = (r, s')"
  shows "R now s s'"
  using assms
proof (induction args arbitrary: i inc s)
  case (Cons a args)
  have k: "own (qa_key a)" using Cons.prems(1) by simp
  obtain x s1 where x: "rcall (redis_incrby now (qa_key a) (qa_reserve a)) s = (x, s1)" by force
  have s1: "R now s s1" using R_call [OF R_incr [OF k] x] .
  show ?case
  proof (cases x)
    case None
    with Cons.prems(3) x s1 show ?thesis by simp
  next
    case (Some c)
    obtain y s2 where y: "(if c = qa_reserve a \<and> 0 < qa_ttl a then rcall (ruse (redis_expire now (qa_key a) (qa_ttl a))) s1 else (Some (), s1)) = (y, s2)"
      by force
    have "R now t (redis_expire now (qa_key a) (qa_ttl a) t)" for t by (simp add: redis_expire_def R_pexpire k)
    then have "R now s1 s2" using y R_use [of now "redis_expire now (qa_key a) (qa_ttl a)"] by (cases "c = qa_reserve a \<and> 0 < qa_ttl a") (auto simp: R_refl)
    then have s2: "R now s s2" by (rule R_trans [OF s1])
    let ?inc = "inc @ [(qa_key a, qa_reserve a)]"
    have inc: "\<forall>p\<in>set ?inc. own (fst p)" using Cons.prems k by auto
    obtain z s3 where z: "fallback_undo now ?inc s2 = (z, s3)" by force
    have s3: "R now s s3" using R_trans [OF s2 R_fallback_undo [OF inc z]] .
    consider "s' = s2" | "s' = s3" | "fallback_loop now (Suc i) ?inc args s2 = (r, s')"
      using Cons.prems(3) x Some y z by (cases y; cases z) (auto simp: Let_def split: if_splits)
    then show ?thesis
      using s2 s3 Cons.IH [OF _ inc] Cons.prems(1) R_trans [OF s2] by cases auto
  qed
qed (simp add: R_refl)

lemma R_warnings: "quota_warnings now kqs s = (r, s') \<Longrightarrow> R now s s'"
proof (induction kqs arbitrary: s r s')
  case (Cons p kqs)
  obtain k q where p: "p = (k, q)" by force
  obtain x s1 where x: "quota_count now k s = (x, s1)" by force
  have s1: "R now s s1" using x unfolding quota_count_def by (rule R_read)
  obtain y s2 where y: "quota_warnings now kqs s1 = (y, s2)" by force
  have "R now s s2" using R_trans [OF s1 Cons.IH [OF y]] .
  with s1 Cons.prems p x y show ?case by (cases x; cases y) (auto simp: Let_def)
qed (simp add: R_refl)

lemma R_generation: "R now s (snd (get_generation now k s))"
proof -
  obtain r s' where r: "rcall (rread (redis_get_int now k)) s = (r, s')" by force
  have "snd (get_generation now k s) = s'" by (auto simp: get_generation_def r split: option.split)
  with R_read [OF r] show ?thesis by simp
qed

lemma R_generations: "R now s (snd (read_generations now a b c s))"
proof -
  obtain x s1 where 1: "get_generation now a s = (x, s1)" by force
  obtain y s2 where 2: "get_generation now b s1 = (y, s2)" by force
  obtain z s3 where 3: "get_generation now c s2 = (z, s3)" by force
  have "R now s s1" "R now s1 s2" "R now s2 s3" using R_generation 1 2 3 by (metis snd_conv)+
  then have "R now s s3" by (blast intro: R_trans)
  then show ?thesis by (simp add: read_generations_def 1 2 3)
qed

lemma R_read_entry: "R now s (snd (read_entry now k s))"
proof -
  obtain r s' where r: "rcall (rread (redis_get now k)) s = (r, s')" by force
  have "snd (read_entry now k s) = s'" by (auto simp: read_entry_def r split: option.split)
  with R_read [OF r] show ?thesis by simp
qed

lemma R_write_entry: "own k \<Longrightarrow> R now s (write_entry now k v ttl s)"
  unfolding write_entry_def by (rule R_rcall) (simp add: ruse_def R_set)

lemma R_get_resolution: "R now s (snd (get_cached_resolution now u d m s))"
proof -
  obtain g s1 where g: "resolve_generations now u d s = (g, s1)" by (metis prod.collapse)
  then have "R now s s1" using R_generations unfolding resolve_generations_def by (metis snd_conv)
  then show ?thesis using g R_read_entry by (auto simp: get_cached_resolution_def intro: R_trans)
qed

lemma R_get_quota_config: "R now s (snd (get_cached_quota_config now u d m s))"
proof -
  obtain g s1 where g: "quota_generations now u d s = (g, s1)" by (metis prod.collapse)
  then have "R now s s1" using R_generations unfolding quota_generations_def by (metis snd_conv)
  then show ?thesis using g R_read_entry by (auto simp: get_cached_quota_config_def intro: R_trans)
qed

end

section \<open>Rate limiting\<close>

locale rate_frame = own_frame +
  assumes own_rate: "own (rpm_key r)" "own (tpm_key r)" "own (conc_key r)"
begin

lemma R_release_rpm: "R now s (release_rpm now m rs s)"
proof (induction rs arbitrary: s)
  case (Cons r rs)
  obtain x s1 where x: "rcall (ruse (redis_zrem now (rpm_key r) m)) s = (x, s1)" by force
  have "R now s s1" using R_use [OF R_zrem [OF own_rate(1)] x] .
  with Cons x show ?case by (cases x) (auto intro: R_trans)
qed (simp add: R_refl)

lemma R_release_concurrent: "R now s (release_concurrent now m rs s)"
proof (induction rs arbitrary: s)
  case (Cons r rs)
  obtain x s1 where x: "rcall (ruse (redis_zrem now (conc_key r) m)) s = (x, s1)" by force
  have "R now s s1" using R_use [OF R_zrem [OF own_rate(3)] x] .
  with Cons x show ?case by (cases x) (auto intro: R_trans)
qed (simp add: R_refl)

lemma R_settle_tpm: "R now s (snd (settle_tpm now rs d s))"
proof -
  have "R now s (snd (settle_tpm_loop now d rs s))"
  proof (induction rs arbitrary: s)
    case (Cons r rs)
    show ?case
    proof (cases "rl_tpm_limit r")
      case (Some l)
      let ?f = "settle_script (tpm_key r) now d (tpm_burst_of r l) TPM_BUCKET_TTL_MS l"
      obtain x s1 where x: "rcall ?f s = (x, s1)" by force
      have s1: "R now s s1" using R_call [OF R_settle_script [OF own_rate(2)] x] .
      with Cons.IH [of s1] Some x show ?thesis by (cases x) (auto intro: R_trans)
    qed (simp add: Cons)
  qed (simp add: R_refl)
  then show ?thesis by (simp add: settle_tpm_def R_refl)
qed

lemma R_rollback: "R (rq_now q) s (rollback q acc s)"
proof -
  let ?n = "rq_now q"
  define s1 where "s1 = (if la_rpm_acquired acc \<noteq> [] then release_rpm ?n (rq_member q) (la_rpm_acquired acc) s else s)"
  define s2 where "s2 = (if la_tpm_acquired acc \<noteq> [] then snd (settle_tpm ?n (la_tpm_acquired acc) (rq_estimate q) s1) else s1)"
  have s1: "R ?n s s1" by (simp add: s1_def R_release_rpm R_refl)
  have "R ?n s1 s2" by (simp add: s2_def R_settle_tpm R_refl)
  with s1 have s2: "R ?n s s2" by (rule R_trans)
  then have "R ?n s (release_concurrent ?n (rq_member q) (rq_rules q) s2)" using R_release_concurrent by (rule R_trans)
  with s2 show ?thesis by (simp add: rollback_def s1_def [symmetric] s2_def [symmetric] Let_def)
qed

lemma R_rollback_reservations: "R now s (rollback_rate_limit_reservations now m rs d s)"
  unfolding rollback_rate_limit_reservations_def
  using R_trans [OF R_trans [OF R_settle_tpm R_release_rpm] R_release_concurrent] by (simp add: R_refl)

lemma R_gates:
  "rpm_gate q r acc s = (g, s') \<Longrightarrow> R (rq_now q) s s'"
  "tpm_gate q r acc s = (g, s') \<Longrightarrow> R (rq_now q) s s'"
  "conc_gate q r acc s = (g, s') \<Longrightarrow> R (rq_now q) s s'"
proof -
  let ?n = "rq_now q"
  have via: "R ?n s s'" if "rcall f s = (x, s1)" "\<And>t. R ?n t (snd (f t))" "s' = s1 \<or> s' = rollback q acc s1"
    for f :: "redis \<Rightarrow> 'x \<times> redis" and x s1
    using R_call [OF that(2,1)] that(3) R_trans R_rollback by blast
  show "R ?n s s'" if "rpm_gate q r acc s = (g, s')"
  proof (cases "rl_rpm_limit r")
    case None with that show ?thesis by (simp add: rpm_gate_def R_refl)
  next
    case (Some l)
    let ?f = "rpm_script (rpm_key r) ?n 60000 l (rq_member q)"
    obtain x s1 where x: "rcall ?f s = (x, s1)" by force
    show ?thesis
      by (rule via [OF x R_rpm [OF own_rate(1)]]) (use that x Some in \<open>auto simp: rpm_gate_def split: option.splits prod.splits if_splits\<close>)
  qed
  show "R ?n s s'" if "tpm_gate q r acc s = (g, s')"
  proof (cases "rl_tpm_limit r")
    case None with that show ?thesis by (simp add: tpm_gate_def R_refl)
  next
    case (Some l)
    let ?f = "tpm_script (tpm_key r) ?n (tpm_burst_of r l) (rq_estimate q) l TPM_BUCKET_TTL_MS"
    obtain x s1 where x: "rcall ?f s = (x, s1)" by force
    show ?thesis
    proof (cases "0 < rq_estimate q")
      case True
      show ?thesis
        by (rule via [OF x R_tpm [OF own_rate(2)]])
           (use that x Some True in \<open>auto simp: tpm_gate_def split: option.splits prod.splits if_splits\<close>)
    next
      case False with that Some show ?thesis by (simp add: tpm_gate_def R_refl)
    qed
  qed
  show "R ?n s s'" if "conc_gate q r acc s = (g, s')"
  proof (cases "rl_max_concurrent r")
    case None with that show ?thesis by (simp add: conc_gate_def R_refl)
  next
    case (Some l)
    let ?f = "conc_script (conc_key r) ?n l (rq_member q) (CONCURRENT_STALE_TIMEOUT_SECONDS * 1000)"
    obtain x s1 where x: "rcall ?f s = (x, s1)" by force
    show ?thesis
    proof (cases "rq_stream q")
      case True
      show ?thesis
        by (rule via [OF x R_conc [OF own_rate(3)]])
           (use that x Some True in \<open>auto simp: conc_gate_def split: option.splits prod.splits if_splits\<close>)
    next
      case False with that Some show ?thesis by (simp add: conc_gate_def R_refl)
    qed
  qed
qed

lemma R_gate_then:
  assumes "gate_then p f = (g, s')" and "\<And>g' s'. p = (g', s') \<Longrightarrow> R now s s'" and "\<And>acc t g' s'. f acc t = (g', s') \<Longrightarrow> R now t s'"
  shows "R now s s'"
proof -
  obtain g0 s0 where p: "p = (g0, s0)" by force
  show ?thesis using assms(1) p assms(2) [OF p] R_trans [OF assms(2) [OF p] assms(3)]
    by (cases g0) (auto simp: gate_then_def)
qed

lemma R_check_rules: "check_rules q rules acc s = (g, s') \<Longrightarrow> R (rq_now q) s s'"
proof (induction rules arbitrary: acc s g s')
  case (Cons r rules)
  have one: "check_rule q r acc s = (g', t) \<Longrightarrow> R (rq_now q) s t" for acc s g' t
    unfolding check_rule_def by (erule R_gate_then) (auto elim: R_gate_then intro: R_gates)
  have "gate_then (check_rule q r acc s) (check_rules q rules) = (g, s')" using Cons.prems by simp
  then show ?case by (rule R_gate_then) (erule one, erule Cons.IH)
qed (simp add: R_refl)

lemma R_check: "check_rate_limits q (s, w) = (res, s', w') \<Longrightarrow> R (rq_now q) s s'"
proof -
  assume run: "check_rate_limits q (s, w) = (res, s', w')"
  obtain g t where g: "check_rules q (rq_rules q) rl_acc0 s = (g, t)" by force
  with run have "s' = t" by (cases g) (auto simp: check_rate_limits_def split: prod.splits bool.splits)
  with R_check_rules [OF g] show ?thesis by simp
qed

end
section \<open>Quota and resolution\<close>

locale quota_frame = own_frame +
  assumes own_counter: "own (key_for_quota now' u d q)"
    and own_resolution: "own (resolve_cache_key g i j nm)"
    and own_config: "own (quota_cache_key g i j n)"
begin

lemma R_check_and_increment:
  assumes "check_and_increment hs now u d quotas tok cost s = (out, s')"
  shows "R (epoch_ms now) s s'"
proof (cases "quotas = []")
  case True
  with assms show ?thesis by (simp add: check_and_increment_def R_refl)
next
  case False
  let ?args = "quota_args now u d tok cost quotas" and ?n = "epoch_ms now"
  have k: "\<forall>a\<in>set ?args. own (qa_key a)" by (auto simp: quota_args_def own_counter)
  obtain r s1 where r: "run_check hs ?n ?args s = (r, s1)" by force
  have s1: "R ?n s s1"
  proof (cases hs)
    case True
    then have "rcall (quota_script ?n ?args) s = (r, s1)" using r by (simp add: run_check_def)
    then show ?thesis by (rule R_call [rotated]) (simp add: quota_check_lua_def R_quota_loop [OF k])
  next
    case False
    then show ?thesis using r R_fallback_loop [OF k, of "[]"] by (simp add: run_check_def run_check_fallback_def)
  qed
  obtain w s2 where w: "quota_warnings ?n (zip (map qa_key ?args) quotas) s1 = (w, s2)" by force
  have s2: "R ?n s s2" by (rule R_trans [OF s1 R_warnings [OF w]])
  have "s' = s1 \<or> s' = s2"
    using assms False r w by (cases r; cases w) (auto simp: check_and_increment_def Let_def split: if_splits)
  with s1 s2 show ?thesis by blast
qed

lemma R_active_quotas: "R now s (snd (get_active_quotas_cached now draw u d m db s))"
proof -
  obtain c s1 where c: "get_cached_quota_config now u d m s = (c, s1)" by (metis prod.collapse)
  then have s1: "R now s s1" using R_get_quota_config by (metis snd_conv)
  have "R now s1 (set_cached_quota_config now draw u d m v s1)" for v
  proof -
    obtain g s2 where g: "quota_generations now u d s1 = (g, s2)" by (metis prod.collapse)
    then have "R now s1 s2" using R_generations unfolding quota_generations_def by (metis snd_conv)
    then show ?thesis using R_trans [OF _ R_write_entry [OF own_config]] by (simp add: set_cached_quota_config_def g)
  qed
  then have "R now s (set_cached_quota_config now draw u d m v s1)" for v using s1 R_trans by blast
  with s1 show ?thesis by (simp add: get_active_quotas_cached_def c Let_def split: option.split json.split)
qed

lemma R_check_quota:
  assumes "check_quota hs now draw u d m tok cost db s = (r, s')"
  shows "R (epoch_ms now) s s'"
proof -
  obtain a s1 where a: "get_active_quotas_cached (epoch_ms now) draw u d m db s = (a, s1)" by (metis prod.collapse)
  then have s1: "R (epoch_ms now) s s1" using R_active_quotas by (metis snd_conv)
  show ?thesis
  proof (cases a)
    case (ROk quotas)
    obtain out s2 where c: "check_and_increment hs now u d quotas tok cost s1 = (out, s2)" by (metis prod.collapse)
    have "s' = s2" using assms a ROk c by (cases out) (simp_all add: check_quota_def)
    then show ?thesis using R_trans [OF s1 R_check_and_increment [OF c]] by simp
  qed (use assms a s1 in \<open>simp_all add: check_quota_def\<close>)
qed

lemma R_resolve_model: "R now s (snd (resolve_model now draw u m db s))"
proof -
  obtain c s1 where c: "get_cached_resolution now (au_user_id u) (au_department_id u) (cache_model_key m) s = (c, s1)"
    by (metis prod.collapse)
  then have s1: "R now s s1" using R_get_resolution by (metis snd_conv)
  have "R now s1 (set_cached_resolution now draw i j k v s1)" for i j k v
  proof -
    obtain g s2 where g: "resolve_generations now i j s1 = (g, s2)" by (metis prod.collapse)
    then have "R now s1 s2" using R_generations unfolding resolve_generations_def by (metis snd_conv)
    then show ?thesis using R_trans [OF _ R_write_entry [OF own_resolution]] by (simp add: set_cached_resolution_def g)
  qed
  then have "R now s (set_cached_resolution now draw i j k v s1)" for i j k v using s1 R_trans by blast
  with s1 show ?thesis by (simp add: resolve_model_def c split: res.split)
qed

end

section \<open>Instances\<close>

text \<open>Keys of the rate limiter, and the others a request's gates write.\<close>

definition rate_key :: "string \<Rightarrow> bool" where
  "rate_key k \<longleftrightarrow> starts_with ''rl:'' k"

text \<open>Counters and queues outside the rate limiter; windows, buckets and semaphores inside it.\<close>

definition same_counters :: "int \<Rightarrow> redis \<Rightarrow> redis \<Rightarrow> bool" where
  "same_counters now s s' \<longleftrightarrow> (\<forall>k. \<not> rate_key k \<longrightarrow>
     redis_count now k s' = redis_count now k s \<and> redis_lrange now k s' = redis_lrange now k s)"

definition same_limits :: "int \<Rightarrow> redis \<Rightarrow> redis \<Rightarrow> bool" where
  "same_limits now s s' \<longleftrightarrow> (\<forall>k. rate_key k \<longrightarrow> same_at now k s s')"

lemma rate_keys [simp]: "rate_key (rpm_key r)" "rate_key (tpm_key r)" "rate_key (conc_key r)"
  by (simp_all add: rate_key_def starts_with_def rpm_key_def tpm_key_def conc_key_def)

lemma other_keys [simp]: "\<not> rate_key (key_for_quota n u d q)" "\<not> rate_key (resolve_cache_key g i j nm)" "\<not> rate_key (quota_cache_key g i j m)"
  by (simp_all add: rate_key_def starts_with_def key_for_quota_def resolve_cache_key_def quota_cache_key_def versioned_key_def Let_def
      split: prod.split)

lemmas store_views = redis_count_def redis_get_int_def redis_lrange_def redis_incrby_def redis_set_def redis_pexpire_def redis_zadd_def
  redis_zrem_def redis_zremrangebyscore_def redis_hset_def zset_store_def evict_if_expired_def expired_def Let_def

interpretation kc: rate_frame same_counters rate_key
proof
  fix now s t u k d tx ex ms sc m c f v ws
  show "same_counters now s s" and "same_counters now s t \<Longrightarrow> same_counters now t u \<Longrightarrow> same_counters now s u"
    and "same_counters now s (s\<lparr>r_wire := ws\<rparr>)"
    by (simp_all add: same_counters_def store_views)
  assume k: "rate_key k"
  show "same_counters now s (snd (redis_incrby now k d s))"
    using k by (auto simp: same_counters_def store_views split: option.splits)
  show "same_counters now s (redis_set now k tx ex s)"
    using k by (auto simp: same_counters_def store_views split: option.splits)
  show "same_counters now s (redis_pexpire now k ms s)"
    using k by (auto simp: same_counters_def store_views split: option.splits)
  show "same_counters now s (redis_zadd now k sc m s)"
    using k by (auto simp: same_counters_def store_views split: option.splits)
  show "same_counters now s (redis_zrem now k m s)"
    using k by (auto simp: same_counters_def store_views split: option.splits)
  show "same_counters now s (redis_zremrangebyscore now k c s)"
    using k by (auto simp: same_counters_def store_views split: option.splits)
  show "same_counters now s (redis_hset now k f v s)"
    using k by (auto simp: same_counters_def store_views split: option.splits)
qed simp_all

interpretation kl: quota_frame same_limits "\<lambda>k. \<not> rate_key k"
proof
  fix now s t u k d tx ex ms sc m c f v ws
  show "same_limits now s s" and "same_limits now s t \<Longrightarrow> same_limits now t u \<Longrightarrow> same_limits now s u"
    by (simp_all add: same_limits_def same_at_def)
  show "same_limits now s (s\<lparr>r_wire := ws\<rparr>)"
    by (simp add: same_limits_def same_at_def redis_zset_def redis_hget_def expired_def)
  assume k: "\<not> rate_key k"
  then have other: "\<And>k'. rate_key k' \<Longrightarrow> k \<noteq> k'" by auto
  show "same_limits now s (redis_pexpire now k ms s)" "same_limits now s (redis_zadd now k sc m s)" "same_limits now s (redis_zrem now k m s)"
    "same_limits now s (redis_zremrangebyscore now k c s)" "same_limits now s (redis_hset now k f v s)"
    using other by (simp_all add: same_limits_def)
  show "same_limits now s (snd (redis_incrby now k d s))" "same_limits now s (redis_set now k tx ex s)"
    using other by (auto simp: same_limits_def same_at_def redis_zset_def redis_hget_def store_views split: option.splits)
qed simp_all

text \<open>The event queues.\<close>

definition queue_key :: "string \<Rightarrow> bool" where
  "queue_key k \<longleftrightarrow> starts_with ''gw:event:'' k"

definition same_queues :: "int \<Rightarrow> redis \<Rightarrow> redis \<Rightarrow> bool" where
  "same_queues now s s' \<longleftrightarrow> (\<forall>q. queue_key q \<longrightarrow> redis_lrange now q s' = redis_lrange now q s)"

lemma no_queue_keys [simp]: "\<not> queue_key (rpm_key r)" "\<not> queue_key (tpm_key r)" "\<not> queue_key (conc_key r)"
  "\<not> queue_key (key_for_quota n u d q)" "\<not> queue_key (resolve_cache_key g i j nm)" "\<not> queue_key (quota_cache_key g i j m)"
  by (simp_all add: queue_key_def starts_with_def key_for_quota_def resolve_cache_key_def quota_cache_key_def versioned_key_def
      rpm_key_def tpm_key_def conc_key_def Let_def split: prod.split)

lemma same_queues_frame: "own_frame same_queues (\<lambda>k. \<not> queue_key k)"
proof
  fix now s t u k d tx ex ms sc m c f v ws
  show "same_queues now s s" and "same_queues now s t \<Longrightarrow> same_queues now t u \<Longrightarrow> same_queues now s u"
    and "same_queues now s (s\<lparr>r_wire := ws\<rparr>)"
    by (simp_all add: same_queues_def store_views)
  assume k: "\<not> queue_key k"
  then have other: "\<And>q. queue_key q \<Longrightarrow> q \<noteq> k" by auto
  show "same_queues now s (snd (redis_incrby now k d s))" "same_queues now s (redis_set now k tx ex s)"
    "same_queues now s (redis_pexpire now k ms s)" "same_queues now s (redis_hset now k f v s)"
    using other by (simp_all add: same_queues_def store_views split: option.splits)
  show "same_queues now s (redis_zadd now k sc m s)"
    using other by (simp add: same_queues_def store_views split: option.splits)
  show "same_queues now s (redis_zrem now k m s)"
    using other by (simp add: same_queues_def store_views split: option.splits)
  show "same_queues now s (redis_zremrangebyscore now k c s)"
    using other by (simp add: same_queues_def store_views split: option.splits)
qed

interpretation kqr: rate_frame same_queues "\<lambda>k. \<not> queue_key k"
  by (intro rate_frame.intro same_queues_frame rate_frame_axioms.intro) simp_all

interpretation kqq: quota_frame same_queues "\<lambda>k. \<not> queue_key k"
  by (intro quota_frame.intro same_queues_frame quota_frame_axioms.intro) simp_all

end
