(* ===== verification/Frames.thy ===== *)
theory Frames
  imports FinalizeFacts Streams
begin

text \<open>
  What the end of a request leaves alone. The locale is the contract a relation between stores must
  meet to hold across every Redis command the finalizer issues; inside it the relation is
  carried through channel health, settlements, enqueueing and the finalizer as a whole. It is interpreted on the
  sorted sets of the rate limiter and on the text entries of the caches.
\<close>

text \<open>The keys the finalizer sets deadlines on.\<close>

definition deadline_key :: "string \<Rightarrow> bool" where
  "deadline_key k \<longleftrightarrow> (\<exists>c m. k = bucket_key c m) \<or> (\<exists>r. k = tpm_key r)"

locale frame_rel =
  fixes R :: "int \<Rightarrow> redis \<Rightarrow> redis \<Rightarrow> bool"
  assumes R_refl: "R now s s"
    and R_trans: "R now s t \<Longrightarrow> R now t u \<Longrightarrow> R now s u"
    and R_wire: "R now s (s\<lparr>r_wire := ws\<rparr>)"
    and R_incr: "R now s (snd (redis_incrby now k d s))"
    and R_push: "R now s (redis_rpush now q x s)"
    and R_hset: "R now s (redis_hset now k f v s)"
    and R_text: "R now s (redis_hset_text now k fvs s)"
    and R_publish: "R now s (redis_publish ch msg s)"
    and R_sadd: "R now s (snd (redis_sadd now k m s))"
    and R_deadline: "deadline_key k \<Longrightarrow> R now s (redis_pexpire now k ms s)"
begin

lemma R_rcall:
  assumes "\<And>t. R now t (snd (f t))"
  shows "R now s (snd (rcall f s))"
proof (cases "r_wire s")
  case Nil
  have "snd (rcall f s) = snd (f s)" using Nil by (simp add: rcall_def split: prod.split)
  then show ?thesis using assms by simp
next
  case (Cons w ws)
  have "R now s (snd (f (s\<lparr>r_wire := ws\<rparr>)))" using R_trans [OF R_wire assms] .
  moreover have "snd (rcall f s) \<in> {s\<lparr>r_wire := ws\<rparr>, snd (f (s\<lparr>r_wire := ws\<rparr>))}"
    using Cons by (cases w) (auto simp: rcall_def Let_def split: prod.split)
  ultimately show ?thesis using R_wire by auto
qed

lemma R_call: "(\<And>t. R now t (snd (f t))) \<Longrightarrow> rcall f s = (r, s') \<Longrightarrow> R now s s'"
  using R_rcall by (metis snd_conv)

lemma R_use: "(\<And>t. R now t (f t)) \<Longrightarrow> R now s (snd (rcall (ruse f) s))"
  by (rule R_rcall) (simp add: ruse_def)

lemma R_read: "R now s (snd (rcall (rread f) s))"
  by (rule R_rcall) (simp add: rread_def R_refl)

lemma R_expire: "deadline_key k \<Longrightarrow> R now s (redis_expire now k secs s)"
  by (simp add: redis_expire_def R_deadline)

lemma R_outcome: "R now s (outcome_pipeline now (bucket_key c m) ok ec ttl s)"
proof -
  have inc: "R now s t \<Longrightarrow> R now s (redis_hincrby now k f d t)" for t k f d
    unfolding redis_hincrby_def by (rule R_trans [OF _ R_hset])
  have fin: "R now s t \<Longrightarrow> R now s (redis_expire now (bucket_key c m) ttl t)" for t
    by (erule R_trans [OF _ R_expire]) (auto simp: deadline_key_def)
  show ?thesis unfolding outcome_pipeline_def Let_def
    by (cases ok; cases "truthy_str ec"; simp) (intro fin inc R_refl)+
qed

lemma R_health: "R now s (record_and_evaluate hs now c ok ec s)"
proof -
  define s1 where "s1 = record_request_outcome now c ok ec (hs_window_seconds hs) s"
  have 1: "R now s s1" unfolding s1_def record_request_outcome_def by (rule R_use) (rule R_outcome)
  obtain n e r s2 where g: "get_error_rate now c (hs_window_seconds hs) s1 = ((n, e, r), s2)" by (metis prod.collapse)
  have "R now s1 (snd (get_error_rate now c (hs_window_seconds hs) s1))"
    unfolding get_error_rate_def snd_case_reply(1) by (rule R_read)
  then have 2: "R now s s2" using R_trans [OF 1] g by simp
  obtain b s3 where a: "add_to_degraded now c s2 = (b, s3)" by (metis prod.collapse)
  have "R now s2 (snd (add_to_degraded now c s2))"
    unfolding add_to_degraded_def snd_case_reply(2) by (rule R_rcall [OF R_sadd])
  then have 3: "R now s s3" using R_trans [OF 2] a by simp
  have 4: "R now s (publish_invalidation (update_channel_state now c fvs s3))" for fvs
    unfolding publish_invalidation_def update_channel_state_def
    by (rule R_trans [OF R_trans [OF 3 R_use [OF R_text]] R_use [OF R_publish]])
  show ?thesis
    using 1 2 3 4 unfolding record_and_evaluate_def Let_def s1_def [symmetric] g prod.case a by (simp split: bool.split)
qed

lemma R_settle: "settle_reservations now rs tok cost s = (b, s') \<Longrightarrow> R now s s'"
proof (induction rs arbitrary: s)
  case (Cons r rs)
  let ?a = "settlement_adjustment_for_metric (qr_metric r) (qr_reserved r) tok cost"
  obtain x s1 where x: "rcall (redis_incrby now (qr_key r) ?a) s = (x, s1)" by (metis prod.collapse)
  obtain y s2 where y: "quota_count now (qr_key r) s1 = (y, s2)" by (metis prod.collapse)
  have 1: "R now s s1" using R_call [OF R_incr x] .
  have "R now s1 s2" using R_read y by (metis quota_count_def snd_conv)
  with 1 have 2: "R now s s2" by (rule R_trans)
  consider "settle_reservations now rs tok cost s = (b, s')" | "s' = s1" | "s' = s2"
    | "settle_reservations now rs tok cost s2 = (b, s')"
    using Cons.prems x y by (cases "?a = 0"; cases x; cases y) (simp_all add: Let_def)
  then show ?case using Cons.IH R_trans [OF 2] 1 2 by cases blast+
qed (simp add: R_refl)

lemma R_compensate: "compensate_reservations now rs s = (b, s') \<Longrightarrow> R now s s'"
proof (induction rs arbitrary: s)
  case (Cons r rs)
  obtain x s1 where x: "rcall (redis_incrby now (qr_key r) (- qr_reserved r)) s = (x, s1)" by (metis prod.collapse)
  have 1: "R now s s1" using R_call [OF R_incr x] .
  consider "compensate_reservations now rs s = (b, s')" | "s' = s1" | "compensate_reservations now rs s1 = (b, s')"
    using Cons.prems x by (cases "qr_reserved r = 0"; cases x) simp_all
  then show ?case using Cons.IH R_trans [OF 1] 1 by cases blast+
qed (simp add: R_refl)

lemma R_flush: "flush_outbox now q box s = (ok, box', s') \<Longrightarrow> R now s s'"
proof (induction box arbitrary: s)
  case (Cons x box)
  obtain r s1 where r: "rcall (ruse (redis_rpush now q x)) s = (r, s1)" by (metis prod.collapse)
  have 1: "R now s s1" using R_use [of now "redis_rpush now q x" s, OF R_push] r by simp
  show ?case using Cons.prems Cons.IH [of s1] r R_trans [OF 1] 1 by (cases r) auto
qed (simp add: R_refl)

lemma R_enqueue: "R now (fst st) (fst (snd (enqueue_event now q p st)))"
proof -
  obtain s boxes where st: "st = (s, boxes)" by (cases st)
  obtain f box s1 where f: "flush_outbox now q (boxes q) s = (f, box, s1)" by (metis prod_cases3)
  obtain r s2 where r: "rcall (ruse (redis_rpush now q (dumps (JObj p)))) s1 = (r, s2)" by (metis prod.collapse)
  have 1: "R now s s1" using R_flush [OF f] .
  have "R now s1 s2" using R_use [of now "redis_rpush now q (dumps (JObj p))" s1, OF R_push] r by simp
  with 1 have 2: "R now s s2" by (rule R_trans)
  show ?thesis using st f r 1 2 by (cases f; cases r) (simp_all add: enqueue_event_def Let_def)
qed

lemma R_settle_tpm: "R now s (snd (settle_tpm now rules d s))"
proof -
  have script: "R now t (snd (settle_script (tpm_key r) now d l ttl rate t))" for t r l ttl rate
  proof (cases "redis_exists now (tpm_key r) t")
    case True
    have "R now t (redis_pexpire now (tpm_key r) x (redis_hset now (tpm_key r) f v t))" for x f v
      by (rule R_trans [OF R_hset R_deadline]) (auto simp: deadline_key_def)
    with True show ?thesis by (simp add: lua_tpm_settle_def Let_def)
  qed (simp add: lua_tpm_settle_def R_refl)
  have "R now s (snd (settle_tpm_loop now d rules s))"
  proof (induction rules arbitrary: s)
    case (Cons r rules)
    show ?case
    proof (cases "rl_tpm_limit r")
      case (Some l)
      obtain x s1 where x: "rcall (settle_script (tpm_key r) now d (tpm_burst_of r l) TPM_BUCKET_TTL_MS l) s = (x, s1)"
        by (metis prod.collapse)
      have "R now s s1" using R_call [OF script x] .
      with Cons.IH [of s1] Some x show ?thesis by (cases x) (auto intro: R_trans)
    qed (use Cons in simp)
  qed (simp add: R_refl)
  then show ?thesis by (simp add: settle_tpm_def R_refl)
qed

lemma R_quota: "settle_quota now exc model sv c st = (c', st') \<Longrightarrow> R now (fst st) (fst st')"
proof -
  obtain s boxes where st: "st = (s, boxes)" by (cases st)
  assume run: "settle_quota now exc model sv c st = (c', st')"
  have bill: "R now s (fst (record_billing_failure now kind rid exc detail (t, boxes)))" if "R now s t" for t kind rid detail
    unfolding record_billing_failure_def using R_trans [OF that] R_enqueue [of now "(t, boxes)"] by simp
  show ?thesis
  proof (cases "cx_quota_settled c \<or> \<not> cx_quota_reserved c \<or> model = None \<or> \<not> sv \<or> cx_quota_reservations c = []")
    case True
    then have "st' = st" using run st by (auto simp: settle_quota_def split: option.splits if_splits)
    then show ?thesis by (simp add: R_refl)
  next
    case False
    then obtain m where m: "model = Some m" by auto
    let ?run = "if cx_prompt_tokens c = 0 \<and> cx_completion_tokens c = 0
                then compensate_reservations now (cx_quota_reservations c) s
                else settle_reservations now (cx_quota_reservations c) (cx_total_tokens c)
                       (compute_cost m (cx_prompt_tokens c) (cx_completion_tokens c)) s"
    obtain ok s1 where r: "?run = (ok, s1)" by (metis prod.collapse)
    have "R now s s1" using r R_compensate R_settle by (metis (full_types))
    moreover have "fst st' = (if ok then s1 else fst (record_billing_failure now ''quota_settle'' (cx_request_id c) exc (billing_detail c) (s1, boxes)))"
      using run False m r unfolding st settle_quota_def by (cases ok) auto
    ultimately show ?thesis using bill st by (cases ok) simp_all
  qed
qed

lemma R_finalize:
  assumes "finalize_gateway_request hs now mclock exc model sv rules rs c st = (c', st', ms)"
  shows "R now (fst st) (fst st')"
proof -
  define c1 where "c1 = (if rs \<noteq> [] then c\<lparr>cx_quota_reservations := rs\<rparr> else c)"
  define c2 where "c2 = (if cx_latency_ms c1 = None then record_latency mclock c1 else c1)"
  obtain c3 st1 where q: "settle_quota now exc model sv c2 st = (c3, st1)" by (metis prod.collapse)
  define st2 where "st2 = enqueue_usage now model c3 st1"
  define st3 where "st3 = enqueue_log now c3 st2"
  define st4 where "st4 = record_channel_health hs now c3 st3"
  have fin: "st' = settle_reserved_tpm now exc rules c3 st4"
    using assms q unfolding finalize_gateway_request_def Let_def c1_def [symmetric] c2_def [symmetric]
    by (auto simp: st2_def st3_def st4_def)
  have 1: "R now (fst st) (fst st1)" using R_quota [OF q] .
  have 2: "R now (fst st1) (fst st2)" unfolding st2_def enqueue_usage_def enqueue_usage_event_def by (rule R_enqueue)
  have 3: "R now (fst st2) (fst st3)" unfolding st3_def enqueue_log_def enqueue_log_event_def by (rule R_enqueue)
  have 4: "R now (fst st3) (fst st4)"
    unfolding st4_def record_channel_health_def Let_def by (cases "cx_channel_id c3") (simp_all add: R_refl R_health)
  obtain ok s5 where t: "settle_tpm now rules (reserved_tokens c3 - cx_total_tokens c3) (fst st4) = (ok, s5)" by (metis prod.collapse)
  have t5: "R now (fst st4) s5" using R_settle_tpm t by (metis snd_conv)
  have 5: "R now (fst st4) (fst st')"
    unfolding fin settle_reserved_tpm_def Let_def t record_billing_failure_def
    using R_trans [OF t5] R_enqueue [of now "(s5, snd st4)"] t5 R_refl by (cases ok) auto
  show ?thesis by (rule R_trans [OF R_trans [OF R_trans [OF R_trans [OF 1 2] 3] 4] 5])
qed

end

section \<open>The two frames\<close>

definition same_zsets :: "int \<Rightarrow> redis \<Rightarrow> redis \<Rightarrow> bool" where
  "same_zsets now s s' \<longleftrightarrow> (\<forall>k. \<not> deadline_key k \<longrightarrow> redis_zset now k s' = redis_zset now k s)"

definition same_texts :: "int \<Rightarrow> redis \<Rightarrow> redis \<Rightarrow> bool" where
  "same_texts now s s' \<longleftrightarrow> (\<forall>k. \<not> deadline_key k \<longrightarrow> redis_get now k s' = redis_get now k s)"

interpretation zf: frame_rel same_zsets
  by unfold_locales
     (auto simp: same_zsets_def redis_zset_def redis_incrby_def redis_rpush_def redis_hset_def redis_hset_text_def
       redis_publish_def redis_sadd_def redis_pexpire_def evict_if_expired_def expired_def Let_def split: option.splits if_splits)

interpretation tf: frame_rel same_texts
  by unfold_locales
     (auto simp: same_texts_def redis_get_def redis_incrby_def redis_rpush_def redis_hset_def redis_hset_text_def
       redis_publish_def redis_sadd_def redis_pexpire_def evict_if_expired_def expired_def Let_def split: option.splits if_splits)

end
