(* ===== verification/StreamFacts.thy ===== *)
theory StreamFacts
  imports Frames UpstreamFacts
begin

text \<open>
  A stream forwards what it received, in order and unchanged, ends with the terminator that its
  status calls for, is billed for what was delivered, and gives its slot back however it ended.
\<close>

section \<open>The pull loop\<close>

definition chunks :: "'c pull list \<Rightarrow> 'c list" where
  "chunks pulls = List.map_filter (\<lambda>(_, _, ev). case ev of UChunk c \<Rightarrow> Some c | _ \<Rightarrow> None) pulls"

lemma chunks_simps [simp]:
  "chunks [] = []" "chunks ((t, u, UChunk c) # ps) = c # chunks ps"
  by (simp_all add: chunks_def map_filter_simps)

text \<open>An invariant of state and output that every handled chunk keeps holds at the end.\<close>

lemma pump_invariant:
  assumes "pump body pulls st out = (e, st', out')" and "I 0 st out"
    and step: "\<And>n t c st out st' d. n < length (chunks pulls) \<Longrightarrow> chunks pulls ! n = c \<Longrightarrow> I n st out \<Longrightarrow>
        body t c st = (st', Some d) \<Longrightarrow> I (Suc n) st' (out @ [d])"
    and fail: "\<And>n t c st out st'. n < length (chunks pulls) \<Longrightarrow> chunks pulls ! n = c \<Longrightarrow> I n st out \<Longrightarrow>
        body t c st = (st', None) \<Longrightarrow> J n st' out"
  shows "\<exists>n \<le> length (chunks pulls). I n st' out' \<or> n < length (chunks pulls) \<and> e = PRaise XOther \<and> J n st' out'"
  using assms
proof (induction pulls arbitrary: st out I J)
  case Nil
  then show ?case by auto
next
  case (Cons p pulls)
  obtain el t ev where p: "p = (el, t, ev)" by (metis prod_cases3)
  show ?case
  proof (cases "\<exists>c. ev = UChunk c \<and> \<not> STREAM_MAX_DURATION_SECONDS < el")
    case False
    then have "st' = st \<and> out' = out" using Cons.prems(1) p by (cases ev) (auto split: if_splits)
    with Cons.prems(2) show ?thesis by blast
  next
    case True
    then obtain c where c: "ev = UChunk c" and el: "\<not> STREAM_MAX_DURATION_SECONDS < el" by blast
    have ch: "chunks (p # pulls) = c # chunks pulls" using p c by simp
    obtain st1 r where b: "body t c st = (st1, r)" by force
    show ?thesis
    proof (cases r)
      case None
      then have "e = PRaise XOther" "st' = st1" "out' = out" using Cons.prems(1) p c el b by auto
      moreover have "J 0 st1 out" using Cons.prems(4) [of 0 c st out t st1] Cons.prems(2) ch b None by simp
      ultimately show ?thesis using ch by auto
    next
      case (Some d)
      have run: "pump body pulls st1 (out @ [d]) = (e, st', out')" using Cons.prems(1) p c el b Some by simp
      have base: "I (Suc 0) st1 (out @ [d])" using Cons.prems(3) [of 0 c st out t st1 d] Cons.prems(2) ch b Some by simp
      have "\<exists>n \<le> length (chunks pulls). I (Suc n) st' out' \<or> n < length (chunks pulls) \<and> e = PRaise XOther \<and> J (Suc n) st' out'"
      proof (rule Cons.IH [where I = "\<lambda>n. I (Suc n)" and J = "\<lambda>n. J (Suc n)", OF run])
        show "I (Suc 0) st1 (out @ [d])" by (rule base)
      next
        fix n t c st out st' d
        assume a: "n < length (chunks pulls)" "chunks pulls ! n = c" "I (Suc n) st out"
        show "body t c st = (st', Some d) \<Longrightarrow> I (Suc (Suc n)) st' (out @ [d])"
          using Cons.prems(3) [of "Suc n" c st out t st' d] a ch by simp
        show "body t c st = (st', None) \<Longrightarrow> J (Suc n) st' out"
          using Cons.prems(4) [of "Suc n" c st out t st'] a ch by simp
      qed
      then obtain n where n: "n \<le> length (chunks pulls)"
        "I (Suc n) st' out' \<or> n < length (chunks pulls) \<and> e = PRaise XOther \<and> J (Suc n) st' out'" by blast
      show ?thesis by (rule exI [of _ "Suc n"]) (use n ch in auto)
    qed
  qed
qed

section \<open>Chat completions\<close>

lemma chat_chunk_yields: "chat_chunk dump t c st = (st', Some d) \<Longrightarrow> d = ''data: '' @ dump c @ blank_line"
  by (auto simp: chat_chunk_def Let_def split: prod.splits option.splits)

text \<open>
  A client can tell a complete answer from a truncated one. A chat stream yields the chunks received so
  far, each as one event, in order; then \<open>[DONE]\<close> exactly when the request is recorded as a success,
  the error event exactly when it ran into a timeout of the gateway, and nothing when it failed or was
  cancelled, which is never recorded as a success.
\<close>

theorem chat_stream_terminator:
  assumes "(out, e, ctx) = stream_openai lib dump response pulls user m started request_id asked est"
  shows "\<exists>n \<le> length (chunks pulls). \<exists>final.
      out = map (\<lambda>c. ''data: '' @ dump c @ blank_line) (take n (chunks pulls)) @ final
      \<and> (e = SDone \<and> final = [chat_done_event] \<and> cx_status ctx = ''success''
         \<or> e = SDone \<and> final = [chat_timeout_event] \<and> cx_status ctx = ''timeout''
         \<or> e \<noteq> SDone \<and> final = [] \<and> cx_status ctx \<noteq> ''success'')"
proof -
  let ?st0 = "\<lparr>cs_usage = empty_usage, cs_channel = None, cs_upstream = None, cs_provider = None, cs_bytes = False,
      cs_ctx = base_context request_id user m started True None None None None est\<rparr>"
  let ?f = "\<lambda>c. ''data: '' @ dump c @ blank_line"
  obtain pe st out0 where run: "pump (chat_chunk dump) pulls ?st0 [] = (pe, st, out0)" by (metis prod_cases3)
  let ?I = "\<lambda>n st (out :: string list). out = map ?f (take n (chunks pulls))"
  have "\<exists>n \<le> length (chunks pulls). ?I n st out0 \<or> n < length (chunks pulls) \<and> pe = PRaise XOther \<and> ?I n st out0"
  proof (rule pump_invariant [OF run])
    fix n t c st st' d and out :: "string list"
    assume "n < length (chunks pulls)" "chunks pulls ! n = c" "out = map ?f (take n (chunks pulls))"
      "chat_chunk dump t c st = (st', Some d)"
    then show "out @ [d] = map ?f (take (Suc n) (chunks pulls))"
      using chat_chunk_yields by (simp add: take_Suc_conv_app_nth)
  qed auto
  then obtain n where n: "n \<le> length (chunks pulls)" and out0: "out0 = map ?f (take n (chunks pulls))" by blast
  have out: "out = (case pe of PTimeout \<Rightarrow> out0 @ [chat_timeout_event] | PEnd \<Rightarrow> out0 @ [chat_done_event] | _ \<Rightarrow> out0)"
    and e: "e = end_for_client pe" and s: "cx_status ctx = end_status pe"
    using assms run by (simp_all add: stream_openai_def Let_def with_usage_def set_usage_def split: prod.splits)
  show ?thesis
    by (rule exI [of _ n], simp only: n simp_thms,
        rule exI [of _ "case pe of PTimeout \<Rightarrow> [chat_timeout_event] | PEnd \<Rightarrow> [chat_done_event] | _ \<Rightarrow> []"])
       (cases pe; auto simp: out out0 e s end_for_client_def end_status_def usage_status_for_exception_def
          split: upstream_exc.splits)
qed

definition sample_chunk :: pyobj where
  "sample_chunk = PV (JObj [(''usage'', JObj [(''prompt_tokens'', JInt 3), (''completion_tokens'', JInt 4), (''total_tokens'', JInt 7)])])"

definition sample_caller :: caller where
  "sample_caller = \<lparr>au_user_id = 7, au_department_id = None, ca_api_key_id = None\<rparr>"

definition sample_chat where
  "sample_chat = stream_openai sample_library (\<lambda>_. ''{}'') (PV JNull) [(0, 1, UChunk sample_chunk), (1, 61, UIdle)]
     sample_caller sample_model 0 ''r1'' [] 100"

theorem chat_stream_terminator_witness:
  "fst (snd sample_chat) = SDone \<and> cx_status (snd (snd sample_chat)) = ''timeout'' \<and> last (fst sample_chat) = chat_timeout_event"
proof -
  obtain out e ctx where run: "(out, e, ctx) = sample_chat" by (metis prod_cases3)
  have s: "cx_status (snd (snd sample_chat)) = ''timeout''" by code_simp
  have d: "fst (snd sample_chat) = SDone" by code_simp
  have ctx: "cx_status ctx = ''timeout''" "e = SDone" using s d unfolding run [symmetric] by simp_all
  obtain n final where "out = map (\<lambda>c. ''data: '' @ ''{}'' @ blank_line) (take n (chunks [(0, 1, UChunk sample_chunk), (1, 61, UIdle)])) @ final"
    "final = [chat_timeout_event]"
    using chat_stream_terminator [OF run [unfolded sample_chat_def]] ctx by auto
  then show ?thesis unfolding run [symmetric] using ctx by simp
qed

section \<open>Native streams\<close>

text \<open>
  What is billed for a native stream is what was delivered. The bytes yielded are the chunks received,
  unchanged; the tokens recorded are those reported by the bytes yielded (and, when counting failed on a
  chunk, by that chunk as well, which is then not delivered and the client gets an upstream error).
\<close>

theorem native_stream_billing:
  assumes "(out, e, ctx) = stream_native (accumulate_usage event) timeout_event pulls ctx0"
  shows "\<exists>n \<le> length (chunks pulls). \<exists>k \<in> {n, Suc n}. \<exists>final.
      out = take n (chunks pulls) @ final \<and> final \<in> {[], [timeout_event]}
      \<and> (final = [timeout_event] \<longleftrightarrow> cx_status ctx = ''timeout'' \<and> e = SDone)
      \<and> (k = Suc n \<longrightarrow> e = SRaised (app_err EC_upstream_error 502))
      \<and> (let u = fst (snd (accumulate_usage event (concat (take k (chunks pulls))) (empty_usage, [])))
         in cx_prompt_tokens ctx = us_prompt u \<and> cx_completion_tokens ctx = us_completion u \<and> cx_total_tokens ctx = us_total u)"
proof -
  obtain pe st out0 where run: "pump (native_chunk (accumulate_usage event)) pulls (empty_usage, [], False, ctx0) [] = (pe, st, out0)"
    by (metis prod_cases3)
  let ?acc = "\<lambda>n. accumulate_usage event (concat (take n (chunks pulls))) (empty_usage, [])"
  let ?I = "\<lambda>n st (out :: string list). out = take n (chunks pulls) \<and> (case st of (u, b, _) \<Rightarrow> ?acc n = (True, u, b))"
  let ?J = "\<lambda>n st (out :: string list). out = take n (chunks pulls) \<and> fst (snd (?acc (Suc n))) = fst st"
  have grow: "concat (take (Suc n) (chunks pulls)) = concat (take n (chunks pulls)) @ c" if "n < length (chunks pulls)" "chunks pulls ! n = c" for n c
    using that by (simp add: take_Suc_conv_app_nth)
  have "\<exists>n \<le> length (chunks pulls). ?I n st out0 \<or> n < length (chunks pulls) \<and> pe = PRaise XOther \<and> ?J n st out0"
  proof (rule pump_invariant [OF run])
    show "?I 0 (empty_usage, [], False, ctx0) []" by (simp add: accumulate_nothing)
  next
    fix n t c st st' d and out :: "string list"
    assume a: "n < length (chunks pulls)" "chunks pulls ! n = c" and I: "?I n st out"
      and b: "native_chunk (accumulate_usage event) t c st = (st', Some d)"
    obtain u bf r where st: "st = (u, bf, r)" by (metis prod_cases3)
    have acc: "?acc n = (True, u, bf)" using I st by simp
    obtain u' b' where one: "accumulate_usage event c (u, bf) = (True, u', b')" and st': "fst st' = u'" "fst (snd st') = b'" and d: "d = c"
      using b st by (cases r) (auto simp: native_chunk_def split: prod.splits bool.splits)
    have "?acc (Suc n) = (True, u', b')" using accumulate_twice [OF acc, of c] one grow [OF a] by simp
    then show "?I (Suc n) st' (out @ [d])" using I a d st' by (cases st') (auto simp: take_Suc_conv_app_nth)
  next
    fix n t c st st' and out :: "string list"
    assume a: "n < length (chunks pulls)" "chunks pulls ! n = c" and I: "?I n st out"
      and b: "native_chunk (accumulate_usage event) t c st = (st', None)"
    obtain u bf r where st: "st = (u, bf, r)" by (metis prod_cases3)
    have acc: "?acc n = (True, u, bf)" using I st by simp
    obtain u' b' where one: "accumulate_usage event c (u, bf) = (False, u', b')" and st': "fst st' = u'"
      using b st by (cases r) (auto simp: native_chunk_def split: prod.splits bool.splits)
    have "?acc (Suc n) = (False, u', b')" using accumulate_twice [OF acc, of c] one grow [OF a] by simp
    then show "?J n st' out" using I st' by simp
  qed
  then obtain n k where n: "n \<le> length (chunks pulls)" and out0: "out0 = take n (chunks pulls)" and k: "k \<in> {n, Suc n}"
    and u: "fst (snd (?acc k)) = fst st" and late: "k = Suc n \<longrightarrow> pe = PRaise XOther"
    by (cases st) (force split: prod.splits)
  have out: "out = (if pe = PTimeout then out0 @ [timeout_event] else out0)" and e: "e = end_for_client pe"
    and ctx: "cx_status ctx = end_status pe" "cx_prompt_tokens ctx = us_prompt (fst st)"
      "cx_completion_tokens ctx = us_completion (fst st)" "cx_total_tokens ctx = us_total (fst st)"
    using assms run by (auto simp: stream_native_def Let_def with_usage_def set_usage_def split: prod.splits)
  let ?final = "if pe = PTimeout then [timeout_event] else []"
  have f: "?final = [timeout_event] \<longleftrightarrow> cx_status ctx = ''timeout'' \<and> e = SDone"
    by (cases pe) (auto simp: ctx e end_status_def end_for_client_def usage_status_for_exception_def split: upstream_exc.splits)
  have l: "k = Suc n \<longrightarrow> e = SRaised (app_err EC_upstream_error 502)"
    using late by (auto simp: e end_for_client_def upstream_error_def)
  have o: "out = take n (chunks pulls) @ ?final" "?final \<in> {[], [timeout_event]}" using out out0 by auto
  show ?thesis
    using n k o f l u ctx(2-4) by (intro exI [of _ n] conjI bexI [of _ k] exI [of _ ?final]) (simp_all add: Let_def)
qed

definition delta_chunk :: string where
  "delta_chunk = ''data: '' @ dumps (JObj [(''type'', JStr ''message_delta''), (''usage'', JObj [(''output_tokens'', JInt 5)])]) @ [CHR 0x0A]"

definition sample_native where
  "sample_native = stream_native (accumulate_usage anthropic_event) anthropic_timeout_event [(0, 1, UChunk delta_chunk), (1, 2, UEnd)]
     (base_context ''r1'' sample_caller sample_model 0 True None None None None 100)"

lemma delta_chunk_usage: "accumulate_usage anthropic_event delta_chunk (empty_usage, []) = (True, \<lparr>us_prompt = 0, us_completion = 5, us_total = 5\<rparr>, [])"
proof -
  let ?d = "[(''type'', JStr ''message_delta''), (''usage'', JObj [(''output_tokens'', JInt 5)])]"
  have lines: "split_lines delta_chunk = [''data: '' @ dumps (JObj ?d), []]" unfolding delta_chunk_def by code_simp
  have "loads (dumps (JObj ?d)) = Some (JObj ?d)" by (rule loads_dumps) simp
  then have "sse_line anthropic_event (''data: '' @ dumps (JObj ?d)) empty_usage = anthropic_event ?d empty_usage"
    by (rule sample_stream_line)
  also have "\<dots> = Some \<lparr>us_prompt = 0, us_completion = 5, us_total = 5\<rparr>" by code_simp
  finally show ?thesis unfolding accumulate_usage_def using lines by simp
qed

theorem native_stream_billing_witness:
  "cx_total_tokens (snd (snd sample_native)) = 5"
proof -
  obtain out e ctx where run: "(out, e, ctx) = sample_native" by (metis prod_cases3)
  have pump: "pump (native_chunk (accumulate_usage anthropic_event)) [(0, 1, UChunk delta_chunk), (1, 2, UEnd)] (empty_usage, [], False, c) []
      = (PEnd, (\<lparr>us_prompt = 0, us_completion = 5, us_total = 5\<rparr>, [], True, record_ttft 1 c), [delta_chunk])" for c
    by (simp add: native_chunk_def delta_chunk_usage STREAM_MAX_DURATION_SECONDS_def) (simp add: delta_chunk_def)
  have out: "out = [delta_chunk]" "e = SDone"
    using run unfolding sample_native_def stream_native_def Let_def pump by (simp_all add: end_for_client_def)
  have ch: "chunks [(0 :: rat, 1 :: rat, UChunk delta_chunk), (1, 2, UEnd)] = [delta_chunk]" by (simp add: chunks_def map_filter_simps)
  obtain n k final where n: "n \<le> length [delta_chunk]" and k: "k \<in> {n, Suc n}" "k = Suc n \<longrightarrow> e = SRaised (app_err EC_upstream_error 502)"
    and o: "out = take n [delta_chunk] @ final" "final \<in> {[], [anthropic_timeout_event]}"
    and u: "let u = fst (snd (accumulate_usage anthropic_event (concat (take k [delta_chunk])) (empty_usage, [])))
         in cx_prompt_tokens ctx = us_prompt u \<and> cx_completion_tokens ctx = us_completion u \<and> cx_total_tokens ctx = us_total u"
    using native_stream_billing [OF run [unfolded sample_native_def]] unfolding ch by blast
  have "delta_chunk \<noteq> anthropic_timeout_event" by code_simp
  with o out have "n = 1" using n by (cases n) auto
  then show ?thesis using u k out unfolding run [symmetric] by (auto simp: delta_chunk_usage Let_def)
qed

section \<open>The slot\<close>

lemma release_frees:
  assumes "r_wire s = []"
  shows "r_wire (release_concurrent now m rs s) = []
    \<and> (\<forall>k. fst ` set (redis_zset now k (release_concurrent now m rs s)) \<subseteq> fst ` set (redis_zset now k s))
    \<and> (\<forall>k m'. m' \<noteq> m \<longrightarrow> m' \<in> fst ` set (redis_zset now k s) \<longrightarrow> m' \<in> fst ` set (redis_zset now k (release_concurrent now m rs s)))
    \<and> (\<forall>r\<in>set rs. rl_max_concurrent r \<noteq> None \<longrightarrow> m \<notin> fst ` set (redis_zset now (conc_key r) (release_concurrent now m rs s)))"
  using assms
proof (induction rs arbitrary: s)
  case (Cons r rs)
  let ?t = "redis_zrem now (conc_key r) m s"
  have z: "redis_zset now k ?t = (if k = conc_key r then filter (\<lambda>(m', _). m' \<noteq> m) (redis_zset now k s) else redis_zset now k s)" for k
    using rz.zset_zrem [of now now "conc_key r" m s] rz.zset_other(3) [of "conc_key r" k now now m s] by auto
  show ?case
  proof (cases "rl_max_concurrent r")
    case None
    with Cons show ?thesis by auto
  next
    case (Some l)
    have w: "r_wire ?t = []" using Cons.prems by simp
    have run: "release_concurrent now m (r # rs) s = release_concurrent now m rs ?t"
      using Some Cons.prems by (simp add: ruse_def)
    note IH = Cons.IH [OF w]
    have sub: "fst ` set (redis_zset now k ?t) \<subseteq> fst ` set (redis_zset now k s)" for k unfolding z by auto
    have keep: "m' \<noteq> m \<Longrightarrow> m' \<in> fst ` set (redis_zset now k s) \<Longrightarrow> m' \<in> fst ` set (redis_zset now k ?t)" for k m'
      unfolding z by force
    have gone: "m \<notin> fst ` set (redis_zset now (conc_key r) ?t)" unfolding z by auto
    have a: "fst ` set (redis_zset now k (release_concurrent now m rs ?t)) \<subseteq> fst ` set (redis_zset now k s)" for k
      using IH sub by (meson subset_trans)
    have b: "m' \<in> fst ` set (redis_zset now k (release_concurrent now m rs ?t))" if "m' \<noteq> m" "m' \<in> fst ` set (redis_zset now k s)" for k m'
      using IH keep [OF that] that(1) by blast
    have c: "m \<notin> fst ` set (redis_zset now (conc_key r') (release_concurrent now m rs ?t))"
      if "r' \<in> set (r # rs)" "rl_max_concurrent r' \<noteq> None" for r'
    proof (cases "r' = r")
      case True
      then show ?thesis using IH gone by blast
    next
      case False
      then show ?thesis using IH that by simp
    qed
    have d: "r_wire (release_concurrent now m rs ?t) = []" using IH by blast
    show ?thesis unfolding run using a b c d by blast
  qed
qed auto

lemma conc_no_deadline: "\<not> deadline_key (conc_key r)"
  by (auto simp: deadline_key_def conc_key_def tpm_key_def bucket_key_def BUCKET_PREFIX_def)

text \<open>
  C39. A finished stream holds no slot. On a healthy connection, after the cleanup of a stream its member is
  in the semaphore of no rule it ran under, however the stream ended, and the slots of other
  streams are as they were.
\<close>

theorem stream_frees_slot:
  assumes "r_wire (fst st) = []" and "r \<in> set rules" and "rl_max_concurrent r \<noteq> None"
    and "(ctx', st', ms) = finalize_stream hs now mclock exc ctx m member rules rs st"
  shows "member \<notin> fst ` set (redis_zset now (conc_key r) (fst st'))
    \<and> (\<forall>other. other \<noteq> member \<longrightarrow> (other \<in> fst ` set (redis_zset now (conc_key r) (fst st'))
          \<longleftrightarrow> other \<in> fst ` set (redis_zset now (conc_key r) (fst st))))"
proof -
  let ?s = "release_concurrent now member rules (fst st)"
  have "rules \<noteq> []" using assms(2) by auto
  then have "finalize_gateway_request hs now mclock exc (Some m) True rules rs ctx (?s, snd st) = (ctx', st', ms)"
    using assms(4) by (simp add: finalize_stream_def)
  from zf.R_finalize [OF this] have z: "redis_zset now (conc_key r) (fst st') = redis_zset now (conc_key r) ?s"
    using conc_no_deadline by (simp add: same_zsets_def)
  show ?thesis unfolding z using release_frees [OF assms(1), of now member rules] assms(2,3) by blast
qed

definition stream_rule :: rl_rule where
  "stream_rule = \<lparr>rl_id = 1, rl_subject_type = ''user'', rl_subject_id = Some 7, rl_model_id = None, rl_rpm_limit = None,
     rl_tpm_limit = None, rl_tpm_burst = None, rl_max_concurrent = Some 2\<rparr>"

definition two_streams :: redis where
  "two_streams = redis_zadd 0 (conc_key stream_rule) 0 ''b'' (redis_zadd 0 (conc_key stream_rule) 0 ''a'' empty_redis)"

theorem stream_frees_slot_witness:
  "\<exists>ctx' st' ms. (ctx', st', ms) = finalize_stream default_health 1000 1 ''e'' (base_context ''r1'' sample_caller sample_model 0 True None None None None 100)
      sample_model ''a'' [stream_rule] [] (two_streams, \<lambda>_. [])
    \<and> ''a'' \<notin> fst ` set (redis_zset 1000 (conc_key stream_rule) (fst st'))
    \<and> ''b'' \<in> fst ` set (redis_zset 1000 (conc_key stream_rule) (fst st'))"
proof -
  obtain ctx' st' ms where run: "(ctx', st', ms) = finalize_stream default_health 1000 1 ''e''
      (base_context ''r1'' sample_caller sample_model 0 True None None None None 100) sample_model ''a'' [stream_rule] [] (two_streams, \<lambda>_. [])"
    by (metis prod_cases3)
  have w: "r_wire (fst (two_streams, \<lambda>_. [])) = []" by (simp add: two_streams_def empty_redis_def)
  have r: "stream_rule \<in> set [stream_rule]" "rl_max_concurrent stream_rule \<noteq> None" by (simp_all add: stream_rule_def)
  have b: "''b'' \<in> fst ` set (redis_zset 1000 (conc_key stream_rule) (fst (two_streams, \<lambda>_. [])))" by code_simp
  have ne: "''b'' \<noteq> ''a''" by simp
  note free = stream_frees_slot [OF w r run]
  have "''b'' \<in> fst ` set (redis_zset 1000 (conc_key stream_rule) (fst st'))"
    using free [THEN conjunct2, THEN spec, THEN mp, OF ne] b by (simp only:)
  with free [THEN conjunct1] run show ?thesis by (intro exI conjI)
qed

end
