(* ===== verification/HandlerFacts.thy ===== *)
theory HandlerFacts
  imports GateFrames StreamFacts
begin

text \<open>
  The endpoints end to end: what the gates admit and what a refusal leaves, what an answered and a failed
  request are charged, which models a caller sees; and the paths on which a reservation is lost.
\<close>

section \<open>A refusal by the quota gives the rate limits back\<close>

lemma gate_inv_same_limits:
  assumes "gate_inv q s0 C acc s" and "same_limits (rq_now q) s s'" and "r_wire s' = []"
  shows "gate_inv q s0 C acc s'"
proof -
  have "rpm_held q a r s' = rpm_held q a r s" "conc_held q a r s' = conc_held q a r s" "tpm_held q s0 a r s' = tpm_held q s0 a r s" for a r
    using assms(2) by (simp_all add: same_limits_def held_same_at)
  with assms(1,3) show ?thesis by (simp add: gate_inv_def)
qed

lemma rolled_back_no_trace:
  assumes inv: "gate_inv q s0 C acc s" and ids: "distinct (map rl_id (rq_rules q))" and est: "0 < rq_estimate q"
    and all: "\<forall>r\<in>set (rq_rules q). rl_tpm_limit r \<noteq> None \<longrightarrow> r \<in> set (la_tpm_acquired acc)"
  shows "no_trace q s0 (rollback_rate_limit_reservations (rq_now q) (rq_member q) (rq_rules q) (rq_estimate q) s)"
proof -
  let ?n = "rq_now q" and ?m = "rq_member q" and ?rs = "rq_rules q"
  define s1 where "s1 = snd (settle_tpm_loop ?n (rq_estimate q) ?rs s)"
  define s2 where "s2 = release_rpm ?n ?m ?rs s1"
  define s3 where "s3 = release_concurrent ?n ?m ?rs s2"
  have w: "r_wire s = []" using inv by (simp add: gate_inv_def)
  note settle = settle_loop_healthy [OF w ids, of ?n "rq_estimate q", folded s1_def]
  then have w1: "r_wire s1 = []" by blast
  note rpm = release_rpm_healthy [OF w1, of ?n ?m ?rs, folded s2_def]
  then have w2: "r_wire s2 = []" by blast
  note conc = release_concurrent_healthy [OF w2, of ?n ?m ?rs, folded s3_def]
  have s3: "rollback_rate_limit_reservations ?n ?m ?rs (rq_estimate q) s = (if ?rs = [] then s else s3)"
    using est by (simp add: rollback_rate_limit_reservations_def settle_tpm_def s1_def s2_def s3_def)
  have "\<not> holds ?n (rpm_key r) ?m s3 \<and> \<not> holds ?n (conc_key r) ?m s3 \<and> bucket_level ?n r s3 = bucket_level ?n r s0"
    if r: "r \<in> set ?rs" for r
  proof (intro conjI)
    have pre: "same_at ?n (rpm_key r) s s1" "same_at ?n (conc_key r) s s1"
      using settle by simp_all
    have held: "rpm_held q (r \<in> set (la_rpm_acquired acc)) r s" "conc_held q (r \<in> C) r s" "tpm_held q s0 (r \<in> set (la_tpm_acquired acc)) r s"
      using inv r by (simp_all add: gate_inv_def)
    have "\<not> holds ?n (rpm_key r) ?m s2"
    proof (cases "rl_rpm_limit r = None")
      case True
      then have "r \<notin> set (la_rpm_acquired acc)" using inv unfolding gate_inv_def by blast
      then have "\<not> holds ?n (rpm_key r) ?m s" using held(1) by (simp add: rpm_held_def)
      then have "\<not> holds ?n (rpm_key r) ?m s1" using pre(1) by (simp add: holds_def same_at_def)
      then show ?thesis using rpm by blast
    qed (use rpm r in auto)
    then show "\<not> holds ?n (rpm_key r) ?m s3" using conc by blast
    show "\<not> holds ?n (conc_key r) ?m s3"
    proof (cases "rl_max_concurrent r = None")
      case True
      then have "r \<notin> C" using inv unfolding gate_inv_def by blast
      then have "\<not> holds ?n (conc_key r) ?m s" using held(2) by (simp add: conc_held_def)
      then have "\<not> holds ?n (conc_key r) ?m s1" using pre(2) by (simp add: holds_def same_at_def)
      then have "\<not> holds ?n (conc_key r) ?m s2" using rpm by blast
      then show ?thesis using conc by blast
    qed (use conc r in auto)
    have "same_at ?n (tpm_key r) s1 s2" "same_at ?n (tpm_key r) s2 s3" using rpm conc by simp_all
    then have same: "bucket_level ?n r s3 = bucket_level ?n r s1"
      by (simp add: bucket_level_def same_at_def split: option.splits)
    show "bucket_level ?n r s3 = bucket_level ?n r s0"
    proof (cases "rl_tpm_limit r")
      case None
      then show ?thesis by (simp add: bucket_level_def)
    next
      case (Some l)
      have "bucket_level ?n r s0 \<le> tpm_burst_of r l" using tpm_level_le Some by (simp add: bucket_level_def)
      then show ?thesis using settle Some r held(3) all unfolding same
        by (simp add: bucket_level_def tpm_held_def Let_def tpm_level_def)
    qed
  qed
  then show ?thesis by (simp add: no_trace_def s3)
qed

section \<open>The gates\<close>

lemma healthy_reads:
  assumes "r_wire s = []"
  shows "get_generation now k s = (redis_count now k s, s)"
    and "snd (read_generations now a b c s) = s"
    and "snd (read_entry now k s) = s"
proof -
  show g: "get_generation now k s = (redis_count now k s, s)" for k
    using assms by (simp add: get_generation_def rread_def redis_count_def split: option.split)
  show "snd (read_generations now a b c s) = s" by (simp add: read_generations_def g)
  show "snd (read_entry now k s) = s"
    using assms by (simp add: read_entry_def rread_def split: option.split)
qed

lemma active_quotas_healthy:
  assumes "r_wire s = []" and "get_active_quotas_cached now draw u d m db s = (r, s')" and "starts_with ''quota:'' k"
  shows "r_wire s' = [] \<and> redis_count now k s' = redis_count now k s"
proof -
  have gens: "snd (quota_generations now u d s) = s" by (simp add: quota_generations_def healthy_reads [OF assms(1)])
  obtain g where g: "quota_generations now u d s = (g, s)" using gens by (metis prod.collapse)
  obtain c where c: "get_cached_quota_config now u d m s = (c, s)"
    using healthy_reads(3) [OF assms(1)] by (metis g get_cached_quota_config_def prod.case prod.collapse)
  have key: "quota_cache_key g u (or_int d 0) m \<noteq> k"
    using assms(3) by (auto simp: quota_cache_key_def versioned_key_def starts_with_def split: prod.splits)
  have set: "set_cached_quota_config now draw u d m v s = redis_set now (quota_cache_key g u (or_int d 0) m) (dumps v) (Some (cache_ttl draw)) s" for v
    using assms(1) by (simp add: set_cached_quota_config_def g write_entry_def ruse_def)
  have "s' = s \<or> (\<exists>v. s' = set_cached_quota_config now draw u d m v s)"
    using assms(2) unfolding get_active_quotas_cached_def c Let_def prod.case by (auto split: if_splits json.splits)
  then show ?thesis using assms(1) count_after_set [OF key] unfolding set by auto
qed

lemma quota_not_rate: "starts_with ''quota:'' k \<Longrightarrow> \<not> rate_key k"
  by (cases k) (auto simp: rate_key_def starts_with_def)

definition gate_request :: "env \<Rightarrow> caller \<Rightarrow> int \<Rightarrow> bool \<Rightarrow> int \<Rightarrow> catalog_db \<Rightarrow> rl_req" where
  "gate_request ev user model_id stream estimated_tokens db =
     \<lparr>rq_now = ev_ms ev, rq_member = ev_member ev,
      rq_rules = get_rate_limit_rules (ev_db_ok ev) (au_user_id user) (au_department_id user) model_id (ca_api_key_id user) db,
      rq_estimate = estimated_tokens, rq_stream = stream\<rparr>"

text \<open>What a rule has of an admitted request.\<close>

definition within_limits :: "rl_req \<Rightarrow> redis \<Rightarrow> rl_rule \<Rightarrow> redis \<Rightarrow> bool" where
  "within_limits q s r s' \<longleftrightarrow>
     (\<forall>l. rl_rpm_limit r = Some l \<longrightarrow> holds (rq_now q) (rpm_key r) (rq_member q) s'
            \<and> int (length (redis_zset (rq_now q) (rpm_key r) s')) \<le> l)
     \<and> (\<forall>l. rl_tpm_limit r = Some l \<longrightarrow>
            bucket_level (rq_now q) r s' = bucket_level (rq_now q) r s - rq_estimate q \<and> 0 \<le> bucket_level (rq_now q) r s')
     \<and> (\<forall>l. rl_max_concurrent r = Some l \<longrightarrow> rq_stream q \<longrightarrow> holds (rq_now q) (conc_key r) (rq_member q) s'
            \<and> int (length (redis_zset (rq_now q) (conc_key r) s')) \<le> l)"

lemma within_same_limits: "within_limits q s r s' \<Longrightarrow> same_limits (rq_now q) s' s'' \<Longrightarrow> within_limits q s r s''"
proof -
  assume w: "within_limits q s r s'" and l: "same_limits (rq_now q) s' s''"
  then have "same_at (rq_now q) (rpm_key r) s' s''" "same_at (rq_now q) (conc_key r) s' s''" "same_at (rq_now q) (tpm_key r) s' s''"
    by (simp_all add: same_limits_def)
  moreover from this(3) have "bucket_level (rq_now q) r s'' = bucket_level (rq_now q) r s'"
    by (simp add: bucket_level_def same_at_def split: option.split)
  ultimately have "within_limits q s r s'' = within_limits q s r s'"
    by (simp only: within_limits_def holds_def same_at_def)
  with w show ?thesis by simp
qed

lemma rate_gate_healthy:
  assumes fresh: "fresh_req (gate_request ev user i stream est db) (fst (gw_es g))" and est: "0 < est"
    and run: "rate_gate ev user i stream est db g = (r, g')"
  shows "same_counters (ev_ms ev) (fst (gw_es g)) (fst (gw_es g')) \<and> same_queues (ev_ms ev) (fst (gw_es g)) (fst (gw_es g'))
    \<and> snd (gw_es g') = snd (gw_es g) \<and> gw_metrics g' = gw_metrics g
    \<and> (let q = gate_request ev user i stream est db; s = fst (gw_es g); s' = fst (gw_es g') in
       case r of
         ROk rules \<Rightarrow> rules = rq_rules q \<and> r_wire s' = [] \<and> (\<forall>r\<in>set rules. within_limits q s r s')
           \<and> (\<exists>C acc. gate_inv q s C acc s' \<and> (\<forall>r\<in>set rules. rl_tpm_limit r \<noteq> None \<longrightarrow> r \<in> set (la_tpm_acquired acc)))
       | _ \<Rightarrow> no_trace q s s')"
proof -
  define q where "q = gate_request ev user i stream est db"
  define s where "s = fst (gw_es g)"
  have q: "rq_now q = ev_ms ev" "rq_member q = ev_member ev" "rq_estimate q = est" "rq_stream q = stream"
    "rq_rules q = get_rate_limit_rules (ev_db_ok ev) (au_user_id user) (au_department_id user) i (ca_api_key_id user) db"
    by (simp_all add: q_def gate_request_def)
  have fresh': "fresh_req q s" using fresh by (simp add: q_def s_def)
  obtain res s' w' where c: "check_rate_limits q (s, gw_em g) = (res, s', w')" by (metis prod_cases3)
  show ?thesis
  proof (cases "rq_rules q = []")
    case True
    then have "r = ROk []" "g' = g" using run q(5) by (simp_all add: rate_gate_def Let_def)
    moreover have "gate_inv q s {} rl_acc0 s" by (rule gate_inv_start [OF fresh'])
    ultimately show ?thesis unfolding q_def [symmetric] s_def [symmetric] Let_def using True fresh'
      by (auto simp: fresh_req_def s_def intro: kc.R_refl kqr.R_refl)
  next
    case False
    have req: "\<lparr>rq_now = ev_ms ev, rq_member = ev_member ev,
        rq_rules = rq_rules q, rq_estimate = est, rq_stream = stream\<rparr> = q" by (simp add: q_def gate_request_def)
    have g': "r = (if rr_allowed res then ROk (rq_rules q) else RErr (app_err EC_rate_limit_exceeded 429))"
      "g' = g\<lparr>gw_es := (s', snd (gw_es g)), gw_em := w'\<rparr>"
      using run False c unfolding rate_gate_def Let_def q(5) [symmetric] req s_def [symmetric] by auto
    have frames: "same_counters (ev_ms ev) s s'" "same_queues (ev_ms ev) s s'"
      using kc.R_check [OF c] kqr.R_check [OF c] q(1) by simp_all
    show ?thesis
    proof (cases "rr_allowed res")
      case no: False
      then show ?thesis using denied_no_trace [OF fresh' c no] frames g' unfolding q_def [symmetric] s_def [symmetric] by simp
    next
      case ok: True
      obtain g0 t where rules: "check_rules q (rq_rules q) rl_acc0 s = (g0, t)" by force
      note post = check_rules_healthy [OF fresh' rules]
      obtain acc where g0: "g0 = GPass acc"
        using c ok rules post by (cases g0) (auto simp: check_rate_limits_def loop_post_def)
      with c rules have t: "t = s'" by (auto simp: check_rate_limits_def)
      obtain C where inv: "gate_inv q s C acc s'" and tpm: "\<forall>r\<in>set (rq_rules q). rl_tpm_limit r \<noteq> None \<longrightarrow> r \<in> set (la_tpm_acquired acc)"
        using post g0 t est q(3) by (auto simp: loop_post_def)
      have "0 < rq_estimate q" using est q(3) by simp
      then have "within_limits q s r s'" if "r \<in> set (rq_rules q)" for r
        using admitted_within [OF fresh' c ok that] unfolding within_limits_def by blast
      moreover have "r_wire s' = []" using inv by (simp add: gate_inv_def)
      moreover have "\<exists>C acc. gate_inv q s C acc s' \<and> (\<forall>r\<in>set (rq_rules q). rl_tpm_limit r \<noteq> None \<longrightarrow> r \<in> set (la_tpm_acquired acc))"
        using inv tpm by blast
      ultimately show ?thesis using frames g' ok unfolding q_def [symmetric] s_def [symmetric] by simp
    qed
  qed
qed

lemma quota_gate_healthy:
  assumes w: "r_wire (fst (gw_es g)) = []" and k: "starts_with ''quota:'' k"
    and run: "quota_gate ev user m est rules db g = (r, g')"
  shows "snd (gw_es g') = snd (gw_es g) \<and> gw_metrics g' = gw_metrics g \<and> same_queues (ev_ms ev) (fst (gw_es g)) (fst (gw_es g'))
    \<and> (case r of
         ROk (ws, rs) \<Rightarrow> r_wire (fst (gw_es g')) = [] \<and> same_limits (ev_ms ev) (fst (gw_es g)) (fst (gw_es g'))
           \<and> redis_count (ev_ms ev) k (fst (gw_es g')) = redis_count (ev_ms ev) k (fst (gw_es g)) + reserved_at k rs
       | _ \<Rightarrow> redis_count (ev_ms ev) k (fst (gw_es g')) = redis_count (ev_ms ev) k (fst (gw_es g))
           \<and> (\<exists>t. r_wire t = [] \<and> same_limits (ev_ms ev) (fst (gw_es g)) t
                \<and> fst (gw_es g') = rollback_rate_limit_reservations (ev_ms ev) (ev_member ev) rules est t))"
proof -
  let ?n = "ev_ms ev" and ?s = "fst (gw_es g)" and ?u = "au_user_id user" and ?d = "au_department_id user"
  obtain a s1 where a: "get_active_quotas_cached ?n (snd (ev_draw ev)) ?u ?d (lm_id m) db ?s = (a, s1)" by (metis prod.collapse)
  note act = active_quotas_healthy [OF w a k]
  obtain x s2 where x: "check_quota (ev_scripts ev) (ev_now ev) (snd (ev_draw ev)) ?u ?d (lm_id m) est (compute_cost m est 0) db ?s = (x, s2)"
    by (metis prod.collapse)
  have frames: "same_limits ?n ?s s2" "same_queues ?n ?s s2" using kl.R_check_quota [OF x] kqq.R_check_quota [OF x] by simp_all
  have chk: "r_wire s2 = [] \<and> (case x of ROk (ws, rs) \<Rightarrow> redis_count ?n k s2 = redis_count ?n k ?s + reserved_at k rs
      | _ \<Rightarrow> redis_count ?n k s2 = redis_count ?n k ?s)"
  proof (cases a)
    case (ROk quotas)
    obtain out s3 where c: "check_and_increment (ev_scripts ev) (ev_now ev) ?u ?d quotas est (compute_cost m est 0) s1 = (out, s3)"
      by (metis prod.collapse)
    have "r_wire s1 = []" using act by blast
    from check_and_increment_healthy [OF this c] have h: "r_wire s3 = []" "quota_spec (ev_now ev) ?u ?d quotas s1 out s3" by simp_all
    then show ?thesis using x a ROk c act by (cases out) (auto simp: check_quota_def quota_spec_def Let_def)
  qed (use x a act in \<open>auto simp: check_quota_def\<close>)
  have roll: "same_counters ?n s2 (rollback_rate_limit_reservations ?n (ev_member ev) rules est s2)"
    "same_queues ?n s2 (rollback_rate_limit_reservations ?n (ev_member ev) rules est s2)"
    by (rule kc.R_rollback_reservations, rule kqr.R_rollback_reservations)
  note nk = quota_not_rate [OF k]
  show ?thesis
  proof (cases x)
    case (ROk p)
    then show ?thesis using run x chk frames by (cases p) (auto simp: quota_gate_def)
  next
    case (RErr e)
    then have g': "r = RErr e" "g' = g\<lparr>gw_es := (rollback_rate_limit_reservations ?n (ev_member ev) rules est s2, snd (gw_es g))\<rparr>"
      using run x by (auto simp: quota_gate_def)
    show ?thesis using RErr g' chk frames roll nk kqr.R_trans [OF frames(2) roll(2)] by (auto simp: same_counters_def)
  next
    case RCrash
    then have g': "r = RCrash" "g' = g\<lparr>gw_es := (rollback_rate_limit_reservations ?n (ev_member ev) rules est s2, snd (gw_es g))\<rparr>"
      using run x by (auto simp: quota_gate_def)
    show ?thesis using RCrash g' chk frames roll nk kqr.R_trans [OF frames(2) roll(2)] by (auto simp: same_counters_def)
  qed
qed


section \<open>What a request is charged\<close>

lemma gates_passed:
  assumes "fresh_req (gate_request ev user (lm_id m) stream est db) (fst (gw_es g))" and "0 < est"
    and "starts_with ''quota:'' k" and "pass_gates ev user m stream est db g = (ROk (rules, ws, rs), g')"
  shows "r_wire (fst (gw_es g')) = [] \<and> snd (gw_es g') = snd (gw_es g)
    \<and> redis_count (ev_ms ev) k (fst (gw_es g')) = redis_count (ev_ms ev) k (fst (gw_es g)) + reserved_at k rs"
proof -
  obtain x g1 where x: "rate_gate ev user (lm_id m) stream est db g = (x, g1)" by (metis prod.collapse)
  with assms(4) obtain rules1 where rules1: "x = ROk rules1" by (cases x) (auto simp: pass_gates_def)
  note rate = rate_gate_healthy [OF assms(1,2) x [unfolded rules1]]
  then have w: "r_wire (fst (gw_es g1)) = []" by (simp add: Let_def)
  have y: "quota_gate ev user m est rules1 db g1 = (ROk (ws, rs), g')" and "rules1 = rules"
    using assms(4) x rules1 by (auto simp: pass_gates_def split: res.splits prod.splits)
  show ?thesis using quota_gate_healthy [OF w assms(3) y] rate quota_not_rate [OF assms(3)] by (simp add: same_counters_def)
qed

lemma quota_foreign: "starts_with ''quota:'' k \<Longrightarrow> foreign k"
  by (cases k) (auto simp: foreign_def starts_with_def)

text \<open>The context of a request about to be settled.\<close>

definition unsettled :: "gctx \<Rightarrow> bool" where
  "unsettled c \<longleftrightarrow> cx_quota_reserved c \<and> \<not> cx_quota_settled c \<and> cx_quota_reservations c = []"

definition charge_at :: "string \<Rightarrow> model_core \<Rightarrow> usage \<Rightarrow> quota_reservation list \<Rightarrow> int" where
  "charge_at k m u rs =
     (if us_prompt u = 0 \<and> us_completion u = 0 then 0 else used_at k (us_total u) (compute_cost m (us_prompt u) (us_completion u)) rs)"

text \<open>One usage event, with these tokens and this status, has joined the queue.\<close>

definition one_event :: "env \<Rightarrow> caller \<Rightarrow> model_core \<Rightarrow> usage \<Rightarrow> string \<Rightarrow> gw \<Rightarrow> gw \<Rightarrow> bool" where
  "one_event ev user m u status g g' \<longleftrightarrow>
     (\<exists>c. backlog (ev_end ev) USAGE_QUEUE_KEY (gw_es g')
            = backlog (ev_end ev) USAGE_QUEUE_KEY (gw_es g) @ [dumps (JObj (usage_payload (compute_cost m (us_prompt u) (us_completion u)) c))]
        \<and> cx_request_id c = ev_request_id ev \<and> cx_user_id c = au_user_id user \<and> cx_status c = status
        \<and> cx_prompt_tokens c = us_prompt u \<and> cx_completion_tokens c = us_completion u \<and> cx_total_tokens c = us_total u)"

lemma finish_accounts:
  assumes "r_wire (fst (gw_es g)) = []" and "starts_with ''quota:'' k"
    and "length (snd (gw_es g) USAGE_QUEUE_KEY) < OUTBOX_MAX_PER_QUEUE" and "unsettled ctx"
    and "cx_request_id ctx = ev_request_id ev" and "cx_user_id ctx = au_user_id user"
    and "u = \<lparr>us_prompt = cx_prompt_tokens ctx, us_completion = cx_completion_tokens ctx, us_total = cx_total_tokens ctx\<rparr>"
  shows "redis_count (ev_end ev) k (fst (gw_es (finish ev ctx m rules rs g)))
      = redis_count (ev_end ev) k (fst (gw_es g)) - reserved_at k rs + charge_at k m u rs
    \<and> one_event ev user m u (cx_status ctx) g (finish ev ctx m rules rs g)"
proof -
  obtain s boxes where st: "gw_es g = (s, boxes)" by force
  obtain c' st' ms where f: "finalize_gateway_request (ev_health ev) (ev_end ev) (ev_finished ev) (ev_exc ev) (Some m) True rules rs ctx (s, boxes) = (c', st', ms)"
    by (metis prod_cases3)
  have g': "gw_es (finish ev ctx m rules rs g) = st'" by (simp add: finish_def st f)
  have w: "r_wire s = []" and box: "length (boxes USAGE_QUEUE_KEY) < OUTBOX_MAX_PER_QUEUE" using assms(1,3) st by simp_all
  have c: "cx_quota_reserved ctx" "\<not> cx_quota_settled ctx" "rs \<noteq> [] \<or> cx_quota_reservations ctx = []"
    using assms(4) by (simp_all add: unsettled_def)
  show ?thesis
    using finalized_charge [OF w quota_foreign [OF assms(2)] c f] finalized_event [OF w box f] assms(5-7)
    unfolding one_event_def g' st charge_at_def by (auto simp: model_cost_def)
qed

lemma contexts_unsettled [simp]:
  "unsettled (with_usage u (base_context rid user m t b ch um pv dg est))"
  "unsettled (with_usage u ((base_context rid user m t b ch um pv dg est)\<lparr>cx_cache_hit := True\<rparr>))"
  "unsettled (mark_error st code e1 e2 (base_context rid user m t b ch um pv dg est))"
  by (simp_all add: unsettled_def with_usage_def set_usage_def base_context_def new_ctx_def mark_error_def Let_def split: option.split)

lemma context_fields [simp]:
  "cx_request_id (base_context rid user m t b ch um pv dg est) = rid"
  "cx_user_id (base_context rid user m t b ch um pv dg est) = au_user_id user"
  "cx_status (base_context rid user m t b ch um pv dg est) = usage_status_value US_success"
  "cx_prompt_tokens (base_context rid user m t b ch um pv dg est) = 0"
  "cx_completion_tokens (base_context rid user m t b ch um pv dg est) = 0"
  "cx_total_tokens (base_context rid user m t b ch um pv dg est) = 0"
  "cx_request_id (with_usage u c) = cx_request_id c" "cx_user_id (with_usage u c) = cx_user_id c" "cx_status (with_usage u c) = cx_status c"
  "cx_prompt_tokens (with_usage u c) = us_prompt u" "cx_completion_tokens (with_usage u c) = us_completion u" "cx_total_tokens (with_usage u c) = us_total u"
  "cx_request_id (mark_error st code e1 e2 c) = cx_request_id c" "cx_user_id (mark_error st code e1 e2 c) = cx_user_id c"
  "cx_status (mark_error st code e1 e2 c) = st" "cx_prompt_tokens (mark_error st code e1 e2 c) = cx_prompt_tokens c"
  "cx_completion_tokens (mark_error st code e1 e2 c) = cx_completion_tokens c" "cx_total_tokens (mark_error st code e1 e2 c) = cx_total_tokens c"
  by (simp_all add: base_context_def new_ctx_def with_usage_def set_usage_def mark_error_def Let_def split: option.split)

text \<open>Storing a response in the cache moves no quota counter and no queue.\<close>

definition same_quotas :: "int \<Rightarrow> redis \<Rightarrow> redis \<Rightarrow> bool" where
  "same_quotas now s s' \<longleftrightarrow> (\<forall>k. starts_with ''quota:'' k \<longrightarrow> redis_count now k s' = redis_count now k s)"

lemma cached_elsewhere:
  "same_quotas now s (set_cached_response now i f d ttl s) \<and> same_queues now s (set_cached_response now i f d ttl s)"
proof -
  obtain g s1 where g: "get_generation now CATALOG_GEN_KEY s = (g, s1)" by force
  obtain r s' where r: "rcall (rread (redis_get_int now CATALOG_GEN_KEY)) s = (r, s')" by force
  have "s1 = s'" using g r by (auto simp: get_generation_def split: option.splits)
  then have "untouched now s s1" using untouched_rread r by (metis snd_conv)
  then have 1: "same_quotas now s s1" by (simp add: same_quotas_def untouched_def quota_foreign)
  let ?k = "response_cache_key g i f"
  have k: "\<not> starts_with ''quota:'' ?k" "\<not> queue_key ?k"
    by (simp_all add: response_cache_key_def starts_with_def queue_key_def)
  then have other: "\<And>k. starts_with ''quota:'' k \<Longrightarrow> ?k \<noteq> k" by auto
  obtain x s2 where x: "rcall (ruse (redis_set now ?k (dumps (JObj d)) (Some (or_int ttl DEFAULT_RESPONSE_CACHE_TTL)))) s1 = (x, s2)" by force
  have 2: "same_quotas now s1 s2" unfolding same_quotas_def
  proof (intro allI impI)
    fix k assume "starts_with ''quota:'' k"
    note set = count_after_set [OF other [OF this]]
    have wire: "redis_count now k (t\<lparr>r_wire := ws\<rparr>) = redis_count now k t" for t ws
      by (simp add: redis_count_def redis_get_int_def expired_def)
    show "redis_count now k s2 = redis_count now k s1"
      using x by (auto simp: rcall_def ruse_def Let_def set wire split: list.splits wire.splits)
  qed
  have set: "set_cached_response now i f d ttl s = s2"
    by (simp only: set_cached_response_def g prod.case write_entry_def x snd_conv)
  have "same_queues now s s1" using kqr.R_generation g by (metis snd_conv)
  moreover have "same_queues now s1 s2" using kqr.R_use [OF kqr.R_set [OF k(2)] x] .
  ultimately have "same_queues now s s2" by (rule kqr.R_trans)
  then show ?thesis using 1 2 by (simp add: set same_quotas_def)
qed

lemma stored_after:
  assumes "fst (gw_es g2) = fst (gw_es g1) \<or> (\<exists>i f d ttl. fst (gw_es g2) = set_cached_response (ev_end ev) i f d ttl (fst (gw_es g1)))"
    and "snd (gw_es g2) = snd (gw_es g1)" and "starts_with ''quota:'' k" and "one_event ev user m u st g g1"
  shows "redis_count (ev_end ev) k (fst (gw_es g2)) = redis_count (ev_end ev) k (fst (gw_es g1)) \<and> one_event ev user m u st g g2"
proof -
  have q: "queue_key USAGE_QUEUE_KEY" by (simp add: queue_key_def starts_with_def event_keys)
  have "same_quotas (ev_end ev) (fst (gw_es g1)) (fst (gw_es g2))" "same_queues (ev_end ev) (fst (gw_es g1)) (fst (gw_es g2))"
    using assms(1) cached_elsewhere by (auto simp: same_quotas_def intro: kqr.R_refl)
  then have "redis_count (ev_end ev) k (fst (gw_es g2)) = redis_count (ev_end ev) k (fst (gw_es g1))"
    and "backlog (ev_end ev) USAGE_QUEUE_KEY (gw_es g2) = backlog (ev_end ev) USAGE_QUEUE_KEY (gw_es g1)"
    using assms(2,3) q by (simp_all add: same_quotas_def same_queues_def backlog_def)
  then show ?thesis using assms(4) by (simp add: one_event_def)
qed

lemma call_chat_answered:
  assumes "call_chat ev user m False est asked rules ws rs f encode answer g = (ROk (JsonReply response h), g')"
  shows "\<exists>u ch um pv dg. extract_usage response = Some u \<and>
    (let g1 = finish ev (with_usage u (base_context (ev_request_id ev) user m (ev_started ev) False ch um pv dg est)) m rules rs g
     in snd (gw_es g') = snd (gw_es g1)
        \<and> (fst (gw_es g') = fst (gw_es g1) \<or> (\<exists>i f d ttl. fst (gw_es g') = set_cached_response (ev_end ev) i f d ttl (fst (gw_es g1)))))"
proof -
  obtain response' meta where a: "answer = Inr (response', meta)" and r: "ev_router ev"
    using assms by (cases answer) (auto simp: call_chat_def fail_upstream_def split: if_splits prod.splits)
  obtain u where u: "extract_usage response' = Some u"
    using assms a r by (cases "extract_usage response'") (auto simp: call_chat_def)
  obtain ch um where ri: "extract_routing_info response' = (ch, um)" by force
  define pv where "pv = provider_from_response response'"
  define dg where "dg = detect_downgraded_features (ev_lib ev) asked um pv"
  define g1 where "g1 = finish ev (with_usage u (base_context (ev_request_id ev) user m (ev_started ev) False ch um pv dg est)) m rules rs g"
  define stored where "stored = (case f of None \<Rightarrow> Some False | Some _ \<Rightarrow> is_cacheable_response response')"
  have "call_chat ev user m False est asked rules ws rs f encode answer g =
      (case stored of None \<Rightarrow> (RCrash, g1)
       | Some store \<Rightarrow> (ROk (JsonReply response' (merge_headers [quota_headers ws, downgraded_header dg])),
           case (store, f, encode response') of
             (True, Some f, JObj d) \<Rightarrow> g1\<lparr>gw_es := (set_cached_response (ev_end ev) (lm_id m) f d (ev_cache_ttl ev) (fst (gw_es g1)), snd (gw_es g1))\<rparr>
           | _ \<Rightarrow> g1))"
    unfolding call_chat_def Let_def pv_def dg_def g1_def stored_def a sum.case prod.case u option.case ri using r by simp
  then have "response' = response \<and> snd (gw_es g') = snd (gw_es g1)
      \<and> (fst (gw_es g') = fst (gw_es g1) \<or> (\<exists>i f d ttl. fst (gw_es g') = set_cached_response (ev_end ev) i f d ttl (fst (gw_es g1))))"
    using assms by (cases stored) (auto split: option.splits json.splits bool.splits)
  then show ?thesis using u unfolding g1_def Let_def by blast
qed


text \<open>
  C5. A request the upstream failed costs nothing. On every endpoint, whatever the upstream call raises: quota counters
  end where they were before the gates, exactly one usage event with the failure's status and no token is queued, and the
  client gets the error of that exception (429, 504 or 502).
\<close>

theorem failed_upstream_is_refunded:
  assumes "fresh_req (gate_request ev user (lm_id m) stream est db) (fst (gw_es g))" and "0 < est"
    and "starts_with ''quota:'' k" and "length (snd (gw_es g) USAGE_QUEUE_KEY) < OUTBOX_MAX_PER_QUEUE"
    and "pass_gates ev user m stream est db g = (ROk (rules, ws, rs), g1)"
    and "redis_count (ev_end ev) k (fst (gw_es g1)) = redis_count (ev_ms ev) k (fst (gw_es g1))"
    and "fail_upstream ev user m stream est rules rs x g1 = (reply, g2)"
  shows "reply = RErr (upstream_error x) \<and> ae_status (upstream_error x) \<in> {429, 502, 504}
    \<and> redis_count (ev_end ev) k (fst (gw_es g2)) = redis_count (ev_ms ev) k (fst (gw_es g))
    \<and> one_event ev user m \<lparr>us_prompt = 0, us_completion = 0, us_total = 0\<rparr> (usage_status_for_exception x) g1 g2"
proof -
  note gates = gates_passed [OF assms(1-3,5)]
  let ?c = "mark_error (usage_status_for_exception x) 502 None None
    (base_context (ev_request_id ev) user m (ev_started ev) stream None None None None est)"
  have g2: "reply = RErr (upstream_error x)" "g2 = finish ev ?c m rules rs g1"
    using assms(7) by (simp_all add: fail_upstream_def)
  have "ae_status (upstream_error x) \<in> {429, 502, 504}" by (cases x) (simp_all add: upstream_error_def app_err_def)
  then show ?thesis
    using finish_accounts [of g1 k ?c ev user "\<lparr>us_prompt = 0, us_completion = 0, us_total = 0\<rparr>" m rules rs] gates assms(3,4,6) g2
    by (simp add: charge_at_def)
qed

section \<open>Model listing\<close>

definition listed_names :: "json \<Rightarrow> string list" where
  "listed_names v =
     (case v of JObj d \<Rightarrow>
        (case dget ''data'' d of
           JArr es \<Rightarrow> map (\<lambda>e. case e of JObj f \<Rightarrow> (case dget ''id'' f of JStr n \<Rightarrow> n | _ \<Rightarrow> []) | _ \<Rightarrow> []) es
         | _ \<Rightarrow> [])
      | _ \<Rightarrow> [])"

lemma listed_names_list:
  "listed_names (list_models user db) = map lm_name (get_logical_models_by_ids
     (sorted_list_of_set (get_user_granted_models (au_user_id user) (au_department_id user) db)) db)"
  by (simp add: listed_names_def list_models_def model_entry_def Let_def dget_def)

text \<open>
  The model list tells the truth. When live models have distinct names (the database's partial unique index), the
  names listed for a caller are sorted, without repetition, and exactly those that resolve for the caller.
\<close>

theorem list_models_resolve:
  assumes "distinct (map lm_name (filter live_model (db_models db)))"
  shows "sorted (listed_names (list_models user db)) \<and> distinct (listed_names (list_models user db))
    \<and> (name \<in> set (listed_names (list_models user db)) \<longleftrightarrow> (\<exists>m. resolve_from_db (auth_user.truncate user) (Some name) db = ROk m))"
proof -
  let ?granted = "get_user_granted_models (au_user_id user) (au_department_id user) db"
  let ?live = "filter (\<lambda>m. live_model m \<and> lm_id m \<in> ?granted) (db_models db)"
  have fin: "finite ?granted" by (simp add: get_user_granted_models_def)
  have names: "listed_names (list_models user db) = map lm_name (sort_key lm_name ?live)"
    using fin by (auto simp: listed_names_list get_logical_models_by_ids_def)
  have sub: "map lm_name ?live = map lm_name (filter (\<lambda>m. lm_id m \<in> ?granted) (filter live_model (db_models db)))"
    by (simp add: conj_commute)
  have "distinct (map lm_name ?live)" unfolding sub using assms by (rule distinct_map_filter)
  then have "distinct (map lm_name (sort_key lm_name ?live))"
    using mset_eq_imp_distinct_iff [of "map lm_name (sort_key lm_name ?live)" "map lm_name ?live"] by simp
  moreover have "name \<in> lm_name ` set ?live \<longleftrightarrow> (\<exists>m. resolve_from_db (auth_user.truncate user) (Some name) db = ROk m)"
  proof
    assume "name \<in> lm_name ` set ?live"
    then obtain m where m: "m \<in> set (db_models db)" "live_model m" "lm_id m \<in> ?granted" "lm_name m = name" by auto
    have "find (\<lambda>m. live_model m \<and> lm_name m = name) (db_models db) = Some m"
    proof (cases "find (\<lambda>m. live_model m \<and> lm_name m = name) (db_models db)")
      case None
      with m show ?thesis by (auto simp: find_None_iff)
    next
      case (Some m')
      then have "m' \<in> set (filter live_model (db_models db))" "lm_name m' = lm_name m"
        using m(4) by (auto simp: find_Some_iff)
      moreover have "m \<in> set (filter live_model (db_models db))" using m by simp
      ultimately have "m' = m" using assms unfolding distinct_map by (meson inj_onD)
      with Some show ?thesis by simp
    qed
    with m show "\<exists>m. resolve_from_db (auth_user.truncate user) (Some name) db = ROk m"
      by (simp add: resolve_from_db_def get_logical_model_by_name_def auth_user.truncate_def)
  next
    assume "\<exists>m. resolve_from_db (auth_user.truncate user) (Some name) db = ROk m"
    then show "name \<in> lm_name ` set ?live"
      by (auto simp: resolve_from_db_def get_logical_model_by_name_def auth_user.truncate_def find_Some_iff Let_def split: option.splits if_splits)
  qed
  ultimately show ?thesis by (simp add: names)
qed

section \<open>A sample deployment\<close>

definition sample_models_db :: catalog_db where
  "sample_models_db =
     \<lparr>db_models = [model_core.extend sample_model \<lparr>lm_status = ''active'', lm_is_deleted = False\<rparr>],
      db_channels = [], db_keys = [], db_deployments = [],
      db_grants = [\<lparr>ug_scope = ''user'', ug_scope_id = 7, ug_logical_model_id = 3, ug_is_default = True, ug_is_deleted = False\<rparr>],
      db_quotas = [\<lparr>qt_rule = sample_quota ''tokens'' (150, 0), qt_status = ''active'', qt_is_deleted = False\<rparr>],
      db_rate_limits = [\<lparr>rr_rule = \<lparr>rl_id = 1, rl_subject_type = ''user'', rl_subject_id = Some 7, rl_model_id = None, rl_rpm_limit = Some 2,
        rl_tpm_limit = Some 1000, rl_tpm_burst = None, rl_max_concurrent = Some 1\<rparr>, rr_enforce = True, rr_status = ''active'', rr_is_deleted = False\<rparr>]\<rparr>"

definition sample_env :: env where
  "sample_env =
     \<lparr>ev_now = sample_now, ev_end = epoch_ms sample_now, ev_started = 0, ev_finished = 1, ev_draw = (0, 0), ev_exc = ''e'', ev_db_ok = True,
      ev_scripts = True, ev_health = default_health, ev_lib = sample_library, ev_hash = (\<lambda>t. t), ev_router = True, ev_cache_enabled = False,
      ev_cache_ttl = None, ev_pydantic = plain_pydantic loads, ev_max_body = 1000, ev_request_id = ''r1'', ev_member = ''t1''\<rparr>"

definition gw0 :: gw where
  "gw0 = \<lparr>gw_es = (empty_redis, \<lambda>_. []), gw_em = (\<lambda>_. None), gw_metrics = []\<rparr>"

definition tokens_key :: string where
  "tokens_key = key_for_quota sample_now 7 None (sample_quota ''tokens'' (150, 0))"

lemma tokens_key_quota: "starts_with ''quota:'' tokens_key"
  by code_simp

lemma sample_gates_fresh: "fresh_req (gate_request sample_env sample_caller (lm_id sample_model) stream est sample_models_db) (fst (gw_es gw0))"
  by (simp add: fresh_req_def gate_request_def holds_def gw0_def empty_redis_def sample_models_db_def get_rate_limit_rules_def select_rate_limit_rules_def redis_zset_def expired_def)

text \<open>The sample request's way through the gates, evaluated gate by gate.\<close>

definition after_rate :: gw where
  "after_rate = snd (rate_gate sample_env sample_caller (lm_id sample_model) False 100 sample_models_db gw0)"

lemma sample_rate: "rate_gate sample_env sample_caller (lm_id sample_model) False 100 sample_models_db gw0
    = (ROk (map rr_rule (db_rate_limits sample_models_db)), after_rate)"
proof -
  have "fst (rate_gate sample_env sample_caller (lm_id sample_model) False 100 sample_models_db gw0) = ROk (map rr_rule (db_rate_limits sample_models_db))"
    by code_simp
  then show ?thesis by (metis after_rate_def prod.collapse)
qed

definition after_quota :: gw where
  "after_quota = snd (quota_gate sample_env sample_caller sample_model 100 (map rr_rule (db_rate_limits sample_models_db)) sample_models_db after_rate)"

definition sample_held :: "quota_reservation list" where
  "sample_held = [\<lparr>qr_key = tokens_key, qr_quota_id = 1, qr_metric = ''tokens'', qr_scope = ''user'', qr_enforce = True, qr_limit_value = (150, 0), qr_reserved = 100\<rparr>]"

lemma sample_quota_passed: "quota_gate sample_env sample_caller sample_model 100 (map rr_rule (db_rate_limits sample_models_db)) sample_models_db after_rate
    = (ROk ([], sample_held), after_quota)"
proof -
  have "fst (quota_gate sample_env sample_caller sample_model 100 (map rr_rule (db_rate_limits sample_models_db)) sample_models_db after_rate) = ROk ([], sample_held)"
    by code_simp
  then show ?thesis by (metis after_quota_def prod.collapse)
qed

lemma sample_pass: "pass_gates sample_env sample_caller sample_model False 100 sample_models_db gw0
    = (ROk (map rr_rule (db_rate_limits sample_models_db), [], sample_held), after_quota)"
  by (simp add: pass_gates_def sample_rate sample_quota_passed)



definition sample_answer :: pyobj where
  "sample_answer = PV (JObj [(''usage'', JObj [(''prompt_tokens'', JInt 40), (''completion_tokens'', JInt 20), (''total_tokens'', JInt 60)])])"

lemma sample_answer_parts: "extract_usage sample_answer = Some \<lparr>us_prompt = 40, us_completion = 20, us_total = 60\<rparr>"
  "extract_routing_info sample_answer = (None, None)" "provider_from_response sample_answer = None"
  by code_simp+

lemma sample_settings: "ev_router sample_env" "\<not> ev_cache_enabled sample_env"
  by (simp_all add: sample_env_def)

lemma sample_alive: "redis_count (ev_end sample_env) tokens_key (fst (gw_es after_quota)) = redis_count (ev_ms sample_env) tokens_key (fst (gw_es after_quota))"
  by (simp add: sample_env_def)


theorem failed_upstream_is_refunded_witness:
  "redis_count (ev_end sample_env) tokens_key (fst (gw_es (snd (fail_upstream sample_env sample_caller sample_model False 100
       (map rr_rule (db_rate_limits sample_models_db)) sample_held XTimeout after_quota)))) = redis_count (ev_ms sample_env) tokens_key (fst (gw_es gw0))"
proof -
  have box: "length (snd (gw_es gw0) USAGE_QUEUE_KEY) < OUTBOX_MAX_PER_QUEUE" by (simp add: gw0_def OUTBOX_MAX_PER_QUEUE_def)
  show ?thesis
    using failed_upstream_is_refunded [OF sample_gates_fresh _ tokens_key_quota box sample_pass sample_alive prod.collapse [symmetric]] by simp
qed

theorem list_models_resolve_witness:
  "listed_names (list_models sample_caller sample_models_db) = [''m'']
   \<and> (\<exists>m. resolve_from_db (auth_user.truncate sample_caller) (Some ''m'') sample_models_db = ROk m)"
proof -
  have l: "listed_names (list_models sample_caller sample_models_db) = [''m'']"
    unfolding listed_names_list by code_simp
  have "distinct (map lm_name (filter live_model (db_models sample_models_db)))" by (simp add: sample_models_db_def)
  from list_models_resolve [OF this, of sample_caller "''m''"] l show ?thesis by simp
qed

section \<open>Lost reservations\<close>

text \<open>Without a live router the request is refused with a 503 and everything the gates reserved stays reserved.\<close>

lemma missing_router_keeps_reservations:
  assumes "\<not> ev_router ev"
  shows "call_chat ev user m stream est asked rules ws rs f encode answer g = (RErr router_missing, g)"
    and "call_native provider usage fallback ev user m stream est asked rules ws rs answer g = (RErr router_missing, g)"
  using assms by (simp_all add: call_chat_def call_native_def)

text \<open>A body with \<open>"n": null\<close> crashes after the gates when the response cache is on.\<close>

lemma null_n_keeps_reservations:
  assumes "ev_cache_enabled ev"
  shows "after_gates_chat ev user m messages False [(''n'', JNull)] est asked rules ws rs encode answer g = (RCrash, g)"
proof -
  have "is_cacheable_request False True [(''n'', JNull)] = None" by code_simp
  then show ?thesis using assms by (simp add: after_gates_chat_def)
qed

text \<open>A stream whose upstream call raises keeps its place in the semaphore until the entry goes stale.\<close>

lemma failed_stream_keeps_slot:
  assumes "fail_upstream ev user m True est rules rs x g = (reply, g')"
  shows "redis_zset (ev_end ev) (conc_key r) (fst (gw_es g')) = redis_zset (ev_end ev) (conc_key r) (fst (gw_es g))"
proof -
  let ?c = "mark_error (usage_status_for_exception x) 502 None None (base_context (ev_request_id ev) user m (ev_started ev) True None None None None est)"
  obtain c' st ms where f: "finalize_gateway_request (ev_health ev) (ev_end ev) (ev_finished ev) (ev_exc ev) (Some m) True rules rs ?c (gw_es g) = (c', st, ms)"
    by (metis prod_cases3)
  have "gw_es g' = st" using assms f by (auto simp: fail_upstream_def finish_def)
  moreover have "same_zsets (ev_end ev) (fst (gw_es g)) (fst st)" using zf.R_finalize [OF f] .
  ultimately show ?thesis using conc_no_deadline by (simp add: same_zsets_def)
qed


end
