(* ===== verification/RouterManager.thy ===== *)
theory RouterManager
  imports Requests Catalog ChannelHealth
begin

text \<open>
  The live router (\<open>src/gateway/router_factory.py\<close>, \<open>src/gateway/router_manager.py\<close>): how
  deployment rows become the routing library's configuration, when the manager rebuilds it, what it keeps
  when a rebuild fails, when a superseded router is closed, and how a burst of invalidations is
  debounced. The library's \<open>Router\<close> object is represented by the model list it is built from;
  the decryption of a key is a parameter (\<open>None\<close>: it raises).
\<close>

section \<open>From rows to a router\<close>

definition ALLOWED_EXTRA_KEYS :: "string list" where
  "ALLOWED_EXTRA_KEYS = [''api_version'', ''region_name'', ''vertex_project'', ''vertex_location'', ''aws_access_key_id'',
     ''aws_secret_access_key'', ''aws_region_name'']"

record deployment_entry =
  de_model_name :: string
  de_params :: "(string \<times> json) list"
  de_id :: string
  de_channel_key_id :: string
  de_provider :: string
  de_upstream_model :: string
  de_weight :: int
  de_priority :: int

definition add_extra :: "string \<times> json \<Rightarrow> (string \<times> json) list \<Rightarrow> (string \<times> json) list" where
  "add_extra kv params =
     (if fst kv \<in> set ALLOWED_EXTRA_KEYS \<and> snd kv \<noteq> JNull then dset (fst kv) (snd kv) params else params)"

definition extra_items :: "router_deployment_row \<Rightarrow> (string \<times> json) list" where
  "extra_items row = (case rd_extra_config row of None \<Rightarrow> [] | Some d \<Rightarrow> d)"

definition litellm_params :: "string \<Rightarrow> router_deployment_row \<Rightarrow> (string \<times> json) list" where
  "litellm_params api_key row =
     fold add_extra (extra_items row)
       (set_given ''tpm'' (opt_json JInt (rd_key_tpm_limit row))
         (set_given ''rpm'' (opt_json JInt (rd_key_rpm_limit row))
           (set_given ''api_base'' (opt_json JStr (rd_api_base row))
             [(''model'', JStr (rd_provider row @ ''/'' @ rd_upstream_model row)), (''api_key'', JStr api_key)])))"

definition deployment_of :: "(string \<Rightarrow> string option) \<Rightarrow> router_deployment_row \<Rightarrow> deployment_entry option" where
  "deployment_of decrypt row =
     map_option (\<lambda>api_key.
       \<lparr>de_model_name = rd_logical_model_name row, de_params = litellm_params api_key row,
        de_id = show_int (rd_channel_id row), de_channel_key_id = show_int (rd_channel_key_id row),
        de_provider = rd_provider row, de_upstream_model = rd_upstream_model row,
        de_weight = rd_deployment_weight row * rd_key_weight row, de_priority = rd_deployment_priority row\<rparr>)
       (decrypt (rd_api_key_encrypted row))"

fun build_router :: "(string \<Rightarrow> string option) \<Rightarrow> router_deployment_row list \<Rightarrow> deployment_entry list option" where
  "build_router decrypt [] = Some []"
| "build_router decrypt (row # rows) =
     (case deployment_of decrypt row of
        None \<Rightarrow> None
      | Some e \<Rightarrow> map_option (\<lambda>es. e # es) (build_router decrypt rows))"

text \<open>The tuple the manager compares; its numbers and texts in the order of the code.\<close>

definition row_fingerprint :: "router_deployment_row \<Rightarrow> router_deployment_row" where
  "row_fingerprint row = row\<lparr>rd_extra_config := Some (sort_key fst (extra_items row))\<rparr>"

definition router_fingerprint :: "router_deployment_row list \<Rightarrow> router_deployment_row list" where
  "router_fingerprint rows = map row_fingerprint rows"

section \<open>The manager\<close>

definition ROUTER_CLOSE_GRACE_SECONDS :: int where "ROUTER_CLOSE_GRACE_SECONDS = 1860"

text \<open>Routers are numbered in the order they are built, so that a superseded one is told from its successor.\<close>

record manager =
  rm_router :: "(nat \<times> deployment_entry list) option"
  rm_fingerprint :: "router_deployment_row list option"
  rm_closing :: "(nat \<times> int) list"
  rm_built :: nat

definition manager0 :: manager where
  "manager0 = \<lparr>rm_router = None, rm_fingerprint = None, rm_closing = [], rm_built = 0\<rparr>"

definition live_rows :: "int list \<Rightarrow> router_deployment_row list \<Rightarrow> router_deployment_row list" where
  "live_rows degraded_ids rows =
     (if degraded_ids \<noteq> [] then filter (\<lambda>r. rd_channel_id r \<notin> set degraded_ids) rows else rows)"

text \<open>
  One \<open>rebuild\<close> at \<open>now\<close> (milliseconds): \<open>db = None\<close> is a failing query. The result tells whether
  it returned or raised.
\<close>

definition rebuild ::
  "(string \<Rightarrow> string option) \<Rightarrow> int \<Rightarrow> catalog_db option \<Rightarrow> redis \<Rightarrow> manager \<Rightarrow> bool \<times> manager" where
  "rebuild decrypt now db s m =
     (case db of
        None \<Rightarrow> (False, m)
      | Some d \<Rightarrow>
          (let rows = live_rows (fst (get_degraded_channel_ids now s)) (get_router_config d);
               fp = router_fingerprint rows
           in if rm_router m \<noteq> None \<and> rm_fingerprint m = Some fp then (True, m)
              else (case build_router decrypt rows of
                      None \<Rightarrow> (False, m)
                    | Some r \<Rightarrow>
                        (True, m\<lparr>rm_router := Some (rm_built m, r), rm_fingerprint := Some fp, rm_built := Suc (rm_built m),
                           rm_closing := (case rm_router m of
                                            None \<Rightarrow> rm_closing m
                                          | Some (i, _) \<Rightarrow> rm_closing m @ [(i, now + ROUTER_CLOSE_GRACE_SECONDS * 1000)])\<rparr>))))"

definition get_router :: "manager \<Rightarrow> (nat \<times> deployment_entry list) res" where
  "get_router m = (case rm_router m of None \<Rightarrow> RErr (app_err EC_model_unavailable 503) | Some r \<Rightarrow> ROk r)"

text \<open>The grace period of a superseded router is over: it is closed.\<close>

definition close_due :: "int \<Rightarrow> manager \<Rightarrow> nat list \<times> manager" where
  "close_due now m =
     (map fst (filter (\<lambda>c. snd c \<le> now) (rm_closing m)), m\<lparr>rm_closing := filter (\<lambda>c. now < snd c) (rm_closing m)\<rparr>)"

section \<open>The debounce worker\<close>

text \<open>
  Signals are the sorted times at which the invalidation event is set; the worker blocks until one, clears the event, and rebuilds
  when \<open>window\<close> passes without another; a rebuild takes \<open>busy\<close>, and signals during it are one signal at its
  end. The result is the times at which rebuilds start.
\<close>

function (sequential) serve :: "rat \<Rightarrow> rat \<Rightarrow> rat \<Rightarrow> rat list \<Rightarrow> rat list"
  and quiet :: "rat \<Rightarrow> rat \<Rightarrow> rat \<Rightarrow> rat list \<Rightarrow> rat list" where
  "serve window busy now [] = []"
| "serve window busy now (t # ts) =
     (let wake = max now t in quiet window busy wake (dropWhile (\<lambda>u. u \<le> wake) ts))"
| "quiet window busy since [] = [since + window]"
| "quiet window busy since (u # us) =
     (if u < since + window then quiet window busy u (dropWhile (\<lambda>v. v \<le> u) us)
      else (since + window) # serve window busy (since + window + busy) (u # us))"
  by pat_completeness auto

termination
proof (relation "measure (\<lambda>x. case x of Inl (w, b, n, ts) \<Rightarrow> 2 * length ts | Inr (w, b, n, ts) \<Rightarrow> 2 * length ts + 1)", goal_cases)
  case (2 w b n t ts wake)
  have "length (dropWhile (\<lambda>u. u \<le> wake) ts) \<le> length ts" by (rule length_dropWhile_le)
  then show ?case by simp
next
  case (3 w b n u us)
  have "length (dropWhile (\<lambda>v. v \<le> u) us) \<le> length us" by (rule length_dropWhile_le)
  then show ?case by simp
qed simp_all

definition DEBOUNCE_SECONDS :: rat where "DEBOUNCE_SECONDS = 3/2"

definition debounce_worker :: "rat \<Rightarrow> rat list \<Rightarrow> rat list" where
  "debounce_worker busy signals = serve DEBOUNCE_SECONDS busy 0 signals"

end
