(* ===== verification/RouterFacts.thy ===== *)
theory RouterFacts
  imports RouterManager
begin

text \<open>
  The live router is the current configuration, or the last good one when a rebuild fails; it is not closed
  under a request within the grace period; and no invalidation is lost by the debounce.
\<close>

section \<open>The fingerprint determines the router\<close>

definition wf_row :: "router_deployment_row \<Rightarrow> bool" where
  "wf_row row \<longleftrightarrow> distinct (map fst (extra_items row))"

definition same_entry :: "deployment_entry \<Rightarrow> deployment_entry \<Rightarrow> bool" where
  "same_entry e e' \<longleftrightarrow> e\<lparr>de_params := []\<rparr> = e'\<lparr>de_params := []\<rparr> \<and> map_of (de_params e) = map_of (de_params e')"

definition same_router :: "deployment_entry list \<Rightarrow> deployment_entry list \<Rightarrow> bool" where
  "same_router = list_all2 same_entry"

lemma map_of_add_extra:
  "distinct (map fst items) \<Longrightarrow> map_of (fold add_extra items params)
     = map_of params ++ map_of (filter (\<lambda>kv. fst kv \<in> set ALLOWED_EXTRA_KEYS \<and> snd kv \<noteq> JNull) items)"
proof (induction items arbitrary: params)
  case (Cons kv items)
  obtain k v where kv: "kv = (k, v)" by force
  let ?ok = "\<lambda>kv. fst kv \<in> set ALLOWED_EXTRA_KEYS \<and> snd kv \<noteq> JNull"
  have IH: "map_of (fold add_extra items p) = map_of p ++ map_of (filter ?ok items)" for p
    using Cons by simp
  have "k \<notin> fst ` set items" using Cons.prems kv by simp
  then have fresh: "map_of (filter ?ok items) k = None" by (auto simp: map_of_eq_None_iff)
  show ?case
  proof (cases "?ok (k, v)")
    case True
    then have "add_extra (k, v) params = dset k v params" by (simp add: add_extra_def)
    then show ?thesis
      using True fresh by (simp add: kv IH map_of_dset map_add_def fun_eq_iff split: option.split)
  next
    case False
    then have "add_extra (k, v) params = params" by (auto simp add: add_extra_def)
    then show ?thesis using False by (auto simp add: kv IH)
  qed
qed simp

lemma sorted_items_map_of:
  assumes "sort_key fst xs = sort_key fst ys" and "distinct (map fst xs)" and "distinct (map fst ys)"
  shows "map_of (filter p xs) = map_of (filter p ys)"
proof (rule map_of_eqI)
  have "set xs = set ys" using assms(1) by (metis set_sort)
  then show "set (map fst (filter p xs)) = set (map fst (filter p ys))" by auto
  show "\<forall>k\<in>set (map fst (filter p xs)). map_of (filter p xs) k = map_of (filter p ys) k"
    using assms(2,3) \<open>set xs = set ys\<close> by (auto simp: distinct_map_filter intro!: map_of_is_SomeI)
qed

lemma row_fingerprint_fields:
  assumes "row_fingerprint row = row_fingerprint row'"
  shows "sort_key fst (extra_items row) = sort_key fst (extra_items row')"
    and "row\<lparr>rd_extra_config := x\<rparr> = row'\<lparr>rd_extra_config := x\<rparr>"
proof -
  have "rd_extra_config (row_fingerprint row) = rd_extra_config (row_fingerprint row')" using assms by simp
  then show "sort_key fst (extra_items row) = sort_key fst (extra_items row')" by (simp add: row_fingerprint_def)
  have "(row_fingerprint row)\<lparr>rd_extra_config := x\<rparr> = (row_fingerprint row')\<lparr>rd_extra_config := x\<rparr>" using assms by simp
  then show "row\<lparr>rd_extra_config := x\<rparr> = row'\<lparr>rd_extra_config := x\<rparr>" by (simp add: row_fingerprint_def)
qed

lemma same_fingerprint_entry:
  assumes "row_fingerprint row = row_fingerprint row'" and "wf_row row" and "wf_row row'"
  shows "rel_option same_entry (deployment_of decrypt row) (deployment_of decrypt row')"
proof -
  note f = row_fingerprint_fields [OF assms(1)]
  have fields: "g (row\<lparr>rd_extra_config := None\<rparr>) = g (row'\<lparr>rd_extra_config := None\<rparr>)" for g :: "router_deployment_row \<Rightarrow> 'x"
    using f(2) [of None] by simp
  have eqs: "rd_logical_model_name row = rd_logical_model_name row'" "rd_upstream_model row = rd_upstream_model row'"
    "rd_provider row = rd_provider row'" "rd_api_base row = rd_api_base row'" "rd_api_key_encrypted row = rd_api_key_encrypted row'"
    "rd_channel_id row = rd_channel_id row'" "rd_channel_key_id row = rd_channel_key_id row'"
    "rd_deployment_weight row = rd_deployment_weight row'" "rd_deployment_priority row = rd_deployment_priority row'"
    "rd_key_weight row = rd_key_weight row'" "rd_key_rpm_limit row = rd_key_rpm_limit row'" "rd_key_tpm_limit row = rd_key_tpm_limit row'"
    using fields [of rd_logical_model_name] fields [of rd_upstream_model] fields [of rd_provider] fields [of rd_api_base]
      fields [of rd_api_key_encrypted] fields [of rd_channel_id] fields [of rd_channel_key_id] fields [of rd_deployment_weight]
      fields [of rd_deployment_priority] fields [of rd_key_weight] fields [of rd_key_rpm_limit] fields [of rd_key_tpm_limit]
    by simp_all
  have "map_of (litellm_params key row) = map_of (litellm_params key row')" for key
    using map_of_add_extra assms(2,3) sorted_items_map_of [OF f(1)] by (simp add: litellm_params_def wf_row_def eqs)
  then show ?thesis
    by (cases "decrypt (rd_api_key_encrypted row')") (simp_all add: deployment_of_def same_entry_def eqs)
qed

lemma build_router_rel:
  assumes "list_all2 (\<lambda>row row'. rel_option same_entry (deployment_of decrypt row) (deployment_of decrypt row')) rows rows'"
  shows "rel_option same_router (build_router decrypt rows) (build_router decrypt rows')"
  using assms
proof (induction rule: list_all2_induct)
  case (Cons row rows row' rows')
  then show ?case
    by (cases "deployment_of decrypt row"; cases "deployment_of decrypt row'"; cases "build_router decrypt rows"; cases "build_router decrypt rows'")
       (simp_all add: same_router_def)
qed (simp add: same_router_def)

lemma fingerprint_router:
  assumes "router_fingerprint rows = router_fingerprint rows'" and "\<forall>row\<in>set rows. wf_row row" and "\<forall>row\<in>set rows'. wf_row row"
  shows "rel_option same_router (build_router decrypt rows) (build_router decrypt rows')"
proof (rule build_router_rel)
  have len: "length rows = length rows'" using assms(1) unfolding router_fingerprint_def by (metis length_map)
  show "list_all2 (\<lambda>row row'. rel_option same_entry (deployment_of decrypt row) (deployment_of decrypt row')) rows rows'"
  proof (rule list_all2_all_nthI [OF len])
    fix n assume n: "n < length rows"
    then have "row_fingerprint (rows ! n) = row_fingerprint (rows' ! n)"
      using assms(1) len unfolding router_fingerprint_def by (metis nth_map)
    then show "rel_option same_entry (deployment_of decrypt (rows ! n)) (deployment_of decrypt (rows' ! n))"
      using n len assms(2,3) by (intro same_fingerprint_entry) simp_all
  qed
qed

section \<open>Runs of the manager\<close>

definition wf_db :: "catalog_db option \<Rightarrow> bool" where
  "wf_db db \<longleftrightarrow> (\<forall>d c e. db = Some d \<longrightarrow> c \<in> set (db_channels d) \<longrightarrow> uc_extra_config c = Some e \<longrightarrow> distinct (map fst e))"

inductive manager_step :: "(string \<Rightarrow> string option) \<Rightarrow> int \<times> manager \<Rightarrow> int \<times> manager \<Rightarrow> bool" for decrypt where
  rebuilt: "t \<le> t' \<Longrightarrow> wf_db db \<Longrightarrow> rebuild decrypt t' db s m = (ok, m') \<Longrightarrow> manager_step decrypt (t, m) (t', m')"
| closed: "t \<le> t' \<Longrightarrow> close_due t' m = (ids, m') \<Longrightarrow> manager_step decrypt (t, m) (t', m')"

definition manager_inv :: "(string \<Rightarrow> string option) \<Rightarrow> manager \<Rightarrow> bool" where
  "manager_inv decrypt m \<longleftrightarrow>
     (case rm_router m of
        None \<Rightarrow> rm_closing m = []
      | Some (i, r) \<Rightarrow> i < rm_built m \<and> (\<forall>c\<in>set (rm_closing m). fst c < i)
          \<and> (\<exists>rows. rm_fingerprint m = Some (router_fingerprint rows) \<and> build_router decrypt rows = Some r \<and> (\<forall>row\<in>set rows. wf_row row)))"

lemma config_wf: "wf_db (Some d) \<Longrightarrow> \<forall>row\<in>set (live_rows ids (get_router_config d)). wf_row row"
proof
  fix row assume wf: "wf_db (Some d)" and row: "row \<in> set (live_rows ids (get_router_config d))"
  then have "row \<in> set (get_router_config d)" by (auto simp: live_rows_def split: if_splits)
  then obtain m p c k where "(m, p, c, k) \<in> set (router_join d)" and x: "rd_extra_config row = uc_extra_config c"
    by (auto simp: get_router_config_def)
  then have "c \<in> set (db_channels d)" by (auto simp: router_join_def)
  then show "wf_row row" using wf x by (auto simp: wf_db_def wf_row_def extra_items_def split: option.split)
qed

lemma rebuild_cases:
  assumes "rebuild decrypt now db s m = (ok, m')"
  obtains (failed) "\<not> ok" "m' = m"
  | (same) d where "ok" "db = Some d" "m' = m" "rm_router m \<noteq> None"
      "rm_fingerprint m = Some (router_fingerprint (live_rows (fst (get_degraded_channel_ids now s)) (get_router_config d)))"
  | (built) d r where "ok" "db = Some d" "build_router decrypt (live_rows (fst (get_degraded_channel_ids now s)) (get_router_config d)) = Some r"
      "rm_router m' = Some (rm_built m, r)" "rm_built m' = Suc (rm_built m)"
      "rm_fingerprint m' = Some (router_fingerprint (live_rows (fst (get_degraded_channel_ids now s)) (get_router_config d)))"
      "rm_closing m' = (case rm_router m of None \<Rightarrow> rm_closing m | Some (i, _) \<Rightarrow> rm_closing m @ [(i, now + ROUTER_CLOSE_GRACE_SECONDS * 1000)])"
proof (cases db)
  case None
  then show ?thesis using assms failed by (simp add: rebuild_def)
next
  case (Some d)
  let ?rows = "live_rows (fst (get_degraded_channel_ids now s)) (get_router_config d)"
  show ?thesis
  proof (cases "rm_router m \<noteq> None \<and> rm_fingerprint m = Some (router_fingerprint ?rows)")
    case True
    then show ?thesis using assms Some same by (simp add: rebuild_def Let_def)
  next
    case False
    then show ?thesis
      using assms Some failed built [OF _ Some] by (cases "build_router decrypt ?rows") (auto simp: rebuild_def Let_def)
  qed
qed

lemma manager_step_inv:
  assumes "manager_step decrypt (t, m) (t', m')" and inv: "manager_inv decrypt m"
  shows "manager_inv decrypt m'"
  using assms(1)
proof (cases rule: manager_step.cases)
  case (rebuilt db s ok)
  from rebuilt(3) show ?thesis
  proof (cases rule: rebuild_cases)
    case (built d r)
    have "\<forall>c\<in>set (rm_closing m'). fst c < rm_built m"
      using inv built(7) by (cases "rm_router m") (auto simp: manager_inv_def dest: less_trans)
    then show ?thesis using built(3-6) config_wf rebuilt(2) built(2) by (auto simp: manager_inv_def)
  qed (use inv in simp_all)
next
  case (closed ids)
  then have m': "m' = m\<lparr>rm_closing := filter (\<lambda>c. t' < snd c) (rm_closing m)\<rparr>" by (simp add: close_due_def)
  show ?thesis
  proof (cases "rm_router m")
    case (Some ir)
    obtain i r where "ir = (i, r)" by force
    then show ?thesis using inv Some m' by (auto simp: manager_inv_def)
  qed (use inv m' in \<open>simp add: manager_inv_def\<close>)
qed

lemma manager_reach_inv:
  "(manager_step decrypt)\<^sup>*\<^sup>* (t0, manager0) (t, m) \<Longrightarrow> manager_inv decrypt m"
proof (induction "(t, m)" arbitrary: t m rule: rtranclp_induct)
  case base
  then show ?case by (simp add: manager_inv_def manager0_def)
next
  case (step y)
  then show ?case by (cases y) (metis manager_step_inv)
qed

section \<open>A sample manager\<close>

definition route_db :: catalog_db where
  "route_db =
     \<lparr>db_models = [\<lparr>lm_id = 1, lm_name = ''chat'', lm_price_input = None, lm_price_output = None, lm_status = ''active'', lm_is_deleted = False\<rparr>],
      db_channels = [\<lparr>uc_id = 5, uc_provider = ''azure'', uc_protocol = ''openai'', uc_api_base = None,
                      uc_extra_config = Some [(''region_name'', JStr ''eu''), (''api_version'', JStr ''2024''), (''note'', JNull)],
                      uc_status = ''active'', uc_is_deleted = False\<rparr>],
      db_keys = [\<lparr>ck_id = 9, ck_channel_id = 5, ck_api_key_encrypted = ''k'', ck_status = ''active'', ck_rpm_limit = Some 60,
                  ck_tpm_limit = None, ck_weight = 2, ck_priority = 0, ck_is_deleted = False\<rparr>],
      db_deployments = [\<lparr>md_logical_model_id = 1, md_channel_id = 5, md_upstream_model = ''gpt-4o'', md_weight = 3,
                         md_priority = 0, md_status = ''active'', md_is_deleted = False\<rparr>],
      db_grants = [], db_quotas = [], db_rate_limits = []\<rparr>"

definition degraded_redis :: redis where
  "degraded_redis = snd (add_to_degraded 0 5 empty_redis)"

definition manager1 :: manager where "manager1 = snd (rebuild Some 0 (Some route_db) empty_redis manager0)"

definition manager2 :: manager where "manager2 = snd (rebuild Some 1000 (Some route_db) degraded_redis manager1)"

lemma route_db_wf: "wf_db (Some route_db)"
  by (simp add: wf_db_def route_db_def)

lemma manager1_run: "(manager_step Some)\<^sup>*\<^sup>* (0, manager0) (0, manager1)"
  using manager_step.rebuilt [OF _ route_db_wf prod.collapse [symmetric]] unfolding manager1_def by (intro r_into_rtranclp) simp

lemma manager2_run: "(manager_step Some)\<^sup>*\<^sup>* (0, manager1) (1000, manager2)"
  using manager_step.rebuilt [OF _ route_db_wf prod.collapse [symmetric]] unfolding manager2_def by (intro r_into_rtranclp) simp

lemma manager1_live: "map_option fst (rm_router manager1) = Some 0"
  by code_simp

lemma manager2_rebuilt: "fst (rebuild Some 1000 (Some route_db) degraded_redis manager1) \<and> rm_router manager2 = Some (1, [])"
  by code_simp

text \<open>
  C37. The live router is the current configuration. After any run of rebuilds (some of which may have failed) and
  closes, a rebuild that returns leaves a router equal to one built from scratch from the active rows without the
  degraded channels, also when it skips building because the fingerprint has not changed; a rebuild that raises (query or key
  decryption) changes nothing; and once a router is live, requests are never refused for want of one.
\<close>

theorem live_router_is_current:
  assumes "(manager_step decrypt)\<^sup>*\<^sup>* (t0, manager0) (t, m)" and "wf_db (Some d)"
    and "rebuild decrypt now (Some d) s m = (ok, m')"
  shows "(let degraded = fst (get_degraded_channel_ids now s); rows = live_rows degraded (get_router_config d) in
      (ok \<longrightarrow> (\<exists>i r r'. get_router m' = ROk (i, r) \<and> build_router decrypt rows = Some r' \<and> same_router r r'
                 \<and> (\<forall>row\<in>set rows. rd_channel_id row \<notin> set degraded)))
      \<and> (\<not> ok \<longrightarrow> m' = m)
      \<and> (rm_router m \<noteq> None \<longrightarrow> rm_router m' \<noteq> None))"
proof -
  have inv: "manager_inv decrypt m" using assms(1) by (rule manager_reach_inv)
  have clean: "\<forall>row\<in>set (live_rows ids rows). rd_channel_id row \<notin> set ids" for ids rows
    by (simp add: live_rows_def)
  have refl: "same_router r r" for r by (simp add: same_router_def list_all2_refl same_entry_def)
  from assms(3) show ?thesis
  proof (cases rule: rebuild_cases)
    case failed
    then show ?thesis by (simp add: Let_def)
  next
    case (same d')
    obtain i r where r: "rm_router m = Some (i, r)" using same(4) by auto
    then obtain rows where rows: "rm_fingerprint m = Some (router_fingerprint rows)" "build_router decrypt rows = Some r"
      "\<forall>row\<in>set rows. wf_row row" using inv by (auto simp: manager_inv_def)
    let ?now = "live_rows (fst (get_degraded_channel_ids now s)) (get_router_config d)"
    have "router_fingerprint rows = router_fingerprint ?now" using same rows(1) by simp
    from fingerprint_router [OF this rows(3) config_wf [OF assms(2)], of decrypt] rows(2)
    obtain r' where "build_router decrypt ?now = Some r'" "same_router r r'" by (auto simp: option_rel_Some1)
    then show ?thesis using same r clean by (auto simp: Let_def get_router_def)
  next
    case (built d' r)
    then show ?thesis using clean refl by (auto simp: Let_def get_router_def)
  qed
qed


theorem live_router_is_current_witness:
  "get_router manager2 = ROk (1, []) \<and> rm_router manager1 \<noteq> None
   \<and> build_router Some (live_rows (fst (get_degraded_channel_ids 1000 degraded_redis)) (get_router_config route_db)) = Some []"
proof -
  have "rebuild Some 1000 (Some route_db) degraded_redis manager1 = (True, manager2)"
    using manager2_rebuilt unfolding manager2_def by (metis prod.collapse)
  from live_router_is_current [OF manager1_run route_db_wf this]
  have "\<exists>i r r'. get_router manager2 = ROk (i, r) \<and> same_router r r'
      \<and> build_router Some (live_rows (fst (get_degraded_channel_ids 1000 degraded_redis)) (get_router_config route_db)) = Some r'"
    by (auto simp: Let_def)
  then show ?thesis using manager1_live manager2_rebuilt by (auto simp: get_router_def same_router_def)
qed

definition handed_out :: "nat \<Rightarrow> int \<Rightarrow> int \<times> manager \<Rightarrow> bool" where
  "handed_out i t0 tm \<longleftrightarrow> t0 \<le> fst tm \<and> (\<exists>j r. rm_router (snd tm) = Some (j, r) \<and> i \<le> j \<and> j < rm_built (snd tm))
     \<and> (\<forall>c\<in>set (rm_closing (snd tm)). fst c = i \<longrightarrow> t0 + ROUTER_CLOSE_GRACE_SECONDS * 1000 \<le> snd c)"

lemma manager_step_handed_out:
  assumes "manager_step decrypt tm tm'" and h: "handed_out i t0 tm"
  shows "handed_out i t0 tm'"
  using assms(1)
proof (cases rule: manager_step.cases)
  case (rebuilt t t' db s m ok m')
  from rebuilt(5) show ?thesis
  proof (cases rule: rebuild_cases)
    case failed
    then show ?thesis using h rebuilt by (auto simp: handed_out_def)
  next
    case same
    then show ?thesis using h rebuilt by (auto simp: handed_out_def)
  next
    case (built d r)
    obtain j r0 where "rm_router m = Some (j, r0)" "i \<le> j" "j < rm_built m" using h rebuilt(1) by (auto simp: handed_out_def)
    then show ?thesis using h rebuilt(1-3) built by (auto simp: handed_out_def)
  qed
next
  case (closed t t' m ids m')
  then show ?thesis using h by (auto simp: handed_out_def close_due_def)
qed

lemma manager_run_handed_out:
  "(manager_step decrypt)\<^sup>*\<^sup>* tm tm' \<Longrightarrow> handed_out i t0 tm \<Longrightarrow> handed_out i t0 tm'"
  by (induction rule: rtranclp_induct) (auto intro: manager_step_handed_out)

text \<open>
  The grace period. A router a request obtained at \<open>t0\<close> is not closed before \<open>t0 + 1860 s\<close>, whatever rebuilds and
  closes happen meanwhile, and the live router is never among those closed.
\<close>

theorem router_outlives_grace:
  assumes "(manager_step decrypt)\<^sup>*\<^sup>* (s0, manager0) (t0, m0)" and "get_router m0 = ROk (i, r)"
    and "(manager_step decrypt)\<^sup>*\<^sup>* (t0, m0) (t, m)" and "close_due t' m = (ids, m')"
  shows "(i \<in> set ids \<longrightarrow> t0 + 1860000 \<le> t') \<and> (\<exists>j r'. get_router m' = ROk (j, r') \<and> i \<le> j \<and> j \<notin> set ids)"
proof -
  have m0: "rm_router m0 = Some (i, r)" using assms(2) by (auto simp: get_router_def split: option.splits)
  have "manager_inv decrypt m0" using assms(1) by (rule manager_reach_inv)
  then have "handed_out i t0 (t0, m0)" using m0 by (auto simp: manager_inv_def handed_out_def)
  then have h: "handed_out i t0 (t, m)" using assms(3) manager_run_handed_out by blast
  have "manager_inv decrypt m" using assms(1,3) by (meson manager_reach_inv rtranclp_trans)
  moreover have "i \<in> set ids \<Longrightarrow> t0 + 1860000 \<le> t'"
    using h assms(4) by (fastforce simp: handed_out_def close_due_def ROUTER_CLOSE_GRACE_SECONDS_def)
  ultimately show ?thesis
    using h assms(4) by (auto simp: handed_out_def close_due_def get_router_def manager_inv_def)
qed

theorem router_outlives_grace_witness:
  "get_router manager1 \<noteq> get_router manager2 \<and> 0 \<in> set (fst (close_due 1861000 manager2)) \<and> fst (close_due 1860999 manager2) = []
     \<and> (\<exists>j r. get_router (snd (close_due 1861000 manager2)) = ROk (j, r) \<and> j \<notin> set (fst (close_due 1861000 manager2)))"
proof -
  obtain r where r: "get_router manager1 = ROk (0, r)"
    using manager1_live by (auto simp: get_router_def)
  have "fst (close_due 1861000 manager2) = [0] \<and> fst (close_due 1860999 manager2) = []" by code_simp
  moreover have "\<exists>j r'. get_router (snd (close_due 1861000 manager2)) = ROk (j, r') \<and> 0 \<le> j \<and> j \<notin> set (fst (close_due 1861000 manager2))"
    using router_outlives_grace [OF manager1_run r manager2_run prod.collapse [symmetric], of 1861000] by blast
  moreover have "get_router manager1 \<noteq> get_router manager2" using r manager2_rebuilt by (simp add: get_router_def)
  ultimately show ?thesis by auto
qed

section \<open>The debounce\<close>

lemma dropped_or_kept: "u \<in> set us \<Longrightarrow> u \<le> x \<or> u \<in> set (dropWhile (\<lambda>v. v \<le> x) us)"
  by (metis Un_iff set_append set_takeWhileD takeWhile_dropWhile_id)

lemma sorted_after: "sorted us \<Longrightarrow> sorted (x # dropWhile (\<lambda>v. v \<le> x) us)"
  by (induction us) auto

definition covered :: "rat \<Rightarrow> rat list \<Rightarrow> rat \<Rightarrow> bool" where
  "covered w rs t \<longleftrightarrow> (\<exists>r\<in>set rs. t + w \<le> r)"

lemma covered_earlier: "covered w rs u \<Longrightarrow> t \<le> u \<Longrightarrow> covered w rs t"
  unfolding covered_def by (meson add_right_mono order_trans)

lemma covered_Cons: "covered w (r # rs) t \<longleftrightarrow> t + w \<le> r \<or> covered w rs t"
  by (simp add: covered_def)

lemma covered_after:
  assumes "\<forall>t\<in>set (x # dropWhile (\<lambda>v. v \<le> x) us). covered w rs t"
  shows "\<forall>t\<in>set (x # us). covered w rs t"
  using assms covered_earlier dropped_or_kept by (metis set_ConsD list.set_intros)

lemma serve_covers:
  "sorted ts \<Longrightarrow> \<forall>t\<in>set ts. covered w (serve w b now ts) t"
  "sorted (now # ts) \<Longrightarrow> \<forall>t\<in>set (now # ts). covered w (quiet w b now ts) t"
proof (induction w b now ts and w b now ts rule: serve_quiet.induct)
  case (2 window busy now t' ts)
  let ?wake = "max now t'" and ?rs = "serve window busy now (t' # ts)"
  have eq: "?rs = quiet window busy ?wake (dropWhile (\<lambda>v. v \<le> ?wake) ts)" by (simp add: Let_def)
  have "sorted ts" using 2(2) by simp
  from 2(1) [OF refl sorted_after [OF this]]
  have "\<forall>t\<in>set (?wake # ts). covered window ?rs t" unfolding eq by (rule covered_after)
  then show ?case using covered_earlier [of window ?rs ?wake t'] by simp
next
  case (4 window busy since u us)
  let ?rs = "quiet window busy since (u # us)"
  show ?case
  proof (cases "u < since + window")
    case True
    then have eq: "?rs = quiet window busy u (dropWhile (\<lambda>v. v \<le> u) us)" by simp
    have "sorted us" using 4(3) by simp
    from 4(1) [OF True sorted_after [OF this]]
    have "\<forall>t\<in>set (u # us). covered window ?rs t" unfolding eq by (rule covered_after)
    then show ?thesis using 4(3) covered_earlier [of window ?rs u since] by simp
  next
    case False
    then show ?thesis using 4 by (simp add: covered_Cons)
  qed
qed (simp_all add: covered_def)

text \<open>Rebuilds do not overlap, and there is a quiet window before each.\<close>

lemma serve_spaced:
  "sorted ts \<Longrightarrow> 0 \<le> w \<Longrightarrow> 0 \<le> b \<Longrightarrow> (\<forall>r\<in>set (serve w b now ts). now + w \<le> r) \<and> sorted_wrt (\<lambda>r r'. r + b + w \<le> r') (serve w b now ts)"
  "sorted (now # ts) \<Longrightarrow> 0 \<le> w \<Longrightarrow> 0 \<le> b \<Longrightarrow> (\<forall>r\<in>set (quiet w b now ts). now + w \<le> r) \<and> sorted_wrt (\<lambda>r r'. r + b + w \<le> r') (quiet w b now ts)"
proof (induction w b now ts and w b now ts rule: serve_quiet.induct)
  case (2 window busy now t' ts)
  let ?wake = "max now t'" and ?rs = "serve window busy now (t' # ts)"
  have eq: "?rs = quiet window busy ?wake (dropWhile (\<lambda>v. v \<le> ?wake) ts)" by (simp add: Let_def)
  have "sorted ts" using 2(2) by simp
  from 2(1) [OF refl sorted_after [OF this] 2(3,4)]
  have "\<forall>r\<in>set ?rs. ?wake + window \<le> r" and "sorted_wrt (\<lambda>r r'. r + busy + window \<le> r') ?rs" unfolding eq by blast+
  then show ?case by (meson add_right_mono max.cobounded1 order_trans)
next
  case (4 window busy since u us)
  show ?case
  proof (cases "u < since + window")
    case True
    then have eq: "quiet window busy since (u # us) = quiet window busy u (dropWhile (\<lambda>v. v \<le> u) us)" by simp
    have "sorted us" "since \<le> u" using 4(3) by simp_all
    from 4(1) [OF True sorted_after [OF this(1)] 4(4,5)] this(2)
    show ?thesis unfolding eq by (meson add_right_mono order_trans)
  next
    case False
    then have eq: "quiet window busy since (u # us) = (since + window) # serve window busy (since + window + busy) (u # us)" by simp
    have "sorted (u # us)" using 4(3) by simp
    from 4(2) [OF False this 4(4,5)]
    have "\<forall>r\<in>set (serve window busy (since + window + busy) (u # us)). since + window + busy + window \<le> r"
      and "sorted_wrt (\<lambda>r r'. r + busy + window \<le> r') (serve window busy (since + window + busy) (u # us))" by blast+
    moreover have "since + window \<le> since + window + busy + window" using 4(4,5) by simp
    ultimately show ?thesis unfolding eq by (auto simp del: serve.simps intro: order_trans)
  qed
qed simp_all

lemma serve_at_most: "length (serve w b now ts) \<le> length ts" "length (quiet w b now ts) \<le> Suc (length ts)"
proof (induction w b now ts and w b now ts rule: serve_quiet.induct)
  case (2 window busy now t' ts)
  then show ?case using length_dropWhile_le [of "\<lambda>u. u \<le> max now t'" ts] by (simp add: Let_def)
next
  case (4 window busy since u us)
  have "length (dropWhile (\<lambda>v. v \<le> u) us) \<le> length us" by (rule length_dropWhile_le)
  with 4 show ?case by (auto simp del: serve.simps intro: order_trans)
qed simp_all

lemma burst_after:
  assumes "successively (\<lambda>t u. t \<le> u \<and> u < t + w) (x # us)"
  shows "successively (\<lambda>t u. t \<le> u \<and> u < t + (w::rat)) (x # dropWhile (\<lambda>v. v \<le> x) us)
    \<and> last (x # dropWhile (\<lambda>v. v \<le> x) us) = last (x # us)"
  using assms
proof (induction us)
  case (Cons v vs)
  show ?case
  proof (cases "v = x")
    case True
    then show ?thesis using Cons by simp
  next
    case False
    then show ?thesis using Cons.prems by simp
  qed
qed simp

lemma successively_sorted:
  "successively P xs \<Longrightarrow> sorted xs \<Longrightarrow> successively (\<lambda>t u. t \<le> u \<and> P t u) xs"
  by (induction xs rule: induct_list012) auto

lemma quiet_burst:
  "successively (\<lambda>t u. t \<le> u \<and> u < t + w) (since # us) \<Longrightarrow> quiet w b since us = [last (since # us) + w]"
proof (induction "length us" arbitrary: since us rule: less_induct)
  case less
  show ?case
  proof (cases us)
    case (Cons u vs)
    have "successively (\<lambda>t u. t \<le> u \<and> u < t + w) (u # vs)" using less.prems Cons by simp
    note b = burst_after [OF this]
    have "quiet w b u (dropWhile (\<lambda>v. v \<le> u) vs) = [last (u # dropWhile (\<lambda>v. v \<le> u) vs) + w]"
      using b Cons length_dropWhile_le [of "\<lambda>v. v \<le> u" vs] by (intro less.hyps) auto
    then show ?thesis using less.prems Cons b by simp
  qed simp
qed

text \<open>
  C38. The debounce loses no invalidation. For every signal a rebuild starts at least 1.5 s after it (so it reads what the signal
  announced); rebuilds never overlap and are at most as many as the signals; and a burst whose signals follow each other within
  1.5 s gives exactly one rebuild, 1.5 s after the last.
\<close>

theorem debounce_covers:
  assumes "sorted signals" and "\<forall>t\<in>set signals. 0 \<le> t" and "0 \<le> busy"
  shows "(\<forall>t\<in>set signals. \<exists>r\<in>set (debounce_worker busy signals). t + 3/2 \<le> r)
      \<and> sorted_wrt (\<lambda>r r'. r + busy + 3/2 \<le> r') (debounce_worker busy signals)
      \<and> length (debounce_worker busy signals) \<le> length signals
      \<and> (signals \<noteq> [] \<longrightarrow> successively (\<lambda>t u. u < t + 3/2) signals \<longrightarrow> debounce_worker busy signals = [last signals + 3/2])"
proof (intro conjI impI)
  note defs = debounce_worker_def DEBOUNCE_SECONDS_def
  show "\<forall>t\<in>set signals. \<exists>r\<in>set (debounce_worker busy signals). t + 3/2 \<le> r"
    using serve_covers(1) [OF assms(1), of "3/2" busy 0] unfolding defs covered_def .
  show "sorted_wrt (\<lambda>r r'. r + busy + 3/2 \<le> r') (debounce_worker busy signals)"
    using serve_spaced(1) [OF assms(1), of "3/2" busy 0] assms(3) by (simp add: defs)
  show "length (debounce_worker busy signals) \<le> length signals" unfolding defs by (rule serve_at_most)
  assume "signals \<noteq> []" and burst: "successively (\<lambda>t u. u < t + 3/2) signals"
  then obtain t ts where ts: "signals = t # ts" by (cases signals) auto
  have "successively (\<lambda>t u. t \<le> u \<and> u < t + 3/2) signals"
    using burst assms(1) by (rule successively_sorted)
  from burst_after [OF this [unfolded ts]] have
    "quiet (3/2) busy t (dropWhile (\<lambda>v. v \<le> t) ts) = [last (t # ts) + 3/2]" by (metis quiet_burst)
  then show "debounce_worker busy signals = [last signals + 3/2]"
    using assms(2) by (simp add: defs ts Let_def max_absorb2)
qed

theorem debounce_covers_witness:
  "debounce_worker 2 [0, 1, 2, 7, 15/2] = [7/2, 9] \<and> (\<exists>r\<in>set (debounce_worker 2 [0, 1, 2, 7, 15/2]). 2 + 3/2 \<le> r)"
  using debounce_covers [of "[0, 1, 2, 7, 15/2]" 2] by (simp add: debounce_worker_def DEBOUNCE_SECONDS_def)

end
