(* ===== verification/Identifiers.thy ===== *)
theory Identifiers
  imports Redis
begin

unbundle bit_operations_syntax

text \<open>
  Identifiers and worker-id leases (\<open>src/core/snowflake.py\<close>, \<open>src/core/worker_id.py\<close>). The clock of the
  generator is the list of its successive readings, so the loops that wait for it consume the list and
  a call that waits for a reading that never comes is \<open>StillWaiting\<close>; the lock makes calls sequential. A lease is a key of the store that
  holds the token of its owner.
\<close>

section \<open>Snowflake ids\<close>

definition EPOCH_MS :: int where "EPOCH_MS = 1735689600000"
definition WORKER_ID_BITS :: nat where "WORKER_ID_BITS = 10"
definition SEQUENCE_BITS :: nat where "SEQUENCE_BITS = 12"
definition MAX_WORKER_ID :: int where "MAX_WORKER_ID = push_bit WORKER_ID_BITS 1 - 1"
definition MAX_SEQUENCE :: int where "MAX_SEQUENCE = push_bit SEQUENCE_BITS 1 - 1"
definition WORKER_ID_SHIFT :: nat where "WORKER_ID_SHIFT = SEQUENCE_BITS"
definition TIMESTAMP_SHIFT :: nat where "TIMESTAMP_SHIFT = SEQUENCE_BITS + WORKER_ID_BITS"
definition MAX_ROLLBACK_WAIT_MS :: int where "MAX_ROLLBACK_WAIT_MS = 1000"

lemmas snow_consts = EPOCH_MS_def WORKER_ID_BITS_def SEQUENCE_BITS_def WORKER_ID_SHIFT_def TIMESTAMP_SHIFT_def
  MAX_ROLLBACK_WAIT_MS_def

lemma snow_limits [simp]: "MAX_WORKER_ID = 1023" "MAX_SEQUENCE = 4095"
  by (simp_all add: MAX_WORKER_ID_def MAX_SEQUENCE_def snow_consts push_bit_eq_mult)

record snowflake =
  sf_worker_id :: int
  sf_last_ms :: int
  sf_sequence :: int

definition snowflake0 :: snowflake where
  "snowflake0 = \<lparr>sf_worker_id = 0, sf_last_ms = -1, sf_sequence = 0\<rparr>"

text \<open>\<open>None\<close> is the \<open>ValueError\<close>.\<close>

definition set_worker_id :: "int \<Rightarrow> snowflake \<Rightarrow> snowflake option" where
  "set_worker_id w sf = (if 0 \<le> w \<and> w \<le> MAX_WORKER_ID then Some (sf\<lparr>sf_worker_id := w\<rparr>) else None)"

text \<open>The loop \<open>while c(now): now = read\<close>.\<close>

fun wait_while :: "(int \<Rightarrow> bool) \<Rightarrow> int \<Rightarrow> int list \<Rightarrow> (int \<times> int list) option" where
  "wait_while c now [] = (if c now then None else Some (now, []))"
| "wait_while c now (t # ts) = (if c now then wait_while c t ts else Some (now, t # ts))"

datatype mint = Minted int snowflake "int list" | ClockRollbackError int "int list" | StillWaiting

definition snow_id :: "int \<Rightarrow> int \<Rightarrow> int \<Rightarrow> int" where
  "snow_id now w sq = push_bit TIMESTAMP_SHIFT (now - EPOCH_MS) OR push_bit WORKER_ID_SHIFT w OR sq"

definition mint_at :: "int \<Rightarrow> int \<Rightarrow> snowflake \<Rightarrow> int list \<Rightarrow> mint" where
  "mint_at now sq sf clock =
     Minted (snow_id now (sf_worker_id sf) sq) (sf\<lparr>sf_last_ms := now, sf_sequence := sq\<rparr>) clock"

definition next_id :: "snowflake \<Rightarrow> int list \<Rightarrow> mint" where
  "next_id sf readings =
     (case readings of
        [] \<Rightarrow> StillWaiting
      | now0 # clock0 \<Rightarrow>
          if now0 < sf_last_ms sf \<and> sf_last_ms sf - now0 > MAX_ROLLBACK_WAIT_MS
          then ClockRollbackError (sf_last_ms sf - now0) clock0
          else (case wait_while (\<lambda>t. t < sf_last_ms sf) now0 clock0 of
                  None \<Rightarrow> StillWaiting
                | Some (now, clock) \<Rightarrow>
                    if now = sf_last_ms sf
                    then (let sq = (sf_sequence sf + 1) AND MAX_SEQUENCE
                          in if sq = 0
                             then (case wait_while (\<lambda>t. t \<le> sf_last_ms sf) now clock of
                                     None \<Rightarrow> StillWaiting
                                   | Some (now', clock') \<Rightarrow> mint_at now' sq sf clock')
                             else mint_at now sq sf clock)
                    else mint_at now 0 sf clock))"

text \<open>What \<open>n\<close> calls mint; a call that raises mints nothing and leaves the generator as it was.\<close>

primrec mint_ids :: "nat \<Rightarrow> snowflake \<Rightarrow> int list \<Rightarrow> int list" where
  "mint_ids 0 sf clock = []"
| "mint_ids (Suc n) sf clock =
     (case next_id sf clock of
        Minted i sf' clock' \<Rightarrow> i # mint_ids n sf' clock'
      | ClockRollbackError d clock' \<Rightarrow> mint_ids n sf clock'
      | StillWaiting \<Rightarrow> [])"

section \<open>Worker-id leases\<close>

definition worker_key :: "int \<Rightarrow> string" where
  "worker_key w = ''snowflake:worker_id:'' @ show_int w"

definition renew_lua :: "int \<Rightarrow> string \<Rightarrow> string \<Rightarrow> int \<Rightarrow> redis \<Rightarrow> bool \<times> redis" where
  "renew_lua now key token ttl s =
     (if redis_get now key s = Some token then (True, redis_expire now key ttl s) else (False, s))"

definition release_lua :: "int \<Rightarrow> string \<Rightarrow> string \<Rightarrow> redis \<Rightarrow> bool \<times> redis" where
  "release_lua now key token s =
     (if redis_get now key s = Some token then (True, redis_delete key s) else (False, s))"

definition try_claim :: "int \<Rightarrow> int \<Rightarrow> string \<Rightarrow> int \<Rightarrow> redis \<Rightarrow> bool option \<times> redis" where
  "try_claim now w token ttl s = rcall (redis_set_nx now (worker_key w) token ttl) s"

record lease =
  ls_worker_id :: int
  ls_token :: string
  ls_ttl_seconds :: int

datatype worker_error = RedisUnreachable | PoolExhausted

fun claim_loop :: "int \<Rightarrow> string \<Rightarrow> int \<Rightarrow> int list \<Rightarrow> redis \<Rightarrow> (worker_error + int) \<times> redis" where
  "claim_loop now token ttl [] s = (Inl PoolExhausted, s)"
| "claim_loop now token ttl (w # ws) s =
     (case try_claim now w token ttl s of
        (None, s1) \<Rightarrow> (Inl RedisUnreachable, s1)
      | (Some True, s1) \<Rightarrow> (Inr w, s1)
      | (Some False, s1) \<Rightarrow> claim_loop now token ttl ws s1)"

text \<open>
  The lease, or \<open>None\<close> for the fallback to id 0 in a local environment; an error elsewhere. \<open>sf\<close> is the
  generator the id is pinned on.
\<close>

definition acquire_worker_id ::
  "bool \<Rightarrow> int \<Rightarrow> string \<Rightarrow> int \<Rightarrow> snowflake \<Rightarrow> redis \<Rightarrow> (worker_error + lease option) \<times> snowflake \<times> redis" where
  "acquire_worker_id local_env now token ttl sf s =
     (case claim_loop now token ttl [0..MAX_WORKER_ID] s of
        (Inr w, s1) \<Rightarrow>
          (Inr (Some \<lparr>ls_worker_id = w, ls_token = token, ls_ttl_seconds = ttl\<rparr>), sf\<lparr>sf_worker_id := w\<rparr>, s1)
      | (Inl e, s1) \<Rightarrow> if local_env then (Inr None, sf\<lparr>sf_worker_id := 0\<rparr>, s1) else (Inl e, sf, s1))"

datatype heartbeat = Renewed int | Retry | LeaseLost

text \<open>
  One beat. \<open>now\<close> is the server's time, \<open>clk\<close> the monotonic clock of the process when the reply (or the
  failure) arrives and \<open>last_renew\<close> its reading at the last renewal, all in milliseconds.
\<close>

definition heartbeat_tick :: "int \<Rightarrow> int \<Rightarrow> int \<Rightarrow> lease \<Rightarrow> redis \<Rightarrow> heartbeat \<times> redis" where
  "heartbeat_tick now clk last_renew l s =
     (case rcall (renew_lua now (worker_key (ls_worker_id l)) (ls_token l) (ls_ttl_seconds l)) s of
        (None, s1) \<Rightarrow> (if ls_ttl_seconds l * 1000 \<le> clk - last_renew then LeaseLost else Retry, s1)
      | (Some True, s1) \<Rightarrow> (Renewed clk, s1)
      | (Some False, s1) \<Rightarrow> (LeaseLost, s1))"

definition release_lease :: "int \<Rightarrow> lease \<Rightarrow> redis \<Rightarrow> redis" where
  "release_lease now l s = snd (rcall (release_lua now (worker_key (ls_worker_id l)) (ls_token l)) s)"

definition heartbeat_interval :: "int \<Rightarrow> int" where
  "heartbeat_interval ttl = max 1 (ttl div 3)"

end
