(* ===== verification/IdentifierFacts.thy ===== *)
theory IdentifierFacts
  imports Identifiers
begin

unbundle bit_operations_syntax

text \<open>
  Ids of one generator increase strictly whatever the clock does, ids of generators with different worker ids
  differ, and an id can be taken apart again. A lease that is renewed has been held without interruption.
\<close>

section \<open>The layout of an id\<close>

lemma or_as_plus:
  fixes a b :: int
  assumes "0 \<le> b" and "b < 2 ^ n"
  shows "push_bit n a OR b = push_bit n a + b"
proof -
  have "take_bit n b = b" using assms by (simp add: take_bit_int_eq_self)
  then have low: "bit b m \<Longrightarrow> m < n" for m by (metis bit_take_bit_iff)
  have "push_bit n a AND b = 0"
    by (rule bit_eqI) (auto simp: bit_and_iff bit_push_bit_iff dest: low)
  then show ?thesis by (simp add: disjunctive_add_eq_or)
qed

lemma snow_id_arith:
  assumes "0 \<le> w" "w \<le> MAX_WORKER_ID" "0 \<le> sq" "sq \<le> MAX_SEQUENCE"
  shows "snow_id now w sq = (now - EPOCH_MS) * 4194304 + w * 4096 + sq"
proof -
  have "push_bit 12 w OR sq = push_bit 12 w + sq" using assms by (intro or_as_plus) simp_all
  moreover have "push_bit 22 (now - EPOCH_MS) OR (push_bit 12 w + sq) = push_bit 22 (now - EPOCH_MS) + (push_bit 12 w + sq)"
    using assms by (intro or_as_plus) (simp_all add: push_bit_eq_mult)
  ultimately show ?thesis
    by (simp add: snow_id_def snow_consts push_bit_eq_mult or.assoc)
qed

definition id_ms :: "int \<Rightarrow> int" where "id_ms i = drop_bit TIMESTAMP_SHIFT i + EPOCH_MS"
definition id_worker :: "int \<Rightarrow> int" where "id_worker i = drop_bit WORKER_ID_SHIFT i AND MAX_WORKER_ID"
definition id_sequence :: "int \<Rightarrow> int" where "id_sequence i = i AND MAX_SEQUENCE"

lemma and_mask:
  "(i::int) AND 4095 = i mod 4096" "(i::int) AND 1023 = i mod 1024"
  using take_bit_eq_mask [of 12 i] take_bit_eq_mask [of 10 i] by (simp_all add: mask_eq_exp_minus_1 take_bit_eq_mod)

lemma snow_id_parts:
  assumes "0 \<le> w" "w \<le> MAX_WORKER_ID" "0 \<le> sq" "sq \<le> MAX_SEQUENCE"
  shows "id_ms (snow_id now w sq) = now" "id_worker (snow_id now w sq) = w" "id_sequence (snow_id now w sq) = sq"
proof -
  have low: "snow_id now w sq = sq + ((now - EPOCH_MS) * 1024 + w) * 4096" and high: "snow_id now w sq = (w * 4096 + sq) + (now - EPOCH_MS) * 4194304"
    using assms by (simp_all add: snow_id_arith)
  have sq: "sq div 4096 = 0" "sq mod 4096 = sq" using assms by (simp_all add: div_pos_pos_trivial)
  have w: "(w * 4096 + sq) div 4194304 = 0" "w mod 1024 = w" using assms by (simp_all add: div_pos_pos_trivial)
  have "snow_id now w sq div 4194304 = now - EPOCH_MS" unfolding high by (subst div_mult_self1) (simp_all add: w)
  then show "id_ms (snow_id now w sq) = now" by (simp add: id_ms_def TIMESTAMP_SHIFT_def SEQUENCE_BITS_def WORKER_ID_BITS_def drop_bit_eq_div)
  have "snow_id now w sq div 4096 = (now - EPOCH_MS) * 1024 + w" unfolding low by (subst div_mult_self1) (simp_all add: sq)
  moreover have "((now - EPOCH_MS) * 1024 + w) mod 1024 = w" by (subst add.commute, subst mod_mult_self1) (rule w)
  ultimately have "snow_id now w sq div 4096 mod 1024 = w" by simp
  then show "id_worker (snow_id now w sq) = w"
    by (simp add: id_worker_def WORKER_ID_SHIFT_def SEQUENCE_BITS_def drop_bit_eq_div and_mask)
  show "id_sequence (snow_id now w sq) = sq" unfolding low by (simp only: id_sequence_def and_mask snow_limits mod_mult_self1 sq)
qed

section \<open>Minting\<close>

lemma wait_while_result:
  "wait_while c now ts = Some (now', ts') \<Longrightarrow> \<not> c now' \<and> now' \<in> set (now # ts) \<and> length ts' \<le> length ts \<and> set ts' \<subseteq> set ts"
  by (induction c now ts rule: wait_while.induct) (auto split: if_splits)

definition snow_ok :: "snowflake \<Rightarrow> bool" where
  "snow_ok sf \<longleftrightarrow> 0 \<le> sf_worker_id sf \<and> sf_worker_id sf \<le> MAX_WORKER_ID \<and> 0 \<le> sf_sequence sf \<and> sf_sequence sf \<le> MAX_SEQUENCE"

definition last_id :: "snowflake \<Rightarrow> int" where
  "last_id sf = snow_id (sf_last_ms sf) (sf_worker_id sf) (sf_sequence sf)"

lemma mint_at_later:
  assumes "snow_ok sf" and "0 \<le> sq" "sq \<le> MAX_SEQUENCE"
    and "sf_last_ms sf < now \<or> sf_last_ms sf = now \<and> sf_sequence sf < sq"
    and "mint_at now sq sf clock = Minted i sf' clock'"
  shows "snow_ok sf' \<and> i = last_id sf' \<and> last_id sf < i \<and> sf_worker_id sf' = sf_worker_id sf \<and> clock' = clock \<and> sf_last_ms sf' = now"
  using assms by (auto simp: mint_at_def snow_ok_def last_id_def snow_id_arith)

lemma next_id_later:
  assumes ok: "snow_ok sf" and m: "next_id sf clock = Minted i sf' clock'"
  shows "snow_ok sf' \<and> i = last_id sf' \<and> last_id sf < i \<and> sf_worker_id sf' = sf_worker_id sf
    \<and> length clock' < length clock \<and> sf_last_ms sf' \<in> set clock \<and> set clock' \<subseteq> set clock"
proof -
  obtain now0 clock0 where c: "clock = now0 # clock0"
    using m by (auto simp: next_id_def split: list.splits)
  obtain now rest where w: "wait_while (\<lambda>t. t < sf_last_ms sf) now0 clock0 = Some (now, rest)"
    using m by (auto simp: next_id_def c split: if_splits option.splits)
  note w' = wait_while_result [OF w]
  let ?sq = "(sf_sequence sf + 1) AND MAX_SEQUENCE"
  have big: "\<not> (now0 < sf_last_ms sf \<and> sf_last_ms sf - now0 > MAX_ROLLBACK_WAIT_MS)"
    using m by (auto simp: next_id_def c)
  consider (new) "now \<noteq> sf_last_ms sf" "mint_at now 0 sf rest = Minted i sf' clock'"
    | (seq) "now = sf_last_ms sf" "?sq \<noteq> 0" "mint_at now ?sq sf rest = Minted i sf' clock'"
    | (full) now2 rest2 where "wait_while (\<lambda>t. t \<le> sf_last_ms sf) now rest = Some (now2, rest2)"
        "mint_at now2 0 sf rest2 = Minted i sf' clock'"
    using m by (auto simp: next_id_def c w big Let_def split: if_splits option.splits)
  then show ?thesis
  proof cases
    case new
    then show ?thesis using mint_at_later [OF ok _ _ _ new(2)] w' c by auto
  next
    case seq
    have "?sq = sf_sequence sf + 1"
    proof -
      have "sf_sequence sf \<noteq> 4095" using seq(2) by (auto simp: and_mask)
      then show ?thesis using ok by (simp add: snow_ok_def and_mask mod_pos_pos_trivial)
    qed
    then have "0 \<le> ?sq" "?sq \<le> MAX_SEQUENCE" "sf_sequence sf < ?sq" using ok by (simp_all add: snow_ok_def and_mask)
    then show ?thesis using mint_at_later [OF ok _ _ _ seq(3)] seq(1) w' c by auto
  next
    case (full now2 rest2)
    then show ?thesis using mint_at_later [OF ok _ _ _ full(2)] w' wait_while_result [OF full(1)] c by auto
  qed
qed

lemma wait_while_returns: "\<exists>t\<in>set (now # ts). \<not> c t \<Longrightarrow> wait_while c now ts \<noteq> None"
  by (induction c now ts rule: wait_while.induct) auto

lemma mint_ids_later:
  "snow_ok sf \<Longrightarrow> sorted_wrt (<) (mint_ids n sf clock)
    \<and> (\<forall>i\<in>set (mint_ids n sf clock). last_id sf < i \<and> id_worker i = sf_worker_id sf \<and> id_ms i \<in> set clock
         \<and> i = snow_id (id_ms i) (sf_worker_id sf) (id_sequence i) \<and> 0 \<le> id_sequence i \<and> id_sequence i \<le> MAX_SEQUENCE)"
proof (induction n arbitrary: sf clock)
  case (Suc n)
  show ?case
  proof (cases "next_id sf clock")
    case (Minted i sf' clock')
    note l = next_id_later [OF Suc.prems Minted]
    have "snow_ok sf'" and i: "i = snow_id (sf_last_ms sf') (sf_worker_id sf') (sf_sequence sf')" using l by (auto simp: last_id_def)
    then have "id_worker i = sf_worker_id sf" "id_ms i = sf_last_ms sf'" "id_sequence i = sf_sequence sf'" "0 \<le> sf_sequence sf'" "sf_sequence sf' \<le> MAX_SEQUENCE"
      using l snow_id_parts by (auto simp: snow_ok_def)
    moreover have "sf_worker_id sf' = sf_worker_id sf" "last_id sf < i" "last_id sf' = i" "sf_last_ms sf' \<in> set clock" "set clock' \<subseteq> set clock"
      using l by auto
    moreover note Suc.IH [OF \<open>snow_ok sf'\<close>, of clock']
    ultimately show ?thesis using i Minted by (auto intro: less_trans)
  next
    case (ClockRollbackError d clock')
    then have "set clock' \<subseteq> set clock"
      by (auto simp: next_id_def mint_at_def Let_def split: list.splits if_splits option.splits)
    then show ?thesis using Suc ClockRollbackError by auto
  qed simp
qed simp

text \<open>
  C34. Ids are unique and ordered. Whatever the clock does (stand still, jump back, wrap the sequence), the ids one generator
  mints increase strictly; each carries the worker id, a clock reading and a sequence number that can be read back from it; generators
  with different worker ids never mint the same id; and while the clock is between the epoch and 2^41 ms after it an id is a
  non-negative 63-bit number.
\<close>

theorem snowflake_ids_unique:
  assumes "snow_ok sf"
  shows "sorted_wrt (<) (mint_ids n sf clock)
    \<and> (\<forall>i\<in>set (mint_ids n sf clock). id_worker i = sf_worker_id sf \<and> id_ms i \<in> set clock
         \<and> i = snow_id (id_ms i) (id_worker i) (id_sequence i)
         \<and> (EPOCH_MS \<le> id_ms i \<and> id_ms i < EPOCH_MS + 2 ^ 41 \<longrightarrow> 0 \<le> i \<and> i < 2 ^ 63))
    \<and> (\<forall>sf' n' clock'. snow_ok sf' \<longrightarrow> sf_worker_id sf' \<noteq> sf_worker_id sf
         \<longrightarrow> set (mint_ids n sf clock) \<inter> set (mint_ids n' sf' clock') = {})"
proof (intro conjI ballI allI impI)
  note l = mint_ids_later [OF assms, of n clock]
  show "sorted_wrt (<) (mint_ids n sf clock)" using l by blast
  fix i assume i: "i \<in> set (mint_ids n sf clock)"
  then show w: "id_worker i = sf_worker_id sf" and "id_ms i \<in> set clock" and s: "i = snow_id (id_ms i) (id_worker i) (id_sequence i)"
    using l by auto
  have q: "0 \<le> id_worker i" "id_worker i \<le> MAX_WORKER_ID" "0 \<le> id_sequence i" "id_sequence i \<le> MAX_SEQUENCE"
    using l i w assms by (auto simp: snow_ok_def)
  note arith = s [unfolded snow_id_arith [OF q]]
  assume "EPOCH_MS \<le> id_ms i \<and> id_ms i < EPOCH_MS + 2 ^ 41"
  then have "0 \<le> id_ms i - EPOCH_MS" "id_ms i - EPOCH_MS \<le> 2199023255551" by simp_all
  with q arith show "0 \<le> i" and "i < 2 ^ 63" by simp_all
next
  fix sf' n' clock' assume "snow_ok sf'" "sf_worker_id sf' \<noteq> sf_worker_id sf"
  then show "set (mint_ids n sf clock) \<inter> set (mint_ids n' sf' clock') = {}"
    using mint_ids_later [OF assms, of n clock] mint_ids_later [of sf' n' clock'] by (metis disjoint_iff)
qed

theorem snowflake_ids_unique_witness:
  "snow_ok snowflake0 \<and> length (mint_ids 4 snowflake0 [1735689600005, 1735689600005, 1735689600004, 1735689600003, 1735689600005, 1735689600007]) = 4
   \<and> sorted_wrt (<) (mint_ids 4 snowflake0 [1735689600005, 1735689600005, 1735689600004, 1735689600003, 1735689600005, 1735689600007])"
proof -
  have ok: "snow_ok snowflake0" by (simp add: snow_ok_def snowflake0_def)
  have "length (mint_ids 4 snowflake0 [1735689600005, 1735689600005, 1735689600004, 1735689600003, 1735689600005, 1735689600007]) = 4"
    by code_simp
  then show ?thesis using ok snowflake_ids_unique [OF ok] by blast
qed

text \<open>
  A call returns as soon as the clock passes the last timestamp, and raises exactly when its first reading is more than a second back.
\<close>

lemma wait_while_keeps:
  "wait_while c now ts = Some (now', ts') \<Longrightarrow> t \<in> set (now # ts) \<Longrightarrow> \<not> c t \<Longrightarrow> t = now' \<or> t \<in> set ts'"
  by (induction c now ts rule: wait_while.induct) (auto split: if_splits)

lemma next_id_returns:
  assumes t: "t \<in> set readings" "sf_last_ms sf < t"
  shows "next_id sf readings \<noteq> StillWaiting"
proof -
  obtain now0 clock0 where c: "readings = now0 # clock0" using t by (cases readings) auto
  have "wait_while (\<lambda>t. t < sf_last_ms sf) now0 clock0 \<noteq> None" using t c by (intro wait_while_returns bexI [of _ t]) auto
  then obtain now rest where w: "wait_while (\<lambda>t. t < sf_last_ms sf) now0 clock0 = Some (now, rest)" by auto
  have "t = now \<or> t \<in> set rest" using wait_while_keeps [OF w] t c by auto
  then have "wait_while (\<lambda>t. t \<le> sf_last_ms sf) now rest \<noteq> None" using t by (intro wait_while_returns bexI [of _ t]) auto
  then show ?thesis by (auto simp: next_id_def c w mint_at_def Let_def)
qed

lemma rollback_raises:
  "(\<exists>rest. next_id sf (now # clock) = ClockRollbackError d rest) \<longleftrightarrow> d = sf_last_ms sf - now \<and> MAX_ROLLBACK_WAIT_MS < d"
  by (auto simp: next_id_def mint_at_def Let_def MAX_ROLLBACK_WAIT_MS_def split: option.splits)

text \<open>The wait is not bounded by the threshold: a jump back while a call waits out a small one is not looked at.\<close>

lemma wait_not_bounded:
  assumes "last_now - 1000 \<le> t" "t < last_now" and "\<forall>u\<in>set us. u < last_now"
  shows "next_id \<lparr>sf_worker_id = w, sf_last_ms = last_now, sf_sequence = sq\<rparr> (t # us) = StillWaiting"
proof -
  have "wait_while (\<lambda>t. t < last_now) t us = None"
    using assms(2,3) by (induction "\<lambda>t. t < last_now" t us rule: wait_while.induct) auto
  then show ?thesis using assms(1) by (simp add: next_id_def MAX_ROLLBACK_WAIT_MS_def)
qed

section \<open>Leases\<close>

datatype lease_event = Claim string int int | Renew string int int | Release string int

text \<open>What an event does at its time, on a healthy connection, and whether the server answers yes.\<close>

primrec lease_do :: "int \<Rightarrow> lease_event \<Rightarrow> redis \<Rightarrow> bool \<times> redis" where
  "lease_do now (Claim tok w ttl) s = redis_set_nx now (worker_key w) tok ttl s"
| "lease_do now (Renew tok w ttl) s = renew_lua now (worker_key w) tok ttl s"
| "lease_do now (Release tok w) s = release_lua now (worker_key w) tok s"

fun lease_run :: "(int \<times> lease_event) list \<Rightarrow> redis \<Rightarrow> bool list \<times> redis" where
  "lease_run [] s = ([], s)"
| "lease_run ((now, e) # es) s =
     (case lease_do now e s of (b, s1) \<Rightarrow> case lease_run es s1 of (bs, s2) \<Rightarrow> (b # bs, s2))"

lemma worker_key_inj [simp]: "worker_key v = worker_key w \<longleftrightarrow> v = w"
  by (simp add: worker_key_def)

lemma expired_later: "expired now k s \<Longrightarrow> now \<le> t \<Longrightarrow> expired t k s"
  by (auto simp: expired_def split: option.splits)

text \<open>Once a token does not hold a key, only its own claim brings it back.\<close>

lemma lost_stays_lost:
  assumes "redis_get now (worker_key w) s \<noteq> Some tok" and "\<forall>ttl. e \<noteq> Claim tok w ttl" and "now \<le> t" "t \<le> t'"
    and "lease_do t e s = (b, s')"
  shows "redis_get t' (worker_key w) s' \<noteq> Some tok"
  using assms expired_later [of now "worker_key w" s t]  expired_later [of now "worker_key w" s t']
  by (cases e) (auto simp: redis_get_def redis_set_nx_def redis_set_def renew_lua_def release_lua_def redis_expire_def redis_pexpire_def
      redis_delete_def evict_if_expired_def expired_def Let_def split: if_splits option.splits)

lemma lease_run_length: "lease_run es s = (bs, s') \<Longrightarrow> length bs = length es"
  by (induction es s arbitrary: bs s' rule: lease_run.induct) (auto split: prod.splits)

lemma run_lost:
  assumes "redis_get t (worker_key w) s \<noteq> Some tok" and "\<forall>e\<in>set (take k es). \<forall>ttl. snd e \<noteq> Claim tok w ttl"
    and "sorted (t # map fst es)" and "lease_run es s = (bs, s')" and "k < length es" and "snd (es ! k) = Renew tok w ttl"
  shows "\<not> bs ! k"
  using assms
proof (induction es arbitrary: t s bs k)
  case (Cons te es)
  obtain u e where te: "te = (u, e)" by force
  obtain b s1 where e: "lease_do u e s = (b, s1)" by force
  obtain bs1 where bs: "lease_run es s1 = (bs1, s')" "bs = b # bs1"
    using Cons.prems(4) by (auto simp: te e split: prod.splits)
  have "t \<le> u" using Cons.prems(3) te by simp
  show ?case
  proof (cases k)
    case 0
    have "redis_get u (worker_key w) s \<noteq> Some tok"
      using Cons.prems(1) expired_later [OF _ \<open>t \<le> u\<close>] by (auto simp: redis_get_def split: if_splits)
    then show ?thesis using Cons.prems(6) 0 e te bs by (auto simp: renew_lua_def)
  next
    case (Suc k')
    have "\<forall>ttl. e \<noteq> Claim tok w ttl" using Cons.prems(2) Suc te by auto
    then have "redis_get u (worker_key w) s1 \<noteq> Some tok"
      using lost_stays_lost [OF Cons.prems(1) _ \<open>t \<le> u\<close> order_refl e] by blast
    then show ?thesis
      using Cons.IH [of u s1 k' bs1] Cons.prems(2,3,5,6) Suc te bs by auto
  qed
qed simp

lemma lease_run_split:
  "lease_run (xs @ ys) s = (case lease_run xs s of (bs, s1) \<Rightarrow> case lease_run ys s1 of (cs, s2) \<Rightarrow> (bs @ cs, s2))"
  by (induction xs s rule: lease_run.induct) (auto split: prod.splits)


definition lease_trace :: "(int \<times> lease_event) list" where
  "lease_trace = [(0, Claim ''a'' 0 30), (1000, Claim ''b'' 0 30), (10000, Renew ''a'' 0 30), (50000, Claim ''b'' 0 30), (60000, Renew ''a'' 0 30), (61000, Release ''a'' 0)]"


section \<open>Acquiring\<close>

lemma claim_loop_result:
  assumes "r_wire s = []" and "0 < ttl" and "claim_loop now token ttl ws s = (r, s')"
  shows "case r of
      Inr w \<Rightarrow> (\<exists>us vs. ws = us @ w # vs \<and> (\<forall>u\<in>set us. redis_exists now (worker_key u) s))
        \<and> \<not> redis_exists now (worker_key w) s \<and> redis_get now (worker_key w) s' = Some token
    | Inl e \<Rightarrow> e = PoolExhausted \<and> (\<forall>w\<in>set ws. redis_exists now (worker_key w) s)"
  using assms
proof (induction ws arbitrary: s)
  case (Cons w ws)
  obtain b s1 where c: "redis_set_nx now (worker_key w) token ttl s = (b, s1)" by force
  have wire: "r_wire s1 = []" using c Cons.prems(1) by (metis r_wire_cmds(18) snd_conv)
  have b: "b \<longleftrightarrow> \<not> redis_exists now (worker_key w) s"
    using c by (auto simp: redis_set_nx_def redis_exists_def evict_if_expired_def key_exists_def Let_def split: if_splits)
  show ?case
  proof (cases b)
    case True
    then have "redis_get now (worker_key w) s1 = Some token"
      using c Cons.prems(2) by (auto simp: redis_set_nx_def redis_set_def redis_get_def expired_def Let_def split: if_splits)
    then show ?thesis using Cons.prems True b c by (force simp: try_claim_def)
  next
    case False
    then have "s1 = s" using c b by (auto simp: redis_set_nx_def redis_exists_def evict_if_expired_def Let_def split: if_splits)
    then have IH: "case r of
        Inr w' \<Rightarrow> (\<exists>us vs. ws = us @ w' # vs \<and> (\<forall>u\<in>set us. redis_exists now (worker_key u) s))
          \<and> \<not> redis_exists now (worker_key w') s \<and> redis_get now (worker_key w') s' = Some token
      | Inl e \<Rightarrow> e = PoolExhausted \<and> (\<forall>w\<in>set ws. redis_exists now (worker_key w) s)"
      using Cons.IH [OF Cons.prems(1,2)] Cons.prems False c by (simp add: try_claim_def)
    have w: "redis_exists now (worker_key w) s" using False b by simp
    show ?thesis
    proof (cases r)
      case (Inr w')
      with IH obtain us vs where "ws = us @ w' # vs" "\<forall>u\<in>set us. redis_exists now (worker_key u) s" by auto
      then have "\<exists>us vs. w # ws = us @ w' # vs \<and> (\<forall>u\<in>set us. redis_exists now (worker_key u) s)"
        using w by (intro exI [of _ "w # us"] exI [of _ vs]) simp
      then show ?thesis using IH Inr by simp
    qed (use IH w in simp)
  qed
qed auto

text \<open>
  On a healthy connection a process gets the least worker id nobody holds, owns its key from then on and has the generator
  pinned to it; it is refused (or falls back to 0 in a local environment) only when all 1024 are held.
\<close>

theorem acquire_takes_free_id:
  assumes "r_wire s = []" and "0 < ttl" and "acquire_worker_id local_env now token ttl sf s = (r, sf', s')"
  shows "case r of
      Inr (Some l) \<Rightarrow> 0 \<le> ls_worker_id l \<and> ls_worker_id l \<le> 1023 \<and> ls_token l = token \<and> sf_worker_id sf' = ls_worker_id l
        \<and> \<not> redis_exists now (worker_key (ls_worker_id l)) s
        \<and> (\<forall>v. 0 \<le> v \<and> v < ls_worker_id l \<longrightarrow> redis_exists now (worker_key v) s)
        \<and> redis_get now (worker_key (ls_worker_id l)) s' = Some token
    | Inr None \<Rightarrow> local_env \<and> sf_worker_id sf' = 0 \<and> (\<forall>v. 0 \<le> v \<and> v \<le> 1023 \<longrightarrow> redis_exists now (worker_key v) s)
    | Inl e \<Rightarrow> \<not> local_env \<and> e = PoolExhausted \<and> sf' = sf \<and> (\<forall>v. 0 \<le> v \<and> v \<le> 1023 \<longrightarrow> redis_exists now (worker_key v) s)"
proof -
  obtain c s1 where c: "claim_loop now token ttl [0..MAX_WORKER_ID] s = (c, s1)" by force
  note l = claim_loop_result [OF assms(1,2) c]
  show ?thesis
  proof (cases c)
    case (Inl e)
    then have "e = PoolExhausted" "\<forall>v. 0 \<le> v \<and> v \<le> 1023 \<longrightarrow> redis_exists now (worker_key v) s" using l by auto
    then show ?thesis using assms(3) c Inl by (auto simp: acquire_worker_id_def split: if_splits)
  next
    case (Inr w)
    obtain us vs where w: "[0..MAX_WORKER_ID] = us @ w # vs" "\<forall>u\<in>set us. redis_exists now (worker_key u) s" using l Inr by auto
    have "w \<in> set [0..MAX_WORKER_ID]" using w by simp
    then have bounds: "0 \<le> w" "w \<le> 1023" by auto
    have "v \<in> set us" if "0 \<le> v" "v < w" for v
    proof -
      have "sorted_wrt (<) [0..MAX_WORKER_ID]" by simp
      then have "\<forall>x\<in>set vs. w < x" unfolding w by (simp add: sorted_wrt_append)
      moreover have "v \<in> set (us @ w # vs)" unfolding w(1) [symmetric] using that bounds by simp
      ultimately show ?thesis using that by auto
    qed
    then show ?thesis using assms(3) c Inr l w bounds by (auto simp: acquire_worker_id_def)
  qed
qed

theorem acquire_takes_free_id_witness:
  "(case acquire_worker_id False 0 ''b'' 30 snowflake0 (snd (redis_set_nx 0 (worker_key 0) ''a'' 30 empty_redis)) of
      (Inr (Some l), sf, s) \<Rightarrow> ls_worker_id l = 1 \<and> redis_get 0 (worker_key 1) s = Some ''b'' | _ \<Rightarrow> False)"
proof -
  let ?s = "snd (redis_set_nx 0 (worker_key 0) ''a'' 30 empty_redis)"
  obtain r sf s where a: "acquire_worker_id False 0 ''b'' 30 snowflake0 ?s = (r, sf, s)" by (metis prod.collapse)
  have "r_wire ?s = []" by (simp add: empty_redis_def)
  have ex: "redis_exists 0 (worker_key 0) ?s" "\<not> redis_exists 0 (worker_key 1) ?s" by code_simp+
  have no: "\<not> (\<forall>v. 0 \<le> v \<and> v \<le> 1023 \<longrightarrow> redis_exists 0 (worker_key v) ?s)"
    using ex(2) by (intro notI) (drule spec [of _ 1], simp)
  note t = acquire_takes_free_id [OF \<open>r_wire ?s = []\<close> _ a]
  obtain l where r: "r = Inr (Some l)" using t no by (cases r) (auto split: option.splits)
  have "ls_worker_id l \<noteq> 0" "\<not> 1 < ls_worker_id l" "0 \<le> ls_worker_id l" "redis_get 0 (worker_key (ls_worker_id l)) s = Some ''b''"
    using t r ex by auto
  then have "ls_worker_id l = 1" "redis_get 0 (worker_key 1) s = Some ''b''" by (auto simp: order_class.less_le)
  then show ?thesis unfolding a r by simp
qed

text \<open>
  The self-fence comes too late: 29.9 s after its last renewal a partitioned replica only retries, at 31 s its key has lapsed and another
  replica leases the id, and only the next beat (here 11 s later) stops the first one.
\<close>

lemma fence_after_expiry:
  "let l = \<lparr>ls_worker_id = 0, ls_token = ''a'', ls_ttl_seconds = 30\<rparr>;
       s = snd (redis_set_nx 0 (worker_key 0) ''a'' 30 empty_redis)
   in fst (heartbeat_tick 29900 29900 0 l (s\<lparr>r_wire := [WLost]\<rparr>)) = Retry
      \<and> fst (redis_set_nx 31000 (worker_key 0) ''b'' 30 s)
      \<and> fst (heartbeat_tick 41900 41900 0 l (s\<lparr>r_wire := [WLost]\<rparr>)) = LeaseLost"
  by code_simp

end
