(* ===== verification/RedisCalls.thy ===== *)
theory RedisCalls
  imports Redis
begin

text \<open>
  Programs of Redis calls that do not catch: a call that fails raises and ends the program (\<open>None\<close>), with what was done so
  far in place. Reasoning is by triples: from \<open>P\<close>, a program that returns ends in \<open>Q\<close> and one that raises in \<open>E\<close>,
  whatever the connection does.
\<close>

type_synonym 'a rop = "redis \<Rightarrow> 'a option \<times> redis"

definition rret :: "'a \<Rightarrow> 'a rop" where
  "rret x s = (Some x, s)"

definition rbind :: "'a rop \<Rightarrow> ('a \<Rightarrow> 'b rop) \<Rightarrow> 'b rop" where
  "rbind m f s = (case m s of (None, s1) \<Rightarrow> (None, s1) | (Some x, s1) \<Rightarrow> f x s1)"

definition rthen :: "'a rop \<Rightarrow> 'b rop \<Rightarrow> 'b rop" where
  "rthen m k = rbind m (\<lambda>_. k)"

text \<open>The calls.\<close>

definition c_get :: "int \<Rightarrow> string \<Rightarrow> string option rop" where
  "c_get now k = rcall (rread (redis_get now k))"

definition c_exists :: "int \<Rightarrow> string \<Rightarrow> bool rop" where
  "c_exists now k = rcall (rread (redis_exists now k))"

definition c_smembers :: "int \<Rightarrow> string \<Rightarrow> string list rop" where
  "c_smembers now k = rcall (rread (redis_smembers now k))"

definition c_set :: "int \<Rightarrow> string \<Rightarrow> string \<Rightarrow> int \<Rightarrow> unit rop" where
  "c_set now k v ex = rcall (ruse (redis_set now k v (Some ex)))"

definition c_del :: "string \<Rightarrow> unit rop" where
  "c_del k = rcall (ruse (redis_delete k))"

text \<open>\<open>DEL\<close> of several keys is one call.\<close>

fun redis_delete_all :: "string list \<Rightarrow> redis \<Rightarrow> redis" where
  "redis_delete_all [] s = s"
| "redis_delete_all (k # ks) s = redis_delete_all ks (redis_delete k s)"

definition c_del_all :: "string list \<Rightarrow> unit rop" where
  "c_del_all ks = rcall (ruse (redis_delete_all ks))"

definition c_get_int :: "int \<Rightarrow> string \<Rightarrow> int option rop" where
  "c_get_int now k = rcall (rread (redis_get_int now k))"

definition c_expire :: "int \<Rightarrow> string \<Rightarrow> int \<Rightarrow> unit rop" where
  "c_expire now k secs = rcall (ruse (redis_expire now k secs))"

definition c_sadd :: "int \<Rightarrow> string \<Rightarrow> string \<Rightarrow> int rop" where
  "c_sadd now k m = rcall (redis_sadd now k m)"

definition c_srem :: "int \<Rightarrow> string \<Rightarrow> string \<Rightarrow> unit rop" where
  "c_srem now k m = rcall (ruse (redis_srem now k m))"

definition c_incr :: "int \<Rightarrow> string \<Rightarrow> int rop" where
  "c_incr now k = rcall (redis_incrby now k 1)"

text \<open>\<open>GETDEL\<close>.\<close>

definition redis_getdel :: "int \<Rightarrow> string \<Rightarrow> redis \<Rightarrow> string option \<times> redis" where
  "redis_getdel now k s =
     (case redis_get now k s of None \<Rightarrow> (None, evict_if_expired now k s) | Some v \<Rightarrow> (Some v, redis_delete k s))"

definition c_getdel :: "int \<Rightarrow> string \<Rightarrow> string option rop" where
  "c_getdel now k = rcall (redis_getdel now k)"

lemmas c_defs = c_get_def c_exists_def c_smembers_def c_set_def c_del_def c_expire_def c_sadd_def c_srem_def c_incr_def c_getdel_def

section \<open>Triples\<close>

definition triple :: "(redis \<Rightarrow> bool) \<Rightarrow> 'a rop \<Rightarrow> ('a \<Rightarrow> redis \<Rightarrow> bool) \<Rightarrow> (redis \<Rightarrow> bool) \<Rightarrow> bool" where
  "triple P m Q E \<longleftrightarrow> (\<forall>s. P s \<longrightarrow> (case m s of (None, s') \<Rightarrow> E s' | (Some x, s') \<Rightarrow> Q x s'))"

text \<open>Assertions that do not look at the connection.\<close>

definition wireless :: "(redis \<Rightarrow> bool) \<Rightarrow> bool" where
  "wireless P \<longleftrightarrow> (\<forall>s ws. P (s\<lparr>r_wire := ws\<rparr>) \<longleftrightarrow> P s)"

lemma triple_ret: "(\<And>s. P s \<Longrightarrow> Q x s) \<Longrightarrow> triple P (rret x) Q E"
  by (simp add: triple_def rret_def)

lemma triple_bind: "triple P m R E \<Longrightarrow> (\<And>x. triple (R x) (f x) Q E) \<Longrightarrow> triple P (rbind m f) Q E"
  unfolding triple_def rbind_def by (fastforce split: prod.splits option.splits)

lemma triple_then: "triple P m (\<lambda>_. R) E \<Longrightarrow> triple R k Q E \<Longrightarrow> triple P (rthen m k) Q E"
  unfolding rthen_def by (erule triple_bind)

lemma triple_pre: "triple P' m Q E \<Longrightarrow> (\<And>s. P s \<Longrightarrow> P' s) \<Longrightarrow> triple P m Q E"
  by (simp add: triple_def)

lemma triple_post: "triple P m Q' E \<Longrightarrow> (\<And>x s. Q' x s \<Longrightarrow> Q x s) \<Longrightarrow> triple P m Q E"
  unfolding triple_def by (fastforce split: prod.splits option.splits)

lemma triple_exc: "triple P m Q E' \<Longrightarrow> (\<And>s. E' s \<Longrightarrow> E s) \<Longrightarrow> triple P m Q E"
  unfolding triple_def by (fastforce split: prod.splits option.splits)

lemma triple_call:
  assumes "wireless P" and "wireless E" and "\<And>s. P s \<Longrightarrow> E s"
    and "\<And>s. P s \<Longrightarrow> Q (fst (f s)) (snd (f s)) \<and> E (snd (f s))"
  shows "triple P (rcall f) Q E"
  unfolding triple_def
proof (intro allI impI)
  fix s assume P: "P s"
  then have wires: "P (s\<lparr>r_wire := ws\<rparr>)" for ws using assms(1) by (simp add: wireless_def)
  show "case rcall f s of (None, s') \<Rightarrow> E s' | (Some x, s') \<Rightarrow> Q x s'"
  proof (cases "r_wire s")
    case Nil
    then show ?thesis using assms(4) [OF P] by (simp add: case_prod_unfold Let_def)
  next
    case (Cons w ws)
    show ?thesis
      using assms(3) [OF wires [of ws]] assms(4) [OF wires [of ws]]
      by (cases w) (simp_all add: rcall_def Cons case_prod_unfold Let_def)
  qed
qed

lemma triple_read:
  assumes "wireless P" and "wireless E" and "\<And>s. P s \<Longrightarrow> E s"
  shows "triple P (rcall (rread g)) (\<lambda>x s. P s \<and> x = g s) E"
  using assms by (intro triple_call) (simp_all add: rread_def)

lemma triple_use:
  assumes "wireless P" and "wireless E" and "\<And>s. P s \<Longrightarrow> E s" and "\<And>s. P s \<Longrightarrow> Q (f s) \<and> E (f s)"
  shows "triple P (rcall (ruse f)) (\<lambda>_. Q) E"
  using assms by (intro triple_call) (simp_all add: ruse_def)

text \<open>What a triple says of one run.\<close>

lemma tripleD: "triple P m Q E \<Longrightarrow> P s \<Longrightarrow> m s = (Some x, s') \<Longrightarrow> Q x s'"
  by (force simp: triple_def)

lemma triple_both: "triple P m (\<lambda>_. R) R \<Longrightarrow> P s \<Longrightarrow> R (snd (m s))"
  by (cases "m s"; cases "fst (m s)") (force simp: triple_def)+

section \<open>Cells\<close>

text \<open>All the store holds at a key.\<close>

definition cell :: "redis \<Rightarrow> string \<Rightarrow> int option \<times> string option \<times> string list \<times> (string \<times> int) list
    \<times> (string \<times> int) list \<times> string list \<times> (string \<times> string) list \<times> int option" where
  "cell s k = (r_ints s k, r_strs s k, r_lists s k, r_hashes s k, r_zsets s k, r_sets s k, r_texts s k, r_expiry s k)"

lemma cell_wire [simp]: "cell (s\<lparr>r_wire := ws\<rparr>) k = cell s k"
  by (simp add: cell_def)

lemma cell_other [simp]:
  assumes "k \<noteq> k'"
  shows "cell (evict_if_expired now k s) k' = cell s k'"
    "cell (redis_set now k v ex s) k' = cell s k'"
    "cell (redis_delete k s) k' = cell s k'"
    "cell (redis_expire now k secs s) k' = cell s k'"
    "cell (snd (redis_sadd now k m s)) k' = cell s k'"
    "cell (redis_srem now k m s) k' = cell s k'"
    "cell (snd (redis_incrby now k d s)) k' = cell s k'"
    "cell (snd (redis_getdel now k s)) k' = cell s k'"
  using assms
  by (simp_all add: cell_def redis_set_def redis_delete_def redis_expire_def redis_pexpire_def redis_sadd_def redis_srem_def
      redis_incrby_def redis_getdel_def evict_if_expired_def set_store_def Let_def split: option.split)

lemma cell_eqs:
  assumes "cell s k = cell t k"
  shows "r_strs s k = r_strs t k" "r_sets s k = r_sets t k" "r_ints s k = r_ints t k" "r_expiry s k = r_expiry t k"
    "redis_get now k s = redis_get now k t" "redis_smembers now k s = redis_smembers now k t"
    "redis_exists now k s = redis_exists now k t" "expired now k s = expired now k t" "redis_get_int now k s = redis_get_int now k t"
  using assms by (simp_all add: cell_def redis_get_def redis_smembers_def redis_exists_def expired_def key_exists_def redis_get_int_def)

end
