(* ===== verification/LoginThrottle.thy ===== *)
theory LoginThrottle
  imports RedisCalls
begin

text \<open>
  The login throttle (\<open>src/core/login_throttle.py\<close>): failures counted per user name, with a lock once there are too
  many, and per address. Counters and locks are keys with a lifetime; times are milliseconds, lifetimes seconds.
\<close>

record throttle_policy =
  tp_max_failures :: int
  tp_lockout_seconds :: int
  tp_failure_window_seconds :: int
  tp_ip_max_failures :: int
  tp_ip_window_seconds :: int

definition fail_key :: "string \<Rightarrow> string" where "fail_key username = ''login:fail:'' @ username"
definition lock_key :: "string \<Rightarrow> string" where "lock_key username = ''login:lock:'' @ username"
definition login_ip_key :: "string \<Rightarrow> string" where "login_ip_key ip = ''login:ip:'' @ ip"

definition is_locked :: "int \<Rightarrow> string \<Rightarrow> bool rop" where
  "is_locked now username = c_exists now (lock_key username)"

definition is_ip_limited :: "int \<Rightarrow> throttle_policy \<Rightarrow> string \<Rightarrow> bool rop" where
  "is_ip_limited now pol ip =
     rbind (c_get_int now (login_ip_key ip)) (\<lambda>raw.
       rret (case raw of None \<Rightarrow> False | Some n \<Rightarrow> tp_ip_max_failures pol \<le> n))"

definition when_c :: "bool \<Rightarrow> unit rop \<Rightarrow> unit rop" where
  "when_c b m = (if b then m else rret ())"

definition record_ip_failure :: "int \<Rightarrow> throttle_policy \<Rightarrow> string option \<Rightarrow> unit rop" where
  "record_ip_failure now pol ip =
     (case ip of
        None \<Rightarrow> rret ()
      | Some a \<Rightarrow>
          rbind (c_incr now (login_ip_key a)) (\<lambda>ip_count.
            when_c (ip_count = 1) (c_expire now (login_ip_key a) (tp_ip_window_seconds pol))))"

definition record_failure :: "int \<Rightarrow> throttle_policy \<Rightarrow> string \<Rightarrow> string option \<Rightarrow> unit rop" where
  "record_failure now pol username ip =
     rbind (c_incr now (fail_key username)) (\<lambda>count.
     rthen (when_c (count = 1) (c_expire now (fail_key username) (tp_failure_window_seconds pol)))
     (rthen (when_c (tp_max_failures pol \<le> count) (c_set now (lock_key username) ''1'' (tp_lockout_seconds pol)))
     (record_ip_failure now pol ip)))"

definition reset_failures :: "string \<Rightarrow> unit rop" where
  "reset_failures username = c_del_all [fail_key username, lock_key username]"

end
