(* ===== verification/Sessions.thy ===== *)
theory Sessions
  imports RedisCalls RateLimit
begin

text \<open>
  The session store (\<open>src/core/session_store.py\<close>): access tokens by their id in an allowlist, opaque refresh
  tokens by their hash, rotated by \<open>GETDEL\<close>, with markers that recognise a replay. Times are milliseconds, lifetimes
  seconds. A record's user is an \<open>int\<close>; the Boolean Python would accept in its place is never written by
  this module.
\<close>

section \<open>Keys and records\<close>

definition access_key :: "string \<Rightarrow> string" where "access_key jti = ''sess:access:'' @ jti"
definition user_sessions_key :: "int \<Rightarrow> string" where "user_sessions_key u = ''sess:user:'' @ show_int u"
definition refresh_key :: "string \<Rightarrow> string" where "refresh_key h = ''sess:refresh:'' @ h"
definition refresh_used_key :: "string \<Rightarrow> string" where "refresh_used_key h = ''sess:refresh:used:'' @ h"
definition USERS_INDEX :: string where "USERS_INDEX = ''sess:users''"

definition access_record :: "int \<Rightarrow> string \<Rightarrow> string option \<Rightarrow> string option \<Rightarrow> string \<Rightarrow> json" where
  "access_record user_id refresh_hash ip user_agent login_at =
     JObj [(''user_id'', JInt user_id), (''refresh_hash'', JStr refresh_hash), (''ip'', opt_json JStr ip),
           (''user_agent'', opt_json JStr user_agent), (''login_at'', JStr login_at)]"

definition refresh_record :: "int \<Rightarrow> string \<Rightarrow> json" where
  "refresh_record user_id jti = JObj [(''user_id'', JInt user_id), (''access_jti'', JStr jti)]"

definition parse_record :: "string \<Rightarrow> (string \<times> json) list option" where
  "parse_record raw = (case loads raw of Some (JObj d) \<Rightarrow> Some d | _ \<Rightarrow> None)"

definition int_field :: "string \<Rightarrow> (string \<times> json) list \<Rightarrow> int option" where
  "int_field k d = (case dget k d of JInt i \<Rightarrow> Some i | _ \<Rightarrow> None)"

definition str_field :: "string \<Rightarrow> (string \<times> json) list \<Rightarrow> string option" where
  "str_field k d = (case dget k d of JStr t \<Rightarrow> Some t | _ \<Rightarrow> None)"

section \<open>Opening a session\<close>

definition create_session ::
  "int \<Rightarrow> string \<Rightarrow> int \<Rightarrow> string \<Rightarrow> int \<Rightarrow> string \<Rightarrow> int \<Rightarrow> string option \<Rightarrow> string option \<Rightarrow> unit rop" where
  "create_session now login_at user_id access_jti access_ttl refresh_hash refresh_ttl ip user_agent =
     rthen (c_set now (access_key access_jti) (dumps (access_record user_id refresh_hash ip user_agent login_at)) access_ttl)
     (rthen (c_set now (refresh_key refresh_hash) (dumps (refresh_record user_id access_jti)) refresh_ttl)
     (rthen (c_sadd now (user_sessions_key user_id) access_jti)
     (rthen (c_expire now (user_sessions_key user_id) refresh_ttl)
     (rthen (c_sadd now USERS_INDEX (show_int user_id))
     (rret ())))))"

definition is_access_active :: "int \<Rightarrow> string \<Rightarrow> bool rop" where
  "is_access_active now jti = c_exists now (access_key jti)"

section \<open>Revoking\<close>

definition prune_user_index :: "int \<Rightarrow> int \<Rightarrow> unit rop" where
  "prune_user_index now user_id =
     rbind (c_exists now (user_sessions_key user_id)) (\<lambda>remaining.
       if remaining then rret () else c_srem now USERS_INDEX (show_int user_id))"

definition drop_user_member :: "int \<Rightarrow> string \<Rightarrow> int option \<Rightarrow> unit rop" where
  "drop_user_member now jti user_id =
     (case user_id of
        None \<Rightarrow> rret ()
      | Some u \<Rightarrow> rthen (c_srem now (user_sessions_key u) jti) (prune_user_index now u))"

definition drop_refresh :: "string option \<Rightarrow> unit rop" where
  "drop_refresh refresh_hash = (case refresh_hash of None \<Rightarrow> rret () | Some h \<Rightarrow> c_del (refresh_key h))"

definition revoke_access :: "int \<Rightarrow> string \<Rightarrow> unit rop" where
  "revoke_access now jti =
     rbind (c_get now (access_key jti)) (\<lambda>raw.
     rthen (c_del (access_key jti))
       (case Option.bind raw parse_record of
          None \<Rightarrow> rret ()
        | Some d \<Rightarrow> rthen (drop_user_member now jti (int_field ''user_id'' d)) (drop_refresh (str_field ''refresh_hash'' d))))"

definition revoke_member :: "int \<Rightarrow> string \<Rightarrow> unit rop" where
  "revoke_member now jti =
     rbind (c_get now (access_key jti)) (\<lambda>raw.
     rthen (c_del (access_key jti))
       (case Option.bind raw parse_record of
          None \<Rightarrow> rret ()
        | Some d \<Rightarrow> drop_refresh (str_field ''refresh_hash'' d)))"

fun revoke_members :: "int \<Rightarrow> string list \<Rightarrow> unit rop" where
  "revoke_members now [] = rret ()"
| "revoke_members now (jti # jtis) = rthen (revoke_member now jti) (revoke_members now jtis)"

definition revoke_all_sessions :: "int \<Rightarrow> int \<Rightarrow> unit rop" where
  "revoke_all_sessions now user_id =
     rbind (c_smembers now (user_sessions_key user_id)) (\<lambda>jtis.
     rthen (revoke_members now jtis)
     (rthen (c_del (user_sessions_key user_id))
            (c_srem now USERS_INDEX (show_int user_id))))"

section \<open>Rotation\<close>

datatype refresh_outcome = RefreshOk int string | RefreshInvalid | RefreshReuse int

definition spend_refresh :: "int \<Rightarrow> string \<Rightarrow> int \<Rightarrow> string \<Rightarrow> refresh_outcome rop" where
  "spend_refresh now refresh_hash used_marker_ttl r =
     (case parse_record r of
        None \<Rightarrow> rret RefreshInvalid
      | Some d \<Rightarrow>
          (case (int_field ''user_id'' d, str_field ''access_jti'' d) of
             (Some u, Some jti) \<Rightarrow>
               rthen (c_set now (refresh_used_key refresh_hash) (dumps (JObj [(''user_id'', JInt u)])) used_marker_ttl)
                     (rret (RefreshOk u jti))
           | _ \<Rightarrow> rret RefreshInvalid))"

definition check_replay :: "int \<Rightarrow> string \<Rightarrow> refresh_outcome rop" where
  "check_replay now refresh_hash =
     rbind (c_get now (refresh_used_key refresh_hash)) (\<lambda>used_raw.
       case Option.bind (Option.bind used_raw parse_record) (int_field ''user_id'') of
         Some u \<Rightarrow> rthen (revoke_all_sessions now u) (rret (RefreshReuse u))
       | None \<Rightarrow> rret RefreshInvalid)"

definition consume_refresh :: "int \<Rightarrow> string \<Rightarrow> int \<Rightarrow> refresh_outcome rop" where
  "consume_refresh now refresh_hash used_marker_ttl =
     rbind (c_getdel now (refresh_key refresh_hash)) (\<lambda>raw.
       case raw of
         Some r \<Rightarrow> spend_refresh now refresh_hash used_marker_ttl r
       | None \<Rightarrow> check_replay now refresh_hash)"

section \<open>Listing\<close>

record session_info =
  si_access_jti :: string
  si_user_id :: int
  si_ip :: "string option"
  si_user_agent :: "string option"
  si_login_at :: string

definition to_session_info :: "string \<Rightarrow> int \<Rightarrow> (string \<times> json) list \<Rightarrow> session_info" where
  "to_session_info jti user_id d =
     \<lparr>si_access_jti = jti, si_user_id = user_id, si_ip = str_field ''ip'' d, si_user_agent = str_field ''user_agent'' d,
      si_login_at = (case str_field ''login_at'' d of None \<Rightarrow> [] | Some t \<Rightarrow> t)\<rparr>"

fun list_members :: "int \<Rightarrow> int \<Rightarrow> string list \<Rightarrow> session_info list \<Rightarrow> session_info list rop" where
  "list_members now user_id [] acc = rret acc"
| "list_members now user_id (jti # jtis) acc =
     rbind (c_get now (access_key jti)) (\<lambda>raw.
       case raw of
         None \<Rightarrow> rthen (c_srem now (user_sessions_key user_id) jti) (list_members now user_id jtis acc)
       | Some r \<Rightarrow>
           (case parse_record r of
              None \<Rightarrow> list_members now user_id jtis acc
            | Some d \<Rightarrow> list_members now user_id jtis (acc @ [to_session_info jti user_id d])))"

definition list_user_sessions :: "int \<Rightarrow> int \<Rightarrow> session_info list rop" where
  "list_user_sessions now user_id =
     rbind (c_smembers now (user_sessions_key user_id)) (\<lambda>jtis.
     rbind (list_members now user_id jtis []) (\<lambda>sessions.
     rthen (prune_user_index now user_id) (rret sessions)))"

fun list_users :: "int \<Rightarrow> string list \<Rightarrow> session_info list \<Rightarrow> session_info list rop" where
  "list_users now [] acc = rret acc"
| "list_users now (raw_uid # uids) acc =
     (case py_int_of_str raw_uid of
        None \<Rightarrow> rthen (c_srem now USERS_INDEX raw_uid) (list_users now uids acc)
      | Some uid \<Rightarrow>
          rbind (list_user_sessions now uid) (\<lambda>user_sessions.
            if user_sessions = [] then rthen (c_srem now USERS_INDEX raw_uid) (list_users now uids acc)
            else list_users now uids (acc @ user_sessions)))"

definition list_all_sessions :: "int \<Rightarrow> session_info list rop" where
  "list_all_sessions now = rbind (c_smembers now USERS_INDEX) (\<lambda>uids. list_users now uids [])"

end
