(* ===== verification/Identity.thy ===== *)
theory Identity
  imports Service
begin

text \<open>
  Users, roles, menus and departments (\<open>src/db/models/identity.py\<close>, \<open>credential.py\<close>, \<open>attach.py\<close>, the login log of
  \<open>audit.py\<close>), the queries of \<open>src/auth/repository.py\<close> and the principal of a request
  (\<open>AuthenticatedUser\<close> of \<open>src/auth/service.py\<close>). A table is the list of its rows; link tables are lists of pairs.
  The columns the database fills by itself (the timestamps, the ids of links) are left out.
\<close>

section \<open>Rows\<close>

record base_entity =
  be_id :: int
  be_is_deleted :: bool
  be_created_by :: "int option"
  be_create_dept :: "int option"
  be_updated_by :: "int option"

record user_row = base_entity +
  us_username :: string
  us_employee_no :: string
  us_real_name :: "string option"
  us_email :: "string option"
  us_mobile :: "string option"
  us_password :: "string option"
  us_department_id :: "int option"
  us_avatar :: "int option"
  us_status :: string
  us_preferred_locale :: string
  us_remark :: "string option"

record department_row = base_entity +
  de_name :: string
  de_parent_id :: "int option"
  de_sort_order :: int
  de_remark :: "string option"

record role_row = base_entity +
  ro_name :: string
  ro_code :: string
  ro_sort_order :: int
  ro_status :: string
  ro_remark :: "string option"

record menu_row = base_entity +
  me_name :: string
  me_parent_id :: "int option"
  me_menu_type :: string
  me_perms :: "string option"
  me_path :: "string option"
  me_component :: "string option"
  me_query_param :: "string option"
  me_is_frame :: bool
  me_is_cache :: bool
  me_icon :: "string option"
  me_sort_order :: int
  me_visible :: bool
  me_status :: string
  me_remark :: "string option"

record api_key_row =
  ak_id :: int
  ak_is_deleted :: bool
  ak_user_id :: int
  ak_key_hash :: string
  ak_status :: string
  ak_expires_at :: "int option"

record attach_row =
  at_id :: int
  at_is_deleted :: bool
  at_created_by :: "int option"
  at_object_key :: string
  at_bucket :: string
  at_original_name :: "string option"
  at_content_type :: string
  at_file_size :: int
  at_biz_type :: string

record login_log_row =
  ll_user_id :: "int option"
  ll_username :: string
  ll_status :: string
  ll_failure_reason :: "string option"
  ll_request_ip :: "string option"
  ll_user_agent :: "string option"
  ll_trace_id :: "string option"

text \<open>\<open>id_user_roles\<close> holds pairs of a user and a role, \<open>id_role_menus\<close> of a role and a menu.\<close>

record identity_db =
  id_users :: "user_row list"
  id_departments :: "department_row list"
  id_roles :: "role_row list"
  id_menus :: "menu_row list"
  id_user_roles :: "(int \<times> int) list"
  id_role_menus :: "(int \<times> int) list"
  id_api_keys :: "api_key_row list"
  id_attachs :: "attach_row list"

text \<open>An update of the row with a primary key.\<close>

definition update_row :: "int \<Rightarrow> ('a base_entity_scheme \<Rightarrow> 'a base_entity_scheme) \<Rightarrow> 'a base_entity_scheme list \<Rightarrow> 'a base_entity_scheme list" where
  "update_row i f = map (\<lambda>r. if be_id r = i then f r else r)"

section \<open>Queries\<close>

text \<open>\<open>scalar\<close> of a query: its first row.\<close>

definition scalar :: "'a list \<Rightarrow> 'a option" where
  "scalar xs = (case xs of [] \<Rightarrow> None | x # _ \<Rightarrow> Some x)"

definition active_user :: "user_row \<Rightarrow> bool" where
  "active_user u \<longleftrightarrow> \<not> be_is_deleted u \<and> us_status u = user_status_value Usr_active"

definition active_role :: "role_row \<Rightarrow> bool" where
  "active_role r \<longleftrightarrow> \<not> be_is_deleted r \<and> ro_status r = ACTIVE"

definition active_menu :: "menu_row \<Rightarrow> bool" where
  "active_menu m \<longleftrightarrow> \<not> be_is_deleted m \<and> me_status m = ACTIVE"

definition get_user_by_username :: "string \<Rightarrow> identity_db \<Rightarrow> user_row option" where
  "get_user_by_username username db = scalar [u \<leftarrow> id_users db. us_username u = username \<and> active_user u]"

definition get_user_by_id :: "int \<Rightarrow> identity_db \<Rightarrow> user_row option" where
  "get_user_by_id user_id db = scalar [u \<leftarrow> id_users db. be_id u = user_id \<and> active_user u]"

definition get_api_key_by_hash :: "string \<Rightarrow> identity_db \<Rightarrow> api_key_row option" where
  "get_api_key_by_hash key_hash db =
     scalar [k \<leftarrow> id_api_keys db. ak_key_hash k = key_hash \<and> \<not> ak_is_deleted k \<and> ak_status k = api_key_status_value AK_active]"

definition get_owned_avatar :: "int \<Rightarrow> int \<Rightarrow> identity_db \<Rightarrow> attach_row option" where
  "get_owned_avatar attach_id owner_id db =
     scalar [a \<leftarrow> id_attachs db. at_id a = attach_id \<and> \<not> at_is_deleted a
               \<and> at_biz_type a = attach_biz_type_value AB_avatar \<and> at_created_by a = Some owner_id]"

definition get_attach_object_key :: "int \<Rightarrow> identity_db \<Rightarrow> string option" where
  "get_attach_object_key attach_id db =
     map_option at_object_key (scalar [a \<leftarrow> id_attachs db. at_id a = attach_id \<and> \<not> at_is_deleted a])"

text \<open>The codes of the menus that are active, without the empty ones.\<close>

definition codes_of :: "menu_row list \<Rightarrow> string set" where
  "codes_of ms = set [c. m \<leftarrow> ms, active_menu m, c \<leftarrow> (case me_perms m of None \<Rightarrow> [] | Some c \<Rightarrow> [c]), c \<noteq> []]"

definition list_permission_codes :: "int \<Rightarrow> identity_db \<Rightarrow> string set" where
  "list_permission_codes user_id db =
     codes_of [m. m \<leftarrow> id_menus db, (r', m') \<leftarrow> id_role_menus db, m' = be_id m,
                  r \<leftarrow> id_roles db, be_id r = r', active_role r,
                  (u', r'') \<leftarrow> id_user_roles db, r'' = be_id r, u' = user_id]"

definition list_permission_codes_for_roles :: "int list \<Rightarrow> identity_db \<Rightarrow> string set" where
  "list_permission_codes_for_roles role_ids db =
     (if role_ids = [] then {}
      else codes_of [m. m \<leftarrow> id_menus db, (r', m') \<leftarrow> id_role_menus db, m' = be_id m, r' \<in> set role_ids,
                        r \<leftarrow> id_roles db, be_id r = r', active_role r])"

definition list_permission_codes_for_menus :: "int list \<Rightarrow> identity_db \<Rightarrow> string set" where
  "list_permission_codes_for_menus menu_ids db =
     (if menu_ids = [] then {} else codes_of [m \<leftarrow> id_menus db. be_id m \<in> set menu_ids])"

definition list_active_role_codes :: "int \<Rightarrow> identity_db \<Rightarrow> string set" where
  "list_active_role_codes user_id db =
     set [ro_code r. r \<leftarrow> id_roles db, active_role r, (u', r') \<leftarrow> id_user_roles db, r' = be_id r, u' = user_id]"

definition list_active_roles_by_ids :: "int list \<Rightarrow> identity_db \<Rightarrow> role_row list" where
  "list_active_roles_by_ids role_ids db =
     (if role_ids = [] then [] else [r \<leftarrow> id_roles db. be_id r \<in> set role_ids \<and> active_role r])"

section \<open>The principal of a request\<close>

datatype credential_kind = CK_jwt | CK_api_key

definition SUPERADMIN_ROLE_CODE :: string where "SUPERADMIN_ROLE_CODE = ''superadmin''"

record authenticated_user = auth_user +
  au_username :: string
  au_permissions :: "string set"
  au_role_codes :: "string set"
  au_real_name :: "string option"
  au_email :: "string option"
  au_mobile :: "string option"
  au_preferred_locale :: string
  au_avatar :: "int option"
  au_credential_kind :: credential_kind
  au_api_key_id :: "int option"

definition is_superuser :: "authenticated_user \<Rightarrow> bool" where
  "is_superuser a \<longleftrightarrow> SUPERADMIN_ROLE_CODE \<in> au_role_codes a"

definition has_permission :: "authenticated_user \<Rightarrow> string \<Rightarrow> bool" where
  "has_permission a required \<longleftrightarrow> is_superuser a \<or> required \<in> au_permissions a"

section \<open>What the queries find\<close>

lemma scalar_Some: "scalar xs = Some x \<Longrightarrow> x \<in> set xs"
  by (cases xs) (auto simp: scalar_def)

lemma scalar_None: "scalar xs = None \<longleftrightarrow> xs = []"
  by (cases xs) (auto simp: scalar_def)

lemma codes_of_iff:
  "c \<in> codes_of ms \<longleftrightarrow> (\<exists>m\<in>set ms. active_menu m \<and> me_perms m = Some c \<and> c \<noteq> [])"
proof -
  have "codes_of ms = {c. \<exists>m\<in>set ms. active_menu m \<and> me_perms m = Some c \<and> c \<noteq> []}"
    unfolding codes_of_def by (force split: option.splits)
  then show ?thesis by simp
qed

text \<open>A role confers a code when it is active and grants an active menu with that code.\<close>

definition confers :: "identity_db \<Rightarrow> int \<Rightarrow> string \<Rightarrow> bool" where
  "confers db role_id c \<longleftrightarrow>
     (\<exists>r\<in>set (id_roles db). be_id r = role_id \<and> active_role r)
     \<and> (\<exists>m\<in>set (id_menus db). (role_id, be_id m) \<in> set (id_role_menus db) \<and> active_menu m \<and> me_perms m = Some c \<and> c \<noteq> [])"

lemma permission_codes_iff:
  "c \<in> list_permission_codes u db \<longleftrightarrow> (\<exists>r. (u, r) \<in> set (id_user_roles db) \<and> confers db r c)"
proof -
  have "set [m. m \<leftarrow> id_menus db, (r', m') \<leftarrow> id_role_menus db, m' = be_id m,
               r \<leftarrow> id_roles db, be_id r = r', active_role r, (u', r'') \<leftarrow> id_user_roles db, r'' = be_id r, u' = u]
      = {m \<in> set (id_menus db). \<exists>r\<in>set (id_roles db). active_role r \<and> (be_id r, be_id m) \<in> set (id_role_menus db)
           \<and> (u, be_id r) \<in> set (id_user_roles db)}"
    by (auto split: if_splits)
  then show ?thesis unfolding list_permission_codes_def codes_of_iff confers_def by blast
qed

lemma permission_codes_for_roles_iff:
  "c \<in> list_permission_codes_for_roles rs db \<longleftrightarrow> (\<exists>r\<in>set rs. confers db r c)"
proof (cases "rs = []")
  case False
  have joined: "set [m. m \<leftarrow> id_menus db, (r', m') \<leftarrow> id_role_menus db, m' = be_id m, r' \<in> set rs, r \<leftarrow> id_roles db, be_id r = r', active_role r]
      = {m \<in> set (id_menus db). \<exists>r\<in>set (id_roles db). be_id r \<in> set rs \<and> active_role r \<and> (be_id r, be_id m) \<in> set (id_role_menus db)}"
    by (auto split: if_splits)
  show ?thesis by (simp only: list_permission_codes_for_roles_def False if_False codes_of_iff confers_def joined) blast
qed (simp add: list_permission_codes_for_roles_def)

lemma permission_codes_for_menus_iff:
  "c \<in> list_permission_codes_for_menus ms db
     \<longleftrightarrow> (\<exists>m\<in>set (id_menus db). be_id m \<in> set ms \<and> active_menu m \<and> me_perms m = Some c \<and> c \<noteq> [])"
  by (cases ms) (auto simp: list_permission_codes_for_menus_def codes_of_iff)

lemma role_codes_iff:
  "c \<in> list_active_role_codes u db
     \<longleftrightarrow> (\<exists>r\<in>set (id_roles db). active_role r \<and> (u, be_id r) \<in> set (id_user_roles db) \<and> ro_code r = c)"
  unfolding list_active_role_codes_def by (auto; blast)

end
