(* ===== verification/PermCache.thy ===== *)
theory PermCache
  imports Identity RedisCalls
begin

text \<open>
  The cache-aside helper (\<open>src/core/cache.py\<close>) and the permission snapshots of a user kept with it
  (\<open>src/auth/perm_cache.py\<close>): the key of a snapshot embeds two generation counters, which an administrative change
  increments after its commit. A loader's result is an argument; \<open>None\<close> is a loader that raises.
\<close>

section \<open>Cache-aside\<close>

text \<open>What decoding an entry does: a value, one of the two errors the helper catches, or another one.\<close>

datatype 'a decoded = Decoded 'a | BadEntry | OtherError

definition seed_cache :: "int \<Rightarrow> string \<Rightarrow> int \<Rightarrow> ('a \<Rightarrow> string) \<Rightarrow> 'a option \<Rightarrow> redis \<Rightarrow> 'a res \<times> redis" where
  "seed_cache now key ttl enc loaded s =
     (case loaded of
        None \<Rightarrow> (RCrash, s)
      | Some v \<Rightarrow> (ROk v, snd (rcall (ruse (redis_set now key (enc v) (Some ttl))) s)))"

definition get_or_load ::
  "int \<Rightarrow> string \<Rightarrow> int \<Rightarrow> ('a \<Rightarrow> string) \<Rightarrow> (string \<Rightarrow> 'a decoded) \<Rightarrow> 'a option \<Rightarrow> redis \<Rightarrow> 'a res \<times> redis" where
  "get_or_load now key ttl enc dec loaded s =
     (case rcall (rread (redis_get now key)) s of
        (None, s1) \<Rightarrow> ((case loaded of None \<Rightarrow> RCrash | Some v \<Rightarrow> ROk v), s1)
      | (Some None, s1) \<Rightarrow> seed_cache now key ttl enc loaded s1
      | (Some (Some cached), s1) \<Rightarrow>
          (case dec cached of
             Decoded v \<Rightarrow> (ROk v, s1)
           | BadEntry \<Rightarrow> seed_cache now key ttl enc loaded s1
           | OtherError \<Rightarrow> (RCrash, s1)))"

definition invalidate_keys :: "string list \<Rightarrow> redis \<Rightarrow> redis" where
  "invalidate_keys keys s = (if keys = [] then s else snd (rcall (ruse (redis_delete_all keys)) s))"

section \<open>Snapshots\<close>

record permission_snapshot =
  ps_permissions :: "string set"
  ps_role_codes :: "string set"

definition GLOBAL_GEN_KEY :: string where "GLOBAL_GEN_KEY = ''auth:perm:gen:global''"
definition USER_GEN_PREFIX :: string where "USER_GEN_PREFIX = ''auth:perm:gen:user:''"
definition SNAP_PREFIX :: string where "SNAP_PREFIX = ''auth:perm:snap:''"

definition encode_snapshot :: "permission_snapshot \<Rightarrow> string" where
  "encode_snapshot p =
     dumps (JObj [(''permissions'', JArr (map JStr (sorted_list_of_set (ps_permissions p)))),
                  (''role_codes'', JArr (map JStr (sorted_list_of_set (ps_role_codes p))))])"

text \<open>
  \<open>frozenset(v)\<close>, kept to its texts (a permission is only ever compared with a text): the elements of a list, unless one
  is not hashable, the characters of a text, the keys of an object; \<open>None\<close> is the \<open>TypeError\<close> of anything else.
\<close>

definition hashable :: "json \<Rightarrow> bool" where
  "hashable j = (case j of JArr _ \<Rightarrow> False | JObj _ \<Rightarrow> False | _ \<Rightarrow> True)"

definition frozenset_of :: "json \<Rightarrow> string set option" where
  "frozenset_of j =
     (case j of
        JArr js \<Rightarrow> if list_all hashable js then Some (set [t. JStr t \<leftarrow> js]) else None
      | JStr t \<Rightarrow> Some (set (map (\<lambda>c. [c]) t))
      | JObj d \<Rightarrow> Some (set (map fst d))
      | _ \<Rightarrow> None)"

text \<open>\<open>data["permissions"]\<close>: a missing key is a \<open>KeyError\<close>, anything but an object a \<open>TypeError\<close>.\<close>

definition decode_snapshot :: "string \<Rightarrow> permission_snapshot decoded" where
  "decode_snapshot raw =
     (case loads raw of
        Some (JObj d) \<Rightarrow>
          (case map_of d ''permissions'' of
             None \<Rightarrow> OtherError
           | Some p \<Rightarrow>
               (case frozenset_of p of
                  None \<Rightarrow> BadEntry
                | Some ps \<Rightarrow>
                    (case map_of d ''role_codes'' of
                       None \<Rightarrow> OtherError
                     | Some r \<Rightarrow>
                         (case frozenset_of r of
                            None \<Rightarrow> BadEntry
                          | Some rs \<Rightarrow> Decoded \<lparr>ps_permissions = ps, ps_role_codes = rs\<rparr>))))
      | _ \<Rightarrow> BadEntry)"

definition user_gen_key :: "int \<Rightarrow> string" where
  "user_gen_key user_id = USER_GEN_PREFIX @ show_int user_id"

definition snapshot_key :: "int \<Rightarrow> string \<Rightarrow> string \<Rightarrow> string" where
  "snapshot_key user_id global_gen user_gen =
     SNAP_PREFIX @ show_int user_id @ '':'' @ global_gen @ '':'' @ user_gen"

definition gen_text :: "int option \<Rightarrow> string" where
  "gen_text g = (case g of None \<Rightarrow> ''0'' | Some i \<Rightarrow> show_int i)"

definition perm_generations :: "int \<Rightarrow> int \<Rightarrow> redis \<Rightarrow> (string \<times> string) option \<times> redis" where
  "perm_generations now user_id =
     rcall (rread (\<lambda>s. (gen_text (redis_get_int now GLOBAL_GEN_KEY s), gen_text (redis_get_int now (user_gen_key user_id) s))))"

definition load_snapshot ::
  "int \<Rightarrow> int \<Rightarrow> int \<Rightarrow> permission_snapshot option \<Rightarrow> redis \<Rightarrow> permission_snapshot res \<times> redis" where
  "load_snapshot now ttl user_id loaded s =
     (case perm_generations now user_id s of
        (None, s1) \<Rightarrow> ((case loaded of None \<Rightarrow> RCrash | Some v \<Rightarrow> ROk v), s1)
      | (Some (g, u), s1) \<Rightarrow>
          get_or_load now (snapshot_key user_id g u) ttl encode_snapshot decode_snapshot loaded s1)"

definition invalidate_user :: "int \<Rightarrow> int \<Rightarrow> redis \<Rightarrow> redis" where
  "invalidate_user now user_id s = snd (rcall (redis_incrby now (user_gen_key user_id) 1) s)"

definition invalidate_all :: "int \<Rightarrow> redis \<Rightarrow> redis" where
  "invalidate_all now s = snd (rcall (redis_incrby now GLOBAL_GEN_KEY 1) s)"

text \<open>The loader of \<open>src/auth/service.py\<close>.\<close>

definition load_permission_snapshot :: "int \<Rightarrow> identity_db \<Rightarrow> permission_snapshot" where
  "load_permission_snapshot user_id db =
     \<lparr>ps_permissions = list_permission_codes user_id db, ps_role_codes = list_active_role_codes user_id db\<rparr>"

end
