(* ===== verification/AuthService.thy ===== *)
theory AuthService
  imports LoginThrottle Sessions PermCache
begin

text \<open>
  The use cases of \<open>src/auth/service.py\<close> with the token and password rules of \<open>src/core/security.py\<close> they apply. The
  identity tables are an argument, Redis and the login log, which is written in a unit of work of its own, are the state \<open>auth_io\<close>.
  Password hashing, token signing and its verification, digests and random texts are third-party code and inputs of
  \<open>auth_env\<close>; its \<open>en_now\<close> is the time of the call. An exception that no handler of the service translates is \<open>RCrash\<close>.
\<close>

record access_claims =
  cl_sub :: string
  cl_jti :: string
  cl_token_use :: string

record auth_env =
  en_now :: int
  en_login_at :: string
  en_policy :: throttle_policy
  en_access_ttl :: int
  en_refresh_ttl :: int
  en_perm_ttl :: int
  en_password_min_length :: int
  en_verify :: "string \<Rightarrow> string \<Rightarrow> bool"
  en_hash :: "string \<Rightarrow> string"
  en_sign :: "int \<Rightarrow> (string \<times> string) option"
  en_jwt :: "string \<Rightarrow> json option"
  en_claims :: "(string \<times> json) list \<Rightarrow> access_claims option"
  en_refresh_text :: string
  en_sha :: "string \<Rightarrow> string"
  en_audit_ok :: bool

record auth_io =
  io_redis :: redis
  io_logs :: "login_log_row list"

text \<open>A program of Redis calls inside a use case: what it raises is not translated.\<close>

definition with_redis :: "'a rop \<Rightarrow> ('a \<Rightarrow> auth_io \<Rightarrow> 'b res \<times> auth_io) \<Rightarrow> auth_io \<Rightarrow> 'b res \<times> auth_io" where
  "with_redis m f io =
     (case m (io_redis io) of
        (None, s) \<Rightarrow> (RCrash, io\<lparr>io_redis := s\<rparr>)
      | (Some x, s) \<Rightarrow> f x (io\<lparr>io_redis := s\<rparr>))"

text \<open>\<open>str.lower\<close> on the characters below 256.\<close>

definition py_lower :: "string \<Rightarrow> string" where
  "py_lower = map (\<lambda>c. let n = of_char c :: nat
     in if (65 \<le> n \<and> n \<le> 90) \<or> (192 \<le> n \<and> n \<le> 222 \<and> n \<noteq> 215) then char_of (n + 32) else c)"

section \<open>Passwords and tokens\<close>

text \<open>\<open>str.isalpha\<close> and \<open>str.isdigit\<close> on the characters below 256.\<close>

definition py_isalpha :: "char \<Rightarrow> bool" where
  "py_isalpha c =
     (let n = of_char c :: nat
      in (65 \<le> n \<and> n \<le> 90) \<or> (97 \<le> n \<and> n \<le> 122) \<or> n \<in> {170, 181, 186} \<or> (192 \<le> n \<and> n \<le> 214)
         \<or> (216 \<le> n \<and> n \<le> 246) \<or> (248 \<le> n \<and> n \<le> 255))"

definition py_isdigit :: "char \<Rightarrow> bool" where
  "py_isdigit c = (let n = of_char c :: nat in (48 \<le> n \<and> n \<le> 57) \<or> n \<in> {178, 179, 185})"

definition password_strength_violations :: "string \<Rightarrow> int \<Rightarrow> string list" where
  "password_strength_violations plain min_length =
     (if int (length plain) < min_length then [''too_short''] else [])
     @ (if \<not> list_ex py_isalpha plain then [''no_letter''] else [])
     @ (if \<not> list_ex py_isdigit plain then [''no_digit''] else [])"

definition issue_access_token :: "auth_env \<Rightarrow> int \<Rightarrow> (string \<times> int \<times> string) option" where
  "issue_access_token env user_id = map_option (\<lambda>(token, jti). (token, en_access_ttl env, jti)) (en_sign env user_id)"

definition issue_refresh_token :: "auth_env \<Rightarrow> string \<times> string" where
  "issue_refresh_token env = (en_refresh_text env, en_sha env (en_refresh_text env))"

text \<open>\<open>None\<close> is the \<open>TokenError\<close>.\<close>

definition decode_access_token :: "auth_env \<Rightarrow> string \<Rightarrow> access_claims option" where
  "decode_access_token env token =
     (case en_jwt env token of
        Some (JObj payload) \<Rightarrow>
          (case en_claims env payload of
             None \<Rightarrow> None
           | Some claims \<Rightarrow> if cl_token_use claims \<noteq> ''access'' then None else Some claims)
      | _ \<Rightarrow> None)"

section \<open>Login\<close>

text \<open>The column widths a login row has to fit in.\<close>

definition fits :: "nat \<Rightarrow> string option \<Rightarrow> bool" where
  "fits n v = (case v of None \<Rightarrow> True | Some t \<Rightarrow> length t \<le> n)"

definition login_row_fits :: "login_log_row \<Rightarrow> bool" where
  "login_row_fits r \<longleftrightarrow> length (ll_username r) \<le> 64 \<and> fits 45 (ll_request_ip r) \<and> fits 255 (ll_user_agent r) \<and> fits 64 (ll_trace_id r)"

record login_origin =
  lo_ip :: "string option"
  lo_user_agent :: "string option"
  lo_trace_id :: "string option"

definition login_row :: "int option \<Rightarrow> string \<Rightarrow> audit_outcome \<Rightarrow> login_failure_reason option \<Rightarrow> login_origin \<Rightarrow> login_log_row" where
  "login_row user_id username outcome reason origin =
     \<lparr>ll_user_id = user_id, ll_username = username, ll_status = audit_outcome_value outcome,
      ll_failure_reason = map_option login_failure_reason_value reason, ll_request_ip = lo_ip origin,
      ll_user_agent = lo_user_agent origin, ll_trace_id = lo_trace_id origin\<rparr>"

text \<open>\<open>_record_login\<close>, then the rest; a failure of the unit of work is not caught.\<close>

definition record_login ::
  "auth_env \<Rightarrow> int option \<Rightarrow> string \<Rightarrow> audit_outcome \<Rightarrow> login_failure_reason option \<Rightarrow> login_origin
    \<Rightarrow> (auth_io \<Rightarrow> 'b res \<times> auth_io) \<Rightarrow> auth_io \<Rightarrow> 'b res \<times> auth_io" where
  "record_login env user_id username outcome reason origin k io =
     (let row = login_row user_id username outcome reason origin
      in if en_audit_ok env \<and> login_row_fits row then k (io\<lparr>io_logs := io_logs io @ [row]\<rparr>) else (RCrash, io))"

definition raise_error :: "error_code \<Rightarrow> int \<Rightarrow> auth_io \<Rightarrow> 'b res \<times> auth_io" where
  "raise_error code st io = (RErr (app_err code st), io)"

definition refuse_login ::
  "auth_env \<Rightarrow> int option \<Rightarrow> string \<Rightarrow> login_failure_reason \<Rightarrow> login_origin \<Rightarrow> auth_io \<Rightarrow> 'b res \<times> auth_io" where
  "refuse_login env user_id username reason origin =
     record_login env user_id username AO_failure (Some reason) origin
       (with_redis (record_failure (en_now env) (en_policy env) username (lo_ip origin))
         (\<lambda>_. raise_error EC_auth_invalid_token 401))"

definition login_closed :: "auth_env \<Rightarrow> string \<Rightarrow> string option \<Rightarrow> bool rop" where
  "login_closed env username ip =
     rbind (is_locked (en_now env) username) (\<lambda>locked.
       if locked then rret True
       else (case ip of None \<Rightarrow> rret False | Some a \<Rightarrow> is_ip_limited (en_now env) (en_policy env) a))"

definition open_session ::
  "auth_env \<Rightarrow> int \<Rightarrow> string \<Rightarrow> string \<Rightarrow> string option \<Rightarrow> string option \<Rightarrow> unit rop" where
  "open_session env user_id jti refresh_hash ip user_agent =
     create_session (en_now env) (en_login_at env) user_id jti (en_access_ttl env) refresh_hash (en_refresh_ttl env) ip user_agent"

definition grant_login ::
  "auth_env \<Rightarrow> user_row \<Rightarrow> string \<Rightarrow> login_origin \<Rightarrow> auth_io \<Rightarrow> (string \<times> int \<times> string) res \<times> auth_io" where
  "grant_login env user username origin =
     with_redis (reset_failures username) (\<lambda>_.
       case issue_access_token env (be_id user) of
         None \<Rightarrow> Pair RCrash
       | Some (token, ttl, jti) \<Rightarrow>
           (case issue_refresh_token env of
              (refresh_plain, refresh_hash) \<Rightarrow>
                with_redis (open_session env (be_id user) jti refresh_hash (lo_ip origin) (lo_user_agent origin)) (\<lambda>_.
                  record_login env (Some (be_id user)) username AO_success None origin
                    (Pair (ROk (token, ttl, refresh_plain))))))"

definition password_matches :: "auth_env \<Rightarrow> user_row \<Rightarrow> string \<Rightarrow> bool" where
  "password_matches env user password = (case us_password user of None \<Rightarrow> False | Some h \<Rightarrow> en_verify env h password)"

definition authenticate_password ::
  "auth_env \<Rightarrow> string \<Rightarrow> string \<Rightarrow> login_origin \<Rightarrow> identity_db \<Rightarrow> auth_io \<Rightarrow> (string \<times> int \<times> string) res \<times> auth_io" where
  "authenticate_password env username password origin db =
     with_redis (login_closed env username (lo_ip origin)) (\<lambda>closed.
       if closed then
         record_login env None username AO_failure (Some LF_account_locked) origin (raise_error EC_auth_account_locked 429)
       else
         (case get_user_by_username username db of
            None \<Rightarrow> refuse_login env None username LF_user_not_found origin
          | Some user \<Rightarrow>
              if \<not> password_matches env user password
              then refuse_login env (Some (be_id user)) username LF_bad_credentials origin
              else grant_login env user username origin))"

section \<open>Resolving credentials\<close>


definition build_user ::
  "auth_env \<Rightarrow> int \<Rightarrow> credential_kind \<Rightarrow> int option \<Rightarrow> identity_db \<Rightarrow> auth_io \<Rightarrow> authenticated_user res \<times> auth_io" where
  "build_user env user_id kind api_key_id db io =
     (case get_user_by_id user_id db of
        None \<Rightarrow> raise_error EC_auth_invalid_token 401 io
      | Some user \<Rightarrow>
          (case load_snapshot (en_now env) (en_perm_ttl env) user_id (Some (load_permission_snapshot user_id db)) (io_redis io) of
             (ROk snapshot, s) \<Rightarrow>
               (ROk \<lparr>au_user_id = user_id, au_department_id = us_department_id user, au_username = us_username user,
                     au_permissions = ps_permissions snapshot, au_role_codes = ps_role_codes snapshot,
                     au_real_name = us_real_name user, au_email = us_email user, au_mobile = us_mobile user,
                     au_preferred_locale = us_preferred_locale user, au_avatar = us_avatar user,
                     au_credential_kind = kind, au_api_key_id = api_key_id\<rparr>, io\<lparr>io_redis := s\<rparr>)
           | (RErr e, s) \<Rightarrow> (RErr e, io\<lparr>io_redis := s\<rparr>)
           | (RCrash, s) \<Rightarrow> (RCrash, io\<lparr>io_redis := s\<rparr>)))"

definition resolve_access_token ::
  "auth_env \<Rightarrow> string \<Rightarrow> identity_db \<Rightarrow> auth_io \<Rightarrow> authenticated_user res \<times> auth_io" where
  "resolve_access_token env token db =
     (case decode_access_token env token of
        None \<Rightarrow> raise_error EC_auth_invalid_token 401
      | Some claims \<Rightarrow>
          (case py_int_of_str (cl_sub claims) of
             None \<Rightarrow> raise_error EC_auth_invalid_token 401
           | Some user_id \<Rightarrow>
               with_redis (is_access_active (en_now env) (cl_jti claims)) (\<lambda>active.
                 if \<not> active then raise_error EC_auth_token_revoked 401
                 else build_user env user_id CK_jwt None db)))"

definition logout :: "auth_env \<Rightarrow> string \<Rightarrow> auth_io \<Rightarrow> unit res \<times> auth_io" where
  "logout env token =
     (case decode_access_token env token of
        None \<Rightarrow> raise_error EC_auth_invalid_token 401
      | Some claims \<Rightarrow> with_redis (revoke_access (en_now env) (cl_jti claims)) (\<lambda>_. Pair (ROk ())))"

definition refresh_session ::
  "auth_env \<Rightarrow> string \<Rightarrow> string option \<Rightarrow> string option \<Rightarrow> auth_io \<Rightarrow> (string \<times> int \<times> string) res \<times> auth_io" where
  "refresh_session env refresh_token ip user_agent =
     with_redis (consume_refresh (en_now env) (en_sha env refresh_token) (en_refresh_ttl env)) (\<lambda>result.
       case result of
         RefreshOk user_id old_jti \<Rightarrow>
           (case issue_access_token env user_id of
              None \<Rightarrow> Pair RCrash
            | Some (token, ttl, jti) \<Rightarrow>
                (case issue_refresh_token env of
                   (refresh_plain, refresh_hash) \<Rightarrow>
                     with_redis (rthen (open_session env user_id jti refresh_hash ip user_agent) (revoke_access (en_now env) old_jti))
                       (\<lambda>_. Pair (ROk (token, ttl, refresh_plain)))))
       | _ \<Rightarrow> raise_error EC_auth_refresh_invalid 401)"

definition api_key_expired :: "int \<Rightarrow> int option \<Rightarrow> bool" where
  "api_key_expired now expires_at = (case expires_at of None \<Rightarrow> False | Some e \<Rightarrow> e < now)"

definition resolve_api_key ::
  "auth_env \<Rightarrow> string \<Rightarrow> identity_db \<Rightarrow> auth_io \<Rightarrow> authenticated_user res \<times> auth_io" where
  "resolve_api_key env plaintext db =
     (case get_api_key_by_hash (en_sha env plaintext) db of
        None \<Rightarrow> raise_error EC_auth_invalid_token 401
      | Some k \<Rightarrow>
          if api_key_expired (en_now env) (ak_expires_at k) then raise_error EC_auth_invalid_token 401
          else build_user env (ak_user_id k) CK_api_key (Some (ak_id k)) db)"

section \<open>The user's own account\<close>

definition update_user_row :: "int \<Rightarrow> (user_row \<Rightarrow> user_row) \<Rightarrow> identity_db \<Rightarrow> identity_db" where
  "update_user_row i f db = db\<lparr>id_users := update_row i f (id_users db)\<rparr>"

text \<open>An avatar given as text: \<open>int\<close> fails or the object is not the caller's.\<close>

definition resolve_avatar_binding :: "string option \<Rightarrow> int \<Rightarrow> identity_db \<Rightarrow> int option res" where
  "resolve_avatar_binding avatar user_id db =
     (case avatar of
        None \<Rightarrow> ROk None
      | Some t \<Rightarrow>
          (case py_int_of_str t of
             None \<Rightarrow> RErr (app_err EC_attach_not_found 404)
           | Some attach_id \<Rightarrow>
               (case get_owned_avatar attach_id user_id db of
                  None \<Rightarrow> RErr (app_err EC_attach_not_found 404)
                | Some a \<Rightarrow> ROk (Some (at_id a)))))"

text \<open>The fields of a profile update: those given, each possibly null.\<close>

record profile_update =
  pu_real_name :: "string option option"
  pu_email :: "string option option"
  pu_mobile :: "string option option"
  pu_preferred_locale :: "string option option"
  pu_avatar :: "string option option"

definition given :: "'a option \<Rightarrow> 'a \<Rightarrow> 'a" where
  "given v old = (case v of None \<Rightarrow> old | Some x \<Rightarrow> x)"

definition apply_profile :: "profile_update \<Rightarrow> int option option \<Rightarrow> int \<Rightarrow> user_row \<Rightarrow> user_row" where
  "apply_profile p avatar actor_id u =
     u\<lparr>us_real_name := given (pu_real_name p) (us_real_name u), us_email := given (pu_email p) (us_email u),
       us_mobile := given (pu_mobile p) (us_mobile u),
       us_preferred_locale := (case pu_preferred_locale p of Some (Some l) \<Rightarrow> l | _ \<Rightarrow> us_preferred_locale u),
       us_avatar := given avatar (us_avatar u), be_updated_by := Some actor_id\<rparr>"

definition update_current_user ::
  "auth_env \<Rightarrow> authenticated_user \<Rightarrow> profile_update \<Rightarrow> identity_db \<Rightarrow> auth_io
    \<Rightarrow> (authenticated_user \<times> identity_db) res \<times> auth_io" where
  "update_current_user env user p db io =
     (case get_user_by_id (au_user_id user) db of
        None \<Rightarrow> raise_error EC_auth_invalid_token 401 io
      | Some row \<Rightarrow>
          if pu_preferred_locale p = Some None then raise_error EC_request_invalid 400 io
          else (case (case pu_avatar p of
                        None \<Rightarrow> ROk None
                      | Some a \<Rightarrow> (case resolve_avatar_binding a (au_user_id user) db of
                                     ROk b \<Rightarrow> ROk (Some b) | RErr e \<Rightarrow> RErr e | RCrash \<Rightarrow> RCrash)) of
                  RErr e \<Rightarrow> (RErr e, io)
                | RCrash \<Rightarrow> (RCrash, io)
                | ROk avatar \<Rightarrow>
                    (let db' = update_user_row (be_id row) (apply_profile p avatar (au_user_id user)) db
                     in (case build_user env (au_user_id user) (au_credential_kind user) None db' io of
                           (ROk u, io') \<Rightarrow> (ROk (u, db'), io')
                         | (RErr e, io') \<Rightarrow> (RErr e, io')
                         | (RCrash, io') \<Rightarrow> (RCrash, io')))))"

definition weak_password_error :: "string list \<Rightarrow> app_error" where
  "weak_password_error violations =
     (app_err EC_auth_password_too_weak 400)\<lparr>ae_params := map (Pair ''violations'') violations\<rparr>"

definition change_current_password ::
  "auth_env \<Rightarrow> authenticated_user \<Rightarrow> string \<Rightarrow> string \<Rightarrow> identity_db \<Rightarrow> auth_io \<Rightarrow> identity_db res \<times> auth_io" where
  "change_current_password env user old_password new_password db io =
     (let violations = password_strength_violations new_password (en_password_min_length env)
      in if violations \<noteq> [] then (RErr (weak_password_error violations), io)
         else (case get_user_by_id (au_user_id user) db of
                 None \<Rightarrow> raise_error EC_auth_invalid_token 401 io
               | Some row \<Rightarrow>
                   if \<not> password_matches env row old_password then raise_error EC_auth_invalid_token 401 io
                   else with_redis (revoke_all_sessions (en_now env) (au_user_id user))
                          (\<lambda>_. Pair (ROk (update_user_row (be_id row)
                             (\<lambda>u. u\<lparr>us_password := Some (en_hash env new_password), be_updated_by := Some (au_user_id user)\<rparr>) db))) io))"

definition avatar_url :: "authenticated_user \<Rightarrow> (string \<Rightarrow> string) option \<Rightarrow> identity_db \<Rightarrow> string option" where
  "avatar_url user storage db =
     (case (au_avatar user, storage) of
        (Some a, Some presign_get) \<Rightarrow> map_option presign_get (get_attach_object_key a db)
      | _ \<Rightarrow> None)"

definition require_permission :: "authenticated_user \<Rightarrow> string \<Rightarrow> unit res" where
  "require_permission user required =
     (if has_permission user required then ROk () else RErr (app_err EC_auth_forbidden 403))"

end
