(* ===== verification/AuthEdge.thy ===== *)
theory AuthEdge
  imports AuthService
begin

text \<open>
  Where a request meets authentication: the credential of its headers (\<open>src/auth/credentials.py\<close>), the middleware that resolves
  it (\<open>src/auth/middleware.py\<close>), the dependencies of the routes (\<open>src/auth/dependencies.py\<close>) and the address of the client
  (\<open>src/core/client_ip.py\<close>).
\<close>

section \<open>Credentials\<close>

record credential =
  cr_value :: string
  cr_kind :: credential_kind

definition SK_PREFIX :: string where "SK_PREFIX = ''sk-''"

text \<open>\<open>partition(" ")\<close>: what precedes and what follows the first space.\<close>

definition partition_space :: "string \<Rightarrow> string \<times> string" where
  "partition_space s = (case split_first (CHR '' '') s of None \<Rightarrow> (s, []) | Some (a, b) \<Rightarrow> (a, b))"

definition bearer_credential :: "string \<Rightarrow> bool \<Rightarrow> credential option" where
  "bearer_credential authorization allow_api_key =
     (case partition_space authorization of
        (scheme, value) \<Rightarrow>
          if py_lower scheme = ''bearer'' \<and> value \<noteq> []
          then (let kind = (if starts_with SK_PREFIX value then CK_api_key else CK_jwt)
                in if kind = CK_api_key \<and> \<not> allow_api_key then None else Some \<lparr>cr_value = value, cr_kind = kind\<rparr>)
          else None)"

text \<open>\<open>None\<close> is the one error of the function: \<open>auth_invalid_token\<close>, 401.\<close>

definition extract_credential :: "string option \<Rightarrow> string option \<Rightarrow> bool \<Rightarrow> credential option" where
  "extract_credential authorization x_api_key allow_api_key =
     (if truthy_str x_api_key
      then (if \<not> allow_api_key then None else Some \<lparr>cr_value = the x_api_key, cr_kind = CK_api_key\<rparr>)
      else if truthy_str authorization then bearer_credential (the authorization) allow_api_key
      else None)"

definition resolve_credential ::
  "auth_env \<Rightarrow> string option \<Rightarrow> string option \<Rightarrow> bool \<Rightarrow> identity_db \<Rightarrow> auth_io \<Rightarrow> authenticated_user res \<times> auth_io" where
  "resolve_credential env authorization x_api_key allow_api_key db =
     (case extract_credential authorization x_api_key allow_api_key of
        None \<Rightarrow> raise_error EC_auth_invalid_token 401
      | Some c \<Rightarrow>
          if cr_kind c = CK_api_key then resolve_api_key env (cr_value c) db
          else resolve_access_token env (cr_value c) db)"

section \<open>The middleware\<close>

definition PUBLIC_PATHS :: "string list" where
  "PUBLIC_PATHS = [''/auth/login'', ''/auth/refresh'', ''/health/live'', ''/health/ready'', ''/docs'',
     ''/docs/oauth2-redirect'', ''/openapi.json'', ''/redoc'']"

definition LLM_API_KEY_PATHS :: "string list" where
  "LLM_API_KEY_PATHS = [''/v1/chat/completions'', ''/v1/embeddings'', ''/v1/messages'', ''/v1/models'', ''/v1/responses'']"

definition LLM_API_KEY_METHODS :: "string list" where "LLM_API_KEY_METHODS = [''GET'', ''POST'']"
definition MCP_API_KEY_PATHS :: "string list" where "MCP_API_KEY_PATHS = [''/mcp'', ''/mcp/'']"
definition MCP_API_KEY_METHODS :: "string list" where "MCP_API_KEY_METHODS = [''GET'', ''POST'']"
definition GEMINI_API_KEY_ACTIONS :: "string list" where
  "GEMINI_API_KEY_ACTIONS = ['':generateContent'', '':streamGenerateContent'']"
definition GEMINI_PREFIX :: string where "GEMINI_PREFIX = ''/v1beta/models/''"

definition ends_with :: "string \<Rightarrow> string \<Rightarrow> bool" where
  "ends_with p s \<longleftrightarrow> starts_with (rev p) (rev s)"

definition is_public_path :: "string \<Rightarrow> bool" where
  "is_public_path path \<longleftrightarrow> path \<in> set PUBLIC_PATHS"

definition is_gemini_generation_path :: "string \<Rightarrow> bool" where
  "is_gemini_generation_path path \<longleftrightarrow>
     starts_with GEMINI_PREFIX path
     \<and> (let model_and_action = drop (length GEMINI_PREFIX) path
        in model_and_action \<noteq> [] \<and> list_ex (\<lambda>a. ends_with a model_and_action) GEMINI_API_KEY_ACTIONS)"

definition allows_api_key :: "string \<Rightarrow> string \<Rightarrow> bool" where
  "allows_api_key path meth \<longleftrightarrow>
     (meth \<in> set LLM_API_KEY_METHODS \<and> path \<in> set LLM_API_KEY_PATHS)
     \<or> (meth = ''POST'' \<and> is_gemini_generation_path path)
     \<or> (meth \<in> set MCP_API_KEY_METHODS \<and> path \<in> set MCP_API_KEY_PATHS)"

definition rstrip_slash :: "string \<Rightarrow> string" where
  "rstrip_slash s = rev (dropWhile (\<lambda>c. c = CHR ''/'') (rev s))"

definition strip_api_prefix :: "string \<Rightarrow> string \<Rightarrow> string" where
  "strip_api_prefix path api_prefix =
     (if api_prefix = [] \<or> api_prefix = ''/'' then path
      else (let prefix = rstrip_slash api_prefix
            in if path = prefix then ''/''
               else if starts_with (prefix @ ''/'') path then drop (length prefix) path
               else path))"

record http_request =
  hq_method :: string
  hq_path :: string
  hq_authorization :: "string option"
  hq_x_api_key :: "string option"

text \<open>The request goes on, with \<open>request.state.user\<close> or without it, or is answered with an error.\<close>

datatype admission = GoesOn "authenticated_user option" | Answered app_error | Raised

definition auth_dispatch :: "auth_env \<Rightarrow> string \<Rightarrow> http_request \<Rightarrow> identity_db \<Rightarrow> auth_io \<Rightarrow> admission \<times> auth_io" where
  "auth_dispatch env api_prefix req db io =
     (let path = strip_api_prefix (hq_path req) api_prefix
      in if is_public_path path then (GoesOn None, io)
         else (case resolve_credential env (hq_authorization req) (hq_x_api_key req) (allows_api_key path (hq_method req)) db io of
                 (ROk user, io') \<Rightarrow> (GoesOn (Some user), io')
               | (RErr e, io') \<Rightarrow> (Answered e, io')
               | (RCrash, io') \<Rightarrow> (Raised, io')))"

section \<open>Dependencies\<close>

definition get_current_user ::
  "auth_env \<Rightarrow> authenticated_user option \<Rightarrow> http_request \<Rightarrow> identity_db \<Rightarrow> auth_io \<Rightarrow> authenticated_user res \<times> auth_io" where
  "get_current_user env state_user req db io =
     (case state_user of
        Some u \<Rightarrow> (ROk u, io)
      | None \<Rightarrow> resolve_credential env (hq_authorization req) (hq_x_api_key req) True db io)"

definition get_current_jwt_user ::
  "auth_env \<Rightarrow> authenticated_user option \<Rightarrow> http_request \<Rightarrow> identity_db \<Rightarrow> auth_io \<Rightarrow> authenticated_user res \<times> auth_io" where
  "get_current_jwt_user env state_user req db io =
     (case state_user of
        Some u \<Rightarrow> if au_credential_kind u = CK_api_key then raise_error EC_auth_invalid_token 401 io else (ROk u, io)
      | None \<Rightarrow>
          (case extract_credential (hq_authorization req) (hq_x_api_key req) False of
             None \<Rightarrow> raise_error EC_auth_invalid_token 401 io
           | Some c \<Rightarrow> resolve_access_token env (cr_value c) db io))"

definition required_perms ::
  "string \<Rightarrow> auth_env \<Rightarrow> authenticated_user option \<Rightarrow> http_request \<Rightarrow> identity_db \<Rightarrow> auth_io \<Rightarrow> authenticated_user res \<times> auth_io" where
  "required_perms permission env state_user req db io =
     (case get_current_jwt_user env state_user req db io of
        (ROk u, io') \<Rightarrow> if has_permission u permission then (ROk u, io') else raise_error EC_auth_forbidden 403 io'
      | r \<Rightarrow> r)"

text \<open>A request to a route that asks for a permission: the middleware, then the dependency.\<close>

definition guarded_route ::
  "string \<Rightarrow> auth_env \<Rightarrow> string \<Rightarrow> http_request \<Rightarrow> identity_db \<Rightarrow> auth_io \<Rightarrow> authenticated_user res \<times> auth_io" where
  "guarded_route permission env api_prefix req db io =
     (case auth_dispatch env api_prefix req db io of
        (GoesOn state_user, io') \<Rightarrow> required_perms permission env state_user req db io'
      | (Answered e, io') \<Rightarrow> (RErr e, io')
      | (Raised, io') \<Rightarrow> (RCrash, io'))"

section \<open>The client's address\<close>

fun split_all :: "char \<Rightarrow> string \<Rightarrow> string \<Rightarrow> string list" where
  "split_all c acc [] = [rev acc]"
| "split_all c acc (x # xs) = (if x = c then rev acc # split_all c [] xs else split_all c (x # acc) xs)"

definition client_ip :: "int \<Rightarrow> string option \<Rightarrow> string option \<Rightarrow> string option" where
  "client_ip trusted_proxy_count peer forwarded =
     (if trusted_proxy_count \<le> 0 then peer
      else if \<not> truthy_str forwarded then peer
      else (let parts = [p \<leftarrow> map py_strip (split_all (CHR '','') [] (the forwarded)). p \<noteq> []]
            in if parts = [] then peer
               else (let index = int (length parts) - trusted_proxy_count
                     in Some (if 0 \<le> index then parts ! nat index else parts ! 0))))"

end
