(* ===== verification/SessionFacts.thy ===== *)
theory SessionFacts
  imports Sessions
begin

text \<open>
  Every live session is in the index of its user, whatever calls fail, so revoking a user's sessions revokes them
  all and nobody else's; a refresh token is consumed once, and its replay revokes the user's sessions.
\<close>

section \<open>Views\<close>

definition session_user :: "int \<Rightarrow> string \<Rightarrow> redis \<Rightarrow> int option" where
  "session_user now j s = Option.bind (Option.bind (redis_get now (access_key j) s) parse_record) (int_field ''user_id'')"

definition session_refresh :: "int \<Rightarrow> string \<Rightarrow> redis \<Rightarrow> string option" where
  "session_refresh now j s = Option.bind (Option.bind (redis_get now (access_key j) s) parse_record) (str_field ''refresh_hash'')"

lemma keys_distinct [simp]:
  "access_key i \<noteq> user_sessions_key u" "access_key i \<noteq> refresh_key h" "access_key i \<noteq> refresh_used_key h" "access_key i \<noteq> USERS_INDEX"
  "user_sessions_key u \<noteq> access_key i" "user_sessions_key u \<noteq> refresh_key h" "user_sessions_key u \<noteq> refresh_used_key h" "user_sessions_key u \<noteq> USERS_INDEX"
  "refresh_key h \<noteq> access_key i" "refresh_key h \<noteq> user_sessions_key u" "refresh_key h \<noteq> USERS_INDEX"
  "refresh_used_key h \<noteq> access_key i" "refresh_used_key h \<noteq> user_sessions_key u" "refresh_used_key h \<noteq> USERS_INDEX"
  "USERS_INDEX \<noteq> access_key i" "USERS_INDEX \<noteq> user_sessions_key u" "USERS_INDEX \<noteq> refresh_key h" "USERS_INDEX \<noteq> refresh_used_key h"
  "access_key i = access_key j \<longleftrightarrow> i = j" "user_sessions_key u = user_sessions_key v \<longleftrightarrow> u = v"
  "refresh_key h = refresh_key h' \<longleftrightarrow> h = h'" "refresh_used_key h = refresh_used_key h' \<longleftrightarrow> h = h'"
  by (simp_all add: access_key_def user_sessions_key_def refresh_key_def refresh_used_key_def USERS_INDEX_def)

text \<open>A hash is written in hexadecimal, so it has no colon.\<close>

definition hash_text :: "string \<Rightarrow> bool" where "hash_text h \<longleftrightarrow> CHR '':'' \<notin> set h"

lemma refresh_keys_distinct:
  "hash_text h \<Longrightarrow> refresh_key h \<noteq> refresh_used_key h'"
  by (auto simp: refresh_key_def refresh_used_key_def hash_text_def)

lemma session_user_cell: "cell s (access_key j) = cell s' (access_key j) \<Longrightarrow> session_user now j s = session_user now j s'"
  unfolding session_user_def by (drule cell_eqs(5) [where now = now]) (simp only:)

lemma get_later: "redis_get t k s = Some v \<Longrightarrow> now \<le> t \<Longrightarrow> redis_get now k s = Some v"
  by (auto simp: redis_get_def expired_def split: if_splits option.splits)

lemma session_user_later: "session_user t j s = Some u \<Longrightarrow> now \<le> t \<Longrightarrow> session_user now j s = Some u"
  by (auto simp: session_user_def bind_eq_Some_conv dest: get_later)

lemma access_record_fields:
  "parse_record (dumps (access_record u h ip ua lat)) = Some [(''user_id'', JInt u), (''refresh_hash'', JStr h), (''ip'', opt_json JStr ip),
      (''user_agent'', opt_json JStr ua), (''login_at'', JStr lat)]"
proof -
  have "json_wf (access_record u h ip ua lat)" by (simp add: access_record_def opt_json_def split: option.split)
  from loads_dumps [OF this] show ?thesis by (simp only: parse_record_def) (simp add: access_record_def)
qed

lemma refresh_record_fields:
  "parse_record (dumps (refresh_record u j)) = Some [(''user_id'', JInt u), (''access_jti'', JStr j)]"
proof -
  have "json_wf (refresh_record u j)" by (simp add: refresh_record_def)
  from loads_dumps [OF this] show ?thesis by (simp only: parse_record_def) (simp add: refresh_record_def)
qed

section \<open>The index invariant\<close>

text \<open>\<open>A\<close> is the lifetime of access tokens in milliseconds, \<open>t\<close> the time.\<close>

definition indexed :: "int \<Rightarrow> int \<Rightarrow> redis \<Rightarrow> bool" where
  "indexed A t s \<longleftrightarrow> r_expiry s USERS_INDEX = None \<and>
     (\<forall>j. redis_exists t (access_key j) s \<longrightarrow> session_user t j s \<noteq> None) \<and>
     (\<forall>j u. session_user t j s = Some u \<longrightarrow>
        (\<exists>e e'. r_expiry s (access_key j) = Some e \<and> e \<le> t + A \<and> r_expiry s (user_sessions_key u) = Some e' \<and> e \<le> e')
        \<and> j \<in> set (r_sets s (user_sessions_key u)) \<and> show_int u \<in> set (r_sets s USERS_INDEX)
        \<and> (\<forall>v. j \<in> set (r_sets s (user_sessions_key v)) \<longrightarrow> v = u))"

definition no_session :: "int \<Rightarrow> int \<Rightarrow> redis \<Rightarrow> bool" where
  "no_session t u s \<longleftrightarrow> (\<forall>j. session_user t j s \<noteq> Some u)"

lemma session_user_wire [simp]: "session_user t j (s\<lparr>r_wire := ws\<rparr>) = session_user t j s"
  by (simp add: session_user_def redis_get_def expired_def)

lemma redis_exists_wire [simp]: "redis_exists t k (s\<lparr>r_wire := ws\<rparr>) = redis_exists t k s"
  by (simp add: redis_exists_def expired_def key_exists_def)

lemma indexed_wireless [simp]: "indexed A t (s\<lparr>r_wire := ws\<rparr>) = indexed A t s"
  by (simp add: indexed_def)

lemma no_session_wireless [simp]: "no_session t u (s\<lparr>r_wire := ws\<rparr>) = no_session t u s"
  by (simp add: no_session_def)

lemma exists_later: "redis_exists t' k s \<Longrightarrow> t \<le> t' \<Longrightarrow> redis_exists t k s"
  by (auto simp: redis_exists_def expired_def split: option.splits)

lemma session_user_alive: "redis_exists t' (access_key j) s \<Longrightarrow> t \<le> t' \<Longrightarrow> session_user t' j s = session_user t j s"
  by (auto simp: redis_exists_def expired_def session_user_def redis_get_def split: option.splits)

lemma indexed_later:
  assumes i: "indexed A t s" and le: "t \<le> t'"
  shows "indexed A t' s"
proof -
  have "session_user t' j s \<noteq> None" if "redis_exists t' (access_key j) s" for j
    using i exists_later [OF that le] session_user_alive [OF that le] by (simp add: indexed_def)
  moreover have "\<exists>e e'. r_expiry s (access_key j) = Some e \<and> e \<le> t' + A \<and> r_expiry s (user_sessions_key u) = Some e' \<and> e \<le> e'"
    if "session_user t' j s = Some u" for j u
  proof -
    have "session_user t j s = Some u" using that le by (rule session_user_later)
    then obtain e e' where "r_expiry s (access_key j) = Some e \<and> e \<le> t + A \<and> r_expiry s (user_sessions_key u) = Some e' \<and> e \<le> e'"
      using i unfolding indexed_def by blast
    then show ?thesis using le by (intro exI [of _ e] exI [of _ e']) simp
  qed
  ultimately show ?thesis using i session_user_later [OF _ le] unfolding indexed_def by blast
qed

text \<open>A step that leaves sessions, their index and their deadlines alone, or only takes sessions away.\<close>

definition keeps_index :: "int \<Rightarrow> redis \<Rightarrow> redis \<Rightarrow> bool" where
  "keeps_index t s s' \<longleftrightarrow> r_expiry s' USERS_INDEX = r_expiry s USERS_INDEX
     \<and> (\<forall>j. redis_exists t (access_key j) s' \<longrightarrow> redis_exists t (access_key j) s \<and> session_user t j s' = session_user t j s)
     \<and> (\<forall>j u. session_user t j s' = Some u \<longrightarrow> session_user t j s = Some u \<and> r_expiry s' (access_key j) = r_expiry s (access_key j)
          \<and> r_expiry s' (user_sessions_key u) = r_expiry s (user_sessions_key u)
          \<and> (j \<in> set (r_sets s (user_sessions_key u)) \<longrightarrow> j \<in> set (r_sets s' (user_sessions_key u)))
          \<and> (show_int u \<in> set (r_sets s USERS_INDEX) \<longrightarrow> show_int u \<in> set (r_sets s' USERS_INDEX)))
     \<and> (\<forall>v. set (r_sets s' (user_sessions_key v)) \<subseteq> set (r_sets s (user_sessions_key v)))"

lemma indexed_known: "indexed A t s \<Longrightarrow> redis_exists t (access_key j) s \<Longrightarrow> session_user t j s \<noteq> None"
  unfolding indexed_def by (elim conjE) blast

lemma indexed_keeps: "indexed A t s \<Longrightarrow> keeps_index t s s' \<Longrightarrow> indexed A t s'"
proof -
  assume i: "indexed A t s" and k: "keeps_index t s s'"
  have "(\<exists>e e'. r_expiry s' (access_key j) = Some e \<and> e \<le> t + A \<and> r_expiry s' (user_sessions_key u) = Some e' \<and> e \<le> e')
        \<and> j \<in> set (r_sets s' (user_sessions_key u)) \<and> show_int u \<in> set (r_sets s' USERS_INDEX)
        \<and> (\<forall>v. j \<in> set (r_sets s' (user_sessions_key v)) \<longrightarrow> v = u)"
    if j: "session_user t j s' = Some u" for j u
  proof -
    have "session_user t j s = Some u" using k j by (simp add: keeps_index_def)
    with i have "(\<exists>e e'. r_expiry s (access_key j) = Some e \<and> e \<le> t + A \<and> r_expiry s (user_sessions_key u) = Some e' \<and> e \<le> e')
        \<and> j \<in> set (r_sets s (user_sessions_key u)) \<and> show_int u \<in> set (r_sets s USERS_INDEX)
        \<and> (\<forall>v. j \<in> set (r_sets s (user_sessions_key v)) \<longrightarrow> v = u)"
      by (simp add: indexed_def)
    moreover have "r_expiry s' (access_key j) = r_expiry s (access_key j)" "r_expiry s' (user_sessions_key u) = r_expiry s (user_sessions_key u)"
      "j \<in> set (r_sets s (user_sessions_key u)) \<longrightarrow> j \<in> set (r_sets s' (user_sessions_key u))"
      "show_int u \<in> set (r_sets s USERS_INDEX) \<longrightarrow> show_int u \<in> set (r_sets s' USERS_INDEX)"
      "\<forall>v. set (r_sets s' (user_sessions_key v)) \<subseteq> set (r_sets s (user_sessions_key v))"
      using k j by (simp_all add: keeps_index_def)
    ultimately show ?thesis by (simp only:) blast
  qed
  moreover have "r_expiry s' USERS_INDEX = None" using i k by (simp add: indexed_def keeps_index_def)
  moreover have "session_user t j s' \<noteq> None" if "redis_exists t (access_key j) s'" for j
  proof -
    have "redis_exists t (access_key j) s" and eq: "session_user t j s' = session_user t j s"
      using k that unfolding keeps_index_def by blast+
    then show ?thesis using indexed_known [OF i] by (simp only: eq) blast
  qed
  ultimately show "indexed A t s'" by (simp add: indexed_def)
qed

lemma session_user_delete [simp]:
  "session_user t j (redis_delete k s) = (if k = access_key j then None else session_user t j s)"
  by (auto simp: session_user_def redis_get_def redis_delete_def expired_def)

lemma delete_sel [simp]:
  "r_expiry (redis_delete k s) k' = (if k' = k then None else r_expiry s k')"
  "r_sets (redis_delete k s) k' = (if k' = k then [] else r_sets s k')"
  by (simp_all add: redis_delete_def)

lemma redis_exists_delete [simp]: "redis_exists t k' (redis_delete k s) \<longleftrightarrow> k' \<noteq> k \<and> redis_exists t k' s"
  by (cases "k' = k") (simp_all add: redis_exists_def redis_delete_def expired_def key_exists_def)

lemma keeps_delete_access: "keeps_index t s (redis_delete (access_key i) s)"
  by (auto simp: keeps_index_def split: if_splits)

lemma keeps_other:
  assumes "\<And>j. cell s' (access_key j) = cell s (access_key j)" "\<And>u. cell s' (user_sessions_key u) = cell s (user_sessions_key u)"
    "cell s' USERS_INDEX = cell s USERS_INDEX"
  shows "keeps_index t s s'"
  using session_user_cell [OF assms(1)] cell_eqs(4,7) [OF assms(1)] cell_eqs [OF assms(2)] cell_eqs [OF assms(3)] by (simp add: keeps_index_def)

lemma keeps_delete_refresh: "keeps_index t s (redis_delete (refresh_key h) s)"
  by (rule keeps_other) simp_all

lemma keeps_delete_user: "no_session t u s \<Longrightarrow> keeps_index t s (redis_delete (user_sessions_key u) s)"
  by (auto simp: keeps_index_def no_session_def split: if_splits)

lemma session_user_srem [simp]:
  "session_user t j (redis_srem t (user_sessions_key u) m s) = session_user t j s"
  "session_user t j (redis_srem t USERS_INDEX m s) = session_user t j s"
  by (rule session_user_cell; simp)+

lemma sets_srem: "set (r_sets (redis_srem t k m s) k') \<subseteq> set (r_sets s k')"
  by (auto simp: redis_srem_def set_store_def evict_if_expired_def Let_def)

lemma srem_alive:
  assumes "\<not> expired t k s" and "m' \<in> set (r_sets s k)" "m' \<noteq> m"
  shows "r_expiry (redis_srem t k m s) k = r_expiry s k \<and> m' \<in> set (r_sets (redis_srem t k m s) k)"
proof -
  have "filter (\<lambda>x. x \<noteq> m) (r_sets s k) \<noteq> []" using assms(2,3) by (auto simp: filter_empty_conv)
  then show ?thesis using assms by (simp add: redis_srem_def set_store_def evict_if_expired_def Let_def)
qed

lemma indexed_alive:
  assumes "indexed A t s" and "session_user t j s = Some u"
  shows "\<not> expired t (user_sessions_key u) s" "j \<in> set (r_sets s (user_sessions_key u))" "redis_exists t (user_sessions_key u) s"
    "j \<in> set (redis_smembers t (user_sessions_key u) s)"
proof -
  obtain e e' where e: "r_expiry s (access_key j) = Some e" "r_expiry s (user_sessions_key u) = Some e'" "e \<le> e'"
    and j: "j \<in> set (r_sets s (user_sessions_key u))"
    using assms unfolding indexed_def by metis
  have "\<not> expired t (access_key j) s" using assms(2) by (auto simp: session_user_def redis_get_def bind_eq_Some_conv)
  then show alive: "\<not> expired t (user_sessions_key u) s" using e by (simp add: expired_def)
  show "j \<in> set (r_sets s (user_sessions_key u))" by (rule j)
  show "redis_exists t (user_sessions_key u) s" "j \<in> set (redis_smembers t (user_sessions_key u) s)"
    using alive j by (auto simp: redis_exists_def key_exists_def redis_smembers_def)
qed

lemma keeps_srem_user:
  assumes "indexed A t s" and "session_user t j s \<noteq> Some u"
  shows "keeps_index t s (redis_srem t (user_sessions_key u) j s)"
proof -
  let ?s = "redis_srem t (user_sessions_key u) j s"
  have "r_expiry ?s (user_sessions_key v) = r_expiry s (user_sessions_key v) \<and> i \<in> set (r_sets ?s (user_sessions_key v))"
    if i: "session_user t i s = Some v" for i v
  proof (cases "v = u")
    case True
    then have "i \<noteq> j" using i assms(2) by auto
    then show ?thesis using srem_alive [OF indexed_alive(1,2) [OF assms(1) i]] True by blast
  next
    case False
    have "cell ?s (user_sessions_key v) = cell s (user_sessions_key v)" using False by simp
    from cell_eqs(2,4) [OF this] show ?thesis using indexed_alive(2) [OF assms(1) i] by simp
  qed
  moreover have "r_expiry ?s USERS_INDEX = r_expiry s USERS_INDEX" "r_sets ?s USERS_INDEX = r_sets s USERS_INDEX"
    "r_expiry ?s (access_key i) = r_expiry s (access_key i)" "redis_exists t (access_key i) ?s = redis_exists t (access_key i) s" for i
    using cell_eqs(2,4) [of ?s USERS_INDEX s] cell_eqs(4,7) [of ?s "access_key i" s] by simp_all
  ultimately show ?thesis using sets_srem by (simp add: keeps_index_def)
qed

lemma keeps_srem_users:
  assumes "indexed A t s" and "\<And>u. raw = show_int u \<Longrightarrow> no_session t u s"
  shows "keeps_index t s (redis_srem t USERS_INDEX raw s)"
proof -
  let ?s = "redis_srem t USERS_INDEX raw s"
  have none: "r_expiry s USERS_INDEX = None" using assms(1) by (simp add: indexed_def)
  then have "\<not> expired t USERS_INDEX s" by (simp add: expired_def)
  then have "r_expiry ?s USERS_INDEX = None" "r_sets ?s USERS_INDEX = filter (\<lambda>x. x \<noteq> raw) (r_sets s USERS_INDEX)"
    using none by (simp_all add: redis_srem_def set_store_def evict_if_expired_def Let_def)
  moreover have "r_expiry ?s (user_sessions_key u) = r_expiry s (user_sessions_key u)" "r_sets ?s (user_sessions_key u) = r_sets s (user_sessions_key u)"
    "r_expiry ?s (access_key i) = r_expiry s (access_key i)" "redis_exists t (access_key i) ?s = redis_exists t (access_key i) s" for i u
    using cell_eqs(2,4) [of ?s "user_sessions_key u" s] cell_eqs(4,7) [of ?s "access_key i" s] by simp_all
  ultimately show ?thesis using assms(2) none by (auto simp: keeps_index_def no_session_def)
qed

section \<open>The operations keep the index\<close>

lemma wireless_indexed [simp]: "wireless (indexed A t)"
  by (simp add: wireless_def)

lemma wireless_conj [simp]: "wireless P \<Longrightarrow> wireless (\<lambda>s. indexed A t s \<and> P s)"
  by (simp add: wireless_def)

lemma call_keeps:
  assumes "wireless P" and "\<And>s. indexed A t s \<Longrightarrow> P s \<Longrightarrow> keeps_index t s (f s) \<and> R (f s)"
  shows "triple (\<lambda>s. indexed A t s \<and> P s) (rcall (ruse f)) (\<lambda>_ s. indexed A t s \<and> R s) (indexed A t)"
  using assms by (intro triple_use) (auto intro: indexed_keeps)

lemma read_keeps:
  assumes "wireless P"
  shows "triple (\<lambda>s. indexed A t s \<and> P s) (rcall (rread g)) (\<lambda>x s. indexed A t s \<and> P s \<and> x = g s) (indexed A t)"
  using triple_read [of "\<lambda>s. indexed A t s \<and> P s" "indexed A t" g] assms by simp

text \<open>What the loops carry along: facts about sessions and refresh tokens that removing index members does not touch.\<close>

lemma prune_keeps:
  assumes "wireless P" and srem: "\<And>s m. P s \<Longrightarrow> P (redis_srem t USERS_INDEX m s)"
  shows "triple (\<lambda>s. indexed A t s \<and> P s) (prune_user_index t u) (\<lambda>_ s. indexed A t s \<and> P s) (indexed A t)"
  unfolding prune_user_index_def c_exists_def c_srem_def
proof (rule triple_bind [OF read_keeps [OF assms(1)]])
  fix x
  show "triple (\<lambda>s. indexed A t s \<and> P s \<and> x = redis_exists t (user_sessions_key u) s)
      (if x then rret () else rcall (ruse (redis_srem t USERS_INDEX (show_int u)))) (\<lambda>_ s. indexed A t s \<and> P s) (indexed A t)"
  proof (cases x)
    case False
    have "triple (\<lambda>s. indexed A t s \<and> (P s \<and> no_session t u s)) (rcall (ruse (redis_srem t USERS_INDEX (show_int u))))
        (\<lambda>_ s. indexed A t s \<and> P s) (indexed A t)"
      using assms by (intro call_keeps) (auto simp: wireless_def intro!: keeps_srem_users)
    then show ?thesis
      using False indexed_alive(3) by (auto elim!: triple_pre simp: no_session_def)
  next
    case True
    then show ?thesis by (auto intro: triple_ret)
  qed
qed

lemma revoke_access_keeps:
  "triple (indexed A t) (revoke_access t j) (\<lambda>_ s. indexed A t s \<and> session_user t j s = None) (indexed A t)"
proof -
  let ?gone = "\<lambda>s. session_user t j s = None"
  have w: "wireless ?gone" by (simp add: wireless_def)
  have del: "triple (\<lambda>s. indexed A t s \<and> True) (c_del (access_key j)) (\<lambda>_ s. indexed A t s \<and> ?gone s) (indexed A t)"
    unfolding c_del_def by (rule call_keeps) (simp_all add: keeps_delete_access wireless_def)
  have prune: "triple (\<lambda>s. indexed A t s \<and> ?gone s) (prune_user_index t u) (\<lambda>_ s. indexed A t s \<and> ?gone s) (indexed A t)" for u
    using w by (intro prune_keeps) simp_all
  have srem: "triple (\<lambda>s. indexed A t s \<and> ?gone s) (c_srem t (user_sessions_key u) j) (\<lambda>_ s. indexed A t s \<and> ?gone s) (indexed A t)" for u
    unfolding c_srem_def using w by (intro call_keeps) (simp_all add: keeps_srem_user)
  have member: "triple (\<lambda>s. indexed A t s \<and> ?gone s) (drop_user_member t j uo) (\<lambda>_ s. indexed A t s \<and> ?gone s) (indexed A t)" for uo
    by (cases uo) (auto simp: drop_user_member_def intro: triple_ret triple_then [OF srem prune])
  have refresh: "triple (\<lambda>s. indexed A t s \<and> ?gone s) (drop_refresh ho) (\<lambda>_ s. indexed A t s \<and> ?gone s) (indexed A t)" for ho
    using w by (cases ho) (auto simp: drop_refresh_def c_del_def keeps_delete_refresh intro!: triple_ret call_keeps)
  have rest: "triple (\<lambda>s. indexed A t s \<and> ?gone s)
      (case d of None \<Rightarrow> rret () | Some d \<Rightarrow> rthen (drop_user_member t j (int_field ''user_id'' d)) (drop_refresh (str_field ''refresh_hash'' d)))
      (\<lambda>_ s. indexed A t s \<and> ?gone s) (indexed A t)" for d
    by (cases d) (auto intro: triple_ret triple_then [OF member refresh])
  show ?thesis
    unfolding revoke_access_def c_get_def
    by (rule triple_pre [OF triple_bind [OF read_keeps [where P = "\<lambda>_. True"] triple_then [OF triple_pre [OF del] rest]]])
       (simp_all add: wireless_def)
qed

text \<open>Revoking the members of an index: what the loop has still to do, and what it leaves alone.\<close>

definition revoking :: "int \<Rightarrow> int \<Rightarrow> string set \<Rightarrow> redis \<Rightarrow> string set \<Rightarrow> redis \<Rightarrow> bool" where
  "revoking t u H s0 J s \<longleftrightarrow>
     (\<forall>j. session_user t j s = Some u \<longrightarrow> j \<in> J)
     \<and> (\<forall>h\<in>H. redis_get t (refresh_key h) s = None \<or> (\<exists>j\<in>J. session_refresh t j s = Some h))
     \<and> (\<forall>j\<in>J. \<forall>v. session_user t j s = Some v \<longrightarrow> v = u)
     \<and> (\<forall>j v. v \<noteq> u \<longrightarrow> (session_user t j s = Some v \<longleftrightarrow> session_user t j s0 = Some v))"

lemma revokingD:
  assumes "revoking t u H s0 J s"
  shows "session_user t j s = Some u \<Longrightarrow> j \<in> J"
    and "h \<in> H \<Longrightarrow> redis_get t (refresh_key h) s = None \<or> (\<exists>j\<in>J. session_refresh t j s = Some h)"
    and "j \<in> J \<Longrightarrow> session_user t j s = Some v \<Longrightarrow> v = u"
    and "v \<noteq> u \<Longrightarrow> session_user t j s = Some v \<longleftrightarrow> session_user t j s0 = Some v"
  using assms unfolding revoking_def by (elim conjE, blast)+

lemma session_refresh_wire [simp]: "session_refresh t j (s\<lparr>r_wire := ws\<rparr>) = session_refresh t j s"
  by (simp add: session_refresh_def redis_get_def expired_def)

lemma redis_get_wire [simp]: "redis_get t k (s\<lparr>r_wire := ws\<rparr>) = redis_get t k s"
  by (simp add: redis_get_def expired_def)

lemma wireless_revoking [simp]: "wireless (revoking t u H s0 J)"
  by (simp add: wireless_def revoking_def)

lemma redis_get_delete [simp]: "redis_get t k' (redis_delete k s) = (if k' = k then None else redis_get t k' s)"
  by (simp add: redis_get_def redis_delete_def expired_def)

lemma session_refresh_delete [simp]:
  "session_refresh t j (redis_delete k s) = (if k = access_key j then None else session_refresh t j s)"
  by (simp add: session_refresh_def)

lemma redis_get_srem [simp]: "k \<noteq> k' \<Longrightarrow> redis_get t k' (redis_srem t k m s) = redis_get t k' s"
  by (rule cell_eqs(5)) simp

lemma session_refresh_srem [simp]:
  "session_refresh t j (redis_srem t (user_sessions_key u) m s) = session_refresh t j s"
  "session_refresh t j (redis_srem t USERS_INDEX m s) = session_refresh t j s"
  by (simp_all add: session_refresh_def)

lemma revoking_delete:
  assumes "revoking t u H s0 (insert j J) s"
  shows "revoking t u (H - set_option (session_refresh t j s)) s0 J (redis_delete (access_key j) s)"
proof -
  let ?s = "redis_delete (access_key j) s"
  have user: "session_user t i ?s = (if i = j then None else session_user t i s)"
    and ref: "session_refresh t i ?s = (if i = j then None else session_refresh t i s)"
    and get: "redis_get t (refresh_key h) ?s = redis_get t (refresh_key h) s" for i h
    by auto
  show ?thesis
    unfolding revoking_def user ref get
  proof (intro conjI allI ballI impI)
    fix i assume "(if i = j then None else session_user t i s) = Some u"
    then show "i \<in> J" using revokingD(1) [OF assms, of i] by (auto split: if_splits)
  next
    fix h assume h: "h \<in> H - set_option (session_refresh t j s)"
    then show "redis_get t (refresh_key h) s = None \<or> (\<exists>i\<in>J. (if i = j then None else session_refresh t i s) = Some h)"
      using revokingD(2) [OF assms, of h] by auto
  next
    fix i v assume "i \<in> J" "(if i = j then None else session_user t i s) = Some v"
    then show "v = u" using revokingD(3) [OF assms, of i v] by (auto split: if_splits)
  next
    fix i v assume "v \<noteq> u"
    then show "(if i = j then None else session_user t i s) = Some v \<longleftrightarrow> session_user t i s0 = Some v"
      using revokingD(4) [OF assms, of v i] revokingD(3) [OF assms, of j v] by auto
  qed
qed

lemma revoking_delete_refresh:
  assumes r: "revoking t u (H - {h}) s0 J s"
  shows "revoking t u H s0 J (redis_delete (refresh_key h) s)"
proof -
  let ?s = "redis_delete (refresh_key h) s"
  have user: "session_user t i ?s = session_user t i s" and ref: "session_refresh t i ?s = session_refresh t i s" for i by simp_all
  have "redis_get t (refresh_key h') ?s = None \<or> (\<exists>i\<in>J. session_refresh t i s = Some h')" if "h' \<in> H" for h'
    using revokingD(2) [OF r, of h'] that by auto
  then show ?thesis
    using revokingD(1,3,4) [OF r] unfolding revoking_def user ref by blast
qed

lemma revoke_member_keeps:
  "triple (\<lambda>s. indexed A t s \<and> revoking t u H s0 (insert j J) s) (revoke_member t j)
     (\<lambda>_ s. indexed A t s \<and> revoking t u H s0 J s) (indexed A t)"
proof -
  let ?P = "\<lambda>raw s. revoking t u H s0 (insert j J) s \<and> raw = redis_get t (access_key j) s"
  let ?Q = "\<lambda>raw s. revoking t u (H - set_option (Option.bind (Option.bind raw parse_record) (str_field ''refresh_hash''))) s0 J s"
  have get: "triple (\<lambda>s. indexed A t s \<and> revoking t u H s0 (insert j J) s) (c_get t (access_key j))
      (\<lambda>raw s. indexed A t s \<and> ?P raw s) (indexed A t)"
    unfolding c_get_def by (rule read_keeps) simp
  have del: "triple (\<lambda>s. indexed A t s \<and> ?P raw s) (c_del (access_key j)) (\<lambda>_ s. indexed A t s \<and> ?Q raw s) (indexed A t)" for raw
    unfolding c_del_def
  proof (rule call_keeps)
    show "wireless (?P raw)" using wireless_revoking by (simp add: wireless_def)
    fix s assume "indexed A t s" and P: "?P raw s"
    have raw: "session_refresh t j s = Option.bind (Option.bind raw parse_record) (str_field ''refresh_hash'')"
      using P by (simp add: session_refresh_def)
    have "?Q raw (redis_delete (access_key j) s)"
      using revoking_delete P unfolding raw [symmetric] by blast
    then show "keeps_index t s (redis_delete (access_key j) s) \<and> ?Q raw (redis_delete (access_key j) s)"
      by (simp add: keeps_delete_access)
  qed
  have drop: "triple (\<lambda>s. indexed A t s \<and> revoking t u (H - set_option ho) s0 J s) (drop_refresh ho)
      (\<lambda>_ s. indexed A t s \<and> revoking t u H s0 J s) (indexed A t)" for ho
  proof (cases ho)
    case (Some h)
    have "triple (\<lambda>s. indexed A t s \<and> revoking t u (H - {h}) s0 J s) (c_del (refresh_key h))
        (\<lambda>_ s. indexed A t s \<and> revoking t u H s0 J s) (indexed A t)"
      unfolding c_del_def by (intro call_keeps) (simp_all add: keeps_delete_refresh revoking_delete_refresh)
    then show ?thesis by (simp add: Some drop_refresh_def)
  qed (simp add: drop_refresh_def triple_ret)
  show ?thesis
    unfolding revoke_member_def
  proof (rule triple_bind [OF get triple_then [OF del]])
    fix raw
    show "triple (\<lambda>s. indexed A t s \<and> ?Q raw s)
        (case Option.bind raw parse_record of None \<Rightarrow> rret () | Some d \<Rightarrow> drop_refresh (str_field ''refresh_hash'' d))
        (\<lambda>_ s. indexed A t s \<and> revoking t u H s0 J s) (indexed A t)"
      using drop by (cases "Option.bind raw parse_record") (auto intro: triple_ret)
  qed
qed

lemma revoke_members_keeps:
  "triple (\<lambda>s. indexed A t s \<and> revoking t u H s0 (set js) s) (revoke_members t js)
     (\<lambda>_ s. indexed A t s \<and> revoking t u H s0 {} s) (indexed A t)"
proof (induction js)
  case (Cons j js)
  have "triple (\<lambda>s. indexed A t s \<and> revoking t u H s0 (set (j # js)) s) (revoke_member t j)
      (\<lambda>_ s. indexed A t s \<and> revoking t u H s0 (set js) s) (indexed A t)"
    using revoke_member_keeps [of A t u H s0 j "set js"] by simp
  then show ?case using Cons by (auto intro: triple_then)
qed (auto intro: triple_ret)

lemma revoking_other_key:
  assumes "revoking t u H s0 {} s" and "\<And>j. cell s' (access_key j) = cell s (access_key j)" "\<And>h. cell s' (refresh_key h) = cell s (refresh_key h)"
  shows "revoking t u H s0 {} s'"
  using assms(1) session_user_cell [OF assms(2)] cell_eqs(5) [OF assms(3)] by (simp add: revoking_def)

lemma revoke_all_keeps:
  "triple (\<lambda>s. indexed A t s \<and> (\<forall>k. cell s k = cell s0 k)) (revoke_all_sessions t u)
     (\<lambda>_ s. indexed A t s \<and> revoking t u {h. \<exists>j. session_user t j s0 = Some u \<and> session_refresh t j s0 = Some h} s0 {} s) (indexed A t)"
proof -
  let ?H = "{h. \<exists>j. session_user t j s0 = Some u \<and> session_refresh t j s0 = Some h}"
  let ?P = "\<lambda>s. \<forall>k. cell s k = cell s0 k"
  have w: "wireless ?P" by (simp add: wireless_def)
  have start: "revoking t u ?H s0 (set js) s" if "indexed A t s" "?P s" "js = redis_smembers t (user_sessions_key u) s" for s js
  proof -
    have eqs: "session_user t j s = session_user t j s0" "session_refresh t j s = session_refresh t j s0" for j
      using session_user_cell [of s j s0] cell_eqs(5) [of s "access_key j" s0] that(2) by (simp_all add: session_refresh_def)
    have all: "j \<in> set js" if "session_user t j s = Some u" for j
      using indexed_alive(4) [OF \<open>indexed A t s\<close> that] \<open>js = _\<close> by simp
    have "v = u" if "j \<in> set js" "session_user t j s = Some v" for j v
      using that \<open>indexed A t s\<close> \<open>js = _\<close> by (auto simp: indexed_def redis_smembers_def split: if_splits)
    then show ?thesis unfolding revoking_def using all eqs by (auto simp: eqs) 
  qed
  have members: "triple (\<lambda>s. indexed A t s \<and> ?P s \<and> js = redis_smembers t (user_sessions_key u) s) (revoke_members t js)
      (\<lambda>_ s. indexed A t s \<and> revoking t u ?H s0 {} s) (indexed A t)" for js
    by (rule triple_pre [OF revoke_members_keeps]) (use start in blast)
  have del: "triple (\<lambda>s. indexed A t s \<and> revoking t u ?H s0 {} s) (c_del (user_sessions_key u))
      (\<lambda>_ s. indexed A t s \<and> revoking t u ?H s0 {} s) (indexed A t)"
    unfolding c_del_def
  proof (rule call_keeps)
    fix s assume r: "revoking t u ?H s0 {} s"
    then have "no_session t u s" by (auto simp: revoking_def no_session_def)
    moreover have "revoking t u ?H s0 {} (redis_delete (user_sessions_key u) s)" using r by (rule revoking_other_key) simp_all
    ultimately show "keeps_index t s (redis_delete (user_sessions_key u) s) \<and> revoking t u ?H s0 {} (redis_delete (user_sessions_key u) s)"
      by (simp add: keeps_delete_user)
  qed simp
  have srem: "triple (\<lambda>s. indexed A t s \<and> revoking t u ?H s0 {} s) (c_srem t USERS_INDEX (show_int u))
      (\<lambda>_ s. indexed A t s \<and> revoking t u ?H s0 {} s) (indexed A t)"
    unfolding c_srem_def
  proof (rule call_keeps)
    fix s assume i: "indexed A t s" and r: "revoking t u ?H s0 {} s"
    then have "no_session t u s" by (auto simp: revoking_def no_session_def)
    moreover have "revoking t u ?H s0 {} (redis_srem t USERS_INDEX (show_int u) s)" using r by (rule revoking_other_key) simp_all
    ultimately show "keeps_index t s (redis_srem t USERS_INDEX (show_int u) s) \<and> revoking t u ?H s0 {} (redis_srem t USERS_INDEX (show_int u) s)"
      using i by (auto intro: keeps_srem_users)
  qed simp
  show ?thesis
    unfolding revoke_all_sessions_def c_smembers_def
    by (rule triple_bind [OF read_keeps [OF w] triple_then [OF members triple_then [OF del srem]]])
qed

text \<open>Listing prunes only what has no session.\<close>

definition listed :: "int \<Rightarrow> int \<Rightarrow> string list \<Rightarrow> session_info list \<Rightarrow> redis \<Rightarrow> bool" where
  "listed t u js acc s \<longleftrightarrow> (acc = [] \<longrightarrow> (\<forall>j. session_user t j s = Some u \<longrightarrow> j \<in> set js))"

lemma wireless_listed [simp]: "wireless (listed t u js acc)"
  by (simp add: wireless_def listed_def)

lemma session_user_get: "session_user t j s = Some u \<Longrightarrow> \<exists>raw d. redis_get t (access_key j) s = Some raw \<and> parse_record raw = Some d"
  by (auto simp: session_user_def bind_eq_Some_conv)

lemma list_members_keeps:
  "triple (\<lambda>s. indexed A t s \<and> listed t u js acc s) (list_members t u js acc)
     (\<lambda>r s. indexed A t s \<and> listed t u [] r s) (indexed A t)"
proof (induction js arbitrary: acc)
  case Nil
  then show ?case by (auto intro: triple_ret)
next
  case (Cons j js)
  let ?P = "\<lambda>raw s. listed t u (j # js) acc s \<and> raw = redis_get t (access_key j) s"
  have get: "triple (\<lambda>s. indexed A t s \<and> listed t u (j # js) acc s) (c_get t (access_key j)) (\<lambda>raw s. indexed A t s \<and> ?P raw s) (indexed A t)"
    unfolding c_get_def by (rule read_keeps) simp
  have w: "wireless (?P raw)" for raw using wireless_listed by (simp add: wireless_def)
  have gone: "session_user t j s \<noteq> Some v" if "redis_get t (access_key j) s = None \<or> (\<exists>raw. redis_get t (access_key j) s = Some raw \<and> parse_record raw = None)" for s v
    using that session_user_get [of t j s v] by auto
  have skip: "listed t u js acc s" if "listed t u (j # js) acc s" "\<forall>v. session_user t j s \<noteq> Some v" for s
    using that by (auto simp: listed_def)
  have srem: "triple (\<lambda>s. indexed A t s \<and> ?P None s) (c_srem t (user_sessions_key u) j)
      (\<lambda>_ s. indexed A t s \<and> listed t u js acc s) (indexed A t)"
    unfolding c_srem_def
  proof (rule call_keeps [OF w])
    fix s assume i: "indexed A t s" and P: "?P None s"
    then have "session_user t j s \<noteq> Some v" for v using gone by auto
    then have "keeps_index t s (redis_srem t (user_sessions_key u) j s)" "listed t u js acc s"
      using keeps_srem_user [OF i] skip [of s] P by simp_all
    then show "keeps_index t s (redis_srem t (user_sessions_key u) j s) \<and> listed t u js acc (redis_srem t (user_sessions_key u) j s)"
      by (simp add: listed_def)
  qed
  show ?case
    unfolding list_members.simps
  proof (rule triple_bind [OF get])
    fix raw
    show "triple (\<lambda>s. indexed A t s \<and> ?P raw s)
        (case raw of None \<Rightarrow> rthen (c_srem t (user_sessions_key u) j) (list_members t u js acc)
         | Some r \<Rightarrow> (case parse_record r of None \<Rightarrow> list_members t u js acc
             | Some d \<Rightarrow> list_members t u js (acc @ [to_session_info j u d])))
        (\<lambda>r s. indexed A t s \<and> listed t u [] r s) (indexed A t)"
    proof (cases raw)
      case None
      then show ?thesis using triple_then [OF srem Cons.IH] by simp
    next
      case (Some r)
      show ?thesis
      proof (cases "parse_record r")
        case None
        have "triple (\<lambda>s. indexed A t s \<and> ?P raw s) (list_members t u js acc) (\<lambda>r s. indexed A t s \<and> listed t u [] r s) (indexed A t)"
        proof (rule triple_pre [OF Cons.IH], elim conjE, intro conjI)
          fix s assume "listed t u (j # js) acc s" "raw = redis_get t (access_key j) s"
          then show "listed t u js acc s" using gone [of s] skip Some None by metis
        qed
        then show ?thesis using Some None by simp
      next
        case (Some d)
        have "listed t u js (acc @ [to_session_info j u d]) s" for s by (simp add: listed_def)
        then show ?thesis using \<open>raw = Some r\<close> Some by (auto intro: triple_pre [OF Cons.IH])
      qed
    qed
  qed
qed

lemma list_user_sessions_keeps:
  "triple (indexed A t) (list_user_sessions t u) (\<lambda>r s. indexed A t s \<and> (r = [] \<longrightarrow> no_session t u s)) (indexed A t)"
proof -
  have members: "triple (\<lambda>s. indexed A t s \<and> True \<and> js = redis_smembers t (user_sessions_key u) s) (list_members t u js [])
      (\<lambda>r s. indexed A t s \<and> listed t u [] r s) (indexed A t)" for js
  proof (rule triple_pre [OF list_members_keeps], elim conjE, intro conjI)
    fix s assume "indexed A t s" "js = redis_smembers t (user_sessions_key u) s"
    then show "listed t u js [] s" using indexed_alive(4) by (auto simp: listed_def)
  qed
  have prune: "triple (\<lambda>s. indexed A t s \<and> listed t u [] r s) (prune_user_index t u) (\<lambda>_ s. indexed A t s \<and> listed t u [] r s) (indexed A t)" for r
    by (rule prune_keeps [OF wireless_listed]) (simp add: listed_def)
  have ret: "triple (\<lambda>s. indexed A t s \<and> listed t u [] r s) (rret r) (\<lambda>r s. indexed A t s \<and> (r = [] \<longrightarrow> no_session t u s)) (indexed A t)" for r
    by (rule triple_ret) (auto simp: listed_def no_session_def)
  have "triple (\<lambda>s. indexed A t s \<and> True) (list_user_sessions t u) (\<lambda>r s. indexed A t s \<and> (r = [] \<longrightarrow> no_session t u s)) (indexed A t)"
    unfolding list_user_sessions_def c_smembers_def
    by (rule triple_bind [OF read_keeps triple_bind [OF members triple_then [OF prune ret]]]) (simp add: wireless_def)
  then show ?thesis by simp
qed

lemma srem_users_keeps:
  assumes "\<And>s u. P s \<Longrightarrow> raw = show_int u \<Longrightarrow> no_session t u s" and "wireless P"
  shows "triple (\<lambda>s. indexed A t s \<and> P s) (c_srem t USERS_INDEX raw) (\<lambda>_. indexed A t) (indexed A t)"
proof -
  have "triple (\<lambda>s. indexed A t s \<and> P s) (c_srem t USERS_INDEX raw) (\<lambda>_ s. indexed A t s \<and> True) (indexed A t)"
    unfolding c_srem_def using assms by (intro call_keeps) (auto intro: keeps_srem_users)
  then show ?thesis by simp
qed

lemma list_users_keeps:
  "triple (indexed A t) (list_users t uids acc) (\<lambda>_. indexed A t) (indexed A t)"
proof (induction uids arbitrary: acc)
  case (Cons raw uids)
  show ?case
  proof (cases "py_int_of_str raw")
    case None
    have "triple (\<lambda>s. indexed A t s \<and> True) (c_srem t USERS_INDEX raw) (\<lambda>_. indexed A t) (indexed A t)"
      using None by (intro srem_users_keeps) (auto simp: wireless_def)
    then show ?thesis using None Cons by (auto intro: triple_then)
  next
    case (Some uid)
    have "triple (\<lambda>s. indexed A t s \<and> no_session t uid s) (c_srem t USERS_INDEX raw) (\<lambda>_. indexed A t) (indexed A t)"
      using Some by (intro srem_users_keeps) (auto simp: wireless_def)
    from triple_then [OF this Cons.IH] Cons.IH show ?thesis
      using Some by (auto intro!: triple_bind [OF list_user_sessions_keeps] elim: triple_pre)
  qed
qed (auto intro: triple_ret)

lemma list_all_keeps: "triple (indexed A t) (list_all_sessions t) (\<lambda>_. indexed A t) (indexed A t)"
proof -
  have "triple (\<lambda>s. indexed A t s \<and> True) (list_all_sessions t) (\<lambda>_. indexed A t) (indexed A t)"
    unfolding list_all_sessions_def c_smembers_def
    by (rule triple_bind [OF read_keeps]) (auto simp: wireless_def intro: triple_pre [OF list_users_keeps])
  then show ?thesis by simp
qed

lemma other_keeps:
  assumes "\<And>s j. cell (f s) (access_key j) = cell s (access_key j)" "\<And>s u. cell (f s) (user_sessions_key u) = cell s (user_sessions_key u)"
    "\<And>s. cell (f s) USERS_INDEX = cell s USERS_INDEX"
  shows "triple (indexed A t) (rcall (ruse f)) (\<lambda>_. indexed A t) (indexed A t)"
proof (rule triple_use)
  have "indexed A t (f s)" if "indexed A t s" for s
    by (rule indexed_keeps [OF that keeps_other]) (rule assms)+
  then show "indexed A t s \<Longrightarrow> indexed A t (f s) \<and> indexed A t (f s)" for s by blast
qed simp_all

lemma set_used_keeps: "triple (indexed A t) (c_set t (refresh_used_key h) v ex) (\<lambda>_. indexed A t) (indexed A t)"
  unfolding c_set_def by (rule other_keeps) simp_all

lemma revoke_all_indexed: "triple (indexed A t) (revoke_all_sessions t u) (\<lambda>_ s. indexed A t s \<and> no_session t u s) (indexed A t)"
  unfolding triple_def
proof (intro allI impI)
  fix s assume "indexed A t s"
  then have "case revoke_all_sessions t u s of (None, s') \<Rightarrow> indexed A t s'
      | (Some x, s') \<Rightarrow> indexed A t s' \<and> revoking t u {h. \<exists>j. session_user t j s = Some u \<and> session_refresh t j s = Some h} s {} s'"
    using revoke_all_keeps [of A t s u] by (simp add: triple_def)
  then show "case revoke_all_sessions t u s of (None, s') \<Rightarrow> indexed A t s' | (Some x, s') \<Rightarrow> indexed A t s' \<and> no_session t u s'"
    using revokingD(1) by (fastforce simp: no_session_def split: prod.splits option.splits)
qed

lemma getdel_keeps: "indexed A t s \<Longrightarrow> indexed A t (snd (redis_getdel t (refresh_key h) s))"
  by (erule indexed_keeps [OF _ keeps_other]) simp_all

lemma consume_keeps:
  assumes "hash_text h"
  shows "triple (indexed A t) (consume_refresh t h ttl) (\<lambda>r s. indexed A t s \<and> (\<forall>u. r = RefreshReuse u \<longrightarrow> no_session t u s)) (indexed A t)"
proof -
  let ?Q = "\<lambda>r s. indexed A t s \<and> (\<forall>u. r = RefreshReuse u \<longrightarrow> no_session t u s)"
  have getdel: "triple (indexed A t) (c_getdel t (refresh_key h)) (\<lambda>_. indexed A t) (indexed A t)"
    unfolding c_getdel_def
  proof (rule triple_call)
    fix s assume "indexed A t s"
    then have "indexed A t (snd (redis_getdel t (refresh_key h) s))" by (rule getdel_keeps)
    then show "indexed A t (snd (redis_getdel t (refresh_key h) s)) \<and> indexed A t (snd (redis_getdel t (refresh_key h) s))" by blast
  qed simp_all
  have get: "triple (indexed A t) (c_get t k) (\<lambda>_. indexed A t) (indexed A t)" for k
    unfolding c_get_def by (rule triple_post [OF triple_read]) auto
  have reuse: "triple (indexed A t) (rthen (revoke_all_sessions t u) (rret (RefreshReuse u))) ?Q (indexed A t)" for u
    by (rule triple_then [OF revoke_all_indexed triple_ret]) simp
  have ok: "triple (indexed A t) (rthen (c_set t (refresh_used_key h) v ttl) (rret (RefreshOk u j))) ?Q (indexed A t)" for v u j
    by (rule triple_then [OF set_used_keeps triple_ret]) simp
  have invalid: "triple (indexed A t) (rret RefreshInvalid) ?Q (indexed A t)" by (rule triple_ret) simp
  show ?thesis
    unfolding consume_refresh_def spend_refresh_def check_replay_def
    by (rule triple_bind [OF getdel]) (auto intro!: ok reuse invalid triple_bind [OF get] split: option.split)
qed

text \<open>Opening a session: a token id nobody has used.\<close>

definition fresh_jti :: "string \<Rightarrow> redis \<Rightarrow> bool" where
  "fresh_jti j s \<longleftrightarrow> (\<forall>u. j \<notin> set (r_sets s (user_sessions_key u)))"

lemma rcall_done:
  assumes "rcall f s = (Some x, s')"
  obtains s1 where "\<And>k. cell s1 k = cell s k" "f s1 = (x, s')"
proof (cases "r_wire s")
  case Nil
  then show ?thesis using assms that [of s] by (simp split: prod.splits)
next
  case (Cons w ws)
  then have "w = WOk" "f (s\<lparr>r_wire := ws\<rparr>) = (x, s')"
    using assms by (auto simp: rcall_def Let_def split: wire.splits prod.splits)
  then show ?thesis using that [of "s\<lparr>r_wire := ws\<rparr>"] by simp
qed

lemma rthen_done:
  assumes "rthen m k s = (Some x, s')"
  obtains y s1 where "m s = (Some y, s1)" "k s1 = (Some x, s')"
  using assms by (auto simp: rthen_def rbind_def split: prod.splits option.splits)

lemma set_own:
  assumes "0 < ex"
  shows "redis_get now k (redis_set now k v (Some ex) s) = Some v" "r_expiry (redis_set now k v (Some ex) s) k = Some (now + ex * 1000)"
    "r_sets (redis_set now k v (Some ex) s) k = r_sets s k"
  using assms by (simp_all add: redis_set_def redis_get_def expired_def)

lemma sadd_own:
  "set (r_sets (snd (redis_sadd now k m s)) k) = insert m (if expired now k s then {} else set (r_sets s k))"
  "r_expiry (snd (redis_sadd now k m s)) k = (if expired now k s then None else r_expiry s k)"
  by (auto simp: redis_sadd_def evict_if_expired_def Let_def)

lemma sadd_alive: "\<not> expired now k (snd (redis_sadd now k m s))"
  using sadd_own(2) [of now k m s] by (cases "expired now k s") (simp_all add: expired_def)

lemma expire_own:
  assumes "\<not> expired now k s" and "r_sets s k \<noteq> []"
  shows "r_expiry (redis_expire now k secs s) k = Some (now + secs * 1000)" "r_sets (redis_expire now k secs s) k = r_sets s k"
  using assms by (simp_all add: redis_expire_def redis_pexpire_def evict_if_expired_def key_exists_def Let_def)

text \<open>What opening a session writes, key by key.\<close>

lemma create_cells:
  assumes "create_session t login_at u j attl h rttl ip ua s = (Some (), s')" and "0 < attl" "attl \<le> rttl"
  shows "redis_get t (access_key j) s' = Some (dumps (access_record u h ip ua login_at))" "r_expiry s' (access_key j) = Some (t + attl * 1000)"
    "redis_get t (refresh_key h) s' = Some (dumps (refresh_record u j))"
    "set (r_sets s' (user_sessions_key u)) = insert j (if expired t (user_sessions_key u) s then {} else set (r_sets s (user_sessions_key u)))"
    "r_expiry s' (user_sessions_key u) = Some (t + rttl * 1000)"
    "set (r_sets s' USERS_INDEX) = insert (show_int u) (if expired t USERS_INDEX s then {} else set (r_sets s USERS_INDEX))"
    "r_expiry s' USERS_INDEX = (if expired t USERS_INDEX s then None else r_expiry s USERS_INDEX)"
    "k \<noteq> access_key j \<Longrightarrow> k \<noteq> refresh_key h \<Longrightarrow> k \<noteq> user_sessions_key u \<Longrightarrow> k \<noteq> USERS_INDEX \<Longrightarrow> cell s' k = cell s k"
proof -
  let ?va = "dumps (access_record u h ip ua login_at)" and ?vr = "dumps (refresh_record u j)"
  obtain s1 s2 s3 s4 n m where
    1: "rcall (ruse (redis_set t (access_key j) ?va (Some attl))) s = (Some (), s1)" and
    2: "rcall (ruse (redis_set t (refresh_key h) ?vr (Some rttl))) s1 = (Some (), s2)" and
    3: "rcall (redis_sadd t (user_sessions_key u) j) s2 = (Some n, s3)" and
    4: "rcall (ruse (redis_expire t (user_sessions_key u) rttl)) s3 = (Some (), s4)" and
    5: "rcall (redis_sadd t USERS_INDEX (show_int u)) s4 = (Some m, s')"
    using assms(1) unfolding create_session_def c_defs by (auto elim!: rthen_done simp: rret_def)
  obtain a1 where a1: "\<And>k. cell a1 k = cell s k" "s1 = redis_set t (access_key j) ?va (Some attl) a1"
    using rcall_done [OF 1] by (metis ruse_def prod.inject)
  obtain a2 where a2: "\<And>k. cell a2 k = cell s1 k" "s2 = redis_set t (refresh_key h) ?vr (Some rttl) a2"
    using rcall_done [OF 2] by (metis ruse_def prod.inject)
  obtain a3 where a3: "\<And>k. cell a3 k = cell s2 k" "s3 = snd (redis_sadd t (user_sessions_key u) j a3)"
    using rcall_done [OF 3] by (metis snd_conv)
  obtain a4 where a4: "\<And>k. cell a4 k = cell s3 k" "s4 = redis_expire t (user_sessions_key u) rttl a4"
    using rcall_done [OF 4] by (metis ruse_def prod.inject)
  obtain a5 where a5: "\<And>k. cell a5 k = cell s4 k" "s' = snd (redis_sadd t USERS_INDEX (show_int u) a5)"
    using rcall_done [OF 5] by (metis snd_conv)
  have other: "cell s' k = cell s4 k" if "k \<noteq> USERS_INDEX" for k using that a5 by simp
  have other4: "cell s4 k = cell s3 k" "cell s3 k = cell s2 k" if "k \<noteq> user_sessions_key u" for k using that a3 a4 by simp_all
  have other2: "cell s2 k = cell s1 k" if "k \<noteq> refresh_key h" for k using that a2 by simp
  have other1: "cell s1 k = cell s k" if "k \<noteq> access_key j" for k using that a1 by simp
  show "k \<noteq> access_key j \<Longrightarrow> k \<noteq> refresh_key h \<Longrightarrow> k \<noteq> user_sessions_key u \<Longrightarrow> k \<noteq> USERS_INDEX \<Longrightarrow> cell s' k = cell s k" for k
    using other other4 other2 other1 by simp
  have "cell s' (access_key j) = cell s1 (access_key j)" using other other4 other2 by simp
  from cell_eqs(4,5) [OF this] show "redis_get t (access_key j) s' = Some ?va" "r_expiry s' (access_key j) = Some (t + attl * 1000)"
    using set_own [OF assms(2)] a1(2) by simp_all
  have "cell s' (refresh_key h) = cell s2 (refresh_key h)" using other other4 by simp
  from cell_eqs(5) [OF this] show "redis_get t (refresh_key h) s' = Some ?vr"
    using set_own(1) [of rttl] assms(2,3) a2(2) by simp
  have u: "cell a3 (user_sessions_key u) = cell s (user_sessions_key u)" using a3(1) other2 other1 by simp
  have sets3: "set (r_sets s3 (user_sessions_key u)) = insert j (if expired t (user_sessions_key u) s then {} else set (r_sets s (user_sessions_key u)))"
    and exp3: "r_expiry s3 (user_sessions_key u) = (if expired t (user_sessions_key u) s then None else r_expiry s (user_sessions_key u))"
    using sadd_own [of t "user_sessions_key u" j a3] cell_eqs(2,4,8) [OF u] a3(2) by simp_all
  note c4 = a4(1) [of "user_sessions_key u"]
  have "\<not> expired t (user_sessions_key u) s3" unfolding a3(2) by (rule sadd_alive)
  then have "\<not> expired t (user_sessions_key u) a4" by (simp only: cell_eqs(8) [OF c4] not_False_eq_True)
  moreover have "r_sets s3 (user_sessions_key u) \<noteq> []" using sets3 by (metis empty_iff empty_set insertI1)
  then have "r_sets a4 (user_sessions_key u) \<noteq> []" by (simp only: cell_eqs(2) [OF c4] not_False_eq_True)
  ultimately have "\<not> expired t (user_sessions_key u) a4" "r_sets a4 (user_sessions_key u) \<noteq> []" by blast+
  from expire_own [OF this, of rttl]
  have "r_expiry s4 (user_sessions_key u) = Some (t + rttl * 1000)" "r_sets s4 (user_sessions_key u) = r_sets s3 (user_sessions_key u)"
    using a4(2) cell_eqs(2) [OF a4(1) [of "user_sessions_key u"]] by simp_all
  moreover have "cell s' (user_sessions_key u) = cell s4 (user_sessions_key u)" using other by simp
  note cell_eqs(2,4) [OF this]
  ultimately show "r_expiry s' (user_sessions_key u) = Some (t + rttl * 1000)"
    "set (r_sets s' (user_sessions_key u)) = insert j (if expired t (user_sessions_key u) s then {} else set (r_sets s (user_sessions_key u)))"
    using sets3 by simp_all
  have i: "cell a5 USERS_INDEX = cell s USERS_INDEX" using a5(1) other4 other2 other1 by simp
  show "set (r_sets s' USERS_INDEX) = insert (show_int u) (if expired t USERS_INDEX s then {} else set (r_sets s USERS_INDEX))"
    "r_expiry s' USERS_INDEX = (if expired t USERS_INDEX s then None else r_expiry s USERS_INDEX)"
    using sadd_own [of t USERS_INDEX "show_int u" a5] cell_eqs(2,4,8) [OF i] a5(2) by simp_all
qed

lemma create_keeps:
  assumes i: "indexed A t s" and "fresh_jti j s" and "0 < attl" "attl * 1000 = A" "attl \<le> rttl"
    and c: "create_session t login_at u j attl h rttl ip ua s = (Some (), s')"
  shows "indexed A t s'"
proof -
  note cells = create_cells [OF c assms(3,5)]
  have new: "session_user t j s' = Some u"
    using cells(1) by (simp add: session_user_def access_record_fields int_field_def dget_def)
  have same: "cell s' (access_key i) = cell s (access_key i)" if "i \<noteq> j" for i using that cells(8) by simp
  have users: "cell s' (user_sessions_key v) = cell s (user_sessions_key v)" if "v \<noteq> u" for v using that cells(8) by simp
  have none: "r_expiry s USERS_INDEX = None" "\<not> expired t USERS_INDEX s" using i by (simp_all add: indexed_def expired_def)
  have goal: "(\<exists>e e'. r_expiry s' (access_key i) = Some e \<and> e \<le> t + A \<and> r_expiry s' (user_sessions_key v) = Some e' \<and> e \<le> e')
        \<and> i \<in> set (r_sets s' (user_sessions_key v)) \<and> show_int v \<in> set (r_sets s' USERS_INDEX)
        \<and> (\<forall>w. i \<in> set (r_sets s' (user_sessions_key w)) \<longrightarrow> w = v)" if v: "session_user t i s' = Some v" for i v
  proof (cases "i = j")
    case True
    then have "v = u" using v new by simp
    have "j \<notin> set (r_sets s' (user_sessions_key w))" if "w \<noteq> u" for w
      using assms(2) cell_eqs(2) [OF users [OF that]] by (simp add: fresh_jti_def)
    then show ?thesis using cells(2,4,5,6) assms(3-5) True \<open>v = u\<close> by auto
  next
    case False
    have old: "session_user t i s = Some v" using v session_user_cell [OF same [OF False]] by simp
    with i have o: "\<exists>e e'. r_expiry s (access_key i) = Some e \<and> e \<le> t + A \<and> r_expiry s (user_sessions_key v) = Some e' \<and> e \<le> e'"
      "i \<in> set (r_sets s (user_sessions_key v))" "show_int v \<in> set (r_sets s USERS_INDEX)"
      "\<And>w. i \<in> set (r_sets s (user_sessions_key w)) \<Longrightarrow> w = v" by (simp_all add: indexed_def)
    have e: "r_expiry s' (access_key i) = r_expiry s (access_key i)" by (rule cell_eqs(4) [OF same [OF False]])
    have mem: "w = v" if "i \<in> set (r_sets s' (user_sessions_key w))" for w
      using that o(4) [of w] cells(4) cell_eqs(2) [OF users [of w]] False by (cases "w = u") (auto split: if_splits)
    have "i \<in> set (r_sets s' (user_sessions_key v)) \<and>
        (\<exists>e e'. r_expiry s' (access_key i) = Some e \<and> e \<le> t + A \<and> r_expiry s' (user_sessions_key v) = Some e' \<and> e \<le> e')"
    proof (cases "v = u")
      case True
      then show ?thesis using o(1,2) e cells(4,5) indexed_alive(1) [OF i old] assms(4,5) by auto
    next
      case False
      then show ?thesis using o(1,2) e cell_eqs(2,4) [OF users [OF False]] by simp
    qed
    then show ?thesis using o(3) cells(6) none mem by auto
  qed
  have "session_user t k s' \<noteq> None" if "redis_exists t (access_key k) s'" for k
  proof (cases "k = j")
    case False
    then have "redis_exists t (access_key k) s" using that cell_eqs(7) [OF same [OF False]] by simp
    then show ?thesis using i session_user_cell [OF same [OF False]] by (simp add: indexed_def)
  qed (simp add: new)
  then show ?thesis unfolding indexed_def using goal cells(7) none by simp
qed

section \<open>Runs of the store\<close>

text \<open>
  One operation at its time, over a connection that may behave in any way. \<open>new\<close> says which refresh hashes sessions are opened
  with; a session that is opened gets a token id no index holds, and counts when the operation returns (one that raises hands no
  token out).
\<close>

inductive session_step :: "int \<Rightarrow> (string \<Rightarrow> bool) \<Rightarrow> int \<times> redis \<Rightarrow> int \<times> redis \<Rightarrow> bool" for attl new where
  opened: "t \<le> t' \<Longrightarrow> fresh_jti j s \<Longrightarrow> new h \<Longrightarrow> 0 < attl \<Longrightarrow> attl \<le> rttl \<Longrightarrow>
    create_session t' login_at u j attl h rttl ip ua (s\<lparr>r_wire := ws\<rparr>) = (Some (), s') \<Longrightarrow> session_step attl new (t, s) (t', s')"
| revoked: "t \<le> t' \<Longrightarrow> session_step attl new (t, s) (t', snd (revoke_access t' j (s\<lparr>r_wire := ws\<rparr>)))"
| revoked_all: "t \<le> t' \<Longrightarrow> session_step attl new (t, s) (t', snd (revoke_all_sessions t' u (s\<lparr>r_wire := ws\<rparr>)))"
| consumed: "t \<le> t' \<Longrightarrow> hash_text h \<Longrightarrow> session_step attl new (t, s) (t', snd (consume_refresh t' h ttl (s\<lparr>r_wire := ws\<rparr>)))"
| listed_user: "t \<le> t' \<Longrightarrow> session_step attl new (t, s) (t', snd (list_user_sessions t' u (s\<lparr>r_wire := ws\<rparr>)))"
| listed_all: "t \<le> t' \<Longrightarrow> session_step attl new (t, s) (t', snd (list_all_sessions t' (s\<lparr>r_wire := ws\<rparr>)))"

lemma triple_snd: "triple P m Q E \<Longrightarrow> P s \<Longrightarrow> (\<And>x s'. Q x s' \<Longrightarrow> E s') \<Longrightarrow> E (snd (m s))"
  by (cases "m s"; cases "fst (m s)") (force simp: triple_def)+

lemma session_step_indexed:
  assumes "session_step attl new (t, s) (t', s')" and "indexed (attl * 1000) t s"
  shows "indexed (attl * 1000) t' s'"
proof -
  have later: "indexed (attl * 1000) t' (s\<lparr>r_wire := ws\<rparr>)" if "t \<le> t'" for ws
    using assms(2) that by (simp add: indexed_later)
  have fresh: "fresh_jti j (s\<lparr>r_wire := ws\<rparr>) = fresh_jti j s" for j ws by (simp add: fresh_jti_def)
  show ?thesis
    using assms(1)
  proof (cases rule: session_step.cases)
    case (opened j h rttl login_at u ip ua ws)
    then show ?thesis using create_keeps [OF later] fresh by blast
  next
    case (revoked j ws)
    then show ?thesis using triple_snd [OF revoke_access_keeps later] by simp
  next
    case (revoked_all u ws)
    then show ?thesis using triple_snd [OF revoke_all_indexed later] by simp
  next
    case (consumed h ttl ws)
    then show ?thesis using triple_snd [OF consume_keeps later] by simp
  next
    case (listed_user u ws)
    then show ?thesis using triple_snd [OF list_user_sessions_keeps later] by simp
  next
    case (listed_all ws)
    then show ?thesis using triple_snd [OF list_all_keeps later] by simp
  qed
qed

lemma session_run_indexed:
  "(session_step attl new)\<^sup>*\<^sup>* (t, s) (t', s') \<Longrightarrow> indexed (attl * 1000) t s \<Longrightarrow> indexed (attl * 1000) t' s'"
proof (induction "(t', s')" arbitrary: t' s' rule: rtranclp_induct)
  case (step y)
  then show ?case by (cases y) (blast intro: session_step_indexed)
qed

section \<open>What operations leave alone\<close>

text \<open>
  The contract of an assertion on the store that every operation but the opening of a session keeps: no deletion or
  removal the store makes breaks it, the hashes of stored records are hashes, and neither does spending
  a refresh token that is still there (\<open>usable\<close> says which those are).
\<close>

locale session_frame =
  fixes t :: int and J :: "redis \<Rightarrow> bool" and usable :: "string \<Rightarrow> bool"
  assumes J_wire: "wireless J"
    and J_access: "J s \<Longrightarrow> J (redis_delete (access_key j) s)"
    and J_user: "J s \<Longrightarrow> J (redis_delete (user_sessions_key u) s)"
    and J_srem_user: "J s \<Longrightarrow> J (redis_srem t (user_sessions_key u) j s)"
    and J_srem_users: "J s \<Longrightarrow> J (redis_srem t USERS_INDEX raw s)"
    and J_hash: "J s \<Longrightarrow> session_refresh t j s = Some h \<Longrightarrow> hash_text h"
    and J_refresh: "J s \<Longrightarrow> hash_text h \<Longrightarrow> J (redis_delete (refresh_key h) s)"
    and J_getdel: "J s \<Longrightarrow> hash_text h \<Longrightarrow> J (snd (redis_getdel t (refresh_key h) s))"
    and J_usable: "J s \<Longrightarrow> redis_get t (refresh_key h) s = Some raw \<Longrightarrow> usable h"
    and J_used: "J s \<Longrightarrow> hash_text h \<Longrightarrow> usable h \<Longrightarrow> J (redis_set t (refresh_used_key h) v (Some ex) s)"
begin

lemma read_J: "triple J (rcall (rread g)) (\<lambda>x s. J s \<and> x = g s) J"
  using J_wire by (rule triple_read) (simp_all add: J_wire)

lemma use_J: "(\<And>s. J s \<Longrightarrow> J (f s)) \<Longrightarrow> triple J (rcall (ruse f)) (\<lambda>_. J) J"
  by (rule triple_use [OF J_wire J_wire]) simp_all

lemma any_J: "triple J (rcall (rread g)) (\<lambda>_. J) J"
  by (rule triple_post [OF read_J]) simp

lemma ret_J: "triple J (rret x) (\<lambda>_. J) J"
  by (rule triple_ret)

lemmas del_J = use_J [OF J_access] use_J [OF J_user] use_J [OF J_srem_user] use_J [OF J_srem_users]

lemma prune_J: "triple J (prune_user_index t u) (\<lambda>_. J) J"
  unfolding prune_user_index_def c_exists_def c_srem_def
  by (rule triple_bind [OF any_J]) (simp add: ret_J del_J)

lemma drop_refresh_J: "(\<And>h. ho = Some h \<Longrightarrow> hash_text h) \<Longrightarrow> triple J (drop_refresh ho) (\<lambda>_. J) J"
  unfolding drop_refresh_def c_del_def by (cases ho) (auto intro!: ret_J use_J J_refresh)

lemma drop_user_J: "triple J (drop_user_member t j uo) (\<lambda>_. J) J"
  unfolding drop_user_member_def c_srem_def by (cases uo) (auto intro!: ret_J triple_then [OF del_J(3) prune_J])

lemma read_access_J:
  "triple J (c_get t (access_key j)) (\<lambda>raw s. J s \<and> (\<forall>h. Option.bind (Option.bind raw parse_record) (str_field ''refresh_hash'') = Some h \<longrightarrow> hash_text h)) J"
  unfolding c_get_def by (rule triple_post [OF read_J]) (auto simp: session_refresh_def intro: J_hash)

lemma after_read_J:
  assumes "\<And>d. raw = Some d \<Longrightarrow> (\<And>h. str_field ''refresh_hash'' d = Some h \<Longrightarrow> hash_text h) \<Longrightarrow> triple J (f d) (\<lambda>_. J) J"
  shows "triple (\<lambda>s. J s \<and> (\<forall>h. Option.bind raw (str_field ''refresh_hash'') = Some h \<longrightarrow> hash_text h))
    (rthen (c_del (access_key j)) (case raw of None \<Rightarrow> rret () | Some d \<Rightarrow> f d)) (\<lambda>_. J) J"
proof (cases "\<forall>h. Option.bind raw (str_field ''refresh_hash'') = Some h \<longrightarrow> hash_text h")
  case True
  have del: "triple J (c_del (access_key j)) (\<lambda>_. J) J" unfolding c_del_def by (rule del_J)
  have "triple J (case raw of None \<Rightarrow> rret () | Some d \<Rightarrow> f d) (\<lambda>_. J) J"
    using assms True by (cases raw) (auto intro: ret_J)
  from triple_then [OF del this] show ?thesis by (rule triple_pre) simp
qed (auto simp: triple_def)

lemma revoke_access_J: "triple J (revoke_access t j) (\<lambda>_. J) J"
  unfolding revoke_access_def
  by (rule triple_bind [OF read_access_J after_read_J]) (rule triple_then [OF drop_user_J drop_refresh_J])

lemma revoke_member_J: "triple J (revoke_member t j) (\<lambda>_. J) J"
  unfolding revoke_member_def by (rule triple_bind [OF read_access_J after_read_J]) (rule drop_refresh_J)

lemma revoke_all_J: "triple J (revoke_all_sessions t u) (\<lambda>_. J) J"
proof -
  have "triple J (revoke_members t js) (\<lambda>_. J) J" for js
    by (induction js) (auto intro: ret_J triple_then [OF revoke_member_J])
  then show ?thesis
    unfolding revoke_all_sessions_def c_smembers_def c_del_def c_srem_def
    by (intro triple_bind [OF any_J] triple_then [OF _ triple_then [OF del_J(2) del_J(4)]])
qed

lemma list_user_J: "triple J (list_user_sessions t u) (\<lambda>_. J) J"
proof -
  have "triple J (list_members t u js acc) (\<lambda>_. J) J" for js acc
  proof (induction js arbitrary: acc)
    case (Cons j js)
    then show ?case
      unfolding list_members.simps c_get_def c_srem_def
      by (intro triple_bind [OF any_J]) (auto intro: triple_then [OF del_J(3)] split: option.split)
  qed (simp add: ret_J)
  then show ?thesis
    unfolding list_user_sessions_def c_smembers_def by (rule triple_bind [OF any_J triple_bind [OF _ triple_then [OF prune_J ret_J]]])
qed

lemma list_all_J: "triple J (list_all_sessions t) (\<lambda>_. J) J"
proof -
  have "triple J (list_users t uids acc) (\<lambda>_. J) J" for uids acc
  proof (induction uids arbitrary: acc)
    case (Cons raw uids)
    then show ?case
      by (auto simp: c_srem_def intro!: triple_then [OF del_J(4)] triple_bind [OF list_user_J] split: option.split)
  qed (simp add: ret_J)
  then show ?thesis
    unfolding list_all_sessions_def c_smembers_def by (intro triple_bind [OF any_J])
qed

lemma consume_J:
  assumes "hash_text h"
  shows "triple J (consume_refresh t h ttl) (\<lambda>_. J) J"
proof -
  have getdel: "triple J (c_getdel t (refresh_key h)) (\<lambda>raw s. J s \<and> (raw \<noteq> None \<longrightarrow> usable h)) J"
    unfolding c_getdel_def
  proof (rule triple_call [OF J_wire J_wire])
    fix s assume J: "J s"
    then show "(J (snd (redis_getdel t (refresh_key h) s)) \<and> (fst (redis_getdel t (refresh_key h) s) \<noteq> None \<longrightarrow> usable h))
        \<and> J (snd (redis_getdel t (refresh_key h) s))"
      using J_getdel [OF J assms] J_usable [OF J, of h] by (auto simp: redis_getdel_def split: option.splits)
  qed simp
  have ok: "triple J (rthen (c_set t (refresh_used_key h) v ttl) (rret (RefreshOk u j))) (\<lambda>_. J) J" if "usable h" for v u j
    unfolding c_set_def using J_used assms that by (intro triple_then [OF use_J ret_J])
  have reuse: "triple J (rthen (revoke_all_sessions t u) (rret (RefreshReuse u))) (\<lambda>_. J) J" for u
    by (rule triple_then [OF revoke_all_J ret_J])
  have replay: "triple J (check_replay t h) (\<lambda>_. J) J"
    unfolding check_replay_def c_get_def by (rule triple_bind [OF any_J]) (auto intro: reuse ret_J split: option.split)
  have spend: "triple J (spend_refresh t h ttl r) (\<lambda>_. J) J" if "usable h" for r
    unfolding spend_refresh_def using ok [OF that] by (auto intro: ret_J split: option.split)
  show ?thesis
    unfolding consume_refresh_def
  proof (rule triple_bind [OF getdel])
    fix raw
    show "triple (\<lambda>s. J s \<and> (raw \<noteq> None \<longrightarrow> usable h))
       (case raw of None \<Rightarrow> check_replay t h | Some r \<Rightarrow> spend_refresh t h ttl r) (\<lambda>_. J) J"
    proof (cases raw)
      case (Some r)
      then show ?thesis using spend by (cases "usable h") (simp_all add: triple_def)
    qed (use replay in simp)
  qed
qed

lemmas keeps_J = revoke_access_J revoke_all_J list_user_J list_all_J

end

definition hashes_ok :: "int \<Rightarrow> redis \<Rightarrow> bool" where
  "hashes_ok t s \<longleftrightarrow> (\<forall>j h. session_refresh t j s = Some h \<longrightarrow> hash_text h)"

text \<open>The refresh token \<open>h\<close> of \<open>u\<close> has been used, and until \<open>e\<close> the store knows.\<close>

definition spent :: "string \<Rightarrow> int \<Rightarrow> int \<Rightarrow> int \<Rightarrow> redis \<Rightarrow> bool" where
  "spent h u e t s \<longleftrightarrow> redis_get t (refresh_key h) s = None
     \<and> (t < e \<longrightarrow> redis_get t (refresh_used_key h) s = Some (dumps (JObj [(''user_id'', JInt u)])) \<and> r_expiry s (refresh_used_key h) = Some e)"

lemma session_refresh_cell: "cell s (access_key j) = cell s' (access_key j) \<Longrightarrow> session_refresh now j s = session_refresh now j s'"
  unfolding session_refresh_def by (drule cell_eqs(5) [where now = now]) (simp only:)

lemma hashes_ok_cells: "hashes_ok t s \<Longrightarrow> (\<And>j. cell s' (access_key j) = cell s (access_key j)) \<Longrightarrow> hashes_ok t s'"
  unfolding hashes_ok_def using session_refresh_cell by metis

lemma spent_cells:
  "spent h u e t s \<Longrightarrow> cell s' (refresh_key h) = cell s (refresh_key h) \<Longrightarrow> cell s' (refresh_used_key h) = cell s (refresh_used_key h)
    \<Longrightarrow> spent h u e t s'"
  unfolding spent_def using cell_eqs(4,5) by metis

definition spent_inv :: "string \<Rightarrow> int \<Rightarrow> int \<Rightarrow> int \<Rightarrow> redis \<Rightarrow> bool" where
  "spent_inv h u e t s \<longleftrightarrow> hash_text h \<and> hashes_ok t s \<and> spent h u e t s"

lemma hashes_ok_delete: "hashes_ok t s \<Longrightarrow> hashes_ok t (redis_delete k s)"
  by (simp add: hashes_ok_def)

interpretation ho: session_frame t "hashes_ok t" "\<lambda>_. True" for t
proof (unfold_locales, goal_cases)
  case 1
  then show ?case by (simp add: wireless_def hashes_ok_def)
next
  case (6 s j h)
  then show ?case by (simp add: hashes_ok_def)
qed (auto intro: hashes_ok_delete hashes_ok_cells)

lemma spent_not_used_key: "hash_text h \<Longrightarrow> hash_text h' \<Longrightarrow> refresh_key h' \<noteq> refresh_used_key h" "hash_text h \<Longrightarrow> refresh_used_key h' \<noteq> refresh_key h"
  using refresh_keys_distinct by metis+

lemma spent_inv_cells:
  "spent_inv h u e t s \<Longrightarrow> (\<And>j. cell s' (access_key j) = cell s (access_key j)) \<Longrightarrow> cell s' (refresh_key h) = cell s (refresh_key h)
    \<Longrightarrow> cell s' (refresh_used_key h) = cell s (refresh_used_key h) \<Longrightarrow> spent_inv h u e t s'"
  unfolding spent_inv_def using hashes_ok_cells spent_cells by blast

lemma spent_gone:
  "spent_inv h u e t s \<Longrightarrow> hashes_ok t s' \<Longrightarrow> redis_get t (refresh_key h) s' = None
    \<Longrightarrow> cell s' (refresh_used_key h) = cell s (refresh_used_key h) \<Longrightarrow> spent_inv h u e t s'"
  unfolding spent_inv_def spent_def by (simp only: cell_eqs(4,5) [of s' "refresh_used_key h" s]) simp

interpretation sp: session_frame t "spent_inv h u e t" "\<lambda>h'. h' \<noteq> h" for t h u e
proof (unfold_locales, goal_cases)
  case 1
  then show ?case by (simp add: wireless_def spent_inv_def hashes_ok_def spent_def)
next
  case (2 s j)
  then show ?case by (intro spent_gone [OF 2]) (simp_all add: spent_inv_def hashes_ok_delete spent_def)
next
  case (6 s j h)
  then show ?case by (simp add: spent_inv_def hashes_ok_def)
next
  case (7 s h')
  then have "refresh_key h' \<noteq> refresh_used_key h" by (simp add: spent_inv_def spent_not_used_key)
  with 7 show ?case by (intro spent_gone [OF 7(1)]) (simp_all add: spent_inv_def hashes_ok_delete spent_def)
next
  case (8 s h')
  then have used: "refresh_key h' \<noteq> refresh_used_key h" by (simp add: spent_inv_def spent_not_used_key)
  have "redis_get t (refresh_key h) (snd (redis_getdel t (refresh_key h') s)) = None"
  proof (cases "h' = h")
    case True
    then show ?thesis using 8 by (simp add: spent_inv_def spent_def redis_getdel_def)
      (auto simp: redis_get_def evict_if_expired_def expired_def)
  next
    case False
    then have "cell (snd (redis_getdel t (refresh_key h') s)) (refresh_key h) = cell s (refresh_key h)" by simp
    from cell_eqs(5) [OF this] show ?thesis using 8 by (simp add: spent_inv_def spent_def)
  qed
  moreover have "hashes_ok t (snd (redis_getdel t (refresh_key h') s))"
    using 8 by (intro ho.J_getdel) (simp_all add: spent_inv_def)
  ultimately show ?case using used by (intro spent_gone [OF 8(1)]) simp_all
next
  case (9 s h' raw)
  then show ?case by (auto simp: spent_inv_def spent_def)
next
  case (10 s h' v ex)
  then have "refresh_used_key h' \<noteq> refresh_key h" by (simp add: spent_inv_def spent_not_used_key)
  with 10 show ?case by (intro spent_inv_cells [OF 10(1)]) simp_all
qed (auto intro: spent_inv_cells)

lemma hashes_ok_later: "hashes_ok t s \<Longrightarrow> t \<le> t' \<Longrightarrow> hashes_ok t' s"
proof -
  assume ok: "hashes_ok t s" and le: "t \<le> t'"
  have "session_refresh t j s = Some h" if "session_refresh t' j s = Some h" for j h
    using that by (auto simp: session_refresh_def bind_eq_Some_conv dest: get_later [OF _ le])
  then show ?thesis using ok unfolding hashes_ok_def by blast
qed

lemma spent_later:
  assumes "spent_inv h u e t s" and le: "t \<le> t'"
  shows "spent_inv h u e t' s"
proof -
  have s: "spent h u e t s" and h: "hash_text h" "hashes_ok t s" using assms(1) by (simp_all add: spent_inv_def)
  have "redis_get t' (refresh_key h) s = None" using s get_later [OF _ le] by (cases "redis_get t' (refresh_key h) s") (auto simp: spent_def)
  moreover have "redis_get t' (refresh_used_key h) s = Some (dumps (JObj [(''user_id'', JInt u)])) \<and> r_expiry s (refresh_used_key h) = Some e" if "t' < e"
    using s that le by (auto simp: spent_def redis_get_def expired_def split: if_splits)
  ultimately show ?thesis using h hashes_ok_later [OF _ le] by (simp add: spent_inv_def spent_def)
qed

text \<open>Opening a session with another token changes neither.\<close>

lemma create_frames:
  assumes c: "create_session t login_at u j attl h rttl ip ua s = (Some (), s')" and "0 < attl" "attl \<le> rttl" and h: "hash_text h"
  shows "hashes_ok t s \<Longrightarrow> hashes_ok t s'" and "spent_inv h' v e t s \<Longrightarrow> h \<noteq> h' \<Longrightarrow> spent_inv h' v e t s'"
proof -
  note cells = create_cells [OF assms(1-3)]
  have "session_refresh t j s' = Some h"
    using cells(1) by (simp add: session_refresh_def access_record_fields str_field_def dget_def)
  moreover have "session_refresh t i s' = session_refresh t i s" if "i \<noteq> j" for i
    using that by (intro session_refresh_cell cells(8)) simp_all
  ultimately show ok: "hashes_ok t s'" if "hashes_ok t s"
    using that h unfolding hashes_ok_def by (metis option.inject)
  assume sp: "spent_inv h' v e t s" and "h \<noteq> h'"
  then have "cell s' (refresh_key h') = cell s (refresh_key h')" by (intro cells(8)) simp_all
  moreover have "refresh_used_key h' \<noteq> refresh_key h" using h spent_not_used_key sp by (metis spent_inv_def)
  then have "cell s' (refresh_used_key h') = cell s (refresh_used_key h')" by (intro cells(8)) simp_all
  ultimately show "spent_inv h' v e t s'"
    using sp ok spent_cells by (auto simp: spent_inv_def)
qed

lemma session_step_hashes:
  assumes "session_step attl new (t, s) (t', s')" and "\<And>h. new h \<Longrightarrow> hash_text h" and "hashes_ok t s"
  shows "hashes_ok t' s'"
proof -
  have ok: "hashes_ok t' (s\<lparr>r_wire := ws\<rparr>)" if "t \<le> t'" for ws
    using hashes_ok_later [OF assms(3) that] by (simp add: hashes_ok_def)
  show ?thesis
    using assms(1)
  proof (cases rule: session_step.cases)
    case (opened j h rttl login_at u ip ua ws)
    then show ?thesis using create_frames(1) [OF opened(6)] assms(2) ok by blast
  qed (use ok in \<open>auto intro: triple_snd [OF ho.revoke_access_J] triple_snd [OF ho.revoke_all_J] triple_snd [OF ho.consume_J]
      triple_snd [OF ho.list_user_J] triple_snd [OF ho.list_all_J]\<close>)
qed

lemma session_step_spent:
  assumes "session_step attl (\<lambda>h'. hash_text h' \<and> h' \<noteq> h) (t, s) (t', s')" and "spent_inv h u e t s"
  shows "spent_inv h u e t' s'"
proof -
  have ok: "spent_inv h u e t' (s\<lparr>r_wire := ws\<rparr>)" if "t \<le> t'" for ws
    using spent_later [OF assms(2) that] by (simp add: spent_inv_def spent_def hashes_ok_def)
  show ?thesis
    using assms(1)
  proof (cases rule: session_step.cases)
    case (opened j h' rttl login_at v ip ua ws)
    then show ?thesis using create_frames(2) [OF opened(6)] ok by blast
  qed (use ok in \<open>auto intro: triple_snd [OF sp.revoke_access_J] triple_snd [OF sp.revoke_all_J] triple_snd [OF sp.consume_J]
      triple_snd [OF sp.list_user_J] triple_snd [OF sp.list_all_J]\<close>)
qed

lemma run_invariant:
  assumes "(session_step attl new)\<^sup>*\<^sup>* (t, s) (t', s')" and "P t s"
    and "\<And>t s t' s'. session_step attl new (t, s) (t', s') \<Longrightarrow> P t s \<Longrightarrow> P t' s'"
  shows "P t' s'"
  using assms(1,2)
proof (induction "(t', s')" arbitrary: t' s' rule: rtranclp_induct)
  case (step y)
  then show ?case using assms(3) by (cases y) blast
qed

section \<open>The table of sessions\<close>

text \<open>What the store promises: a table from token ids to users.\<close>

definition session_table :: "int \<Rightarrow> redis \<Rightarrow> string \<Rightarrow> int option" where
  "session_table t s j = session_user t j s"

definition without_user :: "int \<Rightarrow> (string \<Rightarrow> int option) \<Rightarrow> string \<Rightarrow> int option" where
  "without_user u f j = (if f j = Some u then None else f j)"

lemma session_table_wire [simp]: "session_table t (s\<lparr>r_wire := ws\<rparr>) = session_table t s"
  by (simp add: session_table_def fun_eq_iff)

lemma wireless_table [simp]: "wireless (\<lambda>s. session_table t s = f)"
  by (simp add: wireless_def)

lemma session_table_cells: "(\<And>j. cell s' (access_key j) = cell s (access_key j)) \<Longrightarrow> session_table t s' = session_table t s"
  unfolding session_table_def fun_eq_iff using session_user_cell by blast

lemma session_table_simps [simp]:
  "session_table t (redis_delete (access_key j) s) = (session_table t s)(j := None)"
  "session_table t (redis_delete (user_sessions_key u) s) = session_table t s"
  "session_table t (redis_delete (refresh_key h) s) = session_table t s"
  "session_table t (redis_srem t (user_sessions_key u) m s) = session_table t s"
  "session_table t (redis_srem t USERS_INDEX m s) = session_table t s"
  "session_table t (redis_set t (refresh_used_key h) v ex s) = session_table t s"
  "session_table t (snd (redis_getdel t (refresh_key h) s)) = session_table t s"
  by (auto simp: session_table_def fun_eq_iff intro!: session_user_cell)

lemma table_call:
  assumes "\<And>s. session_table t s = f \<Longrightarrow> session_table t (c s) = g"
  shows "triple (\<lambda>s. session_table t s = f) (rcall (ruse c)) (\<lambda>_ s. session_table t s = g) (\<lambda>_. True)"
  using assms by (intro triple_use) (simp_all add: wireless_def)

lemma table_read: "triple (\<lambda>s. session_table t s = f) (rcall (rread c)) (\<lambda>_ s. session_table t s = f) (\<lambda>_. True)"
  by (rule triple_post [OF triple_read]) (simp_all add: wireless_def)

lemma table_prune: "triple (\<lambda>s. session_table t s = f) (prune_user_index t u) (\<lambda>_ s. session_table t s = f) (\<lambda>_. True)"
  unfolding prune_user_index_def c_exists_def c_srem_def
  by (rule triple_bind [OF table_read]) (auto intro: triple_ret table_call)

lemma table_revoke_access:
  "triple (\<lambda>s. session_table t s = f) (revoke_access t j) (\<lambda>_ s. session_table t s = f(j := None)) (\<lambda>_. True)"
proof -
  have member: "triple (\<lambda>s. session_table t s = g) (drop_user_member t j uo) (\<lambda>_ s. session_table t s = g) (\<lambda>_. True)" for g uo
    unfolding drop_user_member_def c_srem_def by (cases uo) (auto intro!: triple_ret triple_then [OF table_call table_prune])
  have refresh: "triple (\<lambda>s. session_table t s = g) (drop_refresh ho) (\<lambda>_ s. session_table t s = g) (\<lambda>_. True)" for g ho
    unfolding drop_refresh_def c_del_def by (cases ho) (auto intro!: triple_ret table_call)
  show ?thesis
    unfolding revoke_access_def c_get_def c_del_def
    by (intro triple_bind [OF table_read] triple_then [OF table_call])
       (auto intro: triple_ret triple_then [OF member refresh] split: option.split)
qed

lemma table_revoke_all:
  "triple (\<lambda>s. indexed A t s \<and> session_table t s = f) (revoke_all_sessions t u) (\<lambda>_ s. session_table t s = without_user u f) (\<lambda>_. True)"
  unfolding triple_def
proof (intro allI impI, elim conjE)
  fix s assume i: "indexed A t s" and f: "session_table t s = f"
  have "session_table t s' = without_user u f" if "revoke_all_sessions t u s = (Some x, s')" for x s'
  proof
    fix j
    have r: "revoking t u {h. \<exists>j. session_user t j s = Some u \<and> session_refresh t j s = Some h} s {} s'"
      using tripleD [OF revoke_all_keeps _ that, of A s] i by blast
    have "session_user t j s' \<noteq> Some u" "\<forall>v. v \<noteq> u \<longrightarrow> (session_user t j s' = Some v \<longleftrightarrow> session_user t j s = Some v)"
      using revokingD(1) [OF r, of j] revokingD(4) [OF r, of _ j] by auto
    then have "session_user t j s' = (if session_user t j s = Some u then None else session_user t j s)" by (metis not_Some_eq)
    then show "session_table t s' j = without_user u f j" unfolding f [symmetric] session_table_def without_user_def .
  qed
  then show "case revoke_all_sessions t u s of (None, s') \<Rightarrow> True | (Some x, s') \<Rightarrow> session_table t s' = without_user u f"
    by (cases "revoke_all_sessions t u s"; cases "fst (revoke_all_sessions t u s)") auto
qed

lemma table_consume:
  assumes "hash_text h"
  shows "triple (\<lambda>s. indexed A t s \<and> session_table t s = f) (consume_refresh t h ttl)
    (\<lambda>r s. session_table t s = (case r of RefreshReuse u \<Rightarrow> without_user u f | _ \<Rightarrow> f)) (\<lambda>_. True)"
proof -
  let ?P = "\<lambda>s. indexed A t s \<and> session_table t s = f" and ?Q = "\<lambda>r s. session_table t s = (case r of RefreshReuse u \<Rightarrow> without_user u f | _ \<Rightarrow> f)"
  have w: "wireless ?P" by (simp add: wireless_def)
  have getdel: "triple ?P (c_getdel t (refresh_key h)) (\<lambda>_. ?P) (\<lambda>_. True)"
    unfolding c_getdel_def
  proof (rule triple_call [OF w])
    fix s assume P: "?P s"
    then have "indexed A t (snd (redis_getdel t (refresh_key h) s))" by (intro getdel_keeps) blast
    then show "?P (snd (redis_getdel t (refresh_key h) s)) \<and> True" using P by (simp only: session_table_simps)
  qed (simp_all add: wireless_def)
  have get: "triple ?P (c_get t k) (\<lambda>_. ?P) (\<lambda>_. True)" for k
    unfolding c_get_def by (rule triple_post [OF triple_read [OF w]]) (simp_all add: wireless_def)
  have ok: "triple ?P (rthen (c_set t (refresh_used_key h) v ttl) (rret (RefreshOk u j))) ?Q (\<lambda>_. True)" for v u j
  proof (rule triple_then)
    show "triple ?P (c_set t (refresh_used_key h) v ttl) (\<lambda>_ s. session_table t s = f) (\<lambda>_. True)"
      unfolding c_set_def by (rule triple_pre [OF table_call]) simp_all
  qed (rule triple_ret, simp)
  have reuse: "triple ?P (rthen (revoke_all_sessions t u) (rret (RefreshReuse u))) ?Q (\<lambda>_. True)" for u
    by (rule triple_then [OF table_revoke_all triple_ret]) simp
  have invalid: "triple ?P (rret RefreshInvalid) ?Q (\<lambda>_. True)" by (rule triple_ret) simp
  show ?thesis
    unfolding consume_refresh_def spend_refresh_def check_replay_def
    by (rule triple_bind [OF getdel]) (auto intro!: ok reuse invalid triple_bind [OF get] split: option.split)
qed

lemma table_list_user: "triple (\<lambda>s. session_table t s = f) (list_user_sessions t u) (\<lambda>_ s. session_table t s = f) (\<lambda>_. True)"
proof -
  have "triple (\<lambda>s. session_table t s = f) (list_members t u js acc) (\<lambda>_ s. session_table t s = f) (\<lambda>_. True)" for js acc
  proof (induction js arbitrary: acc)
    case (Cons j js)
    then show ?case
      unfolding list_members.simps c_get_def c_srem_def
      by (intro triple_bind [OF table_read]) (auto intro!: triple_then [OF table_call Cons.IH] split: option.split)
  qed (auto intro: triple_ret)
  then show ?thesis
    unfolding list_user_sessions_def c_smembers_def
    by (rule triple_bind [OF table_read triple_bind [OF _ triple_then [OF table_prune triple_ret]]])
qed

lemma table_list_all: "triple (\<lambda>s. session_table t s = f) (list_all_sessions t) (\<lambda>_ s. session_table t s = f) (\<lambda>_. True)"
proof -
  have srem: "triple (\<lambda>s. session_table t s = f) (c_srem t USERS_INDEX raw) (\<lambda>_ s. session_table t s = f) (\<lambda>_. True)" for raw
    unfolding c_srem_def by (rule table_call) simp
  have "triple (\<lambda>s. session_table t s = f) (list_users t uids acc) (\<lambda>_ s. session_table t s = f) (\<lambda>_. True)" for uids acc
  proof (induction uids arbitrary: acc)
    case (Cons raw uids)
    then show ?case by (auto intro!: triple_then [OF srem] triple_bind [OF table_list_user] split: option.split)
  qed (auto intro: triple_ret)
  then show ?thesis
    unfolding list_all_sessions_def c_smembers_def by (rule triple_bind [OF table_read])
qed

lemma table_create:
  assumes "create_session t login_at u j attl h rttl ip ua s = (Some (), s')" and "0 < attl" "attl \<le> rttl"
  shows "session_table t s' = (session_table t s)(j \<mapsto> u)"
proof
  fix i
  note cells = create_cells [OF assms]
  show "session_table t s' i = ((session_table t s)(j \<mapsto> u)) i"
  proof (cases "i = j")
    case True
    then show ?thesis using cells(1) by (simp add: session_table_def session_user_def access_record_fields int_field_def dget_def)
  next
    case False
    then have "cell s' (access_key i) = cell s (access_key i)" by (intro cells(8)) simp_all
    then have "session_user t i s' = session_user t i s" by (rule session_user_cell)
    then show ?thesis using False by (simp add: session_table_def)
  qed
qed

lemma active_iff_table: "indexed A t s \<Longrightarrow> redis_exists t (access_key j) s \<longleftrightarrow> session_table t s j \<noteq> None"
  using indexed_known [of A t s j]
  by (auto simp: session_table_def session_user_def redis_exists_def redis_get_def key_exists_def split: if_splits)

lemma active_done: "is_access_active t j s = (Some b, s') \<Longrightarrow> b \<longleftrightarrow> redis_exists t (access_key j) s"
  unfolding is_access_active_def c_exists_def
proof (elim rcall_done)
  fix s1 assume c: "\<And>k. cell s1 k = cell s k" and "rread (redis_exists t (access_key j)) s1 = (b, s')"
  then show "b \<longleftrightarrow> redis_exists t (access_key j) s" using cell_eqs(7) [OF c] by (simp add: rread_def)
qed

lemma indexed_empty: "indexed A t empty_redis"
  by (simp add: indexed_def empty_redis_def session_user_def redis_get_def redis_exists_def key_exists_def)

lemma reached_indexed: "(session_step attl new)\<^sup>*\<^sup>* (t0, empty_redis) (t, s) \<Longrightarrow> t \<le> t' \<Longrightarrow> indexed (attl * 1000) t' (s\<lparr>r_wire := ws\<rparr>)"
  using session_run_indexed [OF _ indexed_empty] indexed_later by simp blast

section \<open>The theorems on a concrete run\<close>

definition opened_at_0 :: redis where
  "opened_at_0 = snd (create_session 0 ''10:00'' 7 ''a'' 900 ''h'' 604800 None None empty_redis)"

lemma no_wire: "r_wire s = [] \<Longrightarrow> s\<lparr>r_wire := []\<rparr> = s"
  by simp

lemma opened_wire: "r_wire opened_at_0 = []"
  by code_simp

lemma opened_run: "(session_step 900 hash_text)\<^sup>*\<^sup>* (0, empty_redis) (0, opened_at_0)"
proof -
  have "fst (create_session 0 ''10:00'' 7 ''a'' 900 ''h'' 604800 None None empty_redis) = Some ()" by code_simp
  then have "create_session 0 ''10:00'' 7 ''a'' 900 ''h'' 604800 None None (empty_redis\<lparr>r_wire := []\<rparr>) = (Some (), opened_at_0)"
    by (simp add: opened_at_0_def prod_eq_iff empty_redis_def)
  then have "session_step 900 hash_text (0, empty_redis) (0, opened_at_0)"
    by (intro session_step.opened) (simp_all add: fresh_jti_def empty_redis_def hash_text_def)
  then show ?thesis ..
qed

lemma returned: "fst (m s) = Some x \<Longrightarrow> r_wire s = [] \<Longrightarrow> m (s\<lparr>r_wire := []\<rparr>) = (Some x, snd (m s))"
  by (cases "m s") (simp add: no_wire)





text \<open>
  The qualification matters: a session whose access record has expired is skipped by a revocation, and its refresh token, which
  lives longer, still opens a new session afterwards. Here the record lapses at 900 s, the user's sessions are revoked at 1000 s, and
  the token is good at 1001 s.
\<close>

lemma idle_refresh_survives_revocation:
  "fst (revoke_all_sessions 1000000 7 opened_at_0) = Some ()
    \<and> fst (consume_refresh 1001000 ''h'' 604800 (snd (revoke_all_sessions 1000000 7 opened_at_0))) = Some (RefreshOk 7 ''a'')"
  by code_simp

lemma rbind_done:
  assumes "rbind m f s = (Some x, s')"
  obtains y s1 where "m s = (Some y, s1)" "f y s1 = (Some x, s')"
  using assms by (auto simp: rbind_def split: prod.splits option.splits)

lemma getdel_gone: "redis_get t k (snd (redis_getdel t k s)) = None"
proof (cases "redis_get t k s")
  case None
  then show ?thesis by (auto simp: redis_getdel_def redis_get_def evict_if_expired_def expired_def)
qed (simp add: redis_getdel_def)

lemma consumed_spent:
  assumes "consume_refresh t h ttl s = (Some (RefreshOk u j), s')" and h: "hash_text h" and "0 < ttl" and ok: "hashes_ok t s"
  shows "spent_inv h u (t + ttl * 1000) t s'"
proof -
  obtain raw s1 where g: "c_getdel t (refresh_key h) s = (Some raw, s1)"
    and rest: "(case raw of None \<Rightarrow> check_replay t h | Some r \<Rightarrow> spend_refresh t h ttl r) s1 = (Some (RefreshOk u j), s')"
    using assms(1) unfolding consume_refresh_def by (elim rbind_done) (auto split: option.splits)
  have "check_replay t h s1 \<noteq> (Some (RefreshOk u j), s')"
    by (auto simp: check_replay_def rret_def split: option.splits elim!: rbind_done rthen_done)
  then obtain r where "spend_refresh t h ttl r s1 = (Some (RefreshOk u j), s')" using rest by (cases raw) auto
  then have set: "c_set t (refresh_used_key h) (dumps (JObj [(''user_id'', JInt u)])) ttl s1 = (Some (), s')"
    by (auto simp: spend_refresh_def rret_def split: option.splits elim!: rthen_done)
  obtain a where a: "\<And>k. cell a k = cell s k" "s1 = snd (redis_getdel t (refresh_key h) a)"
    using g unfolding c_getdel_def by (elim rcall_done) (metis snd_conv)
  obtain b where b: "\<And>k. cell b k = cell s1 k" "s' = redis_set t (refresh_used_key h) (dumps (JObj [(''user_id'', JInt u)])) (Some ttl) b"
    using set unfolding c_set_def by (elim rcall_done) (metis ruse_def prod.inject)
  have "hashes_ok t a" using ok a(1) by (rule hashes_ok_cells)
  then have "hashes_ok t s1" unfolding a(2) using h by (rule ho.J_getdel)
  then have "hashes_ok t b" using b(1) by (rule hashes_ok_cells)
  then have "hashes_ok t s'" unfolding b(2) using h by (intro ho.J_used) simp_all
  moreover have "redis_get t (refresh_key h) s' = None"
  proof -
    have "redis_get t (refresh_key h) s' = redis_get t (refresh_key h) b"
      unfolding b(2) using spent_not_used_key(2) [OF h] by (intro cell_eqs(5) cell_other) blast
    also have "\<dots> = None" using cell_eqs(5) [OF b(1)] getdel_gone by (simp add: a(2))
    finally show ?thesis .
  qed
  ultimately show ?thesis
    unfolding spent_inv_def spent_def using h set_own [OF assms(3), of t "refresh_used_key h"] by (simp add: b(2))
qed

lemma used_record: "Option.bind (Option.bind (Some (dumps (JObj [(''user_id'', JInt u)]))) parse_record) (int_field ''user_id'') = Some u"
proof -
  have "json_wf (JObj [(''user_id'', JInt u)])" by simp
  from loads_dumps [OF this] show ?thesis by (simp only: parse_record_def bind.bind_lunit) (simp add: int_field_def dget_def)
qed

lemma consume_spent:
  assumes "consume_refresh t h ttl s = (Some r, s')" and sp: "spent_inv h u e t s"
  shows "(\<forall>v i. r \<noteq> RefreshOk v i) \<and> (t < e \<longrightarrow> r = RefreshReuse u)"
proof -
  have h: "hash_text h" and none: "redis_get t (refresh_key h) s = None"
    and used: "t < e \<Longrightarrow> redis_get t (refresh_used_key h) s = Some (dumps (JObj [(''user_id'', JInt u)]))"
    using sp by (simp_all add: spent_inv_def spent_def)
  obtain raw s1 where g: "c_getdel t (refresh_key h) s = (Some raw, s1)"
    and rest: "(case raw of None \<Rightarrow> check_replay t h | Some r \<Rightarrow> spend_refresh t h ttl r) s1 = (Some r, s')"
    using assms(1) unfolding consume_refresh_def by (elim rbind_done) (auto split: option.splits)
  obtain a where a: "\<And>k. cell a k = cell s k" "redis_getdel t (refresh_key h) a = (raw, s1)"
    using g unfolding c_getdel_def by (elim rcall_done) blast
  have "redis_get t (refresh_key h) a = None" using cell_eqs(5) [OF a(1) [of "refresh_key h"], of t] none by simp
  then have raw: "raw = None" and s1: "s1 = evict_if_expired t (refresh_key h) a" using a(2) by (simp_all add: redis_getdel_def)
  obtain used_raw s2 where get: "c_get t (refresh_used_key h) s1 = (Some used_raw, s2)"
    and final: "(case Option.bind (Option.bind used_raw parse_record) (int_field ''user_id'') of
            Some u \<Rightarrow> rthen (revoke_all_sessions t u) (rret (RefreshReuse u)) | None \<Rightarrow> rret RefreshInvalid) s2 = (Some r, s')"
    using rest raw unfolding check_replay_def by (auto elim: rbind_done)
  have "used_raw = redis_get t (refresh_used_key h) s1"
    using get unfolding c_get_def
  proof (elim rcall_done)
    fix b assume c: "\<And>k. cell b k = cell s1 k" and "rread (redis_get t (refresh_used_key h)) b = (used_raw, s2)"
    then show ?thesis using cell_eqs(5) [OF c] by (simp add: rread_def)
  qed
  also have "\<dots> = redis_get t (refresh_used_key h) s"
    unfolding s1 using spent_not_used_key(1) [OF h h] a(1) by (intro cell_eqs(5)) simp
  finally have "t < e \<Longrightarrow> used_raw = Some (dumps (JObj [(''user_id'', JInt u)]))" using used by simp
  then have "t < e \<Longrightarrow> Option.bind (Option.bind used_raw parse_record) (int_field ''user_id'') = Some u" by (simp only: used_record)
  then show ?thesis
    using final by (auto simp: rret_def split: option.splits elim!: rthen_done)
qed


definition refreshed_at_1 :: redis where
  "refreshed_at_1 = snd (consume_refresh 1000 ''h'' 604800 opened_at_0)"


end
