(* ===== verification/AdminCore.thy ===== *)
theory AdminCore
  imports AuthService
begin

text \<open>
  What the administration services share: the base repository (\<open>src/db/repository.py\<close>), the unit of work with its after-commit hooks
  (\<open>src/db/session.py\<close>) and the batch and list helpers of \<open>src/core/query.py\<close>. An operation works on the tables and on Redis; it
  returns its result with the new tables and the hooks it queued, or an error. A constraint of the tables that a flush
  violates is the 409 the framework answers (\<open>integrity_error_handler\<close>).
\<close>

type_synonym hook = "redis \<Rightarrow> redis"
type_synonym ('db, 'a) admin_op = "'db \<Rightarrow> redis \<Rightarrow> ('a \<times> 'db \<times> hook list) res \<times> redis"

section \<open>Repository\<close>

definition repo_get :: "int \<Rightarrow> 'a base_entity_scheme list \<Rightarrow> 'a base_entity_scheme option" where
  "repo_get i table = scalar [r \<leftarrow> table. be_id r = i \<and> \<not> be_is_deleted r]"

text \<open>\<open>clash\<close> is a conflict with one of the unique indexes beside the primary key.\<close>

definition repo_create :: "('a base_entity_scheme \<Rightarrow> bool) \<Rightarrow> 'a base_entity_scheme \<Rightarrow> 'a base_entity_scheme list
    \<Rightarrow> 'a base_entity_scheme list res" where
  "repo_create clash r table =
     (if be_id r \<in> be_id ` set table \<or> list_ex clash table then RErr (app_err EC_request_conflict 409) else ROk (table @ [r]))"

definition soft_delete_row :: "int option \<Rightarrow> int \<Rightarrow> 'a base_entity_scheme list \<Rightarrow> 'a base_entity_scheme list" where
  "soft_delete_row actor_id i = update_row i (\<lambda>r. r\<lparr>be_updated_by := actor_id, be_is_deleted := True\<rparr>)"

text \<open>\<open>list(dict.fromkeys(ids))\<close>.\<close>

definition dict_fromkeys :: "'a list \<Rightarrow> 'a list" where
  "dict_fromkeys xs = rev (remdups (rev xs))"

definition soft_delete_many :: "int list \<Rightarrow> 'a base_entity_scheme list \<Rightarrow> (int \<times> int list) \<times> 'a base_entity_scheme list" where
  "soft_delete_many ids table =
     (let requested = dict_fromkeys ids;
          affected = [be_id r. r \<leftarrow> table, be_id r \<in> set requested, \<not> be_is_deleted r]
      in ((int (length (remdups affected)), sort [i \<leftarrow> requested. i \<notin> set affected]),
          map (\<lambda>r. if be_id r \<in> set affected then r\<lparr>be_is_deleted := True\<rparr> else r) table))"

section \<open>The unit of work\<close>

definition run_hooks :: "hook list \<Rightarrow> redis \<Rightarrow> redis" where
  "run_hooks hooks s = foldl (\<lambda>s h. h s) s hooks"

text \<open>The request's transaction; \<open>commit_ok\<close> says whether the database takes the commit.\<close>

definition unit_of_work :: "bool \<Rightarrow> ('db, 'a) admin_op \<Rightarrow> 'db \<Rightarrow> redis \<Rightarrow> 'a res \<times> 'db \<times> redis" where
  "unit_of_work commit_ok op db s =
     (case op db s of
        (ROk (x, db', hooks), s1) \<Rightarrow> if commit_ok then (ROk x, db', run_hooks hooks s1) else (RCrash, db, s1)
      | (RErr e, s1) \<Rightarrow> (RErr e, db, s1)
      | (RCrash, s1) \<Rightarrow> (RCrash, db, s1))"

text \<open>A guard: the error unless the condition holds.\<close>

definition ensure :: "bool \<Rightarrow> error_code \<Rightarrow> int \<Rightarrow> 'a res \<Rightarrow> 'a res" where
  "ensure b code st k = (if b then k else RErr (app_err code st))"

definition fetched :: "'b option \<Rightarrow> ('b \<Rightarrow> 'a res) \<Rightarrow> 'a res" where
  "fetched v k = (case v of None \<Rightarrow> RErr (app_err EC_request_invalid 404) | Some r \<Rightarrow> k r)"

definition res_bind :: "'b res \<Rightarrow> ('b \<Rightarrow> 'a res) \<Rightarrow> 'a res" where
  "res_bind r k = (case r of ROk x \<Rightarrow> k x | RErr e \<Rightarrow> RErr e | RCrash \<Rightarrow> RCrash)"

text \<open>A field of a partial update of a column that is not nullable: what was given, or the old value.\<close>

definition given_value :: "'a option option \<Rightarrow> 'a \<Rightarrow> 'a" where
  "given_value v old = (case v of Some (Some x) \<Rightarrow> x | _ \<Rightarrow> old)"

text \<open>An operation that does not talk to Redis, and one that does so before it returns.\<close>

definition db_op :: "('db \<Rightarrow> ('a \<times> 'db \<times> hook list) res) \<Rightarrow> ('db, 'a) admin_op" where
  "db_op f db s = (f db, s)"

definition then_redis :: "unit rop \<Rightarrow> ('a \<times> 'db \<times> hook list) res \<Rightarrow> redis \<Rightarrow> ('a \<times> 'db \<times> hook list) res \<times> redis" where
  "then_redis m r s =
     (case r of
        ROk x \<Rightarrow> (case m s of (None, s1) \<Rightarrow> (RCrash, s1) | (Some _, s1) \<Rightarrow> (ROk x, s1))
      | _ \<Rightarrow> (r, s))"

section \<open>Batches, sorting, masking, pages\<close>

record batch_result =
  br_requested :: int
  br_affected :: int
  br_skipped_ids :: "string list"

definition batch_result_of :: "int list \<Rightarrow> int \<Rightarrow> int list \<Rightarrow> batch_result" where
  "batch_result_of requested affected skipped =
     \<lparr>br_requested = int (length requested), br_affected = affected, br_skipped_ids = map show_int skipped\<rparr>"

record list_query =
  lq_keyword :: "string option"
  lq_sort_by :: "string option"
  lq_descending :: bool
  lq_limit :: nat
  lq_offset :: nat

definition resolve_sort :: "list_query \<Rightarrow> (string \<times> 'c) list \<Rightarrow> string \<Rightarrow> ('c \<times> bool) res" where
  "resolve_sort q allowed default_key =
     (case map_of allowed (case lq_sort_by q of None \<Rightarrow> default_key | Some k \<Rightarrow> k) of
        None \<Rightarrow> RErr (app_err EC_request_invalid 400)
      | Some column \<Rightarrow> ROk (column, lq_descending q))"

definition mask_value :: "string \<Rightarrow> string" where
  "mask_value v =
     (case split_first (CHR ''@'') v of
        Some (local, domain) \<Rightarrow> take 1 local @ ''***@'' @ domain
      | None \<Rightarrow> if length v \<le> 7 then take 1 v @ ''***'' else take 3 v @ ''****'' @ drop (length v - 4) v)"

definition mask_field :: "bool \<Rightarrow> string option \<Rightarrow> string option" where
  "mask_field superuser v = (case v of Some t \<Rightarrow> if superuser \<or> t = [] then v else Some (mask_value t) | None \<Rightarrow> None)"

record 'a page_result =
  pg_items :: "'a list"
  pg_total :: int
  pg_limit :: nat
  pg_offset :: nat

end
