(* ===== verification/AdminPrivileges.thy ===== *)
theory AdminPrivileges
  imports AdminCore
begin

text \<open>
  The administration of roles and of users (\<open>src/admin/roles\<close>, \<open>src/admin/users\<close>: service and repository), with the guards that
  keep an administrator from handing out power it does not have. The id of a new row is an argument (the id generator's).
\<close>

section \<open>Roles\<close>

definition list_menu_ids :: "int \<Rightarrow> identity_db \<Rightarrow> int list" where
  "list_menu_ids role_id db = [m. (r, m) \<leftarrow> id_role_menus db, r = role_id]"

definition list_role_ids :: "int \<Rightarrow> identity_db \<Rightarrow> int list" where
  "list_role_ids user_id db = [r. (u, r) \<leftarrow> id_user_roles db, u = user_id]"

definition get_role_by_code :: "string \<Rightarrow> identity_db \<Rightarrow> role_row option" where
  "get_role_by_code code db = scalar [r \<leftarrow> id_roles db. ro_code r = code \<and> \<not> be_is_deleted r]"

definition existing_menu_ids :: "int list \<Rightarrow> identity_db \<Rightarrow> int set" where
  "existing_menu_ids menu_ids db =
     (if menu_ids = [] then {} else set [be_id m. m \<leftarrow> id_menus db, be_id m \<in> set menu_ids, \<not> be_is_deleted m])"

definition replace_menus :: "int \<Rightarrow> int list \<Rightarrow> identity_db \<Rightarrow> identity_db" where
  "replace_menus role_id menu_ids db =
     db\<lparr>id_role_menus := [l \<leftarrow> id_role_menus db. fst l \<noteq> role_id] @ map (Pair role_id) (dict_fromkeys menu_ids)\<rparr>"

definition delete_user_links :: "int \<Rightarrow> identity_db \<Rightarrow> identity_db" where
  "delete_user_links role_id db = db\<lparr>id_user_roles := [l \<leftarrow> id_user_roles db. snd l \<noteq> role_id]\<rparr>"

definition validate_menus :: "int list \<Rightarrow> identity_db \<Rightarrow> bool" where
  "validate_menus menu_ids db \<longleftrightarrow> menu_ids = [] \<or> existing_menu_ids menu_ids db = set menu_ids"

definition assignable_code :: "string \<Rightarrow> authenticated_user \<Rightarrow> bool" where
  "assignable_code code actor \<longleftrightarrow> is_superuser actor \<or> code \<noteq> SUPERADMIN_ROLE_CODE"

definition assignable_menus :: "int list \<Rightarrow> authenticated_user \<Rightarrow> identity_db \<Rightarrow> bool" where
  "assignable_menus menu_ids actor db \<longleftrightarrow>
     is_superuser actor \<or> menu_ids = [] \<or> list_permission_codes_for_menus menu_ids db \<subseteq> au_permissions actor"

definition role_dominance :: "role_row \<Rightarrow> authenticated_user \<Rightarrow> identity_db \<Rightarrow> bool" where
  "role_dominance role actor db \<longleftrightarrow>
     is_superuser actor \<or> (assignable_code (ro_code role) actor \<and> assignable_menus (list_menu_ids (be_id role) db) actor db)"

type_synonym role_detail = "role_row \<times> int list"

definition role_detail :: "int \<Rightarrow> identity_db \<Rightarrow> role_detail res" where
  "role_detail role_id db = fetched (repo_get role_id (id_roles db)) (\<lambda>role. ROk (role, list_menu_ids role_id db))"

record role_create =
  rc_name :: string
  rc_code :: string
  rc_sort_order :: int
  rc_status :: active_status
  rc_remark :: "string option"
  rc_menu_ids :: "int list"

definition new_role :: "int \<Rightarrow> role_create \<Rightarrow> authenticated_user \<Rightarrow> role_row" where
  "new_role new_id p actor =
     \<lparr>be_id = new_id, be_is_deleted = False, be_created_by = Some (au_user_id actor), be_create_dept = au_department_id actor,
      be_updated_by = Some (au_user_id actor), ro_name = rc_name p, ro_code = rc_code p, ro_sort_order = rc_sort_order p,
      ro_status = active_status_value (rc_status p), ro_remark = rc_remark p\<rparr>"

definition create_role :: "int \<Rightarrow> role_create \<Rightarrow> authenticated_user \<Rightarrow> (identity_db, role_detail) admin_op" where
  "create_role new_id p actor = db_op (\<lambda>db.
     ensure (get_role_by_code (rc_code p) db = None) EC_request_invalid 400
     (ensure (assignable_code (rc_code p) actor) EC_auth_forbidden 403
     (ensure (validate_menus (rc_menu_ids p) db) EC_request_invalid 400
     (ensure (assignable_menus (rc_menu_ids p) actor db) EC_auth_forbidden 403
     (res_bind (repo_create (\<lambda>r. ro_code r = rc_code p \<and> \<not> be_is_deleted r) (new_role new_id p actor) (id_roles db)) (\<lambda>roles.
       let db' = replace_menus new_id (rc_menu_ids p) (db\<lparr>id_roles := roles\<rparr>)
       in ROk ((new_role new_id p actor, list_menu_ids new_id db'), db', [])))))))"

text \<open>The fields of a partial update that were given; an explicit null of a column that is not nullable violates it.\<close>

record role_update =
  rp_name :: "string option option"
  rp_sort_order :: "int option option"
  rp_status :: "active_status option option"
  rp_remark :: "string option option"
  rp_menu_ids :: "int list option"

definition role_update_fits :: "role_update \<Rightarrow> bool" where
  "role_update_fits p \<longleftrightarrow> rp_name p \<noteq> Some None \<and> rp_sort_order p \<noteq> Some None \<and> rp_status p \<noteq> Some None"

definition apply_role_update :: "role_update \<Rightarrow> authenticated_user \<Rightarrow> role_row \<Rightarrow> role_row" where
  "apply_role_update p actor r =
     r\<lparr>ro_name := given_value (rp_name p) (ro_name r), ro_sort_order := given_value (rp_sort_order p) (ro_sort_order r),
       ro_status := (case rp_status p of Some (Some st) \<Rightarrow> active_status_value st | _ \<Rightarrow> ro_status r),
       ro_remark := given (rp_remark p) (ro_remark r), be_updated_by := Some (au_user_id actor)\<rparr>"

definition role_menus_allowed :: "int list option \<Rightarrow> authenticated_user \<Rightarrow> identity_db \<Rightarrow> 'a res \<Rightarrow> 'a res" where
  "role_menus_allowed menu_ids actor db k =
     (case menu_ids of
        None \<Rightarrow> k
      | Some ms \<Rightarrow>
          ensure (validate_menus ms db) EC_request_invalid 400
          (ensure (assignable_menus ms actor db) EC_auth_forbidden 403 k))"

definition update_role :: "int \<Rightarrow> int \<Rightarrow> role_update \<Rightarrow> authenticated_user \<Rightarrow> (identity_db, role_detail) admin_op" where
  "update_role now role_id p actor = db_op (\<lambda>db.
     fetched (repo_get role_id (id_roles db)) (\<lambda>role.
     ensure (role_dominance role actor db) EC_auth_forbidden 403
     (role_menus_allowed (rp_menu_ids p) actor db
     (ensure (role_update_fits p) EC_request_conflict 409
     (let db1 = db\<lparr>id_roles := update_row role_id (apply_role_update p actor) (id_roles db)\<rparr>;
          db2 = (case rp_menu_ids p of None \<Rightarrow> db1 | Some ms \<Rightarrow> replace_menus role_id ms db1);
          hooks = (if (rp_status p \<noteq> None \<and> rp_status p \<noteq> Some None) \<or> rp_menu_ids p \<noteq> None then [invalidate_all now] else [])
      in ROk ((apply_role_update p actor role, list_menu_ids role_id db2), db2, hooks))))))"

definition delete_role :: "int \<Rightarrow> int \<Rightarrow> authenticated_user \<Rightarrow> (identity_db, unit) admin_op" where
  "delete_role now role_id actor = db_op (\<lambda>db.
     fetched (repo_get role_id (id_roles db)) (\<lambda>role.
     ensure (role_dominance role actor db) EC_auth_forbidden 403
     (let db1 = delete_user_links role_id (replace_menus role_id [] db)
      in ROk ((), db1\<lparr>id_roles := soft_delete_row (Some (au_user_id actor)) role_id (id_roles db1)\<rparr>, [invalidate_all now]))))"

text \<open>The roles of a batch the actor may delete, and the others.\<close>

definition deletable_role :: "authenticated_user \<Rightarrow> identity_db \<Rightarrow> int \<Rightarrow> bool" where
  "deletable_role actor db role_id \<longleftrightarrow>
     is_superuser actor
     \<or> (case repo_get role_id (id_roles db) of
          None \<Rightarrow> False
        | Some role \<Rightarrow> assignable_code (ro_code role) actor \<and> assignable_menus (list_menu_ids role_id db) actor db)"

fun unlink_roles :: "int list \<Rightarrow> identity_db \<Rightarrow> identity_db" where
  "unlink_roles [] db = db"
| "unlink_roles (r # rs) db = unlink_roles rs (delete_user_links r (replace_menus r [] db))"

definition batch_delete_roles :: "int \<Rightarrow> int list \<Rightarrow> authenticated_user \<Rightarrow> (identity_db, batch_result) admin_op" where
  "batch_delete_roles now ids actor = db_op (\<lambda>db.
     let requested = dict_fromkeys ids;
         deletable = filter (deletable_role actor db) requested;
         dominance_skipped = filter (\<lambda>i. \<not> deletable_role actor db i) requested
     in case soft_delete_many deletable (id_roles db) of
          ((affected, missing), roles) \<Rightarrow>
            let skipped = missing @ dominance_skipped;
                db' = unlink_roles [i \<leftarrow> requested. i \<notin> set skipped] (db\<lparr>id_roles := roles\<rparr>)
            in ROk (batch_result_of requested affected skipped, db', if affected > 0 then [invalidate_all now] else []))"

section \<open>Users\<close>

definition any_user_by_username :: "string \<Rightarrow> identity_db \<Rightarrow> user_row option" where
  "any_user_by_username username db = scalar [u \<leftarrow> id_users db. us_username u = username \<and> \<not> be_is_deleted u]"

definition employee_no_taken :: "string \<Rightarrow> identity_db \<Rightarrow> bool" where
  "employee_no_taken no db \<longleftrightarrow> list_ex (\<lambda>u. us_employee_no u = no \<and> \<not> be_is_deleted u) (id_users db)"

definition validate_department :: "int option \<Rightarrow> identity_db \<Rightarrow> bool" where
  "validate_department dept db \<longleftrightarrow> (case dept of None \<Rightarrow> True | Some d \<Rightarrow> repo_get d (id_departments db) \<noteq> None)"

definition validate_roles :: "int list \<Rightarrow> identity_db \<Rightarrow> bool" where
  "validate_roles role_ids db \<longleftrightarrow>
     role_ids = [] \<or> set [be_id r. r \<leftarrow> id_roles db, be_id r \<in> set role_ids, active_role r] = set role_ids"

definition assignable_roles :: "int list \<Rightarrow> authenticated_user \<Rightarrow> identity_db \<Rightarrow> bool" where
  "assignable_roles role_ids actor db \<longleftrightarrow>
     is_superuser actor \<or> role_ids = []
     \<or> (list_permission_codes_for_roles role_ids db \<subseteq> au_permissions actor
        \<and> \<not> list_ex (\<lambda>r. ro_code r = SUPERADMIN_ROLE_CODE) (list_active_roles_by_ids role_ids db))"

definition user_dominance :: "int \<Rightarrow> authenticated_user \<Rightarrow> identity_db \<Rightarrow> bool" where
  "user_dominance user_id actor db \<longleftrightarrow> is_superuser actor \<or> assignable_roles (list_role_ids user_id db) actor db"

definition replace_roles :: "int \<Rightarrow> int list \<Rightarrow> identity_db \<Rightarrow> identity_db" where
  "replace_roles user_id role_ids db =
     db\<lparr>id_user_roles := [l \<leftarrow> id_user_roles db. fst l \<noteq> user_id] @ map (Pair user_id) (dict_fromkeys role_ids)\<rparr>"

definition strong_password :: "auth_env \<Rightarrow> string option \<Rightarrow> 'a res \<Rightarrow> 'a res" where
  "strong_password env password k =
     (case password of
        None \<Rightarrow> k
      | Some p \<Rightarrow>
          (let violations = password_strength_violations p (en_password_min_length env)
           in if violations \<noteq> [] then RErr (weak_password_error violations) else k))"

type_synonym user_detail = "user_row \<times> int list"

record user_create =
  nu_username :: string
  nu_employee_no :: string
  nu_password :: "string option"
  nu_real_name :: "string option"
  nu_email :: "string option"
  nu_mobile :: "string option"
  nu_department_id :: "int option"
  nu_status :: user_status
  nu_preferred_locale :: string
  nu_remark :: "string option"
  nu_role_ids :: "int list"

definition new_user :: "auth_env \<Rightarrow> int \<Rightarrow> user_create \<Rightarrow> authenticated_user \<Rightarrow> user_row" where
  "new_user env new_id p actor =
     \<lparr>be_id = new_id, be_is_deleted = False, be_created_by = Some (au_user_id actor), be_create_dept = au_department_id actor,
      be_updated_by = Some (au_user_id actor), us_username = nu_username p, us_employee_no = nu_employee_no p,
      us_real_name = nu_real_name p, us_email = nu_email p, us_mobile = nu_mobile p,
      us_password = (if truthy_str (nu_password p) then map_option (en_hash env) (nu_password p) else None),
      us_department_id = nu_department_id p, us_avatar = None, us_status = user_status_value (nu_status p),
      us_preferred_locale = nu_preferred_locale p, us_remark = nu_remark p\<rparr>"

definition create_user :: "auth_env \<Rightarrow> int \<Rightarrow> user_create \<Rightarrow> authenticated_user \<Rightarrow> (identity_db, user_detail) admin_op" where
  "create_user env new_id p actor = db_op (\<lambda>db.
     ensure (any_user_by_username (nu_username p) db = None) EC_request_invalid 400
     (ensure (\<not> employee_no_taken (nu_employee_no p) db) EC_request_invalid 400
     (ensure (validate_department (nu_department_id p) db) EC_request_invalid 400
     (ensure (validate_roles (nu_role_ids p) db) EC_request_invalid 400
     (ensure (assignable_roles (nu_role_ids p) actor db) EC_auth_forbidden 403
     (strong_password env (nu_password p)
     (res_bind (repo_create (\<lambda>u. \<not> be_is_deleted u \<and> (us_username u = nu_username p \<or> us_employee_no u = nu_employee_no p))
                  (new_user env new_id p actor) (id_users db)) (\<lambda>users.
       let db' = replace_roles new_id (nu_role_ids p) (db\<lparr>id_users := users\<rparr>)
       in ROk ((new_user env new_id p actor, list_role_ids new_id db'), db', [])))))))))"

record user_update =
  up_password :: "string option"
  up_real_name :: "string option option"
  up_email :: "string option option"
  up_mobile :: "string option option"
  up_department_id :: "int option option"
  up_status :: "user_status option"
  up_preferred_locale :: "string option option"
  up_remark :: "string option option"
  up_role_ids :: "int list option"

definition apply_user_update :: "auth_env \<Rightarrow> user_update \<Rightarrow> authenticated_user \<Rightarrow> user_row \<Rightarrow> user_row" where
  "apply_user_update env p actor u =
     u\<lparr>us_password := (case up_password p of None \<Rightarrow> us_password u | Some pw \<Rightarrow> Some (en_hash env pw)),
       us_real_name := given (up_real_name p) (us_real_name u), us_email := given (up_email p) (us_email u),
       us_mobile := given (up_mobile p) (us_mobile u), us_department_id := given (up_department_id p) (us_department_id u),
       us_status := (case up_status p of None \<Rightarrow> us_status u | Some st \<Rightarrow> user_status_value st),
       us_preferred_locale := given_value (up_preferred_locale p) (us_preferred_locale u),
       us_remark := given (up_remark p) (us_remark u), be_updated_by := Some (au_user_id actor)\<rparr>"

definition reassigned :: "int \<Rightarrow> int list option \<Rightarrow> authenticated_user \<Rightarrow> identity_db \<Rightarrow> (identity_db \<Rightarrow> 'a res) \<Rightarrow> 'a res" where
  "reassigned user_id role_ids actor db k =
     (case role_ids of
        None \<Rightarrow> k db
      | Some rs \<Rightarrow>
          ensure (validate_roles rs db) EC_request_invalid 400
          (ensure (assignable_roles rs actor db) EC_auth_forbidden 403 (k (replace_roles user_id rs db))))"

definition department_given :: "int option option \<Rightarrow> identity_db \<Rightarrow> bool" where
  "department_given d db \<longleftrightarrow> (case d of None \<Rightarrow> True | Some dept \<Rightarrow> validate_department dept db)"

definition update_user :: "auth_env \<Rightarrow> int \<Rightarrow> user_update \<Rightarrow> authenticated_user \<Rightarrow> (identity_db, user_detail) admin_op" where
  "update_user env user_id p actor db s =
     (let r = fetched (repo_get user_id (id_users db)) (\<lambda>user.
        ensure (user_dominance user_id actor db) EC_auth_forbidden 403
        (strong_password env (up_password p)
        (ensure (department_given (up_department_id p) db) EC_request_invalid 400
        (ensure (up_preferred_locale p \<noteq> Some None) EC_request_conflict 409
        (reassigned user_id (up_role_ids p) actor (update_user_row user_id (apply_user_update env p actor) db) (\<lambda>db'.
          let hooks = (if up_role_ids p \<noteq> None \<or> up_status p \<noteq> None then [invalidate_user (en_now env) user_id] else [])
          in ROk ((apply_user_update env p actor user, list_role_ids user_id db'), db', hooks)))))))
      in if up_password p \<noteq> None \<or> up_status p = Some Usr_disabled
         then then_redis (revoke_all_sessions (en_now env) user_id) r s else (r, s))"

definition reset_password :: "auth_env \<Rightarrow> int \<Rightarrow> string \<Rightarrow> authenticated_user \<Rightarrow> (identity_db, unit) admin_op" where
  "reset_password env user_id new_password actor db s =
     then_redis (revoke_all_sessions (en_now env) user_id)
       (fetched (repo_get user_id (id_users db)) (\<lambda>user.
        ensure (user_dominance user_id actor db) EC_auth_forbidden 403
        (strong_password env (Some new_password)
        (ROk ((), update_user_row user_id
                    (\<lambda>u. u\<lparr>us_password := Some (en_hash env new_password), be_updated_by := Some (au_user_id actor)\<rparr>) db, []))))) s"

definition delete_user :: "auth_env \<Rightarrow> int \<Rightarrow> authenticated_user \<Rightarrow> (identity_db, unit) admin_op" where
  "delete_user env user_id actor db s =
     then_redis (revoke_all_sessions (en_now env) user_id)
       (fetched (repo_get user_id (id_users db)) (\<lambda>user.
        ensure (user_dominance user_id actor db) EC_auth_forbidden 403
        (let db1 = replace_roles user_id [] db
         in ROk ((), db1\<lparr>id_users := soft_delete_row (Some (au_user_id actor)) user_id (id_users db1)\<rparr>,
                 [invalidate_user (en_now env) user_id])))) s"

fun clear_roles :: "int list \<Rightarrow> identity_db \<Rightarrow> identity_db" where
  "clear_roles [] db = db"
| "clear_roles (u # us) db = clear_roles us (replace_roles u [] db)"

fun revoke_each :: "int \<Rightarrow> int list \<Rightarrow> unit rop" where
  "revoke_each now [] = rret ()"
| "revoke_each now (u # us) = rthen (revoke_all_sessions now u) (revoke_each now us)"

definition batch_delete_users :: "auth_env \<Rightarrow> int list \<Rightarrow> authenticated_user \<Rightarrow> (identity_db, batch_result) admin_op" where
  "batch_delete_users env ids actor db s =
     (let requested = dict_fromkeys ids;
          deletable = filter (\<lambda>i. user_dominance i actor db) requested;
          dominance_skipped = filter (\<lambda>i. \<not> user_dominance i actor db) requested
      in case soft_delete_many deletable (id_users db) of
           ((affected, missing), users) \<Rightarrow>
             let skipped = missing @ dominance_skipped;
                 deleted = [i \<leftarrow> requested. i \<notin> set skipped]
             in then_redis (revoke_each (en_now env) deleted)
                  (ROk (batch_result_of requested affected skipped, clear_roles deleted (db\<lparr>id_users := users\<rparr>),
                        map (invalidate_user (en_now env)) deleted)) s)"

end
