(* ===== verification/AdminTrees.thy ===== *)
theory AdminTrees
  imports AdminCore
begin

text \<open>
  The administration of menus and of departments (\<open>src/admin/menus\<close>, \<open>src/admin/departments\<close>: service and repository), both trees
  by a parent column. The walk up a menu's ancestors is a loop that does not end on a cycle, so it is a partial function: an
  operation that does not return is \<open>None\<close>.
\<close>

section \<open>Menus\<close>

definition menu_order :: "menu_row \<Rightarrow> int \<times> int" where "menu_order m = (me_sort_order m, be_id m)"

definition list_all_menus :: "identity_db \<Rightarrow> menu_row list" where
  "list_all_menus db = sort_key menu_order [m \<leftarrow> id_menus db. \<not> be_is_deleted m]"

definition list_active_visible_for_user :: "int \<Rightarrow> bool \<Rightarrow> identity_db \<Rightarrow> menu_row list" where
  "list_active_visible_for_user user_id unrestricted db =
     sort_key menu_order
       [m \<leftarrow> id_menus db. active_menu m \<and> me_visible m
          \<and> (unrestricted
             \<or> list_ex (\<lambda>r. active_role r \<and> (be_id r, be_id m) \<in> set (id_role_menus db)
                 \<and> (user_id, be_id r) \<in> set (id_user_roles db)) (id_roles db))]"

definition list_current_user_menus :: "authenticated_user \<Rightarrow> identity_db \<Rightarrow> menu_row list" where
  "list_current_user_menus user db = list_active_visible_for_user (au_user_id user) (is_superuser user) db"

fun contains :: "string \<Rightarrow> string \<Rightarrow> bool" where
  "contains needle [] = (needle = [])"
| "contains needle (c # cs) = (starts_with needle (c # cs) \<or> contains needle cs)"

definition matches_keyword :: "string \<Rightarrow> menu_row \<Rightarrow> bool" where
  "matches_keyword keyword m \<longleftrightarrow>
     contains keyword (py_lower (me_name m))
     \<or> (case me_perms m of None \<Rightarrow> False | Some v \<Rightarrow> contains keyword (py_lower v))
     \<or> (case me_path m of None \<Rightarrow> False | Some v \<Rightarrow> contains keyword (py_lower v))"

text \<open>The loop from a node to its ancestors, with the ids already seen; \<open>fuel\<close> bounds it by the number of rows.\<close>

fun menu_ancestors :: "nat \<Rightarrow> menu_row list \<Rightarrow> int list \<Rightarrow> menu_row \<Rightarrow> int list" where
  "menu_ancestors 0 rows seen cursor = []"
| "menu_ancestors (Suc fuel) rows seen cursor =
     (case me_parent_id cursor of
        None \<Rightarrow> []
      | Some p \<Rightarrow>
          if p \<in> set seen then []
          else (case find (\<lambda>m. be_id m = p) rows of
                  None \<Rightarrow> []
                | Some parent \<Rightarrow> be_id parent # menu_ancestors fuel rows (p # seen) parent))"

definition filter_with_ancestors :: "menu_row list \<Rightarrow> string \<Rightarrow> menu_row list" where
  "filter_with_ancestors rows keyword =
     (let included = [i. m \<leftarrow> rows, matches_keyword keyword m,
                         i \<leftarrow> be_id m # menu_ancestors (Suc (length rows)) rows [be_id m] m]
      in [m \<leftarrow> rows. be_id m \<in> set included])"

definition list_menus :: "string option \<Rightarrow> identity_db \<Rightarrow> menu_row list" where
  "list_menus keyword db =
     (let normalized = (case keyword of None \<Rightarrow> [] | Some k \<Rightarrow> py_lower (py_strip k))
      in if normalized = [] then list_all_menus db else filter_with_ancestors (list_all_menus db) normalized)"

definition has_children :: "int \<Rightarrow> identity_db \<Rightarrow> bool" where
  "has_children menu_id db \<longleftrightarrow> list_ex (\<lambda>m. me_parent_id m = Some menu_id \<and> \<not> be_is_deleted m) (id_menus db)"

definition is_role_granted :: "int \<Rightarrow> identity_db \<Rightarrow> bool" where
  "is_role_granted menu_id db \<longleftrightarrow> list_ex (\<lambda>l. snd l = menu_id) (id_role_menus db)"

text \<open>Whether the chain of parents above a menu is free of \<open>current\<close>.\<close>

partial_function (option) menu_walk :: "menu_row list \<Rightarrow> int \<Rightarrow> menu_row \<Rightarrow> bool option" where
  "menu_walk rows current cursor =
     (case me_parent_id cursor of
        None \<Rightarrow> Some True
      | Some p \<Rightarrow>
          if p = current then Some False
          else (case find (\<lambda>m. be_id m = p) rows of
                  None \<Rightarrow> Some True
                | Some next_parent \<Rightarrow> menu_walk rows current next_parent))"

text \<open>\<open>_validate_parent\<close>: whether the parent is accepted.\<close>

definition validate_parent :: "int option \<Rightarrow> int option \<Rightarrow> identity_db \<Rightarrow> bool option" where
  "validate_parent parent_id current_id db =
     (case parent_id of
        None \<Rightarrow> Some True
      | Some p \<Rightarrow>
          if current_id = Some p then Some False
          else (case repo_get p (id_menus db) of
                  None \<Rightarrow> Some False
                | Some parent \<Rightarrow>
                    (case current_id of
                       None \<Rightarrow> Some True
                     | Some c \<Rightarrow> menu_walk (list_all_menus db) c parent)))"

definition validate_kind :: "menu_type \<Rightarrow> string option \<Rightarrow> bool" where
  "validate_kind mt perms \<longleftrightarrow> (if mt = MT_button then truthy_str perms else \<not> truthy_str perms)"

definition assignable_perms :: "string option \<Rightarrow> authenticated_user \<Rightarrow> bool" where
  "assignable_perms perms actor \<longleftrightarrow> is_superuser actor \<or> \<not> truthy_str perms \<or> the perms \<in> au_permissions actor"

record menu_create =
  mc_name :: string
  mc_parent_id :: "int option"
  mc_menu_type :: menu_type
  mc_perms :: "string option"
  mc_path :: "string option"
  mc_component :: "string option"
  mc_query_param :: "string option"
  mc_is_frame :: bool
  mc_is_cache :: bool
  mc_icon :: "string option"
  mc_sort_order :: int
  mc_visible :: bool
  mc_status :: active_status
  mc_remark :: "string option"

definition new_menu :: "int \<Rightarrow> menu_create \<Rightarrow> authenticated_user \<Rightarrow> menu_row" where
  "new_menu new_id p actor =
     \<lparr>be_id = new_id, be_is_deleted = False, be_created_by = Some (au_user_id actor), be_create_dept = au_department_id actor,
      be_updated_by = Some (au_user_id actor), me_name = mc_name p, me_parent_id = mc_parent_id p,
      me_menu_type = menu_type_value (mc_menu_type p), me_perms = mc_perms p, me_path = mc_path p,
      me_component = mc_component p, me_query_param = mc_query_param p, me_is_frame = mc_is_frame p,
      me_is_cache = mc_is_cache p, me_icon = mc_icon p, me_sort_order = mc_sort_order p, me_visible = mc_visible p,
      me_status = active_status_value (mc_status p), me_remark = mc_remark p\<rparr>"

definition create_menu :: "int \<Rightarrow> menu_create \<Rightarrow> authenticated_user \<Rightarrow> (identity_db, menu_row) admin_op" where
  "create_menu new_id p actor = db_op (\<lambda>db.
     ensure (validate_parent (mc_parent_id p) None db = Some True) EC_request_invalid 400
     (ensure (validate_kind (mc_menu_type p) (mc_perms p)) EC_request_invalid 400
     (ensure (assignable_perms (mc_perms p) actor) EC_auth_forbidden 403
     (res_bind (repo_create (\<lambda>_. False) (new_menu new_id p actor) (id_menus db)) (\<lambda>menus.
       ROk (new_menu new_id p actor, db\<lparr>id_menus := menus\<rparr>, []))))))"

text \<open>The fields of an update that were given, each possibly null.\<close>

record menu_update =
  mp_name :: "string option option"
  mp_parent_id :: "int option option"
  mp_menu_type :: "menu_type option"
  mp_perms :: "string option option"
  mp_path :: "string option option"
  mp_component :: "string option option"
  mp_query_param :: "string option option"
  mp_is_frame :: "bool option option"
  mp_is_cache :: "bool option option"
  mp_icon :: "string option option"
  mp_sort_order :: "int option option"
  mp_visible :: "bool option option"
  mp_status :: "active_status option"
  mp_remark :: "string option option"

definition menu_update_fits :: "menu_update \<Rightarrow> bool" where
  "menu_update_fits p \<longleftrightarrow>
     mp_name p \<noteq> Some None \<and> mp_is_frame p \<noteq> Some None \<and> mp_is_cache p \<noteq> Some None \<and> mp_sort_order p \<noteq> Some None
     \<and> mp_visible p \<noteq> Some None"

definition apply_menu_update :: "menu_update \<Rightarrow> authenticated_user \<Rightarrow> menu_row \<Rightarrow> menu_row" where
  "apply_menu_update p actor m =
     m\<lparr>me_name := given_value (mp_name p) (me_name m), me_parent_id := given (mp_parent_id p) (me_parent_id m),
       me_menu_type := (case mp_menu_type p of None \<Rightarrow> me_menu_type m | Some mt \<Rightarrow> menu_type_value mt),
       me_perms := given (mp_perms p) (me_perms m), me_path := given (mp_path p) (me_path m),
       me_component := given (mp_component p) (me_component m), me_query_param := given (mp_query_param p) (me_query_param m),
       me_is_frame := given_value (mp_is_frame p) (me_is_frame m), me_is_cache := given_value (mp_is_cache p) (me_is_cache m),
       me_icon := given (mp_icon p) (me_icon m), me_sort_order := given_value (mp_sort_order p) (me_sort_order m),
       me_visible := given_value (mp_visible p) (me_visible m),
       me_status := (case mp_status p of None \<Rightarrow> me_status m | Some st \<Rightarrow> active_status_value st),
       me_remark := given (mp_remark p) (me_remark m), be_updated_by := Some (au_user_id actor)\<rparr>"

text \<open>\<open>MenuType(effective_type)\<close>: the stored type is one of the three; another text is a \<open>ValueError\<close>.\<close>

definition update_menu_checked :: "int \<Rightarrow> int \<Rightarrow> menu_update \<Rightarrow> authenticated_user \<Rightarrow> menu_row \<Rightarrow> identity_db
    \<Rightarrow> (menu_row \<times> identity_db \<times> hook list) res" where
  "update_menu_checked now menu_id p actor menu db =
     (case (case mp_menu_type p of None \<Rightarrow> menu_type_of_value (me_menu_type menu) | Some mt \<Rightarrow> Some mt) of
        None \<Rightarrow> RCrash
      | Some mt \<Rightarrow>
          (let effective_perms = given (mp_perms p) (me_perms menu)
           in ensure (validate_kind mt effective_perms) EC_request_invalid 400
              (ensure (mp_perms p = None \<or> assignable_perms effective_perms actor) EC_auth_forbidden 403
              (ensure (menu_update_fits p) EC_request_conflict 409
              (ROk (apply_menu_update p actor menu, db\<lparr>id_menus := update_row menu_id (apply_menu_update p actor) (id_menus db)\<rparr>,
                    if mp_status p \<noteq> None \<or> mp_perms p \<noteq> None then [invalidate_all now] else []))))))"

definition update_menu :: "int \<Rightarrow> int \<Rightarrow> menu_update \<Rightarrow> authenticated_user \<Rightarrow> identity_db
    \<Rightarrow> (menu_row \<times> identity_db \<times> hook list) res option" where
  "update_menu now menu_id p actor db =
     (case repo_get menu_id (id_menus db) of
        None \<Rightarrow> Some (RErr (app_err EC_request_invalid 404))
      | Some menu \<Rightarrow>
          (case (case mp_parent_id p of None \<Rightarrow> Some True | Some parent \<Rightarrow> validate_parent parent (Some menu_id) db) of
             None \<Rightarrow> None
           | Some ok \<Rightarrow> Some (ensure ok EC_request_invalid 400 (update_menu_checked now menu_id p actor menu db))))"

definition drop_menu :: "authenticated_user \<Rightarrow> int \<Rightarrow> identity_db \<Rightarrow> identity_db" where
  "drop_menu actor menu_id db = db\<lparr>id_menus := soft_delete_row (Some (au_user_id actor)) menu_id (id_menus db)\<rparr>"

definition menu_in_use :: "int \<Rightarrow> identity_db \<Rightarrow> bool" where
  "menu_in_use menu_id db \<longleftrightarrow> has_children menu_id db \<or> is_role_granted menu_id db"

definition delete_menu :: "int \<Rightarrow> authenticated_user \<Rightarrow> (identity_db, unit) admin_op" where
  "delete_menu menu_id actor = db_op (\<lambda>db.
     fetched (repo_get menu_id (id_menus db)) (\<lambda>menu.
     ensure (\<not> menu_in_use menu_id db) EC_request_invalid 400 (ROk ((), drop_menu actor menu_id db, []))))"

fun drop_menus :: "authenticated_user \<Rightarrow> int list \<Rightarrow> identity_db \<Rightarrow> int \<Rightarrow> int list \<Rightarrow> int \<times> int list \<times> identity_db" where
  "drop_menus actor [] db affected skipped = (affected, skipped, db)"
| "drop_menus actor (i # is) db affected skipped =
     (if repo_get i (id_menus db) = None \<or> menu_in_use i db then drop_menus actor is db affected (skipped @ [i])
      else drop_menus actor is (drop_menu actor i db) (affected + 1) skipped)"

definition batch_delete_menus :: "int list \<Rightarrow> authenticated_user \<Rightarrow> (identity_db, batch_result) admin_op" where
  "batch_delete_menus ids actor = db_op (\<lambda>db.
     let requested = dict_fromkeys ids
     in case drop_menus actor requested db 0 [] of
          (affected, skipped, db') \<Rightarrow> ROk (batch_result_of requested affected skipped, db', []))"

section \<open>Departments\<close>

definition dept_order :: "department_row \<Rightarrow> int \<times> int" where "dept_order d = (de_sort_order d, be_id d)"

definition list_all_departments :: "identity_db \<Rightarrow> department_row list" where
  "list_all_departments db = sort_key dept_order [d \<leftarrow> id_departments db. \<not> be_is_deleted d]"

text \<open>\<open>str.casefold\<close> on the characters below 256: the sharp s becomes two letters.\<close>

definition py_casefold :: "string \<Rightarrow> string" where
  "py_casefold s = concat (map (\<lambda>c. if of_char c = (223 :: nat) then ''ss'' else py_lower [c]) s)"

fun dept_chain :: "nat \<Rightarrow> department_row list \<Rightarrow> int list \<Rightarrow> int option \<Rightarrow> int list" where
  "dept_chain 0 rows seen cursor = []"
| "dept_chain (Suc fuel) rows seen None = []"
| "dept_chain (Suc fuel) rows seen (Some i) =
     (if i \<in> set seen then []
      else (case find (\<lambda>d. be_id d = i) rows of
              None \<Rightarrow> []
            | Some current \<Rightarrow> i # dept_chain fuel rows (i # seen) (de_parent_id current)))"

definition list_departments :: "string option \<Rightarrow> identity_db \<Rightarrow> department_row list" where
  "list_departments keyword db =
     (let departments = list_all_departments db
      in case keyword of
           None \<Rightarrow> departments
         | Some k \<Rightarrow>
             (let included = [i. d \<leftarrow> departments, contains (py_casefold k) (py_casefold (de_name d)),
                                 i \<leftarrow> dept_chain (Suc (length departments)) departments [] (Some (be_id d))]
              in [d \<leftarrow> departments. be_id d \<in> set included]))"

definition has_active_children :: "int \<Rightarrow> identity_db \<Rightarrow> bool" where
  "has_active_children dept_id db \<longleftrightarrow> list_ex (\<lambda>d. de_parent_id d = Some dept_id \<and> \<not> be_is_deleted d) (id_departments db)"

definition has_active_members :: "int \<Rightarrow> identity_db \<Rightarrow> bool" where
  "has_active_members dept_id db \<longleftrightarrow> list_ex (\<lambda>u. us_department_id u = Some dept_id \<and> \<not> be_is_deleted u) (id_users db)"

text \<open>The loop from a department to its ancestors with the ids already seen: whether \<open>dept_id\<close> is not met.\<close>

lemma unseen_less: "x \<in> S \<Longrightarrow> x \<notin> T \<Longrightarrow> finite S \<Longrightarrow> card (S - insert x T) < card (S - T)"
  by (rule psubset_card_mono) auto

function dept_walk :: "department_row list \<Rightarrow> int \<Rightarrow> int list \<Rightarrow> int option \<Rightarrow> bool" where
  "dept_walk rows dept_id seen None = True"
| "dept_walk rows dept_id seen (Some cursor) =
     (if cursor \<in> set seen then True
      else if cursor = dept_id then False
      else dept_walk rows dept_id (cursor # seen)
             (case find (\<lambda>d. be_id d = cursor) rows of None \<Rightarrow> None | Some parent \<Rightarrow> de_parent_id parent))"
  by pat_completeness auto

termination
proof (relation "measure (\<lambda>(rows, _, seen, cursor). 2 * card (be_id ` set rows - set seen) + (if cursor = None then 0 else 1))", goal_cases)
  case (2 rows dept_id seen cursor)
  show ?case
  proof (cases "find (\<lambda>d. be_id d = cursor) rows")
    case None
    have "card (be_id ` set rows - insert cursor (set seen)) \<le> card (be_id ` set rows - set seen)" by (rule card_mono) auto
    with None show ?thesis by simp
  next
    case (Some d)
    then have "cursor \<in> be_id ` set rows" by (auto simp: find_Some_iff)
    from unseen_less [OF this 2(1)] Some show ?thesis by simp
  qed
qed simp

definition validate_reparent :: "int \<Rightarrow> int option \<Rightarrow> identity_db \<Rightarrow> bool" where
  "validate_reparent dept_id new_parent db \<longleftrightarrow>
     (case new_parent of
        None \<Rightarrow> True
      | Some p \<Rightarrow>
          p \<noteq> dept_id \<and> repo_get p (id_departments db) \<noteq> None
          \<and> dept_walk (list_all_departments db) dept_id [] (Some p))"

record department_create =
  dc_name :: string
  dc_parent_id :: "int option"
  dc_sort_order :: int
  dc_remark :: "string option"

definition new_department :: "int \<Rightarrow> department_create \<Rightarrow> authenticated_user \<Rightarrow> department_row" where
  "new_department new_id p actor =
     \<lparr>be_id = new_id, be_is_deleted = False, be_created_by = Some (au_user_id actor), be_create_dept = au_department_id actor,
      be_updated_by = Some (au_user_id actor), de_name = dc_name p, de_parent_id = dc_parent_id p,
      de_sort_order = dc_sort_order p, de_remark = dc_remark p\<rparr>"

definition create_department :: "int \<Rightarrow> department_create \<Rightarrow> authenticated_user \<Rightarrow> (identity_db, department_row) admin_op" where
  "create_department new_id p actor = db_op (\<lambda>db.
     ensure (dc_parent_id p = None \<or> repo_get (the (dc_parent_id p)) (id_departments db) \<noteq> None) EC_request_invalid 400
     (res_bind (repo_create (\<lambda>_. False) (new_department new_id p actor) (id_departments db)) (\<lambda>depts.
       ROk (new_department new_id p actor, db\<lparr>id_departments := depts\<rparr>, []))))"

record department_update =
  dp_name :: "string option option"
  dp_parent_id :: "int option option"
  dp_sort_order :: "int option option"
  dp_remark :: "string option option"

definition apply_department_update :: "department_update \<Rightarrow> authenticated_user \<Rightarrow> department_row \<Rightarrow> department_row" where
  "apply_department_update p actor d =
     d\<lparr>de_name := given_value (dp_name p) (de_name d), de_parent_id := given (dp_parent_id p) (de_parent_id d),
       de_sort_order := given_value (dp_sort_order p) (de_sort_order d), de_remark := given (dp_remark p) (de_remark d),
       be_updated_by := Some (au_user_id actor)\<rparr>"

definition update_department :: "int \<Rightarrow> department_update \<Rightarrow> authenticated_user \<Rightarrow> (identity_db, department_row) admin_op" where
  "update_department dept_id p actor = db_op (\<lambda>db.
     fetched (repo_get dept_id (id_departments db)) (\<lambda>dept.
     ensure (case dp_parent_id p of None \<Rightarrow> True | Some parent \<Rightarrow> validate_reparent dept_id parent db) EC_request_invalid 400
     (ensure (dp_name p \<noteq> Some None \<and> dp_sort_order p \<noteq> Some None) EC_request_conflict 409
     (ROk (apply_department_update p actor dept,
           db\<lparr>id_departments := update_row dept_id (apply_department_update p actor) (id_departments db)\<rparr>, [])))))"

definition drop_department :: "authenticated_user \<Rightarrow> int \<Rightarrow> identity_db \<Rightarrow> identity_db" where
  "drop_department actor dept_id db =
     db\<lparr>id_departments := soft_delete_row (Some (au_user_id actor)) dept_id (id_departments db)\<rparr>"

definition department_in_use :: "int \<Rightarrow> identity_db \<Rightarrow> bool" where
  "department_in_use dept_id db \<longleftrightarrow> has_active_children dept_id db \<or> has_active_members dept_id db"

definition delete_department :: "int \<Rightarrow> authenticated_user \<Rightarrow> (identity_db, unit) admin_op" where
  "delete_department dept_id actor = db_op (\<lambda>db.
     fetched (repo_get dept_id (id_departments db)) (\<lambda>dept.
     ensure (\<not> department_in_use dept_id db) EC_request_invalid 400 (ROk ((), drop_department actor dept_id db, []))))"

fun drop_departments :: "authenticated_user \<Rightarrow> int list \<Rightarrow> identity_db \<Rightarrow> int \<Rightarrow> int list \<Rightarrow> int \<times> int list \<times> identity_db" where
  "drop_departments actor [] db affected skipped = (affected, skipped, db)"
| "drop_departments actor (i # is) db affected skipped =
     (if repo_get i (id_departments db) = None \<or> department_in_use i db then drop_departments actor is db affected (skipped @ [i])
      else drop_departments actor is (drop_department actor i db) (affected + 1) skipped)"

definition batch_delete_departments :: "int list \<Rightarrow> authenticated_user \<Rightarrow> (identity_db, batch_result) admin_op" where
  "batch_delete_departments ids actor = db_op (\<lambda>db.
     let requested = dict_fromkeys ids
     in case drop_departments actor requested db 0 [] of
          (affected, skipped, db') \<Rightarrow> ROk (batch_result_of requested affected skipped, db', []))"

end
