(* ===== verification/AdminApi.thy ===== *)
theory AdminApi
  imports AdminPrivileges AdminTrees
begin

text \<open>
  The endpoints of the identity administration (\<open>router.py\<close> of \<open>src/admin/users\<close>, \<open>roles\<close>, \<open>menus\<close> and \<open>departments\<close>) that
  change something, as commands: the permission each route requires and the operation it runs in the request's unit
  of work. The first argument of a command that creates is the new id.
\<close>

datatype command =
    CreateUser int user_create | UpdateUser int user_update | ResetPassword int string | DeleteUser int | DeleteUsers "int list"
  | CreateRole int role_create | UpdateRole int role_update | DeleteRole int | DeleteRoles "int list"
  | CreateMenu int menu_create | UpdateMenu int menu_update | DeleteMenu int | DeleteMenus "int list"
  | CreateDepartment int department_create | UpdateDepartment int department_update | DeleteDepartment int | DeleteDepartments "int list"

fun required_permission :: "command \<Rightarrow> string" where
  "required_permission (CreateUser _ _) = ''system:user:add''"
| "required_permission (UpdateUser _ _) = ''system:user:edit''"
| "required_permission (ResetPassword _ _) = ''system:user:resetPwd''"
| "required_permission (DeleteUser _) = ''system:user:remove''"
| "required_permission (DeleteUsers _) = ''system:user:remove''"
| "required_permission (CreateRole _ _) = ''system:role:add''"
| "required_permission (UpdateRole _ _) = ''system:role:edit''"
| "required_permission (DeleteRole _) = ''system:role:remove''"
| "required_permission (DeleteRoles _) = ''system:role:remove''"
| "required_permission (CreateMenu _ _) = ''system:menu:add''"
| "required_permission (UpdateMenu _ _) = ''system:menu:edit''"
| "required_permission (DeleteMenu _) = ''system:menu:remove''"
| "required_permission (DeleteMenus _) = ''system:menu:remove''"
| "required_permission (CreateDepartment _ _) = ''system:dept:add''"
| "required_permission (UpdateDepartment _ _) = ''system:dept:edit''"
| "required_permission (DeleteDepartment _) = ''system:dept:remove''"
| "required_permission (DeleteDepartments _) = ''system:dept:remove''"

text \<open>The result of an operation is left to the response; an operation that does not return never answers.\<close>

definition effect :: "('a \<times> identity_db \<times> hook list) res \<times> redis \<Rightarrow> (unit \<times> identity_db \<times> hook list) res \<times> redis" where
  "effect r = (case r of (ROk (_, d, hs), s) \<Rightarrow> (ROk ((), d, hs), s) | (RErr e, s) \<Rightarrow> (RErr e, s) | (RCrash, s) \<Rightarrow> (RCrash, s))"

fun perform :: "auth_env \<Rightarrow> authenticated_user \<Rightarrow> command \<Rightarrow> (identity_db, unit) admin_op" where
  "perform env a (CreateUser i p) db s = effect (create_user env i p a db s)"
| "perform env a (UpdateUser i p) db s = effect (update_user env i p a db s)"
| "perform env a (ResetPassword i pw) db s = effect (reset_password env i pw a db s)"
| "perform env a (DeleteUser i) db s = effect (delete_user env i a db s)"
| "perform env a (DeleteUsers is) db s = effect (batch_delete_users env is a db s)"
| "perform env a (CreateRole i p) db s = effect (create_role i p a db s)"
| "perform env a (UpdateRole i p) db s = effect (update_role (en_now env) i p a db s)"
| "perform env a (DeleteRole i) db s = effect (delete_role (en_now env) i a db s)"
| "perform env a (DeleteRoles is) db s = effect (batch_delete_roles (en_now env) is a db s)"
| "perform env a (CreateMenu i p) db s = effect (create_menu i p a db s)"
| "perform env a (UpdateMenu i p) db s =
     (case update_menu (en_now env) i p a db of None \<Rightarrow> (RCrash, s) | Some r \<Rightarrow> effect (r, s))"
| "perform env a (DeleteMenu i) db s = effect (delete_menu i a db s)"
| "perform env a (DeleteMenus is) db s = effect (batch_delete_menus is a db s)"
| "perform env a (CreateDepartment i p) db s = effect (create_department i p a db s)"
| "perform env a (UpdateDepartment i p) db s = effect (update_department i p a db s)"
| "perform env a (DeleteDepartment i) db s = effect (delete_department i a db s)"
| "perform env a (DeleteDepartments is) db s = effect (batch_delete_departments is a db s)"

definition admin_request ::
  "auth_env \<Rightarrow> bool \<Rightarrow> authenticated_user \<Rightarrow> command \<Rightarrow> identity_db \<Rightarrow> redis \<Rightarrow> unit res \<times> identity_db \<times> redis" where
  "admin_request env commit_ok actor cmd db s =
     (if \<not> has_permission actor (required_permission cmd) then (RErr (app_err EC_auth_forbidden 403), db, s)
      else unit_of_work commit_ok (perform env actor cmd) db s)"

text \<open>Requests one after the other, each with its environment, whether its commit succeeds, and its principal.\<close>

fun admin_run :: "(auth_env \<times> bool \<times> authenticated_user \<times> command) list \<Rightarrow> identity_db \<Rightarrow> redis \<Rightarrow> identity_db \<times> redis" where
  "admin_run [] db s = (db, s)"
| "admin_run ((env, commit_ok, actor, cmd) # rs) db s =
     (case admin_request env commit_ok actor cmd db s of (_, db', s') \<Rightarrow> admin_run rs db' s')"

end
