(* ===== verification/TreeFacts.thy ===== *)
theory TreeFacts
  imports AdminTrees
begin

text \<open>
  Menus and departments stay trees. The contract of a table with a parent column is a locale, proved once for inserting a row,
  moving one and deleting a leaf and interpreted on both tables; the walks of the code decide exactly whether a move
  would close a cycle, and return on every tree.
\<close>

section \<open>A table with a parent column\<close>

definition live :: "'a base_entity_scheme list \<Rightarrow> int \<Rightarrow> bool" where
  "live t i \<longleftrightarrow> (\<exists>r\<in>set t. be_id r = i \<and> \<not> be_is_deleted r)"

lemma live_append [simp]: "live (t @ t') i \<longleftrightarrow> live t i \<or> live t' i"
  by (auto simp: live_def)

lemma live_in: "live t i \<Longrightarrow> i \<in> be_id ` set t"
  by (auto simp: live_def)

lemma repo_get_Some: "repo_get i t = Some r \<Longrightarrow> r \<in> set t \<and> be_id r = i \<and> \<not> be_is_deleted r"
  unfolding repo_get_def by (drule scalar_Some) simp

lemma repo_get_live: "repo_get i t \<noteq> None \<longleftrightarrow> live t i"
  by (auto simp: repo_get_def live_def scalar_None filter_empty_conv)

lemma distinct_row: "distinct (map be_id t) \<Longrightarrow> r \<in> set t \<Longrightarrow> r' \<in> set t \<Longrightarrow> be_id r = be_id r' \<Longrightarrow> r = r'"
  by (meson distinct_map inj_onD)

lemma live_update_row: "(\<And>r. be_id (f r) = be_id r) \<Longrightarrow> (\<And>r. be_is_deleted (f r) = be_is_deleted r) \<Longrightarrow> live (update_row i f t) j \<longleftrightarrow> live t j"
proof -
  assume f: "\<And>r. be_id (f r) = be_id r" "\<And>r. be_is_deleted (f r) = be_is_deleted r"
  have "be_id r = j \<and> \<not> be_is_deleted r \<longleftrightarrow> be_id (if be_id r = i then f r else r) = j \<and> \<not> be_is_deleted (if be_id r = i then f r else r)" for r
    using f by simp
  then show ?thesis unfolding live_def update_row_def by (simp only: set_map bex_simps)
qed

lemma find_in: "find P xs = Some x \<Longrightarrow> x \<in> set xs \<and> P x"
  by (induction xs) (auto split: if_splits)

lemma ids_update_row: "(\<And>r. be_id (f r) = be_id r) \<Longrightarrow> map be_id (update_row i f t) = map be_id t"
  by (simp add: update_row_def)

lemma live_soft_delete: "live (soft_delete_row a i t) j \<longleftrightarrow> live t j \<and> j \<noteq> i"
  by (auto simp: live_def soft_delete_row_def update_row_def)

lemma ids_soft_delete: "map be_id (soft_delete_row a i t) = map be_id t"
  by (simp add: soft_delete_row_def update_row_def)

locale tree_table =
  fixes par :: "'a base_entity_scheme \<Rightarrow> int option"
  assumes par_deleted: "par (r\<lparr>be_updated_by := a, be_is_deleted := b\<rparr>) = par r"
begin

definition parents :: "'a base_entity_scheme list \<Rightarrow> (int \<times> int) set" where
  "parents t = {(be_id r, p) |r p. r \<in> set t \<and> \<not> be_is_deleted r \<and> par r = Some p}"

definition tree_ok :: "'a base_entity_scheme list \<Rightarrow> bool" where
  "tree_ok t \<longleftrightarrow> distinct (map be_id t) \<and> (\<forall>(c, p) \<in> parents t. live t p) \<and> acyclic (parents t)"

lemma finite_parents: "finite (parents t)"
proof -
  have "parents t \<subseteq> (\<lambda>r. (be_id r, the (par r))) ` set t" by (force simp: parents_def)
  then show ?thesis by (rule finite_subset) simp
qed

lemma parent_live: "tree_ok t \<Longrightarrow> (c, p) \<in> parents t \<Longrightarrow> live t p"
  by (auto simp: tree_ok_def)

lemma chain_live: "tree_ok t \<Longrightarrow> (c, p) \<in> (parents t)\<^sup>+ \<Longrightarrow> live t p"
  by (erule trancl.cases) (auto dest: parent_live)

lemma tree_ok_insert:
  assumes ok: "tree_ok t" and new: "be_id r \<notin> be_id ` set t" "\<not> be_is_deleted r" and p: "\<And>p. par r = Some p \<Longrightarrow> live t p"
  shows "tree_ok (t @ [r])"
proof -
  have par: "parents (t @ [r]) = (case par r of None \<Rightarrow> parents t | Some p \<Rightarrow> insert (be_id r, p) (parents t))"
    using new(2) by (auto simp: parents_def split: option.splits)
  have "acyclic (parents (t @ [r]))"
  proof (cases "par r")
    case (Some p)
    have "(p, be_id r) \<notin> (parents t)\<^sup>*"
    proof
      assume "(p, be_id r) \<in> (parents t)\<^sup>*"
      moreover have "p \<noteq> be_id r" using assms(4) [OF Some] live_in new(1) by metis
      ultimately have "(p, be_id r) \<in> (parents t)\<^sup>+" by (simp add: rtrancl_eq_or_trancl)
      then show False using chain_live [OF ok] live_in new(1) by metis
    qed
    then show ?thesis using ok Some par by (simp add: tree_ok_def acyclic_insert)
  qed (use ok par in \<open>simp add: tree_ok_def\<close>)
  moreover have "distinct (map be_id (t @ [r]))" using ok new(1) by (auto simp: tree_ok_def)
  moreover have "\<forall>(c, p) \<in> parents (t @ [r]). live (t @ [r]) p"
    using ok p unfolding par by (auto simp: tree_ok_def split: option.splits)
  ultimately show ?thesis by (simp add: tree_ok_def)
qed

lemma tree_ok_move:
  assumes ok: "tree_ok t" and f: "\<And>r. be_id (f r) = be_id r" "\<And>r. be_is_deleted (f r) = be_is_deleted r"
    and p: "\<And>r p. r \<in> set t \<Longrightarrow> be_id r = i \<Longrightarrow> par (f r) = Some p \<Longrightarrow> par r = Some p \<or> (live t p \<and> (p, i) \<notin> (parents t)\<^sup>*)"
  shows "tree_ok (update_row i f t)"
proof -
  let ?t = "update_row i f t"
  have le: "parents ?t \<subseteq> parents t \<or> (\<exists>p. live t p \<and> (p, i) \<notin> (parents t)\<^sup>* \<and> parents ?t \<subseteq> insert (i, p) (parents t))"
  proof (cases "\<exists>r p. r \<in> set t \<and> be_id r = i \<and> par (f r) = Some p \<and> par r \<noteq> Some p")
    case True
    then obtain r p where r: "r \<in> set t" "be_id r = i" "par (f r) = Some p" "par r \<noteq> Some p" by blast
    have "parents ?t \<subseteq> insert (i, p) (parents t)"
    proof
      fix e assume "e \<in> parents ?t"
      then obtain r' q where e: "e = (be_id r', q)" "r' \<in> set ?t" "\<not> be_is_deleted r'" "par r' = Some q" by (auto simp: parents_def)
      then obtain r0 where r0: "r0 \<in> set t" "r' = (if be_id r0 = i then f r0 else r0)" by (auto simp: update_row_def)
      show "e \<in> insert (i, p) (parents t)"
      proof (cases "be_id r0 = i")
        case True
        then have "r0 = r" using ok r r0(1) distinct_row by (metis tree_ok_def)
        then show ?thesis using e r0 r f by simp
      next
        case False
        then show ?thesis using e r0 by (auto simp: parents_def)
      qed
    qed
    then show ?thesis using p [OF r(1,2,3)] r(4) by blast
  next
    case False
    have "parents ?t \<subseteq> parents t"
    proof
      fix e assume "e \<in> parents ?t"
      then obtain r' q where e: "e = (be_id r', q)" "r' \<in> set ?t" "\<not> be_is_deleted r'" "par r' = Some q" by (auto simp: parents_def)
      then obtain r0 where "r0 \<in> set t" "r' = (if be_id r0 = i then f r0 else r0)" by (auto simp: update_row_def)
      then show "e \<in> parents t" using e f False by (auto simp: parents_def split: if_splits)
    qed
    then show ?thesis by blast
  qed
  have "acyclic (parents ?t)"
    using le
  proof
    assume "parents ?t \<subseteq> parents t"
    then show ?thesis using ok acyclic_subset by (auto simp: tree_ok_def)
  next
    assume "\<exists>p. live t p \<and> (p, i) \<notin> (parents t)\<^sup>* \<and> parents ?t \<subseteq> insert (i, p) (parents t)"
    then obtain p where "(p, i) \<notin> (parents t)\<^sup>*" and s: "parents ?t \<subseteq> insert (i, p) (parents t)" by blast
    then have "acyclic (insert (i, p) (parents t))" using ok by (simp add: tree_ok_def acyclic_insert)
    then show ?thesis using s acyclic_subset by blast
  qed
  moreover have "\<forall>(c, q) \<in> parents ?t. live ?t q"
    using le parent_live [OF ok] by (auto simp: live_update_row [OF f])
  ultimately show ?thesis using ok by (simp add: tree_ok_def ids_update_row [OF f(1)])
qed

lemma tree_ok_delete:
  assumes ok: "tree_ok t" and leaf: "\<And>r. r \<in> set t \<Longrightarrow> \<not> be_is_deleted r \<Longrightarrow> par r \<noteq> Some i"
  shows "tree_ok (soft_delete_row a i t)"
proof -
  have sub: "parents (soft_delete_row a i t) \<subseteq> parents t"
    by (auto simp: parents_def soft_delete_row_def update_row_def)
  moreover have "q \<noteq> i" if "(c, q) \<in> parents t" for c q using that leaf by (auto simp: parents_def)
  ultimately show ?thesis
    using ok acyclic_subset [OF _ sub] parent_live [OF ok]
    by (auto simp: tree_ok_def ids_soft_delete live_soft_delete)
qed

text \<open>Induction up the tree.\<close>

lemma up_induct [consumes 1]:
  assumes "tree_ok t" and step: "\<And>c. (\<And>p. (c, p) \<in> parents t \<Longrightarrow> Q p) \<Longrightarrow> Q c"
  shows "Q c"
proof -
  have "wf ((parents t)\<inverse>)" using assms(1) finite_parents by (intro finite_acyclic_wf_converse) (simp_all add: tree_ok_def)
  then show ?thesis by (induction c rule: wf_induct_rule) (auto intro: step)
qed

lemma live_row:
  assumes "tree_ok t" "live t i"
  obtains r where "r \<in> set t" "be_id r = i" "\<not> be_is_deleted r"
    "find (\<lambda>d. be_id d = i) (sort_key k [d \<leftarrow> t. \<not> be_is_deleted d]) = Some r"
proof -
  obtain r where r: "r \<in> set t" "be_id r = i" "\<not> be_is_deleted r" using assms(2) by (auto simp: live_def)
  let ?l = "sort_key k [d \<leftarrow> t. \<not> be_is_deleted d]"
  obtain r' where r': "find (\<lambda>d. be_id d = i) ?l = Some r'" using r by (cases "find (\<lambda>d. be_id d = i) ?l") (auto simp: find_None_iff)
  then have "r' \<in> set t" "be_id r' = i" using find_in [OF r'] by simp_all
  then have "r' = r" using assms(1) r distinct_row by (metis tree_ok_def)
  then show ?thesis using that r r' by blast
qed

lemma row_parent: "tree_ok t \<Longrightarrow> r \<in> set t \<Longrightarrow> \<not> be_is_deleted r \<Longrightarrow> (be_id r, p) \<in> parents t \<longleftrightarrow> par r = Some p"
  using distinct_row by (fastforce simp: parents_def tree_ok_def)

end

section \<open>Menus\<close>

interpretation mt: tree_table me_parent_id
  by unfold_locales simp

text \<open>The walk of \<open>_validate_parent\<close> returns and decides whether \<open>current\<close> is above the cursor.\<close>

lemma menu_walk_decides:
  assumes ok: "mt.tree_ok (id_menus db)" and r: "r \<in> set (id_menus db)" "\<not> be_is_deleted r"
  shows "menu_walk (list_all_menus db) c r = Some ((be_id r, c) \<notin> (mt.parents (id_menus db))\<^sup>+)"
  using r
proof (induction "be_id r" arbitrary: r rule: mt.up_induct [OF ok])
  case 1
  note edge = mt.row_parent [OF ok 1(2,3)]
  show ?case
  proof (cases "me_parent_id r")
    case None
    then have "(be_id r, c) \<notin> (mt.parents (id_menus db))\<^sup>+" using edge by (metis option.distinct(1) tranclD)
    then show ?thesis using None by (simp add: menu_walk.simps)
  next
    case (Some p)
    then have e: "(be_id r, p) \<in> mt.parents (id_menus db)" using edge by simp
    obtain r' where r': "r' \<in> set (id_menus db)" "be_id r' = p" "\<not> be_is_deleted r'"
      and f: "find (\<lambda>d. be_id d = p) (list_all_menus db) = Some r'"
      using mt.live_row [OF ok mt.parent_live [OF ok e], of menu_order] unfolding list_all_menus_def by blast
    have only: "(be_id r, c) \<in> (mt.parents (id_menus db))\<^sup>+ \<longleftrightarrow> p = c \<or> (p, c) \<in> (mt.parents (id_menus db))\<^sup>+"
      using e edge Some by (metis (no_types, lifting) option.inject rtranclD tranclD r_into_trancl trancl_into_trancl2)
    show ?thesis
      using Some f only 1(1) [of r'] e r' by (subst menu_walk.simps) auto
  qed
qed

lemma validate_parent_returns:
  assumes ok: "mt.tree_ok (id_menus db)"
  shows "\<exists>b. validate_parent parent c db = Some b
    \<and> (b \<longrightarrow> (\<forall>p. parent = Some p \<longrightarrow> live (id_menus db) p \<and> (\<forall>i. c = Some i \<longrightarrow> (p, i) \<notin> (mt.parents (id_menus db))\<^sup>*)))"
proof (cases parent)
  case (Some p)
  show ?thesis
  proof (cases "repo_get p (id_menus db)")
    case None
    then show ?thesis using Some by (intro exI [of _ False]) (simp add: validate_parent_def)
  next
    case r: (Some r)
    note row = repo_get_Some [OF r]
    have l: "live (id_menus db) p" using r repo_get_live by blast
    show ?thesis
    proof (cases c)
      case None
      then show ?thesis using Some r l by (intro exI [of _ True]) (simp add: validate_parent_def)
    next
      case c: (Some i)
      show ?thesis
      proof (cases "p = i")
        case True
        then show ?thesis using Some c by (intro exI [of _ False]) (simp add: validate_parent_def)
      next
        case False
        then have "validate_parent parent c db = Some ((p, i) \<notin> (mt.parents (id_menus db))\<^sup>+)"
          using Some c r menu_walk_decides [OF ok] row by (simp add: validate_parent_def)
        then show ?thesis using Some c l False by (simp add: rtrancl_eq_or_trancl)
      qed
    qed
  qed
qed (rule exI [of _ True], simp add: validate_parent_def)

section \<open>Departments\<close>

interpretation dt: tree_table de_parent_id
  by unfold_locales simp

lemma dept_walk_decides:
  assumes ok: "dt.tree_ok (id_departments db)" and l: "live (id_departments db) p"
    and "\<And>x. x \<in> set seen \<Longrightarrow> (x, p) \<in> (dt.parents (id_departments db))\<^sup>+"
  shows "dept_walk (list_all_departments db) i seen (Some p) \<longleftrightarrow> (p, i) \<notin> (dt.parents (id_departments db))\<^sup>*"
  using l assms(3)
proof (induction p arbitrary: seen rule: dt.up_induct [OF ok])
  case (1 p)
  have unseen: "p \<notin> set seen" using 1(3) ok by (auto simp: dt.tree_ok_def acyclic_def)
  obtain r where r: "r \<in> set (id_departments db)" "be_id r = p" "\<not> be_is_deleted r"
    and f: "find (\<lambda>d. be_id d = p) (list_all_departments db) = Some r"
    using dt.live_row [OF ok 1(2), of dept_order] unfolding list_all_departments_def by blast
  note edge = dt.row_parent [OF ok r(1,3), unfolded r(2)]
  show ?case
  proof (cases "de_parent_id r")
    case None
    then have "(p, i) \<in> (dt.parents (id_departments db))\<^sup>* \<longleftrightarrow> p = i" using edge None by (auto elim: converse_rtranclE)
    then show ?thesis using None f unseen by simp
  next
    case (Some q)
    then have e: "(p, q) \<in> dt.parents (id_departments db)" using edge by simp
    have only: "(p, i) \<in> (dt.parents (id_departments db))\<^sup>* \<longleftrightarrow> p = i \<or> (q, i) \<in> (dt.parents (id_departments db))\<^sup>*"
      using e edge Some by (metis converse_rtranclE converse_rtrancl_into_rtrancl option.inject rtrancl.rtrancl_refl)
    have "(x, q) \<in> (dt.parents (id_departments db))\<^sup>+" if "x \<in> set (p # seen)" for x
      using that 1(3) e by (auto intro: trancl_into_trancl)
    note up = 1(1) [OF e dt.parent_live [OF ok e] this]
    have "dept_walk (list_all_departments db) i seen (Some p)
        \<longleftrightarrow> p \<noteq> i \<and> dept_walk (list_all_departments db) i (p # seen) (Some q)"
      using Some f unseen by simp
    also have "\<dots> \<longleftrightarrow> (p, i) \<notin> (dt.parents (id_departments db))\<^sup>*" using up only by blast
    finally show ?thesis .
  qed
qed

lemma validate_reparent_sound:
  "dt.tree_ok (id_departments db) \<Longrightarrow> validate_reparent i parent db \<Longrightarrow> parent = Some p
    \<Longrightarrow> live (id_departments db) p \<and> (p, i) \<notin> (dt.parents (id_departments db))\<^sup>*"
  using dept_walk_decides [of db p "[]" i] repo_get_live [of p "id_departments db"] by (simp add: validate_reparent_def)

end
