(* ===== verification/ReferenceFacts.thy ===== *)
theory ReferenceFacts
  imports AdminApi TreeFacts
begin

text \<open>
  The tables have no foreign keys; the services keep the references. Every administrative request leaves them intact, the
  ids unique and the menus and departments trees.
\<close>

section \<open>Outcomes\<close>

lemma ensure_ok [simp]: "ensure b c st k = ROk x \<longleftrightarrow> b \<and> k = ROk x"
  by (simp add: ensure_def)

lemma fetched_ok [simp]: "fetched v k = ROk x \<longleftrightarrow> (\<exists>r. v = Some r \<and> k r = ROk x)"
  by (cases v) (simp_all add: fetched_def)

lemma res_bind_ok [simp]: "res_bind r k = ROk x \<longleftrightarrow> (\<exists>y. r = ROk y \<and> k y = ROk x)"
  by (cases r) (simp_all add: res_bind_def)

lemma repo_create_ok [simp]:
  "repo_create clash r t = ROk t' \<longleftrightarrow> be_id r \<notin> be_id ` set t \<and> \<not> list_ex clash t \<and> t' = t @ [r]"
  by (auto simp: repo_create_def)

lemma strong_password_ok: "strong_password env pw k = ROk x \<Longrightarrow> k = ROk x"
  by (auto simp: strong_password_def Let_def split: option.splits if_splits)

lemma role_menus_allowed_ok [simp]:
  "role_menus_allowed ms a db k = ROk x
    \<longleftrightarrow> (\<forall>l. ms = Some l \<longrightarrow> validate_menus l db \<and> assignable_menus l a db) \<and> k = ROk x"
  by (cases ms) (auto simp: role_menus_allowed_def)

lemma reassigned_ok [simp]:
  "reassigned u rs a db k = ROk x
    \<longleftrightarrow> (\<forall>l. rs = Some l \<longrightarrow> validate_roles l db \<and> assignable_roles l a db)
        \<and> k (case rs of None \<Rightarrow> db | Some l \<Rightarrow> replace_roles u l db) = ROk x"
  by (cases rs) (auto simp: reassigned_def)

lemma then_redis_ok: "then_redis m r s = (ROk x, s') \<Longrightarrow> r = ROk x \<and> m s = (Some (), s')"
  by (auto simp: then_redis_def split: res.splits prod.splits option.splits)

lemma effect_ok: "effect r = (ROk (u, d, hs), s) \<Longrightarrow> \<exists>x. r = (ROk (x, d, hs), s)"
  by (auto simp: effect_def split: res.splits prod.splits)

lemma set_dict_fromkeys [simp]: "set (dict_fromkeys xs) = set xs"
  by (simp add: dict_fromkeys_def)

lemma distinct_dict_fromkeys [simp]: "distinct (dict_fromkeys xs)"
  by (simp add: dict_fromkeys_def)

section \<open>References\<close>

definition links_ok :: "identity_db \<Rightarrow> bool" where
  "links_ok db \<longleftrightarrow>
     (\<forall>(u, r) \<in> set (id_user_roles db). live (id_users db) u \<and> live (id_roles db) r)
     \<and> (\<forall>(r, m) \<in> set (id_role_menus db). live (id_roles db) r \<and> live (id_menus db) m)
     \<and> (\<forall>u \<in> set (id_users db). \<forall>d. \<not> be_is_deleted u \<and> us_department_id u = Some d \<longrightarrow> live (id_departments db) d)"

definition db_ok :: "identity_db \<Rightarrow> bool" where
  "db_ok db \<longleftrightarrow>
     distinct (map be_id (id_users db)) \<and> distinct (map be_id (id_roles db)) \<and> mt.tree_ok (id_menus db)
     \<and> dt.tree_ok (id_departments db) \<and> links_ok db"

lemma db_okD:
  assumes "db_ok db"
  shows "distinct (map be_id (id_users db))" "distinct (map be_id (id_roles db))" "mt.tree_ok (id_menus db)"
    "dt.tree_ok (id_departments db)" "links_ok db"
  using assms by (simp_all add: db_ok_def)

lemma linksD:
  assumes "links_ok db"
  shows "(u, r) \<in> set (id_user_roles db) \<Longrightarrow> live (id_users db) u"
    "(u, r) \<in> set (id_user_roles db) \<Longrightarrow> live (id_roles db) r"
    "(r, m) \<in> set (id_role_menus db) \<Longrightarrow> live (id_roles db) r"
    "(r, m) \<in> set (id_role_menus db) \<Longrightarrow> live (id_menus db) m"
    "x \<in> set (id_users db) \<Longrightarrow> \<not> be_is_deleted x \<Longrightarrow> us_department_id x = Some d \<Longrightarrow> live (id_departments db) d"
  using assms by (auto simp: links_ok_def)

text \<open>Tables that are replaced by ones in which everything referred to is still alive.\<close>

lemma links_okI:
  assumes ok: "links_ok db"
    and "\<And>u r. (u, r) \<in> set (id_user_roles db') \<Longrightarrow> (u, r) \<in> set (id_user_roles db) \<or> (live (id_users db') u \<and> live (id_roles db') r)"
    and "\<And>u r. (u, r) \<in> set (id_user_roles db') \<Longrightarrow> live (id_users db) u \<Longrightarrow> live (id_users db') u"
    and "\<And>u r. (u, r) \<in> set (id_user_roles db') \<Longrightarrow> live (id_roles db) r \<Longrightarrow> live (id_roles db') r"
    and "\<And>r m. (r, m) \<in> set (id_role_menus db') \<Longrightarrow> (r, m) \<in> set (id_role_menus db) \<or> (live (id_roles db') r \<and> live (id_menus db') m)"
    and "\<And>r m. (r, m) \<in> set (id_role_menus db') \<Longrightarrow> live (id_roles db) r \<Longrightarrow> live (id_roles db') r"
    and "\<And>r m. (r, m) \<in> set (id_role_menus db') \<Longrightarrow> live (id_menus db) m \<Longrightarrow> live (id_menus db') m"
    and "\<And>x d. x \<in> set (id_users db') \<Longrightarrow> \<not> be_is_deleted x \<Longrightarrow> us_department_id x = Some d \<Longrightarrow> live (id_departments db') d"
  shows "links_ok db'"
proof -
  have ur: "live (id_users db') u \<and> live (id_roles db') r" if "(u, r) \<in> set (id_user_roles db')" for u r
    using assms(2) [OF that] assms(3) [OF that] assms(4) [OF that] linksD(1,2) [OF ok] by blast
  have rm: "live (id_roles db') r \<and> live (id_menus db') m" if "(r, m) \<in> set (id_role_menus db')" for r m
    using assms(5) [OF that] assms(6) [OF that] assms(7) [OF that] linksD(3,4) [OF ok] by blast
  show ?thesis unfolding links_ok_def using ur rm assms(8) by auto
qed

subsection \<open>Users\<close>

lemma replace_roles_sel [simp]:
  "id_users (replace_roles u rs db) = id_users db" "id_roles (replace_roles u rs db) = id_roles db"
  "id_menus (replace_roles u rs db) = id_menus db" "id_departments (replace_roles u rs db) = id_departments db"
  "id_role_menus (replace_roles u rs db) = id_role_menus db"
  "set (id_user_roles (replace_roles u rs db)) = {l \<in> set (id_user_roles db). fst l \<noteq> u} \<union> Pair u ` set rs"
  by (simp_all add: replace_roles_def)

lemma replace_menus_sel [simp]:
  "id_users (replace_menus r ms db) = id_users db" "id_roles (replace_menus r ms db) = id_roles db"
  "id_menus (replace_menus r ms db) = id_menus db" "id_departments (replace_menus r ms db) = id_departments db"
  "id_user_roles (replace_menus r ms db) = id_user_roles db"
  "set (id_role_menus (replace_menus r ms db)) = {l \<in> set (id_role_menus db). fst l \<noteq> r} \<union> Pair r ` set ms"
  by (simp_all add: replace_menus_def)

lemma delete_user_links_sel [simp]:
  "id_users (delete_user_links r db) = id_users db" "id_roles (delete_user_links r db) = id_roles db"
  "id_menus (delete_user_links r db) = id_menus db" "id_departments (delete_user_links r db) = id_departments db"
  "id_role_menus (delete_user_links r db) = id_role_menus db"
  "set (id_user_roles (delete_user_links r db)) = {l \<in> set (id_user_roles db). snd l \<noteq> r}"
  by (simp_all add: delete_user_links_def)

lemma update_user_row_sel [simp]:
  "id_users (update_user_row i f db) = update_row i f (id_users db)" "id_roles (update_user_row i f db) = id_roles db"
  "id_menus (update_user_row i f db) = id_menus db" "id_departments (update_user_row i f db) = id_departments db"
  "id_role_menus (update_user_row i f db) = id_role_menus db" "id_user_roles (update_user_row i f db) = id_user_roles db"
  by (simp_all add: update_user_row_def)

lemma valid_roles_live: "validate_roles rs db \<Longrightarrow> r \<in> set rs \<Longrightarrow> live (id_roles db) r"
  by (force simp: validate_roles_def live_def active_role_def)

lemma valid_menus_live: "validate_menus ms db \<Longrightarrow> m \<in> set ms \<Longrightarrow> live (id_menus db) m"
  by (force simp: validate_menus_def existing_menu_ids_def live_def split: if_splits)

lemma valid_department_live: "validate_department (Some d) db \<Longrightarrow> live (id_departments db) d"
  using repo_get_live by (auto simp: validate_department_def)

lemma db_ok_replace_roles:
  assumes ok: "db_ok db" and "rs = [] \<or> live (id_users db) u" "\<And>r. r \<in> set rs \<Longrightarrow> live (id_roles db) r"
  shows "db_ok (replace_roles u rs db)"
proof -
  have "links_ok (replace_roles u rs db)"
    using db_okD(5) [OF ok] by (rule links_okI) (use assms(2,3) linksD(5) [OF db_okD(5) [OF ok]] in auto)
  then show ?thesis using ok by (simp add: db_ok_def)
qed

lemma db_ok_replace_menus:
  assumes ok: "db_ok db" and "ms = [] \<or> live (id_roles db) r" "\<And>m. m \<in> set ms \<Longrightarrow> live (id_menus db) m"
  shows "db_ok (replace_menus r ms db)"
proof -
  have "links_ok (replace_menus r ms db)"
    using db_okD(5) [OF ok] by (rule links_okI) (use assms(2,3) linksD(5) [OF db_okD(5) [OF ok]] in auto)
  then show ?thesis using ok by (simp add: db_ok_def)
qed

lemma db_ok_delete_user_links: "db_ok db \<Longrightarrow> db_ok (delete_user_links r db)"
  unfolding db_ok_def using links_okI [of db "delete_user_links r db"] linksD(5) [of db] by auto

text \<open>A row that is updated without its id, its deletion mark or a dangling department.\<close>

lemma db_ok_update_user:
  assumes ok: "db_ok db" and f: "\<And>r. be_id (f r) = be_id r" "\<And>r. be_is_deleted (f r) = be_is_deleted r"
    and d: "\<And>x d. x \<in> set (id_users db) \<Longrightarrow> us_department_id (f x) = Some d \<Longrightarrow> us_department_id x = Some d \<or> live (id_departments db) d"
  shows "db_ok (update_user_row i f db)"
proof -
  have "live (id_departments db) d" if "x \<in> set (update_row i f (id_users db))" "\<not> be_is_deleted x" "us_department_id x = Some d" for x d
  proof -
    from that(1) obtain y where "y \<in> set (id_users db)" "x = (if be_id y = i then f y else y)" by (auto simp: update_row_def)
    then show ?thesis using that(2,3) f d linksD(5) [OF db_okD(5) [OF ok], of y d] by (auto split: if_splits)
  qed
  then have "links_ok (update_user_row i f db)"
    by - (rule links_okI [OF db_okD(5) [OF ok]], simp_all add: live_update_row [OF f])
  then show ?thesis using ok by (simp add: db_ok_def ids_update_row [OF f(1)])
qed

lemma db_ok_new_user:
  assumes ok: "db_ok db" and "be_id u \<notin> be_id ` set (id_users db)" and "validate_department (us_department_id u) db"
  shows "db_ok (db\<lparr>id_users := id_users db @ [u]\<rparr>)"
proof -
  have "links_ok (db\<lparr>id_users := id_users db @ [u]\<rparr>)"
    using db_okD(5) [OF ok] by (rule links_okI) (use assms(3) valid_department_live linksD(5) [OF db_okD(5) [OF ok]] in auto)
  then show ?thesis using ok assms(2) by (auto simp: db_ok_def)
qed

lemma db_ok_delete_user:
  assumes ok: "db_ok db" and "\<And>r. (i, r) \<notin> set (id_user_roles db)"
  shows "db_ok (db\<lparr>id_users := soft_delete_row a i (id_users db)\<rparr>)"
proof -
  have "live (id_departments db) d" if "x \<in> set (soft_delete_row a i (id_users db))" "\<not> be_is_deleted x" "us_department_id x = Some d" for x d
  proof -
    from that(1) obtain y where y: "y \<in> set (id_users db)"
      "x = (if be_id y = i then y\<lparr>be_updated_by := a, be_is_deleted := True\<rparr> else y)"
      unfolding soft_delete_row_def update_row_def set_map by blast
    then have "x = y" using that(2) by (auto split: if_splits)
    then show ?thesis using linksD(5) [OF db_okD(5) [OF ok] y(1)] that(2,3) by simp
  qed
  then have "links_ok (db\<lparr>id_users := soft_delete_row a i (id_users db)\<rparr>)"
    using assms(2) by - (rule links_okI [OF db_okD(5) [OF ok]], auto simp: live_soft_delete)
  then show ?thesis using ok by (simp add: db_ok_def ids_soft_delete)
qed

subsection \<open>Roles and menus\<close>

text \<open>The role table may change as long as no role somebody refers to dies.\<close>

lemma db_ok_roles:
  assumes ok: "db_ok db" and "distinct (map be_id t)"
    and "\<And>r. live (id_roles db) r \<Longrightarrow> (\<exists>u. (u, r) \<in> set (id_user_roles db)) \<or> (\<exists>m. (r, m) \<in> set (id_role_menus db)) \<Longrightarrow> live t r"
  shows "db_ok (db\<lparr>id_roles := t\<rparr>)"
proof -
  have "links_ok (db\<lparr>id_roles := t\<rparr>)"
    using db_okD(5) [OF ok] by (rule links_okI) (simp_all, (blast intro: assms(3) linksD(5) [OF db_okD(5) [OF ok]])+)
  then show ?thesis using ok assms(2) by (simp add: db_ok_def)
qed

lemma db_ok_menus:
  assumes ok: "db_ok db" and "mt.tree_ok t"
    and "\<And>m. live (id_menus db) m \<Longrightarrow> (\<exists>r. (r, m) \<in> set (id_role_menus db)) \<Longrightarrow> live t m"
  shows "db_ok (db\<lparr>id_menus := t\<rparr>)"
proof -
  have "links_ok (db\<lparr>id_menus := t\<rparr>)"
    using db_okD(5) [OF ok] by (rule links_okI) (simp_all, (blast intro: assms(3) linksD(5) [OF db_okD(5) [OF ok]])+)
  then show ?thesis using ok assms(2) by (simp add: db_ok_def)
qed

lemma db_ok_departments:
  assumes ok: "db_ok db" and "dt.tree_ok t"
    and "\<And>x d. x \<in> set (id_users db) \<Longrightarrow> \<not> be_is_deleted x \<Longrightarrow> us_department_id x = Some d \<Longrightarrow> live (id_departments db) d \<Longrightarrow> live t d"
  shows "db_ok (db\<lparr>id_departments := t\<rparr>)"
proof -
  have "links_ok (db\<lparr>id_departments := t\<rparr>)"
    using db_okD(5) [OF ok] by (rule links_okI) (simp_all, (blast intro: assms(3) linksD(5) [OF db_okD(5) [OF ok]])+)
  then show ?thesis using ok assms(2) by (simp add: db_ok_def)
qed

subsection \<open>Batches\<close>

lemma clear_roles_eq: "clear_roles us db = db\<lparr>id_user_roles := [l \<leftarrow> id_user_roles db. fst l \<notin> set us]\<rparr>"
proof (induction us arbitrary: db)
  case (Cons u us)
  then show ?case by (auto simp: replace_roles_def dict_fromkeys_def intro: filter_cong)
qed simp

lemma unlink_roles_eq:
  "unlink_roles rs db = db\<lparr>id_user_roles := [l \<leftarrow> id_user_roles db. snd l \<notin> set rs],
     id_role_menus := [l \<leftarrow> id_role_menus db. fst l \<notin> set rs]\<rparr>"
proof (induction rs arbitrary: db)
  case (Cons r rs)
  then show ?case by (auto simp: replace_menus_def delete_user_links_def dict_fromkeys_def intro: filter_cong)
qed simp

lemma soft_delete_many_rows:
  assumes "soft_delete_many ids t = ((n, missing), t')"
  shows "map be_id t' = map be_id t"
    and "live t' i \<longleftrightarrow> live t i \<and> i \<notin> set ids"
    and "x \<in> set t' \<Longrightarrow> \<not> be_is_deleted x \<Longrightarrow> x \<in> set t"
    and "i \<in> set missing \<longleftrightarrow> i \<in> set ids \<and> \<not> live t i"
proof -
  let ?a = "[be_id r. r \<leftarrow> t, be_id r \<in> set (dict_fromkeys ids), \<not> be_is_deleted r]"
  have t': "t' = map (\<lambda>r. if be_id r \<in> set ?a then r\<lparr>be_is_deleted := True\<rparr> else r) t"
    and m: "missing = sort [i \<leftarrow> dict_fromkeys ids. i \<notin> set ?a]"
    using assms by (simp_all add: soft_delete_many_def Let_def)
  have a: "i \<in> set ?a \<longleftrightarrow> live t i \<and> i \<in> set ids" for i by (auto simp: live_def)
  show "map be_id t' = map be_id t" unfolding t' by simp
  show "live t' i \<longleftrightarrow> live t i \<and> i \<notin> set ids" unfolding t' live_def using a by (auto simp: live_def)
  show "x \<in> set t' \<Longrightarrow> \<not> be_is_deleted x \<Longrightarrow> x \<in> set t" unfolding t' by (auto split: if_splits)
  show "i \<in> set missing \<longleftrightarrow> i \<in> set ids \<and> \<not> live t i" unfolding m using a by auto
qed

lemma drop_menu_ok:
  assumes ok: "db_ok db" and "\<not> menu_in_use i db"
  shows "db_ok (drop_menu a i db)"
proof -
  have "mt.tree_ok (soft_delete_row (Some (au_user_id a)) i (id_menus db))"
    using db_okD(3) [OF ok] by (rule mt.tree_ok_delete) (use assms(2) in \<open>auto simp: menu_in_use_def has_children_def list_ex_iff\<close>)
  moreover have "(r, i) \<notin> set (id_role_menus db)" for r
    using assms(2) by (auto simp: menu_in_use_def is_role_granted_def list_ex_iff)
  ultimately show ?thesis
    unfolding drop_menu_def using ok by (intro db_ok_menus) (auto simp: live_soft_delete)
qed

lemma drop_menus_ok: "drop_menus a is db n sk = (n', sk', db') \<Longrightarrow> db_ok db \<Longrightarrow> db_ok db'"
  by (induction "is" arbitrary: db n sk) (auto split: if_splits dest: drop_menu_ok)

lemma drop_department_ok:
  assumes ok: "db_ok db" and "\<not> department_in_use i db"
  shows "db_ok (drop_department a i db)"
proof -
  have "dt.tree_ok (soft_delete_row (Some (au_user_id a)) i (id_departments db))"
    using db_okD(4) [OF ok] by (rule dt.tree_ok_delete) (use assms(2) in \<open>auto simp: department_in_use_def has_active_children_def list_ex_iff\<close>)
  moreover have "us_department_id x \<noteq> Some i" if "x \<in> set (id_users db)" "\<not> be_is_deleted x" for x
    using assms(2) that by (auto simp: department_in_use_def has_active_members_def list_ex_iff)
  ultimately show ?thesis
    unfolding drop_department_def using ok by (intro db_ok_departments) (auto simp: live_soft_delete)
qed

lemma drop_departments_ok: "drop_departments a is db n sk = (n', sk', db') \<Longrightarrow> db_ok db \<Longrightarrow> db_ok db'"
  by (induction "is" arbitrary: db n sk) (auto split: if_splits dest: drop_department_ok)

section \<open>Every operation keeps them\<close>

lemma create_user_refs:
  assumes "create_user env i p a db s = (ROk (x, db', hs), s')" and ok: "db_ok db"
  shows "db_ok db'"
proof -
  let ?u = "new_user env i p a" and ?db = "db\<lparr>id_users := id_users db @ [new_user env i p a]\<rparr>"
  have v: "validate_department (nu_department_id p) db" "validate_roles (nu_role_ids p) db"
    and n: "be_id ?u \<notin> be_id ` set (id_users db)" and db': "db' = replace_roles i (nu_role_ids p) ?db"
    using assms(1) by (auto simp: create_user_def db_op_def Let_def dest!: strong_password_ok)
  have id: "be_id ?u = i" "\<not> be_is_deleted ?u" "us_department_id ?u = nu_department_id p" by (simp_all add: new_user_def)
  have "db_ok ?db" using ok n v(1) id by (intro db_ok_new_user) simp_all
  then show ?thesis
    unfolding db' using id valid_roles_live [OF v(2)] by (intro db_ok_replace_roles) (simp_all add: live_def)
qed

lemma apply_user_update_sel [simp]:
  "be_id (apply_user_update env p a u) = be_id u" "be_is_deleted (apply_user_update env p a u) = be_is_deleted u"
  "us_department_id (apply_user_update env p a u) = given (up_department_id p) (us_department_id u)"
  by (simp_all add: apply_user_update_def)

lemma update_user_result:
  assumes "update_user env i p a db s = (ROk (x, db', hs), s')"
  obtains u where "repo_get i (id_users db) = Some u" "user_dominance i a db" "department_given (up_department_id p) db"
    "\<And>rs. up_role_ids p = Some rs \<Longrightarrow> validate_roles rs db \<and> assignable_roles rs a db"
    "db' = (case up_role_ids p of None \<Rightarrow> update_user_row i (apply_user_update env p a) db
            | Some rs \<Rightarrow> replace_roles i rs (update_user_row i (apply_user_update env p a) db))"
proof -
  have v: "validate_roles rs (update_user_row i f db) = validate_roles rs db"
    "assignable_roles rs a (update_user_row i f db) = assignable_roles rs a db" for rs f
    unfolding validate_roles_def assignable_roles_def list_permission_codes_for_roles_def list_active_roles_by_ids_def
      update_user_row_def by (simp_all cong: if_cong)
  show ?thesis
    using assms that unfolding update_user_def Let_def
    by (auto split: if_splits dest!: then_redis_ok strong_password_ok simp: v)
qed

lemma update_user_refs:
  assumes "update_user env i p a db s = (ROk (x, db', hs), s')" and ok: "db_ok db"
  shows "db_ok db'"
proof -
  obtain u where u: "repo_get i (id_users db) = Some u" "department_given (up_department_id p) db"
    and rs: "\<And>rs. up_role_ids p = Some rs \<Longrightarrow> validate_roles rs db"
    and db': "db' = (case up_role_ids p of None \<Rightarrow> update_user_row i (apply_user_update env p a) db
            | Some rs \<Rightarrow> replace_roles i rs (update_user_row i (apply_user_update env p a) db))"
    using update_user_result [OF assms(1)] by metis
  let ?db = "update_user_row i (apply_user_update env p a) db"
  have "db_ok ?db"
    using ok u(2) by (intro db_ok_update_user) (auto simp: given_def department_given_def valid_department_live split: option.splits)
  moreover have "live (id_users ?db) i" using u(1) repo_get_live by (auto simp: live_update_row)
  ultimately show ?thesis
    unfolding db' using valid_roles_live [OF rs] by (auto intro!: db_ok_replace_roles split: option.splits)
qed

lemma reset_password_refs: "reset_password env i pw a db s = (ROk (x, db', hs), s') \<Longrightarrow> db_ok db \<Longrightarrow> db_ok db'"
  unfolding reset_password_def by (drule then_redis_ok) (auto dest!: strong_password_ok intro!: db_ok_update_user)

lemma delete_user_refs: "delete_user env i a db s = (ROk (x, db', hs), s') \<Longrightarrow> db_ok db \<Longrightarrow> db_ok db'"
  unfolding delete_user_def
  by (drule then_redis_ok) (auto simp: Let_def intro!: db_ok_delete_user [of "replace_roles i [] db", simplified] db_ok_replace_roles)

lemma batch_delete_users_refs:
  assumes "batch_delete_users env is a db s = (ROk (x, db', hs), s')" and ok: "db_ok db"
  shows "db_ok db'"
proof -
  let ?req = "dict_fromkeys is" and ?ok = "\<lambda>i. user_dominance i a db"
  obtain n missing t where d: "soft_delete_many (filter ?ok ?req) (id_users db) = ((n, missing), t)" by (metis prod.collapse)
  define gone where "gone = [i \<leftarrow> ?req. i \<notin> set (missing @ filter (\<lambda>i. \<not> ?ok i) ?req)]"
  have db': "db' = clear_roles gone (db\<lparr>id_users := t\<rparr>)"
    using assms(1) d by (auto simp: batch_delete_users_def Let_def gone_def dest!: then_redis_ok)
  note rows = soft_delete_many_rows [OF d]
  have kept: "live t u" if "live (id_users db) u" "u \<notin> set gone" for u
    using that rows(2,4) by (auto simp: gone_def)
  have "links_ok db'"
    unfolding db' clear_roles_eq
    by (rule links_okI [OF db_okD(5) [OF ok]]) (auto intro: kept dest: rows(3) linksD(5) [OF db_okD(5) [OF ok]])
  then show ?thesis using ok rows(1) unfolding db' clear_roles_eq by (simp add: db_ok_def)
qed

lemma create_role_refs:
  assumes "create_role i p a db s = (ROk (x, db', hs), s')" and ok: "db_ok db"
  shows "db_ok db'"
proof -
  let ?r = "new_role i p a" and ?db = "db\<lparr>id_roles := id_roles db @ [new_role i p a]\<rparr>"
  have v: "validate_menus (rc_menu_ids p) db" and n: "be_id ?r \<notin> be_id ` set (id_roles db)"
    and db': "db' = replace_menus i (rc_menu_ids p) ?db"
    using assms(1) by (auto simp: create_role_def db_op_def Let_def)
  have "db_ok ?db" using ok n by (intro db_ok_roles) (auto simp: db_ok_def)
  then show ?thesis
    unfolding db' using valid_menus_live [OF v] by (intro db_ok_replace_menus) (simp_all add: live_def new_role_def)
qed

lemma apply_role_update_sel [simp]:
  "be_id (apply_role_update p a r) = be_id r" "be_is_deleted (apply_role_update p a r) = be_is_deleted r"
  "ro_code (apply_role_update p a r) = ro_code r"
  by (simp_all add: apply_role_update_def)

lemma update_role_refs:
  assumes "update_role now i p a db s = (ROk (x, db', hs), s')" and ok: "db_ok db"
  shows "db_ok db'"
proof -
  let ?db = "db\<lparr>id_roles := update_row i (apply_role_update p a) (id_roles db)\<rparr>"
  have r: "repo_get i (id_roles db) \<noteq> None" and ms: "\<And>l. rp_menu_ids p = Some l \<Longrightarrow> validate_menus l db"
    and db': "db' = (case rp_menu_ids p of None \<Rightarrow> ?db | Some ms \<Rightarrow> replace_menus i ms ?db)"
    using assms(1) by (auto simp: update_role_def db_op_def Let_def)
  have "db_ok ?db" using ok by (intro db_ok_roles) (simp_all add: ids_update_row live_update_row db_ok_def)
  moreover have "live (id_roles ?db) i" using r repo_get_live [of i "id_roles db"] by (simp add: live_update_row)
  ultimately show ?thesis
    unfolding db' using valid_menus_live [OF ms] by (auto intro!: db_ok_replace_menus split: option.splits)
qed

lemma db_ok_delete_role:
  assumes "db_ok db"
  shows "db_ok ((delete_user_links i (replace_menus i [] db))\<lparr>id_roles := soft_delete_row act i (id_roles db)\<rparr>)"
proof -
  have "db_ok (delete_user_links i (replace_menus i [] db))"
    using assms by (intro db_ok_delete_user_links db_ok_replace_menus) simp_all
  then show ?thesis by (rule db_ok_roles) (use assms in \<open>auto simp: ids_soft_delete live_soft_delete db_ok_def\<close>)
qed

lemma delete_role_refs: "delete_role now i a db s = (ROk (x, db', hs), s') \<Longrightarrow> db_ok db \<Longrightarrow> db_ok db'"
  by (auto simp: delete_role_def db_op_def Let_def intro!: db_ok_delete_role)

lemma batch_delete_roles_refs:
  assumes "batch_delete_roles now is a db s = (ROk (x, db', hs), s')" and ok: "db_ok db"
  shows "db_ok db'"
proof -
  let ?req = "dict_fromkeys is" and ?ok = "deletable_role a db"
  obtain n missing t where d: "soft_delete_many (filter ?ok ?req) (id_roles db) = ((n, missing), t)" by (metis prod.collapse)
  define gone where "gone = [i \<leftarrow> ?req. i \<notin> set (missing @ filter (\<lambda>i. \<not> ?ok i) ?req)]"
  have db': "db' = unlink_roles gone (db\<lparr>id_roles := t\<rparr>)"
    using assms(1) d by (auto simp: batch_delete_roles_def db_op_def Let_def gone_def)
  note rows = soft_delete_many_rows [OF d]
  have kept: "live t u" if "live (id_roles db) u" "u \<notin> set gone" for u
    using that rows(2,4) by (auto simp: gone_def)
  have "links_ok db'"
    unfolding db' unlink_roles_eq
    by (rule links_okI [OF db_okD(5) [OF ok]]) (auto intro: kept dest: linksD(5) [OF db_okD(5) [OF ok]])
  then show ?thesis using ok rows(1) unfolding db' unlink_roles_eq by (simp add: db_ok_def)
qed

lemma create_menu_refs:
  assumes "create_menu i p a db s = (ROk (x, db', hs), s')" and ok: "db_ok db"
  shows "db_ok db'"
proof -
  have v: "validate_parent (mc_parent_id p) None db = Some True" and n: "be_id (new_menu i p a) \<notin> be_id ` set (id_menus db)"
    and db': "db' = db\<lparr>id_menus := id_menus db @ [new_menu i p a]\<rparr>"
    using assms(1) by (auto simp: create_menu_def db_op_def)
  have "live (id_menus db) q" if "me_parent_id (new_menu i p a) = Some q" for q
    using that v validate_parent_returns [OF db_okD(3) [OF ok], of "mc_parent_id p" None] by (auto simp: new_menu_def)
  then have "mt.tree_ok (id_menus db @ [new_menu i p a])"
    using db_okD(3) [OF ok] n by (intro mt.tree_ok_insert) (simp_all add: new_menu_def)
  then show ?thesis unfolding db' using ok by (intro db_ok_menus) simp_all
qed

lemma apply_menu_update_sel [simp]:
  "be_id (apply_menu_update p a m) = be_id m" "be_is_deleted (apply_menu_update p a m) = be_is_deleted m"
  "me_parent_id (apply_menu_update p a m) = given (mp_parent_id p) (me_parent_id m)"
  by (simp_all add: apply_menu_update_def)

lemma update_menu_refs:
  assumes "update_menu now i p a db = Some (ROk (x, db', hs))" and ok: "db_ok db"
  shows "db_ok db'"
proof -
  have v: "mp_parent_id p = Some parent \<Longrightarrow> validate_parent parent (Some i) db = Some True" for parent
    using assms(1) by (auto simp: update_menu_def split: option.splits)
  have db': "db' = db\<lparr>id_menus := update_row i (apply_menu_update p a) (id_menus db)\<rparr>"
    using assms(1) by (auto simp: update_menu_def update_menu_checked_def Let_def split: option.splits)
  have "mt.tree_ok (update_row i (apply_menu_update p a) (id_menus db))"
  proof (rule mt.tree_ok_move [OF db_okD(3) [OF ok]])
    fix r q assume "me_parent_id (apply_menu_update p a r) = Some q"
    then have "me_parent_id r = Some q \<or> mp_parent_id p = Some (Some q)" by (auto simp: given_def split: option.splits)
    then show "me_parent_id r = Some q \<or> live (id_menus db) q \<and> (q, i) \<notin> (mt.parents (id_menus db))\<^sup>*"
      using v validate_parent_returns [OF db_okD(3) [OF ok], of "Some q" "Some i"] by auto
  qed simp_all
  then show ?thesis unfolding db' using ok by (intro db_ok_menus) (simp_all add: live_update_row)
qed

lemma delete_menu_refs: "delete_menu i a db s = (ROk (x, db', hs), s') \<Longrightarrow> db_ok db \<Longrightarrow> db_ok db'"
  by (auto simp: delete_menu_def db_op_def intro: drop_menu_ok)

lemma batch_delete_menus_refs: "batch_delete_menus is a db s = (ROk (x, db', hs), s') \<Longrightarrow> db_ok db \<Longrightarrow> db_ok db'"
  by (auto simp: batch_delete_menus_def db_op_def Let_def split: prod.splits intro: drop_menus_ok)

lemma create_department_refs:
  assumes "create_department i p a db s = (ROk (x, db', hs), s')" and ok: "db_ok db"
  shows "db_ok db'"
proof -
  have v: "dc_parent_id p = None \<or> repo_get (the (dc_parent_id p)) (id_departments db) \<noteq> None"
    and n: "be_id (new_department i p a) \<notin> be_id ` set (id_departments db)"
    and db': "db' = db\<lparr>id_departments := id_departments db @ [new_department i p a]\<rparr>"
    using assms(1) by (auto simp: create_department_def db_op_def)
  have "live (id_departments db) q" if "de_parent_id (new_department i p a) = Some q" for q
    using that v repo_get_live [of q "id_departments db"] by (simp add: new_department_def)
  then have "dt.tree_ok (id_departments db @ [new_department i p a])"
    using db_okD(4) [OF ok] n by (intro dt.tree_ok_insert) (simp_all add: new_department_def)
  then show ?thesis unfolding db' using ok by (intro db_ok_departments) simp_all
qed

lemma apply_department_update_sel [simp]:
  "be_id (apply_department_update p a d) = be_id d" "be_is_deleted (apply_department_update p a d) = be_is_deleted d"
  "de_parent_id (apply_department_update p a d) = given (dp_parent_id p) (de_parent_id d)"
  by (simp_all add: apply_department_update_def)

lemma update_department_refs:
  assumes "update_department i p a db s = (ROk (x, db', hs), s')" and ok: "db_ok db"
  shows "db_ok db'"
proof -
  have v: "dp_parent_id p = Some parent \<Longrightarrow> validate_reparent i parent db" for parent
    using assms(1) by (auto simp: update_department_def db_op_def)
  have db': "db' = db\<lparr>id_departments := update_row i (apply_department_update p a) (id_departments db)\<rparr>"
    using assms(1) by (auto simp: update_department_def db_op_def)
  have "dt.tree_ok (update_row i (apply_department_update p a) (id_departments db))"
  proof (rule dt.tree_ok_move [OF db_okD(4) [OF ok]])
    fix r q assume "de_parent_id (apply_department_update p a r) = Some q"
    then have "de_parent_id r = Some q \<or> dp_parent_id p = Some (Some q)" by (auto simp: given_def split: option.splits)
    then show "de_parent_id r = Some q \<or> live (id_departments db) q \<and> (q, i) \<notin> (dt.parents (id_departments db))\<^sup>*"
      using v validate_reparent_sound [OF db_okD(4) [OF ok], of i "Some q" q] by auto
  qed simp_all
  then show ?thesis unfolding db' using ok by (intro db_ok_departments) (simp_all add: live_update_row)
qed

lemma delete_department_refs: "delete_department i a db s = (ROk (x, db', hs), s') \<Longrightarrow> db_ok db \<Longrightarrow> db_ok db'"
  by (auto simp: delete_department_def db_op_def intro: drop_department_ok)

lemma batch_delete_departments_refs: "batch_delete_departments is a db s = (ROk (x, db', hs), s') \<Longrightarrow> db_ok db \<Longrightarrow> db_ok db'"
  by (auto simp: batch_delete_departments_def db_op_def Let_def split: prod.splits intro: drop_departments_ok)

lemmas op_refs = create_user_refs update_user_refs reset_password_refs delete_user_refs batch_delete_users_refs
  create_role_refs update_role_refs delete_role_refs batch_delete_roles_refs
  create_menu_refs delete_menu_refs batch_delete_menus_refs
  create_department_refs update_department_refs delete_department_refs batch_delete_departments_refs

lemma perform_refs: "perform env a cmd db s = (ROk (x, db', hs), s') \<Longrightarrow> db_ok db \<Longrightarrow> db_ok db'"
  by (cases cmd) (auto dest!: effect_ok intro: op_refs update_menu_refs split: option.splits)

lemma unit_of_work_ok:
  assumes "unit_of_work c op db s = (r, db', s')"
  shows "db' = db \<or> (\<exists>x hs s1. op db s = (ROk (x, db', hs), s1) \<and> r = ROk x)"
  using assms by (auto simp: unit_of_work_def split: res.splits prod.splits if_splits)

lemma admin_request_cases:
  assumes "admin_request env c a cmd db s = (r, db', s')"
  obtains "db' = db" | hs s1 where "perform env a cmd db s = (ROk ((), db', hs), s1)" "has_permission a (required_permission cmd)"
  using assms unit_of_work_ok [of c "perform env a cmd" db s r db' s'] by (auto simp: admin_request_def split: if_splits)

text \<open>
  C31. The references hold without foreign keys. Whatever administrative requests are made, by whom and in whatever order, accepted, refused or
  rolled back: ids stay unique; every role of a user, menu of a role, department of a user and parent of a menu or department
  is a row that is not deleted; and menus and departments stay free of cycles.
\<close>

theorem references_hold:
  assumes "db_ok db" and "admin_run rs db s = (db', s')"
  shows "db_ok db'"
  using assms
proof (induction rs arbitrary: db s)
  case (Cons q rs)
  obtain env c a cmd where q: "q = (env, c, a, cmd)" by (cases q)
  obtain r db1 s1 where one: "admin_request env c a cmd db s = (r, db1, s1)" by (cases "admin_request env c a cmd db s")
  have "db_ok db1" using one by (cases rule: admin_request_cases) (use Cons.prems(1) perform_refs in auto)
  then show ?case using Cons.IH Cons.prems(2) one q by simp
qed simp

text \<open>
  An update of a menu returns. On menus free of cycles, which the requests keep them, the walk up the ancestors of a new parent
  ends, whatever the update; on a cyclic table it would not.
\<close>

theorem menu_update_returns:
  assumes "db_ok db"
  shows "\<exists>r. update_menu now i p a db = Some r"
proof (cases "mp_parent_id p")
  case (Some parent)
  obtain b where "validate_parent parent (Some i) db = Some b" using validate_parent_returns [OF db_okD(3) [OF assms]] by blast
  then show ?thesis using Some by (auto simp: update_menu_def split: option.split)
qed (auto simp: update_menu_def split: option.split)

text \<open>On rows that lead to one another the walk never returns.\<close>

lemma menu_walk_cycle:
  assumes C: "\<And>m. m \<in> C \<Longrightarrow> case me_parent_id m of None \<Rightarrow> False | Some p \<Rightarrow> p \<noteq> c \<and> (\<exists>m'\<in>C. find (\<lambda>m. be_id m = p) rows = Some m')"
    and "m \<in> C"
  shows "menu_walk rows c m = None"
proof -
  have "\<not> (rows' = rows \<and> c' = c \<and> m' \<in> C)" if "menu_walk rows' c' m' = Some b" for rows' c' m' b
    using that
  proof (rule menu_walk.raw_induct [where P = "\<lambda>rows' c' m' _. \<not> (rows' = rows \<and> c' = c \<and> m' \<in> C)", rotated])
    fix f :: "menu_row list \<Rightarrow> int \<Rightarrow> menu_row \<Rightarrow> bool option" and rows' :: "menu_row list" and c' and m' :: menu_row and y
    assume hyp: "\<And>rows' c' m' y. f rows' c' m' = Some y \<Longrightarrow> \<not> (rows' = rows \<and> c' = c \<and> m' \<in> C)"
      and body: "(case me_parent_id m' of None \<Rightarrow> Some True | Some p \<Rightarrow> if p = c' then Some False
        else case find (\<lambda>m. be_id m = p) rows' of None \<Rightarrow> Some True | Some n \<Rightarrow> f rows' c' n) = Some y"
    show "\<not> (rows' = rows \<and> c' = c \<and> m' \<in> C)"
    proof
      assume e: "rows' = rows \<and> c' = c \<and> m' \<in> C"
      then obtain n where "f rows c n = Some y" "n \<in> C" using C [of m'] body by (auto split: option.splits if_splits)
      then show False using hyp by blast
    qed
  qed
  then show ?thesis using assms(2) by (cases "menu_walk rows c m") auto
qed

text \<open>
  Two requests that check at the same time can close such a cycle: each finds the other's new parent acceptable. A later move
  below the two never returns.
\<close>

definition menu_node :: "int \<Rightarrow> int option \<Rightarrow> menu_row" where
  "menu_node i parent =
     \<lparr>be_id = i, be_is_deleted = False, be_created_by = None, be_create_dept = None, be_updated_by = None, me_name = ''menu'',
      me_parent_id = parent, me_menu_type = ''catalog'', me_perms = None, me_path = None, me_component = None, me_query_param = None,
      me_is_frame = False, me_is_cache = True, me_icon = None, me_sort_order = 0, me_visible = True, me_status = ''active'', me_remark = None\<rparr>"

definition menus_only :: "menu_row list \<Rightarrow> identity_db" where
  "menus_only ms = \<lparr>id_users = [], id_departments = [], id_roles = [], id_menus = ms, id_user_roles = [], id_role_menus = [],
     id_api_keys = [], id_attachs = []\<rparr>"

lemma crossed_moves_hang:
  "validate_parent (Some 2) (Some 1) (menus_only [menu_node 1 None, menu_node 2 None, menu_node 3 None]) = Some True
    \<and> validate_parent (Some 1) (Some 2) (menus_only [menu_node 1 None, menu_node 2 None, menu_node 3 None]) = Some True
    \<and> validate_parent (Some 1) (Some 3) (menus_only [menu_node 1 (Some 2), menu_node 2 (Some 1), menu_node 3 None]) = None"
proof (intro conjI)
  let ?rows = "list_all_menus (menus_only [menu_node 1 (Some 2), menu_node 2 (Some 1), menu_node 3 None])"
  have r: "?rows = [menu_node 1 (Some 2), menu_node 2 (Some 1), menu_node 3 None]"
    by (simp add: list_all_menus_def menus_only_def menu_node_def menu_order_def less_eq_prod_def)
  have "menu_walk ?rows 3 (menu_node 1 (Some 2)) = None"
    unfolding r by (rule menu_walk_cycle [where C = "{menu_node 1 (Some 2), menu_node 2 (Some 1)}"]) (auto simp: menu_node_def)
  then show "validate_parent (Some 1) (Some 3) (menus_only [menu_node 1 (Some 2), menu_node 2 (Some 1), menu_node 3 None]) = None"
    by (simp add: validate_parent_def repo_get_def scalar_def menus_only_def menu_node_def)
  show "validate_parent (Some 2) (Some 1) (menus_only [menu_node 1 None, menu_node 2 None, menu_node 3 None]) = Some True"
    "validate_parent (Some 1) (Some 2) (menus_only [menu_node 1 None, menu_node 2 None, menu_node 3 None]) = Some True"
    by (simp_all add: validate_parent_def repo_get_def scalar_def menus_only_def menu_node_def menu_walk.simps)
qed

section \<open>A small office\<close>

text \<open>A clerk who administers roles and menus, and the user it manages.\<close>

definition clerk :: authenticated_user where
  "clerk = \<lparr>au_user_id = 7, au_department_id = None, au_username = ''clerk'',
     au_permissions = {''system:role:edit'', ''system:menu:edit''}, au_role_codes = {''clerks''}, au_real_name = None,
     au_email = None, au_mobile = None, au_preferred_locale = ''en'', au_avatar = None, au_credential_kind = CK_jwt,
     au_api_key_id = None\<rparr>"

definition role_of :: "int \<Rightarrow> string \<Rightarrow> role_row" where
  "role_of i code = \<lparr>be_id = i, be_is_deleted = False, be_created_by = None, be_create_dept = None, be_updated_by = None,
     ro_name = code, ro_code = code, ro_sort_order = 0, ro_status = ''active'', ro_remark = None\<rparr>"

definition button :: "int \<Rightarrow> string \<Rightarrow> active_status \<Rightarrow> menu_row" where
  "button i code st = (menu_node i None)\<lparr>me_menu_type := ''button'', me_perms := Some code, me_status := active_status_value st\<rparr>"

definition user_of :: "int \<Rightarrow> string \<Rightarrow> user_row" where
  "user_of i n = \<lparr>be_id = i, be_is_deleted = False, be_created_by = None, be_create_dept = None, be_updated_by = None,
     us_username = n, us_employee_no = n, us_real_name = None, us_email = None, us_mobile = None, us_password = None,
     us_department_id = None, us_avatar = None, us_status = ''active'', us_preferred_locale = ''en'', us_remark = None\<rparr>"

definition office :: identity_db where
  "office = \<lparr>id_users = [user_of 7 ''clerk'', user_of 8 ''guest''], id_departments = [], id_roles = [role_of 1 ''clerks'', role_of 2 ''guests''],
     id_menus = [button 11 ''system:role:edit'' AS_active, button 12 ''system:menu:edit'' AS_active, button 13 ''system:user:remove'' AS_active],
     id_user_roles = [(7, 1), (8, 2)], id_role_menus = [(1, 11), (1, 12), (2, 11)], id_api_keys = [], id_attachs = []\<rparr>"

definition no_menu_update :: menu_update where
  "no_menu_update = \<lparr>mp_name = None, mp_parent_id = None, mp_menu_type = None, mp_perms = None, mp_path = None, mp_component = None,
     mp_query_param = None, mp_is_frame = None, mp_is_cache = None, mp_icon = None, mp_sort_order = None, mp_visible = None,
     mp_status = None, mp_remark = None\<rparr>"

definition no_role_update :: role_update where
  "no_role_update = \<lparr>rp_name = None, rp_sort_order = None, rp_status = None, rp_remark = None, rp_menu_ids = None\<rparr>"

lemmas office_defs = office_def clerk_def role_of_def button_def user_of_def menu_node_def no_menu_update_def no_role_update_def

lemma office_ok: "db_ok office"
proof -
  have p: "mt.parents (id_menus office) = {}" "id_departments office = []" by (auto simp: office_defs mt.parents_def)
  then have "mt.tree_ok (id_menus office)" "dt.tree_ok (id_departments office)"
    by (simp_all add: mt.tree_ok_def dt.tree_ok_def dt.parents_def acyclic_def, simp add: office_defs)
  moreover have "links_ok office" by (simp add: links_ok_def live_def office_defs)
  moreover have "distinct (map be_id (id_users office))" "distinct (map be_id (id_roles office))" by (simp_all add: office_defs)
  ultimately show ?thesis by (simp add: db_ok_def)
qed

text \<open>An environment that hashes a password by a prefix.\<close>

definition office_env :: auth_env where
  "office_env = \<lparr>en_now = 0, en_login_at = ''10:00'',
     en_policy = \<lparr>tp_max_failures = 3, tp_lockout_seconds = 900, tp_failure_window_seconds = 900, tp_ip_max_failures = 5,
       tp_ip_window_seconds = 900\<rparr>,
     en_access_ttl = 900, en_refresh_ttl = 604800, en_perm_ttl = 300, en_password_min_length = 8,
     en_verify = (\<lambda>h p. h = CHR ''#'' # p), en_hash = (\<lambda>p. CHR ''#'' # p), en_sign = (\<lambda>u. Some (''token'', ''jti'')),
     en_jwt = (\<lambda>t. None), en_claims = (\<lambda>c. None), en_refresh_text = ''refresh'', en_sha = id, en_audit_ok = True\<rparr>"

lemma references_hold_witness:
  "db_ok (fst (admin_run [(office_env, True, clerk, UpdateRole 2 (no_role_update\<lparr>rp_menu_ids := Some [12]\<rparr>)),
     (office_env, True, clerk, DeleteMenu 12)] office empty_redis))"
  using references_hold [OF office_ok prod.collapse [symmetric]] .

lemma menu_update_returns_witness:
  "\<exists>r. update_menu 0 13 (no_menu_update\<lparr>mp_parent_id := Some (Some 11)\<rparr>) clerk office = Some r"
  by (rule menu_update_returns [OF office_ok])

end
