(* ===== verification/PrivilegeFacts.thy ===== *)
theory PrivilegeFacts
  imports ReferenceFacts
begin

text \<open>
  Nobody gains power the requests' actors do not have. A request by an actor who is not a super-admin leaves every user with at most
  the permissions it had and the actor's, and makes no super-admin; whoever it changes was dominated by the actor.
\<close>

section \<open>Power\<close>

definition super_role :: "identity_db \<Rightarrow> int \<Rightarrow> bool" where
  "super_role db r \<longleftrightarrow> (\<exists>x\<in>set (id_roles db). be_id x = r \<and> active_role x \<and> ro_code x = SUPERADMIN_ROLE_CODE)"

lemma super_iff: "SUPERADMIN_ROLE_CODE \<in> list_active_role_codes u db \<longleftrightarrow> (\<exists>r. (u, r) \<in> set (id_user_roles db) \<and> super_role db r)"
  by (auto simp: role_codes_iff super_role_def)

text \<open>From \<open>db\<close> to \<open>db'\<close> users gain at most \<open>P\<close>.\<close>

definition bounded_gain :: "string set \<Rightarrow> identity_db \<Rightarrow> identity_db \<Rightarrow> bool" where
  "bounded_gain P db db' \<longleftrightarrow>
     (\<forall>u. list_permission_codes u db' \<subseteq> list_permission_codes u db \<union> P
        \<and> (SUPERADMIN_ROLE_CODE \<in> list_active_role_codes u db' \<longrightarrow> SUPERADMIN_ROLE_CODE \<in> list_active_role_codes u db))"

lemma bounded_refl [simp]: "bounded_gain P db db"
  by (auto simp: bounded_gain_def)

lemma bounded_trans: "bounded_gain P db1 db2 \<Longrightarrow> bounded_gain P db2 db3 \<Longrightarrow> bounded_gain P db1 db3"
  unfolding bounded_gain_def by blast

lemma bounded_mono: "bounded_gain P db db' \<Longrightarrow> P \<subseteq> P' \<Longrightarrow> bounded_gain P' db db'"
  unfolding bounded_gain_def by blast

text \<open>It is enough that a new role of a user confers nothing beyond \<open>P\<close>, and that a role already held confers no more than before.\<close>

definition harmless :: "string set \<Rightarrow> identity_db \<Rightarrow> int \<Rightarrow> bool" where
  "harmless P db r \<longleftrightarrow> (\<forall>c. confers db r c \<longrightarrow> c \<in> P) \<and> \<not> super_role db r"

lemma bounded_gainI:
  assumes "\<And>u r. (u, r) \<in> set (id_user_roles db') \<Longrightarrow> (u, r) \<notin> set (id_user_roles db) \<Longrightarrow> harmless P db' r"
    and "\<And>u r c. (u, r) \<in> set (id_user_roles db) \<Longrightarrow> confers db' r c \<Longrightarrow> confers db r c \<or> c \<in> P"
    and "\<And>u r. (u, r) \<in> set (id_user_roles db) \<Longrightarrow> super_role db' r \<Longrightarrow> super_role db r"
  shows "bounded_gain P db db'"
  unfolding bounded_gain_def
proof (intro allI conjI impI subsetI)
  fix u c assume "c \<in> list_permission_codes u db'"
  then obtain r where r: "(u, r) \<in> set (id_user_roles db')" "confers db' r c" by (auto simp: permission_codes_iff)
  show "c \<in> list_permission_codes u db \<union> P"
    using r assms(1) [OF r(1)] assms(2) [of u r c] by (auto simp: permission_codes_iff harmless_def)
next
  fix u assume "SUPERADMIN_ROLE_CODE \<in> list_active_role_codes u db'"
  then obtain r where r: "(u, r) \<in> set (id_user_roles db')" "super_role db' r" by (auto simp: super_iff)
  show "SUPERADMIN_ROLE_CODE \<in> list_active_role_codes u db"
    using r assms(1) [OF r(1)] assms(3) [of u r] by (auto simp: super_iff harmless_def)
qed

lemma confers_cong:
  "id_roles db' = id_roles db \<Longrightarrow> id_menus db' = id_menus db \<Longrightarrow> id_role_menus db' = id_role_menus db \<Longrightarrow> confers db' = confers db"
  by (intro ext) (simp add: confers_def)

lemma super_role_cong: "id_roles db' = id_roles db \<Longrightarrow> super_role db' = super_role db"
  by (intro ext) (simp add: super_role_def)

lemma confersE:
  assumes "confers db r c"
  obtains m where "m \<in> set (id_menus db)" "(r, be_id m) \<in> set (id_role_menus db)" "active_menu m" "me_perms m = Some c" "c \<noteq> []"
    "\<exists>x\<in>set (id_roles db). be_id x = r \<and> active_role x"
  using assms unfolding confers_def by blast

text \<open>What the guards mean.\<close>

lemma assignable_harmless:
  assumes "assignable_roles rs a db" and "\<not> is_superuser a" and "r \<in> set rs"
  shows "harmless (au_permissions a) db r"
proof -
  have ne: "rs \<noteq> []" using assms(3) by auto
  then have c: "list_permission_codes_for_roles rs db \<subseteq> au_permissions a"
    and s: "\<not> list_ex (\<lambda>r. ro_code r = SUPERADMIN_ROLE_CODE) (list_active_roles_by_ids rs db)"
    using assms(1,2) by (simp_all add: assignable_roles_def)
  have "c \<in> au_permissions a" if "confers db r c" for c
    using c that assms(3) permission_codes_for_roles_iff [of c rs db] by blast
  moreover have "\<not> super_role db r"
    using s assms(3) ne by (auto simp: super_role_def list_active_roles_by_ids_def list_ex_iff)
  ultimately show ?thesis by (simp add: harmless_def)
qed

lemma assignable_menus_bound:
  assumes "assignable_menus ms a db" "\<not> is_superuser a" and "m \<in> set (id_menus db)" "be_id m \<in> set ms" "active_menu m" "me_perms m = Some c" "c \<noteq> []"
  shows "c \<in> au_permissions a"
proof -
  have "c \<in> list_permission_codes_for_menus ms db" using assms(3-) by (auto simp: permission_codes_for_menus_iff)
  then show ?thesis using assms(1,2) by (auto simp: assignable_menus_def list_permission_codes_for_menus_def split: if_splits)
qed

section \<open>Each operation\<close>

lemma reassign_bounded:
  assumes "assignable_roles rs a db" "\<not> is_superuser a"
    and "id_roles db' = id_roles db" "id_menus db' = id_menus db" "id_role_menus db' = id_role_menus db"
    and "set (id_user_roles db') \<subseteq> set (id_user_roles db) \<union> Pair u ` set rs"
  shows "bounded_gain (au_permissions a) db db'"
proof (rule bounded_gainI)
  fix v r assume "(v, r) \<in> set (id_user_roles db')" "(v, r) \<notin> set (id_user_roles db)"
  then have "r \<in> set rs" using assms(6) by blast
  then have "harmless (au_permissions a) db r" by (rule assignable_harmless [OF assms(1,2)])
  then show "harmless (au_permissions a) db' r"
    using confers_cong [OF assms(3-5)] super_role_cong [OF assms(3)] by (simp add: harmless_def)
qed (use confers_cong [OF assms(3-5)] super_role_cong [OF assms(3)] in auto)

text \<open>Links that only disappear, and rows that are only deleted.\<close>

lemma shrink_bounded:
  assumes "set (id_user_roles db') \<subseteq> set (id_user_roles db)" "set (id_role_menus db') \<subseteq> set (id_role_menus db)"
    and "\<And>x. x \<in> set (id_roles db') \<Longrightarrow> \<not> be_is_deleted x \<Longrightarrow> x \<in> set (id_roles db)"
    and "\<And>x. x \<in> set (id_menus db') \<Longrightarrow> \<not> be_is_deleted x \<Longrightarrow> x \<in> set (id_menus db)"
  shows "bounded_gain P db db'"
proof (rule bounded_gainI)
  fix r c assume "confers db' r c"
  then show "confers db r c \<or> c \<in> P" using assms(2-4) unfolding confers_def active_role_def active_menu_def by blast
next
  fix r assume "super_role db' r"
  then show "super_role db r" using assms(3) unfolding super_role_def active_role_def by blast
qed (use assms(1) in blast)

lemma soft_deleted_rows: "x \<in> set (soft_delete_row a i t) \<Longrightarrow> \<not> be_is_deleted x \<Longrightarrow> x \<in> set t"
  unfolding soft_delete_row_def update_row_def by (auto split: if_splits)

lemma create_user_bounded:
  assumes "create_user env i p a db s = (ROk (x, db', hs), s')" and "\<not> is_superuser a"
  shows "bounded_gain (au_permissions a) db db'"
proof -
  have "assignable_roles (nu_role_ids p) a db" and db': "db' = replace_roles i (nu_role_ids p) (db\<lparr>id_users := id_users db @ [new_user env i p a]\<rparr>)"
    using assms(1) by (auto simp: create_user_def db_op_def Let_def dest!: strong_password_ok)
  then show ?thesis using assms(2) by (intro reassign_bounded [where rs = "nu_role_ids p" and u = i]) (auto simp: db')
qed

lemma update_user_bounded:
  assumes "update_user env i p a db s = (ROk (x, db', hs), s')" and "\<not> is_superuser a"
  shows "bounded_gain (au_permissions a) db db'"
proof -
  obtain u where rs: "\<And>rs. up_role_ids p = Some rs \<Longrightarrow> assignable_roles rs a db"
    and db': "db' = (case up_role_ids p of None \<Rightarrow> update_user_row i (apply_user_update env p a) db
            | Some rs \<Rightarrow> replace_roles i rs (update_user_row i (apply_user_update env p a) db))"
    using update_user_result [OF assms(1)] by metis
  show ?thesis
  proof (cases "up_role_ids p")
    case None
    then show ?thesis by (intro shrink_bounded) (simp_all add: db')
  next
    case (Some l)
    then show ?thesis using rs assms(2) by (intro reassign_bounded [where rs = l and u = i]) (auto simp: db')
  qed
qed

lemma reset_password_bounded: "reset_password env i pw a db s = (ROk (x, db', hs), s') \<Longrightarrow> bounded_gain P db db'"
  unfolding reset_password_def by (drule then_redis_ok) (auto dest!: strong_password_ok intro!: shrink_bounded)

lemma delete_user_bounded: "delete_user env i a db s = (ROk (x, db', hs), s') \<Longrightarrow> bounded_gain P db db'"
  unfolding delete_user_def by (drule then_redis_ok) (auto simp: Let_def intro!: shrink_bounded)

lemma batch_delete_users_bounded: "batch_delete_users env is a db s = (ROk (x, db', hs), s') \<Longrightarrow> bounded_gain P db db'"
  by (auto simp: batch_delete_users_def Let_def clear_roles_eq split: prod.splits dest!: then_redis_ok intro!: shrink_bounded)

lemma create_role_bounded:
  assumes "create_role i p a db s = (ROk (x, db', hs), s')" and ok: "db_ok db"
  shows "bounded_gain P db db'"
proof (rule bounded_gainI)
  let ?r = "new_role i p a"
  have n: "i \<notin> be_id ` set (id_roles db)" "be_id ?r = i"
    and db': "db' = replace_menus i (rc_menu_ids p) (db\<lparr>id_roles := id_roles db @ [?r]\<rparr>)"
    using assms(1) by (auto simp: create_role_def db_op_def Let_def new_role_def)
  show "(u, r) \<in> set (id_user_roles db') \<Longrightarrow> (u, r) \<notin> set (id_user_roles db) \<Longrightarrow> harmless P db' r" for u r by (simp add: db')
  fix u r c assume "(u, r) \<in> set (id_user_roles db)"
  then have "r \<noteq> i" using n(1) live_in linksD(2) [OF db_okD(5) [OF ok]] by metis
  then show "confers db' r c \<Longrightarrow> confers db r c \<or> c \<in> P" and "super_role db' r \<Longrightarrow> super_role db r"
    using n(2) by (auto simp: db' confers_def super_role_def)
qed

lemma role_row_after:
  assumes "x \<in> set (update_row i (apply_role_update p a) (id_roles db))"
  obtains y where "y \<in> set (id_roles db)" "be_id x = be_id y" "ro_code x = ro_code y" "be_id y \<noteq> i \<Longrightarrow> x = y"
  using assms unfolding update_row_def set_map by fastforce

lemma update_role_bounded:
  assumes "update_role now i p a db s = (ROk (x, db', hs), s')" and ns: "\<not> is_superuser a" and ok: "db_ok db"
  shows "bounded_gain (au_permissions a) db db'"
proof (rule bounded_gainI)
  obtain role where role: "repo_get i (id_roles db) = Some role" "role_dominance role a db"
    and ms: "\<And>l. rp_menu_ids p = Some l \<Longrightarrow> assignable_menus l a db"
    and db': "db' = (case rp_menu_ids p of None \<Rightarrow> db\<lparr>id_roles := update_row i (apply_role_update p a) (id_roles db)\<rparr>
                     | Some l \<Rightarrow> replace_menus i l (db\<lparr>id_roles := update_row i (apply_role_update p a) (id_roles db)\<rparr>))"
    using assms(1) by (auto simp: update_role_def db_op_def Let_def)
  note row = repo_get_Some [OF role(1)]
  have dom: "assignable_code (ro_code role) a" "assignable_menus (list_menu_ids i db) a db"
    using role(2) ns row by (auto simp: role_dominance_def)
  have tables: "id_menus db' = id_menus db" "id_user_roles db' = id_user_roles db"
    "id_roles db' = update_row i (apply_role_update p a) (id_roles db)"
    by (auto simp: db' split: option.split)
  show "(u, r) \<in> set (id_user_roles db') \<Longrightarrow> (u, r) \<notin> set (id_user_roles db) \<Longrightarrow> harmless (au_permissions a) db' r" for u r
    by (simp add: tables)
  fix r c
  show "super_role db r" if s: "super_role db' r"
  proof -
    obtain z where z: "z \<in> set (id_roles db')" "be_id z = r" "active_role z" "ro_code z = SUPERADMIN_ROLE_CODE" using s by (auto simp: super_role_def)
    obtain y where y: "y \<in> set (id_roles db)" "be_id z = be_id y" "ro_code z = ro_code y" "be_id y \<noteq> i \<Longrightarrow> z = y"
      using role_row_after [OF z(1) [unfolded tables]] by metis
    have "be_id y \<noteq> i"
    proof
      assume "be_id y = i"
      then have "y = role" using row y(1) distinct_row [OF db_okD(2) [OF ok]] by simp
      then show False using dom(1) ns y(3) z(4) by (simp add: assignable_code_def)
    qed
    then show ?thesis using y z by (auto simp: super_role_def)
  qed
  show "confers db r c \<or> c \<in> au_permissions a" if conf: "confers db' r c"
  proof -
    obtain z m where z: "z \<in> set (id_roles db')" "be_id z = r" "active_role z"
      and m: "m \<in> set (id_menus db)" "(r, be_id m) \<in> set (id_role_menus db')" "active_menu m" "me_perms m = Some c" "c \<noteq> []"
      using conf by (auto simp: confers_def tables)
    obtain y where y: "y \<in> set (id_roles db)" "be_id z = be_id y" "be_id y \<noteq> i \<Longrightarrow> z = y"
      using role_row_after [OF z(1) [unfolded tables]] by metis
    show ?thesis
    proof (cases "r = i")
      case False
      then have "(r, be_id m) \<in> set (id_role_menus db)" using m(2) by (auto simp: db' split: option.splits)
      then show ?thesis using False y z m by (auto simp: confers_def)
    next
      case True
      show ?thesis
      proof (cases "rp_menu_ids p")
        case None
        then have "be_id m \<in> set (list_menu_ids i db)" using True m(2) by (auto simp: db' list_menu_ids_def)
        then show ?thesis using assignable_menus_bound [OF dom(2) ns m(1) _ m(3-5)] by blast
      next
        case (Some l)
        then have "be_id m \<in> set l" using True m(2) by (auto simp: db')
        then show ?thesis using assignable_menus_bound [OF ms [OF Some] ns m(1) _ m(3-5)] by blast
      qed
    qed
  qed
qed

lemma delete_role_bounded: "delete_role now i a db s = (ROk (x, db', hs), s') \<Longrightarrow> bounded_gain P db db'"
  by (auto simp: delete_role_def db_op_def Let_def dest: soft_deleted_rows intro!: shrink_bounded)

lemma batch_delete_roles_bounded: "batch_delete_roles now is a db s = (ROk (x, db', hs), s') \<Longrightarrow> bounded_gain P db db'"
  by (auto simp: batch_delete_roles_def db_op_def Let_def unlink_roles_eq split: prod.splits
      dest: soft_delete_many_rows(3) intro!: shrink_bounded)

lemma create_menu_bounded:
  assumes "create_menu i p a db s = (ROk (x, db', hs), s')" and ok: "db_ok db"
  shows "bounded_gain P db db'"
proof (rule bounded_gainI)
  have n: "i \<notin> be_id ` set (id_menus db)" and db': "db' = db\<lparr>id_menus := id_menus db @ [new_menu i p a]\<rparr>"
    using assms(1) by (auto simp: create_menu_def db_op_def new_menu_def)
  show "(u, r) \<in> set (id_user_roles db') \<Longrightarrow> (u, r) \<notin> set (id_user_roles db) \<Longrightarrow> harmless P db' r" for u r by (simp add: db')
  fix r c
  show "super_role db' r \<Longrightarrow> super_role db r" by (simp add: db' super_role_def)
  show "confers db r c \<or> c \<in> P" if conf: "confers db' r c"
  proof -
    obtain m where m: "m \<in> set (id_menus db @ [new_menu i p a])" "(r, be_id m) \<in> set (id_role_menus db)" "active_menu m" "me_perms m = Some c" "c \<noteq> []"
      and r: "\<exists>x\<in>set (id_roles db). be_id x = r \<and> active_role x"
      using conf unfolding db' by (elim confersE) simp
    have "be_id m \<noteq> i" using m(2) n live_in linksD(4) [OF db_okD(5) [OF ok]] by metis
    then have "m \<in> set (id_menus db)" using m(1) by (auto simp: new_menu_def)
    then show ?thesis using m r by (auto simp: confers_def)
  qed
qed

text \<open>An update of a menu that enables it without naming its permission code.\<close>

definition enables_only :: "menu_update \<Rightarrow> bool" where
  "enables_only p \<longleftrightarrow> mp_status p = Some AS_active \<and> mp_perms p = None"

lemma update_menu_bounded:
  assumes "update_menu now i p a db = Some (ROk (x, db', hs))" and ns: "\<not> is_superuser a" and ok: "db_ok db" and "\<not> enables_only p"
  shows "bounded_gain (au_permissions a) db db'"
proof (rule bounded_gainI)
  obtain menu where menu: "repo_get i (id_menus db) = Some menu"
    and perms: "mp_perms p = None \<or> assignable_perms (given (mp_perms p) (me_perms menu)) a"
    and db': "db' = db\<lparr>id_menus := update_row i (apply_menu_update p a) (id_menus db)\<rparr>"
    using assms(1) by (auto simp: update_menu_def update_menu_checked_def Let_def split: option.splits)
  show "(u, r) \<in> set (id_user_roles db') \<Longrightarrow> (u, r) \<notin> set (id_user_roles db) \<Longrightarrow> harmless (au_permissions a) db' r" for u r by (simp add: db')
  fix r c
  show "super_role db' r \<Longrightarrow> super_role db r" by (simp add: db' super_role_def)
  show "confers db r c \<or> c \<in> au_permissions a" if conf: "confers db' r c"
  proof -
    obtain m where m: "m \<in> set (update_row i (apply_menu_update p a) (id_menus db))" "(r, be_id m) \<in> set (id_role_menus db)"
        "active_menu m" "me_perms m = Some c" "c \<noteq> []"
      and r: "\<exists>x\<in>set (id_roles db). be_id x = r \<and> active_role x"
      using conf unfolding db' by (elim confersE) simp
    obtain y where y: "y \<in> set (id_menus db)" "m = (if be_id y = i then apply_menu_update p a y else y)"
      using m(1) unfolding update_row_def set_map by blast
    show ?thesis
    proof (cases "be_id y = i \<and> mp_perms p \<noteq> None")
      case True
      then have "given (mp_perms p) (me_perms menu) = Some c" using y(2) m(4) by (auto simp: apply_menu_update_def given_def)
      then show ?thesis using True perms m(5) ns by (auto simp: assignable_perms_def truthy_str_def)
    next
      case False
      have st: "be_id y = i \<Longrightarrow> mp_status p = None \<or> mp_status p = Some AS_disabled"
        using False assms(4) by (cases "mp_status p"; cases "the (mp_status p)") (simp_all add: enables_only_def)
      have "y = m \<or> (me_perms y = Some c \<and> be_id y = be_id m \<and> active_menu y)"
      proof (cases "be_id y = i")
        case True
        then have "mp_perms p = None" "m = apply_menu_update p a y" using False y(2) by auto
        then show ?thesis
          using st [OF True] m(3,4) by (elim disjE) (simp_all add: apply_menu_update_def given_def active_menu_def ACTIVE_def)
      qed (use y(2) in simp)
      then show ?thesis using y(1) m r unfolding confers_def by metis
    qed
  qed
qed

section \<open>Every request\<close>

lemma soft_deleted_menus: "x \<in> set (soft_delete_row a i (id_menus db)) \<Longrightarrow> \<not> be_is_deleted x \<Longrightarrow> x \<in> set (id_menus db)"
  by (rule soft_deleted_rows)

lemma drop_menu_bounded: "bounded_gain P db (drop_menu a i db)"
  by (rule shrink_bounded) (auto simp: drop_menu_def dest: soft_deleted_menus)

lemma drop_menus_bounded: "drop_menus a is db n sk = (n', sk', db') \<Longrightarrow> bounded_gain P db db'"
proof (induction "is" arbitrary: db n sk)
  case (Cons i "is")
  show ?case
  proof (cases "repo_get i (id_menus db) = None \<or> menu_in_use i db")
    case True
    then show ?thesis using Cons by simp
  next
    case False
    then have "drop_menus a is (drop_menu a i db) (n + 1) sk = (n', sk', db')" using Cons.prems by auto
    then have "bounded_gain P (drop_menu a i db) db'" by (rule Cons.IH)
    then show ?thesis using bounded_trans drop_menu_bounded by blast
  qed
qed simp

text \<open>Operations on departments leave all that confers anything alone.\<close>

lemma same_power:
  "id_roles db' = id_roles db \<Longrightarrow> id_menus db' = id_menus db \<Longrightarrow> id_role_menus db' = id_role_menus db
    \<Longrightarrow> id_user_roles db' = id_user_roles db \<Longrightarrow> bounded_gain P db db'"
  by (rule shrink_bounded) simp_all

lemma drop_departments_power:
  "drop_departments a is db n sk = (n', sk', db') \<Longrightarrow>
     id_roles db' = id_roles db \<and> id_menus db' = id_menus db \<and> id_role_menus db' = id_role_menus db \<and> id_user_roles db' = id_user_roles db"
  by (induction "is" arbitrary: db n sk) (auto simp: drop_department_def split: if_splits)

lemmas op_bounded = create_user_bounded update_user_bounded reset_password_bounded delete_user_bounded batch_delete_users_bounded
  create_role_bounded update_role_bounded delete_role_bounded batch_delete_roles_bounded create_menu_bounded

fun enables_unnamed :: "command \<Rightarrow> bool" where
  "enables_unnamed (UpdateMenu i p) = enables_only p"
| "enables_unnamed _ = False"

lemma perform_bounded:
  assumes "perform env a cmd db s = (ROk (x, db', hs), s')" and "\<not> is_superuser a" "db_ok db" "\<not> enables_unnamed cmd"
  shows "bounded_gain (au_permissions a) db db'"
proof (cases cmd)
  case (UpdateMenu i p)
  then show ?thesis
    using assms update_menu_bounded [of "en_now env" i p a db _ db'] by (auto dest!: effect_ok split: option.splits)
next
  case (DeleteMenu i)
  then show ?thesis using assms(1) drop_menu_bounded by (auto simp: delete_menu_def db_op_def dest!: effect_ok)
next
  case (DeleteMenus ids)
  then show ?thesis
    using assms(1) drop_menus_bounded by (fastforce simp: batch_delete_menus_def db_op_def Let_def dest!: effect_ok split: prod.splits)
next
  case (CreateDepartment i p)
  then show ?thesis using assms(1) by (intro same_power) (auto simp: create_department_def db_op_def dest!: effect_ok)
next
  case (UpdateDepartment i p)
  then show ?thesis using assms(1) by (intro same_power) (auto simp: update_department_def db_op_def dest!: effect_ok)
next
  case (DeleteDepartment i)
  then show ?thesis
    using assms(1) by (intro same_power) (auto simp: delete_department_def drop_department_def db_op_def dest!: effect_ok)
next
  case (DeleteDepartments ids)
  then obtain n sk where "drop_departments a (dict_fromkeys ids) db 0 [] = (n, sk, db')"
    using assms(1) by (auto simp: batch_delete_departments_def db_op_def Let_def dest!: effect_ok split: prod.splits)
  then show ?thesis using drop_departments_power by (intro same_power) blast+
qed (use assms in \<open>auto dest!: effect_ok intro: op_bounded\<close>)

text \<open>
  C6. No administrative request hands out power its actor does not have. After any sequence of requests by actors who are no
  super-admins and whose permissions all lie in \<open>P\<close>, a user has at most the permissions it had and those in \<open>P\<close>, and nobody has
  become a super-admin; the only requests left out are updates that enable a menu without naming its permission code.
\<close>

theorem no_privilege_gain:
  assumes "db_ok db" and "admin_run rs db s = (db', s')"
    and "\<And>env c a cmd. (env, c, a, cmd) \<in> set rs \<Longrightarrow> \<not> is_superuser a \<and> au_permissions a \<subseteq> P \<and> \<not> enables_unnamed cmd"
  shows "list_permission_codes u db' \<subseteq> list_permission_codes u db \<union> P
    \<and> (SUPERADMIN_ROLE_CODE \<in> list_active_role_codes u db' \<longrightarrow> SUPERADMIN_ROLE_CODE \<in> list_active_role_codes u db)"
proof -
  have "bounded_gain P db db'"
    using assms
  proof (induction rs arbitrary: db s)
    case (Cons q rs)
    obtain env c a cmd where q: "q = (env, c, a, cmd)" by (cases q)
    obtain r db1 s1 where one: "admin_request env c a cmd db s = (r, db1, s1)" by (cases "admin_request env c a cmd db s")
    have a: "\<not> is_superuser a" "au_permissions a \<subseteq> P" "\<not> enables_unnamed cmd" using Cons.prems(3) [of env c a cmd] q by simp_all
    have here: "db_ok db1 \<and> bounded_gain P db db1"
      using one
    proof (cases rule: admin_request_cases)
      case (2 hs s2)
      then show ?thesis using perform_refs Cons.prems(1) bounded_mono [OF perform_bounded] a by blast
    qed (use Cons.prems(1) in simp)
    have "bounded_gain P db1 db'"
    proof (rule Cons.IH)
      show "admin_run rs db1 s1 = (db', s')" using Cons.prems(2) one q by simp
      show "\<not> is_superuser a' \<and> au_permissions a' \<subseteq> P \<and> \<not> enables_unnamed cmd'" if "(env', c', a', cmd') \<in> set rs" for env' c' a' cmd'
        using Cons.prems(3) [of env' c' a' cmd'] that by simp
    qed (use here in simp)
    then show ?case using here bounded_trans by blast
  qed simp
  then show ?thesis by (simp add: bounded_gain_def)
qed

section \<open>Whom an actor may touch\<close>

lemma role_ids_iff: "r \<in> set (list_role_ids u db) \<longleftrightarrow> (u, r) \<in> set (id_user_roles db)"
  unfolding list_role_ids_def by force

lemma codes_for_own_roles: "list_permission_codes_for_roles (list_role_ids u db) db = list_permission_codes u db"
  unfolding set_eq_iff permission_codes_for_roles_iff permission_codes_iff bex_simps role_ids_iff Bex_def by blast

definition dominated :: "identity_db \<Rightarrow> authenticated_user \<Rightarrow> int \<Rightarrow> bool" where
  "dominated db a u \<longleftrightarrow>
     list_permission_codes u db \<subseteq> au_permissions a \<and> SUPERADMIN_ROLE_CODE \<notin> list_active_role_codes u db"

lemma user_dominanceD:
  assumes "user_dominance u a db" "\<not> is_superuser a"
  shows "dominated db a u"
proof -
  have "harmless (au_permissions a) db r" if "(u, r) \<in> set (id_user_roles db)" for r
    using assms that role_ids_iff by (intro assignable_harmless [of "list_role_ids u db"]) (auto simp: user_dominance_def)
  then show ?thesis unfolding dominated_def harmless_def subset_iff permission_codes_iff super_iff by blast
qed

lemma update_row_touches: "x \<in> set t \<Longrightarrow> x \<notin> set (update_row i f t) \<Longrightarrow> be_id x = i"
  unfolding update_row_def set_map by (rule ccontr) (auto simp: image_iff)

lemma soft_delete_touches: "x \<in> set t \<Longrightarrow> x \<notin> set (soft_delete_row a i t) \<Longrightarrow> be_id x = i"
  unfolding soft_delete_row_def by (rule update_row_touches)

lemma map_keeps: "x \<in> set t \<Longrightarrow> f x = x \<Longrightarrow> x \<in> set (map f t)"
  by (metis image_eqI set_map)

lemma soft_delete_many_touches:
  assumes "soft_delete_many ids t = (n, t')" "x \<in> set t" "x \<notin> set t'"
  shows "be_id x \<in> set ids"
proof (rule ccontr)
  assume "be_id x \<notin> set ids"
  then have "be_id x \<notin> set [be_id r. r \<leftarrow> t, be_id r \<in> set (dict_fromkeys ids), \<not> be_is_deleted r]" by (auto simp: dict_fromkeys_def)
  then have "x \<in> set t'"
    using assms(1,2) by (auto simp only: soft_delete_many_def Let_def prod.inject intro!: map_keeps if_not_P)
  then show False using assms(3) by simp
qed

text \<open>The other operations do not write to the table of users.\<close>

lemma drop_departments_users: "drop_departments a is db n sk = (n', sk', db') \<Longrightarrow> id_users db' = id_users db"
  by (induction "is" arbitrary: db n sk) (auto simp: drop_department_def split: if_splits)

lemma drop_menus_users: "drop_menus a is db n sk = (n', sk', db') \<Longrightarrow> id_users db' = id_users db"
  by (induction "is" arbitrary: db n sk) (auto simp: drop_menu_def split: if_splits)

lemma perform_touches:
  assumes "perform env a cmd db s = (ROk (y, db', hs), s')" "x \<in> set (id_users db)" "x \<notin> set (id_users db')"
  shows "user_dominance (be_id x) a db"
proof (cases cmd)
  case (CreateUser i p)
  then show ?thesis using assms by (auto simp: create_user_def db_op_def Let_def dest!: effect_ok strong_password_ok)
next
  case (UpdateUser i p)
  then obtain z where "update_user env i p a db s = (ROk (z, db', hs), s')" using assms(1) by (auto dest!: effect_ok)
  then show ?thesis using assms(2,3) update_row_touches by (elim update_user_result) (auto split: option.splits)
next
  case (ResetPassword i pw)
  then have "user_dominance i a db" "id_users db' = update_row i
      (\<lambda>u. u\<lparr>us_password := Some (en_hash env pw), be_updated_by := Some (au_user_id a)\<rparr>) (id_users db)"
    using assms(1) by (auto simp: reset_password_def dest!: effect_ok then_redis_ok strong_password_ok)
  then show ?thesis using assms(2,3) update_row_touches by metis
next
  case (DeleteUser i)
  then have "user_dominance i a db" "id_users db' = soft_delete_row (Some (au_user_id a)) i (id_users db)"
    using assms(1) by (auto simp: delete_user_def Let_def dest!: effect_ok then_redis_ok)
  then show ?thesis using assms(2,3) soft_delete_touches by metis
next
  case (DeleteUsers ids)
  obtain n t where d: "soft_delete_many (filter (\<lambda>i. user_dominance i a db) (dict_fromkeys ids)) (id_users db) = (n, t)" by fastforce
  then have "id_users db' = t"
    using DeleteUsers assms(1)
    by (auto simp: batch_delete_users_def Let_def clear_roles_eq split: prod.splits dest!: effect_ok then_redis_ok)
  then show ?thesis using soft_delete_many_touches [OF d assms(2)] assms(3) by simp
next
  case (UpdateRole i p)
  then have "id_users db' = id_users db"
    using assms(1) by (auto simp: update_role_def db_op_def Let_def dest!: effect_ok split: option.split)
  then show ?thesis using assms(2,3) by simp
next
  case (UpdateMenu i p)
  then have "id_users db' = id_users db"
    using assms(1) by (auto simp: update_menu_def update_menu_checked_def Let_def dest!: effect_ok split: option.splits)
  then show ?thesis using assms(2,3) by simp
qed (use assms in \<open>auto simp: create_role_def delete_role_def batch_delete_roles_def unlink_roles_eq create_menu_def delete_menu_def
      drop_menu_def batch_delete_menus_def create_department_def update_department_def delete_department_def drop_department_def
      batch_delete_departments_def db_op_def Let_def
      dest!: effect_ok dest: drop_menus_users drop_departments_users split: prod.splits\<close>)

text \<open>
  C7. An administrator touches only users it dominates. If a request by an actor who is no super-admin changes or deletes the row of
  a user (its password, status, e-mail, department), then that user was no super-admin and had no permission the actor lacks.
\<close>

theorem managed_users_dominated:
  assumes "admin_request env c a cmd db s = (r, db', s')" and "\<not> is_superuser a"
    and "x \<in> set (id_users db)" and "x \<notin> set (id_users db')"
  shows "list_permission_codes (be_id x) db \<subseteq> au_permissions a \<and> SUPERADMIN_ROLE_CODE \<notin> list_active_role_codes (be_id x) db"
  using assms(1)
proof (cases rule: admin_request_cases)
  case (2 hs s2)
  then show ?thesis
    using user_dominanceD [OF perform_touches [OF 2(1) assms(3,4)] assms(2)] by (simp add: dominated_def)
qed (use assms(3,4) in simp)

section \<open>Enabling a menu is not gated\<close>

text \<open>
  The exception of the theorem is needed: with the permissions to edit roles and menus alone, the clerk disables the menu of a
  permission it lacks, grants the disabled menu to its own role (a disabled menu confers nothing, so the guard passes) and
  enables it again.
\<close>

definition toggle :: "auth_env \<Rightarrow> (auth_env \<times> bool \<times> authenticated_user \<times> command) list" where
  "toggle env = [(env, True, clerk, UpdateMenu 13 (no_menu_update\<lparr>mp_status := Some AS_disabled\<rparr>)),
     (env, True, clerk, UpdateRole 1 (no_role_update\<lparr>rp_menu_ids := Some [11, 12, 13]\<rparr>)),
     (env, True, clerk, UpdateMenu 13 (no_menu_update\<lparr>mp_status := Some AS_active\<rparr>))]"

lemma menu_toggle_escalates:
  "''system:user:remove'' \<in> list_permission_codes 7 (fst (admin_run (toggle env) office s))
    \<and> ''system:user:remove'' \<notin> list_permission_codes 7 office \<union> au_permissions clerk"
proof -
  let ?m = "\<lambda>st. (button 13 ''system:user:remove'' st)\<lparr>be_updated_by := Some 7\<rparr>"
  let ?ms = "\<lambda>st. [button 11 ''system:role:edit'' AS_active, button 12 ''system:menu:edit'' AS_active, ?m st]"
  let ?db1 = "office\<lparr>id_menus := ?ms AS_disabled\<rparr>"
  let ?db2 = "?db1\<lparr>id_roles := [(role_of 1 ''clerks'')\<lparr>be_updated_by := Some 7\<rparr>, role_of 2 ''guests''],
      id_role_menus := [(2, 11), (1, 11), (1, 12), (1, 13)]\<rparr>"
  have one: "\<exists>r s1. admin_request env True clerk (UpdateMenu 13 (no_menu_update\<lparr>mp_status := Some AS_disabled\<rparr>)) office s = (r, ?db1, s1)"
    by (simp add: admin_request_def has_permission_def is_superuser_def SUPERADMIN_ROLE_CODE_def unit_of_work_def effect_def
        update_menu_def update_menu_checked_def repo_get_def scalar_def menu_type_of_value_def validate_kind_def truthy_str_def
        ensure_def menu_update_fits_def update_row_def apply_menu_update_def given_def given_value_def office_defs cong: if_cong)
  have two: "\<exists>r s1. admin_request env True clerk (UpdateRole 1 (no_role_update\<lparr>rp_menu_ids := Some [11, 12, 13]\<rparr>)) ?db1 s = (r, ?db2, s1)" for s
    by (simp add: admin_request_def has_permission_def is_superuser_def SUPERADMIN_ROLE_CODE_def unit_of_work_def effect_def
        update_role_def db_op_def fetched_def repo_get_def scalar_def role_dominance_def assignable_code_def assignable_menus_def
        list_menu_ids_def subset_iff permission_codes_for_menus_iff active_menu_def ACTIVE_def role_menus_allowed_def
        validate_menus_def existing_menu_ids_def role_update_fits_def apply_role_update_def update_row_def replace_menus_def
        dict_fromkeys_def ensure_def given_def given_value_def office_defs insert_commute cong: if_cong)
  have three: "\<exists>r s1. admin_request env True clerk (UpdateMenu 13 (no_menu_update\<lparr>mp_status := Some AS_active\<rparr>)) ?db2 s
      = (r, ?db2\<lparr>id_menus := ?ms AS_active\<rparr>, s1)" for s
    by (simp add: admin_request_def has_permission_def is_superuser_def SUPERADMIN_ROLE_CODE_def unit_of_work_def effect_def
        update_menu_def update_menu_checked_def repo_get_def scalar_def menu_type_of_value_def validate_kind_def truthy_str_def
        ensure_def menu_update_fits_def update_row_def apply_menu_update_def given_def given_value_def office_defs cong: if_cong)
  obtain r1 s1 where 1: "admin_request env True clerk (UpdateMenu 13 (no_menu_update\<lparr>mp_status := Some AS_disabled\<rparr>)) office s = (r1, ?db1, s1)"
    using one by (elim exE)
  obtain r2 s2 where 2: "admin_request env True clerk (UpdateRole 1 (no_role_update\<lparr>rp_menu_ids := Some [11, 12, 13]\<rparr>)) ?db1 s1 = (r2, ?db2, s2)"
    using two [of s1] by (elim exE)
  obtain r3 s3 where 3: "admin_request env True clerk (UpdateMenu 13 (no_menu_update\<lparr>mp_status := Some AS_active\<rparr>)) ?db2 s2
      = (r3, ?db2\<lparr>id_menus := ?ms AS_active\<rparr>, s3)" using three [of s2] by (elim exE)
  have "fst (admin_run (toggle env) office s) = ?db2\<lparr>id_menus := ?ms AS_active\<rparr>"
    by (simp only: toggle_def admin_run.simps 1 2 3 prod.case fst_conv)
  moreover have "confers (?db2\<lparr>id_menus := ?ms AS_active\<rparr>) 1 ''system:user:remove''"
    by (simp add: confers_def active_role_def active_menu_def ACTIVE_def office_defs)
  moreover have "\<not> confers office r ''system:user:remove''" for r
    by (simp add: confers_def active_role_def active_menu_def ACTIVE_def office_defs)
  ultimately show ?thesis unfolding permission_codes_iff by (auto simp: permission_codes_iff office_defs)
qed

section \<open>The theorems on the office\<close>

lemma no_privilege_gain_witness:
  "list_permission_codes 8 (fst (admin_run [(office_env, True, clerk, UpdateRole 2 (no_role_update\<lparr>rp_menu_ids := Some [12]\<rparr>))] office empty_redis))
      \<subseteq> list_permission_codes 8 office \<union> {''system:role:edit'', ''system:menu:edit''}"
  using no_privilege_gain [OF office_ok prod.collapse [symmetric],
      of "[(office_env, True, clerk, UpdateRole 2 (no_role_update\<lparr>rp_menu_ids := Some [12]\<rparr>))]"
         "{''system:role:edit'', ''system:menu:edit''}" 8 empty_redis]
  by (simp add: clerk_def is_superuser_def SUPERADMIN_ROLE_CODE_def)

definition hr :: authenticated_user where
  "hr = clerk\<lparr>au_permissions := {''system:role:edit'', ''system:user:edit''}\<rparr>"

definition no_user_update :: user_update where
  "no_user_update = \<lparr>up_password = None, up_real_name = None, up_email = None, up_mobile = None, up_department_id = None,
     up_status = None, up_preferred_locale = None, up_remark = None, up_role_ids = None\<rparr>"

lemma managed_users_dominated_witness:
  "list_permission_codes 8 office \<subseteq> {''system:role:edit'', ''system:user:edit''} \<and> SUPERADMIN_ROLE_CODE \<notin> list_active_role_codes 8 office"
proof -
  let ?p = "no_user_update\<lparr>up_real_name := Some (Some ''Ann'')\<rparr>"
  have dom: "user_dominance 8 hr office"
    by (simp add: user_dominance_def assignable_roles_def list_role_ids_def subset_iff permission_codes_for_roles_iff confers_def
        list_active_roles_by_ids_def SUPERADMIN_ROLE_CODE_def active_menu_def active_role_def ACTIVE_def hr_def office_defs)
  obtain r db' s' where req: "admin_request office_env True hr (UpdateUser 8 ?p) office empty_redis = (r, db', s')" by (metis prod.exhaust)
  have get: "repo_get 8 (id_users office) = Some (user_of 8 ''guest'')" by (simp add: repo_get_def scalar_def office_defs)
  have may: "has_permission hr ''system:user:edit''" by (simp add: has_permission_def hr_def)
  have "db' = update_user_row 8 (apply_user_update office_env ?p hr) office"
    using req dom may
    by (auto simp: admin_request_def unit_of_work_def effect_def update_user_def get fetched_def ensure_def strong_password_def
        department_given_def reassigned_def no_user_update_def)
  then have "user_of 8 ''guest'' \<notin> set (id_users db')"
    by (simp add: update_row_def apply_user_update_def hr_def office_defs)
  moreover have "user_of 8 ''guest'' \<in> set (id_users office)" "be_id (user_of 8 ''guest'') = 8" by (simp_all add: office_def user_of_def)
  moreover have "\<not> is_superuser hr" "au_permissions hr = {''system:role:edit'', ''system:user:edit''}"
    by (simp_all add: hr_def clerk_def is_superuser_def SUPERADMIN_ROLE_CODE_def)
  ultimately show ?thesis using managed_users_dominated [OF req, of "user_of 8 ''guest''"] by simp
qed

end
