(* ===== verification/AuthFacts.thy ===== *)
theory AuthFacts
  imports AuthEdge SessionFacts PrivilegeFacts
begin

text \<open>
  What authentication promises: a login does not tell an unknown name from a wrong password, locked names are not checked,
  routes that ask for a permission open only to the token of a live session, keys stay on the model paths, and a changed
  password ends every session.
\<close>

section \<open>Logging in\<close>

text \<open>
  C33. A login does not reveal whether a user exists: with the same Redis state, an unknown (or disabled) name and a known one with
  a wrong password get the same answer, and leave the same counters and locks behind.
\<close>

theorem login_reveals_nothing:
  assumes "get_user_by_username username db = None"
    and "get_user_by_username username db' = Some user" "\<not> password_matches env user password'"
  shows "fst (authenticate_password env username password origin db io) = fst (authenticate_password env username password' origin db' io)
    \<and> io_redis (snd (authenticate_password env username password origin db io))
        = io_redis (snd (authenticate_password env username password' origin db' io))"
  using assms
  by (auto simp: authenticate_password_def with_redis_def refuse_login_def record_login_def login_row_fits_def login_row_def raise_error_def Let_def
      split: option.split prod.split)

section \<open>Resolving a credential\<close>

lemma build_user_ok:
  assumes "build_user env i kind key db io = (ROk u, io')"
  shows "au_user_id u = i \<and> au_credential_kind u = kind \<and> au_api_key_id u = key \<and> (\<exists>row. get_user_by_id i db = Some row)"
  using assms by (auto simp: build_user_def raise_error_def split: option.splits res.splits prod.splits)

lemma resolve_access_token_ok:
  assumes "resolve_access_token env token db io = (ROk u, io')"
  shows "\<exists>claims. decode_access_token env token = Some claims \<and> py_int_of_str (cl_sub claims) = Some (au_user_id u)
    \<and> redis_exists (en_now env) (access_key (cl_jti claims)) (io_redis io) \<and> au_credential_kind u = CK_jwt
    \<and> (\<exists>row. get_user_by_id (au_user_id u) db = Some row)"
proof -
  obtain claims i where c: "decode_access_token env token = Some claims" "py_int_of_str (cl_sub claims) = Some i"
    and r: "with_redis (is_access_active (en_now env) (cl_jti claims)) (\<lambda>active.
                 if \<not> active then raise_error EC_auth_token_revoked 401 else build_user env i CK_jwt None db) io = (ROk u, io')"
    using assms by (auto simp: resolve_access_token_def raise_error_def split: option.splits)
  obtain s where a: "is_access_active (en_now env) (cl_jti claims) (io_redis io) = (Some True, s)"
    and b: "build_user env i CK_jwt None db (io\<lparr>io_redis := s\<rparr>) = (ROk u, io')"
    using r by (auto simp: with_redis_def raise_error_def split: option.splits prod.splits if_splits)
  show ?thesis using c active_done [OF a] build_user_ok [OF b] by auto
qed

lemma resolve_api_key_ok:
  assumes "resolve_api_key env text db io = (ROk u, io')"
  shows "\<exists>k. get_api_key_by_hash (en_sha env text) db = Some k \<and> \<not> api_key_expired (en_now env) (ak_expires_at k)
    \<and> au_user_id u = ak_user_id k \<and> au_credential_kind u = CK_api_key \<and> au_api_key_id u = Some (ak_id k)
    \<and> (\<exists>row. get_user_by_id (au_user_id u) db = Some row)"
  using assms build_user_ok by (fastforce simp: resolve_api_key_def raise_error_def split: option.splits if_splits)

lemma extract_credential_kind:
  assumes "extract_credential authorization x_api_key allow = Some c"
  shows "cr_kind c = CK_api_key \<longrightarrow> allow"
  using assms by (auto simp: extract_credential_def bearer_credential_def Let_def split: if_splits prod.splits)

text \<open>
  A key opens nothing but the model endpoints. When the middleware admits a request as the owner of a key, its path and method
  are among the ones that take keys, the key's digest is that of a key in the table, active and not expired, and its owner is an
  active user.
\<close>

theorem keys_stay_on_model_paths:
  assumes "auth_dispatch env api_prefix req db io = (GoesOn (Some u), io')" and "au_credential_kind u = CK_api_key"
  shows "allows_api_key (strip_api_prefix (hq_path req) api_prefix) (hq_method req)
    \<and> (\<exists>text k. get_api_key_by_hash (en_sha env text) db = Some k \<and> \<not> api_key_expired (en_now env) (ak_expires_at k)
          \<and> au_user_id u = ak_user_id k \<and> au_api_key_id u = Some (ak_id k)
          \<and> (\<exists>row. get_user_by_id (au_user_id u) db = Some row))"
proof -
  let ?allow = "allows_api_key (strip_api_prefix (hq_path req) api_prefix) (hq_method req)"
  have r: "resolve_credential env (hq_authorization req) (hq_x_api_key req) ?allow db io = (ROk u, io')"
    using assms(1) by (auto simp: auth_dispatch_def Let_def split: if_splits prod.splits res.splits)
  obtain c where c: "extract_credential (hq_authorization req) (hq_x_api_key req) ?allow = Some c"
    using r by (auto simp: resolve_credential_def raise_error_def split: option.splits)
  have k: "cr_kind c = CK_api_key"
  proof (rule ccontr)
    assume "cr_kind c \<noteq> CK_api_key"
    then have "resolve_access_token env (cr_value c) db io = (ROk u, io')" using r c by (simp add: resolve_credential_def)
    then show False using resolve_access_token_ok assms(2) by fastforce
  qed
  then have "resolve_api_key env (cr_value c) db io = (ROk u, io')" using r c by (simp add: resolve_credential_def)
  then show ?thesis using resolve_api_key_ok extract_credential_kind [OF c] k by blast
qed

lemma jwt_user_ok:
  assumes "get_current_jwt_user env st req db io = (ROk u, io')"
  shows "(st = Some u \<and> io' = io \<and> au_credential_kind u \<noteq> CK_api_key)
    \<or> (st = None \<and> (\<exists>token. resolve_access_token env token db io = (ROk u, io')))"
  using assms by (auto simp: get_current_jwt_user_def raise_error_def split: option.splits if_splits)


section \<open>The theorems on the office\<close>

definition desk :: login_origin where
  "desk = \<lparr>lo_ip = None, lo_user_agent = None, lo_trace_id = None\<rparr>"

lemma login_reveals_nothing_witness:
  "fst (authenticate_password office_env ''clerk'' ''guess'' desk (office\<lparr>id_users := []\<rparr>) \<lparr>io_redis = empty_redis, io_logs = []\<rparr>)
    = fst (authenticate_password office_env ''clerk'' ''guess'' desk office \<lparr>io_redis = empty_redis, io_logs = []\<rparr>)"
proof -
  have "get_user_by_username ''clerk'' (office\<lparr>id_users := []\<rparr>) = None" by (simp add: get_user_by_username_def scalar_def)
  moreover have "get_user_by_username ''clerk'' office = Some (user_of 7 ''clerk'')"
    by (simp add: get_user_by_username_def scalar_def active_user_def office_def user_of_def)
  moreover have "\<not> password_matches office_env (user_of 7 ''clerk'') ''guess''" by (simp add: password_matches_def user_of_def)
  ultimately show ?thesis using login_reveals_nothing by blast
qed

text \<open>A key of the clerk, and a token of its session.\<close>

definition keyed_office :: identity_db where
  "keyed_office = office\<lparr>id_api_keys := [\<lparr>ak_id = 31, ak_is_deleted = False, ak_user_id = 7, ak_key_hash = ''sk-1'', ak_status = ''active'',
     ak_expires_at = None\<rparr>]\<rparr>"

definition token_env :: auth_env where
  "token_env = office_env\<lparr>en_jwt := (\<lambda>t. Some (JObj [])),
     en_claims := (\<lambda>d. Some \<lparr>cl_sub = ''7'', cl_jti = ''a'', cl_token_use = ''access''\<rparr>)\<rparr>"

definition io_of :: "redis \<Rightarrow> wire list \<Rightarrow> auth_io" where
  "io_of s ws = \<lparr>io_redis = s\<lparr>r_wire := ws\<rparr>, io_logs = []\<rparr>"

lemma build_user_uncached:
  assumes "r_wire (io_redis io) = [WLost]" "get_user_by_id i db = Some row"
  shows "\<exists>u io'. build_user env i kind key db io = (ROk u, io') \<and> au_user_id u = i \<and> au_credential_kind u = kind
    \<and> au_permissions u = list_permission_codes i db \<and> au_role_codes u = list_active_role_codes i db"
  using assms by (simp add: build_user_def load_snapshot_def perm_generations_def rcall_def load_permission_snapshot_def)

lemma clerk_found: "get_user_by_id 7 keyed_office = Some (user_of 7 ''clerk'')"
  by (simp add: get_user_by_id_def scalar_def active_user_def keyed_office_def office_def user_of_def)

lemma keys_stay_on_model_paths_witness:
  "allows_api_key (strip_api_prefix ''/api/v1/models'' ''/api'') ''GET''"
proof -
  let ?req = "\<lparr>hq_method = ''GET'', hq_path = ''/api/v1/models'', hq_authorization = None, hq_x_api_key = Some ''sk-1''\<rparr>"
  have path: "strip_api_prefix ''/api/v1/models'' ''/api'' = ''/v1/models''" by code_simp
  have allow: "allows_api_key ''/v1/models'' ''GET''" "\<not> is_public_path ''/v1/models''" by code_simp+
  have key: "get_api_key_by_hash ''sk-1'' keyed_office = Some \<lparr>ak_id = 31, ak_is_deleted = False, ak_user_id = 7, ak_key_hash = ''sk-1'',
      ak_status = ''active'', ak_expires_at = None\<rparr>"
    by (simp add: get_api_key_by_hash_def scalar_def keyed_office_def)
  obtain u io' where b: "build_user token_env 7 CK_api_key (Some 31) keyed_office (io_of empty_redis [WLost]) = (ROk u, io')"
    and kind: "au_credential_kind u = CK_api_key"
    using build_user_uncached [OF _ clerk_found, of "io_of empty_redis [WLost]" token_env CK_api_key "Some 31"] by (auto simp: io_of_def)
  have "auth_dispatch token_env ''/api'' ?req keyed_office (io_of empty_redis [WLost]) = (GoesOn (Some u), io')"
    using b key
    by (simp add: auth_dispatch_def path allow resolve_credential_def extract_credential_def truthy_str_def resolve_api_key_def
        api_key_expired_def token_env_def office_env_def)
  from keys_stay_on_model_paths [OF this kind] show ?thesis by simp
qed


end
