(* ===== verification/AccountFacts.thy ===== *)
theory AccountFacts
  imports AuthEdge SessionFacts PrivilegeFacts
begin

text \<open>
  Closing an account: every administrative request that changes a user's password, disables or deletes it ends all its sessions
  before it commits, and so does a user's own change of password.
\<close>

section \<open>Revoking several users\<close>

lemma without_users: "fold without_user us f j = (if \<exists>u\<in>set us. f j = Some u then None else f j)"
  by (induction us arbitrary: f) (auto simp: without_user_def)

lemma table_revoke_each:
  "triple (\<lambda>s. indexed A t s \<and> session_table t s = f) (revoke_each t us)
     (\<lambda>_ s. indexed A t s \<and> session_table t s = fold without_user us f) (\<lambda>_. True)"
proof (induction us arbitrary: f)
  case (Cons u us)
  have "triple (\<lambda>s. indexed A t s \<and> session_table t s = f) (revoke_all_sessions t u)
      (\<lambda>_ s. indexed A t s \<and> session_table t s = without_user u f) (\<lambda>_. True)"
    unfolding triple_def
  proof (intro allI impI)
    fix s assume "indexed A t s \<and> session_table t s = f"
    then show "case revoke_all_sessions t u s of (None, s') \<Rightarrow> True
        | (Some x, s') \<Rightarrow> indexed A t s' \<and> session_table t s' = without_user u f"
      using tripleD [OF table_revoke_all [of A t f u], of s] tripleD [OF revoke_all_indexed [of A t u], of s]
      by (auto split: prod.split option.split)
  qed
  from triple_then [OF this Cons.IH] show ?case by simp
qed (auto intro: triple_ret)

lemma table_revoke_one:
  assumes "revoke_all_sessions t u s = (Some (), s')" "indexed A t s"
  shows "indexed A t s' \<and> session_table t s' = fold without_user [u] (session_table t s)"
proof -
  have "session_table t s' = without_user u (session_table t s)"
    using tripleD [OF table_revoke_all [of A t "session_table t s" u] _ assms(1)] assms(2) by simp
  moreover have "indexed A t s'" using tripleD [OF revoke_all_indexed [of A t u] _ assms(1)] assms(2) by simp
  ultimately show ?thesis by simp
qed

section \<open>Hooks\<close>

definition perm_hook :: "hook \<Rightarrow> bool" where
  "perm_hook h \<longleftrightarrow> (\<exists>now i. h = invalidate_user now i \<or> h = invalidate_all now)"

lemma perm_hook_simps [simp]: "perm_hook (invalidate_user now i)" "perm_hook (invalidate_all now)"
  by (auto simp: perm_hook_def)

lemma gen_keys_distinct [simp]:
  "GLOBAL_GEN_KEY \<noteq> access_key j" "user_gen_key i \<noteq> access_key j" "access_key j \<noteq> GLOBAL_GEN_KEY" "access_key j \<noteq> user_gen_key i"
  by (simp_all add: GLOBAL_GEN_KEY_def user_gen_key_def USER_GEN_PREFIX_def access_key_def)

lemma rcall_incr_cell:
  assumes "k \<noteq> k'"
  shows "cell (snd (rcall (redis_incrby now k i) s)) k' = cell s k'"
proof -
  have c: "cell (snd (redis_incrby now k i s)) k' = cell s k'" for s using assms by simp
  show ?thesis
  proof (cases "r_wire s")
    case (Cons w ws)
    then show ?thesis using c by (cases w) (simp_all add: rcall_def case_prod_unfold Let_def)
  qed (simp add: case_prod_unfold c Let_def)
qed

lemma perm_hook_cell: "perm_hook h \<Longrightarrow> cell (h s) (access_key j) = cell s (access_key j)"
  by (auto simp: perm_hook_def invalidate_user_def invalidate_all_def rcall_incr_cell)

lemma run_hooks_cell: "\<forall>h\<in>set hs. perm_hook h \<Longrightarrow> cell (run_hooks hs s) (access_key j) = cell s (access_key j)"
proof (induction hs arbitrary: s)
  case (Cons h hs)
  then show ?case using perm_hook_cell [of h s j] by (simp add: run_hooks_def)
qed (simp add: run_hooks_def)

lemma hooks_table:
  assumes "\<forall>h\<in>set hs. perm_hook h"
  shows "session_table t (run_hooks hs s) = session_table t s" "redis_exists t (access_key j) (run_hooks hs s) = redis_exists t (access_key j) s"
  using session_table_cells [OF run_hooks_cell [OF assms]] cell_eqs(7) [OF run_hooks_cell [OF assms]] by blast+

section \<open>Requests\<close>

text \<open>What a request that succeeds has done to the sessions: those of some users are gone.\<close>

definition gone_for :: "int \<Rightarrow> int \<Rightarrow> int list \<Rightarrow> redis \<Rightarrow> redis \<Rightarrow> bool" where
  "gone_for A t us s s' \<longleftrightarrow> (indexed A t s \<longrightarrow> indexed A t s' \<and> session_table t s' = fold without_user us (session_table t s))"

text \<open>A change of a row that must end the sessions of its user.\<close>

definition closed :: "user_row \<Rightarrow> user_row \<Rightarrow> bool" where
  "closed x y \<longleftrightarrow> active_user x \<and> be_id y = be_id x \<and> (us_password y \<noteq> us_password x \<or> \<not> active_user y)"

lemma not_closed [simp]: "\<not> closed x x"
  by (simp add: closed_def)

lemma closed_update_row:
  assumes "distinct (map be_id t)" "x \<in> set t" "y \<in> set (update_row i f t)" "closed x y" "\<And>r. be_id (f r) = be_id r"
  shows "be_id x = i \<and> y = f x"
proof -
  obtain z where z: "z \<in> set t" "y = (if be_id z = i then f z else z)" using assms(3) by (auto simp: update_row_def)
  then have "be_id z = be_id x" using assms(4,5) by (auto simp: closed_def split: if_splits)
  then have "z = x" using distinct_row [OF assms(1) z(1) assms(2)] by simp
  then show ?thesis using z(2) assms(4) by (auto split: if_splits)
qed

definition ends_sessions :: "int \<Rightarrow> int \<Rightarrow> identity_db \<Rightarrow> redis \<Rightarrow> identity_db \<Rightarrow> redis \<Rightarrow> bool" where
  "ends_sessions A t db s db' s' \<longleftrightarrow>
     (\<exists>us. gone_for A t us s s' \<and> (\<forall>x\<in>set (id_users db). \<forall>y\<in>set (id_users db'). closed x y \<longrightarrow> be_id x \<in> set us))"

lemma ends_sessionsI:
  "gone_for A t us s s' \<Longrightarrow> (\<And>x y. x \<in> set (id_users db) \<Longrightarrow> y \<in> set (id_users db') \<Longrightarrow> closed x y \<Longrightarrow> be_id x \<in> set us)
    \<Longrightarrow> ends_sessions A t db s db' s'"
  unfolding ends_sessions_def by blast

text \<open>Most operations leave the users alone.\<close>

lemma ends_same:
  assumes "distinct (map be_id (id_users db))" "id_users db' = id_users db"
  shows "ends_sessions A t db s db' s"
proof (rule ends_sessionsI [of _ _ "[]"])
  fix x y assume "x \<in> set (id_users db)" "y \<in> set (id_users db')" "closed x y"
  moreover from this have "y = x" using assms distinct_row [OF assms(1)] by (simp add: closed_def)
  ultimately show "be_id x \<in> set []" by simp
qed (simp add: gone_for_def)

lemma ends_new:
  assumes "distinct (map be_id (id_users db))" "id_users db' = id_users db @ [u]" "be_id u \<notin> be_id ` set (id_users db)"
  shows "ends_sessions A t db s db' s"
proof (rule ends_sessionsI [of _ _ "[]"])
  fix x y assume h: "x \<in> set (id_users db)" "y \<in> set (id_users db')" "closed x y"
  then have "y \<in> set (id_users db)" using assms(2,3) by (auto simp: closed_def)
  then have "y = x" using h distinct_row [OF assms(1)] by (simp add: closed_def)
  then show "be_id x \<in> set []" using h by simp
qed (simp add: gone_for_def)

lemma ends_row:
  assumes "distinct (map be_id (id_users db))" "id_users db' = update_row i f (id_users db)" "\<And>r. be_id (f r) = be_id r"
    and "revoke_all_sessions t i s = (Some (), s')"
  shows "ends_sessions A t db s db' s'"
proof (rule ends_sessionsI [of _ _ "[i]"])
  show "gone_for A t [i] s s'" unfolding gone_for_def using table_revoke_one [OF assms(4)] by blast
  fix x y assume "x \<in> set (id_users db)" "y \<in> set (id_users db')" "closed x y"
  then show "be_id x \<in> set [i]" using closed_update_row [of "id_users db" x y i f] assms(1-3) by simp
qed

lemma update_user_ends:
  assumes u: "update_user env i p a db s = (ROk (x0, db', hs), s')" and d: "distinct (map be_id (id_users db))"
  shows "ends_sessions A (en_now env) db s db' s'"
proof -
  have rows: "id_users db' = update_row i (apply_user_update env p a) (id_users db)"
    by (rule update_user_result [OF u], cases "up_role_ids p") simp_all
  show ?thesis
  proof (cases "up_password p \<noteq> None \<or> up_status p = Some Usr_disabled")
    case True
    then have "revoke_all_sessions (en_now env) i s = (Some (), s')"
      using u by (auto simp: update_user_def Let_def dest!: then_redis_ok)
    then show ?thesis by (intro ends_row [OF d rows]) simp_all
  next
    case False
    then have "s' = s" using u by (auto simp: update_user_def Let_def)
    moreover have "\<not> closed x (apply_user_update env p a x)" for x
      using False by (cases "up_status p"; cases "the (up_status p)")
        (auto simp: closed_def apply_user_update_def active_user_def split: option.splits)
    ultimately show ?thesis
      using closed_update_row [OF d _ _ _ apply_user_update_sel(1)] rows
      by (intro ends_sessionsI [of _ _ "[]"]) (fastforce simp: gone_for_def)+
  qed
qed

lemma reset_password_ends:
  "reset_password env i pw a db s = (ROk (x0, db', hs), s') \<Longrightarrow> distinct (map be_id (id_users db))
    \<Longrightarrow> ends_sessions A (en_now env) db s db' s'"
  unfolding reset_password_def by (drule then_redis_ok) (auto dest!: strong_password_ok intro!: ends_row)

lemma delete_user_ends:
  "delete_user env i a db s = (ROk (x0, db', hs), s') \<Longrightarrow> distinct (map be_id (id_users db))
    \<Longrightarrow> ends_sessions A (en_now env) db s db' s'"
  unfolding delete_user_def soft_delete_row_def
  by (drule then_redis_ok) (auto simp: Let_def intro!: ends_row)

lemma batch_delete_users_ends:
  assumes b: "batch_delete_users env ids a db s = (ROk (x0, db', hs), s')" and d: "distinct (map be_id (id_users db))"
  shows "ends_sessions A (en_now env) db s db' s'"
proof -
  let ?req = "dict_fromkeys ids" and ?ok = "\<lambda>i. user_dominance i a db"
  obtain n missing t where del: "soft_delete_many (filter ?ok ?req) (id_users db) = ((n, missing), t)" by (metis prod.collapse)
  define gone where "gone = [i \<leftarrow> ?req. i \<notin> set (missing @ filter (\<lambda>i. \<not> ?ok i) ?req)]"
  have db': "id_users db' = t" and r: "revoke_each (en_now env) gone s = (Some (), s')"
    using b del by (auto simp: batch_delete_users_def Let_def gone_def clear_roles_eq dest!: then_redis_ok)
  note rows = soft_delete_many_rows [OF del]
  have g: "gone_for A (en_now env) gone s s'"
    using tripleD [OF table_revoke_each [of A "en_now env" "session_table (en_now env) s" gone] _ r] by (simp add: gone_for_def)
  show ?thesis
  proof (rule ends_sessionsI [OF g])
    fix x y assume h: "x \<in> set (id_users db)" "y \<in> set (id_users db')" "closed x y"
    have "be_id x \<in> set (filter ?ok ?req)"
    proof (rule ccontr)
      assume n: "be_id x \<notin> set (filter ?ok ?req)"
      then have "x \<in> set t" using soft_delete_many_touches [OF del h(1)] by blast
      moreover have "distinct (map be_id t)" using rows(1) d by simp
      ultimately have "x = y" using h(2,3) distinct_row [of t x y] db' by (simp add: closed_def)
      then show False using h(3) by simp
    qed
    moreover have "live (id_users db) (be_id x)" using h(1,3) by (auto simp: closed_def active_user_def live_def)
    ultimately show "be_id x \<in> set gone" using rows(4) by (auto simp: gone_def)
  qed
qed

lemma update_user_hooks: "update_user env i p a db s = (ROk (x, db', hs), s') \<Longrightarrow> \<forall>h\<in>set hs. perm_hook h"
  by (auto simp: update_user_def Let_def split: if_splits dest!: then_redis_ok strong_password_ok)

lemma delete_user_hooks: "delete_user env i a db s = (ROk (x, db', hs), s') \<Longrightarrow> \<forall>h\<in>set hs. perm_hook h"
  by (auto simp: delete_user_def Let_def dest!: then_redis_ok)

lemma batch_delete_users_hooks: "batch_delete_users env is a db s = (ROk (x, db', hs), s') \<Longrightarrow> \<forall>h\<in>set hs. perm_hook h"
  by (auto simp: batch_delete_users_def Let_def split: prod.splits dest!: then_redis_ok)

lemma role_hooks:
  "update_role now i p' a db s = (ROk (x, db', hs), s') \<Longrightarrow> \<forall>h\<in>set hs. perm_hook h"
  "delete_role now i a db s = (ROk (x1, db', hs), s') \<Longrightarrow> \<forall>h\<in>set hs. perm_hook h"
  "batch_delete_roles now is a db s = (ROk (x2, db', hs), s') \<Longrightarrow> \<forall>h\<in>set hs. perm_hook h"
  by (auto simp: update_role_def delete_role_def batch_delete_roles_def db_op_def Let_def split: if_splits prod.splits)

lemma menu_hooks: "update_menu now i p a db = Some (ROk (x, db', hs)) \<Longrightarrow> \<forall>h\<in>set hs. perm_hook h"
  by (auto simp: update_menu_def update_menu_checked_def Let_def split: if_splits option.splits)

lemma other_hooks:
  "create_user env i cu a db s = (ROk (x, db', hs), s') \<Longrightarrow> hs = []"
  "reset_password env i pw a db s = (ROk (y, db', hs), s') \<Longrightarrow> hs = []"
  "create_role i cr a db s = (ROk (z, db', hs), s') \<Longrightarrow> hs = []"
  "create_menu i cm a db s = (ROk (m, db', hs), s') \<Longrightarrow> hs = []"
  "delete_menu i a db s = (ROk (y, db', hs), s') \<Longrightarrow> hs = []"
  "batch_delete_menus is a db s = (ROk (b, db', hs), s') \<Longrightarrow> hs = []"
  by (auto simp: create_user_def reset_password_def create_role_def create_menu_def delete_menu_def batch_delete_menus_def db_op_def Let_def
      dest!: then_redis_ok strong_password_ok split: prod.splits)

lemma department_hooks:
  "create_department i cd a db s = (ROk (x, db', hs), s') \<Longrightarrow> hs = []"
  "update_department i ud a db s = (ROk (x, db', hs), s') \<Longrightarrow> hs = []"
  "delete_department i a db s = (ROk (y, db', hs), s') \<Longrightarrow> hs = []"
  "batch_delete_departments is a db s = (ROk (b, db', hs), s') \<Longrightarrow> hs = []"
  by (auto simp: create_department_def update_department_def delete_department_def batch_delete_departments_def db_op_def Let_def
      split: prod.splits)

lemma perform_hooks:
  assumes "perform env a cmd db s = (ROk (x, db', hs), s')"
  shows "\<forall>h\<in>set hs. perm_hook h"
proof (cases cmd)
  case (UpdateMenu i p)
  then obtain m where "update_menu (en_now env) i p a db = Some (ROk (m, db', hs))"
    using assms by (auto dest!: effect_ok split: option.splits)
  then show ?thesis by (rule menu_hooks)
qed (use assms in \<open>auto dest!: effect_ok dest: update_user_hooks delete_user_hooks batch_delete_users_hooks role_hooks other_hooks department_hooks\<close>)

lemma db_only [simp]: "db_op f db s = (ROk (x, db', hs), s') \<longleftrightarrow> f db = ROk (x, db', hs) \<and> s' = s"
  by (auto simp: db_op_def)

text \<open>The requests on roles, menus and departments.\<close>

lemma role_ops_same:
  "create_role i cr a db s = (ROk (x, db', hs), s') \<Longrightarrow> s' = s \<and> id_users db' = id_users db"
  "update_role now i ur a db s = (ROk (x, db', hs), s') \<Longrightarrow> s' = s \<and> id_users db' = id_users db"
  "delete_role now i a db s = (ROk (y, db', hs), s') \<Longrightarrow> s' = s \<and> id_users db' = id_users db"
  "batch_delete_roles now is a db s = (ROk (b, db', hs), s') \<Longrightarrow> s' = s \<and> id_users db' = id_users db"
  by (auto simp: create_role_def update_role_def delete_role_def batch_delete_roles_def unlink_roles_eq Let_def split: prod.splits option.split)

lemma menu_ops_same:
  "create_menu i cm a db s = (ROk (x, db', hs), s') \<Longrightarrow> s' = s \<and> id_users db' = id_users db"
  "update_menu now i um a db = Some (ROk (x, db', hs)) \<Longrightarrow> id_users db' = id_users db"
  "delete_menu i a db s = (ROk (y, db', hs), s') \<Longrightarrow> s' = s \<and> id_users db' = id_users db"
  "batch_delete_menus is a db s = (ROk (b, db', hs), s') \<Longrightarrow> s' = s \<and> id_users db' = id_users db"
  by (auto simp: create_menu_def update_menu_def update_menu_checked_def delete_menu_def drop_menu_def batch_delete_menus_def Let_def
      split: prod.splits option.splits dest: drop_menus_users)

lemma department_ops_same:
  "create_department i cd a db s = (ROk (x, db', hs), s') \<Longrightarrow> s' = s \<and> id_users db' = id_users db"
  "update_department i ud a db s = (ROk (x, db', hs), s') \<Longrightarrow> s' = s \<and> id_users db' = id_users db"
  "delete_department i a db s = (ROk (y, db', hs), s') \<Longrightarrow> s' = s \<and> id_users db' = id_users db"
  "batch_delete_departments is a db s = (ROk (b, db', hs), s') \<Longrightarrow> s' = s \<and> id_users db' = id_users db"
  by (auto simp: create_department_def update_department_def delete_department_def drop_department_def batch_delete_departments_def Let_def
      split: prod.splits dest: drop_departments_users)

lemma perform_ends:
  assumes p: "perform env a cmd db s = (ROk (x, db', hs), s')" and d: "distinct (map be_id (id_users db))"
  shows "ends_sessions A (en_now env) db s db' s'"
proof -
  have same: "s' = s \<and> id_users db' = id_users db \<Longrightarrow> ?thesis" using ends_same [OF d] by blast
  show ?thesis
  proof (cases cmd)
    case (CreateUser i p)
    then obtain y where "create_user env i p a db s = (ROk (y, db', hs), s')" using assms(1) by (auto dest: effect_ok)
    then show ?thesis
      using d by (auto simp: create_user_def Let_def new_user_def dest!: strong_password_ok intro!: ends_new [of db _ "new_user env i p a"])
  next
    case (UpdateMenu i p)
    then show ?thesis using p by (intro same) (auto dest!: effect_ok dest: menu_ops_same split: option.splits)
  qed (use p in \<open>auto dest!: effect_ok dest: role_ops_same menu_ops_same department_ops_same
      intro: ends_same [OF d] update_user_ends [OF _ d] reset_password_ends [OF _ d] delete_user_ends [OF _ d] batch_delete_users_ends [OF _ d]\<close>)
qed


text \<open>A user's own change of password, too.\<close>

lemma own_password_ends_sessions:
  assumes "(session_step attl new)\<^sup>*\<^sup>* (t0, empty_redis) (t, s)" and "t \<le> en_now env"
    and "change_current_password env user old new_password db (io\<lparr>io_redis := s\<rparr>) = (ROk db', io')"
  shows "session_table (en_now env) (io_redis io') j \<noteq> Some (au_user_id user)"
proof -
  have "revoke_all_sessions (en_now env) (au_user_id user) (s\<lparr>r_wire := r_wire s\<rparr>) = (Some (), io_redis io')"
    using assms(3)
    by (auto simp: change_current_password_def with_redis_def raise_error_def Let_def split: option.splits prod.splits if_splits)
  then have "session_table (en_now env) (io_redis io') = fold without_user [au_user_id user] (session_table (en_now env) s)"
    using table_revoke_one reached_indexed [OF assms(1,2)] by fastforce
  then show ?thesis by (simp add: without_user_def)
qed

definition root :: authenticated_user where
  "root = clerk\<lparr>au_user_id := 9, au_role_codes := {SUPERADMIN_ROLE_CODE}\<rparr>"


end
