(* ===== verification/LockoutFacts.thy ===== *)
theory LockoutFacts
  imports AuthEdge
begin

text \<open>
  How many guesses the login throttle lets through. The attempts of an attacker at one user name are interleaved with anything else that
  leaves that name's counter and lock alone.
\<close>

text \<open>\<open>guessing\<close> counts the attempts that were answered as wrong, up to a time.\<close>

inductive guessing :: "string \<Rightarrow> throttle_policy \<Rightarrow> nat \<times> int \<times> redis \<Rightarrow> nat \<times> int \<times> redis \<Rightarrow> bool" for n pol where
  attempt: "en_policy env = pol \<Longrightarrow> t \<le> en_now env \<Longrightarrow>
    (\<And>user. get_user_by_username n db = Some user \<Longrightarrow> \<not> password_matches env user password) \<Longrightarrow>
    authenticate_password env n password origin db \<lparr>io_redis = s\<lparr>r_wire := []\<rparr>, io_logs = logs\<rparr> = (r, io') \<Longrightarrow>
    guessing n pol (k, t, s) (if r = RErr (app_err EC_auth_invalid_token 401) then k + 1 else k, en_now env, io_redis io')"
| elsewhere: "t \<le> t' \<Longrightarrow> cell s' (fail_key n) = cell s (fail_key n) \<Longrightarrow> cell s' (lock_key n) = cell s (lock_key n) \<Longrightarrow>
    guessing n pol (k, t, s) (k, t', s')"

section \<open>One attempt\<close>

lemma throttle_keys [simp]:
  "fail_key n \<noteq> lock_key m" "lock_key n \<noteq> fail_key m" "login_ip_key a \<noteq> fail_key n" "login_ip_key a \<noteq> lock_key n"
  "fail_key n \<noteq> login_ip_key a" "lock_key n \<noteq> login_ip_key a"
  by (simp_all add: fail_key_def lock_key_def login_ip_key_def)

lemma wire_kept [simp]:
  "r_wire (evict_if_expired now k s) = r_wire s" "r_wire (redis_expire now k secs s) = r_wire s" "r_wire (redis_set now k v ex s) = r_wire s"
  "r_wire (snd (redis_incrby now k d s)) = r_wire s"
  by (simp_all add: evict_if_expired_def redis_expire_def redis_pexpire_def redis_set_def redis_incrby_def Let_def)

lemma record_ip_failure_cells:
  assumes "r_wire s = []" "\<And>a. ip = Some a \<Longrightarrow> k \<noteq> login_ip_key a"
  shows "fst (record_ip_failure now pol ip s) = Some () \<and> cell (snd (record_ip_failure now pol ip s)) k = cell s k
    \<and> r_wire (snd (record_ip_failure now pol ip s)) = []"
proof (cases ip)
  case None
  then show ?thesis using assms by (simp add: record_ip_failure_def rret_def)
next
  case (Some a)
  define p where "p = redis_incrby now (login_ip_key a) 1 s"
  have p: "r_wire (snd p) = []" "cell (snd p) k = cell s k" using assms Some by (simp_all add: p_def)
  show ?thesis
    using assms Some p
    by (cases "fst p = 1") (simp_all add: record_ip_failure_def rbind_def c_incr_def c_expire_def when_c_def rret_def ruse_def
        p_def [symmetric] case_prod_unfold Let_def)
qed

text \<open>The count after a failure, and what it does to the counter and the lock.\<close>

definition counted :: "int \<Rightarrow> throttle_policy \<Rightarrow> string \<Rightarrow> redis \<Rightarrow> redis" where
  "counted now pol n s =
     (let (c, s1) = redis_incrby now (fail_key n) 1 s;
          s2 = (if c = 1 then redis_expire now (fail_key n) (tp_failure_window_seconds pol) s1 else s1)
      in if tp_max_failures pol \<le> c then redis_set now (lock_key n) ''1'' (Some (tp_lockout_seconds pol)) s2 else s2)"

lemma record_failure_cells:
  assumes w: "r_wire s = []"
  shows "fst (record_failure now pol n ip s) = Some ()"
    and "cell (snd (record_failure now pol n ip s)) (fail_key n) = cell (counted now pol n s) (fail_key n)"
    and "cell (snd (record_failure now pol n ip s)) (lock_key n) = cell (counted now pol n s) (lock_key n)"
proof -
  have wire: "r_wire (counted now pol n s) = []" using w by (simp add: counted_def case_prod_unfold Let_def)
  have run: "record_failure now pol n ip s = record_ip_failure now pol ip (counted now pol n s)"
    using w
    by (cases "fst (redis_incrby now (fail_key n) 1 s) = 1"; cases "tp_max_failures pol \<le> fst (redis_incrby now (fail_key n) 1 s)")
      (simp_all add: record_failure_def counted_def rbind_def rthen_def c_incr_def c_expire_def c_set_def when_c_def rret_def ruse_def
        case_prod_unfold Let_def)
  show "fst (record_failure now pol n ip s) = Some ()"
    "cell (snd (record_failure now pol n ip s)) (fail_key n) = cell (counted now pol n s) (fail_key n)"
    "cell (snd (record_failure now pol n ip s)) (lock_key n) = cell (counted now pol n s) (lock_key n)"
    unfolding run using record_ip_failure_cells [OF wire, of ip "fail_key n"] record_ip_failure_cells [OF wire, of ip "lock_key n"] by auto
qed

lemma counted_effect:
  assumes "c = redis_count now (fail_key n) s + 1"
  shows "r_ints (counted now pol n s) (fail_key n) = Some c"
    and "r_expiry (counted now pol n s) (fail_key n)
        = (if c = 1 then Some (now + tp_failure_window_seconds pol * 1000)
           else if expired now (fail_key n) s then None else r_expiry s (fail_key n))"
    and "tp_max_failures pol \<le> c \<Longrightarrow> r_strs (counted now pol n s) (lock_key n) = Some ''1''
        \<and> r_expiry (counted now pol n s) (lock_key n) = Some (now + tp_lockout_seconds pol * 1000)"
    and "c < tp_max_failures pol \<Longrightarrow> cell (counted now pol n s) (lock_key n) = cell s (lock_key n)"
  using assms
  by (auto simp: counted_def redis_incrby_def redis_count_def redis_get_int_def redis_expire_def redis_pexpire_def redis_set_def
      evict_if_expired_def expired_def key_exists_def cell_def Let_def split: option.splits if_splits)

section \<open>The invariant\<close>

text \<open>
  Until \<open>E\<close>: the name is locked; or its counter was created since the start and lives on; or it may be older, and then there were
  fewer guesses than it counts.
\<close>

definition locked_until :: "int \<Rightarrow> string \<Rightarrow> redis \<Rightarrow> bool" where
  "locked_until E n s \<longleftrightarrow> r_strs s (lock_key n) \<noteq> None \<and> (\<forall>e. r_expiry s (lock_key n) = Some e \<longrightarrow> E \<le> e)"

definition throttled :: "int \<Rightarrow> int \<Rightarrow> string \<Rightarrow> int \<Rightarrow> redis \<Rightarrow> bool" where
  "throttled M E n k s \<longleftrightarrow>
     (locked_until E n s \<and> k \<le> M + max 0 (M - 2))
     \<or> (\<exists>c. r_ints s (fail_key n) = Some c \<and> (\<forall>e. r_expiry s (fail_key n) = Some e \<longrightarrow> E \<le> e) \<and> 1 \<le> c \<and> c < M \<and> k \<le> max 0 (M - 2) + c)
     \<or> (k \<le> max 0 (M - 2) \<and> (\<forall>c. r_ints s (fail_key n) = Some c \<longrightarrow> 1 \<le> c \<and> (k = 0 \<or> k < c)))"

lemma throttled_cells:
  assumes "cell s' (fail_key n) = cell s (fail_key n)" "cell s' (lock_key n) = cell s (lock_key n)"
  shows "throttled M E n k s' = throttled M E n k s"
  using cell_eqs [OF assms(1)] cell_eqs [OF assms(2)] by (simp add: throttled_def locked_until_def)

lemma throttled_counted:
  assumes t: "throttled (tp_max_failures pol) E n k s" and "now < E" and open_: "\<not> redis_exists now (lock_key n) s" and M: "1 \<le> tp_max_failures pol"
    and E: "E \<le> now + tp_failure_window_seconds pol * 1000" "E \<le> now + tp_lockout_seconds pol * 1000"
  shows "throttled (tp_max_failures pol) E n (k + 1) (counted now pol n s)"
proof -
  let ?M = "tp_max_failures pol"
  define c where "c = redis_count now (fail_key n) s + 1"
  note eff = counted_effect [OF c_def, of pol]
  have lock: "locked_until E n (counted now pol n s)" if "?M \<le> c" using eff(3) [OF that] E by (simp add: locked_until_def)
  have "\<not> locked_until E n s"
    using open_ assms(2) by (auto simp: locked_until_def redis_exists_def key_exists_def expired_def split: option.splits)
  then consider (new) c0 where "r_ints s (fail_key n) = Some c0" "\<forall>e. r_expiry s (fail_key n) = Some e \<longrightarrow> E \<le> e" "1 \<le> c0" "c0 < ?M" "k \<le> max 0 (?M - 2) + c0"
    | (old) "k \<le> max 0 (?M - 2)" "\<forall>c. r_ints s (fail_key n) = Some c \<longrightarrow> 1 \<le> c \<and> (k = 0 \<or> k < c)"
    using t unfolding throttled_def by blast
  then show ?thesis
  proof cases
    case new
    then have ne: "\<not> expired now (fail_key n) s" using assms(2) by (auto simp: expired_def split: option.splits)
    then have c: "c = c0 + 1" using new(1) by (simp add: c_def redis_count_def redis_get_int_def)
    show ?thesis
    proof (cases "?M \<le> c")
      case True
      then show ?thesis using lock new c by (simp add: throttled_def)
    next
      case False
      then show ?thesis using eff(1,2) new c ne unfolding throttled_def by auto
    qed
  next
    case old
    show ?thesis
    proof (cases "?M \<le> c")
      case True
      then show ?thesis using lock old(1) M by (simp add: throttled_def)
    next
      case False
      show ?thesis
      proof (cases "redis_get_int now (fail_key n) s")
        case None
        then have "c = 1" by (simp add: c_def redis_count_def)
        then show ?thesis using eff(1,2) old(1) E False M unfolding throttled_def by auto
      next
        case (Some c0)
        then have "r_ints s (fail_key n) = Some c0" "c = c0 + 1" by (auto simp: c_def redis_count_def redis_get_int_def split: if_splits)
        then show ?thesis using old False eff(1) unfolding throttled_def by fastforce
      qed
    qed
  qed
qed

section \<open>The bound\<close>

lemma login_closed_healthy:
  assumes "r_wire s = []"
  shows "\<exists>b. login_closed env n ip s = (Some b, s) \<and> (redis_exists (en_now env) (lock_key n) s \<longrightarrow> b)"
  using assms
  by (cases ip) (auto simp: login_closed_def is_locked_def is_ip_limited_def rbind_def rret_def c_exists_def c_get_int_def rread_def)

text \<open>A wrong attempt is either counted, and then the name was not locked, or leaves the store as it was.\<close>

lemma wrong_attempt:
  assumes "\<And>user. get_user_by_username n db = Some user \<Longrightarrow> \<not> password_matches env user password" and w: "r_wire s = []"
    and a: "authenticate_password env n password origin db \<lparr>io_redis = s, io_logs = logs\<rparr> = (r, io')"
  shows "(r \<noteq> RErr (app_err EC_auth_invalid_token 401) \<and> io_redis io' = s)
    \<or> (r = RErr (app_err EC_auth_invalid_token 401) \<and> \<not> redis_exists (en_now env) (lock_key n) s
       \<and> io_redis io' = snd (record_failure (en_now env) (en_policy env) n (lo_ip origin) s))"
proof -
  obtain b where b: "login_closed env n (lo_ip origin) s = (Some b, s)" "redis_exists (en_now env) (lock_key n) s \<Longrightarrow> b"
    using login_closed_healthy [OF w] by blast
  obtain s' where f: "record_failure (en_now env) (en_policy env) n (lo_ip origin) s = (Some (), s')"
    using record_failure_cells(1) [OF w] by (metis prod.collapse)
  show ?thesis
  proof (cases b)
    case True
    then show ?thesis
      using a b(1)
      by (auto simp: authenticate_password_def with_redis_def record_login_def raise_error_def app_err_def Let_def split: if_splits)
  next
    case False
    have "refuse_login env i n reason origin \<lparr>io_redis = s, io_logs = logs\<rparr> = (r, io') \<Longrightarrow> ?thesis" for i reason
      using False b(2) f
      by (auto simp: refuse_login_def record_login_def with_redis_def raise_error_def Let_def split: if_splits)
    then show ?thesis
      using a b(1) False assms(1)
      by (auto simp: authenticate_password_def with_redis_def split: option.splits)
  qed
qed

lemma guessing_throttled:
  assumes "guessing n pol (k, t, s) (k', t', s')" and "t' < E" and M: "1 \<le> tp_max_failures pol"
    and E: "E \<le> t + tp_failure_window_seconds pol * 1000" "E \<le> t + tp_lockout_seconds pol * 1000"
    and "throttled (tp_max_failures pol) E n (int k) s"
  shows "throttled (tp_max_failures pol) E n (int k') s'"
  using assms(1)
proof cases
  case (attempt env db password origin logs r io')
  let ?s = "s\<lparr>r_wire := []\<rparr>"
  have s: "throttled (tp_max_failures pol) E n (int k) ?s" using assms(6) throttled_cells [of ?s n s] by simp
  have "(r \<noteq> RErr (app_err EC_auth_invalid_token 401) \<and> io_redis io' = ?s)
    \<or> (r = RErr (app_err EC_auth_invalid_token 401) \<and> \<not> redis_exists (en_now env) (lock_key n) ?s
       \<and> io_redis io' = snd (record_failure (en_now env) (en_policy env) n (lo_ip origin) ?s))"
    by (rule wrong_attempt [OF attempt(6) _ attempt(7)]) simp_all
  then show ?thesis
  proof
    assume "r \<noteq> RErr (app_err EC_auth_invalid_token 401) \<and> io_redis io' = ?s"
    then show ?thesis using s attempt by simp
  next
    assume c: "r = RErr (app_err EC_auth_invalid_token 401) \<and> \<not> redis_exists (en_now env) (lock_key n) ?s
       \<and> io_redis io' = snd (record_failure (en_now env) (en_policy env) n (lo_ip origin) ?s)"
    have "throttled (tp_max_failures pol) E n (int k + 1) (counted (en_now env) pol n ?s)"
      using assms(2) attempt c E by (intro throttled_counted [OF s _ _ M]) auto
    moreover have "throttled (tp_max_failures pol) E n (int k + 1) s' = throttled (tp_max_failures pol) E n (int k + 1) (counted (en_now env) pol n ?s)"
      using c attempt record_failure_cells(2,3) [of ?s "en_now env" pol n "lo_ip origin"] by (intro throttled_cells) simp_all
    ultimately show ?thesis using attempt c by (simp add: add.commute)
  qed
next
  case elsewhere
  then show ?thesis using assms(6) throttled_cells [of s' n s] by simp
qed


text \<open>Four guesses with three allowed failures: the counter of an earlier failure expires after the first.\<close>

definition guess_env :: "int \<Rightarrow> auth_env" where
  "guess_env now = \<lparr>en_now = now, en_login_at = [],
     en_policy = \<lparr>tp_max_failures = 3, tp_lockout_seconds = 900, tp_failure_window_seconds = 900, tp_ip_max_failures = 100,
       tp_ip_window_seconds = 900\<rparr>,
     en_access_ttl = 900, en_refresh_ttl = 604800, en_perm_ttl = 300, en_password_min_length = 8,
     en_verify = (\<lambda>h p. h = p), en_hash = id, en_sign = (\<lambda>u. None), en_jwt = (\<lambda>t. None), en_claims = (\<lambda>c. None),
     en_refresh_text = [], en_sha = id, en_audit_ok = True\<rparr>"

definition no_users :: identity_db where
  "no_users = \<lparr>id_users = [], id_departments = [], id_roles = [], id_menus = [], id_user_roles = [], id_role_menus = [],
     id_api_keys = [], id_attachs = []\<rparr>"

definition guess :: "int \<Rightarrow> redis \<Rightarrow> (string \<times> int \<times> string) res \<times> auth_io" where
  "guess now s = authenticate_password (guess_env now) ''ann'' ''secret'' \<lparr>lo_ip = None, lo_user_agent = None, lo_trace_id = None\<rparr>
     no_users \<lparr>io_redis = s\<lparr>r_wire := []\<rparr>, io_logs = []\<rparr>"

definition guessed :: "int \<Rightarrow> redis \<Rightarrow> redis" where
  "guessed now s = io_redis (snd (guess now s))"

definition failed_once :: redis where
  "failed_once = empty_redis\<lparr>r_ints := (\<lambda>_. None)(fail_key ''ann'' \<mapsto> 1), r_expiry := (\<lambda>_. None)(fail_key ''ann'' \<mapsto> 1000)\<rparr>"

lemma guess_step:
  assumes "fst (guess now s) = RErr (app_err EC_auth_invalid_token 401)" "t \<le> now"
  shows "guessing ''ann'' (en_policy (guess_env 0)) (k, t, s) (k + 1, now, guessed now s)"
proof -
  have "guessing ''ann'' (en_policy (guess_env 0)) (k, t, s)
      (if fst (guess now s) = RErr (app_err EC_auth_invalid_token 401) then k + 1 else k, en_now (guess_env now), io_redis (snd (guess now s)))"
    by (rule guessing.attempt [where env = "guess_env now" and db = no_users and password = "''secret''" and logs = "[]"
          and origin = "\<lparr>lo_ip = None, lo_user_agent = None, lo_trace_id = None\<rparr>"])
       (use assms(2) in \<open>simp_all add: guess_env_def get_user_by_username_def no_users_def scalar_def guess_def\<close>)
  then show ?thesis using assms(1) by (simp add: guessed_def guess_env_def)
qed


section \<open>Guesses that are not counted\<close>

text \<open>
  The bound is on the attempts answered as wrong. An attempt whose audit row the database refuses, for a \<open>User-Agent\<close> longer than its
  column, is checked and not counted: a wrong password leaves no trace in Redis, however often it is tried.
\<close>

lemma oversized_agent_uncounted:
  assumes "lo_user_agent origin = Some ua" "255 < length ua" and w: "r_wire s = []"
    and "\<And>user. get_user_by_username n db = Some user \<Longrightarrow> \<not> password_matches env user password"
  shows "authenticate_password env n password origin db \<lparr>io_redis = s, io_logs = logs\<rparr> = (RCrash, \<lparr>io_redis = s, io_logs = logs\<rparr>)"
proof -
  obtain b where b: "login_closed env n (lo_ip origin) s = (Some b, s)" using login_closed_healthy [OF w] by blast
  have "\<not> login_row_fits (login_row i n oc reason origin)" for i oc reason
    using assms(1,2) by (simp add: login_row_fits_def login_row_def fits_def)
  then show ?thesis
    using b assms(4)
    by (auto simp: authenticate_password_def with_redis_def refuse_login_def record_login_def Let_def split: option.split)
qed

text \<open>
  The right password, tried the same way, resets the counter before its own audit row is refused, so one counted attempt later tells
  whether any of the uncounted ones was right.
\<close>

lemma counter_call:
  assumes "\<And>s. cell (snd (f s)) (fail_key n) = cell s (fail_key n)"
  shows "triple (\<lambda>s. r_ints s (fail_key n) = None) (rcall f) (\<lambda>_ s. r_ints s (fail_key n) = None) (\<lambda>s. r_ints s (fail_key n) = None)"
  using cell_eqs(3) [OF assms] by (intro triple_call) (simp_all add: wireless_def)

lemma opening_keeps_counter:
  "triple (\<lambda>s. r_ints s (fail_key n) = None) (create_session now login_at u j attl h rttl ip ua)
     (\<lambda>_ s. r_ints s (fail_key n) = None) (\<lambda>s. r_ints s (fail_key n) = None)"
proof -
  have keys: "fail_key n \<noteq> access_key j" "fail_key n \<noteq> refresh_key h" "fail_key n \<noteq> user_sessions_key u" "fail_key n \<noteq> USERS_INDEX"
    by (simp_all add: fail_key_def access_key_def refresh_key_def user_sessions_key_def USERS_INDEX_def)
  show ?thesis
    unfolding create_session_def c_defs
    by (rule triple_then counter_call triple_ret | simp add: keys keys [symmetric] ruse_def)+
qed

lemma oversized_agent_resets:
  assumes "lo_user_agent origin = Some ua" "255 < length ua" and w: "r_wire s = []"
    and "login_closed env n (lo_ip origin) s = (Some False, s)"
    and "get_user_by_username n db = Some user" "password_matches env user password" "en_sign env (be_id user) = Some (token, jti)"
    and a: "authenticate_password env n password origin db \<lparr>io_redis = s, io_logs = logs\<rparr> = (r, io')"
  shows "r = RCrash \<and> redis_count now (fail_key n) (io_redis io') = 0"
proof -
  have nofit: "\<not> login_row_fits (login_row i n oc reason origin)" for i oc reason
    using assms(1,2) by (simp add: login_row_fits_def login_row_def fits_def)
  define s1 where "s1 = redis_delete_all [fail_key n, lock_key n] s"
  have r: "reset_failures n s = (Some (), s1)" using w by (simp add: reset_failures_def c_del_all_def ruse_def s1_def)
  have none: "r_ints s1 (fail_key n) = None" by (simp add: s1_def redis_delete_def)
  define m where "m = open_session env (be_id user) jti (en_sha env (en_refresh_text env)) (lo_ip origin) (lo_user_agent origin) s1"
  have "r_ints (snd m) (fail_key n) = None"
    using triple_both [OF opening_keeps_counter none] by (simp add: m_def open_session_def)
  then have c: "redis_count now (fail_key n) (snd m) = 0" by (simp add: redis_count_def redis_get_int_def)
  have "r = RCrash \<and> io_redis io' = snd m"
    using a assms(4-7) r nofit
    by (auto simp: authenticate_password_def with_redis_def grant_login_def record_login_def issue_access_token_def issue_refresh_token_def
        m_def [symmetric] Let_def split: option.splits prod.splits)
  then show ?thesis using c by simp
qed

end
