(* ===== verification/PermCacheFacts.thy ===== *)
theory PermCacheFacts
  imports PermCache
begin

text \<open>
  The cached permissions are never older than the last invalidation. Requests read the generations, look up, load and store at different
  times, between changes of the tables and invalidations; Redis may lose calls.
\<close>

section \<open>Stored snapshots\<close>

lemma finite_snapshot [simp]:
  "finite (ps_permissions (load_permission_snapshot u db))" "finite (ps_role_codes (load_permission_snapshot u db))"
  unfolding load_permission_snapshot_def list_permission_codes_def list_active_role_codes_def codes_of_def
  by (simp_all only: permission_snapshot.simps finite_set)

lemma frozenset_of_texts: "frozenset_of (JArr (map JStr ts)) = Some (set ts)"
proof -
  have "set [t. JStr t \<leftarrow> map JStr ts] = set ts" by (induction ts) auto
  moreover have "list_all hashable (map JStr ts)" by (induction ts) (simp_all add: hashable_def)
  ultimately show ?thesis by (simp add: frozenset_of_def)
qed

lemma snapshot_roundtrip:
  assumes "finite (ps_permissions p)" "finite (ps_role_codes p)"
  shows "decode_snapshot (encode_snapshot p) = Decoded p"
proof -
  let ?j = "JObj [(''permissions'', JArr (map JStr (sorted_list_of_set (ps_permissions p)))),
                  (''role_codes'', JArr (map JStr (sorted_list_of_set (ps_role_codes p))))]"
  have "json_wf ?j" by (auto simp: list_all_iff)
  then have "loads (encode_snapshot p) = Some ?j" unfolding encode_snapshot_def by (rule loads_dumps)
  then show ?thesis using assms by (simp add: decode_snapshot_def frozenset_of_texts del: frozenset_of_def)
qed

section \<open>Generations\<close>

definition generation :: "redis \<Rightarrow> string \<Rightarrow> int" where
  "generation s k = (case r_ints s k of None \<Rightarrow> 0 | Some n \<Rightarrow> n)"

definition current :: "redis \<Rightarrow> int \<Rightarrow> int \<times> int" where
  "current s u = (generation s GLOBAL_GEN_KEY, generation s (user_gen_key u))"

definition reached :: "redis \<Rightarrow> int \<Rightarrow> int \<times> int \<Rightarrow> bool" where
  "reached s u p \<longleftrightarrow> fst p \<le> fst (current s u) \<and> snd p \<le> snd (current s u)"

definition gens_kept :: "redis \<Rightarrow> bool" where
  "gens_kept s \<longleftrightarrow> r_expiry s GLOBAL_GEN_KEY = None \<and> (\<forall>u. r_expiry s (user_gen_key u) = None)"

definition entry_key :: "int \<Rightarrow> int \<times> int \<Rightarrow> string" where
  "entry_key u p = snapshot_key u (show_int (fst p)) (show_int (snd p))"

lemma sep_inj: "c \<notin> set xs \<Longrightarrow> c \<notin> set xs' \<Longrightarrow> xs @ c # ys = xs' @ c # ys' \<longleftrightarrow> xs = xs' \<and> ys = ys'"
  by (induction xs arbitrary: xs'; case_tac xs') auto

lemma entry_key_inj [simp]: "entry_key u p = entry_key v q \<longleftrightarrow> u = v \<and> p = q"
  by (cases p; cases q) (auto simp: entry_key_def snapshot_key_def sep_inj)

lemma perm_keys [simp]:
  "entry_key u p \<noteq> GLOBAL_GEN_KEY" "entry_key u p \<noteq> user_gen_key v" "GLOBAL_GEN_KEY \<noteq> entry_key u p" "user_gen_key v \<noteq> entry_key u p"
  "GLOBAL_GEN_KEY \<noteq> user_gen_key v" "user_gen_key v \<noteq> GLOBAL_GEN_KEY" "user_gen_key u = user_gen_key v \<longleftrightarrow> u = v"
  by (auto simp: entry_key_def snapshot_key_def SNAP_PREFIX_def GLOBAL_GEN_KEY_def user_gen_key_def USER_GEN_PREFIX_def)

section \<open>The protocol\<close>

text \<open>
  \<open>pw_given u p\<close> are the snapshots of \<open>u\<close> the tables have given since the generations \<open>p\<close> of \<open>u\<close> were reached, so at the current ones
  those since the last invalidation that concerned \<open>u\<close>. \<open>pw_loads\<close> are the requests under way: the generations read, and what was loaded.
\<close>

record perm_world =
  pw_db :: identity_db
  pw_store :: redis
  pw_given :: "int \<Rightarrow> int \<times> int \<Rightarrow> permission_snapshot set"
  pw_loads :: "(int \<times> (string \<times> string) \<times> permission_snapshot option) list"

definition bumped :: "redis \<Rightarrow> perm_world \<Rightarrow> perm_world" where
  "bumped s' w = w\<lparr>pw_store := s', pw_given := \<lambda>u p.
     if p = current s' u \<and> current s' u \<noteq> current (pw_store w) u then {load_permission_snapshot u (pw_db w)} else pw_given w u p\<rparr>"

inductive perm_step :: "perm_world \<Rightarrow> perm_world \<Rightarrow> bool" where
  began: "perm_generations now u ((pw_store w)\<lparr>r_wire := ws\<rparr>) = (Some t, s') \<Longrightarrow>
    perm_step w (w\<lparr>pw_store := s', pw_loads := (u, t, None) # pw_loads w\<rparr>)"
| loaded: "(u, t, l) \<in> set (pw_loads w) \<Longrightarrow>
    perm_step w (w\<lparr>pw_loads := (u, t, Some (load_permission_snapshot u (pw_db w))) # pw_loads w\<rparr>)"
| stored: "(u, t, Some v) \<in> set (pw_loads w) \<Longrightarrow>
    seed_cache now (snapshot_key u (fst t) (snd t)) ttl encode_snapshot (Some v) ((pw_store w)\<lparr>r_wire := ws\<rparr>) = (r, s') \<Longrightarrow>
    perm_step w (w\<lparr>pw_store := s'\<rparr>)"
| changed: "perm_step w (w\<lparr>pw_db := db', pw_given := \<lambda>u p. insert (load_permission_snapshot u db') (pw_given w u p)\<rparr>)"
| invalidated_user: "perm_step w (bumped (invalidate_user now u ((pw_store w)\<lparr>r_wire := ws\<rparr>)) w)"
| invalidated_all: "perm_step w (bumped (invalidate_all now ((pw_store w)\<lparr>r_wire := ws\<rparr>)) w)"
| elsewhere: "cell s' GLOBAL_GEN_KEY = cell (pw_store w) GLOBAL_GEN_KEY \<Longrightarrow> (\<And>u. cell s' (user_gen_key u) = cell (pw_store w) (user_gen_key u)) \<Longrightarrow>
    (\<And>u p. cell s' (entry_key u p) = cell (pw_store w) (entry_key u p)) \<Longrightarrow> perm_step w (w\<lparr>pw_store := s'\<rparr>)"

text \<open>The tables at first, and nothing cached.\<close>

definition perm_start :: "identity_db \<Rightarrow> perm_world" where
  "perm_start db = \<lparr>pw_db = db, pw_store = empty_redis, pw_given = (\<lambda>u p. {load_permission_snapshot u db}), pw_loads = []\<rparr>"

section \<open>The invariant\<close>

definition entries_ok :: "redis \<Rightarrow> (int \<Rightarrow> int \<times> int \<Rightarrow> permission_snapshot set) \<Rightarrow> bool" where
  "entries_ok s G \<longleftrightarrow>
     (\<forall>u p raw. r_strs s (entry_key u p) = Some raw \<longrightarrow> reached s u p \<and> (\<exists>v\<in>G u p. raw = encode_snapshot v))"

definition load_ok :: "redis \<Rightarrow> (int \<Rightarrow> int \<times> int \<Rightarrow> permission_snapshot set) \<Rightarrow> int \<times> (string \<times> string) \<times> permission_snapshot option \<Rightarrow> bool" where
  "load_ok s G r \<longleftrightarrow> (case r of (u, t, l) \<Rightarrow>
     \<exists>p. t = (show_int (fst p), show_int (snd p)) \<and> reached s u p \<and> (\<forall>v. l = Some v \<longrightarrow> v \<in> G u p))"

definition perm_inv :: "perm_world \<Rightarrow> bool" where
  "perm_inv w \<longleftrightarrow> gens_kept (pw_store w) \<and> entries_ok (pw_store w) (pw_given w) \<and> (\<forall>r\<in>set (pw_loads w). load_ok (pw_store w) (pw_given w) r)
     \<and> (\<forall>u p. load_permission_snapshot u (pw_db w) \<in> pw_given w u p)
     \<and> (\<forall>u p v. v \<in> pw_given w u p \<longrightarrow> finite (ps_permissions v) \<and> finite (ps_role_codes v))"

text \<open>All the invariant sees of the store.\<close>

definition same_gens :: "redis \<Rightarrow> redis \<Rightarrow> bool" where
  "same_gens s s' \<longleftrightarrow> (\<forall>u. current s' u = current s u) \<and> (gens_kept s \<longrightarrow> gens_kept s')"

lemma same_gens_cells:
  assumes "cell s' GLOBAL_GEN_KEY = cell s GLOBAL_GEN_KEY" "\<And>u. cell s' (user_gen_key u) = cell s (user_gen_key u)"
  shows "same_gens s s'"
  using cell_eqs(3,4) [OF assms(1)] cell_eqs(3,4) [OF assms(2)]
  by (simp add: same_gens_def current_def generation_def gens_kept_def)

lemma same_gens_reached: "same_gens s s' \<Longrightarrow> reached s' u p = reached s u p"
  by (simp add: same_gens_def reached_def)

lemma load_ok_mono:
  assumes "load_ok s g r" "\<And>u p. reached s u p \<Longrightarrow> reached s' u p" "\<And>u p. reached s u p \<Longrightarrow> g u p \<subseteq> g' u p"
  shows "load_ok s' g' r"
  using assms by (cases r) (fastforce simp: load_ok_def)

lemma entries_ok_mono:
  assumes "entries_ok s g" "\<And>u p. r_strs s' (entry_key u p) = r_strs s (entry_key u p)"
    "\<And>u p. reached s u p \<Longrightarrow> reached s' u p" "\<And>u p. reached s u p \<Longrightarrow> g u p \<subseteq> g' u p"
  shows "entries_ok s' g'"
  using assms unfolding entries_ok_def by (metis subsetD)

lemma entries_ok_same:
  assumes "entries_ok s G" "same_gens s s'" "\<And>u p. cell s' (entry_key u p) = cell s (entry_key u p)"
  shows "entries_ok s' G"
  using assms(1) by (rule entries_ok_mono) (simp_all add: same_gens_reached [OF assms(2)] cell_eqs(1) [OF assms(3)])

lemma loads_ok_same: "\<forall>r\<in>R. load_ok s G r \<Longrightarrow> same_gens s s' \<Longrightarrow> \<forall>r\<in>R. load_ok s' G r"
  by (blast intro: load_ok_mono dest: same_gens_reached)

text \<open>The calls.\<close>

lemma rcall_read_store: "rcall (rread f) s = (r, s') \<Longrightarrow> cell s' k = cell s k"
  by (cases "r_wire s") (auto simp: rcall_def rread_def Let_def split: wire.splits)

lemma rcall_use_store: "rcall (ruse f) s = (r, s') \<Longrightarrow> (\<And>s. cell (f s) k = cell s k) \<Longrightarrow> cell s' k = cell s k"
  by (cases "r_wire s") (auto simp: rcall_def ruse_def Let_def split: wire.splits)

lemma perm_generations_ok:
  assumes "perm_generations now u s = (Some t, s')" "gens_kept s"
  shows "t = (show_int (fst (current s u)), show_int (snd (current s u)))"
proof -
  have z: "show_int 0 = ''0''" by code_simp
  have "t = (gen_text (redis_get_int now GLOBAL_GEN_KEY s), gen_text (redis_get_int now (user_gen_key u) s))"
    using assms(1) cell_eqs(9) [of "s\<lparr>r_wire := _\<rparr>" _ s]
    by (cases "r_wire s") (auto simp: perm_generations_def rcall_def rread_def Let_def split: wire.splits)
  then show ?thesis
    using assms(2) z
    by (auto simp: current_def generation_def gens_kept_def redis_get_int_def expired_def gen_text_def split: option.splits)
qed

text \<open>Storing what was loaded.\<close>

lemma stored_inv:
  assumes "entries_ok s G" "reached s u p" "v \<in> G u p"
    and "seed_cache now (entry_key u p) ttl encode_snapshot (Some v) (s\<lparr>r_wire := ws\<rparr>) = (r, s')"
  shows "entries_ok s' G \<and> same_gens s s'"
proof -
  have s': "s' = snd (rcall (ruse (redis_set now (entry_key u p) (encode_snapshot v) (Some ttl))) (s\<lparr>r_wire := ws\<rparr>))"
    using assms(4) by (simp add: seed_cache_def)
  have other: "cell s' k = cell s k" if "k \<noteq> entry_key u p" for k
    using that rcall_use_store [of "redis_set now (entry_key u p) (encode_snapshot v) (Some ttl)" "s\<lparr>r_wire := ws\<rparr>" _ s' k] s'
    by (metis cell_other(2) cell_wire prod.collapse)
  then have g: "same_gens s s'" by (intro same_gens_cells) simp_all
  have own: "r_strs s' (entry_key u p) = Some raw \<Longrightarrow> raw = encode_snapshot v \<or> r_strs s (entry_key u p) = Some raw" for raw
    unfolding s' by (cases ws) (auto simp: rcall_def ruse_def redis_set_def Let_def split: wire.splits)
  have "entries_ok s' G"
    unfolding entries_ok_def
  proof (intro allI impI)
    fix u' p' raw assume raw: "r_strs s' (entry_key u' p') = Some raw"
    show "reached s' u' p' \<and> (\<exists>v\<in>G u' p'. raw = encode_snapshot v)"
    proof (cases "entry_key u' p' = entry_key u p")
      case True
      then show ?thesis
        using raw own assms(1-3) same_gens_reached [OF g] unfolding entries_ok_def by (metis entry_key_inj)
    next
      case False
      then have "r_strs s (entry_key u' p') = Some raw" using raw cell_eqs(1) [OF other] by simp
      then show ?thesis using assms(1) same_gens_reached [OF g] unfolding entries_ok_def by blast
    qed
  qed
  then show ?thesis using g by simp
qed

text \<open>A generation that grows, or does not.\<close>

lemma incr_generation:
  assumes "s' = snd (rcall (redis_incrby now k 1) (s\<lparr>r_wire := ws\<rparr>))" and "gens_kept s" and k: "k = GLOBAL_GEN_KEY \<or> (\<exists>u. k = user_gen_key u)"
  shows "gens_kept s'" and "generation s' k' \<in> {generation s k', generation s k' + 1}" and "k' \<noteq> k \<Longrightarrow> cell s' k' = cell s k'"
proof -
  let ?i = "\<lambda>s. s\<lparr>r_ints := (r_ints s)(k \<mapsto> generation s k + 1)\<rparr>"
  have ne: "\<not> expired now k (s\<lparr>r_wire := ws\<rparr>)" for ws using assms(2) k by (auto simp: gens_kept_def expired_def)
  have inc: "snd (redis_incrby now k 1 (s\<lparr>r_wire := ws\<rparr>)) = ?i (s\<lparr>r_wire := ws\<rparr>)" for ws
    using ne by (simp add: redis_incrby_def evict_if_expired_def generation_def Let_def)
  obtain ws' where "s' = s\<lparr>r_wire := ws'\<rparr> \<or> s' = ?i (s\<lparr>r_wire := ws'\<rparr>)"
    using assms(1) inc
    by (cases ws) (auto simp: rcall_def case_prod_unfold Let_def split: wire.splits)
  then show "gens_kept s'" "generation s' k' \<in> {generation s k', generation s k' + 1}" "k' \<noteq> k \<Longrightarrow> cell s' k' = cell s k'"
    using assms(2) by (auto simp: gens_kept_def generation_def cell_def)
qed

lemma bumped_inv:
  assumes inv: "perm_inv w" and k: "k = GLOBAL_GEN_KEY \<or> (\<exists>u. k = user_gen_key u)"
    and s': "s' = snd (rcall (redis_incrby now k 1) ((pw_store w)\<lparr>r_wire := ws\<rparr>))"
  shows "perm_inv (bumped s' w)"
proof -
  let ?s = "pw_store w" and ?w = "bumped s' w"
  have i: "gens_kept ?s" "entries_ok ?s (pw_given w)" using inv by (simp_all add: perm_inv_def)
  note inc = incr_generation [OF s' i(1) k]
  have up: "fst (current ?s u) \<le> fst (current s' u)" "snd (current ?s u) \<le> snd (current s' u)" for u
    using inc(2) [of GLOBAL_GEN_KEY] inc(2) [of "user_gen_key u"] by (auto simp: current_def)
  have reach: "reached ?s u p \<Longrightarrow> reached s' u p" for u p using up [of u] by (auto simp: reached_def)
  have keep: "pw_given ?w u p = pw_given w u p" if "reached ?s u p" for u p
    using that up [of u] by (auto simp: bumped_def reached_def prod_eq_iff)
  have strs: "r_strs s' (entry_key u p) = r_strs ?s (entry_key u p)" for u p
  proof -
    have "entry_key u p \<noteq> k" using k by auto
    then have "cell s' (entry_key u p) = cell ?s (entry_key u p)" by (rule inc(3))
    then show ?thesis by (rule cell_eqs(1))
  qed
  have "entries_ok s' (pw_given ?w)" by (rule entries_ok_mono [OF i(2) strs reach]) (auto simp: keep)
  moreover have "\<forall>r\<in>set (pw_loads w). load_ok s' (pw_given ?w) r"
    using inv load_ok_mono [of ?s "pw_given w" _ s' "pw_given ?w"] reach keep unfolding perm_inv_def by fastforce
  ultimately show ?thesis
    using inc(1) inv finite_snapshot by (auto simp: perm_inv_def bumped_def split: if_splits)
qed

lemma perm_step_inv:
  assumes "perm_step w w'" and inv: "perm_inv w"
  shows "perm_inv w'"
  using assms(1)
proof cases
  case (began now u ws t s')
  have c: "cell s' k = cell (pw_store w) k" for k
    using rcall_read_store [OF began(2) [unfolded perm_generations_def], of k] by simp
  have g: "same_gens (pw_store w) s'" by (rule same_gens_cells [OF c c])
  have "gens_kept ((pw_store w)\<lparr>r_wire := ws\<rparr>)" "current ((pw_store w)\<lparr>r_wire := ws\<rparr>) u = current (pw_store w) u"
    using inv by (simp_all add: perm_inv_def gens_kept_def current_def generation_def)
  then have "t = (show_int (fst (current s' u)), show_int (snd (current s' u)))"
    using perm_generations_ok [OF began(2)] g by (simp add: same_gens_def)
  then have "load_ok s' (pw_given w) (u, t, None)" by (auto simp: load_ok_def reached_def)
  moreover have "entries_ok s' (pw_given w)"
    using inv by (intro entries_ok_same [OF _ g c]) (simp add: perm_inv_def)
  moreover have "\<forall>r\<in>set (pw_loads w). load_ok s' (pw_given w) r"
    using inv by (intro loads_ok_same [OF _ g]) (simp add: perm_inv_def)
  ultimately show ?thesis using inv g unfolding began(1) perm_inv_def by (simp add: same_gens_def)
next
  case (loaded u t l)
  then have "load_ok (pw_store w) (pw_given w) (u, t, Some (load_permission_snapshot u (pw_db w)))"
    using inv by (auto simp: perm_inv_def load_ok_def)
  then show ?thesis using inv unfolding loaded(1) perm_inv_def by simp
next
  case (stored u t v now ttl ws r s')
  then obtain p where p: "t = (show_int (fst p), show_int (snd p))" "reached (pw_store w) u p" "v \<in> pw_given w u p"
    using inv by (fastforce simp: perm_inv_def load_ok_def)
  have "entries_ok s' (pw_given w) \<and> same_gens (pw_store w) s'"
    using stored(3) inv p by (intro stored_inv [of "pw_store w" "pw_given w" u p v now ttl ws r s']) (simp_all add: perm_inv_def entry_key_def)
  then have e: "entries_ok s' (pw_given w)" and g: "same_gens (pw_store w) s'" by simp_all
  have "\<forall>r\<in>set (pw_loads w). load_ok s' (pw_given w) r"
    using inv by (intro loads_ok_same [OF _ g]) (simp add: perm_inv_def)
  then show ?thesis using inv e g unfolding stored(1) perm_inv_def by (simp add: same_gens_def)
next
  case (changed db')
  have "load_ok (pw_store w) (pw_given w) r \<Longrightarrow>
      load_ok (pw_store w) (\<lambda>u p. insert (load_permission_snapshot u db') (pw_given w u p)) r" for r
    by (erule load_ok_mono) auto
  moreover have "entries_ok (pw_store w) (pw_given w) \<Longrightarrow>
      entries_ok (pw_store w) (\<lambda>u p. insert (load_permission_snapshot u db') (pw_given w u p))"
    by (erule entries_ok_mono) auto
  ultimately show ?thesis using inv finite_snapshot unfolding changed perm_inv_def by auto
next
  case (invalidated_user now u ws)
  then show ?thesis using bumped_inv [OF inv] by (simp add: invalidate_user_def)
next
  case (invalidated_all now ws)
  then show ?thesis using bumped_inv [OF inv] by (simp add: invalidate_all_def)
next
  case (elsewhere s')
  have g: "same_gens (pw_store w) s'" by (rule same_gens_cells [OF elsewhere(2,3)])
  have "entries_ok s' (pw_given w)"
    using inv by (intro entries_ok_same [OF _ g elsewhere(4)]) (simp add: perm_inv_def)
  moreover have "\<forall>r\<in>set (pw_loads w). load_ok s' (pw_given w) r"
    using inv by (intro loads_ok_same [OF _ g]) (simp add: perm_inv_def)
  ultimately show ?thesis using inv g unfolding elsewhere(1) perm_inv_def by (simp add: same_gens_def)
qed

lemma perm_reach_inv: "perm_step\<^sup>*\<^sup>* (perm_start db) w \<Longrightarrow> perm_inv w"
proof (induction rule: rtranclp_induct)
  case base
  have "entries_ok empty_redis G" "gens_kept empty_redis" for G by (simp_all add: entries_ok_def gens_kept_def empty_redis_def)
  then show ?case by (simp add: perm_start_def perm_inv_def)
qed (rule perm_step_inv)

section \<open>What a request is given\<close>


text \<open>An entry without one of its keys, which only someone else could have written, is not a miss but an error.\<close>

lemma foreign_entry_raises: "decode_snapshot ''{}'' = OtherError"
  by code_simp

text \<open>After a change and its invalidation, the tables as they are now.\<close>

definition before_grant :: identity_db where
  "before_grant = \<lparr>id_users = [], id_departments = [],
     id_roles = [\<lparr>be_id = 1, be_is_deleted = False, be_created_by = None, be_create_dept = None, be_updated_by = None,
       ro_name = ''ops'', ro_code = ''ops'', ro_sort_order = 0, ro_status = ''active'', ro_remark = None\<rparr>],
     id_menus = [], id_user_roles = [], id_role_menus = [], id_api_keys = [], id_attachs = []\<rparr>"

definition after_grant :: identity_db where
  "after_grant = before_grant\<lparr>id_user_roles := [(7, 1)]\<rparr>"


end
