(* ===== verification/AiTables.thy ===== *)
theory AiTables
  imports AdminCore ChannelHealth
begin

text \<open>
  The tables of the AI platform as its administration sees them (\<open>src/db/models\<close>: \<open>model_catalog.py\<close>, \<open>grant.py\<close>,
  \<open>quota.py\<close>, \<open>rate_limit.py\<close>, \<open>credential.py\<close>), with every column but the timestamps, and what the list endpoints
  share: the keyword's pattern and the page of a sorted query. \<open>gateway_view\<close> is what the gateway's queries read of them and
  \<open>identity_view\<close> what authentication reads: the administration and the hot path work on one database. Amounts
  are as the numeric columns hold them.
\<close>

section \<open>Rows\<close>

record channel_row = base_entity +
  cn_name :: string
  cn_provider :: string
  cn_protocol :: string
  cn_api_base :: "string option"
  cn_extra_config :: "(string \<times> json) list option"
  cn_status :: string
  cn_remark :: "string option"

record key_row = base_entity +
  ky_channel_id :: int
  ky_alias :: string
  ky_api_key_encrypted :: string
  ky_key_hint :: string
  ky_status :: string
  ky_rpm_limit :: "int option"
  ky_tpm_limit :: "int option"
  ky_weight :: int
  ky_priority :: int
  ky_remark :: "string option"

record model_row = base_entity +
  mo_name :: string
  mo_display_name :: string
  mo_category :: "string option"
  mo_sort_order :: int
  mo_context_length :: "int option"
  mo_price_input :: "dec option"
  mo_price_output :: "dec option"
  mo_status :: string
  mo_remark :: "string option"

record deployment_row = base_entity +
  dy_logical_model_id :: int
  dy_channel_id :: int
  dy_upstream_model :: string
  dy_weight :: int
  dy_priority :: int
  dy_status :: string
  dy_remark :: "string option"

record grant_row = base_entity +
  gr_scope :: string
  gr_scope_id :: int
  gr_logical_model_id :: int
  gr_is_default :: bool
  gr_remark :: "string option"

record quota_rule_row = base_entity +
  qo_scope :: string
  qo_scope_id :: "int option"
  qo_logical_model_id :: "int option"
  qo_period :: string
  qo_metric :: string
  qo_limit_value :: dec
  qo_enforce :: bool
  qo_status :: string
  qo_remark :: "string option"

record rate_rule_row = base_entity +
  ra_subject_type :: string
  ra_subject_id :: "int option"
  ra_logical_model_id :: "int option"
  ra_rpm_limit :: "int option"
  ra_tpm_limit :: "int option"
  ra_tpm_burst_limit :: "int option"
  ra_max_concurrent :: "int option"
  ra_enforce :: bool
  ra_status :: string
  ra_remark :: "string option"

record credential_row = base_entity +
  cd_user_id :: int
  cd_name :: string
  cd_key_hash :: string
  cd_key_prefix :: string
  cd_status :: string
  cd_expires_at :: "int option"
  cd_remark :: "string option"

text \<open>\<open>ai_identity\<close> holds the other tables; its own list of keys is not used.\<close>

record ai_db =
  ai_identity :: identity_db
  ai_channels :: "channel_row list"
  ai_keys :: "key_row list"
  ai_models :: "model_row list"
  ai_deployments :: "deployment_row list"
  ai_grants :: "grant_row list"
  ai_quotas :: "quota_rule_row list"
  ai_rate_rules :: "rate_rule_row list"
  ai_credentials :: "credential_row list"

section \<open>What the gateway and authentication read\<close>

definition view_channel :: "channel_row \<Rightarrow> upstream_channel" where
  "view_channel c =
     \<lparr>uc_id = be_id c, uc_provider = cn_provider c, uc_protocol = cn_protocol c, uc_api_base = cn_api_base c,
      uc_extra_config = cn_extra_config c, uc_status = cn_status c, uc_is_deleted = be_is_deleted c\<rparr>"

definition view_key :: "key_row \<Rightarrow> channel_key" where
  "view_key k =
     \<lparr>ck_id = be_id k, ck_channel_id = ky_channel_id k, ck_api_key_encrypted = ky_api_key_encrypted k, ck_status = ky_status k,
      ck_rpm_limit = ky_rpm_limit k, ck_tpm_limit = ky_tpm_limit k, ck_weight = ky_weight k, ck_priority = ky_priority k,
      ck_is_deleted = be_is_deleted k\<rparr>"

definition view_model :: "model_row \<Rightarrow> logical_model" where
  "view_model m =
     \<lparr>lm_id = be_id m, lm_name = mo_name m, lm_price_input = mo_price_input m, lm_price_output = mo_price_output m,
      lm_status = mo_status m, lm_is_deleted = be_is_deleted m\<rparr>"

definition view_deployment :: "deployment_row \<Rightarrow> model_deployment" where
  "view_deployment d =
     \<lparr>md_logical_model_id = dy_logical_model_id d, md_channel_id = dy_channel_id d, md_upstream_model = dy_upstream_model d,
      md_weight = dy_weight d, md_priority = dy_priority d, md_status = dy_status d, md_is_deleted = be_is_deleted d\<rparr>"

definition view_grant :: "grant_row \<Rightarrow> user_model_grant" where
  "view_grant g =
     \<lparr>ug_scope = gr_scope g, ug_scope_id = gr_scope_id g, ug_logical_model_id = gr_logical_model_id g,
      ug_is_default = gr_is_default g, ug_is_deleted = be_is_deleted g\<rparr>"

definition view_quota :: "quota_rule_row \<Rightarrow> quota_row" where
  "view_quota q =
     \<lparr>qt_rule = \<lparr>q_id = be_id q, q_scope = qo_scope q, q_scope_id = qo_scope_id q, q_logical_model_id = qo_logical_model_id q,
                 q_period = qo_period q, q_metric = qo_metric q, q_limit_value = qo_limit_value q, q_enforce = qo_enforce q\<rparr>,
      qt_status = qo_status q, qt_is_deleted = be_is_deleted q\<rparr>"

definition view_rate_rule :: "rate_rule_row \<Rightarrow> rate_limit_row" where
  "view_rate_rule r =
     \<lparr>rr_rule = \<lparr>rl_id = be_id r, rl_subject_type = ra_subject_type r, rl_subject_id = ra_subject_id r,
                 rl_model_id = ra_logical_model_id r, rl_rpm_limit = ra_rpm_limit r, rl_tpm_limit = ra_tpm_limit r,
                 rl_tpm_burst = ra_tpm_burst_limit r, rl_max_concurrent = ra_max_concurrent r\<rparr>,
      rr_enforce = ra_enforce r, rr_status = ra_status r, rr_is_deleted = be_is_deleted r\<rparr>"

definition view_credential :: "credential_row \<Rightarrow> api_key_row" where
  "view_credential k =
     \<lparr>ak_id = be_id k, ak_is_deleted = be_is_deleted k, ak_user_id = cd_user_id k, ak_key_hash = cd_key_hash k,
      ak_status = cd_status k, ak_expires_at = cd_expires_at k\<rparr>"

definition gateway_view :: "ai_db \<Rightarrow> catalog_db" where
  "gateway_view db =
     \<lparr>db_models = map view_model (ai_models db), db_channels = map view_channel (ai_channels db), db_keys = map view_key (ai_keys db),
      db_deployments = map view_deployment (ai_deployments db), db_grants = map view_grant (ai_grants db),
      db_quotas = map view_quota (ai_quotas db), db_rate_limits = map view_rate_rule (ai_rate_rules db)\<rparr>"

definition identity_view :: "ai_db \<Rightarrow> identity_db" where
  "identity_view db = (ai_identity db)\<lparr>id_api_keys := map view_credential (ai_credentials db)\<rparr>"

text \<open>\<open>user_exists\<close>, \<open>department_exists\<close>, \<open>model_exists\<close> and \<open>api_key_exists\<close> of the repositories.\<close>

definition row_exists :: "int \<Rightarrow> 'a base_entity_scheme list \<Rightarrow> bool" where
  "row_exists i table \<longleftrightarrow> list_ex (\<lambda>r. be_id r = i \<and> \<not> be_is_deleted r) table"

abbreviation user_exists :: "int \<Rightarrow> ai_db \<Rightarrow> bool" where
  "user_exists i db \<equiv> row_exists i (id_users (ai_identity db))"

abbreviation department_exists :: "int \<Rightarrow> ai_db \<Rightarrow> bool" where
  "department_exists i db \<equiv> row_exists i (id_departments (ai_identity db))"

abbreviation model_exists :: "int \<Rightarrow> ai_db \<Rightarrow> bool" where
  "model_exists i db \<equiv> row_exists i (ai_models db)"

abbreviation api_key_exists :: "int \<Rightarrow> ai_db \<Rightarrow> bool" where
  "api_key_exists i db \<equiv> row_exists i (ai_credentials db)"

section \<open>Lists\<close>

definition normalize_keyword :: "string option \<Rightarrow> string option" where
  "normalize_keyword keyword =
     (case keyword of None \<Rightarrow> None | Some k \<Rightarrow> (case py_lower (py_strip k) of [] \<Rightarrow> None | n \<Rightarrow> Some n))"

text \<open>SQL's \<open>LIKE\<close>: \<open>%\<close> is any text, \<open>_\<close> any character, a backslash takes the next character as it is.\<close>

fun sql_like :: "string \<Rightarrow> string \<Rightarrow> bool" where
  "sql_like [] s = (s = [])"
| "sql_like (c # p) s =
     (if c = CHR ''%'' then sql_like p s \<or> (case s of [] \<Rightarrow> False | _ # t \<Rightarrow> sql_like (c # p) t)
      else if c = CHR ''_'' then (case s of [] \<Rightarrow> False | _ # t \<Rightarrow> sql_like p t)
      else if c = CHR 0x5C \<and> p \<noteq> [] then (case s of [] \<Rightarrow> False | x # t \<Rightarrow> x = hd p \<and> sql_like (tl p) t)
      else (case s of [] \<Rightarrow> False | x # t \<Rightarrow> x = c \<and> sql_like p t))"

text \<open>A row is found by a keyword when the pattern made of it matches one of the columns.\<close>

definition keyword_matches :: "string option \<Rightarrow> string list \<Rightarrow> bool" where
  "keyword_matches keyword columns \<longleftrightarrow>
     (case normalize_keyword keyword of
        None \<Rightarrow> True
      | Some n \<Rightarrow> list_ex (\<lambda>v. sql_like (''%'' @ n @ ''%'') (py_lower v)) columns)"

text \<open>An equality filter that applies when it is given.\<close>

definition filter_is :: "'a option \<Rightarrow> 'a option \<Rightarrow> bool" where
  "filter_is given_filter v \<longleftrightarrow> given_filter = None \<or> v = given_filter"

text \<open>
  \<open>ORDER BY\<close> with several keys, the first one the most significant: \<open>value\<close> gives the value of a column in a row (of a timestamp
  too). Rows with equal keys keep the order of the table, which SQL leaves open.
\<close>

definition ordered_rows :: "(string \<Rightarrow> 'r \<Rightarrow> 'k::linorder) \<Rightarrow> (string \<times> bool) list \<Rightarrow> 'r list \<Rightarrow> 'r list" where
  "ordered_rows value keys rows =
     foldr (\<lambda>(column, descending) rs. if descending then rev (sort_key (value column) (rev rs)) else sort_key (value column) rs) keys rows"

text \<open>The rows of a query in the order asked for, or in the default one, cut to a page.\<close>

definition select_page ::
  "(string \<Rightarrow> 'r \<Rightarrow> 'k::linorder) \<Rightarrow> (string \<times> bool) list \<Rightarrow> (string \<times> bool) option \<Rightarrow> nat \<Rightarrow> nat \<Rightarrow> 'r list \<Rightarrow> 'r list" where
  "select_page value default_order sort_by limit offset rows =
     take limit (drop offset (ordered_rows value (case sort_by of None \<Rightarrow> default_order | Some key \<Rightarrow> [key]) rows))"

text \<open>What every list operation of the services does: only the columns of \<open>allowed\<close> may be named, and the rows are counted and found.\<close>

definition listing ::
  "list_query \<Rightarrow> string list \<Rightarrow> string \<Rightarrow> int \<Rightarrow> ((string \<times> bool) option \<Rightarrow> nat \<Rightarrow> nat \<Rightarrow> 'r list) \<Rightarrow> 'r page_result res" where
  "listing q allowed default_key count find_page =
     res_bind (resolve_sort q (map (\<lambda>c. (c, c)) allowed) default_key) (\<lambda>sort_by.
       ROk \<lparr>pg_items = find_page (Some sort_by) (lq_limit q) (lq_offset q), pg_total = count, pg_limit = lq_limit q, pg_offset = lq_offset q\<rparr>)"

end
