(* ===== verification/UpstreamUrls.thy ===== *)
theory UpstreamUrls
  imports AuthService
begin

text \<open>
  Which base addresses an upstream channel may have (\<open>_validate_api_base\<close> and \<open>_is_internal_host\<close> of
  \<open>src/admin/catalog/service.py\<close>), with the parts of \<open>urllib.parse.urlsplit\<close> and \<open>ipaddress\<close> they use, on the characters below
  256. The reading of a literal IPv6 address is an argument: \<open>None\<close> when the text is none, else whether the address is
  loopback, private or link-local.
\<close>

section \<open>\<open>urlsplit\<close>\<close>

definition ascii_alpha :: "char \<Rightarrow> bool" where
  "ascii_alpha c = (let n = of_char c :: nat in (65 \<le> n \<and> n \<le> 90) \<or> (97 \<le> n \<and> n \<le> 122))"

definition scheme_char :: "char \<Rightarrow> bool" where
  "scheme_char c = (ascii_alpha c \<or> is_digit c \<or> c \<in> set ''+-.'')"

text \<open>Leading control characters and spaces go, and every tab and line end.\<close>

definition clean_url :: "string \<Rightarrow> string" where
  "clean_url url = filter (\<lambda>c. of_char c \<notin> {9, 10, 13 :: nat}) (dropWhile (\<lambda>c. (of_char c :: nat) \<le> 32) url)"

definition split_scheme :: "string \<Rightarrow> string \<times> string" where
  "split_scheme url =
     (case split_first (CHR '':'') url of
        Some (c # cs, rest) \<Rightarrow>
          if ascii_alpha c \<and> list_all scheme_char (c # cs) then (py_lower (c # cs), rest) else ([], url)
      | _ \<Rightarrow> ([], url))"

definition netloc_of :: "string \<Rightarrow> string" where
  "netloc_of rest = (if take 2 rest = ''//'' then takeWhile (\<lambda>c. c \<notin> set ''/?#'') (drop 2 rest) else [])"

text \<open>\<open>partition\<close>: the parts before and after the first separator; \<open>rpartition\<close> with the part after the last.\<close>

definition before :: "char \<Rightarrow> string \<Rightarrow> string" where "before c s = takeWhile (\<lambda>x. x \<noteq> c) s"
definition after_first :: "char \<Rightarrow> string \<Rightarrow> string" where "after_first c s = tl (dropWhile (\<lambda>x. x \<noteq> c) s)"
definition after_last :: "char \<Rightarrow> string \<Rightarrow> string" where "after_last c s = rev (before c (rev s))"

definition hex_digit :: "char \<Rightarrow> bool" where
  "hex_digit c = (is_digit c \<or> c \<in> set ''abcdefABCDEF'')"

definition bracketed_ok :: "(string \<Rightarrow> bool option) \<Rightarrow> string \<Rightarrow> bool" where
  "bracketed_ok ipv6 host =
     (case host of
        c # rest \<Rightarrow>
          if c = CHR ''v''
          then takeWhile hex_digit rest \<noteq> [] \<and> (case dropWhile hex_digit rest of x # y # _ \<Rightarrow> x = CHR ''.'' | _ \<Rightarrow> False)
          else ipv6 host \<noteq> None
      | [] \<Rightarrow> ipv6 host \<noteq> None)"

definition hostname_of :: "string \<Rightarrow> string option" where
  "hostname_of netloc =
     (let info = after_last (CHR ''@'') netloc;
          host = (if CHR 0x5B \<in> set info then before (CHR 0x5D) (after_first (CHR 0x5B) info) else before (CHR '':'') info)
      in if host = [] then None
         else Some (py_lower (before (CHR ''%'') host) @ dropWhile (\<lambda>x. x \<noteq> CHR ''%'') host))"

text \<open>The scheme and the host name; \<open>None\<close> is a \<open>ValueError\<close>.\<close>

definition url_split :: "(string \<Rightarrow> bool option) \<Rightarrow> string \<Rightarrow> (string \<times> string option) option" where
  "url_split ipv6 url =
     (case split_scheme (clean_url url) of
        (scheme, rest) \<Rightarrow>
          let netloc = netloc_of rest; opens = CHR 0x5B \<in> set netloc; closes = CHR 0x5D \<in> set netloc
          in if opens \<noteq> closes then None
             else if opens \<and> \<not> bracketed_ok ipv6 (before (CHR 0x5D) (after_first (CHR 0x5B) netloc)) then None
             else Some (scheme, hostname_of netloc))"

section \<open>Internal hosts\<close>

fun split_on :: "char \<Rightarrow> string \<Rightarrow> string list" where
  "split_on c [] = [[]]"
| "split_on c (x # xs) =
     (if x = c then [] # split_on c xs
      else (case split_on c xs of [] \<Rightarrow> [[x]] | w # ws \<Rightarrow> (x # w) # ws))"

definition octet_of :: "string \<Rightarrow> nat option" where
  "octet_of t =
     (if t \<noteq> [] \<and> list_all is_digit t \<and> length t \<le> 3 \<and> (t = ''0'' \<or> take 1 t \<noteq> ''0'') \<and> read_digits t \<le> 255
      then Some (read_digits t) else None)"

definition ipv4_of :: "string \<Rightarrow> nat option" where
  "ipv4_of host =
     (case map octet_of (split_on (CHR ''.'') host) of
        [Some a, Some b, Some c, Some d] \<Rightarrow> Some (((a * 256 + b) * 256 + c) * 256 + d)
      | _ \<Rightarrow> None)"

text \<open>The address and the prefix length of a network.\<close>

definition in_network :: "nat \<Rightarrow> nat \<times> nat \<Rightarrow> bool" where
  "in_network ip net = (ip div 2 ^ (32 - snd net) = fst net div 2 ^ (32 - snd net))"

definition dotted :: "nat \<Rightarrow> nat \<Rightarrow> nat \<Rightarrow> nat \<Rightarrow> nat" where
  "dotted a b c d = ((a * 256 + b) * 256 + c) * 256 + d"

definition PRIVATE_NETWORKS :: "(nat \<times> nat) list" where
  "PRIVATE_NETWORKS =
     [(dotted 0 0 0 0, 8), (dotted 10 0 0 0, 8), (dotted 127 0 0 0, 8), (dotted 169 254 0 0, 16), (dotted 172 16 0 0, 12),
      (dotted 192 0 0 0, 24), (dotted 192 0 0 170, 31), (dotted 192 0 2 0, 24), (dotted 192 168 0 0, 16), (dotted 198 18 0 0, 15),
      (dotted 198 51 100 0, 24), (dotted 203 0 113 0, 24), (dotted 240 0 0 0, 4), (dotted 255 255 255 255, 32)]"

definition PRIVATE_EXCEPTIONS :: "(nat \<times> nat) list" where
  "PRIVATE_EXCEPTIONS = [(dotted 192 0 0 9, 32), (dotted 192 0 0 10, 32)]"

definition internal_ipv4 :: "nat \<Rightarrow> bool" where
  "internal_ipv4 ip =
     (in_network ip (dotted 127 0 0 0, 8)
      \<or> (list_ex (in_network ip) PRIVATE_NETWORKS \<and> \<not> list_ex (in_network ip) PRIVATE_EXCEPTIONS)
      \<or> in_network ip (dotted 169 254 0 0, 16))"

definition is_internal_host :: "(string \<Rightarrow> bool option) \<Rightarrow> string \<Rightarrow> bool" where
  "is_internal_host ipv6 host =
     (if py_lower host = ''localhost'' then True
      else (case ipv4_of host of
              Some ip \<Rightarrow> internal_ipv4 ip
            | None \<Rightarrow> (case ipv6 host of None \<Rightarrow> False | Some internal \<Rightarrow> internal)))"

section \<open>Base addresses\<close>

definition safe_base :: "string \<Rightarrow> (string \<Rightarrow> bool option) \<Rightarrow> string \<times> string option \<Rightarrow> bool" where
  "safe_base environment ipv6 parsed =
     (case parsed of
        (scheme, Some host) \<Rightarrow>
          scheme = ''https''
          \<or> (scheme = ''http'' \<and> environment \<notin> {''prod'', ''production''} \<and> is_internal_host ipv6 host)
      | _ \<Rightarrow> False)"

definition validate_api_base :: "string \<Rightarrow> (string \<Rightarrow> bool option) \<Rightarrow> string option \<Rightarrow> 'a res \<Rightarrow> 'a res" where
  "validate_api_base environment ipv6 api_base k =
     (case api_base of
        None \<Rightarrow> k
      | Some url \<Rightarrow>
          (case url_split ipv6 url of
             None \<Rightarrow> RCrash
           | Some parsed \<Rightarrow> if safe_base environment ipv6 parsed then k else RErr (app_err EC_request_invalid 400)))"

end
