(* ===== verification/CatalogAdmin.thy ===== *)
theory CatalogAdmin
  imports AiTables UpstreamUrls
begin

text \<open>
  The administration of the catalog (\<open>src/admin/catalog\<close>: service, repository and payloads): upstream channels and their key
  pools, logical models, and the deployments that connect them. Every write needs the wildcard permission of the catalog and queues two
  hooks, the invalidation of the live routers and the bump of the catalog's generation. The cipher of upstream keys is an
  argument (\<open>None\<close>: it is not configured). A payload's literals and ranges are checked before the service runs; a field that
  was given as null is \<open>Some None\<close>.
\<close>

record catalog_env =
  ce_now :: int
  ce_environment :: string
  ce_ipv6 :: "string \<Rightarrow> bool option"
  ce_encrypt :: "string \<Rightarrow> string option"

definition publish_router_invalidation :: hook where
  "publish_router_invalidation s = snd (rcall (ruse (redis_publish ROUTER_INVALIDATE ''1'')) s)"

definition bump_catalog_cache_generation :: "int \<Rightarrow> hook" where
  "bump_catalog_cache_generation now s = snd (bump_catalog_generation now s)"

definition catalog_hooks :: "catalog_env \<Rightarrow> hook list" where
  "catalog_hooks env = [publish_router_invalidation, bump_catalog_cache_generation (ce_now env)]"

definition catalog_wildcard :: "authenticated_user \<Rightarrow> bool" where
  "catalog_wildcard actor \<longleftrightarrow> is_superuser actor \<or> has_permission actor ''ai:catalog:*''"

definition key_hint :: "string \<Rightarrow> string" where
  "key_hint plain = ''...'' @ (if 4 \<le> length plain then drop (length plain - 4) plain else plain)"

text \<open>A row that has to be there, one that has to be active too, and the statuses of a payload.\<close>

definition active_row :: "bool \<Rightarrow> 'a res \<Rightarrow> 'a res" where
  "active_row active k = ensure active EC_request_invalid 400 k"

definition status_given :: "active_status option option \<Rightarrow> string \<Rightarrow> string" where
  "status_given v old = (case v of Some (Some st) \<Rightarrow> active_status_value st | _ \<Rightarrow> old)"

section \<open>Channels\<close>

definition get_channel_by_name :: "string \<Rightarrow> ai_db \<Rightarrow> channel_row option" where
  "get_channel_by_name name db = scalar [c \<leftarrow> ai_channels db. cn_name c = name \<and> \<not> be_is_deleted c]"

definition channel_name_unique :: "string \<Rightarrow> int option \<Rightarrow> ai_db \<Rightarrow> bool" where
  "channel_name_unique name current_id db \<longleftrightarrow>
     (case get_channel_by_name name db of None \<Rightarrow> True | Some c \<Rightarrow> Some (be_id c) = current_id)"

definition channel_active_deployments :: "int \<Rightarrow> ai_db \<Rightarrow> int" where
  "channel_active_deployments channel_id db =
     int (length [d \<leftarrow> ai_deployments db. dy_channel_id d = channel_id \<and> \<not> be_is_deleted d \<and> dy_status d = ''active''])"

record channel_create =
  nc_name :: string
  nc_provider :: string
  nc_protocol :: string
  nc_api_base :: "string option"
  nc_extra_config :: "(string \<times> json) list option"
  nc_status :: active_status
  nc_remark :: "string option"

definition new_channel :: "int \<Rightarrow> channel_create \<Rightarrow> authenticated_user \<Rightarrow> channel_row" where
  "new_channel new_id p actor =
     \<lparr>be_id = new_id, be_is_deleted = False, be_created_by = Some (au_user_id actor), be_create_dept = au_department_id actor,
      be_updated_by = Some (au_user_id actor), cn_name = nc_name p, cn_provider = nc_provider p, cn_protocol = nc_protocol p,
      cn_api_base = nc_api_base p, cn_extra_config = nc_extra_config p, cn_status = active_status_value (nc_status p),
      cn_remark = nc_remark p\<rparr>"

definition create_channel :: "catalog_env \<Rightarrow> int \<Rightarrow> channel_create \<Rightarrow> authenticated_user \<Rightarrow> (ai_db, channel_row) admin_op" where
  "create_channel env new_id p actor = db_op (\<lambda>db.
     ensure (catalog_wildcard actor) EC_auth_forbidden 403
     (validate_api_base (ce_environment env) (ce_ipv6 env) (nc_api_base p)
     (ensure (channel_name_unique (nc_name p) None db) EC_request_invalid 400
     (res_bind (repo_create (\<lambda>c. cn_name c = nc_name p \<and> \<not> be_is_deleted c) (new_channel new_id p actor) (ai_channels db)) (\<lambda>rows.
       ROk (new_channel new_id p actor, db\<lparr>ai_channels := rows\<rparr>, catalog_hooks env))))))"

record channel_update =
  pc_name :: "string option option"
  pc_provider :: "string option option"
  pc_protocol :: "string option option"
  pc_api_base :: "string option option"
  pc_extra_config :: "(string \<times> json) list option option"
  pc_status :: "active_status option option"
  pc_remark :: "string option option"

definition channel_update_fits :: "channel_update \<Rightarrow> bool" where
  "channel_update_fits p \<longleftrightarrow>
     pc_name p \<noteq> Some None \<and> pc_provider p \<noteq> Some None \<and> pc_protocol p \<noteq> Some None \<and> pc_status p \<noteq> Some None"

definition apply_channel_update :: "channel_update \<Rightarrow> authenticated_user \<Rightarrow> channel_row \<Rightarrow> channel_row" where
  "apply_channel_update p actor c =
     c\<lparr>cn_name := given_value (pc_name p) (cn_name c), cn_provider := given_value (pc_provider p) (cn_provider c),
       cn_protocol := given_value (pc_protocol p) (cn_protocol c), cn_api_base := given (pc_api_base p) (cn_api_base c),
       cn_extra_config := given (pc_extra_config p) (cn_extra_config c), cn_status := status_given (pc_status p) (cn_status c),
       cn_remark := given (pc_remark p) (cn_remark c), be_updated_by := Some (au_user_id actor)\<rparr>"

definition update_channel :: "catalog_env \<Rightarrow> int \<Rightarrow> channel_update \<Rightarrow> authenticated_user \<Rightarrow> (ai_db, channel_row) admin_op" where
  "update_channel env channel_id p actor = db_op (\<lambda>db.
     fetched (repo_get channel_id (ai_channels db)) (\<lambda>channel.
     ensure (catalog_wildcard actor) EC_auth_forbidden 403
     (validate_api_base (ce_environment env) (ce_ipv6 env) (given (pc_api_base p) None)
     (ensure (case pc_name p of Some (Some name) \<Rightarrow> channel_name_unique name (Some (be_id channel)) db | _ \<Rightarrow> True)
        EC_request_invalid 400
     (ensure (channel_update_fits p) EC_request_conflict 409
     (ROk (apply_channel_update p actor channel,
           db\<lparr>ai_channels := update_row channel_id (apply_channel_update p actor) (ai_channels db)\<rparr>, catalog_hooks env)))))))"

definition delete_channel :: "catalog_env \<Rightarrow> int \<Rightarrow> authenticated_user \<Rightarrow> (ai_db, unit) admin_op" where
  "delete_channel env channel_id actor = db_op (\<lambda>db.
     fetched (repo_get channel_id (ai_channels db)) (\<lambda>channel.
     ensure (catalog_wildcard actor) EC_auth_forbidden 403
     (ensure (\<not> 0 < channel_active_deployments channel_id db) EC_request_conflict 409
     (ROk ((), db\<lparr>ai_channels := soft_delete_row (Some (au_user_id actor)) channel_id (ai_channels db)\<rparr>, catalog_hooks env)))))"

section \<open>Upstream keys\<close>

record key_create =
  nk_channel_id :: int
  nk_alias :: string
  nk_api_key :: string
  nk_status :: active_status
  nk_rpm_limit :: "int option"
  nk_tpm_limit :: "int option"
  nk_weight :: int
  nk_priority :: int
  nk_remark :: "string option"

definition new_key :: "int \<Rightarrow> key_create \<Rightarrow> string \<Rightarrow> authenticated_user \<Rightarrow> key_row" where
  "new_key new_id p ciphertext actor =
     \<lparr>be_id = new_id, be_is_deleted = False, be_created_by = Some (au_user_id actor), be_create_dept = au_department_id actor,
      be_updated_by = Some (au_user_id actor), ky_channel_id = nk_channel_id p, ky_alias = nk_alias p,
      ky_api_key_encrypted = ciphertext, ky_key_hint = key_hint (nk_api_key p), ky_status = active_status_value (nk_status p),
      ky_rpm_limit = nk_rpm_limit p, ky_tpm_limit = nk_tpm_limit p, ky_weight = nk_weight p, ky_priority = nk_priority p,
      ky_remark = nk_remark p\<rparr>"

definition create_channel_key :: "catalog_env \<Rightarrow> int \<Rightarrow> key_create \<Rightarrow> authenticated_user \<Rightarrow> (ai_db, key_row) admin_op" where
  "create_channel_key env new_id p actor = db_op (\<lambda>db.
     ensure (catalog_wildcard actor) EC_auth_forbidden 403
     (fetched (repo_get (nk_channel_id p) (ai_channels db)) (\<lambda>_.
     (case ce_encrypt env (nk_api_key p) of
        None \<Rightarrow> RCrash
      | Some ciphertext \<Rightarrow>
          res_bind (repo_create (\<lambda>_. False) (new_key new_id p ciphertext actor) (ai_keys db)) (\<lambda>rows.
            ROk (new_key new_id p ciphertext actor, db\<lparr>ai_keys := rows\<rparr>, catalog_hooks env))))))"

record key_update =
  pk_channel_id :: "int option option"
  pk_alias :: "string option option"
  pk_status :: "active_status option option"
  pk_rpm_limit :: "int option option"
  pk_tpm_limit :: "int option option"
  pk_weight :: "int option option"
  pk_priority :: "int option option"
  pk_remark :: "string option option"

definition key_update_fits :: "key_update \<Rightarrow> bool" where
  "key_update_fits p \<longleftrightarrow>
     pk_channel_id p \<noteq> Some None \<and> pk_alias p \<noteq> Some None \<and> pk_status p \<noteq> Some None \<and> pk_weight p \<noteq> Some None
     \<and> pk_priority p \<noteq> Some None"

definition apply_key_update :: "key_update \<Rightarrow> authenticated_user \<Rightarrow> key_row \<Rightarrow> key_row" where
  "apply_key_update p actor k =
     k\<lparr>ky_channel_id := given_value (pk_channel_id p) (ky_channel_id k), ky_alias := given_value (pk_alias p) (ky_alias k),
       ky_status := status_given (pk_status p) (ky_status k), ky_rpm_limit := given (pk_rpm_limit p) (ky_rpm_limit k),
       ky_tpm_limit := given (pk_tpm_limit p) (ky_tpm_limit k), ky_weight := given_value (pk_weight p) (ky_weight k),
       ky_priority := given_value (pk_priority p) (ky_priority k), ky_remark := given (pk_remark p) (ky_remark k),
       be_updated_by := Some (au_user_id actor)\<rparr>"

definition update_channel_key :: "catalog_env \<Rightarrow> int \<Rightarrow> key_update \<Rightarrow> authenticated_user \<Rightarrow> (ai_db, key_row) admin_op" where
  "update_channel_key env key_id p actor = db_op (\<lambda>db.
     fetched (repo_get key_id (ai_keys db)) (\<lambda>key.
     ensure (catalog_wildcard actor) EC_auth_forbidden 403
     (ensure (case pk_channel_id p of Some (Some c) \<Rightarrow> repo_get c (ai_channels db) \<noteq> None | _ \<Rightarrow> True) EC_request_invalid 404
     (ensure (key_update_fits p) EC_request_conflict 409
     (ROk (apply_key_update p actor key, db\<lparr>ai_keys := update_row key_id (apply_key_update p actor) (ai_keys db)\<rparr>,
           catalog_hooks env))))))"

definition delete_channel_key :: "catalog_env \<Rightarrow> int \<Rightarrow> authenticated_user \<Rightarrow> (ai_db, unit) admin_op" where
  "delete_channel_key env key_id actor = db_op (\<lambda>db.
     fetched (repo_get key_id (ai_keys db)) (\<lambda>key.
     ensure (catalog_wildcard actor) EC_auth_forbidden 403
     (ROk ((), db\<lparr>ai_keys := soft_delete_row (Some (au_user_id actor)) key_id (ai_keys db)\<rparr>, catalog_hooks env))))"

definition rotate_channel_key :: "catalog_env \<Rightarrow> int \<Rightarrow> string \<Rightarrow> authenticated_user \<Rightarrow> (ai_db, key_row) admin_op" where
  "rotate_channel_key env key_id new_api_key actor = db_op (\<lambda>db.
     fetched (repo_get key_id (ai_keys db)) (\<lambda>key.
     ensure (catalog_wildcard actor) EC_auth_forbidden 403
     (case ce_encrypt env new_api_key of
        None \<Rightarrow> RCrash
      | Some ciphertext \<Rightarrow>
          (let rotate = (\<lambda>k. k\<lparr>ky_api_key_encrypted := ciphertext, ky_key_hint := key_hint new_api_key,
                                be_updated_by := Some (au_user_id actor)\<rparr>)
           in ROk (rotate key, db\<lparr>ai_keys := update_row key_id rotate (ai_keys db)\<rparr>, catalog_hooks env)))))"

section \<open>Logical models\<close>

definition get_model_by_name :: "string \<Rightarrow> ai_db \<Rightarrow> model_row option" where
  "get_model_by_name name db = scalar [m \<leftarrow> ai_models db. mo_name m = name \<and> \<not> be_is_deleted m]"

definition model_name_unique :: "string \<Rightarrow> int option \<Rightarrow> ai_db \<Rightarrow> bool" where
  "model_name_unique name current_id db \<longleftrightarrow>
     (case get_model_by_name name db of None \<Rightarrow> True | Some m \<Rightarrow> Some (be_id m) = current_id)"

definition model_active_deployments :: "int \<Rightarrow> ai_db \<Rightarrow> int" where
  "model_active_deployments model_id db =
     int (length [d \<leftarrow> ai_deployments db. dy_logical_model_id d = model_id \<and> \<not> be_is_deleted d \<and> dy_status d = ''active''])"

record model_create =
  nm_name :: string
  nm_display_name :: string
  nm_category :: "string option"
  nm_sort_order :: int
  nm_context_length :: "int option"
  nm_price_input :: "dec option"
  nm_price_output :: "dec option"
  nm_status :: active_status
  nm_remark :: "string option"

definition new_model :: "int \<Rightarrow> model_create \<Rightarrow> authenticated_user \<Rightarrow> model_row" where
  "new_model new_id p actor =
     \<lparr>be_id = new_id, be_is_deleted = False, be_created_by = Some (au_user_id actor), be_create_dept = au_department_id actor,
      be_updated_by = Some (au_user_id actor), mo_name = nm_name p, mo_display_name = nm_display_name p, mo_category = nm_category p,
      mo_sort_order = nm_sort_order p, mo_context_length = nm_context_length p, mo_price_input = nm_price_input p,
      mo_price_output = nm_price_output p, mo_status = active_status_value (nm_status p), mo_remark = nm_remark p\<rparr>"

definition create_model :: "catalog_env \<Rightarrow> int \<Rightarrow> model_create \<Rightarrow> authenticated_user \<Rightarrow> (ai_db, model_row) admin_op" where
  "create_model env new_id p actor = db_op (\<lambda>db.
     ensure (catalog_wildcard actor) EC_auth_forbidden 403
     (ensure (model_name_unique (nm_name p) None db) EC_request_invalid 400
     (res_bind (repo_create (\<lambda>m. mo_name m = nm_name p \<and> \<not> be_is_deleted m) (new_model new_id p actor) (ai_models db)) (\<lambda>rows.
       ROk (new_model new_id p actor, db\<lparr>ai_models := rows\<rparr>, catalog_hooks env)))))"

record model_update =
  pm_name :: "string option option"
  pm_display_name :: "string option option"
  pm_category :: "string option option"
  pm_sort_order :: "int option option"
  pm_context_length :: "int option option"
  pm_price_input :: "dec option option"
  pm_price_output :: "dec option option"
  pm_status :: "active_status option option"
  pm_remark :: "string option option"

definition model_update_fits :: "model_update \<Rightarrow> bool" where
  "model_update_fits p \<longleftrightarrow>
     pm_name p \<noteq> Some None \<and> pm_display_name p \<noteq> Some None \<and> pm_sort_order p \<noteq> Some None \<and> pm_status p \<noteq> Some None"

definition apply_model_update :: "model_update \<Rightarrow> authenticated_user \<Rightarrow> model_row \<Rightarrow> model_row" where
  "apply_model_update p actor m =
     m\<lparr>mo_name := given_value (pm_name p) (mo_name m), mo_display_name := given_value (pm_display_name p) (mo_display_name m),
       mo_category := given (pm_category p) (mo_category m), mo_sort_order := given_value (pm_sort_order p) (mo_sort_order m),
       mo_context_length := given (pm_context_length p) (mo_context_length m),
       mo_price_input := given (pm_price_input p) (mo_price_input m), mo_price_output := given (pm_price_output p) (mo_price_output m),
       mo_status := status_given (pm_status p) (mo_status m), mo_remark := given (pm_remark p) (mo_remark m),
       be_updated_by := Some (au_user_id actor)\<rparr>"

definition update_model :: "catalog_env \<Rightarrow> int \<Rightarrow> model_update \<Rightarrow> authenticated_user \<Rightarrow> (ai_db, model_row) admin_op" where
  "update_model env model_id p actor = db_op (\<lambda>db.
     fetched (repo_get model_id (ai_models db)) (\<lambda>model.
     ensure (catalog_wildcard actor) EC_auth_forbidden 403
     (ensure (case pm_name p of Some (Some name) \<Rightarrow> model_name_unique name (Some (be_id model)) db | _ \<Rightarrow> True)
        EC_request_invalid 400
     (ensure (model_update_fits p) EC_request_conflict 409
     (ROk (apply_model_update p actor model, db\<lparr>ai_models := update_row model_id (apply_model_update p actor) (ai_models db)\<rparr>,
           catalog_hooks env))))))"

definition delete_model :: "catalog_env \<Rightarrow> int \<Rightarrow> authenticated_user \<Rightarrow> (ai_db, unit) admin_op" where
  "delete_model env model_id actor = db_op (\<lambda>db.
     fetched (repo_get model_id (ai_models db)) (\<lambda>model.
     ensure (catalog_wildcard actor) EC_auth_forbidden 403
     (ensure (\<not> 0 < model_active_deployments model_id db) EC_request_conflict 409
     (ROk ((), db\<lparr>ai_models := soft_delete_row (Some (au_user_id actor)) model_id (ai_models db)\<rparr>, catalog_hooks env)))))"

section \<open>Deployments\<close>

definition get_by_logical_model_channel :: "int \<Rightarrow> int \<Rightarrow> ai_db \<Rightarrow> deployment_row option" where
  "get_by_logical_model_channel model_id channel_id db =
     scalar [d \<leftarrow> ai_deployments db. dy_logical_model_id d = model_id \<and> dy_channel_id d = channel_id \<and> \<not> be_is_deleted d]"

definition deployment_unique :: "int \<Rightarrow> int \<Rightarrow> int option \<Rightarrow> ai_db \<Rightarrow> bool" where
  "deployment_unique model_id channel_id current_id db \<longleftrightarrow>
     (case get_by_logical_model_channel model_id channel_id db of None \<Rightarrow> True | Some d \<Rightarrow> Some (be_id d) = current_id)"

text \<open>\<open>_require_active_model\<close> and \<open>_require_active_channel\<close>; an id that was given as null is found nowhere.\<close>

definition require_active_model :: "int option \<Rightarrow> ai_db \<Rightarrow> 'a res \<Rightarrow> 'a res" where
  "require_active_model model_id db k =
     fetched (Option.bind model_id (\<lambda>i. repo_get i (ai_models db))) (\<lambda>m. active_row (mo_status m = ''active'') k)"

definition require_active_channel :: "int option \<Rightarrow> ai_db \<Rightarrow> 'a res \<Rightarrow> 'a res" where
  "require_active_channel channel_id db k =
     fetched (Option.bind channel_id (\<lambda>i. repo_get i (ai_channels db))) (\<lambda>c. active_row (cn_status c = ''active'') k)"

record deployment_create =
  nd_logical_model_id :: int
  nd_channel_id :: int
  nd_upstream_model :: string
  nd_weight :: int
  nd_priority :: int
  nd_status :: active_status
  nd_remark :: "string option"

definition new_deployment :: "int \<Rightarrow> deployment_create \<Rightarrow> authenticated_user \<Rightarrow> deployment_row" where
  "new_deployment new_id p actor =
     \<lparr>be_id = new_id, be_is_deleted = False, be_created_by = Some (au_user_id actor), be_create_dept = au_department_id actor,
      be_updated_by = Some (au_user_id actor), dy_logical_model_id = nd_logical_model_id p, dy_channel_id = nd_channel_id p,
      dy_upstream_model = nd_upstream_model p, dy_weight = nd_weight p, dy_priority = nd_priority p,
      dy_status = active_status_value (nd_status p), dy_remark = nd_remark p\<rparr>"

definition create_deployment :: "catalog_env \<Rightarrow> int \<Rightarrow> deployment_create \<Rightarrow> authenticated_user \<Rightarrow> (ai_db, deployment_row) admin_op" where
  "create_deployment env new_id p actor = db_op (\<lambda>db.
     ensure (catalog_wildcard actor) EC_auth_forbidden 403
     (require_active_model (Some (nd_logical_model_id p)) db
     (require_active_channel (Some (nd_channel_id p)) db
     (ensure (deployment_unique (nd_logical_model_id p) (nd_channel_id p) None db) EC_request_invalid 400
     (res_bind (repo_create (\<lambda>d. dy_logical_model_id d = nd_logical_model_id p \<and> dy_channel_id d = nd_channel_id p \<and> \<not> be_is_deleted d)
                  (new_deployment new_id p actor) (ai_deployments db)) (\<lambda>rows.
       ROk (new_deployment new_id p actor, db\<lparr>ai_deployments := rows\<rparr>, catalog_hooks env)))))))"

record deployment_update =
  pd_logical_model_id :: "int option option"
  pd_channel_id :: "int option option"
  pd_upstream_model :: "string option option"
  pd_weight :: "int option option"
  pd_priority :: "int option option"
  pd_status :: "active_status option option"
  pd_remark :: "string option option"

definition deployment_update_fits :: "deployment_update \<Rightarrow> bool" where
  "deployment_update_fits p \<longleftrightarrow>
     pd_upstream_model p \<noteq> Some None \<and> pd_weight p \<noteq> Some None \<and> pd_priority p \<noteq> Some None \<and> pd_status p \<noteq> Some None"

definition apply_deployment_update :: "deployment_update \<Rightarrow> authenticated_user \<Rightarrow> deployment_row \<Rightarrow> deployment_row" where
  "apply_deployment_update p actor d =
     d\<lparr>dy_logical_model_id := given_value (pd_logical_model_id p) (dy_logical_model_id d),
       dy_channel_id := given_value (pd_channel_id p) (dy_channel_id d),
       dy_upstream_model := given_value (pd_upstream_model p) (dy_upstream_model d),
       dy_weight := given_value (pd_weight p) (dy_weight d), dy_priority := given_value (pd_priority p) (dy_priority d),
       dy_status := status_given (pd_status p) (dy_status d), dy_remark := given (pd_remark p) (dy_remark d),
       be_updated_by := Some (au_user_id actor)\<rparr>"

definition update_deployment :: "catalog_env \<Rightarrow> int \<Rightarrow> deployment_update \<Rightarrow> authenticated_user \<Rightarrow> (ai_db, deployment_row) admin_op" where
  "update_deployment env deployment_id p actor = db_op (\<lambda>db.
     fetched (repo_get deployment_id (ai_deployments db)) (\<lambda>deployment.
     ensure (catalog_wildcard actor) EC_auth_forbidden 403
     ((case pd_logical_model_id p of None \<Rightarrow> (\<lambda>k. k) | Some m \<Rightarrow> require_active_model m db)
     ((case pd_channel_id p of None \<Rightarrow> (\<lambda>k. k) | Some c \<Rightarrow> require_active_channel c db)
     (ensure (pd_logical_model_id p = None \<and> pd_channel_id p = None
              \<or> deployment_unique (given_value (pd_logical_model_id p) (dy_logical_model_id deployment))
                  (given_value (pd_channel_id p) (dy_channel_id deployment)) (Some (be_id deployment)) db) EC_request_invalid 400
     (ensure (deployment_update_fits p) EC_request_conflict 409
     (ROk (apply_deployment_update p actor deployment,
           db\<lparr>ai_deployments := update_row deployment_id (apply_deployment_update p actor) (ai_deployments db)\<rparr>,
           catalog_hooks env))))))))"

definition delete_deployment :: "catalog_env \<Rightarrow> int \<Rightarrow> authenticated_user \<Rightarrow> (ai_db, unit) admin_op" where
  "delete_deployment env deployment_id actor = db_op (\<lambda>db.
     fetched (repo_get deployment_id (ai_deployments db)) (\<lambda>deployment.
     ensure (catalog_wildcard actor) EC_auth_forbidden 403
     (ROk ((), db\<lparr>ai_deployments := soft_delete_row (Some (au_user_id actor)) deployment_id (ai_deployments db)\<rparr>,
           catalog_hooks env))))"

section \<open>Reading\<close>

definition CHANNEL_SORT_COLUMNS :: "string list" where
  "CHANNEL_SORT_COLUMNS = [''id'', ''name'', ''provider'', ''protocol'', ''created_at'', ''updated_at'']"

definition KEY_SORT_COLUMNS :: "string list" where
  "KEY_SORT_COLUMNS = [''id'', ''alias'', ''status'', ''weight'', ''priority'', ''created_at'', ''updated_at'']"

definition MODEL_SORT_COLUMNS :: "string list" where
  "MODEL_SORT_COLUMNS = [''id'', ''name'', ''display_name'', ''sort_order'', ''created_at'', ''updated_at'']"

definition DEPLOYMENT_SORT_COLUMNS :: "string list" where
  "DEPLOYMENT_SORT_COLUMNS =
     [''id'', ''logical_model_id'', ''channel_id'', ''upstream_model'', ''weight'', ''priority'', ''created_at'', ''updated_at'']"

definition channel_filters :: "string option \<Rightarrow> channel_row \<Rightarrow> bool" where
  "channel_filters keyword r \<longleftrightarrow> \<not> be_is_deleted r \<and> keyword_matches keyword [cn_name r, cn_provider r]"

definition find_channels ::
  "(string \<Rightarrow> channel_row \<Rightarrow> 'k::linorder) \<Rightarrow> string option \<Rightarrow> ai_db \<Rightarrow> (string \<times> bool) option \<Rightarrow> nat \<Rightarrow> nat \<Rightarrow> channel_row list" where
  "find_channels value keyword db sort_by limit offset =
     select_page value [(''name'', False)] sort_by limit offset (filter (channel_filters keyword) (ai_channels db))"

definition count_channels :: "string option \<Rightarrow> ai_db \<Rightarrow> int" where
  "count_channels keyword db = int (length (filter (channel_filters keyword) (ai_channels db)))"

definition list_channels :: "(string \<Rightarrow> channel_row \<Rightarrow> 'k::linorder) \<Rightarrow> list_query \<Rightarrow> ai_db \<Rightarrow> channel_row page_result res" where
  "list_channels value q db =
     listing q CHANNEL_SORT_COLUMNS ''name'' (count_channels (lq_keyword q) db) (find_channels value (lq_keyword q) db)"

definition key_filters :: "int option \<Rightarrow> string option \<Rightarrow> key_row \<Rightarrow> bool" where
  "key_filters channel_id keyword r \<longleftrightarrow> 
     \<not> be_is_deleted r \<and> filter_is channel_id (Some (ky_channel_id r)) \<and> keyword_matches keyword [ky_alias r]"

definition find_channel_keys ::
  "(string \<Rightarrow> key_row \<Rightarrow> 'k::linorder) \<Rightarrow> int option \<Rightarrow> string option \<Rightarrow> ai_db \<Rightarrow> (string \<times> bool) option \<Rightarrow> nat \<Rightarrow> nat \<Rightarrow> key_row list" where
  "find_channel_keys value channel_id keyword db sort_by limit offset =
     select_page value [(''priority'', False), (''id'', False)] sort_by limit offset (filter (key_filters channel_id keyword) (ai_keys db))"

definition count_channel_keys :: "int option \<Rightarrow> string option \<Rightarrow> ai_db \<Rightarrow> int" where
  "count_channel_keys channel_id keyword db = int (length (filter (key_filters channel_id keyword) (ai_keys db)))"

definition list_channel_keys :: "(string \<Rightarrow> key_row \<Rightarrow> 'k::linorder) \<Rightarrow> int option \<Rightarrow> list_query \<Rightarrow> ai_db \<Rightarrow> key_row page_result res" where
  "list_channel_keys value channel_id q db =
     listing q KEY_SORT_COLUMNS ''priority'' (count_channel_keys channel_id (lq_keyword q) db) (find_channel_keys value channel_id (lq_keyword q) db)"

definition model_filters :: "string option \<Rightarrow> model_row \<Rightarrow> bool" where
  "model_filters keyword r \<longleftrightarrow> \<not> be_is_deleted r \<and> keyword_matches keyword [mo_name r, mo_display_name r]"

definition find_models ::
  "(string \<Rightarrow> model_row \<Rightarrow> 'k::linorder) \<Rightarrow> string option \<Rightarrow> ai_db \<Rightarrow> (string \<times> bool) option \<Rightarrow> nat \<Rightarrow> nat \<Rightarrow> model_row list" where
  "find_models value keyword db sort_by limit offset =
     select_page value [(''sort_order'', False), (''name'', False)] sort_by limit offset (filter (model_filters keyword) (ai_models db))"

definition count_models :: "string option \<Rightarrow> ai_db \<Rightarrow> int" where
  "count_models keyword db = int (length (filter (model_filters keyword) (ai_models db)))"

definition list_models :: "(string \<Rightarrow> model_row \<Rightarrow> 'k::linorder) \<Rightarrow> list_query \<Rightarrow> ai_db \<Rightarrow> model_row page_result res" where
  "list_models value q db =
     listing q MODEL_SORT_COLUMNS ''sort_order'' (count_models (lq_keyword q) db) (find_models value (lq_keyword q) db)"

definition deployment_filters :: "int option \<Rightarrow> string option \<Rightarrow> deployment_row \<Rightarrow> bool" where
  "deployment_filters model_id keyword r \<longleftrightarrow> 
     \<not> be_is_deleted r \<and> filter_is model_id (Some (dy_logical_model_id r)) \<and> keyword_matches keyword [dy_upstream_model r]"

definition find_deployments ::
  "(string \<Rightarrow> deployment_row \<Rightarrow> 'k::linorder) \<Rightarrow> int option \<Rightarrow> string option \<Rightarrow> ai_db \<Rightarrow> (string \<times> bool) option \<Rightarrow> nat \<Rightarrow> nat \<Rightarrow> deployment_row list" where
  "find_deployments value model_id keyword db sort_by limit offset =
     select_page value [(''priority'', False), (''id'', False)] sort_by limit offset (filter (deployment_filters model_id keyword) (ai_deployments db))"

definition count_deployments :: "int option \<Rightarrow> string option \<Rightarrow> ai_db \<Rightarrow> int" where
  "count_deployments model_id keyword db = int (length (filter (deployment_filters model_id keyword) (ai_deployments db)))"

definition list_deployments :: "(string \<Rightarrow> deployment_row \<Rightarrow> 'k::linorder) \<Rightarrow> int option \<Rightarrow> list_query \<Rightarrow> ai_db \<Rightarrow> deployment_row page_result res" where
  "list_deployments value model_id q db =
     listing q DEPLOYMENT_SORT_COLUMNS ''priority'' (count_deployments model_id (lq_keyword q) db) (find_deployments value model_id (lq_keyword q) db)"

definition get_channel :: "int \<Rightarrow> ai_db \<Rightarrow> channel_row res" where
  "get_channel i db = fetched (repo_get i (ai_channels db)) ROk"

definition get_channel_key :: "int \<Rightarrow> ai_db \<Rightarrow> key_row res" where
  "get_channel_key i db = fetched (repo_get i (ai_keys db)) ROk"

definition get_model :: "int \<Rightarrow> ai_db \<Rightarrow> model_row res" where
  "get_model i db = fetched (repo_get i (ai_models db)) ROk"

definition get_deployment :: "int \<Rightarrow> ai_db \<Rightarrow> deployment_row res" where
  "get_deployment i db = fetched (repo_get i (ai_deployments db)) ROk"

end
