(* ===== verification/GrantAdmin.thy ===== *)
theory GrantAdmin
  imports AiTables
begin

text \<open>
  The administration of model grants, quota rules, rate-limit rules and platform keys (\<open>src/admin\<close>: \<open>grants\<close>, \<open>quota\<close>,
  \<open>rate_limits\<close>, \<open>credentials\<close>, each with service, repository and payloads). Grants and quota rules queue the bump of the
  generation of the subject they concern. The random part of a new key and the digest of keys are arguments.
\<close>

section \<open>Grants\<close>

definition existing_grant :: "string \<Rightarrow> int \<Rightarrow> int \<Rightarrow> grant_row \<Rightarrow> bool" where
  "existing_grant scope scope_id model_id g \<longleftrightarrow>
     gr_scope g = scope \<and> gr_scope_id g = scope_id \<and> gr_logical_model_id g = model_id \<and> \<not> be_is_deleted g"

definition default_grant :: "string \<Rightarrow> int \<Rightarrow> grant_row \<Rightarrow> bool" where
  "default_grant scope scope_id g \<longleftrightarrow> gr_scope g = scope \<and> gr_scope_id g = scope_id \<and> gr_is_default g \<and> \<not> be_is_deleted g"

definition get_existing_grant :: "string \<Rightarrow> int \<Rightarrow> int \<Rightarrow> ai_db \<Rightarrow> grant_row option" where
  "get_existing_grant scope scope_id model_id db = scalar (filter (existing_grant scope scope_id model_id) (ai_grants db))"

definition get_default_grant :: "string \<Rightarrow> int \<Rightarrow> ai_db \<Rightarrow> grant_row option" where
  "get_default_grant scope scope_id db = scalar (filter (default_grant scope scope_id) (ai_grants db))"

definition clear_default :: "string \<Rightarrow> int \<Rightarrow> authenticated_user \<Rightarrow> ai_db \<Rightarrow> ai_db" where
  "clear_default scope scope_id actor db =
     (case get_default_grant scope scope_id db of
        None \<Rightarrow> db
      | Some current \<Rightarrow>
          db\<lparr>ai_grants := update_row (be_id current) (\<lambda>g. g\<lparr>gr_is_default := False, be_updated_by := Some (au_user_id actor)\<rparr>)
                            (ai_grants db)\<rparr>)"

definition bump_grant_cache_generation :: "int \<Rightarrow> string \<Rightarrow> int \<Rightarrow> hook" where
  "bump_grant_cache_generation now scope scope_id s =
     (if scope = ''user'' then bump_grant_generation now (Some scope_id) None s
      else if scope = ''department'' then bump_grant_generation now None (Some scope_id) s
      else s)"

record grant_create =
  ng_scope :: grant_scope
  ng_scope_id :: int
  ng_logical_model_id :: int
  ng_is_default :: bool
  ng_remark :: "string option"

definition subject_exists :: "grant_scope \<Rightarrow> int \<Rightarrow> ai_db \<Rightarrow> bool" where
  "subject_exists scope scope_id db =
     (case scope of GS_user \<Rightarrow> user_exists scope_id db | GS_department \<Rightarrow> department_exists scope_id db)"

definition new_grant :: "int \<Rightarrow> grant_create \<Rightarrow> authenticated_user \<Rightarrow> grant_row" where
  "new_grant new_id p actor =
     \<lparr>be_id = new_id, be_is_deleted = False, be_created_by = Some (au_user_id actor), be_create_dept = au_department_id actor,
      be_updated_by = Some (au_user_id actor), gr_scope = grant_scope_value (ng_scope p), gr_scope_id = ng_scope_id p,
      gr_logical_model_id = ng_logical_model_id p, gr_is_default = ng_is_default p, gr_remark = ng_remark p\<rparr>"

definition create_grant :: "int \<Rightarrow> int \<Rightarrow> grant_create \<Rightarrow> authenticated_user \<Rightarrow> (ai_db, grant_row) admin_op" where
  "create_grant now new_id p actor = db_op (\<lambda>db.
     let scope = grant_scope_value (ng_scope p) in
     ensure (subject_exists (ng_scope p) (ng_scope_id p) db) EC_request_invalid 400
     (ensure (model_exists (ng_logical_model_id p) db) EC_request_invalid 400
     (ensure (get_existing_grant scope (ng_scope_id p) (ng_logical_model_id p) db = None) EC_request_invalid 400
     (let db1 = (if ng_is_default p then clear_default scope (ng_scope_id p) actor db else db)
      in res_bind (repo_create (\<lambda>g. existing_grant scope (ng_scope_id p) (ng_logical_model_id p) g
                                    \<or> (ng_is_default p \<and> default_grant scope (ng_scope_id p) g))
                     (new_grant new_id p actor) (ai_grants db1)) (\<lambda>rows.
           ROk (new_grant new_id p actor, db1\<lparr>ai_grants := rows\<rparr>, [bump_grant_cache_generation now scope (ng_scope_id p)]))))))"

record grant_update =
  pg_is_default :: "bool option option"
  pg_remark :: "string option option"

definition apply_grant_update :: "grant_update \<Rightarrow> authenticated_user \<Rightarrow> grant_row \<Rightarrow> grant_row" where
  "apply_grant_update p actor g =
     g\<lparr>gr_is_default := given_value (pg_is_default p) (gr_is_default g), gr_remark := given (pg_remark p) (gr_remark g),
       be_updated_by := Some (au_user_id actor)\<rparr>"

definition update_grant :: "int \<Rightarrow> int \<Rightarrow> grant_update \<Rightarrow> authenticated_user \<Rightarrow> (ai_db, grant_row) admin_op" where
  "update_grant now grant_id p actor = db_op (\<lambda>db.
     fetched (repo_get grant_id (ai_grants db)) (\<lambda>grant.
     let db1 = (if pg_is_default p = Some (Some True) \<and> \<not> gr_is_default grant
                then clear_default (gr_scope grant) (gr_scope_id grant) actor db else db)
     in ensure (pg_is_default p \<noteq> Some None) EC_request_conflict 409
        (ROk (apply_grant_update p actor grant,
              db1\<lparr>ai_grants := update_row grant_id (apply_grant_update p actor) (ai_grants db1)\<rparr>,
              [bump_grant_cache_generation now (gr_scope grant) (gr_scope_id grant)]))))"

definition delete_grant :: "int \<Rightarrow> int \<Rightarrow> authenticated_user \<Rightarrow> (ai_db, unit) admin_op" where
  "delete_grant now grant_id actor = db_op (\<lambda>db.
     fetched (repo_get grant_id (ai_grants db)) (\<lambda>grant.
     ROk ((), db\<lparr>ai_grants := soft_delete_row (Some (au_user_id actor)) grant_id (ai_grants db)\<rparr>,
          [bump_grant_cache_generation now (gr_scope grant) (gr_scope_id grant)])))"

definition GRANT_SORT_COLUMNS :: "string list" where
  "GRANT_SORT_COLUMNS = [''id'', ''scope'', ''scope_id'', ''logical_model_id'', ''is_default'', ''created_at'']"

definition grant_filters :: "string option \<Rightarrow> int option \<Rightarrow> int option \<Rightarrow> grant_row \<Rightarrow> bool" where
  "grant_filters scope scope_id model_id r \<longleftrightarrow>
     \<not> be_is_deleted r \<and> filter_is scope (Some (gr_scope r)) \<and> filter_is scope_id (Some (gr_scope_id r))
     \<and> filter_is model_id (Some (gr_logical_model_id r))"

definition find_grants ::
  "(string \<Rightarrow> grant_row \<Rightarrow> 'k::linorder) \<Rightarrow> string option \<Rightarrow> int option \<Rightarrow> int option \<Rightarrow> ai_db
     \<Rightarrow> (string \<times> bool) option \<Rightarrow> nat \<Rightarrow> nat \<Rightarrow> grant_row list" where
  "find_grants value scope scope_id model_id db sort_by limit offset =
     select_page value [(''created_at'', True)] sort_by limit offset (filter (grant_filters scope scope_id model_id) (ai_grants db))"

definition count_grants :: "string option \<Rightarrow> int option \<Rightarrow> int option \<Rightarrow> ai_db \<Rightarrow> int" where
  "count_grants scope scope_id model_id db = int (length (filter (grant_filters scope scope_id model_id) (ai_grants db)))"

definition list_grants ::
  "(string \<Rightarrow> grant_row \<Rightarrow> 'k::linorder) \<Rightarrow> string option \<Rightarrow> int option \<Rightarrow> int option \<Rightarrow> list_query \<Rightarrow> ai_db \<Rightarrow> grant_row page_result res" where
  "list_grants value scope scope_id model_id q db =
     listing q GRANT_SORT_COLUMNS ''created_at'' (count_grants scope scope_id model_id db) (find_grants value scope scope_id model_id db)"

definition get_grant :: "int \<Rightarrow> ai_db \<Rightarrow> grant_row res" where
  "get_grant i db = fetched (repo_get i (ai_grants db)) ROk"

section \<open>Quota rules\<close>

definition existing_quota :: "string \<Rightarrow> int option \<Rightarrow> int option \<Rightarrow> string \<Rightarrow> string \<Rightarrow> quota_rule_row \<Rightarrow> bool" where
  "existing_quota scope scope_id model_id period metric q \<longleftrightarrow>
     \<not> be_is_deleted q \<and> qo_scope q = scope \<and> qo_scope_id q = scope_id \<and> qo_logical_model_id q = model_id
     \<and> qo_period q = period \<and> qo_metric q = metric"

definition bump_quota_cache_generation :: "int \<Rightarrow> string \<Rightarrow> int option \<Rightarrow> hook" where
  "bump_quota_cache_generation now scope scope_id s =
     (if scope = ''global'' then bump_quota_generation now None None True s
      else if scope = ''user'' then bump_quota_generation now scope_id None False s
      else if scope = ''department'' then bump_quota_generation now None scope_id False s
      else s)"

definition global_quota_allowed :: "string \<Rightarrow> authenticated_user \<Rightarrow> bool" where
  "global_quota_allowed scope actor \<longleftrightarrow> scope \<noteq> ''global'' \<or> is_superuser actor"

record quota_create =
  nq_scope :: quota_scope
  nq_scope_id :: "int option"
  nq_logical_model_id :: "int option"
  nq_period :: quota_period
  nq_metric :: quota_metric
  nq_limit_value :: dec
  nq_enforce :: bool
  nq_status :: active_status
  nq_remark :: "string option"

definition quota_subject_ok :: "quota_create \<Rightarrow> ai_db \<Rightarrow> bool" where
  "quota_subject_ok p db =
     (case (nq_scope p, nq_scope_id p) of
        (QS_user, Some i) \<Rightarrow> user_exists i db
      | (QS_department, Some i) \<Rightarrow> department_exists i db
      | _ \<Rightarrow> True)"

definition new_quota :: "int \<Rightarrow> quota_create \<Rightarrow> authenticated_user \<Rightarrow> quota_rule_row" where
  "new_quota new_id p actor =
     \<lparr>be_id = new_id, be_is_deleted = False, be_created_by = Some (au_user_id actor), be_create_dept = au_department_id actor,
      be_updated_by = Some (au_user_id actor), qo_scope = quota_scope_value (nq_scope p), qo_scope_id = nq_scope_id p,
      qo_logical_model_id = nq_logical_model_id p, qo_period = quota_period_value (nq_period p),
      qo_metric = quota_metric_value (nq_metric p), qo_limit_value = nq_limit_value p, qo_enforce = nq_enforce p,
      qo_status = active_status_value (nq_status p), qo_remark = nq_remark p\<rparr>"

definition create_quota :: "int \<Rightarrow> int \<Rightarrow> quota_create \<Rightarrow> authenticated_user \<Rightarrow> (ai_db, quota_rule_row) admin_op" where
  "create_quota now new_id p actor = db_op (\<lambda>db.
     let scope = quota_scope_value (nq_scope p);
         same = existing_quota scope (nq_scope_id p) (nq_logical_model_id p) (quota_period_value (nq_period p))
                  (quota_metric_value (nq_metric p))
     in ensure ((scope = ''global'') = (nq_scope_id p = None)) EC_request_invalid 400
        (ensure (global_quota_allowed scope actor) EC_auth_forbidden 403
        (ensure (quota_subject_ok p db) EC_request_invalid 400
        (ensure (case nq_logical_model_id p of None \<Rightarrow> True | Some m \<Rightarrow> model_exists m db) EC_request_invalid 400
        (ensure (scalar (filter same (ai_quotas db)) = None) EC_request_conflict 409
        (res_bind (repo_create same (new_quota new_id p actor) (ai_quotas db)) (\<lambda>rows.
          ROk (new_quota new_id p actor, db\<lparr>ai_quotas := rows\<rparr>, [bump_quota_cache_generation now scope (nq_scope_id p)])))))))) "

record quota_update =
  pq_limit_value :: "dec option option"
  pq_enforce :: "bool option option"
  pq_status :: "active_status option option"
  pq_remark :: "string option option"

definition apply_quota_update :: "quota_update \<Rightarrow> authenticated_user \<Rightarrow> quota_rule_row \<Rightarrow> quota_rule_row" where
  "apply_quota_update p actor q =
     q\<lparr>qo_limit_value := given_value (pq_limit_value p) (qo_limit_value q), qo_enforce := given_value (pq_enforce p) (qo_enforce q),
       qo_status := (case pq_status p of Some (Some st) \<Rightarrow> active_status_value st | _ \<Rightarrow> qo_status q),
       qo_remark := given (pq_remark p) (qo_remark q), be_updated_by := Some (au_user_id actor)\<rparr>"

definition visible_quota :: "int \<Rightarrow> authenticated_user \<Rightarrow> ai_db \<Rightarrow> (quota_rule_row \<Rightarrow> 'a res) \<Rightarrow> 'a res" where
  "visible_quota quota_id actor db k =
     fetched (repo_get quota_id (ai_quotas db)) (\<lambda>quota. ensure (global_quota_allowed (qo_scope quota) actor) EC_auth_forbidden 403 (k quota))"

definition update_quota :: "int \<Rightarrow> int \<Rightarrow> quota_update \<Rightarrow> authenticated_user \<Rightarrow> (ai_db, quota_rule_row) admin_op" where
  "update_quota now quota_id p actor = db_op (\<lambda>db.
     visible_quota quota_id actor db (\<lambda>quota.
     ensure (pq_limit_value p \<noteq> Some None \<and> pq_enforce p \<noteq> Some None \<and> pq_status p \<noteq> Some None) EC_request_conflict 409
     (ROk (apply_quota_update p actor quota, db\<lparr>ai_quotas := update_row quota_id (apply_quota_update p actor) (ai_quotas db)\<rparr>,
           [bump_quota_cache_generation now (qo_scope quota) (qo_scope_id quota)]))))"

definition delete_quota :: "int \<Rightarrow> int \<Rightarrow> authenticated_user \<Rightarrow> (ai_db, unit) admin_op" where
  "delete_quota now quota_id actor = db_op (\<lambda>db.
     visible_quota quota_id actor db (\<lambda>quota.
     ROk ((), db\<lparr>ai_quotas := soft_delete_row (Some (au_user_id actor)) quota_id (ai_quotas db)\<rparr>,
          [bump_quota_cache_generation now (qo_scope quota) (qo_scope_id quota)])))"

definition QUOTA_SORT_COLUMNS :: "string list" where
  "QUOTA_SORT_COLUMNS = [''id'', ''scope'', ''period'', ''metric'', ''limit_value'', ''created_at'', ''updated_at'']"

definition quota_filters :: "string option \<Rightarrow> int option \<Rightarrow> int option \<Rightarrow> string option \<Rightarrow> bool \<Rightarrow> quota_rule_row \<Rightarrow> bool" where
  "quota_filters scope scope_id model_id status include_global r \<longleftrightarrow>
     \<not> be_is_deleted r \<and> (include_global \<or> qo_scope r \<noteq> ''global'') \<and> filter_is scope (Some (qo_scope r))
     \<and> filter_is scope_id (qo_scope_id r) \<and> filter_is model_id (qo_logical_model_id r) \<and> filter_is status (Some (qo_status r))"

definition find_quotas ::
  "(string \<Rightarrow> quota_rule_row \<Rightarrow> 'k::linorder) \<Rightarrow> string option \<Rightarrow> int option \<Rightarrow> int option \<Rightarrow> string option \<Rightarrow> bool \<Rightarrow> ai_db
     \<Rightarrow> (string \<times> bool) option \<Rightarrow> nat \<Rightarrow> nat \<Rightarrow> quota_rule_row list" where
  "find_quotas value scope scope_id model_id status include_global db sort_by limit offset =
     select_page value [(''created_at'', True)] sort_by limit offset
       (filter (quota_filters scope scope_id model_id status include_global) (ai_quotas db))"

definition count_quotas :: "string option \<Rightarrow> int option \<Rightarrow> int option \<Rightarrow> string option \<Rightarrow> bool \<Rightarrow> ai_db \<Rightarrow> int" where
  "count_quotas scope scope_id model_id status include_global db =
     int (length (filter (quota_filters scope scope_id model_id status include_global) (ai_quotas db)))"

definition list_quotas ::
  "(string \<Rightarrow> quota_rule_row \<Rightarrow> 'k::linorder) \<Rightarrow> string option \<Rightarrow> int option \<Rightarrow> int option \<Rightarrow> string option \<Rightarrow> list_query
     \<Rightarrow> authenticated_user \<Rightarrow> ai_db \<Rightarrow> quota_rule_row page_result res" where
  "list_quotas value scope scope_id model_id status q actor db =
     listing q QUOTA_SORT_COLUMNS ''created_at'' (count_quotas scope scope_id model_id status (is_superuser actor) db)
       (find_quotas value scope scope_id model_id status (is_superuser actor) db)"

definition get_quota :: "int \<Rightarrow> authenticated_user \<Rightarrow> ai_db \<Rightarrow> quota_rule_row res" where
  "get_quota quota_id actor db = visible_quota quota_id actor db ROk"

section \<open>Rate-limit rules\<close>

record rate_rule_create =
  nr_subject_type :: rate_limit_scope
  nr_subject_id :: "int option"
  nr_logical_model_id :: "int option"
  nr_rpm_limit :: "int option"
  nr_tpm_limit :: "int option"
  nr_tpm_burst_limit :: "int option"
  nr_max_concurrent :: "int option"
  nr_enforce :: bool
  nr_remark :: "string option"

text \<open>The validator of the payload.\<close>

definition check_subject_id :: "rate_rule_create \<Rightarrow> bool" where
  "check_subject_id p \<longleftrightarrow> (nr_subject_type p = RS_global) = (nr_subject_id p = None)"

text \<open>The subject of a rule that is not global has to exist; without an id the assertion fails.\<close>

definition validate_subject :: "rate_rule_create \<Rightarrow> authenticated_user \<Rightarrow> ai_db \<Rightarrow> 'a res \<Rightarrow> 'a res" where
  "validate_subject p actor db k =
     (if nr_subject_type p = RS_global then ensure (is_superuser actor) EC_auth_forbidden 403 k
      else (case nr_subject_id p of
              None \<Rightarrow> RCrash
            | Some i \<Rightarrow>
                ensure (case nr_subject_type p of
                          RS_user \<Rightarrow> user_exists i db
                        | RS_department \<Rightarrow> department_exists i db
                        | _ \<Rightarrow> api_key_exists i db) EC_request_invalid 400 k))"

definition new_rate_rule :: "int \<Rightarrow> rate_rule_create \<Rightarrow> authenticated_user \<Rightarrow> rate_rule_row" where
  "new_rate_rule new_id p actor =
     \<lparr>be_id = new_id, be_is_deleted = False, be_created_by = Some (au_user_id actor), be_create_dept = au_department_id actor,
      be_updated_by = None, ra_subject_type = rate_limit_scope_value (nr_subject_type p), ra_subject_id = nr_subject_id p,
      ra_logical_model_id = nr_logical_model_id p, ra_rpm_limit = nr_rpm_limit p, ra_tpm_limit = nr_tpm_limit p,
      ra_tpm_burst_limit = nr_tpm_burst_limit p, ra_max_concurrent = nr_max_concurrent p, ra_enforce = nr_enforce p,
      ra_status = ''active'', ra_remark = nr_remark p\<rparr>"

text \<open>
  The unique constraint of the table covers deleted rows too, and rows whose subject or model is null are never equal under it.
\<close>

definition rate_rule_clash :: "rate_rule_row \<Rightarrow> rate_rule_row \<Rightarrow> bool" where
  "rate_rule_clash new r \<longleftrightarrow>
     ra_subject_type r = ra_subject_type new \<and> sql_eq (ra_subject_id r) (ra_subject_id new)
     \<and> sql_eq (ra_logical_model_id r) (ra_logical_model_id new)"

definition create_rate_rule :: "int \<Rightarrow> rate_rule_create \<Rightarrow> authenticated_user \<Rightarrow> (ai_db, rate_rule_row) admin_op" where
  "create_rate_rule new_id p actor = db_op (\<lambda>db.
     ensure (check_subject_id p) EC_request_invalid 422
     (validate_subject p actor db
     (res_bind (repo_create (rate_rule_clash (new_rate_rule new_id p actor)) (new_rate_rule new_id p actor) (ai_rate_rules db)) (\<lambda>rows.
       ROk (new_rate_rule new_id p actor, db\<lparr>ai_rate_rules := rows\<rparr>, [])))))"

text \<open>A field of the update that is null leaves the column as it is.\<close>

record rate_rule_update =
  pr_rpm_limit :: "int option"
  pr_tpm_limit :: "int option"
  pr_tpm_burst_limit :: "int option"
  pr_max_concurrent :: "int option"
  pr_enforce :: "bool option"
  pr_status :: "string option"
  pr_remark :: "string option"

definition replaced :: "'a option \<Rightarrow> 'a option \<Rightarrow> 'a option" where
  "replaced v old = (if v = None then old else v)"

definition apply_rate_rule_update :: "rate_rule_update \<Rightarrow> authenticated_user \<Rightarrow> rate_rule_row \<Rightarrow> rate_rule_row" where
  "apply_rate_rule_update p actor r =
     r\<lparr>ra_rpm_limit := replaced (pr_rpm_limit p) (ra_rpm_limit r), ra_tpm_limit := replaced (pr_tpm_limit p) (ra_tpm_limit r),
       ra_tpm_burst_limit := replaced (pr_tpm_burst_limit p) (ra_tpm_burst_limit r),
       ra_max_concurrent := replaced (pr_max_concurrent p) (ra_max_concurrent r), ra_enforce := given (pr_enforce p) (ra_enforce r),
       ra_status := given (pr_status p) (ra_status r), ra_remark := replaced (pr_remark p) (ra_remark r),
       be_updated_by := Some (au_user_id actor)\<rparr>"

definition visible_rule :: "int \<Rightarrow> authenticated_user \<Rightarrow> ai_db \<Rightarrow> (rate_rule_row \<Rightarrow> 'a res) \<Rightarrow> 'a res" where
  "visible_rule rule_id actor db k =
     fetched (repo_get rule_id (ai_rate_rules db)) (\<lambda>rule.
       ensure (\<not> (ra_subject_type rule = rate_limit_scope_value RS_global \<and> \<not> is_superuser actor)) EC_auth_forbidden 403 (k rule))"

definition update_rate_rule :: "int \<Rightarrow> rate_rule_update \<Rightarrow> authenticated_user \<Rightarrow> (ai_db, rate_rule_row) admin_op" where
  "update_rate_rule rule_id p actor = db_op (\<lambda>db.
     visible_rule rule_id actor db (\<lambda>rule.
     ROk (apply_rate_rule_update p actor rule,
          db\<lparr>ai_rate_rules := update_row rule_id (apply_rate_rule_update p actor) (ai_rate_rules db)\<rparr>, [])))"

definition delete_rate_rule :: "int \<Rightarrow> authenticated_user \<Rightarrow> (ai_db, unit) admin_op" where
  "delete_rate_rule rule_id actor = db_op (\<lambda>db.
     visible_rule rule_id actor db (\<lambda>rule.
     ROk ((), db\<lparr>ai_rate_rules := soft_delete_row (Some (au_user_id actor)) rule_id (ai_rate_rules db)\<rparr>, [])))"

definition RATE_RULE_SORT_COLUMNS :: "string list" where
  "RATE_RULE_SORT_COLUMNS = [''id'', ''subject_type'', ''status'', ''created_at'']"

definition rule_filters :: "string option \<Rightarrow> int option \<Rightarrow> int option \<Rightarrow> string option \<Rightarrow> bool \<Rightarrow> rate_rule_row \<Rightarrow> bool" where
  "rule_filters subject_type subject_id model_id status include_global r \<longleftrightarrow>
     \<not> be_is_deleted r \<and> (include_global \<or> ra_subject_type r \<noteq> ''global'') \<and> filter_is subject_type (Some (ra_subject_type r))
     \<and> filter_is subject_id (ra_subject_id r) \<and> filter_is model_id (ra_logical_model_id r) \<and> filter_is status (Some (ra_status r))"

text \<open>The repository of these rules reads the query itself.\<close>

definition find_rules ::
  "(string \<Rightarrow> rate_rule_row \<Rightarrow> 'k::linorder) \<Rightarrow> list_query \<Rightarrow> string option \<Rightarrow> int option \<Rightarrow> int option \<Rightarrow> string option \<Rightarrow> bool \<Rightarrow> ai_db
     \<Rightarrow> rate_rule_row page_result res" where
  "find_rules value q subject_type subject_id model_id status include_global db =
     (let rows = filter (rule_filters subject_type subject_id model_id status include_global) (ai_rate_rules db)
      in listing q RATE_RULE_SORT_COLUMNS ''id'' (int (length rows)) (\<lambda>sort_by limit offset. select_page value [] sort_by limit offset rows))"

definition list_rate_rules ::
  "(string \<Rightarrow> rate_rule_row \<Rightarrow> 'k::linorder) \<Rightarrow> string option \<Rightarrow> int option \<Rightarrow> int option \<Rightarrow> string option \<Rightarrow> list_query
     \<Rightarrow> authenticated_user option \<Rightarrow> ai_db \<Rightarrow> rate_rule_row page_result res" where
  "list_rate_rules value subject_type subject_id model_id status q actor db =
     find_rules value q subject_type subject_id model_id status (case actor of None \<Rightarrow> False | Some a \<Rightarrow> is_superuser a) db"

definition get_rate_rule :: "int \<Rightarrow> authenticated_user \<Rightarrow> ai_db \<Rightarrow> rate_rule_row res" where
  "get_rate_rule rule_id actor db = visible_rule rule_id actor db ROk"

section \<open>Platform keys\<close>

record credential_create =
  nk_user_id :: int
  nk_name :: string
  nk_expires_at :: "int option"
  nk_note :: "string option"

definition new_credential :: "(string \<Rightarrow> string) \<Rightarrow> string \<Rightarrow> int \<Rightarrow> credential_create \<Rightarrow> authenticated_user \<Rightarrow> credential_row" where
  "new_credential sha plain_key new_id p actor =
     \<lparr>be_id = new_id, be_is_deleted = False, be_created_by = Some (au_user_id actor), be_create_dept = au_department_id actor,
      be_updated_by = Some (au_user_id actor), cd_user_id = nk_user_id p, cd_name = nk_name p, cd_key_hash = sha plain_key,
      cd_key_prefix = take 8 plain_key, cd_status = ''active'', cd_expires_at = nk_expires_at p, cd_remark = nk_note p\<rparr>"

definition create_credential ::
  "(string \<Rightarrow> string) \<Rightarrow> string \<Rightarrow> int \<Rightarrow> credential_create \<Rightarrow> authenticated_user \<Rightarrow> (ai_db, credential_row \<times> string) admin_op" where
  "create_credential sha random_hex new_id p actor = db_op (\<lambda>db.
     ensure (user_exists (nk_user_id p) db) EC_request_invalid 400
     (ensure (\<not> (nk_user_id p \<noteq> au_user_id actor \<and> \<not> has_permission actor ''ai:credential:issue'')) EC_auth_forbidden 403
     (let plain_key = ''sk-'' @ random_hex; key = new_credential sha plain_key new_id p actor
      in res_bind (repo_create (\<lambda>k. cd_key_hash k = cd_key_hash key) key (ai_credentials db)) (\<lambda>rows.
           ROk ((key, plain_key), db\<lparr>ai_credentials := rows\<rparr>, [])))))"

record credential_update =
  pa_name :: "string option option"
  pa_status :: "api_key_status option option"
  pa_expires_at :: "int option option"
  pa_note :: "string option option"

definition apply_credential_update :: "credential_update \<Rightarrow> authenticated_user \<Rightarrow> credential_row \<Rightarrow> credential_row" where
  "apply_credential_update p actor k =
     k\<lparr>cd_name := given_value (pa_name p) (cd_name k),
       cd_status := (case pa_status p of Some (Some st) \<Rightarrow> api_key_status_value st | _ \<Rightarrow> cd_status k),
       cd_expires_at := given (pa_expires_at p) (cd_expires_at k), cd_remark := given (pa_note p) (cd_remark k),
       be_updated_by := Some (au_user_id actor)\<rparr>"

definition update_credential :: "int \<Rightarrow> credential_update \<Rightarrow> authenticated_user \<Rightarrow> (ai_db, credential_row) admin_op" where
  "update_credential key_id p actor = db_op (\<lambda>db.
     fetched (repo_get key_id (ai_credentials db)) (\<lambda>key.
     ensure (pa_name p \<noteq> Some None \<and> pa_status p \<noteq> Some None) EC_request_conflict 409
     (ROk (apply_credential_update p actor key,
           db\<lparr>ai_credentials := update_row key_id (apply_credential_update p actor) (ai_credentials db)\<rparr>, []))))"

definition delete_credential :: "int \<Rightarrow> authenticated_user \<Rightarrow> (ai_db, unit) admin_op" where
  "delete_credential key_id actor = db_op (\<lambda>db.
     fetched (repo_get key_id (ai_credentials db)) (\<lambda>key.
     ROk ((), db\<lparr>ai_credentials := soft_delete_row (Some (au_user_id actor)) key_id (ai_credentials db)\<rparr>, [])))"

definition CREDENTIAL_SORT_COLUMNS :: "string list" where
  "CREDENTIAL_SORT_COLUMNS = [''id'', ''user_id'', ''name'', ''status'', ''created_at'', ''expires_at'', ''last_used_at'']"

definition credential_filters :: "int option \<Rightarrow> string option \<Rightarrow> string option \<Rightarrow> credential_row \<Rightarrow> bool" where
  "credential_filters user_id status keyword r \<longleftrightarrow>
     \<not> be_is_deleted r \<and> filter_is user_id (Some (cd_user_id r)) \<and> filter_is status (Some (cd_status r))
     \<and> keyword_matches keyword [cd_name r, cd_key_prefix r]"

definition find_credentials ::
  "(string \<Rightarrow> credential_row \<Rightarrow> 'k::linorder) \<Rightarrow> int option \<Rightarrow> string option \<Rightarrow> string option \<Rightarrow> ai_db
     \<Rightarrow> (string \<times> bool) option \<Rightarrow> nat \<Rightarrow> nat \<Rightarrow> credential_row list" where
  "find_credentials value user_id status keyword db sort_by limit offset =
     select_page value [(''created_at'', True)] sort_by limit offset (filter (credential_filters user_id status keyword) (ai_credentials db))"

definition count_credentials :: "int option \<Rightarrow> string option \<Rightarrow> string option \<Rightarrow> ai_db \<Rightarrow> int" where
  "count_credentials user_id status keyword db = int (length (filter (credential_filters user_id status keyword) (ai_credentials db)))"

definition list_credentials ::
  "(string \<Rightarrow> credential_row \<Rightarrow> 'k::linorder) \<Rightarrow> int option \<Rightarrow> string option \<Rightarrow> list_query \<Rightarrow> ai_db \<Rightarrow> credential_row page_result res" where
  "list_credentials value user_id status q db =
     listing q CREDENTIAL_SORT_COLUMNS ''created_at'' (count_credentials user_id status (lq_keyword q) db)
       (find_credentials value user_id status (lq_keyword q) db)"

definition get_credential :: "int \<Rightarrow> ai_db \<Rightarrow> credential_row res" where
  "get_credential i db = fetched (repo_get i (ai_credentials db)) ROk"

end
