(* ===== verification/AiApi.thy ===== *)
theory AiApi
  imports CatalogAdmin GrantAdmin
begin

text \<open>
  The endpoints of the platform's administration (\<open>router.py\<close> of \<open>src/admin/catalog\<close>, \<open>grants\<close>, \<open>quota\<close>, \<open>rate_limits\<close> and
  \<open>credentials\<close>) that change something, as commands: the permission each route requires and the operation it
  runs in the request's unit of work. The first argument of a command that creates is the new id.
\<close>

datatype ai_command =
    CreateChannel int channel_create | UpdateChannel int channel_update | DeleteChannel int
  | CreateKey int key_create | UpdateKey int key_update | DeleteKey int | RotateKey int string
  | CreateModel int model_create | UpdateModel int model_update | DeleteModel int
  | CreateDeployment int deployment_create | UpdateDeployment int deployment_update | DeleteDeployment int
  | CreateGrant int grant_create | UpdateGrant int grant_update | DeleteGrant int
  | CreateQuota int quota_create | UpdateQuota int quota_update | DeleteQuota int
  | CreateRateRule int rate_rule_create | UpdateRateRule int rate_rule_update | DeleteRateRule int
  | CreateCredential int credential_create | UpdateCredential int credential_update | DeleteCredential int

fun ai_permission :: "ai_command \<Rightarrow> string" where
  "ai_permission (CreateChannel _ _) = ''ai:catalog:add''"
| "ai_permission (UpdateChannel _ _) = ''ai:catalog:edit''"
| "ai_permission (DeleteChannel _) = ''ai:catalog:remove''"
| "ai_permission (CreateKey _ _) = ''ai:catalog:add''"
| "ai_permission (UpdateKey _ _) = ''ai:catalog:edit''"
| "ai_permission (DeleteKey _) = ''ai:catalog:remove''"
| "ai_permission (RotateKey _ _) = ''ai:catalog:edit''"
| "ai_permission (CreateModel _ _) = ''ai:catalog:add''"
| "ai_permission (UpdateModel _ _) = ''ai:catalog:edit''"
| "ai_permission (DeleteModel _) = ''ai:catalog:remove''"
| "ai_permission (CreateDeployment _ _) = ''ai:catalog:add''"
| "ai_permission (UpdateDeployment _ _) = ''ai:catalog:edit''"
| "ai_permission (DeleteDeployment _) = ''ai:catalog:remove''"
| "ai_permission (CreateGrant _ _) = ''ai:grant:add''"
| "ai_permission (UpdateGrant _ _) = ''ai:grant:edit''"
| "ai_permission (DeleteGrant _) = ''ai:grant:remove''"
| "ai_permission (CreateQuota _ _) = ''ai:quota:add''"
| "ai_permission (UpdateQuota _ _) = ''ai:quota:edit''"
| "ai_permission (DeleteQuota _) = ''ai:quota:remove''"
| "ai_permission (CreateRateRule _ _) = ''ai:rate_limit:add''"
| "ai_permission (UpdateRateRule _ _) = ''ai:rate_limit:edit''"
| "ai_permission (DeleteRateRule _) = ''ai:rate_limit:delete''"
| "ai_permission (CreateCredential _ _) = ''ai:credential:add''"
| "ai_permission (UpdateCredential _ _) = ''ai:credential:edit''"
| "ai_permission (DeleteCredential _) = ''ai:credential:remove''"

text \<open>\<open>ai_sha\<close> digests a key and \<open>ai_random\<close> is the random part of a new one.\<close>

record ai_env = catalog_env +
  ai_sha :: "string \<Rightarrow> string"
  ai_random :: string

definition done_with :: "('a \<times> ai_db \<times> hook list) res \<times> redis \<Rightarrow> (unit \<times> ai_db \<times> hook list) res \<times> redis" where
  "done_with r = (case r of (ROk (_, d, hs), s) \<Rightarrow> (ROk ((), d, hs), s) | (RErr e, s) \<Rightarrow> (RErr e, s) | (RCrash, s) \<Rightarrow> (RCrash, s))"

fun ai_perform :: "ai_env \<Rightarrow> authenticated_user \<Rightarrow> ai_command \<Rightarrow> (ai_db, unit) admin_op" where
  "ai_perform env a (CreateChannel i p) db s = done_with (create_channel (catalog_env.truncate env) i p a db s)"
| "ai_perform env a (UpdateChannel i p) db s = done_with (update_channel (catalog_env.truncate env) i p a db s)"
| "ai_perform env a (DeleteChannel i) db s = done_with (delete_channel (catalog_env.truncate env) i a db s)"
| "ai_perform env a (CreateKey i p) db s = done_with (create_channel_key (catalog_env.truncate env) i p a db s)"
| "ai_perform env a (UpdateKey i p) db s = done_with (update_channel_key (catalog_env.truncate env) i p a db s)"
| "ai_perform env a (DeleteKey i) db s = done_with (delete_channel_key (catalog_env.truncate env) i a db s)"
| "ai_perform env a (RotateKey i k) db s = done_with (rotate_channel_key (catalog_env.truncate env) i k a db s)"
| "ai_perform env a (CreateModel i p) db s = done_with (create_model (catalog_env.truncate env) i p a db s)"
| "ai_perform env a (UpdateModel i p) db s = done_with (update_model (catalog_env.truncate env) i p a db s)"
| "ai_perform env a (DeleteModel i) db s = done_with (delete_model (catalog_env.truncate env) i a db s)"
| "ai_perform env a (CreateDeployment i p) db s = done_with (create_deployment (catalog_env.truncate env) i p a db s)"
| "ai_perform env a (UpdateDeployment i p) db s = done_with (update_deployment (catalog_env.truncate env) i p a db s)"
| "ai_perform env a (DeleteDeployment i) db s = done_with (delete_deployment (catalog_env.truncate env) i a db s)"
| "ai_perform env a (CreateGrant i p) db s = done_with (create_grant (ce_now env) i p a db s)"
| "ai_perform env a (UpdateGrant i p) db s = done_with (update_grant (ce_now env) i p a db s)"
| "ai_perform env a (DeleteGrant i) db s = done_with (delete_grant (ce_now env) i a db s)"
| "ai_perform env a (CreateQuota i p) db s = done_with (create_quota (ce_now env) i p a db s)"
| "ai_perform env a (UpdateQuota i p) db s = done_with (update_quota (ce_now env) i p a db s)"
| "ai_perform env a (DeleteQuota i) db s = done_with (delete_quota (ce_now env) i a db s)"
| "ai_perform env a (CreateRateRule i p) db s = done_with (create_rate_rule i p a db s)"
| "ai_perform env a (UpdateRateRule i p) db s = done_with (update_rate_rule i p a db s)"
| "ai_perform env a (DeleteRateRule i) db s = done_with (delete_rate_rule i a db s)"
| "ai_perform env a (CreateCredential i p) db s = done_with (create_credential (ai_sha env) (ai_random env) i p a db s)"
| "ai_perform env a (UpdateCredential i p) db s = done_with (update_credential i p a db s)"
| "ai_perform env a (DeleteCredential i) db s = done_with (delete_credential i a db s)"

definition ai_request :: "ai_env \<Rightarrow> bool \<Rightarrow> authenticated_user \<Rightarrow> ai_command \<Rightarrow> ai_db \<Rightarrow> redis \<Rightarrow> unit res \<times> ai_db \<times> redis" where
  "ai_request env commit_ok actor cmd db s =
     (if \<not> has_permission actor (ai_permission cmd) then (RErr (app_err EC_auth_forbidden 403), db, s)
      else unit_of_work commit_ok (ai_perform env actor cmd) db s)"

end
