(* ===== verification/KeyedTables.thy ===== *)
theory KeyedTables
  imports AiApi ReferenceFacts
begin

text \<open>
  Tables with a primary key and a unique index. The locale \<open>indexed\<close> is the index as a function that gives the key of a row, or
  nothing for a row the index does not cover, with the law that deleting a row does not give it a new key; its lemmas say which
  insertions, deletions and updates keep the index unique. It is interpreted on every index of the platform's tables.
\<close>

definition unique_ids :: "'a base_entity_scheme list \<Rightarrow> bool" where
  "unique_ids rows \<longleftrightarrow> distinct (map be_id rows)"

definition unique_by :: "('a base_entity_scheme \<Rightarrow> 'k option) \<Rightarrow> 'a base_entity_scheme list \<Rightarrow> bool" where
  "unique_by key rows \<longleftrightarrow> (\<forall>r\<in>set rows. \<forall>r'\<in>set rows. key r \<noteq> None \<longrightarrow> key r = key r' \<longrightarrow> be_id r = be_id r')"

lemma unique_byI:
  "(\<And>r r' k. r \<in> set rows \<Longrightarrow> r' \<in> set rows \<Longrightarrow> key r = Some k \<Longrightarrow> key r' = Some k \<Longrightarrow> be_id r = be_id r') \<Longrightarrow> unique_by key rows"
  unfolding unique_by_def by (metis not_None_eq)

lemma unique_byD: "unique_by key rows \<Longrightarrow> r \<in> set rows \<Longrightarrow> r' \<in> set rows \<Longrightarrow> key r = Some k \<Longrightarrow> key r' = Some k \<Longrightarrow> be_id r = be_id r'"
  unfolding unique_by_def by (metis option.distinct(1))

lemma scalar_None_iff: "scalar xs = None \<longleftrightarrow> xs = []"
  by (simp add: scalar_def split: list.split)

lemma scalar_SomeD: "scalar xs = Some x \<Longrightarrow> x \<in> set xs"
  by (cases xs) (auto simp: scalar_def)

lemma scalar_filter_None: "scalar (filter P rows) = None \<Longrightarrow> x \<in> set rows \<Longrightarrow> \<not> P x"
  by (auto simp: scalar_None_iff filter_empty_conv)

lemma row_found: "repo_get i rows = Some r \<Longrightarrow> r \<in> set rows \<and> be_id r = i \<and> \<not> be_is_deleted r"
  by (auto simp: repo_get_def dest!: scalar_SomeD)

lemma row_of_id: "unique_ids rows \<Longrightarrow> r \<in> set rows \<Longrightarrow> r' \<in> set rows \<Longrightarrow> be_id r = be_id r' \<Longrightarrow> r = r'"
  by (auto simp: unique_ids_def distinct_map dest: inj_onD)

section \<open>Rows after an operation\<close>

lemma update_row_in: "r \<in> set (update_row i f rows) \<longleftrightarrow> (\<exists>x\<in>set rows. r = (if be_id x = i then f x else x))"
  unfolding update_row_def set_map image_iff by blast

lemma unique_ids_update: "(\<And>r. be_id (f r) = be_id r) \<Longrightarrow> unique_ids (update_row i f rows) = unique_ids rows"
  unfolding unique_ids_def update_row_def map_map by (simp add: comp_def if_distrib cong: if_cong)

lemma unique_ids_soft_delete [simp]: "unique_ids (soft_delete_row a i rows) = unique_ids rows"
  by (simp add: soft_delete_row_def unique_ids_update)

lemma unique_ids_create: "unique_ids rows \<Longrightarrow> be_id r \<notin> be_id ` set rows \<Longrightarrow> unique_ids (rows @ [r])"
  by (auto simp: unique_ids_def)

section \<open>A unique index\<close>

locale indexed =
  fixes key :: "'a base_entity_scheme \<Rightarrow> 'k option"
  assumes deleted_key: "key (r\<lparr>be_updated_by := u, be_is_deleted := True\<rparr>) \<in> {None, key r}"
begin

lemma created:
  assumes "unique_by key rows" and "\<And>x. x \<in> set rows \<Longrightarrow> key x \<noteq> None \<Longrightarrow> key x = key r \<Longrightarrow> False"
  shows "unique_by key (rows @ [r])"
proof (rule unique_byI)
  fix x y k assume x: "x \<in> set (rows @ [r])" and y: "y \<in> set (rows @ [r])" and k: "key x = Some k" "key y = Some k"
  show "be_id x = be_id y"
  proof (cases "x \<in> set rows \<and> y \<in> set rows")
    case True then show ?thesis using unique_byD [OF assms(1)] k by blast
  next
    case False
    have "x = r" if "x \<notin> set rows" using x that by auto
    moreover have "y = r" if "y \<notin> set rows" using y that by auto
    ultimately show ?thesis using False assms(2) [of x] assms(2) [of y] k by (metis option.distinct(1))
  qed
qed

lemma updated:
  assumes u: "unique_by key rows" and ids: "\<And>r. be_id (f r) = be_id r"
    and f: "\<And>r x. r \<in> set rows \<Longrightarrow> be_id r = i \<Longrightarrow> x \<in> set rows \<Longrightarrow> key (f r) \<noteq> None \<Longrightarrow> key (f r) \<noteq> key r \<Longrightarrow> key x = key (f r)
      \<Longrightarrow> be_id x = i"
  shows "unique_by key (update_row i f rows)"
proof (rule unique_byI)
  fix x y k assume "x \<in> set (update_row i f rows)" "y \<in> set (update_row i f rows)" and k: "key x = Some k" "key y = Some k"
  then obtain r s where r: "r \<in> set rows" "x = (if be_id r = i then f r else r)" and s: "s \<in> set rows" "y = (if be_id s = i then f s else s)"
    by (auto simp: update_row_in)
  have one: "be_id a = i" if "b \<in> set rows" "be_id b = i" "a \<in> set rows" "key (f b) = Some k" "key a = Some k" for a b
  proof (cases "key (f b) = key b")
    case True then show ?thesis using unique_byD [OF u that(3,1,5)] that by simp
  next
    case False then show ?thesis using f [OF that(1,2,3) _ False] that(4,5) by simp
  qed
  show "be_id x = be_id y"
  proof (cases "be_id r = i")
    case ri: True
    show ?thesis
    proof (cases "be_id s = i")
      case True with ri r s show ?thesis by (simp add: ids)
    next
      case False
      then have "be_id s = i" using one [OF r(1) ri s(1)] k r(2) s(2) ri by simp
      with False show ?thesis by simp
    qed
  next
    case ri: False
    show ?thesis
    proof (cases "be_id s = i")
      case True
      then have "be_id r = i" using one [OF s(1) True r(1)] k r(2) s(2) ri by simp
      with ri show ?thesis by simp
    next
      case False with ri r s k show ?thesis using unique_byD [OF u r(1) s(1)] by simp
    qed
  qed
qed

lemma untouched:
  assumes "unique_by key rows" and "\<And>r. be_id (f r) = be_id r" and "\<And>r. r \<in> set rows \<Longrightarrow> key (f r) \<in> {None, key r}"
  shows "unique_by key (update_row i f rows)"
proof (rule updated [OF assms(1,2)])
  fix r x assume "r \<in> set rows" "key (f r) \<noteq> None" "key (f r) \<noteq> key r"
  with assms(3) [of r] show "be_id x = i" by simp
qed

lemma soft_deleted: "unique_by key rows \<Longrightarrow> unique_by key (soft_delete_row a i rows)"
  unfolding soft_delete_row_def
proof (rule untouched)
  fix r :: "'a base_entity_scheme"
  show "be_id (r\<lparr>be_updated_by := a, be_is_deleted := True\<rparr>) = be_id r" by simp
  show "key (r\<lparr>be_updated_by := a, be_is_deleted := True\<rparr>) \<in> {None, key r}" by (rule deleted_key)
qed

end

section \<open>The indexes of the platform's tables\<close>

definition channel_index :: "channel_row \<Rightarrow> string option" where
  "channel_index c = (if be_is_deleted c then None else Some (cn_name c))"

definition model_index :: "model_row \<Rightarrow> string option" where
  "model_index m = (if be_is_deleted m then None else Some (mo_name m))"

definition deployment_index :: "deployment_row \<Rightarrow> (int \<times> int) option" where
  "deployment_index d = (if be_is_deleted d then None else Some (dy_logical_model_id d, dy_channel_id d))"

definition grant_index :: "grant_row \<Rightarrow> (string \<times> int \<times> int) option" where
  "grant_index g = (if be_is_deleted g then None else Some (gr_scope g, gr_scope_id g, gr_logical_model_id g))"

definition default_index :: "grant_row \<Rightarrow> (string \<times> int) option" where
  "default_index g = (if be_is_deleted g \<or> \<not> gr_is_default g then None else Some (gr_scope g, gr_scope_id g))"

definition quota_index :: "quota_rule_row \<Rightarrow> (string \<times> int option \<times> int option \<times> string \<times> string) option" where
  "quota_index q =
     (if be_is_deleted q then None else Some (qo_scope q, qo_scope_id q, qo_logical_model_id q, qo_period q, qo_metric q))"

definition rate_rule_index :: "rate_rule_row \<Rightarrow> (string \<times> int \<times> int) option" where
  "rate_rule_index r =
     (case (ra_subject_id r, ra_logical_model_id r) of (Some i, Some m) \<Rightarrow> Some (ra_subject_type r, i, m) | _ \<Rightarrow> None)"

definition credential_index :: "credential_row \<Rightarrow> string option" where
  "credential_index k = Some (cd_key_hash k)"

interpretation channels: indexed channel_index by unfold_locales (simp add: channel_index_def)
interpretation models: indexed model_index by unfold_locales (simp add: model_index_def)
interpretation deployments: indexed deployment_index by unfold_locales (simp add: deployment_index_def)
interpretation grants: indexed grant_index by unfold_locales (simp add: grant_index_def)
interpretation defaults: indexed default_index by unfold_locales (simp add: default_index_def)
interpretation quotas: indexed quota_index by unfold_locales (simp add: quota_index_def)
interpretation rate_rules: indexed rate_rule_index by unfold_locales (simp add: rate_rule_index_def split: option.split)
interpretation credentials: indexed credential_index by unfold_locales (simp add: credential_index_def)

end
