(* ===== verification/AiOutcomes.thy ===== *)
theory AiOutcomes
  imports KeyedTables
begin

text \<open>
  What a successful operation of the platform's administration did: one lemma per operation with the guards that held, the new
  tables and the hooks it queued. Redis is not touched before the commit.
\<close>

section \<open>Guards\<close>

definition base_ok :: "'a catalog_env_scheme \<Rightarrow> string option \<Rightarrow> bool" where
  "base_ok env b \<longleftrightarrow>
     (case b of
        None \<Rightarrow> True
      | Some url \<Rightarrow> (case url_split (ce_ipv6 env) url of None \<Rightarrow> False | Some parsed \<Rightarrow> safe_base (ce_environment env) (ce_ipv6 env) parsed))"

lemma validate_api_base_ok [simp]:
  "validate_api_base (ce_environment env) (ce_ipv6 env) b k = ROk x \<longleftrightarrow> base_ok env b \<and> k = ROk x"
  by (auto simp: validate_api_base_def base_ok_def split: option.splits)

lemma truncated_env [simp]:
  "ce_now (catalog_env.truncate env) = ce_now env" "ce_environment (catalog_env.truncate env) = ce_environment env"
  "ce_ipv6 (catalog_env.truncate env) = ce_ipv6 env" "ce_encrypt (catalog_env.truncate env) = ce_encrypt env"
  by (simp_all add: catalog_env.truncate_def)

lemma base_ok_truncate [simp]: "base_ok (catalog_env.truncate env) b = base_ok env b"
  by (simp add: base_ok_def split: option.split)

lemma when_given [simp]:
  "(case v of None \<Rightarrow> True | Some None \<Rightarrow> True | Some (Some n) \<Rightarrow> P n) \<longleftrightarrow> (\<forall>n. v = Some (Some n) \<longrightarrow> P n)"
  by (auto split: option.splits)

lemma require_active_model_ok [simp]:
  "require_active_model m db k = ROk x
    \<longleftrightarrow> (\<exists>i r. m = Some i \<and> repo_get i (ai_models db) = Some r \<and> mo_status r = ''active'') \<and> k = ROk x"
  by (cases m) (auto simp: require_active_model_def active_row_def)

lemma require_active_channel_ok [simp]:
  "require_active_channel m db k = ROk x
    \<longleftrightarrow> (\<exists>i r. m = Some i \<and> repo_get i (ai_channels db) = Some r \<and> cn_status r = ''active'') \<and> k = ROk x"
  by (cases m) (auto simp: require_active_channel_def active_row_def)

lemma visible_quota_ok [simp]:
  "visible_quota i a db k = ROk x
    \<longleftrightarrow> (\<exists>q. repo_get i (ai_quotas db) = Some q \<and> global_quota_allowed (qo_scope q) a \<and> k q = ROk x)"
  by (auto simp: visible_quota_def)

lemma visible_rule_ok [simp]:
  "visible_rule i a db k = ROk x
    \<longleftrightarrow> (\<exists>r. repo_get i (ai_rate_rules db) = Some r \<and> (ra_subject_type r = ''global'' \<longrightarrow> is_superuser a) \<and> k r = ROk x)"
  by (auto simp: visible_rule_def)

lemma db_op_ok [simp]: "db_op f db s = (ROk y, s') \<longleftrightarrow> s' = s \<and> f db = ROk y"
  by (auto simp: db_op_def)

lemma name_unique: 
  "channel_name_unique n None db \<Longrightarrow> c \<in> set (ai_channels db) \<Longrightarrow> \<not> be_is_deleted c \<Longrightarrow> cn_name c \<noteq> n"
  "model_name_unique n None db \<Longrightarrow> m \<in> set (ai_models db) \<Longrightarrow> \<not> be_is_deleted m \<Longrightarrow> mo_name m \<noteq> n"
  by (auto simp: channel_name_unique_def get_channel_by_name_def model_name_unique_def get_model_by_name_def scalar_None_iff
      filter_empty_conv split: option.splits)

section \<open>The catalog\<close>

lemma create_channel_ok:
  assumes "create_channel env i p a db s = (ROk (x, db', hs), s')"
  shows "s' = s \<and> hs = catalog_hooks env \<and> catalog_wildcard a \<and> base_ok env (nc_api_base p)
    \<and> i \<notin> be_id ` set (ai_channels db) \<and> (\<forall>c\<in>set (ai_channels db). channel_index c \<noteq> Some (nc_name p))
    \<and> db' = db\<lparr>ai_channels := ai_channels db @ [new_channel i p a]\<rparr>"
  using assms by (auto simp: create_channel_def new_channel_def list_ex_iff channel_index_def)

lemma update_channel_ok:
  assumes "update_channel env i p a db s = (ROk (x, db', hs), s')"
  shows "s' = s \<and> hs = catalog_hooks env \<and> catalog_wildcard a \<and> base_ok env (given (pc_api_base p) None)
    \<and> (\<forall>n. pc_name p = Some (Some n) \<longrightarrow> channel_name_unique n (Some i) db)
    \<and> db' = db\<lparr>ai_channels := update_row i (apply_channel_update p a) (ai_channels db)\<rparr>"
  using assms by (auto simp: update_channel_def dest: row_found)

lemma delete_channel_ok:
  assumes "delete_channel env i a db s = (ROk (x, db', hs), s')"
  shows "s' = s \<and> hs = catalog_hooks env \<and> catalog_wildcard a \<and> channel_active_deployments i db \<le> 0
    \<and> db' = db\<lparr>ai_channels := soft_delete_row (Some (au_user_id a)) i (ai_channels db)\<rparr>"
  using assms by (auto simp: delete_channel_def)

lemma create_channel_key_ok:
  assumes "create_channel_key env i p a db s = (ROk (x, db', hs), s')"
  shows "s' = s \<and> hs = catalog_hooks env \<and> catalog_wildcard a \<and> i \<notin> be_id ` set (ai_keys db)
    \<and> (\<exists>c. ce_encrypt env (nk_api_key p) = Some c \<and> db' = db\<lparr>ai_keys := ai_keys db @ [new_key i p c a]\<rparr>)"
  using assms by (auto simp: create_channel_key_def new_key_def split: option.splits)

lemma update_channel_key_ok:
  assumes "update_channel_key env i p a db s = (ROk (x, db', hs), s')"
  shows "s' = s \<and> hs = catalog_hooks env \<and> catalog_wildcard a
    \<and> db' = db\<lparr>ai_keys := update_row i (apply_key_update p a) (ai_keys db)\<rparr>"
  using assms by (auto simp: update_channel_key_def)

lemma delete_channel_key_ok:
  assumes "delete_channel_key env i a db s = (ROk (x, db', hs), s')"
  shows "s' = s \<and> hs = catalog_hooks env \<and> catalog_wildcard a
    \<and> db' = db\<lparr>ai_keys := soft_delete_row (Some (au_user_id a)) i (ai_keys db)\<rparr>"
  using assms by (auto simp: delete_channel_key_def)

lemma rotate_channel_key_ok:
  assumes "rotate_channel_key env i k a db s = (ROk (x, db', hs), s')"
  shows "s' = s \<and> hs = catalog_hooks env \<and> catalog_wildcard a
    \<and> (\<exists>c. ce_encrypt env k = Some c \<and> db' = db\<lparr>ai_keys := update_row i (\<lambda>r. r\<lparr>ky_api_key_encrypted := c, ky_key_hint := key_hint k,
          be_updated_by := Some (au_user_id a)\<rparr>) (ai_keys db)\<rparr>)"
  using assms by (auto simp: rotate_channel_key_def Let_def split: option.splits)

lemma create_model_ok:
  assumes "create_model env i p a db s = (ROk (x, db', hs), s')"
  shows "s' = s \<and> hs = catalog_hooks env \<and> catalog_wildcard a \<and> i \<notin> be_id ` set (ai_models db)
    \<and> (\<forall>m\<in>set (ai_models db). model_index m \<noteq> Some (nm_name p))
    \<and> db' = db\<lparr>ai_models := ai_models db @ [new_model i p a]\<rparr>"
  using assms by (auto simp: create_model_def new_model_def list_ex_iff model_index_def)

lemma update_model_ok:
  assumes "update_model env i p a db s = (ROk (x, db', hs), s')"
  shows "s' = s \<and> hs = catalog_hooks env \<and> catalog_wildcard a
    \<and> (\<forall>n. pm_name p = Some (Some n) \<longrightarrow> model_name_unique n (Some i) db)
    \<and> db' = db\<lparr>ai_models := update_row i (apply_model_update p a) (ai_models db)\<rparr>"
  using assms by (auto simp: update_model_def dest: row_found)

lemma delete_model_ok:
  assumes "delete_model env i a db s = (ROk (x, db', hs), s')"
  shows "s' = s \<and> hs = catalog_hooks env \<and> catalog_wildcard a \<and> model_active_deployments i db \<le> 0
    \<and> db' = db\<lparr>ai_models := soft_delete_row (Some (au_user_id a)) i (ai_models db)\<rparr>"
  using assms by (auto simp: delete_model_def)

lemma create_deployment_ok:
  assumes "create_deployment env i p a db s = (ROk (x, db', hs), s')"
  shows "s' = s \<and> hs = catalog_hooks env \<and> catalog_wildcard a \<and> i \<notin> be_id ` set (ai_deployments db)
    \<and> (\<exists>m. repo_get (nd_logical_model_id p) (ai_models db) = Some m) \<and> (\<exists>c. repo_get (nd_channel_id p) (ai_channels db) = Some c)
    \<and> (\<forall>d\<in>set (ai_deployments db). deployment_index d \<noteq> Some (nd_logical_model_id p, nd_channel_id p))
    \<and> db' = db\<lparr>ai_deployments := ai_deployments db @ [new_deployment i p a]\<rparr>"
  using assms by (auto simp: create_deployment_def new_deployment_def list_ex_iff deployment_index_def)

lemma update_deployment_ok:
  assumes "update_deployment env i p a db s = (ROk (x, db', hs), s')"
  shows "s' = s \<and> hs = catalog_hooks env \<and> catalog_wildcard a
    \<and> (\<exists>d. repo_get i (ai_deployments db) = Some d
        \<and> (pd_logical_model_id p = None \<and> pd_channel_id p = None
           \<or> deployment_unique (given_value (pd_logical_model_id p) (dy_logical_model_id d))
               (given_value (pd_channel_id p) (dy_channel_id d)) (Some i) db))
    \<and> (\<forall>m. pd_logical_model_id p = Some m \<longrightarrow> (\<exists>j r. m = Some j \<and> repo_get j (ai_models db) = Some r))
    \<and> (\<forall>c. pd_channel_id p = Some c \<longrightarrow> (\<exists>j r. c = Some j \<and> repo_get j (ai_channels db) = Some r))
    \<and> db' = db\<lparr>ai_deployments := update_row i (apply_deployment_update p a) (ai_deployments db)\<rparr>"
  using assms by (auto simp: update_deployment_def dest: row_found split: option.splits)

lemma delete_deployment_ok:
  assumes "delete_deployment env i a db s = (ROk (x, db', hs), s')"
  shows "s' = s \<and> hs = catalog_hooks env \<and> catalog_wildcard a
    \<and> db' = db\<lparr>ai_deployments := soft_delete_row (Some (au_user_id a)) i (ai_deployments db)\<rparr>"
  using assms by (auto simp: delete_deployment_def)

section \<open>Grants, quota rules, rate-limit rules and keys\<close>

lemma clear_default_sel [simp]:
  "ai_identity (clear_default sc i a db) = ai_identity db" "ai_channels (clear_default sc i a db) = ai_channels db"
  "ai_keys (clear_default sc i a db) = ai_keys db" "ai_models (clear_default sc i a db) = ai_models db"
  "ai_deployments (clear_default sc i a db) = ai_deployments db" "ai_quotas (clear_default sc i a db) = ai_quotas db"
  "ai_rate_rules (clear_default sc i a db) = ai_rate_rules db" "ai_credentials (clear_default sc i a db) = ai_credentials db"
  by (simp_all add: clear_default_def split: option.split)

text \<open>What clearing the default of a subject does to the table, when there is one.\<close>

definition undefaulted :: "authenticated_user \<Rightarrow> grant_row \<Rightarrow> grant_row" where
  "undefaulted a g = g\<lparr>gr_is_default := False, be_updated_by := Some (au_user_id a)\<rparr>"

lemma clear_default_cases:
  obtains "\<forall>g\<in>set (ai_grants db). \<not> default_grant sc i g" "clear_default sc i a db = db"
  | g where "g \<in> set (ai_grants db)" "default_grant sc i g"
      "clear_default sc i a db = db\<lparr>ai_grants := update_row (be_id g) (undefaulted a) (ai_grants db)\<rparr>"
proof (cases "get_default_grant sc i db")
  case None
  then have "\<forall>g\<in>set (ai_grants db). \<not> default_grant sc i g"
    by (auto simp: get_default_grant_def scalar_None_iff filter_empty_conv)
  then have "\<forall>g\<in>set (ai_grants db). \<not> default_grant sc i g" "clear_default sc i a db = db"
    using None by (simp_all add: clear_default_def)
  then show ?thesis by (rule that(1))
next
  case (Some g)
  then have "g \<in> set (ai_grants db)" "default_grant sc i g"
    by (auto simp: get_default_grant_def dest!: scalar_SomeD)
  moreover have "clear_default sc i a db = db\<lparr>ai_grants := update_row (be_id g) (undefaulted a) (ai_grants db)\<rparr>"
    using Some by (simp add: clear_default_def undefaulted_def [abs_def])
  ultimately show ?thesis by (rule that(2))
qed

lemma create_grant_ok:
  assumes "create_grant now i p a db s = (ROk (x, db', hs), s')"
  shows "s' = s \<and> hs = [bump_grant_cache_generation now (grant_scope_value (ng_scope p)) (ng_scope_id p)]
    \<and> subject_exists (ng_scope p) (ng_scope_id p) db \<and> model_exists (ng_logical_model_id p) db
    \<and> (\<forall>g\<in>set (ai_grants db). \<not> existing_grant (grant_scope_value (ng_scope p)) (ng_scope_id p) (ng_logical_model_id p) g)
    \<and> (\<exists>db1. db1 = (if ng_is_default p then clear_default (grant_scope_value (ng_scope p)) (ng_scope_id p) a db else db)
        \<and> i \<notin> be_id ` set (ai_grants db1)
        \<and> (ng_is_default p \<longrightarrow> (\<forall>g\<in>set (ai_grants db1). \<not> default_grant (grant_scope_value (ng_scope p)) (ng_scope_id p) g))
        \<and> db' = db1\<lparr>ai_grants := ai_grants db1 @ [new_grant i p a]\<rparr>)"
  using assms
  by (auto simp: create_grant_def new_grant_def Let_def list_ex_iff get_existing_grant_def scalar_None_iff filter_empty_conv split: if_splits)

lemma update_grant_ok:
  assumes "update_grant now i p a db s = (ROk (x, db', hs), s')"
  shows "s' = s \<and> (\<exists>g. repo_get i (ai_grants db) = Some g
    \<and> hs = [bump_grant_cache_generation now (gr_scope g) (gr_scope_id g)]
    \<and> (\<exists>db1. db1 = (if pg_is_default p = Some (Some True) \<and> \<not> gr_is_default g then clear_default (gr_scope g) (gr_scope_id g) a db else db)
        \<and> db' = db1\<lparr>ai_grants := update_row i (apply_grant_update p a) (ai_grants db1)\<rparr>))"
  using assms by (auto simp: update_grant_def Let_def)

lemma delete_grant_ok:
  assumes "delete_grant now i a db s = (ROk (x, db', hs), s')"
  shows "s' = s \<and> (\<exists>g. repo_get i (ai_grants db) = Some g
    \<and> hs = [bump_grant_cache_generation now (gr_scope g) (gr_scope_id g)]
    \<and> db' = db\<lparr>ai_grants := soft_delete_row (Some (au_user_id a)) i (ai_grants db)\<rparr>)"
  using assms by (auto simp: delete_grant_def)

lemma create_quota_ok:
  assumes "create_quota now i p a db s = (ROk (x, db', hs), s')"
  shows "s' = s \<and> hs = [bump_quota_cache_generation now (quota_scope_value (nq_scope p)) (nq_scope_id p)]
    \<and> (quota_scope_value (nq_scope p) = ''global'') = (nq_scope_id p = None) \<and> global_quota_allowed (quota_scope_value (nq_scope p)) a
    \<and> i \<notin> be_id ` set (ai_quotas db)
    \<and> (\<forall>q\<in>set (ai_quotas db). \<not> existing_quota (quota_scope_value (nq_scope p)) (nq_scope_id p) (nq_logical_model_id p)
          (quota_period_value (nq_period p)) (quota_metric_value (nq_metric p)) q)
    \<and> db' = db\<lparr>ai_quotas := ai_quotas db @ [new_quota i p a]\<rparr>"
  using assms by (auto simp: create_quota_def new_quota_def Let_def list_ex_iff)

lemma update_quota_ok:
  assumes "update_quota now i p a db s = (ROk (x, db', hs), s')"
  shows "s' = s \<and> (\<exists>q. repo_get i (ai_quotas db) = Some q \<and> global_quota_allowed (qo_scope q) a
    \<and> hs = [bump_quota_cache_generation now (qo_scope q) (qo_scope_id q)]
    \<and> db' = db\<lparr>ai_quotas := update_row i (apply_quota_update p a) (ai_quotas db)\<rparr>)"
  using assms by (auto simp: update_quota_def)

lemma delete_quota_ok:
  assumes "delete_quota now i a db s = (ROk (x, db', hs), s')"
  shows "s' = s \<and> (\<exists>q. repo_get i (ai_quotas db) = Some q \<and> global_quota_allowed (qo_scope q) a
    \<and> hs = [bump_quota_cache_generation now (qo_scope q) (qo_scope_id q)]
    \<and> db' = db\<lparr>ai_quotas := soft_delete_row (Some (au_user_id a)) i (ai_quotas db)\<rparr>)"
  using assms by (auto simp: delete_quota_def)

lemma create_rate_rule_ok:
  assumes "create_rate_rule i p a db s = (ROk (x, db', hs), s')"
  shows "s' = s \<and> hs = [] \<and> check_subject_id p \<and> (nr_subject_type p = RS_global \<longrightarrow> is_superuser a)
    \<and> i \<notin> be_id ` set (ai_rate_rules db)
    \<and> (\<forall>r\<in>set (ai_rate_rules db). \<not> rate_rule_clash (new_rate_rule i p a) r)
    \<and> db' = db\<lparr>ai_rate_rules := ai_rate_rules db @ [new_rate_rule i p a]\<rparr>"
  using assms by (auto simp: create_rate_rule_def validate_subject_def new_rate_rule_def list_ex_iff split: if_splits option.splits)

lemma update_rate_rule_ok:
  assumes "update_rate_rule i p a db s = (ROk (x, db', hs), s')"
  shows "s' = s \<and> hs = [] \<and> (\<exists>r. repo_get i (ai_rate_rules db) = Some r \<and> (ra_subject_type r = ''global'' \<longrightarrow> is_superuser a))
    \<and> db' = db\<lparr>ai_rate_rules := update_row i (apply_rate_rule_update p a) (ai_rate_rules db)\<rparr>"
  using assms by (auto simp: update_rate_rule_def)

lemma delete_rate_rule_ok:
  assumes "delete_rate_rule i a db s = (ROk (x, db', hs), s')"
  shows "s' = s \<and> hs = [] \<and> (\<exists>r. repo_get i (ai_rate_rules db) = Some r \<and> (ra_subject_type r = ''global'' \<longrightarrow> is_superuser a))
    \<and> db' = db\<lparr>ai_rate_rules := soft_delete_row (Some (au_user_id a)) i (ai_rate_rules db)\<rparr>"
  using assms by (auto simp: delete_rate_rule_def)

lemma create_credential_ok:
  assumes "create_credential sha rnd i p a db s = (ROk (x, db', hs), s')"
  shows "s' = s \<and> hs = [] \<and> user_exists (nk_user_id p) db \<and> (nk_user_id p = au_user_id a \<or> has_permission a ''ai:credential:issue'')
    \<and> i \<notin> be_id ` set (ai_credentials db) \<and> (\<forall>k\<in>set (ai_credentials db). cd_key_hash k \<noteq> sha (''sk-'' @ rnd))
    \<and> x = (new_credential sha (''sk-'' @ rnd) i p a, ''sk-'' @ rnd)
    \<and> db' = db\<lparr>ai_credentials := ai_credentials db @ [new_credential sha (''sk-'' @ rnd) i p a]\<rparr>"
  using assms by (auto simp: create_credential_def new_credential_def Let_def list_ex_iff)

lemma update_credential_ok:
  assumes "update_credential i p a db s = (ROk (x, db', hs), s')"
  shows "s' = s \<and> hs = [] \<and> db' = db\<lparr>ai_credentials := update_row i (apply_credential_update p a) (ai_credentials db)\<rparr>"
  using assms by (auto simp: update_credential_def)

lemma delete_credential_ok:
  assumes "delete_credential i a db s = (ROk (x, db', hs), s')"
  shows "s' = s \<and> hs = [] \<and> db' = db\<lparr>ai_credentials := soft_delete_row (Some (au_user_id a)) i (ai_credentials db)\<rparr>"
  using assms by (auto simp: delete_credential_def)

lemma done_with_ok [simp]: "done_with r = (ROk (u, d, hs), s) \<longleftrightarrow> (\<exists>x. r = (ROk (x, d, hs), s))"
  by (auto simp: done_with_def split: res.splits prod.splits)

lemmas catalog_outcomes =
  create_channel_ok update_channel_ok delete_channel_ok create_channel_key_ok update_channel_key_ok delete_channel_key_ok
  rotate_channel_key_ok create_model_ok update_model_ok delete_model_ok create_deployment_ok update_deployment_ok delete_deployment_ok

lemmas rule_outcomes =
  create_grant_ok update_grant_ok delete_grant_ok create_quota_ok update_quota_ok delete_quota_ok
  create_rate_rule_ok update_rate_rule_ok delete_rate_rule_ok create_credential_ok update_credential_ok delete_credential_ok

end
