(* ===== verification/PlatformFacts.thy ===== *)
theory PlatformFacts
  imports AiOutcomes ResolutionCache
begin

text \<open>
  The administration and the hot path together, on one database and one healthy Redis connection: whatever administrators write, a
  model is resolved as the database resolves it now, because every operation bumps, after its commit, a generation of
  everyone it concerns; and a committed write to the catalog is announced to the live routers once.
\<close>

section \<open>Requests\<close>

lemma done_with_redis [simp]: "snd (done_with r) = snd r"
  by (auto simp: done_with_def split: res.splits prod.splits)

lemma db_op_redis [simp]: "snd (db_op f db s) = s"
  by (simp add: db_op_def)

lemma ai_perform_redis: "snd (ai_perform env a cmd db s) = s"
  by (cases cmd)
    (simp_all add: create_channel_def update_channel_def delete_channel_def create_channel_key_def update_channel_key_def
      delete_channel_key_def rotate_channel_key_def create_model_def update_model_def delete_model_def create_deployment_def
      update_deployment_def delete_deployment_def create_grant_def update_grant_def delete_grant_def create_quota_def
      update_quota_def delete_quota_def create_rate_rule_def update_rate_rule_def delete_rate_rule_def create_credential_def
      update_credential_def delete_credential_def)

lemma ai_request_cases:
  assumes "ai_request env ok a cmd db s = (r, db', s')"
  obtains (unchanged) "db' = db" "s' = s" "r \<noteq> ROk ()"
  | (committed) hs where "ai_perform env a cmd db s = (ROk ((), db', hs), s)" "s' = run_hooks hs s" "r = ROk ()" "ok"
      "has_permission a (ai_permission cmd)"
proof -
  obtain x s1 where x: "ai_perform env a cmd db s = (x, s1)" by force
  then have "s1 = s" using ai_perform_redis [of env a cmd db s] by simp
  then show ?thesis
    using assms x that by (cases x) (auto simp: ai_request_def unit_of_work_def split: if_splits)
qed

section \<open>Hooks\<close>

lemma run_hooks_simps [simp]: "run_hooks [] s = s" "run_hooks (h # hs) s = run_hooks hs (h s)"
  by (simp_all add: run_hooks_def)

lemma publish_healthy: "r_wire s = [] \<Longrightarrow> publish_router_invalidation s = redis_publish ROUTER_INVALIDATE ''1'' s"
  by (simp add: publish_router_invalidation_def ruse_def)

lemma published_sel [simp]:
  "r_wire (redis_publish ch m s) = r_wire s" "r_ints (redis_publish ch m s) = r_ints s" "r_strs (redis_publish ch m s) = r_strs s"
  "r_expiry (redis_publish ch m s) = r_expiry s" "r_published (redis_publish ch m s) = r_published s @ [(ch, m)]"
  by (simp_all add: redis_publish_def)

lemma bump_published: "r_published (snd (bump_generation now k s)) = r_published s"
  by (cases "r_wire s" rule: list.exhaust; cases "hd (r_wire s)")
    (auto simp: bump_generation_def rcall_def redis_incrby_def evict_if_expired_def Let_def split: wire.splits list.splits)

definition catalog_command :: "ai_command \<Rightarrow> bool" where
  "catalog_command cmd \<longleftrightarrow> take 11 (ai_permission cmd) = ''ai:catalog:''"

lemma catalog_command_hooks:
  assumes "ai_perform env a cmd db s = (ROk (u, db', hs), s')" and "catalog_command cmd"
  shows "hs = catalog_hooks (catalog_env.truncate env) \<and> catalog_wildcard a"
  using assms by (cases cmd) (auto simp: catalog_command_def dest!: catalog_outcomes)

lemma catalog_hooks_run:
  "r_wire s = [] \<Longrightarrow> run_hooks (catalog_hooks (catalog_env.truncate env)) s
     = snd (bump_catalog_generation (ce_now env) (redis_publish ROUTER_INVALIDATE ''1'' s))"
  by (simp add: catalog_hooks_def publish_healthy bump_catalog_cache_generation_def)

text \<open>
  A committed write to the catalog is announced. On a healthy connection a request that changes the catalog and commits
  publishes exactly one invalidation of the routers and raises the catalog's generation by one; a request that is refused, fails or
  is rolled back leaves the tables and Redis exactly as they were.
\<close>

theorem catalog_writes_announced:
  assumes "ai_request env ok a cmd db s = (r, db', s')" and "catalog_command cmd" and "steady s"
  shows "if r = ROk () then catalog_wildcard a \<and> r_published s' = r_published s @ [(ROUTER_INVALIDATE, ''1'')]
             \<and> gen_of s' CATALOG_GEN_KEY = gen_of s CATALOG_GEN_KEY + 1
         else db' = db \<and> s' = s"
  using assms(1)
proof (cases rule: ai_request_cases)
  case (committed hs)
  let ?p = "redis_publish ROUTER_INVALIDATE ''1'' s"
  have st: "steady ?p" using assms(3) by (simp add: steady_def)
  have gen: "gen_of ?p k = gen_of s k" for k by (simp add: gen_of_def)
  have hooks: "hs = catalog_hooks (catalog_env.truncate env)" "catalog_wildcard a"
    using catalog_command_hooks [OF committed(1) assms(2)] by auto
  have "s' = snd (bump_catalog_generation (ce_now env) ?p)"
    using committed(2) assms(3) unfolding hooks by (simp add: steady_def catalog_hooks_run)
  then show ?thesis
    using bump_steady(2) [OF st is_gen_key_simps(1), of "ce_now env" CATALOG_GEN_KEY] committed(3) hooks(2)
    by (simp add: bump_catalog_generation_def bump_published gen)
qed simp

section \<open>Frames of the resolution cache\<close>

definition same_entries :: "redis \<Rightarrow> redis \<Rightarrow> bool" where
  "same_entries s s' \<longleftrightarrow> r_wire s' = r_wire s \<and> (\<forall>k. is_gen_key k \<longrightarrow> r_ints s' k = r_ints s k \<and> r_expiry s' k = r_expiry s k)
     \<and> (\<forall>g u d k. r_strs s' (resolve_cache_key g u d k) = r_strs s (resolve_cache_key g u d k))"

lemma same_entriesD:
  assumes "same_entries s s'"
  shows "r_wire s' = r_wire s" "is_gen_key k \<Longrightarrow> r_ints s' k = r_ints s k" "is_gen_key k \<Longrightarrow> r_expiry s' k = r_expiry s k"
    "r_strs s' (resolve_cache_key g u d m) = r_strs s (resolve_cache_key g u d m)"
  using assms unfolding same_entries_def by blast+

lemma same_entries_refl [simp]: "same_entries s s"
  by (simp add: same_entries_def)

lemma same_entries_trans: "same_entries s t \<Longrightarrow> same_entries t u \<Longrightarrow> same_entries s u"
  unfolding same_entries_def by simp

lemma cache_inv_frame:
  assumes inv: "cache_inv (db, s)" and db: "db_models db' = db_models db" "db_grants db' = db_grants db" and s: "same_entries s s'"
  shows "cache_inv (db', s')"
proof (rule cache_invI)
  note d = same_entriesD [OF s]
  have gen: "is_gen_key k \<Longrightarrow> gen_of s' k = gen_of s k" for k by (simp add: gen_of_def d(2))
  then have gens: "gens s' u d = gens s u d" for u d by (simp add: gens_def)
  show "steady s'" using cache_invD(1) [OF inv] by (simp add: steady_def d(1,3))
  show "no_sentinel db'" using cache_invD(2) [OF inv] by (simp add: no_sentinel_def db)
  fix u e k raw
  assume "e \<noteq> Some 0" "r_strs s' (resolve_cache_key (gens s' u e) u (or_int e 0) k) = Some raw"
  then have "coherent_entry db s u e k raw" by (intro cache_invD(3) [OF inv]) (simp_all add: gens d(4))
  moreover have "resolve_from_db v q db' = resolve_from_db v q db" for v q
    by (simp add: resolve_from_db_def get_user_granted_models_def get_default_model_id_def get_logical_model_by_id_def
        get_logical_model_by_name_def db cong: option.case_cong)
  ultimately show "coherent_entry db' s' u e k raw" by (simp add: coherent_entry_def)
next
  fix g1 g2 g3 u e k
  assume "r_strs s' (resolve_cache_key (g1, g2, g3) u e k) \<noteq> None"
  then have "r_strs s (resolve_cache_key (g1, g2, g3) u e k) \<noteq> None" by (simp add: same_entriesD(4) [OF s])
  from cache_invD(4) [OF inv this]
  show "g1 \<le> gen_of s' CATALOG_GEN_KEY \<and> g2 \<le> gen_of s' (user_grant_gen_key u) \<and> g3 \<le> gen_of s' (dept_grant_gen_key e)"
    by (simp add: gen_of_def same_entriesD(2) [OF s])
qed

lemma same_entries_publish: "same_entries s (redis_publish ch m s)"
  by (simp add: same_entries_def)

lemma quota_gen_keys: 
  "\<not> is_gen_key QUOTA_GEN_GLOBAL_KEY" "\<not> is_gen_key (user_quota_gen_key i)" "\<not> is_gen_key (dept_quota_gen_key i)"
  "resolve_cache_key g u d k \<noteq> QUOTA_GEN_GLOBAL_KEY" "resolve_cache_key g u d k \<noteq> user_quota_gen_key i"
  "resolve_cache_key g u d k \<noteq> dept_quota_gen_key i"
  by (cases g; auto simp: is_gen_key_def gen_keys resolve_cache_key_def versioned_key_def
      user_grant_gen_key_def dept_grant_gen_key_def user_quota_gen_key_def dept_quota_gen_key_def)+

lemma same_entries_bump:
  assumes "r_wire s = []" "\<not> is_gen_key k" "\<And>g u d m. resolve_cache_key g u d m \<noteq> k"
  shows "same_entries s (snd (bump_generation now k s))"
  using assms by (auto simp: same_entries_def bump_generation_def redis_incrby_def evict_if_expired_def Let_def)

lemma same_entries_quota:
  assumes "r_wire s = []"
  shows "same_entries s (bump_quota_cache_generation now scope i s)"
proof -
  have refl: "same_entries s s" by (simp add: same_entries_def)
  have one: "same_entries s (bump_if now user_quota_gen_key v s)" "same_entries s (bump_if now dept_quota_gen_key v s)" for v
    using assms refl by (auto simp: bump_if_def quota_gen_keys split: option.split intro!: same_entries_bump)
  show ?thesis
    using one same_entries_bump [OF assms quota_gen_keys(1,4)] refl
    by (simp add: bump_quota_cache_generation_def bump_quota_generation_def bump_if_def)
qed

section \<open>Writes to grants\<close>

definition concerns :: "string \<Rightarrow> int \<Rightarrow> grant_row \<Rightarrow> bool" where
  "concerns sc i g \<longleftrightarrow> gr_scope g = sc \<and> gr_scope_id g = i"

definition subject_wf :: "string \<Rightarrow> int \<Rightarrow> bool" where
  "subject_wf sc i \<longleftrightarrow> sc = ''user'' \<or> sc = ''department'' \<and> i \<noteq> 0"

definition grants_wf :: "ai_db \<Rightarrow> bool" where
  "grants_wf db \<longleftrightarrow> unique_ids (ai_grants db) \<and> (\<forall>g\<in>set (ai_grants db). subject_wf (gr_scope g) (gr_scope_id g))
     \<and> (\<forall>d\<in>set (id_departments (ai_identity db)). be_id d \<noteq> 0)"

definition only_concerned :: "string \<Rightarrow> int \<Rightarrow> ai_db \<Rightarrow> ai_db \<Rightarrow> bool" where
  "only_concerned sc i db db' \<longleftrightarrow> ai_models db' = ai_models db \<and> ai_identity db' = ai_identity db
     \<and> filter (\<lambda>g. \<not> concerns sc i g) (ai_grants db') = filter (\<lambda>g. \<not> concerns sc i g) (ai_grants db)"

lemma only_concerned_refl [simp]: "only_concerned sc i db db"
  by (simp add: only_concerned_def)

lemma only_concerned_trans: "only_concerned sc i db db1 \<Longrightarrow> only_concerned sc i db1 db2 \<Longrightarrow> only_concerned sc i db db2"
  by (simp add: only_concerned_def)

text \<open>A change of a grant that keeps its subject, applied to a row of the subject.\<close>

lemma filter_update_row:
  "(\<And>r. r \<in> set rows \<Longrightarrow> be_id r = i \<Longrightarrow> P r \<and> P (f r)) \<Longrightarrow> filter (\<lambda>r. \<not> P r) (update_row i f rows) = filter (\<lambda>r. \<not> P r) rows"
  unfolding update_row_def by (induction rows) auto

lemma row_kept: "g \<in> set rows \<Longrightarrow> rows' = update_row j f rows \<Longrightarrow> (if be_id g = j then f g else g) \<in> set rows'"
  by (auto simp: update_row_in)

lemma update_concerned:
  assumes wf: "grants_wf db" and g: "g \<in> set (ai_grants db)" "concerns sc j g"
    and f: "\<And>r. be_id (f r) = be_id r" "\<And>r. gr_scope (f r) = gr_scope r" "\<And>r. gr_scope_id (f r) = gr_scope_id r"
  shows "only_concerned sc j db (db\<lparr>ai_grants := update_row (be_id g) f (ai_grants db)\<rparr>)"
    and "grants_wf (db\<lparr>ai_grants := update_row (be_id g) f (ai_grants db)\<rparr>)"
proof -
  have "r = g" if "r \<in> set (ai_grants db)" "be_id r = be_id g" for r
    using wf g(1) that by (auto simp: grants_wf_def dest: row_of_id)
  then show "only_concerned sc j db (db\<lparr>ai_grants := update_row (be_id g) f (ai_grants db)\<rparr>)"
    using g f by (simp add: only_concerned_def) (intro filter_update_row, auto simp: concerns_def)
  show "grants_wf (db\<lparr>ai_grants := update_row (be_id g) f (ai_grants db)\<rparr>)"
    using wf f by (auto simp: grants_wf_def unique_ids_update update_row_in)
qed

lemma undefaulted_sel [simp]:
  "be_id (undefaulted a g) = be_id g" "gr_scope (undefaulted a g) = gr_scope g" "gr_scope_id (undefaulted a g) = gr_scope_id g"
  "gr_logical_model_id (undefaulted a g) = gr_logical_model_id g" "be_is_deleted (undefaulted a g) = be_is_deleted g"
  "\<not> gr_is_default (undefaulted a g)"
  by (simp_all add: undefaulted_def)

lemma apply_grant_update_sel [simp]:
  "be_id (apply_grant_update p a g) = be_id g" "gr_scope (apply_grant_update p a g) = gr_scope g"
  "gr_scope_id (apply_grant_update p a g) = gr_scope_id g" "gr_logical_model_id (apply_grant_update p a g) = gr_logical_model_id g"
  "be_is_deleted (apply_grant_update p a g) = be_is_deleted g"
  by (simp_all add: apply_grant_update_def)

lemma clear_default_concerned:
  assumes "grants_wf db"
  shows "only_concerned sc j db (clear_default sc j a db) \<and> grants_wf (clear_default sc j a db)"
proof (rule clear_default_cases [of db sc j a])
  assume "clear_default sc j a db = db" then show ?thesis using assms by simp
next
  fix g assume g: "g \<in> set (ai_grants db)" "default_grant sc j g"
    and c: "clear_default sc j a db = db\<lparr>ai_grants := update_row (be_id g) (undefaulted a) (ai_grants db)\<rparr>"
  have "concerns sc j g" using g(2) by (simp add: default_grant_def concerns_def)
  from update_concerned [OF assms g(1) this, of "undefaulted a"] show ?thesis unfolding c by simp
qed

lemma create_grant_concerned:
  assumes "create_grant now i p a db s = (ROk (x, db', hs), s')" and wf: "grants_wf db"
  shows "subject_wf (grant_scope_value (ng_scope p)) (ng_scope_id p)
    \<and> only_concerned (grant_scope_value (ng_scope p)) (ng_scope_id p) db db' \<and> grants_wf db'"
proof -
  let ?sc = "grant_scope_value (ng_scope p)" and ?j = "ng_scope_id p"
  obtain db1 where db1: "db1 = (if ng_is_default p then clear_default ?sc ?j a db else db)"
    and new: "i \<notin> be_id ` set (ai_grants db1)" "db' = db1\<lparr>ai_grants := ai_grants db1 @ [new_grant i p a]\<rparr>"
    and ex: "subject_exists (ng_scope p) ?j db"
    using create_grant_ok [OF assms(1)] by blast
  have 1: "only_concerned ?sc ?j db db1" "grants_wf db1"
    using clear_default_concerned [OF wf] wf by (auto simp: db1)
  have sub: "subject_wf ?sc ?j"
    using ex wf by (cases "ng_scope p") (auto simp: subject_exists_def subject_wf_def row_exists_def list_ex_iff grants_wf_def)
  have sel: "be_id (new_grant i p a) = i" "gr_scope (new_grant i p a) = ?sc" "gr_scope_id (new_grant i p a) = ?j"
    by (simp_all add: new_grant_def)
  have "only_concerned ?sc ?j db1 db'" "grants_wf db'"
    using 1(2) new sub sel by (auto simp: only_concerned_def concerns_def grants_wf_def intro!: unique_ids_create)
  with 1 sub show ?thesis by (blast intro: only_concerned_trans)
qed

lemma update_grant_concerned:
  assumes "update_grant now i p a db s = (ROk (x, db', hs), s')" and wf: "grants_wf db"
  obtains g :: grant_row where "hs = [bump_grant_cache_generation now (gr_scope g) (gr_scope_id g)]" "subject_wf (gr_scope g) (gr_scope_id g)"
    "only_concerned (gr_scope g) (gr_scope_id g) db db'" "grants_wf db'"
proof -
  obtain g db1 where g: "repo_get i (ai_grants db) = Some g" "hs = [bump_grant_cache_generation now (gr_scope g) (gr_scope_id g)]"
    and db1: "db1 = (if pg_is_default p = Some (Some True) \<and> \<not> gr_is_default g then clear_default (gr_scope g) (gr_scope_id g) a db else db)"
    and db': "db' = db1\<lparr>ai_grants := update_row i (apply_grant_update p a) (ai_grants db1)\<rparr>"
    using update_grant_ok [OF assms(1)] by blast
  have in_db: "g \<in> set (ai_grants db)" "be_id g = i" using row_found [OF g(1)] by auto
  let ?c = "concerns (gr_scope g) (gr_scope_id g)"
  have 1: "only_concerned (gr_scope g) (gr_scope_id g) db db1" "grants_wf db1"
    using clear_default_concerned [OF wf] wf by (auto simp: db1)
  have "\<exists>g1\<in>set (ai_grants db1). be_id g1 = i \<and> ?c g1"
  proof (cases "db1 = db")
    case True with in_db show ?thesis by (auto simp: concerns_def)
  next
    case False
    then have "db1 = clear_default (gr_scope g) (gr_scope_id g) a db" by (auto simp: db1 split: if_splits)
    then show ?thesis using in_db
    proof (cases rule: clear_default_cases [of db "gr_scope g" "gr_scope_id g" a])
      case (2 h)
      then show ?thesis using in_db \<open>db1 = clear_default (gr_scope g) (gr_scope_id g) a db\<close>
        by (intro bexI [OF _ row_kept [of g]]) (auto simp: concerns_def)
    qed (use False in simp)
  qed
  then obtain g1 where g1: "g1 \<in> set (ai_grants db1)" "be_id g1 = i" "?c g1" by blast
  note u = update_concerned [OF 1(2) g1(1,3), of "apply_grant_update p a", unfolded g1(2), folded db']
  have "subject_wf (gr_scope g) (gr_scope_id g)" using wf in_db by (auto simp: grants_wf_def)
  then show ?thesis using that [OF g(2)] u only_concerned_trans [OF 1(1)] by simp
qed

lemma delete_grant_concerned:
  assumes "delete_grant now i a db s = (ROk (x, db', hs), s')" and wf: "grants_wf db"
  obtains g :: grant_row where "hs = [bump_grant_cache_generation now (gr_scope g) (gr_scope_id g)]" "subject_wf (gr_scope g) (gr_scope_id g)"
    "only_concerned (gr_scope g) (gr_scope_id g) db db'" "grants_wf db'"
proof -
  obtain g where g: "repo_get i (ai_grants db) = Some g" "hs = [bump_grant_cache_generation now (gr_scope g) (gr_scope_id g)]"
    and db': "db' = db\<lparr>ai_grants := soft_delete_row (Some (au_user_id a)) i (ai_grants db)\<rparr>"
    using delete_grant_ok [OF assms(1)] by blast
  have in_db: "g \<in> set (ai_grants db)" "be_id g = i" using row_found [OF g(1)] by auto
  have "concerns (gr_scope g) (gr_scope_id g) g" by (simp add: concerns_def)
  note u = update_concerned [OF wf in_db(1) this, of "\<lambda>r. r\<lparr>be_updated_by := Some (au_user_id a), be_is_deleted := True\<rparr>",
      unfolded in_db(2), folded soft_delete_row_def, folded db']
  have "subject_wf (gr_scope g) (gr_scope_id g)" using wf in_db by (auto simp: grants_wf_def)
  then show ?thesis using that [OF g(2)] u by simp
qed

section \<open>The platform\<close>

text \<open>No name has a null character: the database stores none.\<close>

definition null_free :: "string \<Rightarrow> bool" where
  "null_free t \<longleftrightarrow> char_of (0 :: nat) \<notin> set t"

definition storable :: "ai_command \<Rightarrow> bool" where
  "storable cmd =
     (case cmd of
        CreateModel _ p \<Rightarrow> null_free (nm_name p)
      | UpdateModel _ p \<Rightarrow> (case pm_name p of Some (Some n) \<Rightarrow> null_free n | _ \<Rightarrow> True)
      | _ \<Rightarrow> True)"

text \<open>Requests to the gateway and to the administration, one after the other, in any order.\<close>

inductive platform_step :: "ai_db \<times> redis \<Rightarrow> ai_db \<times> redis \<Rightarrow> bool" where
  resolved: "au_department_id user \<noteq> Some 0 \<Longrightarrow> resolve_model now draw user requested (gateway_view db) s = (r, s') \<Longrightarrow>
    platform_step (db, s) (db, s')"
| administered: "storable cmd \<Longrightarrow> ai_request env ok actor cmd db s = (r, db', s') \<Longrightarrow> platform_step (db, s) (db', s')"

inductive_cases platform_stepE: "platform_step (db, s) (db', s')"

definition platform_ok :: "ai_db \<Rightarrow> bool" where
  "platform_ok db \<longleftrightarrow> grants_wf db \<and> (\<forall>m\<in>set (ai_models db). null_free (mo_name m))"

definition platform_inv :: "ai_db \<times> redis \<Rightarrow> bool" where
  "platform_inv st \<longleftrightarrow> platform_ok (fst st) \<and> cache_inv (gateway_view (fst st), snd st)"

lemma view_sel [simp]:
  "db_models (gateway_view db) = map view_model (ai_models db)" "db_grants (gateway_view db) = map view_grant (ai_grants db)"
  "ug_scope (view_grant g) = gr_scope g" "ug_scope_id (view_grant g) = gr_scope_id g" "lm_name (view_model m) = mo_name m"
  by (simp_all add: gateway_view_def view_grant_def view_model_def)

lemma null_free_no_sentinel: "\<forall>m\<in>set (ai_models db). null_free (mo_name m) \<Longrightarrow> no_sentinel (gateway_view db)"
proof -
  have "\<not> null_free DEFAULT_MODEL_SENTINEL" by (simp add: null_free_def DEFAULT_MODEL_SENTINEL_def)
  then show "\<forall>m\<in>set (ai_models db). null_free (mo_name m) \<Longrightarrow> no_sentinel (gateway_view db)"
    by (auto simp: no_sentinel_def)
qed

lemma only_concerned_view:
  assumes "only_concerned sc i db db'" and "\<And>g. p (view_grant g) = concerns sc i g"
  shows "same_except p (gateway_view db) (gateway_view db')"
  using assms by (simp add: same_except_def only_concerned_def filter_map comp_def)

lemma grant_written:
  assumes inv: "cache_inv (gateway_view db, s)" and "subject_wf sc i" and "only_concerned sc i db db'"
  shows "cache_inv (gateway_view db', bump_grant_cache_generation now sc i s)"
proof (cases "sc = ''user''")
  case True
  have "same_except (user_grant i) (gateway_view db) (gateway_view db')"
    by (rule only_concerned_view [OF assms(3)]) (simp add: user_grant_def concerns_def True)
  from cache_step_inv [OF cache_step.write_user_grants [OF this] inv] show ?thesis
    by (simp add: bump_grant_cache_generation_def True)
next
  case False
  then have d: "sc = ''department''" "i \<noteq> 0" using assms(2) by (auto simp: subject_wf_def)
  have "same_except (dept_grant i) (gateway_view db) (gateway_view db')"
    by (rule only_concerned_view [OF assms(3)]) (simp add: dept_grant_def concerns_def d)
  from cache_step_inv [OF cache_step.write_dept_grants [OF this d(2)] inv] show ?thesis
    by (simp add: bump_grant_cache_generation_def d)
qed

lemma catalog_written:
  assumes inv: "cache_inv (gateway_view db, s)" and "\<forall>m\<in>set (ai_models db'). null_free (mo_name m)"
  shows "cache_inv (gateway_view db', run_hooks (catalog_hooks (catalog_env.truncate env)) s)"
proof -
  have w: "r_wire s = []" using cache_invD(1) [OF inv] by (simp add: steady_def)
  have "cache_inv (gateway_view db, redis_publish ROUTER_INVALIDATE ''1'' s)"
    by (rule cache_inv_frame [OF inv refl refl same_entries_publish])
  from cache_step_inv [OF cache_step.write_catalog [OF null_free_no_sentinel [OF assms(2)]] this]
  show ?thesis unfolding catalog_hooks_run [OF w] .
qed

text \<open>The model names a command of the catalog leaves are names it was given or names there were.\<close>

lemma model_names_kept:
  assumes "ai_perform env a cmd db s = (ROk ((), db', hs), s')" and "storable cmd" and "\<forall>m\<in>set (ai_models db). null_free (mo_name m)"
  shows "\<forall>m\<in>set (ai_models db'). null_free (mo_name m)"
proof (cases cmd)
  case (CreateModel i p)
  then show ?thesis using assms by (auto simp: storable_def new_model_def dest!: create_model_ok)
next
  case (UpdateModel i p)
  then have up: "ai_models db' = update_row i (apply_model_update p a) (ai_models db)" using assms(1) by (auto dest!: update_model_ok)
  have "null_free (mo_name (apply_model_update p a m))" if "null_free (mo_name m)" for m
    using assms(2) that UpdateModel by (auto simp: storable_def apply_model_update_def given_value_def split: option.splits)
  then show ?thesis using assms(3) by (auto simp: up update_row_in)
next
  case (DeleteModel i)
  then show ?thesis using assms by (auto simp: soft_delete_row_def update_row_in dest!: delete_model_ok)
next
  case (CreateGrant i p)
  then show ?thesis using assms by (auto dest!: create_grant_ok split: if_splits)
next
  case (UpdateGrant i p)
  then show ?thesis using assms by (auto dest!: update_grant_ok split: if_splits)
qed (use assms in \<open>auto dest!: catalog_outcomes rule_outcomes\<close>)

lemma plain_written:
  assumes inv: "cache_inv (gateway_view db, s)" and "ai_models db' = ai_models db" "ai_grants db' = ai_grants db" and "same_entries s s'"
  shows "cache_inv (gateway_view db', s')"
  by (rule cache_inv_frame [OF inv _ _ assms(4)]) (simp_all add: assms(2,3))

lemma quota_hooks:
  assumes "ai_perform env a cmd db s = (ROk ((), db', hs), s')" and "\<not> catalog_command cmd" and "\<forall>i p. cmd \<noteq> CreateGrant i p"
    and "\<forall>i p. cmd \<noteq> UpdateGrant i p" and "\<forall>i. cmd \<noteq> DeleteGrant i"
  shows "ai_models db' = ai_models db \<and> ai_grants db' = ai_grants db \<and> ai_identity db' = ai_identity db
    \<and> (r_wire s = [] \<longrightarrow> same_entries s (run_hooks hs s))"
  using assms by (cases cmd) (auto simp: catalog_command_def same_entries_quota dest!: rule_outcomes)

lemma catalog_frame:
  assumes "ai_perform env a cmd db s = (ROk ((), db', hs), s')" and "catalog_command cmd"
  shows "ai_grants db' = ai_grants db \<and> ai_identity db' = ai_identity db"
  using assms by (cases cmd) (auto simp: catalog_command_def dest!: catalog_outcomes)

lemma administered_inv:
  assumes perf: "ai_perform env a cmd db s = (ROk ((), db', hs), s)" and "storable cmd" and inv: "platform_inv (db, s)"
  shows "platform_inv (db', run_hooks hs s)"
proof -
  have ok: "grants_wf db" "\<forall>m\<in>set (ai_models db). null_free (mo_name m)" and ci: "cache_inv (gateway_view db, s)"
    using inv by (simp_all add: platform_inv_def platform_ok_def)
  have names: "\<forall>m\<in>set (ai_models db'). null_free (mo_name m)" by (rule model_names_kept [OF perf assms(2) ok(2)])
  have grant: ?thesis if "hs = [bump_grant_cache_generation now sc i]" "subject_wf sc i" "only_concerned sc i db db'" "grants_wf db'" for now sc i
    using that names grant_written [OF ci that(2,3)] by (simp add: platform_inv_def platform_ok_def)
  show ?thesis
  proof (cases "catalog_command cmd")
    case True
    have "hs = catalog_hooks (catalog_env.truncate env)" "grants_wf db' = grants_wf db"
      using catalog_command_hooks [OF perf True] catalog_frame [OF perf True] by (simp_all add: grants_wf_def)
    with catalog_written [OF ci names, of env] ok(1) names show ?thesis by (simp add: platform_inv_def platform_ok_def)
  next
    case other: False
    consider i p where "cmd = CreateGrant i p" | i p where "cmd = UpdateGrant i p" | i where "cmd = DeleteGrant i"
      | "\<forall>i p. cmd \<noteq> CreateGrant i p" "\<forall>i p. cmd \<noteq> UpdateGrant i p" "\<forall>i. cmd \<noteq> DeleteGrant i" by blast
    then show ?thesis
    proof cases
      case (1 i p)
      with perf obtain x where "create_grant (ce_now env) i p a db s = (ROk (x, db', hs), s)" by auto
      note c = create_grant_concerned [OF this ok(1)] and h = create_grant_ok [OF this, THEN conjunct2, THEN conjunct1]
      show ?thesis by (rule grant [OF h c [THEN conjunct1] c [THEN conjunct2, THEN conjunct1] c [THEN conjunct2, THEN conjunct2]])
    next
      case (2 i p)
      with perf obtain x where "update_grant (ce_now env) i p a db s = (ROk (x, db', hs), s)" by auto
      then show ?thesis by (rule update_grant_concerned [OF _ ok(1)]) (rule grant)
    next
      case (3 i)
      with perf obtain x where "delete_grant (ce_now env) i a db s = (ROk (x, db', hs), s)" by auto
      then show ?thesis by (rule delete_grant_concerned [OF _ ok(1)]) (rule grant)
    next
      case 4
      have q: "ai_models db' = ai_models db" "ai_grants db' = ai_grants db" "ai_identity db' = ai_identity db"
        "same_entries s (run_hooks hs s)"
        using quota_hooks [OF perf other 4] cache_invD(1) [OF ci] by (simp_all add: steady_def)
      from plain_written [OF ci q(1,2,4)] ok show ?thesis
        by (simp add: platform_inv_def platform_ok_def grants_wf_def q)
    qed
  qed
qed

lemma platform_step_inv: "platform_step st st' \<Longrightarrow> platform_inv st \<Longrightarrow> platform_inv st'"
proof (induction rule: platform_step.induct)
  case (resolved user now draw requested db s r s')
  then show ?case
    using cache_step_inv [OF cache_step.resolve [OF resolved(1,2)]] by (simp add: platform_inv_def)
next
  case (administered cmd env ok actor db s r db' s')
  from administered(2) show ?case
  proof (cases rule: ai_request_cases)
    case unchanged with administered(3) show ?thesis by simp
  next
    case (committed hs) with administered_inv [OF committed(1) administered(1,3)] show ?thesis by simp
  qed
qed


section \<open>A small platform\<close>

text \<open>One model and one grant of it to user 7; the administrator is the superuser.\<close>

definition platform_admin :: authenticated_user where
  "platform_admin = clerk\<lparr>au_user_id := 1, au_role_codes := {SUPERADMIN_ROLE_CODE}\<rparr>"

definition gpt_row :: model_row where
  "gpt_row = \<lparr>be_id = 3, be_is_deleted = False, be_created_by = None, be_create_dept = None, be_updated_by = None, mo_name = ''gpt'',
     mo_display_name = ''GPT'', mo_category = None, mo_sort_order = 0, mo_context_length = None, mo_price_input = None,
     mo_price_output = None, mo_status = ''active'', mo_remark = None\<rparr>"

definition gpt_grant :: "bool \<Rightarrow> grant_row" where
  "gpt_grant deleted = \<lparr>be_id = 11, be_is_deleted = deleted, be_created_by = None, be_create_dept = None,
     be_updated_by = (if deleted then Some 1 else None), gr_scope = ''user'', gr_scope_id = 7, gr_logical_model_id = 3,
     gr_is_default = False, gr_remark = None\<rparr>"

definition small_platform :: "grant_row list \<Rightarrow> ai_db" where
  "small_platform grants =
     \<lparr>ai_identity = \<lparr>id_users = [], id_departments = [], id_roles = [], id_menus = [], id_user_roles = [], id_role_menus = [],
        id_api_keys = [], id_attachs = []\<rparr>,
      ai_channels = [], ai_keys = [], ai_models = [gpt_row], ai_deployments = [], ai_grants = grants, ai_quotas = [],
      ai_rate_rules = [], ai_credentials = []\<rparr>"

definition local_env :: ai_env where
  "local_env = \<lparr>ce_now = 2000, ce_environment = ''local'', ce_ipv6 = (\<lambda>_. None), ce_encrypt = (\<lambda>k. Some k), ai_sha = (\<lambda>k. k),
     ai_random = ''0a1b''\<rparr>"

lemma admin_id [simp]: "au_user_id platform_admin = 1" "au_department_id platform_admin = None"
  by (simp_all add: platform_admin_def clerk_def)

lemma admin_may [simp]: "is_superuser platform_admin" "has_permission platform_admin c" "catalog_wildcard platform_admin"
  by (simp_all add: is_superuser_def has_permission_def catalog_wildcard_def platform_admin_def)

lemma revocation_committed:
  "ai_request local_env True platform_admin (DeleteGrant 11) (small_platform [gpt_grant False]) s
    = (ROk (), small_platform [gpt_grant True], bump_grant_cache_generation 2000 ''user'' 7 s)"
  by (simp add: ai_request_def unit_of_work_def delete_grant_def db_op_def done_with_def small_platform_def gpt_grant_def fetched_def
      repo_get_def scalar_def soft_delete_row_def update_row_def local_env_def)

lemma small_platform_ok: "platform_ok (small_platform [gpt_grant d])"
proof -
  have "null_free ''gpt''" by code_simp
  then show ?thesis
    by (simp add: platform_ok_def grants_wf_def unique_ids_def small_platform_def gpt_grant_def subject_wf_def gpt_row_def)
qed

lemma gpt_granted: "resolve_from_db sample_user (Some ''gpt'') (gateway_view (small_platform [gpt_grant False])) = ROk (view_model gpt_row)"
  by code_simp

lemma gpt_revoked: "resolve_from_db sample_user (Some ''gpt'') (gateway_view (small_platform [gpt_grant True]))
    = RErr ((app_err EC_model_not_granted 403)\<lparr>ae_params := [(''model'', ''gpt'')]\<rparr>)"
  by code_simp


text \<open>The model is deleted: one announcement, and the catalog's generation is 1.\<close>

theorem catalog_writes_announced_witness:
  "\<exists>db' s'. ai_request local_env True platform_admin (DeleteModel 3) (small_platform []) empty_redis = (ROk (), db', s')
     \<and> r_published s' = [(ROUTER_INVALIDATE, ''1'')] \<and> gen_of s' CATALOG_GEN_KEY = 1"
proof -
  obtain r db' s' where run: "ai_request local_env True platform_admin (DeleteModel 3) (small_platform []) empty_redis = (r, db', s')"
    by (metis prod_cases3)
  have r: "r = ROk ()"
    using run by (simp add: ai_request_def unit_of_work_def delete_model_def db_op_def done_with_def small_platform_def fetched_def
        repo_get_def scalar_def gpt_row_def ensure_def model_active_deployments_def)
  have "catalog_command (DeleteModel 3)" "steady empty_redis" by (simp_all add: catalog_command_def steady_def empty_redis_def)
  from catalog_writes_announced [OF run this] show ?thesis
    using run r by (simp add: gen_of_def empty_redis_def)
qed

end
