(* ===== verification/TableFacts.thy ===== *)
theory TableFacts
  imports PlatformFacts
begin

text \<open>
  The platform's tables under administration: ids and indexes stay unique although the services look before they write, at most
  one grant is a subject's default, quota rules keep their shape, active deployments keep a model and a channel, base addresses stay
  safe, only superusers change what is global, and a platform key belongs to whom it was made for.
\<close>

section \<open>Unique indexes\<close>

definition quota_shape :: "quota_rule_row \<Rightarrow> bool" where
  "quota_shape q \<longleftrightarrow> (qo_scope q = ''global'') = (qo_scope_id q = None)"

definition tables_ok :: "ai_db \<Rightarrow> bool" where
  "tables_ok db \<longleftrightarrow>
     unique_ids (ai_channels db) \<and> unique_by channel_index (ai_channels db)
     \<and> unique_ids (ai_keys db)
     \<and> unique_ids (ai_models db) \<and> unique_by model_index (ai_models db)
     \<and> unique_ids (ai_deployments db) \<and> unique_by deployment_index (ai_deployments db)
     \<and> unique_ids (ai_grants db) \<and> unique_by grant_index (ai_grants db) \<and> unique_by default_index (ai_grants db)
     \<and> unique_ids (ai_quotas db) \<and> unique_by quota_index (ai_quotas db) \<and> (\<forall>q\<in>set (ai_quotas db). quota_shape q)
     \<and> unique_ids (ai_rate_rules db) \<and> unique_by rate_rule_index (ai_rate_rules db)
     \<and> unique_ids (ai_credentials db) \<and> unique_by credential_index (ai_credentials db)"

named_theorems row_sel

lemma applied_ids [row_sel]:
  "be_id (apply_channel_update pc a c) = be_id c" "be_id (apply_key_update pk a k) = be_id k"
  "be_id (apply_model_update pm a m) = be_id m" "be_id (apply_deployment_update pd a d) = be_id d"
  "be_id (apply_quota_update pq a q) = be_id q" "be_id (apply_rate_rule_update pr a r) = be_id r"
  "be_id (apply_credential_update pa a cd) = be_id cd"
  by (simp_all add: apply_channel_update_def apply_key_update_def apply_model_update_def apply_deployment_update_def
      apply_quota_update_def apply_rate_rule_update_def apply_credential_update_def)

lemma new_rows [row_sel]:
  "be_id (new_channel i nc a) = i" "channel_index (new_channel i nc a) = Some (nc_name nc)"
  "be_id (new_key i nk t a) = i"
  "be_id (new_model i nm a) = i" "model_index (new_model i nm a) = Some (nm_name nm)"
  "be_id (new_deployment i nd a) = i" "deployment_index (new_deployment i nd a) = Some (nd_logical_model_id nd, nd_channel_id nd)"
  "be_id (new_grant i ng a) = i" "be_id (new_quota i nq a) = i" "be_id (new_rate_rule i nr a) = i"
  "be_id (new_credential sha t i nck a) = i" "credential_index (new_credential sha t i nck a) = Some (sha t)"
  by (simp_all add: new_channel_def channel_index_def new_key_def new_model_def model_index_def new_deployment_def deployment_index_def
      new_grant_def new_quota_def new_rate_rule_def new_credential_def credential_index_def)

lemma unchanged_keys [row_sel]:
  "quota_index (apply_quota_update pq a q) = quota_index q" "quota_shape (apply_quota_update pq a q) = quota_shape q"
  "rate_rule_index (apply_rate_rule_update pr a r) = rate_rule_index r"
  "credential_index (apply_credential_update pa a cd) = credential_index cd"
  "grant_index (apply_grant_update pg a g) = grant_index g" "grant_index (undefaulted a g) = grant_index g"
  "default_index (undefaulted a g) = None"
  by (simp_all add: quota_index_def quota_shape_def apply_quota_update_def rate_rule_index_def apply_rate_rule_update_def
      credential_index_def apply_credential_update_def grant_index_def default_index_def split: option.split)

lemma name_taken:
  "unique_by channel_index (ai_channels db) \<Longrightarrow> channel_name_unique n (Some i) db \<Longrightarrow> c \<in> set (ai_channels db)
    \<Longrightarrow> channel_index c = Some n \<Longrightarrow> be_id c = i"
  "unique_by model_index (ai_models db) \<Longrightarrow> model_name_unique n (Some i) db \<Longrightarrow> m \<in> set (ai_models db)
    \<Longrightarrow> model_index m = Some n \<Longrightarrow> be_id m = i"
  "unique_by deployment_index (ai_deployments db) \<Longrightarrow> deployment_unique j k (Some i) db \<Longrightarrow> d \<in> set (ai_deployments db)
    \<Longrightarrow> deployment_index d = Some (j, k) \<Longrightarrow> be_id d = i"
proof -
  show "be_id c = i" if u: "unique_by channel_index (ai_channels db)" and n: "channel_name_unique n (Some i) db"
    and c: "c \<in> set (ai_channels db)" "channel_index c = Some n"
  proof (cases "get_channel_by_name n db")
    case None then show ?thesis using c
      by (auto simp: get_channel_by_name_def scalar_None_iff filter_empty_conv channel_index_def split: if_splits)
  next
    case (Some x)
    then have "x \<in> set (ai_channels db)" "channel_index x = Some n" "be_id x = i"
      using n by (auto simp: get_channel_by_name_def channel_index_def channel_name_unique_def dest!: scalar_SomeD)
    with unique_byD [OF u c(1) this(1)] c(2) show ?thesis by simp
  qed
  show "be_id m = i" if u: "unique_by model_index (ai_models db)" and n: "model_name_unique n (Some i) db"
    and c: "m \<in> set (ai_models db)" "model_index m = Some n"
  proof (cases "get_model_by_name n db")
    case None then show ?thesis using c
      by (auto simp: get_model_by_name_def scalar_None_iff filter_empty_conv model_index_def split: if_splits)
  next
    case (Some x)
    then have "x \<in> set (ai_models db)" "model_index x = Some n" "be_id x = i"
      using n by (auto simp: get_model_by_name_def model_index_def model_name_unique_def dest!: scalar_SomeD)
    with unique_byD [OF u c(1) this(1)] c(2) show ?thesis by simp
  qed
  show "be_id d = i" if u: "unique_by deployment_index (ai_deployments db)" and n: "deployment_unique j k (Some i) db"
    and c: "d \<in> set (ai_deployments db)" "deployment_index d = Some (j, k)"
  proof (cases "get_by_logical_model_channel j k db")
    case None then show ?thesis using c
      by (auto simp: get_by_logical_model_channel_def scalar_None_iff filter_empty_conv deployment_index_def split: if_splits)
  next
    case (Some x)
    then have "x \<in> set (ai_deployments db)" "deployment_index x = Some (j, k)" "be_id x = i"
      using n by (auto simp: get_by_logical_model_channel_def deployment_index_def deployment_unique_def dest!: scalar_SomeD)
    with unique_byD [OF u c(1) this(1)] c(2) show ?thesis by simp
  qed
qed

section \<open>Updates that may change a key\<close>

lemma channel_updated:
  assumes "unique_by channel_index (ai_channels db)" and "\<forall>n. pc_name p = Some (Some n) \<longrightarrow> channel_name_unique n (Some i) db"
  shows "unique_by channel_index (update_row i (apply_channel_update p a) (ai_channels db))"
proof (rule channels.updated [OF assms(1)])
  fix r x assume new: "channel_index (apply_channel_update p a r) \<noteq> None" "channel_index (apply_channel_update p a r) \<noteq> channel_index r"
    and x: "x \<in> set (ai_channels db)" "channel_index x = channel_index (apply_channel_update p a r)"
  then obtain n where "pc_name p = Some (Some n)" "channel_index (apply_channel_update p a r) = Some n"
    by (auto simp: channel_index_def apply_channel_update_def given_value_def split: option.splits if_splits)
  with x assms show "be_id x = i" by (auto intro: name_taken(1))
qed (simp add: row_sel)

lemma model_updated:
  assumes "unique_by model_index (ai_models db)" and "\<forall>n. pm_name p = Some (Some n) \<longrightarrow> model_name_unique n (Some i) db"
  shows "unique_by model_index (update_row i (apply_model_update p a) (ai_models db))"
proof (rule models.updated [OF assms(1)])
  fix r x assume new: "model_index (apply_model_update p a r) \<noteq> None" "model_index (apply_model_update p a r) \<noteq> model_index r"
    and x: "x \<in> set (ai_models db)" "model_index x = model_index (apply_model_update p a r)"
  then obtain n where "pm_name p = Some (Some n)" "model_index (apply_model_update p a r) = Some n"
    by (auto simp: model_index_def apply_model_update_def given_value_def split: option.splits if_splits)
  with x assms show "be_id x = i" by (auto intro: name_taken(2))
qed (simp add: row_sel)

lemma given_none [simp]: "given_value None v = v"
  by (simp add: given_value_def)

lemma applied_deployment_index [row_sel]:
  "deployment_index (apply_deployment_update p a d) =
     (if be_is_deleted d then None
      else Some (given_value (pd_logical_model_id p) (dy_logical_model_id d), given_value (pd_channel_id p) (dy_channel_id d)))"
  by (simp add: deployment_index_def apply_deployment_update_def)

lemma deployment_updated:
  assumes u: "unique_by deployment_index (ai_deployments db)" "unique_ids (ai_deployments db)"
    and d: "repo_get i (ai_deployments db) = Some d"
    and given: "pd_logical_model_id p = None \<and> pd_channel_id p = None
      \<or> deployment_unique (given_value (pd_logical_model_id p) (dy_logical_model_id d)) (given_value (pd_channel_id p) (dy_channel_id d)) (Some i) db"
  shows "unique_by deployment_index (update_row i (apply_deployment_update p a) (ai_deployments db))"
proof (rule deployments.updated [OF u(1)])
  fix r x assume r: "r \<in> set (ai_deployments db)" "be_id r = i"
    and new: "deployment_index (apply_deployment_update p a r) \<noteq> None" "deployment_index (apply_deployment_update p a r) \<noteq> deployment_index r"
    and x: "x \<in> set (ai_deployments db)" "deployment_index x = deployment_index (apply_deployment_update p a r)"
  have "r = d" using row_found [OF d] r u(2) by (auto dest: row_of_id)
  with new given have g: "deployment_unique (given_value (pd_logical_model_id p) (dy_logical_model_id d))
      (given_value (pd_channel_id p) (dy_channel_id d)) (Some i) db"
    by (auto simp: row_sel deployment_index_def [of d] split: if_splits)
  have "deployment_index x = Some (given_value (pd_logical_model_id p) (dy_logical_model_id d), given_value (pd_channel_id p) (dy_channel_id d))"
    using x(2) new(1) \<open>r = d\<close> by (auto simp: row_sel split: if_splits)
  from name_taken(3) [OF u(1) g x(1) this] show "be_id x = i" .
qed (simp add: row_sel)

text \<open>Grants: after a subject's default is cleared it has none, and no index is violated.\<close>

definition grants_unique :: "ai_db \<Rightarrow> bool" where
  "grants_unique db \<longleftrightarrow>
     unique_ids (ai_grants db) \<and> unique_by grant_index (ai_grants db) \<and> unique_by default_index (ai_grants db)"

lemma default_grant_index: "default_grant sc i g \<longleftrightarrow> default_index g = Some (sc, i)"
  by (auto simp: default_grant_def default_index_def)

lemma existing_grant_index: "existing_grant sc i m g \<longleftrightarrow> grant_index g = Some (sc, i, m)"
  by (auto simp: existing_grant_def grant_index_def)

lemma image_update_row: "(\<And>x. f (g x) = f x) \<Longrightarrow> f ` set (update_row i g rows) = f ` set rows"
  unfolding update_row_def set_map image_image by (intro image_cong) auto

lemma clear_default_unique:
  assumes "grants_unique db"
  shows "grants_unique (clear_default sc i a db)
    \<and> (\<forall>g\<in>set (ai_grants (clear_default sc i a db)). \<not> default_grant sc i g)
    \<and> be_id ` set (ai_grants (clear_default sc i a db)) = be_id ` set (ai_grants db)
    \<and> grant_index ` set (ai_grants (clear_default sc i a db)) = grant_index ` set (ai_grants db)"
proof (rule clear_default_cases [of db sc i a])
  assume "\<forall>g\<in>set (ai_grants db). \<not> default_grant sc i g" "clear_default sc i a db = db"
  with assms show ?thesis by simp
next
  fix g assume g: "g \<in> set (ai_grants db)" "default_grant sc i g"
    and c: "clear_default sc i a db = db\<lparr>ai_grants := update_row (be_id g) (undefaulted a) (ai_grants db)\<rparr>"
  let ?rows = "update_row (be_id g) (undefaulted a) (ai_grants db)"
  have "grants_unique (clear_default sc i a db)"
    using assms unfolding c by (auto simp: grants_unique_def row_sel unique_ids_update intro!: grants.untouched defaults.untouched)
  moreover have "\<not> default_grant sc i h" if row: "h \<in> set ?rows" for h
  proof
    assume h: "default_grant sc i h"
    then obtain x where x: "x \<in> set (ai_grants db)" "h = (if be_id x = be_id g then undefaulted a x else x)"
      using row by (auto simp: update_row_in)
    show False
    proof (cases "be_id x = be_id g")
      case True with h x show False by (simp add: default_grant_index row_sel)
    next
      case False
      then have "default_index x = Some (sc, i)" "default_index g = Some (sc, i)" using h x g(2) by (simp_all add: default_grant_index)
      with False x(1) g(1) assms show False by (auto simp: grants_unique_def dest: unique_byD)
    qed
  qed
  ultimately show ?thesis unfolding c by (simp add: row_sel image_update_row)
qed

lemma create_grant_unique:
  assumes "create_grant now i p a db s = (ROk (x, db', hs), s')" and u: "grants_unique db"
  shows "grants_unique db'"
proof -
  let ?sc = "grant_scope_value (ng_scope p)" and ?j = "ng_scope_id p" and ?g = "new_grant i p a"
  obtain db1 where db1: "db1 = (if ng_is_default p then clear_default ?sc ?j a db else db)"
    and new: "i \<notin> be_id ` set (ai_grants db1)" "db' = db1\<lparr>ai_grants := ai_grants db1 @ [?g]\<rparr>"
    and ex: "\<forall>g\<in>set (ai_grants db). \<not> existing_grant ?sc ?j (ng_logical_model_id p) g"
    and def: "ng_is_default p \<longrightarrow> (\<forall>g\<in>set (ai_grants db1). \<not> default_grant ?sc ?j g)"
    using create_grant_ok [OF assms(1)] by blast
  have u1: "grants_unique db1" and keys: "grant_index ` set (ai_grants db1) = grant_index ` set (ai_grants db)"
    using clear_default_unique [OF u, of ?sc ?j a] u by (auto simp: db1)
  have "grant_index ?g = Some (?sc, ?j, ng_logical_model_id p)"
    and di: "default_index ?g = (if ng_is_default p then Some (?sc, ?j) else None)"
    by (simp_all add: grant_index_def default_index_def new_grant_def)
  moreover have "Some (?sc, ?j, ng_logical_model_id p) \<notin> grant_index ` set (ai_grants db1)"
    unfolding keys using ex by (auto simp: existing_grant_index dest: sym)
  ultimately have "unique_by grant_index (ai_grants db1 @ [?g])"
    using u1 by (intro grants.created) (simp add: grants_unique_def, metis image_eqI)
  moreover have "unique_by default_index (ai_grants db1 @ [?g])"
    using u1 def di by (intro defaults.created) (auto simp: grants_unique_def default_grant_index split: if_splits)
  ultimately show ?thesis using u1 new by (auto simp: grants_unique_def row_sel intro: unique_ids_create)
qed

lemma update_grant_unique:
  assumes "update_grant now i p a db s = (ROk (x, db', hs), s')" and u: "grants_unique db"
  shows "grants_unique db'"
proof -
  obtain g db1 where g: "repo_get i (ai_grants db) = Some g"
    and db1: "db1 = (if pg_is_default p = Some (Some True) \<and> \<not> gr_is_default g then clear_default (gr_scope g) (gr_scope_id g) a db else db)"
    and db': "db' = db1\<lparr>ai_grants := update_row i (apply_grant_update p a) (ai_grants db1)\<rparr>"
    using update_grant_ok [OF assms(1)] by blast
  note c = clear_default_unique [OF u, of "gr_scope g" "gr_scope_id g" a]
  have u1: "grants_unique db1" using c u by (simp add: db1)
  have "unique_by default_index (update_row i (apply_grant_update p a) (ai_grants db1))"
  proof (rule defaults.updated)
    show "unique_by default_index (ai_grants db1)" using u1 by (simp add: grants_unique_def)
    fix r y assume r: "r \<in> set (ai_grants db1)" "be_id r = i" and y: "y \<in> set (ai_grants db1)"
      and new: "default_index (apply_grant_update p a r) \<noteq> None" "default_index (apply_grant_update p a r) \<noteq> default_index r"
      and same: "default_index y = default_index (apply_grant_update p a r)"
    have made: "pg_is_default p = Some (Some True)" "\<not> gr_is_default r" "\<not> be_is_deleted r"
      "default_index (apply_grant_update p a r) = Some (gr_scope r, gr_scope_id r)"
      using new by (auto simp: default_index_def apply_grant_update_def given_value_def split: option.splits if_splits)
    show "be_id y = i"
    proof (cases "gr_is_default g")
      case True
      then have "db1 = db" by (simp add: db1)
      with r row_found [OF g] u have "r = g" by (auto simp: grants_unique_def dest: row_of_id)
      with True made(2) show ?thesis by simp
    next
      case False
      then have cl: "db1 = clear_default (gr_scope g) (gr_scope_id g) a db" using made(1) by (simp add: db1)
      obtain r0 where r0: "r0 \<in> set (ai_grants db)" "r = r0 \<or> r = undefaulted a r0"
        using r(1) unfolding cl
        by (cases rule: clear_default_cases [of db "gr_scope g" "gr_scope_id g" a]) (auto simp: update_row_in split: if_splits)
      then have "be_id r0 = i" using r(2) by auto
      with row_found [OF g] r0(1) u have "r0 = g" by (auto simp: grants_unique_def dest: row_of_id)
      then have "default_index y = Some (gr_scope g, gr_scope_id g)" using same made(4) r0(2) by auto
      with c y show ?thesis by (auto simp: cl default_grant_index)
    qed
  qed simp
  then show ?thesis
    using u1 by (auto simp: db' grants_unique_def row_sel unique_ids_update intro!: grants.untouched)
qed

lemma delete_grant_unique:
  assumes "delete_grant now i a db s = (ROk (x, db', hs), s')" and "grants_unique db"
  shows "grants_unique db'"
  using delete_grant_ok [OF assms(1)] assms(2) by (auto simp: grants_unique_def intro: grants.soft_deleted defaults.soft_deleted)

section \<open>Every request\<close>

lemma grants_in_tables:
  "tables_ok db \<Longrightarrow> grants_unique db"
  "tables_ok db \<Longrightarrow> grants_unique db' \<Longrightarrow> ai_channels db' = ai_channels db \<Longrightarrow> ai_keys db' = ai_keys db \<Longrightarrow> ai_models db' = ai_models db
    \<Longrightarrow> ai_deployments db' = ai_deployments db \<Longrightarrow> ai_quotas db' = ai_quotas db \<Longrightarrow> ai_rate_rules db' = ai_rate_rules db
    \<Longrightarrow> ai_credentials db' = ai_credentials db \<Longrightarrow> tables_ok db'"
  by (simp_all add: tables_ok_def grants_unique_def)

lemma quota_created:
  assumes "\<forall>q\<in>set rows. \<not> existing_quota (quota_scope_value (nq_scope p)) (nq_scope_id p) (nq_logical_model_id p)
      (quota_period_value (nq_period p)) (quota_metric_value (nq_metric p)) q" and "unique_by quota_index rows"
  shows "unique_by quota_index (rows @ [new_quota i p a])"
  using assms by (intro quotas.created) (auto simp: quota_index_def new_quota_def existing_quota_def split: if_splits)

lemma rate_rule_created:
  assumes "\<forall>r\<in>set rows. \<not> rate_rule_clash (new_rate_rule i p a) r" and "unique_by rate_rule_index rows"
  shows "unique_by rate_rule_index (rows @ [new_rate_rule i p a])"
  using assms by (intro rate_rules.created) (auto simp: rate_rule_index_def rate_rule_clash_def sql_eq_def split: option.splits)

lemma credential_created:
  assumes "\<forall>k\<in>set rows. cd_key_hash k \<noteq> sha t" and "unique_by credential_index rows"
  shows "unique_by credential_index (rows @ [new_credential sha t i p a])"
  using assms by (intro credentials.created) (auto simp: credential_index_def new_credential_def)

lemma tables_of_catalog:
  assumes "ai_perform env a cmd db s = (ROk ((), db', hs), s')" and ok: "tables_ok db" and "catalog_command cmd"
  shows "tables_ok db'"
proof (cases cmd)
  case (CreateChannel i p)
  with assms(1,2) show ?thesis
    by (auto simp: tables_ok_def row_sel intro!: unique_ids_create channels.created dest!: create_channel_ok)
next
  case (UpdateChannel i p)
  with assms(1,2) show ?thesis
    by (auto simp: tables_ok_def row_sel unique_ids_update intro!: channel_updated dest!: update_channel_ok)
next
  case (DeleteChannel i)
  with assms(1,2) show ?thesis by (auto simp: tables_ok_def intro!: channels.soft_deleted dest!: delete_channel_ok)
next
  case (CreateKey i p)
  with assms(1,2) show ?thesis by (auto simp: tables_ok_def row_sel intro!: unique_ids_create dest!: create_channel_key_ok)
next
  case (UpdateKey i p)
  with assms(1,2) show ?thesis by (auto simp: tables_ok_def row_sel unique_ids_update dest!: update_channel_key_ok)
next
  case (DeleteKey i)
  with assms(1,2) show ?thesis by (auto simp: tables_ok_def dest!: delete_channel_key_ok)
next
  case (RotateKey i k)
  with assms(1,2) show ?thesis by (auto simp: tables_ok_def unique_ids_update dest!: rotate_channel_key_ok)
next
  case (CreateModel i p)
  with assms(1,2) show ?thesis
    by (auto simp: tables_ok_def row_sel intro!: unique_ids_create models.created dest!: create_model_ok)
next
  case (UpdateModel i p)
  with assms(1,2) show ?thesis
    by (auto simp: tables_ok_def row_sel unique_ids_update intro!: model_updated dest!: update_model_ok)
next
  case (DeleteModel i)
  with assms(1,2) show ?thesis by (auto simp: tables_ok_def intro!: models.soft_deleted dest!: delete_model_ok)
next
  case (CreateDeployment i p)
  with assms(1,2) show ?thesis
    by (auto simp: tables_ok_def row_sel intro!: unique_ids_create deployments.created dest!: create_deployment_ok)
next
  case (UpdateDeployment i p)
  then obtain x where run: "update_deployment (catalog_env.truncate env) i p a db s = (ROk (x, db', hs), s')" using assms(1) by auto
  note o = update_deployment_ok [OF run]
  then obtain d where d: "repo_get i (ai_deployments db) = Some d"
      "pd_logical_model_id p = None \<and> pd_channel_id p = None
       \<or> deployment_unique (given_value (pd_logical_model_id p) (dy_logical_model_id d)) (given_value (pd_channel_id p) (dy_channel_id d)) (Some i) db"
    and db': "db' = db\<lparr>ai_deployments := update_row i (apply_deployment_update p a) (ai_deployments db)\<rparr>" by blast
  have "unique_by deployment_index (update_row i (apply_deployment_update p a) (ai_deployments db))"
    using ok by (intro deployment_updated [OF _ _ d]) (simp_all add: tables_ok_def)
  with ok show ?thesis by (simp add: db' tables_ok_def row_sel unique_ids_update)
next
  case (DeleteDeployment i)
  with assms(1,2) show ?thesis by (auto simp: tables_ok_def intro!: deployments.soft_deleted dest!: delete_deployment_ok)
qed (use assms(3) in \<open>simp_all add: catalog_command_def\<close>)

lemma tables_of_rules:
  assumes "ai_perform env a cmd db s = (ROk ((), db', hs), s')" and ok: "tables_ok db" and "\<not> catalog_command cmd"
  shows "tables_ok db'"
proof (cases cmd)
  case (CreateGrant i p)
  then obtain x where run: "create_grant (ce_now env) i p a db s = (ROk (x, db', hs), s')" using assms(1) by auto
  have "grants_unique db'" by (rule create_grant_unique [OF run grants_in_tables(1) [OF ok]])
  from grants_in_tables(2) [OF ok this] create_grant_ok [OF run] show ?thesis by (auto split: if_splits)
next
  case (UpdateGrant i p)
  then obtain x where run: "update_grant (ce_now env) i p a db s = (ROk (x, db', hs), s')" using assms(1) by auto
  have "grants_unique db'" by (rule update_grant_unique [OF run grants_in_tables(1) [OF ok]])
  from grants_in_tables(2) [OF ok this] update_grant_ok [OF run] show ?thesis by (auto split: if_splits)
next
  case (DeleteGrant i)
  then obtain x where run: "delete_grant (ce_now env) i a db s = (ROk (x, db', hs), s')" using assms(1) by auto
  have "grants_unique db'" by (rule delete_grant_unique [OF run grants_in_tables(1) [OF ok]])
  from grants_in_tables(2) [OF ok this] delete_grant_ok [OF run] show ?thesis by auto
next
  case (CreateQuota i p)
  then obtain x where run: "create_quota (ce_now env) i p a db s = (ROk (x, db', hs), s')" using assms(1) by auto
  have "quota_shape (new_quota i p a)" using create_quota_ok [OF run] by (simp add: quota_shape_def new_quota_def)
  with create_quota_ok [OF run] ok show ?thesis
    by (simp add: tables_ok_def row_sel unique_ids_create quota_created)
next
  case (UpdateQuota i p)
  with assms(1,2) show ?thesis
    by (auto simp: tables_ok_def row_sel unique_ids_update update_row_in intro!: quotas.untouched dest!: update_quota_ok)
next
  case (DeleteQuota i)
  have "quota_shape q" if "q \<in> set (soft_delete_row u i rows)" "\<forall>q\<in>set rows. quota_shape q" for q u rows
    using that by (auto simp: soft_delete_row_def update_row_in quota_shape_def split: if_splits)
  with DeleteQuota assms(1,2) show ?thesis
    by (auto simp: tables_ok_def intro!: quotas.soft_deleted dest!: delete_quota_ok)
next
  case (CreateRateRule i p)
  with assms(1,2) show ?thesis
    by (auto simp: tables_ok_def row_sel intro!: unique_ids_create rate_rule_created dest!: create_rate_rule_ok)
next
  case (UpdateRateRule i p)
  with assms(1,2) show ?thesis
    by (auto simp: tables_ok_def row_sel unique_ids_update intro!: rate_rules.untouched dest!: update_rate_rule_ok)
next
  case (DeleteRateRule i)
  with assms(1,2) show ?thesis by (auto simp: tables_ok_def intro!: rate_rules.soft_deleted dest!: delete_rate_rule_ok)
next
  case (CreateCredential i p)
  with assms(1,2) show ?thesis
    by (auto simp: tables_ok_def row_sel intro!: unique_ids_create credential_created dest!: create_credential_ok)
next
  case (UpdateCredential i p)
  with assms(1,2) show ?thesis
    by (auto simp: tables_ok_def row_sel unique_ids_update intro!: credentials.untouched dest!: update_credential_ok)
next
  case (DeleteCredential i)
  with assms(1,2) show ?thesis by (auto simp: tables_ok_def intro!: credentials.soft_deleted dest!: delete_credential_ok)
qed (use assms(3) in \<open>simp_all add: catalog_command_def\<close>)

fun ai_run :: "(ai_env \<times> bool \<times> authenticated_user \<times> ai_command) list \<Rightarrow> ai_db \<Rightarrow> redis \<Rightarrow> ai_db \<times> redis" where
  "ai_run [] db s = (db, s)"
| "ai_run ((env, ok, actor, cmd) # rs) db s =
     (case ai_request env ok actor cmd db s of (_, db', s') \<Rightarrow> ai_run rs db' s')"

text \<open>An invariant of the tables that every operation keeps holds after any requests.\<close>

lemma ai_run_keeps:
  assumes step: "\<And>env a cmd db s db' hs. (env, a, cmd) \<in> A \<Longrightarrow> P db \<Longrightarrow> ai_perform env a cmd db s = (ROk ((), db', hs), s) \<Longrightarrow> P db'"
  shows "(\<forall>(env, ok, a, cmd)\<in>set rs. (env, a, cmd) \<in> A) \<Longrightarrow> P db \<Longrightarrow> P (fst (ai_run rs db s))"
proof (induction rs arbitrary: db s)
  case (Cons q rs)
  obtain env ok a cmd where q: "q = (env, ok, a, cmd)" by (metis prod_cases4)
  obtain r db' s' where run: "ai_request env ok a cmd db s = (r, db', s')" by (metis prod_cases3)
  have "P db'" using run
    by (cases rule: ai_request_cases) (use Cons.prems q step [of env a cmd db s db'] in auto)
  with Cons show ?case by (simp add: q run)
qed simp

text \<open>
  C9. The tables stay consistent. Whatever requests the administration of the platform receives: ids stay unique in every table; no two
  rows that are not deleted share a channel's name, a model's name, a deployment's model and channel, a grant's subject
  and model or a quota rule's subject, model, period and metric; a subject has at most one default grant; and a quota rule has a
  subject unless it is global.
\<close>

theorem tables_stay_consistent:
  assumes "tables_ok db"
  shows "tables_ok (fst (ai_run rs db s))"
proof (rule ai_run_keeps [where A = UNIV and P = tables_ok])
  fix env a cmd db s db' hs assume "tables_ok db" "ai_perform env a cmd db s = (ROk ((), db', hs), s)"
  then show "tables_ok db'" by (cases "catalog_command cmd") (auto intro: tables_of_catalog tables_of_rules)
qed (use assms in auto)

end
