(* ===== verification/PlatformRules.thy ===== *)
theory PlatformRules
  imports TableFacts AuthEdge
begin

text \<open>
  Who may change what on the platform and what its rows promise: platform keys and their owners, global rules, the base addresses of
  channels and the support of active deployments, with the gaps the code leaves.
\<close>

section \<open>Platform keys\<close>

lemma other_credentials:
  assumes "ai_perform env a cmd db s = (ROk ((), db', hs), s')" and "take 14 (ai_permission cmd) \<noteq> ''ai:credential:''"
  shows "ai_credentials db' = ai_credentials db"
  using assms by (cases cmd) (auto dest!: catalog_outcomes rule_outcomes split: if_splits)

lemma credential_before:
  assumes "k \<in> set (update_row i f rows)" and "\<And>r. be_id (f r) = be_id r \<and> cd_user_id (f r) = cd_user_id r \<and> cd_key_hash (f r) = cd_key_hash r"
  shows "\<exists>k0\<in>set rows. be_id k0 = be_id k \<and> cd_user_id k0 = cd_user_id k \<and> cd_key_hash k0 = cd_key_hash k"
proof -
  obtain r where r: "r \<in> set rows" "k = (if be_id r = i then f r else r)" using assms(1) by (auto simp: update_row_in)
  with assms(2) [of r] show ?thesis by (intro bexI [of _ r]) auto
qed

text \<open>
  A key is made for oneself or with the right to issue. Whatever request an administrator makes, a platform key that is there
  afterwards was there before with the same owner and the same digest, or its owner is the administrator, or the administrator
  holds the permission to issue keys to others.
\<close>

theorem keys_are_issued:
  assumes "ai_request env ok a cmd db s = (r, db', s')" and "k \<in> set (ai_credentials db')"
  shows "(\<exists>k0\<in>set (ai_credentials db). be_id k0 = be_id k \<and> cd_user_id k0 = cd_user_id k \<and> cd_key_hash k0 = cd_key_hash k)
    \<or> cd_user_id k = au_user_id a \<or> has_permission a ''ai:credential:issue''"
  using assms(1)
proof (cases rule: ai_request_cases)
  case unchanged with assms(2) show ?thesis by blast
next
  case (committed hs)
  show ?thesis
  proof (cases "take 14 (ai_permission cmd) = ''ai:credential:''")
    case False with other_credentials [OF committed(1)] assms(2) show ?thesis by auto
  next
    case True
    then consider i p where "cmd = CreateCredential i p" | i p where "cmd = UpdateCredential i p" | i where "cmd = DeleteCredential i"
      by (cases cmd) auto
    then show ?thesis
    proof cases
      case 1 with committed(1) assms(2) show ?thesis by (auto simp: new_credential_def dest!: create_credential_ok)
    next
      case (2 i p)
      with committed(1) assms(2) have "k \<in> set (update_row i (apply_credential_update p a) (ai_credentials db))"
        by (auto dest!: update_credential_ok)
      from credential_before [OF this] show ?thesis by (simp add: apply_credential_update_def)
    next
      case (3 i)
      with committed(1) assms(2) have "k \<in> set (soft_delete_row (Some (au_user_id a)) i (ai_credentials db))"
        by (auto dest!: delete_credential_ok)
      from credential_before [OF this [unfolded soft_delete_row_def]] show ?thesis by simp
    qed
  qed
qed

text \<open>A row with a digest, through later requests: it keeps its id and owner, and once deleted it stays so.\<close>

definition holds_key :: "string \<Rightarrow> int \<Rightarrow> int \<Rightarrow> bool \<Rightarrow> ai_db \<Rightarrow> bool" where
  "holds_key h i u gone db \<longleftrightarrow>
     (\<exists>k\<in>set (ai_credentials db). cd_key_hash k = h \<and> be_id k = i \<and> cd_user_id k = u \<and> (gone \<longrightarrow> be_is_deleted k))"

lemma holds_key_update:
  assumes "holds_key h i u gone db" and "ai_credentials db' = update_row j f (ai_credentials db)"
    and "\<And>k. cd_key_hash (f k) = cd_key_hash k \<and> be_id (f k) = be_id k \<and> cd_user_id (f k) = cd_user_id k \<and> (be_is_deleted k \<longrightarrow> be_is_deleted (f k))"
  shows "holds_key h i u gone db'"
proof -
  obtain k where k: "k \<in> set (ai_credentials db)" "cd_key_hash k = h" "be_id k = i" "cd_user_id k = u" "gone \<longrightarrow> be_is_deleted k"
    using assms(1) by (auto simp: holds_key_def)
  have "(if be_id k = j then f k else k) \<in> set (ai_credentials db')" by (rule row_kept [OF k(1) assms(2)])
  with k assms(3) [of k] show ?thesis unfolding holds_key_def by (intro bexI [of _ "if be_id k = j then f k else k"]) auto
qed

lemma holds_key_kept:
  assumes "ai_perform env a cmd db s = (ROk ((), db', hs), s')" and h: "holds_key h i u gone db"
  shows "holds_key h i u gone db'"
proof (cases "take 14 (ai_permission cmd) = ''ai:credential:''")
  case False with other_credentials [OF assms(1)] h show ?thesis by (simp add: holds_key_def)
next
  case True
  then consider j p where "cmd = CreateCredential j p" | j p where "cmd = UpdateCredential j p" | j where "cmd = DeleteCredential j"
    by (cases cmd) auto
  then show ?thesis
  proof cases
    case 1 with assms show ?thesis by (auto simp: holds_key_def dest!: create_credential_ok)
  next
    case (2 j p)
    then have "ai_credentials db' = update_row j (apply_credential_update p a) (ai_credentials db)"
      using assms(1) by (auto dest!: update_credential_ok)
    then show ?thesis by (rule holds_key_update [OF h]) (simp add: apply_credential_update_def)
  next
    case (3 j)
    then have "ai_credentials db' = soft_delete_row (Some (au_user_id a)) j (ai_credentials db)"
      using assms(1) by (auto dest!: delete_credential_ok)
    then show ?thesis unfolding soft_delete_row_def by (rule holds_key_update [OF h]) simp
  qed
qed

lemma holds_key_run:
  assumes "holds_key h i u gone db" and "tables_ok db"
  shows "holds_key h i u gone (fst (ai_run rs db s)) \<and> tables_ok (fst (ai_run rs db s))"
proof (rule ai_run_keeps [where A = UNIV and P = "\<lambda>db. holds_key h i u gone db \<and> tables_ok db"])
  fix env a cmd db s db' hs
  assume p: "holds_key h i u gone db \<and> tables_ok db" and run: "ai_perform env a cmd db s = (ROk ((), db', hs), s)"
  then show "holds_key h i u gone db' \<and> tables_ok db'"
    using holds_key_kept [OF run] tables_of_catalog [OF run] tables_of_rules [OF run] by (cases "catalog_command cmd") auto
qed (use assms in auto)

lemma key_found:
  assumes "holds_key h i u gone db" and "tables_ok db" and "get_api_key_by_hash h (identity_view db) = Some k"
  shows "\<not> gone \<and> ak_id k = i \<and> ak_user_id k = u"
proof -
  obtain x where x: "x \<in> set (ai_credentials db)" "cd_key_hash x = h" "\<not> be_is_deleted x" "k = view_credential x"
    using assms(3) by (auto simp: get_api_key_by_hash_def identity_view_def view_credential_def dest!: scalar_SomeD)
  obtain y where y: "y \<in> set (ai_credentials db)" "cd_key_hash y = h" "be_id y = i" "cd_user_id y = u" "gone \<longrightarrow> be_is_deleted y"
    using assms(1) by (auto simp: holds_key_def)
  have "be_id x = be_id y" using unique_byD [of credential_index "ai_credentials db" x y h] assms(2) x y
    by (simp add: tables_ok_def credential_index_def)
  then have "x = y" using assms(2) x(1) y(1) by (auto simp: tables_ok_def dest: row_of_id)
  with x y show ?thesis by (auto simp: view_credential_def)
qed

text \<open>
  C10. A key answers for its owner. After a key has been issued and whatever the administration does next, a request that presents the
  text that was handed out is either refused or made by the user it was issued for, and is known to be made with that key.
\<close>

theorem key_answers_for_its_owner:
  assumes "tables_ok db" and "ai_request env ok a (CreateCredential i p) db s = (ROk (), db', s')" and "en_sha auth = ai_sha env"
    and "resolve_api_key auth (''sk-'' @ ai_random env) (identity_view (fst (ai_run rs db' s''))) io = (ROk u, io')"
  shows "au_user_id u = nk_user_id p \<and> au_credential_kind u = CK_api_key \<and> au_api_key_id u = Some i"
proof -
  let ?h = "ai_sha env (''sk-'' @ ai_random env)" and ?db = "fst (ai_run rs db' s'')"
  from assms(2) obtain hs where run: "ai_perform env a (CreateCredential i p) db s = (ROk ((), db', hs), s)"
    by (cases rule: ai_request_cases) auto
  have "holds_key ?h i (nk_user_id p) False db'"
    using run by (auto simp: holds_key_def new_credential_def dest!: create_credential_ok)
  moreover have "tables_ok db'" by (rule tables_of_rules [OF run assms(1)]) (simp add: catalog_command_def)
  ultimately have inv: "holds_key ?h i (nk_user_id p) False ?db" "tables_ok ?db" using holds_key_run by blast+
  obtain k where k: "get_api_key_by_hash ?h (identity_view ?db) = Some k"
    using assms(3,4) by (cases "get_api_key_by_hash ?h (identity_view ?db)") (simp_all add: resolve_api_key_def raise_error_def)
  from key_found [OF inv k] have key: "ak_id k = i" "ak_user_id k = nk_user_id p" by auto
  show ?thesis using assms(3,4) key k
    by (auto simp: resolve_api_key_def raise_error_def build_user_def split: if_splits option.splits res.splits prod.splits)
qed

text \<open>
  C11. A deleted key stays dead. Once a platform key is deleted, no later request of the administration makes the text it was handed
  out as valid again: it is refused with 401, whoever owns it and whatever is issued, changed or deleted.
\<close>

theorem deleted_key_stays_dead:
  assumes "tables_ok db" and "k \<in> set (ai_credentials db)" and "be_is_deleted k" and "en_sha auth plain = cd_key_hash k"
  shows "resolve_api_key auth plain (identity_view (fst (ai_run rs db s))) io = (RErr (app_err EC_auth_invalid_token 401), io)"
proof -
  let ?db = "fst (ai_run rs db s)"
  have "holds_key (cd_key_hash k) (be_id k) (cd_user_id k) True db" using assms(2,3) by (auto simp: holds_key_def)
  then have inv: "holds_key (cd_key_hash k) (be_id k) (cd_user_id k) True ?db" "tables_ok ?db" using holds_key_run assms(1) by blast+
  have "get_api_key_by_hash (cd_key_hash k) (identity_view ?db) = None"
    using key_found [OF inv] by (cases "get_api_key_by_hash (cd_key_hash k) (identity_view ?db)") auto
  with assms(4) show ?thesis by (simp add: resolve_api_key_def raise_error_def)
qed

section \<open>Global rules\<close>

text \<open>
  C17. What is global is the superuser's. A request of an administrator who is no superuser leaves every global quota rule and every global
  rate-limit rule exactly as it was, deleted ones included, and adds none.
\<close>

theorem global_rules_need_superuser:
  assumes "tables_ok db" and "\<not> is_superuser a" and "ai_request env ok a cmd db s = (r, db', s')"
  shows "[q \<leftarrow> ai_quotas db'. qo_scope q = ''global''] = [q \<leftarrow> ai_quotas db. qo_scope q = ''global'']
    \<and> [x \<leftarrow> ai_rate_rules db'. ra_subject_type x = ''global''] = [x \<leftarrow> ai_rate_rules db. ra_subject_type x = ''global'']"
  using assms(3)
proof (cases rule: ai_request_cases)
  case (committed hs)
  have quota: "[q \<leftarrow> update_row i f (ai_quotas db). qo_scope q = ''global''] = [q \<leftarrow> ai_quotas db. qo_scope q = ''global'']"
    if "repo_get i (ai_quotas db) = Some q" "global_quota_allowed (qo_scope q) a" "\<And>q. qo_scope (f q) = qo_scope q" for i q f
  proof -
    have "y = q" if "y \<in> set (ai_quotas db)" "be_id y = i" for y
      using row_found [OF \<open>repo_get i (ai_quotas db) = Some q\<close>] assms(1) that by (auto simp: tables_ok_def dest: row_of_id)
    then show ?thesis
      using filter_update_row [of "ai_quotas db" i "\<lambda>q. qo_scope q \<noteq> ''global''" f] that assms(2) by (auto simp: global_quota_allowed_def)
  qed
  have rate: "[x \<leftarrow> update_row i f (ai_rate_rules db). ra_subject_type x = ''global''] = [x \<leftarrow> ai_rate_rules db. ra_subject_type x = ''global'']"
    if "repo_get i (ai_rate_rules db) = Some q" "ra_subject_type q = ''global'' \<longrightarrow> is_superuser a"
      "\<And>q. ra_subject_type (f q) = ra_subject_type q" for i q f
  proof -
    have "y = q" if "y \<in> set (ai_rate_rules db)" "be_id y = i" for y
      using row_found [OF \<open>repo_get i (ai_rate_rules db) = Some q\<close>] assms(1) that by (auto simp: tables_ok_def dest: row_of_id)
    then show ?thesis
      using filter_update_row [of "ai_rate_rules db" i "\<lambda>q. ra_subject_type q \<noteq> ''global''" f] that assms(2) by auto
  qed
  have new: "qo_scope (new_quota i nq a) = quota_scope_value (nq_scope nq)"
    "ra_subject_type (new_rate_rule i nr a) = rate_limit_scope_value (nr_subject_type nr)" for i nq nr
    by (simp_all add: new_quota_def new_rate_rule_def)
  have not_global: "nr_subject_type nr \<noteq> RS_global \<Longrightarrow> rate_limit_scope_value (nr_subject_type nr) \<noteq> ''global''" for nr :: rate_rule_create
    by (cases "nr_subject_type nr") simp_all
  consider i p where "cmd = CreateQuota i p" | i p where "cmd = UpdateQuota i p" | i where "cmd = DeleteQuota i"
    | i p where "cmd = CreateRateRule i p" | i p where "cmd = UpdateRateRule i p" | i where "cmd = DeleteRateRule i"
    | "ai_quotas db' = ai_quotas db" "ai_rate_rules db' = ai_rate_rules db"
    using committed(1) by (cases cmd) (auto dest!: catalog_outcomes create_grant_ok update_grant_ok delete_grant_ok create_credential_ok
        update_credential_ok delete_credential_ok split: if_splits)
  then show ?thesis
  proof cases
    case 1 with committed(1) assms(2) show ?thesis by (auto simp: new global_quota_allowed_def dest!: create_quota_ok)
  next
    case (2 i p) with committed(1) quota [of i _ "apply_quota_update p a"] show ?thesis
      by (auto simp: apply_quota_update_def dest!: update_quota_ok)
  next
    case (3 i) with committed(1) quota [of i _ "\<lambda>r. r\<lparr>be_updated_by := Some (au_user_id a), be_is_deleted := True\<rparr>"] show ?thesis
      by (auto simp: soft_delete_row_def dest!: delete_quota_ok)
  next
    case 4 with committed(1) assms(2) not_global show ?thesis by (auto simp: new dest!: create_rate_rule_ok)
  next
    case (5 i p) with committed(1) rate [of i _ "apply_rate_rule_update p a"] show ?thesis
      by (auto simp: apply_rate_rule_update_def dest!: update_rate_rule_ok)
  next
    case (6 i) with committed(1) rate [of i _ "\<lambda>r. r\<lparr>be_updated_by := Some (au_user_id a), be_is_deleted := True\<rparr>"] show ?thesis
      by (auto simp: soft_delete_row_def dest!: delete_rate_rule_ok)
  qed simp
qed simp

text \<open>
  Nor does a superuser's global rule show. What the lists of quota rules and of rate-limit rules answer to an administrator who is no
  superuser does not depend on the global rules: on two platforms that agree on the other rules, every such list, with any filter, order and
  page, is the same.
\<close>

theorem global_rules_hidden:
  assumes "\<not> is_superuser a"
    and "[r \<leftarrow> ai_quotas db. qo_scope r \<noteq> ''global''] = [r \<leftarrow> ai_quotas db'. qo_scope r \<noteq> ''global'']"
    and "[r \<leftarrow> ai_rate_rules db. ra_subject_type r \<noteq> ''global''] = [r \<leftarrow> ai_rate_rules db'. ra_subject_type r \<noteq> ''global'']"
  shows "list_quotas value scope scope_id model_id status q a db = list_quotas value scope scope_id model_id status q a db'
    \<and> list_rate_rules value' subject_type subject_id model_id status q (Some a) db
      = list_rate_rules value' subject_type subject_id model_id status q (Some a) db'"
proof -
  have own: "filter (quota_filters scope scope_id model_id status False) (ai_quotas d)
      = filter (quota_filters scope scope_id model_id status True) [r \<leftarrow> ai_quotas d. qo_scope r \<noteq> ''global'']"
    "filter (rule_filters subject_type subject_id model_id status False) (ai_rate_rules d)
      = filter (rule_filters subject_type subject_id model_id status True) [r \<leftarrow> ai_rate_rules d. ra_subject_type r \<noteq> ''global'']" for d
    by (auto simp: quota_filters_def rule_filters_def intro: filter_cong)
  have "find_quotas value scope scope_id model_id status False db = find_quotas value scope scope_id model_id status False db'"
    by (intro ext) (simp only: find_quotas_def own assms)
  moreover have "count_quotas scope scope_id model_id status False db = count_quotas scope scope_id model_id status False db'"
    by (simp only: count_quotas_def own assms)
  moreover have "find_rules value' q subject_type subject_id model_id status False db
      = find_rules value' q subject_type subject_id model_id status False db'"
    by (simp only: find_rules_def own assms)
  ultimately show ?thesis
    using assms(1) by (simp add: list_quotas_def list_rate_rules_def)
qed

section \<open>Base addresses\<close>

definition production :: "ai_env \<Rightarrow> bool" where
  "production env \<longleftrightarrow> ce_environment env = ''prod'' \<or> ce_environment env = ''production''"

text \<open>An address the gateway reaches over TLS, and every channel's.\<close>

definition tls_base :: "(string \<Rightarrow> bool option) \<Rightarrow> string \<Rightarrow> bool" where
  "tls_base ipv6 url \<longleftrightarrow> (case url_split ipv6 url of Some (scheme, Some host) \<Rightarrow> scheme = ''https'' | _ \<Rightarrow> False)"

definition tls_bases :: "(string \<Rightarrow> bool option) \<Rightarrow> ai_db \<Rightarrow> bool" where
  "tls_bases ipv6 db \<longleftrightarrow> (\<forall>c\<in>set (ai_channels db). \<forall>url. cn_api_base c = Some url \<longrightarrow> tls_base ipv6 url)"

lemma production_base:
  "production env \<Longrightarrow> base_ok env (Some url) \<Longrightarrow> tls_base (ce_ipv6 env) url"
  by (auto simp: base_ok_def production_def safe_base_def tls_base_def split: option.splits)

lemma other_channels:
  assumes "ai_perform env a cmd db s = (ROk ((), db', hs), s')" and "\<forall>i p. cmd \<noteq> CreateChannel i p" and "\<forall>i p. cmd \<noteq> UpdateChannel i p"
    and "\<forall>i. cmd \<noteq> DeleteChannel i"
  shows "ai_channels db' = ai_channels db"
  using assms by (cases cmd) (auto dest!: catalog_outcomes rule_outcomes split: if_splits)

text \<open>
  In production upstreams are reached over TLS. When the administration runs in a production environment, whatever
  it receives, every base address stored for a channel is an https address with a host.
\<close>

theorem production_uses_tls:
  assumes "tls_bases v db" and "\<forall>(env, ok, a, cmd)\<in>set rs. production env \<and> ce_ipv6 env = v"
  shows "tls_bases v (fst (ai_run rs db s))"
proof (rule ai_run_keeps [where A = "{(env, a, cmd). production env \<and> ce_ipv6 env = v}" and P = "tls_bases v"])
  fix env a cmd db s db' hs
  assume env: "(env, a, cmd) \<in> {(env, a, cmd). production env \<and> ce_ipv6 env = v}" and p: "tls_bases v db"
    and run: "ai_perform env a cmd db s = (ROk ((), db', hs), s)"
  have safe: "tls_base v url" if "base_ok env (Some url)" for url
    using production_base [of env url] env that by simp
  consider i p where "cmd = CreateChannel i p" | i p where "cmd = UpdateChannel i p" | i where "cmd = DeleteChannel i"
    | "ai_channels db' = ai_channels db" using other_channels [OF run] by blast
  then show "tls_bases v db'"
  proof cases
    case 1 with run p safe show ?thesis by (auto simp: tls_bases_def new_channel_def dest!: create_channel_ok)
  next
    case (2 i q)
    then have up: "ai_channels db' = update_row i (apply_channel_update q a) (ai_channels db)" "base_ok env (given (pc_api_base q) None)"
      using run by (auto dest!: update_channel_ok)
    have "tls_base v url" if "c \<in> set (ai_channels db)" "cn_api_base (apply_channel_update q a c) = Some url" for c url
      using that up(2) p safe [of url] by (cases "pc_api_base q") (auto simp: apply_channel_update_def given_def tls_bases_def)
    with p show ?thesis by (auto simp: tls_bases_def up(1) update_row_in split: if_splits)
  next
    case 3 with run p show ?thesis by (auto simp: tls_bases_def soft_delete_row_def update_row_in split: if_splits dest!: delete_channel_ok)
  next
    case 4 with p show ?thesis by (simp add: tls_bases_def)
  qed
qed (use assms in auto)

section \<open>What deployments rest on\<close>

definition active_deployment :: "deployment_row \<Rightarrow> bool" where
  "active_deployment d \<longleftrightarrow> \<not> be_is_deleted d \<and> dy_status d = ''active''"

definition supported :: "ai_db \<Rightarrow> deployment_row \<Rightarrow> bool" where
  "supported db d \<longleftrightarrow> row_exists (dy_logical_model_id d) (ai_models db) \<and> row_exists (dy_channel_id d) (ai_channels db)"

definition deployments_supported :: "ai_db \<Rightarrow> bool" where
  "deployments_supported db \<longleftrightarrow> (\<forall>d\<in>set (ai_deployments db). active_deployment d \<longrightarrow> supported db d)"

text \<open>An edit that turns a deployment on without naming its model and its channel.\<close>

definition turns_on :: "ai_command \<Rightarrow> bool" where
  "turns_on cmd =
     (case cmd of
        UpdateDeployment _ p \<Rightarrow> pd_status p = Some (Some AS_active) \<and> (pd_logical_model_id p = None \<or> pd_channel_id p = None)
      | _ \<Rightarrow> False)"

lemma exists_updated:
  "(\<And>r. be_id (f r) = be_id r \<and> be_is_deleted (f r) = be_is_deleted r) \<Longrightarrow> row_exists j (update_row i f rows) = row_exists j rows"
  by (auto simp: row_exists_def list_ex_iff update_row_def)

lemma exists_deleted: "j \<noteq> i \<Longrightarrow> row_exists j (soft_delete_row u i rows) = row_exists j rows"
  by (auto simp: row_exists_def list_ex_iff soft_delete_row_def update_row_def)

lemma exists_created: "row_exists j rows \<Longrightarrow> row_exists j (rows @ [r])"
  by (simp add: row_exists_def)

lemma exists_found: "repo_get j rows = Some r \<Longrightarrow> row_exists j rows"
  by (auto simp: row_exists_def list_ex_iff dest!: row_found)

lemma supported_kept:
  assumes "deployments_supported db" and "ai_deployments db' = ai_deployments db"
    and "\<And>d. d \<in> set (ai_deployments db) \<Longrightarrow> active_deployment d \<Longrightarrow> supported db d \<Longrightarrow> supported db' d"
  shows "deployments_supported db'"
  using assms by (simp add: deployments_supported_def)

lemma supported_frame:
  "ai_deployments db' = ai_deployments db \<Longrightarrow> ai_models db' = ai_models db \<Longrightarrow> ai_channels db' = ai_channels db
    \<Longrightarrow> deployments_supported db' = deployments_supported db"
  by (simp add: deployments_supported_def supported_def)

lemma other_tables:
  assumes "ai_perform env a cmd db s = (ROk ((), db', hs), s')" and "\<not> catalog_command cmd \<or> (\<exists>i p. cmd = CreateKey i p)
      \<or> (\<exists>i p. cmd = UpdateKey i p) \<or> (\<exists>i. cmd = DeleteKey i) \<or> (\<exists>i k. cmd = RotateKey i k)"
  shows "ai_deployments db' = ai_deployments db \<and> ai_models db' = ai_models db \<and> ai_channels db' = ai_channels db"
  using assms by (cases cmd) (auto simp: catalog_command_def dest!: catalog_outcomes rule_outcomes split: if_splits)

lemma none_active:
  "channel_active_deployments i db \<le> 0 \<Longrightarrow> d \<in> set (ai_deployments db) \<Longrightarrow> active_deployment d \<Longrightarrow> dy_channel_id d \<noteq> i"
  "model_active_deployments i db \<le> 0 \<Longrightarrow> d \<in> set (ai_deployments db) \<Longrightarrow> active_deployment d \<Longrightarrow> dy_logical_model_id d \<noteq> i"
  by (auto simp: channel_active_deployments_def model_active_deployments_def active_deployment_def filter_empty_conv)

lemma updated_deployment_supported:
  assumes run: "update_deployment env i p a db s = (ROk (x, db', hs), s')" and ok: "deployments_supported db"
    and off: "\<not> turns_on (UpdateDeployment i p)"
  shows "deployments_supported db'"
proof -
  have up: "db' = db\<lparr>ai_deployments := update_row i (apply_deployment_update p a) (ai_deployments db)\<rparr>"
    and given: "\<And>m. pd_logical_model_id p = Some m \<Longrightarrow> \<exists>j r. m = Some j \<and> repo_get j (ai_models db) = Some r"
      "\<And>c. pd_channel_id p = Some c \<Longrightarrow> \<exists>j r. c = Some j \<and> repo_get j (ai_channels db) = Some r"
    using update_deployment_ok [OF run] by blast+
  have sup: "supported db' d = supported db d" for d by (simp add: supported_def up)
  have "supported db (apply_deployment_update p a d)"
    if d: "d \<in> set (ai_deployments db)" and act: "active_deployment (apply_deployment_update p a d)" for d
  proof -
    let ?d = "apply_deployment_update p a d"
    have sel: "dy_logical_model_id ?d = given_value (pd_logical_model_id p) (dy_logical_model_id d)"
      "dy_channel_id ?d = given_value (pd_channel_id p) (dy_channel_id d)" "be_is_deleted ?d = be_is_deleted d"
      "dy_status ?d = status_given (pd_status p) (dy_status d)"
      by (simp_all add: apply_deployment_update_def)
    have g: "row_exists (dy_logical_model_id ?d) (ai_models db)" if m: "pd_logical_model_id p \<noteq> None"
    proof -
      obtain j r where j: "pd_logical_model_id p = Some (Some j)" "repo_get j (ai_models db) = Some r" using m given(1) by blast
      from exists_found [OF j(2)] show ?thesis by (simp add: sel j(1) given_value_def)
    qed
    have h: "row_exists (dy_channel_id ?d) (ai_channels db)" if c: "pd_channel_id p \<noteq> None"
    proof -
      obtain j r where j: "pd_channel_id p = Some (Some j)" "repo_get j (ai_channels db) = Some r" using c given(2) by blast
      from exists_found [OF j(2)] show ?thesis by (simp add: sel j(1) given_value_def)
    qed
    have old: "supported db d" if "pd_status p \<noteq> Some (Some AS_active)"
    proof -
      have "dy_status d = ''active''"
        using act that by (auto simp: active_deployment_def sel status_given_def split: option.splits elim: active_status_value.elims)
      then show ?thesis using ok d act by (simp add: deployments_supported_def active_deployment_def sel)
    qed
    show ?thesis
    proof (cases "pd_status p = Some (Some AS_active)")
      case True with off g h show ?thesis by (auto simp: turns_on_def supported_def)
    next
      case False
      with old g h show ?thesis
        by (cases "pd_logical_model_id p"; cases "pd_channel_id p") (auto simp: supported_def sel)
    qed
  qed
  with ok show ?thesis unfolding deployments_supported_def sup by (auto simp: up update_row_in)
qed


end
