(* ===== verification/PlatformSamples.thy ===== *)
theory PlatformSamples
  imports PlatformRules AuthFacts
begin

text \<open>
  A platform with a user, a channel, a disabled deployment, a global quota rule and a deleted key, the theorems at work on it, and
  what the administration lets happen: a deployment turned on over a deleted channel, a rate-limit rule that cannot be made again after it was
  deleted, and one that can be made twice.
\<close>

section \<open>The platform\<close>

definition keeper :: authenticated_user where
  "keeper = clerk\<lparr>au_permissions := {''ai:quota:remove'', ''ai:credential:add''}\<rparr>"

definition main_channel :: channel_row where
  "main_channel = \<lparr>be_id = 5, be_is_deleted = False, be_created_by = None, be_create_dept = None, be_updated_by = None,
     cn_name = ''main'', cn_provider = ''openai'', cn_protocol = ''openai'', cn_api_base = None, cn_extra_config = None,
     cn_status = ''active'', cn_remark = None\<rparr>"

definition spare_deployment :: deployment_row where
  "spare_deployment = \<lparr>be_id = 21, be_is_deleted = False, be_created_by = None, be_create_dept = None, be_updated_by = None,
     dy_logical_model_id = 3, dy_channel_id = 5, dy_upstream_model = ''gpt-4o'', dy_weight = 1, dy_priority = 0,
     dy_status = ''disabled'', dy_remark = None\<rparr>"

definition daily_quota :: quota_rule_row where
  "daily_quota = \<lparr>be_id = 61, be_is_deleted = False, be_created_by = None, be_create_dept = None, be_updated_by = None,
     qo_scope = ''global'', qo_scope_id = None, qo_logical_model_id = None, qo_period = ''daily'', qo_metric = ''tokens'',
     qo_limit_value = (1, 6), qo_enforce = True, qo_status = ''active'', qo_remark = None\<rparr>"

definition old_key :: credential_row where
  "old_key = \<lparr>be_id = 31, be_is_deleted = True, be_created_by = None, be_create_dept = None, be_updated_by = None, cd_user_id = 7,
     cd_name = ''laptop'', cd_key_hash = ''sk-old'', cd_key_prefix = ''sk-old'', cd_status = ''active'', cd_expires_at = None,
     cd_remark = None\<rparr>"

definition full_platform :: ai_db where
  "full_platform = (small_platform [gpt_grant False])
     \<lparr>ai_identity := (ai_identity (small_platform []))\<lparr>id_users := [user_of 7 ''clerk'']\<rparr>, ai_channels := [main_channel],
      ai_deployments := [spare_deployment], ai_quotas := [daily_quota], ai_credentials := [old_key]\<rparr>"

lemmas platform_defs = full_platform_def small_platform_def main_channel_def spare_deployment_def daily_quota_def old_key_def
  gpt_row_def gpt_grant_def

lemma one_row [simp]: "unique_ids []" "unique_by key []" "unique_ids [r]" "unique_by key [r]"
  by (simp_all add: unique_ids_def unique_by_def)

lemma full_platform_ok: "tables_ok full_platform"
  by (simp add: tables_ok_def platform_defs quota_shape_def)

lemma request_simps [simp]:
  "unit_of_work True op db s = (case op db s of
     (ROk (x, db', hooks), s1) \<Rightarrow> (ROk x, db', run_hooks hooks s1) | (RErr e, s1) \<Rightarrow> (RErr e, db, s1) | (RCrash, s1) \<Rightarrow> (RCrash, db, s1))"
  by (simp add: unit_of_work_def split: prod.split res.split)

definition list_all_of :: list_query where
  "list_all_of = \<lparr>lq_keyword = None, lq_sort_by = None, lq_descending = False, lq_limit = 20, lq_offset = 0\<rparr>"

section \<open>The theorems at work\<close>

theorem tables_stay_consistent_witness:
  "tables_ok (fst (ai_run [(local_env, True, platform_admin, DeleteGrant 11), (local_env, False, platform_admin, DeleteChannel 5)]
     full_platform empty_redis))"
  by (rule tables_stay_consistent [OF full_platform_ok])

definition own_key :: credential_create where
  "own_key = \<lparr>nk_user_id = 7, nk_name = ''laptop'', nk_expires_at = None, nk_note = None\<rparr>"

definition new_own_key :: credential_row where
  "new_own_key = new_credential (\<lambda>k. k) ''sk-0a1b'' 41 own_key keeper"

lemma own_key_made:
  "ai_request local_env True keeper (CreateCredential 41 own_key) full_platform s
    = (ROk (), full_platform\<lparr>ai_credentials := [old_key, new_own_key]\<rparr>, s)"
  by (simp add: ai_request_def has_permission_def keeper_def clerk_def create_credential_def db_op_def ensure_def done_with_def
      own_key_def row_exists_def repo_create_def new_own_key_def new_credential_def res_bind_def local_env_def platform_defs user_of_def Let_def)

theorem keys_are_issued_witness: "cd_user_id new_own_key = 7"
proof -
  have "new_own_key \<in> set (ai_credentials (full_platform\<lparr>ai_credentials := [old_key, new_own_key]\<rparr>))" by simp
  from keys_are_issued [OF own_key_made this] show ?thesis
    by (auto simp: keeper_def clerk_def has_permission_def is_superuser_def SUPERADMIN_ROLE_CODE_def platform_defs)
qed

theorem key_answers_for_its_owner_witness:
  "\<exists>u io'. resolve_api_key token_env ''sk-0a1b'' (identity_view (full_platform\<lparr>ai_credentials := [old_key, new_own_key]\<rparr>))
       (io_of empty_redis [WLost]) = (ROk u, io') \<and> au_user_id u = 7 \<and> au_api_key_id u = Some 41"
proof -
  let ?db = "full_platform\<lparr>ai_credentials := [old_key, new_own_key]\<rparr>"
  have key: "get_api_key_by_hash ''sk-0a1b'' (identity_view ?db) = Some (view_credential new_own_key)"
    by (simp add: get_api_key_by_hash_def scalar_def identity_view_def view_credential_def old_key_def new_own_key_def new_credential_def)
  have user: "get_user_by_id 7 (identity_view ?db) = Some (user_of 7 ''clerk'')"
    by (simp add: get_user_by_id_def scalar_def active_user_def identity_view_def platform_defs user_of_def)
  have sha: "en_sha token_env = ai_sha local_env" by (simp add: token_env_def office_env_def local_env_def id_def)
  obtain u io' where "build_user token_env 7 CK_api_key (Some 41) (identity_view ?db) (io_of empty_redis [WLost]) = (ROk u, io')"
    using build_user_uncached [OF _ user, of "io_of empty_redis [WLost]" token_env CK_api_key "Some 41"] by (auto simp: io_of_def)
  then have run: "resolve_api_key token_env ''sk-0a1b'' (identity_view ?db) (io_of empty_redis [WLost]) = (ROk u, io')"
    using sha key by (simp add: resolve_api_key_def api_key_expired_def view_credential_def new_own_key_def new_credential_def
        own_key_def local_env_def)
  have drawn: "''sk-'' @ ai_random local_env = ''sk-0a1b''" by (simp add: local_env_def)
  have "au_user_id u = nk_user_id own_key \<and> au_credential_kind u = CK_api_key \<and> au_api_key_id u = Some 41"
    by (rule key_answers_for_its_owner [OF full_platform_ok own_key_made sha, of "[]" empty_redis, unfolded drawn ai_run.simps fst_conv, OF run])
  with run show ?thesis by (auto simp: own_key_def)
qed

theorem deleted_key_stays_dead_witness:
  "resolve_api_key token_env ''sk-old'' (identity_view (fst (ai_run [(local_env, True, keeper, CreateCredential 41 own_key)] full_platform
     empty_redis))) (io_of empty_redis []) = (RErr (app_err EC_auth_invalid_token 401), io_of empty_redis [])"
  by (rule deleted_key_stays_dead [OF full_platform_ok, of old_key])
    (simp_all add: full_platform_def old_key_def token_env_def office_env_def)

text \<open>The keeper may delete quota rules, but not the global one.\<close>

theorem global_rules_need_superuser_witness:
  "[q \<leftarrow> ai_quotas (fst (snd (ai_request local_env True keeper (DeleteQuota 61) full_platform empty_redis))). qo_scope q = ''global'']
     = [daily_quota]"
proof -
  obtain r db' s' where run: "ai_request local_env True keeper (DeleteQuota 61) full_platform empty_redis = (r, db', s')" by (metis prod_cases3)
  have "\<not> is_superuser keeper" by (simp add: is_superuser_def keeper_def clerk_def SUPERADMIN_ROLE_CODE_def)
  from global_rules_need_superuser [OF full_platform_ok this run]
  have "[q \<leftarrow> ai_quotas db'. qo_scope q = ''global''] = [q \<leftarrow> ai_quotas full_platform. qo_scope q = ''global'']" by simp
  also have "\<dots> = [daily_quota]" by (simp add: platform_defs)
  finally show ?thesis by (simp add: run)
qed

theorem global_rules_hidden_witness:
  "list_quotas (\<lambda>_. be_id) None None None None list_all_of keeper full_platform
     = list_quotas (\<lambda>_. be_id) None None None None list_all_of keeper (full_platform\<lparr>ai_quotas := []\<rparr>)"
proof -
  have "\<not> is_superuser keeper" by (simp add: is_superuser_def keeper_def clerk_def SUPERADMIN_ROLE_CODE_def)
  from this have "list_quotas (\<lambda>_. be_id) None None None None list_all_of keeper full_platform
       = list_quotas (\<lambda>_. be_id) None None None None list_all_of keeper (full_platform\<lparr>ai_quotas := []\<rparr>)
     \<and> list_rate_rules (\<lambda>_. be_id) None None None None list_all_of (Some keeper) full_platform
       = list_rate_rules (\<lambda>_. be_id) None None None None list_all_of (Some keeper) (full_platform\<lparr>ai_quotas := []\<rparr>)"
    by (rule global_rules_hidden) (simp_all add: platform_defs)
  then show ?thesis by (rule conjunct1)
qed

definition prod_env :: ai_env where
  "prod_env = local_env\<lparr>ce_environment := ''prod''\<rparr>"

definition plain_http :: channel_create where
  "plain_http = \<lparr>nc_name = ''lan'', nc_provider = ''openai'', nc_protocol = ''openai'', nc_api_base = Some ''http://10.0.0.1'',
     nc_extra_config = None, nc_status = AS_active, nc_remark = None\<rparr>"

theorem production_uses_tls_witness:
  "tls_bases (\<lambda>_. None) (fst (ai_run [(prod_env, True, platform_admin, CreateChannel 6 plain_http)] full_platform empty_redis))"
  by (rule production_uses_tls)
    (simp_all add: tls_bases_def platform_defs production_def prod_env_def local_env_def)


section \<open>What the administration lets happen\<close>

text \<open>
  A disabled deployment does not keep its channel from being deleted, and turning it on again afterwards is accepted: only a channel that the
  edit names is looked up.
\<close>

definition turn_on :: deployment_update where
  "turn_on = \<lparr>pd_logical_model_id = None, pd_channel_id = None, pd_upstream_model = None, pd_weight = None, pd_priority = None,
     pd_status = Some (Some AS_active), pd_remark = None\<rparr>"

lemma channel_gone:
  "ai_request local_env True platform_admin (DeleteChannel 5) full_platform s
    = (ROk (), full_platform\<lparr>ai_channels := [main_channel\<lparr>be_is_deleted := True, be_updated_by := Some 1\<rparr>]\<rparr>,
       run_hooks (catalog_hooks (catalog_env.truncate local_env)) s)"
  by (simp add: ai_request_def has_permission_def is_superuser_def platform_admin_def delete_channel_def db_op_def ensure_def done_with_def
      catalog_wildcard_def repo_get_def fetched_def channel_active_deployments_def soft_delete_row_def update_row_def platform_defs
      SUPERADMIN_ROLE_CODE_def scalar_def)

lemma deployment_turned_on:
  "\<exists>s'. ai_request local_env True platform_admin (UpdateDeployment 21 turn_on)
      (full_platform\<lparr>ai_channels := [main_channel\<lparr>be_is_deleted := True, be_updated_by := Some 1\<rparr>]\<rparr>) s
    = (ROk (), full_platform\<lparr>ai_channels := [main_channel\<lparr>be_is_deleted := True, be_updated_by := Some 1\<rparr>],
         ai_deployments := [spare_deployment\<lparr>dy_status := ''active'', be_updated_by := Some 1\<rparr>]\<rparr>, s')"
  by (simp add: ai_request_def has_permission_def is_superuser_def platform_admin_def update_deployment_def db_op_def ensure_def done_with_def
      catalog_wildcard_def repo_get_def fetched_def deployment_update_fits_def apply_deployment_update_def update_row_def platform_defs
      SUPERADMIN_ROLE_CODE_def scalar_def turn_on_def given_def given_value_def status_given_def)

lemma reactivated_orphan:
  "\<not> deployments_supported (fst (ai_run [(local_env, True, platform_admin, DeleteChannel 5),
      (local_env, True, platform_admin, UpdateDeployment 21 turn_on)] full_platform s))"
proof -
  obtain s' where "ai_request local_env True platform_admin (UpdateDeployment 21 turn_on)
      (full_platform\<lparr>ai_channels := [main_channel\<lparr>be_is_deleted := True, be_updated_by := Some 1\<rparr>]\<rparr>)
      (run_hooks (catalog_hooks (catalog_env.truncate local_env)) s)
    = (ROk (), full_platform\<lparr>ai_channels := [main_channel\<lparr>be_is_deleted := True, be_updated_by := Some 1\<rparr>],
         ai_deployments := [spare_deployment\<lparr>dy_status := ''active'', be_updated_by := Some 1\<rparr>]\<rparr>, s')"
    using deployment_turned_on by blast
  then show ?thesis
    by (simp add: channel_gone deployments_supported_def active_deployment_def supported_def row_exists_def main_channel_def spare_deployment_def)
qed

text \<open>
  The unique constraint of the rate-limit rules does not look at the deletion mark: a rule that was deleted keeps its subject and model
  occupied. For a rule without a model it never fires, so the same rule can be made twice.
\<close>

definition clerk_rule :: "int option \<Rightarrow> rate_rule_create" where
  "clerk_rule model_id = \<lparr>nr_subject_type = RS_user, nr_subject_id = Some 7, nr_logical_model_id = model_id, nr_rpm_limit = Some 60,
     nr_tpm_limit = None, nr_tpm_burst_limit = None, nr_max_concurrent = None, nr_enforce = True, nr_remark = None\<rparr>"

lemma deleted_rule_blocks:
  assumes "user_exists 7 db" and "r \<in> set (ai_rate_rules db)" and "be_is_deleted r"
    and "ra_subject_type r = ''user''" and "ra_subject_id r = Some 7" and "ra_logical_model_id r = Some 3"
  shows "create_rate_rule i (clerk_rule (Some 3)) actor db s = (RErr (app_err EC_request_conflict 409), s)"
  using assms
  by (auto simp: create_rate_rule_def db_op_def check_subject_id_def validate_subject_def ensure_def clerk_rule_def repo_create_def
      res_bind_def rate_rule_clash_def new_rate_rule_def sql_eq_def list_ex_iff)

lemma rule_made_twice:
  assumes "user_exists 7 db" and "i \<notin> be_id ` set (ai_rate_rules db)"
  shows "\<exists>r. create_rate_rule i (clerk_rule None) actor db s = (ROk (r, db\<lparr>ai_rate_rules := ai_rate_rules db @ [r]\<rparr>, []), s)"
  using assms
  by (auto simp: create_rate_rule_def db_op_def check_subject_id_def validate_subject_def ensure_def clerk_rule_def repo_create_def
      res_bind_def rate_rule_clash_def new_rate_rule_def sql_eq_def list_ex_iff)

text \<open>An address with an opening bracket and no closing one makes the validation of the base address fail with an uncaught exception.\<close>

lemma malformed_base_crashes: "validate_api_base env ipv6 (Some ''http://[::1'') k = RCrash"
proof -
  have "clean_url ''http://[::1'' = ''http://[::1''" by (simp add: clean_url_def of_char_Char)
  moreover have "split_scheme ''http://[::1'' = (py_lower ''http'', ''//[::1'')"
    by (simp add: split_scheme_def ascii_alpha_def scheme_char_def is_digit_def of_char_Char Let_def)
  ultimately show ?thesis by (simp add: validate_api_base_def url_split_def netloc_of_def Let_def)
qed
end
