(* ===== verification/SystemConfig.thy ===== *)
theory SystemConfig
  imports AiTables
begin

text \<open>
  The platform's configuration: typed values kept as texts (\<open>src/admin/config\<close>: service, repository, payloads, routes) and the reader the
  rest of the program uses (\<open>src/core/config_accessor.py\<close>), which caches a value for \<open>TTL_SECONDS\<close>. An integer of more than 4300
  digits, which the interpreter refuses to read, is left aside.
\<close>

section \<open>Values\<close>

datatype config_value_type = CV_string | CV_int | CV_bool | CV_json

fun config_value_type_value :: "config_value_type \<Rightarrow> string" where
  "config_value_type_value CV_string = ''string''"
| "config_value_type_value CV_int = ''int''"
| "config_value_type_value CV_bool = ''bool''"
| "config_value_type_value CV_json = ''json''"

datatype config_value = ConfText string | ConfInt int | ConfBool bool | ConfJson json

text \<open>\<open>None\<close> is \<open>ValueError\<close>.\<close>

definition parse_config_value :: "string \<Rightarrow> config_value_type \<Rightarrow> config_value option" where
  "parse_config_value value value_type =
     (case value_type of
        CV_string \<Rightarrow> Some (ConfText value)
      | CV_int \<Rightarrow> map_option ConfInt (py_int_of_str value)
      | CV_bool \<Rightarrow>
          (let normalized = py_lower (py_strip value)
           in if normalized \<in> set [''true'', ''1'', ''yes'', ''on''] then Some (ConfBool True)
              else if normalized \<in> set [''false'', ''0'', ''no'', ''off''] then Some (ConfBool False)
              else None)
      | CV_json \<Rightarrow> map_option ConfJson (loads value))"

section \<open>The table\<close>

record config_row = base_entity +
  cf_key :: string
  cf_value :: string
  cf_type :: config_value_type
  cf_name :: string
  cf_is_builtin :: bool
  cf_remark :: "string option"

type_synonym config_table = "config_row list"

definition get_config_by_key :: "string \<Rightarrow> config_table \<Rightarrow> config_row option" where
  "get_config_by_key key rows = scalar [c \<leftarrow> rows. cf_key c = key \<and> \<not> be_is_deleted c]"

definition config_filters :: "string option \<Rightarrow> config_row \<Rightarrow> bool" where
  "config_filters keyword c \<longleftrightarrow> \<not> be_is_deleted c \<and> keyword_matches keyword [cf_key c, cf_name c]"

definition find_configs ::
  "(string \<Rightarrow> config_row \<Rightarrow> 'k::linorder) \<Rightarrow> string option \<Rightarrow> config_table \<Rightarrow> (string \<times> bool) option \<Rightarrow> nat \<Rightarrow> nat \<Rightarrow> config_row list" where
  "find_configs value keyword rows sort_by limit offset =
     select_page value [(''config_key'', False)] sort_by limit offset (filter (config_filters keyword) rows)"

definition count_configs :: "string option \<Rightarrow> config_table \<Rightarrow> int" where
  "count_configs keyword rows = int (length (filter (config_filters keyword) rows))"

section \<open>The reader\<close>

definition CONFIG_TTL_SECONDS :: int where "CONFIG_TTL_SECONDS = 30"

definition config_cache_key :: "string \<Rightarrow> string" where
  "config_cache_key config_key = ''sys-config:'' @ config_key"

text \<open>What the cache holds for a key without a row.\<close>

definition CONFIG_MISSING :: string where
  "CONFIG_MISSING = CHR 0x00 # ''<none>''"

definition load_raw :: "string \<Rightarrow> config_table \<Rightarrow> string option" where
  "load_raw key rows = map_option cf_value (scalar [c \<leftarrow> rows. cf_key c = key \<and> \<not> be_is_deleted c])"

definition raw_or_missing :: "string option \<Rightarrow> string" where
  "raw_or_missing raw = (case raw of None \<Rightarrow> CONFIG_MISSING | Some v \<Rightarrow> v)"

text \<open>\<open>db\<close> is nothing when the query fails.\<close>

definition get_raw :: "int \<Rightarrow> string \<Rightarrow> config_table option \<Rightarrow> redis \<Rightarrow> string option res \<times> redis" where
  "get_raw now key db s =
     (case get_or_load now (config_cache_key key) CONFIG_TTL_SECONDS (\<lambda>v. v) Decoded
             (map_option (\<lambda>rows. raw_or_missing (load_raw key rows)) db) s of
        (ROk cached, s1) \<Rightarrow> (ROk (if cached = CONFIG_MISSING then None else Some cached), s1)
      | (RErr e, s1) \<Rightarrow> (RErr e, s1)
      | (RCrash, s1) \<Rightarrow> (RCrash, s1))"

text \<open>The typed readers: the default for a key without a row and for a value that does not parse.\<close>

definition text_of_raw :: "string option \<Rightarrow> string option \<Rightarrow> string option" where
  "text_of_raw fallback raw = (case raw of None \<Rightarrow> fallback | Some v \<Rightarrow> Some v)"

definition int_of_raw :: "int option \<Rightarrow> string option \<Rightarrow> int option" where
  "int_of_raw fallback raw =
     (case raw of
        None \<Rightarrow> fallback
      | Some v \<Rightarrow> (case parse_config_value v CV_int of Some (ConfInt i) \<Rightarrow> Some i | _ \<Rightarrow> fallback))"

definition bool_of_raw :: "bool option \<Rightarrow> string option \<Rightarrow> bool option" where
  "bool_of_raw fallback raw =
     (case raw of
        None \<Rightarrow> fallback
      | Some v \<Rightarrow> (case parse_config_value v CV_bool of Some (ConfBool b) \<Rightarrow> Some b | _ \<Rightarrow> fallback))"

definition json_of_raw :: "json \<Rightarrow> string option \<Rightarrow> json" where
  "json_of_raw fallback raw =
     (case raw of
        None \<Rightarrow> fallback
      | Some v \<Rightarrow> (case parse_config_value v CV_json of Some (ConfJson j) \<Rightarrow> j | _ \<Rightarrow> fallback))"

definition get_str :: "int \<Rightarrow> string \<Rightarrow> string option \<Rightarrow> config_table option \<Rightarrow> redis \<Rightarrow> string option res \<times> redis" where
  "get_str now key fallback db s = (case get_raw now key db s of (r, s1) \<Rightarrow> (res_bind r (\<lambda>raw. ROk (text_of_raw fallback raw)), s1))"

definition get_int :: "int \<Rightarrow> string \<Rightarrow> int option \<Rightarrow> config_table option \<Rightarrow> redis \<Rightarrow> int option res \<times> redis" where
  "get_int now key fallback db s = (case get_raw now key db s of (r, s1) \<Rightarrow> (res_bind r (\<lambda>raw. ROk (int_of_raw fallback raw)), s1))"

definition get_bool :: "int \<Rightarrow> string \<Rightarrow> bool option \<Rightarrow> config_table option \<Rightarrow> redis \<Rightarrow> bool option res \<times> redis" where
  "get_bool now key fallback db s = (case get_raw now key db s of (r, s1) \<Rightarrow> (res_bind r (\<lambda>raw. ROk (bool_of_raw fallback raw)), s1))"

definition get_json :: "int \<Rightarrow> string \<Rightarrow> json \<Rightarrow> config_table option \<Rightarrow> redis \<Rightarrow> json res \<times> redis" where
  "get_json now key fallback db s = (case get_raw now key db s of (r, s1) \<Rightarrow> (res_bind r (\<lambda>raw. ROk (json_of_raw fallback raw)), s1))"

definition invalidate_config :: "string \<Rightarrow> hook" where
  "invalidate_config key = invalidate_keys [config_cache_key key]"

section \<open>The service\<close>

text \<open>
  A value that does not parse is a 400. An update may name a field and give null: a null type, or a null value of any type but
  \<open>string\<close>, is an uncaught exception; a null that gets through violates a column.
\<close>

definition validate_value :: "string option \<Rightarrow> config_value_type option \<Rightarrow> 'a res \<Rightarrow> 'a res" where
  "validate_value value value_type k =
     (case value_type of
        None \<Rightarrow> RCrash
      | Some t \<Rightarrow>
          (case value of
             None \<Rightarrow> if t = CV_string then k else RCrash
           | Some v \<Rightarrow> ensure (parse_config_value v t \<noteq> None) EC_request_invalid 400 k))"

record config_create =
  nf_key :: string
  nf_value :: string
  nf_type :: config_value_type
  nf_name :: string
  nf_is_builtin :: bool
  nf_remark :: "string option"

definition new_config :: "int \<Rightarrow> config_create \<Rightarrow> authenticated_user \<Rightarrow> config_row" where
  "new_config new_id p actor =
     \<lparr>be_id = new_id, be_is_deleted = False, be_created_by = Some (au_user_id actor), be_create_dept = au_department_id actor,
      be_updated_by = Some (au_user_id actor), cf_key = nf_key p, cf_value = nf_value p, cf_type = nf_type p, cf_name = nf_name p,
      cf_is_builtin = nf_is_builtin p, cf_remark = nf_remark p\<rparr>"

text \<open>The unique index covers deleted rows too.\<close>

definition create_config :: "int \<Rightarrow> config_create \<Rightarrow> authenticated_user \<Rightarrow> (config_table, config_row) admin_op" where
  "create_config new_id p actor = db_op (\<lambda>rows.
     ensure (get_config_by_key (nf_key p) rows = None) EC_request_invalid 400
     (validate_value (Some (nf_value p)) (Some (nf_type p))
     (res_bind (repo_create (\<lambda>c. cf_key c = nf_key p) (new_config new_id p actor) rows) (\<lambda>rows'.
        ROk (new_config new_id p actor, rows', [invalidate_config (nf_key p)])))))"

record config_update =
  pf_value :: "string option option"
  pf_type :: "config_value_type option option"
  pf_name :: "string option option"
  pf_remark :: "string option option"

definition config_update_fits :: "config_update \<Rightarrow> bool" where
  "config_update_fits p \<longleftrightarrow> pf_value p \<noteq> Some None \<and> pf_name p \<noteq> Some None"

definition apply_config_update :: "config_update \<Rightarrow> authenticated_user \<Rightarrow> config_row \<Rightarrow> config_row" where
  "apply_config_update p actor c =
     c\<lparr>cf_value := given_value (pf_value p) (cf_value c), cf_type := given_value (pf_type p) (cf_type c),
       cf_name := given_value (pf_name p) (cf_name c), cf_remark := given (pf_remark p) (cf_remark c),
       be_updated_by := Some (au_user_id actor)\<rparr>"

definition update_config :: "int \<Rightarrow> config_update \<Rightarrow> authenticated_user \<Rightarrow> (config_table, config_row) admin_op" where
  "update_config config_id p actor = db_op (\<lambda>rows.
     fetched (repo_get config_id rows) (\<lambda>config.
     (if pf_value p = None \<and> pf_type p = None then (\<lambda>k. k)
      else validate_value (given (pf_value p) (Some (cf_value config))) (given (pf_type p) (Some (cf_type config))))
     (ensure (config_update_fits p) EC_request_conflict 409
     (ROk (apply_config_update p actor config, update_row config_id (apply_config_update p actor) rows,
           [invalidate_config (cf_key config)])))))"

definition delete_config :: "int \<Rightarrow> authenticated_user \<Rightarrow> (config_table, unit) admin_op" where
  "delete_config config_id actor = db_op (\<lambda>rows.
     fetched (repo_get config_id rows) (\<lambda>config.
     ensure (\<not> cf_is_builtin config) EC_request_invalid 400
     (ROk ((), soft_delete_row (Some (au_user_id actor)) config_id rows, [invalidate_config (cf_key config)]))))"

definition CONFIG_SORT_COLUMNS :: "string list" where
  "CONFIG_SORT_COLUMNS = [''id'', ''config_key'', ''config_name'', ''created_at'', ''updated_at'']"

definition list_configs :: "(string \<Rightarrow> config_row \<Rightarrow> 'k::linorder) \<Rightarrow> list_query \<Rightarrow> config_table \<Rightarrow> config_row page_result res" where
  "list_configs value q rows =
     listing q CONFIG_SORT_COLUMNS ''config_key'' (count_configs (lq_keyword q) rows) (find_configs value (lq_keyword q) rows)"

definition get_config :: "int \<Rightarrow> config_table \<Rightarrow> config_row res" where
  "get_config i rows = fetched (repo_get i rows) ROk"

section \<open>The routes\<close>

datatype config_command = CreateConfig int config_create | UpdateConfig int config_update | DeleteConfig int

fun config_permission :: "config_command \<Rightarrow> string" where
  "config_permission (CreateConfig _ _) = ''system:config:add''"
| "config_permission (UpdateConfig _ _) = ''system:config:edit''"
| "config_permission (DeleteConfig _) = ''system:config:remove''"

definition done_config ::
  "('a \<times> config_table \<times> hook list) res \<times> redis \<Rightarrow> (unit \<times> config_table \<times> hook list) res \<times> redis" where
  "done_config r = (res_bind (fst r) (\<lambda>(_, rows, hooks). ROk ((), rows, hooks)), snd r)"

fun config_perform :: "authenticated_user \<Rightarrow> config_command \<Rightarrow> (config_table, unit) admin_op" where
  "config_perform a (CreateConfig i p) rows s = done_config (create_config i p a rows s)"
| "config_perform a (UpdateConfig i p) rows s = done_config (update_config i p a rows s)"
| "config_perform a (DeleteConfig i) rows s = done_config (delete_config i a rows s)"

definition config_request ::
  "bool \<Rightarrow> authenticated_user \<Rightarrow> config_command \<Rightarrow> config_table \<Rightarrow> redis \<Rightarrow> unit res \<times> config_table \<times> redis" where
  "config_request commit_ok actor cmd rows s =
     (if \<not> has_permission actor (config_permission cmd) then (RErr (app_err EC_auth_forbidden 403), rows, s)
      else unit_of_work commit_ok (config_perform actor cmd) rows s)"

end
