(* ===== verification/ConfigFacts.thy ===== *)
theory ConfigFacts
  imports SystemConfig AiOutcomes PermCacheFacts
begin

text \<open>
  The configuration is well-typed whatever administrators send, and a reader never sees a value that was replaced longer ago than
  the lifetime of a cache entry and the time a load may take, whatever calls to Redis fail.
\<close>

section \<open>Outcomes\<close>

lemma validate_value_ok:
  "validate_value v t k = ROk x \<Longrightarrow> \<exists>t'. t = Some t' \<and> (v = None \<or> (\<exists>w. v = Some w \<and> parse_config_value w t' \<noteq> None)) \<and> k = ROk x"
  by (auto simp: validate_value_def split: option.splits if_splits)

lemma done_config_ok [simp]: "done_config r = (ROk (u, rows, hs), s) \<longleftrightarrow> (\<exists>x. r = (ROk (x, rows, hs), s))"
  by (cases r) (auto simp: done_config_def)

lemma create_config_ok:
  "create_config i p a rows s = (ROk (c, rows', hs), s') \<Longrightarrow>
    c = new_config i p a \<and> rows' = rows @ [c] \<and> parse_config_value (nf_value p) (nf_type p) \<noteq> None
      \<and> be_id c \<notin> be_id ` set rows \<and> (\<forall>d\<in>set rows. cf_key d \<noteq> nf_key p) \<and> hs = [invalidate_config (nf_key p)] \<and> s' = s"
  by (auto simp: create_config_def list_ex_iff dest!: validate_value_ok)

lemma update_config_ok:
  assumes "update_config i p a rows s = (ROk (c, rows', hs), s')"
  shows "\<exists>c0. repo_get i rows = Some c0 \<and> rows' = update_row i (apply_config_update p a) rows
      \<and> (pf_value p = None \<and> pf_type p = None
         \<or> parse_config_value (cf_value (apply_config_update p a c0)) (cf_type (apply_config_update p a c0)) \<noteq> None)
      \<and> hs = [invalidate_config (cf_key c0)] \<and> s' = s"
proof -
  obtain c0 where c0: "repo_get i rows = Some c0" "config_update_fits p" "rows' = update_row i (apply_config_update p a) rows"
      "hs = [invalidate_config (cf_key c0)]" "s' = s"
    and v: "pf_value p = None \<and> pf_type p = None \<or> (\<exists>t. given (pf_type p) (Some (cf_type c0)) = Some t
      \<and> (given (pf_value p) (Some (cf_value c0)) = None
         \<or> (\<exists>w. given (pf_value p) (Some (cf_value c0)) = Some w \<and> parse_config_value w t \<noteq> None)))"
    using assms by (auto simp: update_config_def split: if_splits dest!: validate_value_ok)
  have "pf_value p = None \<and> pf_type p = None
      \<or> parse_config_value (given_value (pf_value p) (cf_value c0)) (given_value (pf_type p) (cf_type c0)) \<noteq> None"
    using v c0(2) by (auto simp: given_def given_value_def config_update_fits_def split: option.splits)
  with c0 show ?thesis by (simp add: apply_config_update_def)
qed

lemma delete_config_ok:
  "delete_config i a rows s = (ROk (u, rows', hs), s') \<Longrightarrow>
    \<exists>c0. repo_get i rows = Some c0 \<and> \<not> cf_is_builtin c0 \<and> rows' = soft_delete_row (Some (au_user_id a)) i rows
      \<and> hs = [invalidate_config (cf_key c0)] \<and> s' = s"
  by (auto simp: delete_config_def)

lemmas config_outcomes = create_config_ok update_config_ok delete_config_ok

lemma config_perform_redis: "snd (config_perform a cmd rows s) = s"
  by (cases cmd) (simp_all add: done_config_def create_config_def update_config_def delete_config_def db_op_def)

lemma config_request_cases:
  assumes "config_request ok a cmd rows s = (r, rows', s')"
  obtains (unchanged) "rows' = rows" "s' = s" "r \<noteq> ROk ()"
  | (committed) key where "config_perform a cmd rows s = (ROk ((), rows', [invalidate_config key]), s)" "s' = invalidate_config key s" "r = ROk ()"
proof -
  obtain x s1 where x: "config_perform a cmd rows s = (x, s1)" by force
  then have s1: "s1 = s" using config_perform_redis [of a cmd rows s] by simp
  show ?thesis
  proof (cases "\<exists>y. x = ROk y \<and> ok \<and> has_permission a (config_permission cmd)")
    case True
    then obtain y where y: "x = ROk y" "ok" "has_permission a (config_permission cmd)" by blast
    obtain d hs where d: "y = ((), d, hs)" by (metis prod_cases3 old.unit.exhaust)
    have "\<exists>key. hs = [invalidate_config key]" using x unfolding y d by (cases cmd) (auto dest!: config_outcomes)
    with x y d s1 assms that(2) show ?thesis by (auto simp: config_request_def unit_of_work_def run_hooks_def)
  next
    case False
    with x s1 assms that(1) show ?thesis by (cases x) (auto simp: config_request_def unit_of_work_def split: if_splits)
  qed
qed

section \<open>Well-typed rows\<close>

definition config_index :: "config_row \<Rightarrow> string option" where
  "config_index c = Some (cf_key c)"

interpretation configs: indexed config_index by unfold_locales (simp add: config_index_def)

definition config_ok :: "config_table \<Rightarrow> bool" where
  "config_ok rows \<longleftrightarrow> unique_ids rows \<and> unique_by config_index rows
     \<and> (\<forall>c\<in>set rows. parse_config_value (cf_value c) (cf_type c) \<noteq> None \<and> (cf_is_builtin c \<longrightarrow> \<not> be_is_deleted c))"

lemma new_config_sel [simp]:
  "be_id (new_config i p a) = i" "cf_key (new_config i p a) = nf_key p" "cf_value (new_config i p a) = nf_value p"
  "cf_type (new_config i p a) = nf_type p" "be_is_deleted (new_config i p a) = False"
  by (simp_all add: new_config_def)

lemma applied_config [simp]:
  "be_id (apply_config_update p a c) = be_id c" "cf_key (apply_config_update p a c) = cf_key c"
  "be_is_deleted (apply_config_update p a c) = be_is_deleted c" "cf_is_builtin (apply_config_update p a c) = cf_is_builtin c"
  "pf_value p = None \<Longrightarrow> cf_value (apply_config_update p a c) = cf_value c"
  "pf_type p = None \<Longrightarrow> cf_type (apply_config_update p a c) = cf_type c"
  by (simp_all add: apply_config_update_def given_value_def)

lemma config_performed_ok:
  assumes "config_perform a cmd rows s = (ROk ((), rows', hs), s')" and ok: "config_ok rows"
  shows "config_ok rows'"
proof (cases cmd)
  case (CreateConfig i p)
  with assms show ?thesis
    by (auto simp: config_ok_def config_index_def intro!: unique_ids_create configs.created dest!: create_config_ok)
next
  case (UpdateConfig i p)
  then obtain c where "update_config i p a rows s = (ROk (c, rows', hs), s')" using assms(1) by auto
  from update_config_ok [OF this] obtain c0 where c0: "repo_get i rows = Some c0" and rows': "rows' = update_row i (apply_config_update p a) rows"
    and v: "pf_value p = None \<and> pf_type p = None
      \<or> parse_config_value (cf_value (apply_config_update p a c0)) (cf_type (apply_config_update p a c0)) \<noteq> None" by blast
  have "c = c0" if "c \<in> set rows" "be_id c = i" for c
    using row_found [OF c0] ok that by (auto simp: config_ok_def dest: row_of_id)
  moreover have "unique_by config_index rows'"
    unfolding rows' using ok by (intro configs.untouched) (simp_all add: config_ok_def config_index_def)
  ultimately show ?thesis using ok v by (auto simp: config_ok_def rows' unique_ids_update update_row_in split: if_splits)
next
  case (DeleteConfig i)
  then obtain c0 where c0: "repo_get i rows = Some c0" "\<not> cf_is_builtin c0"
    and rows': "rows' = soft_delete_row (Some (au_user_id a)) i rows" using assms(1) by (auto dest!: delete_config_ok)
  have "c = c0" if "c \<in> set rows" "be_id c = i" for c
    using row_found [OF c0(1)] ok that by (auto simp: config_ok_def dest: row_of_id)
  moreover have "unique_by config_index rows'" unfolding rows' using ok by (intro configs.soft_deleted) (simp add: config_ok_def)
  moreover have "unique_ids rows'" using ok by (simp add: rows' config_ok_def)
  ultimately show ?thesis using c0(2) ok
    by (auto simp: config_ok_def rows' soft_delete_row_def update_row_in split: if_splits)
qed

fun config_run :: "(bool \<times> authenticated_user \<times> config_command) list \<Rightarrow> config_table \<Rightarrow> redis \<Rightarrow> config_table \<times> redis" where
  "config_run [] rows s = (rows, s)"
| "config_run ((ok, actor, cmd) # rs) rows s =
     (case config_request ok actor cmd rows s of (_, rows', s') \<Rightarrow> config_run rs rows' s')"

text \<open>
  C15. The configuration is well-typed. Whatever requests the configuration receives, every value parses under its type, a key has one row
  (deleted ones included), and no builtin row is deleted.
\<close>

theorem configuration_well_typed:
  assumes "config_ok rows"
  shows "config_ok (fst (config_run rs rows s))"
  using assms
proof (induction rs arbitrary: rows s)
  case (Cons q rs)
  obtain ok a cmd where q: "q = (ok, a, cmd)" by (metis prod_cases3)
  obtain r rows' s' where run: "config_request ok a cmd rows s = (r, rows', s')" by (metis prod_cases3)
  have "config_ok rows'" using run by (cases rule: config_request_cases) (use Cons.prems in \<open>auto dest: config_performed_ok\<close>)
  with Cons.IH show ?case by (simp add: q run)
qed simp

section \<open>How old a reading may be\<close>

text \<open>
  The tables over time, the store and the loads under way: a reader that misses loads the value in one step and stores it in a later
  one, at most \<open>delay\<close> milliseconds after. Requests commit, time passes, calls fail as \<open>r_wire\<close> says, and other traffic leaves the
  keys of the configuration alone. \<open>cw_past\<close> are the tables that were replaced, with the time they were.
\<close>

record config_world =
  cw_now :: int
  cw_rows :: config_table
  cw_store :: redis
  cw_past :: "(int \<times> config_table) list"
  cw_loads :: "(string \<times> int \<times> string) list"

definition same_config_keys :: "redis \<Rightarrow> redis \<Rightarrow> bool" where
  "same_config_keys s s' \<longleftrightarrow>
     (\<forall>key. r_strs s' (config_cache_key key) = r_strs s (config_cache_key key) \<and> r_expiry s' (config_cache_key key) = r_expiry s (config_cache_key key))"

text \<open>The database holds no text with the character 0.\<close>

definition null_free_values :: "config_table \<Rightarrow> bool" where
  "null_free_values rows \<longleftrightarrow> (\<forall>c\<in>set rows. CHR 0x00 \<notin> set (cf_value c))"

inductive config_step :: "int \<Rightarrow> config_world \<Rightarrow> config_world \<Rightarrow> bool" for delay where
  changed: "config_request ok a cmd (cw_rows w) (cw_store w) = (r, rows', s') \<Longrightarrow> null_free_values rows' \<Longrightarrow>
    config_step delay w (w\<lparr>cw_rows := rows', cw_store := s', cw_past := (cw_now w, cw_rows w) # cw_past w\<rparr>)"
| loaded: "config_step delay w (w\<lparr>cw_loads := (key, cw_now w, raw_or_missing (load_raw key (cw_rows w))) # cw_loads w\<rparr>)"
| stored: "(key, t, v) \<in> set (cw_loads w) \<Longrightarrow> cw_now w \<le> t + delay \<Longrightarrow>
    seed_cache (cw_now w) (config_cache_key key) CONFIG_TTL_SECONDS (\<lambda>v. v) (Some v) (cw_store w) = (r, s') \<Longrightarrow>
    config_step delay w (w\<lparr>cw_store := s'\<rparr>)"
| read: "get_raw (cw_now w) key db (cw_store w) = (r, s') \<Longrightarrow> db \<in> {None, Some (cw_rows w)} \<Longrightarrow> config_step delay w (w\<lparr>cw_store := s'\<rparr>)"
| elsewhere: "same_config_keys (cw_store w) s' \<Longrightarrow> config_step delay w (w\<lparr>cw_store := s'\<rparr>)"
| later: "cw_now w \<le> t \<Longrightarrow> config_step delay w (w\<lparr>cw_now := t\<rparr>)"

definition config_start :: "config_table \<Rightarrow> config_world" where
  "config_start rows = \<lparr>cw_now = 0, cw_rows = rows, cw_store = empty_redis, cw_past = [], cw_loads = []\<rparr>"

text \<open>The text \<open>v\<close>, usable until \<open>e\<close>, is what the key has now, or had until less than \<open>bound\<close> before \<open>e\<close>.\<close>

definition reading_fits :: "int \<Rightarrow> config_world \<Rightarrow> string \<Rightarrow> string \<Rightarrow> int \<Rightarrow> bool" where
  "reading_fits bound w key v e \<longleftrightarrow>
     v = raw_or_missing (load_raw key (cw_rows w)) \<and> e \<le> cw_now w + bound
     \<or> (\<exists>(t, rows)\<in>set (cw_past w). null_free_values rows \<and> v = raw_or_missing (load_raw key rows) \<and> e \<le> t + bound)"

definition store_fits :: "int \<Rightarrow> config_world \<Rightarrow> redis \<Rightarrow> bool" where
  "store_fits bound w s \<longleftrightarrow>
     (\<forall>key v. r_strs s (config_cache_key key) = Some v \<longrightarrow> (\<exists>e. r_expiry s (config_cache_key key) = Some e \<and> reading_fits bound w key v e))"

definition config_inv :: "int \<Rightarrow> config_world \<Rightarrow> bool" where
  "config_inv delay w \<longleftrightarrow> null_free_values (cw_rows w)
     \<and> store_fits (delay + CONFIG_TTL_SECONDS * 1000) w (cw_store w)
     \<and> (\<forall>(key, t, v)\<in>set (cw_loads w). reading_fits (delay + CONFIG_TTL_SECONDS * 1000) w key v (t + (delay + CONFIG_TTL_SECONDS * 1000)))"

lemma fits_later:
  assumes "reading_fits b w key v e" and "cw_now w \<le> cw_now w'"
    and "cw_rows w' = cw_rows w \<and> cw_past w' = cw_past w \<or> null_free_values (cw_rows w) \<and> cw_past w' = (cw_now w, cw_rows w) # cw_past w"
  shows "reading_fits b w' key v e"
  using assms unfolding reading_fits_def by fastforce

lemma store_fits_keys: "store_fits b w s \<Longrightarrow> same_config_keys s s' \<Longrightarrow> store_fits b w s'"
  by (simp add: store_fits_def same_config_keys_def)

lemma store_fits_drop: "store_fits b w s \<Longrightarrow> store_fits b w (redis_delete k s)"
  by (auto simp: store_fits_def redis_delete_def)

lemma config_key_inj: "config_cache_key k = config_cache_key k' \<longleftrightarrow> k = k'"
  by (simp add: config_cache_key_def)

lemma store_fits_set:
  "store_fits b w s \<Longrightarrow> reading_fits b w key v (now + ttl * 1000) \<Longrightarrow> store_fits b w (redis_set now (config_cache_key key) v (Some ttl) s)"
  by (auto simp: store_fits_def redis_set_def config_key_inj)

lemma fits_sooner: "reading_fits b w key v e \<Longrightarrow> e' \<le> e \<Longrightarrow> reading_fits b w key v e'"
  unfolding reading_fits_def by fastforce

text \<open>Whatever the connection does, a call leaves the store as it was, or as the command makes it.\<close>

lemma rcall_store:
  assumes "rcall (ruse f) s = (r, s')" and "store_fits b w s" and "\<And>s. store_fits b w s \<Longrightarrow> store_fits b w (f s)"
  shows "store_fits b w s'"
proof -
  have wires: "store_fits b w (s\<lparr>r_wire := ws\<rparr>)" for ws using assms(2) by (simp add: store_fits_def)
  show ?thesis using assms(1,2) assms(3) [OF assms(2)] assms(3) [OF wires] wires
    by (cases "r_wire s") (auto simp: rcall_def ruse_def Let_def split: wire.splits)
qed

lemma rcall_read_fits:
  assumes "rcall (rread f) s = (r, s')"
  shows "(store_fits b w s \<longrightarrow> store_fits b w s') \<and> (\<forall>x. r = Some x \<longrightarrow> (\<exists>ws. x = f (s\<lparr>r_wire := ws\<rparr>)))"
proof (cases "r_wire s")
  case Nil
  then have "f s = f (s\<lparr>r_wire := []\<rparr>)" by (cases s) simp
  moreover have "r = Some (f s)" "s' = s" using Nil assms by (auto simp: rread_def)
  ultimately show ?thesis by blast
next
  case (Cons x ws)
  with assms show ?thesis by (auto simp: rcall_def rread_def Let_def store_fits_def split: wire.splits)
qed

lemma seed_fits:
  assumes "seed_cache now (config_cache_key key) ttl (\<lambda>v. v) loaded s = (r, s')" and "store_fits b w s"
    and "\<And>v. loaded = Some v \<Longrightarrow> reading_fits b w key v (now + ttl * 1000)"
  shows "store_fits b w s'"
proof (cases loaded)
  case None with assms(1,2) show ?thesis by (simp add: seed_cache_def)
next
  case (Some v)
  then have "rcall (ruse (redis_set now (config_cache_key key) v (Some ttl))) s = (fst (rcall (ruse (redis_set now (config_cache_key key) v (Some ttl))) s), s')"
    using assms(1) by (auto simp: seed_cache_def prod_eq_iff)
  from rcall_store [OF this assms(2)] show ?thesis using assms(3) [OF Some] by (auto intro: store_fits_set)
qed

lemma get_raw_fits:
  assumes run: "get_raw (cw_now w) key db s = (r, s')" and s: "store_fits b w s" and db: "db \<in> {None, Some (cw_rows w)}"
    and b: "CONFIG_TTL_SECONDS * 1000 \<le> b"
  shows "store_fits b w s' \<and> (\<forall>v. r = ROk v \<longrightarrow> (\<exists>x e. v = (if x = CONFIG_MISSING then None else Some x) \<and> cw_now w < e \<and> reading_fits b w key x e))"
proof -
  let ?now = "cw_now w" and ?k = "config_cache_key key" and ?v = "raw_or_missing (load_raw key (cw_rows w))"
  let ?l = "map_option (\<lambda>rows. raw_or_missing (load_raw key rows)) db"
  have b0: "0 < b" using b by (simp add: CONFIG_TTL_SECONDS_def)
  have here: "reading_fits b w key ?v (?now + b)" "reading_fits b w key ?v (?now + CONFIG_TTL_SECONDS * 1000)" using b by (auto simp: reading_fits_def)
  have fresh: "\<exists>e. ?now < e \<and> reading_fits b w key ?v e" using here(1) b0 by (intro exI [of _ "?now + b"]) simp
  have l: "v = ?v" if "?l = Some v" for v using db that by auto
  obtain g s1 where g: "rcall (rread (redis_get ?now ?k)) s = (g, s1)" by force
  note rd = rcall_read_fits [OF g, of b w]
  have s1: "store_fits b w s1" using rd s by blast
  have seed: "store_fits b w s2 \<and> (\<forall>x. q = ROk x \<longrightarrow> x = ?v)"
    if "seed_cache ?now ?k CONFIG_TTL_SECONDS (\<lambda>v. v) ?l s1 = (q, s2)" for q s2
    using seed_fits [OF that s1] here(2) l that by (auto simp: seed_cache_def split: option.splits)
  obtain q where q: "get_or_load ?now ?k CONFIG_TTL_SECONDS (\<lambda>v. v) Decoded ?l s = (q, s')"
      and r: "r = (case q of ROk cached \<Rightarrow> ROk (if cached = CONFIG_MISSING then None else Some cached) | RErr e \<Rightarrow> RErr e | RCrash \<Rightarrow> RCrash)"
    using run by (auto simp: get_raw_def split: prod.splits res.splits)
  have "store_fits b w s' \<and> (\<forall>x. q = ROk x \<longrightarrow> (\<exists>e. ?now < e \<and> reading_fits b w key x e))"
  proof (cases g)
    case None
    have "s' = s1 \<and> (\<forall>x. q = ROk x \<longrightarrow> ?l = Some x)" using q g None by (auto simp: get_or_load_def split: option.splits)
    then have "s' = s1" and "\<And>x. q = ROk x \<Longrightarrow> x = ?v" using l by blast+
    with s1 fresh show ?thesis by blast
  next
    case (Some c)
    show ?thesis
    proof (cases c)
      case None
      have "seed_cache ?now ?k CONFIG_TTL_SECONDS (\<lambda>v. v) ?l s1 = (q, s')" using q g None \<open>g = Some c\<close> by (simp add: get_or_load_def)
      from seed [OF this] fresh show ?thesis by blast
    next
      case (Some x)
      with \<open>g = Some c\<close> rd obtain ws where "redis_get ?now ?k (s\<lparr>r_wire := ws\<rparr>) = Some x" by auto
      then have "r_strs s ?k = Some x" "\<not> expired ?now ?k s" by (auto simp: redis_get_def expired_def split: if_splits)
      moreover from this s obtain e where e: "r_expiry s ?k = Some e" "reading_fits b w key x e" unfolding store_fits_def by blast
      ultimately have "?now < e" by (simp add: expired_def)
      moreover have "q = ROk x" "s' = s1" using q g Some \<open>g = Some c\<close> by (simp_all add: get_or_load_def)
      ultimately show ?thesis using s1 e by blast
    qed
  qed
  then show ?thesis by (auto simp: r split: res.splits)
qed

lemma invalidated_fits: "store_fits b w s \<Longrightarrow> store_fits b w (invalidate_config key s)"
  using rcall_store [of "redis_delete_all [config_cache_key key]" s _ _ b w] store_fits_drop [of b w]
  by (metis (no_types, lifting) invalidate_config_def invalidate_keys_def list.distinct(1) prod.collapse redis_delete_all.simps)

lemma config_step_inv: "config_step delay w w' \<Longrightarrow> config_inv delay w \<Longrightarrow> 0 \<le> delay \<Longrightarrow> config_inv delay w'"
proof (induction rule: config_step.induct)
  case (changed ok a cmd w r rows' s')
  let ?w = "w\<lparr>cw_rows := rows', cw_store := s', cw_past := (cw_now w, cw_rows w) # cw_past w\<rparr>"
  let ?b = "delay + CONFIG_TTL_SECONDS * 1000"
  have keep: "reading_fits ?b w key v e \<Longrightarrow> reading_fits ?b ?w key v e" for key v e
    by (erule fits_later) (use changed(3) in \<open>simp_all add: config_inv_def\<close>)
  have "store_fits ?b w s'" using changed(1)
    by (cases rule: config_request_cases) (use changed(3) in \<open>auto simp: config_inv_def intro: invalidated_fits\<close>)
  then have "store_fits ?b ?w s'" using keep unfolding store_fits_def by blast
  with changed(2,3) keep show ?case by (fastforce simp: config_inv_def)
next
  case (loaded w key)
  then show ?case by (auto simp: config_inv_def reading_fits_def store_fits_def)
next
  case (stored key t v w r s')
  let ?b = "delay + CONFIG_TTL_SECONDS * 1000"
  have "reading_fits ?b w key v (t + ?b)" using stored(1,4) by (auto simp: config_inv_def)
  then have "reading_fits ?b w key v (cw_now w + CONFIG_TTL_SECONDS * 1000)" by (rule fits_sooner) (use stored(2) in simp)
  with seed_fits [OF stored(3)] stored(4) have "store_fits ?b w s'" by (simp add: config_inv_def)
  with stored(4) show ?case by (auto simp: config_inv_def reading_fits_def store_fits_def)
next
  case (read w key db r s')
  with get_raw_fits [OF read(1) _ read(2), of "delay + CONFIG_TTL_SECONDS * 1000"] show ?case
    by (auto simp: config_inv_def reading_fits_def store_fits_def)
next
  case (elsewhere w s')
  with store_fits_keys [OF _ elsewhere(1)] show ?case by (auto simp: config_inv_def reading_fits_def store_fits_def)
next
  case (later w t)
  have keep: "reading_fits b w key v e \<Longrightarrow> reading_fits b (w\<lparr>cw_now := t\<rparr>) key v e" for b key v e by (erule fits_later) (use later in simp_all)
  with later(2) show ?case by (fastforce simp: config_inv_def store_fits_def)
qed

lemma config_reach_inv: "(config_step delay)\<^sup>*\<^sup>* (config_start rows) w \<Longrightarrow> null_free_values rows \<Longrightarrow> 0 \<le> delay \<Longrightarrow> config_inv delay w"
proof (induction rule: rtranclp_induct)
  case base then show ?case by (simp add: config_inv_def config_start_def store_fits_def empty_redis_def)
next
  case (step w w') then show ?case by (blast intro: config_step_inv)
qed

lemma raw_or_missing_read:
  assumes "null_free_values rows"
  shows "(if raw_or_missing (load_raw key rows) = CONFIG_MISSING then None else Some (raw_or_missing (load_raw key rows))) = load_raw key rows"
proof (cases "load_raw key rows")
  case None then show ?thesis by (simp add: raw_or_missing_def)
next
  case (Some v)
  then obtain c where "c \<in> set rows" "cf_value c = v" by (auto simp: load_raw_def dest!: scalar_SomeD)
  with assms have "CHR 0x00 \<notin> set v" by (auto simp: null_free_values_def)
  then have "v \<noteq> CONFIG_MISSING" by (auto simp: CONFIG_MISSING_def)
  with Some show ?thesis by (simp add: raw_or_missing_def)
qed

text \<open>
  C16. A reading is at most half a minute old. Take any course of changes to the configuration, readings, loads that take up to \<open>delay\<close>
  milliseconds, other traffic and failing Redis calls, lost invalidations included. What a reader then gets for a key is the value the table
  has, or one that was replaced less than \<open>TTL_SECONDS\<close> and \<open>delay\<close> ago.
\<close>

theorem readings_are_recent:
  assumes "(config_step delay)\<^sup>*\<^sup>* (config_start rows0) w" and "null_free_values rows0" and "0 \<le> delay"
    and "get_raw (cw_now w) key db (cw_store w) = (ROk v, s')" and "db \<in> {None, Some (cw_rows w)}"
  shows "v = load_raw key (cw_rows w)
    \<or> (\<exists>(t, rows)\<in>set (cw_past w). v = load_raw key rows \<and> cw_now w < t + CONFIG_TTL_SECONDS * 1000 + delay)"
proof -
  let ?b = "delay + CONFIG_TTL_SECONDS * 1000"
  have inv: "config_inv delay w" by (rule config_reach_inv [OF assms(1-3)])
  then have "store_fits ?b w (cw_store w)" by (simp add: config_inv_def)
  from get_raw_fits [OF assms(4) this assms(5)] assms(3) obtain x e where
      x: "v = (if x = CONFIG_MISSING then None else Some x)" "cw_now w < e" "reading_fits ?b w key x e" by auto
  from x(3) consider "x = raw_or_missing (load_raw key (cw_rows w))"
    | t rows where "(t, rows) \<in> set (cw_past w)" "null_free_values rows" "x = raw_or_missing (load_raw key rows)" "e \<le> t + ?b"
    by (auto simp: reading_fits_def)
  then show ?thesis
  proof cases
    case 1
    have "null_free_values (cw_rows w)" using inv by (simp add: config_inv_def)
    then have "v = load_raw key (cw_rows w)" unfolding x(1) 1 by (rule raw_or_missing_read)
    then show ?thesis by blast
  next
    case 2
    have "v = load_raw key rows" unfolding x(1) 2(3) by (rule raw_or_missing_read [OF 2(2)])
    with 2 x(2) show ?thesis by force
  qed
qed

section \<open>Examples\<close>

definition max_failures :: config_row where
  "max_failures = \<lparr>be_id = 1, be_is_deleted = False, be_created_by = None, be_create_dept = None, be_updated_by = None,
     cf_key = ''auth.login_max_failures'', cf_value = ''5'', cf_type = CV_int, cf_name = ''Login failures'', cf_is_builtin = True, cf_remark = None\<rparr>"

lemma five_parses: "parse_config_value ''5'' CV_int = Some (ConfInt 5)"
  by (simp add: parse_config_value_def) code_simp

lemma max_failures_ok: "config_ok [max_failures]"
  by (simp add: config_ok_def unique_ids_def unique_by_def max_failures_def five_parses)

theorem configuration_well_typed_witness:
  "config_ok (fst (config_run [(True, clerk\<lparr>au_permissions := {''system:config:remove''}\<rparr>, DeleteConfig 1)] [max_failures] empty_redis))"
  by (rule configuration_well_typed [OF max_failures_ok])

theorem readings_are_recent_witness:
  "fst (get_raw 0 ''auth.login_max_failures'' (Some [max_failures]) (cw_store (config_start [max_failures]))) = ROk (Some ''5'')"
proof -
  let ?w = "config_start [max_failures]"
  have w: "cw_now ?w = 0" "cw_rows ?w = [max_failures]" "cw_past ?w = []" "r_wire (cw_store ?w) = []" "cw_store ?w = empty_redis"
    by (simp_all add: config_start_def empty_redis_def)
  obtain v s' where run: "get_raw (cw_now ?w) ''auth.login_max_failures'' (Some [max_failures]) (cw_store ?w) = (ROk v, s')"
    by (simp add: w get_raw_def get_or_load_def rread_def redis_get_def empty_redis_def seed_cache_def split: if_splits)
  have "null_free_values [max_failures]" by (simp add: null_free_values_def max_failures_def)
  from readings_are_recent [OF _ this _ run, of 0] have "v = load_raw ''auth.login_max_failures'' [max_failures]" by (simp add: w)
  moreover have "load_raw ''auth.login_max_failures'' [max_failures] = Some ''5''" by (simp add: load_raw_def max_failures_def scalar_def)
  ultimately show ?thesis using run by (simp add: w)
qed

text \<open>The key of a deleted row stays taken, though the service means keys to be unique among the rows that are not deleted.\<close>

lemma deleted_config_key_taken:
  assumes "c \<in> set rows" and "be_is_deleted c" and "cf_key c = nf_key p" and "get_config_by_key (nf_key p) rows = None"
    and "parse_config_value (nf_value p) (nf_type p) \<noteq> None"
  shows "create_config i p a rows s = (RErr (app_err EC_request_conflict 409), s)"
  using assms by (auto simp: create_config_def db_op_def ensure_def validate_value_def repo_create_def res_bind_def list_ex_iff)

text \<open>A null type, and a null value of an integer row, are uncaught exceptions rather than a refusal.\<close>

lemma null_type_crashes:
  assumes "repo_get i rows = Some c" and "pf_type p = Some None"
  shows "update_config i p a rows s = (RCrash, s)"
  using assms by (simp add: update_config_def db_op_def fetched_def validate_value_def given_def)

lemma null_value_crashes:
  assumes "repo_get i rows = Some c" and "cf_type c \<noteq> CV_string" and "pf_value p = Some None" and "pf_type p = None"
  shows "update_config i p a rows s = (RCrash, s)"
  using assms by (simp add: update_config_def db_op_def fetched_def validate_value_def given_def)

end
