(* ===== verification/AuditTrail.thy ===== *)
theory AuditTrail
  imports AiApi AuthEdge
begin

text \<open>
  The operation log: which requests are recorded and as what, the middleware that records them after the answer
  (\<open>src/admin/audit/middleware.py\<close>), the append-only table with its queries (\<open>repository.py\<close>, \<open>service.py\<close>) and the
  queries of the login log. \<open>ai_route\<close> gives the method and the path of the platform administration's routes.
\<close>

section \<open>Classification\<close>

definition py_upper :: "string \<Rightarrow> string" where
  "py_upper = map (\<lambda>c. let n = of_char c :: nat in if 97 \<le> n \<and> n \<le> 122 then char_of (n - 32) else c)"

definition WRITE_METHODS :: "string list" where
  "WRITE_METHODS = [''POST'', ''PUT'', ''PATCH'', ''DELETE'']"

definition ADMIN_PREFIX :: string where "ADMIN_PREFIX = ''/admin/''"

definition MODULE_BY_SEGMENT :: "(string \<times> string) list" where
  "MODULE_BY_SEGMENT = [(''users'', ''user''), (''roles'', ''role''), (''menus'', ''menu''), (''departments'', ''dept'')]"

definition should_audit :: "string \<Rightarrow> string \<Rightarrow> bool" where
  "should_audit meth path \<longleftrightarrow> py_upper meth \<in> set WRITE_METHODS \<and> starts_with ADMIN_PREFIX path"

text \<open>\<open>str.isdigit\<close> on the characters below 256, which has the three superscripts beside the digits.\<close>

definition unicode_digit :: "char \<Rightarrow> bool" where
  "unicode_digit c \<longleftrightarrow> is_digit c \<or> c \<in> {CHR 0xB2, CHR 0xB3, CHR 0xB9}"

definition py_isdigit :: "string \<Rightarrow> bool" where
  "py_isdigit t \<longleftrightarrow> t \<noteq> [] \<and> list_all unicode_digit t"

definition path_segments :: "string \<Rightarrow> string list" where
  "path_segments path = [s \<leftarrow> split_on (CHR ''/'') path. s \<noteq> []]"

definition method_action :: "string \<Rightarrow> string" where
  "method_action meth =
     (if py_upper meth = ''POST'' then ''create''
      else if py_upper meth \<in> {''PUT'', ''PATCH''} then ''update''
      else ''delete'')"

definition classify :: "string \<Rightarrow> string \<Rightarrow> string \<times> string \<times> string option" where
  "classify meth path =
     (let segments = path_segments path;
          resource = (case segments of _ # r # _ \<Rightarrow> r | _ \<Rightarrow> ''unknown'');
          area = (case map_of MODULE_BY_SEGMENT resource of Some m \<Rightarrow> m | None \<Rightarrow> resource)
      in case drop 2 segments of
           [] \<Rightarrow> (area, method_action meth, None)
         | x # rest \<Rightarrow>
             if x = ''batch-delete'' then (area, ''batch_delete'', None)
             else (case rest of
                     y # _ \<Rightarrow>
                       if py_isdigit x \<and> \<not> py_isdigit y
                       then (area, map (\<lambda>c. if c = CHR ''-'' then CHR ''_'' else c) y, Some x)
                       else (area, method_action meth, if py_isdigit x then Some x else None)
                   | [] \<Rightarrow> (area, method_action meth, if py_isdigit x then Some x else None)))"

section \<open>The rows\<close>

record oper_log_row =
  ol_actor_id :: "int option"
  ol_actor_name :: "string option"
  ol_module :: string
  ol_action :: string
  ol_method :: string
  ol_path :: string
  ol_target_id :: "string option"
  ol_request_ip :: "string option"
  ol_user_agent :: "string option"
  ol_trace_id :: "string option"
  ol_status :: string
  ol_error_code :: "string option"
  ol_latency_ms :: int

text \<open>What the columns hold; a longer text makes the insert fail.\<close>

definition oper_row_fits :: "oper_log_row \<Rightarrow> bool" where
  "oper_row_fits r \<longleftrightarrow>
     fits 64 (ol_actor_name r) \<and> length (ol_module r) \<le> 64 \<and> length (ol_action r) \<le> 32 \<and> length (ol_method r) \<le> 8
     \<and> length (ol_path r) \<le> 255 \<and> fits 64 (ol_target_id r) \<and> fits 45 (ol_request_ip r) \<and> fits 255 (ol_user_agent r)
     \<and> fits 64 (ol_trace_id r) \<and> length (ol_status r) \<le> 16 \<and> fits 64 (ol_error_code r)"

section \<open>The middleware\<close>

record audit_request =
  aq_method :: string
  aq_path :: string
  aq_actor :: "authenticated_user option"
  aq_ip :: "string option"
  aq_user_agent :: "string option"
  aq_trace_id :: "string option"

text \<open>What the route answered: its status and the error code the handlers stashed; \<open>None\<close> is an exception that nothing caught.\<close>

type_synonym route_answer = "(int \<times> string option) option"

definition oper_row :: "string \<Rightarrow> audit_request \<Rightarrow> int \<Rightarrow> string option \<Rightarrow> int \<Rightarrow> oper_log_row" where
  "oper_row path q status error_code latency_ms =
     (case classify (aq_method q) path of
        (area, action, target_id) \<Rightarrow>
          let succeeded = status < 400
          in \<lparr>ol_actor_id = map_option au_user_id (aq_actor q), ol_actor_name = map_option au_username (aq_actor q), ol_module = area,
              ol_action = action, ol_method = py_upper (aq_method q), ol_path = aq_path q, ol_target_id = target_id,
              ol_request_ip = aq_ip q, ol_user_agent = aq_user_agent q, ol_trace_id = aq_trace_id q,
              ol_status = audit_outcome_value (if succeeded then AO_success else AO_failure),
              ol_error_code = (if succeeded then None else error_code), ol_latency_ms = latency_ms\<rparr>)"

text \<open>The row is written in a session of its own; whatever goes wrong there is only logged.\<close>

definition audit_dispatch ::
  "string \<Rightarrow> bool \<Rightarrow> audit_request \<Rightarrow> route_answer \<Rightarrow> int \<Rightarrow> oper_log_row list \<Rightarrow> oper_log_row list" where
  "audit_dispatch api_prefix db_ok q answer latency_ms logs =
     (let path = strip_api_prefix (aq_path q) api_prefix
      in case answer of
           None \<Rightarrow> logs
         | Some (status, error_code) \<Rightarrow>
             if \<not> should_audit (aq_method q) path then logs
             else (let row = oper_row path q status error_code latency_ms
                   in if db_ok \<and> oper_row_fits row then logs @ [row] else logs))"

section \<open>The recorded routes\<close>

text \<open>Method and path below the API prefix of every changing route of the platform's administration (\<open>router.py\<close> of each package).\<close>

fun ai_route :: "ai_command \<Rightarrow> string \<times> string" where
  "ai_route (CreateChannel _ _) = (''POST'', ''/admin/catalog/channels'')"
| "ai_route (UpdateChannel i _) = (''PUT'', ''/admin/catalog/channels/'' @ show_int i)"
| "ai_route (DeleteChannel i) = (''DELETE'', ''/admin/catalog/channels/'' @ show_int i)"
| "ai_route (CreateKey _ p) = (''POST'', ''/admin/catalog/channels/'' @ show_int (nk_channel_id p) @ ''/keys'')"
| "ai_route (UpdateKey i _) = (''PUT'', ''/admin/catalog/keys/'' @ show_int i)"
| "ai_route (DeleteKey i) = (''DELETE'', ''/admin/catalog/keys/'' @ show_int i)"
| "ai_route (RotateKey i _) = (''POST'', ''/admin/catalog/keys/'' @ show_int i @ ''/rotate'')"
| "ai_route (CreateModel _ _) = (''POST'', ''/admin/catalog/models'')"
| "ai_route (UpdateModel i _) = (''PUT'', ''/admin/catalog/models/'' @ show_int i)"
| "ai_route (DeleteModel i) = (''DELETE'', ''/admin/catalog/models/'' @ show_int i)"
| "ai_route (CreateDeployment _ _) = (''POST'', ''/admin/catalog/deployments'')"
| "ai_route (UpdateDeployment i _) = (''PUT'', ''/admin/catalog/deployments/'' @ show_int i)"
| "ai_route (DeleteDeployment i) = (''DELETE'', ''/admin/catalog/deployments/'' @ show_int i)"
| "ai_route (CreateGrant _ _) = (''POST'', ''/admin/grants'')"
| "ai_route (UpdateGrant i _) = (''PUT'', ''/admin/grants/'' @ show_int i)"
| "ai_route (DeleteGrant i) = (''DELETE'', ''/admin/grants/'' @ show_int i)"
| "ai_route (CreateQuota _ _) = (''POST'', ''/admin/quotas'')"
| "ai_route (UpdateQuota i _) = (''PUT'', ''/admin/quotas/'' @ show_int i)"
| "ai_route (DeleteQuota i) = (''DELETE'', ''/admin/quotas/'' @ show_int i)"
| "ai_route (CreateRateRule _ _) = (''POST'', ''/admin/rate-limits'')"
| "ai_route (UpdateRateRule i _) = (''PATCH'', ''/admin/rate-limits/'' @ show_int i)"
| "ai_route (DeleteRateRule i) = (''DELETE'', ''/admin/rate-limits/'' @ show_int i)"
| "ai_route (CreateCredential _ _) = (''POST'', ''/admin/credentials'')"
| "ai_route (UpdateCredential i _) = (''PUT'', ''/admin/credentials/'' @ show_int i)"
| "ai_route (DeleteCredential i) = (''DELETE'', ''/admin/credentials/'' @ show_int i)"

text \<open>The caller's side of a request: its address, and the two headers that reach the log.\<close>

record caller =
  cl_ip :: "string option"
  cl_user_agent :: "string option"
  cl_request_id :: "string option"

definition trace_id_of :: "string \<Rightarrow> string option \<Rightarrow> string" where
  "trace_id_of uuid header = (case header of None \<Rightarrow> uuid | Some h \<Rightarrow> if h = [] then uuid else h)"

definition route_answer_of :: "'a res \<Rightarrow> route_answer" where
  "route_answer_of r = (case r of ROk _ \<Rightarrow> Some (200, None) | RErr e \<Rightarrow> Some (ae_status e, Some (error_code_value (ae_code e))) | RCrash \<Rightarrow> None)"

definition audit_request_of :: "string \<Rightarrow> string \<Rightarrow> caller \<Rightarrow> authenticated_user \<Rightarrow> ai_command \<Rightarrow> audit_request" where
  "audit_request_of api_prefix uuid c actor cmd =
     \<lparr>aq_method = fst (ai_route cmd), aq_path = api_prefix @ snd (ai_route cmd), aq_actor = Some actor, aq_ip = cl_ip c,
      aq_user_agent = cl_user_agent c, aq_trace_id = Some (trace_id_of uuid (cl_request_id c))\<rparr>"

text \<open>A request to one of these routes under the two middlewares: the route runs, then its row is written. \<open>log_ok\<close> says whether the second session's database answers.\<close>

definition audited_request ::
  "string \<Rightarrow> string \<Rightarrow> bool \<Rightarrow> int \<Rightarrow> caller \<Rightarrow> ai_env \<Rightarrow> bool \<Rightarrow> authenticated_user \<Rightarrow> ai_command \<Rightarrow> ai_db \<times> oper_log_row list \<Rightarrow> redis
     \<Rightarrow> unit res \<times> (ai_db \<times> oper_log_row list) \<times> redis" where
  "audited_request api_prefix uuid log_ok latency_ms c env commit_ok actor cmd dbl s =
     (case ai_request env commit_ok actor cmd (fst dbl) s of
        (r, db, s1) \<Rightarrow>
          (r, (db, audit_dispatch api_prefix log_ok (audit_request_of api_prefix uuid c actor cmd) (route_answer_of r) latency_ms (snd dbl)), s1))"

section \<open>Queries\<close>

definition oper_filters :: "string option \<Rightarrow> string option \<Rightarrow> string option \<Rightarrow> int option \<Rightarrow> oper_log_row \<Rightarrow> bool" where
  "oper_filters keyword area status actor_id r \<longleftrightarrow>
     filter_is area (Some (ol_module r)) \<and> filter_is status (Some (ol_status r)) \<and> (actor_id = None \<or> ol_actor_id r = actor_id)
     \<and> (case normalize_keyword keyword of
          None \<Rightarrow> True
        | Some n \<Rightarrow> (case ol_actor_name r of None \<Rightarrow> False | Some a \<Rightarrow> sql_like (''%'' @ n @ ''%'') (py_lower a))
                    \<or> sql_like (''%'' @ n @ ''%'') (py_lower (ol_path r)))"

definition find_oper_logs ::
  "(string \<Rightarrow> oper_log_row \<Rightarrow> 'k::linorder) \<Rightarrow> string option \<Rightarrow> string option \<Rightarrow> string option \<Rightarrow> int option \<Rightarrow> oper_log_row list
     \<Rightarrow> (string \<times> bool) option \<Rightarrow> nat \<Rightarrow> nat \<Rightarrow> oper_log_row list" where
  "find_oper_logs value keyword area status actor_id logs sort_by limit offset =
     select_page value [(''created_at'', True)] sort_by limit offset (filter (oper_filters keyword area status actor_id) logs)"

definition count_oper_logs :: "string option \<Rightarrow> string option \<Rightarrow> string option \<Rightarrow> int option \<Rightarrow> oper_log_row list \<Rightarrow> int" where
  "count_oper_logs keyword area status actor_id logs = int (length (filter (oper_filters keyword area status actor_id) logs))"

definition OPER_SORT_COLUMNS :: "string list" where
  "OPER_SORT_COLUMNS = [''id'', ''module'', ''status'', ''actor_id'', ''created_at'']"

definition list_oper_logs ::
  "(string \<Rightarrow> oper_log_row \<Rightarrow> 'k::linorder) \<Rightarrow> list_query \<Rightarrow> string option \<Rightarrow> string option \<Rightarrow> int option \<Rightarrow> oper_log_row list
     \<Rightarrow> oper_log_row page_result res" where
  "list_oper_logs value q area status actor_id logs =
     listing q OPER_SORT_COLUMNS ''created_at'' (count_oper_logs (lq_keyword q) area status actor_id logs)
       (find_oper_logs value (lq_keyword q) area status actor_id logs)"

definition login_filters :: "string option \<Rightarrow> string option \<Rightarrow> int option \<Rightarrow> login_log_row \<Rightarrow> bool" where
  "login_filters keyword status user_id r \<longleftrightarrow>
     filter_is status (Some (ll_status r)) \<and> (user_id = None \<or> ll_user_id r = user_id) \<and> keyword_matches keyword [ll_username r]"

definition find_login_logs ::
  "(string \<Rightarrow> login_log_row \<Rightarrow> 'k::linorder) \<Rightarrow> string option \<Rightarrow> string option \<Rightarrow> int option \<Rightarrow> login_log_row list
     \<Rightarrow> (string \<times> bool) option \<Rightarrow> nat \<Rightarrow> nat \<Rightarrow> login_log_row list" where
  "find_login_logs value keyword status user_id logs sort_by limit offset =
     select_page value [(''created_at'', True)] sort_by limit offset (filter (login_filters keyword status user_id) logs)"

definition count_login_logs :: "string option \<Rightarrow> string option \<Rightarrow> int option \<Rightarrow> login_log_row list \<Rightarrow> int" where
  "count_login_logs keyword status user_id logs = int (length (filter (login_filters keyword status user_id) logs))"

definition LOGIN_SORT_COLUMNS :: "string list" where
  "LOGIN_SORT_COLUMNS = [''id'', ''username'', ''status'', ''user_id'', ''created_at'']"

definition list_login_logs ::
  "(string \<Rightarrow> login_log_row \<Rightarrow> 'k::linorder) \<Rightarrow> list_query \<Rightarrow> string option \<Rightarrow> int option \<Rightarrow> login_log_row list \<Rightarrow> login_log_row page_result res" where
  "list_login_logs value q status user_id logs =
     listing q LOGIN_SORT_COLUMNS ''created_at'' (count_login_logs (lq_keyword q) status user_id logs)
       (find_login_logs value (lq_keyword q) status user_id logs)"

end
