(* ===== verification/AuditFacts.thy ===== *)
theory AuditFacts
  imports AuditTrail PlatformFacts
begin

text \<open>
  What the operation log holds of the platform's administration: a change whose texts fit the columns leaves exactly one
  row, which names its author, its route and its outcome; and where the log says less, or nothing.
\<close>

section \<open>Labels\<close>

fun ai_label :: "ai_command \<Rightarrow> string \<times> string \<times> string option" where
  "ai_label (CreateChannel _ _) = (''catalog'', ''create'', None)"
| "ai_label (UpdateChannel _ _) = (''catalog'', ''update'', None)"
| "ai_label (DeleteChannel _) = (''catalog'', ''delete'', None)"
| "ai_label (CreateKey _ _) = (''catalog'', ''create'', None)"
| "ai_label (UpdateKey _ _) = (''catalog'', ''update'', None)"
| "ai_label (DeleteKey _) = (''catalog'', ''delete'', None)"
| "ai_label (RotateKey _ _) = (''catalog'', ''create'', None)"
| "ai_label (CreateModel _ _) = (''catalog'', ''create'', None)"
| "ai_label (UpdateModel _ _) = (''catalog'', ''update'', None)"
| "ai_label (DeleteModel _) = (''catalog'', ''delete'', None)"
| "ai_label (CreateDeployment _ _) = (''catalog'', ''create'', None)"
| "ai_label (UpdateDeployment _ _) = (''catalog'', ''update'', None)"
| "ai_label (DeleteDeployment _) = (''catalog'', ''delete'', None)"
| "ai_label (CreateGrant _ _) = (''grants'', ''create'', None)"
| "ai_label (UpdateGrant i _) = (''grants'', ''update'', Some (show_int i))"
| "ai_label (DeleteGrant i) = (''grants'', ''delete'', Some (show_int i))"
| "ai_label (CreateQuota _ _) = (''quotas'', ''create'', None)"
| "ai_label (UpdateQuota i _) = (''quotas'', ''update'', Some (show_int i))"
| "ai_label (DeleteQuota i) = (''quotas'', ''delete'', Some (show_int i))"
| "ai_label (CreateRateRule _ _) = (''rate-limits'', ''create'', None)"
| "ai_label (UpdateRateRule i _) = (''rate-limits'', ''update'', Some (show_int i))"
| "ai_label (DeleteRateRule i) = (''rate-limits'', ''delete'', Some (show_int i))"
| "ai_label (CreateCredential _ _) = (''credentials'', ''create'', None)"
| "ai_label (UpdateCredential i _) = (''credentials'', ''update'', Some (show_int i))"
| "ai_label (DeleteCredential i) = (''credentials'', ''delete'', Some (show_int i))"

fun path_id :: "ai_command \<Rightarrow> int" where
  "path_id (UpdateChannel i _) = i" | "path_id (DeleteChannel i) = i" | "path_id (CreateKey _ p) = nk_channel_id p"
| "path_id (UpdateKey i _) = i" | "path_id (DeleteKey i) = i" | "path_id (RotateKey i _) = i"
| "path_id (UpdateModel i _) = i" | "path_id (DeleteModel i) = i" | "path_id (UpdateDeployment i _) = i" | "path_id (DeleteDeployment i) = i"
| "path_id (UpdateGrant i _) = i" | "path_id (DeleteGrant i) = i" | "path_id (UpdateQuota i _) = i" | "path_id (DeleteQuota i) = i"
| "path_id (UpdateRateRule i _) = i" | "path_id (DeleteRateRule i) = i" | "path_id (UpdateCredential i _) = i" | "path_id (DeleteCredential i) = i"
| "path_id _ = 0"

lemma split_on_plain: "c \<notin> set x \<Longrightarrow> split_on c x = [x]"
  by (induction x) auto

lemma split_on_sep: "c \<notin> set x \<Longrightarrow> split_on c (x @ c # y) = x # split_on c y"
  by (induction x) auto

lemma slash_not_digit: "\<not> is_digit (CHR ''/'')"
  by (simp add: is_digit_def)

lemma slash_notin_show_int [simp]: "CHR ''/'' \<notin> set (show_int i)"
  using show_nat_digits [of "nat i"] show_nat_digits [of "nat (- i)"] slash_not_digit by (auto simp: show_int_def list_all_iff)

lemma words_not_digits [simp]:
  "\<not> py_isdigit ''keys''" "\<not> py_isdigit ''rotate''" "\<not> py_isdigit ''channels''" "\<not> py_isdigit ''models''" "\<not> py_isdigit ''deployments''"
  by (simp_all add: py_isdigit_def unicode_digit_def is_digit_def)

lemma isdigit_show_int: "0 \<le> i \<Longrightarrow> py_isdigit (show_int i)"
  using show_nat_digits [of "nat i"] by (auto simp: py_isdigit_def show_int_def unicode_digit_def list_all_iff)

lemma not_batch_delete: "0 \<le> i \<Longrightarrow> show_int i \<noteq> ''batch-delete''"
  using isdigit_show_int [of i] by (auto simp: py_isdigit_def unicode_digit_def is_digit_def)

lemma length_show_nat: "n < 10 ^ Suc k \<Longrightarrow> length (show_nat n) \<le> Suc k"
proof (induction k arbitrary: n)
  case 0
  then show ?case by (subst show_nat.simps) simp
next
  case (Suc k)
  have "length (show_nat (n div 10)) \<le> Suc k" using Suc.prems by (intro Suc.IH) (simp add: less_mult_imp_div_less)
  then show ?case by (subst show_nat.simps) simp
qed

lemma length_show_int: "0 \<le> i \<Longrightarrow> i < 2 ^ 63 \<Longrightarrow> length (show_int i) \<le> 19"
  using length_show_nat [of "nat i" 18] by (simp add: show_int_def)

lemma classify_route: "0 \<le> path_id cmd \<Longrightarrow> classify (fst (ai_route cmd)) (snd (ai_route cmd)) = ai_label cmd"
  by (cases cmd)
     (simp_all add: classify_def path_segments_def split_on_sep split_on_plain isdigit_show_int MODULE_BY_SEGMENT_def method_action_def
        py_upper_def Let_def not_batch_delete)

lemma route_recorded: "should_audit (fst (ai_route cmd)) (snd (ai_route cmd))"
  by (cases cmd) (simp_all add: should_audit_def py_upper_def WRITE_METHODS_def ADMIN_PREFIX_def starts_with_def Let_def)

section \<open>What is recorded\<close>

definition api_prefix_ok :: "string \<Rightarrow> bool" where
  "api_prefix_ok p \<longleftrightarrow> p = [] \<or> (p \<noteq> ''/'' \<and> last p \<noteq> CHR ''/'' \<and> length p \<le> 100)"

definition caller_fits :: "caller \<Rightarrow> string \<Rightarrow> bool" where
  "caller_fits c uuid \<longleftrightarrow> fits 45 (cl_ip c) \<and> fits 255 (cl_user_agent c) \<and> length (trace_id_of uuid (cl_request_id c)) \<le> 64"

definition change_row :: "string \<Rightarrow> string \<Rightarrow> int \<Rightarrow> caller \<Rightarrow> authenticated_user \<Rightarrow> ai_command \<Rightarrow> oper_log_row" where
  "change_row api_prefix uuid ms c a cmd =
     \<lparr>ol_actor_id = Some (au_user_id a), ol_actor_name = Some (au_username a), ol_module = fst (ai_label cmd), ol_action = fst (snd (ai_label cmd)),
      ol_method = fst (ai_route cmd), ol_path = api_prefix @ snd (ai_route cmd), ol_target_id = snd (snd (ai_label cmd)), ol_request_ip = cl_ip c,
      ol_user_agent = cl_user_agent c, ol_trace_id = Some (trace_id_of uuid (cl_request_id c)), ol_status = ''success'', ol_error_code = None,
      ol_latency_ms = ms\<rparr>"

lemma starts_with_slash: "\<exists>p. snd (ai_route cmd) = CHR ''/'' # p"
  by (cases cmd) simp_all

lemma rstrip_plain: "p = [] \<or> last p \<noteq> CHR ''/'' \<Longrightarrow> rstrip_slash p = p"
  by (cases p rule: rev_cases) (simp_all add: rstrip_slash_def)

lemma route_stripped: "api_prefix_ok p \<Longrightarrow> strip_api_prefix (p @ snd (ai_route cmd)) p = snd (ai_route cmd)"
  using starts_with_slash [of cmd]
  by (auto simp: strip_api_prefix_def api_prefix_ok_def rstrip_plain Let_def starts_with_def)

lemma upper_route: "py_upper (fst (ai_route cmd)) = fst (ai_route cmd)"
  by (cases cmd) (simp_all add: py_upper_def Let_def)

lemma route_length: "0 \<le> path_id cmd \<Longrightarrow> path_id cmd < 2 ^ 63 \<Longrightarrow> length (snd (ai_route cmd)) \<le> 155 \<and> length (fst (ai_route cmd)) \<le> 8"
  using length_show_int [of "path_id cmd"] by (cases cmd) simp_all

lemma label_length: "0 \<le> path_id cmd \<Longrightarrow> path_id cmd < 2 ^ 63 \<Longrightarrow>
    length (fst (ai_label cmd)) \<le> 64 \<and> length (fst (snd (ai_label cmd))) \<le> 32 \<and> fits 64 (snd (snd (ai_label cmd)))"
  using length_show_int [of "path_id cmd"] by (cases cmd) (simp_all add: fits_def)

lemma row_of_change:
  assumes "api_prefix_ok p" "0 \<le> path_id cmd"
  shows "oper_row (snd (ai_route cmd)) (audit_request_of p uuid c a cmd) 200 None ms = change_row p uuid ms c a cmd"
  using classify_route [OF assms(2)]
  by (simp add: oper_row_def change_row_def audit_request_of_def upper_route Let_def split: prod.splits)

lemma change_row_fits:
  assumes "api_prefix_ok p" "0 \<le> path_id cmd" "path_id cmd < 2 ^ 63" "caller_fits c uuid" "length (au_username a) \<le> 64"
  shows "oper_row_fits (change_row p uuid ms c a cmd)"
  using route_length [OF assms(2,3)] label_length [OF assms(2,3)] assms(1,4,5)
  by (auto simp: oper_row_fits_def change_row_def caller_fits_def api_prefix_ok_def fits_def)

lemma changed_answer:
  assumes "ai_request env ok a cmd db s = (r, db', s')" "db' \<noteq> db"
  shows "r = ROk ()"
  using ai_request_cases [OF assms(1)] assms(2) by metis

text \<open>C14. Every change is on record: a request to the platform's administration that changes the tables appends exactly one row to the operation log, with its author, route, label and success, when its texts fit the columns and the log's session reaches the database.\<close>

theorem changes_are_audited:
  assumes run: "audited_request p uuid True ms c env ok a cmd (db, logs) s = (r, (db', logs'), s')" and changed: "db' \<noteq> db"
    and p: "api_prefix_ok p" and id: "0 \<le> path_id cmd" "path_id cmd < 2 ^ 63"
    and caller: "caller_fits c uuid" "length (au_username a) \<le> 64"
  shows "logs' = logs @ [change_row p uuid ms c a cmd]"
proof -
  obtain r1 db1 s1 where req: "ai_request env ok a cmd db s = (r1, db1, s1)" by (metis prod_cases3)
  then have "db1 = db'" and logs: "logs' = audit_dispatch p True (audit_request_of p uuid c a cmd) (route_answer_of r1) ms logs"
    using run by (auto simp: audited_request_def)
  then have r1: "r1 = ROk ()" using changed_answer [OF req] changed by simp
  show ?thesis
    using row_of_change [OF p id(1), of uuid c a ms] change_row_fits [OF p id caller, of ms] route_recorded [of cmd]
    unfolding logs r1 by (simp add: audit_dispatch_def route_answer_of_def route_stripped [OF p] Let_def audit_request_of_def)
qed

text \<open>The log only grows, by at most one row.\<close>

lemma log_append_only:
  assumes "audited_request p uuid log_ok ms c env ok a cmd (db, logs) s = (r, (db', logs'), s')"
  shows "logs' = logs \<or> (\<exists>row. logs' = logs @ [row])"
  using assms by (auto simp: audited_request_def audit_dispatch_def Let_def split: prod.splits option.splits if_splits)

definition admin_browser :: caller where
  "admin_browser = \<lparr>cl_ip = Some ''10.0.0.7'', cl_user_agent = Some ''Firefox'', cl_request_id = None\<rparr>"

definition padded_browser :: caller where
  "padded_browser = \<lparr>cl_ip = Some ''10.0.0.7'', cl_user_agent = Some (replicate 256 (CHR ''x'')), cl_request_id = None\<rparr>"

definition padded_request :: caller where
  "padded_request = \<lparr>cl_ip = Some ''10.0.0.7'', cl_user_agent = Some ''Firefox'', cl_request_id = Some (replicate 65 (CHR ''x''))\<rparr>"

lemma revocation_audited:
  "audited_request p uuid log_ok ms c local_env True platform_admin (DeleteGrant 11) (small_platform [gpt_grant False], logs) s
    = (ROk (), (small_platform [gpt_grant True],
         audit_dispatch p log_ok (audit_request_of p uuid c platform_admin (DeleteGrant 11)) (Some (200, None)) ms logs),
       bump_grant_cache_generation 2000 ''user'' 7 s)"
  by (simp add: audited_request_def revocation_committed route_answer_of_def)

theorem changes_are_audited_witness:
  "\<exists>s'. audited_request ''/api'' ''u1'' True 12 admin_browser local_env True platform_admin (DeleteGrant 11) (small_platform [gpt_grant False], [])
      empty_redis = (ROk (), (small_platform [gpt_grant True], [change_row ''/api'' ''u1'' 12 admin_browser platform_admin (DeleteGrant 11)]), s')"
proof -
  note run = revocation_audited [of "''/api''" "''u1''" True 12 admin_browser "[]" empty_redis]
  have "small_platform [gpt_grant True] \<noteq> small_platform [gpt_grant False]" by (simp add: small_platform_def gpt_grant_def)
  from changes_are_audited [OF run this] show ?thesis
    using run by (simp add: api_prefix_ok_def caller_fits_def admin_browser_def fits_def trace_id_of_def platform_admin_def clerk_def)
qed

section \<open>Where the log is silent\<close>

text \<open>A User-Agent of 256 characters, or an X-Request-ID of 65, is a row the database refuses: the change is made and nothing records it.\<close>

lemma padded_headers_unaudited:
  assumes "c \<in> {padded_browser, padded_request}"
  shows "audited_request [] uuid True ms c local_env True platform_admin (DeleteGrant 11) (small_platform [gpt_grant False], logs) s
    = (ROk (), (small_platform [gpt_grant True], logs), bump_grant_cache_generation 2000 ''user'' 7 s)"
  using assms
  by (auto simp: revocation_audited audit_dispatch_def Let_def oper_row_def oper_row_fits_def audit_request_of_def padded_browser_def
      padded_request_def fits_def trace_id_of_def split: prod.splits)

text \<open>An exception that no handler of the application catches leaves no row either.\<close>

lemma crash_unaudited:
  assumes "ai_request env ok a cmd db s = (RCrash, db', s')"
  shows "audited_request p uuid True ms c env ok a cmd (db, logs) s = (RCrash, (db', logs), s')"
  using assms by (simp add: audited_request_def audit_dispatch_def route_answer_of_def)

text \<open>The catalog's routes nest their collections under \<open>/admin/catalog\<close>, where neither the id nor the verb is found.\<close>

lemma catalog_label_blurred:
  assumes "0 \<le> i"
  shows "classify ''DELETE'' (''/admin/catalog/channels/'' @ show_int i) = classify ''DELETE'' (''/admin/catalog/models/'' @ show_int j)"
    and "classify ''POST'' (''/admin/catalog/keys/'' @ show_int i @ ''/rotate'') = (''catalog'', ''create'', None)"
  by (simp_all add: classify_def path_segments_def split_on_sep split_on_plain MODULE_BY_SEGMENT_def method_action_def py_upper_def Let_def
      py_isdigit_def unicode_digit_def is_digit_def)

end
