(* ===== verification/Files.thy ===== *)
theory Files
  imports AdminCore AuthEdge
begin

text \<open>
  Uploads (\<open>src/files\<close>), the picture check of \<open>src/core/image.py\<close> and the object storage of \<open>src/core/oss.py\<close> as a map from keys to
  objects. The image library and the signing of addresses are parameters. A file is the string of its bytes.
\<close>

section \<open>Object storage\<close>

record stored_object =
  so_data :: string
  so_content_type :: string

type_synonym bucket = "string \<Rightarrow> stored_object option"

text \<open>\<open>os_put\<close> is the fate of an upload: done, done with its answer lost, or failed. A presigned address is for a key, with or without the forced download.\<close>

datatype put_fate = PutDone | PutUnanswered | PutFailed

record object_storage =
  os_bucket :: string
  os_put :: put_fate
  os_presign :: "string \<Rightarrow> bool \<Rightarrow> string"

definition oss_upload :: "object_storage \<Rightarrow> string \<Rightarrow> string \<Rightarrow> string \<Rightarrow> bucket \<Rightarrow> bool \<times> bucket" where
  "oss_upload st object_key data content_type b =
     (os_put st = PutDone, if os_put st = PutFailed then b else b(object_key \<mapsto> \<lparr>so_data = data, so_content_type = content_type\<rparr>))"

definition object_storage_configured :: "string option \<Rightarrow> string option \<Rightarrow> bool" where
  "object_storage_configured access secret \<longleftrightarrow> truthy_str access \<and> truthy_str secret"

section \<open>Pictures\<close>

definition DEFAULT_MAX_DIMENSION :: int where "DEFAULT_MAX_DIMENSION = 512"
definition MAX_PIXELS :: int where "MAX_PIXELS = 24000000"

text \<open>The image library: the size a header declares (if the bytes are an image at all), whether the pixels decode, and the fresh webp encoding within a dimension.\<close>

record image_library =
  il_size :: "string \<Rightarrow> (int \<times> int) option"
  il_decodes :: "string \<Rightarrow> bool"
  il_webp :: "int \<Rightarrow> string \<Rightarrow> string option"

datatype conversion = Converted string string | ImageTooLarge | InvalidImage | EncoderRaised

definition to_webp_avatar :: "image_library \<Rightarrow> int \<Rightarrow> int \<Rightarrow> string \<Rightarrow> conversion" where
  "to_webp_avatar lib max_bytes max_dimension raw =
     (if max_bytes < int (length raw) then ImageTooLarge
      else (case il_size lib raw of
              None \<Rightarrow> InvalidImage
            | Some (width, height) \<Rightarrow>
                if MAX_PIXELS < width * height then InvalidImage
                else if \<not> il_decodes lib raw then InvalidImage
                else (case il_webp lib max_dimension raw of
                        None \<Rightarrow> EncoderRaised
                      | Some out \<Rightarrow> Converted out ''image/webp'')))"

section \<open>Names\<close>

text \<open>\<open>PurePosixPath.name\<close> and \<open>suffix\<close> of Python 3.11: empty segments and single dots are no parts.\<close>

definition posix_name :: "string \<Rightarrow> string" where
  "posix_name path = (case rev [p \<leftarrow> split_all (CHR ''/'') [] path. p \<noteq> [] \<and> p \<noteq> ''.''] of [] \<Rightarrow> [] | p # _ \<Rightarrow> p)"

text \<open>The stem and the suffix around the last dot, if there is one.\<close>

definition at_last_dot :: "string \<Rightarrow> (string \<times> string) option" where
  "at_last_dot name =
     (let tail = takeWhile (\<lambda>c. c \<noteq> CHR ''.'') (rev name)
      in if CHR ''.'' \<in> set name then Some (take (length name - length tail - 1) name, CHR ''.'' # rev tail) else None)"

definition posix_suffix :: "string \<Rightarrow> string" where
  "posix_suffix path =
     (case at_last_dot (posix_name path) of
        None \<Rightarrow> []
      | Some (stem, suffix) \<Rightarrow> if stem \<noteq> [] \<and> suffix \<noteq> ''.'' then suffix else [])"

definition safe_ext_char :: "char \<Rightarrow> bool" where
  "safe_ext_char c \<longleftrightarrow>
     (let n = of_char c :: nat in 97 \<le> n \<and> n \<le> 122 \<or> 65 \<le> n \<and> n \<le> 90 \<or> 48 \<le> n \<and> n \<le> 57)"

definition safe_extension :: "string option \<Rightarrow> string" where
  "safe_extension original_name =
     (case original_name of
        None \<Rightarrow> []
      | Some name \<Rightarrow>
          (let suffix = posix_suffix name; body = drop 1 suffix
           in if name = [] \<or> suffix = [] then []
              else if body = [] \<or> 10 < length body \<or> \<not> list_all safe_ext_char body then []
              else CHR ''.'' # py_lower body))"

definition dated_key :: "string \<Rightarrow> datetime \<Rightarrow> int \<Rightarrow> string \<Rightarrow> string" where
  "dated_key folder t attach_id ext =
     folder @ ''/'' @ show_int (dt_year t) @ ''/'' @ pad2 (dt_month t) @ ''/'' @ show_int attach_id @ ext"

section \<open>Rows\<close>

text \<open>What the columns hold; a longer text makes the insert fail.\<close>

definition attach_fits :: "attach_row \<Rightarrow> bool" where
  "attach_fits r \<longleftrightarrow>
     length (at_object_key r) \<le> 512 \<and> length (at_bucket r) \<le> 128 \<and> fits 255 (at_original_name r) \<and> length (at_content_type r) \<le> 128"

definition create_attach :: "attach_row \<Rightarrow> identity_db \<Rightarrow> identity_db res" where
  "create_attach r db =
     (if \<not> attach_fits r then RCrash
      else if at_id r \<in> at_id ` set (id_attachs db) \<or> at_object_key r \<in> at_object_key ` set (id_attachs db)
        then RErr (app_err EC_request_conflict 409)
      else ROk (db\<lparr>id_attachs := id_attachs db @ [r]\<rparr>))"

section \<open>The service\<close>

type_synonym 'a file_op = "identity_db \<Rightarrow> bucket \<Rightarrow> ('a \<times> identity_db) res \<times> bucket"

text \<open>Object first, then the row, then the address.\<close>

definition persist ::
  "object_storage \<Rightarrow> int \<Rightarrow> string \<Rightarrow> string \<Rightarrow> string \<Rightarrow> string option \<Rightarrow> attach_biz_type \<Rightarrow> authenticated_user \<Rightarrow> bool
     \<Rightarrow> (attach_row \<times> string) file_op" where
  "persist st attach_id object_key data content_type original_name biz_type actor force_download db b =
     (case oss_upload st object_key data content_type b of
        (False, b1) \<Rightarrow> (RCrash, b1)
      | (True, b1) \<Rightarrow>
          (let r = \<lparr>at_id = attach_id, at_is_deleted = False, at_created_by = Some (au_user_id actor), at_object_key = object_key,
                    at_bucket = os_bucket st, at_original_name = original_name, at_content_type = content_type,
                    at_file_size = int (length data), at_biz_type = attach_biz_type_value biz_type\<rparr>
           in (res_bind (create_attach r db) (\<lambda>db'. ROk ((r, os_presign st object_key force_download), db')), b1)))"

text \<open>\<open>attach_id\<close> and \<open>t\<close>: the minted id and the moment of the call.\<close>

definition upload_avatar ::
  "image_library \<Rightarrow> object_storage \<Rightarrow> int \<Rightarrow> datetime \<Rightarrow> string \<Rightarrow> string option \<Rightarrow> authenticated_user \<Rightarrow> int \<Rightarrow> (attach_row \<times> string) file_op" where
  "upload_avatar lib st attach_id t raw original_name actor max_bytes db b =
     (case to_webp_avatar lib max_bytes DEFAULT_MAX_DIMENSION raw of
        ImageTooLarge \<Rightarrow> (RErr (app_err EC_attach_too_large 400), b)
      | InvalidImage \<Rightarrow> (RErr (app_err EC_attach_invalid_image 400), b)
      | EncoderRaised \<Rightarrow> (RCrash, b)
      | Converted data content_type \<Rightarrow>
          persist st attach_id (dated_key ''avatar'' t attach_id ''.webp'') data content_type original_name AB_avatar actor False db b)"

definition upload_attachment ::
  "object_storage \<Rightarrow> int \<Rightarrow> datetime \<Rightarrow> string \<Rightarrow> string option \<Rightarrow> string option \<Rightarrow> authenticated_user \<Rightarrow> int \<Rightarrow> (attach_row \<times> string) file_op" where
  "upload_attachment st attach_id t raw original_name content_type actor max_bytes db b =
     (if max_bytes < int (length raw) then (RErr (app_err EC_attach_too_large 400), b)
      else persist st attach_id (dated_key ''attachment'' t attach_id (safe_extension original_name)) raw
             (if truthy_str content_type then the content_type else ''application/octet-stream'') original_name AB_attachment actor True db b)"

section \<open>The endpoint\<close>

fun read_capped :: "int \<Rightarrow> string \<Rightarrow> string list \<Rightarrow> string res" where
  "read_capped max_bytes acc [] = ROk acc"
| "read_capped max_bytes acc (chunk # chunks) =
     (if chunk = [] then ROk acc
      else if max_bytes < int (length acc + length chunk) then RErr (app_err EC_attach_too_large 400)
      else read_capped max_bytes (acc @ chunk) chunks)"

record upload_file =
  uf_filename :: "string option"
  uf_content_type :: "string option"
  uf_chunks :: "string list"

record upload_limits =
  avatar_max_bytes :: int
  attachment_max_bytes :: int

definition upload_endpoint ::
  "upload_limits \<Rightarrow> image_library \<Rightarrow> object_storage \<Rightarrow> int \<Rightarrow> datetime \<Rightarrow> attach_biz_type \<Rightarrow> upload_file \<Rightarrow> authenticated_user \<Rightarrow> (attach_row \<times> string) file_op" where
  "upload_endpoint limits lib st attach_id t biz_type file actor db b =
     (let max_bytes = (if biz_type = AB_avatar then avatar_max_bytes limits else attachment_max_bytes limits)
      in case read_capped max_bytes [] (uf_chunks file) of
           RErr e \<Rightarrow> (RErr e, b)
         | RCrash \<Rightarrow> (RCrash, b)
         | ROk raw \<Rightarrow>
             if biz_type = AB_avatar then upload_avatar lib st attach_id t raw (uf_filename file) actor (avatar_max_bytes limits) db b
             else upload_attachment st attach_id t raw (uf_filename file) (uf_content_type file) actor (attachment_max_bytes limits) db b)"

text \<open>The request's transaction covers the row, not the object.\<close>

definition upload_request ::
  "bool \<Rightarrow> upload_limits \<Rightarrow> image_library \<Rightarrow> object_storage \<Rightarrow> int \<Rightarrow> datetime \<Rightarrow> attach_biz_type \<Rightarrow> upload_file \<Rightarrow> authenticated_user
     \<Rightarrow> identity_db \<Rightarrow> bucket \<Rightarrow> (attach_row \<times> string) res \<times> identity_db \<times> bucket" where
  "upload_request commit_ok limits lib st attach_id t biz_type file actor db b =
     (case upload_endpoint limits lib st attach_id t biz_type file actor db b of
        (ROk (x, db'), b') \<Rightarrow> if commit_ok then (ROk x, db', b') else (RCrash, db, b')
      | (RErr e, b') \<Rightarrow> (RErr e, db, b')
      | (RCrash, b') \<Rightarrow> (RCrash, db, b'))"

definition presigned_url :: "object_storage \<Rightarrow> int \<Rightarrow> identity_db \<Rightarrow> string option" where
  "presigned_url st attach_id db = map_option (\<lambda>k. os_presign st k False) (get_attach_object_key attach_id db)"

end
