(* ===== verification/FilesFacts.thy ===== *)
theory FilesFacts
  imports Files AccountFacts KeyedTables
begin

text \<open>
  Uploads, profile updates and the administration of users together: a profile picture, whose address lets a browser show
  it, is always an image this server encoded; every row has its object; names reach object keys only as safe extensions.
\<close>

section \<open>Names and sizes\<close>

lemma safe_extension_shape:
  "safe_extension name = [] \<or> (\<exists>body. safe_extension name = CHR ''.'' # py_lower body \<and> body \<noteq> [] \<and> length body \<le> 10 \<and> list_all safe_ext_char body)"
  by (auto simp: safe_extension_def Let_def split: option.splits)

lemma read_capped_le: "read_capped m acc chunks = ROk raw \<Longrightarrow> int (length acc) \<le> m \<Longrightarrow> int (length raw) \<le> m"
  by (induction m acc chunks rule: read_capped.induct) (auto split: if_splits)

lemma read_capped_whole:
  "list_all (\<lambda>c. c \<noteq> []) chunks \<Longrightarrow> int (length acc) \<le> m \<Longrightarrow>
     read_capped m acc chunks = (if int (length (acc @ concat chunks)) \<le> m then ROk (acc @ concat chunks) else RErr (app_err EC_attach_too_large 400))"
  by (induction m acc chunks rule: read_capped.induct) auto

section \<open>The invariant\<close>

definition picture :: "image_library \<Rightarrow> stored_object \<Rightarrow> bool" where
  "picture lib x \<longleftrightarrow> so_content_type x = ''image/webp''
     \<and> (\<exists>raw w h. il_webp lib DEFAULT_MAX_DIMENSION raw = Some (so_data x) \<and> il_decodes lib raw \<and> il_size lib raw = Some (w, h) \<and> w * h \<le> MAX_PIXELS)"

definition own_picture :: "identity_db \<Rightarrow> user_row \<Rightarrow> bool" where
  "own_picture db u \<longleftrightarrow> (\<forall>a. us_avatar u = Some a \<longrightarrow>
     (\<exists>r\<in>set (id_attachs db). at_id r = a \<and> at_biz_type r = ''avatar'' \<and> at_created_by r = Some (be_id u)))"

definition files_inv :: "image_library \<Rightarrow> identity_db \<times> bucket \<Rightarrow> bool" where
  "files_inv lib dbb \<longleftrightarrow>
     (case dbb of (db, b) \<Rightarrow>
        distinct (map at_id (id_attachs db))
        \<and> (\<forall>k x. starts_with ''avatar/'' k \<longrightarrow> b k = Some x \<longrightarrow> picture lib x)
        \<and> (\<forall>r\<in>set (id_attachs db). b (at_object_key r) \<noteq> None \<and> (at_biz_type r = ''avatar'' \<longrightarrow> starts_with ''avatar/'' (at_object_key r)))
        \<and> (\<forall>u\<in>set (id_users db). own_picture db u))"

lemma avatar_folder [simp]: "starts_with ''avatar/'' (dated_key ''avatar'' t i e)" "\<not> starts_with ''avatar/'' (dated_key ''attachment'' t i e)"
  by (simp_all add: dated_key_def starts_with_def)

section \<open>Uploads\<close>

lemma converted_picture: "to_webp_avatar lib m DEFAULT_MAX_DIMENSION raw = Converted data ct \<Longrightarrow> picture lib \<lparr>so_data = data, so_content_type = ct\<rparr>"
  by (auto simp: to_webp_avatar_def picture_def not_less split: if_splits option.splits)

text \<open>What one upload does to the bucket and, when it is answered with success, to the table.\<close>

definition uploaded :: "image_library \<Rightarrow> string \<Rightarrow> string \<Rightarrow> stored_object \<Rightarrow> bool" where
  "uploaded lib biz key x \<longleftrightarrow> (biz = ''avatar'' \<and> starts_with ''avatar/'' key \<and> picture lib x) \<or> (biz = ''attachment'' \<and> \<not> starts_with ''avatar/'' key)"

lemma persist_cases:
  assumes "persist st i key data ct name biz actor fd db b = (r, b')"
  obtains (nothing) "b' = b" "\<And>x. r \<noteq> ROk x"
    | (orphan) "b' = b(key \<mapsto> \<lparr>so_data = data, so_content_type = ct\<rparr>)" "\<And>x. r \<noteq> ROk x"
    | (stored) row where "b' = b(key \<mapsto> \<lparr>so_data = data, so_content_type = ct\<rparr>)"
        "r = ROk ((row, os_presign st key fd), db\<lparr>id_attachs := id_attachs db @ [row]\<rparr>)" "at_id row = i" "i \<notin> at_id ` set (id_attachs db)"
        "at_object_key row = key" "at_biz_type row = attach_biz_type_value biz" "at_created_by row = Some (au_user_id actor)"
  using assms
  by (cases "os_put st") (auto simp: persist_def oss_upload_def create_attach_def Let_def res_bind_def split: if_splits)

lemma upload_cases:
  assumes "upload_request ok limits lib st i t biz file actor db b = (r, db', b')"
  obtains (unchanged) "b' = b" "db' = db" "\<And>x. r \<noteq> ROk x"
    | (lost) key x where "b' = b(key \<mapsto> x)" "db' = db" "uploaded lib (attach_biz_type_value biz) key x" "\<And>y. r \<noteq> ROk y"
    | (saved) key x row where "b' = b(key \<mapsto> x)" "db' = db\<lparr>id_attachs := id_attachs db @ [row]\<rparr>" "uploaded lib (attach_biz_type_value biz) key x"
        "at_id row \<notin> at_id ` set (id_attachs db)" "at_object_key row = key" "at_biz_type row = attach_biz_type_value biz"
        "at_created_by row = Some (au_user_id actor)" "r = ROk (row, os_presign st key (biz = AB_attachment))"
proof -
  obtain q b1 where e: "upload_endpoint limits lib st i t biz file actor db b = (q, b1)" by force
  have b1: "b' = b1" using assms e by (auto simp: upload_request_def split: res.splits prod.splits if_splits)
  have failed: thesis if q: "\<And>x. q \<noteq> ROk x" and "b1 = b"
  proof (rule unchanged)
    show "b' = b" "db' = db" using assms e q b1 \<open>b1 = b\<close> by (auto simp: upload_request_def split: res.splits)
    show "r \<noteq> ROk y" for y using assms e q by (auto simp: upload_request_def split: res.splits)
  qed
  have via: thesis
    if p: "persist st i key data ct name biz actor (biz = AB_attachment) db b = (q, b1)"
      and u: "uploaded lib (attach_biz_type_value biz) key \<lparr>so_data = data, so_content_type = ct\<rparr>" for key data ct name
    using p
  proof (cases rule: persist_cases)
    case nothing with failed show ?thesis by blast
  next
    case orphan
    show ?thesis
    proof (rule lost)
      show "b' = b(key \<mapsto> \<lparr>so_data = data, so_content_type = ct\<rparr>)" using orphan b1 by simp
      show "db' = db" using assms e orphan by (auto simp: upload_request_def split: res.splits)
      show "r \<noteq> ROk y" for y using assms e orphan by (auto simp: upload_request_def split: res.splits)
    qed (rule u)
  next
    case (stored row)
    show ?thesis
    proof (cases ok)
      case True
      show ?thesis
        by (rule saved [of key "\<lparr>so_data = data, so_content_type = ct\<rparr>" row]) (use True assms e u b1 stored in \<open>auto simp: upload_request_def\<close>)
    next
      case False
      show ?thesis
        by (rule lost [of key "\<lparr>so_data = data, so_content_type = ct\<rparr>"]) (use False assms e u b1 stored in \<open>auto simp: upload_request_def\<close>)
    qed
  qed
  show thesis
  proof (cases "read_capped (if biz = AB_avatar then avatar_max_bytes limits else attachment_max_bytes limits) [] (uf_chunks file)")
    case (ROk raw)
    show ?thesis
    proof (cases biz)
      case AB_avatar
      then have a: "upload_avatar lib st i t raw (uf_filename file) actor (avatar_max_bytes limits) db b = (q, b1)"
        using e ROk by (simp add: upload_endpoint_def)
      show ?thesis
      proof (cases "to_webp_avatar lib (avatar_max_bytes limits) DEFAULT_MAX_DIMENSION raw")
        case (Converted data ct)
        show ?thesis
          by (rule via [of "dated_key ''avatar'' t i ''.webp''" data ct "uf_filename file"])
             (use a AB_avatar converted_picture [OF Converted] Converted in \<open>simp_all add: upload_avatar_def uploaded_def\<close>)
      qed (use a failed in \<open>auto simp: upload_avatar_def\<close>)
    next
      case AB_attachment
      then have a: "upload_attachment st i t raw (uf_filename file) (uf_content_type file) actor (attachment_max_bytes limits) db b = (q, b1)"
        using e ROk by (simp add: upload_endpoint_def)
      show ?thesis
      proof (cases "attachment_max_bytes limits < int (length raw)")
        case True then show ?thesis using a failed by (auto simp: upload_attachment_def)
      next
        case False
        show ?thesis
          by (rule via [of "dated_key ''attachment'' t i (safe_extension (uf_filename file))" raw
                "if truthy_str (uf_content_type file) then the (uf_content_type file) else ''application/octet-stream''" "uf_filename file"])
             (use a AB_attachment False in \<open>simp_all add: upload_attachment_def uploaded_def\<close>)
      qed
    qed
  qed (use e failed in \<open>auto simp: upload_endpoint_def Let_def\<close>)
qed

lemma own_picture_more: "own_picture db u \<Longrightarrow> own_picture (db\<lparr>id_attachs := id_attachs db @ rs\<rparr>) u"
  by (fastforce simp: own_picture_def)

lemma upload_inv:
  assumes "upload_request ok limits lib st i t biz file actor db b = (r, db', b')" and inv: "files_inv lib (db, b)"
  shows "files_inv lib (db', b')"
  using assms(1)
proof (cases rule: upload_cases)
  case unchanged with inv show ?thesis by simp
next
  case (lost key x)
  then show ?thesis using inv by (auto simp: files_inv_def uploaded_def)
next
  case (saved key x row)
  then show ?thesis using inv by (auto simp: files_inv_def uploaded_def own_picture_more)
qed

section \<open>Profiles and administration\<close>

text \<open>The uploads are left alone, and nobody gets a picture that was not theirs.\<close>

definition keeps_pictures :: "identity_db \<Rightarrow> identity_db \<Rightarrow> bool" where
  "keeps_pictures db db' \<longleftrightarrow> id_attachs db' = id_attachs db
     \<and> (\<forall>y\<in>set (id_users db'). us_avatar y = None \<or> (\<exists>x\<in>set (id_users db). be_id x = be_id y \<and> us_avatar x = us_avatar y))"

lemma keeps_pictures_inv: "keeps_pictures db db' \<Longrightarrow> files_inv lib (db, b) \<Longrightarrow> files_inv lib (db', b)"
  unfolding files_inv_def keeps_pictures_def own_picture_def by fastforce

lemma keeps_same: "id_attachs db' = id_attachs db \<Longrightarrow> id_users db' = id_users db \<Longrightarrow> keeps_pictures db db'"
  by (auto simp: keeps_pictures_def)

lemma keeps_row:
  "id_attachs db' = id_attachs db \<Longrightarrow> id_users db' = update_row i f (id_users db) \<Longrightarrow> (\<And>r. be_id (f r) = be_id r \<and> us_avatar (f r) = us_avatar r)
    \<Longrightarrow> keeps_pictures db db'"
  by (auto simp: keeps_pictures_def update_row_def)

lemma resolve_avatar_ok:
  assumes "resolve_avatar_binding a i db = ROk v"
  shows "v = None \<or> (\<exists>r\<in>set (id_attachs db). v = Some (at_id r) \<and> at_biz_type r = ''avatar'' \<and> at_created_by r = Some i)"
  using assms by (fastforce simp: resolve_avatar_binding_def get_owned_avatar_def split: option.splits dest!: scalar_SomeD)

lemma update_current_user_ok:
  assumes "update_current_user env user p db io = (ROk (u, db'), io')"
  obtains row avatar where "get_user_by_id (au_user_id user) db = Some row" "db' = update_user_row (be_id row) (apply_profile p avatar (au_user_id user)) db"
    "avatar = None \<or> (\<exists>a v. avatar = Some v \<and> resolve_avatar_binding a (au_user_id user) db = ROk v)"
  using assms
  by (auto simp: update_current_user_def raise_error_def Let_def split: option.splits if_splits res.splits prod.splits)

lemma profile_inv:
  assumes "update_current_user env user p db io = (ROk (u, db'), io')" and inv: "files_inv lib (db, b)"
  shows "files_inv lib (db', b)"
proof -
  obtain row avatar where row: "get_user_by_id (au_user_id user) db = Some row" "db' = update_user_row (be_id row) (apply_profile p avatar (au_user_id user)) db"
    and av: "avatar = None \<or> (\<exists>a v. avatar = Some v \<and> resolve_avatar_binding a (au_user_id user) db = ROk v)"
    using update_current_user_ok [OF assms(1)] .
  have id: "be_id row = au_user_id user" using row(1) by (auto simp: get_user_by_id_def dest!: scalar_SomeD)
  have same: "id_attachs db' = id_attachs db" by (simp add: row(2) update_user_row_def)
  have "own_picture db' y" if y: "y \<in> set (id_users db')" for y
  proof -
    obtain x where x: "x \<in> set (id_users db)" "y = (if be_id x = be_id row then apply_profile p avatar (au_user_id user) x else x)"
      using y by (auto simp: row(2) update_row_def)
    have old: "own_picture db x" using inv x(1) by (simp add: files_inv_def)
    consider "us_avatar y = us_avatar x" "be_id y = be_id x"
      | v where "avatar = Some v" "us_avatar y = v" "be_id y = au_user_id user"
      using x(2) id by (cases avatar; cases "be_id x = be_id row") (auto simp: apply_profile_def given_def)
    then show ?thesis
    proof cases
      case 1 with old show ?thesis by (simp add: own_picture_def same)
    next
      case (2 v)
      with av obtain a where "resolve_avatar_binding a (au_user_id user) db = ROk v" by auto
      from resolve_avatar_ok [OF this] 2 show ?thesis by (auto simp: own_picture_def same)
    qed
  qed
  with inv show ?thesis by (simp add: files_inv_def same)
qed

lemma uploads_sel [simp]:
  "id_attachs (replace_menus i ms db) = id_attachs db" "id_attachs (replace_roles u rs db) = id_attachs db"
  "id_attachs (delete_user_links i db) = id_attachs db" "id_attachs (update_user_row i f db) = id_attachs db"
  by (simp_all add: replace_menus_def replace_roles_def delete_user_links_def update_user_row_def)

lemma cleared_uploads [simp]: "id_attachs (unlink_roles is db) = id_attachs db" "id_attachs (clear_roles is db) = id_attachs db"
  by (induction "is" arbitrary: db) simp_all

lemma dropped_uploads:
  "drop_departments a is db n sk = (n', sk', db') \<Longrightarrow> id_attachs db' = id_attachs db"
  "drop_menus a is db n sk = (n', sk', db') \<Longrightarrow> id_attachs db' = id_attachs db"
  by (induction "is" arbitrary: db n sk) (auto simp: drop_department_def drop_menu_def split: if_splits)

lemma role_uploads:
  "create_role i cr a db s = (ROk (x, db', hs), s') \<Longrightarrow> id_attachs db' = id_attachs db"
  "update_role now i ur a db s = (ROk (x, db', hs), s') \<Longrightarrow> id_attachs db' = id_attachs db"
  "delete_role now i a db s = (ROk (y, db', hs), s') \<Longrightarrow> id_attachs db' = id_attachs db"
  "batch_delete_roles now is a db s = (ROk (b, db', hs), s') \<Longrightarrow> id_attachs db' = id_attachs db"
  by (auto simp: create_role_def update_role_def delete_role_def batch_delete_roles_def Let_def split: prod.splits option.split)

lemma menu_uploads:
  "create_menu i cm a db s = (ROk (x, db', hs), s') \<Longrightarrow> id_attachs db' = id_attachs db"
  "update_menu now i um a db = Some (ROk (x, db', hs)) \<Longrightarrow> id_attachs db' = id_attachs db"
  "delete_menu i a db s = (ROk (y, db', hs), s') \<Longrightarrow> id_attachs db' = id_attachs db"
  "batch_delete_menus is a db s = (ROk (b, db', hs), s') \<Longrightarrow> id_attachs db' = id_attachs db"
  by (auto simp: create_menu_def update_menu_def update_menu_checked_def delete_menu_def drop_menu_def batch_delete_menus_def Let_def
      split: prod.splits option.splits dest: dropped_uploads)

lemma department_uploads:
  "create_department i cd a db s = (ROk (x, db', hs), s') \<Longrightarrow> id_attachs db' = id_attachs db"
  "update_department i ud a db s = (ROk (x, db', hs), s') \<Longrightarrow> id_attachs db' = id_attachs db"
  "delete_department i a db s = (ROk (y, db', hs), s') \<Longrightarrow> id_attachs db' = id_attachs db"
  "batch_delete_departments is a db s = (ROk (b, db', hs), s') \<Longrightarrow> id_attachs db' = id_attachs db"
  by (auto simp: create_department_def update_department_def delete_department_def drop_department_def batch_delete_departments_def Let_def
      split: prod.splits dest: dropped_uploads)

lemma keeps_new: "id_attachs db' = id_attachs db \<Longrightarrow> id_users db' = id_users db @ [u] \<Longrightarrow> us_avatar u = None \<Longrightarrow> keeps_pictures db db'"
  unfolding keeps_pictures_def by (simp, blast)

lemma create_user_keeps: "create_user env i p a db s = (ROk (y, db', hs), s') \<Longrightarrow> keeps_pictures db db'"
  by (auto simp: create_user_def Let_def new_user_def dest!: strong_password_ok intro!: keeps_new)

lemma update_user_keeps:
  assumes "update_user env i p a db s = (ROk (y, db', hs), s')"
  shows "keeps_pictures db db'"
proof -
  have "id_attachs db' = id_attachs db" "id_users db' = update_row i (apply_user_update env p a) (id_users db)"
    by (rule update_user_result [OF assms], cases "up_role_ids p", simp_all)+
  then show ?thesis by (rule keeps_row) (simp add: apply_user_update_def)
qed

lemma reset_password_keeps: "reset_password env i pw a db s = (ROk (y, db', hs), s') \<Longrightarrow> keeps_pictures db db'"
  unfolding reset_password_def by (drule then_redis_ok) (auto dest!: strong_password_ok intro!: keeps_row)

lemma delete_user_keeps: "delete_user env i a db s = (ROk (y, db', hs), s') \<Longrightarrow> keeps_pictures db db'"
  unfolding delete_user_def soft_delete_row_def by (drule then_redis_ok) (auto simp: Let_def intro!: keeps_row)

lemma many_deleted_row:
  assumes "soft_delete_many ids t = (x, t')" and "y \<in> set t'"
  shows "\<exists>z\<in>set t. y = z \<or> y = z\<lparr>be_is_deleted := True\<rparr>"
proof -
  have "y \<in> set (snd (soft_delete_many ids t))" using assms by simp
  then show ?thesis by (auto simp: soft_delete_many_def Let_def)
qed

lemma batch_delete_users_keeps:
  assumes "batch_delete_users env ids a db s = (ROk (y, db', hs), s')"
  shows "keeps_pictures db db'"
proof -
  obtain n missing t where del: "soft_delete_many (filter (\<lambda>i. user_dominance i a db) (dict_fromkeys ids)) (id_users db) = ((n, missing), t)"
    by (metis prod.collapse)
  have "id_attachs db' = id_attachs db" "id_users db' = t"
    using assms del by (auto simp: batch_delete_users_def Let_def clear_roles_eq dest!: then_redis_ok)
  then show ?thesis unfolding keeps_pictures_def using many_deleted_row [OF del] by fastforce
qed

lemma perform_keeps_pictures:
  assumes "perform env a cmd db s = (ROk (x, db', hs), s')"
  shows "keeps_pictures db db'"
proof (cases cmd)
  case (UpdateMenu i p)
  with assms show ?thesis by (auto dest!: effect_ok intro!: keeps_same dest: menu_ops_same menu_uploads split: option.splits)
qed (use assms in \<open>auto dest!: effect_ok intro: create_user_keeps update_user_keeps reset_password_keeps delete_user_keeps batch_delete_users_keeps
    keeps_same dest: role_ops_same menu_ops_same department_ops_same role_uploads menu_uploads department_uploads\<close>)

lemma admin_inv:
  assumes "admin_request env ok a cmd db s = (r, db', s')" and "files_inv lib (db, b)"
  shows "files_inv lib (db', b)"
  using assms(1)
proof (cases rule: admin_request_cases)
  case (2 hs s1)
  from perform_keeps_pictures [OF this(1)] assms(2) show ?thesis by (rule keeps_pictures_inv)
qed (use assms(2) in simp)

section \<open>The theorem\<close>

text \<open>Uploads, profile updates and administrative requests of any users, in any order, whatever of them fails.\<close>

inductive file_step :: "image_library \<Rightarrow> identity_db \<times> bucket \<Rightarrow> identity_db \<times> bucket \<Rightarrow> bool" for lib where
  uploaded: "upload_request ok limits lib st i t biz file actor db b = (r, db', b') \<Longrightarrow> file_step lib (db, b) (db', b')"
| profile: "update_current_user env user p db io = (ROk (u, db'), io') \<Longrightarrow> file_step lib (db, b) (db', b)"
| administered: "admin_request env ok a cmd db s = (r, db', s') \<Longrightarrow> file_step lib (db, b) (db', b)"

lemma file_step_inv: "file_step lib x y \<Longrightarrow> files_inv lib x \<Longrightarrow> files_inv lib y"
  by (induction rule: file_step.induct) (auto intro: upload_inv profile_inv admin_inv)

lemma file_reach_inv: "(file_step lib)\<^sup>*\<^sup>* x y \<Longrightarrow> files_inv lib x \<Longrightarrow> files_inv lib y"
  by (induction rule: rtranclp_induct) (auto intro: file_step_inv)

text \<open>
  C21. Profile pictures are safe to show. However uploads, profile updates and administrative requests interleave and fail, the address a
  user's profile gives, the one that no forced download protects, is of an object this server encoded as webp from an image it
  decoded within the pixel limit, uploaded by the user itself: never of a file as somebody sent it.
\<close>

theorem profile_pictures_are_safe:
  assumes "(file_step lib)\<^sup>*\<^sup>* (db0, b0) (db, b)" and "files_inv lib (db0, b0)"
    and "u \<in> set (id_users db)" and "au_avatar user = us_avatar u" and "avatar_url user (Some presign) db = Some url"
  shows "\<exists>r\<in>set (id_attachs db). \<exists>x. url = presign (at_object_key r) \<and> at_created_by r = Some (be_id u) \<and> b (at_object_key r) = Some x \<and> picture lib x"
proof -
  have inv: "files_inv lib (db, b)" using file_reach_inv assms(1,2) by blast
  obtain a k where a: "us_avatar u = Some a" "get_attach_object_key a db = Some k" "url = presign k"
    using assms(4,5) by (auto simp: avatar_url_def split: option.splits)
  obtain r where r: "r \<in> set (id_attachs db)" "at_id r = a" "at_biz_type r = ''avatar''" "at_created_by r = Some (be_id u)"
    using inv assms(3) a(1) unfolding files_inv_def own_picture_def by fastforce
  obtain q where q: "q \<in> set (id_attachs db)" "at_id q = a" "k = at_object_key q"
    using a(2) by (auto simp: get_attach_object_key_def dest!: scalar_SomeD)
  have "q = r" using inv q r by (auto simp: files_inv_def distinct_map inj_on_def)
  with inv r a q show ?thesis by (fastforce simp: files_inv_def)
qed

text \<open>Every row, of whatever kind, has its object; the object comes first.\<close>

lemma rows_have_objects:
  assumes "(file_step lib)\<^sup>*\<^sup>* (db0, b0) (db, b)" and "files_inv lib (db0, b0)" and "r \<in> set (id_attachs db)"
  shows "b (at_object_key r) \<noteq> None"
  using file_reach_inv [OF assms(1,2)] assms(3) by (simp add: files_inv_def)

text \<open>The address an upload answers with forces the download of everything but pictures.\<close>

lemma attachments_are_downloaded:
  assumes "upload_request ok limits lib st i t AB_attachment file actor db b = (ROk (r, url), db', b')"
  shows "url = os_presign st (at_object_key r) True"
  using assms by (cases rule: upload_cases) auto

section \<open>Samples\<close>

text \<open>A user with a picture, and a page somebody uploads as an attachment.\<close>

definition plain_library :: image_library where
  "plain_library = \<lparr>il_size = (\<lambda>_. Some (8, 8)), il_decodes = (\<lambda>_. True), il_webp = (\<lambda>_ raw. Some (''webp '' @ raw))\<rparr>"

definition local_storage :: object_storage where
  "local_storage = \<lparr>os_bucket = ''local'', os_put = PutDone, os_presign = (\<lambda>k d. if d then k @ ''?download'' else k)\<rparr>"

definition picture_row :: attach_row where
  "picture_row = \<lparr>at_id = 900, at_is_deleted = False, at_created_by = Some 7, at_object_key = ''avatar/2026/06/900.webp'', at_bucket = ''local'',
     at_original_name = None, at_content_type = ''image/webp'', at_file_size = 8, at_biz_type = ''avatar''\<rparr>"

definition gallery :: identity_db where
  "gallery = office\<lparr>id_users := [(user_of 7 ''clerk'')\<lparr>us_avatar := Some 900\<rparr>], id_attachs := [picture_row]\<rparr>"

definition gallery_bucket :: bucket where
  "gallery_bucket = [''avatar/2026/06/900.webp'' \<mapsto> \<lparr>so_data = ''webp png'', so_content_type = ''image/webp''\<rparr>]"

definition page_file :: upload_file where
  "page_file = \<lparr>uf_filename = Some ''../x/Page.HTML'', uf_content_type = Some ''text/html'', uf_chunks = [''<script>'', [], ''x'']\<rparr>"

definition long_file :: upload_file where
  "long_file = page_file\<lparr>uf_filename := Some (replicate 256 (CHR ''x''))\<rparr>"

definition page_limits :: upload_limits where
  "page_limits = \<lparr>avatar_max_bytes = 2097152, attachment_max_bytes = 10485760\<rparr>"

definition june :: datetime where
  "june = \<lparr>dt_year = 2026, dt_month = 6, dt_day = 1, dt_ms = 0\<rparr>"

lemma gallery_ok: "files_inv plain_library (gallery, gallery_bucket)"
proof -
  have "picture plain_library \<lparr>so_data = ''webp png'', so_content_type = ''image/webp''\<rparr>"
    by (auto simp: picture_def plain_library_def MAX_PIXELS_def)
  then show ?thesis by (simp add: files_inv_def gallery_def gallery_bucket_def picture_row_def own_picture_def user_of_def starts_with_def)
qed

lemma page_key: "dated_key ''attachment'' june 901 (safe_extension (uf_filename page_file)) = ''attachment/2026/06/901.html''"
  by code_simp

lemma page_uploaded:
  "upload_request True page_limits plain_library local_storage 901 june AB_attachment page_file clerk gallery gallery_bucket = (q, db', b')
    \<Longrightarrow> id_attachs db' = id_attachs gallery @
        [\<lparr>at_id = 901, at_is_deleted = False, at_created_by = Some 7, at_object_key = ''attachment/2026/06/901.html'', at_bucket = ''local'',
          at_original_name = Some ''../x/Page.HTML'', at_content_type = ''text/html'', at_file_size = 8, at_biz_type = ''attachment''\<rparr>]
      \<and> id_users db' = id_users gallery"
  using page_key
  by (auto simp: upload_request_def upload_endpoint_def upload_attachment_def persist_def oss_upload_def create_attach_def attach_fits_def fits_def
      page_limits_def local_storage_def page_file_def res_bind_def truthy_str_def gallery_def picture_row_def clerk_def Let_def)

theorem profile_pictures_are_safe_witness:
  "\<exists>db b. (file_step plain_library)\<^sup>*\<^sup>* (gallery, gallery_bucket) (db, b) \<and> length (id_attachs db) = 2
     \<and> avatar_url (clerk\<lparr>au_avatar := Some 900\<rparr>) (Some (\<lambda>k. k)) db = Some ''avatar/2026/06/900.webp''
     \<and> (\<exists>r\<in>set (id_attachs db). \<exists>x. ''avatar/2026/06/900.webp'' = at_object_key r \<and> b (at_object_key r) = Some x \<and> picture plain_library x)"
proof -
  obtain q db b where run: "upload_request True page_limits plain_library local_storage 901 june AB_attachment page_file clerk gallery gallery_bucket = (q, db, b)"
    by (metis prod_cases3)
  note up = page_uploaded [OF run]
  have "file_step plain_library (gallery, gallery_bucket) (db, b)" by (rule file_step.uploaded [OF run])
  then have reach: "(file_step plain_library)\<^sup>*\<^sup>* (gallery, gallery_bucket) (db, b)" by blast
  have url: "avatar_url (clerk\<lparr>au_avatar := Some 900\<rparr>) (Some (\<lambda>k. k)) db = Some ''avatar/2026/06/900.webp''"
    using up by (simp add: avatar_url_def get_attach_object_key_def scalar_def gallery_def picture_row_def)
  have u: "(user_of 7 ''clerk'')\<lparr>us_avatar := Some 900\<rparr> \<in> set (id_users db)" using up by (simp add: gallery_def)
  have "length (id_attachs db) = 2" using up by (simp add: gallery_def)
  moreover have "\<exists>r\<in>set (id_attachs db). \<exists>x. ''avatar/2026/06/900.webp'' = at_object_key r \<and> b (at_object_key r) = Some x \<and> picture plain_library x"
    using profile_pictures_are_safe [OF reach gallery_ok u _ url] by auto
  ultimately show ?thesis using reach url by blast
qed

text \<open>A file name the column cannot hold is found out after the upload: an error that no handler knows, and an object nobody refers to.\<close>

lemma long_name_orphans:
  "upload_request True page_limits plain_library local_storage 902 june AB_attachment long_file clerk gallery gallery_bucket
    = (RCrash, gallery, gallery_bucket(dated_key ''attachment'' june 902 (safe_extension (uf_filename long_file)) \<mapsto>
        \<lparr>so_data = ''<script>'', so_content_type = ''text/html''\<rparr>))"
  by (simp add: upload_request_def upload_endpoint_def upload_attachment_def persist_def oss_upload_def create_attach_def attach_fits_def fits_def
      page_limits_def local_storage_def long_file_def page_file_def res_bind_def truthy_str_def Let_def)

end
