(* ===== verification/VendorKeys.thy ===== *)
theory VendorKeys
  imports RateLimit AuthEdge PlatformSamples RouterFacts
begin

text \<open>
  Upstream keys from the administrator to the upstream call: what is typed in is encrypted into the table, survives changes of the
  configured encryption keys, and is what the router of a later rebuild sends; the stored keys never stop a rebuild.
\<close>

section \<open>Encryption\<close>

text \<open>
  The encryption of upstream keys (\<open>src/core/channel_crypto.py\<close>). The cipher is the library's: which texts are valid keys, and
  encryption and decryption under a list of keys, are parameters; \<open>cipher_ok\<close> is what its documentation promises. \<open>None\<close> is the
  error the accessor raises.
\<close>

record cipher =
  ci_valid :: "string \<Rightarrow> bool"
  ci_encrypt :: "string list \<Rightarrow> string \<Rightarrow> string"
  ci_decrypt :: "string list \<Rightarrow> string \<Rightarrow> string option"

text \<open>The configured keys: absent, empty and malformed settings are errors.\<close>

definition cipher_keys :: "cipher \<Rightarrow> string option \<Rightarrow> string list option" where
  "cipher_keys ci raw =
     (case raw of
        None \<Rightarrow> None
      | Some text \<Rightarrow>
          (let keys = [k \<leftarrow> map py_strip (split_all (CHR '','') [] text). k \<noteq> []]
           in if keys = [] then None else if list_all (ci_valid ci) keys then Some keys else None))"

definition encrypt_channel_key :: "cipher \<Rightarrow> string option \<Rightarrow> string \<Rightarrow> string option" where
  "encrypt_channel_key ci raw plaintext = map_option (\<lambda>keys. ci_encrypt ci keys plaintext) (cipher_keys ci raw)"

definition decrypt_channel_key :: "cipher \<Rightarrow> string option \<Rightarrow> string \<Rightarrow> string option" where
  "decrypt_channel_key ci raw ciphertext = (case cipher_keys ci raw of None \<Rightarrow> None | Some keys \<Rightarrow> ci_decrypt ci keys ciphertext)"

text \<open>What is encrypted under the first of a list of keys is read back under every list that has that key.\<close>

definition cipher_ok :: "cipher \<Rightarrow> bool" where
  "cipher_ok ci \<longleftrightarrow>
     (\<forall>keys k older plaintext. k \<in> set keys \<longrightarrow> list_all (ci_valid ci) keys \<longrightarrow> ci_decrypt ci keys (ci_encrypt ci (k # older) plaintext) = Some plaintext)"

text \<open>The key that encrypts under \<open>raw\<close> is one of the keys of \<open>raw'\<close>.\<close>

definition still_configured :: "cipher \<Rightarrow> string option \<Rightarrow> string option \<Rightarrow> bool" where
  "still_configured ci raw raw' \<longleftrightarrow>
     (case (cipher_keys ci raw, cipher_keys ci raw') of (Some (k # _), Some keys) \<Rightarrow> k \<in> set keys | _ \<Rightarrow> False)"

lemma cipher_keys_valid: "cipher_keys ci raw = Some keys \<Longrightarrow> keys \<noteq> [] \<and> list_all (ci_valid ci) keys"
  by (auto simp: cipher_keys_def Let_def split: option.splits if_splits)

lemma decrypts_encrypted:
  assumes "cipher_ok ci" and "encrypt_channel_key ci raw plaintext = Some c" and "still_configured ci raw raw'"
  shows "decrypt_channel_key ci raw' c = Some plaintext"
proof -
  obtain k older keys where "cipher_keys ci raw = Some (k # older)" "cipher_keys ci raw' = Some keys" "k \<in> set keys"
    using assms(3) by (auto simp: still_configured_def split: option.splits list.splits)
  with assms(1,2) cipher_keys_valid [of ci raw' keys] show ?thesis
    by (auto simp: encrypt_channel_key_def decrypt_channel_key_def cipher_ok_def)
qed

section \<open>What the router sends\<close>

lemma add_extra_api_key: "map_of (add_extra kv d) ''api_key'' = map_of d ''api_key''"
  by (auto simp: add_extra_def ALLOWED_EXTRA_KEYS_def map_of_dset)

lemma extras_api_key: "map_of (fold add_extra xs d) ''api_key'' = map_of d ''api_key''"
  by (induction xs arbitrary: d) (simp_all add: add_extra_api_key)

lemma sent_api_key: "map_of (litellm_params k row) ''api_key'' = Some (JStr k)"
  by (simp add: litellm_params_def extras_api_key map_of_set_given)

lemma router_row_key:
  assumes "row \<in> set (get_router_config (gateway_view db))"
  obtains x where "x \<in> set (ai_keys db)" "be_id x = rd_channel_key_id row" "ky_api_key_encrypted x = rd_api_key_encrypted row"
  using assms by (force simp: get_router_config_def router_join_def gateway_view_def view_key_def)

section \<open>Entered keys\<close>

text \<open>The requests that enter the text of key \<open>i\<close>.\<close>

fun enters :: "ai_command \<Rightarrow> (int \<times> string) option" where
  "enters (CreateKey i p) = Some (i, nk_api_key p)"
| "enters (RotateKey i k) = Some (i, k)"
| "enters _ = None"

lemma rows_keep_secret:
  "x \<in> set (update_row i f t) \<Longrightarrow> (\<And>r. be_id (f r) = be_id r \<and> ky_api_key_encrypted (f r) = ky_api_key_encrypted r)
    \<Longrightarrow> \<exists>y\<in>set t. be_id y = be_id x \<and> ky_api_key_encrypted y = ky_api_key_encrypted x"
  unfolding update_row_def by auto

lemma key_changes:
  assumes "ai_perform env a cmd db s = (ROk ((), db', hs), s')" and "x \<in> set (ai_keys db')"
  shows "(\<exists>y\<in>set (ai_keys db). be_id y = be_id x \<and> ky_api_key_encrypted y = ky_api_key_encrypted x \<and> (\<forall>k. enters cmd \<noteq> Some (be_id x, k)))
    \<or> (\<exists>k. enters cmd = Some (be_id x, k) \<and> ce_encrypt env k = Some (ky_api_key_encrypted x))"
proof -
  consider (create) i p where "cmd = CreateKey i p" | (rotate) i k where "cmd = RotateKey i k" | (update) i p where "cmd = UpdateKey i p"
    | (delete) i where "cmd = DeleteKey i" | (other) "ai_keys db' = ai_keys db" "enters cmd = None"
    using assms(1) by (cases cmd) (auto dest!: catalog_outcomes rule_outcomes split: if_splits)
  then show ?thesis
  proof cases
    case (create i p)
    then show ?thesis using assms by (force simp: new_key_def dest!: create_channel_key_ok)
  next
    case (rotate i k)
    then show ?thesis using assms by (auto simp: update_row_def dest!: rotate_channel_key_ok split: if_splits)
  next
    case (update i p)
    then have "x \<in> set (update_row i (apply_key_update p a) (ai_keys db))" using assms by (auto dest!: update_channel_key_ok)
    from rows_keep_secret [OF this] update show ?thesis by (simp add: apply_key_update_def)
  next
    case (delete i)
    then have "x \<in> set (soft_delete_row (Some (au_user_id a)) i (ai_keys db))" using assms by (auto dest!: delete_channel_key_ok)
    from rows_keep_secret [OF this [unfolded soft_delete_row_def]] delete show ?thesis by simp
  next
    case other
    then show ?thesis using assms(2) by auto
  qed
qed

lemma entered_stored:
  assumes "ai_perform env a cmd db s = (ROk ((), db', hs), s')" and "enters cmd = Some (i, k)" and "x \<in> set (ai_keys db')" "be_id x = i"
  shows "ce_encrypt env k = Some (ky_api_key_encrypted x)"
  using key_changes [OF assms(1,3)] assms(2,4) by auto

section \<open>The theorems\<close>

text \<open>
  C12. The upstream receives the key the administrator typed. After a request that enters a key, and any further requests that do not enter
  it anew, under whatever settings they encrypt, every row of the router's configuration that uses the key is built with exactly
  the text that was typed, as long as the encryption key of that request is still configured.
\<close>

theorem entered_key_is_sent:
  assumes "cipher_ok ci" and "ce_encrypt env = encrypt_channel_key ci raw" and "still_configured ci raw raw'"
    and "ai_request env ok a cmd db s = (ROk (), db', s')" and "enters cmd = Some (i, k)"
    and later: "\<forall>(env', ok', a', cmd')\<in>set rs. \<forall>k'. enters cmd' \<noteq> Some (i, k')"
    and "row \<in> set (get_router_config (gateway_view (fst (ai_run rs db' s''))))" and "rd_channel_key_id row = i"
  shows "\<exists>e. deployment_of (decrypt_channel_key ci raw') row = Some e \<and> map_of (de_params e) ''api_key'' = Some (JStr k)"
proof -
  obtain hs where run: "ai_perform env a cmd db s = (ROk ((), db', hs), s)"
    using ai_request_cases [OF assms(4)] by metis
  let ?db = "fst (ai_run rs db' s'')"
  obtain x where x: "x \<in> set (ai_keys ?db)" "be_id x = i" "ky_api_key_encrypted x = rd_api_key_encrypted row"
    using router_row_key [OF assms(7)] assms(8) by metis
  have stored: "\<forall>y\<in>set (ai_keys db'). be_id y = i \<longrightarrow> ce_encrypt env k = Some (ky_api_key_encrypted y)"
    using entered_stored [OF run assms(5)] by blast
  have "\<forall>y\<in>set (ai_keys ?db). be_id y = i \<longrightarrow> ce_encrypt env k = Some (ky_api_key_encrypted y)"
  proof (rule ai_run_keeps [where A = "{(env', a', cmd'). \<forall>k'. enters cmd' \<noteq> Some (i, k')}"])
    fix env' a' cmd' db1 s1 db2 hs'
    assume h: "(env', a', cmd') \<in> {(env', a', cmd'). \<forall>k'. enters cmd' \<noteq> Some (i, k')}"
      "\<forall>y\<in>set (ai_keys db1). be_id y = i \<longrightarrow> ce_encrypt env k = Some (ky_api_key_encrypted y)"
      "ai_perform env' a' cmd' db1 s1 = (ROk ((), db2, hs'), s1)"
    show "\<forall>y\<in>set (ai_keys db2). be_id y = i \<longrightarrow> ce_encrypt env k = Some (ky_api_key_encrypted y)"
      using key_changes [OF h(3)] h(1,2) by (metis (mono_tags, lifting) case_prodD mem_Collect_eq)
  qed (use later stored in auto)
  with x have "encrypt_channel_key ci raw k = Some (rd_api_key_encrypted row)" using assms(2) by auto
  from decrypts_encrypted [OF assms(1) this assms(3)] show ?thesis
    by (simp add: deployment_of_def sent_api_key)
qed

text \<open>
  C13. Keys never stop a rebuild. As long as the encryption key each request used is still configured, after any requests every row the
  router can ask for decrypts: the router is built, whatever channels are left out as degraded.
\<close>

theorem stored_keys_build:
  assumes "cipher_ok ci" and "\<forall>x\<in>set (ai_keys db). decrypt_channel_key ci raw' (ky_api_key_encrypted x) \<noteq> None"
    and envs: "\<forall>(env, ok, a, cmd)\<in>set rs. \<exists>raw. ce_encrypt env = encrypt_channel_key ci raw \<and> still_configured ci raw raw'"
  shows "build_router (decrypt_channel_key ci raw') (live_rows degraded (get_router_config (gateway_view (fst (ai_run rs db s))))) \<noteq> None"
proof -
  let ?P = "\<lambda>db. \<forall>x\<in>set (ai_keys db). decrypt_channel_key ci raw' (ky_api_key_encrypted x) \<noteq> None"
  have "?P (fst (ai_run rs db s))"
  proof (rule ai_run_keeps [where A = "{(env, a, cmd). \<exists>raw. ce_encrypt env = encrypt_channel_key ci raw \<and> still_configured ci raw raw'}"])
    fix env a cmd db1 s1 db2 hs
    assume h: "(env, a, cmd) \<in> {(env, a, cmd). \<exists>raw. ce_encrypt env = encrypt_channel_key ci raw \<and> still_configured ci raw raw'}"
      "?P db1" "ai_perform env a cmd db1 s1 = (ROk ((), db2, hs), s1)"
    then obtain raw where raw: "ce_encrypt env = encrypt_channel_key ci raw" "still_configured ci raw raw'" by auto
    show "?P db2"
    proof
      fix x assume "x \<in> set (ai_keys db2)"
      from key_changes [OF h(3) this] h(2) decrypts_encrypted [OF assms(1) _ raw(2)] raw(1)
      show "decrypt_channel_key ci raw' (ky_api_key_encrypted x) \<noteq> None" by fastforce
    qed
  qed (use envs assms(2) in auto)
  moreover have "build_router d rows \<noteq> None" if "\<forall>r\<in>set rows. d (rd_api_key_encrypted r) \<noteq> None" for d rows
    using that by (induction rows) (auto simp: deployment_of_def)
  ultimately show ?thesis using router_row_key by (metis (no_types, lifting) filter_is_subset live_rows_def subsetD)
qed

text \<open>One stored key that no configured key decrypts, used by an active deployment, keeps every rebuild from happening: the router stays what it was.\<close>

lemma lost_key_stops_rebuilds:
  assumes "row \<in> set (live_rows (fst (get_degraded_channel_ids now s)) (get_router_config d))" and "decrypt (rd_api_key_encrypted row) = None"
    and "rm_fingerprint m \<noteq> Some (router_fingerprint (live_rows (fst (get_degraded_channel_ids now s)) (get_router_config d)))"
  shows "rebuild decrypt now (Some d) s m = (False, m)"
proof -
  have "build_router decrypt rows = None" if "row \<in> set rows" for rows
    using that assms(2) by (induction rows) (auto simp: deployment_of_def split: option.split)
  with assms show ?thesis by (simp add: rebuild_def Let_def)
qed

section \<open>Samples\<close>

text \<open>A cipher that writes the key, marked, in front of the text.\<close>

fun mark :: "string \<Rightarrow> string" where
  "mark [] = ''.''"
| "mark (c # cs) = CHR ''+'' # c # mark cs"

lemma mark_prefix: "starts_with (mark k') (mark k @ t) \<longleftrightarrow> k' = k"
proof (induction k' arbitrary: k)
  case Nil then show ?case by (cases k) (simp_all add: starts_with_def)
next
  case (Cons c cs) then show ?case by (cases k) (auto simp: starts_with_def)
qed

definition marking :: cipher where
  "marking = \<lparr>ci_valid = (\<lambda>k. k \<noteq> ''bad''), ci_encrypt = (\<lambda>keys t. mark (hd keys) @ t),
     ci_decrypt = (\<lambda>keys t. map_option (\<lambda>k. drop (length (mark k)) t) (find (\<lambda>k. starts_with (mark k) t) keys))\<rparr>"

lemma marking_ok: "cipher_ok marking"
proof -
  have "find (\<lambda>k'. k' = k) keys = Some k" if "k \<in> set keys" for k :: string and keys
    using that by (induction keys) auto
  then show ?thesis by (simp add: cipher_ok_def marking_def mark_prefix)
qed

definition live_platform :: ai_db where
  "live_platform = full_platform\<lparr>ai_deployments := [spare_deployment\<lparr>dy_status := ''active''\<rparr>]\<rparr>"

definition vendor_env :: ai_env where
  "vendor_env = local_env\<lparr>ce_encrypt := encrypt_channel_key marking (Some ''old'')\<rparr>"

definition vendor_key :: key_create where
  "vendor_key = \<lparr>nk_channel_id = 5, nk_alias = ''first'', nk_api_key = ''sk-vendor'', nk_status = AS_active, nk_rpm_limit = None,
     nk_tpm_limit = None, nk_weight = 1, nk_priority = 0, nk_remark = None\<rparr>"

lemma rolled_keys: "cipher_keys marking (Some ''old'') = Some [''old'']" "cipher_keys marking (Some ''new, old'') = Some [''new'', ''old'']"
  by code_simp+

lemma vendor_encrypts: "encrypt_channel_key marking (Some ''old'') ''sk-vendor'' = Some ''+o+l+d.sk-vendor''"
  by code_simp

lemma key_entered:
  "ai_request vendor_env True platform_admin (CreateKey 51 vendor_key) live_platform s
    = (ROk (), live_platform\<lparr>ai_keys := [new_key 51 vendor_key ''+o+l+d.sk-vendor'' platform_admin]\<rparr>,
       run_hooks (catalog_hooks (catalog_env.truncate vendor_env)) s)"
proof -
  have e: "ce_encrypt vendor_env (nk_api_key vendor_key) = Some ''+o+l+d.sk-vendor''" using vendor_encrypts by (simp add: vendor_env_def vendor_key_def)
  have c: "repo_get (nk_channel_id vendor_key) (ai_channels live_platform) = Some main_channel" "ai_keys live_platform = []"
    by (simp_all add: repo_get_def scalar_def live_platform_def vendor_key_def platform_defs)
  show ?thesis
    by (simp add: ai_request_def create_channel_key_def db_op_def ensure_def fetched_def e c res_bind_def repo_create_def done_with_def
        catalog_env.defs)
qed

definition sent_row :: router_deployment_row where
  "sent_row = \<lparr>rd_logical_model_name = ''gpt'', rd_logical_model_id = 3, rd_upstream_model = ''gpt-4o'', rd_provider = ''openai'',
     rd_protocol = ''openai'', rd_api_base = None, rd_extra_config = None, rd_api_key_encrypted = ''+o+l+d.sk-vendor'', rd_channel_id = 5,
     rd_channel_key_id = 51, rd_deployment_weight = 1, rd_deployment_priority = 0, rd_key_weight = 1, rd_key_rpm_limit = None,
     rd_key_tpm_limit = None\<rparr>"

lemma row_asked_for:
  "get_router_config (gateway_view (live_platform\<lparr>ai_keys := [new_key 51 vendor_key ''+o+l+d.sk-vendor'' platform_admin]\<rparr>)) = [sent_row]"
  by (simp add: get_router_config_def router_join_def gateway_view_def view_key_def view_model_def view_channel_def view_deployment_def
      live_platform_def platform_defs new_key_def vendor_key_def sent_row_def ACTIVE_def sort_key_def)

theorem entered_key_is_sent_witness:
  "\<exists>e. deployment_of (decrypt_channel_key marking (Some ''new, old'')) sent_row = Some e \<and> map_of (de_params e) ''api_key'' = Some (JStr ''sk-vendor'')"
proof -
  let ?db = "live_platform\<lparr>ai_keys := [new_key 51 vendor_key ''+o+l+d.sk-vendor'' platform_admin]\<rparr>"
  have c: "ce_encrypt vendor_env = encrypt_channel_key marking (Some ''old'')" by (simp add: vendor_env_def)
  have kept: "still_configured marking (Some ''old'') (Some ''new, old'')" using rolled_keys by (simp add: still_configured_def)
  have "enters (CreateKey 51 vendor_key) = Some (51, ''sk-vendor'')" by (simp add: vendor_key_def)
  from entered_key_is_sent [OF marking_ok c kept key_entered this, of "[]" sent_row empty_redis] show ?thesis
    using row_asked_for by (simp add: sent_row_def)
qed

theorem stored_keys_build_witness:
  "build_router (decrypt_channel_key marking (Some ''new, old'')) (live_rows []
     (get_router_config (gateway_view (fst (ai_run [(vendor_env, True, platform_admin, CreateKey 51 vendor_key)] live_platform empty_redis))))) \<noteq> None"
proof -
  have "ai_keys live_platform = []" by (simp add: live_platform_def platform_defs)
  moreover have "\<exists>raw. ce_encrypt vendor_env = encrypt_channel_key marking raw \<and> still_configured marking raw (Some ''new, old'')"
    using rolled_keys by (intro exI [of _ "Some ''old''"]) (simp add: still_configured_def vendor_env_def)
  ultimately show ?thesis by (intro stored_keys_build [OF marking_ok]) auto
qed

end
