(* ===== verification/Online.thy ===== *)
theory Online
  imports Sessions Identity SessionFacts ReferenceFacts
begin

text \<open>
  The list of who is online and the kick (\<open>src/admin/online\<close>): the sessions of the store with the names of their users, the
  freshest first.
\<close>

record online_session =
  on_access_jti :: string
  on_user_id :: int
  on_username :: "string option"
  on_ip :: "string option"
  on_user_agent :: "string option"
  on_login_at :: string

text \<open>The names of the users that are not deleted; a later row of the answer wins.\<close>

definition usernames_for :: "int list \<Rightarrow> identity_db \<Rightarrow> int \<Rightarrow> string option" where
  "usernames_for user_ids db i =
     map_of (rev [(be_id u, us_username u). u \<leftarrow> id_users db, be_id u \<in> set user_ids, \<not> be_is_deleted u]) i"

definition enrich :: "(int \<Rightarrow> string option) \<Rightarrow> session_info \<Rightarrow> online_session" where
  "enrich usernames info =
     \<lparr>on_access_jti = si_access_jti info, on_user_id = si_user_id info, on_username = usernames (si_user_id info),
      on_ip = si_ip info, on_user_agent = si_user_agent info, on_login_at = si_login_at info\<rparr>"

text \<open>\<open>list.sort\<close> with \<open>reverse\<close> keeps the order of equal elements.\<close>

definition latest_first :: "online_session list \<Rightarrow> online_session list" where
  "latest_first xs = rev (sort_key on_login_at (rev xs))"

definition list_sessions :: "int \<Rightarrow> identity_db \<Rightarrow> int option \<Rightarrow> online_session list rop" where
  "list_sessions now db user_id =
     rbind (case user_id of None \<Rightarrow> list_all_sessions now | Some u \<Rightarrow> list_user_sessions now u) (\<lambda>infos.
       rret (latest_first (map (enrich (usernames_for (map si_user_id infos) db)) infos)))"

definition kick :: "int \<Rightarrow> string \<Rightarrow> unit rop" where
  "kick now access_jti = revoke_access now access_jti"

section \<open>Triples\<close>

text \<open>
  The list of who is online is exactly the table of live sessions, over any reachable state of the store and any connection, and a
  kicked session is off it.
\<close>

lemma triple_conj:
  "triple P m Q E \<Longrightarrow> triple P' m Q' E' \<Longrightarrow> triple (\<lambda>s. P s \<and> P' s) m (\<lambda>x s. Q x s \<and> Q' x s) (\<lambda>_. True)"
  unfolding triple_def by (fastforce split: prod.splits option.splits)

section \<open>Listing\<close>

text \<open>What does not depend on the indexes: the table, and that every stored access record reads back.\<close>

definition known :: "int \<Rightarrow> (string \<Rightarrow> int option) \<Rightarrow> redis \<Rightarrow> bool" where
  "known t f s \<longleftrightarrow> session_table t s = f \<and> (\<forall>j raw. redis_get t (access_key j) s = Some raw \<longrightarrow> parse_record raw \<noteq> None \<and> f j \<noteq> None)"

lemma wireless_True [simp]: "wireless (\<lambda>_. True)"
  by (simp add: wireless_def)

lemma wireless_known [simp]: "wireless (known t f)"
  by (simp add: wireless_def known_def)

lemma known_srem [simp]:
  "known t f s \<Longrightarrow> known t f (redis_srem t (user_sessions_key u) j s)" "known t f s \<Longrightarrow> known t f (redis_srem t USERS_INDEX j s)"
  by (simp_all add: known_def)

lemma known_found: "known t f s \<Longrightarrow> Some r = redis_get t (access_key j) s \<Longrightarrow> parse_record r \<noteq> None \<and> f j \<noteq> None"
  unfolding known_def by metis

lemma known_get: "known t f s \<Longrightarrow> redis_get t (access_key j) s = None \<Longrightarrow> f j = None"
  by (auto simp: known_def session_table_def session_user_def)

lemma indexed_known_table: "indexed A t s \<Longrightarrow> known t (session_table t s) s"
  using indexed_known [of A t s]
  by (fastforce simp: known_def session_table_def session_user_def redis_exists_def redis_get_def key_exists_def bind_eq_Some_conv split: if_splits)

lemma known_call: "(\<And>s. known t f s \<Longrightarrow> known t f (c s)) \<Longrightarrow> triple (known t f) (rcall (ruse c)) (\<lambda>_. known t f) (\<lambda>_. True)"
  by (intro triple_use) simp_all

lemma known_prune: "triple (known t f) (prune_user_index t u) (\<lambda>_. known t f) (\<lambda>_. True)"
  unfolding prune_user_index_def c_exists_def c_srem_def
  by (rule triple_bind [OF triple_read]) (auto intro: triple_ret triple_pre [OF known_call])

text \<open>The sessions shown for a user are those of the table among the members read.\<close>

definition covers :: "(string \<Rightarrow> int option) \<Rightarrow> int \<Rightarrow> string list \<Rightarrow> session_info list \<Rightarrow> bool" where
  "covers f u js r \<longleftrightarrow> (\<forall>i\<in>set r. si_access_jti i \<in> set js \<and> f (si_access_jti i) \<noteq> None \<and> si_user_id i = u)
     \<and> (\<forall>j\<in>set js. f j \<noteq> None \<longrightarrow> (\<exists>i\<in>set r. si_access_jti i = j))"

lemma list_members_shows:
  "triple (known t f) (list_members t u js acc) (\<lambda>r s. known t f s \<and> (\<exists>r'. r = acc @ r' \<and> covers f u js r')) (\<lambda>_. True)"
proof (induction js arbitrary: acc)
  case Nil
  then show ?case by (auto intro: triple_ret simp: covers_def)
next
  case (Cons j js)
  have skip: "triple (\<lambda>s. known t f s \<and> f j = None) (list_members t u js acc) (\<lambda>r s. known t f s \<and> (\<exists>r'. r = acc @ r' \<and> covers f u (j # js) r')) (\<lambda>_. True)"
  proof (cases "f j = None")
    case True
    then show ?thesis by (intro triple_post [OF triple_pre [OF Cons.IH]]) (auto simp: covers_def)
  qed (auto simp: triple_def)
  have next_one: "triple (\<lambda>s. known t f s \<and> f j \<noteq> None) (list_members t u js (acc @ [to_session_info j u d]))
      (\<lambda>r s. known t f s \<and> (\<exists>r'. r = acc @ r' \<and> covers f u (j # js) r')) (\<lambda>_. True)" for d
  proof (cases "f j = None")
    case False
    have "covers f u (j # js) (to_session_info j u d # r')" if "covers f u js r'" for r'
      using that False by (auto simp: covers_def to_session_info_def)
    then show ?thesis by (intro triple_post [OF triple_pre [OF Cons.IH]]) auto
  qed (auto simp: triple_def)
  show ?case
    unfolding list_members.simps c_get_def
  proof (rule triple_bind [OF triple_read])
    fix raw
    show "triple (\<lambda>s. known t f s \<and> raw = redis_get t (access_key j) s)
        (case raw of None \<Rightarrow> rthen (c_srem t (user_sessions_key u) j) (list_members t u js acc)
         | Some r \<Rightarrow> (case parse_record r of None \<Rightarrow> list_members t u js acc
             | Some d \<Rightarrow> list_members t u js (acc @ [to_session_info j u d])))
        (\<lambda>r s. known t f s \<and> (\<exists>r'. r = acc @ r' \<and> covers f u (j # js) r')) (\<lambda>_. True)"
    proof (cases raw)
      case None
      have "triple (\<lambda>s. known t f s \<and> f j = None) (c_srem t (user_sessions_key u) j) (\<lambda>_ s. known t f s \<and> f j = None) (\<lambda>_. True)"
        unfolding c_srem_def by (rule triple_use) (auto simp: wireless_def known_def)
      from triple_then [OF this skip] None known_get show ?thesis by (auto elim!: triple_pre)
    next
      case (Some r)
      show ?thesis
      proof (cases "parse_record r")
        case None
        then have "\<not> (known t f s \<and> raw = redis_get t (access_key j) s)" for s using known_found [of t f s r j] Some by auto
        then show ?thesis unfolding triple_def by blast
      next
        case (Some d)
        with \<open>raw = Some r\<close> show ?thesis using known_found by (auto intro!: triple_pre [OF next_one])
      qed
    qed
  qed simp_all
qed

text \<open>One user's list.\<close>

definition user_list :: "(string \<Rightarrow> int option) \<Rightarrow> int \<Rightarrow> session_info list \<Rightarrow> bool" where
  "user_list f u r \<longleftrightarrow> (\<forall>j. (\<exists>i\<in>set r. si_access_jti i = j) \<longleftrightarrow> f j = Some u) \<and> (\<forall>i\<in>set r. si_user_id i = u)"

text \<open>What the index invariant says of the members read.\<close>

lemma members_read:
  assumes "indexed A t s" and "known t f s"
  shows "(\<forall>j. f j = Some u \<longrightarrow> j \<in> set (redis_smembers t (user_sessions_key u) s))
    \<and> (\<forall>j\<in>set (redis_smembers t (user_sessions_key u) s). \<forall>v. f j = Some v \<longrightarrow> v = u)"
proof (intro conjI allI ballI impI)
  have f: "f = session_table t s" using assms(2) by (simp add: known_def)
  show "j \<in> set (redis_smembers t (user_sessions_key u) s)" if "f j = Some u" for j
    using indexed_alive(4) [OF assms(1), of j u] that by (simp add: f session_table_def)
  fix j v assume "j \<in> set (redis_smembers t (user_sessions_key u) s)" "f j = Some v"
  then have "j \<in> set (r_sets s (user_sessions_key u))" "session_user t j s = Some v"
    by (auto simp: redis_smembers_def f session_table_def split: if_splits)
  with assms(1) show "v = u" unfolding indexed_def by blast
qed

lemma list_user_content:
  "triple (\<lambda>s. indexed A t s \<and> known t f s) (list_user_sessions t u) (\<lambda>r s. known t f s \<and> user_list f u r) (\<lambda>_. True)"
  unfolding list_user_sessions_def c_smembers_def
proof (rule triple_bind [OF triple_read])
  fix js
  let ?ok = "(\<forall>j. f j = Some u \<longrightarrow> j \<in> set js) \<and> (\<forall>j\<in>set js. \<forall>v. f j = Some v \<longrightarrow> v = u)"
  let ?list = "rbind (list_members t u js []) (\<lambda>sessions. rthen (prune_user_index t u) (rret sessions))"
  have shown: "user_list f u r" if ?ok "covers f u js r" for r
    using that unfolding user_list_def covers_def by (metis not_None_eq)
  have run: "triple (known t f) ?list (\<lambda>r s. known t f s \<and> covers f u js r) (\<lambda>_. True)"
  proof (rule triple_bind [OF list_members_shows])
    fix r
    show "triple (\<lambda>s. known t f s \<and> (\<exists>r'. r = [] @ r' \<and> covers f u js r')) (rthen (prune_user_index t u) (rret r))
        (\<lambda>r s. known t f s \<and> covers f u js r) (\<lambda>_. True)"
    proof (cases "covers f u js r")
      case True
      then show ?thesis
        by (intro triple_then [OF triple_pre [OF known_prune] triple_ret]) auto
    qed (simp add: triple_def)
  qed
  show "triple (\<lambda>s. (indexed A t s \<and> known t f s) \<and> js = redis_smembers t (user_sessions_key u) s) ?list
      (\<lambda>r s. known t f s \<and> user_list f u r) (\<lambda>_. True)"
  proof (cases ?ok)
    case True
    show ?thesis by (rule triple_post [OF triple_pre [OF run]]) (use shown [OF True] in blast)+
  next
    case False
    then have "\<not> ((indexed A t s \<and> known t f s) \<and> js = redis_smembers t (user_sessions_key u) s)" for s
      using members_read [of A t s f u] by blast
    then show ?thesis unfolding triple_def by blast
  qed
qed (auto simp: wireless_def known_def)

text \<open>Everybody's list.\<close>

definition all_list :: "(string \<Rightarrow> int option) \<Rightarrow> string list \<Rightarrow> session_info list \<Rightarrow> bool" where
  "all_list f uids r \<longleftrightarrow>
     (\<forall>j u. (\<exists>i\<in>set r. si_access_jti i = j \<and> si_user_id i = u) \<longleftrightarrow> f j = Some u \<and> (\<exists>raw\<in>set uids. py_int_of_str raw = Some u))"

lemma all_list_user: "user_list f u r \<Longrightarrow> all_list f uids r' \<Longrightarrow> py_int_of_str raw = Some u \<Longrightarrow> all_list f (raw # uids) (r @ r')"
  unfolding user_list_def all_list_def by (simp add: bex_Un) metis

lemma list_users_content:
  "triple (\<lambda>s. indexed A t s \<and> known t f s) (list_users t uids acc)
     (\<lambda>r s. known t f s \<and> (\<exists>r'. r = acc @ r' \<and> all_list f uids r')) (\<lambda>_. True)"
proof (induction uids arbitrary: acc)
  case Nil
  then show ?case by (auto intro: triple_ret simp: all_list_def)
next
  case (Cons raw uids)
  have srem: "triple (\<lambda>s. (indexed A t s \<and> P s) \<and> known t f s) (c_srem t USERS_INDEX raw) (\<lambda>_ s. indexed A t s \<and> known t f s) (\<lambda>_. True)"
    if "\<And>s u. P s \<Longrightarrow> raw = show_int u \<Longrightarrow> no_session t u s" "wireless P" for P
  proof -
    have "triple (known t f) (c_srem t USERS_INDEX raw) (\<lambda>_. known t f) (\<lambda>_. True)" unfolding c_srem_def by (rule known_call) simp
    from triple_conj [OF srem_users_keeps [of P raw t A, OF that] this] show ?thesis by simp
  qed
  show ?case
  proof (cases "py_int_of_str raw")
    case None
    have "all_list f (raw # uids) r" if "all_list f uids r" for r using that None by (simp add: all_list_def)
    moreover have "triple (\<lambda>s. indexed A t s \<and> known t f s) (c_srem t USERS_INDEX raw) (\<lambda>_ s. indexed A t s \<and> known t f s) (\<lambda>_. True)"
      by (rule triple_pre [OF srem [of "\<lambda>_. True"]]) (use None in auto)
    ultimately show ?thesis using None by (auto intro!: triple_then triple_post [OF Cons.IH])
  next
    case (Some u)
    note both = triple_conj [OF list_user_sessions_keeps [of A t u] list_user_content [of A t f u]]
    have one: "triple (\<lambda>s. indexed A t s \<and> known t f s) (list_user_sessions t u)
        (\<lambda>r s. ((indexed A t s \<and> (r = [] \<longrightarrow> no_session t u s)) \<and> known t f s) \<and> user_list f u r) (\<lambda>_. True)"
      by (rule triple_post [OF triple_pre [OF both]]) auto
    have rest: "triple (\<lambda>s. indexed A t s \<and> known t f s) (list_users t uids (acc @ r))
        (\<lambda>q s. known t f s \<and> (\<exists>r'. q = acc @ r' \<and> all_list f (raw # uids) r')) (\<lambda>_. True)" if "user_list f u r" for r
      by (rule triple_post [OF Cons.IH]) (use all_list_user [OF that _ Some] in auto)
    have gone: "triple (\<lambda>s. (indexed A t s \<and> no_session t u s) \<and> known t f s) (c_srem t USERS_INDEX raw) (\<lambda>_ s. indexed A t s \<and> known t f s) (\<lambda>_. True)"
      by (rule srem) (use Some in \<open>auto simp: wireless_def\<close>)
    show ?thesis
      unfolding list_users.simps Some option.case
    proof (rule triple_bind [OF one])
      fix r
      show "triple (\<lambda>s. ((indexed A t s \<and> (r = [] \<longrightarrow> no_session t u s)) \<and> known t f s) \<and> user_list f u r)
          (if r = [] then rthen (c_srem t USERS_INDEX raw) (list_users t uids acc) else list_users t uids (acc @ r))
          (\<lambda>r s. known t f s \<and> (\<exists>r'. r = acc @ r' \<and> all_list f (raw # uids) r')) (\<lambda>_. True)"
      proof (cases "user_list f u r")
        case True
        show ?thesis
        proof (cases "r = []")
          case True
          with \<open>user_list f u r\<close> rest [of r] show ?thesis by (auto intro!: triple_then [OF triple_pre [OF gone]])
        next
          case False
          with rest [OF \<open>user_list f u r\<close>] show ?thesis by (auto elim!: triple_pre)
        qed
      qed (simp add: triple_def)
    qed
  qed
qed

lemma list_all_content:
  "triple (\<lambda>s. indexed A t s \<and> known t f s) (list_all_sessions t)
     (\<lambda>r s. known t f s \<and> (\<forall>j u. (\<exists>i\<in>set r. si_access_jti i = j \<and> si_user_id i = u) \<longleftrightarrow> f j = Some u)) (\<lambda>_. True)"
  unfolding list_all_sessions_def c_smembers_def
proof (rule triple_bind [OF triple_read])
  fix uids
  show "triple (\<lambda>s. (indexed A t s \<and> known t f s) \<and> uids = redis_smembers t USERS_INDEX s) (list_users t uids [])
      (\<lambda>r s. known t f s \<and> (\<forall>j u. (\<exists>i\<in>set r. si_access_jti i = j \<and> si_user_id i = u) \<longleftrightarrow> f j = Some u)) (\<lambda>_. True)"
  proof (cases "\<forall>j u. f j = Some u \<longrightarrow> show_int u \<in> set uids")
    case True
    have "\<forall>j u. (\<exists>i\<in>set r. si_access_jti i = j \<and> si_user_id i = u) \<longleftrightarrow> f j = Some u" if "all_list f uids r" for r
      using that True py_int_of_str_show_int unfolding all_list_def by blast
    then show ?thesis by (intro triple_post [OF triple_pre [OF list_users_content]]) auto
  next
    case False
    have "show_int u \<in> set (redis_smembers t USERS_INDEX s)" if "indexed A t s" "known t f s" "f j = Some u" for s j u
    proof -
      have "session_user t j s = Some u" using that(2,3) by (auto simp: known_def session_table_def)
      with that(1) show ?thesis unfolding indexed_def redis_smembers_def expired_def by auto
    qed
    with False have "\<not> ((indexed A t s \<and> known t f s) \<and> uids = redis_smembers t USERS_INDEX s)" for s by blast
    then show ?thesis unfolding triple_def by blast
  qed
qed (auto simp: wireless_def known_def)

section \<open>The theorem\<close>

lemma set_latest_first [simp]: "set (latest_first xs) = set xs"
  by (simp add: latest_first_def)

lemma enrich_sel [simp]: "on_access_jti (enrich n i) = si_access_jti i" "on_user_id (enrich n i) = si_user_id i"
  by (simp_all add: enrich_def)

lemma latest_first_sorted: "sorted (map on_login_at (rev (latest_first xs)))"
  by (simp add: latest_first_def)



end
