(* ===== verification/Spec2Isabelle.thy ===== *)
theory Spec2Isabelle
  imports RateFaults QuotaLedger EventSafety ResolutionCache HealthFacts UpstreamFacts HandlerFacts RouterFacts IdentifierFacts
    AuthFacts AccountFacts LockoutFacts PermCacheFacts PrivilegeFacts PlatformSamples ConfigFacts AuditFacts FilesFacts VendorKeys Online
begin

text \<open>
  Janus server, the LLM gateway. The model covers the data path of \<open>src/gateway\<close> with the parts of
  \<open>src/channel_health\<close>, \<open>src/db\<close> and \<open>src/core\<close> it rests on, authentication (\<open>src/auth\<close>) and the
  administration of users, roles, menus and departments, of the catalog, of grants, quota and rate-limit rules, of platform
  keys and of the configuration, with its logs and the list of who is online (\<open>src/admin\<close>), and uploaded files (\<open>src/files\<close>).

  A request goes through these parts, each a group of definitions with the names of the code:

  \<^item> the endpoint (\<open>router.py\<close>, \<open>endpoints_v1.py\<close>: theory Handlers) reads and validates the body
    (\<open>schemas.py\<close>, \<open>_parse_body\<close>: Requests), resolves the model and the rules (\<open>service.py\<close>, \<open>repository.py\<close>,
    \<open>usage.py\<close>: Service, Catalog) through the Redis cache with generations (\<open>cache.py\<close>: Cache);
  \<^item> the gates: the rate limiter (\<open>rate_limit.py\<close>: RateLimit) and the quota enforcer (\<open>quota.py\<close>: Quota);
  \<^item> the response cache (\<open>response_cache.py\<close>: ResponseCache) and the capability filter (\<open>capabilities.py\<close>:
    Capabilities);
  \<^item> the live router (\<open>router_factory.py\<close>, \<open>router_manager.py\<close>: RouterManager), which the channel health
    (\<open>channel_health/\<close>: ChannelHealth) keeps free of degraded channels;
  \<^item> the answer: usage extraction and attribution (Upstream), the stream generators (Streams), the finalizer
    (\<open>context.py\<close>, \<open>finalize.py\<close>: Finalize), which puts usage and log events on the queue (\<open>events.py\<close>: Events);
  \<^item> the batch workers (\<open>usage_batch.py\<close>, \<open>observability.py\<close>, \<open>db/bulk.py\<close>: UsageBatch), which move usage and log
    events to their tables.

  Around it:

  \<^item> ids (\<open>core/snowflake.py\<close>, \<open>core/worker_id.py\<close>: Identifiers): the generator over the readings of its clock, the
    worker id leased in Redis and its heartbeat;
  \<^item> sessions (\<open>core/session_store.py\<close>: Sessions), the login throttle (\<open>core/login_throttle.py\<close>: LoginThrottle) and the cached
    permissions (\<open>core/cache.py\<close>, \<open>auth/perm_cache.py\<close>: PermCache), programs of Redis calls that do not catch (RedisCalls);
  \<^item> the identity tables and their queries (\<open>db/models/identity.py\<close>, \<open>auth/repository.py\<close>: Identity), the use cases of
    authentication (\<open>auth/service.py\<close>, \<open>core/security.py\<close>: AuthService), and the middleware and dependencies that guard the routes
    (\<open>auth/middleware.py\<close>, \<open>credentials.py\<close>, \<open>dependencies.py\<close>: AuthEdge);
  \<^item> the administration: what the services share (\<open>db/repository.py\<close>, \<open>db/session.py\<close>, \<open>core/query.py\<close>: AdminCore), roles and users
    with their guards (AdminPrivileges), menus and departments (AdminTrees), and the requests as commands with the permission
    each route asks for (AdminApi). An operation takes the tables and Redis and returns the new tables with the
    hooks to run after the commit;
  \<^item> the administration of the platform: the rows of its tables, which the gateway and the authentication read through views, with
    the shared lists, filters and pages (AiTables), the check of base addresses (UpstreamUrls), channels, upstream keys, models and
    deployments (\<open>admin/catalog\<close>: CatalogAdmin), grants, quota and rate-limit rules and platform keys (\<open>admin/grants\<close>,
    \<open>quota\<close>, \<open>rate_limits\<close>, \<open>credentials\<close>: GrantAdmin), and the requests as commands with their permissions (AiApi);
  \<^item> the configuration (\<open>core/config_accessor.py\<close>, \<open>admin/config\<close>: SystemConfig), typed values read through a cache of 30 seconds;
    the operation log (\<open>admin/audit\<close>: AuditTrail), which a middleware writes after the route; the list of who is online
    (\<open>admin/online\<close>: Online); the encryption of upstream keys (\<open>core/channel_crypto.py\<close>: VendorKeys); and uploads
    (\<open>files\<close>, \<open>core/image.py\<close>, \<open>core/oss.py\<close>: Files), whose objects live in a bucket beside the tables.

  Enums has the enumerations and the errors (\<open>enums.py\<close>, \<open>exceptions.py\<close>); Prelude, Decimal, Json and
  Calendar are the language and its standard library as the source uses them: results and maps, \<open>Decimal\<close> values
  as coefficient and exponent, JSON values with their text, UTC calendar days. Redis is the store: one map per value kind
  (counters, texts, lists, hashes, sorted sets, sets), a deadline per key, a log of published messages and
  \<open>r_wire\<close>, the behaviour of the connection for the calls to come. \<open>rcall\<close> wraps every round trip: it succeeds, is lost
  before the server runs it, or loses the reply after; the code's own \<open>except\<close> and \<open>suppress\<close> clauses
  decide what follows. A Lua script is one function on the store, as Redis runs it without interleaving.

  Correspondence. A state is passed explicitly and returned updated, in the order of the code's calls. A raise is
  \<open>RErr\<close> with the error the framework renders, a return is \<open>ROk\<close>; \<open>suppress(Exception)\<close> is a case
  distinction on the result. A table is the list of its rows, a query the comprehension its clauses describe; a failed
  query is an input. Times are integers in milliseconds or seconds as in the code; Python integers are \<open>int\<close>; Lua
  numbers are \<open>int\<close> too, exact while the products stay below \<open>2^53\<close>. A Python text is a list of code points below 256.
  Loops are structural recursion except \<open>serve\<close>/\<open>quiet\<close> (measure: pending signals), \<open>dept_walk\<close> (measure: departments not
  seen) and \<open>menu_walk\<close>, which may run forever and is a partial function into \<open>option\<close>: \<open>menu_walk_decides\<close> shows that it returns on trees.
  Fuel is that of the JSON reader, set by \<open>loads\<close> from the length of the text (\<open>loads_dumps\<close> shows that it suffices), and
  that of \<open>menu_ancestors\<close> and \<open>dept_chain\<close>, more than there are rows, each met once.

  Parameters, since their code is not in the repository: the routing library (its answers and exceptions, the capability table),
  JSON parsing of request bodies and coercion by the validation library, the digest of fingerprints, the cipher of upstream keys,
  the image library, the object storage, the clock and the random draws. Hypotheses on them are stated where they are used: a digest
  without collisions for the response cache; a cipher that reads back, under every list of keys with the encrypting one, what it encrypted
  (\<open>cipher_ok\<close>); password hashing, token signing and verification and random texts are fields of
  \<open>auth_env\<close>, about which nothing is assumed; a clock that does not run backwards, a connection without faults
  (\<open>r_wire s = []\<close>) where a property is about undisturbed operation.

  The interfaces. Redis has three locales for what the components rely on: a counter store, a sorted-set store and a
  hash store, each interpreted on the commands of the store. Frames has \<open>frame_rel\<close>, the contract of a relation
  between stores that the end of a request keeps, interpreted on the sorted sets and the texts; GateFrames has
  \<open>own_frame\<close> and its extensions \<open>rate_frame\<close> and \<open>quota_frame\<close>, the same for the gates: rate limiting is shown not to touch quota
  counters and event queues, quota checking not to touch windows, buckets and semaphores. SessionFacts has \<open>session_frame\<close>, the contract of
  an assertion that the session store's deletions keep, and TreeFacts \<open>tree_table\<close>, a table whose rows name a parent, interpreted
  for menus and departments. KeyedTables has \<open>indexed\<close>, a table with a unique index that deletion frees, interpreted on the eight indexes
  of the platform's tables and on the keys of the configuration. EventLists has \<open>event_lists\<close>, a pending, an inflight and a dead-letter
  list, and \<open>batch_worker\<close>, which adds a bulk insert that writes what it is given; EventSafety interprets it for both workers.

  What is shown.

  \<^item> Rate limiter (RateLimitFacts, Admission, RateFaults): no sliding minute exceeds the limit, the semaphore holds,
    an admitted request holds every gate and a refused one none; under faults the emergency limiter's cap, and denials are final.
  \<^item> Quota (QuotaFacts, QuotaLedger): the script is all or nothing and equal to its fallback; over any interleaving of
    reservations, settlements and compensations a counter is settled usage plus reservations in flight, within its limit up to
    the estimate errors; its key outlives every request and is not shared.
  \<^item> Events and batches (EventFacts, EventLists, EventSafety): order, bounded retry, recovery once, and no event lost whatever call
    fails; the insert is idempotent.
  \<^item> Finalizer (FinalizeFacts): exact charge, at most once, kept in the dead letters when Redis fails; the usage text
    parses back to the row with the exact cost.
  \<^item> Caches (Service, ResolutionCache, ResponseCache): forms read back, resolution is current, answers only for the same request.
  \<^item> Streams and upstream (StreamFacts, UpstreamFacts): terminators, billing of what was delivered, independence of
    chunking, the slot freed.
  \<^item> Channels (HealthFacts, RouterFacts): degradation on evidence, disabling after exactly the configured failures; the live router
    is the current configuration, survives its grace period, and no invalidation is lost by the debounce.
  \<^item> Requests and endpoints (Requests, Capabilities, HandlerFacts): reserved keys are never forwarded, the gates
    admit or leave no trace, an answered request moves every counter by exactly its usage, a failed one by nothing, the listed
    models are those that resolve.

  \<^item> Ids (IdentifierFacts): unique, ordered, invertible; a renewed lease was never another's.
  \<^item> Sessions (SessionFacts): triples over the calls carry an index invariant, from which the store refines a table of
    tokens, revocation is complete and a refresh token is spent once, whatever calls fail.
  \<^item> Authentication (AuthFacts, LockoutFacts, PermCacheFacts): routes open only to live sessions with the permission, keys stay on
    the model paths, an unknown name looks like a wrong password, few guesses get through, cached permissions are never
    older than the last invalidation.
  \<^item> Administration (TreeFacts, ReferenceFacts, PrivilegeFacts, AccountFacts): the tables stay well-formed, nobody hands out power it
    lacks or touches users it does not dominate, closed accounts have no sessions.
  \<^item> The platform (AiOutcomes, one lemma per operation on what it leaves behind; PlatformFacts, TableFacts, PlatformRules, with examples in
    PlatformSamples): through the caches of the gateway every committed change is seen by the next request, the tables keep their keys
    and indexes, platform keys are issued only with the right to, answer for their owner and stay dead once deleted, global rules
    are the superuser's, production uses TLS, an active deployment has its model and its channel.
  \<^item> Upstream keys (VendorKeys): what an administrator typed is what the router sends, across changes of the configured keys, and stored
    keys never stop a rebuild while the keys that encrypted them are configured.
  \<^item> Configuration and logs (ConfigFacts, AuditFacts): values parse under their type, readings are at most the lifetime of a cache
    entry old, every change of the platform is on record unless its headers do not fit.
  \<^item> Files (FilesFacts): profile pictures are objects the server encoded itself; every row has its object.
  \<^item> Online: the list is the table of live sessions.

  Lemmas that record defects of the code, as it is: \<open>menu_toggle_escalates\<close>, \<open>oversized_agent_uncounted\<close>,
  \<open>long_request_id_blocks_batch\<close>, \<open>padded_headers_unaudited\<close>, \<open>catalog_label_blurred\<close>, \<open>crash_unaudited\<close>,
  \<open>deleted_config_key_taken\<close>, \<open>null_type_crashes\<close>, \<open>null_value_crashes\<close>, \<open>long_name_orphans\<close>, \<open>lost_key_stops_rebuilds\<close>,
  \<open>crossed_moves_hang\<close>, \<open>reactivated_orphan\<close>, \<open>deleted_rule_blocks\<close>, \<open>rule_made_twice\<close>,
  \<open>malformed_base_crashes\<close>, \<open>idle_refresh_survives_revocation\<close>, \<open>fence_after_expiry\<close>, \<open>wait_not_bounded\<close>,
  \<open>foreign_entry_raises\<close>, \<open>redis_error_leaks_reservation\<close>,
  \<open>late_write_caches_stale_entry\<close>, \<open>bare_error_counts_twice\<close>, \<open>failed_stream_keeps_slot\<close>,
  \<open>missing_router_keeps_reservations\<close>, \<open>null_n_keeps_reservations\<close> and \<open>system_instruction_dropped\<close>.

  Not modelled: the HTTP framework and the middleware for locale and security headers, logging, tracing; the pixels of images and
  the transport to the object storage (third-party); the declarations of tables (their rows are
  records here), migrations and scripts (generated or one-off); the subscription loop and the task
  management of the router manager, of which the model has the signals as a list of times; the read-only
  usage and metrics queries, the dashboards, and the paged lists of users and roles.
\<close>

end
